(* ===== verification/Prelude.thy ===== *)
theory Prelude
  imports Main "HOL-Library.Word" "HOL-Library.Monad_Syntax"
begin

text \<open>
  Shared vocabulary of the development: the machine integer types, the representation of C
  pointers and of undefined behaviour, C library functions that several components call, and the
  generic lemmas on lists that the component proofs use.

  Conventions used by every theory:
  \<^item> a C pointer that may be NULL is an \<open>option\<close>, with \<open>None\<close> for NULL;
  \<^item> an operation that can abort (a failed \<open>assert\<close>, \<open>abort\<close>) or run into undefined behaviour
    (a NULL dereference, an access out of bounds, a read of an uninitialised variable) returns an
    \<open>option\<close> that is \<open>None\<close> in that case; the error codes of the source stay ordinary
    values inside the \<open>Some\<close>;
  \<^item> memory allocation is taken to succeed, as the source never tests its result.
\<close>

unbundle bit_operations_syntax

section \<open>Types\<close>

type_synonym u8 = "8 word"
type_synonym u32 = "32 word"
type_synonym u64 = "64 word"

text \<open>A C string is the list of its characters without the terminating NUL.\<close>

type_synonym cstr = "string option"

section \<open>Collections of facts\<close>

named_theorems inv_rules \<open>introduction rules: an operation keeps an invariant\<close>
named_theorems frame_simps \<open>simplification rules: what an operation leaves unchanged\<close>

section \<open>The C library\<close>

text \<open>\<open>strdup\<close> dereferences its argument: NULL is undefined behaviour.\<close>

definition os_strdup :: "cstr \<Rightarrow> cstr option" where
  "os_strdup s = (case s of None \<Rightarrow> None | Some str \<Rightarrow> Some (Some str))"

lemma os_strdup_simps [simp]:
  "os_strdup None = None" "os_strdup (Some s) = Some (Some s)"
  by (simp_all add: os_strdup_def)

lemma os_strdup_eq_Some [simp]: "os_strdup s = Some t \<longleftrightarrow> s \<noteq> None \<and> t = s"
  by (cases s) auto

text \<open>\<open>strcmp\<close> returning 0 on two strings.\<close>

abbreviation (input) streq :: "string \<Rightarrow> string \<Rightarrow> bool" where
  "streq s t \<equiv> s = t"

text \<open>A C integer used as a condition.\<close>

abbreviation (input) ctrue :: "int \<Rightarrow> bool" where
  "ctrue n \<equiv> n \<noteq> 0"

text \<open>A bit mask test \<open>flags & mask\<close> used as a condition.\<close>

definition has_flag :: "u32 \<Rightarrow> u32 \<Rightarrow> bool" where
  "has_flag flags m \<longleftrightarrow> flags AND m \<noteq> 0"

section \<open>Processes\<close>

text \<open>A process that goes on, or that has ended with a status; \<open>None\<close> around it is \<open>abort\<close> or a fault.\<close>

datatype 'a process = Running 'a | Exited int

definition EXIT_SUCCESS :: int where "EXIT_SUCCESS = 0"
definition EXIT_FAILURE :: int where "EXIT_FAILURE = 1"

lemma bindE: "Option.bind x f = Some y \<Longrightarrow> (\<And>z. x = Some z \<Longrightarrow> f z = Some y \<Longrightarrow> P) \<Longrightarrow> P"
  by (cases x) simp_all

section \<open>Lists\<close>

text \<open>Updating one element of a list changes a count by the difference of the two elements.\<close>

lemma length_filter_list_update:
  assumes "i < length xs"
  shows "length (filter P (xs[i := x])) + (if P (xs ! i) then 1 else 0)
       = length (filter P xs) + (if P x then 1 else 0)"
proof -
  have xs: "xs = take i xs @ xs ! i # drop (Suc i) xs"
    using assms by (simp add: id_take_nth_drop)
  have upd: "xs[i := x] = take i xs @ x # drop (Suc i) xs"
    using assms by (simp add: upd_conv_take_nth_drop)
  have "length (filter P xs) = length (filter P (take i xs))
      + (if P (xs ! i) then 1 else 0) + length (filter P (drop (Suc i) xs))"
    by (subst xs) simp
  then show ?thesis
    by (simp add: upd)
qed

lemma length_filter_less_iff:
  "length (filter P xs) < length xs \<longleftrightarrow> (\<exists>i < length xs. \<not> P (xs ! i))"
proof
  assume less: "length (filter P xs) < length xs"
  show "\<exists>i < length xs. \<not> P (xs ! i)"
  proof (rule ccontr)
    assume "\<not> ?thesis"
    then have "\<forall>x \<in> set xs. P x"
      by (auto simp: in_set_conv_nth)
    then have "filter P xs = xs"
      by (simp add: filter_id_conv)
    with less show False
      by simp
  qed
next
  assume "\<exists>i < length xs. \<not> P (xs ! i)"
  then show "length (filter P xs) < length xs"
    by (auto intro!: length_filter_less)
qed

end
