(* ===== verification/Status.thy ===== *)
theory Status
  imports Prelude
begin

text \<open>
  File scan statuses and scan reports: \<open>libcore/status.c\<close>, \<open>libcore/report.c\<close>,
  \<open>libcore/action.c\<close> and the headers that declare their types. The comparison of two statuses
  decides which verdict of several scan modules is kept.
\<close>

section \<open>Statuses\<close>

datatype a6o_file_status =
    A6O_FILE_UNDECIDED
  | A6O_FILE_CLEAN
  | A6O_FILE_UNKNOWN_TYPE
  | A6O_FILE_EINVAL
  | A6O_FILE_IERROR
  | A6O_FILE_SUSPICIOUS
  | A6O_FILE_WHITE_LISTED
  | A6O_FILE_MALWARE

text \<open>
  \<open>None\<close> is the \<open>assert(1 == 0)\<close> that follows the \<open>switch\<close>: the two statuses the
  \<open>switch\<close> does not list reach it.
\<close>

definition a6o_file_status_cmp :: "a6o_file_status \<Rightarrow> a6o_file_status \<Rightarrow> int option" where
  "a6o_file_status_cmp s1 s2 =
    (if s1 = s2 then Some 0
     else case s1 of
       A6O_FILE_UNDECIDED \<Rightarrow> Some (-1)
     | A6O_FILE_CLEAN \<Rightarrow> Some (if s2 = A6O_FILE_UNDECIDED then 1 else -1)
     | A6O_FILE_IERROR \<Rightarrow>
         Some (if s2 = A6O_FILE_UNDECIDED \<or> s2 = A6O_FILE_CLEAN then 1 else -1)
     | A6O_FILE_SUSPICIOUS \<Rightarrow>
         Some (if s2 = A6O_FILE_UNDECIDED \<or> s2 = A6O_FILE_CLEAN \<or> s2 = A6O_FILE_IERROR
               then 1 else -1)
     | A6O_FILE_WHITE_LISTED \<Rightarrow>
         Some (if s2 = A6O_FILE_UNDECIDED \<or> s2 = A6O_FILE_CLEAN \<or> s2 = A6O_FILE_IERROR
                  \<or> s2 = A6O_FILE_SUSPICIOUS
               then 1 else -1)
     | A6O_FILE_MALWARE \<Rightarrow> Some 1
     | _ \<Rightarrow> None)"

definition a6o_file_status_str :: "a6o_file_status \<Rightarrow> string" where
  "a6o_file_status_str st = (case st of
       A6O_FILE_UNDECIDED \<Rightarrow> ''A6O_FILE_UNDECIDED''
     | A6O_FILE_CLEAN \<Rightarrow> ''A6O_FILE_CLEAN''
     | A6O_FILE_UNKNOWN_TYPE \<Rightarrow> ''A6O_FILE_UNKNOWN_TYPE''
     | A6O_FILE_EINVAL \<Rightarrow> ''A6O_FILE_EINVAL''
     | A6O_FILE_IERROR \<Rightarrow> ''A6O_FILE_IERROR''
     | A6O_FILE_SUSPICIOUS \<Rightarrow> ''A6O_FILE_SUSPICIOUS''
     | A6O_FILE_WHITE_LISTED \<Rightarrow> ''A6O_FILE_WHITE_LISTED''
     | A6O_FILE_MALWARE \<Rightarrow> ''A6O_FILE_MALWARE'')"

definition a6o_file_status_pretty_str :: "a6o_file_status \<Rightarrow> string" where
  "a6o_file_status_pretty_str st = (case st of
       A6O_FILE_UNDECIDED \<Rightarrow> ''undecided''
     | A6O_FILE_CLEAN \<Rightarrow> ''clean''
     | A6O_FILE_UNKNOWN_TYPE \<Rightarrow> ''ignored''
     | A6O_FILE_EINVAL \<Rightarrow> ''invalid argument''
     | A6O_FILE_IERROR \<Rightarrow> ''internal error''
     | A6O_FILE_SUSPICIOUS \<Rightarrow> ''suspicious''
     | A6O_FILE_WHITE_LISTED \<Rightarrow> ''white listed''
     | A6O_FILE_MALWARE \<Rightarrow> ''malware'')"

section \<open>Actions\<close>

definition A6O_ACTION_NONE :: u32 where "A6O_ACTION_NONE = 0"
definition A6O_ACTION_ALERT :: u32 where "A6O_ACTION_ALERT = push_bit 1 1"
definition A6O_ACTION_QUARANTINE :: u32 where "A6O_ACTION_QUARANTINE = push_bit 2 1"
definition A6O_ACTION_REMOVE :: u32 where "A6O_ACTION_REMOVE = push_bit 3 1"

lemmas action_defs =
  A6O_ACTION_NONE_def A6O_ACTION_ALERT_def A6O_ACTION_QUARANTINE_def A6O_ACTION_REMOVE_def

definition a6o_action_pretty_str :: "u32 \<Rightarrow> string" where
  "a6o_action_pretty_str action =
    (let a = action AND (A6O_ACTION_ALERT OR A6O_ACTION_QUARANTINE OR A6O_ACTION_REMOVE)
     in if a = A6O_ACTION_ALERT then ''alert''
        else if a = A6O_ACTION_ALERT OR A6O_ACTION_QUARANTINE then ''alert+quarantine''
        else if a = A6O_ACTION_ALERT OR A6O_ACTION_REMOVE then ''alert+removed''
        else ''none'')"

section \<open>Reports\<close>

record a6o_report =
  rep_path :: cstr
  rep_status :: a6o_file_status
  rep_action :: u32
  rep_module_name :: cstr
  rep_module_report :: cstr

definition a6o_report_init :: "cstr \<Rightarrow> a6o_report" where
  "a6o_report_init path =
    \<lparr>rep_path = path, rep_status = A6O_FILE_UNDECIDED, rep_action = A6O_ACTION_NONE,
     rep_module_name = None, rep_module_report = None\<rparr>"

definition a6o_report_change ::
  "a6o_report \<Rightarrow> a6o_file_status \<Rightarrow> cstr \<Rightarrow> cstr \<Rightarrow> a6o_report" where
  "a6o_report_change report status module_name module_report =
    (let r1 = report\<lparr>rep_status := status\<rparr>;
         r2 = (if module_name \<noteq> None then r1\<lparr>rep_module_name := module_name\<rparr> else r1)
     in if module_report \<noteq> None then r2\<lparr>rep_module_report := module_report\<rparr> else r2)"

text \<open>The strings that \<open>a6o_report_destroy\<close> releases; the module name belongs to the module.\<close>

definition a6o_report_destroy :: "a6o_report \<Rightarrow> string list" where
  "a6o_report_destroy report =
    (case rep_path report of None \<Rightarrow> [] | Some p \<Rightarrow> [p])
    @ (case rep_module_report report of None \<Rightarrow> [] | Some r \<Rightarrow> [r])"

lemma a6o_report_change_simps [frame_simps, simp]:
  "rep_status (a6o_report_change r st n m) = st"
  "rep_path (a6o_report_change r st n m) = rep_path r"
  "rep_action (a6o_report_change r st n m) = rep_action r"
  "rep_module_name (a6o_report_change r st n m) = (if n = None then rep_module_name r else n)"
  "rep_module_report (a6o_report_change r st n m) = (if m = None then rep_module_report r else m)"
  by (simp_all add: a6o_report_change_def Let_def)

lemma a6o_report_init_simps [simp]:
  "rep_status (a6o_report_init p) = A6O_FILE_UNDECIDED"
  "rep_path (a6o_report_init p) = p"
  "rep_action (a6o_report_init p) = A6O_ACTION_NONE"
  "rep_module_name (a6o_report_init p) = None"
  "rep_module_report (a6o_report_init p) = None"
  by (simp_all add: a6o_report_init_def)

section \<open>The order on statuses\<close>

text \<open>
  The statuses the comparison handles, in increasing order of authority. The two others (a type no
  module handles, an invalid argument) have no rank.
\<close>

definition ranked :: "a6o_file_status \<Rightarrow> bool" where
  "ranked s \<longleftrightarrow> s \<noteq> A6O_FILE_UNKNOWN_TYPE \<and> s \<noteq> A6O_FILE_EINVAL"

fun rank :: "a6o_file_status \<Rightarrow> int" where
  "rank A6O_FILE_UNDECIDED = 0"
| "rank A6O_FILE_CLEAN = 1"
| "rank A6O_FILE_IERROR = 2"
| "rank A6O_FILE_SUSPICIOUS = 3"
| "rank A6O_FILE_WHITE_LISTED = 4"
| "rank A6O_FILE_MALWARE = 5"
| "rank _ = 6"

lemma rank_inj: "ranked s \<Longrightarrow> ranked t \<Longrightarrow> rank s = rank t \<Longrightarrow> s = t"
  by (cases s; cases t) (auto simp: ranked_def)

lemma rank_nonneg: "0 \<le> rank s"
  by (cases s) auto

lemma rank_le_5: "ranked s \<Longrightarrow> rank s \<le> 5"
  by (cases s) (auto simp: ranked_def)

lemma file_status_cmp_ranked:
  "ranked s1 \<Longrightarrow> ranked s2 \<Longrightarrow> a6o_file_status_cmp s1 s2 = Some (sgn (rank s1 - rank s2))"
  by (cases s1; cases s2) (auto simp: a6o_file_status_cmp_def ranked_def)

lemma file_status_cmp_fault:
  "a6o_file_status_cmp s1 s2 = None \<longleftrightarrow> \<not> ranked s1 \<and> s1 \<noteq> s2"
  by (cases s1) (auto simp: a6o_file_status_cmp_def ranked_def)

lemma file_status_cmp_defined: "ranked s1 \<Longrightarrow> \<exists>n. a6o_file_status_cmp s1 s2 = Some n"
  using file_status_cmp_fault [of s1 s2] by (cases "a6o_file_status_cmp s1 s2") auto

section \<open>Properties\<close>

text \<open>
  C6: the comparison of two statuses. On the six statuses that it lists it is a strict total order
  read as a sign, undecided being the lowest and malware the highest; the assertion after its
  \<open>switch\<close> fails exactly when the first status is one of the two others and differs from the
  second.
\<close>

theorem status_cmp_total_order:
  "(a6o_file_status_cmp s1 s2 = None \<longleftrightarrow> s1 \<in> {A6O_FILE_UNKNOWN_TYPE, A6O_FILE_EINVAL} \<and> s1 \<noteq> s2)
    \<and> (ranked s1 \<and> ranked s2 \<longrightarrow>
        a6o_file_status_cmp s1 s2 = Some (sgn (rank s1 - rank s2))
        \<and> (a6o_file_status_cmp s1 s2 = Some 0 \<longleftrightarrow> s1 = s2))"
  using file_status_cmp_fault [of s1 s2] file_status_cmp_ranked [of s1 s2] rank_inj [of s1 s2]
  by (auto simp: ranked_def sgn_if split: if_splits)

theorem status_cmp_total_order_witness:
  "a6o_file_status_cmp A6O_FILE_SUSPICIOUS A6O_FILE_MALWARE = Some (-1)"
  using status_cmp_total_order [of A6O_FILE_SUSPICIOUS A6O_FILE_MALWARE]
  by (simp add: ranked_def)

end
