(* ===== verification/ConfVal.thy ===== *)
theory ConfVal
  imports Prelude
begin

text \<open>
  Configuration values, \<open>libmodule/confval.c\<close>: a tagged union of an integer, a string and a list of
  strings. The integer is kept at its width; an array and its length are one list. Strings are copied
  with \<open>a6o_strdup\<close>, which gives back the string itself (theory \<open>Buffer\<close>).
\<close>

datatype a6o_conf_value =
    CV_VOID
  | CV_INT u32
  | CV_STRING cstr
  | CV_LIST "string list"

definition CONF_TYPE_VOID :: u32 where "CONF_TYPE_VOID = 0"
definition CONF_TYPE_INT :: u32 where "CONF_TYPE_INT = push_bit 0 1"
definition CONF_TYPE_STRING :: u32 where "CONF_TYPE_STRING = push_bit 1 1"
definition CONF_TYPE_LIST :: u32 where "CONF_TYPE_LIST = push_bit 2 1"

lemmas conf_type_defs =
  CONF_TYPE_VOID_def CONF_TYPE_INT_def CONF_TYPE_STRING_def CONF_TYPE_LIST_def

definition a6o_conf_value_get_type :: "a6o_conf_value \<Rightarrow> u32" where
  "a6o_conf_value_get_type cv = (case cv of
       CV_VOID \<Rightarrow> CONF_TYPE_VOID
     | CV_INT _ \<Rightarrow> CONF_TYPE_INT
     | CV_STRING _ \<Rightarrow> CONF_TYPE_STRING
     | CV_LIST _ \<Rightarrow> CONF_TYPE_LIST)"

definition a6o_conf_value_set_void :: "a6o_conf_value \<Rightarrow> a6o_conf_value" where
  "a6o_conf_value_set_void cv = CV_VOID"

definition a6o_conf_value_set_int :: "a6o_conf_value \<Rightarrow> u32 \<Rightarrow> a6o_conf_value" where
  "a6o_conf_value_set_int cv val = CV_INT val"

definition a6o_conf_value_set_string :: "a6o_conf_value \<Rightarrow> cstr \<Rightarrow> a6o_conf_value" where
  "a6o_conf_value_set_string cv val = CV_STRING val"

definition a6o_conf_value_set_list :: "a6o_conf_value \<Rightarrow> string list \<Rightarrow> a6o_conf_value" where
  "a6o_conf_value_set_list cv val = CV_LIST val"

definition a6o_conf_value_init :: "a6o_conf_value \<Rightarrow> a6o_conf_value" where
  "a6o_conf_value_init cv = a6o_conf_value_set_void cv"

text \<open>Besides the new value, the strings that \<open>a6o_conf_value_destroy\<close> releases.\<close>

definition a6o_conf_value_destroy :: "a6o_conf_value \<Rightarrow> a6o_conf_value \<times> string list" where
  "a6o_conf_value_destroy cv =
    (CV_VOID,
     case cv of
       CV_VOID \<Rightarrow> []
     | CV_INT _ \<Rightarrow> []
     | CV_STRING s \<Rightarrow> (case s of None \<Rightarrow> [] | Some t \<Rightarrow> [t])
     | CV_LIST ss \<Rightarrow> ss)"

definition a6o_conf_value_set :: "a6o_conf_value \<Rightarrow> a6o_conf_value \<Rightarrow> a6o_conf_value" where
  "a6o_conf_value_set cv src = (case src of
       CV_VOID \<Rightarrow> a6o_conf_value_set_void cv
     | CV_INT i \<Rightarrow> a6o_conf_value_set_int cv i
     | CV_STRING s \<Rightarrow> a6o_conf_value_set_string cv s
     | CV_LIST ss \<Rightarrow> a6o_conf_value_set_list cv ss)"

lemma a6o_conf_value_set_copies [simp]: "a6o_conf_value_set cv src = src"
  by (cases src) (simp_all add: a6o_conf_value_set_def a6o_conf_value_set_void_def
      a6o_conf_value_set_int_def a6o_conf_value_set_string_def a6o_conf_value_set_list_def)

lemma conf_types_distinct [simp]:
  "CONF_TYPE_VOID \<noteq> CONF_TYPE_INT" "CONF_TYPE_VOID \<noteq> CONF_TYPE_STRING"
  "CONF_TYPE_VOID \<noteq> CONF_TYPE_LIST" "CONF_TYPE_INT \<noteq> CONF_TYPE_STRING"
  "CONF_TYPE_INT \<noteq> CONF_TYPE_LIST" "CONF_TYPE_STRING \<noteq> CONF_TYPE_LIST"
  "CONF_TYPE_INT \<noteq> CONF_TYPE_VOID" "CONF_TYPE_STRING \<noteq> CONF_TYPE_VOID"
  "CONF_TYPE_LIST \<noteq> CONF_TYPE_VOID" "CONF_TYPE_STRING \<noteq> CONF_TYPE_INT"
  "CONF_TYPE_LIST \<noteq> CONF_TYPE_INT" "CONF_TYPE_LIST \<noteq> CONF_TYPE_STRING"
  by (simp_all add: conf_type_defs)

lemma get_type_simps [simp]:
  "a6o_conf_value_get_type CV_VOID = CONF_TYPE_VOID"
  "a6o_conf_value_get_type (CV_INT i) = CONF_TYPE_INT"
  "a6o_conf_value_get_type (CV_STRING s) = CONF_TYPE_STRING"
  "a6o_conf_value_get_type (CV_LIST ss) = CONF_TYPE_LIST"
  by (simp_all add: a6o_conf_value_get_type_def)

lemma get_type_eq_iff:
  "a6o_conf_value_get_type cv = CONF_TYPE_INT \<longleftrightarrow> (\<exists>i. cv = CV_INT i)"
  "a6o_conf_value_get_type cv = CONF_TYPE_STRING \<longleftrightarrow> (\<exists>s. cv = CV_STRING s)"
  "a6o_conf_value_get_type cv = CONF_TYPE_LIST \<longleftrightarrow> (\<exists>ss. cv = CV_LIST ss)"
  by (cases cv; simp)+

end
