(* ===== verification/Interfaces.thy ===== *)
theory Interfaces
  imports Prelude
begin

text \<open>
  Interfaces between components, as locales: what the client of a store may rely on. The stores of
  the program interpret them, the hash table of the RPC library in theory \<open>HashTable\<close> and the
  configuration in theory \<open>Conf\<close>.
\<close>

section \<open>Stores that accept fresh keys\<close>

text \<open>
  \<open>add k v s\<close> stores a binding and gives \<open>None\<close> when it does not. The law covers keys that are
  not bound yet, and only keys of the kind the store accepts.
\<close>

locale fresh_store =
  fixes inv :: "'s \<Rightarrow> bool"
    and fits :: "'s \<Rightarrow> 'k \<Rightarrow> bool"
    and lookup :: "'s \<Rightarrow> 'k \<Rightarrow> 'v option"
    and add :: "'k \<Rightarrow> 'v \<Rightarrow> 's \<Rightarrow> 's option"
  assumes add_fresh:
    "inv s \<Longrightarrow> fits s k \<Longrightarrow> lookup s k = None \<Longrightarrow>
      \<exists>s'. add k v s = Some s' \<and> inv s' \<and> fits s' = fits s \<and> lookup s' = (lookup s)(k \<mapsto> v)"
begin

fun add_all :: "('k \<times> 'v) list \<Rightarrow> 's \<Rightarrow> 's option" where
  "add_all [] s = Some s"
| "add_all (kv # kvs) s = Option.bind (add (fst kv) (snd kv) s) (add_all kvs)"

lemma add_all_fresh:
  assumes "inv s" "distinct (map fst kvs)" "\<forall>k \<in> fst ` set kvs. fits s k \<and> lookup s k = None"
  shows "\<exists>s'. add_all kvs s = Some s' \<and> inv s' \<and> lookup s' = lookup s ++ map_of kvs"
  using assms
proof (induction kvs arbitrary: s)
  case (Cons kv kvs)
  obtain k v where kv: "kv = (k, v)" by force
  obtain s1 where s1: "add k v s = Some s1" "inv s1" "fits s1 = fits s"
      "lookup s1 = (lookup s)(k \<mapsto> v)"
    using add_fresh [of s k v] Cons.prems kv by auto
  have "distinct (map fst kvs)" and "\<forall>k' \<in> fst ` set kvs. fits s1 k' \<and> lookup s1 k' = None"
    using Cons.prems(2,3) s1(3,4) kv by auto
  then obtain s' where s': "add_all kvs s1 = Some s'" "inv s'" "lookup s' = lookup s1 ++ map_of kvs"
    using Cons.IH [OF s1(2)] by blast
  have "map_of kvs k = None"
    using Cons.prems(2) kv by (simp add: map_of_eq_None_iff)
  then have "lookup s1 ++ map_of kvs = lookup s ++ map_of (kv # kvs)"
    using s1(4) kv by (auto simp: map_add_def fun_eq_iff split: option.splits)
  with s1(1) s' kv show ?case
    by (intro exI [of _ s']) (simp del: map_of.simps)
qed simp

end

section \<open>Stores from which bindings are removed\<close>

locale removable_store = fresh_store inv fits lookup add
  for inv :: "'s \<Rightarrow> bool" and fits :: "'s \<Rightarrow> 'k \<Rightarrow> bool" and lookup :: "'s \<Rightarrow> 'k \<Rightarrow> 'v option"
    and add :: "'k \<Rightarrow> 'v \<Rightarrow> 's \<Rightarrow> 's option" +
  fixes remove :: "'k \<Rightarrow> 's \<Rightarrow> 's option"
  assumes remove_law:
    "inv s \<Longrightarrow> fits s k \<Longrightarrow>
      \<exists>s'. remove k s = Some s' \<and> inv s' \<and> fits s' = fits s \<and> lookup s' = (lookup s)(k := None)"
begin

text \<open>A binding that is added and then removed leaves the store with the bindings it had.\<close>

lemma add_then_remove:
  assumes "inv s" "fits s k" "lookup s k = None"
  shows "\<exists>s1 s2. add k v s = Some s1 \<and> lookup s1 k = Some v
    \<and> remove k s1 = Some s2 \<and> inv s2 \<and> lookup s2 = lookup s"
proof -
  obtain s1 where s1: "add k v s = Some s1" "inv s1" "fits s1 = fits s" "lookup s1 = (lookup s)(k \<mapsto> v)"
    using add_fresh [OF assms] by blast
  obtain s2 where "remove k s1 = Some s2" "inv s2" "lookup s2 = (lookup s1)(k := None)"
    using remove_law [of s1 k] s1 assms(2) by auto
  with s1 assms(3) show ?thesis
    by (auto simp: fun_upd_idem)
qed

end

end
