(* ===== verification/Conf.thy ===== *)
theory Conf
  imports ConfVal Interfaces
begin

text \<open>
  The configuration store, \<open>libcore/conf.c\<close>: sections in the order of their first definition, each
  with its keys in order. The two \<open>GPtrArray\<close>s are lists and a pointer to one of their elements is
  its index; reading and writing configuration files is in theory \<open>ConfFile\<close>.
\<close>

section \<open>Data and operations\<close>

record key_entry =
  ke_key :: string
  ke_value :: a6o_conf_value

record section_entry =
  se_section :: string
  se_keys :: "key_entry list"

record a6o_conf =
  conf_sections :: "section_entry list"

text \<open>The index of the first element the comparison accepts, \<open>None\<close> for NULL.\<close>

fun array_search :: "('a \<Rightarrow> string \<Rightarrow> bool) \<Rightarrow> 'a list \<Rightarrow> string \<Rightarrow> nat option" where
  "array_search cmp [] name = None"
| "array_search cmp (x # xs) name =
    (if cmp x name then Some 0 else map_option Suc (array_search cmp xs name))"

definition section_entry_new :: "string \<Rightarrow> section_entry" where
  "section_entry_new sec = \<lparr>se_section = sec, se_keys = []\<rparr>"

definition section_entry_cmp :: "section_entry \<Rightarrow> string \<Rightarrow> bool" where
  "section_entry_cmp s name \<longleftrightarrow> streq (se_section s) name"

definition section_entry_get :: "a6o_conf \<Rightarrow> string \<Rightarrow> nat option" where
  "section_entry_get conf sec = array_search section_entry_cmp (conf_sections conf) sec"

definition section_entry_add :: "a6o_conf \<Rightarrow> string \<Rightarrow> a6o_conf \<times> nat" where
  "section_entry_add conf sec =
    (conf\<lparr>conf_sections := conf_sections conf @ [section_entry_new sec]\<rparr>,
     length (conf_sections conf))"

text \<open>The value of a new entry is not initialised; every caller sets it at once.\<close>

definition key_entry_new :: "string \<Rightarrow> key_entry" where
  "key_entry_new key = \<lparr>ke_key = key, ke_value = CV_VOID\<rparr>"

definition key_entry_cmp :: "key_entry \<Rightarrow> string \<Rightarrow> bool" where
  "key_entry_cmp k name \<longleftrightarrow> streq (ke_key k) name"

definition key_entry_get_sect :: "section_entry \<Rightarrow> string \<Rightarrow> nat option" where
  "key_entry_get_sect s key = array_search key_entry_cmp (se_keys s) key"

definition key_entry_get :: "a6o_conf \<Rightarrow> string \<Rightarrow> string \<Rightarrow> (nat \<times> nat) option" where
  "key_entry_get conf sec key = (case section_entry_get conf sec of
       None \<Rightarrow> None
     | Some i \<Rightarrow> map_option (Pair i) (key_entry_get_sect (conf_sections conf ! i) key))"

definition key_entry_add_sect :: "section_entry \<Rightarrow> string \<Rightarrow> section_entry \<times> nat" where
  "key_entry_add_sect s key =
    (s\<lparr>se_keys := se_keys s @ [key_entry_new key]\<rparr>, length (se_keys s))"

definition key_entry_add :: "a6o_conf \<Rightarrow> string \<Rightarrow> string \<Rightarrow> a6o_conf \<times> (nat \<times> nat) option" where
  "key_entry_add conf sec key =
    (let (conf1, i) = (case section_entry_get conf sec of
            None \<Rightarrow> section_entry_add conf sec
          | Some i \<Rightarrow> (conf, i));
         s = conf_sections conf1 ! i
     in if key_entry_get_sect s key \<noteq> None then (conf1, None)
        else let (s1, j) = key_entry_add_sect s key
             in (conf1\<lparr>conf_sections := (conf_sections conf1)[i := s1]\<rparr>, Some (i, j)))"

text \<open>Access through a pointer to a key entry: \<open>k->value\<close>.\<close>

definition entry_value :: "a6o_conf \<Rightarrow> nat \<times> nat \<Rightarrow> a6o_conf_value" where
  "entry_value conf p = ke_value (se_keys (conf_sections conf ! fst p) ! snd p)"

definition set_entry_value :: "a6o_conf \<Rightarrow> nat \<times> nat \<Rightarrow> a6o_conf_value \<Rightarrow> a6o_conf" where
  "set_entry_value conf p v =
    (let s = conf_sections conf ! fst p; k = se_keys s ! snd p
     in conf\<lparr>conf_sections := (conf_sections conf)[fst p :=
               s\<lparr>se_keys := (se_keys s)[snd p := k\<lparr>ke_value := v\<rparr>]\<rparr>]\<rparr>)"

definition a6o_conf_new :: a6o_conf where
  "a6o_conf_new = \<lparr>conf_sections = []\<rparr>"

text \<open>The calls of \<open>a6o_conf_apply\<close>, threading the user data.\<close>

fun apply_keys ::
  "(string \<Rightarrow> string \<Rightarrow> a6o_conf_value \<Rightarrow> 's \<Rightarrow> 's) \<Rightarrow> string \<Rightarrow> key_entry list \<Rightarrow> 's \<Rightarrow> 's" where
  "apply_keys f sec [] st = st"
| "apply_keys f sec (k # ks) st = apply_keys f sec ks (f sec (ke_key k) (ke_value k) st)"

fun apply_sections ::
  "(string \<Rightarrow> string \<Rightarrow> a6o_conf_value \<Rightarrow> 's \<Rightarrow> 's) \<Rightarrow> section_entry list \<Rightarrow> 's \<Rightarrow> 's" where
  "apply_sections f [] st = st"
| "apply_sections f (s # ss) st = apply_sections f ss (apply_keys f (se_section s) (se_keys s) st)"

definition a6o_conf_apply ::
  "a6o_conf \<Rightarrow> (string \<Rightarrow> string \<Rightarrow> a6o_conf_value \<Rightarrow> 's \<Rightarrow> 's) \<Rightarrow> 's \<Rightarrow> 's" where
  "a6o_conf_apply conf f user_data = apply_sections f (conf_sections conf) user_data"

definition a6o_conf_get_sections :: "a6o_conf \<Rightarrow> string list" where
  "a6o_conf_get_sections conf = map se_section (conf_sections conf)"

definition a6o_conf_get_keys :: "a6o_conf \<Rightarrow> string \<Rightarrow> string list option" where
  "a6o_conf_get_keys conf sec = (case section_entry_get conf sec of
       None \<Rightarrow> None
     | Some i \<Rightarrow> Some (map ke_key (se_keys (conf_sections conf ! i))))"

definition a6o_conf_has_key :: "a6o_conf \<Rightarrow> string \<Rightarrow> string \<Rightarrow> bool" where
  "a6o_conf_has_key conf sec key \<longleftrightarrow> key_entry_get conf sec key \<noteq> None"

definition a6o_conf_get_type :: "a6o_conf \<Rightarrow> string \<Rightarrow> string \<Rightarrow> u32" where
  "a6o_conf_get_type conf sec key = (case key_entry_get conf sec key of
       None \<Rightarrow> CONF_TYPE_VOID
     | Some p \<Rightarrow> a6o_conf_value_get_type (entry_value conf p))"

definition a6o_conf_is_int :: "a6o_conf \<Rightarrow> string \<Rightarrow> string \<Rightarrow> bool" where
  "a6o_conf_is_int conf sec key = (case key_entry_get conf sec key of
       None \<Rightarrow> False
     | Some p \<Rightarrow> a6o_conf_value_get_type (entry_value conf p) = CONF_TYPE_INT)"

definition a6o_conf_is_string :: "a6o_conf \<Rightarrow> string \<Rightarrow> string \<Rightarrow> bool" where
  "a6o_conf_is_string conf sec key = (case key_entry_get conf sec key of
       None \<Rightarrow> False
     | Some p \<Rightarrow> a6o_conf_value_get_type (entry_value conf p) = CONF_TYPE_STRING)"

definition a6o_conf_is_list :: "a6o_conf \<Rightarrow> string \<Rightarrow> string \<Rightarrow> bool" where
  "a6o_conf_is_list conf sec key = (case key_entry_get conf sec key of
       None \<Rightarrow> False
     | Some p \<Rightarrow> a6o_conf_value_get_type (entry_value conf p) = CONF_TYPE_LIST)"

definition a6o_conf_get_value ::
  "a6o_conf \<Rightarrow> string \<Rightarrow> string \<Rightarrow> a6o_conf_value \<Rightarrow> int \<times> a6o_conf_value" where
  "a6o_conf_get_value conf sec key v = (case key_entry_get conf sec key of
       None \<Rightarrow> (0, v)
     | Some p \<Rightarrow> (1, a6o_conf_value_set v (entry_value conf p)))"

definition a6o_conf_get_uint :: "a6o_conf \<Rightarrow> string \<Rightarrow> string \<Rightarrow> int" where
  "a6o_conf_get_uint conf sec key = (case key_entry_get conf sec key of
       None \<Rightarrow> -1
     | Some p \<Rightarrow> (case entry_value conf p of CV_INT i \<Rightarrow> sint i | _ \<Rightarrow> -1))"

definition a6o_conf_get_string :: "a6o_conf \<Rightarrow> string \<Rightarrow> string \<Rightarrow> cstr" where
  "a6o_conf_get_string conf sec key = (case key_entry_get conf sec key of
       None \<Rightarrow> None
     | Some p \<Rightarrow> (case entry_value conf p of CV_STRING s \<Rightarrow> s | _ \<Rightarrow> None))"

definition a6o_conf_get_list :: "a6o_conf \<Rightarrow> string \<Rightarrow> string \<Rightarrow> string list option" where
  "a6o_conf_get_list conf sec key = (case key_entry_get conf sec key of
       None \<Rightarrow> None
     | Some p \<Rightarrow> (case entry_value conf p of CV_LIST ss \<Rightarrow> Some ss | _ \<Rightarrow> None))"

definition a6o_conf_set_value ::
  "a6o_conf \<Rightarrow> string \<Rightarrow> string \<Rightarrow> a6o_conf_value \<Rightarrow> int \<times> a6o_conf" where
  "a6o_conf_set_value conf sec key v = (case key_entry_get conf sec key of
       None \<Rightarrow> (1, conf)
     | Some p \<Rightarrow>
         (if a6o_conf_value_get_type (entry_value conf p) \<noteq> a6o_conf_value_get_type v then (1, conf)
          else (0, set_entry_value conf p (a6o_conf_value_set (entry_value conf p) v))))"

definition a6o_conf_set_uint :: "a6o_conf \<Rightarrow> string \<Rightarrow> string \<Rightarrow> u32 \<Rightarrow> int \<times> a6o_conf" where
  "a6o_conf_set_uint conf sec key val = (case key_entry_get conf sec key of
       None \<Rightarrow> (1, conf)
     | Some p \<Rightarrow>
         (if a6o_conf_value_get_type (entry_value conf p) \<noteq> CONF_TYPE_INT then (1, conf)
          else (0, set_entry_value conf p (a6o_conf_value_set_int (entry_value conf p) val))))"

definition a6o_conf_set_string :: "a6o_conf \<Rightarrow> string \<Rightarrow> string \<Rightarrow> cstr \<Rightarrow> int \<times> a6o_conf" where
  "a6o_conf_set_string conf sec key val = (case key_entry_get conf sec key of
       None \<Rightarrow> (1, conf)
     | Some p \<Rightarrow>
         (if a6o_conf_value_get_type (entry_value conf p) \<noteq> CONF_TYPE_STRING then (1, conf)
          else let v = fst (a6o_conf_value_destroy (entry_value conf p))
               in (0, set_entry_value conf p (a6o_conf_value_set_string v val))))"

definition a6o_conf_set_list :: "a6o_conf \<Rightarrow> string \<Rightarrow> string \<Rightarrow> string list \<Rightarrow> int \<times> a6o_conf" where
  "a6o_conf_set_list conf sec key val = (case key_entry_get conf sec key of
       None \<Rightarrow> (1, conf)
     | Some p \<Rightarrow>
         (if a6o_conf_value_get_type (entry_value conf p) \<noteq> CONF_TYPE_LIST then (1, conf)
          else let v = fst (a6o_conf_value_destroy (entry_value conf p))
               in (0, set_entry_value conf p (a6o_conf_value_set_list v val))))"

definition a6o_conf_add_value ::
  "a6o_conf \<Rightarrow> string \<Rightarrow> string \<Rightarrow> a6o_conf_value \<Rightarrow> int \<times> a6o_conf" where
  "a6o_conf_add_value conf sec key v = (case key_entry_add conf sec key of
       (conf1, None) \<Rightarrow> (1, conf1)
     | (conf1, Some p) \<Rightarrow> (0, set_entry_value conf1 p (a6o_conf_value_set (entry_value conf1 p) v)))"

definition a6o_conf_add_uint :: "a6o_conf \<Rightarrow> string \<Rightarrow> string \<Rightarrow> u32 \<Rightarrow> int \<times> a6o_conf" where
  "a6o_conf_add_uint conf sec key val = (case key_entry_add conf sec key of
       (conf1, None) \<Rightarrow> (1, conf1)
     | (conf1, Some p) \<Rightarrow> (0, set_entry_value conf1 p (a6o_conf_value_set_int (entry_value conf1 p) val)))"

definition a6o_conf_add_string :: "a6o_conf \<Rightarrow> string \<Rightarrow> string \<Rightarrow> cstr \<Rightarrow> int \<times> a6o_conf" where
  "a6o_conf_add_string conf sec key val = (case key_entry_add conf sec key of
       (conf1, None) \<Rightarrow> (1, conf1)
     | (conf1, Some p) \<Rightarrow>
         (0, set_entry_value conf1 p (a6o_conf_value_set_string (entry_value conf1 p) val)))"

definition a6o_conf_add_list :: "a6o_conf \<Rightarrow> string \<Rightarrow> string \<Rightarrow> string list \<Rightarrow> int \<times> a6o_conf" where
  "a6o_conf_add_list conf sec key val = (case key_entry_add conf sec key of
       (conf1, None) \<Rightarrow> (1, conf1)
     | (conf1, Some p) \<Rightarrow> (0, set_entry_value conf1 p (a6o_conf_value_set_list (entry_value conf1 p) val)))"

section \<open>Searching the arrays\<close>

lemma cmp_iff:
  "section_entry_cmp s n \<longleftrightarrow> n = se_section s"
  "key_entry_cmp k n \<longleftrightarrow> n = ke_key k"
  by (auto simp: section_entry_cmp_def key_entry_cmp_def)


lemma array_search_Cons:
  "array_search section_entry_cmp (s # ss) name =
    (if name = se_section s then Some 0 else map_option Suc (array_search section_entry_cmp ss name))"
  "array_search key_entry_cmp (k # ks) name =
    (if name = ke_key k then Some 0 else map_option Suc (array_search key_entry_cmp ks name))"
  by (simp_all only: array_search.simps cmp_iff)

lemma array_search_Some:
  "array_search cmp xs name = Some i \<Longrightarrow> i < length xs \<and> cmp (xs ! i) name"
  by (induction xs arbitrary: i) (auto split: if_splits)

lemma array_search_None: "array_search cmp xs name = None \<longleftrightarrow> (\<forall>x \<in> set xs. \<not> cmp x name)"
  by (induction xs) auto

lemma array_search_append:
  "array_search cmp (xs @ [x]) name = (case array_search cmp xs name of
      Some i \<Rightarrow> Some i
    | None \<Rightarrow> if cmp x name then Some (length xs) else None)"
  by (induction xs) (auto split: option.splits)

lemma array_search_update:
  "(\<And>n. cmp y n = cmp (xs ! i) n) \<Longrightarrow> array_search cmp (xs[i := y]) name = array_search cmp xs name"
  by (induction xs arbitrary: i) (auto split: nat.splits)

lemma search_Some:
  "array_search section_entry_cmp ss name = Some i \<Longrightarrow> i < length ss \<and> se_section (ss ! i) = name"
  "array_search key_entry_cmp ks name = Some j \<Longrightarrow> j < length ks \<and> ke_key (ks ! j) = name"
  by (drule array_search_Some, simp only: cmp_iff)+

lemma key_entry_get_Some:
  assumes "key_entry_get conf s k = Some (i, j)"
  shows "section_entry_get conf s = Some i" "key_entry_get_sect (conf_sections conf ! i) k = Some j"
    "i < length (conf_sections conf)" "se_section (conf_sections conf ! i) = s"
    "j < length (se_keys (conf_sections conf ! i))" "ke_key (se_keys (conf_sections conf ! i) ! j) = k"
  using assms
  by (auto simp: key_entry_get_def section_entry_get_def key_entry_get_sect_def split: option.splits dest!: search_Some)

lemma key_entry_get_inj:
  "key_entry_get conf s k = Some p \<Longrightarrow> key_entry_get conf s' k' = Some p \<Longrightarrow> s = s' \<and> k = k'"
  using key_entry_get_Some by (cases p) metis

lemma search_None:
  "array_search section_entry_cmp ss name = None \<longleftrightarrow> name \<notin> se_section ` set ss"
  "array_search key_entry_cmp ks name = None \<longleftrightarrow> name \<notin> ke_key ` set ks"
  unfolding array_search_None cmp_iff by auto

lemma search_append:
  "array_search section_entry_cmp (ss @ [s]) name = (case array_search section_entry_cmp ss name of
      Some i \<Rightarrow> Some i
    | None \<Rightarrow> if name = se_section s then Some (length ss) else None)"
  "array_search key_entry_cmp (ks @ [k]) name = (case array_search key_entry_cmp ks name of
      Some i \<Rightarrow> Some i
    | None \<Rightarrow> if name = ke_key k then Some (length ks) else None)"
  unfolding array_search_append cmp_iff by (rule refl)+

lemma search_update:
  "se_section s = se_section (ss ! i) \<Longrightarrow>
    array_search section_entry_cmp (ss[i := s]) name = array_search section_entry_cmp ss name"
  "ke_key k = ke_key (ks ! j) \<Longrightarrow>
    array_search key_entry_cmp (ks[j := k]) name = array_search key_entry_cmp ks name"
  by (rule array_search_update; simp only: cmp_iff)+

declare array_search.simps(2) [simp del]
declare array_search_Cons [simp]

section \<open>The map a configuration stands for\<close>

definition conf_alist :: "a6o_conf \<Rightarrow> ((string \<times> string) \<times> a6o_conf_value) list" where
  "conf_alist conf = concat (map (\<lambda>s. map (\<lambda>k. ((se_section s, ke_key k), ke_value k)) (se_keys s))
    (conf_sections conf))"

definition conf_map :: "a6o_conf \<Rightarrow> string \<times> string \<rightharpoonup> a6o_conf_value" where
  "conf_map conf = map_of (conf_alist conf)"

definition conf_inv :: "a6o_conf \<Rightarrow> bool" where
  "conf_inv conf \<longleftrightarrow> distinct (map se_section (conf_sections conf))
    \<and> (\<forall>s \<in> set (conf_sections conf). distinct (map ke_key (se_keys s)))"

lemma conf_new_inv [inv_rules]: "conf_inv a6o_conf_new"
  by (simp add: conf_inv_def a6o_conf_new_def)

lemma conf_new_map: "conf_map a6o_conf_new = Map.empty"
  by (simp add: conf_map_def conf_alist_def a6o_conf_new_def)

text \<open>No two entries of a configuration have the same section and key.\<close>

lemma conf_alist_distinct:
  assumes "conf_inv conf"
  shows "distinct (map fst (conf_alist conf))"
proof -
  have key: "fst ` set (map (\<lambda>k. ((se_section s, ke_key k), ke_value k)) (se_keys s)) \<subseteq> {se_section s} \<times> UNIV" for s
    by auto
  have keys: "fst ` set (concat (map (\<lambda>s. map (\<lambda>k. ((se_section s, ke_key k), ke_value k)) (se_keys s)) ss))
      \<subseteq> se_section ` set ss \<times> UNIV" for ss
    by auto
  have "distinct (map fst (concat (map (\<lambda>s. map (\<lambda>k. ((se_section s, ke_key k), ke_value k)) (se_keys s)) ss)))"
    if "distinct (map se_section ss)" "\<forall>s \<in> set ss. distinct (map ke_key (se_keys s))" for ss
    using that
  proof (induction ss)
    case (Cons s ss)
    let ?f = "\<lambda>s. map (\<lambda>k. ((se_section s, ke_key k), ke_value k)) (se_keys s)"
    have "map fst (?f s) = map (Pair (se_section s)) (map ke_key (se_keys s))"
      by simp
    then have "distinct (map fst (?f s))"
      using Cons.prems(2) by (metis distinct_map inj_on_def list.set_intros(1) prod.inject)
    moreover have "set (map fst (?f s)) \<inter> set (map fst (concat (map ?f ss))) = {}"
      using key [of s] keys [of ss] Cons.prems(1) by fastforce
    moreover have "distinct (map fst (concat (map ?f ss)))"
      using Cons by simp
    ultimately show ?case
      unfolding list.map concat.simps map_append distinct_append by blast
  qed simp
  with assms show ?thesis
    unfolding conf_inv_def conf_alist_def by blast
qed

lemma map_of_keys:
  "map_of (map (\<lambda>k. ((sec, ke_key k), ke_value k)) ks) (s, key) =
    (if s = sec then map_option (\<lambda>j. ke_value (ks ! j)) (array_search key_entry_cmp ks key) else None)"
  by (induction ks) (auto simp: option.map_comp comp_def)

lemma map_of_sections:
  assumes "distinct (map se_section ss)"
  shows "map_of (concat (map (\<lambda>s. map (\<lambda>k. ((se_section s, ke_key k), ke_value k)) (se_keys s)) ss)) (s, key)
    = (case array_search section_entry_cmp ss s of
         None \<Rightarrow> None
       | Some i \<Rightarrow> map_option (\<lambda>j. ke_value (se_keys (ss ! i) ! j))
           (array_search key_entry_cmp (se_keys (ss ! i)) key))"
  using assms
proof (induction ss)
  case (Cons x ss)
  have none: "array_search section_entry_cmp ss (se_section x) = None"
    using Cons.prems by (force simp: search_None)
  show ?case
  proof (cases "s = se_section x")
    case True
    then show ?thesis
      using Cons none
      by (auto simp: map_add_def map_of_keys split: option.splits)
  next
    case False
    then show ?thesis
      using Cons
      by (auto simp: map_add_def map_of_keys split: option.splits)
  qed
qed simp

lemma conf_map_get:
  assumes "conf_inv conf"
  shows "conf_map conf (s, k) = map_option (entry_value conf) (key_entry_get conf s k)"
  using assms map_of_sections [of "conf_sections conf" s k]
  by (auto simp: conf_map_def conf_alist_def conf_inv_def key_entry_get_def section_entry_get_def
      key_entry_get_sect_def entry_value_def option.map_comp comp_def split: option.splits)

section \<open>Writing through a pointer\<close>

lemma set_entry_value_get:
  assumes "key_entry_get conf s k = Some p"
  shows "key_entry_get (set_entry_value conf p v) s' k' = key_entry_get conf s' k'"
proof (cases p)
  case (Pair i j)
  note P = key_entry_get_Some [OF assms [unfolded Pair]]
  let ?s = "conf_sections conf ! i"
  let ?s' = "?s\<lparr>se_keys := (se_keys ?s)[j := (se_keys ?s ! j)\<lparr>ke_value := v\<rparr>]\<rparr>"
  have conf': "conf_sections (set_entry_value conf p v) = (conf_sections conf)[i := ?s']"
    by (simp add: set_entry_value_def Pair Let_def)
  have "array_search section_entry_cmp ((conf_sections conf)[i := ?s']) s'
      = array_search section_entry_cmp (conf_sections conf) s'"
    by (rule search_update) simp
  moreover have "array_search key_entry_cmp (se_keys ?s') k' = array_search key_entry_cmp (se_keys ?s) k'"
    by (simp, rule search_update) simp
  ultimately show ?thesis
    using P(3) unfolding key_entry_get_def section_entry_get_def key_entry_get_sect_def conf'
    by (auto simp: nth_list_update split: option.splits)
qed

lemma set_entry_value_value:
  assumes "key_entry_get conf s k = Some p" "key_entry_get conf s' k' = Some q"
  shows "entry_value (set_entry_value conf p v) q = (if q = p then v else entry_value conf q)"
  using key_entry_get_Some [of conf s k "fst p" "snd p"] key_entry_get_Some [of conf s' k' "fst q" "snd q"] assms
  by (cases p; cases q) (auto simp: set_entry_value_def entry_value_def Let_def nth_list_update)

lemma set_entry_value_inv:
  assumes "conf_inv conf" "key_entry_get conf s k = Some p"
  shows "conf_inv (set_entry_value conf p v)"
proof (cases p)
  case (Pair i j)
  note P = key_entry_get_Some [OF assms(2) [unfolded Pair]]
  let ?s = "conf_sections conf ! i"
  have names: "map se_section (conf_sections (set_entry_value conf p v)) = map se_section (conf_sections conf)"
    using P(3) by (simp add: set_entry_value_def Let_def Pair map_update list_update_same_conv)
  have "map ke_key ((se_keys ?s)[j := (se_keys ?s ! j)\<lparr>ke_value := v\<rparr>]) = map ke_key (se_keys ?s)"
    using P(5) by (simp add: map_update list_update_same_conv)
  moreover have "distinct (map ke_key (se_keys ?s))"
    using assms(1) P(3) by (simp add: conf_inv_def)
  ultimately show ?thesis
    using assms(1) names unfolding conf_inv_def
    by (auto simp: set_entry_value_def Let_def Pair dest!: set_update_subset_insert [THEN subsetD])
qed

lemma set_entry_value_map:
  assumes "conf_inv conf" "key_entry_get conf s k = Some p"
  shows "conf_map (set_entry_value conf p v) = (conf_map conf)((s, k) \<mapsto> v)"
proof
  fix x :: "string \<times> string"
  obtain s' k' where x: "x = (s', k')" by force
  have new: "conf_map (set_entry_value conf p v) x
      = map_option (entry_value (set_entry_value conf p v)) (key_entry_get conf s' k')"
    unfolding x conf_map_get [OF set_entry_value_inv [OF assms]] set_entry_value_get [OF assms(2)] ..
  show "conf_map (set_entry_value conf p v) x = ((conf_map conf)((s, k) \<mapsto> v)) x"
  proof (cases "key_entry_get conf s' k'")
    case None
    with new assms(2) conf_map_get [OF assms(1), of s' k'] show ?thesis
      by (auto simp: x)
  next
    case (Some q)
    have old: "conf_map conf x = Some (entry_value conf q)"
      using Some by (simp add: x conf_map_get [OF assms(1)])
    have new': "conf_map (set_entry_value conf p v) x = Some (if q = p then v else entry_value conf q)"
      using new Some set_entry_value_value [OF assms(2) Some, of v] by simp
    have "q = p \<longleftrightarrow> x = (s, k)"
    proof
      assume "q = p"
      with key_entry_get_inj [OF assms(2), of s' k'] Some x show "x = (s, k)" by simp
    next
      assume "x = (s, k)"
      with Some x assms(2) show "q = p" by simp
    qed
    then show ?thesis
      using old new' by (simp add: fun_upd_def)
  qed
qed

section \<open>Adding an entry\<close>

lemma key_entry_get_new_section:
  assumes "section_entry_get conf sec = None"
    and "se_section e = sec"
  shows "key_entry_get (conf\<lparr>conf_sections := conf_sections conf @ [e]\<rparr>) sec k =
    map_option (Pair (length (conf_sections conf))) (key_entry_get_sect e k)"
  using assms by (simp add: key_entry_get_def section_entry_get_def search_append)

lemma key_entry_add_spec:
  assumes "conf_inv conf"
  shows "case key_entry_add conf sec key of
      (conf1, None) \<Rightarrow> conf1 = conf \<and> key_entry_get conf sec key \<noteq> None
    | (conf1, Some p) \<Rightarrow> key_entry_get conf sec key = None \<and> conf_inv conf1
        \<and> key_entry_get conf1 sec key = Some p
        \<and> (\<forall>x. x \<noteq> (sec, key) \<longrightarrow> conf_map conf1 x = conf_map conf x)"
proof (cases "section_entry_get conf sec")
  case None
  let ?e = "\<lparr>se_section = sec, se_keys = [key_entry_new key]\<rparr>"
  let ?c = "conf\<lparr>conf_sections := conf_sections conf @ [?e]\<rparr>"
  have add: "key_entry_add conf sec key = (?c, Some (length (conf_sections conf), 0))"
    using None
    by (simp add: key_entry_add_def section_entry_add_def section_entry_new_def Let_def
        key_entry_get_sect_def key_entry_add_sect_def)
  have absent: "\<forall>s \<in> set (conf_sections conf). se_section s \<noteq> sec"
    using None by (auto simp: section_entry_get_def search_None)
  have inv: "conf_inv ?c"
    using assms absent by (auto simp: conf_inv_def)
  have "key_entry_get ?c sec key = Some (length (conf_sections conf), 0)"
    by (subst key_entry_get_new_section [OF None])
       (simp_all add: key_entry_get_sect_def key_entry_new_def)
  moreover have "conf_map ?c x = conf_map conf x" if "x \<noteq> (sec, key)" for x
    using that by (auto simp: conf_map_def conf_alist_def key_entry_new_def map_add_def
        split: option.splits)
  ultimately show ?thesis
    using add inv None by (simp add: key_entry_get_def)
next
  case (Some i)
  let ?s = "conf_sections conf ! i"
  have i: "i < length (conf_sections conf)" "se_section ?s = sec"
    using Some by (auto simp: section_entry_get_def dest: search_Some)
  show ?thesis
  proof (cases "key_entry_get_sect ?s key")
    case (Some j)
    with \<open>section_entry_get conf sec = Some i\<close> show ?thesis
      by (simp add: key_entry_add_def Let_def key_entry_get_def)
  next
    case None
    let ?s' = "?s\<lparr>se_keys := se_keys ?s @ [key_entry_new key]\<rparr>"
    let ?c = "conf\<lparr>conf_sections := (conf_sections conf)[i := ?s']\<rparr>"
    have add: "key_entry_add conf sec key = (?c, Some (i, length (se_keys ?s)))"
      using None Some by (simp add: key_entry_add_def Let_def key_entry_add_sect_def)
    have absent: "\<forall>k \<in> set (se_keys ?s). ke_key k \<noteq> key"
      using None by (auto simp: key_entry_get_sect_def search_None)
    have names: "map se_section (conf_sections ?c) = map se_section (conf_sections conf)"
      using i(1) by (simp add: map_update list_update_same_conv)
    have "distinct (map ke_key (se_keys ?s'))"
      using assms absent i(1) by (auto simp: conf_inv_def key_entry_new_def)
    then have inv: "conf_inv ?c"
      using assms names unfolding conf_inv_def
      by (auto dest!: set_update_subset_insert [THEN subsetD])
    have sec: "section_entry_get ?c s = section_entry_get conf s" for s
      unfolding section_entry_get_def
      by (simp, rule search_update) simp
    have get: "key_entry_get ?c sec key = Some (i, length (se_keys ?s))"
      using Some None i(1) unfolding key_entry_get_def sec
      by (simp add: key_entry_get_sect_def search_append key_entry_new_def)
    have "conf_map ?c x = conf_map conf x" if x: "x \<noteq> (sec, key)" for x
    proof (cases x)
      case (Pair s' k')
      have "map_option (entry_value ?c) (key_entry_get ?c s' k')
          = map_option (entry_value conf) (key_entry_get conf s' k')"
      proof (cases "section_entry_get conf s'")
        case (Some i')
        then have "se_section (conf_sections conf ! i') = s'"
          by (auto simp: section_entry_get_def dest: search_Some)
        with Some x Pair i show ?thesis
          unfolding key_entry_get_def sec
          by (auto simp: key_entry_get_sect_def nth_list_update search_append 
              key_entry_new_def entry_value_def option.map_comp comp_def nth_append
              split: option.splits dest: search_Some)
      qed (simp add: key_entry_get_def sec)
      then show ?thesis
        by (simp add: Pair conf_map_get [OF inv] conf_map_get [OF assms])
    qed
    with add inv get None Some show ?thesis
      by (simp add: key_entry_get_def)
  qed
qed

lemma conf_map_None_get: "conf_inv conf \<Longrightarrow> conf_map conf (s, k) = None \<longleftrightarrow> key_entry_get conf s k = None"
  by (simp add: conf_map_get)

lemma add_value_spec:
  assumes "conf_inv conf"
  shows "if conf_map conf (sec, key) = None
    then \<exists>conf'. a6o_conf_add_value conf sec key v = (0, conf') \<and> conf_inv conf'
      \<and> conf_map conf' = (conf_map conf)((sec, key) \<mapsto> v)
    else a6o_conf_add_value conf sec key v = (1, conf)"
proof (cases "key_entry_add conf sec key")
  case (Pair conf1 r)
  note add = key_entry_add_spec [OF assms, of sec key, unfolded Pair]
  show ?thesis
  proof (cases r)
    case None
    with add Pair assms show ?thesis
      by (auto simp: a6o_conf_add_value_def conf_map_get)
  next
    case (Some p)
    with add have A: "key_entry_get conf sec key = None" "conf_inv conf1" "key_entry_get conf1 sec key = Some p"
        "\<forall>x. x \<noteq> (sec, key) \<longrightarrow> conf_map conf1 x = conf_map conf x"
      by simp_all
    have "(conf_map conf1)((sec, key) \<mapsto> v) = (conf_map conf)((sec, key) \<mapsto> v)"
      using A(4) by (auto simp: fun_eq_iff)
    moreover have "a6o_conf_add_value conf sec key v = (0, set_entry_value conf1 p v)"
      by (simp add: a6o_conf_add_value_def Pair Some)
    moreover have "conf_map conf (sec, key) = None"
      using A(1) assms by (simp add: conf_map_get)
    ultimately show ?thesis
      using set_entry_value_inv [OF A(2,3), of v] set_entry_value_map [OF A(2,3), of v] by simp
  qed
qed

text \<open>The typed additions are additions of a value of that type.\<close>

lemma add_typed:
  "a6o_conf_add_uint conf sec key i = a6o_conf_add_value conf sec key (CV_INT i)"
  "a6o_conf_add_string conf sec key s = a6o_conf_add_value conf sec key (CV_STRING s)"
  "a6o_conf_add_list conf sec key ss = a6o_conf_add_value conf sec key (CV_LIST ss)"
  by (simp_all add: a6o_conf_add_uint_def a6o_conf_add_string_def a6o_conf_add_list_def
      a6o_conf_add_value_def a6o_conf_value_set_int_def a6o_conf_value_set_string_def
      a6o_conf_value_set_list_def split: prod.splits option.splits)

lemma set_value_spec:
  assumes "conf_inv conf"
  shows "case conf_map conf (sec, key) of
      None \<Rightarrow> a6o_conf_set_value conf sec key v = (1, conf)
    | Some old \<Rightarrow>
        if a6o_conf_value_get_type old = a6o_conf_value_get_type v
        then \<exists>conf'. a6o_conf_set_value conf sec key v = (0, conf') \<and> conf_inv conf'
          \<and> conf_map conf' = (conf_map conf)((sec, key) \<mapsto> v)
        else a6o_conf_set_value conf sec key v = (1, conf)"
proof (cases "key_entry_get conf sec key")
  case None
  with assms show ?thesis
    by (simp add: conf_map_get a6o_conf_set_value_def)
next
  case (Some p)
  with assms set_entry_value_inv [OF assms Some, of v] set_entry_value_map [OF assms Some, of v]
  show ?thesis
    by (simp add: conf_map_get a6o_conf_set_value_def)
qed

lemma set_typed:
  "a6o_conf_set_uint conf sec key i = a6o_conf_set_value conf sec key (CV_INT i)"
  "a6o_conf_set_string conf sec key s = a6o_conf_set_value conf sec key (CV_STRING s)"
  "a6o_conf_set_list conf sec key ss = a6o_conf_set_value conf sec key (CV_LIST ss)"
  by (simp_all add: a6o_conf_set_uint_def a6o_conf_set_string_def a6o_conf_set_list_def
      a6o_conf_set_value_def a6o_conf_value_set_int_def a6o_conf_value_set_string_def
      a6o_conf_value_set_list_def Let_def split: option.splits)

text \<open>Every way of reading a key agrees with the map.\<close>

lemma get_spec:
  assumes "conf_inv conf"
  shows "a6o_conf_has_key conf s k \<longleftrightarrow> conf_map conf (s, k) \<noteq> None"
    and "a6o_conf_get_type conf s k =
      (case conf_map conf (s, k) of None \<Rightarrow> CONF_TYPE_VOID | Some v \<Rightarrow> a6o_conf_value_get_type v)"
    and "a6o_conf_get_value conf s k w =
      (case conf_map conf (s, k) of None \<Rightarrow> (0, w) | Some v \<Rightarrow> (1, v))"
    and "a6o_conf_get_uint conf s k =
      (case conf_map conf (s, k) of Some (CV_INT i) \<Rightarrow> sint i | _ \<Rightarrow> -1)"
    and "a6o_conf_get_string conf s k = (case conf_map conf (s, k) of Some (CV_STRING t) \<Rightarrow> t | _ \<Rightarrow> None)"
    and "a6o_conf_get_list conf s k =
      (case conf_map conf (s, k) of Some (CV_LIST ss) \<Rightarrow> Some ss | _ \<Rightarrow> None)"
  unfolding conf_map_get [OF assms]
  by (simp_all add: a6o_conf_has_key_def a6o_conf_get_type_def a6o_conf_get_value_def
      a6o_conf_get_uint_def a6o_conf_get_string_def a6o_conf_get_list_def
      split: option.splits a6o_conf_value.splits)

lemma apply_keys_fold:
  "apply_keys f sec ks st = fold (\<lambda>((s, k), v). f s k v) (map (\<lambda>k. ((sec, ke_key k), ke_value k)) ks) st"
  by (induction ks arbitrary: st) auto

lemma apply_fold: "a6o_conf_apply conf f st = fold (\<lambda>((s, k), v). f s k v) (conf_alist conf) st"
proof -
  have "apply_sections f ss st = fold (\<lambda>((s, k), v). f s k v)
      (concat (map (\<lambda>s. map (\<lambda>k. ((se_section s, ke_key k), ke_value k)) (se_keys s)) ss)) st" for ss
    by (induction ss arbitrary: st) (auto simp: apply_keys_fold)
  then show ?thesis
    by (simp add: a6o_conf_apply_def conf_alist_def)
qed

section \<open>The configuration as a store\<close>

definition conf_add :: "string \<times> string \<Rightarrow> a6o_conf_value \<Rightarrow> a6o_conf \<Rightarrow> a6o_conf option" where
  "conf_add k v conf =
    (case a6o_conf_add_value conf (fst k) (snd k) v of (r, conf') \<Rightarrow> if r = 0 then Some conf' else None)"

interpretation conf_store: fresh_store conf_inv "\<lambda>_ _. True" conf_map conf_add
proof
  fix conf :: a6o_conf and k :: "string \<times> string" and v
  assume "conf_inv conf" "conf_map conf k = None"
  with add_value_spec [of conf "fst k" "snd k" v]
  show "\<exists>conf'. conf_add k v conf = Some conf' \<and> conf_inv conf' \<and> (\<lambda>_. True) = (\<lambda>_. True)
      \<and> conf_map conf' = (conf_map conf)(k \<mapsto> v)"
    by (auto simp: conf_add_def)
qed

section \<open>Properties\<close>

text \<open>
  C7: adding a key. Under a key that is not there yet the addition succeeds: reading the key gives the
  value and reading any other key gives what it gave before. Under an existing key it returns 1 and
  the configuration does not change.
\<close>

theorem conf_add_then_get:
  assumes "conf_inv conf"
  shows "if a6o_conf_has_key conf sec key
    then a6o_conf_add_value conf sec key v = (1, conf)
    else \<exists>conf'. a6o_conf_add_value conf sec key v = (0, conf') \<and> conf_inv conf'
      \<and> a6o_conf_get_value conf' sec key w = (1, v)
      \<and> (\<forall>s k. (s, k) \<noteq> (sec, key) \<longrightarrow> a6o_conf_get_value conf' s k w = a6o_conf_get_value conf s k w)"
  using add_value_spec [OF assms, of sec key v]
  by (auto simp: get_spec [OF assms] get_spec(3) split: if_splits)

theorem conf_add_then_get_witness:
  "\<exists>conf'. a6o_conf_add_value a6o_conf_new ''log'' ''level'' (CV_INT 2) = (0, conf')
    \<and> a6o_conf_get_value conf' ''log'' ''level'' CV_VOID = (1, CV_INT 2)"
  using conf_add_then_get [OF conf_new_inv, of "''log''" "''level''" "CV_INT 2" CV_VOID]
  by (auto simp: get_spec(1) [OF conf_new_inv] conf_new_map)

text \<open>
  C8: setting a key. A key can only be set to a value of the type it has; it then reads as the new
  value and every other key as before. Setting a key that does not exist, or one of another type,
  returns 1 and changes nothing.
\<close>

theorem conf_set_then_get:
  assumes "conf_inv conf"
  shows "if a6o_conf_has_key conf sec key
      \<and> a6o_conf_get_type conf sec key = a6o_conf_value_get_type v
    then \<exists>conf'. a6o_conf_set_value conf sec key v = (0, conf') \<and> conf_inv conf'
      \<and> a6o_conf_get_value conf' sec key w = (1, v)
      \<and> (\<forall>s k. (s, k) \<noteq> (sec, key) \<longrightarrow> a6o_conf_get_value conf' s k w = a6o_conf_get_value conf s k w)
    else a6o_conf_set_value conf sec key v = (1, conf)"
proof (cases "conf_map conf (sec, key)")
  case None
  with set_value_spec [OF assms, of sec key v] show ?thesis
    by (simp add: get_spec [OF assms])
next
  case (Some old)
  with set_value_spec [OF assms, of sec key v] show ?thesis
    by (auto simp: get_spec [OF assms] get_spec(3) split: if_splits)
qed

theorem conf_set_then_get_witness:
  "a6o_conf_set_value a6o_conf_new ''log'' ''level'' (CV_INT 2) = (1, a6o_conf_new)"
  using conf_set_then_get [OF conf_new_inv, of "''log''" "''level''" "CV_INT 2"]
  by (simp add: get_spec(1) [OF conf_new_inv] conf_new_map)

end
