(* ===== verification/ConfParser.thy ===== *)
theory ConfParser
  imports ConfVal
begin

text \<open>
  The configuration file parser, \<open>libcore/confparser.c\<close>: the lexical analyser, a state machine over
  the characters of the file, and the recursive descent parser, which hands every definition it reads
  to a callback.

  The input is the list of the characters not read yet. A \<open>longjmp\<close> out of the parser is the
  boolean \<open>False\<close> in the result of a parsing function, beside the parser as it was at the jump;
  \<open>None\<close> is a fault inside the callback. Characters are classified as in the C locale.
\<close>

section \<open>The lexical analyser\<close>

datatype token_type =
    TOKEN_EOF
  | TOKEN_LEFT_BRACE
  | TOKEN_RIGHT_BRACE
  | TOKEN_EQUAL_SIGN
  | TOKEN_COMMA
  | TOKEN_SEMI_COLON
  | TOKEN_NONE
  | TOKEN_STRING
  | TOKEN_INTEGER
  | TOKEN_ERROR

record scanner =
  sc_current_line :: int
  sc_current_column :: int
  sc_previous_column :: int
  sc_input :: string
  sc_token_text :: string

definition scanner_new :: "string \<Rightarrow> scanner" where
  "scanner_new input = \<lparr>sc_current_line = 1, sc_current_column = 1, sc_previous_column = 1,
     sc_input = input, sc_token_text = []\<rparr>"

text \<open>The token text is read as a C string, up to its first NUL.\<close>

definition scanner_token_text :: "scanner \<Rightarrow> string" where
  "scanner_token_text s = takeWhile (\<lambda>c. c \<noteq> CHR 0x00) (sc_token_text s)"

definition char_in :: "char \<Rightarrow> char \<Rightarrow> char \<Rightarrow> bool" where
  "char_in lo hi c \<longleftrightarrow> (of_char lo :: nat) \<le> of_char c \<and> (of_char c :: nat) \<le> of_char hi"

definition isalpha :: "char \<Rightarrow> bool" where
  "isalpha c \<longleftrightarrow> char_in CHR ''a'' CHR ''z'' c \<or> char_in CHR ''A'' CHR ''Z'' c"

definition isdigit :: "char \<Rightarrow> bool" where
  "isdigit c \<longleftrightarrow> char_in CHR ''0'' CHR ''9'' c"

definition isalnum :: "char \<Rightarrow> bool" where
  "isalnum c \<longleftrightarrow> isalpha c \<or> isdigit c"

definition isblank :: "char \<Rightarrow> bool" where
  "isblank c \<longleftrightarrow> c = CHR '' '' \<or> c = CHR 0x09"

definition isspace :: "char \<Rightarrow> bool" where
  "isspace c \<longleftrightarrow> c = CHR '' '' \<or> char_in CHR 0x09 CHR 0x0D c"

definition is_first_identifier :: "char \<Rightarrow> bool" where
  "is_first_identifier c \<longleftrightarrow> isalpha c \<or> c = CHR ''_''"

definition is_identifier :: "char \<Rightarrow> bool" where
  "is_identifier c \<longleftrightarrow> isalnum c \<or> c = CHR ''-'' \<or> c = CHR ''_''"

definition scanner_getc :: "scanner \<Rightarrow> char option \<times> scanner" where
  "scanner_getc s = (case sc_input s of
       [] \<Rightarrow> (None, s\<lparr>sc_current_column := sc_current_column s + 1\<rparr>)
     | c # cs \<Rightarrow>
         (Some c,
          if c = CHR 0x0A
          then s\<lparr>sc_input := cs, sc_current_line := sc_current_line s + 1,
                 sc_previous_column := sc_current_column s, sc_current_column := 1\<rparr>
          else s\<lparr>sc_input := cs, sc_current_column := sc_current_column s + 1\<rparr>))"

definition scanner_ungetc :: "scanner \<Rightarrow> char \<Rightarrow> scanner" where
  "scanner_ungetc s c =
    (if c = CHR 0x0A
     then s\<lparr>sc_input := c # sc_input s, sc_current_line := sc_current_line s - 1,
            sc_current_column := sc_previous_column s\<rparr>
     else s\<lparr>sc_input := c # sc_input s, sc_current_column := sc_current_column s - 1\<rparr>)"

definition append_c :: "scanner \<Rightarrow> char \<Rightarrow> scanner" where
  "append_c s c = s\<lparr>sc_token_text := sc_token_text s @ [c]\<rparr>"

text \<open>\<open>return c\<close> for one of the single character tokens.\<close>

definition char_token :: "char \<Rightarrow> token_type option" where
  "char_token c =
    (if c = CHR ''['' then Some TOKEN_LEFT_BRACE
     else if c = CHR '']'' then Some TOKEN_RIGHT_BRACE
     else if c = CHR ''='' then Some TOKEN_EQUAL_SIGN
     else if c = CHR '','' then Some TOKEN_COMMA
     else if c = CHR '';'' then Some TOKEN_SEMI_COLON
     else None)"

datatype scan_state = S_INITIAL | S_SPACE | S_COMMENT | S_IDENTIFIER | S_INTEGER | S_STRING

lemma getc_input:
  "scanner_getc s = (Some c, s1) \<Longrightarrow> sc_input s = c # sc_input s1"
  by (auto simp: scanner_getc_def split: list.splits if_splits)

lemma ungetc_input [simp]: "sc_input (scanner_ungetc s c) = c # sc_input s"
  by (simp add: scanner_ungetc_def)

lemma append_c_simps [simp]:
  "sc_input (append_c s c) = sc_input s"
  "sc_token_text (append_c s c) = sc_token_text s @ [c]"
  by (simp_all add: append_c_def)

text \<open>
  The loop of \<open>scanner_get_next_token\<close>. It reads a character at each turn; the one turn that
  pushes its character back, in the state \<open>S_SPACE\<close>, leaves that state.
\<close>

function scan_loop :: "scanner \<Rightarrow> token_type \<Rightarrow> scan_state \<Rightarrow> token_type \<times> scanner" where
  "scan_loop s prev st =
    (case scanner_getc s of
       (None, s1) \<Rightarrow> (TOKEN_EOF, s1)
     | (Some c, s1) \<Rightarrow>
       (case st of
          S_INITIAL \<Rightarrow>
            (if isblank c then scan_loop s1 prev S_SPACE
             else if c = CHR ''#'' then scan_loop s1 prev S_COMMENT
             else if c = CHR 0x22 then scan_loop s1 prev S_STRING
             else if is_first_identifier c then scan_loop (append_c s1 c) prev S_IDENTIFIER
             else if isdigit c then scan_loop (append_c s1 c) prev S_INTEGER
             else if prev = TOKEN_EQUAL_SIGN
             then (if c = CHR 0x0A then TOKEN_NONE else TOKEN_ERROR, scanner_ungetc s1 c)
             else case char_token c of
                    Some tok \<Rightarrow> (tok, append_c s1 c)
                  | None \<Rightarrow> scan_loop s1 prev S_INITIAL)
        | S_SPACE \<Rightarrow>
            (if \<not> isspace c then scan_loop (scanner_ungetc s1 c) prev S_INITIAL
             else scan_loop s1 prev S_SPACE)
        | S_COMMENT \<Rightarrow>
            (if c = CHR 0x0A then scan_loop s1 prev S_INITIAL else scan_loop s1 prev S_COMMENT)
        | S_STRING \<Rightarrow>
            (if c \<noteq> CHR 0x22 then scan_loop (append_c s1 c) prev S_STRING else (TOKEN_STRING, s1))
        | S_IDENTIFIER \<Rightarrow>
            (if is_identifier c then scan_loop (append_c s1 c) prev S_IDENTIFIER
             else (TOKEN_STRING, scanner_ungetc s1 c))
        | S_INTEGER \<Rightarrow>
            (if isdigit c then scan_loop (append_c s1 c) prev S_INTEGER
             else (TOKEN_INTEGER, scanner_ungetc s1 c))))"
  by pat_completeness auto
termination
  by (relation "measure (\<lambda>(s, prev, st). 2 * length (sc_input s) + (if st = S_SPACE then 1 else 0))")
     (auto dest: getc_input [OF sym])

declare scan_loop.simps [simp del]

definition scanner_get_next_token :: "scanner \<Rightarrow> token_type \<Rightarrow> token_type \<times> scanner" where
  "scanner_get_next_token s previous_token =
    scan_loop (s\<lparr>sc_token_text := []\<rparr>) previous_token S_INITIAL"

section \<open>The parser\<close>

type_synonym 's conf_parser_callback =
  "cstr \<Rightarrow> cstr \<Rightarrow> a6o_conf_value \<Rightarrow> 's \<Rightarrow> (int \<times> 's) option"

record 's a6o_conf_parser =
  cp_filename :: string
  cp_input :: bool
  cp_scanner :: scanner
  cp_lookahead_token :: token_type
  cp_current_section :: cstr
  cp_current_key :: cstr
  cp_current_value_type :: u32
  cp_current_value_int :: u32
  cp_current_value_string :: cstr
  cp_current_value_list :: "string list"
  cp_callback :: "'s conf_parser_callback"
  cp_user_data :: 's

text \<open>
  \<open>fopen\<close> gives the contents of the file, or \<open>None\<close> when it fails. In that case the source leaves
  every field but the first two uninitialised; nothing reads them.
\<close>

definition a6o_conf_parser_new ::
  "string \<Rightarrow> string option \<Rightarrow> 's conf_parser_callback \<Rightarrow> 's \<Rightarrow> 's a6o_conf_parser" where
  "a6o_conf_parser_new filename contents callback user_data =
    \<lparr>cp_filename = filename, cp_input = (contents \<noteq> None),
     cp_scanner = scanner_new (case contents of None \<Rightarrow> [] | Some t \<Rightarrow> t),
     cp_lookahead_token = TOKEN_EOF, cp_current_section = None, cp_current_key = None,
     cp_current_value_type = CONF_TYPE_VOID, cp_current_value_int = 0,
     cp_current_value_string = None, cp_current_value_list = [],
     cp_callback = callback, cp_user_data = user_data\<rparr>"

text \<open>The result of a parsing function: a fault, a jump to the end of the parse, or a normal return.\<close>

type_synonym 's parsing = "(bool \<times> 's a6o_conf_parser) option"

definition and_then ::
  "'s parsing \<Rightarrow> ('s a6o_conf_parser \<Rightarrow> 's parsing) \<Rightarrow> 's parsing" where
  "and_then r f = (case r of Some (True, cp) \<Rightarrow> f cp | _ \<Rightarrow> r)"

definition syntax_error :: "'s a6o_conf_parser \<Rightarrow> 's parsing" where
  "syntax_error cp = Some (False, cp)"

definition token_accept :: "token_type \<Rightarrow> 's a6o_conf_parser \<Rightarrow> 's parsing" where
  "token_accept token cp =
    (if cp_lookahead_token cp = token
     then if cp_lookahead_token cp \<noteq> TOKEN_EOF
          then let (tok, sc) = scanner_get_next_token (cp_scanner cp) token
               in Some (True, cp\<lparr>cp_lookahead_token := tok, cp_scanner := sc\<rparr>)
          else Some (True, cp)
     else syntax_error cp)"

definition invoke_callback :: "'s a6o_conf_parser \<Rightarrow> a6o_conf_value \<Rightarrow> (int \<times> 's) option" where
  "invoke_callback cp v =
    cp_callback cp (cp_current_section cp) (cp_current_key cp) v (cp_user_data cp)"

definition call_callback :: "'s a6o_conf_parser \<Rightarrow> 's parsing" where
  "call_callback cp = do {
     (ret, cp1) \<leftarrow>
       (if cp_current_value_type cp = CONF_TYPE_INT then do {
          (ret, ud) \<leftarrow> invoke_callback cp (CV_INT (cp_current_value_int cp));
          Some (ret, cp\<lparr>cp_user_data := ud\<rparr>)
        } else if cp_current_value_type cp = CONF_TYPE_STRING then do {
          (ret, ud) \<leftarrow> invoke_callback cp (CV_STRING (cp_current_value_string cp));
          Some (ret, cp\<lparr>cp_user_data := ud, cp_current_value_string := None\<rparr>)
        } else if cp_current_value_type cp = CONF_TYPE_LIST then do {
          (ret, ud) \<leftarrow> invoke_callback cp (CV_LIST (cp_current_value_list cp));
          Some (ret, cp\<lparr>cp_user_data := ud, cp_current_value_list := []\<rparr>)
        } else Some (0, cp));
     Some (ret = 0, cp1\<lparr>cp_current_value_type := CONF_TYPE_VOID\<rparr>)
   }"

text \<open>\<open>atoi\<close> on a string of digits: glibc saturates at \<open>LONG_MAX\<close> and truncates to an \<open>int\<close>.\<close>

definition digit_value :: "char \<Rightarrow> nat" where
  "digit_value c = of_char c - of_char CHR ''0''"

definition decimal_value :: "string \<Rightarrow> nat" where
  "decimal_value s = foldl (\<lambda>n c. 10 * n + digit_value c) 0 s"

definition atoi :: "string \<Rightarrow> u32" where
  "atoi s = of_nat (min (decimal_value s) (2 ^ 63 - 1))"

definition r_key :: "'s a6o_conf_parser \<Rightarrow> 's parsing" where
  "r_key cp = token_accept TOKEN_STRING
     (cp\<lparr>cp_current_key := Some (scanner_token_text (cp_scanner cp))\<rparr>)"

definition r_int_value :: "'s a6o_conf_parser \<Rightarrow> 's parsing" where
  "r_int_value cp = token_accept TOKEN_INTEGER
     (cp\<lparr>cp_current_value_type := CONF_TYPE_INT,
         cp_current_value_int := atoi (scanner_token_text (cp_scanner cp))\<rparr>)"

definition r_string_value :: "'s a6o_conf_parser \<Rightarrow> 's parsing" where
  "r_string_value cp = token_accept TOKEN_STRING
     (cp\<lparr>cp_current_value_type := CONF_TYPE_STRING,
         cp_current_value_string := Some (scanner_token_text (cp_scanner cp))\<rparr>)"

definition r_list_sep :: "'s a6o_conf_parser \<Rightarrow> 's parsing" where
  "r_list_sep cp =
    (if cp_lookahead_token cp = TOKEN_COMMA then token_accept TOKEN_COMMA cp
     else token_accept TOKEN_SEMI_COLON cp)"

definition r_list_string_value :: "'s a6o_conf_parser \<Rightarrow> 's parsing" where
  "r_list_string_value cp =
    (let cp1 = (case cp_current_value_string cp of
                  None \<Rightarrow> cp
                | Some first \<Rightarrow>
                    cp\<lparr>cp_current_value_type := CONF_TYPE_LIST,
                       cp_current_value_list := cp_current_value_list cp @ [first],
                       cp_current_value_string := None\<rparr>)
     in token_accept TOKEN_STRING
          (cp1\<lparr>cp_current_value_list :=
                 cp_current_value_list cp1 @ [scanner_token_text (cp_scanner cp1)]\<rparr>))"

section \<open>The analyser makes progress\<close>

lemma scan_loop_progress:
  "scan_loop s prev st = (tok, s') \<Longrightarrow>
    length (sc_input s') \<le> length (sc_input s)
    \<and> (prev \<noteq> TOKEN_EQUAL_SIGN \<longrightarrow> tok \<noteq> TOKEN_EOF \<longrightarrow> st \<notin> {S_IDENTIFIER, S_INTEGER}
        \<longrightarrow> length (sc_input s') < length (sc_input s))"
proof (induction s prev st arbitrary: tok s' rule: scan_loop.induct)
  case (1 s prev st)
  show ?case
  proof (cases "scanner_getc s")
    case (Pair oc s1)
    show ?thesis
    proof (cases oc)
      case None
      then have "sc_input s1 = sc_input s"
        using Pair by (auto simp: scanner_getc_def split: list.splits)
      with "1.prems" Pair None show ?thesis
        by (simp add: scan_loop.simps [of s])
    next
      case (Some c)
      note get = Pair [unfolded Some]
      have inp: "sc_input s = c # sc_input s1"
        using getc_input [OF get] .
      note IH = "1.IH" [OF get [symmetric] refl]
      show ?thesis
      proof (cases st)
        case S_INITIAL
        show ?thesis
          using "1.prems" IH(1-6) [OF S_INITIAL] inp get S_INITIAL
          by (subst (asm) scan_loop.simps) (fastforce split: if_splits option.splits)
      next
        case S_SPACE
        show ?thesis
          using "1.prems" IH(7-8) [OF S_SPACE] inp get S_SPACE
          by (subst (asm) scan_loop.simps) (fastforce split: if_splits)
      next
        case S_COMMENT
        show ?thesis
          using "1.prems" IH(9-10) [OF S_COMMENT] inp get S_COMMENT
          by (subst (asm) scan_loop.simps) (fastforce split: if_splits)
      next
        case S_STRING
        show ?thesis
          using "1.prems" IH(13) [OF S_STRING] inp get S_STRING
          by (subst (asm) scan_loop.simps) (fastforce split: if_splits)
      next
        case S_IDENTIFIER
        show ?thesis
          using "1.prems" IH(11) [OF S_IDENTIFIER] inp get S_IDENTIFIER
          by (subst (asm) scan_loop.simps) (fastforce split: if_splits)
      next
        case S_INTEGER
        show ?thesis
          using "1.prems" IH(12) [OF S_INTEGER] inp get S_INTEGER
          by (subst (asm) scan_loop.simps) (fastforce split: if_splits)
      qed
    qed
  qed
qed

section \<open>The recursive parsing functions\<close>

abbreviation unread :: "'s a6o_conf_parser \<Rightarrow> nat" where
  "unread cp \<equiv> length (sc_input (cp_scanner cp))"

text \<open>
  Accepting a token never gives characters back; unless the token is the equal sign or the file
  ends, it consumes some.
\<close>

lemma token_accept_progress:
  assumes "token_accept t cp = Some (True, cp')"
  shows "cp_lookahead_token cp = t" "unread cp' \<le> unread cp"
    "t \<noteq> TOKEN_EQUAL_SIGN \<Longrightarrow> cp_lookahead_token cp' \<noteq> TOKEN_EOF \<Longrightarrow> unread cp' < unread cp"
proof -
  show "cp_lookahead_token cp = t"
    using assms by (auto simp: token_accept_def syntax_error_def split: if_splits)
  obtain tok sc where n: "scanner_get_next_token (cp_scanner cp) t = (tok, sc)"
    by force
  then have "scan_loop ((cp_scanner cp)\<lparr>sc_token_text := []\<rparr>) t S_INITIAL = (tok, sc)"
    by (simp add: scanner_get_next_token_def)
  from scan_loop_progress [OF this] assms n
  show "unread cp' \<le> unread cp"
    "t \<noteq> TOKEN_EQUAL_SIGN \<Longrightarrow> cp_lookahead_token cp' \<noteq> TOKEN_EOF \<Longrightarrow> unread cp' < unread cp"
    by (auto simp: token_accept_def syntax_error_def split: if_splits)
qed

lemma and_then_eq_Some:
  "and_then r f = Some (True, cp') \<longleftrightarrow> (\<exists>cp. r = Some (True, cp) \<and> f cp = Some (True, cp'))"
  by (auto simp: and_then_def split: option.splits bool.splits prod.splits)

lemma and_then_simps [simp]:
  "and_then (Some (True, cp)) f = f cp"
  "and_then (Some (False, cp)) f = Some (False, cp)"
  "and_then None f = None"
  by (simp_all add: and_then_def)

lemma r_list_string_value_progress:
  assumes "r_list_string_value cp = Some (True, cp')"
  shows "cp_lookahead_token cp = TOKEN_STRING" "unread cp' \<le> unread cp"
  using assms token_accept_progress(1,2)
  by (auto simp: r_list_string_value_def Let_def split: option.splits) fastforce+

lemma list_element_progress:
  assumes "and_then (r_list_sep cp) r_list_string_value = Some (True, cp')"
  shows "unread cp' < unread cp"
proof -
  obtain cp1 where c: "r_list_sep cp = Some (True, cp1)" "r_list_string_value cp1 = Some (True, cp')"
    using assms by (auto simp: and_then_eq_Some)
  obtain t where "t \<noteq> TOKEN_EQUAL_SIGN" "token_accept t cp = Some (True, cp1)"
    using c(1) by (auto simp: r_list_sep_def split: if_splits)
  then have "unread cp1 < unread cp"
    using token_accept_progress(3) [of t cp cp1] r_list_string_value_progress(1) [OF c(2)] by simp
  with r_list_string_value_progress(2) [OF c(2)] show ?thesis
    by simp
qed

function r_opt_string_list :: "'s a6o_conf_parser \<Rightarrow> 's parsing" where
  "r_opt_string_list cp =
    (if cp_lookahead_token cp = TOKEN_COMMA \<or> cp_lookahead_token cp = TOKEN_SEMI_COLON
     then case and_then (r_list_sep cp) r_list_string_value of
            Some (True, cp1) \<Rightarrow> r_opt_string_list cp1
          | r \<Rightarrow> r
     else Some (True, cp))"
  by pat_completeness auto
termination
  by (relation "measure unread") (auto dest: list_element_progress)

declare r_opt_string_list.simps [simp del]

definition r_value :: "'s a6o_conf_parser \<Rightarrow> 's parsing" where
  "r_value cp =
    (if cp_lookahead_token cp = TOKEN_INTEGER then r_int_value cp
     else if cp_lookahead_token cp = TOKEN_STRING then and_then (r_string_value cp) r_opt_string_list
     else if cp_lookahead_token cp = TOKEN_NONE \<or> cp_lookahead_token cp = TOKEN_EOF
     then Some (False, cp)
     else Some (False, cp\<lparr>cp_scanner := snd (scanner_getc (cp_scanner cp))\<rparr>))"

definition r_definition :: "'s a6o_conf_parser \<Rightarrow> 's parsing" where
  "r_definition cp =
    and_then (and_then (and_then (r_key cp) (token_accept TOKEN_EQUAL_SIGN)) r_value) call_callback"

lemma r_opt_string_list_progress:
  "r_opt_string_list cp = Some (True, cp') \<Longrightarrow> unread cp' \<le> unread cp"
proof (induction cp rule: r_opt_string_list.induct)
  case (1 cp)
  show ?case
  proof (cases "cp_lookahead_token cp = TOKEN_COMMA \<or> cp_lookahead_token cp = TOKEN_SEMI_COLON")
    case True
    then obtain cp1 where cp1: "and_then (r_list_sep cp) r_list_string_value = Some (True, cp1)"
        "r_opt_string_list cp1 = Some (True, cp')"
      using "1.prems" by (subst (asm) r_opt_string_list.simps) (auto split: option.splits bool.splits prod.splits)
    then show ?thesis
      using "1.IH" [OF True cp1(1) refl _ cp1(2)] list_element_progress [OF cp1(1)] by simp
  next
    case False
    with "1.prems" show ?thesis
      by (subst (asm) r_opt_string_list.simps) simp
  qed
qed

lemma r_value_progress:
  assumes "r_value cp = Some (True, cp')"
  shows "unread cp' \<le> unread cp"
  using assms token_accept_progress(2) r_opt_string_list_progress
  by (auto simp: r_value_def r_int_value_def r_string_value_def and_then_eq_Some split: if_splits)
     (fastforce dest: token_accept_progress(2) r_opt_string_list_progress)+

lemma call_callback_unread:
  "call_callback cp = Some (b, cp') \<Longrightarrow> unread cp' = unread cp
    \<and> cp_lookahead_token cp' = cp_lookahead_token cp"
  by (auto simp: call_callback_def Option.bind_eq_Some_conv split: if_splits)

lemma r_definition_progress:
  assumes "r_definition cp = Some (True, cp')"
  shows "unread cp' < unread cp"
proof -
  obtain c1 c2 c3 where c: "r_key cp = Some (True, c1)" "token_accept TOKEN_EQUAL_SIGN c1 = Some (True, c2)"
      "r_value c2 = Some (True, c3)" "call_callback c3 = Some (True, cp')"
    using assms by (auto simp: r_definition_def and_then_eq_Some)
  have "unread c1 < unread cp"
    using token_accept_progress(3) [OF c(1) [unfolded r_key_def]] token_accept_progress(1) [OF c(2)]
    by simp
  with token_accept_progress(2) [OF c(2)] r_value_progress [OF c(3)] call_callback_unread [OF c(4)]
  show ?thesis by simp
qed

function r_definition_list :: "'s a6o_conf_parser \<Rightarrow> 's parsing" where
  "r_definition_list cp =
    (if cp_lookahead_token cp = TOKEN_STRING
     then case r_definition cp of
            Some (True, cp1) \<Rightarrow> r_definition_list cp1
          | r \<Rightarrow> r
     else Some (True, cp))"
  by pat_completeness auto
termination
  by (relation "measure unread") (auto dest: r_definition_progress)

declare r_definition_list.simps [simp del]

definition r_section_name :: "'s a6o_conf_parser \<Rightarrow> 's parsing" where
  "r_section_name cp = token_accept TOKEN_STRING
     (cp\<lparr>cp_current_section := Some (scanner_token_text (cp_scanner cp))\<rparr>)"

definition r_section :: "'s a6o_conf_parser \<Rightarrow> 's parsing" where
  "r_section cp =
    and_then (and_then (and_then (token_accept TOKEN_LEFT_BRACE cp) r_section_name)
      (token_accept TOKEN_RIGHT_BRACE)) r_definition_list"

lemma r_definition_list_progress:
  "r_definition_list cp = Some (True, cp') \<Longrightarrow> unread cp' \<le> unread cp"
proof (induction cp rule: r_definition_list.induct)
  case (1 cp)
  show ?case
  proof (cases "cp_lookahead_token cp = TOKEN_STRING")
    case True
    then obtain cp1 where cp1: "r_definition cp = Some (True, cp1)"
        "r_definition_list cp1 = Some (True, cp')"
      using "1.prems" by (subst (asm) r_definition_list.simps) (auto split: option.splits bool.splits prod.splits)
    then show ?thesis
      using "1.IH" [OF True cp1(1) refl _ cp1(2)] r_definition_progress [OF cp1(1)] by simp
  next
    case False
    with "1.prems" show ?thesis
      by (subst (asm) r_definition_list.simps) simp
  qed
qed

lemma r_section_progress:
  assumes "r_section cp = Some (True, cp')"
  shows "unread cp' < unread cp"
proof -
  obtain c1 c2 c3 where c: "token_accept TOKEN_LEFT_BRACE cp = Some (True, c1)"
      "r_section_name c1 = Some (True, c2)" "token_accept TOKEN_RIGHT_BRACE c2 = Some (True, c3)"
      "r_definition_list c3 = Some (True, cp')"
    using assms by (auto simp: r_section_def and_then_eq_Some)
  have "cp_lookahead_token c1 = TOKEN_STRING" "unread c2 \<le> unread c1"
    using token_accept_progress(1,2) [OF c(2) [unfolded r_section_name_def]] by simp_all
  with token_accept_progress(3) [OF c(1)] token_accept_progress(2) [OF c(3)]
    r_definition_list_progress [OF c(4)] show ?thesis by simp
qed

function r_section_list :: "'s a6o_conf_parser \<Rightarrow> 's parsing" where
  "r_section_list cp =
    (if cp_lookahead_token cp = TOKEN_LEFT_BRACE
     then case r_section cp of
            Some (True, cp1) \<Rightarrow> r_section_list cp1
          | r \<Rightarrow> r
     else Some (True, cp))"
  by pat_completeness auto
termination
  by (relation "measure unread") (auto dest: r_section_progress)

declare r_section_list.simps [simp del]

definition r_configuration :: "'s a6o_conf_parser \<Rightarrow> 's parsing" where
  "r_configuration cp = r_section_list cp"

definition a6o_conf_parser_parse :: "'s a6o_conf_parser \<Rightarrow> (int \<times> 's a6o_conf_parser) option" where
  "a6o_conf_parser_parse cp =
    (if \<not> cp_input cp then Some (-1, cp)
     else let (tok, sc) = scanner_get_next_token (cp_scanner cp) TOKEN_NONE;
              cp1 = cp\<lparr>cp_lookahead_token := tok, cp_scanner := sc, cp_current_section := None,
                       cp_current_key := None, cp_current_value_list := []\<rparr>
          in case and_then (r_configuration cp1) (token_accept TOKEN_EOF) of
               None \<Rightarrow> None
             | Some (True, cp2) \<Rightarrow> Some (0, cp2)
             | Some (False, cp2) \<Rightarrow> Some (-2, cp2))"

end
