(* ===== verification/ConfFile.thy ===== *)
theory ConfFile
  imports Conf ConfParser
begin

text \<open>
  Reading and writing configuration files: \<open>a6o_conf_load_file\<close> and \<open>a6o_conf_save_file\<close> of
  \<open>libcore/conf.c\<close>, over the store of theory \<open>Conf\<close> and the parser of theory
  \<open>ConfParser\<close>, and the proof that a saved configuration is read back.
\<close>

section \<open>Loading\<close>

text \<open>A NULL section or key would be dereferenced by \<open>a6o_conf_add_value\<close>.\<close>

definition conf_load_parser_cb :: "a6o_conf conf_parser_callback" where
  "conf_load_parser_cb sec key v conf = (case (sec, key) of
       (Some s, Some k) \<Rightarrow> Some (a6o_conf_add_value conf s k v)
     | _ \<Rightarrow> None)"

text \<open>\<open>contents\<close> is what \<open>fopen\<close> gives access to, \<open>None\<close> when it fails. The status of the parse is not used.\<close>

definition a6o_conf_load_file :: "a6o_conf \<Rightarrow> string \<Rightarrow> string option \<Rightarrow> (int \<times> a6o_conf) option" where
  "a6o_conf_load_file conf path contents =
    (case a6o_conf_parser_parse (a6o_conf_parser_new path contents conf_load_parser_cb conf) of
       None \<Rightarrow> None
     | Some (_, cp) \<Rightarrow> Some (0, cp_user_data cp))"

section \<open>Saving\<close>

record conf_save_data =
  sv_f :: string
  sv_p :: cstr

text \<open>The decimal digits of a number, most significant first.\<close>

definition digit_char :: "nat \<Rightarrow> char" where
  "digit_char d = char_of (of_char CHR ''0'' + d)"

fun decimal :: "nat \<Rightarrow> string" where
  "decimal n = (if n < 10 then [digit_char n] else decimal (n div 10) @ [digit_char (n mod 10)])"

declare decimal.simps [simp del]

text \<open>\<open>printf\<close>: \<open>%d\<close> of an \<open>int\<close>.\<close>

definition format_d :: "u32 \<Rightarrow> string" where
  "format_d i = (if sint i < 0 then CHR ''-'' # decimal (nat (- sint i)) else decimal (nat (sint i)))"

text \<open>\<open>%ld\<close> of a \<open>long\<close>, and of a count: a \<open>size_t\<close> above the largest \<open>long\<close> prints as negative.\<close>

definition format_ld :: "int \<Rightarrow> string" where
  "format_ld i = (if i < 0 then CHR ''-'' # decimal (nat (- i)) else decimal (nat i))"

definition format_size :: "nat \<Rightarrow> string" where
  "format_size n = format_ld (sint (of_nat n :: u64))"

text \<open>\<open>%s\<close>, for which glibc prints a NULL as \<open>(null)\<close>.\<close>

definition format_s :: "cstr \<Rightarrow> string" where
  "format_s s = (case s of None \<Rightarrow> ''(null)'' | Some t \<Rightarrow> t)"

definition quote :: "string \<Rightarrow> string" where
  "quote s = CHR 0x22 # s @ [CHR 0x22]"

fun save_list :: "nat \<Rightarrow> string list \<Rightarrow> string" where
  "save_list n [] = []"
| "save_list n (s # ss) = (if n = 0 then '' '' else ''; '') @ quote s @ save_list (Suc n) ss"

definition conf_save_fun :: "string \<Rightarrow> string \<Rightarrow> a6o_conf_value \<Rightarrow> conf_save_data \<Rightarrow> conf_save_data" where
  "conf_save_fun sec key v data =
    (let data1 = (if sv_p data \<noteq> Some sec
                  then \<lparr>sv_f = sv_f data @ CHR 0x0A # ''['' @ sec @ '']'' @ [CHR 0x0A, CHR 0x0A],
                        sv_p = Some sec\<rparr>
                  else data);
         f1 = sv_f data1 @ key @ '' ='';
         f2 = f1 @ (case v of
                CV_VOID \<Rightarrow> []
              | CV_INT i \<Rightarrow> '' '' @ format_d i
              | CV_STRING s \<Rightarrow> '' '' @ quote (format_s s)
              | CV_LIST ss \<Rightarrow> save_list 0 ss)
     in data1\<lparr>sv_f := f2 @ [CHR 0x0A]\<rparr>)"

text \<open>
  The text written. When the file cannot be opened, \<open>fclose\<close> is called on NULL, and \<open>fprintf\<close>
  before it.
\<close>

definition a6o_conf_save_file :: "a6o_conf \<Rightarrow> string \<Rightarrow> bool \<Rightarrow> (int \<times> string) option" where
  "a6o_conf_save_file conf path fopen_ok =
    (if path \<noteq> ''-'' \<and> \<not> fopen_ok then None
     else Some (0, sv_f (a6o_conf_apply conf conf_save_fun \<lparr>sv_f = [], sv_p = None\<rparr>)))"

section \<open>Reading tokens\<close>

text \<open>The next token of an input, whatever the position counters of the analyser.\<close>

definition token_of :: "string \<Rightarrow> token_type \<Rightarrow> token_type \<Rightarrow> string \<Rightarrow> string \<Rightarrow> bool" where
  "token_of inp prev tok tx rest \<longleftrightarrow>
    (\<forall>s. sc_input s = inp \<and> sc_token_text s = [] \<longrightarrow>
      (\<exists>s'. scan_loop s prev S_INITIAL = (tok, s') \<and> sc_input s' = rest \<and> sc_token_text s' = tx))"

lemma getc_Cons:
  "sc_input s = c # cs \<Longrightarrow>
    \<exists>s1. scanner_getc s = (Some c, s1) \<and> sc_input s1 = cs \<and> sc_token_text s1 = sc_token_text s"
  by (auto simp: scanner_getc_def)

lemma ungetc_text [simp]: "sc_token_text (scanner_ungetc s c) = sc_token_text s"
  by (simp add: scanner_ungetc_def)

lemma scan_identifier:
  assumes "sc_input s = w @ c # rest" "\<forall>x \<in> set w. is_identifier x" "\<not> is_identifier c"
  shows "\<exists>s'. scan_loop s prev S_IDENTIFIER = (TOKEN_STRING, s') \<and> sc_input s' = c # rest
    \<and> sc_token_text s' = sc_token_text s @ w"
  using assms
proof (induction w arbitrary: s)
  case Nil
  with getc_Cons [of s c rest] show ?case
    by (subst scan_loop.simps) auto
next
  case (Cons x w)
  obtain s1 where s1: "scanner_getc s = (Some x, s1)" "sc_input s1 = w @ c # rest"
      "sc_token_text s1 = sc_token_text s"
    using getc_Cons [of s x "w @ c # rest"] Cons.prems(1) by auto
  with Cons.IH [of "append_c s1 x"] Cons.prems(2,3) show ?case
    by (subst scan_loop.simps) auto
qed

lemma scan_integer:
  assumes "sc_input s = w @ c # rest" "\<forall>x \<in> set w. isdigit x" "\<not> isdigit c"
  shows "\<exists>s'. scan_loop s prev S_INTEGER = (TOKEN_INTEGER, s') \<and> sc_input s' = c # rest
    \<and> sc_token_text s' = sc_token_text s @ w"
  using assms
proof (induction w arbitrary: s)
  case Nil
  with getc_Cons [of s c rest] show ?case
    by (subst scan_loop.simps) auto
next
  case (Cons x w)
  obtain s1 where s1: "scanner_getc s = (Some x, s1)" "sc_input s1 = w @ c # rest"
      "sc_token_text s1 = sc_token_text s"
    using getc_Cons [of s x "w @ c # rest"] Cons.prems(1) by auto
  with Cons.IH [of "append_c s1 x"] Cons.prems(2,3) show ?case
    by (subst scan_loop.simps) auto
qed

lemma scan_string:
  assumes "sc_input s = w @ CHR 0x22 # rest" "CHR 0x22 \<notin> set w"
  shows "\<exists>s'. scan_loop s prev S_STRING = (TOKEN_STRING, s') \<and> sc_input s' = rest
    \<and> sc_token_text s' = sc_token_text s @ w"
  using assms
proof (induction w arbitrary: s)
  case Nil
  with getc_Cons [of s "CHR 0x22" rest] show ?case
    by (subst scan_loop.simps) auto
next
  case (Cons x w)
  obtain s1 where s1: "scanner_getc s = (Some x, s1)" "sc_input s1 = w @ CHR 0x22 # rest"
      "sc_token_text s1 = sc_token_text s"
    using getc_Cons [of s x "w @ CHR 0x22 # rest"] Cons.prems(1) by auto
  with Cons.IH [of "append_c s1 x"] Cons.prems(2) show ?case
    by (subst scan_loop.simps) auto
qed

text \<open>Names that the parser reads back as one token.\<close>

definition ident_name :: "string \<Rightarrow> bool" where
  "ident_name w \<longleftrightarrow> w \<noteq> [] \<and> is_first_identifier (hd w) \<and> (\<forall>x \<in> set w. is_identifier x)"

lemma first_identifier_facts:
  assumes "is_first_identifier c"
  shows "\<not> isblank c" "c \<noteq> CHR ''#''" "c \<noteq> CHR 0x22" "\<not> isdigit c" "\<not> isspace c" "c \<noteq> CHR 0x0A"
  using assms
  by (auto simp: is_first_identifier_def isalpha_def char_in_def isblank_def isdigit_def isspace_def)

lemma digit_facts:
  assumes "isdigit c"
  shows "\<not> isblank c" "c \<noteq> CHR ''#''" "c \<noteq> CHR 0x22" "\<not> is_first_identifier c" "\<not> isspace c"
    "c \<noteq> CHR 0x00"
  using assms
  by (auto simp: is_first_identifier_def isalpha_def char_in_def isblank_def isdigit_def isspace_def)

lemma token_identifier:
  assumes "ident_name w" "\<not> is_identifier c"
  shows "token_of (w @ c # rest) prev TOKEN_STRING w (c # rest)"
  unfolding token_of_def
proof (intro allI impI)
  fix s :: scanner assume s: "sc_input s = w @ c # rest \<and> sc_token_text s = []"
  obtain x w' where w: "w = x # w'" "is_first_identifier x" "\<forall>y \<in> set w'. is_identifier y"
    using assms(1) by (cases w) (auto simp: ident_name_def)
  obtain s1 where s1: "scanner_getc s = (Some x, s1)" "sc_input s1 = w' @ c # rest"
      "sc_token_text s1 = []"
    using getc_Cons [of s x "w' @ c # rest"] s w(1) by auto
  with scan_identifier [of "append_c s1 x" w' c rest] w assms(2) first_identifier_facts [OF w(2)]
  show "\<exists>s'. scan_loop s prev S_INITIAL = (TOKEN_STRING, s') \<and> sc_input s' = c # rest
      \<and> sc_token_text s' = w"
    by (subst scan_loop.simps) auto
qed

lemma token_integer:
  assumes "w \<noteq> []" "\<forall>x \<in> set w. isdigit x" "\<not> isdigit c"
  shows "token_of (w @ c # rest) prev TOKEN_INTEGER w (c # rest)"
  unfolding token_of_def
proof (intro allI impI)
  fix s :: scanner assume s: "sc_input s = w @ c # rest \<and> sc_token_text s = []"
  obtain x w' where w: "w = x # w'" "isdigit x" "\<forall>y \<in> set w'. isdigit y"
    using assms(1,2) by (cases w) auto
  obtain s1 where s1: "scanner_getc s = (Some x, s1)" "sc_input s1 = w' @ c # rest"
      "sc_token_text s1 = []"
    using getc_Cons [of s x "w' @ c # rest"] s w(1) by auto
  with scan_integer [of "append_c s1 x" w' c rest] w assms(3) digit_facts [OF w(2)]
  show "\<exists>s'. scan_loop s prev S_INITIAL = (TOKEN_INTEGER, s') \<and> sc_input s' = c # rest
      \<and> sc_token_text s' = w"
    by (subst scan_loop.simps) auto
qed

lemma token_string:
  assumes "CHR 0x22 \<notin> set w"
  shows "token_of (quote w @ rest) prev TOKEN_STRING w rest"
  unfolding token_of_def
proof (intro allI impI)
  fix s :: scanner assume s: "sc_input s = quote w @ rest \<and> sc_token_text s = []"
  obtain s1 where s1: "scanner_getc s = (Some CHR 0x22, s1)" "sc_input s1 = w @ CHR 0x22 # rest"
      "sc_token_text s1 = []"
    using getc_Cons [of s "CHR 0x22" "w @ CHR 0x22 # rest"] s by (auto simp: quote_def)
  with scan_string [of s1 w rest] assms
  show "\<exists>s'. scan_loop s prev S_INITIAL = (TOKEN_STRING, s') \<and> sc_input s' = rest
      \<and> sc_token_text s' = w"
    by (subst scan_loop.simps) (auto simp: isblank_def)
qed

lemma char_token_facts:
  "char_token c = Some t \<Longrightarrow> \<not> isblank c \<and> c \<noteq> CHR ''#'' \<and> c \<noteq> CHR 0x22 \<and> \<not> is_first_identifier c
    \<and> \<not> isdigit c \<and> \<not> isspace c \<and> c \<noteq> CHR 0x00"
  by (auto simp: char_token_def is_first_identifier_def isalpha_def char_in_def isblank_def
      isdigit_def isspace_def split: if_splits)

lemma token_punctuation:
  assumes "char_token c = Some t" "prev \<noteq> TOKEN_EQUAL_SIGN"
  shows "token_of (c # rest) prev t [c] rest"
  unfolding token_of_def
proof (intro allI impI)
  fix s :: scanner assume s: "sc_input s = c # rest \<and> sc_token_text s = []"
  then obtain s1 where "scanner_getc s = (Some c, s1)" "sc_input s1 = rest" "sc_token_text s1 = []"
    using getc_Cons [of s c rest] by auto
  with assms char_token_facts [OF assms(1)]
  show "\<exists>s'. scan_loop s prev S_INITIAL = (t, s') \<and> sc_input s' = rest \<and> sc_token_text s' = [c]"
    by (subst scan_loop.simps) auto
qed

lemma token_newline:
  assumes "token_of inp prev tok tx rest" "prev \<noteq> TOKEN_EQUAL_SIGN"
  shows "token_of (CHR 0x0A # inp) prev tok tx rest"
  unfolding token_of_def
proof (intro allI impI)
  fix s :: scanner assume s: "sc_input s = CHR 0x0A # inp \<and> sc_token_text s = []"
  then obtain s1 where s1: "scanner_getc s = (Some CHR 0x0A, s1)" "sc_input s1 = inp" "sc_token_text s1 = []"
    using getc_Cons [of s "CHR 0x0A" inp] by auto
  then have "scan_loop s prev S_INITIAL = scan_loop s1 prev S_INITIAL"
    using assms(2)
    by (subst scan_loop.simps) (simp add: isblank_def is_first_identifier_def isalpha_def char_in_def
        isdigit_def char_token_def)
  with assms(1) s1 show "\<exists>s'. scan_loop s prev S_INITIAL = (tok, s') \<and> sc_input s' = rest
      \<and> sc_token_text s' = tx"
    by (auto simp: token_of_def)
qed

lemma token_space:
  assumes "token_of (c # inp) prev tok tx rest" "\<not> isspace c"
  shows "token_of (CHR '' '' # c # inp) prev tok tx rest"
  unfolding token_of_def
proof (intro allI impI)
  fix s :: scanner assume s: "sc_input s = CHR '' '' # c # inp \<and> sc_token_text s = []"
  then obtain s1 where s1: "scanner_getc s = (Some CHR '' '', s1)" "sc_input s1 = c # inp"
      "sc_token_text s1 = []"
    using getc_Cons [of s "CHR '' ''" "c # inp"] by auto
  obtain s2 where s2: "scanner_getc s1 = (Some c, s2)" "sc_input s2 = inp" "sc_token_text s2 = []"
    using getc_Cons [of s1 c inp] s1 by auto
  have "scan_loop s prev S_INITIAL = scan_loop s1 prev S_SPACE"
    using s1(1) by (subst scan_loop.simps) (simp add: isblank_def)
  also have "\<dots> = scan_loop (scanner_ungetc s2 c) prev S_INITIAL"
    using s2(1) assms(2) by (subst scan_loop.simps) simp
  finally show "\<exists>s'. scan_loop s prev S_INITIAL = (tok, s') \<and> sc_input s' = rest
      \<and> sc_token_text s' = tx"
    using assms(1) s2 by (simp add: token_of_def)
qed

lemma token_end: "token_of [] prev TOKEN_EOF [] []"
  unfolding token_of_def
  by (intro allI impI, subst scan_loop.simps) (auto simp: scanner_getc_def)

section \<open>Reading values\<close>

definition plain_string :: "string \<Rightarrow> bool" where
  "plain_string s \<longleftrightarrow> CHR 0x22 \<notin> set s \<and> CHR 0x00 \<notin> set s"

text \<open>
  The values that survive a save and a load: integers that are not negative, strings without quotes
  and lists of at least two such strings. A list of one string is read back as a string, and an empty
  list, a void value or a negative integer is a syntax error.
\<close>

fun printable_value :: "a6o_conf_value \<Rightarrow> bool" where
  "printable_value CV_VOID = False"
| "printable_value (CV_INT i) = (0 \<le> sint i)"
| "printable_value (CV_STRING s) = (case s of None \<Rightarrow> False | Some t \<Rightarrow> plain_string t)"
| "printable_value (CV_LIST ss) = (2 \<le> length ss \<and> (\<forall>s \<in> set ss. plain_string s))"

fun value_text :: "a6o_conf_value \<Rightarrow> string" where
  "value_text CV_VOID = []"
| "value_text (CV_INT i) = '' '' @ format_d i"
| "value_text (CV_STRING s) = '' '' @ quote (format_s s)"
| "value_text (CV_LIST ss) = save_list 0 ss"

lemma digit_char_facts:
  assumes "d < 10"
  shows "isdigit (digit_char d)" "digit_value (digit_char d) = d"
proof -
  have "(of_char (digit_char d) :: nat) = 48 + d"
    using assms by (simp add: digit_char_def)
  then show "isdigit (digit_char d)" "digit_value (digit_char d) = d"
    using assms by (simp_all add: isdigit_def char_in_def digit_value_def)
qed

lemma decimal_digits: "decimal n \<noteq> [] \<and> (\<forall>x \<in> set (decimal n). isdigit x)"
proof (induction n rule: decimal.induct)
  case (1 n)
  then show ?case
    by (subst (1 2) decimal.simps) (auto simp: digit_char_facts)
qed

lemma decimal_value_decimal: "decimal_value (decimal n) = n"
proof (induction n rule: decimal.induct)
  case (1 n)
  show ?case
  proof (cases "n < 10")
    case True
    then show ?thesis
      by (subst decimal.simps) (simp add: decimal_value_def digit_char_facts)
  next
    case False
    then have "decimal_value (decimal (n div 10) @ [digit_char (n mod 10)]) = n"
      using "1.IH" by (simp add: decimal_value_def digit_char_facts)
    with False show ?thesis
      by (subst decimal.simps) simp
  qed
qed

lemma atoi_format_d:
  assumes "0 \<le> sint i"
  shows "atoi (format_d i) = i"
proof -
  have "sint i < 2 ^ 31"
    using sint_lt [of i] by simp
  then have "nat (sint i) \<le> 2 ^ 63 - 1"
    by simp
  then have "min (nat (sint i)) (2 ^ 63 - 1) = nat (sint i)"
    by (rule min_absorb1)
  moreover have "(of_nat (nat (sint i)) :: u32) = i"
    using assms by (simp add: of_nat_nat)
  ultimately show ?thesis
    using assms by (simp only: atoi_def format_d_def decimal_value_decimal not_less [symmetric] if_False)
qed

lemma token_text_no_NUL: "CHR 0x00 \<notin> set (sc_token_text s) \<Longrightarrow> scanner_token_text s = sc_token_text s"
  by (auto simp: scanner_token_text_def takeWhile_eq_all_conv)

lemma token_text_plain: "plain_string (sc_token_text s) \<Longrightarrow> scanner_token_text s = sc_token_text s"
  by (simp add: plain_string_def token_text_no_NUL)

lemma token_text_ident: "ident_name (sc_token_text s) \<Longrightarrow> scanner_token_text s = sc_token_text s"
  by (rule token_text_no_NUL)
     (auto simp: ident_name_def is_identifier_def isalnum_def isalpha_def isdigit_def char_in_def)

lemma token_text_digits:
  "\<forall>x \<in> set (sc_token_text s). isdigit x \<Longrightarrow> scanner_token_text s = sc_token_text s"
  using digit_facts(6) by (intro token_text_no_NUL) blast

lemma accept_ready:
  assumes "cp_lookahead_token cp = t" "t \<noteq> TOKEN_EOF"
    and "token_of (sc_input (cp_scanner cp)) t tok tx rest"
  shows "\<exists>sc. token_accept t cp = Some (True, cp\<lparr>cp_lookahead_token := tok, cp_scanner := sc\<rparr>)
    \<and> sc_input sc = rest \<and> sc_token_text sc = tx"
proof -
  obtain sc where "scan_loop ((cp_scanner cp)\<lparr>sc_token_text := []\<rparr>) t S_INITIAL = (tok, sc)"
      "sc_input sc = rest" "sc_token_text sc = tx"
    using assms(3) [unfolded token_of_def, rule_format, of "(cp_scanner cp)\<lparr>sc_token_text := []\<rparr>"]
    by auto
  with assms(1,2) show ?thesis
    by (auto simp: token_accept_def scanner_get_next_token_def)
qed

definition opt_list :: "'a option \<Rightarrow> 'a list" where
  "opt_list x = (case x of None \<Rightarrow> [] | Some y \<Rightarrow> [y])"

lemma quote_head: "quote s @ inp = CHR 0x22 # s @ CHR 0x22 # inp"
  by (simp add: quote_def)

lemma quote_not_space: "\<not> isspace CHR 0x22"
  by (simp add: isspace_def char_in_def)

lemma token_space_string:
  "CHR 0x22 \<notin> set s \<Longrightarrow> token_of (CHR '' '' # quote s @ inp) prev TOKEN_STRING s inp"
  using token_string [of s inp prev] quote_not_space unfolding quote_head by (intro token_space)

lemma list_element_ready:
  assumes "cp_lookahead_token cp = TOKEN_SEMI_COLON"
    and "sc_input (cp_scanner cp) = CHR '' '' # quote s @ inp" "plain_string s"
    and "token_of inp TOKEN_STRING tok tx rest"
  shows "\<exists>sc. and_then (r_list_sep cp) r_list_string_value =
      Some (True, cp\<lparr>cp_lookahead_token := tok, cp_scanner := sc,
        cp_current_value_type :=
          (if cp_current_value_string cp = None then cp_current_value_type cp else CONF_TYPE_LIST),
        cp_current_value_string := None,
        cp_current_value_list :=
          cp_current_value_list cp @ opt_list (cp_current_value_string cp) @ [s]\<rparr>)
    \<and> sc_input sc = rest \<and> sc_token_text sc = tx"
proof -
  have plain: "CHR 0x22 \<notin> set s"
    using assms(3) by (simp add: plain_string_def)
  have "token_of (sc_input (cp_scanner cp)) TOKEN_SEMI_COLON TOKEN_STRING s inp"
    using token_space_string [OF plain] assms(2) by simp
  then obtain sc1 where sc1: "token_accept TOKEN_SEMI_COLON cp
        = Some (True, cp\<lparr>cp_lookahead_token := TOKEN_STRING, cp_scanner := sc1\<rparr>)"
      "sc_input sc1 = inp" "sc_token_text sc1 = s"
    using accept_ready [OF assms(1)] by blast
  let ?cp1 = "cp\<lparr>cp_lookahead_token := TOKEN_STRING, cp_scanner := sc1\<rparr>"
  let ?cp2 = "?cp1\<lparr>cp_current_value_type :=
          (if cp_current_value_string cp = None then cp_current_value_type cp else CONF_TYPE_LIST),
        cp_current_value_string := None,
        cp_current_value_list := cp_current_value_list cp @ opt_list (cp_current_value_string cp) @ [s]\<rparr>"
  have "scanner_token_text sc1 = s"
    using sc1(3) assms(3) by (simp add: token_text_plain)
  then have "r_list_string_value ?cp1 = token_accept TOKEN_STRING ?cp2"
    by (cases cp; cases "cp_current_value_string cp")
       (simp_all add: r_list_string_value_def opt_list_def)
  moreover obtain sc2 where "token_accept TOKEN_STRING ?cp2
        = Some (True, ?cp2\<lparr>cp_lookahead_token := tok, cp_scanner := sc2\<rparr>)"
      "sc_input sc2 = rest" "sc_token_text sc2 = tx"
    using accept_ready [of ?cp2 TOKEN_STRING tok tx rest] assms(4) sc1(2) by auto
  ultimately show ?thesis
    using sc1(1) assms(1) by (intro exI [of _ sc2], cases cp) (simp add: r_list_sep_def)
qed

text \<open>
  The text after a value up to the token \<open>tok\<close> that follows it: a line end and the start of the next
  definition or section, or the end of the file.
\<close>

definition follows :: "string \<Rightarrow> token_type \<Rightarrow> string \<Rightarrow> string \<Rightarrow> bool" where
  "follows inp tok tx rest \<longleftrightarrow> tok \<noteq> TOKEN_COMMA \<and> tok \<noteq> TOKEN_SEMI_COLON
    \<and> (\<forall>prev. prev \<noteq> TOKEN_EQUAL_SIGN \<longrightarrow> token_of inp prev tok tx rest)"

fun tail_text :: "string list \<Rightarrow> string" where
  "tail_text [] = []"
| "tail_text (s # ss) = ''; '' @ quote s @ tail_text ss"

lemma save_list_tail: "save_list (Suc n) ss = tail_text ss"
  by (induction ss arbitrary: n) auto

text \<open>The token at which a list of further elements starts.\<close>

definition list_token :: "string list \<Rightarrow> string \<Rightarrow> token_type \<Rightarrow> string \<Rightarrow> string \<Rightarrow> token_type \<times> string \<times> string" where
  "list_token ss inp tok tx rest = (case ss of
      [] \<Rightarrow> (tok, tx, rest)
    | s # ss' \<Rightarrow> (TOKEN_SEMI_COLON, '';'', '' '' @ quote s @ tail_text ss' @ inp))"

lemma list_token_next:
  assumes "follows inp tok tx rest" "list_token ss inp tok tx rest = (tok', tx', rest')"
  shows "token_of (tail_text ss @ inp) TOKEN_STRING tok' tx' rest'"
  using assms token_punctuation [of "CHR '';''" TOKEN_SEMI_COLON TOKEN_STRING]
  by (cases ss) (auto simp: list_token_def follows_def char_token_def)

lemma opt_string_list_ready:
  assumes "follows inp tok tx rest" "\<forall>s \<in> set ss. plain_string s"
    and "list_token ss inp tok tx rest
      = (cp_lookahead_token cp, sc_token_text (cp_scanner cp), sc_input (cp_scanner cp))"
  shows "\<exists>sc. r_opt_string_list cp = Some (True,
      if ss = [] then cp
      else cp\<lparr>cp_lookahead_token := tok, cp_scanner := sc,
        cp_current_value_type :=
          (if cp_current_value_string cp = None then cp_current_value_type cp else CONF_TYPE_LIST),
        cp_current_value_string := None,
        cp_current_value_list :=
          cp_current_value_list cp @ opt_list (cp_current_value_string cp) @ ss\<rparr>)
    \<and> sc_input sc = rest \<and> sc_token_text sc = tx"
  using assms(2,3)
proof (induction ss arbitrary: cp)
  case Nil
  with assms(1) show ?case
    by (subst r_opt_string_list.simps)
       (auto simp: list_token_def follows_def intro: exI [of _ "cp_scanner cp"])
next
  case (Cons s ss)
  obtain tok' tx' rest' where n: "list_token ss inp tok tx rest = (tok', tx', rest')"
    by (cases "list_token ss inp tok tx rest") auto
  have la: "cp_lookahead_token cp = TOKEN_SEMI_COLON"
      and i: "sc_input (cp_scanner cp) = CHR '' '' # quote s @ tail_text ss @ inp"
    using Cons.prems(2) by (simp_all add: list_token_def)
  let ?t = "if cp_current_value_string cp = None then cp_current_value_type cp else CONF_TYPE_LIST"
  obtain sc where sc: "and_then (r_list_sep cp) r_list_string_value =
      Some (True, cp\<lparr>cp_lookahead_token := tok', cp_scanner := sc, cp_current_value_type := ?t,
        cp_current_value_string := None,
        cp_current_value_list := cp_current_value_list cp @ opt_list (cp_current_value_string cp) @ [s]\<rparr>)"
      "sc_input sc = rest'" "sc_token_text sc = tx'"
    using list_element_ready [OF la i _ list_token_next [OF assms(1) n]] Cons.prems(1) by auto
  let ?cp1 = "cp\<lparr>cp_lookahead_token := tok', cp_scanner := sc, cp_current_value_type := ?t,
        cp_current_value_string := None,
        cp_current_value_list := cp_current_value_list cp @ opt_list (cp_current_value_string cp) @ [s]\<rparr>"
  have step: "r_opt_string_list cp = r_opt_string_list ?cp1"
    using sc(1) la by (subst r_opt_string_list.simps) simp
  obtain sc' where sc': "r_opt_string_list ?cp1 = Some (True,
      if ss = [] then ?cp1
      else ?cp1\<lparr>cp_lookahead_token := tok, cp_scanner := sc',
        cp_current_value_type := (if cp_current_value_string ?cp1 = None then cp_current_value_type ?cp1
          else CONF_TYPE_LIST),
        cp_current_value_string := None,
        cp_current_value_list :=
          cp_current_value_list ?cp1 @ opt_list (cp_current_value_string ?cp1) @ ss\<rparr>)"
      "sc_input sc' = rest" "sc_token_text sc' = tx"
    using Cons.IH [of ?cp1] Cons.prems(1) n sc(2,3) by auto
  show ?case
  proof (cases "ss = []")
    case True
    then have "tok' = tok" "sc_input sc = rest" "sc_token_text sc = tx"
      using n sc(2,3) by (simp_all add: list_token_def)
    with True step sc' show ?thesis
      by (intro exI [of _ sc]) simp
  next
    case False
    with step sc' show ?thesis
      by (intro exI [of _ sc'], cases cp) (simp add: opt_list_def)
  qed
qed

section \<open>Reading definitions\<close>

text \<open>The parser between two definitions, at the token \<open>tok\<close>.\<close>

definition ready ::
  "'s conf_parser_callback \<Rightarrow> cstr \<Rightarrow> 's \<Rightarrow> token_type \<Rightarrow> string \<Rightarrow> string \<Rightarrow> 's a6o_conf_parser \<Rightarrow> bool" where
  "ready f sec ud tok tx inp cp \<longleftrightarrow>
    cp_callback cp = f \<and> cp_current_section cp = sec \<and> cp_user_data cp = ud
    \<and> cp_lookahead_token cp = tok \<and> sc_token_text (cp_scanner cp) = tx
    \<and> sc_input (cp_scanner cp) = inp \<and> cp_current_value_string cp = None
    \<and> cp_current_value_list cp = []"

text \<open>The first token of a value, and what follows it.\<close>

fun value_token :: "a6o_conf_value \<Rightarrow> string \<Rightarrow> token_type \<times> string \<times> string" where
  "value_token CV_VOID inp = (TOKEN_NONE, [], inp)"
| "value_token (CV_INT i) inp = (TOKEN_INTEGER, format_d i, inp)"
| "value_token (CV_STRING s) inp = (TOKEN_STRING, format_s s, inp)"
| "value_token (CV_LIST ss) inp = (TOKEN_STRING, hd ss, tail_text (tl ss) @ inp)"

lemma value_token_next:
  assumes "printable_value v" "value_token v (CHR 0x0A # inp) = (tok, tx, rest)"
  shows "token_of (value_text v @ CHR 0x0A # inp) TOKEN_EQUAL_SIGN tok tx rest"
proof (cases v)
  case (CV_INT i)
  obtain d ds where d: "decimal (nat (sint i)) = d # ds" "\<forall>x \<in> set (d # ds). isdigit x"
    using decimal_digits [of "nat (sint i)"] by (cases "decimal (nat (sint i))") auto
  have "token_of ((d # ds) @ CHR 0x0A # inp) TOKEN_EQUAL_SIGN TOKEN_INTEGER (d # ds) (CHR 0x0A # inp)"
    using d(2) by (intro token_integer) (simp_all add: isdigit_def char_in_def)
  then have "token_of (CHR '' '' # d # ds @ CHR 0x0A # inp) TOKEN_EQUAL_SIGN TOKEN_INTEGER (d # ds)
      (CHR 0x0A # inp)"
    using d(2) digit_facts(5) [of d] by (intro token_space) simp_all
  moreover have "format_d i = d # ds"
    using CV_INT assms(1) d(1) by (simp add: format_d_def)
  ultimately have "token_of ((CHR '' '' # format_d i) @ CHR 0x0A # inp) TOKEN_EQUAL_SIGN TOKEN_INTEGER
      (format_d i) (CHR 0x0A # inp)"
    by simp
  with CV_INT assms(2) show ?thesis
    by auto
next
  case (CV_STRING s)
  with assms token_space_string show ?thesis
    by (auto simp: format_s_def plain_string_def split: option.splits)
next
  case (CV_LIST ss)
  with assms(1) obtain s ss' where ss: "ss = s # ss'" "plain_string s"
    by (cases ss) auto
  with CV_LIST assms(2) token_space_string [of s "tail_text ss' @ CHR 0x0A # inp"] show ?thesis
    by (simp add: save_list_tail plain_string_def)
qed (use assms in simp)

lemma string_value_ready:
  assumes "cp_lookahead_token cp = TOKEN_STRING" "sc_token_text (cp_scanner cp) = s" "plain_string s"
    and "token_of (sc_input (cp_scanner cp)) TOKEN_STRING tok tx rest"
  shows "\<exists>sc. r_string_value cp = Some (True, cp\<lparr>cp_current_value_type := CONF_TYPE_STRING,
      cp_current_value_string := Some s, cp_lookahead_token := tok, cp_scanner := sc\<rparr>)
    \<and> sc_input sc = rest \<and> sc_token_text sc = tx"
proof -
  have "scanner_token_text (cp_scanner cp) = s"
    using assms(2,3) by (auto simp: token_text_plain)
  with accept_ready [of "cp\<lparr>cp_current_value_type := CONF_TYPE_STRING,
      cp_current_value_string := Some s\<rparr>" TOKEN_STRING tok tx rest] assms(1,4) show ?thesis
    by (simp add: r_string_value_def)
qed

lemma int_value_ready:
  assumes "cp_lookahead_token cp = TOKEN_INTEGER" "sc_token_text (cp_scanner cp) = format_d i" "0 \<le> sint i"
    and "token_of (sc_input (cp_scanner cp)) TOKEN_INTEGER tok tx rest"
  shows "\<exists>sc. r_int_value cp = Some (True, cp\<lparr>cp_current_value_type := CONF_TYPE_INT,
      cp_current_value_int := i, cp_lookahead_token := tok, cp_scanner := sc\<rparr>)
    \<and> sc_input sc = rest \<and> sc_token_text sc = tx"
proof -
  have "\<forall>x \<in> set (sc_token_text (cp_scanner cp)). isdigit x"
    using decimal_digits [of "nat (sint i)"] assms(2,3) by (simp add: format_d_def)
  then have "atoi (scanner_token_text (cp_scanner cp)) = i"
    using assms(2,3) by (simp add: token_text_digits atoi_format_d)
  with accept_ready [of "cp\<lparr>cp_current_value_type := CONF_TYPE_INT, cp_current_value_int := i\<rparr>"
      TOKEN_INTEGER tok tx rest] assms(1,4) show ?thesis
    by (simp add: r_int_value_def)
qed

lemma value_ready:
  assumes "printable_value v" and F: "follows (CHR 0x0A # inp) tok tx rest"
    and "value_token v (CHR 0x0A # inp) = (t, x, i)" and r: "ready f sec ud t x i cp"
    and "f sec (cp_current_key cp) v ud = Some (0, ud')"
  shows "\<exists>cp'. and_then (r_value cp) call_callback = Some (True, cp') \<and> ready f sec ud' tok tx rest cp'"
proof (cases v)
  case (CV_INT n)
  have at: "cp_lookahead_token cp = TOKEN_INTEGER" "sc_token_text (cp_scanner cp) = format_d n"
      "0 \<le> sint n"
      "token_of (sc_input (cp_scanner cp)) TOKEN_INTEGER tok tx rest"
    using assms CV_INT by (auto simp: ready_def follows_def)
  from int_value_ready [OF at] at(1) r assms(5) CV_INT show ?thesis
    by (auto simp: r_value_def call_callback_def invoke_callback_def ready_def)
next
  case (CV_STRING os)
  with assms(1) obtain s where s: "os = Some s" "plain_string s"
    by (cases os) auto
  have at: "cp_lookahead_token cp = TOKEN_STRING" "sc_token_text (cp_scanner cp) = s"
      "token_of (sc_input (cp_scanner cp)) TOKEN_STRING tok tx rest"
    using assms CV_STRING s by (auto simp: ready_def follows_def format_s_def)
  have stop: "tok \<noteq> TOKEN_COMMA" "tok \<noteq> TOKEN_SEMI_COLON"
    using F by (simp_all add: follows_def)
  from string_value_ready [OF at(1,2) s(2) at(3)] at(1) r assms(5) CV_STRING s(1) stop show ?thesis
    by (auto simp: r_value_def r_opt_string_list.simps call_callback_def invoke_callback_def ready_def)
next
  case (CV_LIST ss)
  with assms(1) obtain s ss' where ss: "ss = s # ss'" "plain_string s" "\<forall>s \<in> set ss'. plain_string s" "ss' \<noteq> []"
    by (cases ss; cases "tl ss") auto
  obtain t' x' i' where n: "list_token ss' (CHR 0x0A # inp) tok tx rest = (t', x', i')"
    by (cases "list_token ss' (CHR 0x0A # inp) tok tx rest") auto
  have at: "cp_lookahead_token cp = TOKEN_STRING" "sc_token_text (cp_scanner cp) = s"
      "token_of (sc_input (cp_scanner cp)) TOKEN_STRING t' x' i'"
    using assms(3) r CV_LIST ss(1) list_token_next [OF F n] by (auto simp: ready_def)
  obtain sc where sc: "r_string_value cp = Some (True, cp\<lparr>cp_current_value_type := CONF_TYPE_STRING,
      cp_current_value_string := Some s, cp_lookahead_token := t', cp_scanner := sc\<rparr>)"
      "sc_input sc = i'" "sc_token_text sc = x'"
    using string_value_ready [OF at(1,2) ss(2) at(3)] by blast
  let ?cp1 = "cp\<lparr>cp_current_value_type := CONF_TYPE_STRING,
      cp_current_value_string := Some s, cp_lookahead_token := t', cp_scanner := sc\<rparr>"
  obtain sc' where "r_opt_string_list ?cp1 = Some (True, ?cp1\<lparr>cp_lookahead_token := tok, cp_scanner := sc',
        cp_current_value_type := CONF_TYPE_LIST, cp_current_value_string := None,
        cp_current_value_list := [s] @ ss'\<rparr>)" "sc_input sc' = rest" "sc_token_text sc' = tx"
    using opt_string_list_ready [OF F ss(3), of ?cp1] n sc(2,3) ss(4) r by (auto simp: opt_list_def ready_def)
  with at(1) sc(1) r assms(5) CV_LIST ss(1) show ?thesis
    by (auto simp: r_value_def call_callback_def invoke_callback_def ready_def)
qed (use assms(1) in simp)

lemma ident_not_space: "\<not> is_identifier CHR '' ''" "\<not> is_identifier CHR '']''"
  by (simp_all add: is_identifier_def isalnum_def isalpha_def isdigit_def char_in_def)

lemma definition_ready:
  assumes "printable_value v" "follows (CHR 0x0A # inp) tok tx rest" "ident_name key"
    and r: "ready f sec ud TOKEN_STRING key ('' ='' @ value_text v @ CHR 0x0A # inp) cp"
    and "f sec (Some key) v ud = Some (0, ud')"
  shows "\<exists>cp'. r_definition cp = Some (True, cp') \<and> ready f sec ud' tok tx rest cp'"
proof -
  let ?cp0 = "cp\<lparr>cp_current_key := Some key\<rparr>"
  have "scanner_token_text (cp_scanner cp) = key"
    using r assms(3) by (auto simp: ready_def token_text_ident)
  then have key: "r_key cp = token_accept TOKEN_STRING ?cp0"
    by (simp add: r_key_def)
  have "token_of (CHR '' '' # CHR ''='' # value_text v @ CHR 0x0A # inp) TOKEN_STRING TOKEN_EQUAL_SIGN ''=''
      (value_text v @ CHR 0x0A # inp)"
    by (intro token_space token_punctuation) (simp_all add: char_token_def isspace_def char_in_def)
  then obtain sc where sc: "token_accept TOKEN_STRING ?cp0
        = Some (True, ?cp0\<lparr>cp_lookahead_token := TOKEN_EQUAL_SIGN, cp_scanner := sc\<rparr>)"
      "sc_input sc = value_text v @ CHR 0x0A # inp"
    using accept_ready [of ?cp0 TOKEN_STRING TOKEN_EQUAL_SIGN "''=''" "value_text v @ CHR 0x0A # inp"] r
    by (auto simp: ready_def)
  let ?cp1 = "?cp0\<lparr>cp_lookahead_token := TOKEN_EQUAL_SIGN, cp_scanner := sc\<rparr>"
  obtain t x i where n: "value_token v (CHR 0x0A # inp) = (t, x, i)"
    by (cases "value_token v (CHR 0x0A # inp)") auto
  obtain sc2 where sc2: "token_accept TOKEN_EQUAL_SIGN ?cp1
        = Some (True, ?cp1\<lparr>cp_lookahead_token := t, cp_scanner := sc2\<rparr>)"
      "sc_input sc2 = i" "sc_token_text sc2 = x"
    using accept_ready [of ?cp1 TOKEN_EQUAL_SIGN t x i] value_token_next [OF assms(1) n] sc(2) by auto
  have "ready f sec ud t x i (?cp1\<lparr>cp_lookahead_token := t, cp_scanner := sc2\<rparr>)"
    using r sc2(2,3) by (simp add: ready_def)
  from value_ready [OF assms(1,2) n this] assms(5) show ?thesis
    by (auto simp: r_definition_def key sc(1) sc2(1))
qed

section \<open>Reading sections\<close>

fun keys_text :: "key_entry list \<Rightarrow> string" where
  "keys_text [] = []"
| "keys_text (k # ks) = ke_key k @ '' ='' @ value_text (ke_value k) @ CHR 0x0A # keys_text ks"

fun sections_text :: "section_entry list \<Rightarrow> string" where
  "sections_text [] = []"
| "sections_text (s # ss) = CHR 0x0A # ''['' @ se_section s @ '']'' @ [CHR 0x0A, CHR 0x0A]
    @ keys_text (se_keys s) @ sections_text ss"

definition printable_key :: "key_entry \<Rightarrow> bool" where
  "printable_key k \<longleftrightarrow> ident_name (ke_key k) \<and> printable_value (ke_value k)"

definition printable_section :: "section_entry \<Rightarrow> bool" where
  "printable_section s \<longleftrightarrow> ident_name (se_section s) \<and> se_keys s \<noteq> [] \<and> (\<forall>k \<in> set (se_keys s). printable_key k)"

text \<open>The token at which the text of some definitions, or of some sections, starts.\<close>

definition sections_token :: "section_entry list \<Rightarrow> token_type \<times> string \<times> string" where
  "sections_token ss = (case ss of
      [] \<Rightarrow> (TOKEN_EOF, [], [])
    | s # ss' \<Rightarrow> (TOKEN_LEFT_BRACE, ''['',
        se_section s @ '']'' @ [CHR 0x0A, CHR 0x0A] @ keys_text (se_keys s) @ sections_text ss'))"

definition keys_token :: "key_entry list \<Rightarrow> section_entry list \<Rightarrow> token_type \<times> string \<times> string" where
  "keys_token ks ss = (case ks of
      [] \<Rightarrow> sections_token ss
    | k # ks' \<Rightarrow> (TOKEN_STRING, ke_key k,
        '' ='' @ value_text (ke_value k) @ CHR 0x0A # keys_text ks' @ sections_text ss))"

lemma sections_token_next:
  "prev \<noteq> TOKEN_EQUAL_SIGN \<Longrightarrow> sections_token ss = (tok, tx, rest) \<Longrightarrow> token_of (sections_text ss) prev tok tx rest"
  by (cases ss) (auto simp: sections_token_def intro!: token_end token_newline token_punctuation,
      simp_all add: char_token_def)

lemma keys_token_next:
  assumes "prev \<noteq> TOKEN_EQUAL_SIGN" "\<forall>k \<in> set ks. printable_key k" "keys_token ks ss = (tok, tx, rest)"
  shows "token_of (keys_text ks @ sections_text ss) prev tok tx rest"
proof (cases ks)
  case Nil
  with assms sections_token_next show ?thesis
    by (simp add: keys_token_def)
next
  case (Cons k ks')
  with assms token_identifier [of "ke_key k" "CHR '' ''"] ident_not_space(1) show ?thesis
    by (auto simp: keys_token_def printable_key_def)
qed

lemma keys_follow:
  assumes "\<forall>k \<in> set ks. printable_key k" "keys_token ks ss = (tok, tx, rest)"
  shows "follows (CHR 0x0A # keys_text ks @ sections_text ss) tok tx rest"
  using assms keys_token_next token_newline
  by (auto simp: follows_def keys_token_def sections_token_def split: list.splits)

text \<open>A run of the callback over bindings, every call of which must succeed.\<close>

fun run_callback ::
  "'s conf_parser_callback \<Rightarrow> ((string \<times> string) \<times> a6o_conf_value) list \<Rightarrow> 's \<Rightarrow> 's option" where
  "run_callback f [] ud = Some ud"
| "run_callback f (kv # kvs) ud =
    (case f (Some (fst (fst kv))) (Some (snd (fst kv))) (snd kv) ud of
       Some (r, ud') \<Rightarrow> if r = 0 then run_callback f kvs ud' else None
     | None \<Rightarrow> None)"

lemma run_callback_append:
  "run_callback f (xs @ ys) ud = Option.bind (run_callback f xs ud) (run_callback f ys)"
  by (induction xs arbitrary: ud) (auto split: option.splits)

abbreviation key_bindings :: "string \<Rightarrow> key_entry list \<Rightarrow> ((string \<times> string) \<times> a6o_conf_value) list" where
  "key_bindings sec ks \<equiv> map (\<lambda>k. ((sec, ke_key k), ke_value k)) ks"

lemma definition_list_ready:
  assumes "\<forall>k \<in> set ks. printable_key k" "keys_token ks ss = (t, x, i)"
    and "ready f (Some sec) ud t x i cp" "run_callback f (key_bindings sec ks) ud = Some ud'"
    and "sections_token ss = (tok, tx, rest)"
  shows "\<exists>cp'. r_definition_list cp = Some (True, cp') \<and> ready f (Some sec) ud' tok tx rest cp'"
  using assms(1-4)
proof (induction ks arbitrary: cp ud t x i)
  case Nil
  then have "cp_lookahead_token cp \<noteq> TOKEN_STRING"
    using assms(5) by (auto simp: keys_token_def sections_token_def ready_def split: list.splits)
  with Nil assms(5) show ?case
    by (subst r_definition_list.simps) (simp add: keys_token_def)
next
  case (Cons k ks)
  obtain ud1 where ud1: "f (Some sec) (Some (ke_key k)) (ke_value k) ud = Some (0, ud1)"
      "run_callback f (key_bindings sec ks) ud1 = Some ud'"
    using Cons.prems(4) by (auto split: option.splits if_splits)
  obtain t' x' i' where n: "keys_token ks ss = (t', x', i')"
    by (cases "keys_token ks ss") auto
  have F: "follows (CHR 0x0A # keys_text ks @ sections_text ss) t' x' i'"
    using Cons.prems(1) n by (intro keys_follow) auto
  have k: "ident_name (ke_key k)" "printable_value (ke_value k)"
    using Cons.prems(1) by (auto simp: printable_key_def)
  have at: "ready f (Some sec) ud TOKEN_STRING (ke_key k)
      ('' ='' @ value_text (ke_value k) @ CHR 0x0A # keys_text ks @ sections_text ss) cp"
    using Cons.prems(2,3) by (auto simp: keys_token_def)
  obtain cp1 where cp1: "r_definition cp = Some (True, cp1)" "ready f (Some sec) ud1 t' x' i' cp1"
    using definition_ready [OF k(2) F k(1) at ud1(1)] by blast
  have "r_definition_list cp = r_definition_list cp1"
    using at cp1(1) by (subst r_definition_list.simps) (simp add: ready_def)
  with Cons.IH [OF _ n cp1(2) ud1(2)] Cons.prems(1) show ?case
    by simp
qed

lemma section_ready:
  assumes "printable_section s" "sections_token ss = (tok, tx, rest)"
    and at: "ready f sec0 ud TOKEN_LEFT_BRACE ''[''
      (se_section s @ '']'' @ [CHR 0x0A, CHR 0x0A] @ keys_text (se_keys s) @ sections_text ss) cp"
    and run: "run_callback f (key_bindings (se_section s) (se_keys s)) ud = Some ud'"
  shows "\<exists>cp'. r_section cp = Some (True, cp') \<and> ready f (Some (se_section s)) ud' tok tx rest cp'"
proof -
  let ?inp = "CHR 0x0A # CHR 0x0A # keys_text (se_keys s) @ sections_text ss"
  have P: "ident_name (se_section s)" "\<forall>k \<in> set (se_keys s). printable_key k"
    using assms(1) by (simp_all add: printable_section_def)
  have "token_of (se_section s @ CHR '']'' # ?inp) TOKEN_LEFT_BRACE TOKEN_STRING (se_section s) (CHR '']'' # ?inp)"
    using P(1) ident_not_space(2) by (intro token_identifier)
  then obtain sc where sc: "token_accept TOKEN_LEFT_BRACE cp
        = Some (True, cp\<lparr>cp_lookahead_token := TOKEN_STRING, cp_scanner := sc\<rparr>)"
      "sc_input sc = CHR '']'' # ?inp" "sc_token_text sc = se_section s"
    using accept_ready [of cp TOKEN_LEFT_BRACE TOKEN_STRING "se_section s" "CHR '']'' # ?inp"] at
    by (auto simp: ready_def)
  let ?cp1 = "cp\<lparr>cp_lookahead_token := TOKEN_STRING, cp_scanner := sc,
    cp_current_section := Some (se_section s)\<rparr>"
  have name: "r_section_name (cp\<lparr>cp_lookahead_token := TOKEN_STRING, cp_scanner := sc\<rparr>)
      = token_accept TOKEN_STRING ?cp1"
    using sc(3) P(1) by (simp add: r_section_name_def token_text_ident)
  have "token_of (CHR '']'' # ?inp) TOKEN_STRING TOKEN_RIGHT_BRACE '']'' ?inp"
    by (rule token_punctuation) (simp_all add: char_token_def)
  then obtain sc2 where sc2: "token_accept TOKEN_STRING ?cp1
        = Some (True, ?cp1\<lparr>cp_lookahead_token := TOKEN_RIGHT_BRACE, cp_scanner := sc2\<rparr>)"
      "sc_input sc2 = ?inp"
    using accept_ready [of ?cp1 TOKEN_STRING TOKEN_RIGHT_BRACE "'']''" ?inp] sc(2) by auto
  let ?cp2 = "?cp1\<lparr>cp_lookahead_token := TOKEN_RIGHT_BRACE, cp_scanner := sc2\<rparr>"
  obtain t x i where n: "keys_token (se_keys s) ss = (t, x, i)"
    by (cases "keys_token (se_keys s) ss") auto
  have "token_of ?inp TOKEN_RIGHT_BRACE t x i"
    using keys_token_next [OF _ P(2) n] by (intro token_newline) simp_all
  then obtain sc3 where sc3: "token_accept TOKEN_RIGHT_BRACE ?cp2
        = Some (True, ?cp2\<lparr>cp_lookahead_token := t, cp_scanner := sc3\<rparr>)"
      "sc_input sc3 = i" "sc_token_text sc3 = x"
    using accept_ready [of ?cp2 TOKEN_RIGHT_BRACE t x i] sc2(2) by auto
  have "ready f (Some (se_section s)) ud t x i (?cp2\<lparr>cp_lookahead_token := t, cp_scanner := sc3\<rparr>)"
    using at sc3(2,3) by (simp add: ready_def)
  from definition_list_ready [OF P(2) n this run assms(2)] show ?thesis
    unfolding r_section_def sc(1) and_then_simps name sc2(1) sc3(1) .
qed

abbreviation section_bindings :: "section_entry list \<Rightarrow> ((string \<times> string) \<times> a6o_conf_value) list" where
  "section_bindings ss \<equiv> concat (map (\<lambda>s. key_bindings (se_section s) (se_keys s)) ss)"

lemma section_list_ready:
  assumes "\<forall>s \<in> set ss. printable_section s" "sections_token ss = (t, x, i)"
    and "ready f sec ud t x i cp" "run_callback f (section_bindings ss) ud = Some ud'"
  shows "\<exists>cp' sec'. r_section_list cp = Some (True, cp') \<and> ready f sec' ud' TOKEN_EOF [] [] cp'"
  using assms
proof (induction ss arbitrary: cp ud sec t x i)
  case Nil
  then show ?case
    by (subst r_section_list.simps) (auto simp: sections_token_def ready_def)
next
  case (Cons s ss)
  obtain ud1 where ud1: "run_callback f (key_bindings (se_section s) (se_keys s)) ud = Some ud1"
      "run_callback f (section_bindings ss) ud1 = Some ud'"
    using Cons.prems(4) by (auto simp: run_callback_append Option.bind_eq_Some_conv)
  obtain t' x' i' where n: "sections_token ss = (t', x', i')"
    by (cases "sections_token ss") auto
  have at: "ready f sec ud TOKEN_LEFT_BRACE ''[''
      (se_section s @ '']'' @ [CHR 0x0A, CHR 0x0A] @ keys_text (se_keys s) @ sections_text ss) cp"
    using Cons.prems(2,3) by (auto simp: sections_token_def)
  obtain cp1 where cp1: "r_section cp = Some (True, cp1)" "ready f (Some (se_section s)) ud1 t' x' i' cp1"
    using section_ready [OF _ n at ud1(1)] Cons.prems(1) by auto
  have "r_section_list cp = r_section_list cp1"
    using at cp1(1) by (subst r_section_list.simps) (simp add: ready_def)
  with Cons.IH [OF _ n cp1(2) ud1(2)] Cons.prems(1) show ?case
    by simp
qed

lemma parse_sections_text:
  assumes "\<forall>s \<in> set ss. printable_section s" "run_callback f (section_bindings ss) ud = Some ud'"
  shows "\<exists>cp'. a6o_conf_parser_parse (a6o_conf_parser_new path (Some (sections_text ss)) f ud) = Some (0, cp')
    \<and> cp_user_data cp' = ud'"
proof -
  obtain t x i where n: "sections_token ss = (t, x, i)"
    by (cases "sections_token ss") auto
  let ?cp = "a6o_conf_parser_new path (Some (sections_text ss)) f ud"
  have tok: "token_of (sections_text ss) TOKEN_NONE t x i"
    using n by (simp add: sections_token_next)
  obtain sc where sc: "scan_loop (scanner_new (sections_text ss)) TOKEN_NONE S_INITIAL = (t, sc)"
      "sc_input sc = i" "sc_token_text sc = x"
    using tok [unfolded token_of_def, rule_format, of "scanner_new (sections_text ss)"]
    by (auto simp: scanner_new_def)
  have "(scanner_new (sections_text ss))\<lparr>sc_token_text := []\<rparr> = scanner_new (sections_text ss)"
    by (simp add: scanner_new_def)
  then have next_tok: "scanner_get_next_token (cp_scanner ?cp) TOKEN_NONE = (t, sc)"
    using sc(1) by (simp add: scanner_get_next_token_def a6o_conf_parser_new_def)
  let ?cp1 = "?cp\<lparr>cp_lookahead_token := t, cp_scanner := sc, cp_current_section := None,
      cp_current_key := None, cp_current_value_list := []\<rparr>"
  have "ready f None ud t x i ?cp1"
    using sc(2,3) by (simp add: ready_def a6o_conf_parser_new_def)
  from section_list_ready [OF assms(1) n this assms(2)] obtain cp' sec'
    where cp': "r_section_list ?cp1 = Some (True, cp')" "ready f sec' ud' TOKEN_EOF [] [] cp'"
    by blast
  have "a6o_conf_parser_parse ?cp = Some (0, cp')"
    using cp' unfolding a6o_conf_parser_parse_def next_tok
    by (simp add: a6o_conf_parser_new_def r_configuration_def token_accept_def ready_def)
  with cp'(2) show ?thesis
    by (auto simp: ready_def)
qed

section \<open>What is saved\<close>

lemma conf_save_fun_text:
  "conf_save_fun sec key v data =
    \<lparr>sv_f = sv_f data @ (if sv_p data \<noteq> Some sec
        then CHR 0x0A # ''['' @ sec @ '']'' @ [CHR 0x0A, CHR 0x0A] else [])
        @ key @ '' ='' @ value_text v @ [CHR 0x0A],
     sv_p = Some sec\<rparr>"
  by (cases v; cases data) (auto simp: conf_save_fun_def Let_def)

lemma apply_keys_text:
  "sv_p data = Some sec \<Longrightarrow>
    apply_keys conf_save_fun sec ks data = \<lparr>sv_f = sv_f data @ keys_text ks, sv_p = Some sec\<rparr>"
  by (induction ks arbitrary: data) (simp_all add: conf_save_fun_text)

lemma apply_section_text:
  assumes "se_keys s \<noteq> []" "sv_p data \<noteq> Some (se_section s)"
  shows "apply_keys conf_save_fun (se_section s) (se_keys s) data =
    \<lparr>sv_f = sv_f data @ CHR 0x0A # ''['' @ se_section s @ '']'' @ [CHR 0x0A, CHR 0x0A]
       @ keys_text (se_keys s), sv_p = Some (se_section s)\<rparr>"
proof -
  obtain k ks where "se_keys s = k # ks"
    using assms(1) by (cases "se_keys s") auto
  with assms(2) show ?thesis
    by (simp add: conf_save_fun_text apply_keys_text)
qed

lemma apply_sections_text:
  assumes "\<forall>s \<in> set ss. se_keys s \<noteq> []" "distinct (map se_section ss)"
    and "\<forall>s \<in> set ss. sv_p data \<noteq> Some (se_section s)"
  shows "sv_f (apply_sections conf_save_fun ss data) = sv_f data @ sections_text ss"
  using assms
proof (induction ss arbitrary: data)
  case (Cons s ss)
  let ?d = "apply_keys conf_save_fun (se_section s) (se_keys s) data"
  have d: "?d = \<lparr>sv_f = sv_f data @ CHR 0x0A # ''['' @ se_section s @ '']'' @ [CHR 0x0A, CHR 0x0A]
       @ keys_text (se_keys s), sv_p = Some (se_section s)\<rparr>"
    using Cons.prems by (intro apply_section_text) auto
  have "\<forall>s' \<in> set ss. sv_p ?d \<noteq> Some (se_section s')"
    using Cons.prems(2) by (auto simp: d)
  with Cons.IH [of ?d] Cons.prems show ?case
    by (simp add: d)
qed simp

definition printable_conf :: "a6o_conf \<Rightarrow> bool" where
  "printable_conf conf \<longleftrightarrow> conf_inv conf \<and> (\<forall>s \<in> set (conf_sections conf). printable_section s)"

lemma save_text:
  assumes "printable_conf conf"
  shows "a6o_conf_save_file conf path True = Some (0, sections_text (conf_sections conf))"
  using assms apply_sections_text [of "conf_sections conf" "\<lparr>sv_f = [], sv_p = None\<rparr>"]
  by (auto simp: a6o_conf_save_file_def a6o_conf_apply_def printable_conf_def conf_inv_def
      printable_section_def)

section \<open>Loading what was saved\<close>

lemma run_callback_add_all:
  "run_callback conf_load_parser_cb kvs conf = conf_store.add_all kvs conf"
  by (induction kvs arbitrary: conf)
     (auto simp: conf_load_parser_cb_def conf_add_def split: prod.splits)

lemma distinct_section_bindings:
  assumes "distinct (map se_section ss)" "\<forall>s \<in> set ss. distinct (map ke_key (se_keys s))"
  shows "distinct (map fst (section_bindings ss))"
  using assms
proof (induction ss)
  case (Cons s ss)
  have "distinct (map fst (key_bindings (se_section s) (se_keys s)))"
    using Cons.prems(2) by (simp add: distinct_map comp_def inj_on_def)
  moreover have "fst ` set (key_bindings (se_section s) (se_keys s)) \<inter> fst ` set (section_bindings ss) = {}"
    using Cons.prems(1) by (auto dest!: image_eqI [of _ se_section, OF sym])
  moreover have "distinct (map fst (section_bindings ss))"
    using Cons by simp
  ultimately show ?case
    by (simp only: list.map concat.simps map_append distinct_append set_map simp_thms)
qed simp

text \<open>A parse of a file that a configuration was saved to adds its bindings to a configuration.\<close>

lemma load_saved:
  assumes "printable_conf conf" "conf_inv conf0" "\<forall>k \<in> dom (conf_map conf). conf_map conf0 k = None"
  shows "\<exists>conf'. a6o_conf_load_file conf0 path (Some (sections_text (conf_sections conf))) = Some (0, conf')
    \<and> conf_inv conf' \<and> conf_map conf' = conf_map conf0 ++ conf_map conf"
proof -
  have inv: "conf_inv conf" and P: "\<forall>s \<in> set (conf_sections conf). printable_section s"
    using assms(1) by (auto simp: printable_conf_def)
  have alist: "conf_alist conf = section_bindings (conf_sections conf)"
    by (simp add: conf_alist_def)
  have "distinct (map fst (section_bindings (conf_sections conf)))"
    using inv by (intro distinct_section_bindings) (auto simp: conf_inv_def)
  moreover have "\<forall>k \<in> fst ` set (section_bindings (conf_sections conf)). True \<and> conf_map conf0 k = None"
    using assms(3) alist by (metis conf_map_def dom_map_of_conv_image_fst)
  ultimately obtain conf' where c: "conf_store.add_all (section_bindings (conf_sections conf)) conf0 = Some conf'"
      "conf_inv conf'" "conf_map conf' = conf_map conf0 ++ map_of (section_bindings (conf_sections conf))"
    using conf_store.add_all_fresh [OF assms(2)] by blast
  have "run_callback conf_load_parser_cb (section_bindings (conf_sections conf)) conf0 = Some conf'"
    using c(1) by (simp add: run_callback_add_all)
  from parse_sections_text [OF P this, of path] c(2,3) alist show ?thesis
    by (auto simp: a6o_conf_load_file_def conf_map_def)
qed

section \<open>Loading any file\<close>

text \<open>
  A callback that always returns, given a section, a key and a value without NULL, and keeps an
  invariant.
\<close>

definition total_callback :: "'s conf_parser_callback \<Rightarrow> ('s \<Rightarrow> bool) \<Rightarrow> bool" where
  "total_callback f I \<longleftrightarrow> (\<forall>s k v ud. I ud \<longrightarrow> v \<noteq> CV_STRING None \<longrightarrow> (\<exists>r ud'. f (Some s) (Some k) v ud = Some (r, ud') \<and> I ud'))"

definition parser_ok :: "'s conf_parser_callback \<Rightarrow> ('s \<Rightarrow> bool) \<Rightarrow> 's a6o_conf_parser \<Rightarrow> bool" where
  "parser_ok f I cp \<longleftrightarrow> cp_callback cp = f \<and> I (cp_user_data cp)
    \<and> (cp_current_value_type cp = CONF_TYPE_STRING \<longrightarrow> cp_current_value_string cp \<noteq> None)"

text \<open>A parsing function that returns, normally or by a jump, and keeps a predicate.\<close>

definition keeps :: "('s a6o_conf_parser \<Rightarrow> bool) \<Rightarrow> 's parsing \<Rightarrow> bool" where
  "keeps P r \<longleftrightarrow> (\<exists>b cp. r = Some (b, cp) \<and> P cp)"

lemma keeps_Some [simp]: "keeps P (Some (b, cp)) \<longleftrightarrow> P cp"
  by (simp add: keeps_def)

lemma keeps_and_then: "keeps P r \<Longrightarrow> (\<And>cp. P cp \<Longrightarrow> keeps P (f cp)) \<Longrightarrow> keeps P (and_then r f)"
  by (auto simp: keeps_def and_then_def split: bool.splits)

text \<open>What the parser keeps while it is inside a section: the callback, the invariant of its data, and
  the fact that a section, and in a definition a key, is set.\<close>

definition in_section :: "'s conf_parser_callback \<Rightarrow> ('s \<Rightarrow> bool) \<Rightarrow> 's a6o_conf_parser \<Rightarrow> bool" where
  "in_section f I cp \<longleftrightarrow> parser_ok f I cp \<and> cp_current_section cp \<noteq> None"

definition in_definition :: "'s conf_parser_callback \<Rightarrow> ('s \<Rightarrow> bool) \<Rightarrow> 's a6o_conf_parser \<Rightarrow> bool" where
  "in_definition f I cp \<longleftrightarrow> in_section f I cp \<and> cp_current_key cp \<noteq> None"

lemmas parser_state_defs = in_definition_def in_section_def parser_ok_def

lemma token_accept_keeps:
  "parser_ok f I cp \<Longrightarrow> keeps (parser_ok f I) (token_accept t cp)"
  "in_section f I cp \<Longrightarrow> keeps (in_section f I) (token_accept t cp)"
  "in_definition f I cp \<Longrightarrow> keeps (in_definition f I) (token_accept t cp)"
  by (auto simp: token_accept_def syntax_error_def parser_state_defs split: prod.splits)

lemma opt_string_list_keeps: "in_definition f I cp \<Longrightarrow> keeps (in_definition f I) (r_opt_string_list cp)"
proof (induction cp rule: r_opt_string_list.induct)
  case (1 cp)
  have "keeps (in_definition f I) (r_list_string_value c)" if "in_definition f I c" for c
    using that unfolding r_list_string_value_def Let_def
    by (intro token_accept_keeps(3)) (auto simp: parser_state_defs split: option.splits)
  then have el: "keeps (in_definition f I) (and_then (r_list_sep cp) r_list_string_value)"
    using "1.prems" by (intro keeps_and_then) (auto simp: r_list_sep_def token_accept_keeps)
  then obtain b cp1 where "and_then (r_list_sep cp) r_list_string_value = Some (b, cp1)" "in_definition f I cp1"
    by (auto simp: keeps_def)
  with "1.prems" "1.IH" [of "(b, cp1)" b cp1] show ?case
    by (subst r_opt_string_list.simps) (auto split: bool.splits)
qed

lemma value_keeps:
  assumes "in_definition f I cp"
  shows "keeps (in_definition f I) (r_value cp)"
proof -
  have "keeps (in_definition f I) (r_int_value cp)" "keeps (in_definition f I) (r_string_value cp)"
    using assms unfolding r_int_value_def r_string_value_def
    by (auto intro!: token_accept_keeps(3) simp: parser_state_defs)
  moreover have "in_definition f I (cp\<lparr>cp_scanner := sc\<rparr>)" for sc
    using assms by (simp add: parser_state_defs)
  ultimately show ?thesis
    using assms by (auto simp: r_value_def intro!: keeps_and_then opt_string_list_keeps)
qed

lemma call_callback_keeps:
  assumes "total_callback f I" "in_definition f I cp"
  shows "keeps (in_definition f I) (call_callback cp)"
proof -
  obtain s k where sk: "cp_current_section cp = Some s" "cp_current_key cp = Some k"
    using assms(2) by (auto simp: parser_state_defs)
  have "\<exists>r ud'. invoke_callback cp v = Some (r, ud') \<and> I ud'" if "v \<noteq> CV_STRING None" for v
    using assms sk that unfolding total_callback_def by (simp add: invoke_callback_def parser_state_defs)
  then obtain r ud where "\<And>v. v \<noteq> CV_STRING None \<Longrightarrow> invoke_callback cp v = Some (r v, ud v) \<and> I (ud v)"
    by metis
  with assms(2) show ?thesis
    by (auto simp: call_callback_def parser_state_defs conf_type_defs)
qed

lemma definition_keeps:
  assumes "total_callback f I" "in_section f I cp"
  shows "keeps (in_definition f I) (r_definition cp)"
proof -
  have "in_definition f I (cp\<lparr>cp_current_key := Some k\<rparr>)" for k
    using assms(2) by (simp add: parser_state_defs)
  then have "keeps (in_definition f I) (r_key cp)"
    by (simp add: r_key_def token_accept_keeps)
  then show ?thesis
    unfolding r_definition_def
    using assms(1) by (auto intro!: keeps_and_then value_keeps call_callback_keeps token_accept_keeps)
qed

lemma definition_list_keeps:
  "total_callback f I \<Longrightarrow> in_section f I cp \<Longrightarrow> keeps (in_section f I) (r_definition_list cp)"
proof (induction cp rule: r_definition_list.induct)
  case (1 cp)
  obtain b cp1 where "r_definition cp = Some (b, cp1)" "in_section f I cp1"
    using definition_keeps [OF "1.prems"] by (auto simp: keeps_def in_definition_def)
  with "1.prems" "1.IH" [of "(b, cp1)" b cp1] show ?case
    by (subst r_definition_list.simps) (auto split: bool.splits)
qed

lemma section_keeps:
  assumes "total_callback f I" "parser_ok f I cp"
  shows "keeps (parser_ok f I) (r_section cp)"
proof -
  have "keeps (in_section f I) (r_section_name c)" if "parser_ok f I c" for c
    using that unfolding r_section_name_def
    by (intro token_accept_keeps(2)) (simp add: parser_state_defs)
  then have "keeps (in_section f I) (and_then (and_then (r_section_name c) (token_accept TOKEN_RIGHT_BRACE)) r_definition_list)"
    if "parser_ok f I c" for c
    using that assms(1) by (auto intro!: keeps_and_then definition_list_keeps token_accept_keeps)
  moreover obtain b c where "token_accept TOKEN_LEFT_BRACE cp = Some (b, c)" "parser_ok f I c"
    using token_accept_keeps(1) [OF assms(2), of TOKEN_LEFT_BRACE] by (auto simp: keeps_def)
  ultimately show ?thesis
    by (cases b) (fastforce simp: r_section_def keeps_def in_section_def)+
qed

lemma section_list_keeps:
  "total_callback f I \<Longrightarrow> parser_ok f I cp \<Longrightarrow> keeps (parser_ok f I) (r_section_list cp)"
proof (induction cp rule: r_section_list.induct)
  case (1 cp)
  obtain b cp1 where "r_section cp = Some (b, cp1)" "parser_ok f I cp1"
    using section_keeps [OF "1.prems"] by (auto simp: keeps_def)
  with "1.prems" "1.IH" [of "(b, cp1)" b cp1] show ?case
    by (subst r_section_list.simps) (auto split: bool.splits)
qed

lemma parse_total:
  assumes "total_callback f I" "I ud"
  shows "\<exists>r cp. a6o_conf_parser_parse (a6o_conf_parser_new path contents f ud) = Some (r, cp)
    \<and> r \<in> {0, -1, -2} \<and> (r = -1 \<longleftrightarrow> contents = None) \<and> I (cp_user_data cp)"
proof (cases contents)
  case None
  with assms(2) show ?thesis
    by (simp add: a6o_conf_parser_parse_def a6o_conf_parser_new_def)
next
  case (Some t)
  let ?cp = "a6o_conf_parser_new path (Some t) f ud"
  obtain tok sc where n: "scanner_get_next_token (cp_scanner ?cp) TOKEN_NONE = (tok, sc)"
    by force
  let ?cp1 = "?cp\<lparr>cp_lookahead_token := tok, cp_scanner := sc, cp_current_section := None,
                 cp_current_key := None, cp_current_value_list := []\<rparr>"
  have "parser_ok f I ?cp1"
    using assms(2) by (simp add: parser_ok_def a6o_conf_parser_new_def)
  then have "keeps (parser_ok f I) (and_then (r_configuration ?cp1) (token_accept TOKEN_EOF))"
    using assms(1) by (auto simp: r_configuration_def intro!: keeps_and_then section_list_keeps token_accept_keeps)
  then obtain b c where "and_then (r_configuration ?cp1) (token_accept TOKEN_EOF) = Some (b, c)" "I (cp_user_data c)"
    by (auto simp: keeps_def parser_ok_def)
  moreover have "cp_input ?cp"
    by (simp add: a6o_conf_parser_new_def)
  ultimately show ?thesis
    using Some n by (cases b) (auto simp: a6o_conf_parser_parse_def)
qed

text \<open>Adding a value never loses a binding, and NULL strings are not added.\<close>

definition extends_conf :: "a6o_conf \<Rightarrow> a6o_conf \<Rightarrow> bool" where
  "extends_conf conf0 conf \<longleftrightarrow> conf_inv conf \<and> conf_map conf0 \<subseteq>\<^sub>m conf_map conf
    \<and> (CV_STRING None \<notin> ran (conf_map conf0) \<longrightarrow> CV_STRING None \<notin> ran (conf_map conf))"

lemma extends_conf_refl: "conf_inv conf \<Longrightarrow> extends_conf conf conf"
  by (simp add: extends_conf_def)

lemma extends_conf_trans: "extends_conf c0 c1 \<Longrightarrow> extends_conf c1 c2 \<Longrightarrow> extends_conf c0 c2"
  by (auto simp: extends_conf_def intro: map_le_trans)

lemma extends_conf_get:
  assumes "extends_conf conf conf'" "conf_inv conf" "a6o_conf_has_key conf s k"
  shows "a6o_conf_get_value conf' s k w = a6o_conf_get_value conf s k w"
proof -
  have inv: "conf_inv conf'" "conf_map conf \<subseteq>\<^sub>m conf_map conf'"
    using assms(1) by (simp_all add: extends_conf_def)
  have "(s, k) \<in> dom (conf_map conf)"
    using assms(3) by (auto simp: get_spec(1) [OF assms(2)])
  with inv(2) have "conf_map conf (s, k) = conf_map conf' (s, k)"
    by (simp add: map_le_def)
  then show ?thesis
    by (simp add: get_spec(3) [OF assms(2)] get_spec(3) [OF inv(1)])
qed

lemma load_callback_total: "total_callback conf_load_parser_cb (extends_conf conf0)"
  unfolding total_callback_def
proof (intro allI impI)
  fix s k v conf assume A: "extends_conf conf0 conf" and v: "v \<noteq> CV_STRING None"
  have inv: "conf_inv conf"
    using A by (simp add: extends_conf_def)
  show "\<exists>r conf'. conf_load_parser_cb (Some s) (Some k) v conf = Some (r, conf') \<and> extends_conf conf0 conf'"
  proof (cases "conf_map conf (s, k)")
    case None
    with add_value_spec [OF inv, of s k v] obtain conf' where
      c: "a6o_conf_add_value conf s k v = (0, conf')" "conf_inv conf'" "conf_map conf' = (conf_map conf)((s, k) \<mapsto> v)"
      by auto
    moreover have "conf_map conf0 (s, k) = None"
      using A None unfolding extends_conf_def by (metis domIff map_le_def)
    then have "extends_conf conf0 conf'"
      using A c(2,3) v None by (auto simp: extends_conf_def map_le_def)
    ultimately show ?thesis
      by (auto simp: conf_load_parser_cb_def)
  next
    case (Some old)
    with A add_value_spec [OF inv, of s k v] show ?thesis
      by (auto simp: conf_load_parser_cb_def)
  qed
qed

lemma load_file_extends:
  assumes "conf_inv conf"
  shows "\<exists>conf'. a6o_conf_load_file conf path contents = Some (0, conf') \<and> extends_conf conf conf'"
  using parse_total [OF load_callback_total [of conf] extends_conf_refl [OF assms], of path contents]
  by (auto simp: a6o_conf_load_file_def)

section \<open>Properties\<close>


definition example_conf :: a6o_conf where
  "example_conf = \<lparr>conf_sections =
    [\<lparr>se_section = ''on-demand'',
      se_keys = [\<lparr>ke_key = ''max-size'', ke_value = CV_INT 10\<rparr>,
                 \<lparr>ke_key = ''modules'', ke_value = CV_LIST [''clamav'', ''moduleH1'']\<rparr>]\<rparr>]\<rparr>"


text \<open>
  C10: loading never crashes and never loses anything. Whatever the contents of the file, the load
  returns 0 (the status of the parse is not used: a missing file and a syntax error return 0 as well),
  the configuration stays well formed and every key it already had keeps its value.
\<close>

theorem load_total:
  assumes "conf_inv conf"
  shows "\<exists>conf'. a6o_conf_load_file conf path contents = Some (0, conf') \<and> conf_inv conf'
    \<and> (\<forall>s k w. a6o_conf_has_key conf s k \<longrightarrow> a6o_conf_get_value conf' s k w = a6o_conf_get_value conf s k w)"
  using load_file_extends [OF assms, of path contents] extends_conf_get [OF _ assms]
  by (auto simp: extends_conf_def)

theorem load_total_witness:
  "\<exists>conf'. a6o_conf_load_file example_conf ''a.conf'' (Some ''[log'') = Some (0, conf') \<and> conf_inv conf'
    \<and> (\<forall>s k w. a6o_conf_has_key example_conf s k
          \<longrightarrow> a6o_conf_get_value conf' s k w = a6o_conf_get_value example_conf s k w)"
  by (rule load_total) (simp add: example_conf_def conf_inv_def)

text \<open>
  a list of one element does not survive a save and a load: it is written as a quoted string, and
  read back as a string.
\<close>

theorem singleton_list_loads_as_string:
  "(case a6o_conf_save_file \<lparr>conf_sections =
        [\<lparr>se_section = ''on-demand'', se_keys = [\<lparr>ke_key = ''modules'', ke_value = CV_LIST [''clamav'']\<rparr>]\<rparr>]\<rparr>
        ''a.conf'' True of
      Some (_, contents) \<Rightarrow>
        map_option (\<lambda>(_, conf). a6o_conf_get_value conf ''on-demand'' ''modules'' CV_VOID)
          (a6o_conf_load_file a6o_conf_new ''a.conf'' (Some contents))
    | None \<Rightarrow> None) = Some (1, CV_STRING (Some ''clamav''))"
  by code_simp

end
