(* ===== verification/OsFile.thy ===== *)
theory OsFile
  imports Prelude
begin

text \<open>
  Files of the operating system, \<open>libcore/arch/linux/os/file.c\<close>: the classification of a file by its
  mode, and the paths that are never scanned. The calls \<open>stat\<close>, \<open>fstat\<close> and \<open>realpath\<close> are
  arguments.

  The path prefix test \<open>strprefix\<close> exists twice in the source, here and in \<open>libcore/scanconf.c\<close>,
  with the same loop and a different set of separators; the loop and its characterisation are shared.
\<close>

section \<open>File types\<close>

definition FILE_FLAG_IS_ERROR :: u32 where "FILE_FLAG_IS_ERROR = push_bit 0 1"
definition FILE_FLAG_IS_DIRECTORY :: u32 where "FILE_FLAG_IS_DIRECTORY = push_bit 1 1"
definition FILE_FLAG_IS_PLAIN_FILE :: u32 where "FILE_FLAG_IS_PLAIN_FILE = push_bit 2 1"
definition FILE_FLAG_IS_LINK :: u32 where "FILE_FLAG_IS_LINK = push_bit 3 1"
definition FILE_FLAG_IS_DEVICE :: u32 where "FILE_FLAG_IS_DEVICE = push_bit 4 1"
definition FILE_FLAG_IS_IPC :: u32 where "FILE_FLAG_IS_IPC = push_bit 5 1"
definition FILE_FLAG_IS_UNKNOWN :: u32 where "FILE_FLAG_IS_UNKNOWN = push_bit 6 1"

lemmas file_flag_defs =
  FILE_FLAG_IS_ERROR_def FILE_FLAG_IS_DIRECTORY_def FILE_FLAG_IS_PLAIN_FILE_def FILE_FLAG_IS_LINK_def
  FILE_FLAG_IS_DEVICE_def FILE_FLAG_IS_IPC_def FILE_FLAG_IS_UNKNOWN_def

record os_file_stat =
  fs_flags :: u32
  fs_file_size :: u64

datatype st_mode = S_IFBLK | S_IFCHR | S_IFDIR | S_IFIFO | S_IFSOCK | S_IFLNK | S_IFREG | S_OTHER

text \<open>The outcome of \<open>stat\<close>: the error number, or the mode and the size.\<close>

type_synonym stat_outcome = "int + (st_mode \<times> u64)"

definition fill_stat :: "os_file_stat \<Rightarrow> st_mode \<times> u64 \<Rightarrow> os_file_stat" where
  "fill_stat buf sb =
    buf\<lparr>fs_flags := (case fst sb of
          S_IFBLK \<Rightarrow> FILE_FLAG_IS_DEVICE
        | S_IFCHR \<Rightarrow> FILE_FLAG_IS_DEVICE
        | S_IFDIR \<Rightarrow> FILE_FLAG_IS_DIRECTORY
        | S_IFIFO \<Rightarrow> FILE_FLAG_IS_IPC
        | S_IFSOCK \<Rightarrow> FILE_FLAG_IS_IPC
        | S_IFLNK \<Rightarrow> FILE_FLAG_IS_LINK
        | S_IFREG \<Rightarrow> FILE_FLAG_IS_PLAIN_FILE
        | S_OTHER \<Rightarrow> FILE_FLAG_IS_UNKNOWN),
        fs_file_size := snd sb\<rparr>"

text \<open>Result, buffer, and the value stored through \<open>pfile_errno\<close> if one is.\<close>

definition os_file_stat_of :: "stat_outcome \<Rightarrow> os_file_stat \<Rightarrow> int \<times> os_file_stat \<times> int option" where
  "os_file_stat_of r buf = (case r of
       Inl e \<Rightarrow> (-1, buf\<lparr>fs_flags := FILE_FLAG_IS_ERROR\<rparr>, Some e)
     | Inr sb \<Rightarrow> (0, fill_stat buf sb, None))"

definition os_file_stat ::
  "(string \<Rightarrow> stat_outcome) \<Rightarrow> string \<Rightarrow> os_file_stat \<Rightarrow> int \<times> os_file_stat \<times> int option" where
  "os_file_stat stat path buf = os_file_stat_of (stat path) buf"

definition os_file_stat_fd ::
  "(int \<Rightarrow> stat_outcome) \<Rightarrow> int \<Rightarrow> os_file_stat \<Rightarrow> int \<times> os_file_stat \<times> int option" where
  "os_file_stat_fd fstat fd buf = os_file_stat_of (fstat fd) buf"

section \<open>The path prefix test\<close>

text \<open>
  The loop \<open>while (*prefix && *s && *prefix++ == *s++)\<close>. Both pointers are advanced before the
  comparison is known to fail.
\<close>

fun strprefix_loop :: "string \<Rightarrow> string \<Rightarrow> string \<times> string" where
  "strprefix_loop s [] = (s, [])"
| "strprefix_loop [] p = ([], p)"
| "strprefix_loop (c # s) (d # p) = (if d = c then strprefix_loop s p else (s, p))"

definition strprefix :: "string \<Rightarrow> string \<Rightarrow> bool" where
  "strprefix s prefix =
    (case strprefix_loop s prefix of
       (s', p') \<Rightarrow> p' = [] \<and> (case s' of [] \<Rightarrow> True | c # _ \<Rightarrow> c = CHR ''/''))"

definition do_not_scan_paths :: "string list" where
  "do_not_scan_paths = [''/proc'', ''/run'', ''/sys'']"

fun prefix_of_any :: "string \<Rightarrow> string list \<Rightarrow> bool" where
  "prefix_of_any s [] = False"
| "prefix_of_any s (p # ps) = (if strprefix s p then True else prefix_of_any s ps)"

text \<open>
  A failing \<open>realpath\<close> is logged with level error, which aborts the process before the function can
  return 1.
\<close>

definition os_file_do_not_scan :: "(string \<Rightarrow> string option) \<Rightarrow> string \<Rightarrow> bool option" where
  "os_file_do_not_scan realpath path = (case realpath path of
       None \<Rightarrow> None
     | Some real_path \<Rightarrow> Some (prefix_of_any real_path do_not_scan_paths))"

section \<open>What the loop computes\<close>

text \<open>
  The loop ends with an empty prefix exactly when the string starts with a string that agrees with the
  prefix up to, but not including, its last character.
\<close>

lemma strprefix_loop_iff:
  "(\<exists>s'. strprefix_loop s p = (s', []) \<and> P s') \<longleftrightarrow>
    (\<exists>q r. s = q @ r \<and> length q = length p \<and> butlast q = butlast p \<and> P r)"
proof (induction s p rule: strprefix_loop.induct)
  case (3 c s d p)
  show ?case
  proof (cases "d = c")
    case True
    have "(\<exists>q r. c # s = q @ r \<and> length q = length (d # p) \<and> butlast q = butlast (d # p) \<and> P r)
        \<longleftrightarrow> (\<exists>q r. s = q @ r \<and> length q = length p \<and> butlast q = butlast p \<and> P r)"
      (is "?L \<longleftrightarrow> ?R")
    proof
      assume ?L
      then obtain q r where q: "c # s = q @ r" "length q = length (d # p)" "butlast q = butlast (d # p)" "P r"
        by blast
      then obtain q' where "q = c # q'" by (cases q) auto
      with q show ?R by (cases "q' = []"; cases "p = []") auto
    next
      assume ?R
      then obtain q r where q: "s = q @ r" "length q = length p" "butlast q = butlast p" "P r"
        by blast
      with True show ?L
        by (intro exI [of _ "c # q"] exI [of _ r]) (cases "p = []"; auto)
    qed
    with True 3 show ?thesis by simp
  next
    case False
    have "(\<exists>q r. c # s = q @ r \<and> length q = length (d # p) \<and> butlast q = butlast (d # p) \<and> P r)
        \<longleftrightarrow> p = [] \<and> P s" (is "?L \<longleftrightarrow> _")
    proof
      assume ?L
      then obtain q r where q: "c # s = q @ r" "length q = length (d # p)" "butlast q = butlast (d # p)" "P r"
        by blast
      obtain q' where "q = c # q'" using q(1,2) by (cases q) auto
      with q False show "p = [] \<and> P s"
        by (cases "p = []"; cases "q' = []") auto
    next
      assume "p = [] \<and> P s"
      then show ?L by (intro exI [of _ "[c]"] exI [of _ s]) simp
    qed
    with False show ?thesis by auto
  qed
qed auto

definition at_separator :: "(char \<Rightarrow> bool) \<Rightarrow> string \<Rightarrow> bool" where
  "at_separator sep r \<longleftrightarrow> (case r of [] \<Rightarrow> True | c # _ \<Rightarrow> sep c)"

text \<open>What the test is meant to decide: the prefix is a whole number of path components.\<close>

definition path_prefix :: "(char \<Rightarrow> bool) \<Rightarrow> string \<Rightarrow> string \<Rightarrow> bool" where
  "path_prefix sep s p \<longleftrightarrow> (\<exists>r. s = p @ r \<and> at_separator sep r)"

lemma strprefix_iff:
  "strprefix s p \<longleftrightarrow>
    (\<exists>q r. s = q @ r \<and> length q = length p \<and> butlast q = butlast p
      \<and> at_separator (\<lambda>c. c = CHR ''/'') r)"
proof -
  have "strprefix s p \<longleftrightarrow> (\<exists>s'. strprefix_loop s p = (s', []) \<and> at_separator (\<lambda>c. c = CHR ''/'') s')"
    by (auto simp: strprefix_def at_separator_def split: prod.splits)
  then show ?thesis
    by (simp add: strprefix_loop_iff)
qed

lemma prefix_of_any_iff: "prefix_of_any s ps \<longleftrightarrow> (\<exists>p \<in> set ps. strprefix s p)"
  by (induction ps) auto

section \<open>Properties\<close>

text \<open>
  C11: the paths that are not scanned. Everything under \<open>/proc\<close>, \<open>/run\<close> and \<open>/sys\<close> is excluded; but the
  test ignores the last character of each name, so that exactly the paths whose first component is
  \<open>pro\<close>, \<open>ru\<close> or \<open>sy\<close> followed by any one character are excluded.
\<close>

theorem do_not_scan_characterisation:
  assumes "realpath path = Some real"
  shows "os_file_do_not_scan realpath path = Some (\<exists>x r.
      (real = ''/pro'' @ x # r \<or> real = ''/ru'' @ x # r \<or> real = ''/sy'' @ x # r)
      \<and> at_separator (\<lambda>c. c = CHR ''/'') r)"
proof -
  have "strprefix real (p @ [y]) \<longleftrightarrow> (\<exists>x r. real = p @ x # r \<and> at_separator (\<lambda>c. c = CHR ''/'') r)" for p y
    unfolding strprefix_iff
    by (auto, metis append.assoc append_Cons append_Nil append_butlast_last_id length_0_conv nat.distinct(1),
        metis append.assoc append_Cons append_Nil butlast_snoc length_append_singleton)
  from this [of "''/pro''" "CHR ''c''"] this [of "''/ru''" "CHR ''n''"] this [of "''/sy''" "CHR ''s''"]
  show ?thesis
    using assms by (auto simp: os_file_do_not_scan_def prefix_of_any_iff do_not_scan_paths_def)
qed

theorem do_not_scan_characterisation_witness:
  "os_file_do_not_scan Some ''/prod/a'' = Some True \<and> os_file_do_not_scan Some ''/home/proc'' = Some False"
  using do_not_scan_characterisation [of Some "''/prod/a''" "''/prod/a''"]
    do_not_scan_characterisation [of Some "''/home/proc''" "''/home/proc''"]
  by (simp add: at_separator_def)

text \<open>A path that cannot be resolved ends the process.\<close>

lemma do_not_scan_unresolved_aborts:
  "os_file_do_not_scan realpath path = None \<longleftrightarrow> realpath path = None"
  by (auto simp: os_file_do_not_scan_def split: option.splits)

end
