(* ===== verification/OsDir.thy ===== *)
theory OsDir
  imports OsFile
begin

text \<open>
  Directories of the operating system, \<open>libcore/arch/linux/os/dir.c\<close>: the traversal of a directory
  tree, which the on-demand scan and the loading of modules use, and the creation of a directory with
  its parents.

  What \<open>opendir\<close> and \<open>readdir\<close> return for a directory and all its subdirectories is a tree, so that
  the traversal is a structural recursion; \<open>realpath\<close> is an argument.
\<close>

section \<open>Directory trees\<close>

datatype dirent_type = DT_BLK | DT_CHR | DT_SOCK | DT_FIFO | DT_LNK | DT_REG | DT_UNKNOWN

text \<open>
  A directory that cannot be opened, with the error number, or its entries in the order of
  \<open>readdir\<close> followed by the end of the stream or a read error. Entries of type \<open>DT_DIR\<close> carry the
  directory they name.
\<close>

datatype fs_dir =
    Unreadable int
  | Readable "fs_entry list" "int option"
and fs_entry =
    SubDir string fs_dir
  | Other string dirent_type

definition dirent_flags :: "dirent_type \<Rightarrow> u32" where
  "dirent_flags t = (case t of
       DT_BLK \<Rightarrow> FILE_FLAG_IS_DEVICE
     | DT_CHR \<Rightarrow> FILE_FLAG_IS_DEVICE
     | DT_SOCK \<Rightarrow> FILE_FLAG_IS_IPC
     | DT_FIFO \<Rightarrow> FILE_FLAG_IS_IPC
     | DT_LNK \<Rightarrow> FILE_FLAG_IS_LINK
     | DT_REG \<Rightarrow> FILE_FLAG_IS_PLAIN_FILE
     | DT_UNKNOWN \<Rightarrow> FILE_FLAG_IS_UNKNOWN)"

text \<open>
  The callback: full path (NULL when \<open>realpath\<close> fails), flags and error number, acting on the data it
  is given. \<open>None\<close> is a fault in the callback.
\<close>

type_synonym 's dirent_cb = "cstr \<Rightarrow> u32 \<Rightarrow> int \<Rightarrow> 's \<Rightarrow> (int \<times> 's) option"

definition entry_path :: "string \<Rightarrow> string \<Rightarrow> string" where
  "entry_path path name = path @ ''/'' @ name"

definition dot_name :: "string \<Rightarrow> bool" where
  "dot_name name \<longleftrightarrow> name = ''.'' \<or> name = ''..''"

text \<open>
  \<open>os_dir_map\<close> and the loop over its entries. The value of the callback is used when the directory
  cannot be opened; a recursive call that returns another value than 0 ends the loop; and once the
  directory is open the result is 0 in any case.
\<close>

fun os_dir_map :: "(string \<Rightarrow> string option) \<Rightarrow> bool \<Rightarrow> 's dirent_cb \<Rightarrow> string \<Rightarrow> fs_dir \<Rightarrow> 's \<Rightarrow> (int \<times> 's) option"
  and dir_loop :: "(string \<Rightarrow> string option) \<Rightarrow> bool \<Rightarrow> 's dirent_cb \<Rightarrow> string \<Rightarrow> fs_entry list \<Rightarrow> int option \<Rightarrow> 's \<Rightarrow> 's option"
  where
  "os_dir_map realpath recurse cb path (Unreadable e) data = cb (Some path) FILE_FLAG_IS_ERROR e data"
| "os_dir_map realpath recurse cb path (Readable es err) data =
    map_option (Pair 0) (dir_loop realpath recurse cb path es err data)"
| "dir_loop realpath recurse cb path [] None data = Some data"
| "dir_loop realpath recurse cb path [] (Some e) data =
    map_option snd (cb (Some path) FILE_FLAG_IS_ERROR e data)"
| "dir_loop realpath recurse cb path (SubDir name d # es) err data =
    (if dot_name name then dir_loop realpath recurse cb path es err data
     else if recurse
     then case os_dir_map realpath recurse cb (entry_path path name) d data of
            None \<Rightarrow> None
          | Some (ret, data1) \<Rightarrow>
              if ret \<noteq> 0 then Some data1
              else dir_loop realpath recurse cb path es err data1
     else case cb (realpath (entry_path path name)) FILE_FLAG_IS_DIRECTORY 0 data of
            None \<Rightarrow> None
          | Some (_, data1) \<Rightarrow> dir_loop realpath recurse cb path es err data1)"
| "dir_loop realpath recurse cb path (Other name t # es) err data =
    (case cb (realpath (entry_path path name)) (dirent_flags t) 0 data of
       None \<Rightarrow> None
     | Some (_, data1) \<Rightarrow> dir_loop realpath recurse cb path es err data1)"

section \<open>Creating directories\<close>

text \<open>What \<open>stat\<close> tells about a path: an error number, or whether it is a directory.\<close>

datatype stat_result = StatErr int | StatOk bool

definition ENOENT :: int where "ENOENT = 2"

text \<open>
  \<open>errno\<close> keeps the value of the last failing call, which is what is compared when \<open>stat\<close> succeeds on
  something that is not a directory.
\<close>

definition stat_dir :: "stat_result \<Rightarrow> int \<Rightarrow> int \<times> int" where
  "stat_dir r errno = (case r of
       StatOk True \<Rightarrow> (1, errno)
     | StatOk False \<Rightarrow> (if errno = ENOENT then 0 else -1, errno)
     | StatErr e \<Rightarrow> (if e = ENOENT then 0 else -1, e))"

record 'w mkdir_calls =
  mk_stat :: "string \<Rightarrow> 'w \<Rightarrow> stat_result"
  mk_mkdir :: "string \<Rightarrow> 'w \<Rightarrow> (int \<times> int option) \<times> 'w"

text \<open>A component of the path: the result of \<open>mkdir\<close> comes with the error number it sets, if it sets one.\<close>

definition make_component :: "'w mkdir_calls \<Rightarrow> string \<Rightarrow> int \<Rightarrow> 'w \<Rightarrow> int \<times> int \<times> 'w" where
  "make_component os full errno w =
    (case stat_dir (mk_stat os full w) errno of
       (r, e) \<Rightarrow>
         if r = 0
         then case mk_mkdir os full w of
                ((r', e'), w') \<Rightarrow> (r', case e' of None \<Rightarrow> e | Some x \<Rightarrow> x, w')
         else (r, e, w))"

text \<open>
  One iteration: \<open>dn\<close> is the part of the path before \<open>token\<close>. The component is empty at a leading or
  a doubled separator, which is skipped, and at the end of the path, which is not.
\<close>

function mkdir_loop ::
  "'w mkdir_calls \<Rightarrow> string \<Rightarrow> string \<Rightarrow> int \<Rightarrow> int \<Rightarrow> 'w \<Rightarrow> int \<times> 'w" where
  "mkdir_loop os dn token ret errno w =
    (let nm = takeWhile (\<lambda>c. c \<noteq> CHR ''/'') token;
         rest = dropWhile (\<lambda>c. c \<noteq> CHR ''/'') token;
         (ret1, errno1, w1) =
           (if nm = [] \<and> rest \<noteq> [] then (ret, errno, w)
            else make_component os (dn @ nm) errno w)
     in if rest \<noteq> [] \<and> ret1 \<ge> 0
        then mkdir_loop os (dn @ nm @ ''/'') (tl rest) ret1 errno1 w1
        else (ret1, w1))"
  by pat_completeness auto
termination
proof (relation "measure (\<lambda>(os, dn, token, ret, errno, w). length token)", goal_cases)
  case (2 os dn token ret errno w nm rest)
  then have "rest \<noteq> []" "length rest \<le> length token"
    by (simp_all add: length_dropWhile_le)
  then have "length (tl rest) < length token"
    by (cases rest) simp_all
  then show ?case
    by simp
qed simp

declare mkdir_loop.simps [simp del]

definition os_mkdir_p :: "'w mkdir_calls \<Rightarrow> string \<Rightarrow> int \<Rightarrow> 'w \<Rightarrow> int \<times> 'w" where
  "os_mkdir_p os path errno w = mkdir_loop os [] path 0 errno w"

section \<open>Complete traversals\<close>

text \<open>The calls of a traversal that nothing cuts short, in order.\<close>

fun walk :: "(string \<Rightarrow> string option) \<Rightarrow> bool \<Rightarrow> string \<Rightarrow> fs_dir \<Rightarrow> (cstr \<times> u32 \<times> int) list"
  and walk_entries :: "(string \<Rightarrow> string option) \<Rightarrow> bool \<Rightarrow> string \<Rightarrow> fs_entry list \<Rightarrow> int option \<Rightarrow> (cstr \<times> u32 \<times> int) list"
  where
  "walk realpath recurse path (Unreadable e) = [(Some path, FILE_FLAG_IS_ERROR, e)]"
| "walk realpath recurse path (Readable es err) = walk_entries realpath recurse path es err"
| "walk_entries realpath recurse path [] None = []"
| "walk_entries realpath recurse path [] (Some e) = [(Some path, FILE_FLAG_IS_ERROR, e)]"
| "walk_entries realpath recurse path (SubDir name d # es) err =
    (if dot_name name then []
     else if recurse then walk realpath recurse (entry_path path name) d
     else [(realpath (entry_path path name), FILE_FLAG_IS_DIRECTORY, 0)])
    @ walk_entries realpath recurse path es err"
| "walk_entries realpath recurse path (Other name t # es) err =
    (realpath (entry_path path name), dirent_flags t, 0) # walk_entries realpath recurse path es err"

fun run_calls :: "'s dirent_cb \<Rightarrow> (cstr \<times> u32 \<times> int) list \<Rightarrow> 's \<Rightarrow> 's option" where
  "run_calls cb [] data = Some data"
| "run_calls cb ((p, fl, e) # cs) data = (case cb p fl e data of
      None \<Rightarrow> None
    | Some (_, data1) \<Rightarrow> run_calls cb cs data1)"

lemma run_calls_append:
  "run_calls cb (xs @ ys) data = Option.bind (run_calls cb xs data) (run_calls cb ys)"
  by (induction xs arbitrary: data) (auto split: option.splits)

text \<open>A callback that returns 0 when it is told of an error.\<close>

definition tolerates_errors :: "'s dirent_cb \<Rightarrow> bool" where
  "tolerates_errors cb \<longleftrightarrow>
    (\<forall>p e data ret data'. cb p FILE_FLAG_IS_ERROR e data = Some (ret, data') \<longrightarrow> ret = 0)"

lemma map_complete:
  assumes "tolerates_errors cb"
  shows "os_dir_map realpath recurse cb path d data =
      map_option (Pair 0) (run_calls cb (walk realpath recurse path d) data)"
    and "dir_loop realpath recurse cb path es err data =
      run_calls cb (walk_entries realpath recurse path es err) data"
proof (induction realpath recurse path d and realpath recurse path es err arbitrary: data and data
    rule: walk_walk_entries.induct)
  case (1 realpath recurse path e)
  show ?case
    using assms by (auto simp: tolerates_errors_def split: option.splits)
next
  case (5 realpath recurse path name d es err)
  then show ?case
    by (auto simp: run_calls_append split: option.splits bind_splits)
qed (auto split: option.splits)

text \<open>A directory that can be opened always gives 0.\<close>

lemma map_open_returns_0:
  "os_dir_map realpath recurse cb path (Readable es err) data = Some (ret, data') \<Longrightarrow> ret = 0"
  by auto

text \<open>
  Whatever the callback returns, a traversal is complete when no subdirectory that it enters is
  unreadable.
\<close>

fun readable :: "bool \<Rightarrow> fs_dir \<Rightarrow> bool"
  and readable_entry :: "bool \<Rightarrow> fs_entry \<Rightarrow> bool"
  where
  "readable recurse (Unreadable e) \<longleftrightarrow> False"
| "readable recurse (Readable es err) \<longleftrightarrow> (\<forall>x \<in> set es. readable_entry recurse x)"
| "readable_entry recurse (SubDir name d) \<longleftrightarrow> (recurse \<and> \<not> dot_name name \<longrightarrow> readable recurse d)"
| "readable_entry recurse (Other name t) \<longleftrightarrow> True"

lemma map_readable:
  shows "readable recurse d \<Longrightarrow> os_dir_map realpath recurse cb path d data =
      map_option (Pair 0) (run_calls cb (walk realpath recurse path d) data)"
    and "\<forall>x \<in> set es. readable_entry recurse x \<Longrightarrow> dir_loop realpath recurse cb path es err data =
      run_calls cb (walk_entries realpath recurse path es err) data"
proof (induction realpath recurse path d and realpath recurse path es err arbitrary: data and data
    rule: walk_walk_entries.induct)
  case (5 realpath recurse path name d es err)
  then show ?case
    by (auto simp: run_calls_append split: option.splits bind_splits)
qed (auto split: option.splits)

section \<open>Directories that exist after a creation\<close>

text \<open>
  Documented behaviour of the two calls over the directories a world has: \<open>stat\<close> tells whether a path
  is a directory, a successful \<open>mkdir\<close> makes it one and removes none.
\<close>

definition mkdir_laws :: "'w mkdir_calls \<Rightarrow> ('w \<Rightarrow> string set) \<Rightarrow> bool" where
  "mkdir_laws os dirs \<longleftrightarrow>
    (\<forall>p w. mk_stat os p w = StatOk True \<longleftrightarrow> p \<in> dirs w)
    \<and> (\<forall>p w r e w'. mk_mkdir os p w = ((r, e), w') \<longrightarrow>
        dirs w \<subseteq> dirs w' \<and> (0 \<le> r \<longrightarrow> p \<in> dirs w'))"

text \<open>The paths that the loop must find or create, starting in the middle of a path.\<close>

fun parents :: "string \<Rightarrow> string \<Rightarrow> string set" where
  "parents dn [] = {dn}"
| "parents dn (c # cs) =
    (if c = CHR ''/'' then (if dn = [] \<or> last dn = CHR ''/'' then {} else {dn}) else {})
    \<union> parents (dn @ [c]) cs"

lemma parents_component:
  "CHR ''/'' \<notin> set nm \<Longrightarrow> parents dn (nm @ CHR ''/'' # rest) =
    (if nm = [] \<and> (dn = [] \<or> last dn = CHR ''/'') then {} else {dn @ nm}) \<union> parents (dn @ nm @ ''/'') rest"
  by (induction nm arbitrary: dn) auto

lemma parents_last: "CHR ''/'' \<notin> set nm \<Longrightarrow> parents dn nm = {dn @ nm}"
  by (induction nm arbitrary: dn) auto

lemma make_component_sound:
  assumes "mkdir_laws os dirs" "make_component os p errno w = (r, e, w')" "0 \<le> r"
  shows "dirs w \<subseteq> dirs w'" "p \<in> dirs w'"
  using assms
  by (auto simp: make_component_def mkdir_laws_def stat_dir_def
      split: prod.splits if_splits stat_result.splits bool.splits)

lemma mkdir_loop_sound:
  assumes "mkdir_laws os dirs"
  shows "mkdir_loop os dn token ret errno w = (r, w') \<Longrightarrow> 0 \<le> r \<Longrightarrow> dn = [] \<or> last dn = CHR ''/'' \<Longrightarrow>
    dirs w \<subseteq> dirs w' \<and> parents dn token \<subseteq> dirs w'"
proof (induction "length token" arbitrary: dn token ret errno w rule: less_induct)
  case less
  let ?nm = "takeWhile (\<lambda>c. c \<noteq> CHR ''/'') token" and ?rest = "dropWhile (\<lambda>c. c \<noteq> CHR ''/'') token"
  let ?skip = "?nm = [] \<and> ?rest \<noteq> []"
  have nm: "CHR ''/'' \<notin> set ?nm"
    using set_takeWhileD by fastforce
  obtain r1 e1 w1 where step: "(if ?skip then (ret, errno, w) else make_component os (dn @ ?nm) errno w) = (r1, e1, w1)"
    by (cases "if ?skip then (ret, errno, w) else make_component os (dn @ ?nm) errno w")
  have made: "0 \<le> r1 \<Longrightarrow> dirs w \<subseteq> dirs w1 \<and> (\<not> ?skip \<longrightarrow> dn @ ?nm \<in> dirs w1)"
    using step make_component_sound [OF assms, of "dn @ ?nm" errno w r1 e1 w1] by (auto split: if_splits)
  have run: "mkdir_loop os dn token ret errno w =
      (if ?rest \<noteq> [] \<and> r1 \<ge> 0 then mkdir_loop os (dn @ ?nm @ ''/'') (tl ?rest) r1 e1 w1 else (r1, w1))"
    by (subst mkdir_loop.simps) (simp only: step Let_def prod.case)
  show ?case
  proof (cases "?rest = []")
    case True
    then have "token = ?nm"
      by (metis append_Nil2 takeWhile_dropWhile_id)
    then have "parents dn token = {dn @ ?nm}"
      using parents_last [OF nm, of dn] by simp
    with True run less.prems(1,2) made show ?thesis
      by auto
  next
    case False
    then obtain rest where rest: "?rest = CHR ''/'' # rest"
      using hd_dropWhile [OF False] by (cases ?rest) auto
    have tok: "token = ?nm @ CHR ''/'' # rest"
      using takeWhile_dropWhile_id [of "\<lambda>c. c \<noteq> CHR ''/''" token] rest by simp
    have ok: "0 \<le> r1"
      using run less.prems(1,2) False by (auto split: if_splits)
    then have rec: "mkdir_loop os (dn @ ?nm @ ''/'') rest r1 e1 w1 = (r, w')"
      using run less.prems(1) rest by simp
    have "length rest < length token"
      by (subst tok) simp
    from less.hyps [OF this rec less.prems(2)]
    have "dirs w1 \<subseteq> dirs w' \<and> parents (dn @ ?nm @ ''/'') rest \<subseteq> dirs w'"
      by simp
    moreover have "parents dn token = (if ?nm = [] then {} else {dn @ ?nm}) \<union> parents (dn @ ?nm @ ''/'') rest"
      using parents_component [OF nm, of dn rest] less.prems(3) tok by simp
    ultimately show ?thesis
      using made [OF ok] rest by auto
  qed
qed

section \<open>Properties\<close>



text \<open>
  creating a directory with its parents. When \<open>os_mkdir_p\<close> does not return an error, the path and
  every proper prefix of it that ends at a separator is a directory, and no directory is lost.
\<close>

theorem mkdir_p_creates_parents:
  assumes "mkdir_laws os dirs" "os_mkdir_p os path errno w = (r, w')" "0 \<le> r"
  shows "dirs w \<subseteq> dirs w' \<and> parents [] path \<subseteq> dirs w'"
  using mkdir_loop_sound [OF assms(1), of "[]" path 0 errno w r w'] assms(2,3)
  by (simp add: os_mkdir_p_def)

definition set_mkdir_calls :: "string set mkdir_calls" where
  "set_mkdir_calls = \<lparr>mk_stat = (\<lambda>p w. if p \<in> w then StatOk True else StatErr ENOENT),
     mk_mkdir = (\<lambda>p w. ((0, None), insert p w))\<rparr>"

theorem mkdir_p_creates_parents_witness:
  "''/a'' \<in> snd (os_mkdir_p set_mkdir_calls ''/a/b'' 0 {}) \<and> ''/a/b'' \<in> snd (os_mkdir_p set_mkdir_calls ''/a/b'' 0 {})"
proof -
  have run: "os_mkdir_p set_mkdir_calls ''/a/b'' 0 {} = (0, {''/a'', ''/a/b''})"
    by (auto simp: os_mkdir_p_def mkdir_loop.simps make_component_def set_mkdir_calls_def stat_dir_def ENOENT_def)
  have "mkdir_laws set_mkdir_calls (\<lambda>w. w)"
    by (auto simp: mkdir_laws_def set_mkdir_calls_def)
  from mkdir_p_creates_parents [OF this run] run show ?thesis
    by simp
qed

end
