(* ===== verification/Module.thy ===== *)
theory Module
  imports Status ConfFile OsDir
begin

text \<open>
  Scan modules and their manager, \<open>libcore/module.c\<close>, and the update information they give,
  \<open>libcore/info.c\<close>.

  The functions of a module come from outside the library: they are functions on a world that holds
  the private data of the modules. A module is named by its index in the array of the manager, which
  only grows, so that an index is as good as a pointer. A function that a module does not have is
  \<open>None\<close>, a NULL pointer.
\<close>

section \<open>Modules\<close>

datatype a6o_mod_status = A6O_MOD_OK | A6O_MOD_INIT_ERROR | A6O_MOD_CONF_ERROR | A6O_MOD_CLOSE_ERROR

datatype a6o_update_status =
    A6O_UPDATE_OK | A6O_UPDATE_LATE | A6O_UPDATE_CRITICAL | A6O_UPDATE_NON_AVAILABLE

record a6o_base_info =
  bi_name :: cstr
  bi_base_update_ts :: int
  bi_version :: cstr
  bi_signature_count :: nat
  bi_full_path :: cstr

record a6o_module_info =
  mi_name :: cstr
  mi_mod_status :: a6o_update_status
  mi_mod_update_ts :: int
  mi_base_infos :: "a6o_base_info list option"

text \<open>The type of an entry is a mask of the types of value it accepts.\<close>

record 'w a6o_conf_entry =
  cen_key :: string
  cen_type :: u32
  cen_conf_fun :: "(nat \<Rightarrow> string \<Rightarrow> a6o_conf_value \<Rightarrow> 'w \<Rightarrow> a6o_mod_status \<times> 'w) option"

record 'w a6o_module =
  mod_init_fun :: "(nat \<Rightarrow> 'w \<Rightarrow> a6o_mod_status \<times> 'w) option"
  mod_conf_table :: "'w a6o_conf_entry list option"
  mod_post_init_fun :: "(nat \<Rightarrow> 'w \<Rightarrow> a6o_mod_status \<times> 'w) option"
  mod_scan_fun :: "(nat \<Rightarrow> int \<Rightarrow> cstr \<Rightarrow> string \<Rightarrow> 'w \<Rightarrow> (a6o_file_status \<times> cstr) \<times> 'w) option"
  mod_close_fun :: "(nat \<Rightarrow> 'w \<Rightarrow> a6o_mod_status \<times> 'w) option"
  mod_info_fun :: "(nat \<Rightarrow> a6o_module_info \<Rightarrow> 'w \<Rightarrow> (a6o_update_status \<times> a6o_module_info) \<times> 'w) option"
  mod_supported_mime_types :: "string list option"
  mod_name :: string
  mod_size :: nat
  mod_status :: a6o_mod_status
  mod_data :: bool

record 'w module_manager =
  mm_modules :: "'w a6o_module list"

text \<open>The clone: \<open>mod_data\<close> tells whether private data were allocated, zeroed.\<close>

definition module_new :: "'w a6o_module \<Rightarrow> 'w a6o_module" where
  "module_new src =
    \<lparr>mod_init_fun = mod_init_fun src, mod_conf_table = mod_conf_table src,
     mod_post_init_fun = mod_post_init_fun src, mod_scan_fun = mod_scan_fun src,
     mod_close_fun = mod_close_fun src, mod_info_fun = mod_info_fun src,
     mod_supported_mime_types = mod_supported_mime_types src, mod_name = mod_name src,
     mod_size = mod_size src, mod_status = A6O_MOD_OK, mod_data = (mod_size src > 0)\<rparr>"

definition module_manager_new :: "'w module_manager" where
  "module_manager_new = \<lparr>mm_modules = []\<rparr>"

definition module_manager_add :: "'w module_manager \<Rightarrow> 'w a6o_module \<Rightarrow> 'w module_manager" where
  "module_manager_add mm module = mm\<lparr>mm_modules := mm_modules mm @ [module_new module]\<rparr>"

text \<open>The names that are released; the private data go with the module.\<close>

definition module_free :: "'w a6o_module \<Rightarrow> string" where
  "module_free m = mod_name m"

definition module_manager_free :: "'w module_manager \<Rightarrow> string list" where
  "module_manager_free mm = map module_free (mm_modules mm)"

definition module_manager_get_modules :: "'w module_manager \<Rightarrow> 'w a6o_module list" where
  "module_manager_get_modules mm = mm_modules mm"

fun find_module :: "'w a6o_module list \<Rightarrow> string \<Rightarrow> nat option" where
  "find_module [] name = None"
| "find_module (m # ms) name =
    (if streq (mod_name m) name then Some 0 else map_option Suc (find_module ms name))"

definition module_manager_get_module_by_name :: "'w module_manager \<Rightarrow> string \<Rightarrow> nat option" where
  "module_manager_get_module_by_name mm name = find_module (mm_modules mm) name"

section \<open>Loading\<close>

text \<open>
  What the dynamic loader finds in a file: not a library, a library without the symbol
  \<open>module\<close>, or a module. The result is the code and the module stored through the pointer.
\<close>

datatype 'w object_file = NotAnObject | NoSymbol | ModuleObject "'w a6o_module"

definition A6O_MOD_INIT_ERROR_code :: int where "A6O_MOD_INIT_ERROR_code = 1"
definition A6O_MOD_CLOSE_ERROR_code :: int where "A6O_MOD_CLOSE_ERROR_code = 3"

definition module_load ::
  "(string \<Rightarrow> 'w object_file) \<Rightarrow> string \<Rightarrow> int \<times> 'w a6o_module option" where
  "module_load loader filename = (case loader filename of
       NotAnObject \<Rightarrow> (0, None)
     | NoSymbol \<Rightarrow> (A6O_MOD_INIT_ERROR_code, None)
     | ModuleObject m \<Rightarrow> (0, Some m))"

text \<open>The path of a plain file is NULL when it disappeared; opening NULL opens the program itself.\<close>

definition module_load_dirent_cb ::
  "(string \<Rightarrow> 'w object_file) \<Rightarrow> 'w object_file \<Rightarrow> 'w module_manager dirent_cb" where
  "module_load_dirent_cb loader self full_path flags entry_errno mm =
    (if has_flag flags FILE_FLAG_IS_PLAIN_FILE
     then let (ret, loaded) = (case full_path of
                                 None \<Rightarrow> module_load (\<lambda>_. self) []
                               | Some f \<Rightarrow> module_load loader f)
          in case loaded of
               Some m \<Rightarrow> if ret = 0 then Some (0, module_manager_add mm m) else Some (0, mm)
             | None \<Rightarrow> Some (0, mm)
     else Some (0, mm))"

definition module_manager_load_path ::
  "(string \<Rightarrow> string option) \<Rightarrow> (string \<Rightarrow> 'w object_file) \<Rightarrow> 'w object_file \<Rightarrow> string \<Rightarrow> fs_dir
    \<Rightarrow> 'w module_manager \<Rightarrow> (int \<times> 'w module_manager) option" where
  "module_manager_load_path realpath loader self path d mm =
    os_dir_map realpath False (module_load_dirent_cb loader self) path d mm"

section \<open>Applying a function to all modules\<close>

type_synonym 'w module_fun = "nat \<Rightarrow> 'w a6o_module \<Rightarrow> 'w \<Rightarrow> (int \<times> 'w a6o_module) \<times> 'w"

fun all_loop ::
  "'w module_fun \<Rightarrow> nat \<Rightarrow> 'w a6o_module list \<Rightarrow> int \<Rightarrow> 'w \<Rightarrow> (int \<times> 'w a6o_module list) \<times> 'w" where
  "all_loop f i [] global_ret w = ((global_ret, []), w)"
| "all_loop f i (m # ms) global_ret w =
    (if mod_status m \<noteq> A6O_MOD_OK
     then case all_loop f (Suc i) ms global_ret w of
            ((r, ms'), w') \<Rightarrow> ((r, m # ms'), w')
     else case f i m w of
            ((mod_ret, m'), w1) \<Rightarrow>
              (case all_loop f (Suc i) ms (if mod_ret \<noteq> 0 then mod_ret else global_ret) w1 of
                 ((r, ms'), w') \<Rightarrow> ((r, m' # ms'), w')))"

definition module_manager_all ::
  "'w module_manager \<Rightarrow> 'w module_fun \<Rightarrow> 'w \<Rightarrow> (int \<times> 'w module_manager) \<times> 'w" where
  "module_manager_all mm f w = (case all_loop f 0 (mm_modules mm) 0 w of
       ((r, ms), w') \<Rightarrow> ((r, mm\<lparr>mm_modules := ms\<rparr>), w'))"

text \<open>The three functions call the hook of the module, if it has one, and record its status.\<close>

definition run_hook ::
  "(nat \<Rightarrow> 'w \<Rightarrow> a6o_mod_status \<times> 'w) option \<Rightarrow> int \<Rightarrow> 'w module_fun" where
  "run_hook hook error_code i m w = (case hook of
       None \<Rightarrow> ((0, m), w)
     | Some h \<Rightarrow> (case h i w of
           (st, w') \<Rightarrow> ((if st \<noteq> A6O_MOD_OK then error_code else 0, m\<lparr>mod_status := st\<rparr>), w')))"

definition module_init :: "'w module_fun" where
  "module_init i m w = run_hook (mod_init_fun m) A6O_MOD_INIT_ERROR_code i m w"

definition module_post_init :: "'w module_fun" where
  "module_post_init i m w = run_hook (mod_post_init_fun m) A6O_MOD_INIT_ERROR_code i m w"

definition module_close :: "'w module_fun" where
  "module_close i m w = run_hook (mod_close_fun m) A6O_MOD_CLOSE_ERROR_code i m w"

definition module_manager_init_all :: "'w module_manager \<Rightarrow> 'w \<Rightarrow> (int \<times> 'w module_manager) \<times> 'w" where
  "module_manager_init_all mm w = module_manager_all mm module_init w"

definition module_manager_post_init_all :: "'w module_manager \<Rightarrow> 'w \<Rightarrow> (int \<times> 'w module_manager) \<times> 'w" where
  "module_manager_post_init_all mm w = module_manager_all mm module_post_init w"

definition module_manager_close_all :: "'w module_manager \<Rightarrow> 'w \<Rightarrow> (int \<times> 'w module_manager) \<times> 'w" where
  "module_manager_close_all mm w = module_manager_all mm module_close w"

section \<open>Configuring\<close>

fun find_conf_entry :: "'w a6o_conf_entry list \<Rightarrow> string \<Rightarrow> 'w a6o_conf_entry option" where
  "find_conf_entry [] key = None"
| "find_conf_entry (e # es) key = (if streq (cen_key e) key then Some e else find_conf_entry es key)"

text \<open>The manager is read only here; whatever a configuration function returns is only logged.\<close>

definition module_conf_fun ::
  "'w module_manager \<Rightarrow> string \<Rightarrow> string \<Rightarrow> a6o_conf_value \<Rightarrow> 'w \<Rightarrow> 'w" where
  "module_conf_fun mm sec key v w =
    (case module_manager_get_module_by_name mm sec of
       None \<Rightarrow> w
     | Some i \<Rightarrow>
       (case mod_conf_table (mm_modules mm ! i) of
          None \<Rightarrow> w
        | Some table \<Rightarrow>
          (case find_conf_entry table key of
             None \<Rightarrow> w
           | Some e \<Rightarrow>
             (case cen_conf_fun e of
                None \<Rightarrow> w
              | Some f \<Rightarrow>
                  if a6o_conf_value_get_type v AND cen_type e = 0 then w
                  else snd (f i key v w)))))"

definition module_manager_configure_all :: "'w module_manager \<Rightarrow> a6o_conf \<Rightarrow> 'w \<Rightarrow> int \<times> 'w" where
  "module_manager_configure_all mm conf w = (0, a6o_conf_apply conf (module_conf_fun mm) w)"

section \<open>Update information\<close>

definition a6o_update_status_str :: "a6o_update_status \<Rightarrow> string" where
  "a6o_update_status_str status = (case status of
       A6O_UPDATE_OK \<Rightarrow> ''A6O_UPDATE_OK''
     | A6O_UPDATE_LATE \<Rightarrow> ''A6O_UPDATE_LATE''
     | A6O_UPDATE_CRITICAL \<Rightarrow> ''A6O_UPDATE_CRITICAL''
     | A6O_UPDATE_NON_AVAILABLE \<Rightarrow> ''A6O_UPDATE_NON_AVAILABLE'')"

definition update_status_compare :: "a6o_update_status \<Rightarrow> a6o_update_status \<Rightarrow> int" where
  "update_status_compare s1 s2 =
    (if s1 = s2 then 0
     else case s1 of
       A6O_UPDATE_NON_AVAILABLE \<Rightarrow> -1
     | A6O_UPDATE_OK \<Rightarrow> (if s2 = A6O_UPDATE_NON_AVAILABLE then 1 else -1)
     | A6O_UPDATE_LATE \<Rightarrow>
         (if s2 = A6O_UPDATE_NON_AVAILABLE \<or> s2 = A6O_UPDATE_OK then 1 else -1)
     | A6O_UPDATE_CRITICAL \<Rightarrow>
         (if s2 = A6O_UPDATE_NON_AVAILABLE \<or> s2 = A6O_UPDATE_OK \<or> s2 = A6O_UPDATE_LATE then 1 else -1))"

record a6o_info =
  inf_antivirus_version :: string
  inf_global_status :: a6o_update_status
  inf_global_update_ts :: int
  inf_module_infos :: "a6o_module_info list"

text \<open>
  One iteration of the loop of \<open>a6o_info_new\<close>. The status field of the information passed to the
  module is not initialised; it is set after the call.
\<close>

definition info_step :: "nat \<Rightarrow> 'w a6o_module \<Rightarrow> a6o_info \<times> 'w \<Rightarrow> a6o_info \<times> 'w" where
  "info_step i m st = (case st of (info, w) \<Rightarrow>
    (case mod_info_fun m of
       None \<Rightarrow> (info, w)
     | Some f \<Rightarrow>
       (case f i \<lparr>mi_name = None, mi_mod_status = A6O_UPDATE_NON_AVAILABLE, mi_mod_update_ts = 0,
                  mi_base_infos = None\<rparr> w of
          ((mod_st, mi), w1) \<Rightarrow>
            (if mod_st = A6O_UPDATE_NON_AVAILABLE then (info, w1)
             else let mi1 = mi\<lparr>mi_name := Some (mod_name m), mi_mod_status := mod_st\<rparr>;
                      info1 = info\<lparr>inf_module_infos := inf_module_infos info @ [mi1]\<rparr>;
                      info2 = (if update_status_compare (inf_global_status info1) mod_st < 0
                               then info1\<lparr>inf_global_status := mod_st\<rparr> else info1);
                      info3 = (if mi_mod_update_ts mi1 > inf_global_update_ts info2
                               then info2\<lparr>inf_global_update_ts := mi_mod_update_ts mi1\<rparr> else info2)
                  in (info3, w1)))))"

fun info_loop :: "nat \<Rightarrow> 'w a6o_module list \<Rightarrow> a6o_info \<times> 'w \<Rightarrow> a6o_info \<times> 'w" where
  "info_loop i [] st = st"
| "info_loop i (m # ms) st = info_loop (Suc i) ms (info_step i m st)"

definition a6o_info_new :: "string \<Rightarrow> 'w module_manager \<Rightarrow> 'w \<Rightarrow> a6o_info \<times> 'w" where
  "a6o_info_new version mm w =
    info_loop 0 (mm_modules mm)
      (\<lparr>inf_antivirus_version = version, inf_global_status = A6O_UPDATE_NON_AVAILABLE,
        inf_global_update_ts = 0, inf_module_infos = []\<rparr>, w)"

text \<open>The strings of one database description that are released, and those of the whole.\<close>

definition base_info_strings :: "a6o_base_info \<Rightarrow> string list" where
  "base_info_strings b =
    concat (map (\<lambda>s. case s of None \<Rightarrow> [] | Some t \<Rightarrow> [t]) [bi_name b, bi_version b, bi_full_path b])"

definition a6o_info_free :: "a6o_info \<Rightarrow> string list" where
  "a6o_info_free info =
    concat (map (\<lambda>mi. (case mi_name mi of None \<Rightarrow> [] | Some t \<Rightarrow> [t])
      @ (case mi_base_infos mi of None \<Rightarrow> [] | Some bs \<Rightarrow> concat (map base_info_strings bs)))
      (inf_module_infos info))
    @ [inf_antivirus_version info]"

section \<open>Hooks\<close>

text \<open>The calls of the hooks of the modules whose status is OK, in order.\<close>

fun run_hooks ::
  "('w a6o_module \<Rightarrow> (nat \<Rightarrow> 'w \<Rightarrow> a6o_mod_status \<times> 'w) option) \<Rightarrow> nat \<Rightarrow> 'w a6o_module list \<Rightarrow> 'w \<Rightarrow> 'w" where
  "run_hooks h i [] w = w"
| "run_hooks h i (m # ms) w =
    run_hooks h (Suc i) ms
      (if mod_status m = A6O_MOD_OK then (case h m of None \<Rightarrow> w | Some f \<Rightarrow> snd (f i w)) else w)"

text \<open>Only the status of a module changes, and only that of a module that was OK.\<close>

definition same_module :: "'w a6o_module \<Rightarrow> 'w a6o_module \<Rightarrow> bool" where
  "same_module m m' \<longleftrightarrow> m' = m\<lparr>mod_status := mod_status m'\<rparr>
    \<and> (mod_status m \<noteq> A6O_MOD_OK \<longrightarrow> m' = m)"

lemma same_module_refl [simp]: "same_module m m"
  by (simp add: same_module_def)

lemma same_module_hook:
  "mod_status m = A6O_MOD_OK \<Longrightarrow> run_hook hook code i m w = ((r, m'), w') \<Longrightarrow>
    same_module m m' \<and> (code \<noteq> 0 \<longrightarrow> (r \<noteq> 0 \<longleftrightarrow> mod_status m' \<noteq> A6O_MOD_OK)) \<and> (r = 0 \<or> r = code)
    \<and> w' = (case hook of None \<Rightarrow> w | Some f \<Rightarrow> snd (f i w))"
  by (auto simp: run_hook_def same_module_def split: option.splits prod.splits if_splits)

lemma all_loop_hooks:
  assumes "\<And>i m w. f i m w = run_hook (h m) code i m w" "code \<noteq> 0"
    and "all_loop f i ms g w = ((r, ms'), w')" "g = 0 \<or> g = code"
  shows "list_all2 same_module ms ms' \<and> w' = run_hooks h i ms w \<and> (r = 0 \<or> r = code)
    \<and> (r \<noteq> 0 \<longleftrightarrow> g \<noteq> 0 \<or> (\<exists>j < length ms. mod_status (ms ! j) = A6O_MOD_OK \<and> mod_status (ms' ! j) \<noteq> A6O_MOD_OK))"
  using assms(3,4)
proof (induction ms arbitrary: i g w r ms' w')
  case (Cons m ms)
  have split: "(\<exists>j < Suc n. P j) \<longleftrightarrow> P 0 \<or> (\<exists>j < n. P (Suc j))" for n and P :: "nat \<Rightarrow> bool"
    using less_Suc_eq_0_disj by auto
  show ?case
  proof (cases "mod_status m = A6O_MOD_OK")
    case False
    obtain ms1 where rec: "all_loop f (Suc i) ms g w = ((r, ms1), w')" "ms' = m # ms1"
      using Cons.prems(1) False by (auto split: prod.splits)
    from Cons.IH [OF rec(1) Cons.prems(2)] False rec(2) show ?thesis
      by (simp add: split)
  next
    case True
    obtain mr m1 w1 where hook: "run_hook (h m) code i m w = ((mr, m1), w1)"
      by (cases "run_hook (h m) code i m w") auto
    obtain ms1 where rec: "all_loop f (Suc i) ms (if mr \<noteq> 0 then mr else g) w1 = ((r, ms1), w')" "ms' = m1 # ms1"
      using Cons.prems(1) True hook assms(1) [of i m w] by (auto split: prod.splits)
    note H = same_module_hook [OF True hook]
    have "(if mr \<noteq> 0 then mr else g) = 0 \<or> (if mr \<noteq> 0 then mr else g) = code"
      using H Cons.prems(2) by auto
    from Cons.IH [OF rec(1) this] H True rec(2) assms(2) show ?thesis
      by (auto simp: split)
  qed
qed simp

section \<open>The order of update statuses\<close>

instantiation a6o_update_status :: linorder
begin

definition less_eq_a6o_update_status :: "a6o_update_status \<Rightarrow> a6o_update_status \<Rightarrow> bool" where
  "s1 \<le> s2 \<longleftrightarrow> update_status_compare s1 s2 \<le> 0"

definition less_a6o_update_status :: "a6o_update_status \<Rightarrow> a6o_update_status \<Rightarrow> bool" where
  "s1 < s2 \<longleftrightarrow> update_status_compare s1 s2 < 0"

instance
proof
  fix x y z :: a6o_update_status
  show "x < y \<longleftrightarrow> x \<le> y \<and> \<not> y \<le> x"
    by (cases x; cases y)
       (simp_all add: less_eq_a6o_update_status_def less_a6o_update_status_def update_status_compare_def)
  show "x \<le> x"
    by (simp add: less_eq_a6o_update_status_def update_status_compare_def)
  show "x \<le> y \<Longrightarrow> y \<le> z \<Longrightarrow> x \<le> z"
    by (cases x; cases y; cases z) (simp_all add: less_eq_a6o_update_status_def update_status_compare_def)
  show "x \<le> y \<Longrightarrow> y \<le> x \<Longrightarrow> x = y"
    by (cases x; cases y) (simp_all add: less_eq_a6o_update_status_def update_status_compare_def)
  show "x \<le> y \<or> y \<le> x"
    by (cases x; cases y) (simp_all add: less_eq_a6o_update_status_def update_status_compare_def)
qed

end

lemma non_available_least: "A6O_UPDATE_NON_AVAILABLE \<le> s"
  by (cases s) (simp_all add: less_eq_a6o_update_status_def update_status_compare_def)

text \<open>The summary of the information gathered so far.\<close>

definition worst_status :: "a6o_module_info list \<Rightarrow> a6o_update_status" where
  "worst_status mis = Max (insert A6O_UPDATE_NON_AVAILABLE (mi_mod_status ` set mis))"

definition latest_update :: "a6o_module_info list \<Rightarrow> int" where
  "latest_update mis = Max (insert 0 (mi_mod_update_ts ` set mis))"

definition info_summary :: "a6o_info \<Rightarrow> bool" where
  "info_summary info \<longleftrightarrow>
    inf_global_status info = worst_status (inf_module_infos info)
    \<and> inf_global_update_ts info = latest_update (inf_module_infos info)"

lemma Max_insert_snoc:
  fixes f :: "'a \<Rightarrow> 'b :: linorder"
  shows "Max (insert b (f ` set (xs @ [x]))) = max (f x) (Max (insert b (f ` set xs)))"
proof -
  have "insert b (f ` set (xs @ [x])) = insert (f x) (insert b (f ` set xs))"
    by auto
  then show ?thesis
    by (simp only:) (rule Max_insert, auto)
qed

lemma summary_snoc:
  "worst_status (mis @ [mi]) = max (mi_mod_status mi) (worst_status mis)"
  "latest_update (mis @ [mi]) = max (mi_mod_update_ts mi) (latest_update mis)"
  unfolding worst_status_def latest_update_def by (rule Max_insert_snoc)+

lemma info_step_summary:
  assumes "info_summary (fst st)"
  shows "info_summary (fst (info_step i m st))"
proof -
  obtain info w where st: "st = (info, w)" by force
  show ?thesis
  proof (cases "mod_info_fun m")
    case None
    with assms st show ?thesis by (simp add: info_step_def)
  next
    case (Some f)
    obtain mod_st mi w1 where r: "f i \<lparr>mi_name = None, mi_mod_status = A6O_UPDATE_NON_AVAILABLE, mi_mod_update_ts = 0,
        mi_base_infos = None\<rparr> w = ((mod_st, mi), w1)"
      by (metis prod.exhaust)
    have S: "inf_global_status info = worst_status (inf_module_infos info)"
        "inf_global_update_ts info = latest_update (inf_module_infos info)"
      using assms st by (simp_all add: info_summary_def)
    show ?thesis
      using S
      unfolding st info_step_def prod.case Some option.case r
      by (auto simp: Let_def info_summary_def summary_snoc less_a6o_update_status_def [symmetric]
          max_def not_less)
  qed
qed

lemma info_loop_summary: "info_summary (fst st) \<Longrightarrow> info_summary (fst (info_loop i ms st))"
  by (induction i ms st rule: info_loop.induct) (simp_all add: info_step_summary)

section \<open>Properties\<close>


definition failing_module :: "nat a6o_module" where
  "failing_module = module_new
    \<lparr>mod_init_fun = Some (\<lambda>i w. (A6O_MOD_INIT_ERROR, w + 1)), mod_conf_table = None,
     mod_post_init_fun = Some (\<lambda>i w. (A6O_MOD_OK, w + 10)), mod_scan_fun = None, mod_close_fun = None,
     mod_info_fun = None, mod_supported_mime_types = None, mod_name = ''bad'', mod_size = 0,
     mod_status = A6O_MOD_OK, mod_data = False\<rparr>"


text \<open>
  the update status of the whole. The global status is the worst of the statuses of the modules
  that gave any information, in the order not available, up to date, late, critical, and the global
  timestamp is the latest of theirs.
\<close>

theorem info_is_worst_of_modules:
  "info_summary (fst (a6o_info_new version mm w))"
  unfolding a6o_info_new_def
  by (rule info_loop_summary) (simp add: info_summary_def worst_status_def latest_update_def)

end
