(* ===== verification/ScanConf.thy ===== *)
theory ScanConf
  imports Module
begin

text \<open>
  Scan configurations, \<open>libcore/scanconf.c\<close>: the directories that are not scanned, the MIME types that
  are, and the modules that apply to each MIME type, with a cache of the answers. A module is its index
  in the array of the module manager.
\<close>

section \<open>Operations\<close>

record a6o_scan_conf =
  scf_name :: string
  scf_max_file_size :: u64
  scf_mime_types :: "string list"
  scf_modules :: "nat list"
  scf_mime_type_cache :: "string \<Rightarrow> nat list option option"
  scf_directories_white_list :: "string list"

definition a6o_scan_conf_new :: "string \<Rightarrow> a6o_scan_conf" where
  "a6o_scan_conf_new name =
    \<lparr>scf_name = name, scf_max_file_size = 0, scf_mime_types = [], scf_modules = [],
     scf_mime_type_cache = (\<lambda>_. None), scf_directories_white_list = []\<rparr>"

text \<open>The two static configurations, created when first asked for.\<close>

record scan_confs =
  on_demand_conf :: "a6o_scan_conf option"
  on_access_conf :: "a6o_scan_conf option"

definition get_conf :: "a6o_scan_conf option \<Rightarrow> string \<Rightarrow> a6o_scan_conf" where
  "get_conf pc name = (case pc of None \<Rightarrow> a6o_scan_conf_new name | Some c \<Rightarrow> c)"

definition a6o_scan_conf_on_demand :: "scan_confs \<Rightarrow> a6o_scan_conf \<times> scan_confs" where
  "a6o_scan_conf_on_demand g =
    (let c = get_conf (on_demand_conf g) ''on-demand scan configuration''
     in (c, g\<lparr>on_demand_conf := Some c\<rparr>))"

definition a6o_scan_conf_on_access :: "scan_confs \<Rightarrow> a6o_scan_conf \<times> scan_confs" where
  "a6o_scan_conf_on_access g =
    (let c = get_conf (on_access_conf g) ''on-access scan configuration''
     in (c, g\<lparr>on_access_conf := Some c\<rparr>))"

definition a6o_scan_conf_white_list_directory :: "a6o_scan_conf \<Rightarrow> string \<Rightarrow> a6o_scan_conf" where
  "a6o_scan_conf_white_list_directory c path =
    c\<lparr>scf_directories_white_list := scf_directories_white_list c @ [path]\<rparr>"

text \<open>Both separators count here, unlike in \<open>libcore/arch/linux/os/file.c\<close>.\<close>

definition strprefix_conf :: "string \<Rightarrow> string \<Rightarrow> bool" where
  "strprefix_conf s prefix =
    (case strprefix_loop s prefix of
       (s', p') \<Rightarrow> p' = [] \<and> (case s' of [] \<Rightarrow> True | c # _ \<Rightarrow> c = CHR ''/'' \<or> c = CHR 0x5C))"

fun white_list_loop :: "string list \<Rightarrow> string \<Rightarrow> bool" where
  "white_list_loop [] path = False"
| "white_list_loop (p # ps) path = (if strprefix_conf path p then True else white_list_loop ps path)"

definition a6o_scan_conf_is_white_listed :: "a6o_scan_conf \<Rightarrow> string \<Rightarrow> bool" where
  "a6o_scan_conf_is_white_listed c path = white_list_loop (scf_directories_white_list c) path"

definition a6o_scan_conf_add_mime_type :: "a6o_scan_conf \<Rightarrow> string \<Rightarrow> a6o_scan_conf" where
  "a6o_scan_conf_add_mime_type c mime_type = c\<lparr>scf_mime_types := scf_mime_types c @ [mime_type]\<rparr>"

text \<open>\<open>by_name\<close> is the look-up of a module of the daemon, \<open>a6o_get_module_by_name\<close>.\<close>

definition a6o_scan_conf_add_module :: "a6o_scan_conf \<Rightarrow> string \<Rightarrow> (string \<Rightarrow> nat option) \<Rightarrow> a6o_scan_conf" where
  "a6o_scan_conf_add_module c name by_name =
    (case by_name name of
       None \<Rightarrow> c
     | Some i \<Rightarrow> c\<lparr>scf_modules := scf_modules c @ [i]\<rparr>)"

fun mime_type_loop :: "string list \<Rightarrow> string \<Rightarrow> bool" where
  "mime_type_loop [] mime_type = False"
| "mime_type_loop (t # ts) mime_type =
    (if t = mime_type \<or> t = ''*'' then True else mime_type_loop ts mime_type)"

text \<open>The array is dereferenced: a module without an array of types is a NULL pointer.\<close>

definition mime_type_contains :: "string list option \<Rightarrow> string \<Rightarrow> bool option" where
  "mime_type_contains p_mime_type mime_type =
    map_option (\<lambda>ts. mime_type_loop ts mime_type) p_mime_type"

fun module_array_loop :: "'w module_manager \<Rightarrow> string \<Rightarrow> nat list \<Rightarrow> nat list option" where
  "module_array_loop mm mime_type [] = Some []"
| "module_array_loop mm mime_type (i # is) = do {
     b \<leftarrow> mime_type_contains (mod_supported_mime_types (mm_modules mm ! i)) mime_type;
     rest \<leftarrow> module_array_loop mm mime_type is;
     Some (if b then i # rest else rest)
   }"

definition build_module_array ::
  "'w module_manager \<Rightarrow> a6o_scan_conf \<Rightarrow> string \<Rightarrow> nat list option option" where
  "build_module_array mm c mime_type =
    map_option (\<lambda>a. if length a > 0 then Some a else None) (module_array_loop mm mime_type (scf_modules c))"

definition get_applicable_modules ::
  "'w module_manager \<Rightarrow> a6o_scan_conf \<Rightarrow> string \<Rightarrow> (nat list option \<times> a6o_scan_conf) option" where
  "get_applicable_modules mm c mime_type =
    (case scf_mime_type_cache c mime_type of
       Some cached \<Rightarrow> Some (cached, c)
     | None \<Rightarrow>
         if \<not> mime_type_loop (scf_mime_types c) mime_type
         then Some (None, c\<lparr>scf_mime_type_cache := (scf_mime_type_cache c)(mime_type \<mapsto> None)\<rparr>)
         else map_option
                (\<lambda>mods. (mods, c\<lparr>scf_mime_type_cache := (scf_mime_type_cache c)(mime_type \<mapsto> mods)\<rparr>))
                (build_module_array mm c mime_type))"

text \<open>The public function adds only messages.\<close>

definition a6o_scan_conf_get_applicable_modules ::
  "'w module_manager \<Rightarrow> a6o_scan_conf \<Rightarrow> string \<Rightarrow> (nat list option \<times> a6o_scan_conf) option" where
  "a6o_scan_conf_get_applicable_modules mm c mime_type = get_applicable_modules mm c mime_type"

text \<open>An \<open>int\<close> is converted to \<open>size_t\<close>: a negative size becomes a huge one.\<close>

definition a6o_scan_conf_max_file_size :: "a6o_scan_conf \<Rightarrow> u32 \<Rightarrow> a6o_scan_conf" where
  "a6o_scan_conf_max_file_size c max_file_size = c\<lparr>scf_max_file_size := signed max_file_size\<rparr>"

section \<open>White lists\<close>

abbreviation conf_separator :: "char \<Rightarrow> bool" where
  "conf_separator c \<equiv> c = CHR ''/'' \<or> c = CHR 0x5C"

lemma strprefix_conf_iff:
  "strprefix_conf s p \<longleftrightarrow>
    (\<exists>q r. s = q @ r \<and> length q = length p \<and> butlast q = butlast p \<and> at_separator conf_separator r)"
proof -
  have "strprefix_conf s p \<longleftrightarrow> (\<exists>s'. strprefix_loop s p = (s', []) \<and> at_separator conf_separator s')"
    by (auto simp: strprefix_conf_def at_separator_def split: prod.splits)
  then show ?thesis
    by (simp only: strprefix_loop_iff)
qed

lemma white_list_loop_iff: "white_list_loop ps path \<longleftrightarrow> (\<exists>p \<in> set ps. strprefix_conf path p)"
  by (induction ps) auto

section \<open>The cache\<close>

text \<open>The modules that apply to a MIME type, computed without the cache.\<close>

definition applicable :: "'w module_manager \<Rightarrow> a6o_scan_conf \<Rightarrow> string \<Rightarrow> nat list option" where
  "applicable mm c mime_type =
    (if mime_type_loop (scf_mime_types c) mime_type
     then let mods = filter (\<lambda>i. case mod_supported_mime_types (mm_modules mm ! i) of
                        None \<Rightarrow> False | Some ts \<Rightarrow> mime_type_loop ts mime_type) (scf_modules c)
          in if mods = [] then None else Some mods
     else None)"

definition cache_sound :: "'w module_manager \<Rightarrow> a6o_scan_conf \<Rightarrow> bool" where
  "cache_sound mm c \<longleftrightarrow> (\<forall>t r. scf_mime_type_cache c t = Some r \<longrightarrow> r = applicable mm c t)"

text \<open>Every configured module has an array of MIME types.\<close>

definition typed_modules :: "'w module_manager \<Rightarrow> a6o_scan_conf \<Rightarrow> bool" where
  "typed_modules mm c \<longleftrightarrow>
    (\<forall>i \<in> set (scf_modules c). i < length (mm_modules mm) \<and> mod_supported_mime_types (mm_modules mm ! i) \<noteq> None)"

lemma mime_type_loop_iff: "mime_type_loop ts t \<longleftrightarrow> t \<in> set ts \<or> ''*'' \<in> set ts"
  by (induction ts) auto

lemma module_array_loop_typed:
  "\<forall>i \<in> set is. mod_supported_mime_types (mm_modules mm ! i) \<noteq> None \<Longrightarrow>
    module_array_loop mm t is = Some (filter (\<lambda>i. case mod_supported_mime_types (mm_modules mm ! i) of
                        None \<Rightarrow> False | Some ts \<Rightarrow> mime_type_loop ts t) is)"
  by (induction "is") (auto simp: mime_type_contains_def)

lemma module_array_loop_untyped:
  "i \<in> set is \<Longrightarrow> mod_supported_mime_types (mm_modules mm ! i) = None \<Longrightarrow> module_array_loop mm t is = None"
  by (induction "is") (auto simp: mime_type_contains_def)

lemma applicable_frame [frame_simps, simp]:
  "applicable mm (c\<lparr>scf_mime_type_cache := x\<rparr>) t = applicable mm c t"
  by (simp add: applicable_def)

lemma get_applicable_sound:
  assumes "cache_sound mm c" "typed_modules mm c"
  shows "\<exists>c'. get_applicable_modules mm c t = Some (applicable mm c t, c')
    \<and> cache_sound mm c' \<and> c' = c\<lparr>scf_mime_type_cache := scf_mime_type_cache c'\<rparr>"
proof (cases "scf_mime_type_cache c t")
  case None
  have "module_array_loop mm t (scf_modules c) = Some (filter (\<lambda>i. case mod_supported_mime_types (mm_modules mm ! i) of
                        None \<Rightarrow> False | Some ts \<Rightarrow> mime_type_loop ts t) (scf_modules c))"
    using assms(2) by (intro module_array_loop_typed) (auto simp: typed_modules_def)
  with None have "get_applicable_modules mm c t = Some (applicable mm c t,
      c\<lparr>scf_mime_type_cache := (scf_mime_type_cache c)(t \<mapsto> applicable mm c t)\<rparr>)"
    by (auto simp: get_applicable_modules_def build_module_array_def applicable_def Let_def)
  with assms(1) show ?thesis
    by (simp add: cache_sound_def)
next
  case (Some r)
  with assms(1) have "r = applicable mm c t"
    by (simp add: cache_sound_def)
  with Some assms(1) show ?thesis
    by (simp add: get_applicable_modules_def)
qed

section \<open>Properties\<close>

text \<open>
  C16: white listed directories. A path is white listed exactly when, up to a separator or its end, it
  agrees with a listed directory except perhaps on its last character. So a listed directory and all it
  contains are white listed, and so are the directories that differ from it in the last character, and
  all they contain.
\<close>

theorem white_list_characterisation:
  "a6o_scan_conf_is_white_listed c path \<longleftrightarrow>
    (\<exists>d \<in> set (scf_directories_white_list c). \<exists>q r. path = q @ r \<and> at_separator conf_separator r
      \<and> length q = length d \<and> butlast q = butlast d)"
  unfolding a6o_scan_conf_is_white_listed_def white_list_loop_iff strprefix_conf_iff by blast

text \<open>
  a directory that was never white listed is not scanned. Listing \<open>/bin\<close> also hides every file
  below \<open>/bix\<close>.
\<close>

theorem white_list_hides_neighbour:
  "a6o_scan_conf_is_white_listed
     (a6o_scan_conf_white_list_directory (a6o_scan_conf_new name) ''/bin'') (''/bix/'' @ file)"
  by (simp add: a6o_scan_conf_is_white_listed_def a6o_scan_conf_white_list_directory_def
      a6o_scan_conf_new_def strprefix_conf_def)

text \<open>
  C17: the modules that apply to a MIME type. When every configured module declares its MIME types, the
  answer is the configured modules whose types include the MIME type or the star, in order, or none if
  the type is not one that the configuration scans; answering from the cache makes no difference, and
  the cache stays right.
\<close>

theorem applicable_modules_cached:
  assumes "cache_sound mm c" "typed_modules mm c"
  shows "\<exists>c'. a6o_scan_conf_get_applicable_modules mm c t = Some (applicable mm c t, c')
    \<and> cache_sound mm c' \<and> c' = c\<lparr>scf_mime_type_cache := scf_mime_type_cache c'\<rparr>
    \<and> a6o_scan_conf_get_applicable_modules mm c' t = Some (applicable mm c t, c')"
proof -
  obtain c' where c': "get_applicable_modules mm c t = Some (applicable mm c t, c')"
      "cache_sound mm c'" "c' = c\<lparr>scf_mime_type_cache := scf_mime_type_cache c'\<rparr>"
    using get_applicable_sound [OF assms, of t] by blast
  have "scf_mime_type_cache c' t = Some (applicable mm c t)"
    using c'(1) by (auto simp: get_applicable_modules_def split: option.splits if_splits)
  then have "get_applicable_modules mm c' t = Some (applicable mm c t, c')"
    by (simp add: get_applicable_modules_def)
  with c' show ?thesis
    by (auto simp: a6o_scan_conf_get_applicable_modules_def)
qed

theorem applicable_modules_cached_witness:
  "\<exists>c'. a6o_scan_conf_get_applicable_modules \<lparr>mm_modules = [failing_module\<lparr>mod_supported_mime_types := Some [''*'']\<rparr>]\<rparr>
      ((a6o_scan_conf_new ''x'')\<lparr>scf_mime_types := [''text/plain''], scf_modules := [0]\<rparr>) ''text/plain''
    = Some (Some [0], c')"
  using applicable_modules_cached [of "\<lparr>mm_modules = [failing_module\<lparr>mod_supported_mime_types := Some [''*'']\<rparr>]\<rparr>"
      "(a6o_scan_conf_new ''x'')\<lparr>scf_mime_types := [''text/plain''], scf_modules := [0]\<rparr>" "''text/plain''"]
  by (auto simp: cache_sound_def typed_modules_def a6o_scan_conf_new_def applicable_def)

text \<open>
  a configured module that declares no MIME types, as the on-demand, on-access and quarantine
  modules do, makes the first scan of any file of a scanned type dereference a NULL pointer.
\<close>

theorem untyped_module_faults:
  assumes "scf_mime_type_cache c t = None" "t \<in> set (scf_mime_types c)"
    and "i \<in> set (scf_modules c)" "mod_supported_mime_types (mm_modules mm ! i) = None"
  shows "a6o_scan_conf_get_applicable_modules mm c t = None"
  using assms
  by (simp add: a6o_scan_conf_get_applicable_modules_def get_applicable_modules_def mime_type_loop_iff
      build_module_array_def module_array_loop_untyped)

theorem untyped_module_faults_witness:
  "a6o_scan_conf_get_applicable_modules \<lparr>mm_modules = [failing_module]\<rparr>
      ((a6o_scan_conf_new ''x'')\<lparr>scf_mime_types := [''text/plain''], scf_modules := [0]\<rparr>) ''text/plain'' = None"
  by (rule untyped_module_faults [where i = 0])
     (simp_all add: a6o_scan_conf_new_def failing_module_def module_new_def)

end
