(* ===== verification/ScanCtx.thy ===== *)
theory ScanCtx
  imports ScanConf
begin

text \<open>
  Scan contexts, \<open>libcore/scanctx.c\<close>: what is needed to scan one file, and the scan of a file by the
  modules that apply to it. The calls to the operating system and to \<open>libmagic\<close> are arguments and act on
  a world, which the modules share.

  \<open>a6o_scan_context_get\<close> fills the context in most cases only: the fields after the status are an
  option, \<open>None\<close> while they hold whatever the memory held. Reading them then is undefined behaviour.
\<close>

section \<open>Operations\<close>

datatype a6o_scan_context_status =
    A6O_SC_MUST_SCAN
  | A6O_SC_WHITE_LISTED_DIRECTORY
  | A6O_SC_FILE_TOO_BIG
  | A6O_SC_FILE_CACHED
  | A6O_SC_FILE_TYPE_NOT_SCANNED
  | A6O_SC_FILE_OPEN_ERROR

definition a6o_scan_context_status_str :: "a6o_scan_context_status \<Rightarrow> string" where
  "a6o_scan_context_status_str status = (case status of
       A6O_SC_MUST_SCAN \<Rightarrow> ''A6O_SC_MUST_SCAN''
     | A6O_SC_WHITE_LISTED_DIRECTORY \<Rightarrow> ''A6O_SC_WHITE_LISTED_DIRECTORY''
     | A6O_SC_FILE_TOO_BIG \<Rightarrow> ''A6O_SC_FILE_TOO_BIG''
     | A6O_SC_FILE_CACHED \<Rightarrow> ''A6O_SC_FILE_CACHED''
     | A6O_SC_FILE_TYPE_NOT_SCANNED \<Rightarrow> ''A6O_SC_FILE_TYPE_NOT_SCANNED''
     | _ \<Rightarrow> ''UNKNOWN STATUS'')"

record ctx_fields =
  cx_fd :: int
  cx_path :: cstr
  cx_mime_type :: cstr
  cx_applicable_modules :: "nat list option"

record a6o_scan_context =
  ctx_status :: a6o_scan_context_status
  ctx_fields :: "ctx_fields option"

record 'w scan_os =
  so_open :: "string \<Rightarrow> 'w \<Rightarrow> int \<times> 'w"
  so_mime_type_guess_fd :: "int \<Rightarrow> 'w \<Rightarrow> cstr \<times> 'w"
  so_lseek :: "int \<Rightarrow> 'w \<Rightarrow> int \<times> 'w"
  so_close :: "int \<Rightarrow> 'w \<Rightarrow> int \<times> 'w"

text \<open>\<open>if (report != NULL) a6o_report_change(report, status, NULL, NULL)\<close>\<close>

definition change_opt :: "a6o_report option \<Rightarrow> a6o_file_status \<Rightarrow> a6o_report option" where
  "change_opt report st = map_option (\<lambda>r. a6o_report_change r st None None) report"

type_synonym 'w ctx_result = "((a6o_scan_context \<times> a6o_scan_conf \<times> a6o_report option) \<times> 'w) option"

text \<open>The status the function returns is the status of the context.\<close>

definition a6o_scan_context_get ::
  "'w scan_os \<Rightarrow> 'w module_manager \<Rightarrow> a6o_scan_context \<Rightarrow> int \<Rightarrow> cstr \<Rightarrow> a6o_scan_conf
    \<Rightarrow> a6o_report option \<Rightarrow> 'w \<Rightarrow> 'w ctx_result" where
  "a6o_scan_context_get os mm ctx fd path conf report w =
    (if fd < 0 \<and> path = None
     then Some ((ctx\<lparr>ctx_status := A6O_SC_FILE_OPEN_ERROR\<rparr>, conf, change_opt report A6O_FILE_IERROR), w)
     else
       let body = \<lparr>cx_fd = fd, cx_path = None, cx_mime_type = None, cx_applicable_modules = None\<rparr>;
           mk = (\<lambda>st b. \<lparr>ctx_status = st, ctx_fields = Some b\<rparr>)
       in if (case path of None \<Rightarrow> False | Some p \<Rightarrow> a6o_scan_conf_is_white_listed conf p)
          then Some ((mk A6O_SC_WHITE_LISTED_DIRECTORY body, conf, change_opt report A6O_FILE_WHITE_LISTED), w)
          else
            let (fd1, w1) = (if fd < 0
                             then case path of None \<Rightarrow> (fd, w) | Some p \<Rightarrow> so_open os p w
                             else (fd, w));
                body1 = body\<lparr>cx_fd := fd1\<rparr>
            in if fd1 < 0
               then Some ((mk A6O_SC_FILE_OPEN_ERROR body1, conf, change_opt report A6O_FILE_IERROR), w1)
               else
                 (case so_mime_type_guess_fd os fd1 w1 of
                    (None, w2) \<Rightarrow>
                      Some ((mk A6O_SC_FILE_TYPE_NOT_SCANNED body1, conf, change_opt report A6O_FILE_UNKNOWN_TYPE), w2)
                  | (Some mime_type, w2) \<Rightarrow>
                      (case a6o_scan_conf_get_applicable_modules mm conf mime_type of
                         None \<Rightarrow> None
                       | Some (None, conf1) \<Rightarrow>
                           Some ((mk A6O_SC_FILE_TYPE_NOT_SCANNED body1, conf1,
                                  change_opt report A6O_FILE_UNKNOWN_TYPE), w2)
                       | Some (Some mods, conf1) \<Rightarrow>
                           Some ((mk A6O_SC_MUST_SCAN
                                    (body1\<lparr>cx_path := path, cx_mime_type := Some mime_type,
                                           cx_applicable_modules := Some mods\<rparr>),
                                  conf1, report), w2))))"

text \<open>
  The loop over the modules. \<open>None\<close> is the assertion of the status comparison, or the call of the scan
  function of a module that has none.
\<close>

definition authoritative :: "a6o_file_status \<Rightarrow> bool" where
  "authoritative st \<longleftrightarrow> st = A6O_FILE_WHITE_LISTED \<or> st = A6O_FILE_MALWARE"

fun scan_apply_modules ::
  "'w scan_os \<Rightarrow> 'w module_manager \<Rightarrow> int \<Rightarrow> cstr \<Rightarrow> string \<Rightarrow> nat list \<Rightarrow> a6o_file_status
    \<Rightarrow> a6o_report option \<Rightarrow> 'w \<Rightarrow> ((a6o_file_status \<times> a6o_report option) \<times> 'w) option" where
  "scan_apply_modules os mm fd path mime_type [] current_status report w = Some ((current_status, report), w)"
| "scan_apply_modules os mm fd path mime_type (i # is) current_status report w =
    (let m = mm_modules mm ! i
     in if mod_status m \<noteq> A6O_MOD_OK
        then scan_apply_modules os mm fd path mime_type is current_status report w
        else case so_lseek os fd w of
          (off, w1) \<Rightarrow>
            if off < 0 then Some ((A6O_FILE_IERROR, report), w1)
            else case mod_scan_fun m of
                None \<Rightarrow> None
              | Some scan_fun \<Rightarrow>
                (case scan_fun i fd path mime_type w1 of
                   ((mod_st, module_report), w2) \<Rightarrow>
                     (case a6o_file_status_cmp current_status mod_st of
                        None \<Rightarrow> None
                      | Some c \<Rightarrow>
                          let current1 = (if c < 0 then mod_st else current_status);
                              report1 = (if c < 0
                                         then map_option (\<lambda>r. a6o_report_change r mod_st (Some (mod_name m)) module_report) report
                                         else report)
                          in if authoritative current1 then Some ((current1, report1), w2)
                             else scan_apply_modules os mm fd path mime_type is current1 report1 w2)))"

definition a6o_scan_context_scan ::
  "'w scan_os \<Rightarrow> 'w module_manager \<Rightarrow> a6o_scan_context \<Rightarrow> a6o_report option \<Rightarrow> 'w
    \<Rightarrow> ((a6o_file_status \<times> a6o_report option) \<times> 'w) option" where
  "a6o_scan_context_scan os mm ctx report w =
    (case ctx_fields ctx of
       None \<Rightarrow> None
     | Some f \<Rightarrow>
       (case (cx_applicable_modules f, cx_mime_type f) of
          (Some mods, Some mime_type) \<Rightarrow>
            scan_apply_modules os mm (cx_fd f) (cx_path f) mime_type mods A6O_FILE_UNDECIDED report w
        | _ \<Rightarrow>
            (case report of
               None \<Rightarrow> None
             | Some r \<Rightarrow>
                 Some ((A6O_FILE_UNKNOWN_TYPE, Some (a6o_report_change r A6O_FILE_UNKNOWN_TYPE None None)), w))))"

definition a6o_scan_context_close ::
  "'w scan_os \<Rightarrow> a6o_scan_context \<Rightarrow> 'w \<Rightarrow> (a6o_scan_context \<times> 'w) option" where
  "a6o_scan_context_close os ctx w =
    (case ctx_fields ctx of
       None \<Rightarrow> None
     | Some f \<Rightarrow>
         if cx_fd f < 0 then Some (ctx, w)
         else case so_close os (cx_fd f) w of
                (_, w1) \<Rightarrow> Some (ctx\<lparr>ctx_fields := Some (f\<lparr>cx_fd := -1\<rparr>)\<rparr>, w1))"

definition a6o_scan_context_destroy ::
  "'w scan_os \<Rightarrow> a6o_scan_context \<Rightarrow> 'w \<Rightarrow> (string list \<times> 'w) option" where
  "a6o_scan_context_destroy os ctx w = do {
     (ctx1, w1) \<leftarrow> a6o_scan_context_close os ctx w;
     f \<leftarrow> ctx_fields ctx1;
     Some ((case cx_path f of None \<Rightarrow> [] | Some p \<Rightarrow> [p])
           @ (case cx_mime_type f of None \<Rightarrow> [] | Some t \<Rightarrow> [t]), w1)
   }"

section \<open>The verdict of several modules\<close>

text \<open>
  The calls that a scan makes, up to and including the first authoritative one: index, status and
  report of each module called. \<open>None\<close> when a seek fails or a module has no scan function.
\<close>

fun scan_calls ::
  "'w scan_os \<Rightarrow> 'w module_manager \<Rightarrow> int \<Rightarrow> cstr \<Rightarrow> string \<Rightarrow> nat list \<Rightarrow> 'w
    \<Rightarrow> ((nat \<times> a6o_file_status \<times> cstr) list \<times> 'w) option" where
  "scan_calls os mm fd path mime_type [] w = Some ([], w)"
| "scan_calls os mm fd path mime_type (i # is) w =
    (if mod_status (mm_modules mm ! i) \<noteq> A6O_MOD_OK then scan_calls os mm fd path mime_type is w
     else case so_lseek os fd w of
       (off, w1) \<Rightarrow>
         if off < 0 then None
         else case mod_scan_fun (mm_modules mm ! i) of
             None \<Rightarrow> None
           | Some f \<Rightarrow>
             (case f i fd path mime_type w1 of
                ((st, rep), w2) \<Rightarrow>
                  if authoritative st then Some ([(i, st, rep)], w2)
                  else map_option (\<lambda>(cs, w'). ((i, st, rep) # cs, w')) (scan_calls os mm fd path mime_type is w2)))"

text \<open>The verdict on a list of calls: the first status of the highest rank, and the report it leaves.\<close>

fun verdict ::
  "'w module_manager \<Rightarrow> (nat \<times> a6o_file_status \<times> cstr) list \<Rightarrow> a6o_file_status \<Rightarrow> a6o_report option
    \<Rightarrow> a6o_file_status \<times> a6o_report option" where
  "verdict mm [] cur report = (cur, report)"
| "verdict mm ((i, st, rep) # cs) cur report =
    (if rank cur < rank st
     then verdict mm cs st (map_option (\<lambda>r. a6o_report_change r st (Some (mod_name (mm_modules mm ! i))) rep) report)
     else verdict mm cs cur report)"

lemma rank_authoritative: "ranked s \<Longrightarrow> authoritative s \<longleftrightarrow> 4 \<le> rank s"
  by (cases s) (auto simp: authoritative_def ranked_def)

lemma scan_apply_verdict:
  assumes "scan_calls os mm fd path mime is w = Some (cs, w')"
    and "\<forall>(i, st, rep) \<in> set cs. ranked st" "ranked cur" "\<not> authoritative cur"
  shows "scan_apply_modules os mm fd path mime is cur report w = Some (verdict mm cs cur report, w')"
  using assms
proof (induction "is" arbitrary: w cs cur report)
  case (Cons i "is")
  show ?case
  proof (cases "mod_status (mm_modules mm ! i) = A6O_MOD_OK")
    case False
    with Cons show ?thesis by simp
  next
    case True
    obtain off w1 where seek: "so_lseek os fd w = (off, w1)" by force
    with True Cons.prems(1) have off: "\<not> off < 0"
      by (auto split: if_splits)
    with True seek Cons.prems(1) obtain f where f: "mod_scan_fun (mm_modules mm ! i) = Some f"
      by (auto split: option.splits)
    obtain st rep w2 where call: "f i fd path mime w1 = ((st, rep), w2)"
      by (metis prod.exhaust)
    show ?thesis
    proof (cases "authoritative st")
      case auth: True
      then have cs: "cs = [(i, st, rep)]" "w' = w2"
        using True seek off f call Cons.prems(1) by auto
      then have st: "ranked st"
        using Cons.prems(2) by simp
      have "rank cur < rank st"
        using auth Cons.prems(3,4) st by (simp add: rank_authoritative)
      with True seek off f call cs auth Cons.prems(3) st show ?thesis
        by (simp add: Let_def file_status_cmp_ranked)
    next
      case False
      then obtain cs' where cs: "cs = (i, st, rep) # cs'"
          "scan_calls os mm fd path mime is w2 = Some (cs', w')"
        using True seek off f call Cons.prems(1) by auto
      then have st: "ranked st" "\<forall>(i, st, rep) \<in> set cs'. ranked st"
        using Cons.prems(2) by auto
      let ?c = "if rank cur < rank st then st else cur"
      have "ranked ?c" "\<not> authoritative ?c"
        using st(1) False Cons.prems(3,4) by auto
      from Cons.IH [OF cs(2) st(2) this] True seek off f call False cs Cons.prems(3,4) st(1) show ?thesis
        by (simp add: Let_def file_status_cmp_ranked)
    qed
  qed
qed simp

lemma verdict_max:
  assumes "\<forall>(i, st, rep) \<in> set cs. ranked st" "ranked cur"
  shows "ranked (fst (verdict mm cs cur report))
    \<and> rank (fst (verdict mm cs cur report)) = Max (insert (rank cur) ((\<lambda>(i, st, rep). rank st) ` set cs))"
  using assms
proof (induction cs arbitrary: cur report)
  case (Cons c cs)
  obtain i st rep where c: "c = (i, st, rep)" by (cases c) auto
  have fin: "finite ((\<lambda>(i, st, rep). rank st) ` set cs)" by simp
  show ?case
  proof (cases "rank cur < rank st")
    case True
    with Cons.IH [of st] Cons.prems c have
      "ranked (fst (verdict mm (c # cs) cur report))
       \<and> rank (fst (verdict mm (c # cs) cur report)) = Max (insert (rank st) ((\<lambda>(i, st, rep). rank st) ` set cs))"
      by simp
    moreover have "Max (insert (rank cur) (insert (rank st) S)) = Max (insert (rank st) S)"
      if "finite S" for S :: "int set"
      using that True by (cases "S = {}") auto
    ultimately show ?thesis
      using c fin by simp
  next
    case False
    with Cons.IH [of cur] Cons.prems c have
      "ranked (fst (verdict mm (c # cs) cur report))
       \<and> rank (fst (verdict mm (c # cs) cur report)) = Max (insert (rank cur) ((\<lambda>(i, st, rep). rank st) ` set cs))"
      by simp
    moreover have "Max (insert (rank cur) (insert (rank st) S)) = Max (insert (rank cur) S)"
      if "finite S" for S :: "int set"
      using that False by (cases "S = {}") auto
    ultimately show ?thesis
      using c fin by simp
  qed
qed simp

lemma verdict_report:
  "report = Some r \<Longrightarrow> rep_status r = cur \<Longrightarrow>
    \<exists>r'. snd (verdict mm cs cur report) = Some r' \<and> rep_status r' = fst (verdict mm cs cur report)
      \<and> rep_path r' = rep_path r"
proof (induction cs arbitrary: cur report r)
  case (Cons c cs)
  obtain i st rep where c: "c = (i, st, rep)" by (cases c) auto
  let ?r = "a6o_report_change r st (Some (mod_name (mm_modules mm ! i))) rep"
  show ?case
    using Cons.IH [of "Some ?r" ?r st] Cons.IH [of report r cur] Cons.prems
    by (cases "rank cur < rank st") (simp_all add: c)
qed simp

section \<open>What a context is obtained for\<close>

lemma context_get_classified:
  assumes "cache_sound mm conf" "typed_modules mm conf"
  shows "\<exists>ctx' conf' report' w'. a6o_scan_context_get os mm ctx fd path conf report w = Some ((ctx', conf', report'), w')
    \<and> cache_sound mm conf' \<and> typed_modules mm conf'
    \<and> (ctx_fields ctx' = None \<longrightarrow> fd < 0 \<and> path = None)
    \<and> (case ctx_status ctx' of
         A6O_SC_MUST_SCAN \<Rightarrow>
           (\<exists>f t mods. ctx_fields ctx' = Some f \<and> 0 \<le> cx_fd f \<and> cx_path f = path \<and> cx_mime_type f = Some t
             \<and> cx_applicable_modules f = Some mods \<and> applicable mm conf t = Some mods) \<and> report' = report
       | A6O_SC_WHITE_LISTED_DIRECTORY \<Rightarrow>
           (\<exists>p. path = Some p \<and> a6o_scan_conf_is_white_listed conf p) \<and> report' = change_opt report A6O_FILE_WHITE_LISTED
       | A6O_SC_FILE_TYPE_NOT_SCANNED \<Rightarrow> report' = change_opt report A6O_FILE_UNKNOWN_TYPE
       | A6O_SC_FILE_OPEN_ERROR \<Rightarrow> fd < 0 \<and> report' = change_opt report A6O_FILE_IERROR
       | _ \<Rightarrow> False)"
proof (cases "fd < 0 \<and> path = None")
  case True
  with assms show ?thesis
    by (simp add: a6o_scan_context_get_def)
next
  case given: False
  show ?thesis
  proof (cases "case path of None \<Rightarrow> False | Some p \<Rightarrow> a6o_scan_conf_is_white_listed conf p")
    case True
    with given assms show ?thesis
      by (auto simp: a6o_scan_context_get_def Let_def split: option.splits)
  next
    case listed: False
    obtain fd1 w1 where opened: "(if fd < 0 then case path of None \<Rightarrow> (fd, w) | Some p \<Rightarrow> so_open os p w else (fd, w)) = (fd1, w1)"
      by (metis prod.exhaust)
    show ?thesis
    proof (cases "fd1 < 0")
      case True
      then have "fd < 0"
        using opened by (auto split: if_splits)
      with given listed opened True assms show ?thesis
        by (simp add: a6o_scan_context_get_def)
    next
      case False
      obtain mt w2 where guess: "so_mime_type_guess_fd os fd1 w1 = (mt, w2)" by force
      show ?thesis
      proof (cases mt)
        case None
        with given listed opened False guess assms show ?thesis
          by (simp add: a6o_scan_context_get_def)
      next
        case (Some t)
        obtain c' where app: "a6o_scan_conf_get_applicable_modules mm conf t = Some (applicable mm conf t, c')" "cache_sound mm c'"
            "c' = conf\<lparr>scf_mime_type_cache := scf_mime_type_cache c'\<rparr>"
          using get_applicable_sound [OF assms, of t] by (auto simp: a6o_scan_conf_get_applicable_modules_def)
        have "typed_modules mm c'"
          using assms(2) by (subst app(3)) (simp add: typed_modules_def)
        moreover note app(1,2)
        ultimately show ?thesis
          using given listed opened False guess Some
          by (cases "applicable mm conf t") (auto simp: a6o_scan_context_get_def)
      qed
    qed
  qed
qed

section \<open>Properties\<close>

text \<open>
  C18: the verdict on a file. When the modules return statuses that the comparison handles, the scan
  does not abort and its result is the highest status that any module called returned, or undecided
  if none was; modules are called in order until one is authoritative (white listed or malware), those
  that are not OK being skipped; and the report carries the status of the result.
\<close>

theorem scan_verdict:
  assumes "scan_calls os mm fd path mime mods w = Some (cs, w')"
    and "\<forall>(i, st, rep) \<in> set cs. ranked st"
  shows "\<exists>st r. scan_apply_modules os mm fd path mime mods A6O_FILE_UNDECIDED (Some (a6o_report_init p)) w
      = Some ((st, Some r), w')
    \<and> rank st = Max (insert 0 ((\<lambda>(i, st, rep). rank st) ` set cs))
    \<and> (st = A6O_FILE_UNDECIDED \<or> (\<exists>i rep. (i, st, rep) \<in> set cs))
    \<and> rep_status r = st \<and> rep_path r = p"
proof -
  let ?v = "verdict mm cs A6O_FILE_UNDECIDED (Some (a6o_report_init p))"
  have und: "ranked A6O_FILE_UNDECIDED" "\<not> authoritative A6O_FILE_UNDECIDED"
    by (simp_all add: ranked_def authoritative_def)
  have scan: "scan_apply_modules os mm fd path mime mods A6O_FILE_UNDECIDED (Some (a6o_report_init p)) w = Some (?v, w')"
    by (rule scan_apply_verdict [OF assms und])
  have max: "ranked (fst ?v)" "rank (fst ?v) = Max (insert 0 ((\<lambda>(i, st, rep). rank st) ` set cs))"
    using verdict_max [OF assms(2) und(1), of mm "Some (a6o_report_init p)"] by simp_all
  obtain r where r: "snd ?v = Some r" "rep_status r = fst ?v" "rep_path r = p"
    using verdict_report [of "Some (a6o_report_init p)" "a6o_report_init p" A6O_FILE_UNDECIDED mm cs] by auto
  have "rank (fst ?v) \<in> insert 0 ((\<lambda>(i, st, rep). rank st) ` set cs)"
    unfolding max(2) by (rule Max_in) auto
  then have "fst ?v = A6O_FILE_UNDECIDED \<or> (\<exists>i rep. (i, fst ?v, rep) \<in> set cs)"
  proof
    assume "rank (fst ?v) = 0"
    then show ?thesis
      using rank_inj [OF max(1) und(1)] by simp
  next
    assume "rank (fst ?v) \<in> (\<lambda>(i, st, rep). rank st) ` set cs"
    then obtain i st rep where "(i, st, rep) \<in> set cs" "rank (fst ?v) = rank st"
      by auto
    with rank_inj [OF max(1), of st] assms(2) show ?thesis
      by auto
  qed
  with scan max(2) r show ?thesis
    by (intro exI [of _ "fst ?v"] exI [of _ r]) (simp add: prod_eq_iff)
qed

definition null_os :: "nat scan_os" where
  "null_os = \<lparr>so_open = (\<lambda>p w. (3, w)), so_mime_type_guess_fd = (\<lambda>fd w. (Some ''text/plain'', w)),
     so_lseek = (\<lambda>fd w. (0, w)), so_close = (\<lambda>fd w. (0, w + 1))\<rparr>"

text \<open>A module that gives the same status for every file.\<close>

definition constant_module :: "a6o_file_status \<Rightarrow> nat a6o_module" where
  "constant_module st = failing_module\<lparr>mod_scan_fun := Some (\<lambda>i fd p t w. ((st, Some ''report''), w)),
     mod_supported_mime_types := Some [''*'']\<rparr>"

lemma constant_module_simps [simp]:
  "mod_status (constant_module st) = A6O_MOD_OK"
  "mod_scan_fun (constant_module st) = Some (\<lambda>i fd p t w. ((st, Some ''report''), w))"
  "mod_supported_mime_types (constant_module st) = Some [''*'']"
  by (simp_all add: constant_module_def failing_module_def module_new_def)

theorem scan_verdict_witness:
  "\<exists>r. scan_apply_modules null_os \<lparr>mm_modules = [constant_module A6O_FILE_CLEAN, constant_module A6O_FILE_MALWARE]\<rparr>
      3 None ''text/plain'' [0, 1] A6O_FILE_UNDECIDED (Some (a6o_report_init None)) 0
    = Some ((A6O_FILE_MALWARE, Some r), 0)"
proof -
  let ?mm = "\<lparr>mm_modules = [constant_module A6O_FILE_CLEAN, constant_module A6O_FILE_MALWARE]\<rparr>"
  have calls: "scan_calls null_os ?mm 3 None ''text/plain'' [0, 1] 0
      = Some ([(0, A6O_FILE_CLEAN, Some ''report''), (1, A6O_FILE_MALWARE, Some ''report'')], 0)"
    by (simp add: null_os_def authoritative_def)
  obtain st r where "scan_apply_modules null_os ?mm 3 None ''text/plain'' [0, 1] A6O_FILE_UNDECIDED
      (Some (a6o_report_init None)) 0 = Some ((st, Some r), 0)" "rank st = 5"
      "st = A6O_FILE_UNDECIDED \<or> st = A6O_FILE_CLEAN \<or> st = A6O_FILE_MALWARE"
    using scan_verdict [OF calls, of None] by (auto simp: ranked_def)
  then show ?thesis
    by auto
qed

text \<open>
  a module that answers that it does not know the type of a file, or that its arguments are
  invalid, brings the process down as soon as another module answers something else: its status is
  adopted, being above undecided, and the next comparison fails its assertion.
\<close>

theorem unranked_verdict_aborts:
  assumes "mod_status (mm_modules mm ! i) = A6O_MOD_OK" "mod_scan_fun (mm_modules mm ! i) = Some f"
    and "so_lseek os fd w = (0, w1)" "f i fd path mime w1 = ((st, rep), w2)" "\<not> ranked st"
    and "mod_status (mm_modules mm ! j) = A6O_MOD_OK" "mod_scan_fun (mm_modules mm ! j) = Some g"
    and "so_lseek os fd w2 = (0, w3)" "g j fd path mime w3 = ((st', rep'), w4)" "st' \<noteq> st"
  shows "scan_apply_modules os mm fd path mime (i # j # is) A6O_FILE_UNDECIDED report w = None"
proof -
  have "a6o_file_status_cmp A6O_FILE_UNDECIDED st = Some (-1)" "\<not> authoritative st"
    using assms(5) by (auto simp: a6o_file_status_cmp_def ranked_def authoritative_def)
  moreover have "a6o_file_status_cmp st st' = None"
    using assms(5,10) by (simp add: file_status_cmp_fault)
  ultimately show ?thesis
    using assms by (simp add: Let_def)
qed

theorem unranked_verdict_aborts_witness:
  "scan_apply_modules null_os \<lparr>mm_modules = [constant_module A6O_FILE_EINVAL, constant_module A6O_FILE_CLEAN]\<rparr>
      3 None ''text/plain'' [0, 1] A6O_FILE_UNDECIDED None 0 = None"
  by (rule unranked_verdict_aborts [where w=0 and ?w1.0=0 and ?w2.0=0 and ?w3.0=0 and ?w4.0=0 and st=A6O_FILE_EINVAL
        and st'=A6O_FILE_CLEAN and rep="Some ''report''" and rep'="Some ''report''"
        and f="\<lambda>i fd p t w. ((A6O_FILE_EINVAL, Some ''report''), w)"
        and g="\<lambda>i fd p t w. ((A6O_FILE_CLEAN, Some ''report''), w)"]) (simp_all add: null_os_def ranked_def)



end
