(* ===== verification/Event.thy ===== *)
theory Event
  imports Status
begin

text \<open>
  Events and their listeners, \<open>libcore/event.c\<close>. The listeners of a source are a singly linked list
  of allocated entries. The list is modelled in a heap, so that removing a listener through a pointer
  to a \<open>next\<close> field, and reading an entry that was freed, are what the code does; the lemmas relate
  it to the list of the listeners in order.
\<close>

section \<open>Events\<close>

definition EVENT_DETECTION :: u32 where "EVENT_DETECTION = push_bit 0 1"
definition EVENT_ON_DEMAND_START :: u32 where "EVENT_ON_DEMAND_START = push_bit 1 1"
definition EVENT_ON_DEMAND_COMPLETED :: u32 where "EVENT_ON_DEMAND_COMPLETED = push_bit 2 1"
definition EVENT_ON_DEMAND_PROGRESS :: u32 where "EVENT_ON_DEMAND_PROGRESS = push_bit 3 1"
definition EVENT_QUARANTINE :: u32 where "EVENT_QUARANTINE = push_bit 4 1"
definition EVENT_REAL_TIME_PROT :: u32 where "EVENT_REAL_TIME_PROT = push_bit 5 1"
definition EVENT_AV_UPDATE :: u32 where "EVENT_AV_UPDATE = push_bit 6 1"

lemmas event_type_defs =
  EVENT_DETECTION_def EVENT_ON_DEMAND_START_def EVENT_ON_DEMAND_COMPLETED_def
  EVENT_ON_DEMAND_PROGRESS_def EVENT_QUARANTINE_def EVENT_REAL_TIME_PROT_def EVENT_AV_UPDATE_def

datatype a6o_detection_context = CONTEXT_REAL_TIME | CONTEXT_ON_DEMAND
datatype a6o_quarantine_action = QUARANTINE_ENTER | QUARANTINE_EXIT

record a6o_detection_event =
  det_context :: a6o_detection_context
  det_scan_id :: int
  det_path :: cstr
  det_scan_status :: a6o_file_status
  det_scan_action :: u32
  det_module_name :: cstr
  det_module_report :: cstr

record a6o_on_demand_start_event =
  sta_scan_id :: int
  sta_root_path :: cstr

record a6o_on_demand_completed_event =
  cmpl_scan_id :: int
  cmpl_cancelled :: int
  cmpl_total_malware_count :: nat
  cmpl_total_suspicious_count :: nat
  cmpl_total_scanned_count :: nat
  cmpl_duration :: int

record a6o_on_demand_progress_event =
  prg_scan_id :: int
  prg_progress :: int
  prg_path :: cstr
  prg_malware_count :: nat
  prg_suspicious_count :: nat
  prg_scanned_count :: nat

record a6o_quarantine_event =
  qua_quarantine_action :: a6o_quarantine_action
  qua_orig_path :: cstr
  qua_quarantine_path :: cstr

datatype a6o_event_union =
    Ev_detection a6o_detection_event
  | Ev_on_demand_start a6o_on_demand_start_event
  | Ev_on_demand_completed a6o_on_demand_completed_event
  | Ev_on_demand_progress a6o_on_demand_progress_event
  | Ev_quarantine a6o_quarantine_event
  | Ev_real_time_prot int
  | Ev_av_update

record a6o_event =
  ev_timestamp :: int
  ev_u :: a6o_event_union

text \<open>The type field, which always names the member of the union that is set.\<close>

definition ev_type :: "a6o_event_union \<Rightarrow> u32" where
  "ev_type u = (case u of
       Ev_detection _ \<Rightarrow> EVENT_DETECTION
     | Ev_on_demand_start _ \<Rightarrow> EVENT_ON_DEMAND_START
     | Ev_on_demand_completed _ \<Rightarrow> EVENT_ON_DEMAND_COMPLETED
     | Ev_on_demand_progress _ \<Rightarrow> EVENT_ON_DEMAND_PROGRESS
     | Ev_quarantine _ \<Rightarrow> EVENT_QUARANTINE
     | Ev_real_time_prot _ \<Rightarrow> EVENT_REAL_TIME_PROT
     | Ev_av_update \<Rightarrow> EVENT_AV_UPDATE)"

text \<open>The copies. \<open>os_strdup\<close> is applied to every string, NULL or not.\<close>

definition detection_event_clone :: "a6o_detection_event \<Rightarrow> a6o_detection_event option" where
  "detection_event_clone src = do {
     path \<leftarrow> os_strdup (det_path src);
     name \<leftarrow> os_strdup (det_module_name src);
     rep \<leftarrow> os_strdup (det_module_report src);
     Some \<lparr>det_context = det_context src, det_scan_id = det_scan_id src, det_path = path,
           det_scan_status = det_scan_status src, det_scan_action = det_scan_action src,
           det_module_name = name, det_module_report = rep\<rparr>
   }"

definition on_demand_start_event_clone ::
  "a6o_on_demand_start_event \<Rightarrow> a6o_on_demand_start_event option" where
  "on_demand_start_event_clone src = do {
     root_path \<leftarrow> os_strdup (sta_root_path src);
     Some \<lparr>sta_scan_id = sta_scan_id src, sta_root_path = root_path\<rparr>
   }"

definition on_demand_completed_event_clone ::
  "a6o_on_demand_completed_event \<Rightarrow> a6o_on_demand_completed_event option" where
  "on_demand_completed_event_clone src =
    Some \<lparr>cmpl_scan_id = cmpl_scan_id src, cmpl_cancelled = cmpl_cancelled src,
      cmpl_total_malware_count = cmpl_total_malware_count src,
      cmpl_total_suspicious_count = cmpl_total_suspicious_count src,
      cmpl_total_scanned_count = cmpl_total_scanned_count src,
      cmpl_duration = cmpl_duration src\<rparr>"

definition on_demand_progress_event_clone ::
  "a6o_on_demand_progress_event \<Rightarrow> a6o_on_demand_progress_event option" where
  "on_demand_progress_event_clone src = do {
     path \<leftarrow> os_strdup (prg_path src);
     Some \<lparr>prg_scan_id = prg_scan_id src, prg_progress = prg_progress src, prg_path = path,
           prg_malware_count = prg_malware_count src, prg_suspicious_count = prg_suspicious_count src,
           prg_scanned_count = prg_scanned_count src\<rparr>
   }"

definition quarantine_event_clone :: "a6o_quarantine_event \<Rightarrow> a6o_quarantine_event option" where
  "quarantine_event_clone src = do {
     orig \<leftarrow> os_strdup (qua_orig_path src);
     qpath \<leftarrow> os_strdup (qua_quarantine_path src);
     Some \<lparr>qua_quarantine_action = qua_quarantine_action src, qua_orig_path = orig,
           qua_quarantine_path = qpath\<rparr>
   }"

definition real_time_prot_event_clone :: "int \<Rightarrow> int option" where
  "real_time_prot_event_clone src = Some src"

definition a6o_event_new :: "int \<Rightarrow> a6o_event_union \<Rightarrow> a6o_event option" where
  "a6o_event_new now ev =
    map_option (\<lambda>u. \<lparr>ev_timestamp = now, ev_u = u\<rparr>)
     (case ev of
        Ev_detection e \<Rightarrow> map_option Ev_detection (detection_event_clone e)
      | Ev_on_demand_start e \<Rightarrow> map_option Ev_on_demand_start (on_demand_start_event_clone e)
      | Ev_on_demand_completed e \<Rightarrow> map_option Ev_on_demand_completed (on_demand_completed_event_clone e)
      | Ev_on_demand_progress e \<Rightarrow> map_option Ev_on_demand_progress (on_demand_progress_event_clone e)
      | Ev_quarantine e \<Rightarrow> map_option Ev_quarantine (quarantine_event_clone e)
      | Ev_real_time_prot n \<Rightarrow> map_option Ev_real_time_prot (real_time_prot_event_clone n)
      | Ev_av_update \<Rightarrow> Some Ev_av_update)"

text \<open>The strings an event owns, which \<open>a6o_event_free\<close> releases.\<close>

definition opt_string :: "cstr \<Rightarrow> string list" where
  "opt_string s = (case s of None \<Rightarrow> [] | Some t \<Rightarrow> [t])"

definition a6o_event_free :: "a6o_event \<Rightarrow> string list" where
  "a6o_event_free ev = (case ev_u ev of
       Ev_detection e \<Rightarrow> opt_string (det_path e) @ opt_string (det_module_name e) @ opt_string (det_module_report e)
     | Ev_on_demand_start e \<Rightarrow> opt_string (sta_root_path e)
     | Ev_on_demand_completed _ \<Rightarrow> []
     | Ev_on_demand_progress e \<Rightarrow> opt_string (prg_path e)
     | Ev_quarantine e \<Rightarrow> opt_string (qua_orig_path e) @ opt_string (qua_quarantine_path e)
     | Ev_real_time_prot _ \<Rightarrow> []
     | Ev_av_update \<Rightarrow> [])"

section \<open>Listeners\<close>

text \<open>An entry of the list; a listener is a function pointer and a data pointer, both numbers.\<close>

type_synonym addr = nat

record callback_entry =
  cbe_mask :: u32
  cbe_cb :: nat
  cbe_data :: nat
  cbe_next :: "addr option"

record a6o_event_source =
  src_callbacks :: "addr option"
  src_heap :: "addr \<Rightarrow> callback_entry option"

definition a6o_event_source_new :: a6o_event_source where
  "a6o_event_source_new = \<lparr>src_callbacks = None, src_heap = (\<lambda>_. None)\<rparr>"

text \<open>\<open>malloc\<close> returns the address \<open>a\<close>.\<close>

definition a6o_event_source_add_cb ::
  "addr \<Rightarrow> a6o_event_source \<Rightarrow> u32 \<Rightarrow> nat \<Rightarrow> nat \<Rightarrow> a6o_event_source" where
  "a6o_event_source_add_cb a s ev_mask cb data =
    s\<lparr>src_heap := (src_heap s)(a \<mapsto>
        \<lparr>cbe_mask = ev_mask, cbe_cb = cb, cbe_data = data, cbe_next = src_callbacks s\<rparr>),
      src_callbacks := Some a\<rparr>"

text \<open>A pointer to a pointer to an entry: to the field of the source, or to the \<open>next\<close> field of an entry.\<close>

datatype link = HeadLink | NextLink addr

definition read_link :: "a6o_event_source \<Rightarrow> link \<Rightarrow> addr option option" where
  "read_link s p = (case p of
       HeadLink \<Rightarrow> Some (src_callbacks s)
     | NextLink a \<Rightarrow> map_option cbe_next (src_heap s a))"

definition write_link :: "a6o_event_source \<Rightarrow> link \<Rightarrow> addr option \<Rightarrow> a6o_event_source" where
  "write_link s p v = (case p of
       HeadLink \<Rightarrow> s\<lparr>src_callbacks := v\<rparr>
     | NextLink a \<Rightarrow> s\<lparr>src_heap := (src_heap s)(a := map_option (\<lambda>e. e\<lparr>cbe_next := v\<rparr>) (src_heap s a))\<rparr>)"

definition free_entry :: "a6o_event_source \<Rightarrow> addr \<Rightarrow> a6o_event_source" where
  "free_entry s a = s\<lparr>src_heap := (src_heap s)(a := None)\<rparr>"

text \<open>\<open>None\<close> is an access to an entry that is not allocated, or a loop that does not end.\<close>

partial_function (option) remove_loop ::
  "u32 \<Rightarrow> nat \<Rightarrow> nat \<Rightarrow> link \<Rightarrow> a6o_event_source \<Rightarrow> a6o_event_source option" where
  "remove_loop ev_mask cb data p s =
    (case read_link s p of
       None \<Rightarrow> None
     | Some None \<Rightarrow> Some s
     | Some (Some a) \<Rightarrow>
       (case src_heap s a of
          None \<Rightarrow> None
        | Some e \<Rightarrow>
            if cbe_mask e = ev_mask \<and> cbe_cb e = cb \<and> cbe_data e = data
            then remove_loop ev_mask cb data p (write_link (free_entry s a) p (cbe_next e))
            else remove_loop ev_mask cb data (NextLink a) s))"

definition a6o_event_source_remove_cb ::
  "a6o_event_source \<Rightarrow> u32 \<Rightarrow> nat \<Rightarrow> nat \<Rightarrow> a6o_event_source option" where
  "a6o_event_source_remove_cb s ev_mask cb data = remove_loop ev_mask cb data HeadLink s"

text \<open>
  Firing. A listener may act on the source itself, for instance by removing itself; it runs on the
  source and the rest of the world.
\<close>

type_synonym 'w event_call =
  "nat \<Rightarrow> a6o_event \<Rightarrow> nat \<Rightarrow> a6o_event_source \<times> 'w \<Rightarrow> (a6o_event_source \<times> 'w) option"

partial_function (option) fire_loop ::
  "'w event_call \<Rightarrow> a6o_event \<Rightarrow> addr option \<Rightarrow> a6o_event_source \<times> 'w \<Rightarrow> (a6o_event_source \<times> 'w) option" where
  "fire_loop call ev p st =
    (case p of
       None \<Rightarrow> Some st
     | Some a \<Rightarrow>
       (case src_heap (fst st) a of
          None \<Rightarrow> None
        | Some e \<Rightarrow>
          (case (if cbe_mask e AND ev_type (ev_u ev) \<noteq> 0 then call (cbe_cb e) ev (cbe_data e) st
                 else Some st) of
             None \<Rightarrow> None
           | Some st1 \<Rightarrow>
             (case src_heap (fst st1) a of
                None \<Rightarrow> None
              | Some e1 \<Rightarrow> fire_loop call ev (cbe_next e1) st1))))"

definition a6o_event_source_fire_event ::
  "'w event_call \<Rightarrow> a6o_event_source \<Rightarrow> a6o_event \<Rightarrow> 'w \<Rightarrow> (a6o_event_source \<times> 'w) option" where
  "a6o_event_source_fire_event call s ev w = fire_loop call ev (src_callbacks s) (s, w)"

partial_function (option) source_free_loop ::
  "addr option \<Rightarrow> (addr \<Rightarrow> callback_entry option) \<Rightarrow> (addr \<Rightarrow> callback_entry option) option" where
  "source_free_loop p h =
    (case p of
       None \<Rightarrow> Some h
     | Some a \<Rightarrow>
       (case h a of
          None \<Rightarrow> None
        | Some e \<Rightarrow> source_free_loop (cbe_next e) (h(a := None))))"

text \<open>The heap that is left when the source is released.\<close>

definition a6o_event_source_free :: "a6o_event_source \<Rightarrow> (addr \<Rightarrow> callback_entry option) option" where
  "a6o_event_source_free s = source_free_loop (src_callbacks s) (src_heap s)"

section \<open>The list in the heap\<close>

type_synonym listener = "u32 \<times> nat \<times> nat"

fun chain :: "(addr \<Rightarrow> callback_entry option) \<Rightarrow> addr option \<Rightarrow> addr list \<Rightarrow> listener list \<Rightarrow> bool" where
  "chain h p [] [] \<longleftrightarrow> p = None"
| "chain h p (a # as) (l # ls) \<longleftrightarrow> p = Some a
    \<and> (\<exists>nx. h a = Some \<lparr>cbe_mask = fst l, cbe_cb = fst (snd l), cbe_data = snd (snd l), cbe_next = nx\<rparr>
        \<and> chain h nx as ls)"
| "chain h p _ _ \<longleftrightarrow> False"

text \<open>The source has exactly these listeners, the one added last first.\<close>

definition listens :: "a6o_event_source \<Rightarrow> listener list \<Rightarrow> bool" where
  "listens s ls \<longleftrightarrow> (\<exists>as. chain (src_heap s) (src_callbacks s) as ls \<and> distinct as)"

lemma chain_cong: "(\<And>x. x \<in> set as \<Longrightarrow> h x = h' x) \<Longrightarrow> chain h p as ls \<longleftrightarrow> chain h' p as ls"
proof (induction as arbitrary: p ls)
  case Nil
  then show ?case by (cases ls) auto
next
  case (Cons a as)
  show ?case
  proof (cases ls)
    case Nil
    then show ?thesis by simp
  next
    case (Cons l ls')
    have "chain h q as ls' \<longleftrightarrow> chain h' q as ls'" for q
      by (rule Cons.IH) (simp add: Cons.prems)
    then show ?thesis
      using Cons.prems [of a] Cons by simp
  qed
qed

lemma chain_transfer: "chain h p as ls \<Longrightarrow> \<forall>x \<in> set as. h' x = h x \<Longrightarrow> chain h' p as ls"
  using chain_cong [of as h' h p ls] by simp

lemma chain_allocated: "chain h p as ls \<Longrightarrow> x \<in> set as \<Longrightarrow> h x \<noteq> None"
proof (induction as arbitrary: p ls)
  case (Cons a as)
  then show ?case by (cases ls) auto
qed simp

lemma listens_new: "listens a6o_event_source_new []"
  by (auto simp: listens_def a6o_event_source_new_def intro: exI [of _ "[]"])

lemma listens_add:
  assumes "listens s ls" "src_heap s a = None"
  shows "listens (a6o_event_source_add_cb a s m c d) ((m, c, d) # ls)"
proof -
  obtain as where as: "chain (src_heap s) (src_callbacks s) as ls" "distinct as"
    using assms(1) by (auto simp: listens_def)
  have new: "a \<notin> set as"
    using chain_allocated [OF as(1)] assms(2) by blast
  let ?s = "a6o_event_source_add_cb a s m c d"
  have "chain (src_heap ?s) (src_callbacks s) as ls"
    using new by (intro chain_transfer [OF as(1)]) (auto simp: a6o_event_source_add_cb_def)
  then have "chain (src_heap ?s) (src_callbacks ?s) (a # as) ((m, c, d) # ls)"
    by (simp add: a6o_event_source_add_cb_def)
  with as(2) new show ?thesis
    unfolding listens_def by (intro exI [of _ "a # as"]) simp
qed

section \<open>Removal\<close>

text \<open>The address of the entry a link is in.\<close>

definition link_addrs :: "link \<Rightarrow> addr set" where
  "link_addrs p = (case p of HeadLink \<Rightarrow> {} | NextLink b \<Rightarrow> {b})"

abbreviation kept :: "u32 \<Rightarrow> nat \<Rightarrow> nat \<Rightarrow> listener list \<Rightarrow> listener list" where
  "kept m c d ls \<equiv> filter (\<lambda>l. l \<noteq> (m, c, d)) ls"

text \<open>
  Removal behind a link: the list behind it loses the matching listeners, and nothing else changes but
  the link itself.
\<close>

definition removed :: "u32 \<Rightarrow> nat \<Rightarrow> nat \<Rightarrow> link \<Rightarrow> a6o_event_source \<Rightarrow> addr list \<Rightarrow> listener list \<Rightarrow> a6o_event_source \<Rightarrow> bool" where
  "removed m c d p s as ls s' \<longleftrightarrow>
    (\<exists>q as'. read_link s' p = Some q \<and> chain (src_heap s') q as' (kept m c d ls)
      \<and> distinct as' \<and> set as' \<subseteq> set as
      \<and> (\<forall>x. x \<notin> set as \<union> link_addrs p \<longrightarrow> src_heap s' x = src_heap s x)
      \<and> (case p of
           HeadLink \<Rightarrow> True
         | NextLink b \<Rightarrow> src_callbacks s' = src_callbacks s
             \<and> src_heap s' b = map_option (\<lambda>e. e\<lparr>cbe_next := q\<rparr>) (src_heap s b)))"

lemma remove_loop_correct:
  assumes "read_link s p = Some q" "chain (src_heap s) q as ls" "distinct as" "link_addrs p \<inter> set as = {}"
  shows "\<exists>s'. remove_loop m c d p s = Some s' \<and> removed m c d p s as ls s'"
  using assms
proof (induction as arbitrary: s p q ls)
  case Nil
  then have "ls = []" "q = None"
    by (cases ls; simp)+
  with Nil have "remove_loop m c d p s = Some s"
    by (subst remove_loop.simps) simp
  moreover have "map_option (\<lambda>e. e\<lparr>cbe_next := q\<rparr>) (src_heap s b) = src_heap s b" if "p = NextLink b" for b
    using Nil.prems(1) that by (auto simp: read_link_def map_option_case split: option.splits)
  ultimately show ?case
    using Nil \<open>ls = []\<close> \<open>q = None\<close>
    by (auto simp: removed_def split: link.splits intro!: exI [of _ "[]"])
next
  case (Cons a as)
  obtain m1 c1 d1 ls' nx where l: "ls = (m1, c1, d1) # ls'" "q = Some a"
      "src_heap s a = Some \<lparr>cbe_mask = m1, cbe_cb = c1, cbe_data = d1, cbe_next = nx\<rparr>"
      "chain (src_heap s) nx as ls'"
    using Cons.prems(2) by (cases ls) auto
  have dist: "distinct as" "a \<notin> set as" "link_addrs p \<inter> set as = {}" "a \<notin> link_addrs p"
    using Cons.prems(3,4) by auto
  show ?case
  proof (cases "(m1, c1, d1) = (m, c, d)")
    case True
    let ?s1 = "write_link (free_entry s a) p nx"
    have step: "remove_loop m c d p s = remove_loop m c d p ?s1"
      using True Cons.prems(1) l by (subst remove_loop.simps) simp
    have h1: "src_heap ?s1 x = src_heap s x" if "x \<notin> insert a (link_addrs p)" for x
      using that by (auto simp: write_link_def free_entry_def link_addrs_def split: link.splits)
    have r1: "read_link ?s1 p = Some nx"
    proof (cases p)
      case HeadLink
      then show ?thesis by (simp add: read_link_def write_link_def)
    next
      case (NextLink b)
      then have "b \<noteq> a" "\<exists>e. src_heap s b = Some e"
        using Cons.prems(1) dist(4) by (auto simp: read_link_def link_addrs_def)
      with NextLink show ?thesis
        by (auto simp: read_link_def write_link_def free_entry_def)
    qed
    have "x \<notin> insert a (link_addrs p)" if "x \<in> set as" for x
      using that dist(2,3) by auto
    then have "\<forall>x \<in> set as. src_heap ?s1 x = src_heap s x"
      using h1 by simp
    then have "chain (src_heap ?s1) nx as ls'"
      by (rule chain_transfer [OF l(4)])
    from Cons.IH [OF r1 this dist(1,3)] obtain s' where s':
        "remove_loop m c d p ?s1 = Some s'" "removed m c d p ?s1 as ls' s'"
      by blast
    then obtain q' as' where R: "read_link s' p = Some q'" "chain (src_heap s') q' as' (kept m c d ls')"
        "distinct as'" "set as' \<subseteq> set as"
        "\<forall>x. x \<notin> set as \<union> link_addrs p \<longrightarrow> src_heap s' x = src_heap ?s1 x"
        "\<forall>b. p = NextLink b \<longrightarrow> src_callbacks s' = src_callbacks ?s1
           \<and> src_heap s' b = map_option (\<lambda>e. e\<lparr>cbe_next := q'\<rparr>) (src_heap ?s1 b)"
      by (cases p) (auto simp: removed_def)
    have "src_callbacks s' = src_callbacks s
        \<and> src_heap s' b = map_option (\<lambda>e. e\<lparr>cbe_next := q'\<rparr>) (src_heap s b)" if "p = NextLink b" for b
      using R(6) that dist(4)
      by (cases "src_heap s b") (simp_all add: write_link_def free_entry_def link_addrs_def)
    then have "removed m c d p s (a # as) ls s'"
      unfolding removed_def using R(1-5) h1 True l(1)
      by (intro exI [of _ q'] exI [of _ as']) (auto split: link.splits)
    with step s'(1) show ?thesis
      by auto
  next
    case False
    have step: "remove_loop m c d p s = remove_loop m c d (NextLink a) s"
      using False Cons.prems(1) l by (subst remove_loop.simps) auto
    have "read_link s (NextLink a) = Some nx" "link_addrs (NextLink a) \<inter> set as = {}"
      using l(3) dist(2) by (simp_all add: read_link_def link_addrs_def)
    from Cons.IH [OF this(1) l(4) dist(1) this(2)] obtain s' q' as' where s':
        "remove_loop m c d (NextLink a) s = Some s'"
        "chain (src_heap s') q' as' (kept m c d ls')" "distinct as'" "set as' \<subseteq> set as"
        "\<forall>x. x \<notin> set as \<union> {a} \<longrightarrow> src_heap s' x = src_heap s x"
        "src_callbacks s' = src_callbacks s"
        "src_heap s' a = map_option (\<lambda>e. e\<lparr>cbe_next := q'\<rparr>) (src_heap s a)"
      by (auto simp: removed_def link_addrs_def)
    have link: "src_heap s' b = src_heap s b" if "p = NextLink b" for b
      using that s'(5) dist(3,4) by (simp add: link_addrs_def)
    have r: "read_link s' p = Some (Some a)"
      using Cons.prems(1) l(2) s'(6) link by (auto simp: read_link_def split: link.splits)
    have ch: "chain (src_heap s') (Some a) (a # as') (kept m c d ls)"
      using s'(2,7) l(1,3) False by auto
    have self: "map_option (\<lambda>e. e\<lparr>cbe_next := Some a\<rparr>) (src_heap s b) = src_heap s b" if "p = NextLink b" for b
      using Cons.prems(1) l(2) that by (auto simp: read_link_def map_option_case split: option.splits)
    have "removed m c d p s (a # as) ls s'"
      unfolding removed_def
      using r ch s'(3-6) dist(2) link self
      by (intro exI [of _ "Some a"] exI [of _ "a # as'"]) (auto split: link.splits)
    with step s'(1) show ?thesis
      by auto
  qed
qed

lemma listens_remove:
  assumes "listens s ls"
  shows "\<exists>s'. a6o_event_source_remove_cb s m c d = Some s' \<and> listens s' (kept m c d ls)"
proof -
  obtain as where "chain (src_heap s) (src_callbacks s) as ls" "distinct as"
    using assms by (auto simp: listens_def)
  then obtain s' where "remove_loop m c d HeadLink s = Some s'" "removed m c d HeadLink s as ls s'"
    using remove_loop_correct [of s HeadLink "src_callbacks s" as ls m c d]
    by (auto simp: read_link_def link_addrs_def)
  then show ?thesis
    by (auto simp: a6o_event_source_remove_cb_def removed_def listens_def read_link_def)
qed

text \<open>Releasing a source frees the entries of its list, each once, and nothing else.\<close>

lemma source_free_loop_chain:
  "chain h p as ls \<Longrightarrow> distinct as \<Longrightarrow>
    source_free_loop p h = Some (\<lambda>x. if x \<in> set as then None else h x)"
proof (induction as arbitrary: h p ls)
  case Nil
  then show ?case
    by (subst source_free_loop.simps) (cases ls; simp)
next
  case (Cons a as)
  obtain m c d ls' nx where l: "ls = (m, c, d) # ls'" "p = Some a"
      "h a = Some \<lparr>cbe_mask = m, cbe_cb = c, cbe_data = d, cbe_next = nx\<rparr>" "chain h nx as ls'"
    using Cons.prems by (cases ls) auto
  have "chain (h(a := None)) nx as ls'"
    using Cons.prems(2) by (intro chain_transfer [OF l(4)]) auto
  then have "source_free_loop nx (h(a := None)) = Some (\<lambda>x. if x \<in> set as then None else (h(a := None)) x)"
    using Cons.IH Cons.prems(2) by simp
  moreover have "(\<lambda>x. if x \<in> set as then None else (h(a := None)) x)
      = (\<lambda>x. if x \<in> set (a # as) then None else h x)"
    by auto
  ultimately show ?case
    using l(2,3) by (subst source_free_loop.simps) simp
qed

lemma source_free_listens:
  "listens s ls \<Longrightarrow> \<exists>h as. a6o_event_source_free s = Some h \<and> length as = length ls
    \<and> (\<forall>x. h x = (if x \<in> set as then None else src_heap s x))"
proof -
  assume "listens s ls"
  then obtain as where as: "chain (src_heap s) (src_callbacks s) as ls" "distinct as"
    by (auto simp: listens_def)
  have "chain h p xs ys \<Longrightarrow> length xs = length ys" for h p xs ys
    by (induction h p xs ys rule: chain.induct) auto
  with source_free_loop_chain [OF as] as(1) show ?thesis
    by (intro exI [of _ "\<lambda>x. if x \<in> set as then None else src_heap s x"] exI [of _ as])
       (simp add: a6o_event_source_free_def)
qed

section \<open>Firing\<close>

text \<open>The listeners an event concerns, and their calls on the world, in the order of the list.\<close>

fun notify :: "(nat \<Rightarrow> a6o_event \<Rightarrow> nat \<Rightarrow> 'w \<Rightarrow> 'w) \<Rightarrow> a6o_event \<Rightarrow> listener list \<Rightarrow> 'w \<Rightarrow> 'w" where
  "notify f ev [] w = w"
| "notify f ev ((m, c, d) # ls) w =
    notify f ev ls (if m AND ev_type (ev_u ev) \<noteq> 0 then f c ev d w else w)"

lemma fire_loop_notify:
  assumes "chain (src_heap s) p as ls"
  shows "fire_loop (\<lambda>c ev d (s, w). Some (s, f c ev d w)) ev p (s, w) = Some (s, notify f ev ls w)"
  using assms
proof (induction as arbitrary: p ls w)
  case Nil
  then show ?case
    by (subst fire_loop.simps) (cases ls; simp)
next
  case (Cons a as)
  obtain m c d ls' nx where l: "ls = (m, c, d) # ls'" "p = Some a"
      "src_heap s a = Some \<lparr>cbe_mask = m, cbe_cb = c, cbe_data = d, cbe_next = nx\<rparr>"
      "chain (src_heap s) nx as ls'"
    using Cons.prems by (cases ls) auto
  show ?case
    by (subst fire_loop.simps) (simp add: l Cons.IH)
qed

text \<open>
  Listeners that leave the source alone while the world satisfies \<open>P\<close>, which they keep; and a
  listener that goes wrong on every such world.
\<close>

lemma fire_loop_inv:
  assumes "chain (src_heap s) p as ls" "P w"
    and "\<And>m c d w. (m, c, d) \<in> set ls \<Longrightarrow> m AND ev_type (ev_u ev) \<noteq> 0 \<Longrightarrow> P w
      \<Longrightarrow> call c ev d (s, w) = Some (s, f c ev d w) \<and> P (f c ev d w)"
  shows "fire_loop call ev p (s, w) = Some (s, notify f ev ls w)"
  using assms
proof (induction as arbitrary: p ls w)
  case Nil
  then show ?case
    by (subst fire_loop.simps) (cases ls; simp)
next
  case (Cons a as)
  obtain m c d ls' nx where l: "ls = (m, c, d) # ls'" "p = Some a"
      "src_heap s a = Some \<lparr>cbe_mask = m, cbe_cb = c, cbe_data = d, cbe_next = nx\<rparr>"
      "chain (src_heap s) nx as ls'"
    using Cons.prems(1) by (cases ls) auto
  let ?w = "if m AND ev_type (ev_u ev) \<noteq> 0 then f c ev d w else w"
  have step: "(if m AND ev_type (ev_u ev) \<noteq> 0 then call c ev d (s, w) else Some (s, w)) = Some (s, ?w)"
    and P: "P ?w"
    using Cons.prems(2) Cons.prems(3) [of m c d w] by (auto simp: l(1))
  have "fire_loop call ev nx (s, ?w) = Some (s, notify f ev ls' ?w)"
  proof (rule Cons.IH [OF l(4) P])
    fix m c d w assume "(m, c, d) \<in> set ls'" "m AND ev_type (ev_u ev) \<noteq> 0" "P w"
    then show "call c ev d (s, w) = Some (s, f c ev d w) \<and> P (f c ev d w)"
      by (intro Cons.prems(3)) (simp_all add: l(1))
  qed
  with step show ?case
    by (subst fire_loop.simps, cases "m AND ev_type (ev_u ev) = 0") (simp_all add: l(1-3))
qed

lemma fire_loop_fault:
  assumes "chain (src_heap s) p as ls" "P w" "(m, c, d) \<in> set ls" "m AND ev_type (ev_u ev) \<noteq> 0"
    and "\<And>w. P w \<Longrightarrow> call c ev d (s, w) = None"
    and "\<And>m c d w st. (m, c, d) \<in> set ls \<Longrightarrow> P w \<Longrightarrow> call c ev d (s, w) = Some st
      \<Longrightarrow> fst st = s \<and> P (snd st)"
  shows "fire_loop call ev p (s, w) = None"
  using assms
proof (induction as arbitrary: p ls w)
  case Nil
  then show ?case by (cases ls) simp_all
next
  case (Cons a as)
  obtain m1 c1 d1 ls' nx where l: "ls = (m1, c1, d1) # ls'" "p = Some a"
      "src_heap s a = Some \<lparr>cbe_mask = m1, cbe_cb = c1, cbe_data = d1, cbe_next = nx\<rparr>"
      "chain (src_heap s) nx as ls'"
    using Cons.prems(1) by (cases ls) auto
  let ?step = "if m1 AND ev_type (ev_u ev) \<noteq> 0 then call c1 ev d1 (s, w) else Some (s, w)"
  have unfold: "fire_loop call ev p (s, w) = Option.bind ?step
      (\<lambda>st. case src_heap (fst st) a of None \<Rightarrow> None | Some e1 \<Rightarrow> fire_loop call ev (cbe_next e1) st)"
    by (subst fire_loop.simps) (simp add: l(2,3) split: option.split)
  show ?case
  proof (cases ?step)
    case None
    then show ?thesis by (simp add: unfold)
  next
    case (Some st)
    have st: "fst st = s \<and> P (snd st)"
      using Some Cons.prems(2) Cons.prems(6) [of m1 c1 d1 w st] by (auto simp: l(1) split: if_splits)
    show ?thesis
    proof (cases "(m1, c1, d1) = (m, c, d)")
      case True
      with Some Cons.prems(2,4) Cons.prems(5) [of w] show ?thesis by simp
    next
      case False
      have "fire_loop call ev nx (s, snd st) = None"
      proof (rule Cons.IH [OF l(4) _ _ Cons.prems(4,5)])
        show "P (snd st)" using st ..
        show "(m, c, d) \<in> set ls'" using Cons.prems(3) False by (auto simp: l(1))
        fix m c d w st assume "(m, c, d) \<in> set ls'" "P w" "call c ev d (s, w) = Some st"
        then show "fst st = s \<and> P (snd st)"
          by (intro Cons.prems(6) [of m c d w]) (simp_all add: l(1))
      qed
      with Some st l(3) show ?thesis
        by (cases st) (simp add: unfold)
    qed
  qed
qed

section \<open>Properties\<close>

text \<open>
  C13: registration. Adding a listener puts it in front of the others; removing one takes out every
  occurrence of it and keeps the others in order, and the traversal with a pointer to the link always
  ends and touches no freed entry.
\<close>

theorem listeners_refine_list:
  assumes "listens s ls"
  shows "(src_heap s a = None \<longrightarrow> listens (a6o_event_source_add_cb a s m c d) ((m, c, d) # ls))
    \<and> (\<exists>s'. a6o_event_source_remove_cb s m c d = Some s' \<and> listens s' (filter (\<lambda>l. l \<noteq> (m, c, d)) ls))"
  using listens_add [OF assms] listens_remove [OF assms] by blast

theorem listeners_refine_list_witness:
  "\<exists>s'. a6o_event_source_remove_cb (a6o_event_source_add_cb 7 a6o_event_source_new EVENT_DETECTION 1 2)
      EVENT_DETECTION 1 2 = Some s' \<and> listens s' []"
  using listeners_refine_list [of "a6o_event_source_add_cb 7 a6o_event_source_new EVENT_DETECTION 1 2"
      "[(EVENT_DETECTION, 1, 2)]" 0 EVENT_DETECTION 1 2]
    listens_add [OF listens_new, of 7 EVENT_DETECTION 1 2]
  by (auto simp: a6o_event_source_new_def)

text \<open>
  C14: firing. When the listeners leave the source alone, an event is delivered to exactly those whose
  mask has its type, in the order of the list, once each.
\<close>

theorem fire_notifies_listeners:
  assumes "listens s ls"
  shows "a6o_event_source_fire_event (\<lambda>c ev d (s, w). Some (s, f c ev d w)) s ev w
    = Some (s, notify f ev ls w)"
  using assms fire_loop_notify [of s "src_callbacks s" _ ls f ev w]
  by (auto simp: listens_def a6o_event_source_fire_event_def)

theorem fire_notifies_listeners_witness:
  "a6o_event_source_fire_event (\<lambda>c ev d (s, w). Some (s, w @ [d]))
      (a6o_event_source_add_cb 7 a6o_event_source_new EVENT_DETECTION 1 2)
      \<lparr>ev_timestamp = 0, ev_u = Ev_av_update\<rparr> []
    = Some (a6o_event_source_add_cb 7 a6o_event_source_new EVENT_DETECTION 1 2, [])"
  using fire_notifies_listeners [OF listens_add [OF listens_new, of 7 EVENT_DETECTION 1 2],
      of "\<lambda>c ev d w. w @ [d]" "\<lparr>ev_timestamp = 0, ev_u = Ev_av_update\<rparr>" "[]"]
  by (simp add: a6o_event_source_new_def ev_type_def event_type_defs)

text \<open>
  a listener that unregisters itself while it is called makes the source read a freed entry.
\<close>

theorem self_removal_faults:
  assumes "listens s ((m, c, d) # ls)" "m AND ev_type (ev_u ev) \<noteq> 0"
  shows "a6o_event_source_fire_event
      (\<lambda>c ev d (s, w). map_option (\<lambda>s'. (s', w)) (a6o_event_source_remove_cb s m c d)) s ev w = None"
proof -
  obtain a as where as: "chain (src_heap s) (src_callbacks s) (a # as) ((m, c, d) # ls)" "distinct (a # as)"
  proof -
    obtain xs where xs: "chain (src_heap s) (src_callbacks s) xs ((m, c, d) # ls)" "distinct xs"
      using assms(1) by (auto simp: listens_def)
    with that show ?thesis
      by (cases xs) auto
  qed
  then obtain nx where a: "src_callbacks s = Some a"
      "src_heap s a = Some \<lparr>cbe_mask = m, cbe_cb = c, cbe_data = d, cbe_next = nx\<rparr>"
      "chain (src_heap s) nx as ls"
    by auto
  let ?s1 = "write_link (free_entry s a) HeadLink nx"
  have h1: "src_heap ?s1 x = (if x = a then None else src_heap s x)" for x
    by (simp add: write_link_def free_entry_def)
  have "chain (src_heap ?s1) nx as ls"
    using as(2) h1 by (intro chain_transfer [OF a(3)]) auto
  then obtain s' where s': "remove_loop m c d HeadLink ?s1 = Some s'" "removed m c d HeadLink ?s1 as ls s'"
    using remove_loop_correct [of ?s1 HeadLink nx as ls m c d] as(2)
    by (auto simp: read_link_def write_link_def link_addrs_def)
  have "a6o_event_source_remove_cb s m c d = Some s'"
    unfolding a6o_event_source_remove_cb_def using a(1,2) s'(1)
    by (subst remove_loop.simps) (simp add: read_link_def)
  moreover have "src_heap s' a = None"
    using s'(2) as(2) h1 by (auto simp: removed_def link_addrs_def)
  ultimately show ?thesis
    using a(1,2) assms(2) by (subst a6o_event_source_fire_event_def, subst fire_loop.simps) simp
qed

theorem self_removal_faults_witness:
  "a6o_event_source_fire_event
      (\<lambda>c ev d (s, w). map_option (\<lambda>s'. (s', w)) (a6o_event_source_remove_cb s EVENT_AV_UPDATE c d))
      (a6o_event_source_add_cb 7 a6o_event_source_new EVENT_AV_UPDATE 1 2)
      \<lparr>ev_timestamp = 0, ev_u = Ev_av_update\<rparr> () = None"
  using self_removal_faults [OF listens_add [OF listens_new, of 7 EVENT_AV_UPDATE 1 2],
      of "\<lparr>ev_timestamp = 0, ev_u = Ev_av_update\<rparr>" "()"]
  by (simp add: a6o_event_source_new_def ev_type_def event_type_defs)

end
