(* ===== verification/OnDemand.thy ===== *)
theory OnDemand
  imports ScanCtx Event
begin

text \<open>
  On-demand scans, \<open>libcore/ondemand.c\<close>: the scan of one file with its events and counters, the
  traversal of a directory, and a whole scan, with or without a pool of threads.

  The operations run one thread at a time: the tasks of a pool are run in the order in which they were
  queued. The interleavings of the threads of a pool are the subject of theory \<open>ScanPool\<close>. Counters
  are natural numbers: a scan of more than \<open>2 ^ 31\<close> files is out of scope.
\<close>

section \<open>State\<close>

definition A6O_SCAN_THREADED :: u32 where "A6O_SCAN_THREADED = push_bit 0 1"
definition A6O_SCAN_RECURSE :: u32 where "A6O_SCAN_RECURSE = push_bit 1 1"

lemmas scan_flag_defs = A6O_SCAN_THREADED_def A6O_SCAN_RECURSE_def

definition A6O_ON_DEMAND_PROGRESS_UNKNOWN :: int where "A6O_ON_DEMAND_PROGRESS_UNKNOWN = -1"
definition DEFAULT_PROGRESS_PERIOD :: int where "DEFAULT_PROGRESS_PERIOD = 200"

text \<open>
  The scan. The two times are set by the run before it reads them; \<open>od_thread_pool\<close> holds the paths
  queued for the pool, and \<open>od_count_thread\<close> tells whether the counting thread was started.
\<close>

record a6o_on_demand =
  od_root_path :: string
  od_scan_id :: int
  od_flags :: u32
  od_count_thread :: bool
  od_thread_pool :: "string list"
  od_start_time :: int
  od_duration :: int
  od_to_scan_count :: nat
  od_scanned_count :: nat
  od_malware_count :: nat
  od_suspicious_count :: nat
  od_was_cancelled :: int
  od_progress_period :: int
  od_last_progress_time :: int
  od_last_progress_value :: int

text \<open>What a scan shares with the rest of the program, and what it never changes.\<close>

record 'w scan_state =
  ss_od :: a6o_on_demand
  ss_conf :: a6o_scan_conf
  ss_source :: a6o_event_source
  ss_world :: 'w

record 'w scan_env =
  se_os :: "'w scan_os"
  se_mm :: "'w module_manager"
  se_call :: "'w event_call"
  se_time :: "'w \<Rightarrow> int"
  se_gettimeofday :: "'w \<Rightarrow> (int \<times> int) option"
  se_realpath :: "string \<Rightarrow> string option"
  se_stat :: "string \<Rightarrow> stat_outcome"
  se_dir :: "string \<Rightarrow> fs_dir"

definition a6o_on_demand_new ::
  "(string \<Rightarrow> string option) \<Rightarrow> scan_confs \<Rightarrow> string \<Rightarrow> int \<Rightarrow> u32 \<Rightarrow> bool
    \<Rightarrow> (a6o_on_demand \<times> a6o_scan_conf) option \<times> scan_confs" where
  "a6o_on_demand_new realpath g root_path scan_id flags send_progress =
    (let (c, g1) = a6o_scan_conf_on_demand g
     in (case realpath root_path of
           None \<Rightarrow> (None, g1)
         | Some root \<Rightarrow>
             (Some (\<lparr>od_root_path = root, od_scan_id = scan_id, od_flags = flags, od_count_thread = False,
                od_thread_pool = [], od_start_time = 0, od_duration = 0, od_to_scan_count = 0,
                od_scanned_count = 0, od_malware_count = 0, od_suspicious_count = 0, od_was_cancelled = 0,
                od_progress_period = (if send_progress then DEFAULT_PROGRESS_PERIOD else 0),
                od_last_progress_time = 0, od_last_progress_value = A6O_ON_DEMAND_PROGRESS_UNKNOWN\<rparr>, c), g1)))"

definition a6o_on_demand_get_id :: "a6o_on_demand \<Rightarrow> int" where
  "a6o_on_demand_get_id od = od_scan_id od"

text \<open>Cancelling is not implemented.\<close>

definition a6o_on_demand_cancel :: "a6o_on_demand \<Rightarrow> a6o_on_demand" where
  "a6o_on_demand_cancel od = od"

definition a6o_on_demand_is_cancelled :: "a6o_on_demand \<Rightarrow> bool" where
  "a6o_on_demand_is_cancelled od = False"

section \<open>Counters and progress\<close>

definition update_counters :: "a6o_on_demand \<Rightarrow> a6o_report \<Rightarrow> a6o_on_demand" where
  "update_counters od report =
    (let od1 = od\<lparr>od_scanned_count := od_scanned_count od + 1\<rparr>
     in case rep_status report of
          A6O_FILE_SUSPICIOUS \<Rightarrow> od1\<lparr>od_suspicious_count := od_suspicious_count od1 + 1\<rparr>
        | A6O_FILE_MALWARE \<Rightarrow> od1\<lparr>od_malware_count := od_malware_count od1 + 1\<rparr>
        | _ \<Rightarrow> od1)"

text \<open>A failing \<open>gettimeofday\<close> is logged with level error, which aborts.\<close>

definition get_milliseconds :: "'w scan_env \<Rightarrow> 'w \<Rightarrow> int option" where
  "get_milliseconds env w = (case se_gettimeofday env w of
       None \<Rightarrow> None
     | Some (tv_sec, tv_usec) \<Rightarrow> Some (tv_sec * 1000 + tv_usec div 1000))"

definition must_send_progress_event :: "a6o_on_demand \<Rightarrow> a6o_report \<Rightarrow> int \<Rightarrow> int \<Rightarrow> bool" where
  "must_send_progress_event od report progress now =
    (if rep_path report = None then False
     else if od_last_progress_value od = A6O_ON_DEMAND_PROGRESS_UNKNOWN then True
     else if od_last_progress_value od \<noteq> progress then True
     else if od_last_progress_time od = 0 then True
     else if now - od_last_progress_time od \<ge> od_progress_period od then True
     else False)"

text \<open>Building an event, firing it and freeing it, on the state of the scan.\<close>

definition fire :: "'w scan_env \<Rightarrow> a6o_event_union \<Rightarrow> 'w scan_state \<Rightarrow> 'w scan_state option" where
  "fire env u s = do {
     ev \<leftarrow> a6o_event_new (se_time env (ss_world s)) u;
     (src, w) \<leftarrow> a6o_event_source_fire_event (se_call env) (ss_source s) ev (ss_world s);
     Some (s\<lparr>ss_source := src, ss_world := w\<rparr>)
   }"

definition fire_progress_event ::
  "'w scan_env \<Rightarrow> a6o_report \<Rightarrow> int \<Rightarrow> 'w scan_state \<Rightarrow> 'w scan_state option" where
  "fire_progress_event env report progress s =
    fire env (Ev_on_demand_progress
      \<lparr>prg_scan_id = od_scan_id (ss_od s), prg_progress = progress, prg_path = rep_path report,
       prg_malware_count = od_malware_count (ss_od s), prg_suspicious_count = od_suspicious_count (ss_od s),
       prg_scanned_count = od_scanned_count (ss_od s)\<rparr>) s"

text \<open>
  The percentage. The quotient of two doubles is truncated; for counters below \<open>2 ^ 31\<close> the rounding of
  the division is too small to reach the next integer, so this is the integer division.
\<close>

definition progress_value :: "a6o_on_demand \<Rightarrow> int" where
  "progress_value od =
    (let progress = (100 * int (od_scanned_count od)) div int (od_to_scan_count od)
     in if progress > 100 then 100 else progress)"

definition update_progress ::
  "'w scan_env \<Rightarrow> a6o_report \<Rightarrow> 'w scan_state \<Rightarrow> 'w scan_state option" where
  "update_progress env report s =
    (if od_progress_period (ss_od s) = 0 then Some s
     else if od_to_scan_count (ss_od s) = 0 then Some s
     else do {
       let progress = progress_value (ss_od s);
       now \<leftarrow> get_milliseconds env (ss_world s);
       (if must_send_progress_event (ss_od s) report progress now
        then do {
          s1 \<leftarrow> fire_progress_event env report progress s;
          Some (s1\<lparr>ss_od := (ss_od s1)\<lparr>od_last_progress_time := now, od_last_progress_value := progress\<rparr>\<rparr>)
        }
        else Some s)
     })"

definition fire_detection_event ::
  "'w scan_env \<Rightarrow> a6o_report \<Rightarrow> 'w scan_state \<Rightarrow> 'w scan_state option" where
  "fire_detection_event env report s =
    fire env (Ev_detection
      \<lparr>det_context = CONTEXT_ON_DEMAND, det_scan_id = od_scan_id (ss_od s), det_path = rep_path report,
       det_scan_status = rep_status report, det_scan_action = rep_action report,
       det_module_name = rep_module_name report, det_module_report = rep_module_report report\<rparr>) s"

definition fire_on_demand_start_event :: "'w scan_env \<Rightarrow> 'w scan_state \<Rightarrow> 'w scan_state option" where
  "fire_on_demand_start_event env s =
    fire env (Ev_on_demand_start
      \<lparr>sta_scan_id = od_scan_id (ss_od s), sta_root_path = Some (od_root_path (ss_od s))\<rparr>) s"

definition fire_on_demand_completed_event :: "'w scan_env \<Rightarrow> 'w scan_state \<Rightarrow> 'w scan_state option" where
  "fire_on_demand_completed_event env s =
    fire env (Ev_on_demand_completed
      \<lparr>cmpl_scan_id = od_scan_id (ss_od s), cmpl_cancelled = od_was_cancelled (ss_od s),
       cmpl_total_malware_count = od_malware_count (ss_od s),
       cmpl_total_suspicious_count = od_suspicious_count (ss_od s),
       cmpl_total_scanned_count = od_scanned_count (ss_od s),
       cmpl_duration = od_duration (ss_od s)\<rparr>) s"

section \<open>One file\<close>

text \<open>The body of \<open>process_error\<close> is commented out.\<close>

definition process_error :: "cstr \<Rightarrow> int \<Rightarrow> 'w scan_state \<Rightarrow> 'w scan_state" where
  "process_error path entry_errno s = s"

text \<open>The context lives on the stack and is not initialised.\<close>

definition stack_context :: a6o_scan_context where
  "stack_context = \<lparr>ctx_status = A6O_SC_MUST_SCAN, ctx_fields = None\<rparr>"

definition scan_report ::
  "'w scan_env \<Rightarrow> cstr \<Rightarrow> 'w scan_state \<Rightarrow> (a6o_scan_context \<times> a6o_report \<times> 'w scan_state) option" where
  "scan_report env path s = do {
     ((ctx, conf, report), w) \<leftarrow>
       a6o_scan_context_get (se_os env) (se_mm env) stack_context (-1) path (ss_conf s)
         (Some (a6o_report_init path)) (ss_world s);
     let s1 = s\<lparr>ss_conf := conf, ss_world := w\<rparr>;
     (if ctx_status ctx = A6O_SC_MUST_SCAN
      then do {
        ((st, report1), w1) \<leftarrow> a6o_scan_context_scan (se_os env) (se_mm env) ctx report w;
        r \<leftarrow> report1;
        Some (ctx, r, s1\<lparr>ss_world := w1\<rparr>)
      }
      else do {
        r \<leftarrow> report;
        Some (ctx, r, if ctx_status ctx = A6O_SC_FILE_OPEN_ERROR then process_error (rep_path r) 0 s1 else s1)
      })
   }"

definition scan_file :: "'w scan_env \<Rightarrow> cstr \<Rightarrow> 'w scan_state \<Rightarrow> 'w scan_state option" where
  "scan_file env path s = do {
     (ctx, report, s1) \<leftarrow> scan_report env path s;
     s2 \<leftarrow> (if (rep_status report = A6O_FILE_MALWARE \<or> rep_status report = A6O_FILE_SUSPICIOUS)
               \<and> rep_path report \<noteq> None
            then fire_detection_event env report s1
            else Some s1);
     let s3 = s2\<lparr>ss_od := update_counters (ss_od s2) report\<rparr>;
     s4 \<leftarrow> update_progress env report s3;
     (freed, w) \<leftarrow> a6o_scan_context_destroy (se_os env) ctx (ss_world s4);
     Some (s4\<lparr>ss_world := w\<rparr>)
   }"

definition scan_entry_thread_fun :: "'w scan_env \<Rightarrow> string \<Rightarrow> 'w scan_state \<Rightarrow> 'w scan_state option" where
  "scan_entry_thread_fun env data s = scan_file env (Some data) s"

section \<open>A directory\<close>

definition scan_entry :: "'w scan_env \<Rightarrow> 'w scan_state dirent_cb" where
  "scan_entry env full_path flags entry_errno s =
    (if a6o_on_demand_is_cancelled (ss_od s) then Some (2, s)
     else if has_flag flags FILE_FLAG_IS_ERROR then Some (1, process_error full_path entry_errno s)
     else if \<not> has_flag flags FILE_FLAG_IS_PLAIN_FILE then Some (1, s)
     else if has_flag (od_flags (ss_od s)) A6O_SCAN_THREADED
     then (case full_path of
             Some p \<Rightarrow> Some (0, s\<lparr>ss_od := (ss_od s)\<lparr>od_thread_pool := od_thread_pool (ss_od s) @ [p]\<rparr>\<rparr>)
           | None \<Rightarrow> Some (0, s))
     else map_option (Pair 0) (scan_file env full_path s))"

definition count_entry :: "nat dirent_cb" where
  "count_entry full_path flags entry_errno count =
    (if \<not> has_flag flags FILE_FLAG_IS_PLAIN_FILE then Some (0, count) else Some (0, count + 1))"

definition count_thread_fun :: "'w scan_env \<Rightarrow> a6o_on_demand \<Rightarrow> a6o_on_demand option" where
  "count_thread_fun env od = do {
     (ret, count) \<leftarrow> os_dir_map (se_realpath env) (has_flag (od_flags od) A6O_SCAN_RECURSE) count_entry
                       (od_root_path od) (se_dir env (od_root_path od)) 0;
     Some (od\<lparr>od_to_scan_count := count\<rparr>)
   }"

text \<open>The tasks of the pool, in the order of the queue.\<close>

fun pool_tasks :: "'w scan_env \<Rightarrow> string list \<Rightarrow> 'w scan_state \<Rightarrow> 'w scan_state option" where
  "pool_tasks env [] s = Some s"
| "pool_tasks env (p # ps) s = do { s1 \<leftarrow> scan_entry_thread_fun env p s; pool_tasks env ps s1 }"

definition g_thread_pool_free :: "'w scan_env \<Rightarrow> 'w scan_state \<Rightarrow> 'w scan_state option" where
  "g_thread_pool_free env s =
    pool_tasks env (od_thread_pool (ss_od s)) (s\<lparr>ss_od := (ss_od s)\<lparr>od_thread_pool := []\<rparr>\<rparr>)"

section \<open>A whole scan\<close>

text \<open>
  The flags read after \<open>os_file_stat\<close>, which sets them in every case. The counting thread either
  finishes before the traversal begins or, with \<open>late\<close>, after the scan, when it is joined.
\<close>

definition stat_flags :: "'w scan_env \<Rightarrow> string \<Rightarrow> u32" where
  "stat_flags env path =
    fs_flags (fst (snd (os_file_stat (se_stat env) path \<lparr>fs_flags = 0, fs_file_size = 0\<rparr>)))"

definition scan_root :: "'w scan_env \<Rightarrow> bool \<Rightarrow> 'w scan_state \<Rightarrow> 'w scan_state option" where
  "scan_root env late s =
    (let root = od_root_path (ss_od s);
         fl = stat_flags env root
     in if has_flag fl FILE_FLAG_IS_PLAIN_FILE
        then let s1 = s\<lparr>ss_od := (ss_od s)\<lparr>od_to_scan_count := 1\<rparr>\<rparr>
             in if has_flag (od_flags (ss_od s1)) A6O_SCAN_THREADED
                then Some (s1\<lparr>ss_od := (ss_od s1)\<lparr>od_thread_pool := od_thread_pool (ss_od s1) @ [root]\<rparr>\<rparr>)
                else scan_file env (Some root) s1
        else if has_flag fl FILE_FLAG_IS_DIRECTORY
        then do {
          od1 \<leftarrow> (if od_progress_period (ss_od s) \<noteq> 0
                 then (if late then Some ((ss_od s)\<lparr>od_count_thread := True\<rparr>)
                       else count_thread_fun env ((ss_od s)\<lparr>od_count_thread := True\<rparr>))
                 else Some (ss_od s));
          (ret, s1) \<leftarrow> os_dir_map (se_realpath env) (has_flag (od_flags od1) A6O_SCAN_RECURSE) (scan_entry env)
                        root (se_dir env root) (s\<lparr>ss_od := od1\<rparr>);
          Some s1
        }
        else Some s)"

definition a6o_on_demand_run :: "'w scan_env \<Rightarrow> bool \<Rightarrow> 'w scan_state \<Rightarrow> 'w scan_state option" where
  "a6o_on_demand_run env late s = do {
     start \<leftarrow> get_milliseconds env (ss_world s);
     s1 \<leftarrow> fire_on_demand_start_event env (s\<lparr>ss_od := (ss_od s)\<lparr>od_start_time := start\<rparr>\<rparr>);
     s2 \<leftarrow> scan_root env late s1;
     s3 \<leftarrow> (if has_flag (od_flags (ss_od s2)) A6O_SCAN_THREADED then g_thread_pool_free env s2 else Some s2);
     stop \<leftarrow> get_milliseconds env (ss_world s3);
     s4 \<leftarrow> fire_on_demand_completed_event env
            (s3\<lparr>ss_od := (ss_od s3)\<lparr>od_duration := stop - od_start_time (ss_od s3)\<rparr>\<rparr>);
     (if od_count_thread (ss_od s4) \<and> late
      then do { od \<leftarrow> count_thread_fun env (ss_od s4); Some (s4\<lparr>ss_od := od\<rparr>) }
      else Some s4)
   }"

section \<open>Scans that do not fault\<close>

text \<open>
  The modules that are OK have a scan function, which returns a report and a status that the comparison
  handles; the listeners leave the list of listeners alone; the clock can be read.
\<close>

definition behaved_modules :: "'w module_manager \<Rightarrow> bool" where
  "behaved_modules mm \<longleftrightarrow> (\<forall>m \<in> set (mm_modules mm). mod_status m = A6O_MOD_OK \<longrightarrow>
    (\<exists>f. mod_scan_fun m = Some f
      \<and> (\<forall>i fd p t w. \<exists>st rep w'. f i fd p t w = ((st, Some rep), w') \<and> ranked st)))"

definition behaved_env :: "'w scan_env \<Rightarrow> bool" where
  "behaved_env env \<longleftrightarrow> behaved_modules (se_mm env)
    \<and> (\<exists>f. se_call env = (\<lambda>c ev d (s, w). Some (s, f c ev d w)))
    \<and> (\<forall>w. se_gettimeofday env w \<noteq> None)"

definition sound_state :: "'w scan_env \<Rightarrow> 'w scan_state \<Rightarrow> bool" where
  "sound_state env s \<longleftrightarrow> cache_sound (se_mm env) (ss_conf s) \<and> typed_modules (se_mm env) (ss_conf s)
    \<and> (\<exists>ls. listens (ss_source s) ls)"

lemma sound_state_frame [frame_simps, simp]:
  "sound_state env (s\<lparr>ss_od := od\<rparr>) = sound_state env s"
  "sound_state env (s\<lparr>ss_world := w\<rparr>) = sound_state env s"
  by (simp_all add: sound_state_def)

text \<open>A report of a detection names the module and has its report.\<close>

definition complete_report :: "a6o_report \<Rightarrow> bool" where
  "complete_report r \<longleftrightarrow> (rep_status r = A6O_FILE_MALWARE \<or> rep_status r = A6O_FILE_SUSPICIOUS
    \<longrightarrow> rep_module_name r \<noteq> None \<and> rep_module_report r \<noteq> None)"

lemma complete_report_change:
  "complete_report (a6o_report_change r st (Some n) (Some m))"
  "st \<noteq> A6O_FILE_MALWARE \<Longrightarrow> st \<noteq> A6O_FILE_SUSPICIOUS \<Longrightarrow> complete_report (a6o_report_change r st a b)"
  "complete_report (a6o_report_init p)"
  by (simp_all add: complete_report_def)

lemma scan_apply_total:
  assumes "behaved_modules mm" "\<forall>i \<in> set is. i < length (mm_modules mm)"
    and "ranked cur" "complete_report r" "rep_path r = p" "rep_status r = cur"
  shows "\<exists>st r' w'. scan_apply_modules os mm fd path mime is cur (Some r) w = Some ((st, Some r'), w')
    \<and> complete_report r' \<and> rep_path r' = p \<and> (st = rep_status r' \<or> st = A6O_FILE_IERROR)"
  using assms(2-)
proof (induction "is" arbitrary: cur r w)
  case (Cons i "is")
  show ?case
  proof (cases "mod_status (mm_modules mm ! i) = A6O_MOD_OK")
    case False
    with Cons show ?thesis by simp
  next
    case True
    with Cons.prems(1) assms(1) obtain f where f: "mod_scan_fun (mm_modules mm ! i) = Some f"
        "\<And>i fd p t w. \<exists>st rep w'. f i fd p t w = ((st, Some rep), w') \<and> ranked st"
      by (auto simp: behaved_modules_def)
    obtain off w1 where seek: "so_lseek os fd w = (off, w1)" by force
    obtain st rep w2 where call: "f i fd path mime w1 = ((st, Some rep), w2)" "ranked st"
      using f(2) by blast
    have cmp: "a6o_file_status_cmp cur st = Some (if rank cur < rank st then -1 else if rank st < rank cur then 1 else 0)"
      by (simp add: file_status_cmp_ranked Cons.prems(2) call(2))
    let ?c = "if rank cur < rank st then st else cur"
    let ?r = "if rank cur < rank st then a6o_report_change r st (Some (mod_name (mm_modules mm ! i))) (Some rep) else r"
    have stp: "ranked ?c" "complete_report ?r" "rep_path ?r = p" "rep_status ?r = ?c"
      using Cons.prems call(2) by (simp_all add: complete_report_change)
    from Cons.IH [OF _ this, of w2] Cons.prems True seek f(1) call cmp stp show ?thesis
      by (auto simp: Let_def)
  qed
qed auto

lemma applicable_bound:
  "typed_modules mm conf \<Longrightarrow> applicable mm conf t = Some mods \<Longrightarrow> \<forall>i \<in> set mods. i < length (mm_modules mm)"
  by (auto simp: applicable_def typed_modules_def Let_def split: if_splits)

lemma scan_report_total:
  assumes "behaved_env env" "sound_state env s"
  shows "\<exists>ctx r s'. scan_report env (Some p) s = Some (ctx, r, s') \<and> sound_state env s'
    \<and> ss_od s' = ss_od s \<and> complete_report r \<and> rep_path r = Some p \<and> ctx_fields ctx \<noteq> None"
proof -
  have sound: "cache_sound (se_mm env) (ss_conf s)" "typed_modules (se_mm env) (ss_conf s)" "\<exists>ls. listens (ss_source s) ls"
    using assms(2) by (auto simp: sound_state_def)
  obtain ctx conf report w where get:
      "a6o_scan_context_get (se_os env) (se_mm env) stack_context (-1) (Some p) (ss_conf s)
         (Some (a6o_report_init (Some p))) (ss_world s) = Some ((ctx, conf, report), w)"
      "cache_sound (se_mm env) conf" "typed_modules (se_mm env) conf" "ctx_fields ctx \<noteq> None"
    and kind: "case ctx_status ctx of
         A6O_SC_MUST_SCAN \<Rightarrow>
           (\<exists>f t mods. ctx_fields ctx = Some f \<and> 0 \<le> cx_fd f \<and> cx_path f = Some p \<and> cx_mime_type f = Some t
             \<and> cx_applicable_modules f = Some mods \<and> applicable (se_mm env) (ss_conf s) t = Some mods)
           \<and> report = Some (a6o_report_init (Some p))
       | A6O_SC_WHITE_LISTED_DIRECTORY \<Rightarrow>
           (\<exists>q. Some p = Some q \<and> a6o_scan_conf_is_white_listed (ss_conf s) q)
           \<and> report = change_opt (Some (a6o_report_init (Some p))) A6O_FILE_WHITE_LISTED
       | A6O_SC_FILE_TYPE_NOT_SCANNED \<Rightarrow> report = change_opt (Some (a6o_report_init (Some p))) A6O_FILE_UNKNOWN_TYPE
       | A6O_SC_FILE_OPEN_ERROR \<Rightarrow>
           (-1 :: int) < 0 \<and> report = change_opt (Some (a6o_report_init (Some p))) A6O_FILE_IERROR
       | _ \<Rightarrow> False"
    using context_get_classified [OF sound(1,2), of "se_os env" stack_context "-1" "Some p"
        "Some (a6o_report_init (Some p))" "ss_world s"] by fastforce
  let ?s = "s\<lparr>ss_conf := conf, ss_world := w\<rparr>"
  have s: "sound_state env ?s"
    using get(2,3) sound(3) by (simp add: sound_state_def)
  show ?thesis
  proof (cases "ctx_status ctx = A6O_SC_MUST_SCAN")
    case True
    with kind obtain f t mods where f: "ctx_fields ctx = Some f" "cx_mime_type f = Some t"
        "cx_applicable_modules f = Some mods" "applicable (se_mm env) (ss_conf s) t = Some mods"
        "report = Some (a6o_report_init (Some p))"
      by auto
    obtain st r w1 where "scan_apply_modules (se_os env) (se_mm env) (cx_fd f) (cx_path f) t mods
        A6O_FILE_UNDECIDED (Some (a6o_report_init (Some p))) w = Some ((st, Some r), w1)"
        "complete_report r" "rep_path r = Some p"
      using scan_apply_total [of "se_mm env" mods A6O_FILE_UNDECIDED "a6o_report_init (Some p)" "Some p"
          "se_os env" "cx_fd f" "cx_path f" t w] assms(1) applicable_bound [OF sound(2) f(4)]
      by (auto simp: behaved_env_def ranked_def complete_report_def)
    with True get f s show ?thesis
      by (simp add: scan_report_def a6o_scan_context_scan_def)
  next
    case False
    with kind obtain r where "report = Some r" "complete_report r" "rep_path r = Some p"
      by (auto simp: change_opt_def complete_report_change split: a6o_scan_context_status.splits)
    with False get s show ?thesis
      by (auto simp: scan_report_def process_error_def Let_def)
  qed
qed

lemma fire_total:
  assumes "behaved_env env" "sound_state env s" "a6o_event_new (se_time env (ss_world s)) u \<noteq> None"
  shows "\<exists>s'. fire env u s = Some s' \<and> sound_state env s' \<and> ss_od s' = ss_od s"
proof -
  obtain f where f: "se_call env = (\<lambda>c ev d (s, w). Some (s, f c ev d w))"
    using assms(1) by (auto simp: behaved_env_def)
  obtain ls where ls: "listens (ss_source s) ls"
    using assms(2) by (auto simp: sound_state_def)
  obtain ev where ev: "a6o_event_new (se_time env (ss_world s)) u = Some ev"
    using assms(3) by blast
  have "a6o_event_source_fire_event (se_call env) (ss_source s) ev (ss_world s)
      = Some (ss_source s, notify f ev ls (ss_world s))"
    using ls fire_loop_notify [of "ss_source s" "src_callbacks (ss_source s)" _ ls f ev "ss_world s"]
    by (auto simp: listens_def a6o_event_source_fire_event_def f)
  with assms(2) ev show ?thesis
    by (simp add: fire_def)
qed

lemma event_new_defined:
  "a6o_event_new now (Ev_on_demand_progress e) \<noteq> None \<longleftrightarrow> prg_path e \<noteq> None"
  "a6o_event_new now (Ev_detection d) \<noteq> None \<longleftrightarrow>
     det_path d \<noteq> None \<and> det_module_name d \<noteq> None \<and> det_module_report d \<noteq> None"
  "a6o_event_new now (Ev_on_demand_start b) \<noteq> None \<longleftrightarrow> sta_root_path b \<noteq> None"
  "a6o_event_new now (Ev_on_demand_completed c) \<noteq> None"
  by (auto simp: a6o_event_new_def on_demand_progress_event_clone_def detection_event_clone_def
      on_demand_start_event_clone_def on_demand_completed_event_clone_def os_strdup_def
      split: bind_splits option.splits)

lemma progress_fields_same:
  "\<exists>t v. od = od\<lparr>od_last_progress_time := t, od_last_progress_value := v\<rparr>"
  by (intro exI [of _ "od_last_progress_time od"] exI [of _ "od_last_progress_value od"]) simp

lemma update_progress_total:
  assumes "behaved_env env" "sound_state env s" "rep_path r = Some p"
  shows "\<exists>s'. update_progress env r s = Some s' \<and> sound_state env s'
    \<and> (\<exists>t v. ss_od s' = (ss_od s)\<lparr>od_last_progress_time := t, od_last_progress_value := v\<rparr>)"
proof -
  obtain now where now: "get_milliseconds env (ss_world s) = Some now"
    using assms(1) by (fastforce simp: behaved_env_def get_milliseconds_def split: option.splits)
  obtain s1 where "fire_progress_event env r (progress_value (ss_od s)) s = Some s1" "sound_state env s1"
      "ss_od s1 = ss_od s"
    using fire_total [OF assms(1,2)] assms(3) event_new_defined(1)
    unfolding fire_progress_event_def by (metis a6o_on_demand_progress_event.select_convs(3) option.simps(3))
  with now assms(2) show ?thesis
    using progress_fields_same [of "ss_od s"] by (auto simp: update_progress_def Let_def)
qed

lemma context_destroy_total:
  assumes "ctx_fields ctx \<noteq> None"
  shows "\<exists>freed w'. a6o_scan_context_destroy os ctx w = Some (freed, w')"
proof -
  obtain f where "ctx_fields ctx = Some f"
    using assms by blast
  then show ?thesis
    by (cases "so_close os (cx_fd f) w") (simp add: a6o_scan_context_destroy_def a6o_scan_context_close_def)
qed

lemma scan_file_total:
  assumes "behaved_env env" "sound_state env s"
  shows "\<exists>s' r. scan_file env (Some p) s = Some s' \<and> sound_state env s'
    \<and> (\<exists>t v. ss_od s' = (update_counters (ss_od s) r)\<lparr>od_last_progress_time := t, od_last_progress_value := v\<rparr>)"
proof -
  obtain ctx r s1 where rep: "scan_report env (Some p) s = Some (ctx, r, s1)" "sound_state env s1"
      "ss_od s1 = ss_od s" "complete_report r" "rep_path r = Some p" "ctx_fields ctx \<noteq> None"
    using scan_report_total [OF assms] by blast
  let ?d = "\<lparr>det_context = CONTEXT_ON_DEMAND, det_scan_id = od_scan_id (ss_od s1), det_path = rep_path r,
       det_scan_status = rep_status r, det_scan_action = rep_action r,
       det_module_name = rep_module_name r, det_module_report = rep_module_report r\<rparr>"
  let ?bad = "rep_status r = A6O_FILE_MALWARE \<or> rep_status r = A6O_FILE_SUSPICIOUS"
  have det: "a6o_event_new now (Ev_detection ?d) \<noteq> None" if ?bad for now
    using that rep(4,5) unfolding event_new_defined by (auto simp: complete_report_def)
  obtain s2 where s2: "(if ?bad \<and> rep_path r \<noteq> None then fire_detection_event env r s1 else Some s1) = Some s2"
      "sound_state env s2" "ss_od s2 = ss_od s1"
  proof (cases ?bad)
    case True
    with fire_total [OF assms(1) rep(2) det [OF True]] rep(5) that show ?thesis
      by (auto simp: fire_detection_event_def)
  qed (use rep(2) that in auto)
  let ?s3 = "s2\<lparr>ss_od := update_counters (ss_od s2) r\<rparr>"
  obtain s4 t v where s4: "update_progress env r ?s3 = Some s4" "sound_state env s4"
      "ss_od s4 = (update_counters (ss_od s2) r)\<lparr>od_last_progress_time := t, od_last_progress_value := v\<rparr>"
    using update_progress_total [OF assms(1), of ?s3 r p] s2(2) rep(5) by auto
  obtain freed w where "a6o_scan_context_destroy (se_os env) ctx (ss_world s4) = Some (freed, w)"
    using context_destroy_total [OF rep(6), of "se_os env" "ss_world s4"] by blast
  with rep s2 s4 have "scan_file env (Some p) s = Some (s4\<lparr>ss_world := w\<rparr>)"
    by (simp add: scan_file_def)
  with rep(3) s2(3) s4(2,3) show ?thesis
    by (intro exI [of _ "s4\<lparr>ss_world := w\<rparr>"] exI [of _ r]) auto
qed

text \<open>The part of a scan that counts files.\<close>

definition counts_grow :: "a6o_on_demand \<Rightarrow> nat \<Rightarrow> a6o_on_demand \<Rightarrow> bool" where
  "counts_grow od n od' \<longleftrightarrow> od_scanned_count od' = od_scanned_count od + n
    \<and> od_malware_count od \<le> od_malware_count od' \<and> od_suspicious_count od \<le> od_suspicious_count od'
    \<and> od_malware_count od' + od_suspicious_count od' \<le> od_malware_count od + od_suspicious_count od + n
    \<and> od_root_path od' = od_root_path od \<and> od_flags od' = od_flags od
    \<and> od_progress_period od' = od_progress_period od \<and> od_to_scan_count od' = od_to_scan_count od
    \<and> od_count_thread od' = od_count_thread od"

lemma counts_grow_refl [simp]: "counts_grow od 0 od"
  by (simp add: counts_grow_def)

lemma counts_grow_trans: "counts_grow od n od1 \<Longrightarrow> counts_grow od1 k od2 \<Longrightarrow> counts_grow od (n + k) od2"
  by (auto simp: counts_grow_def)

lemma update_counters_grow:
  "counts_grow od 1 ((update_counters od r)\<lparr>od_last_progress_time := t, od_last_progress_value := v\<rparr>)"
  "od_thread_pool (update_counters od r) = od_thread_pool od"
  by (auto simp: counts_grow_def update_counters_def Let_def split: a6o_file_status.splits)

lemma scan_file_counts:
  assumes "behaved_env env" "sound_state env s"
  shows "\<exists>s'. scan_file env (Some p) s = Some s' \<and> sound_state env s'
    \<and> counts_grow (ss_od s) 1 (ss_od s') \<and> od_thread_pool (ss_od s') = od_thread_pool (ss_od s)"
  using scan_file_total [OF assms, of p] update_counters_grow by fastforce

lemma pool_tasks_counts:
  assumes "behaved_env env" "sound_state env s"
  shows "\<exists>s'. pool_tasks env ps s = Some s' \<and> sound_state env s'
    \<and> counts_grow (ss_od s) (length ps) (ss_od s') \<and> od_thread_pool (ss_od s') = od_thread_pool (ss_od s)"
  using assms(2)
proof (induction ps arbitrary: s)
  case (Cons p ps)
  obtain s1 where s1: "scan_file env (Some p) s = Some s1" "sound_state env s1"
      "counts_grow (ss_od s) 1 (ss_od s1)" "od_thread_pool (ss_od s1) = od_thread_pool (ss_od s)"
    using scan_file_counts [OF assms(1) Cons.prems] by blast
  obtain s2 where s2: "pool_tasks env ps s1 = Some s2" "sound_state env s2"
      "counts_grow (ss_od s1) (length ps) (ss_od s2)" "od_thread_pool (ss_od s2) = od_thread_pool (ss_od s1)"
    using Cons.IH [OF s1(2)] by blast
  have "pool_tasks env (p # ps) s = Some s2"
    using s1(1) s2(1) by (simp add: scan_entry_thread_fun_def)
  with s1 s2 counts_grow_trans [OF s1(3) s2(3)] show ?case
    by (intro exI [of _ s2]) simp
qed simp

section \<open>Traversals\<close>

text \<open>The plain files of a traversal.\<close>

definition plain_calls :: "(cstr \<times> u32 \<times> int) list \<Rightarrow> nat" where
  "plain_calls cs = length (filter (\<lambda>(p, fl, e). has_flag fl FILE_FLAG_IS_PLAIN_FILE) cs)"

lemma plain_calls_simps [simp]:
  "plain_calls [] = 0"
  "plain_calls ((p, fl, e) # cs) = (if has_flag fl FILE_FLAG_IS_PLAIN_FILE then 1 else 0) + plain_calls cs"
  by (simp_all add: plain_calls_def)

lemma plain_calls_append [simp]: "plain_calls (xs @ ys) = plain_calls xs + plain_calls ys"
  by (simp add: plain_calls_def)

lemma run_count_entry: "run_calls count_entry cs n = Some (n + plain_calls cs)"
  by (induction cs arbitrary: n) (auto simp: count_entry_def)

lemma flags_disjoint [simp]:
  "\<not> has_flag FILE_FLAG_IS_ERROR FILE_FLAG_IS_PLAIN_FILE"
  "has_flag FILE_FLAG_IS_ERROR FILE_FLAG_IS_ERROR"
  "\<not> has_flag FILE_FLAG_IS_DIRECTORY FILE_FLAG_IS_PLAIN_FILE"
  "has_flag FILE_FLAG_IS_DIRECTORY FILE_FLAG_IS_DIRECTORY"
  "has_flag FILE_FLAG_IS_PLAIN_FILE FILE_FLAG_IS_PLAIN_FILE"
  "\<not> has_flag FILE_FLAG_IS_PLAIN_FILE FILE_FLAG_IS_ERROR"
  by (simp_all add: has_flag_def file_flag_defs)

text \<open>A plain file of a traversal whose paths resolve has a path and no error flag.\<close>

definition resolved_call :: "cstr \<times> u32 \<times> int \<Rightarrow> bool" where
  "resolved_call c \<longleftrightarrow> (case c of (p, fl, e) \<Rightarrow>
    has_flag fl FILE_FLAG_IS_PLAIN_FILE \<longrightarrow> p \<noteq> None \<and> \<not> has_flag fl FILE_FLAG_IS_ERROR)"

lemma walk_resolved:
  shows "(\<And>p. realpath p \<noteq> None) \<Longrightarrow> \<forall>c \<in> set (walk realpath recurse path d). resolved_call c"
    and "(\<And>p. realpath p \<noteq> None) \<Longrightarrow> \<forall>c \<in> set (walk_entries realpath recurse path es err). resolved_call c"
proof (induction realpath recurse path d and realpath recurse path es err rule: walk_walk_entries.induct)
  case (6 realpath recurse path name t es err)
  then show ?case
    by (cases t) (auto simp: resolved_call_def dirent_flags_def has_flag_def file_flag_defs)
qed (auto simp: resolved_call_def)

lemma run_scan_entry:
  assumes "behaved_env env" "sound_state env s" "\<not> has_flag (od_flags (ss_od s)) A6O_SCAN_THREADED"
    and "\<forall>c \<in> set cs. resolved_call c"
  shows "\<exists>s'. run_calls (scan_entry env) cs s = Some s' \<and> sound_state env s'
    \<and> counts_grow (ss_od s) (plain_calls cs) (ss_od s') \<and> od_thread_pool (ss_od s') = od_thread_pool (ss_od s)"
  using assms(2-)
proof (induction cs arbitrary: s)
  case (Cons c cs)
  obtain p fl e where c: "c = (p, fl, e)" by (cases c) auto
  show ?case
  proof (cases "has_flag fl FILE_FLAG_IS_PLAIN_FILE")
    case False
    then obtain r where "scan_entry env p fl e s = Some (r, s)"
      by (auto simp: scan_entry_def a6o_on_demand_is_cancelled_def process_error_def)
    with Cons.IH [OF Cons.prems(1,2)] Cons.prems(3) c False show ?thesis
      by simp
  next
    case True
    then obtain q where q: "p = Some q" "\<not> has_flag fl FILE_FLAG_IS_ERROR"
      using Cons.prems(3) c by (auto simp: resolved_call_def)
    obtain s1 where s1: "scan_file env (Some q) s = Some s1" "sound_state env s1"
        "counts_grow (ss_od s) 1 (ss_od s1)" "od_thread_pool (ss_od s1) = od_thread_pool (ss_od s)"
      using scan_file_counts [OF assms(1) Cons.prems(1)] by blast
    have step: "scan_entry env p fl e s = Some (0, s1)"
      using True q s1(1) Cons.prems(2) by (simp add: scan_entry_def a6o_on_demand_is_cancelled_def)
    have "\<not> has_flag (od_flags (ss_od s1)) A6O_SCAN_THREADED"
      using s1(3) Cons.prems(2) by (simp add: counts_grow_def)
    then obtain s2 where s2: "run_calls (scan_entry env) cs s1 = Some s2" "sound_state env s2"
        "counts_grow (ss_od s1) (plain_calls cs) (ss_od s2)" "od_thread_pool (ss_od s2) = od_thread_pool (ss_od s1)"
      using Cons.IH [OF s1(2)] Cons.prems(3) by auto
    from counts_grow_trans [OF s1(3) s2(3)] step s1 s2 c True show ?thesis
      by (intro exI [of _ s2]) simp
  qed
qed simp

text \<open>In a threaded scan the traversal only queues the plain files.\<close>

lemma run_scan_entry_threaded:
  assumes "has_flag (od_flags (ss_od s)) A6O_SCAN_THREADED" "\<forall>c \<in> set cs. resolved_call c"
  shows "\<exists>ps. length ps = plain_calls cs \<and> run_calls (scan_entry env) cs s
    = Some (s\<lparr>ss_od := (ss_od s)\<lparr>od_thread_pool := od_thread_pool (ss_od s) @ ps\<rparr>\<rparr>)"
  using assms
proof (induction cs arbitrary: s)
  case (Cons c cs)
  obtain p fl e where c: "c = (p, fl, e)" by (cases c) auto
  show ?case
  proof (cases "has_flag fl FILE_FLAG_IS_PLAIN_FILE")
    case False
    then obtain r where "scan_entry env p fl e s = Some (r, s)"
      by (auto simp: scan_entry_def a6o_on_demand_is_cancelled_def process_error_def)
    with Cons.IH [of s] Cons.prems c False show ?thesis
      by simp
  next
    case True
    then obtain q where q: "p = Some q" "\<not> has_flag fl FILE_FLAG_IS_ERROR"
      using Cons.prems(2) c by (auto simp: resolved_call_def)
    let ?s = "s\<lparr>ss_od := (ss_od s)\<lparr>od_thread_pool := od_thread_pool (ss_od s) @ [q]\<rparr>\<rparr>"
    have step: "scan_entry env p fl e s = Some (0, ?s)"
      using True q Cons.prems(1) by (simp add: scan_entry_def a6o_on_demand_is_cancelled_def)
    obtain ps where "length ps = plain_calls cs" "run_calls (scan_entry env) cs ?s
        = Some (?s\<lparr>ss_od := (ss_od ?s)\<lparr>od_thread_pool := od_thread_pool (ss_od ?s) @ ps\<rparr>\<rparr>)"
      using Cons.IH [of ?s] Cons.prems by auto
    with step c True show ?thesis
      by (intro exI [of _ "q # ps"]) simp
  qed
qed (auto intro: exI [of _ "[]"])

lemma scan_entries_then_pool:
  assumes "behaved_env env" "sound_state env s" "od_thread_pool (ss_od s) = []"
    and "\<forall>c \<in> set cs. resolved_call c"
  shows "\<exists>s1 s2. run_calls (scan_entry env) cs s = Some s1
    \<and> (if has_flag (od_flags (ss_od s1)) A6O_SCAN_THREADED then g_thread_pool_free env s1 else Some s1) = Some s2
    \<and> sound_state env s2 \<and> counts_grow (ss_od s) (plain_calls cs) (ss_od s2) \<and> od_thread_pool (ss_od s2) = []"
proof (cases "has_flag (od_flags (ss_od s)) A6O_SCAN_THREADED")
  case False
  with run_scan_entry [OF assms(1,2) False assms(4)] assms(3) show ?thesis
    by (auto simp: counts_grow_def)
next
  case True
  obtain ps where ps: "length ps = plain_calls cs" "run_calls (scan_entry env) cs s
      = Some (s\<lparr>ss_od := (ss_od s)\<lparr>od_thread_pool := ps\<rparr>\<rparr>)"
    using run_scan_entry_threaded [OF True assms(4), of env] assms(3) by auto
  let ?s = "s\<lparr>ss_od := (ss_od s)\<lparr>od_thread_pool := []\<rparr>\<rparr>"
  have same: "?s = s"
    using assms(3) by (metis (full_types) a6o_on_demand.surjective a6o_on_demand.update_convs(5)
        scan_state.surjective scan_state.update_convs(1))
  obtain s2 where "pool_tasks env ps s = Some s2" "sound_state env s2"
      "counts_grow (ss_od s) (length ps) (ss_od s2)" "od_thread_pool (ss_od s2) = []"
    using pool_tasks_counts [OF assms(1,2), of ps] assms(3) by auto
  with ps True same show ?thesis
    by (simp add: g_thread_pool_free_def)
qed

text \<open>The number of plain files of a tree.\<close>

fun file_count :: "bool \<Rightarrow> fs_dir \<Rightarrow> nat"
  and entry_file_count :: "bool \<Rightarrow> fs_entry \<Rightarrow> nat"
  where
  "file_count recurse (Unreadable e) = 0"
| "file_count recurse (Readable es err) = sum_list (map (entry_file_count recurse) es)"
| "entry_file_count recurse (SubDir name d) = (if recurse \<and> \<not> dot_name name then file_count recurse d else 0)"
| "entry_file_count recurse (Other name t) = (if t = DT_REG then 1 else 0)"

lemma le_div_iff: "0 < (t :: int) \<Longrightarrow> k \<le> m div t \<longleftrightarrow> k * t \<le> m"
proof -
  assume t: "0 < t"
  have "k \<le> m div t \<longleftrightarrow> k * t \<le> m div t * t"
    using t by simp
  also have "\<dots> \<longleftrightarrow> k * t \<le> m"
  proof
    assume "k * t \<le> m div t * t"
    moreover have "m div t * t \<le> m"
      using t by (simp add: minus_mod_eq_div_mult [symmetric])
    ultimately show "k * t \<le> m" by simp
  next
    assume "k * t \<le> m"
    then have "(k * t) div t \<le> m div t"
      using t by (rule zdiv_mono1)
    then show "k * t \<le> m div t * t"
      using t by simp
  qed
  finally show "k \<le> m div t \<longleftrightarrow> k * t \<le> m" .
qed

lemma plain_calls_walk:
  "plain_calls (walk realpath recurse path d) = file_count recurse d"
  "plain_calls (walk_entries realpath recurse path es err) = sum_list (map (entry_file_count recurse) es)"
proof (induction realpath recurse path d and realpath recurse path es err rule: walk_walk_entries.induct)
  case (6 realpath recurse path name t es err)
  then show ?case
    by (cases t) (auto simp: dirent_flags_def has_flag_def file_flag_defs)
qed auto

lemma count_thread_readable:
  assumes "readable (has_flag (od_flags od) A6O_SCAN_RECURSE) (se_dir env (od_root_path od))"
  shows "count_thread_fun env od = Some (od\<lparr>od_to_scan_count :=
    file_count (has_flag (od_flags od) A6O_SCAN_RECURSE) (se_dir env (od_root_path od))\<rparr>)"
  by (simp add: count_thread_fun_def map_readable(1) [OF assms] run_count_entry plain_calls_walk)

lemma start_event_total:
  assumes "behaved_env env" "sound_state env s"
  shows "\<exists>s'. fire_on_demand_start_event env s = Some s' \<and> sound_state env s' \<and> ss_od s' = ss_od s"
    and "\<exists>s'. fire_on_demand_completed_event env s = Some s' \<and> sound_state env s' \<and> ss_od s' = ss_od s"
  unfolding fire_on_demand_start_event_def fire_on_demand_completed_event_def
  by (rule fire_total [OF assms], unfold event_new_defined, simp)
     (rule fire_total [OF assms event_new_defined(4)])

lemma milliseconds_total:
  "behaved_env env \<Longrightarrow> \<exists>n. get_milliseconds env w = Some n"
  by (fastforce simp: behaved_env_def get_milliseconds_def split: option.splits)

lemma scan_root_then_pool:
  fixes env :: "'w scan_env" and late :: bool
  assumes "behaved_env env" "sound_state env s" "od_thread_pool (ss_od s) = []" "\<not> od_count_thread (ss_od s)"
    and stat: "se_stat env (od_root_path (ss_od s)) = Inr (S_IFDIR, sz)"
    and readable: "readable (has_flag (od_flags (ss_od s)) A6O_SCAN_RECURSE) (se_dir env (od_root_path (ss_od s)))"
    and paths: "\<And>p. se_realpath env p \<noteq> None"
  defines "n \<equiv> file_count (has_flag (od_flags (ss_od s)) A6O_SCAN_RECURSE) (se_dir env (od_root_path (ss_od s)))"
    and "progress \<equiv> od_progress_period (ss_od s) \<noteq> 0"
  shows "\<exists>s1 s2. scan_root env late s = Some s1
    \<and> (if has_flag (od_flags (ss_od s1)) A6O_SCAN_THREADED then g_thread_pool_free env s1 else Some s1) = Some s2
    \<and> sound_state env s2 \<and> od_thread_pool (ss_od s2) = []
    \<and> counts_grow ((ss_od s)\<lparr>od_count_thread := progress,
        od_to_scan_count := if progress \<and> \<not> late then n else od_to_scan_count (ss_od s)\<rparr>) n (ss_od s2)"
proof -
  let ?od = "(ss_od s)\<lparr>od_count_thread := progress,
        od_to_scan_count := if progress \<and> \<not> late then n else od_to_scan_count (ss_od s)\<rparr>"
  let ?walk = "walk (se_realpath env) (has_flag (od_flags (ss_od s)) A6O_SCAN_RECURSE) (od_root_path (ss_od s))
      (se_dir env (od_root_path (ss_od s)))"
  have fl: "stat_flags env (od_root_path (ss_od s)) = FILE_FLAG_IS_DIRECTORY"
    by (simp add: stat_flags_def os_file_stat_def os_file_stat_of_def stat fill_stat_def)
  have od: "(if progress
        then (if late then Some ((ss_od s)\<lparr>od_count_thread := True\<rparr>)
              else count_thread_fun env ((ss_od s)\<lparr>od_count_thread := True\<rparr>))
        else Some (ss_od s)) = Some ?od"
    using assms(4) readable by (cases "ss_od s") (auto simp: count_thread_readable n_def)
  obtain s1 s2 where run: "run_calls (scan_entry env) ?walk (s\<lparr>ss_od := ?od\<rparr>) = Some s1"
      "(if has_flag (od_flags (ss_od s1)) A6O_SCAN_THREADED then g_thread_pool_free env s1 else Some s1) = Some s2"
      "sound_state env s2" "counts_grow ?od (plain_calls ?walk) (ss_od s2)" "od_thread_pool (ss_od s2) = []"
    using scan_entries_then_pool [OF assms(1), of "s\<lparr>ss_od := ?od\<rparr>" ?walk] assms(2,3)
      walk_resolved(1) [of "se_realpath env", OF paths] by auto
  have "scan_root env late s = Some s1"
    using od readable run(1)
    by (simp add: scan_root_def fl Let_def progress_def [symmetric] map_readable(1) del: os_dir_map.simps)
  with run show ?thesis
    by (auto simp: plain_calls_walk n_def)
qed

section \<open>Properties\<close>


definition quiet_env :: "nat scan_env" where
  "quiet_env = \<lparr>se_os = null_os, se_mm = \<lparr>mm_modules = []\<rparr>, se_call = (\<lambda>c ev d (s, w). Some (s, w)),
     se_time = (\<lambda>w. 0), se_gettimeofday = (\<lambda>w. Some (1, 0)), se_realpath = Some,
     se_stat = (\<lambda>p. Inr (S_IFDIR, 0)),
     se_dir = (\<lambda>p. Readable [Other ''f'' DT_REG, SubDir ''d'' (Readable [Other ''g'' DT_REG] None)] None)\<rparr>"

definition quiet_state :: "nat scan_state" where
  "quiet_state =
    \<lparr>ss_od = (case fst (a6o_on_demand_new Some \<lparr>on_demand_conf = None, on_access_conf = None\<rparr> ''/x'' 7
                A6O_SCAN_RECURSE True) of Some (od, c) \<Rightarrow> od),
     ss_conf = a6o_scan_conf_new ''x'', ss_source = a6o_event_source_new, ss_world = 0\<rparr>"

lemma quiet_simps:
  "behaved_env quiet_env" "sound_state quiet_env quiet_state"
  "od_scanned_count (ss_od quiet_state) = 0" "od_thread_pool (ss_od quiet_state) = []"
  "\<not> od_count_thread (ss_od quiet_state)" "has_flag (od_flags (ss_od quiet_state)) A6O_SCAN_RECURSE"
  "se_stat quiet_env p = Inr (S_IFDIR, 0)" "se_realpath quiet_env p = Some p"
  "se_dir quiet_env p = Readable [Other ''f'' DT_REG, SubDir ''d'' (Readable [Other ''g'' DT_REG] None)] None"
  using listens_new
  by (auto simp: quiet_env_def quiet_state_def behaved_env_def behaved_modules_def sound_state_def cache_sound_def
      typed_modules_def a6o_on_demand_new_def a6o_scan_conf_on_demand_def get_conf_def a6o_scan_conf_new_def
      has_flag_def scan_flag_defs Let_def intro!: exI [of _ "\<lambda>c ev d w. w"])


text \<open>
  C21: the percentage. While there is something to scan it lies between 0 and 100, is 100 exactly when
  as many files were scanned as were counted, and never decreases as files are scanned.
\<close>

theorem progress_is_percentage:
  assumes "0 < od_to_scan_count od"
  shows "0 \<le> progress_value od \<and> progress_value od \<le> 100
    \<and> (progress_value od = 100 \<longleftrightarrow> od_to_scan_count od \<le> od_scanned_count od)
    \<and> progress_value od \<le> progress_value (update_counters od r)"
proof -
  let ?s = "int (od_scanned_count od)" and ?t = "int (od_to_scan_count od)"
  have t: "0 < ?t"
    using assms by simp
  have "100 \<le> (100 * ?s) div ?t \<longleftrightarrow> 100 * ?t \<le> 100 * ?s"
    using t by (rule le_div_iff)
  moreover have "(100 * ?s) div ?t \<le> (100 * (?s + 1)) div ?t"
    using t by (intro zdiv_mono1) auto
  moreover have "0 \<le> (100 * ?s) div ?t"
    using t by (simp add: pos_imp_zdiv_nonneg_iff)
  moreover have "od_scanned_count (update_counters od r) = od_scanned_count od + 1"
      "od_to_scan_count (update_counters od r) = od_to_scan_count od"
    by (simp_all add: update_counters_def Let_def split: a6o_file_status.splits)
  ultimately show ?thesis
    by (auto simp: progress_value_def Let_def algebra_simps)
qed

theorem progress_is_percentage_witness:
  "progress_value ((ss_od quiet_state)\<lparr>od_to_scan_count := 3, od_scanned_count := 3\<rparr>) = 100"
  using progress_is_percentage [of "(ss_od quiet_state)\<lparr>od_to_scan_count := 3, od_scanned_count := 3\<rparr>"] by simp

text \<open>
  a plain file whose path cannot be resolved, which has disappeared or lies in a directory that is
  not accessible, makes a scan without threads destroy a context that was never filled in.
\<close>

theorem vanished_file_faults:
  assumes "\<not> has_flag (od_flags (ss_od s)) A6O_SCAN_THREADED"
  shows "scan_entry env None FILE_FLAG_IS_PLAIN_FILE e s = None"
proof -
  have "scan_report env None s = Some (\<lparr>ctx_status = A6O_SC_FILE_OPEN_ERROR, ctx_fields = None\<rparr>,
      a6o_report_change (a6o_report_init None) A6O_FILE_IERROR None None, s)"
    by (cases s) (simp add: scan_report_def a6o_scan_context_get_def stack_context_def change_opt_def
        process_error_def Let_def)
  then have "scan_file env None s = None"
    by (auto simp: scan_file_def a6o_scan_context_destroy_def a6o_scan_context_close_def Let_def split: bind_splits)
  with assms show ?thesis
    by (simp add: scan_entry_def a6o_on_demand_is_cancelled_def)
qed

theorem vanished_file_faults_witness:
  "scan_entry quiet_env None FILE_FLAG_IS_PLAIN_FILE 0 quiet_state = None"
  by (rule vanished_file_faults)
     (simp add: quiet_state_def a6o_on_demand_new_def a6o_scan_conf_on_demand_def has_flag_def scan_flag_defs Let_def)

text \<open>
  C22: a subdirectory that cannot be opened hides the rest of its parent. The scan ends there, scanning
  none of the entries that follow, though the counting thread counts them all.
\<close>

theorem unreadable_directory_hides_siblings:
  assumes "\<not> dot_name name" "\<forall>x \<in> set es. readable_entry True x"
  shows "os_dir_map realpath True (scan_entry env) path (Readable (SubDir name (Unreadable e) # es) err) s = Some (0, s)
    \<and> os_dir_map realpath True count_entry path (Readable (SubDir name (Unreadable e) # es) err) n
      = Some (0, n + sum_list (map (entry_file_count True) es))"
  using assms
  by (simp add: scan_entry_def a6o_on_demand_is_cancelled_def process_error_def count_entry_def
      map_readable(2) run_count_entry plain_calls_walk)

theorem unreadable_directory_hides_siblings_witness:
  "os_dir_map Some True (scan_entry quiet_env) ''/d'' (Readable [SubDir ''x'' (Unreadable 13), Other ''f'' DT_REG] None)
      quiet_state = Some (0, quiet_state)
    \<and> os_dir_map Some True count_entry ''/d'' (Readable [SubDir ''x'' (Unreadable 13), Other ''f'' DT_REG] None) 0
      = Some (0, 1)"
  using unreadable_directory_hides_siblings [of "''x''" "[Other ''f'' DT_REG]" Some quiet_env "''/d''" 13 None
      quiet_state 0] by (simp add: dot_name_def)

end
