(* ===== verification/WatchQueue.thy ===== *)
theory WatchQueue
  imports Prelude
begin

text \<open>
  Time stamps and the queue of the descriptors that wait for an answer,
  \<open>libcore/arch/linux/builtin-modules/on-access/stamp.h\<close> and \<open>queue.c\<close>. The queue is a doubly linked
  list of allocated nodes, here a heap of nodes with both pointers; the lemmas relate it to the list of
  its entries. Every operation holds the lock of the queue while it touches the list, so that the
  operations are the steps of any interleaving.
\<close>

section \<open>Time stamps\<close>

record timespec =
  tv_sec :: int
  tv_nsec :: int

definition ONE_MICROSECOND :: int where "ONE_MICROSECOND = 1000"
definition ONE_MILLISECOND :: int where "ONE_MILLISECOND = 1000 * ONE_MICROSECOND"
definition ONE_SECOND :: int where "ONE_SECOND = 1000 * ONE_MILLISECOND"

lemma ONE_SECOND_eq [simp]: "ONE_SECOND = 1000000000"
  by (simp add: ONE_SECOND_def ONE_MILLISECOND_def ONE_MICROSECOND_def)

definition stamp_cmp :: "timespec \<Rightarrow> timespec \<Rightarrow> int" where
  "stamp_cmp s1 s2 =
    (if tv_sec s1 < tv_sec s2 then -1
     else if tv_sec s1 > tv_sec s2 then 1
     else if tv_nsec s1 < tv_nsec s2 then -1
     else if tv_nsec s1 > tv_nsec s2 then 1
     else 0)"

definition stamp_cpy :: "timespec \<Rightarrow> timespec \<Rightarrow> timespec" where
  "stamp_cpy dst src = dst\<lparr>tv_sec := tv_sec src, tv_nsec := tv_nsec src\<rparr>"

definition stamp_add :: "timespec \<Rightarrow> timespec \<Rightarrow> timespec" where
  "stamp_add dst src =
    (let d1 = dst\<lparr>tv_nsec := tv_nsec dst + tv_nsec src\<rparr>;
         d2 = (if tv_nsec d1 \<ge> ONE_SECOND
               then d1\<lparr>tv_nsec := tv_nsec d1 - ONE_SECOND, tv_sec := tv_sec d1 + 1\<rparr> else d1)
     in d2\<lparr>tv_sec := tv_sec d2 + tv_sec src\<rparr>)"

definition stamp_sub :: "timespec \<Rightarrow> timespec \<Rightarrow> timespec" where
  "stamp_sub dst src =
    (let d1 = dst\<lparr>tv_nsec := tv_nsec dst - tv_nsec src\<rparr>;
         d2 = (if tv_nsec d1 < 0
               then d1\<lparr>tv_nsec := tv_nsec d1 + ONE_SECOND, tv_sec := tv_sec d1 - 1\<rparr> else d1)
     in d2\<lparr>tv_sec := tv_sec d2 - tv_sec src\<rparr>)"

text \<open>A stamp as a number of nanoseconds; the kernel gives normalised stamps.\<close>

definition nanoseconds :: "timespec \<Rightarrow> int" where
  "nanoseconds s = tv_sec s * 1000000000 + tv_nsec s"

definition normal_stamp :: "timespec \<Rightarrow> bool" where
  "normal_stamp s \<longleftrightarrow> 0 \<le> tv_nsec s \<and> tv_nsec s < 1000000000"

lemma stamp_arith:
  assumes "normal_stamp d" "normal_stamp s"
  shows "normal_stamp (stamp_add d s)" "nanoseconds (stamp_add d s) = nanoseconds d + nanoseconds s"
    and "normal_stamp (stamp_sub d s)" "nanoseconds (stamp_sub d s) = nanoseconds d - nanoseconds s"
  using assms
  by (auto simp: normal_stamp_def nanoseconds_def stamp_add_def stamp_sub_def Let_def)

lemma stamp_cmp_nanoseconds:
  assumes "normal_stamp s1" "normal_stamp s2"
  shows "stamp_cmp s1 s2 = sgn (nanoseconds s1 - nanoseconds s2)"
  using assms by (auto simp: normal_stamp_def nanoseconds_def stamp_cmp_def sgn_if)

section \<open>The queue\<close>

record queue_entry =
  qe_fd :: int
  qe_timestamp :: timespec

record queue_node =
  qn_entry :: queue_entry
  qn_prev :: "nat option"
  qn_next :: "nat option"

record queue =
  q_head :: "nat option"
  q_tail :: "nat option"
  q_heap :: "nat \<Rightarrow> queue_node option"

definition queue_new :: queue where
  "queue_new = \<lparr>q_head = None, q_tail = None, q_heap = (\<lambda>_. None)\<rparr>"

definition queue_node_new :: "int \<Rightarrow> timespec \<Rightarrow> queue_node" where
  "queue_node_new fd timestamp =
    \<lparr>qn_entry = \<lparr>qe_fd = fd, qe_timestamp = stamp_cpy \<lparr>tv_sec = 0, tv_nsec = 0\<rparr> timestamp\<rparr>,
     qn_prev = None, qn_next = None\<rparr>"

text \<open>Assignments through a pointer; \<open>None\<close> is an access to memory that is not allocated.\<close>

definition set_next :: "nat \<Rightarrow> nat option \<Rightarrow> queue \<Rightarrow> queue option" where
  "set_next a v q = map_option (\<lambda>n. q\<lparr>q_heap := (q_heap q)(a \<mapsto> n\<lparr>qn_next := v\<rparr>)\<rparr>) (q_heap q a)"

definition set_prev :: "nat \<Rightarrow> nat option \<Rightarrow> queue \<Rightarrow> queue option" where
  "set_prev a v q = map_option (\<lambda>n. q\<lparr>q_heap := (q_heap q)(a \<mapsto> n\<lparr>qn_prev := v\<rparr>)\<rparr>) (q_heap q a)"

text \<open>\<open>malloc\<close> returns the address \<open>a\<close>.\<close>

definition queue_push :: "nat \<Rightarrow> queue \<Rightarrow> int \<Rightarrow> timespec \<Rightarrow> queue option" where
  "queue_push a q fd timestamp =
    (let q1 = q\<lparr>q_heap := (q_heap q)(a \<mapsto> queue_node_new fd timestamp)\<rparr>
     in case q_head q1 of
          None \<Rightarrow> Some (q1\<lparr>q_head := Some a, q_tail := Some a\<rparr>)
        | Some h \<Rightarrow> do {
            q2 \<leftarrow> set_prev h (Some a) q1;
            q3 \<leftarrow> set_next a (q_head q2) q2;
            Some (q3\<lparr>q_head := Some a\<rparr>)
          })"

definition queue_remove :: "queue \<Rightarrow> nat \<Rightarrow> queue option" where
  "queue_remove q a = do {
     n \<leftarrow> q_heap q a;
     q1 \<leftarrow> (case qn_prev n of
              Some p \<Rightarrow> set_next p (qn_next n) q
            | None \<Rightarrow> Some (q\<lparr>q_head := qn_next n\<rparr>));
     n1 \<leftarrow> q_heap q1 a;
     (case qn_next n1 of
        Some x \<Rightarrow> set_prev x (qn_prev n1) q1
      | None \<Rightarrow> Some (q1\<lparr>q_tail := qn_prev n1\<rparr>))
   }"

definition free_node :: "nat \<Rightarrow> queue \<Rightarrow> queue" where
  "free_node a q = q\<lparr>q_heap := (q_heap q)(a := None)\<rparr>"

text \<open>\<open>None\<close> is an access to a node that is not allocated, or a loop that does not end.\<close>

partial_function (option) find_fd :: "queue \<Rightarrow> int \<Rightarrow> nat option \<Rightarrow> nat option option" where
  "find_fd q fd p =
    (case p of
       None \<Rightarrow> Some None
     | Some a \<Rightarrow>
       (case q_heap q a of
          None \<Rightarrow> None
        | Some n \<Rightarrow> if qe_fd (qn_entry n) \<noteq> fd then find_fd q fd (qn_next n) else Some (Some a)))"

text \<open>The entry that is popped, if the result is 1.\<close>

definition queue_pop_fd :: "queue \<Rightarrow> int \<Rightarrow> ((int \<times> queue_entry option) \<times> queue) option" where
  "queue_pop_fd q fd = do {
     found \<leftarrow> find_fd q fd (q_head q);
     (case found of
        None \<Rightarrow> Some ((0, None), q)
      | Some a \<Rightarrow> do {
          q1 \<leftarrow> queue_remove q a;
          n \<leftarrow> q_heap q1 a;
          Some ((1, Some (qn_entry n)), free_node a q1)
        })
   }"

text \<open>The loop of \<open>queue_pop_timeout\<close>: nodes to free and entries popped, in order.\<close>

partial_function (option) timeout_loop ::
  "timespec \<Rightarrow> nat \<Rightarrow> nat option \<Rightarrow> nat list \<Rightarrow> queue_entry list \<Rightarrow> queue
    \<Rightarrow> (nat list \<times> queue_entry list \<times> queue) option" where
  "timeout_loop before n_entries p to_free pop_entries q =
    (case p of
       None \<Rightarrow> Some (to_free, pop_entries, q)
     | Some a \<Rightarrow>
       if \<not> length pop_entries < n_entries then Some (to_free, pop_entries, q)
       else
       (case q_heap q a of
          None \<Rightarrow> None
        | Some n \<Rightarrow>
            if stamp_cmp (qe_timestamp (qn_entry n)) before \<le> 0
            then (case queue_remove q a of
                    None \<Rightarrow> None
                  | Some q1 \<Rightarrow>
                    (case q_heap q1 a of
                       None \<Rightarrow> None
                     | Some n1 \<Rightarrow>
                         timeout_loop before n_entries (qn_prev n1) (to_free @ [a]) (pop_entries @ [qn_entry n1]) q1))
            else timeout_loop before n_entries (qn_prev n) to_free pop_entries q))"

definition queue_pop_timeout ::
  "queue \<Rightarrow> timespec \<Rightarrow> nat \<Rightarrow> ((nat \<times> queue_entry list) \<times> queue) option" where
  "queue_pop_timeout q before n_entries = do {
     (to_free, pop_entries, q1) \<leftarrow> timeout_loop before n_entries (q_tail q) [] [] q;
     Some ((length pop_entries, pop_entries), fold free_node to_free q1)
   }"

section \<open>The list in the heap\<close>

definition first_or :: "nat list \<Rightarrow> nat option \<Rightarrow> nat option" where
  "first_or as n = (case as of [] \<Rightarrow> n | a # _ \<Rightarrow> Some a)"

definition last_or :: "nat list \<Rightarrow> nat option \<Rightarrow> nat option" where
  "last_or as p = (if as = [] then p else Some (last as))"

lemma first_or_simps [simp]:
  "first_or [] n = n" "first_or (a # as) n = Some a" "first_or (as @ bs) n = first_or as (first_or bs n)"
  by (simp_all add: first_or_def split: list.splits)

lemma last_or_simps [simp]:
  "last_or [] p = p" "last_or (a # as) p = last_or as (Some a)" "last_or (as @ bs) p = last_or bs (last_or as p)"
  by (auto simp: last_or_def)

fun linked :: "(nat \<Rightarrow> queue_node option) \<Rightarrow> nat option \<Rightarrow> nat list \<Rightarrow> queue_entry list \<Rightarrow> nat option \<Rightarrow> bool" where
  "linked h p [] [] n \<longleftrightarrow> True"
| "linked h p (a # as) (e # es) n \<longleftrightarrow>
    h a = Some \<lparr>qn_entry = e, qn_prev = p, qn_next = first_or as n\<rparr> \<and> linked h (Some a) as es n"
| "linked h p _ _ n \<longleftrightarrow> False"

lemma linked_length: "linked h p as es n \<Longrightarrow> length as = length es"
  by (induction h p as es n rule: linked.induct) auto

lemma linked_append:
  "length as = length es \<Longrightarrow> linked h p (as @ bs) (es @ fs) n \<longleftrightarrow>
    linked h p as es (first_or bs n) \<and> linked h (last_or as p) bs fs n"
  by (induction as es arbitrary: p rule: list_induct2) auto

lemma linked_frame:
  "linked h p as es n \<Longrightarrow> \<forall>x \<in> set as. h' x = h x \<Longrightarrow> linked h' p as es n"
  by (induction h p as es n rule: linked.induct) auto

definition queue_rep :: "queue \<Rightarrow> nat list \<Rightarrow> queue_entry list \<Rightarrow> bool" where
  "queue_rep q as es \<longleftrightarrow> distinct as \<and> linked (q_heap q) None as es None
    \<and> q_head q = first_or as None \<and> q_tail q = last_or as None"

text \<open>The queue holds the entries \<open>es\<close>, the head first.\<close>

definition queued :: "queue \<Rightarrow> queue_entry list \<Rightarrow> bool" where
  "queued q es \<longleftrightarrow> (\<exists>as. queue_rep q as es)"

lemma queued_new: "queued queue_new []"
  by (auto simp: queued_def queue_rep_def queue_new_def intro: exI [of _ "[]"])

text \<open>A queue split at a node.\<close>

lemma linked_split:
  assumes "linked h None (as @ a # bs) es None"
  obtains es1 e es2 where "es = es1 @ e # es2" "length es1 = length as"
    "h a = Some \<lparr>qn_entry = e, qn_prev = last_or as None, qn_next = first_or bs None\<rparr>"
    "linked h None as es1 (Some a)" "linked h (Some a) bs es2 None"
proof -
  have "length es = length as + Suc (length bs)"
    using linked_length [OF assms] by simp
  then obtain es1 e es2 where "es = es1 @ e # es2" "length es1 = length as"
    by (metis add_Suc_right append_take_drop_id length_Suc_conv length_append length_drop
        length_take less_add_Suc1 min.absorb2 add_diff_cancel_left' less_imp_le)
  with that assms show ?thesis
    by (simp add: linked_append)
qed

lemma linked_set_next:
  assumes "linked h p (xs @ [b]) es n" "distinct (xs @ [b])" "h b = Some nb"
  shows "linked (h(b \<mapsto> nb\<lparr>qn_next := n'\<rparr>)) p (xs @ [b]) es n'"
proof -
  have "length es = length xs + 1"
    using linked_length [OF assms(1)] by simp
  then obtain es1 e where es: "es = es1 @ [e]" "length es1 = length xs"
    by (cases es rule: rev_cases) auto
  have "linked h p xs es1 (Some b)"
      "h b = Some \<lparr>qn_entry = e, qn_prev = last_or xs p, qn_next = n\<rparr>"
    using assms(1) es by (simp_all add: linked_append)
  moreover have "linked (h(b \<mapsto> nb\<lparr>qn_next := n'\<rparr>)) p xs es1 (Some b)"
    using assms(2) by (intro linked_frame [OF calculation(1)]) auto
  ultimately show ?thesis
    using assms(3) es by (simp add: linked_append)
qed

lemma linked_set_prev:
  assumes "linked h p (y # ys) es n" "distinct (y # ys)" "h y = Some ny"
  shows "linked (h(y \<mapsto> ny\<lparr>qn_prev := p'\<rparr>)) p' (y # ys) es n"
proof -
  obtain e es' where es: "es = e # es'"
    using assms(1) by (cases es) auto
  have "linked h (Some y) ys es' n" "ny = \<lparr>qn_entry = e, qn_prev = p, qn_next = first_or ys n\<rparr>"
    using assms(1,3) es by simp_all
  moreover have "linked (h(y \<mapsto> ny\<lparr>qn_prev := p'\<rparr>)) (Some y) ys es' n"
    using assms(2) by (intro linked_frame [OF calculation(1)]) auto
  ultimately show ?thesis
    using es by simp
qed

lemma linked_allocated: "linked h p as es n \<Longrightarrow> x \<in> set as \<Longrightarrow> h x \<noteq> None"
  by (induction h p as es n rule: linked.induct) auto

text \<open>Unlinking a node from the part before it, and from the part after it.\<close>

lemma unlink_before:
  assumes "linked (q_heap q) None as es1 (Some a)" "distinct as" "q_head q = first_or as (Some a)"
  shows "\<exists>q1. (case last_or as None of Some p \<Rightarrow> set_next p n' q | None \<Rightarrow> Some (q\<lparr>q_head := n'\<rparr>)) = Some q1
    \<and> linked (q_heap q1) None as es1 n' \<and> q_head q1 = first_or as n' \<and> q_tail q1 = q_tail q
    \<and> (\<forall>x. x \<notin> set as \<longrightarrow> q_heap q1 x = q_heap q x)"
proof (cases as rule: rev_cases)
  case Nil
  with assms show ?thesis by (cases es1) auto
next
  case (snoc xs b)
  obtain nb where nb: "q_heap q b = Some nb"
    using linked_allocated [OF assms(1), of b] snoc by auto
  have "linked ((q_heap q)(b \<mapsto> nb\<lparr>qn_next := n'\<rparr>)) None as es1 n'"
    using linked_set_next [of "q_heap q" None xs b es1 "Some a" nb n'] assms(1,2) snoc nb by simp
  with snoc nb assms(3) show ?thesis
    by (cases xs) (auto simp: set_next_def)
qed

lemma unlink_after:
  assumes "linked (q_heap q) (Some a) bs es2 None" "distinct bs" "q_tail q = last_or bs (Some a)"
  shows "\<exists>q1. (case first_or bs None of Some x \<Rightarrow> set_prev x p' q | None \<Rightarrow> Some (q\<lparr>q_tail := p'\<rparr>)) = Some q1
    \<and> linked (q_heap q1) p' bs es2 None \<and> q_tail q1 = last_or bs p' \<and> q_head q1 = q_head q
    \<and> (\<forall>x. x \<notin> set bs \<longrightarrow> q_heap q1 x = q_heap q x)"
proof (cases bs)
  case Nil
  with assms show ?thesis by (cases es2) auto
next
  case (Cons y ys)
  obtain ny where ny: "q_heap q y = Some ny"
    using linked_allocated [OF assms(1), of y] Cons by auto
  have "linked ((q_heap q)(y \<mapsto> ny\<lparr>qn_prev := p'\<rparr>)) p' bs es2 None"
    using linked_set_prev [of "q_heap q" "Some a" y ys es2 None ny p'] assms(1,2) Cons ny by simp
  with Cons ny assms(3) show ?thesis
    by (auto simp: set_prev_def)
qed

lemma queue_remove_correct:
  assumes "queue_rep q (as @ a # bs) es"
  obtains q1 es1 e es2 where "queue_remove q a = Some q1" "es = es1 @ e # es2" "length es1 = length as"
    "queue_rep q1 (as @ bs) (es1 @ es2)"
    "q_heap q a = Some \<lparr>qn_entry = e, qn_prev = last_or as None, qn_next = first_or bs None\<rparr>"
    "q_heap q1 a = q_heap q a"
proof -
  have rep: "distinct (as @ a # bs)" "linked (q_heap q) None (as @ a # bs) es None"
      "q_head q = first_or as (Some a)" "q_tail q = last_or bs (Some a)"
    using assms by (simp_all add: queue_rep_def)
  obtain es1 e es2 where es: "es = es1 @ e # es2" "length es1 = length as"
      "q_heap q a = Some \<lparr>qn_entry = e, qn_prev = last_or as None, qn_next = first_or bs None\<rparr>"
      "linked (q_heap q) None as es1 (Some a)" "linked (q_heap q) (Some a) bs es2 None"
    using linked_split [OF rep(2)] by metis
  have dist: "distinct as" "distinct bs" "a \<notin> set as" "a \<notin> set bs" "set as \<inter> set bs = {}"
    using rep(1) by auto
  obtain q1 where q1: "(case last_or as None of Some p \<Rightarrow> set_next p (first_or bs None) q
        | None \<Rightarrow> Some (q\<lparr>q_head := first_or bs None\<rparr>)) = Some q1"
      "linked (q_heap q1) None as es1 (first_or bs None)" "q_head q1 = first_or as (first_or bs None)"
      "q_tail q1 = q_tail q" "\<forall>x. x \<notin> set as \<longrightarrow> q_heap q1 x = q_heap q x"
    using unlink_before [OF es(4) dist(1) rep(3), of "first_or bs None"] by blast
  have bs1: "linked (q_heap q1) (Some a) bs es2 None"
    using q1(5) dist(5) by (intro linked_frame [OF es(5)]) auto
  obtain q2 where q2: "(case first_or bs None of Some x \<Rightarrow> set_prev x (last_or as None) q1
        | None \<Rightarrow> Some (q1\<lparr>q_tail := last_or as None\<rparr>)) = Some q2"
      "linked (q_heap q2) (last_or as None) bs es2 None" "q_tail q2 = last_or bs (last_or as None)"
      "q_head q2 = q_head q1" "\<forall>x. x \<notin> set bs \<longrightarrow> q_heap q2 x = q_heap q1 x"
    using unlink_after [OF bs1 dist(2), of "last_or as None"] rep(4) q1(4) by metis
  have as2: "linked (q_heap q2) None as es1 (first_or bs None)"
    using q2(5) dist(5) by (intro linked_frame [OF q1(2)]) auto
  have a: "q_heap q1 a = q_heap q a" "q_heap q2 a = q_heap q a"
    using q1(5) q2(5) dist(3,4) by auto
  have "queue_remove q a = Some q2"
    unfolding queue_remove_def es(3) Option.bind.simps queue_node.select_convs q1(1) a(1) q2(1) ..
  moreover have "queue_rep q2 (as @ bs) (es1 @ es2)"
    using dist as2 q2 q1(3) es(2) by (simp add: queue_rep_def linked_append)
  ultimately show ?thesis
    using that es a(2) by blast
qed

text \<open>Memory outside the list does not matter.\<close>

lemma queue_rep_free: "queue_rep q as es \<Longrightarrow> set fs \<inter> set as = {} \<Longrightarrow> queue_rep (fold free_node fs q) as es"
proof (induction fs arbitrary: q)
  case (Cons f fs)
  have lk: "linked (q_heap q) None as es None"
    using Cons.prems(1) by (simp add: queue_rep_def)
  have "\<forall>x \<in> set as. q_heap (free_node f q) x = q_heap q x"
    using Cons.prems(2) by (simp add: free_node_def)
  from linked_frame [OF lk this] have "queue_rep (free_node f q) as es"
    using Cons.prems(1) by (simp add: queue_rep_def free_node_def fun_upd_def)
  with Cons show ?case
    by simp
qed simp

lemma queued_push:
  assumes "queued q es" "q_heap q a = None"
  shows "\<exists>q'. queue_push a q fd ts = Some q' \<and> queued q' (\<lparr>qe_fd = fd, qe_timestamp = ts\<rparr> # es)"
proof -
  obtain as where rep: "distinct as" "linked (q_heap q) None as es None"
      "q_head q = first_or as None" "q_tail q = last_or as None"
    using assms(1) by (auto simp: queued_def queue_rep_def)
  have new: "a \<notin> set as"
    using linked_allocated [OF rep(2)] assms(2) by blast
  let ?e = "\<lparr>qe_fd = fd, qe_timestamp = ts\<rparr>"
  have node: "queue_node_new fd ts = \<lparr>qn_entry = ?e, qn_prev = None, qn_next = None\<rparr>"
    by (cases ts) (simp add: queue_node_new_def stamp_cpy_def)
  let ?h = "(q_heap q)(a \<mapsto> queue_node_new fd ts)"
  have as1: "linked ?h None as es None"
    using new by (intro linked_frame [OF rep(2)]) auto
  show ?thesis
  proof (cases as)
    case Nil
    then have "es = []"
      using rep(2) by (cases es) auto
    with Nil rep show ?thesis
      by (auto simp: queue_push_def queued_def queue_rep_def node intro!: exI [of _ "[a]"])
  next
    case (Cons y ys)
    obtain ny where ny: "?h y = Some ny"
      using linked_allocated [OF as1, of y] Cons by (cases "?h y") auto
    let ?h2 = "?h(y \<mapsto> ny\<lparr>qn_prev := Some a\<rparr>)"
    have as2: "linked ?h2 (Some a) as es None"
      using linked_set_prev [of ?h None y ys es None ny "Some a"] as1 rep(1) Cons ny by simp
    let ?h3 = "?h2(a \<mapsto> \<lparr>qn_entry = ?e, qn_prev = None, qn_next = Some y\<rparr>)"
    have as3: "linked ?h3 (Some a) as es None"
      using new by (intro linked_frame [OF as2]) auto
    have ya: "y \<noteq> a"
      using new Cons by auto
    have "queue_push a q fd ts = Some (q\<lparr>q_heap := ?h3, q_head := Some a\<rparr>)"
      using rep(3) Cons ny ya by (simp add: queue_push_def set_prev_def set_next_def node Let_def fun_upd_twist)
    moreover have "queue_rep (q\<lparr>q_heap := ?h3, q_head := Some a\<rparr>) (a # as) (?e # es)"
      using rep(1,4) new as3 Cons by (simp add: queue_rep_def)
    ultimately show ?thesis
      by (auto simp: queued_def)
  qed
qed

text \<open>Taking the first entry of a descriptor out of the list of entries.\<close>

fun pop_first :: "int \<Rightarrow> queue_entry list \<Rightarrow> queue_entry option \<times> queue_entry list" where
  "pop_first fd [] = (None, [])"
| "pop_first fd (e # es) =
    (if qe_fd e = fd then (Some e, es) else (case pop_first fd es of (r, es') \<Rightarrow> (r, e # es')))"

lemma pop_first_absent: "\<forall>e \<in> set es. qe_fd e \<noteq> fd \<Longrightarrow> pop_first fd es = (None, es)"
  by (induction es) auto

lemma pop_first_found:
  "\<forall>e \<in> set es1. qe_fd e \<noteq> fd \<Longrightarrow> qe_fd e = fd \<Longrightarrow> pop_first fd (es1 @ e # es2) = (Some e, es1 @ es2)"
  by (induction es1) auto

lemma find_fd_linked:
  "linked (q_heap q) p as es None \<Longrightarrow>
    (find_fd q fd (first_or as None) = Some None \<and> (\<forall>e \<in> set es. qe_fd e \<noteq> fd))
    \<or> (\<exists>as1 a as2 es1 e es2. as = as1 @ a # as2 \<and> es = es1 @ e # es2 \<and> length es1 = length as1
        \<and> (\<forall>e \<in> set es1. qe_fd e \<noteq> fd) \<and> qe_fd e = fd \<and> find_fd q fd (first_or as None) = Some (Some a))"
proof (induction as arbitrary: p es)
  case Nil
  then show ?case
    by (cases es) (auto simp: find_fd.simps)
next
  case (Cons a as)
  then obtain e es' where es: "es = e # es'" "linked (q_heap q) (Some a) as es' None"
      "q_heap q a = Some \<lparr>qn_entry = e, qn_prev = p, qn_next = first_or as None\<rparr>"
    by (cases es) auto
  show ?case
  proof (cases "qe_fd e = fd")
    case True
    then have "find_fd q fd (Some a) = Some (Some a)"
      using es(3) by (simp add: find_fd.simps)
    with True es(1) show ?thesis
      by (intro disjI2 exI [of _ "[]"]) simp
  next
    case False
    then have step: "find_fd q fd (Some a) = find_fd q fd (first_or as None)"
      using es(3) by (subst find_fd.simps) simp
    from Cons.IH [OF es(2)] show ?thesis
    proof (elim disjE exE conjE)
      fix as1 b as2 es1 f es2
      assume *: "as = as1 @ b # as2" "es' = es1 @ f # es2" "length es1 = length as1"
        "\<forall>e \<in> set es1. qe_fd e \<noteq> fd" "qe_fd f = fd" "find_fd q fd (first_or as None) = Some (Some b)"
      show ?thesis
        by (rule disjI2, rule exI [of _ "a # as1"], rule exI [of _ b], rule exI [of _ as2],
            rule exI [of _ "e # es1"], rule exI [of _ f], rule exI [of _ es2])
           (use * es(1) False step in auto)
    qed (use es(1) False step in auto)
  qed
qed

lemma queued_pop_fd:
  assumes "queued q es"
  shows "\<exists>q'. queue_pop_fd q fd = Some ((case fst (pop_first fd es) of None \<Rightarrow> (0, None) | Some e \<Rightarrow> (1, Some e)), q')
    \<and> queued q' (snd (pop_first fd es))"
proof -
  obtain as where rep: "queue_rep q as es"
    using assms by (auto simp: queued_def)
  then have l: "linked (q_heap q) None as es None" "q_head q = first_or as None"
    by (simp_all add: queue_rep_def)
  from find_fd_linked [OF l(1), of fd] show ?thesis
  proof (elim disjE exE conjE)
    assume "find_fd q fd (first_or as None) = Some None" "\<forall>e \<in> set es. qe_fd e \<noteq> fd"
    with assms l(2) show ?thesis
      by (simp add: queue_pop_fd_def pop_first_absent)
  next
    fix as1 a as2 es1 e es2
    assume *: "as = as1 @ a # as2" "es = es1 @ e # es2" "length es1 = length as1"
      "\<forall>e \<in> set es1. qe_fd e \<noteq> fd" "qe_fd e = fd" "find_fd q fd (first_or as None) = Some (Some a)"
    obtain q1 fs1 f fs2 where q1: "queue_remove q a = Some q1" "es = fs1 @ f # fs2" "length fs1 = length as1"
        "queue_rep q1 (as1 @ as2) (fs1 @ fs2)" "q_heap q1 a = q_heap q a"
        "q_heap q a = Some \<lparr>qn_entry = f, qn_prev = last_or as1 None, qn_next = first_or as2 None\<rparr>"
      using queue_remove_correct [of q as1 a as2 es] rep *(1) by metis
    have same: "fs1 = es1" "f = e" "fs2 = es2"
      using q1(2,3) *(2,3) by auto
    have "queue_pop_fd q fd = Some ((1, Some e), free_node a q1)"
      using *(6) l(2) q1(1,5,6) same by (simp add: queue_pop_fd_def)
    moreover have "queue_rep (free_node a q1) (as1 @ as2) (es1 @ es2)"
      using queue_rep_free [of q1 "as1 @ as2" "es1 @ es2" "[a]"] q1(4) same rep *(1)
      by (simp add: queue_rep_def)
    ultimately show ?thesis
      using pop_first_found [OF *(4,5), of es2] *(2) by (auto simp: queued_def)
  qed
qed

text \<open>Taking at most \<open>n\<close> entries that satisfy a predicate out of a list.\<close>

fun take_out :: "('a \<Rightarrow> bool) \<Rightarrow> nat \<Rightarrow> 'a list \<Rightarrow> 'a list \<times> 'a list" where
  "take_out P n [] = ([], [])"
| "take_out P n (e # es) =
    (if n = 0 then ([], e # es)
     else if P e then (case take_out P (n - 1) es of (ps, ks) \<Rightarrow> (e # ps, ks))
     else (case take_out P n es of (ps, ks) \<Rightarrow> (ps, e # ks)))"

lemma take_out_spec:
  "fst (take_out P n es) = take n (filter P es)"
  "length (filter P es) \<le> n \<Longrightarrow> snd (take_out P n es) = filter (\<lambda>e. \<not> P e) es"
proof (induction P n es rule: take_out.induct)
  case (2 P n e es)
  {
    case 1
    with 2 show ?case by (cases n) (auto split: prod.splits)
  next
    case 2
    have "filter P es = [] \<Longrightarrow> es = filter (\<lambda>e. \<not> P e) es"
      by (rule sym) (simp add: filter_empty_conv filter_id_conv)
    with 2 "2.IH" show ?case by (cases n) (auto split: prod.splits if_splits)
  }
qed simp_all

lemma timeout_loop_correct:
  assumes "queue_rep q (as @ bs) (es @ fs)" "length es = length as" "set to_free \<inter> set (as @ bs) = {}"
  shows "\<exists>fr q' as'. timeout_loop before n (last_or as None) to_free popped q
      = Some (to_free @ fr, popped @ fst (take_out (\<lambda>e. stamp_cmp (qe_timestamp e) before \<le> 0) (n - length popped) (rev es)), q')
    \<and> queue_rep q' as' (rev (snd (take_out (\<lambda>e. stamp_cmp (qe_timestamp e) before \<le> 0) (n - length popped) (rev es))) @ fs)
    \<and> set (to_free @ fr) \<inter> set as' = {}"
  using assms
proof (induction as arbitrary: q bs es fs to_free popped rule: rev_induct)
  case Nil
  then show ?case
    by (subst timeout_loop.simps) (auto intro!: exI [of _ "[]"] exI [of _ bs])
next
  case (snoc a as)
  let ?P = "\<lambda>e. stamp_cmp (qe_timestamp e) before \<le> 0"
  obtain es1 e where es: "es = es1 @ [e]" "length es1 = length as"
    using snoc.prems(2) by (cases es rule: rev_cases) auto
  have rep: "queue_rep q (as @ a # bs) (es1 @ e # fs)"
    using snoc.prems(1) es by simp
  obtain q1 fs1 f fs2 where q1: "queue_remove q a = Some q1" "es1 @ e # fs = fs1 @ f # fs2" "length fs1 = length as"
      "queue_rep q1 (as @ bs) (fs1 @ fs2)" "q_heap q1 a = q_heap q a"
      "q_heap q a = Some \<lparr>qn_entry = f, qn_prev = last_or as None, qn_next = first_or bs None\<rparr>"
    using queue_remove_correct [OF rep] by metis
  have same: "fs1 = es1" "f = e" "fs2 = fs"
    using q1(2,3) es(2) by auto
  show ?case
  proof (cases "length popped < n")
    case False
    then have "timeout_loop before n (last_or (as @ [a]) None) to_free popped q = Some (to_free, popped, q)"
      by (subst timeout_loop.simps) (simp add: last_or_def)
    moreover have "take_out ?P (n - length popped) (rev es) = ([], rev es)"
      using False es(1) by simp
    ultimately show ?thesis
      using snoc.prems by (auto intro!: exI [of _ "[]"] exI [of _ "as @ a # bs"])
  next
    case room: True
    show ?thesis
    proof (cases "?P e")
      case True
      have run: "timeout_loop before n (last_or (as @ [a]) None) to_free popped q
          = timeout_loop before n (last_or as None) (to_free @ [a]) (popped @ [e]) q1"
        using room True q1(1,5,6) same by (subst timeout_loop.simps) (simp add: last_or_def)
      have "set (to_free @ [a]) \<inter> set (as @ bs) = {}"
        using snoc.prems(3) rep by (auto simp: queue_rep_def)
      from snoc.IH [of q1 bs es1 fs "to_free @ [a]" "popped @ [e]", OF _ es(2) this] q1(4) same
      obtain fr q' as' where IH: "timeout_loop before n (last_or as None) (to_free @ [a]) (popped @ [e]) q1
          = Some (to_free @ [a] @ fr, popped @ [e] @ fst (take_out ?P (n - length popped - 1) (rev es1)), q')"
          "queue_rep q' as' (rev (snd (take_out ?P (n - length popped - 1) (rev es1))) @ fs)"
          "set (to_free @ [a] @ fr) \<inter> set as' = {}"
        by auto
      have "take_out ?P (n - length popped) (rev es)
          = (e # fst (take_out ?P (n - length popped - 1) (rev es1)), snd (take_out ?P (n - length popped - 1) (rev es1)))"
        using room True es(1) by (simp add: split_beta)
      with run IH show ?thesis
        by (intro exI [of _ "a # fr"] exI [of _ q'] exI [of _ as']) simp
    next
      case False
      have run: "timeout_loop before n (last_or (as @ [a]) None) to_free popped q
          = timeout_loop before n (last_or as None) to_free popped q"
        using room False q1(6) same by (subst timeout_loop.simps) (simp add: last_or_def)
      have "set to_free \<inter> set (as @ a # bs) = {}"
        using snoc.prems(3) by auto
      from snoc.IH [of q "a # bs" es1 "e # fs" to_free popped, OF rep es(2) this]
      obtain fr q' as' where IH: "timeout_loop before n (last_or as None) to_free popped q
          = Some (to_free @ fr, popped @ fst (take_out ?P (n - length popped) (rev es1)), q')"
          "queue_rep q' as' (rev (snd (take_out ?P (n - length popped) (rev es1))) @ e # fs)"
          "set (to_free @ fr) \<inter> set as' = {}"
        by auto
      have "take_out ?P (n - length popped) (rev es)
          = (fst (take_out ?P (n - length popped) (rev es1)), e # snd (take_out ?P (n - length popped) (rev es1)))"
        using room False es(1) by (simp add: split_beta)
      with run IH show ?thesis
        by (intro exI [of _ fr] exI [of _ q'] exI [of _ as']) simp
    qed
  qed
qed

lemma queued_pop_timeout:
  assumes "queued q es"
  shows "\<exists>q' ps ks. take_out (\<lambda>e. stamp_cmp (qe_timestamp e) before \<le> 0) n (rev es) = (ps, ks)
    \<and> queue_pop_timeout q before n = Some ((length ps, ps), q') \<and> queued q' (rev ks)"
proof -
  let ?P = "\<lambda>e. stamp_cmp (qe_timestamp e) before \<le> 0"
  obtain as where rep: "queue_rep q as es"
    using assms by (auto simp: queued_def)
  then have "length es = length as" "q_tail q = last_or as None"
    using linked_length by (fastforce simp: queue_rep_def)+
  moreover from this(1) obtain fr q' as' where
      "timeout_loop before n (last_or as None) [] [] q = Some (fr, fst (take_out ?P n (rev es)), q')"
      "queue_rep q' as' (rev (snd (take_out ?P n (rev es))))" "set fr \<inter> set as' = {}"
    using timeout_loop_correct [of q as "[]" es "[]" "[]" before n "[]"] rep by auto
  ultimately show ?thesis
    using queue_rep_free [of q' as' _ fr]
    by (auto simp: queue_pop_timeout_def queued_def prod_eq_iff
        intro!: exI [of _ "fst (take_out ?P n (rev es))"] exI [of _ "snd (take_out ?P n (rev es))"])
qed

section \<open>Properties\<close>

text \<open>
  C25: the queue of pending descriptors. Pushing puts an entry at the head; popping a descriptor takes
  out the entry nearest to the head that has it; popping with a time limit takes out, from the tail, at
  most the number of entries asked for, those that are not after the limit, and returns them in that
  order. No operation touches freed memory, loops, or changes the other entries or their order.
\<close>

theorem queue_refines_list:
  assumes "queued q es"
  shows "(q_heap q a = None \<longrightarrow>
      (\<exists>q'. queue_push a q fd ts = Some q' \<and> queued q' (\<lparr>qe_fd = fd, qe_timestamp = ts\<rparr> # es)))
    \<and> (\<exists>q'. queue_pop_fd q fd = Some ((case fst (pop_first fd es) of None \<Rightarrow> (0, None) | Some e \<Rightarrow> (1, Some e)), q')
        \<and> queued q' (snd (pop_first fd es)))
    \<and> (\<exists>q' ps ks. take_out (\<lambda>e. stamp_cmp (qe_timestamp e) before \<le> 0) n (rev es) = (ps, ks)
        \<and> queue_pop_timeout q before n = Some ((length ps, ps), q') \<and> queued q' (rev ks))"
  using queued_push [OF assms] queued_pop_fd [OF assms] queued_pop_timeout [OF assms] by auto

theorem queue_refines_list_witness:
  "\<exists>q'. queue_push 4 queue_new 9 \<lparr>tv_sec = 1, tv_nsec = 2\<rparr> = Some q'
    \<and> queued q' [\<lparr>qe_fd = 9, qe_timestamp = \<lparr>tv_sec = 1, tv_nsec = 2\<rparr>\<rparr>]"
  using queue_refines_list [OF queued_new, of 4 9 "\<lparr>tv_sec = 1, tv_nsec = 2\<rparr>"] by (simp add: queue_new_def)

end
