(* ===== verification/Fanotify.thy ===== *)
theory Fanotify
  imports OnDemand WatchQueue "HOL-Library.Multiset"
begin

text \<open>
  The fanotify monitor of the on-access protection,
  \<open>libcore/arch/linux/builtin-modules/on-access/famonitor.c\<close>, with the answers it writes to the kernel
  (\<open>response.c\<close>) and the watchdog (\<open>watchdog.c\<close>). The kernel asks for a permission with an event that
  carries an open descriptor; the process that opened the file waits until the answer is written.

  The calls to the kernel are arguments acting on a world. The tasks of the thread pool are run one
  after the other; a task touches its own context and the shared scan configuration only.
\<close>

section \<open>The kernel\<close>

definition FAN_OPEN :: u64 where "FAN_OPEN = 0x20"
definition FAN_OPEN_PERM :: u64 where "FAN_OPEN_PERM = 0x10000"
definition FAN_EVENT_ON_CHILD :: u64 where "FAN_EVENT_ON_CHILD = 0x08000000"
definition FAN_MARK_ADD :: u32 where "FAN_MARK_ADD = 1"
definition FAN_MARK_REMOVE :: u32 where "FAN_MARK_REMOVE = 2"
definition FAN_MARK_MOUNT :: u32 where "FAN_MARK_MOUNT = 0x10"
definition FAN_CLASS_NOTIF :: u32 where "FAN_CLASS_NOTIF = 0"
definition FAN_CLASS_CONTENT :: u32 where "FAN_CLASS_CONTENT = 4"
definition FAN_UNLIMITED_QUEUE :: u32 where "FAN_UNLIMITED_QUEUE = 0x10"
definition FAN_UNLIMITED_MARKS :: u32 where "FAN_UNLIMITED_MARKS = 0x20"
definition FAN_ALLOW :: u32 where "FAN_ALLOW = 1"
definition FAN_DENY :: u32 where "FAN_DENY = 2"

record fanotify_event =
  fe_mask :: u64
  fe_fd :: int
  fe_pid :: int

text \<open>
  The calls: writing an answer, the link of a descriptor under \<open>/proc\<close>, its mode, reading events, and
  the two calls that set fanotify up. The identifier of a scan is not set in a detection of the
  on-access protection: \<open>fo_stack_id\<close> is what the stack holds there.
\<close>

record 'w fa_os =
  fo_scan :: "'w scan_os"
  fo_write :: "int \<Rightarrow> int \<times> u32 \<Rightarrow> 'w \<Rightarrow> int \<times> 'w"
  fo_readlink :: "int \<Rightarrow> 'w \<Rightarrow> string option"
  fo_fstat :: "int \<Rightarrow> 'w \<Rightarrow> st_mode option"
  fo_read :: "int \<Rightarrow> 'w \<Rightarrow> fanotify_event list option \<times> 'w"
  fo_init :: "u32 \<Rightarrow> 'w \<Rightarrow> int \<times> 'w"
  fo_mark :: "int \<Rightarrow> u32 \<Rightarrow> u64 \<Rightarrow> string \<Rightarrow> 'w \<Rightarrow> int \<times> 'w"
  fo_stack_id :: int

record 'w fa_env =
  fa_os :: "'w fa_os"
  fa_mm :: "'w module_manager"
  fa_call :: "'w event_call"
  fa_time :: "'w \<Rightarrow> int"

section \<open>The watchdog\<close>

text \<open>The watchdog is compiled out.\<close>

definition ENABLE_WATCHDOG :: bool where "ENABLE_WATCHDOG = False"

record watchdog =
  wd_queue :: queue
  wd_fanotify_fd :: int

definition watchdog_new :: "int \<Rightarrow> watchdog" where
  "watchdog_new fanotify_fd = \<lparr>wd_queue = queue_new, wd_fanotify_fd = fanotify_fd\<rparr>"

definition watchdog_add :: "nat \<Rightarrow> timespec \<Rightarrow> watchdog \<Rightarrow> int \<Rightarrow> watchdog option" where
  "watchdog_add a now w fd =
    (if \<not> ENABLE_WATCHDOG then Some w
     else map_option (\<lambda>q. w\<lparr>wd_queue := q\<rparr>) (queue_push a (wd_queue w) fd now))"

definition watchdog_remove :: "timespec \<Rightarrow> watchdog \<Rightarrow> int \<Rightarrow> timespec option
    \<Rightarrow> (int \<times> timespec option \<times> watchdog) option" where
  "watchdog_remove now w fd after =
    (if \<not> ENABLE_WATCHDOG then Some (1, after, w)
     else do {
       ((r, entry), q) \<leftarrow> queue_pop_fd (wd_queue w) fd;
       Some (r, case (entry, after) of
                  (Some e, Some a) \<Rightarrow> Some (stamp_sub now (qe_timestamp e))
                | _ \<Rightarrow> after,
             w\<lparr>wd_queue := q\<rparr>)
     })"

section \<open>Answers\<close>

text \<open>The results of both calls decide on messages only.\<close>

definition response_write :: "'w fa_os \<Rightarrow> int \<Rightarrow> int \<Rightarrow> u32 \<Rightarrow> 'w \<Rightarrow> 'w" where
  "response_write os fanotify_fd fd r w =
    (case fo_write os fanotify_fd (fd, r) w of
       (ret, w1) \<Rightarrow> snd (so_close (fo_scan os) fd w1))"

definition N_FD :: nat where "N_FD = 100"

definition watchdog_timeout :: timespec where
  "watchdog_timeout = \<lparr>tv_sec = 0, tv_nsec = 100000 * ONE_MICROSECOND\<rparr>"

text \<open>One iteration of the thread of the watchdog, woken up at \<open>now\<close>.\<close>

definition watchdog_iteration :: "'w fa_os \<Rightarrow> timespec \<Rightarrow> watchdog \<times> 'w \<Rightarrow> (watchdog \<times> 'w) option" where
  "watchdog_iteration os now st = (case st of (wd, w) \<Rightarrow> do {
     ((n_fd, entries), q) \<leftarrow> queue_pop_timeout (wd_queue wd) (stamp_sub now watchdog_timeout) N_FD;
     Some (wd\<lparr>wd_queue := q\<rparr>,
           fold (\<lambda>e. response_write os (wd_fanotify_fd wd) (qe_fd e) FAN_ALLOW) entries w)
   })"

section \<open>The monitor\<close>

text \<open>The pool holds the contexts that wait for a thread.\<close>

record 'w fanotify_monitor =
  fm_enable_permission :: int
  fm_scan_conf :: a6o_scan_conf
  fm_my_pid :: int
  fm_fanotify_fd :: int
  fm_thread_pool :: "a6o_scan_context list"
  fm_watchdog :: watchdog
  fm_source :: a6o_event_source
  fm_world :: 'w

text \<open>
  The monitor of a process, with the on-access scan configuration. The descriptor, the pool and the
  watchdog are not set before the start; -1 stands for the indeterminate descriptor.
\<close>

definition fanotify_monitor_new ::
  "int \<Rightarrow> a6o_event_source \<Rightarrow> scan_confs \<times> 'w \<Rightarrow> 'w fanotify_monitor \<times> scan_confs" where
  "fanotify_monitor_new pid src st = (case st of (confs, w) \<Rightarrow>
    (case a6o_scan_conf_on_access confs of
       (conf, confs1) \<Rightarrow>
         (\<lparr>fm_enable_permission = 0, fm_scan_conf = conf, fm_my_pid = pid, fm_fanotify_fd = -1,
           fm_thread_pool = [], fm_watchdog = watchdog_new (-1), fm_source = src, fm_world = w\<rparr>, confs1)))"

definition fanotify_monitor_enable_permission :: "'w fanotify_monitor \<Rightarrow> int \<Rightarrow> int \<times> 'w fanotify_monitor" where
  "fanotify_monitor_enable_permission f enable_permission =
    (enable_permission, f\<lparr>fm_enable_permission := enable_permission\<rparr>)"

definition fanotify_monitor_is_enable_permission :: "'w fanotify_monitor \<Rightarrow> int" where
  "fanotify_monitor_is_enable_permission f = fm_enable_permission f"

text \<open>A failing initialisation is logged with level error, which aborts.\<close>

definition fanotify_monitor_start :: "'w fa_os \<Rightarrow> 'w fanotify_monitor \<Rightarrow> (int \<times> 'w fanotify_monitor) option" where
  "fanotify_monitor_start os f =
    (let flags = (if fm_enable_permission f \<noteq> 0 then FAN_CLASS_CONTENT else FAN_CLASS_NOTIF)
                 OR FAN_UNLIMITED_QUEUE OR FAN_UNLIMITED_MARKS
     in case fo_init os flags (fm_world f) of
          (fd, w) \<Rightarrow>
            if fd < 0 then None
            else Some (0, f\<lparr>fm_fanotify_fd := fd, fm_watchdog := watchdog_new fd, fm_thread_pool := [],
                            fm_world := w\<rparr>))"

definition PATH_MAX :: nat where "PATH_MAX = 4096"

definition get_file_path_from_fd :: "'w fa_os \<Rightarrow> int \<Rightarrow> 'w \<Rightarrow> cstr" where
  "get_file_path_from_fd os fd w =
    (if fd \<le> 0 then None else map_option (take (PATH_MAX - 1)) (fo_readlink os fd w))"

definition fire_detection_event_fa ::
  "'w fa_env \<Rightarrow> a6o_report \<Rightarrow> 'w fanotify_monitor \<Rightarrow> 'w fanotify_monitor option" where
  "fire_detection_event_fa env report f = do {
     ev \<leftarrow> a6o_event_new (fa_time env (fm_world f)) (Ev_detection
       \<lparr>det_context = CONTEXT_REAL_TIME, det_scan_id = fo_stack_id (fa_os env), det_path = rep_path report,
        det_scan_status = rep_status report, det_scan_action = rep_action report,
        det_module_name = rep_module_name report, det_module_report = rep_module_report report\<rparr>);
     (src, w) \<leftarrow> a6o_event_source_fire_event (fa_call env) (fm_source f) ev (fm_world f);
     Some (f\<lparr>fm_source := src, fm_world := w\<rparr>)
   }"

text \<open>Assigning the descriptor of a context that is filled in.\<close>

definition clear_fd :: "a6o_scan_context \<Rightarrow> a6o_scan_context" where
  "clear_fd ctx = ctx\<lparr>ctx_fields := map_option (\<lambda>c. c\<lparr>cx_fd := -1\<rparr>) (ctx_fields ctx)\<rparr>"

text \<open>
  \<open>watchdog_remove\<close> followed by \<open>response_write\<close>, as the three places that answer have it. The time
  read by the watchdog does not matter, as it is not asked for the delay.
\<close>

definition answer :: "'w fa_env \<Rightarrow> int \<Rightarrow> u32 \<Rightarrow> 'w fanotify_monitor \<Rightarrow> 'w fanotify_monitor option" where
  "answer env fd r f = do {
     (present, after, wd) \<leftarrow> watchdog_remove \<lparr>tv_sec = 0, tv_nsec = 0\<rparr> (fm_watchdog f) fd None;
     Some (f\<lparr>fm_watchdog := wd,
             fm_world := (if present \<noteq> 0
                          then response_write (fa_os env) (fm_fanotify_fd f) fd r (fm_world f)
                          else fm_world f)\<rparr>)
   }"

definition scan_file_thread_fun ::
  "'w fa_env \<Rightarrow> a6o_scan_context \<Rightarrow> 'w fanotify_monitor \<Rightarrow> 'w fanotify_monitor option" where
  "scan_file_thread_fun env ctx f = do {
     c \<leftarrow> ctx_fields ctx;
     ((status, rep), w) \<leftarrow> a6o_scan_context_scan (fo_scan (fa_os env)) (fa_mm env) ctx
                            (Some (a6o_report_init (cx_path c))) (fm_world f);
     report \<leftarrow> rep;
     let f1 = f\<lparr>fm_world := w\<rparr>;
     (ctx2, f2) \<leftarrow>
       (if fanotify_monitor_is_enable_permission f1 \<noteq> 0
        then map_option (Pair (clear_fd ctx))
               (answer env (cx_fd c) (if status = A6O_FILE_MALWARE then FAN_DENY else FAN_ALLOW) f1)
        else Some (ctx, f1));
     (freed, w3) \<leftarrow> a6o_scan_context_destroy (fo_scan (fa_os env)) ctx2 (fm_world f2);
     let f3 = f2\<lparr>fm_world := w3\<rparr>;
     (if (status = A6O_FILE_MALWARE \<or> status = A6O_FILE_SUSPICIOUS) \<and> rep_path report \<noteq> None
      then fire_detection_event_fa env report f3
      else Some f3)
   }"

definition stat_check :: "'w fa_os \<Rightarrow> int \<Rightarrow> 'w \<Rightarrow> bool" where
  "stat_check os fd w = (case fo_fstat os fd w of
       None \<Rightarrow> True
     | Some m \<Rightarrow> (if m \<noteq> S_IFREG then True else False))"

definition fanotify_perm_event_process ::
  "'w fa_env \<Rightarrow> fanotify_event \<Rightarrow> cstr \<Rightarrow> 'w fanotify_monitor \<Rightarrow> 'w fanotify_monitor option" where
  "fanotify_perm_event_process env event path f =
    (if stat_check (fa_os env) (fe_fd event) (fm_world f)
     then answer env (fe_fd event) FAN_ALLOW f
     else do {
       ((ctx, conf, rep), w) \<leftarrow> a6o_scan_context_get (fo_scan (fa_os env)) (fa_mm env) stack_context
                                  (fe_fd event) path (fm_scan_conf f) None (fm_world f);
       let f1 = f\<lparr>fm_scan_conf := conf, fm_world := w\<rparr>;
       (if ctx_status ctx \<noteq> A6O_SC_MUST_SCAN
        then do {
          f2 \<leftarrow> answer env (fe_fd event) FAN_ALLOW f1;
          (freed, w2) \<leftarrow> a6o_scan_context_destroy (fo_scan (fa_os env)) (clear_fd ctx) (fm_world f2);
          Some (f2\<lparr>fm_world := w2\<rparr>)
        }
        else Some (f1\<lparr>fm_thread_pool := fm_thread_pool f1 @ [ctx]\<rparr>))
     })"

definition fanotify_notify_event_process ::
  "'w fa_env \<Rightarrow> fanotify_event \<Rightarrow> cstr \<Rightarrow> 'w fanotify_monitor \<Rightarrow> 'w fanotify_monitor option" where
  "fanotify_notify_event_process env event path f =
    (if stat_check (fa_os env) (fe_fd event) (fm_world f) then Some f
     else do {
       ((ctx, conf, rep), w) \<leftarrow> a6o_scan_context_get (fo_scan (fa_os env)) (fa_mm env) stack_context
                                  (fe_fd event) path (fm_scan_conf f) None (fm_world f);
       let f1 = f\<lparr>fm_scan_conf := conf, fm_world := w\<rparr>;
       (if ctx_status ctx \<noteq> A6O_SC_MUST_SCAN
        then do {
          (freed, w2) \<leftarrow> a6o_scan_context_destroy (fo_scan (fa_os env)) ctx (fm_world f1);
          Some (f1\<lparr>fm_world := w2\<rparr>)
        }
        else Some (f1\<lparr>fm_thread_pool := fm_thread_pool f1 @ [ctx]\<rparr>))
     })"

text \<open>The two passes over the events that were read. An address for the watchdog comes with each event.\<close>

fun fanotify_pass_1 ::
  "'w fa_env \<Rightarrow> fanotify_event list \<Rightarrow> 'w fanotify_monitor \<Rightarrow> 'w fanotify_monitor option" where
  "fanotify_pass_1 env [] f = Some f"
| "fanotify_pass_1 env (event # events) f = do {
     f1 \<leftarrow> (if fe_mask event AND FAN_OPEN_PERM \<noteq> 0
           then if fe_pid event = fm_my_pid f
                then Some (f\<lparr>fm_world := response_write (fa_os env) (fm_fanotify_fd f) (fe_fd event) FAN_ALLOW (fm_world f)\<rparr>)
                else map_option (\<lambda>wd. f\<lparr>fm_watchdog := wd\<rparr>)
                       (watchdog_add (nat (fe_fd event)) \<lparr>tv_sec = 0, tv_nsec = 0\<rparr> (fm_watchdog f) (fe_fd event))
           else Some f);
     fanotify_pass_1 env events f1
   }"

fun fanotify_pass_2 ::
  "'w fa_env \<Rightarrow> fanotify_event list \<Rightarrow> 'w fanotify_monitor \<Rightarrow> 'w fanotify_monitor option" where
  "fanotify_pass_2 env [] f = Some f"
| "fanotify_pass_2 env (event # events) f =
    (if fe_pid event = fm_my_pid f then fanotify_pass_2 env events f
     else do {
       let p = get_file_path_from_fd (fa_os env) (fe_fd event) (fm_world f);
       f1 \<leftarrow> (if fe_mask event AND FAN_OPEN_PERM \<noteq> 0 then fanotify_perm_event_process env event p f
             else if fe_mask event AND FAN_OPEN \<noteq> 0 then fanotify_notify_event_process env event p f
             else Some f);
       fanotify_pass_2 env events f1
     })"

text \<open>A failing read is logged with level error, which aborts.\<close>

definition fanotify_cb :: "'w fa_env \<Rightarrow> 'w fanotify_monitor \<Rightarrow> 'w fanotify_monitor option" where
  "fanotify_cb env f =
    (case fo_read (fa_os env) (fm_fanotify_fd f) (fm_world f) of
       (None, w) \<Rightarrow> None
     | (Some buf, w) \<Rightarrow> do {
         f1 \<leftarrow> fanotify_pass_1 env buf (f\<lparr>fm_world := w\<rparr>);
         fanotify_pass_2 env buf f1
       })"

text \<open>The threads of the pool, run in the order of their tasks.\<close>

fun fa_pool :: "'w fa_env \<Rightarrow> a6o_scan_context list \<Rightarrow> 'w fanotify_monitor \<Rightarrow> 'w fanotify_monitor option" where
  "fa_pool env [] f = Some f"
| "fa_pool env (ctx # ctxs) f = do { f1 \<leftarrow> scan_file_thread_fun env ctx f; fa_pool env ctxs f1 }"

definition fa_run_pool :: "'w fa_env \<Rightarrow> 'w fanotify_monitor \<Rightarrow> 'w fanotify_monitor option" where
  "fa_run_pool env f = fa_pool env (fm_thread_pool f) (f\<lparr>fm_thread_pool := []\<rparr>)"

section \<open>Marks\<close>

definition open_mask :: "'w fanotify_monitor \<Rightarrow> u64" where
  "open_mask f = (if fm_enable_permission f \<noteq> 0 then FAN_OPEN_PERM else FAN_OPEN)"

definition fanotify_monitor_mark_directory :: "'w fa_os \<Rightarrow> 'w fanotify_monitor \<Rightarrow> string \<Rightarrow> int \<times> 'w" where
  "fanotify_monitor_mark_directory os f path =
    fo_mark os (fm_fanotify_fd f) FAN_MARK_ADD (open_mask f OR FAN_EVENT_ON_CHILD) path (fm_world f)"

definition fanotify_monitor_unmark_directory :: "'w fa_os \<Rightarrow> 'w fanotify_monitor \<Rightarrow> string \<Rightarrow> int \<times> 'w" where
  "fanotify_monitor_unmark_directory os f path =
    fo_mark os (fm_fanotify_fd f) FAN_MARK_REMOVE (open_mask f OR FAN_EVENT_ON_CHILD) path (fm_world f)"

definition fanotify_monitor_mark_mount :: "'w fa_os \<Rightarrow> 'w fanotify_monitor \<Rightarrow> string \<Rightarrow> int \<times> 'w" where
  "fanotify_monitor_mark_mount os f path =
    fo_mark os (fm_fanotify_fd f) (FAN_MARK_ADD OR FAN_MARK_MOUNT) (open_mask f) path (fm_world f)"

definition fanotify_monitor_unmark_mount :: "'w fa_os \<Rightarrow> 'w fanotify_monitor \<Rightarrow> string \<Rightarrow> int \<times> 'w" where
  "fanotify_monitor_unmark_mount os f path =
    fo_mark os (fm_fanotify_fd f) (FAN_MARK_REMOVE OR FAN_MARK_MOUNT) (open_mask f) path (fm_world f)"

section \<open>What the rest of the program does to the answers\<close>

text \<open>
  Documented behaviour of the kernel over the answers it received: writing one appends it, no other
  call does, a negative descriptor has no mode. The scan functions of the modules and the listeners
  write none; the listeners leave the list of listeners alone.
\<close>

definition answer_laws :: "'w fa_env \<Rightarrow> ('w \<Rightarrow> (int \<times> u32) list) \<Rightarrow> bool" where
  "answer_laws env answers \<longleftrightarrow>
    (\<forall>fd a w. answers (snd (fo_write (fa_os env) fd a w)) = answers w @ [a])
    \<and> (\<forall>p w. answers (snd (so_open (fo_scan (fa_os env)) p w)) = answers w)
    \<and> (\<forall>fd w. answers (snd (so_mime_type_guess_fd (fo_scan (fa_os env)) fd w)) = answers w)
    \<and> (\<forall>fd w. answers (snd (so_lseek (fo_scan (fa_os env)) fd w)) = answers w)
    \<and> (\<forall>fd w. answers (snd (so_close (fo_scan (fa_os env)) fd w)) = answers w)
    \<and> (\<forall>fd w. answers (snd (fo_read (fa_os env) fd w)) = answers w)
    \<and> (\<forall>fd w. fd < 0 \<longrightarrow> fo_fstat (fa_os env) fd w = None)
    \<and> (\<forall>m \<in> set (mm_modules (fa_mm env)). \<forall>g. mod_scan_fun m = Some g \<longrightarrow>
        (\<forall>i fd p t w. answers (snd (g i fd p t w)) = answers w))
    \<and> (\<exists>h. fa_call env = (\<lambda>c ev d (s, w). Some (s, h c ev d w)) \<and> (\<forall>c ev d w. answers (h c ev d w) = answers w))"

definition fa_sound :: "'w fa_env \<Rightarrow> 'w fanotify_monitor \<Rightarrow> bool" where
  "fa_sound env f \<longleftrightarrow> fm_enable_permission f \<noteq> 0
    \<and> cache_sound (fa_mm env) (fm_scan_conf f) \<and> typed_modules (fa_mm env) (fm_scan_conf f)
    \<and> (\<exists>ls. listens (fm_source f) ls)"

lemma fa_sound_frame [frame_simps, simp]:
  "fa_sound env (f\<lparr>fm_world := w\<rparr>) = fa_sound env f"
  "fa_sound env (f\<lparr>fm_thread_pool := p\<rparr>) = fa_sound env f"
  "fa_sound env (f\<lparr>fm_watchdog := wd\<rparr>) = fa_sound env f"
  by (simp_all add: fa_sound_def)

text \<open>A context that a task can scan, for a descriptor.\<close>

definition task_for :: "'w fa_env \<Rightarrow> a6o_scan_context \<Rightarrow> int \<Rightarrow> bool" where
  "task_for env ctx fd \<longleftrightarrow> (\<exists>c t mods. ctx_fields ctx = Some c \<and> cx_fd c = fd \<and> cx_mime_type c = Some t
    \<and> cx_applicable_modules c = Some mods \<and> (\<forall>i \<in> set mods. i < length (mm_modules (fa_mm env))))"

lemma answer_lawsD:
  assumes "answer_laws env answers"
  shows "answers (snd (fo_write (fa_os env) fd a w)) = answers w @ [a]"
    and "answers (snd (so_open (fo_scan (fa_os env)) p w)) = answers w"
    and "answers (snd (so_mime_type_guess_fd (fo_scan (fa_os env)) fd w)) = answers w"
    and "answers (snd (so_lseek (fo_scan (fa_os env)) fd w)) = answers w"
    and "answers (snd (so_close (fo_scan (fa_os env)) fd w)) = answers w"
    and "answers (snd (fo_read (fa_os env) fd w)) = answers w"
    and "fd < 0 \<Longrightarrow> fo_fstat (fa_os env) fd w = None"
    and "m \<in> set (mm_modules (fa_mm env)) \<Longrightarrow> mod_scan_fun m = Some g \<Longrightarrow> answers (snd (g i fd c t w)) = answers w"
    and "\<exists>h. fa_call env = (\<lambda>c ev d (s, w). Some (s, h c ev d w)) \<and> (\<forall>c ev d w. answers (h c ev d w) = answers w)"
  using assms unfolding answer_laws_def by (cases a; simp)+

lemma answers_response:
  assumes "answer_laws env answers"
  shows "answers (response_write (fa_os env) ffd fd r w) = answers w @ [(fd, r)]"
  using answer_lawsD(1) [OF assms, of ffd "(fd, r)" w] answer_lawsD(5) [OF assms]
  by (auto simp: response_write_def split: prod.split)

lemma answer_step [simp]:
  "answer env fd r f = Some (f\<lparr>fm_world := response_write (fa_os env) (fm_fanotify_fd f) fd r (fm_world f)\<rparr>)"
  by (cases f) (simp add: answer_def watchdog_remove_def ENABLE_WATCHDOG_def)

lemma answers_scan_apply:
  assumes "answer_laws env answers" "\<forall>i \<in> set is. i < length (mm_modules (fa_mm env))"
    and "scan_apply_modules (fo_scan (fa_os env)) (fa_mm env) fd path mime is cur report w = Some (r, w')"
  shows "answers w' = answers w"
  using assms(2,3)
proof (induction "is" arbitrary: cur report w)
  case (Cons i "is")
  show ?case
  proof (cases "mod_status (mm_modules (fa_mm env) ! i) = A6O_MOD_OK")
    case False
    with Cons show ?thesis by simp
  next
    case True
    obtain off w1 where seek: "so_lseek (fo_scan (fa_os env)) fd w = (off, w1)" by force
    then have w1: "answers w1 = answers w"
      using answer_lawsD(4) [OF assms(1)] by (metis snd_conv)
    show ?thesis
    proof (cases "off < 0")
      case off: True
      with True seek Cons.prems(2) w1 show ?thesis by auto
    next
      case False
      with True seek Cons.prems(2) obtain g where g: "mod_scan_fun (mm_modules (fa_mm env) ! i) = Some g"
        by (auto simp: Let_def split: option.splits)
      obtain st rep w2 where call: "g i fd path mime w1 = ((st, rep), w2)"
        by (metis prod.exhaust)
      have "mm_modules (fa_mm env) ! i \<in> set (mm_modules (fa_mm env))"
        using Cons.prems(1) by simp
      then have w2: "answers w2 = answers w"
        using answer_lawsD(8) [OF assms(1) _ g] call w1 by (metis snd_conv)
      with Cons.prems True seek False g call w1 Cons.IH show ?thesis
        by (auto simp: Let_def split: option.splits if_splits)
    qed
  qed
qed simp

lemma answers_context_get:
  assumes "answer_laws env answers"
    and "a6o_scan_context_get (fo_scan (fa_os env)) (fa_mm env) ctx fd path conf report w = Some (r, w')"
  shows "answers w' = answers w"
proof -
  note laws = answer_lawsD(2,3) [OF assms(1)]
  have opened: "answers w1 = answers w"
    if "(if fd < 0 then case path of None \<Rightarrow> (fd, w) | Some p \<Rightarrow> so_open (fo_scan (fa_os env)) p w else (fd, w)) = (fd1, w1)"
    for fd1 w1
    using that laws(1) by (auto split: if_splits option.splits) (metis snd_conv)
  have guessed: "answers w2 = answers w1" if "so_mime_type_guess_fd (fo_scan (fa_os env)) fd1 w1 = (t, w2)" for fd1 w1 t w2
    using that laws(2) by (metis snd_conv)
  obtain fd1 w1 where o: "(if fd < 0 then case path of None \<Rightarrow> (fd, w) | Some p \<Rightarrow> so_open (fo_scan (fa_os env)) p w else (fd, w)) = (fd1, w1)"
    by (metis prod.exhaust)
  obtain t w2 where g: "so_mime_type_guess_fd (fo_scan (fa_os env)) fd1 w1 = (t, w2)" by force
  have "w' = w \<or> w' = w1 \<or> w' = w2"
    using assms(2) unfolding a6o_scan_context_get_def o Let_def prod.case g
    by (auto split: if_splits option.splits)
  then show ?thesis
    using opened [OF o] guessed [OF g] by auto
qed

lemma context_get_fd:
  assumes "0 \<le> fd" "a6o_scan_context_get os mm ctx0 fd path conf report w = Some ((ctx, r), w')"
  shows "\<exists>c. ctx_fields ctx = Some c \<and> cx_fd c = fd"
  using assms unfolding a6o_scan_context_get_def Let_def
  by (auto split: if_splits option.splits prod.splits)

lemma answers_destroy:
  assumes "answer_laws env answers" "a6o_scan_context_destroy (fo_scan (fa_os env)) ctx w = Some (r, w')"
  shows "answers w' = answers w"
proof (cases "ctx_fields ctx")
  case None
  with assms(2) show ?thesis
    by (simp add: a6o_scan_context_destroy_def a6o_scan_context_close_def)
next
  case (Some c)
  have "answers (snd (so_close (fo_scan (fa_os env)) (cx_fd c) w)) = answers w"
    by (rule answer_lawsD(5) [OF assms(1)])
  with Some assms(2) show ?thesis
    by (cases "so_close (fo_scan (fa_os env)) (cx_fd c) w")
       (auto simp: a6o_scan_context_destroy_def a6o_scan_context_close_def split: if_splits)
qed

section \<open>One task, one event\<close>

lemma notify_answers:
  "(\<And>c ev d w. answers (h c ev d w) = answers w) \<Longrightarrow> answers (notify h ev ls w) = answers w"
  by (induction h ev ls w rule: notify.induct) auto

lemma fire_detection_answers:
  assumes "answer_laws env answers" "fa_sound env f"
    and "rep_path r \<noteq> None" "rep_module_name r \<noteq> None \<and> rep_module_report r \<noteq> None"
  shows "\<exists>f'. fire_detection_event_fa env r f = Some f' \<and> answers (fm_world f') = answers (fm_world f)
    \<and> fa_sound env f' \<and> fm_thread_pool f' = fm_thread_pool f"
proof -
  obtain h where h: "fa_call env = (\<lambda>c ev d (s, w). Some (s, h c ev d w))"
      "\<And>c ev d w. answers (h c ev d w) = answers w"
    using answer_lawsD(9) [OF assms(1)] by blast
  obtain ls where ls: "listens (fm_source f) ls"
    using assms(2) by (auto simp: fa_sound_def)
  let ?d = "\<lparr>det_context = CONTEXT_REAL_TIME, det_scan_id = fo_stack_id (fa_os env), det_path = rep_path r,
        det_scan_status = rep_status r, det_scan_action = rep_action r,
        det_module_name = rep_module_name r, det_module_report = rep_module_report r\<rparr>"
  have "a6o_event_new (fa_time env (fm_world f)) (Ev_detection ?d) \<noteq> None"
    using assms(3,4) unfolding event_new_defined by simp
  then obtain ev where ev: "a6o_event_new (fa_time env (fm_world f)) (Ev_detection ?d) = Some ev"
    by blast
  have "a6o_event_source_fire_event (fa_call env) (fm_source f) ev (fm_world f)
      = Some (fm_source f, notify h ev ls (fm_world f))"
    using ls fire_loop_notify [of "fm_source f" "src_callbacks (fm_source f)" _ ls h ev "fm_world f"]
    by (auto simp: listens_def a6o_event_source_fire_event_def h(1))
  with ev assms(2) notify_answers [of answers h, OF h(2)] show ?thesis
    by (auto simp: fire_detection_event_fa_def)
qed

lemma task_answers:
  assumes "answer_laws env answers" "behaved_modules (fa_mm env)" "fa_sound env f" "task_for env ctx fd"
  shows "\<exists>f' st rep w1. scan_file_thread_fun env ctx f = Some f'
    \<and> a6o_scan_context_scan (fo_scan (fa_os env)) (fa_mm env) ctx
        (Some (a6o_report_init (cx_path (the (ctx_fields ctx))))) (fm_world f) = Some ((st, rep), w1)
    \<and> answers (fm_world f') = answers (fm_world f) @ [(fd, if st = A6O_FILE_MALWARE then FAN_DENY else FAN_ALLOW)]
    \<and> fa_sound env f' \<and> fm_thread_pool f' = fm_thread_pool f"
proof -
  obtain c t mods where c: "ctx_fields ctx = Some c" "cx_fd c = fd" "cx_mime_type c = Some t"
      "cx_applicable_modules c = Some mods" "\<forall>i \<in> set mods. i < length (mm_modules (fa_mm env))"
    using assms(4) by (auto simp: task_for_def)
  obtain st r w1 where scan: "scan_apply_modules (fo_scan (fa_os env)) (fa_mm env) (cx_fd c) (cx_path c) t mods
      A6O_FILE_UNDECIDED (Some (a6o_report_init (cx_path c))) (fm_world f) = Some ((st, Some r), w1)"
      "complete_report r" "rep_path r = cx_path c" "st = rep_status r \<or> st = A6O_FILE_IERROR"
    using scan_apply_total [OF assms(2) c(5), of A6O_FILE_UNDECIDED "a6o_report_init (cx_path c)" "cx_path c"
        "fo_scan (fa_os env)" "cx_fd c" "cx_path c" t "fm_world f"]
    by (auto simp: ranked_def complete_report_change)
  have w1: "answers w1 = answers (fm_world f)"
    by (rule answers_scan_apply [OF assms(1) c(5) scan(1)])
  let ?w2 = "response_write (fa_os env) (fm_fanotify_fd f) fd
      (if st = A6O_FILE_MALWARE then FAN_DENY else FAN_ALLOW) w1"
  obtain fr w3 where w3: "a6o_scan_context_destroy (fo_scan (fa_os env)) (clear_fd ctx) ?w2 = Some (fr, w3)"
    using context_destroy_total [of "clear_fd ctx"] c(1) by (force simp: clear_fd_def)
  have ans: "answers w3 = answers (fm_world f) @ [(fd, if st = A6O_FILE_MALWARE then FAN_DENY else FAN_ALLOW)]"
    using answers_destroy [OF assms(1) w3] answers_response [OF assms(1)] w1 by simp
  let ?f3 = "f\<lparr>fm_world := w3\<rparr>"
  obtain f' where f': "(if (st = A6O_FILE_MALWARE \<or> st = A6O_FILE_SUSPICIOUS) \<and> rep_path r \<noteq> None
      then fire_detection_event_fa env r ?f3 else Some ?f3) = Some f'" "answers (fm_world f') = answers w3"
      "fa_sound env f'" "fm_thread_pool f' = fm_thread_pool f"
  proof (cases "(st = A6O_FILE_MALWARE \<or> st = A6O_FILE_SUSPICIOUS) \<and> rep_path r \<noteq> None")
    case True
    then have "rep_module_name r \<noteq> None \<and> rep_module_report r \<noteq> None"
      using scan(2,4) by (auto simp: complete_report_def)
    with True fire_detection_answers [OF assms(1), of ?f3 r] assms(3) that show ?thesis
      by auto
  qed (use assms(3) that in auto)
  have "scan_file_thread_fun env ctx f = Some f'"
    using c scan(1) w3 f'(1) assms(3)
    by (simp add: scan_file_thread_fun_def a6o_scan_context_scan_def fanotify_monitor_is_enable_permission_def
        fa_sound_def)
  with f' ans c scan(1) show ?thesis
    by (auto simp: a6o_scan_context_scan_def)
qed

lemma perm_event_answers:
  assumes "answer_laws env answers" "behaved_modules (fa_mm env)" "fa_sound env f"
  shows "\<exists>f'. fanotify_perm_event_process env event path f = Some f' \<and> fa_sound env f'
    \<and> fm_my_pid f' = fm_my_pid f
    \<and> (answers (fm_world f') = answers (fm_world f) @ [(fe_fd event, FAN_ALLOW)]
          \<and> fm_thread_pool f' = fm_thread_pool f
       \<or> answers (fm_world f') = answers (fm_world f)
          \<and> (\<exists>ctx. fm_thread_pool f' = fm_thread_pool f @ [ctx] \<and> task_for env ctx (fe_fd event)))"
proof (cases "stat_check (fa_os env) (fe_fd event) (fm_world f)")
  case True
  with assms(3) answers_response [OF assms(1)] show ?thesis
    by (simp add: fanotify_perm_event_process_def)
next
  case False
  then have fd: "0 \<le> fe_fd event"
    using answer_lawsD(7) [OF assms(1), of "fe_fd event" "fm_world f"] by (cases "fe_fd event < 0") (simp_all add: stat_check_def)
  have sound: "cache_sound (fa_mm env) (fm_scan_conf f)" "typed_modules (fa_mm env) (fm_scan_conf f)"
    using assms(3) by (simp_all add: fa_sound_def)
  obtain ctx conf rep w where get: "a6o_scan_context_get (fo_scan (fa_os env)) (fa_mm env) stack_context
      (fe_fd event) path (fm_scan_conf f) None (fm_world f) = Some ((ctx, conf, rep), w)"
      "cache_sound (fa_mm env) conf" "typed_modules (fa_mm env) conf"
    and must: "ctx_status ctx = A6O_SC_MUST_SCAN \<Longrightarrow>
      \<exists>c t mods. ctx_fields ctx = Some c \<and> cx_mime_type c = Some t
        \<and> cx_applicable_modules c = Some mods \<and> applicable (fa_mm env) (fm_scan_conf f) t = Some mods"
    using context_get_classified [OF sound, of "fo_scan (fa_os env)" stack_context "fe_fd event" path None "fm_world f"]
    by (auto split: a6o_scan_context_status.splits) (fastforce | metis a6o_scan_context_status.exhaust)+
  have w: "answers w = answers (fm_world f)"
    by (rule answers_context_get [OF assms(1) get(1)])
  obtain c where c: "ctx_fields ctx = Some c" "cx_fd c = fe_fd event"
    using context_get_fd [OF fd get(1)] by blast
  have s1: "fa_sound env (f\<lparr>fm_scan_conf := conf, fm_world := w\<rparr>)"
    using assms(3) get(2,3) by (simp add: fa_sound_def)
  show ?thesis
  proof (cases "ctx_status ctx = A6O_SC_MUST_SCAN")
    case True
    with must c applicable_bound [OF sound(2)] have "task_for env ctx (fe_fd event)"
      by (auto simp: task_for_def)
    with True False get(1) w s1 show ?thesis
      by (auto simp: fanotify_perm_event_process_def Let_def)
  next
    case skip: False
    let ?w1 = "response_write (fa_os env) (fm_fanotify_fd f) (fe_fd event) FAN_ALLOW w"
    obtain fr w2 where w2: "a6o_scan_context_destroy (fo_scan (fa_os env)) (clear_fd ctx) ?w1 = Some (fr, w2)"
      using context_destroy_total [of "clear_fd ctx"] c(1) by (force simp: clear_fd_def)
    have "answers w2 = answers (fm_world f) @ [(fe_fd event, FAN_ALLOW)]"
      using answers_destroy [OF assms(1) w2] answers_response [OF assms(1)] w by simp
    with skip False get(1) w2 s1 show ?thesis
      by (auto simp: fanotify_perm_event_process_def Let_def)
  qed
qed

section \<open>Reading a batch of events\<close>

definition perm_events :: "fanotify_event list \<Rightarrow> fanotify_event list" where
  "perm_events evs = filter (\<lambda>e. fe_mask e AND FAN_OPEN_PERM \<noteq> 0) evs"

lemma perm_events_simps [simp]:
  "perm_events [] = []"
  "perm_events (e # es) = (if fe_mask e AND FAN_OPEN_PERM \<noteq> 0 then e # perm_events es else perm_events es)"
  by (simp_all add: perm_events_def)

definition own_fds :: "int \<Rightarrow> fanotify_event list \<Rightarrow> int list" where
  "own_fds pid evs = map fe_fd (filter (\<lambda>e. fe_pid e = pid) (perm_events evs))"

definition foreign_fds :: "int \<Rightarrow> fanotify_event list \<Rightarrow> int list" where
  "foreign_fds pid evs = map fe_fd (filter (\<lambda>e. fe_pid e \<noteq> pid) (perm_events evs))"

lemma own_foreign: "mset (own_fds pid evs) + mset (foreign_fds pid evs) = mset (map fe_fd (perm_events evs))"
  unfolding own_fds_def foreign_fds_def by (induction evs) auto

lemma pass_1_answers:
  assumes "answer_laws env answers" "fa_sound env f"
  shows "\<exists>f'. fanotify_pass_1 env evs f = Some f' \<and> fa_sound env f'
    \<and> answers (fm_world f') = answers (fm_world f) @ map (\<lambda>fd. (fd, FAN_ALLOW)) (own_fds (fm_my_pid f) evs)
    \<and> fm_thread_pool f' = fm_thread_pool f \<and> fm_my_pid f' = fm_my_pid f"
  using assms(2)
proof (induction evs arbitrary: f)
  case (Cons e evs)
  let ?w = "response_write (fa_os env) (fm_fanotify_fd f) (fe_fd e) FAN_ALLOW (fm_world f)"
  have ans: "answers ?w = answers (fm_world f) @ [(fe_fd e, FAN_ALLOW)]"
    by (rule answers_response [OF assms(1)])
  show ?case
  proof (cases "fe_mask e AND FAN_OPEN_PERM \<noteq> 0 \<and> fe_pid e = fm_my_pid f")
    case True
    with Cons.IH [of "f\<lparr>fm_world := ?w\<rparr>"] Cons.prems ans show ?thesis
      by (auto simp: own_fds_def)
  next
    case False
    then have "fanotify_pass_1 env (e # evs) f = fanotify_pass_1 env evs f"
      by (auto simp: watchdog_add_def ENABLE_WATCHDOG_def)
    with False Cons.IH [OF Cons.prems] show ?thesis
      by (auto simp: own_fds_def)
  qed
qed (simp add: own_fds_def)

definition only_permissions :: "fanotify_event list \<Rightarrow> bool" where
  "only_permissions evs \<longleftrightarrow> (\<forall>e \<in> set evs. fe_mask e AND FAN_OPEN_PERM = 0 \<longrightarrow> fe_mask e AND FAN_OPEN = 0)"

lemma pass_2_answers:
  assumes "answer_laws env answers" "behaved_modules (fa_mm env)" "fa_sound env f" "only_permissions evs"
  shows "\<exists>f' xs ctxs ys. fanotify_pass_2 env evs f = Some f' \<and> fa_sound env f'
    \<and> answers (fm_world f') = answers (fm_world f) @ map (\<lambda>fd. (fd, FAN_ALLOW)) xs
    \<and> fm_thread_pool f' = fm_thread_pool f @ ctxs \<and> list_all2 (task_for env) ctxs ys
    \<and> mset xs + mset ys = mset (foreign_fds (fm_my_pid f) evs)"
  using assms(3,4)
proof (induction evs arbitrary: f)
  case (Cons e evs)
  have rest: "only_permissions evs"
    using Cons.prems(2) by (simp add: only_permissions_def)
  let ?p = "get_file_path_from_fd (fa_os env) (fe_fd e) (fm_world f)"
  show ?case
  proof (cases "fe_pid e \<noteq> fm_my_pid f \<and> fe_mask e AND FAN_OPEN_PERM \<noteq> 0")
    case False
    with Cons.prems(2) have "fanotify_pass_2 env (e # evs) f = fanotify_pass_2 env evs f"
      by (auto simp: only_permissions_def)
    with False Cons.IH [OF Cons.prems(1) rest] show ?thesis
      by (auto simp: foreign_fds_def)
  next
    case True
    obtain f1 where f1: "fanotify_perm_event_process env e ?p f = Some f1" "fa_sound env f1" "fm_my_pid f1 = fm_my_pid f"
        "answers (fm_world f1) = answers (fm_world f) @ [(fe_fd e, FAN_ALLOW)] \<and> fm_thread_pool f1 = fm_thread_pool f
       \<or> answers (fm_world f1) = answers (fm_world f)
          \<and> (\<exists>ctx. fm_thread_pool f1 = fm_thread_pool f @ [ctx] \<and> task_for env ctx (fe_fd e))"
      using perm_event_answers [OF assms(1,2) Cons.prems(1)] by metis
    obtain f' xs ctxs ys where IH: "fanotify_pass_2 env evs f1 = Some f'" "fa_sound env f'"
        "answers (fm_world f') = answers (fm_world f1) @ map (\<lambda>fd. (fd, FAN_ALLOW)) xs"
        "fm_thread_pool f' = fm_thread_pool f1 @ ctxs" "list_all2 (task_for env) ctxs ys"
        "mset xs + mset ys = mset (foreign_fds (fm_my_pid f1) evs)"
      using Cons.IH [OF f1(2) rest] by blast
    have run: "fanotify_pass_2 env (e # evs) f = Some f'"
      using True f1(1) IH(1) by (simp add: Let_def)
    have fds: "foreign_fds (fm_my_pid f) (e # evs) = fe_fd e # foreign_fds (fm_my_pid f1) evs"
      using True f1(3) by (simp add: foreign_fds_def)
    from f1(4) show ?thesis
    proof (elim disjE conjE exE)
      assume "answers (fm_world f1) = answers (fm_world f) @ [(fe_fd e, FAN_ALLOW)]" "fm_thread_pool f1 = fm_thread_pool f"
      with run IH fds show ?thesis
        by (intro exI [of _ f'] exI [of _ "fe_fd e # xs"] exI [of _ ctxs] exI [of _ ys]) simp
    next
      fix ctx
      assume "answers (fm_world f1) = answers (fm_world f)" "fm_thread_pool f1 = fm_thread_pool f @ [ctx]"
        "task_for env ctx (fe_fd e)"
      with run IH fds show ?thesis
        by (intro exI [of _ f'] exI [of _ xs] exI [of _ "ctx # ctxs"] exI [of _ "fe_fd e # ys"]) simp
    qed
  qed
qed (auto simp: foreign_fds_def intro!: exI [of _ "[]"])

lemma fa_pool_answers:
  assumes "answer_laws env answers" "behaved_modules (fa_mm env)" "list_all2 (task_for env) ctxs ys" "fa_sound env f"
  shows "\<exists>f' rs. fa_pool env ctxs f = Some f' \<and> fa_sound env f' \<and> fm_thread_pool f' = fm_thread_pool f
    \<and> length rs = length ys \<and> answers (fm_world f') = answers (fm_world f) @ zip ys rs"
  using assms(3,4)
proof (induction ctxs ys arbitrary: f rule: list_all2_induct)
  case (Cons ctx ctxs fd ys)
  obtain f1 r where f1: "scan_file_thread_fun env ctx f = Some f1" "fa_sound env f1" "fm_thread_pool f1 = fm_thread_pool f"
      "answers (fm_world f1) = answers (fm_world f) @ [(fd, r)]"
    using task_answers [OF assms(1,2) Cons.prems Cons.hyps(1)] by blast
  obtain f' rs where "fa_pool env ctxs f1 = Some f'" "fa_sound env f'" "fm_thread_pool f' = fm_thread_pool f1"
      "length rs = length ys" "answers (fm_world f') = answers (fm_world f1) @ zip ys rs"
    using Cons.IH [OF f1(2)] by blast
  with f1 show ?case
    by (intro exI [of _ f'] exI [of _ "r # rs"]) simp
qed simp

section \<open>Properties\<close>


text \<open>A kernel that records the answers, and a module that finds malware everywhere.\<close>

definition recording_os :: "fanotify_event list \<Rightarrow> (int \<times> u32) list fa_os" where
  "recording_os evs =
    \<lparr>fo_scan = \<lparr>so_open = (\<lambda>p w. (3, w)), so_mime_type_guess_fd = (\<lambda>fd w. (Some ''text/plain'', w)),
       so_lseek = (\<lambda>fd w. (0, w)), so_close = (\<lambda>fd w. (0, w))\<rparr>,
     fo_write = (\<lambda>ffd a w. (0, w @ [a])), fo_readlink = (\<lambda>fd w. Some ''/f''),
     fo_fstat = (\<lambda>fd w. if fd < 0 then None else Some S_IFREG),
     fo_read = (\<lambda>fd w. (Some evs, w)), fo_init = (\<lambda>fl w. (4, w)), fo_mark = (\<lambda>fd fl m p w. (0, w)),
     fo_stack_id = 0\<rparr>"

definition malware_module :: "'w a6o_module" where
  "malware_module = module_new
    \<lparr>mod_init_fun = None, mod_conf_table = None, mod_post_init_fun = None,
     mod_scan_fun = Some (\<lambda>i fd p t w. ((A6O_FILE_MALWARE, Some ''report''), w)), mod_close_fun = None,
     mod_info_fun = None, mod_supported_mime_types = Some [''*''], mod_name = ''m'', mod_size = 0,
     mod_status = A6O_MOD_OK, mod_data = False\<rparr>"

definition recording_env :: "fanotify_event list \<Rightarrow> (int \<times> u32) list fa_env" where
  "recording_env evs = \<lparr>fa_os = recording_os evs, fa_mm = \<lparr>mm_modules = [malware_module]\<rparr>,
     fa_call = (\<lambda>c ev d (s, w). Some (s, w)), fa_time = (\<lambda>w. 0)\<rparr>"

definition recording_monitor :: "(int \<times> u32) list fanotify_monitor" where
  "recording_monitor =
    \<lparr>fm_enable_permission = 1,
     fm_scan_conf = (a6o_scan_conf_new ''x'')\<lparr>scf_mime_types := [''*''], scf_modules := [0]\<rparr>,
     fm_my_pid = 42, fm_fanotify_fd = 4, fm_thread_pool = [], fm_watchdog = watchdog_new 4,
     fm_source = a6o_event_source_new, fm_world = []\<rparr>"

lemma recording_laws:
  "answer_laws (recording_env evs) (\<lambda>w. w)" "behaved_modules (fa_mm (recording_env evs))"
  "fa_sound (recording_env evs) recording_monitor"
  using listens_new
  by (auto simp: answer_laws_def recording_env_def recording_os_def malware_module_def module_new_def
      behaved_modules_def ranked_def fa_sound_def recording_monitor_def cache_sound_def typed_modules_def
      a6o_scan_conf_new_def intro!: exI [of _ "\<lambda>c ev d w. w"])




text \<open>
  descriptors that leak. Without permissions, an event of the daemon itself, and one for a file that
  is not a plain file, are dropped without any call at all, so that the descriptor that came with the
  event stays open.
\<close>

theorem notification_descriptor_leaks:
  assumes "fe_mask e AND FAN_OPEN_PERM = 0" "fe_pid e = fm_my_pid f \<or> stat_check (fa_os env) (fe_fd e) (fm_world f)"
  shows "fanotify_pass_1 env [e] f = Some f \<and> fanotify_pass_2 env [e] f = Some f"
  using assms by (auto simp: fanotify_notify_event_process_def Let_def)

theorem notification_descriptor_leaks_witness:
  "fanotify_pass_2 (recording_env []) [\<lparr>fe_mask = FAN_OPEN, fe_fd = 5, fe_pid = 42\<rparr>] recording_monitor
    = Some recording_monitor"
  using notification_descriptor_leaks [of "\<lparr>fe_mask = FAN_OPEN, fe_fd = 5, fe_pid = 42\<rparr>" recording_monitor
      "recording_env []"] by (simp add: FAN_OPEN_def FAN_OPEN_PERM_def recording_monitor_def)

end
