(* ===== verification/Inotify.thy ===== *)
theory Inotify
  imports OsDir
begin

text \<open>
  The inotify side of the on-access protection,
  \<open>libcore/arch/linux/builtin-modules/on-access/imonitor.c\<close>: the watches on directories and the two
  tables that relate watch descriptors and paths. Fanotify does not report the creation of
  directories, so every protected directory is also watched with inotify. What the monitor does with
  an event is in theory \<open>AccessMonitor\<close>.
\<close>

section \<open>The kernel\<close>

definition IN_MOVED_FROM :: u32 where "IN_MOVED_FROM = 0x40"
definition IN_MOVED_TO :: u32 where "IN_MOVED_TO = 0x80"
definition IN_MOVE :: u32 where "IN_MOVE = IN_MOVED_FROM OR IN_MOVED_TO"
definition IN_CREATE :: u32 where "IN_CREATE = 0x100"
definition IN_DELETE :: u32 where "IN_DELETE = 0x200"
definition IN_ONLYDIR :: u32 where "IN_ONLYDIR = 0x01000000"
definition IN_ISDIR :: u32 where "IN_ISDIR = 0x40000000"

lemmas in_defs = IN_MOVED_FROM_def IN_MOVED_TO_def IN_MOVE_def IN_CREATE_def IN_DELETE_def IN_ISDIR_def

text \<open>An event; \<open>None\<close> for the name when \<open>len\<close> is 0.\<close>

record inotify_event =
  ie_wd :: int
  ie_mask :: u32
  ie_name :: cstr

record 'w inotify_os =
  io_init :: "'w \<Rightarrow> int \<times> 'w"
  io_add_watch :: "int \<Rightarrow> string \<Rightarrow> u32 \<Rightarrow> 'w \<Rightarrow> int \<times> 'w"
  io_rm_watch :: "int \<Rightarrow> int \<Rightarrow> 'w \<Rightarrow> int \<times> 'w"
  io_read :: "int \<Rightarrow> 'w \<Rightarrow> inotify_event list \<times> 'w"

section \<open>The monitor\<close>

record inotify_monitor =
  im_inotify_fd :: int
  im_wd2path_table :: "int \<Rightarrow> string option"
  im_path2wd_table :: "string \<Rightarrow> int option"

text \<open>The descriptor is not set before the monitor is started; -1 stands for its indeterminate value.\<close>

definition inotify_monitor_new :: inotify_monitor where
  "inotify_monitor_new = \<lparr>im_inotify_fd = -1, im_wd2path_table = (\<lambda>_. None), im_path2wd_table = (\<lambda>_. None)\<rparr>"

text \<open>A failing initialisation is logged with level error, which aborts.\<close>

definition inotify_monitor_start :: "'w inotify_os \<Rightarrow> inotify_monitor \<times> 'w \<Rightarrow> (int \<times> inotify_monitor \<times> 'w) option" where
  "inotify_monitor_start os st = (case st of (im, w) \<Rightarrow>
    (case io_init os w of
       (fd, w1) \<Rightarrow> if fd = -1 then None else Some (0, im\<lparr>im_inotify_fd := fd\<rparr>, w1)))"

definition inotify_monitor_mark_directory ::
  "'w inotify_os \<Rightarrow> string \<Rightarrow> inotify_monitor \<times> 'w \<Rightarrow> int \<times> inotify_monitor \<times> 'w" where
  "inotify_monitor_mark_directory os path st = (case st of (im, w) \<Rightarrow>
    (case io_add_watch os (im_inotify_fd im) path (IN_ONLYDIR OR IN_MOVE OR IN_DELETE OR IN_CREATE) w of
       (wd, w1) \<Rightarrow>
         if wd = -1 then (-1, im, w1)
         else (0, im\<lparr>im_wd2path_table := (im_wd2path_table im)(wd \<mapsto> path),
                     im_path2wd_table := (im_path2wd_table im)(path \<mapsto> wd)\<rparr>, w1)))"

text \<open>A watch descriptor stored as a pointer reads as NULL when it is 0.\<close>

definition lookup_wd :: "inotify_monitor \<Rightarrow> string \<Rightarrow> int option" where
  "lookup_wd im path = (case im_path2wd_table im path of
       None \<Rightarrow> None
     | Some wd \<Rightarrow> if wd = 0 then None else Some wd)"

definition inotify_monitor_unmark_directory ::
  "'w inotify_os \<Rightarrow> string \<Rightarrow> inotify_monitor \<times> 'w \<Rightarrow> int \<times> inotify_monitor \<times> 'w" where
  "inotify_monitor_unmark_directory os path st = (case st of (im, w) \<Rightarrow>
    (let (im1, w1) =
       (case lookup_wd im path of
          None \<Rightarrow> (im, w)
        | Some wd \<Rightarrow>
            (im\<lparr>im_wd2path_table := (im_wd2path_table im)(wd := None)\<rparr>,
             snd (io_rm_watch os (im_inotify_fd im) wd w)))
     in (0, im1\<lparr>im_path2wd_table := (im_path2wd_table im1)(path := None)\<rparr>, w1)))"

definition inotify_event_full_path :: "inotify_monitor \<Rightarrow> inotify_event \<Rightarrow> string option" where
  "inotify_event_full_path im event =
    (case im_wd2path_table im (ie_wd event) of
       None \<Rightarrow> None
     | Some dir \<Rightarrow> (case ie_name event of
           Some name \<Rightarrow> Some (dir @ ''/'' @ name)
         | None \<Rightarrow> Some dir))"

section \<open>The tables mirror the watches of the kernel\<close>

text \<open>
  Documented behaviour of the kernel: it keeps one watch per directory, identified by a positive
  descriptor that no other directory has; adding a watch on a watched directory gives its descriptor,
  and a call that fails returns -1. \<open>watches\<close> gives the descriptor of every watched path.
\<close>

definition added_watch :: "(string \<Rightarrow> int option) \<Rightarrow> string \<Rightarrow> int \<Rightarrow> (string \<Rightarrow> int option) \<Rightarrow> bool" where
  "added_watch ws path wd ws' \<longleftrightarrow> 0 < wd \<and> ws' = ws(path \<mapsto> wd) \<and> (\<forall>p. ws p = Some wd \<longrightarrow> p = path)
    \<and> (ws path = None \<or> ws path = Some wd)"

definition watch_laws :: "'w inotify_os \<Rightarrow> ('w \<Rightarrow> string \<Rightarrow> int option) \<Rightarrow> bool" where
  "watch_laws os watches \<longleftrightarrow>
    (\<forall>fd path mask w. \<exists>wd w1. io_add_watch os fd path mask w = (wd, w1)
        \<and> (wd = -1 \<and> watches w1 = watches w \<or> added_watch (watches w) path wd (watches w1)))
    \<and> (\<forall>fd wd w. watches (snd (io_rm_watch os fd wd w)) = (\<lambda>p. if watches w p = Some wd then None else watches w p))
    \<and> (\<forall>w. watches (snd (io_init os w)) = watches w)
    \<and> (\<forall>fd w. watches (snd (io_read os fd w)) = watches w)"

definition mirrors :: "(string \<Rightarrow> int option) \<Rightarrow> inotify_monitor \<Rightarrow> bool" where
  "mirrors ws im \<longleftrightarrow> im_path2wd_table im = ws
    \<and> (\<forall>wd p. im_wd2path_table im wd = Some p \<longleftrightarrow> ws p = Some wd)
    \<and> (\<forall>p wd. ws p = Some wd \<longrightarrow> 0 < wd)"

lemma mirrors_new: "mirrors (\<lambda>_. None) inotify_monitor_new"
  by (simp add: mirrors_def inotify_monitor_new_def)

lemma mirrors_added:
  assumes "mirrors ws im" "added_watch ws path wd ws'"
  shows "mirrors ws' (im\<lparr>im_wd2path_table := (im_wd2path_table im)(wd \<mapsto> path),
                         im_path2wd_table := (im_path2wd_table im)(path \<mapsto> wd)\<rparr>)"
proof -
  have p2: "im_path2wd_table im = ws" and p1: "\<And>wd p. im_wd2path_table im wd = Some p \<longleftrightarrow> ws p = Some wd"
    and pos: "\<And>p wd. ws p = Some wd \<Longrightarrow> 0 < wd"
    using assms(1) unfolding mirrors_def by blast+
  have wd: "0 < wd" "ws' = ws(path \<mapsto> wd)" "\<And>p. ws p = Some wd \<Longrightarrow> p = path" "ws path = None \<or> ws path = Some wd"
    using assms(2) by (simp_all add: added_watch_def)
  show ?thesis
    unfolding mirrors_def
  proof (intro conjI allI impI)
    fix wd' p
    show "im_wd2path_table (im\<lparr>im_wd2path_table := (im_wd2path_table im)(wd \<mapsto> path),
        im_path2wd_table := (im_path2wd_table im)(path \<mapsto> wd)\<rparr>) wd' = Some p \<longleftrightarrow> ws' p = Some wd'"
    proof (cases "wd' = wd")
      case True
      then show ?thesis
        using wd(3) [of p] by (auto simp: wd(2))
    next
      case False
      have "ws path \<noteq> Some wd'"
        using wd(4) False by auto
      then show ?thesis
        using False by (auto simp: wd(2) p1)
    qed
  next
    fix p wd'
    assume "ws' p = Some wd'"
    then show "0 < wd'"
      using pos [of p wd'] wd(1) by (simp add: wd(2) split: if_splits)
  qed (simp add: p2 wd(2))
qed

lemma mark_mirrors:
  assumes "watch_laws os watches" "mirrors (watches w) im"
  shows "\<exists>r im1 w1. inotify_monitor_mark_directory os path (im, w) = (r, im1, w1)
    \<and> (r = -1 \<and> watches w1 = watches w \<or> r = 0 \<and> (\<exists>wd. added_watch (watches w) path wd (watches w1)))
    \<and> mirrors (watches w1) im1 \<and> im_inotify_fd im1 = im_inotify_fd im"
proof -
  obtain wd w1 where w1: "io_add_watch os (im_inotify_fd im) path (IN_ONLYDIR OR IN_MOVE OR IN_DELETE OR IN_CREATE) w = (wd, w1)"
      "wd = -1 \<and> watches w1 = watches w \<or> added_watch (watches w) path wd (watches w1)"
    using assms(1) unfolding watch_laws_def by blast
  show ?thesis
  proof (cases "wd = -1")
    case True
    then have "watches w1 = watches w"
      using w1(2) by (auto simp: added_watch_def)
    with True w1(1) assms(2) show ?thesis
      by (simp add: inotify_monitor_mark_directory_def)
  next
    case False
    then have a: "added_watch (watches w) path wd (watches w1)"
      using w1(2) by blast
    with False w1(1) mirrors_added [OF assms(2) a] show ?thesis
      by (auto simp: inotify_monitor_mark_directory_def)
  qed
qed

lemma unmark_mirrors:
  assumes "watch_laws os watches" "mirrors (watches w) im"
  shows "\<exists>im1 w1. inotify_monitor_unmark_directory os path (im, w) = (0, im1, w1)
    \<and> watches w1 = (watches w)(path := None) \<and> mirrors (watches w1) im1 \<and> im_inotify_fd im1 = im_inotify_fd im"
proof -
  have rm: "watches (snd (io_rm_watch os fd wd w)) = (\<lambda>p. if watches w p = Some wd then None else watches w p)" for fd wd
    using assms(1) unfolding watch_laws_def by blast
  have p2: "im_path2wd_table im = watches w" and p1: "\<And>wd p. im_wd2path_table im wd = Some p \<longleftrightarrow> watches w p = Some wd"
    and pos: "\<And>p wd. watches w p = Some wd \<Longrightarrow> 0 < wd"
    using assms(2) unfolding mirrors_def by blast+
  show ?thesis
  proof (cases "watches w path")
    case None
    then have "lookup_wd im path = None" "(watches w)(path := None) = watches w"
      by (auto simp: lookup_wd_def p2)
    then show ?thesis
      using assms(2) by (simp add: inotify_monitor_unmark_directory_def mirrors_def)
  next
    case (Some wd)
    then have l: "lookup_wd im path = Some wd"
      using pos [OF Some] by (simp add: lookup_wd_def p2)
    have one: "watches w p = Some wd \<longleftrightarrow> p = path" for p
      using p1 [of wd p] p1 [of wd path] Some by auto
    have ws: "watches (snd (io_rm_watch os (im_inotify_fd im) wd w)) = (watches w)(path := None)"
      unfolding rm using one by (auto simp: fun_eq_iff)
    have "mirrors ((watches w)(path := None)) (im\<lparr>im_wd2path_table := (im_wd2path_table im)(wd := None),
        im_path2wd_table := (im_path2wd_table im)(path := None)\<rparr>)"
      unfolding mirrors_def
    proof (intro conjI allI impI)
      fix wd' p
      show "im_wd2path_table (im\<lparr>im_wd2path_table := (im_wd2path_table im)(wd := None),
          im_path2wd_table := (im_path2wd_table im)(path := None)\<rparr>) wd' = Some p
        \<longleftrightarrow> ((watches w)(path := None)) p = Some wd'"
        using one [of p] p1 [of wd' p] Some by (cases "wd' = wd"; cases "p = path") simp_all
    next
      fix p wd'
      assume "((watches w)(path := None)) p = Some wd'"
      then show "0 < wd'"
        using pos [of p wd'] by (simp split: if_splits)
    qed (simp add: p2)
    then show ?thesis
      by (simp add: inotify_monitor_unmark_directory_def l ws)
  qed
qed

text \<open>The path of an event, while the tables mirror the watches, is that of the directory it names.\<close>

lemma full_path_mirrors:
  assumes "mirrors ws im" "ws dir = Some wd"
  shows "inotify_event_full_path im \<lparr>ie_wd = wd, ie_mask = mk, ie_name = Some name\<rparr> = Some (entry_path dir name)"
proof -
  have "im_wd2path_table im wd = Some dir"
    using assms by (simp add: mirrors_def)
  then show ?thesis
    by (simp add: inotify_event_full_path_def entry_path_def)
qed

end
