(* ===== verification/AccessMonitor.thy ===== *)
theory AccessMonitor
  imports Fanotify Inotify
begin

text \<open>
  The on-access monitor, \<open>libcore/arch/linux/builtin-modules/on-access/monitor.c\<close>, with the
  notifications of mounted media (\<open>mount.c\<close>) and the processing of inotify events (\<open>imonitor.c\<close>). The
  main thread configures the monitor and asks for its start through a pipe; the monitor thread obeys
  commands that come through a second pipe and reacts to the kernel and to D-Bus.

  Each callback of the two main loops is one step; the callbacks of one loop do not overlap, and the
  two loops share the pipes and the flags only.
\<close>

section \<open>Notifications of mounts\<close>

datatype mount_event_type = EVENT_MOUNT | EVENT_UMOUNT | EVENT_UNKNOWN

text \<open>The values of D-Bus messages belong to GLib: their accessors are arguments.\<close>

record 'v gvariant_ops =
  gv_n_children :: "'v \<Rightarrow> nat"
  gv_child :: "'v \<Rightarrow> nat \<Rightarrow> 'v"
  gv_is_string :: "'v \<Rightarrow> bool"
  gv_is_vardict :: "'v \<Rightarrow> bool"
  gv_is_string_array :: "'v \<Rightarrow> bool"
  gv_string :: "'v \<Rightarrow> string"
  gv_lookup :: "'v \<Rightarrow> string \<Rightarrow> 'v option"
  gv_bytestring_array :: "'v \<Rightarrow> string list"

text \<open>The result, and the type and the path stored if it is 1; the path stays NULL for an unmount.\<close>

definition get_mount_event :: "'v gvariant_ops \<Rightarrow> 'v \<Rightarrow> (mount_event_type \<times> cstr) option" where
  "get_mount_event gv parameters =
    (if gv_n_children gv parameters < 3 then None
     else let arg0 = gv_child gv parameters 0; arg1 = gv_child gv parameters 1; arg2 = gv_child gv parameters 2
          in if \<not> gv_is_string gv arg0 \<or> \<not> gv_is_vardict gv arg1 \<or> \<not> gv_is_string_array gv arg2 then None
             else if gv_string gv arg0 \<noteq> ''org.freedesktop.UDisks2.Filesystem'' then None
             else (case gv_lookup gv arg1 ''MountPoints'' of
                     None \<Rightarrow> None
                   | Some v \<Rightarrow> (case gv_bytestring_array gv v of
                         mount_point # _ \<Rightarrow> Some (EVENT_MOUNT, Some mount_point)
                       | [] \<Rightarrow> Some (EVENT_UMOUNT, None))))"

text \<open>The connection to D-Bus, of which only the presence matters.\<close>

record mount_monitor =
  mo_conn :: bool

definition mount_monitor_new :: mount_monitor where
  "mount_monitor_new = \<lparr>mo_conn = False\<rparr>"

definition mount_monitor_start :: "('w \<Rightarrow> bool \<times> 'w) \<Rightarrow> mount_monitor \<times> 'w \<Rightarrow> int \<times> mount_monitor \<times> 'w" where
  "mount_monitor_start bus st = (case st of (mo, w) \<Rightarrow>
    (case bus w of (conn, w1) \<Rightarrow>
       (if \<not> conn then -1 else 0, mo\<lparr>mo_conn := conn\<rparr>, w1)))"

text \<open>The callback of the signal, given the callback of the monitor.\<close>

definition mount_signal_cb ::
  "'v gvariant_ops \<Rightarrow> (mount_event_type \<Rightarrow> cstr \<Rightarrow> 's \<Rightarrow> 's) \<Rightarrow> 'v option \<Rightarrow> 's \<Rightarrow> 's" where
  "mount_signal_cb gv cb parameters s = (case parameters of
       None \<Rightarrow> s
     | Some v \<Rightarrow> (case get_mount_event gv v of
           None \<Rightarrow> s
         | Some (mount_ev, mount_point) \<Rightarrow> cb mount_ev mount_point s))"

section \<open>The monitor\<close>

datatype entry_flag = ENTRY_MOUNT | ENTRY_DIR

record monitor_entry =
  me_path :: string
  me_flag :: entry_flag

text \<open>
  What the monitor asks of the system besides fanotify and inotify: the device of a path, the tree of
  directories below a path, the connection to D-Bus, and whether \<open>pipe\<close>, \<open>read\<close> and \<open>write\<close> succeed.
\<close>

record 'w am_os =
  ao_fa :: "'w fa_os"
  ao_in :: "'w inotify_os"
  ao_dev :: "string \<Rightarrow> 'w \<Rightarrow> u64 option"
  ao_dir :: "string \<Rightarrow> 'w \<Rightarrow> fs_dir"
  ao_bus :: "'w \<Rightarrow> bool \<times> 'w"
  ao_io_ok :: "'w \<Rightarrow> bool"

text \<open>
  The pipes hold the bytes that were written and not yet read; \<open>am_scans\<close> holds the paths of the
  scans of media whose threads were started. The world is that of the fanotify monitor.
\<close>

record 'w access_monitor =
  am_enable :: int
  am_enable_removable_media :: int
  am_autoscan_removable_media :: int
  am_entries :: "monitor_entry list"
  am_start_pipe :: "u8 list"
  am_command_pipe :: "u8 list"
  am_fanotify_monitor :: "'w fanotify_monitor"
  am_inotify_monitor :: inotify_monitor
  am_mount_monitor :: mount_monitor
  am_scans :: "cstr list"

definition am_world :: "'w access_monitor \<Rightarrow> 'w" where
  "am_world m = fm_world (am_fanotify_monitor m)"

definition set_am_world :: "'w \<Rightarrow> 'w access_monitor \<Rightarrow> 'w access_monitor" where
  "set_am_world w m = m\<lparr>am_fanotify_monitor := (am_fanotify_monitor m)\<lparr>fm_world := w\<rparr>\<rparr>"

text \<open>A failing \<open>pipe\<close> is logged with level error, which aborts.\<close>

definition access_monitor_new ::
  "'w am_os \<Rightarrow> int \<Rightarrow> a6o_event_source \<Rightarrow> scan_confs \<times> 'w \<Rightarrow> ('w access_monitor \<times> scan_confs) option" where
  "access_monitor_new os pid src st =
    (if \<not> ao_io_ok os (snd st) then None
     else case fanotify_monitor_new pid src st of
            (f, confs) \<Rightarrow>
              Some (\<lparr>am_enable = 0, am_enable_removable_media = 0, am_autoscan_removable_media = 0,
                     am_entries = [], am_start_pipe = [], am_command_pipe = [], am_fanotify_monitor = f,
                     am_inotify_monitor = inotify_monitor_new, am_mount_monitor = mount_monitor_new,
                     am_scans = []\<rparr>, confs))"

definition access_monitor_enable :: "int \<Rightarrow> 'w access_monitor \<Rightarrow> int \<times> 'w access_monitor" where
  "access_monitor_enable enable m = (enable, m\<lparr>am_enable := enable\<rparr>)"

definition access_monitor_is_enable :: "'w access_monitor \<Rightarrow> int" where
  "access_monitor_is_enable m = am_enable m"

definition access_monitor_enable_permission :: "int \<Rightarrow> 'w access_monitor \<Rightarrow> int \<times> 'w access_monitor" where
  "access_monitor_enable_permission enable_permission m =
    (case fanotify_monitor_enable_permission (am_fanotify_monitor m) enable_permission of
       (r, f) \<Rightarrow> (r, m\<lparr>am_fanotify_monitor := f\<rparr>))"

definition access_monitor_is_enable_permission :: "'w access_monitor \<Rightarrow> int" where
  "access_monitor_is_enable_permission m = fanotify_monitor_is_enable_permission (am_fanotify_monitor m)"

definition access_monitor_enable_removable_media :: "int \<Rightarrow> 'w access_monitor \<Rightarrow> int \<times> 'w access_monitor" where
  "access_monitor_enable_removable_media enable m = (enable, m\<lparr>am_enable_removable_media := enable\<rparr>)"

definition access_monitor_is_enable_removable_media :: "'w access_monitor \<Rightarrow> int" where
  "access_monitor_is_enable_removable_media m = am_enable_removable_media m"

text \<open>The function that sets the flag and the one that reads it.\<close>

definition access_monitor_autoscan_removable_media :: "int \<Rightarrow> 'w access_monitor \<Rightarrow> int \<times> 'w access_monitor" where
  "access_monitor_autoscan_removable_media autoscan m = (autoscan, m\<lparr>am_autoscan_removable_media := autoscan\<rparr>)"

definition access_monitor_is_autoscan_removable_media :: "'w access_monitor \<Rightarrow> int" where
  "access_monitor_is_autoscan_removable_media m = am_autoscan_removable_media m"

definition add_entry :: "string \<Rightarrow> entry_flag \<Rightarrow> 'w access_monitor \<Rightarrow> 'w access_monitor" where
  "add_entry path flag m = m\<lparr>am_entries := am_entries m @ [\<lparr>me_path = path, me_flag = flag\<rparr>]\<rparr>"

text \<open>\<open>dev_t\<close> is unsigned, so the error value -1 is the largest device.\<close>

definition get_dev_id :: "'w am_os \<Rightarrow> string \<Rightarrow> 'w \<Rightarrow> u64" where
  "get_dev_id os path w = (case ao_dev os path w of None \<Rightarrow> -1 | Some st_dev \<Rightarrow> st_dev)"

text \<open>The two tests for an error, which log with level error, compare an unsigned number with 0.\<close>

definition access_monitor_add_mount ::
  "'w am_os \<Rightarrow> string \<Rightarrow> 'w access_monitor \<Rightarrow> 'w access_monitor option" where
  "access_monitor_add_mount os mount_point m =
    (let slash_dev_id = get_dev_id os ''/'' (am_world m)
     in if slash_dev_id < 0 then None
        else let mount_dev_id = get_dev_id os mount_point (am_world m)
             in if mount_dev_id < 0 then None
                else if mount_dev_id = slash_dev_id then Some m
                else Some (add_entry mount_point ENTRY_MOUNT m))"

definition access_monitor_add_directory :: "string \<Rightarrow> 'w access_monitor \<Rightarrow> 'w access_monitor" where
  "access_monitor_add_directory path m = add_entry path ENTRY_DIR m"

section \<open>Start and commands\<close>

definition ACCESS_MONITOR_START :: u8 where "ACCESS_MONITOR_START = 1"
definition ACCESS_MONITOR_STOP :: u8 where "ACCESS_MONITOR_STOP = 2"
definition ACCESS_MONITOR_STATUS :: u8 where "ACCESS_MONITOR_STATUS = 3"

definition start_byte :: u8 where "start_byte = 0x41"

definition access_monitor_delayed_start ::
  "'w am_os \<Rightarrow> 'w access_monitor option \<Rightarrow> int \<times> 'w access_monitor option" where
  "access_monitor_delayed_start os pm = (case pm of
       None \<Rightarrow> (0, None)
     | Some m \<Rightarrow> if \<not> ao_io_ok os (am_world m) then (-1, Some m)
                 else (0, Some (m\<lparr>am_start_pipe := am_start_pipe m @ [start_byte]\<rparr>)))"

definition access_monitor_send_command :: "'w am_os \<Rightarrow> u8 \<Rightarrow> 'w access_monitor \<Rightarrow> int \<times> 'w access_monitor" where
  "access_monitor_send_command os command m =
    (if \<not> ao_io_ok os (am_world m) then (-1, m)
     else (0, m\<lparr>am_command_pipe := am_command_pipe m @ [command]\<rparr>))"

text \<open>
  The callbacks of the pipes are called when there is something to read. A failing read and another
  character are logged with level error, which aborts.
\<close>

definition delayed_start_cb :: "'w am_os \<Rightarrow> 'w access_monitor \<Rightarrow> 'w access_monitor option" where
  "delayed_start_cb os m =
    (if \<not> ao_io_ok os (am_world m) then None
     else case am_start_pipe m of
            [] \<Rightarrow> None
          | c # cs \<Rightarrow>
              (let m1 = m\<lparr>am_start_pipe := cs\<rparr>
               in if c \<noteq> start_byte then None
                  else if access_monitor_is_enable m1 \<noteq> 0
                  then Some (snd (access_monitor_send_command os ACCESS_MONITOR_START m1))
                  else Some m1))"

section \<open>Marks\<close>

definition mark_directory :: "'w am_os \<Rightarrow> string \<Rightarrow> 'w access_monitor \<Rightarrow> 'w access_monitor" where
  "mark_directory os path m =
    (case fanotify_monitor_mark_directory (ao_fa os) (am_fanotify_monitor m) path of
       (r, w) \<Rightarrow>
         if r < 0 then set_am_world w m
         else (case inotify_monitor_mark_directory (ao_in os) path (am_inotify_monitor m, w) of
                 (r', im, w1) \<Rightarrow> set_am_world w1 (m\<lparr>am_inotify_monitor := im\<rparr>)))"

definition access_monitor_unmark_directory ::
  "'w am_os \<Rightarrow> string \<Rightarrow> 'w access_monitor \<Rightarrow> int \<times> 'w access_monitor" where
  "access_monitor_unmark_directory os path m =
    (case fanotify_monitor_unmark_directory (ao_fa os) (am_fanotify_monitor m) path of
       (r, w) \<Rightarrow>
         if r < 0 then (-1, set_am_world w m)
         else (case inotify_monitor_unmark_directory (ao_in os) path (am_inotify_monitor m, w) of
                 (r', im, w1) \<Rightarrow>
                   (if r' < 0 then -1 else 0, set_am_world w1 (m\<lparr>am_inotify_monitor := im\<rparr>))))"

text \<open>
  The recursion over a directory and the loop over its entries. The values of the inner calls are not
  used; an entry that is a link, or whose type is not known, is not followed.
\<close>

fun access_monitor_recursive_mark_directory ::
    "'w am_os \<Rightarrow> string \<Rightarrow> fs_dir \<Rightarrow> 'w access_monitor \<Rightarrow> int \<times> 'w access_monitor"
  and mark_loop :: "'w am_os \<Rightarrow> string \<Rightarrow> fs_entry list \<Rightarrow> 'w access_monitor \<Rightarrow> 'w access_monitor" where
  "access_monitor_recursive_mark_directory os path (Unreadable e) m = (-1, mark_directory os path m)"
| "access_monitor_recursive_mark_directory os path (Readable es err) m =
    (0, mark_loop os path es (mark_directory os path m))"
| "mark_loop os path [] m = m"
| "mark_loop os path (SubDir name d # es) m =
    (if dot_name name then mark_loop os path es m
     else mark_loop os path es (snd (access_monitor_recursive_mark_directory os (entry_path path name) d m)))"
| "mark_loop os path (Other name t # es) m = mark_loop os path es m"

text \<open>The call on a path, whose tree is read when the recursion begins.\<close>

definition recursive_mark :: "'w am_os \<Rightarrow> string \<Rightarrow> 'w access_monitor \<Rightarrow> 'w access_monitor" where
  "recursive_mark os path m =
    snd (access_monitor_recursive_mark_directory os path (ao_dir os path (am_world m)) m)"

definition mark_mount_point :: "'w am_os \<Rightarrow> string \<Rightarrow> 'w access_monitor \<Rightarrow> 'w access_monitor" where
  "mark_mount_point os path m =
    set_am_world (snd (fanotify_monitor_mark_mount (ao_fa os) (am_fanotify_monitor m) path)) m"

definition unmark_mount_point :: "'w am_os \<Rightarrow> cstr \<Rightarrow> 'w access_monitor \<Rightarrow> 'w access_monitor" where
  "unmark_mount_point os path m = (case path of
       None \<Rightarrow> m
     | Some p \<Rightarrow> set_am_world (snd (fanotify_monitor_unmark_mount (ao_fa os) (am_fanotify_monitor m) p)) m)"

definition mark_entry :: "'w am_os \<Rightarrow> monitor_entry \<Rightarrow> 'w access_monitor \<Rightarrow> 'w access_monitor" where
  "mark_entry os e m =
    (if me_flag e = ENTRY_DIR then recursive_mark os (me_path e) m else mark_mount_point os (me_path e) m)"

definition mark_entries :: "'w am_os \<Rightarrow> 'w access_monitor \<Rightarrow> 'w access_monitor" where
  "mark_entries os m = fold (mark_entry os) (am_entries m) m"

section \<open>Removable media\<close>

record mount_data =
  md_ev_type :: mount_event_type
  md_path :: cstr

definition mount_data_new :: "mount_event_type \<Rightarrow> cstr \<Rightarrow> mount_data" where
  "mount_data_new mount_ev path =
    \<lparr>md_ev_type = mount_ev, md_path = (case path of None \<Rightarrow> None | Some p \<Rightarrow> Some p)\<rparr>"

text \<open>The thread of a scan: the new scan, which may be NULL, is run in any case.\<close>

definition scan_media_thread_fun ::
  "'w scan_env \<Rightarrow> bool \<Rightarrow> string \<Rightarrow> scan_confs \<times> a6o_event_source \<times> 'w
    \<Rightarrow> (scan_confs \<times> a6o_event_source \<times> 'w) option" where
  "scan_media_thread_fun env late path st = (case st of (confs, src, w) \<Rightarrow>
    (case a6o_on_demand_new (se_realpath env) confs path 0 (A6O_SCAN_THREADED OR A6O_SCAN_RECURSE) False of
       (on_demand, confs1) \<Rightarrow> do {
         (od, c) \<leftarrow> on_demand;
         s \<leftarrow> a6o_on_demand_run env late \<lparr>ss_od = od, ss_conf = c, ss_source = src, ss_world = w\<rparr>;
         Some (confs1\<lparr>on_demand_conf := Some (ss_conf s)\<rparr>, ss_source s, ss_world s)
       }))"

definition scan_media :: "mount_data \<Rightarrow> 'w access_monitor \<Rightarrow> 'w access_monitor" where
  "scan_media data m =
    (let clone = mount_data_new (md_ev_type data) (md_path data) in m\<lparr>am_scans := am_scans m @ [md_path clone]\<rparr>)"

text \<open>A NULL path, which no mount event has, means the current directory to the kernel.\<close>

definition mount_idle_cb :: "'w am_os \<Rightarrow> mount_data \<Rightarrow> 'w access_monitor \<Rightarrow> 'w access_monitor" where
  "mount_idle_cb os data m =
    (if md_ev_type data = EVENT_MOUNT
     then let m1 = (if access_monitor_is_autoscan_removable_media m \<noteq> 0 then scan_media data m else m)
          in if access_monitor_is_enable_removable_media m1 \<noteq> 0
             then (case md_path data of None \<Rightarrow> mark_mount_point os ''.'' m1 | Some p \<Rightarrow> mark_mount_point os p m1)
             else m1
     else m)"

text \<open>The signal is delivered in the monitor thread, so the function is called at once.\<close>

definition mount_cb :: "'w am_os \<Rightarrow> mount_event_type \<Rightarrow> cstr \<Rightarrow> 'w access_monitor \<Rightarrow> 'w access_monitor" where
  "mount_cb os mount_ev path m = mount_idle_cb os (mount_data_new mount_ev path) m"

section \<open>Commands of the monitor thread\<close>

definition access_monitor_start_command :: "'w am_os \<Rightarrow> 'w access_monitor \<Rightarrow> 'w access_monitor option" where
  "access_monitor_start_command os m = do {
     (r, f) \<leftarrow> fanotify_monitor_start (ao_fa os) (am_fanotify_monitor m);
     let m1 = m\<lparr>am_fanotify_monitor := f\<rparr>;
     (if r \<noteq> 0 then Some m1
      else do {
        (r2, im, w2) \<leftarrow> inotify_monitor_start (ao_in os) (am_inotify_monitor m1, am_world m1);
        let m2 = set_am_world w2 (m1\<lparr>am_inotify_monitor := im\<rparr>);
        (if r2 \<noteq> 0 then Some m2
         else (case mount_monitor_start (ao_bus os) (am_mount_monitor m2, am_world m2) of
                 (r3, mo, w3) \<Rightarrow>
                   (let m3 = set_am_world w3 (m2\<lparr>am_mount_monitor := mo\<rparr>)
                    in if r3 < 0 then Some m3 else Some (mark_entries os m3))))
      })
   }"

text \<open>The two other commands do nothing yet.\<close>

definition access_monitor_stop_command :: "'w access_monitor \<Rightarrow> 'w access_monitor" where
  "access_monitor_stop_command m = m"

definition access_monitor_status_command :: "'w access_monitor \<Rightarrow> 'w access_monitor" where
  "access_monitor_status_command m = m"

definition command_cb :: "'w am_os \<Rightarrow> 'w access_monitor \<Rightarrow> 'w access_monitor option" where
  "command_cb os m =
    (if \<not> ao_io_ok os (am_world m) then None
     else case am_command_pipe m of
            [] \<Rightarrow> None
          | cmd # cmds \<Rightarrow>
              (let m1 = m\<lparr>am_command_pipe := cmds\<rparr>
               in if cmd = ACCESS_MONITOR_START then access_monitor_start_command os m1
                  else if cmd = ACCESS_MONITOR_STOP then Some (access_monitor_stop_command m1)
                  else if cmd = ACCESS_MONITOR_STATUS then Some (access_monitor_status_command m1)
                  else Some m1))"

section \<open>Inotify events\<close>

definition inotify_event_process :: "'w am_os \<Rightarrow> inotify_event \<Rightarrow> 'w access_monitor \<Rightarrow> 'w access_monitor" where
  "inotify_event_process os event m =
    (if \<not> has_flag (ie_mask event) IN_ISDIR then m
     else case inotify_event_full_path (am_inotify_monitor m) event of
            None \<Rightarrow> m
          | Some full_path \<Rightarrow>
              if has_flag (ie_mask event) IN_CREATE \<or> has_flag (ie_mask event) IN_MOVED_TO
              then recursive_mark os full_path m
              else if has_flag (ie_mask event) IN_DELETE \<or> has_flag (ie_mask event) IN_MOVED_FROM
              then snd (access_monitor_unmark_directory os full_path m)
              else m)"

definition inotify_cb :: "'w am_os \<Rightarrow> 'w access_monitor \<Rightarrow> 'w access_monitor" where
  "inotify_cb os m =
    (case io_read (ao_in os) (im_inotify_fd (am_inotify_monitor m)) (am_world m) of
       (events, w) \<Rightarrow> fold (inotify_event_process os) events (set_am_world w m))"

section \<open>The two main loops\<close>

text \<open>
  What happens to a monitor: calls of the configuration functions, changes of the scan configuration
  it shares with its module, the start asked for at the end of the initialisation, and the callbacks of the sources that are attached and ready.
\<close>

datatype 'v am_label =
    Enable int
  | EnablePermission int
  | EnableRemovable int
  | Autoscan int
  | AddMount string
  | AddDirectory string
  | SetScanConf a6o_scan_conf
  | DelayedStart
  | StartReady
  | CommandReady
  | InotifyReady
  | MountSignal "'v option"

definition set_scan_conf :: "a6o_scan_conf \<Rightarrow> 'w access_monitor \<Rightarrow> 'w access_monitor" where
  "set_scan_conf c m = m\<lparr>am_fanotify_monitor := (am_fanotify_monitor m)\<lparr>fm_scan_conf := c\<rparr>\<rparr>"

fun am_enabled :: "'v am_label \<Rightarrow> 'w access_monitor \<Rightarrow> bool" where
  "am_enabled StartReady m = (am_start_pipe m \<noteq> [])"
| "am_enabled CommandReady m = (am_command_pipe m \<noteq> [])"
| "am_enabled InotifyReady m = (im_inotify_fd (am_inotify_monitor m) \<noteq> -1)"
| "am_enabled (MountSignal v) m = mo_conn (am_mount_monitor m)"
| "am_enabled _ m = True"

fun am_react :: "'w am_os \<Rightarrow> 'v gvariant_ops \<Rightarrow> 'v am_label \<Rightarrow> 'w access_monitor \<Rightarrow> 'w access_monitor option" where
  "am_react os gv (Enable b) m = Some (snd (access_monitor_enable b m))"
| "am_react os gv (EnablePermission b) m = Some (snd (access_monitor_enable_permission b m))"
| "am_react os gv (EnableRemovable b) m = Some (snd (access_monitor_enable_removable_media b m))"
| "am_react os gv (Autoscan b) m = Some (snd (access_monitor_autoscan_removable_media b m))"
| "am_react os gv (AddMount p) m = access_monitor_add_mount os p m"
| "am_react os gv (AddDirectory p) m = Some (access_monitor_add_directory p m)"
| "am_react os gv (SetScanConf c) m = Some (set_scan_conf c m)"
| "am_react os gv DelayedStart m = snd (access_monitor_delayed_start os (Some m))"
| "am_react os gv StartReady m = delayed_start_cb os m"
| "am_react os gv CommandReady m = command_cb os m"
| "am_react os gv InotifyReady m = Some (inotify_cb os m)"
| "am_react os gv (MountSignal v) m = Some (mount_signal_cb gv (mount_cb os) v m)"

inductive am_run ::
  "'w am_os \<Rightarrow> 'v gvariant_ops \<Rightarrow> 'w access_monitor \<Rightarrow> 'v am_label list \<Rightarrow> 'w access_monitor \<Rightarrow> bool"
  for os :: "'w am_os" and gv :: "'v gvariant_ops" and m0 :: "'w access_monitor" where
  am_start: "am_run os gv m0 [] m0"
| am_step: "am_run os gv m0 ls m \<Longrightarrow> am_enabled l m \<Longrightarrow> am_react os gv l m = Some m1 \<Longrightarrow> am_run os gv m0 (ls @ [l]) m1"

section \<open>The kernel\<close>

lemma am_world_simps [simp]:
  "am_world (set_am_world w m) = w"
  "am_inotify_monitor (set_am_world w m) = am_inotify_monitor m"
  "am_mount_monitor (set_am_world w m) = am_mount_monitor m"
  "am_start_pipe (set_am_world w m) = am_start_pipe m"
  "am_command_pipe (set_am_world w m) = am_command_pipe m"
  "am_entries (set_am_world w m) = am_entries m" "am_scans (set_am_world w m) = am_scans m"
  "am_enable (set_am_world w m) = am_enable m"
  "am_world (m\<lparr>am_inotify_monitor := im\<rparr>) = am_world m"
  "am_world (m\<lparr>am_mount_monitor := mo\<rparr>) = am_world m"
  "am_world (m\<lparr>am_start_pipe := sp\<rparr>) = am_world m"
  "am_world (m\<lparr>am_command_pipe := cp\<rparr>) = am_world m"
  "am_world (m\<lparr>am_entries := es\<rparr>) = am_world m"
  "am_world (m\<lparr>am_scans := scs\<rparr>) = am_world m"
  "am_world (m\<lparr>am_enable := en\<rparr>) = am_world m"
  "am_world (m\<lparr>am_enable_removable_media := er\<rparr>) = am_world m"
  "am_world (m\<lparr>am_autoscan_removable_media := au\<rparr>) = am_world m"
  "am_world (m\<lparr>am_fanotify_monitor := f\<rparr>) = fm_world f"
  by (simp_all add: am_world_def set_am_world_def)

text \<open>
  Documented behaviour. \<open>fanotify_mark\<close> fails and does nothing, or adds or removes the mark it is
  asked to: \<open>marks\<close> is the set of marks, a mark being the flag for mount points and a path. The calls
  of one subsystem do not change the state of the other, nor the directories. The process has the
  privilege to initialise both, and pipes work.
\<close>

definition marked :: "u32 \<Rightarrow> string \<Rightarrow> (u32 \<times> string) set \<Rightarrow> (u32 \<times> string) set" where
  "marked fl path ms = (if fl AND FAN_MARK_ADD \<noteq> 0 then insert (fl AND FAN_MARK_MOUNT, path) ms
                        else ms - {(fl AND FAN_MARK_MOUNT, path)})"

definition mark_laws :: "'w fa_os \<Rightarrow> ('w \<Rightarrow> (u32 \<times> string) set) \<Rightarrow> bool" where
  "mark_laws os marks \<longleftrightarrow> (\<forall>fd fl mask path w. \<exists>r w1. fo_mark os fd fl mask path w = (r, w1)
    \<and> (r < 0 \<and> marks w1 = marks w \<or> 0 \<le> r \<and> marks w1 = marked fl path (marks w)))"

definition keeps :: "('w \<Rightarrow> 'x) \<Rightarrow> ('w \<Rightarrow> 'r \<times> 'w) \<Rightarrow> bool" where
  "keeps x f \<longleftrightarrow> (\<forall>w. x (snd (f w)) = x w)"

definition kernel_laws ::
  "'w am_os \<Rightarrow> ('w \<Rightarrow> (u32 \<times> string) set) \<Rightarrow> ('w \<Rightarrow> string \<Rightarrow> int option) \<Rightarrow> bool" where
  "kernel_laws os marks watches \<longleftrightarrow>
    mark_laws (ao_fa os) marks \<and> watch_laws (ao_in os) watches
    \<and> (\<forall>fd fl mask path. keeps watches (fo_mark (ao_fa os) fd fl mask path)
         \<and> keeps (\<lambda>w p. ao_dir os p w) (fo_mark (ao_fa os) fd fl mask path))
    \<and> (\<forall>fd path mask. keeps marks (io_add_watch (ao_in os) fd path mask)
         \<and> keeps (\<lambda>w p. ao_dir os p w) (io_add_watch (ao_in os) fd path mask))
    \<and> (\<forall>fd wd. keeps marks (io_rm_watch (ao_in os) fd wd)
         \<and> keeps (\<lambda>w p. ao_dir os p w) (io_rm_watch (ao_in os) fd wd))
    \<and> (\<forall>fd. keeps marks (io_read (ao_in os) fd) \<and> keeps (\<lambda>w p. ao_dir os p w) (io_read (ao_in os) fd))
    \<and> keeps marks (io_init (ao_in os)) \<and> keeps (\<lambda>w p. ao_dir os p w) (io_init (ao_in os))
    \<and> (\<forall>fl. keeps marks (fo_init (ao_fa os) fl) \<and> keeps watches (fo_init (ao_fa os) fl)
         \<and> keeps (\<lambda>w p. ao_dir os p w) (fo_init (ao_fa os) fl))
    \<and> keeps marks (ao_bus os) \<and> keeps watches (ao_bus os) \<and> keeps (\<lambda>w p. ao_dir os p w) (ao_bus os)
    \<and> (\<forall>fl w. 0 \<le> fst (fo_init (ao_fa os) fl w)) \<and> (\<forall>w. 0 \<le> fst (io_init (ao_in os) w))
    \<and> (\<forall>w. ao_io_ok os w)"

text \<open>A kernel that accepts every mark and every watch: no path disappears, no limit is reached.\<close>

definition accepts :: "'w am_os \<Rightarrow> bool" where
  "accepts os \<longleftrightarrow> (\<forall>fd fl mask path w. 0 \<le> fst (fo_mark (ao_fa os) fd fl mask path w))
    \<and> (\<forall>fd path mask w. fst (io_add_watch (ao_in os) fd path mask w) \<noteq> -1)"

lemma keepsD: "keeps x f \<Longrightarrow> f w = (r, w1) \<Longrightarrow> x w1 = x w"
  unfolding keeps_def by (metis snd_conv)

lemma kernel_lawsD:
  assumes "kernel_laws os marks watches"
  shows "mark_laws (ao_fa os) marks" "watch_laws (ao_in os) watches" "ao_io_ok os w"
    and "keeps watches (fo_mark (ao_fa os) fd fl mk path)" "keeps (\<lambda>w p. ao_dir os p w) (fo_mark (ao_fa os) fd fl mk path)"
    and "keeps marks (io_add_watch (ao_in os) fd path wm)" "keeps (\<lambda>w p. ao_dir os p w) (io_add_watch (ao_in os) fd path wm)"
    and "keeps marks (io_rm_watch (ao_in os) fd wd)" "keeps (\<lambda>w p. ao_dir os p w) (io_rm_watch (ao_in os) fd wd)"
    and "keeps marks (io_read (ao_in os) fd)" "keeps (\<lambda>w p. ao_dir os p w) (io_read (ao_in os) fd)"
    and "keeps marks (io_init (ao_in os))" "keeps (\<lambda>w p. ao_dir os p w) (io_init (ao_in os))"
    and "keeps marks (fo_init (ao_fa os) fl)" "keeps watches (fo_init (ao_fa os) fl)"
    and "keeps (\<lambda>w p. ao_dir os p w) (fo_init (ao_fa os) fl)"
    and "keeps marks (ao_bus os)" "keeps watches (ao_bus os)" "keeps (\<lambda>w p. ao_dir os p w) (ao_bus os)"
    and "0 \<le> fst (fo_init (ao_fa os) fl w)" "0 \<le> fst (io_init (ao_in os) w)"
  using assms unfolding kernel_laws_def by blast+

section \<open>The invariant\<close>

text \<open>
  The tables mirror the watches; every watched directory is marked, for the mark is added before the
  watch and removed before it; and the pipes hold nothing but what the monitor writes to itself.
\<close>

definition am_inv :: "('w \<Rightarrow> (u32 \<times> string) set) \<Rightarrow> ('w \<Rightarrow> string \<Rightarrow> int option) \<Rightarrow> 'w access_monitor \<Rightarrow> bool" where
  "am_inv marks watches m \<longleftrightarrow> mirrors (watches (am_world m)) (am_inotify_monitor m)
    \<and> (\<forall>p. watches (am_world m) p \<noteq> None \<longrightarrow> (0, p) \<in> marks (am_world m))
    \<and> set (am_start_pipe m) \<subseteq> {start_byte} \<and> set (am_command_pipe m) \<subseteq> {ACCESS_MONITOR_START}"

text \<open>What a step of the marking does not touch.\<close>

definition same_control :: "'w access_monitor \<Rightarrow> 'w access_monitor \<Rightarrow> bool" where
  "same_control m m1 \<longleftrightarrow> am_start_pipe m1 = am_start_pipe m \<and> am_command_pipe m1 = am_command_pipe m
    \<and> am_enable m1 = am_enable m \<and> am_entries m1 = am_entries m \<and> am_scans m1 = am_scans m
    \<and> am_mount_monitor m1 = am_mount_monitor m
    \<and> im_inotify_fd (am_inotify_monitor m1) = im_inotify_fd (am_inotify_monitor m)"

lemma same_control_refl [simp]: "same_control m m" "same_control m (set_am_world w m)"
  by (simp_all add: same_control_def)

lemma same_control_trans: "same_control m m1 \<Longrightarrow> same_control m1 m2 \<Longrightarrow> same_control m m2"
  by (simp add: same_control_def)

lemma am_inv_control:
  assumes "am_inv marks watches m" "same_control m m1"
    and "mirrors (watches (am_world m1)) (am_inotify_monitor m1)"
    and "\<And>p. watches (am_world m1) p \<noteq> None \<Longrightarrow> (0, p) \<in> marks (am_world m1)"
  shows "am_inv marks watches m1"
  using assms by (simp add: am_inv_def same_control_def)

lemma fan_flags [simp]:
  "FAN_MARK_ADD AND FAN_MARK_ADD \<noteq> 0" "FAN_MARK_ADD AND FAN_MARK_MOUNT = 0"
  "FAN_MARK_REMOVE AND FAN_MARK_ADD = 0" "FAN_MARK_REMOVE AND FAN_MARK_MOUNT = 0"
  "(FAN_MARK_ADD OR FAN_MARK_MOUNT) AND FAN_MARK_ADD \<noteq> 0"
  "(FAN_MARK_ADD OR FAN_MARK_MOUNT) AND FAN_MARK_MOUNT = FAN_MARK_MOUNT" "FAN_MARK_MOUNT \<noteq> 0"
  by (simp_all add: FAN_MARK_ADD_def FAN_MARK_REMOVE_def FAN_MARK_MOUNT_def)

text \<open>Marking one directory, and what it covers when the kernel accepts it.\<close>

definition coverage ::
  "('w \<Rightarrow> (u32 \<times> string) set) \<Rightarrow> ('w \<Rightarrow> string \<Rightarrow> int option) \<Rightarrow> 'w \<Rightarrow> string set" where
  "coverage marks watches w = {p. (0, p) \<in> marks w \<and> watches w p \<noteq> None}"

definition marks_more :: "'w am_os \<Rightarrow> ('w \<Rightarrow> (u32 \<times> string) set) \<Rightarrow> ('w \<Rightarrow> string \<Rightarrow> int option)
    \<Rightarrow> 'w access_monitor \<Rightarrow> 'w access_monitor \<Rightarrow> string set \<Rightarrow> bool" where
  "marks_more os marks watches m m1 ps \<longleftrightarrow> am_inv marks watches m1 \<and> same_control m m1
    \<and> marks (am_world m) \<subseteq> marks (am_world m1)
    \<and> (\<forall>p. ao_dir os p (am_world m1) = ao_dir os p (am_world m))
    \<and> (accepts os \<longrightarrow> coverage marks watches (am_world m1) = ps \<union> coverage marks watches (am_world m))"

lemma marks_more_refl: "am_inv marks watches m \<Longrightarrow> marks_more os marks watches m m {}"
  by (simp add: marks_more_def)

lemma marks_more_trans:
  "marks_more os marks watches m m1 ps \<Longrightarrow> marks_more os marks watches m1 m2 qs
    \<Longrightarrow> marks_more os marks watches m m2 (ps \<union> qs)"
  unfolding marks_more_def same_control_def by (auto simp: Un_ac)

lemma marks_more_inv: "marks_more os marks watches m m1 ps \<Longrightarrow> am_inv marks watches m1"
  by (simp add: marks_more_def)

lemma mark_directory_step:
  fixes os :: "'w am_os" and path :: string
  assumes "kernel_laws os marks watches" "am_inv marks watches m"
  defines "m1 \<equiv> mark_directory os path m"
  shows "marks_more os marks watches m m1 {path}"
proof -
  note k = kernel_lawsD [OF assms(1)]
  let ?f = "am_fanotify_monitor m"
  let ?mark = "fo_mark (ao_fa os) (fm_fanotify_fd ?f) FAN_MARK_ADD (open_mask ?f OR FAN_EVENT_ON_CHILD) path"
  obtain r w where w: "?mark (am_world m) = (r, w)"
      "r < 0 \<and> marks w = marks (am_world m) \<or> 0 \<le> r \<and> marks w = insert (0, path) (marks (am_world m))"
    using k(1) unfolding mark_laws_def by (metis fan_flags(1,2) marked_def)
  have ww: "watches w = watches (am_world m)" "\<And>p. ao_dir os p w = ao_dir os p (am_world m)"
    using keepsD [OF k(4) w(1)] keepsD [OF k(5) w(1)] by (simp_all add: fun_eq_iff)
  have inv: "mirrors (watches w) (am_inotify_monitor m)" "\<And>p. watches w p \<noteq> None \<Longrightarrow> (0, p) \<in> marks w"
    using assms(2) w(2) by (auto simp: am_inv_def ww)
  show ?thesis
  proof (cases "r < 0")
    case True
    have m1: "m1 = set_am_world w m"
      using w(1) True by (simp add: m1_def mark_directory_def fanotify_monitor_mark_directory_def am_world_def)
    have "\<not> accepts os"
      using w(1) True unfolding accepts_def by (metis fst_conv not_le)
    then show ?thesis
      using am_inv_control [OF assms(2), of m1] inv ww w(2) True by (simp add: m1 marks_more_def)
  next
    case False
    obtain r' im w1 where w1: "inotify_monitor_mark_directory (ao_in os) path (am_inotify_monitor m, w) = (r', im, w1)"
        "r' = -1 \<and> watches w1 = watches w \<or> r' = 0 \<and> (\<exists>wd. added_watch (watches w) path wd (watches w1))"
        "mirrors (watches w1) im" "im_inotify_fd im = im_inotify_fd (am_inotify_monitor m)"
      using mark_mirrors [OF k(2) inv(1), of path] by blast
    have add: "io_add_watch (ao_in os) (im_inotify_fd (am_inotify_monitor m)) path
        (IN_ONLYDIR OR IN_MOVE OR IN_DELETE OR IN_CREATE) w = (fst (io_add_watch (ao_in os) (im_inotify_fd (am_inotify_monitor m)) path
        (IN_ONLYDIR OR IN_MOVE OR IN_DELETE OR IN_CREATE) w), w1)"
        "r' = -1 \<longleftrightarrow> fst (io_add_watch (ao_in os) (im_inotify_fd (am_inotify_monitor m)) path
        (IN_ONLYDIR OR IN_MOVE OR IN_DELETE OR IN_CREATE) w) = -1"
      using w1(1) by (auto simp: inotify_monitor_mark_directory_def split: prod.splits if_splits)
    have m1: "m1 = set_am_world w1 (m\<lparr>am_inotify_monitor := im\<rparr>)"
      using w(1) False w1(1) by (simp add: m1_def mark_directory_def fanotify_monitor_mark_directory_def am_world_def)
    have w1w: "marks w1 = marks w" "\<And>p. ao_dir os p w1 = ao_dir os p w"
      using keepsD [OF k(6) add(1)] keepsD [OF k(7) add(1)] by (simp_all add: fun_eq_iff)
    have marked: "marks w = insert (0, path) (marks (am_world m))"
      using w(2) False by auto
    have watched: "watches w1 p \<noteq> None \<longleftrightarrow> p = path \<and> r' = 0 \<or> watches w p \<noteq> None" for p
    proof -
      have "r' = -1 \<and> watches w1 = watches w \<or> r' = 0 \<and> (\<exists>wd. watches w1 = (watches w)(path \<mapsto> wd))"
        using w1(2) unfolding added_watch_def by blast
      then show ?thesis by auto
    qed
    have ctl: "same_control m m1"
      using w1(4) by (simp add: m1 same_control_def)
    have "mirrors (watches (am_world m1)) (am_inotify_monitor m1)"
      using w1(3) by (simp add: m1)
    moreover have "(0, p) \<in> marks (am_world m1)" if "watches (am_world m1) p \<noteq> None" for p
      using that inv(2) [of p] watched [of p] by (auto simp: m1 w1w marked)
    ultimately have "am_inv marks watches m1"
      by (rule am_inv_control [OF assms(2) ctl])
    moreover have "r' = 0" if "accepts os"
      using that add(2) w1(2) unfolding accepts_def by auto
    moreover have "coverage marks watches (am_world m1) = insert path (coverage marks watches (am_world m))" if "r' = 0"
      unfolding coverage_def m1 am_world_simps w1w marked watched ww using that by auto
    ultimately show ?thesis
      using ctl by (simp add: marks_more_def m1 w1w ww marked subset_insertI)
  qed
qed

text \<open>The directories of a tree, with their paths.\<close>

fun dirs_of :: "string \<Rightarrow> fs_dir \<Rightarrow> string set" and entry_dirs :: "string \<Rightarrow> fs_entry list \<Rightarrow> string set" where
  "dirs_of path (Unreadable e) = {path}"
| "dirs_of path (Readable es err) = insert path (entry_dirs path es)"
| "entry_dirs path [] = {}"
| "entry_dirs path (SubDir name d # es) =
    (if dot_name name then entry_dirs path es else dirs_of (entry_path path name) d \<union> entry_dirs path es)"
| "entry_dirs path (Other name t # es) = entry_dirs path es"

lemma recursive_step:
  assumes "kernel_laws os marks watches"
  shows "am_inv marks watches m \<Longrightarrow>
      marks_more os marks watches m (snd (access_monitor_recursive_mark_directory os path d m)) (dirs_of path d)"
    and "am_inv marks watches m \<Longrightarrow> marks_more os marks watches m (mark_loop os path es m) (entry_dirs path es)"
proof (induction path d and path es arbitrary: m and m rule: dirs_of_entry_dirs.induct)
  case (1 path e)
  then show ?case
    using mark_directory_step [OF assms] by simp
next
  case (2 path es err)
  have "marks_more os marks watches m (mark_directory os path m) {path}"
    by (rule mark_directory_step [OF assms 2(2)])
  from marks_more_trans [OF this 2(1) [OF marks_more_inv [OF this]]] show ?case
    by simp
next
  case (3 path)
  then show ?case by (simp add: marks_more_refl)
next
  case (4 path name d es)
  show ?case
  proof (cases "dot_name name")
    case True
    then show ?thesis using 4 by simp
  next
    case False
    have a: "marks_more os marks watches m (snd (access_monitor_recursive_mark_directory os (entry_path path name) d m))
        (dirs_of (entry_path path name) d)"
      by (rule 4(2) [OF False 4(4)])
    from marks_more_trans [OF this 4(3) [OF False marks_more_inv [OF this]]] False show ?thesis
      by simp
  qed
next
  case (5 path name t es)
  then show ?case by simp
qed

lemma recursive_mark_step:
  assumes "kernel_laws os marks watches" "am_inv marks watches m"
  shows "marks_more os marks watches m (recursive_mark os path m) (dirs_of path (ao_dir os path (am_world m)))"
  unfolding recursive_mark_def by (rule recursive_step(1) [OF assms])

lemma mark_mount_step:
  assumes "kernel_laws os marks watches" "am_inv marks watches m"
  shows "marks_more os marks watches m (mark_mount_point os path m) {}"
    and "accepts os \<Longrightarrow> (FAN_MARK_MOUNT, path) \<in> marks (am_world (mark_mount_point os path m))"
proof -
  note k = kernel_lawsD [OF assms(1)]
  let ?f = "am_fanotify_monitor m"
  obtain r w where w: "fo_mark (ao_fa os) (fm_fanotify_fd ?f) (FAN_MARK_ADD OR FAN_MARK_MOUNT) (open_mask ?f) path (am_world m) = (r, w)"
      "r < 0 \<and> marks w = marks (am_world m) \<or> 0 \<le> r \<and> marks w = insert (FAN_MARK_MOUNT, path) (marks (am_world m))"
    using k(1) unfolding mark_laws_def by (metis fan_flags(5,6) marked_def)
  have ww: "watches w = watches (am_world m)" "\<And>p. ao_dir os p w = ao_dir os p (am_world m)"
    using keepsD [OF k(4) w(1)] keepsD [OF k(5) w(1)] by (simp_all add: fun_eq_iff)
  have m1: "mark_mount_point os path m = set_am_world w m"
    using w(1) by (simp add: mark_mount_point_def fanotify_monitor_mark_mount_def am_world_def)
  have "(0, p) \<in> marks w \<longleftrightarrow> (0, p) \<in> marks (am_world m)" for p
    using w(2) fan_flags(7) by auto
  moreover have inv: "am_inv marks watches (set_am_world w m)"
    using assms(2) w(2) ww by (intro am_inv_control [OF assms(2)]) (auto simp: am_inv_def)
  ultimately show "marks_more os marks watches m (mark_mount_point os path m) {}"
    using ww w(2) by (auto simp: marks_more_def m1 coverage_def)
  show "(FAN_MARK_MOUNT, path) \<in> marks (am_world (mark_mount_point os path m))" if "accepts os"
  proof -
    have "0 \<le> r"
      using that w(1) unfolding accepts_def by (metis fst_conv)
    with w(2) show ?thesis by (auto simp: m1)
  qed
qed

text \<open>What a list of entries names: directories and mount points.\<close>

definition entry_coverage :: "'w am_os \<Rightarrow> 'w \<Rightarrow> monitor_entry list \<Rightarrow> string set" where
  "entry_coverage os w es = (\<Union>e \<in> set es. if me_flag e = ENTRY_DIR then dirs_of (me_path e) (ao_dir os (me_path e) w) else {})"

definition entry_mounts :: "monitor_entry list \<Rightarrow> string set" where
  "entry_mounts es = me_path ` {e \<in> set es. me_flag e = ENTRY_MOUNT}"

lemma mark_entry_step:
  assumes "kernel_laws os marks watches" "am_inv marks watches m"
  shows "marks_more os marks watches m (mark_entry os e m) (entry_coverage os (am_world m) [e])"
    and "accepts os \<Longrightarrow> entry_mounts [e] \<subseteq> {p. (FAN_MARK_MOUNT, p) \<in> marks (am_world (mark_entry os e m))}"
proof -
  show "marks_more os marks watches m (mark_entry os e m) (entry_coverage os (am_world m) [e])"
  proof (cases "me_flag e")
    case ENTRY_MOUNT
    with mark_mount_step(1) [OF assms, of "me_path e"] show ?thesis
      by (simp add: mark_entry_def entry_coverage_def)
  next
    case ENTRY_DIR
    with recursive_mark_step [OF assms, of "me_path e"] show ?thesis
      by (simp add: mark_entry_def entry_coverage_def)
  qed
  have "entry_mounts [e] = (if me_flag e = ENTRY_MOUNT then {me_path e} else {})"
    by (auto simp: entry_mounts_def)
  then show "entry_mounts [e] \<subseteq> {p. (FAN_MARK_MOUNT, p) \<in> marks (am_world (mark_entry os e m))}" if "accepts os"
    using mark_mount_step(2) [OF assms that, of "me_path e"] by (simp add: mark_entry_def)
qed

lemma entry_coverage_same: "(\<And>p. ao_dir os p w1 = ao_dir os p w) \<Longrightarrow> entry_coverage os w1 es = entry_coverage os w es"
  by (simp add: entry_coverage_def)

lemma entries_step:
  assumes "kernel_laws os marks watches" "am_inv marks watches m"
  shows "marks_more os marks watches m (fold (mark_entry os) es m) (entry_coverage os (am_world m) es)
    \<and> (accepts os \<longrightarrow> entry_mounts es \<subseteq> {p. (FAN_MARK_MOUNT, p) \<in> marks (am_world (fold (mark_entry os) es m))})"
  using assms(2)
proof (induction es arbitrary: m)
  case Nil
  then show ?case by (simp add: marks_more_refl entry_coverage_def entry_mounts_def)
next
  case (Cons e es)
  let ?m1 = "mark_entry os e m"
  note one = mark_entry_step [OF assms(1) Cons.prems, of e]
  note rest = Cons.IH [OF marks_more_inv [OF one(1)]]
  have same: "entry_coverage os (am_world ?m1) es = entry_coverage os (am_world m) es"
    using one(1) by (intro entry_coverage_same) (simp add: marks_more_def)
  have cons: "entry_coverage os (am_world m) (e # es) = entry_coverage os (am_world m) [e] \<union> entry_coverage os (am_world m) es"
    by (auto simp: entry_coverage_def)
  have "marks_more os marks watches m (fold (mark_entry os) (e # es) m) (entry_coverage os (am_world m) (e # es))"
    using marks_more_trans [OF one(1) conjunct1 [OF rest]] by (simp add: same cons)
  moreover have "entry_mounts (e # es) \<subseteq> {p. (FAN_MARK_MOUNT, p) \<in> marks (am_world (fold (mark_entry os) (e # es) m))}"
    if "accepts os"
  proof -
    have "entry_mounts (e # es) = entry_mounts [e] \<union> entry_mounts es"
      by (auto simp: entry_mounts_def)
    moreover have "marks (am_world ?m1) \<subseteq> marks (am_world (fold (mark_entry os) es ?m1))"
      using rest by (simp add: marks_more_def)
    ultimately show ?thesis
      using one(2) [OF that] rest that by auto
  qed
  ultimately show ?case
    by blast
qed

section \<open>Events\<close>

lemma unmark_step:
  assumes "kernel_laws os marks watches" "am_inv marks watches m"
  shows "am_inv marks watches (snd (access_monitor_unmark_directory os path m))
    \<and> same_control m (snd (access_monitor_unmark_directory os path m))"
proof -
  note k = kernel_lawsD [OF assms(1)]
  let ?f = "am_fanotify_monitor m"
  let ?m1 = "snd (access_monitor_unmark_directory os path m)"
  obtain r w where w: "fo_mark (ao_fa os) (fm_fanotify_fd ?f) FAN_MARK_REMOVE (open_mask ?f OR FAN_EVENT_ON_CHILD) path (am_world m) = (r, w)"
      "r < 0 \<and> marks w = marks (am_world m) \<or> 0 \<le> r \<and> marks w = marks (am_world m) - {(0, path)}"
    using k(1) unfolding mark_laws_def by (metis fan_flags(3,4) marked_def)
  have ww: "watches w = watches (am_world m)"
    using keepsD [OF k(4) w(1)] .
  have inv: "mirrors (watches w) (am_inotify_monitor m)"
      "\<And>p. watches w p \<noteq> None \<Longrightarrow> (0, p) \<in> marks (am_world m)"
    using assms(2) by (simp_all add: am_inv_def ww)
  show ?thesis
  proof (cases "r < 0")
    case True
    then have m1: "?m1 = set_am_world w m"
      using w(1) by (simp add: access_monitor_unmark_directory_def fanotify_monitor_unmark_directory_def am_world_def)
    show ?thesis
      using am_inv_control [OF assms(2), of ?m1] inv w(2) True by (simp add: m1)
  next
    case False
    obtain im w1 where w1: "inotify_monitor_unmark_directory (ao_in os) path (am_inotify_monitor m, w) = (0, im, w1)"
        "watches w1 = (watches w)(path := None)" "mirrors (watches w1) im"
        "im_inotify_fd im = im_inotify_fd (am_inotify_monitor m)"
      using unmark_mirrors [OF k(2) inv(1), of path] by blast
    have "w1 = w \<or> (\<exists>wd. w1 = snd (io_rm_watch (ao_in os) (im_inotify_fd (am_inotify_monitor m)) wd w))"
      using w1(1) by (auto simp: inotify_monitor_unmark_directory_def Let_def split: option.splits)
    then have w1w: "marks w1 = marks w"
      using k(8) unfolding keeps_def by metis
    have m1: "?m1 = set_am_world w1 (m\<lparr>am_inotify_monitor := im\<rparr>)"
      using w(1) False w1(1) by (simp add: access_monitor_unmark_directory_def fanotify_monitor_unmark_directory_def am_world_def)
    have ctl: "same_control m ?m1"
      using w1(4) by (simp add: m1 same_control_def)
    have "(0, p) \<in> marks w1" if "watches w1 p \<noteq> None" for p
      using that inv(2) [of p] w(2) False by (auto simp: w1w w1(2) split: if_splits)
    then show ?thesis
      using am_inv_control [OF assms(2) ctl] ctl w1(3) by (simp add: m1)
  qed
qed

lemma event_step:
  assumes "kernel_laws os marks watches" "am_inv marks watches m"
  shows "am_inv marks watches (inotify_event_process os e m) \<and> same_control m (inotify_event_process os e m)"
  using recursive_mark_step [OF assms] unmark_step [OF assms] assms(2)
  by (auto simp: inotify_event_process_def marks_more_def split: option.split)

lemma events_step:
  assumes "kernel_laws os marks watches" "am_inv marks watches m"
  shows "am_inv marks watches (fold (inotify_event_process os) es m) \<and> same_control m (fold (inotify_event_process os) es m)"
  using assms(2)
proof (induction es arbitrary: m)
  case (Cons e es)
  note one = event_step [OF assms(1) Cons.prems, of e]
  from Cons.IH [OF conjunct1 [OF one]] same_control_trans [OF conjunct2 [OF one]] show ?case
    by simp
qed simp

lemma inotify_cb_step:
  assumes "kernel_laws os marks watches" "am_inv marks watches m"
  shows "am_inv marks watches (inotify_cb os m) \<and> same_control m (inotify_cb os m)"
proof -
  note k = kernel_lawsD [OF assms(1)]
  obtain evs w where r: "io_read (ao_in os) (im_inotify_fd (am_inotify_monitor m)) (am_world m) = (evs, w)"
    by force
  have "watches w = watches (am_world m)"
    using k(2) r unfolding watch_laws_def by (metis snd_conv)
  moreover have "marks w = marks (am_world m)"
    using keepsD [OF k(10) r] .
  ultimately have "am_inv marks watches (set_am_world w m)"
    using assms(2) by (intro am_inv_control [OF assms(2)]) (auto simp: am_inv_def)
  from events_step [OF assms(1) this, of evs] show ?thesis
    by (simp add: inotify_cb_def r same_control_def)
qed

section \<open>The start command\<close>

text \<open>The state in which the entries are marked, and whether they are.\<close>

lemma start_command:
  assumes "kernel_laws os marks watches" "am_inv marks watches m"
  shows "\<exists>m1. am_inv marks watches m1 \<and> am_entries m1 = am_entries m \<and> am_enable m1 = am_enable m
    \<and> am_start_pipe m1 = am_start_pipe m \<and> am_command_pipe m1 = am_command_pipe m
    \<and> marks (am_world m1) = marks (am_world m) \<and> watches (am_world m1) = watches (am_world m)
    \<and> (\<forall>p. ao_dir os p (am_world m1) = ao_dir os p (am_world m))
    \<and> access_monitor_start_command os m
        = Some (if mo_conn (am_mount_monitor m1) then mark_entries os m1 else m1)
    \<and> ((\<forall>w. fst (ao_bus os w)) \<longrightarrow> mo_conn (am_mount_monitor m1))
    \<and> ((\<forall>w. \<not> fst (ao_bus os w)) \<longrightarrow> \<not> mo_conn (am_mount_monitor m1))
    \<and> 0 \<le> fm_fanotify_fd (am_fanotify_monitor m1)"
proof -
  note k = kernel_lawsD [OF assms(1)]
  let ?fl = "(if fm_enable_permission (am_fanotify_monitor m) \<noteq> 0 then FAN_CLASS_CONTENT else FAN_CLASS_NOTIF)
    OR FAN_UNLIMITED_QUEUE OR FAN_UNLIMITED_MARKS"
  obtain fd w where w: "fo_init (ao_fa os) ?fl (am_world m) = (fd, w)" by force
  obtain ifd w1 where w1: "io_init (ao_in os) w = (ifd, w1)" by force
  obtain c w2 where w2: "ao_bus os w1 = (c, w2)" by force
  have fds: "0 \<le> fd" "0 \<le> ifd" "ifd \<noteq> -1"
    using k(20) [of ?fl "am_world m"] k(21) [of w] w w1 by auto
  have "watches w1 = watches w"
    using k(2) w1 unfolding watch_laws_def by (metis snd_conv)
  then have same: "marks w2 = marks (am_world m)" "watches w2 = watches (am_world m)"
      "\<And>p. ao_dir os p w2 = ao_dir os p (am_world m)"
    using keepsD [OF k(14) w] keepsD [OF k(15) w] keepsD [OF k(16) w] keepsD [OF k(12) w1] keepsD [OF k(13) w1]
      keepsD [OF k(17) w2] keepsD [OF k(18) w2] keepsD [OF k(19) w2] by (simp_all add: fun_eq_iff)
  let ?f = "(am_fanotify_monitor m)\<lparr>fm_fanotify_fd := fd, fm_watchdog := watchdog_new fd, fm_thread_pool := [], fm_world := w2\<rparr>"
  let ?m1 = "m\<lparr>am_inotify_monitor := (am_inotify_monitor m)\<lparr>im_inotify_fd := ifd\<rparr>,
    am_mount_monitor := (am_mount_monitor m)\<lparr>mo_conn := c\<rparr>, am_fanotify_monitor := ?f\<rparr>"
  have world: "am_world ?m1 = w2"
    by (simp add: am_world_def)
  have "am_inv marks watches ?m1"
    using assms(2) by (simp add: am_inv_def world same mirrors_def)
  moreover have "access_monitor_start_command os m = Some (if mo_conn (am_mount_monitor ?m1) then mark_entries os ?m1 else ?m1)"
    using w w1 w2 fds
    by (simp add: access_monitor_start_command_def fanotify_monitor_start_def inotify_monitor_start_def
        mount_monitor_start_def am_world_def set_am_world_def Let_def)
  moreover have "c = fst (ao_bus os w1)"
    by (simp add: w2)
  ultimately show ?thesis
    using fds by (intro exI [of _ ?m1]) (simp add: world same)
qed

lemma mark_entries_step:
  assumes "kernel_laws os marks watches" "am_inv marks watches m"
  shows "marks_more os marks watches m (mark_entries os m) (entry_coverage os (am_world m) (am_entries m))"
    and "accepts os \<Longrightarrow> entry_mounts (am_entries m) \<subseteq> {p. (FAN_MARK_MOUNT, p) \<in> marks (am_world (mark_entries os m))}"
  using entries_step [OF assms, of "am_entries m"] by (simp_all add: mark_entries_def)

lemma start_command_inv:
  assumes "kernel_laws os marks watches" "am_inv marks watches m"
  shows "\<exists>m1. access_monitor_start_command os m = Some m1 \<and> am_inv marks watches m1
    \<and> am_start_pipe m1 = am_start_pipe m \<and> am_command_pipe m1 = am_command_pipe m \<and> am_enable m1 = am_enable m"
proof -
  obtain m1 where m1: "am_inv marks watches m1" "am_enable m1 = am_enable m" "am_start_pipe m1 = am_start_pipe m"
      "am_command_pipe m1 = am_command_pipe m"
      "access_monitor_start_command os m = Some (if mo_conn (am_mount_monitor m1) then mark_entries os m1 else m1)"
    using start_command [OF assms] by blast
  then show ?thesis
    using mark_entries_step(1) [OF assms(1) m1(1)] by (auto simp: marks_more_def same_control_def)
qed

section \<open>Runs\<close>

lemma mount_cb_step:
  assumes "kernel_laws os marks watches" "am_inv marks watches m"
  shows "am_inv marks watches (mount_cb os et path m)"
proof -
  have "am_inv marks watches (scan_media d m)" for d
    using assms(2) by (simp add: am_inv_def scan_media_def)
  then show ?thesis
    using mark_mount_step(1) [OF assms(1)] assms(2)
    by (auto simp: mount_cb_def mount_idle_cb_def marks_more_def Let_def split: option.split)
qed

lemma signal_step:
  assumes "kernel_laws os marks watches" "am_inv marks watches m"
  shows "am_inv marks watches (mount_signal_cb gv (mount_cb os) v m)"
  using mount_cb_step [OF assms] assms(2) by (auto simp: mount_signal_cb_def split: option.split prod.split)

lemma react_step:
  assumes laws: "kernel_laws os marks watches" and inv: "am_inv marks watches m" and enabled: "am_enabled l m"
  shows "\<exists>m1. am_react os gv l m = Some m1 \<and> am_inv marks watches m1"
proof (cases l)
  case (EnablePermission b)
  then show ?thesis
    using inv by (simp add: access_monitor_enable_permission_def fanotify_monitor_enable_permission_def am_inv_def am_world_def)
next
  case (AddMount p)
  then show ?thesis
    using inv by (simp add: access_monitor_add_mount_def Let_def add_entry_def am_inv_def)
next
  case DelayedStart
  then show ?thesis
    using inv kernel_lawsD(3) [OF laws] by (simp add: access_monitor_delayed_start_def am_inv_def)
next
  case StartReady
  then obtain c cs where c: "am_start_pipe m = c # cs" "c = start_byte" "set cs \<subseteq> {start_byte}"
    using enabled inv by (cases "am_start_pipe m") (auto simp: am_inv_def)
  then show ?thesis
    using StartReady inv kernel_lawsD(3) [OF laws]
    by (simp add: delayed_start_cb_def Let_def access_monitor_send_command_def am_inv_def)
next
  case CommandReady
  then obtain c cs where c: "am_command_pipe m = c # cs" "c = ACCESS_MONITOR_START" "set cs \<subseteq> {ACCESS_MONITOR_START}"
    using enabled inv by (cases "am_command_pipe m") (auto simp: am_inv_def)
  have "am_inv marks watches (m\<lparr>am_command_pipe := cs\<rparr>)"
    using inv c(3) by (simp add: am_inv_def)
  from start_command_inv [OF laws this] show ?thesis
    using CommandReady c(1,2) kernel_lawsD(3) [OF laws] by (auto simp: command_cb_def Let_def)
next
  case InotifyReady
  then show ?thesis
    using inotify_cb_step [OF laws inv] by simp
next
  case (MountSignal v)
  then show ?thesis
    using signal_step [OF laws inv] by simp
qed (use inv in \<open>simp_all add: access_monitor_enable_def access_monitor_enable_removable_media_def
      access_monitor_autoscan_removable_media_def access_monitor_add_directory_def add_entry_def set_scan_conf_def
      am_world_def am_inv_def\<close>)

lemma new_fields:
  assumes "access_monitor_new os pid src (confs, w0) = Some (m0, confs1)"
  shows "am_world m0 = w0" "am_inotify_monitor m0 = inotify_monitor_new" "am_start_pipe m0 = []"
    "am_command_pipe m0 = []" "am_enable m0 = 0" "am_scans m0 = []" "am_mount_monitor m0 = mount_monitor_new"
    "fm_fanotify_fd (am_fanotify_monitor m0) = -1" "am_entries m0 = []"
  using assms by (auto simp: access_monitor_new_def fanotify_monitor_new_def am_world_def split: prod.splits if_splits)

lemma new_inv:
  assumes "access_monitor_new os pid src (confs, w0) = Some (m0, confs1)" "watches w0 = (\<lambda>_. None)"
  shows "am_inv marks watches m0"
  using assms(2) mirrors_new by (simp add: am_inv_def new_fields [OF assms(1)])

inductive_cases am_run_snocE: "am_run os gv m0 (ls @ [l]) m1"

lemma run_inv:
  assumes "kernel_laws os marks watches" "am_inv marks watches m0" "am_run os gv m0 ls m"
  shows "am_inv marks watches m"
  using assms(3)
proof (induction rule: am_run.induct)
  case am_start
  show ?case by (rule assms(2))
next
  case (am_step ls m l m1)
  then show ?case
    using react_step [OF assms(1), of m l gv] by auto
qed

lemma am_run_append: "am_run os gv m ls m1 \<Longrightarrow> am_run os gv m1 ls' m2 \<Longrightarrow> am_run os gv m (ls @ ls') m2"
proof (rotate_tac, induction rule: am_run.induct)
  case (am_step ls' m2 l m3)
  then show ?case
    using am_run.am_step [of os gv m "ls @ ls'" m2 l m3] by simp
qed simp

lemma am_run_one: "am_enabled l m \<Longrightarrow> am_react os gv l m = Some m1 \<Longrightarrow> am_run os gv m [l] m1"
  using am_step [OF am_start] by fastforce

text \<open>An enabled monitor whose start was asked for.\<close>

lemma started_monitor_covers:
  assumes "kernel_laws os marks watches" "accepts os" "\<forall>w. fst (ao_bus os w)"
    and "am_inv marks watches m" "am_enable m \<noteq> 0" "am_start_pipe m = [start_byte]" "am_command_pipe m = []"
  shows "\<exists>m1. am_run os gv m [StartReady, CommandReady] m1
    \<and> coverage marks watches (am_world m1)
        = entry_coverage os (am_world m) (am_entries m) \<union> coverage marks watches (am_world m)
    \<and> entry_mounts (am_entries m) \<subseteq> {p. (FAN_MARK_MOUNT, p) \<in> marks (am_world m1)}"
proof -
  note ok = kernel_lawsD(3) [OF assms(1)]
  let ?m2 = "m\<lparr>am_start_pipe := [], am_command_pipe := [ACCESS_MONITOR_START]\<rparr>"
  let ?m3 = "m\<lparr>am_start_pipe := [], am_command_pipe := []\<rparr>"
  have inv3: "am_inv marks watches ?m3"
    using assms(4) by (simp add: am_inv_def)
  obtain m4 where m4: "am_inv marks watches m4" "am_entries m4 = am_entries ?m3"
      "marks (am_world m4) = marks (am_world m)" "watches (am_world m4) = watches (am_world m)"
      "\<And>p. ao_dir os p (am_world m4) = ao_dir os p (am_world m)"
      "access_monitor_start_command os ?m3 = Some (mark_entries os m4)"
    using start_command [OF assms(1) inv3] assms(3) by auto
  have "am_run os gv m [StartReady] ?m2"
    by (rule am_run_one) (simp_all add: delayed_start_cb_def ok access_monitor_is_enable_def assms(5-7)
        access_monitor_send_command_def Let_def)
  moreover have "am_run os gv ?m2 [CommandReady] (mark_entries os m4)"
    by (rule am_run_one) (simp_all add: command_cb_def ok m4(6) Let_def)
  ultimately have "am_run os gv m [StartReady, CommandReady] (mark_entries os m4)"
    using am_run_append by fastforce
  moreover have "coverage marks watches (am_world m4) = coverage marks watches (am_world m)"
    by (simp add: coverage_def m4(3,4))
  moreover note mark_entries_step [OF assms(1) m4(1)]
  ultimately show ?thesis
    using assms(2) m4(2) entry_coverage_same [OF m4(5)]
    by (intro exI [of _ "mark_entries os m4"]) (simp add: marks_more_def)
qed

section \<open>Properties\<close>

text \<open>
  the on-access monitor at all times. After any sequence of configuration calls, commands, kernel
  events and mounts, the tables mirror the watches of the kernel, every watched directory is marked,
  the pipes hold only what the monitor wrote, and no event that can occur brings the process down.
\<close>

theorem monitor_invariant:
  assumes "kernel_laws os marks watches" "access_monitor_new os pid src (confs, w0) = Some (m0, confs1)"
    and "watches w0 = (\<lambda>_. None)" "am_run os gv m0 ls m"
  shows "am_inv marks watches m \<and> (\<forall>l. am_enabled l m \<longrightarrow> am_react os gv l m \<noteq> None)"
proof -
  have "am_inv marks watches m"
    by (rule run_inv [OF assms(1) new_inv assms(4)]) (fact assms(2,3))+
  then show ?thesis
    using react_step [OF assms(1)] by fastforce
qed

text \<open>A monitor that was not started.\<close>

definition idle_monitor :: "('w \<Rightarrow> 'x) \<Rightarrow> 'x \<Rightarrow> 'w access_monitor \<Rightarrow> bool" where
  "idle_monitor marks ms m \<longleftrightarrow> am_enable m = 0 \<and> am_command_pipe m = [] \<and> am_scans m = []
    \<and> im_inotify_fd (am_inotify_monitor m) = -1 \<and> \<not> mo_conn (am_mount_monitor m)
    \<and> fm_fanotify_fd (am_fanotify_monitor m) = -1 \<and> marks (am_world m) = ms"

lemma idle_react:
  assumes "idle_monitor marks ms m" "am_enabled l m" "\<forall>n. l = Enable n \<longrightarrow> n = 0" "am_react os gv l m = Some m1"
  shows "idle_monitor marks ms m1"
proof (cases l)
  case DelayedStart
  with assms show ?thesis
    by (auto simp: access_monitor_delayed_start_def idle_monitor_def split: if_splits)
next
  case StartReady
  with assms show ?thesis
    by (auto simp: delayed_start_cb_def access_monitor_is_enable_def Let_def idle_monitor_def split: if_splits list.splits)
next
  case (AddMount p)
  with assms show ?thesis
    by (auto simp: access_monitor_add_mount_def add_entry_def Let_def idle_monitor_def split: if_splits)
qed (use assms in \<open>auto simp: idle_monitor_def access_monitor_enable_def access_monitor_enable_permission_def
      fanotify_monitor_enable_permission_def access_monitor_enable_removable_media_def am_world_def
      access_monitor_autoscan_removable_media_def access_monitor_add_directory_def add_entry_def set_scan_conf_def\<close>)

lemma idle_run:
  assumes "idle_monitor marks ms m0" "am_run os gv m0 ls m" "\<forall>n. Enable n \<in> set ls \<longrightarrow> n = 0"
  shows "idle_monitor marks ms m"
  using assms(2,1,3)
proof (induction rule: am_run.induct)
  case (am_step ls m l m1)
  then show ?case
    using idle_react [of marks ms m l os gv m1] by auto
qed

text \<open>
  protection that is not enabled does not start. However the rest of the configuration is set and
  the start is asked for, fanotify is not initialised, nothing is marked and no medium is scanned.
\<close>

theorem disabled_never_marks:
  assumes "access_monitor_new os pid src (confs, w0) = Some (m0, confs1)"
    and "am_run os gv m0 ls m" "\<forall>n. Enable n \<in> set ls \<longrightarrow> n = 0"
  shows "marks (am_world m) = marks w0 \<and> fm_fanotify_fd (am_fanotify_monitor m) = -1 \<and> am_scans m = []"
proof -
  have "idle_monitor marks (marks w0) m0"
    by (simp add: idle_monitor_def new_fields [OF assms(1)] inotify_monitor_new_def mount_monitor_new_def)
  from idle_run [OF this assms(2,3)] show ?thesis
    by (simp add: idle_monitor_def)
qed

text \<open>
  the start. Asking for the start of an enabled monitor sends one command to the monitor thread,
  which marks and watches every directory below the configured directories and marks the configured
  mount points, keeping what was covered.
\<close>

theorem start_covers_entries:
  assumes "kernel_laws os marks watches" "accepts os" "\<forall>w. fst (ao_bus os w)"
    and "am_inv marks watches m" "am_enable m \<noteq> 0" "am_start_pipe m = []" "am_command_pipe m = []"
  shows "\<exists>m1. am_run os gv m [DelayedStart, StartReady, CommandReady] m1
    \<and> coverage marks watches (am_world m1)
        = entry_coverage os (am_world m) (am_entries m) \<union> coverage marks watches (am_world m)
    \<and> entry_mounts (am_entries m) \<subseteq> {p. (FAN_MARK_MOUNT, p) \<in> marks (am_world m1)}"
proof -
  let ?m1 = "m\<lparr>am_start_pipe := [start_byte]\<rparr>"
  have "am_inv marks watches ?m1"
    using assms(4) by (simp add: am_inv_def)
  from started_monitor_covers [where gv = gv, OF assms(1-3) this] assms(5,7)
  obtain m2 where m2: "am_run os gv ?m1 [StartReady, CommandReady] m2"
      "coverage marks watches (am_world m2) = entry_coverage os (am_world m) (am_entries m) \<union> coverage marks watches (am_world m)"
      "entry_mounts (am_entries m) \<subseteq> {p. (FAN_MARK_MOUNT, p) \<in> marks (am_world m2)}"
    by auto
  have "am_run os gv m ([] @ [DelayedStart]) ?m1"
    by (rule am_step [OF am_start])
       (simp_all add: access_monitor_delayed_start_def kernel_lawsD(3) [OF assms(1)] assms(6))
  from am_run_append [OF this m2(1)] m2(2,3) show ?thesis
    by auto
qed

text \<open>
  a directory that is created in a watched directory, or moved into it, is protected with its whole
  tree as soon as the event is processed, and nothing else is lost.
\<close>

theorem new_directory_covered:
  assumes "kernel_laws os marks watches" "accepts os" "am_inv marks watches m"
    and "watches (am_world m) dir = Some wd" "has_flag mk IN_ISDIR" "has_flag mk IN_CREATE \<or> has_flag mk IN_MOVED_TO"
  shows "coverage marks watches (am_world (inotify_event_process os \<lparr>ie_wd = wd, ie_mask = mk, ie_name = Some name\<rparr> m))
    = dirs_of (entry_path dir name) (ao_dir os (entry_path dir name) (am_world m)) \<union> coverage marks watches (am_world m)"
proof -
  have "inotify_event_full_path (am_inotify_monitor m) \<lparr>ie_wd = wd, ie_mask = mk, ie_name = Some name\<rparr>
      = Some (entry_path dir name)"
    using assms(3,4) by (intro full_path_mirrors [of "watches (am_world m)"]) (simp_all add: am_inv_def)
  then have "inotify_event_process os \<lparr>ie_wd = wd, ie_mask = mk, ie_name = Some name\<rparr> m
      = recursive_mark os (entry_path dir name) m"
    using assms(5,6) by (simp add: inotify_event_process_def)
  then show ?thesis
    using recursive_mark_step [OF assms(1,3), of "entry_path dir name"] assms(2) by (simp add: marks_more_def)
qed

text \<open>
  without D-Bus there is no protection. When the connection cannot be opened, which is logged as a
  warning only, the start command initialises fanotify and then marks nothing.
\<close>

theorem no_bus_no_marks:
  assumes "kernel_laws os marks watches" "\<forall>w. \<not> fst (ao_bus os w)" "am_inv marks watches m"
  shows "\<exists>m1. access_monitor_start_command os m = Some m1 \<and> 0 \<le> fm_fanotify_fd (am_fanotify_monitor m1)
    \<and> marks (am_world m1) = marks (am_world m) \<and> watches (am_world m1) = watches (am_world m)"
  using start_command [OF assms(1,3)] assms(2) by auto

text \<open>
  a directory that was deleted or moved away stays in the tables. Its path no longer exists, so the
  removal of the fanotify mark fails, and the removal of the watch is never reached.
\<close>

theorem deleted_directory_stays:
  assumes "am_inv marks watches m" "watches (am_world m) dir = Some wd" "has_flag mk IN_ISDIR"
    and "\<not> has_flag mk IN_CREATE" "\<not> has_flag mk IN_MOVED_TO"
    and "\<forall>fd am w. fst (fo_mark (ao_fa os) fd FAN_MARK_REMOVE am (entry_path dir name) w) < 0"
  shows "am_inotify_monitor (inotify_event_process os \<lparr>ie_wd = wd, ie_mask = mk, ie_name = Some name\<rparr> m)
    = am_inotify_monitor m"
proof -
  have "inotify_event_full_path (am_inotify_monitor m) \<lparr>ie_wd = wd, ie_mask = mk, ie_name = Some name\<rparr>
      = Some (entry_path dir name)"
    using assms(1,2) by (intro full_path_mirrors [of "watches (am_world m)"]) (simp_all add: am_inv_def)
  moreover have "am_inotify_monitor (snd (access_monitor_unmark_directory os (entry_path dir name) m)) = am_inotify_monitor m"
    using assms(6) by (auto simp: access_monitor_unmark_directory_def fanotify_monitor_unmark_directory_def split: prod.split)
       (metis fst_conv)
  ultimately show ?thesis
    using assms(3-5) by (simp add: inotify_event_process_def)
qed

text \<open>
  a mount point that does not exist is accepted. The device number of a path that cannot be read is
  the largest unsigned number, which no test recognises as an error.
\<close>

theorem missing_mount_added:
  assumes "ao_dev os p (am_world m) = None" "ao_dev os ''/'' (am_world m) = Some d" "d \<noteq> -1"
  shows "access_monitor_add_mount os p m = Some (add_entry p ENTRY_MOUNT m)"
  using assms by (simp add: access_monitor_add_mount_def get_dev_id_def Let_def)

text \<open>
  a medium that is mounted. While the monitor is connected to D-Bus, the change of the mount points
  of a file system marks its first mount point if removable media are monitored, and starts a scan of
  it if they are scanned automatically.
\<close>

theorem mounted_medium_marked:
  assumes "kernel_laws os marks watches" "accepts os" "am_inv marks watches m" "mo_conn (am_mount_monitor m)"
    and "3 \<le> gv_n_children gv v" "gv_is_string gv (gv_child gv v 0)"
    and "gv_is_vardict gv (gv_child gv v 1)" "gv_is_string_array gv (gv_child gv v 2)"
    and "gv_string gv (gv_child gv v 0) = ''org.freedesktop.UDisks2.Filesystem''"
    and "gv_lookup gv (gv_child gv v 1) ''MountPoints'' = Some pts" "gv_bytestring_array gv pts = p # ps"
  shows "\<exists>m1. am_run os gv m [MountSignal (Some v)] m1
    \<and> (am_enable_removable_media m \<noteq> 0 \<longrightarrow> (FAN_MARK_MOUNT, p) \<in> marks (am_world m1))
    \<and> am_scans m1 = am_scans m @ (if am_autoscan_removable_media m \<noteq> 0 then [Some p] else [])
    \<and> coverage marks watches (am_world m1) = coverage marks watches (am_world m)"
proof -
  let ?m1 = "mount_signal_cb gv (mount_cb os) (Some v) m"
  let ?ms = "if am_autoscan_removable_media m \<noteq> 0 then m\<lparr>am_scans := am_scans m @ [Some p]\<rparr> else m"
  have run: "am_run os gv m ([] @ [MountSignal (Some v)]) ?m1"
    by (rule am_step [OF am_start]) (simp_all add: assms(4))
  have m1: "?m1 = (if am_enable_removable_media m \<noteq> 0 then mark_mount_point os p ?ms else ?ms)"
    using assms(5-11)
    by (simp add: mount_signal_cb_def get_mount_event_def Let_def mount_cb_def mount_idle_cb_def mount_data_new_def
        access_monitor_is_autoscan_removable_media_def access_monitor_is_enable_removable_media_def scan_media_def)
  have inv: "am_inv marks watches ?ms" and world: "am_world ?ms = am_world m"
    using assms(3) by (simp_all add: am_inv_def)
  have scans: "am_scans (mark_mount_point os p x) = am_scans x" for x
    by (simp add: mark_mount_point_def)
  have cov: "coverage marks watches (am_world (mark_mount_point os p ?ms)) = coverage marks watches (am_world m)"
    using mark_mount_step(1) [OF assms(1) inv, of p] assms(2) world by (simp add: marks_more_def)
  show ?thesis
  proof (intro exI conjI impI)
    show "am_run os gv m [MountSignal (Some v)] ?m1"
      using run by simp
    show "(FAN_MARK_MOUNT, p) \<in> marks (am_world ?m1)" if "am_enable_removable_media m \<noteq> 0"
      unfolding m1 using that mark_mount_step(2) [OF assms(1) inv assms(2), of p] by simp
    show "am_scans ?m1 = am_scans m @ (if am_autoscan_removable_media m \<noteq> 0 then [Some p] else [])"
      unfolding m1 using scans by simp
    show "coverage marks watches (am_world ?m1) = coverage marks watches (am_world m)"
      unfolding m1 using cov world by (simp split: if_split)
  qed
qed

section \<open>A kernel\<close>

text \<open>
  A kernel that accepts everything: the marks, the watched paths by descriptor, the first descriptor
  being 1, and the events that wait to be read. The directory \<open>/srv\<close> has one subdirectory.
\<close>

record kernel =
  kn_marks :: "(u32 \<times> string) set"
  kn_watches :: "cstr list"
  kn_events :: "inotify_event list"

fun watch_index :: "cstr list \<Rightarrow> string \<Rightarrow> int \<Rightarrow> int option" where
  "watch_index [] path n = None"
| "watch_index (x # xs) path n = (if x = Some path then Some n else watch_index xs path (n + 1))"

definition kn_watch :: "kernel \<Rightarrow> string \<Rightarrow> int option" where
  "kn_watch w path = watch_index (kn_watches w) path 1"

definition kn_add_watch :: "int \<Rightarrow> string \<Rightarrow> u32 \<Rightarrow> kernel \<Rightarrow> int \<times> kernel" where
  "kn_add_watch fd path wm w = (case kn_watch w path of
       Some wd \<Rightarrow> (wd, w)
     | None \<Rightarrow> (int (length (kn_watches w)) + 1, w\<lparr>kn_watches := kn_watches w @ [Some path]\<rparr>))"

definition kn_rm_watch :: "int \<Rightarrow> int \<Rightarrow> kernel \<Rightarrow> int \<times> kernel" where
  "kn_rm_watch fd wd w = (0, w\<lparr>kn_watches :=
     map (\<lambda>x. case x of None \<Rightarrow> None | Some p \<Rightarrow> if kn_watch w p = Some wd then None else Some p) (kn_watches w)\<rparr>)"

definition kernel_os :: "bool \<Rightarrow> kernel am_os" where
  "kernel_os bus =
    \<lparr>ao_fa = \<lparr>fo_scan = \<lparr>so_open = (\<lambda>p w. (3, w)), so_mime_type_guess_fd = (\<lambda>fd w. (None, w)),
         so_lseek = (\<lambda>fd w. (0, w)), so_close = (\<lambda>fd w. (0, w))\<rparr>,
       fo_write = (\<lambda>fd r w. (0, w)), fo_readlink = (\<lambda>fd w. None), fo_fstat = (\<lambda>fd w. None),
       fo_read = (\<lambda>fd w. (Some [], w)), fo_init = (\<lambda>fl w. (4, w)),
       fo_mark = (\<lambda>fd fl am path w. (0, w\<lparr>kn_marks := marked fl path (kn_marks w)\<rparr>)), fo_stack_id = 0\<rparr>,
     ao_in = \<lparr>io_init = (\<lambda>w. (5, w)), io_add_watch = kn_add_watch, io_rm_watch = kn_rm_watch,
       io_read = (\<lambda>fd w. (kn_events w, w\<lparr>kn_events := []\<rparr>))\<rparr>,
     ao_dev = (\<lambda>p w. if p = ''/'' then Some 1 else None),
     ao_dir = (\<lambda>p w. if p = ''/srv'' then Readable [SubDir ''a'' (Readable [] None)] None else Readable [] None),
     ao_bus = (\<lambda>w. (bus, w)), ao_io_ok = (\<lambda>w. True)\<rparr>"

lemma watch_index_bounds: "watch_index xs p n = Some k \<Longrightarrow> n \<le> k \<and> k < n + int (length xs) \<and> xs ! nat (k - n) = Some p"
proof (induction xs p n rule: watch_index.induct)
  case (2 x xs path n)
  show ?case
  proof (cases "x = Some path")
    case False
    then have k: "n + 1 \<le> k" "k < n + 1 + int (length xs)" "xs ! nat (k - (n + 1)) = Some path"
      using 2 by simp_all
    then have "nat (k - n) = Suc (nat (k - (n + 1)))"
      by simp
    with k show ?thesis by simp
  qed (use 2 in auto)
qed simp

lemma watch_index_append:
  "watch_index (xs @ [Some q]) p n =
    (case watch_index xs p n of Some k \<Rightarrow> Some k | None \<Rightarrow> if q = p then Some (n + int (length xs)) else None)"
  by (induction xs p n rule: watch_index.induct) (auto split: option.split)

lemma watch_index_map:
  assumes "\<And>x. f x = Some p \<longleftrightarrow> x = Some p \<and> \<not> gone"
  shows "watch_index (map f xs) p n = (if gone then None else watch_index xs p n)"
  by (induction xs arbitrary: n) (auto simp: assms)

lemma kn_watch_unique: "kn_watch w p = Some wd \<Longrightarrow> kn_watch w q = Some wd \<Longrightarrow> p = q"
  using watch_index_bounds [of "kn_watches w" p 1 wd] watch_index_bounds [of "kn_watches w" q 1 wd]
  by (simp add: kn_watch_def)

lemma kn_watch_frame [simp]:
  "kn_watch (w\<lparr>kn_marks := x\<rparr>) = kn_watch w" "kn_watch (w\<lparr>kn_events := y\<rparr>) = kn_watch w"
  by (simp_all add: fun_eq_iff kn_watch_def)

lemma kernel_watch_laws: "watch_laws (ao_in (kernel_os bus)) kn_watch"
proof -
  have add: "\<exists>wd w1. kn_add_watch fd path wm w = (wd, w1)
      \<and> (wd = -1 \<and> kn_watch w1 = kn_watch w \<or> added_watch (kn_watch w) path wd (kn_watch w1))" for fd path wm w
  proof (cases "kn_watch w path")
    case None
    let ?wd = "int (length (kn_watches w)) + 1"
    let ?w1 = "w\<lparr>kn_watches := kn_watches w @ [Some path]\<rparr>"
    have "kn_watch ?w1 = (kn_watch w)(path \<mapsto> ?wd)"
      using None by (auto simp: fun_eq_iff kn_watch_def watch_index_append split: option.split)
    moreover have "kn_watch w p \<noteq> Some ?wd" for p
      using watch_index_bounds [of "kn_watches w" p 1 ?wd] by (auto simp: kn_watch_def)
    ultimately show ?thesis
      using None by (auto simp: kn_add_watch_def added_watch_def)
  next
    case (Some wd)
    then have "0 < wd"
      using watch_index_bounds [of "kn_watches w" path 1 wd] by (simp add: kn_watch_def)
    then have "added_watch (kn_watch w) path wd (kn_watch w)"
      unfolding added_watch_def
    proof (intro conjI)
      show "\<forall>p. kn_watch w p = Some wd \<longrightarrow> p = path"
        using kn_watch_unique Some by blast
    qed (simp_all add: Some fun_upd_idem)
    then show ?thesis
      using Some by (simp add: kn_add_watch_def)
  qed
  have rm: "kn_watch (snd (kn_rm_watch fd wd w)) = (\<lambda>p. if kn_watch w p = Some wd then None else kn_watch w p)" for fd wd w
  proof
    fix p
    let ?f = "\<lambda>x. case x of None \<Rightarrow> None | Some p \<Rightarrow> if kn_watch w p = Some wd then None else Some p"
    have f: "?f x = Some p \<longleftrightarrow> x = Some p \<and> \<not> kn_watch w p = Some wd" for x
      by (cases x) auto
    have "kn_watch (snd (kn_rm_watch fd wd w)) p = watch_index (map ?f (kn_watches w)) p 1"
      unfolding kn_rm_watch_def by (simp add: kn_watch_def [of "w\<lparr>kn_watches := l\<rparr>" for l])
    also have "\<dots> = (if kn_watch w p = Some wd then None else watch_index (kn_watches w) p 1)"
      by (rule watch_index_map) (rule f)
    finally show "kn_watch (snd (kn_rm_watch fd wd w)) p = (if kn_watch w p = Some wd then None else kn_watch w p)"
      by (simp add: kn_watch_def)
  qed
  show ?thesis
    using add rm by (simp add: watch_laws_def kernel_os_def)
qed

lemma kernel_os_laws: "kernel_laws (kernel_os bus) kn_marks kn_watch" "accepts (kernel_os bus)"
proof -
  have keep: "kn_marks (snd (kn_add_watch fd path wm w)) = kn_marks w" for fd path wm w
    by (simp add: kn_add_watch_def split: option.split)
  have pos: "fst (kn_add_watch fd path wm w) \<noteq> -1" for fd path wm w
    using watch_index_bounds [of "kn_watches w" path 1] by (auto simp: kn_add_watch_def kn_watch_def split: option.split)
  show "kernel_laws (kernel_os bus) kn_marks kn_watch"
    using kernel_watch_laws keep
    by (simp add: kernel_laws_def kernel_os_def keeps_def mark_laws_def kn_rm_watch_def)
  show "accepts (kernel_os bus)"
    using pos by (simp add: accepts_def kernel_os_def)
qed

definition kernel_init :: kernel where
  "kernel_init = \<lparr>kn_marks = {}, kn_watches = [], kn_events = []\<rparr>"

definition sample_monitor :: "kernel access_monitor" where
  "sample_monitor = (case access_monitor_new (kernel_os True) 7 a6o_event_source_new
     (\<lparr>on_demand_conf = None, on_access_conf = None\<rparr>, kernel_init) of Some (m, c) \<Rightarrow> m)"

text \<open>No message of D-Bus is understood, or every one announces a medium.\<close>

definition quiet_gv :: "unit gvariant_ops" where
  "quiet_gv = \<lparr>gv_n_children = (\<lambda>v. 3), gv_child = (\<lambda>v i. ()), gv_is_string = (\<lambda>v. True), gv_is_vardict = (\<lambda>v. True),
     gv_is_string_array = (\<lambda>v. True), gv_string = (\<lambda>v. ''org.freedesktop.UDisks2.Filesystem''),
     gv_lookup = (\<lambda>v k. Some ()), gv_bytestring_array = (\<lambda>v. [''/media/usb''])\<rparr>"

lemma sample_monitor_new:
  "\<exists>c. access_monitor_new (kernel_os True) 7 a6o_event_source_new
    (\<lparr>on_demand_conf = None, on_access_conf = None\<rparr>, kernel_init) = Some (sample_monitor, c)"
  by (simp add: sample_monitor_def access_monitor_new_def kernel_os_def split: prod.split)

lemma kernel_init_watches: "kn_watch kernel_init = (\<lambda>_. None)"
  by (simp add: fun_eq_iff kn_watch_def kernel_init_def)

lemma sample_monitor_inv: "am_inv kn_marks kn_watch sample_monitor"
  using sample_monitor_new new_inv [where watches = kn_watch, OF _ kernel_init_watches] by blast

lemma sample_monitor_fields:
  "am_world sample_monitor = kernel_init" "am_enable sample_monitor = 0" "am_start_pipe sample_monitor = []"
  "am_command_pipe sample_monitor = []" "am_scans sample_monitor = []" "am_inotify_monitor sample_monitor = inotify_monitor_new"
proof -
  obtain c where "access_monitor_new (kernel_os True) 7 a6o_event_source_new
      (\<lparr>on_demand_conf = None, on_access_conf = None\<rparr>, kernel_init) = Some (sample_monitor, c)"
    using sample_monitor_new by blast
  note new_fields [OF this]
  then show "am_world sample_monitor = kernel_init" "am_enable sample_monitor = 0" "am_start_pipe sample_monitor = []"
    "am_command_pipe sample_monitor = []" "am_scans sample_monitor = []" "am_inotify_monitor sample_monitor = inotify_monitor_new"
    by simp_all
qed

text \<open>An enabled monitor of the directory \<open>/srv\<close>, and one that watches \<open>/srv\<close>.\<close>

definition enabled_monitor :: "kernel access_monitor" where
  "enabled_monitor = sample_monitor\<lparr>am_enable := 1, am_enable_removable_media := 1, am_autoscan_removable_media := 1,
     am_mount_monitor := \<lparr>mo_conn = True\<rparr>,
     am_entries := [\<lparr>me_path = ''/srv'', me_flag = ENTRY_DIR\<rparr>, \<lparr>me_path = ''/mnt'', me_flag = ENTRY_MOUNT\<rparr>]\<rparr>"

lemma enabled_monitor_fields:
  "am_world enabled_monitor = kernel_init" "am_enable enabled_monitor \<noteq> 0" "am_start_pipe enabled_monitor = []"
  "am_command_pipe enabled_monitor = []" "am_inv kn_marks kn_watch enabled_monitor"
  "mo_conn (am_mount_monitor enabled_monitor)" "am_scans enabled_monitor = []"
  "am_enable_removable_media enabled_monitor \<noteq> 0" "am_autoscan_removable_media enabled_monitor \<noteq> 0"
  "am_entries enabled_monitor = [\<lparr>me_path = ''/srv'', me_flag = ENTRY_DIR\<rparr>, \<lparr>me_path = ''/mnt'', me_flag = ENTRY_MOUNT\<rparr>]"
  using sample_monitor_fields sample_monitor_inv by (simp_all add: enabled_monitor_def am_inv_def)

definition watching_monitor :: "kernel access_monitor" where
  "watching_monitor = mark_directory (kernel_os True) ''/srv'' sample_monitor"

lemma watching_monitor_fields:
  "am_inv kn_marks kn_watch watching_monitor" "kn_watch (am_world watching_monitor) ''/srv'' = Some 1"
  "coverage kn_marks kn_watch (am_world watching_monitor) = {''/srv''}"
proof -
  note s = mark_directory_step [OF kernel_os_laws(1) [of True] sample_monitor_inv, of "''/srv''", folded watching_monitor_def]
  show "am_inv kn_marks kn_watch watching_monitor"
    using s by (simp add: marks_more_def)
  show "coverage kn_marks kn_watch (am_world watching_monitor) = {''/srv''}"
    using s kernel_os_laws(2) by (simp add: marks_more_def coverage_def sample_monitor_fields kernel_init_def)
  have "fm_world (am_fanotify_monitor sample_monitor) = kernel_init"
    using sample_monitor_fields(1) by (simp add: am_world_def)
  then show "kn_watch (am_world watching_monitor) ''/srv'' = Some 1"
    by (simp add: watching_monitor_def mark_directory_def fanotify_monitor_mark_directory_def kernel_os_def
        inotify_monitor_mark_directory_def kn_add_watch_def kn_watch_def kernel_init_def sample_monitor_fields split: prod.split)
qed

theorem monitor_invariant_witness:
  "\<forall>l. am_enabled l sample_monitor \<longrightarrow> am_react (kernel_os True) quiet_gv l sample_monitor \<noteq> None"
  using monitor_invariant [OF kernel_os_laws(1) _ kernel_init_watches am_start] sample_monitor_new by blast

theorem disabled_never_marks_witness:
  "\<exists>m. am_run (kernel_os True) quiet_gv sample_monitor [EnablePermission 1] m \<and> kn_marks (am_world m) = {}"
proof -
  have "am_run (kernel_os True) quiet_gv sample_monitor ([] @ [EnablePermission 1])
      (snd (access_monitor_enable_permission 1 sample_monitor))"
    by (rule am_step [OF am_start]) simp_all
  moreover obtain c where "access_monitor_new (kernel_os True) 7 a6o_event_source_new
      (\<lparr>on_demand_conf = None, on_access_conf = None\<rparr>, kernel_init) = Some (sample_monitor, c)"
    using sample_monitor_new by blast
  ultimately show ?thesis
    using disabled_never_marks [of "kernel_os True" 7 a6o_event_source_new _ kernel_init sample_monitor _ quiet_gv
        "[EnablePermission 1]" _ kn_marks] by (force simp: kernel_init_def)
qed

theorem start_covers_entries_witness:
  "\<exists>m1. am_run (kernel_os True) quiet_gv enabled_monitor [DelayedStart, StartReady, CommandReady] m1
    \<and> coverage kn_marks kn_watch (am_world m1) = {''/srv'', ''/srv/a''}
    \<and> (FAN_MARK_MOUNT, ''/mnt'') \<in> kn_marks (am_world m1)"
proof -
  have bus: "\<forall>w. fst (ao_bus (kernel_os True) w)"
    by (simp add: kernel_os_def)
  have cov: "entry_coverage (kernel_os True) kernel_init (am_entries enabled_monitor) = {''/srv'', ''/srv/a''}"
    by (simp add: entry_coverage_def enabled_monitor_fields kernel_os_def dot_name_def entry_path_def)
  have none: "coverage kn_marks kn_watch kernel_init = {}"
    by (simp add: coverage_def kernel_init_def)
  have mnt: "''/mnt'' \<in> entry_mounts (am_entries enabled_monitor)"
    by (force simp: entry_mounts_def enabled_monitor_fields)
  from start_covers_entries [OF kernel_os_laws(1) kernel_os_laws(2) bus enabled_monitor_fields(5,2,3,4), of quiet_gv,
      unfolded enabled_monitor_fields(1) cov none]
  obtain m1 where "am_run (kernel_os True) quiet_gv enabled_monitor [DelayedStart, StartReady, CommandReady] m1"
      "coverage kn_marks kn_watch (am_world m1) = {''/srv'', ''/srv/a''} \<union> {}"
      "entry_mounts (am_entries enabled_monitor) \<subseteq> {p. (FAN_MARK_MOUNT, p) \<in> kn_marks (am_world m1)}"
    by blast
  then show ?thesis
    using mnt by (intro exI [of _ m1]) blast
qed

theorem new_directory_covered_witness:
  "coverage kn_marks kn_watch (am_world (inotify_event_process (kernel_os True)
      \<lparr>ie_wd = 1, ie_mask = IN_ISDIR OR IN_CREATE, ie_name = Some ''b''\<rparr> watching_monitor)) = {''/srv'', ''/srv/b''}"
proof -
  have "has_flag (IN_ISDIR OR IN_CREATE) IN_ISDIR" "has_flag (IN_ISDIR OR IN_CREATE) IN_CREATE"
    by (simp_all add: has_flag_def in_defs)
  then show ?thesis
    using new_directory_covered [OF kernel_os_laws(1) [of True] kernel_os_laws(2) watching_monitor_fields(1,2), of "IN_ISDIR OR IN_CREATE" "''b''"]
    by (auto simp: watching_monitor_fields kernel_os_def entry_path_def)
qed

theorem no_bus_no_marks_witness:
  "\<exists>m1. access_monitor_start_command (kernel_os False) enabled_monitor = Some m1 \<and> kn_marks (am_world m1) = {}"
  using no_bus_no_marks [OF kernel_os_laws(1) [of False] _ enabled_monitor_fields(5)]
  by (auto simp: kernel_os_def enabled_monitor_fields kernel_init_def)

text \<open>The same kernel, which finds no mark to remove.\<close>

definition forgetful_os :: "kernel am_os" where
  "forgetful_os = (kernel_os True)\<lparr>ao_fa := (ao_fa (kernel_os True))\<lparr>fo_mark := (\<lambda>fd fl am path w. (-1, w))\<rparr>\<rparr>"

theorem deleted_directory_stays_witness:
  "am_inotify_monitor (inotify_event_process forgetful_os
      \<lparr>ie_wd = 1, ie_mask = IN_ISDIR OR IN_DELETE, ie_name = Some ''a''\<rparr> watching_monitor)
    = am_inotify_monitor watching_monitor"
  using deleted_directory_stays [OF watching_monitor_fields(1,2), of "IN_ISDIR OR IN_DELETE" forgetful_os "''a''"]
  by (simp add: has_flag_def in_defs forgetful_os_def)

theorem missing_mount_added_witness:
  "access_monitor_add_mount (kernel_os True) ''/none'' sample_monitor = Some (add_entry ''/none'' ENTRY_MOUNT sample_monitor)"
  using missing_mount_added [of "kernel_os True" "''/none''" sample_monitor 1] by (simp add: kernel_os_def)

theorem mounted_medium_marked_witness:
  "\<exists>m1. am_run (kernel_os True) quiet_gv enabled_monitor [MountSignal (Some ())] m1
    \<and> (FAN_MARK_MOUNT, ''/media/usb'') \<in> kn_marks (am_world m1) \<and> am_scans m1 = [Some ''/media/usb'']"
  using mounted_medium_marked [OF kernel_os_laws(1) kernel_os_laws(2) enabled_monitor_fields(5,6), of quiet_gv "()" "()" "''/media/usb''" "[]"]
  by (auto simp: quiet_gv_def enabled_monitor_fields)

end
