(* ===== verification/BuiltinModules.thy ===== *)
theory BuiltinModules
  imports AccessMonitor ConfFile
begin

text \<open>
  The modules that are built in the library: the configuration of on-demand scans
  (\<open>builtin-modules/on-demand/ondemandmod.c\<close>), the on-access protection
  (\<open>builtin-modules/on-access/onaccessmod.c\<close>) and the quarantine
  (\<open>builtin-modules/quarantine/quarantine.c\<close>, which the build file leaves out).

  The functions of a module work on a world, as in theory \<open>Module\<close>. For these modules it holds their
  private data, the scan configurations, which are static variables, and the daemon's look-up of
  modules; the world of a process that crashed is \<open>None\<close>.
\<close>

section \<open>The world of the modules\<close>

record quarantine_data =
  qu_quarantine_dir :: cstr
  qu_enable :: int

text \<open>
  The monitor exists from the initialisation of its module; before that the system it will run on is
  \<open>bw_kernel\<close>. \<open>bw_by_name\<close> is the look-up reached through \<open>module->armadito\<close>, and \<open>bw_rest\<close> the data
  of the modules that are loaded.
\<close>

record ('w, 'd) builtin =
  bw_monitor :: "'w access_monitor option"
  bw_kernel :: 'w
  bw_confs :: scan_confs
  bw_source :: a6o_event_source
  bw_by_name :: "string \<Rightarrow> nat option"
  bw_quarantine :: "quarantine_data option"
  bw_rest :: 'd

type_synonym ('w, 'd) mod_world = "('w, 'd) builtin option"

text \<open>A function that may crash, as a function on the world.\<close>

definition on_world :: "('b \<Rightarrow> (a6o_mod_status \<times> 'b) option) \<Rightarrow> 'b option \<Rightarrow> a6o_mod_status \<times> 'b option" where
  "on_world f w = (case w of
       None \<Rightarrow> (A6O_MOD_OK, None)
     | Some b \<Rightarrow> (case f b of None \<Rightarrow> (A6O_MOD_OK, None) | Some (st, b1) \<Rightarrow> (st, Some b1)))"

text \<open>The loop over a value that is a string or a list; the type of the value was checked by the caller.\<close>

fun each_string :: "(string \<Rightarrow> 'b \<Rightarrow> 'b option) \<Rightarrow> string list \<Rightarrow> 'b \<Rightarrow> 'b option" where
  "each_string f [] b = Some b"
| "each_string f (s # ss) b = Option.bind (f s b) (each_string f ss)"

definition conf_strings :: "(string \<Rightarrow> 'b \<Rightarrow> 'b option) \<Rightarrow> a6o_conf_value \<Rightarrow> 'b \<Rightarrow> (a6o_mod_status \<times> 'b) option" where
  "conf_strings f v b = map_option (Pair A6O_MOD_OK) (case v of
       CV_STRING s \<Rightarrow> (case s of None \<Rightarrow> None | Some t \<Rightarrow> f t b)
     | CV_LIST ss \<Rightarrow> each_string f ss b
     | _ \<Rightarrow> None)"

definition conf_int :: "(u32 \<Rightarrow> 'b \<Rightarrow> 'b option) \<Rightarrow> a6o_conf_value \<Rightarrow> 'b \<Rightarrow> (a6o_mod_status \<times> 'b) option" where
  "conf_int f v b = map_option (Pair A6O_MOD_OK) (case v of CV_INT i \<Rightarrow> f i b | _ \<Rightarrow> None)"

section \<open>On-demand scans\<close>

definition set_on_demand :: "(a6o_scan_conf \<Rightarrow> a6o_scan_conf) \<Rightarrow> ('w, 'd) builtin \<Rightarrow> ('w, 'd) builtin" where
  "set_on_demand f b = (case a6o_scan_conf_on_demand (bw_confs b) of
     (c, g) \<Rightarrow> b\<lparr>bw_confs := g\<lparr>on_demand_conf := Some (f c)\<rparr>\<rparr>)"

definition mod_on_demand_conf_white_list_dir :: "nat \<Rightarrow> string \<Rightarrow> a6o_conf_value \<Rightarrow> ('w, 'd) mod_world \<Rightarrow> a6o_mod_status \<times> ('w, 'd) mod_world" where
  "mod_on_demand_conf_white_list_dir i key v =
    on_world (conf_strings (\<lambda>s b. Some (set_on_demand (\<lambda>c. a6o_scan_conf_white_list_directory c s) b)) v)"

definition mod_on_demand_conf_modules :: "nat \<Rightarrow> string \<Rightarrow> a6o_conf_value \<Rightarrow> ('w, 'd) mod_world \<Rightarrow> a6o_mod_status \<times> ('w, 'd) mod_world" where
  "mod_on_demand_conf_modules i key v =
    on_world (conf_strings (\<lambda>s b. Some (set_on_demand (\<lambda>c. a6o_scan_conf_add_module c s (bw_by_name b)) b)) v)"

definition mod_on_demand_conf_mime_types :: "nat \<Rightarrow> string \<Rightarrow> a6o_conf_value \<Rightarrow> ('w, 'd) mod_world \<Rightarrow> a6o_mod_status \<times> ('w, 'd) mod_world" where
  "mod_on_demand_conf_mime_types i key v =
    on_world (conf_strings (\<lambda>s b. Some (set_on_demand (\<lambda>c. a6o_scan_conf_add_mime_type c s) b)) v)"

definition mod_on_demand_conf_max_size :: "nat \<Rightarrow> string \<Rightarrow> a6o_conf_value \<Rightarrow> ('w, 'd) mod_world \<Rightarrow> a6o_mod_status \<times> ('w, 'd) mod_world" where
  "mod_on_demand_conf_max_size i key v =
    on_world (conf_int (\<lambda>n b. Some (set_on_demand (\<lambda>c. a6o_scan_conf_max_file_size c n) b)) v)"

definition on_demand_conf_table :: "('w, 'd) mod_world a6o_conf_entry list" where
  "on_demand_conf_table =
    [\<lparr>cen_key = ''white-list-dir'', cen_type = CONF_TYPE_STRING OR CONF_TYPE_LIST, cen_conf_fun = Some mod_on_demand_conf_white_list_dir\<rparr>,
     \<lparr>cen_key = ''modules'', cen_type = CONF_TYPE_STRING OR CONF_TYPE_LIST, cen_conf_fun = Some mod_on_demand_conf_modules\<rparr>,
     \<lparr>cen_key = ''mime-types'', cen_type = CONF_TYPE_STRING OR CONF_TYPE_LIST, cen_conf_fun = Some mod_on_demand_conf_mime_types\<rparr>,
     \<lparr>cen_key = ''max-size'', cen_type = CONF_TYPE_INT, cen_conf_fun = Some mod_on_demand_conf_max_size\<rparr>]"

definition on_demand_module :: "('w, 'd) mod_world a6o_module" where
  "on_demand_module =
    \<lparr>mod_init_fun = None, mod_conf_table = Some on_demand_conf_table, mod_post_init_fun = None,
     mod_scan_fun = None, mod_close_fun = None, mod_info_fun = None, mod_supported_mime_types = None,
     mod_name = ''on-demand'', mod_size = 0, mod_status = A6O_MOD_OK, mod_data = False\<rparr>"

section \<open>On-access protection\<close>

text \<open>The functions that use \<open>data->monitor\<close>, which is not set before the initialisation.\<close>

definition with_monitor ::
  "('w access_monitor \<Rightarrow> 'w access_monitor option) \<Rightarrow> ('w, 'd) builtin \<Rightarrow> ('w, 'd) builtin option" where
  "with_monitor f b = (case bw_monitor b of
       None \<Rightarrow> None
     | Some m \<Rightarrow> map_option (\<lambda>m1. b\<lparr>bw_monitor := Some m1\<rparr>) (f m))"

text \<open>The on-access configuration is the static variable and the one the fanotify monitor points to.\<close>

definition set_on_access :: "(a6o_scan_conf \<Rightarrow> a6o_scan_conf) \<Rightarrow> ('w, 'd) builtin \<Rightarrow> ('w, 'd) builtin" where
  "set_on_access f b = (case a6o_scan_conf_on_access (bw_confs b) of
     (c, g) \<Rightarrow> b\<lparr>bw_monitor := map_option (set_scan_conf (f c)) (bw_monitor b),
                 bw_confs := g\<lparr>on_access_conf := Some (f c)\<rparr>\<rparr>)"

definition mod_oal_init :: "'w am_os \<Rightarrow> int \<Rightarrow> nat \<Rightarrow> ('w, 'd) mod_world \<Rightarrow> a6o_mod_status \<times> ('w, 'd) mod_world" where
  "mod_oal_init os pid i = on_world (\<lambda>b.
     case access_monitor_new os pid (bw_source b) (bw_confs b, bw_kernel b) of
       None \<Rightarrow> None
     | Some (m, confs) \<Rightarrow> Some (A6O_MOD_OK, b\<lparr>bw_monitor := Some m, bw_confs := confs\<rparr>))"

definition mod_oal_conf_enable :: "nat \<Rightarrow> string \<Rightarrow> a6o_conf_value \<Rightarrow> ('w, 'd) mod_world \<Rightarrow> a6o_mod_status \<times> ('w, 'd) mod_world" where
  "mod_oal_conf_enable i key v =
    on_world (conf_int (\<lambda>n. with_monitor (\<lambda>m. Some (snd (access_monitor_enable (sint n) m)))) v)"

definition mod_oal_conf_enable_permission :: "nat \<Rightarrow> string \<Rightarrow> a6o_conf_value \<Rightarrow> ('w, 'd) mod_world \<Rightarrow> a6o_mod_status \<times> ('w, 'd) mod_world" where
  "mod_oal_conf_enable_permission i key v =
    on_world (conf_int (\<lambda>n. with_monitor (\<lambda>m. Some (snd (access_monitor_enable_permission (sint n) m)))) v)"

definition mod_oal_conf_enable_removable_media :: "nat \<Rightarrow> string \<Rightarrow> a6o_conf_value \<Rightarrow> ('w, 'd) mod_world \<Rightarrow> a6o_mod_status \<times> ('w, 'd) mod_world" where
  "mod_oal_conf_enable_removable_media i key v =
    on_world (conf_int (\<lambda>n. with_monitor (\<lambda>m. Some (snd (access_monitor_enable_removable_media (sint n) m)))) v)"

definition mod_oal_conf_autoscan_removable_media :: "nat \<Rightarrow> string \<Rightarrow> a6o_conf_value \<Rightarrow> ('w, 'd) mod_world \<Rightarrow> a6o_mod_status \<times> ('w, 'd) mod_world" where
  "mod_oal_conf_autoscan_removable_media i key v =
    on_world (conf_int (\<lambda>n. with_monitor (\<lambda>m. Some (snd (access_monitor_autoscan_removable_media (sint n) m)))) v)"

definition mod_oal_conf_mount :: "'w am_os \<Rightarrow> nat \<Rightarrow> string \<Rightarrow> a6o_conf_value \<Rightarrow> ('w, 'd) mod_world \<Rightarrow> a6o_mod_status \<times> ('w, 'd) mod_world" where
  "mod_oal_conf_mount os i key v =
    on_world (conf_strings (\<lambda>s. with_monitor (access_monitor_add_mount os s)) v)"

definition mod_oal_conf_directory :: "nat \<Rightarrow> string \<Rightarrow> a6o_conf_value \<Rightarrow> ('w, 'd) mod_world \<Rightarrow> a6o_mod_status \<times> ('w, 'd) mod_world" where
  "mod_oal_conf_directory i key v =
    on_world (conf_strings (\<lambda>s. with_monitor (\<lambda>m. Some (access_monitor_add_directory s m))) v)"

definition mod_oal_conf_white_list_dir :: "nat \<Rightarrow> string \<Rightarrow> a6o_conf_value \<Rightarrow> ('w, 'd) mod_world \<Rightarrow> a6o_mod_status \<times> ('w, 'd) mod_world" where
  "mod_oal_conf_white_list_dir i key v =
    on_world (conf_strings (\<lambda>s b. Some (set_on_access (\<lambda>c. a6o_scan_conf_white_list_directory c s) b)) v)"

definition mod_oal_conf_modules :: "nat \<Rightarrow> string \<Rightarrow> a6o_conf_value \<Rightarrow> ('w, 'd) mod_world \<Rightarrow> a6o_mod_status \<times> ('w, 'd) mod_world" where
  "mod_oal_conf_modules i key v =
    on_world (conf_strings (\<lambda>s b. Some (set_on_access (\<lambda>c. a6o_scan_conf_add_module c s (bw_by_name b)) b)) v)"

definition mod_oal_conf_mime_types :: "nat \<Rightarrow> string \<Rightarrow> a6o_conf_value \<Rightarrow> ('w, 'd) mod_world \<Rightarrow> a6o_mod_status \<times> ('w, 'd) mod_world" where
  "mod_oal_conf_mime_types i key v =
    on_world (conf_strings (\<lambda>s b. Some (set_on_access (\<lambda>c. a6o_scan_conf_add_mime_type c s) b)) v)"

definition mod_oal_conf_max_size :: "nat \<Rightarrow> string \<Rightarrow> a6o_conf_value \<Rightarrow> ('w, 'd) mod_world \<Rightarrow> a6o_mod_status \<times> ('w, 'd) mod_world" where
  "mod_oal_conf_max_size i key v =
    on_world (conf_int (\<lambda>n b. Some (set_on_access (\<lambda>c. a6o_scan_conf_max_file_size c n) b)) v)"

text \<open>The end of the initialisation logs the settings and asks for the start.\<close>

definition mod_oal_post_init :: "'w am_os \<Rightarrow> nat \<Rightarrow> ('w, 'd) mod_world \<Rightarrow> a6o_mod_status \<times> ('w, 'd) mod_world" where
  "mod_oal_post_init os i = on_world (\<lambda>b. map_option (Pair A6O_MOD_OK)
     (with_monitor (\<lambda>m. snd (access_monitor_delayed_start os (Some m))) b))"

definition mod_oal_close :: "nat \<Rightarrow> ('w, 'd) mod_world \<Rightarrow> a6o_mod_status \<times> ('w, 'd) mod_world" where
  "mod_oal_close i w = (A6O_MOD_OK, w)"

definition mod_oal_conf_table :: "'w am_os \<Rightarrow> ('w, 'd) mod_world a6o_conf_entry list" where
  "mod_oal_conf_table os =
    [\<lparr>cen_key = ''enable'', cen_type = CONF_TYPE_INT, cen_conf_fun = Some mod_oal_conf_enable\<rparr>,
     \<lparr>cen_key = ''enable-permission'', cen_type = CONF_TYPE_INT, cen_conf_fun = Some mod_oal_conf_enable_permission\<rparr>,
     \<lparr>cen_key = ''enable-removable-media'', cen_type = CONF_TYPE_INT, cen_conf_fun = Some mod_oal_conf_enable_removable_media\<rparr>,
     \<lparr>cen_key = ''autoscan-removable-media'', cen_type = CONF_TYPE_INT, cen_conf_fun = Some mod_oal_conf_autoscan_removable_media\<rparr>,
     \<lparr>cen_key = ''mount'', cen_type = CONF_TYPE_STRING OR CONF_TYPE_LIST, cen_conf_fun = Some (mod_oal_conf_mount os)\<rparr>,
     \<lparr>cen_key = ''directory'', cen_type = CONF_TYPE_STRING OR CONF_TYPE_LIST, cen_conf_fun = Some mod_oal_conf_directory\<rparr>,
     \<lparr>cen_key = ''white-list-dir'', cen_type = CONF_TYPE_STRING OR CONF_TYPE_LIST, cen_conf_fun = Some mod_oal_conf_white_list_dir\<rparr>,
     \<lparr>cen_key = ''mime-types'', cen_type = CONF_TYPE_STRING OR CONF_TYPE_LIST, cen_conf_fun = Some mod_oal_conf_mime_types\<rparr>,
     \<lparr>cen_key = ''modules'', cen_type = CONF_TYPE_STRING OR CONF_TYPE_LIST, cen_conf_fun = Some mod_oal_conf_modules\<rparr>,
     \<lparr>cen_key = ''max-size'', cen_type = CONF_TYPE_INT, cen_conf_fun = Some mod_oal_conf_max_size\<rparr>]"

definition on_access_linux_module :: "'w am_os \<Rightarrow> int \<Rightarrow> ('w, 'd) mod_world a6o_module" where
  "on_access_linux_module os pid =
    \<lparr>mod_init_fun = Some (mod_oal_init os pid), mod_conf_table = Some (mod_oal_conf_table os),
     mod_post_init_fun = Some (mod_oal_post_init os), mod_scan_fun = None, mod_close_fun = Some mod_oal_close,
     mod_info_fun = None, mod_supported_mime_types = None,
     mod_name = ''on-access-linux'', mod_size = 8, mod_status = A6O_MOD_OK, mod_data = False\<rparr>"

section \<open>Quarantine\<close>

text \<open>
  The calls on files: a new file from a template, whose path is given back, the mode and the owner of
  a file, renaming, changing the mode, opening for writing, and writing to the open file.
\<close>

record 'w quarantine_os =
  qo_mkstemp :: "string \<Rightarrow> 'w \<Rightarrow> string option \<times> 'w"
  qo_stat :: "string \<Rightarrow> 'w \<Rightarrow> (u32 \<times> u32 \<times> u32) option"
  qo_rename :: "string \<Rightarrow> string \<Rightarrow> 'w \<Rightarrow> bool \<times> 'w"
  qo_chmod :: "string \<Rightarrow> u32 \<Rightarrow> 'w \<Rightarrow> bool \<times> 'w"
  qo_fopen :: "string \<Rightarrow> 'w \<Rightarrow> bool \<times> 'w"
  qo_write :: "string \<Rightarrow> string \<Rightarrow> 'w \<Rightarrow> 'w"

definition quarantine_init :: "nat \<Rightarrow> ('w, 'd) mod_world \<Rightarrow> a6o_mod_status \<times> ('w, 'd) mod_world" where
  "quarantine_init i = on_world (\<lambda>b.
     Some (A6O_MOD_OK, b\<lparr>bw_quarantine := Some \<lparr>qu_quarantine_dir = None, qu_enable = 0\<rparr>\<rparr>))"

text \<open>\<open>printf\<close> of \<open>%o\<close>.\<close>

fun octal :: "nat \<Rightarrow> string" where
  "octal n = (if n < 8 then [digit_char n] else octal (n div 8) @ [digit_char (n mod 8)])"

declare octal.simps [simp del]

definition quarantine_info :: "string \<Rightarrow> u32 \<times> u32 \<times> u32 \<Rightarrow> string" where
  "quarantine_info path st = (case st of (mode, uid, gid) \<Rightarrow>
    ''path: '' @ path @ [CHR 0x0A] @ ''mode: 0'' @ octal (unat mode) @ [CHR 0x0A]
    @ ''uid: '' @ format_d uid @ [CHR 0x0A] @ ''gid: '' @ format_d gid @ [CHR 0x0A])"

text \<open>The block allocated for the new path, and writing a string with its NUL into it.\<close>

definition newpath_size :: "string \<Rightarrow> nat" where
  "newpath_size dir = length dir + 1 + 6 + 5 + 1"

definition put_newpath :: "nat \<Rightarrow> string \<Rightarrow> string option" where
  "put_newpath alloced s = (if length s < alloced then Some s else None)"

text \<open>A NULL directory is dereferenced, and a write past the end of the block is a fault.\<close>

definition quarantine_do :: "'w quarantine_os \<Rightarrow> quarantine_data \<Rightarrow> cstr \<Rightarrow> 'w \<Rightarrow> (int \<times> 'w) option" where
  "quarantine_do qo qu path w = do {
     dir \<leftarrow> qu_quarantine_dir qu;
     template \<leftarrow> put_newpath (newpath_size dir) (dir @ ''/XXXXXX'');
     (case qo_mkstemp qo template w of
        (None, w1) \<Rightarrow> Some (-1, w1)
      | (Some newpath, w1) \<Rightarrow>
          (case Option.bind path (\<lambda>p. map_option (Pair p) (qo_stat qo p w1)) of
             None \<Rightarrow> Some (-2, w1)
           | Some (p, st) \<Rightarrow>
               (case qo_rename qo p newpath w1 of (ok, w2) \<Rightarrow>
                  if \<not> ok then Some (-1, w2)
                  else (case qo_chmod qo newpath 0 w2 of (ok, w3) \<Rightarrow>
                     (let ret = (if \<not> ok then -2 else 0)
                      in do {
                        info \<leftarrow> put_newpath (newpath_size dir) (newpath @ ''.info'');
                        (case qo_fopen qo info w3 of (ok, w4) \<Rightarrow>
                           if \<not> ok then Some (-2, w4)
                           else Some (ret, qo_write qo info (quarantine_info p st) w4))
                      })))))
   }"

text \<open>The report and the world after the callback.\<close>

definition quarantine_callback ::
  "'w quarantine_os \<Rightarrow> quarantine_data \<Rightarrow> a6o_report \<Rightarrow> 'w \<Rightarrow> (a6o_report \<times> 'w) option" where
  "quarantine_callback qo qu report w =
    (if qu_enable qu = 0 then Some (report, w)
     else if rep_status report \<in> {A6O_FILE_UNDECIDED, A6O_FILE_CLEAN, A6O_FILE_UNKNOWN_TYPE, A6O_FILE_EINVAL,
                A6O_FILE_IERROR, A6O_FILE_SUSPICIOUS, A6O_FILE_WHITE_LISTED} then Some (report, w)
     else case quarantine_do qo qu (rep_path report) w of
            None \<Rightarrow> None
          | Some (r, w1) \<Rightarrow>
              Some (if r \<noteq> -1 then report\<lparr>rep_action := rep_action report OR A6O_ACTION_QUARANTINE\<rparr> else report, w1))"

definition with_quarantine ::
  "(quarantine_data \<Rightarrow> quarantine_data) \<Rightarrow> ('w, 'd) builtin \<Rightarrow> ('w, 'd) builtin option" where
  "with_quarantine f b = map_option (\<lambda>q. b\<lparr>bw_quarantine := Some (f q)\<rparr>) (bw_quarantine b)"

definition quarantine_conf_quarantine_dir :: "nat \<Rightarrow> string \<Rightarrow> a6o_conf_value \<Rightarrow> ('w, 'd) mod_world \<Rightarrow> a6o_mod_status \<times> ('w, 'd) mod_world" where
  "quarantine_conf_quarantine_dir i key v = on_world (\<lambda>b. map_option (Pair A6O_MOD_OK) (case v of
     CV_STRING s \<Rightarrow> Option.bind (os_strdup s) (\<lambda>d. with_quarantine (\<lambda>q. q\<lparr>qu_quarantine_dir := d\<rparr>) b)
   | _ \<Rightarrow> None))"

definition quarantine_conf_enable :: "nat \<Rightarrow> string \<Rightarrow> a6o_conf_value \<Rightarrow> ('w, 'd) mod_world \<Rightarrow> a6o_mod_status \<times> ('w, 'd) mod_world" where
  "quarantine_conf_enable i key v =
    on_world (conf_int (\<lambda>n. with_quarantine (\<lambda>q. q\<lparr>qu_enable := sint n\<rparr>)) v)"

definition quarantine_conf_table :: "('w, 'd) mod_world a6o_conf_entry list" where
  "quarantine_conf_table =
    [\<lparr>cen_key = ''quarantine-dir'', cen_type = CONF_TYPE_STRING, cen_conf_fun = Some quarantine_conf_quarantine_dir\<rparr>,
     \<lparr>cen_key = ''enable'', cen_type = CONF_TYPE_INT, cen_conf_fun = Some quarantine_conf_enable\<rparr>]"

definition quarantine_module :: "('w, 'd) mod_world a6o_module" where
  "quarantine_module =
    \<lparr>mod_init_fun = Some quarantine_init, mod_conf_table = Some quarantine_conf_table, mod_post_init_fun = None,
     mod_scan_fun = None, mod_close_fun = None, mod_info_fun = None, mod_supported_mime_types = None,
     mod_name = ''quarantine'', mod_size = 16, mod_status = A6O_MOD_OK, mod_data = False\<rparr>"

section \<open>Configuring the on-access monitor\<close>

text \<open>
  The calls of the monitor that an entry of the section of its module leads to; the entries of the
  shared scan configuration lead to none.
\<close>

fun value_strings :: "a6o_conf_value \<Rightarrow> string list" where
  "value_strings (CV_STRING (Some s)) = [s]"
| "value_strings (CV_LIST ss) = ss"
| "value_strings _ = []"

fun value_ints :: "a6o_conf_value \<Rightarrow> int list" where
  "value_ints (CV_INT i) = [sint i]"
| "value_ints _ = []"

definition entry_labels :: "string \<Rightarrow> a6o_conf_value \<Rightarrow> 'v am_label list" where
  "entry_labels key v =
    (if key = ''enable'' then map Enable (value_ints v)
     else if key = ''enable-permission'' then map EnablePermission (value_ints v)
     else if key = ''enable-removable-media'' then map EnableRemovable (value_ints v)
     else if key = ''autoscan-removable-media'' then map Autoscan (value_ints v)
     else if key = ''mount'' then map AddMount (value_strings v)
     else if key = ''directory'' then map AddDirectory (value_strings v)
     else [])"

definition conf_labels :: "((string \<times> string) \<times> a6o_conf_value) list \<Rightarrow> 'v am_label list" where
  "conf_labels es = concat (map (\<lambda>((sec, key), v). if sec = ''on-access-linux'' then entry_labels key v else []) es)"

definition is_scan_conf :: "'v am_label \<Rightarrow> bool" where
  "is_scan_conf l = (case l of SetScanConf c \<Rightarrow> True | _ \<Rightarrow> False)"

text \<open>A step of the modules that acts on the monitor as these calls.\<close>

definition acts_as ::
  "'w am_os \<Rightarrow> 'v gvariant_ops \<Rightarrow> ('w, 'd) mod_world \<Rightarrow> 'v am_label list \<Rightarrow> ('w, 'd) mod_world \<Rightarrow> bool" where
  "acts_as os gv w ls w1 \<longleftrightarrow> (\<exists>b b1 m m1 ls1. w = Some b \<and> w1 = Some b1 \<and> bw_monitor b = Some m
    \<and> bw_monitor b1 = Some m1 \<and> bw_by_name b1 = bw_by_name b
    \<and> am_run os gv m ls1 m1 \<and> filter (\<lambda>l. \<not> is_scan_conf l) ls1 = ls)"

lemma acts_as_trans: "acts_as os gv w ls w1 \<Longrightarrow> acts_as os gv w1 ls' w2 \<Longrightarrow> acts_as os gv w (ls @ ls') w2"
  unfolding acts_as_def using am_run_append by fastforce

lemma acts_as_nothing:
  "bw_monitor b = Some m \<Longrightarrow> bw_monitor b1 = Some m \<Longrightarrow> bw_by_name b1 = bw_by_name b \<Longrightarrow> acts_as os gv (Some b) [] (Some b1)"
  unfolding acts_as_def using am_start by fastforce

lemma acts_as_refl: "acts_as os gv w ls w1 \<Longrightarrow> acts_as os gv w [] w"
  unfolding acts_as_def using am_start by fastforce

lemma acts_as_set_on_access:
  assumes "bw_monitor b = Some m"
  shows "acts_as os gv (Some b) [] (Some (set_on_access f b))"
proof -
  obtain c g where c: "a6o_scan_conf_on_access (bw_confs b) = (c, g)" by force
  have "am_run os gv m [SetScanConf (f c)] (set_scan_conf (f c) m)"
    by (rule am_run_one) simp_all
  then show ?thesis
    using assms unfolding acts_as_def
    by (intro exI [of _ b] exI [of _ "set_on_access f b"] exI [of _ m] exI [of _ "set_scan_conf (f c) m"]
        exI [of _ "[SetScanConf (f c)]"]) (simp add: set_on_access_def c is_scan_conf_def)
qed

lemma acts_as_monitor:
  assumes "bw_monitor b = Some m" "am_enabled l m" "am_react os gv l m = f m" "f m \<noteq> None" "\<not> is_scan_conf l"
  shows "\<exists>b1. with_monitor f b = Some b1 \<and> acts_as os gv (Some b) [l] (Some b1)"
proof -
  obtain m1 where m1: "f m = Some m1" using assms(4) by blast
  have "am_run os gv m [l] m1"
    using assms(2,3) m1 by (intro am_run_one) simp_all
  then show ?thesis
    using assms(1,5) m1 unfolding acts_as_def with_monitor_def
    by (intro exI [of _ "b\<lparr>bw_monitor := Some m1\<rparr>"]) fastforce
qed

text \<open>The value of an entry, whose type the caller checked.\<close>

definition typed :: "u32 \<Rightarrow> a6o_conf_value \<Rightarrow> bool" where
  "typed t v \<longleftrightarrow> a6o_conf_value_get_type v AND t \<noteq> 0"

lemma typed_cases:
  "typed CONF_TYPE_INT v \<longleftrightarrow> (\<exists>i. v = CV_INT i)"
  "typed (CONF_TYPE_STRING OR CONF_TYPE_LIST) v \<longleftrightarrow> (\<exists>s. v = CV_STRING s) \<or> (\<exists>ss. v = CV_LIST ss)"
  by (cases v; simp add: typed_def conf_type_defs)+

lemma each_string_acts:
  assumes "\<And>s b m. bw_monitor b = Some m \<Longrightarrow> \<exists>b1. f s b = Some b1 \<and> acts_as os gv (Some b) (lab s) (Some b1)"
    and "bw_monitor b = Some m"
  shows "\<exists>b1. each_string f ss b = Some b1 \<and> acts_as os gv (Some b) (concat (map lab ss)) (Some b1)"
  using assms(2)
proof (induction ss arbitrary: b m)
  case Nil
  then show ?case by (auto intro: acts_as_nothing)
next
  case (Cons s ss)
  obtain b1 where b1: "f s b = Some b1" "acts_as os gv (Some b) (lab s) (Some b1)"
    using assms(1) [OF Cons.prems] by blast
  then obtain m1 where "bw_monitor b1 = Some m1"
    by (auto simp: acts_as_def)
  from Cons.IH [OF this] b1 show ?case
    by (auto intro: acts_as_trans)
qed

lemma conf_strings_act:
  assumes "\<And>s b m. bw_monitor b = Some m \<Longrightarrow> \<exists>b1. f s b = Some b1 \<and> acts_as os gv (Some b) (lab s) (Some b1)"
    and "bw_monitor b = Some m" "typed (CONF_TYPE_STRING OR CONF_TYPE_LIST) v" "v \<noteq> CV_STRING None"
  shows "acts_as os gv (Some b) (concat (map lab (value_strings v))) (snd (on_world (conf_strings f v) (Some b)))"
proof -
  note one = assms(1) [OF assms(2)]
  have all: "\<exists>b1. each_string f ss b = Some b1 \<and> acts_as os gv (Some b) (concat (map lab ss)) (Some b1)" for ss
    by (rule each_string_acts) (fact assms(1,2))+
  consider s where "v = CV_STRING (Some s)" | ss where "v = CV_LIST ss"
    using assms(3,4) by (fastforce simp: typed_cases)
  then have "\<exists>b1. conf_strings f v b = Some (A6O_MOD_OK, b1)
      \<and> acts_as os gv (Some b) (concat (map lab (value_strings v))) (Some b1)"
  proof cases
    case 1
    with one [of s] show ?thesis by (auto simp: conf_strings_def)
  next
    case 2
    with all [of ss] show ?thesis by (auto simp: conf_strings_def)
  qed
  then show ?thesis
    by (auto simp: on_world_def)
qed

lemma conf_int_acts:
  assumes "\<And>i. \<exists>b1. f i b = Some b1 \<and> acts_as os gv (Some b) (lab (sint i)) (Some b1)" "typed CONF_TYPE_INT v"
  shows "acts_as os gv (Some b) (concat (map lab (value_ints v))) (snd (on_world (conf_int f v) (Some b)))"
proof -
  obtain i where v: "v = CV_INT i" using assms(2) by (auto simp: typed_cases)
  obtain b1 where "f i b = Some b1" "acts_as os gv (Some b) (lab (sint i)) (Some b1)"
    using assms(1) by blast
  then show ?thesis
    by (simp add: v conf_int_def on_world_def)
qed

text \<open>The functions of the on-access module.\<close>

lemma add_mount_total: "access_monitor_add_mount os p m \<noteq> None"
  by (simp add: access_monitor_add_mount_def Let_def)

lemma concat_singletons: "concat (map (\<lambda>x. [f x]) xs) = map f xs" "concat (map (\<lambda>x. []) xs) = []"
  by (induction xs) simp_all

lemma oal_int_acts:
  assumes "bw_monitor b = Some m" "typed CONF_TYPE_INT v"
    and "\<And>n m. am_enabled (lab n) m \<and> am_react os gv (lab n) m = Some (f n m) \<and> \<not> is_scan_conf (lab n)"
  shows "acts_as os gv (Some b) (map lab (value_ints v)) (snd (on_world (conf_int (\<lambda>n. with_monitor (\<lambda>m. Some (f (sint n) m))) v) (Some b)))"
proof -
  have "acts_as os gv (Some b) (concat (map (\<lambda>n. [lab n]) (value_ints v)))
      (snd (on_world (conf_int (\<lambda>n. with_monitor (\<lambda>m. Some (f (sint n) m))) v) (Some b)))"
  proof (rule conf_int_acts)
    show "\<exists>b1. with_monitor (\<lambda>m. Some (f (sint i) m)) b = Some b1 \<and> acts_as os gv (Some b) [lab (sint i)] (Some b1)" for i
      using assms(3) by (intro acts_as_monitor [OF assms(1)]) simp_all
  qed (fact assms(2))
  then show ?thesis
    by (simp add: concat_singletons)
qed

lemma oal_strings_act:
  assumes "bw_monitor b = Some m" "typed (CONF_TYPE_STRING OR CONF_TYPE_LIST) v" "v \<noteq> CV_STRING None"
    and "\<And>s m. am_enabled (lab s) m \<and> am_react os gv (lab s) m = f s m \<and> f s m \<noteq> None \<and> \<not> is_scan_conf (lab s)"
  shows "acts_as os gv (Some b) (map lab (value_strings v)) (snd (on_world (conf_strings (\<lambda>s. with_monitor (f s)) v) (Some b)))"
proof -
  have "acts_as os gv (Some b) (concat (map (\<lambda>s. [lab s]) (value_strings v)))
      (snd (on_world (conf_strings (\<lambda>s. with_monitor (f s)) v) (Some b)))"
  proof (rule conf_strings_act)
    show "\<exists>b1. with_monitor (f s) b = Some b1 \<and> acts_as os gv (Some b) [lab s] (Some b1)"
      if "bw_monitor b = Some m" for s b m
      using assms(4) by (intro acts_as_monitor [OF that]) simp_all
  qed (fact assms(1-3))+
  then show ?thesis
    by (simp add: concat_singletons)
qed

lemma oal_scan_conf_acts:
  assumes "bw_monitor b = Some m"
  shows "typed (CONF_TYPE_STRING OR CONF_TYPE_LIST) v \<Longrightarrow> v \<noteq> CV_STRING None
      \<Longrightarrow> acts_as os gv (Some b) [] (snd (on_world (conf_strings (\<lambda>s b. Some (set_on_access (f s b) b)) v) (Some b)))"
    and "typed CONF_TYPE_INT v
      \<Longrightarrow> acts_as os gv (Some b) [] (snd (on_world (conf_int (\<lambda>n b. Some (set_on_access (g n b) b)) v) (Some b)))"
proof -
  assume v: "typed (CONF_TYPE_STRING OR CONF_TYPE_LIST) v" "v \<noteq> CV_STRING None"
  have "acts_as os gv (Some b) (concat (map (\<lambda>s. []) (value_strings v)))
      (snd (on_world (conf_strings (\<lambda>s b. Some (set_on_access (f s b) b)) v) (Some b)))"
    by (rule conf_strings_act [where m = m]) (simp_all add: acts_as_set_on_access assms v)
  then show "acts_as os gv (Some b) [] (snd (on_world (conf_strings (\<lambda>s b. Some (set_on_access (f s b) b)) v) (Some b)))"
    by (simp add: concat_singletons)
next
  assume v: "typed CONF_TYPE_INT v"
  have "acts_as os gv (Some b) (concat (map (\<lambda>s. []) (value_ints v)))
      (snd (on_world (conf_int (\<lambda>n b. Some (set_on_access (g n b) b)) v) (Some b)))"
    by (rule conf_int_acts) (simp_all add: acts_as_set_on_access [OF assms] v)
  then show "acts_as os gv (Some b) [] (snd (on_world (conf_int (\<lambda>n b. Some (set_on_access (g n b) b)) v) (Some b)))"
    by (simp add: concat_singletons)
qed

lemma oal_funs_act:
  assumes "bw_monitor b = Some m"
  shows "typed CONF_TYPE_INT v \<Longrightarrow> acts_as os gv (Some b) (map Enable (value_ints v)) (snd (mod_oal_conf_enable i key v (Some b)))"
    and "typed CONF_TYPE_INT v \<Longrightarrow> acts_as os gv (Some b) (map EnablePermission (value_ints v)) (snd (mod_oal_conf_enable_permission i key v (Some b)))"
    and "typed CONF_TYPE_INT v \<Longrightarrow> acts_as os gv (Some b) (map EnableRemovable (value_ints v)) (snd (mod_oal_conf_enable_removable_media i key v (Some b)))"
    and "typed CONF_TYPE_INT v \<Longrightarrow> acts_as os gv (Some b) (map Autoscan (value_ints v)) (snd (mod_oal_conf_autoscan_removable_media i key v (Some b)))"
    and "typed CONF_TYPE_INT v \<Longrightarrow> acts_as os gv (Some b) [] (snd (mod_oal_conf_max_size i key v (Some b)))"
    and "typed (CONF_TYPE_STRING OR CONF_TYPE_LIST) v \<Longrightarrow> v \<noteq> CV_STRING None \<Longrightarrow> acts_as os gv (Some b) (map AddMount (value_strings v)) (snd (mod_oal_conf_mount os i key v (Some b)))"
    and "typed (CONF_TYPE_STRING OR CONF_TYPE_LIST) v \<Longrightarrow> v \<noteq> CV_STRING None \<Longrightarrow> acts_as os gv (Some b) (map AddDirectory (value_strings v)) (snd (mod_oal_conf_directory i key v (Some b)))"
    and "typed (CONF_TYPE_STRING OR CONF_TYPE_LIST) v \<Longrightarrow> v \<noteq> CV_STRING None \<Longrightarrow> acts_as os gv (Some b) [] (snd (mod_oal_conf_white_list_dir i key v (Some b)))"
    and "typed (CONF_TYPE_STRING OR CONF_TYPE_LIST) v \<Longrightarrow> v \<noteq> CV_STRING None \<Longrightarrow> acts_as os gv (Some b) [] (snd (mod_oal_conf_modules i key v (Some b)))"
    and "typed (CONF_TYPE_STRING OR CONF_TYPE_LIST) v \<Longrightarrow> v \<noteq> CV_STRING None \<Longrightarrow> acts_as os gv (Some b) [] (snd (mod_oal_conf_mime_types i key v (Some b)))"
  unfolding mod_oal_conf_enable_def mod_oal_conf_enable_permission_def mod_oal_conf_enable_removable_media_def
    mod_oal_conf_autoscan_removable_media_def mod_oal_conf_mount_def mod_oal_conf_directory_def
    mod_oal_conf_white_list_dir_def mod_oal_conf_modules_def mod_oal_conf_mime_types_def mod_oal_conf_max_size_def
  by ((rule oal_int_acts [OF assms] oal_strings_act [OF assms] oal_scan_conf_acts [OF assms]);
      simp add: is_scan_conf_def add_mount_total)+

lemma find_conf_entry_Some: "find_conf_entry es key = Some e \<Longrightarrow> e \<in> set es \<and> cen_key e = key"
  by (induction es) (auto split: if_splits)

lemma oal_entry_acts:
  assumes "find_conf_entry (mod_oal_conf_table os) key = Some e" "cen_conf_fun e = Some f"
    and "typed (cen_type e) v" "v \<noteq> CV_STRING None" "bw_monitor b = Some m"
  shows "acts_as os gv (Some b) (entry_labels key v) (snd (f i key v (Some b)))"
proof -
  note acts = oal_funs_act [OF assms(5)]
  have "e \<in> set (mod_oal_conf_table os)" "cen_key e = key"
    using find_conf_entry_Some [OF assms(1)] by simp_all
  then show ?thesis
    using assms(2-4) unfolding mod_oal_conf_table_def list.set insert_iff empty_iff
    by (elim disjE FalseE; clarsimp simp: entry_labels_def acts)
qed

section \<open>The shared scan configuration\<close>

text \<open>The monitor and the static variable name one configuration.\<close>

definition shares_conf :: "('w, 'd) builtin \<Rightarrow> bool" where
  "shares_conf b \<longleftrightarrow> (\<forall>m. bw_monitor b = Some m \<longrightarrow> on_access_conf (bw_confs b) = Some (fm_scan_conf (am_fanotify_monitor m)))"

lemma set_on_access_shares: "shares_conf (set_on_access f b)"
  by (cases "bw_monitor b") (auto simp: shares_conf_def set_on_access_def set_scan_conf_def split: prod.split)

section \<open>Quarantined files\<close>

text \<open>
  Documented behaviour of the calls over the contents of files: a template gives a new empty file
  whose name differs in the six last characters, a file that can be examined exists, renaming moves
  the contents, opening for writing empties a file, and writing appends.
\<close>

definition quarantine_laws :: "'w quarantine_os \<Rightarrow> ('w \<Rightarrow> string \<Rightarrow> string option) \<Rightarrow> bool" where
  "quarantine_laws qo files \<longleftrightarrow>
    (\<forall>t w. (case qo_mkstemp qo t w of
        (None, w1) \<Rightarrow> files w1 = files w
      | (Some n, w1) \<Rightarrow> length n = length t \<and> take (length t - 6) n = take (length t - 6) t
          \<and> files w n = None \<and> files w1 = (files w)(n \<mapsto> [])))
    \<and> (\<forall>p w. qo_stat qo p w \<noteq> None \<longleftrightarrow> files w p \<noteq> None)
    \<and> (\<forall>p n w. (case qo_rename qo p n w of (ok, w1) \<Rightarrow>
        files w1 = (if ok then (files w)(n := files w p, p := None) else files w)))
    \<and> (\<forall>p md w. files (snd (qo_chmod qo p md w)) = files w)
    \<and> (\<forall>p w. (case qo_fopen qo p w of (ok, w1) \<Rightarrow> files w1 = (if ok then (files w)(p \<mapsto> []) else files w)))
    \<and> (\<forall>p s w. files (qo_write qo p s w) = (files w)(p := map_option (\<lambda>c. c @ s) (files w p)))"

lemma quarantine_lawsD:
  assumes "quarantine_laws qo files"
  shows "qo_stat qo p w \<noteq> None \<longleftrightarrow> files w p \<noteq> None"
    and "qo_rename qo p n w = (ok, w1) \<Longrightarrow> files w1 = (if ok then (files w)(n := files w p, p := None) else files w)"
    and "qo_chmod qo p md w = (ok, w1) \<Longrightarrow> files w1 = files w"
    and "qo_fopen qo p w = (ok, w1) \<Longrightarrow> files w1 = (if ok then (files w)(p \<mapsto> []) else files w)"
    and "files (qo_write qo p s w) = (files w)(p := map_option (\<lambda>c. c @ s) (files w p))"
proof -
  note laws = assms [unfolded quarantine_laws_def]
  note rest = conjunct2 [OF laws]
  show "qo_stat qo p w \<noteq> None \<longleftrightarrow> files w p \<noteq> None"
    using conjunct1 [OF rest] by blast
  show "qo_rename qo p n w = (ok, w1) \<Longrightarrow> files w1 = (if ok then (files w)(n := files w p, p := None) else files w)"
    using conjunct1 [OF conjunct2 [OF rest], THEN spec [of _ p], THEN spec [of _ n], THEN spec [of _ w]] by simp
  show "qo_chmod qo p md w = (ok, w1) \<Longrightarrow> files w1 = files w"
    using conjunct1 [OF conjunct2 [OF conjunct2 [OF rest]]] by (metis snd_conv)
  note last = conjunct2 [OF conjunct2 [OF conjunct2 [OF rest]]]
  show "qo_fopen qo p w = (ok, w1) \<Longrightarrow> files w1 = (if ok then (files w)(p \<mapsto> []) else files w)"
    using conjunct1 [OF last, THEN spec [of _ p], THEN spec [of _ w]] by simp
  show "files (qo_write qo p s w) = (files w)(p := map_option (\<lambda>c. c @ s) (files w p))"
    using conjunct2 [OF last] by blast
qed

text \<open>The new name lies in the quarantine directory, and the longer name of its description fits in the block.\<close>

lemma mkstemp_name:
  assumes "quarantine_laws qo files" "qo_mkstemp qo (d @ ''/XXXXXX'') w = (Some n, w1)"
  shows "\<exists>x. n = d @ CHR ''/'' # x \<and> length x = 6" "files w n = None" "files w1 = (files w)(n \<mapsto> [])"
proof -
  have n: "length n = length d + 7" "take (length d + 1) n = d @ ''/''" "files w n = None" "files w1 = (files w)(n \<mapsto> [])"
    using assms unfolding quarantine_laws_def by (auto dest!: spec [of _ "d @ ''/XXXXXX''"] spec [of _ w])
  from n(3,4) show "files w n = None" "files w1 = (files w)(n \<mapsto> [])"
    by simp_all
  show "\<exists>x. n = d @ CHR ''/'' # x \<and> length x = 6"
    using n(1,2) append_take_drop_id [of "length d + 1" n] by (intro exI [of _ "drop (length d + 1) n"]) simp
qed

text \<open>
  a file that is put in quarantine. For a file that exists outside the quarantine directory the
  callback never writes past the block it allocates, and either the file is moved with its contents
  under a new name of that directory and the report says so, or nothing is moved and the report stays.
\<close>

theorem quarantine_moves_or_keeps:
  assumes "quarantine_laws qo files" "qu_enable qu \<noteq> 0" "qu_quarantine_dir qu = Some d"
    and "rep_status report = A6O_FILE_MALWARE" "rep_path report = Some p" "files w p = Some c" "\<forall>x. p \<noteq> d @ CHR ''/'' # x"
  shows "\<exists>r w1. quarantine_callback qo qu report w = Some (r, w1)
    \<and> (r = report\<lparr>rep_action := rep_action report OR A6O_ACTION_QUARANTINE\<rparr> \<and> files w1 p = None
        \<and> (\<exists>x. files w (d @ CHR ''/'' # x) = None \<and> files w1 (d @ CHR ''/'' # x) = Some c)
      \<or> r = report \<and> files w1 p = Some c)"
proof -
  note D = quarantine_lawsD [OF assms(1)]
  obtain o1 w1 where mk: "qo_mkstemp qo (d @ ''/XXXXXX'') w = (o1, w1)" by force
  have do: "quarantine_callback qo qu report w = (case quarantine_do qo qu (Some p) w of
        None \<Rightarrow> None
      | Some (r, w1) \<Rightarrow> Some (if r \<noteq> -1 then report\<lparr>rep_action := rep_action report OR A6O_ACTION_QUARANTINE\<rparr> else report, w1))"
    using assms(2,4,5) by (simp add: quarantine_callback_def)
  show ?thesis
  proof (cases o1)
    case None
    have "files w1 = files w"
      using assms(1) mk None unfolding quarantine_laws_def by (auto dest!: spec [of _ "d @ ''/XXXXXX''"] spec [of _ w])
    then show ?thesis
      using mk None assms(3,6) by (simp add: do quarantine_do_def put_newpath_def newpath_size_def)
  next
    case (Some n)
    obtain x where n: "n = d @ CHR ''/'' # x" "length x = 6" "files w n = None" "files w1 = (files w)(n \<mapsto> [])"
      using mkstemp_name [OF assms(1) mk [unfolded Some]] by blast
    have pn: "p \<noteq> n" "p \<noteq> n @ ''.info''"
      using assms(7) n(1) by auto
    then have "files w1 p = Some c"
      using n(4) assms(6) by simp
    then obtain st where st: "qo_stat qo p w1 = Some st"
      using D(1) [of p w1] by auto
    obtain ok2 w2 where ren: "qo_rename qo p n w1 = (ok2, w2)" by force
    have w2: "files w2 = (if ok2 then (files w1)(n := files w1 p, p := None) else files w1)"
      by (rule D(2) [OF ren])
    obtain ok3 w3 where chm: "qo_chmod qo n 0 w2 = (ok3, w3)" by force
    have w3: "files w3 = files w2"
      by (rule D(3) [OF chm])
    obtain ok4 w4 where fop: "qo_fopen qo (n @ ''.info'') w3 = (ok4, w4)" by force
    have w4: "files w4 = (if ok4 then (files w3)(n @ ''.info'' \<mapsto> []) else files w3)"
      by (rule D(4) [OF fop])
    have w5: "files (qo_write qo (n @ ''.info'') s w4) q = files w4 q" if "q \<noteq> n @ ''.info''" for s q
      using that by (simp add: D(5))
    have fits: "put_newpath (newpath_size d) (d @ ''/XXXXXX'') = Some (d @ ''/XXXXXX'')"
        "put_newpath (newpath_size d) (n @ ''.info'') = Some (n @ ''.info'')"
      using n(2) by (simp_all add: put_newpath_def newpath_size_def n(1))
    let ?wf = "if ok4 then qo_write qo (n @ ''.info'') (quarantine_info p st) w4 else w4"
    have res: "quarantine_do qo qu (Some p) w = Some (if \<not> ok2 then (-1, w2) else (if ok3 \<and> ok4 then 0 else -2, ?wf))"
      by (simp add: quarantine_do_def assms(3) fits mk Some st ren chm fop Let_def)
    show ?thesis
    proof (cases ok2)
      case False
      then have "files w2 p = Some c"
        using w2 \<open>files w1 p = Some c\<close> by simp
      with False show ?thesis by (simp add: do res)
    next
      case True
      have "files w2 n = Some c" "files w2 p = None"
        using True w2 pn(1) \<open>files w1 p = Some c\<close> by simp_all
      then have "files w4 n = Some c" "files w4 p = None"
        using pn(2) by (simp_all add: w4 w3)
      then have "files ?wf n = Some c" "files ?wf p = None"
        using pn(2) w5 by simp_all
      then show ?thesis
        using True n(1,3) unfolding do res by auto
    qed
  qed
qed

text \<open>
  a file that is gone. When the file cannot be examined the result is -2, and the report still says
  that it was put in quarantine, where there is only an empty file.
\<close>

theorem vanished_file_reported_quarantined:
  assumes "qu_enable qu \<noteq> 0" "qu_quarantine_dir qu = Some d" "rep_status report = A6O_FILE_MALWARE" "rep_path report = Some p"
    and "qo_mkstemp qo (d @ ''/XXXXXX'') w = (Some n, w1)" "qo_stat qo p w1 = None"
  shows "quarantine_callback qo qu report w
    = Some (report\<lparr>rep_action := rep_action report OR A6O_ACTION_QUARANTINE\<rparr>, w1)"
  using assms by (simp add: quarantine_callback_def quarantine_do_def put_newpath_def newpath_size_def)

text \<open>Files as a map, with \<open>a\<close> as the random part of names.\<close>

definition map_files :: "(string \<rightharpoonup> string) quarantine_os" where
  "map_files = \<lparr>qo_mkstemp = (\<lambda>t w. let n = take (length t - 6) t @ replicate (length t - (length t - 6)) CHR ''a'' in
      if w n = None then (Some n, w(n \<mapsto> [])) else (None, w)),
    qo_stat = (\<lambda>p w. map_option (\<lambda>_. (0, 0, 0)) (w p)),
    qo_rename = (\<lambda>p n w. (True, w(n := w p, p := None))), qo_chmod = (\<lambda>p md w. (True, w)),
    qo_fopen = (\<lambda>p w. (True, w(p \<mapsto> []))), qo_write = (\<lambda>p s w. w(p := map_option (\<lambda>c. c @ s) (w p)))\<rparr>"

lemma map_files_laws: "quarantine_laws map_files (\<lambda>w. w)"
  by (auto simp: quarantine_laws_def map_files_def Let_def)

definition infected_report :: "string \<Rightarrow> a6o_report" where
  "infected_report p = (a6o_report_init (Some p))\<lparr>rep_status := A6O_FILE_MALWARE\<rparr>"

theorem quarantine_moves_or_keeps_witness:
  "\<exists>r w1. quarantine_callback map_files \<lparr>qu_quarantine_dir = Some ''/q'', qu_enable = 1\<rparr> (infected_report ''/f'') [''/f'' \<mapsto> ''x''] = Some (r, w1)"
  using quarantine_moves_or_keeps [OF map_files_laws, of "\<lparr>qu_quarantine_dir = Some ''/q'', qu_enable = 1\<rparr>" "''/q''"
      "infected_report ''/f''" "''/f''" "[''/f'' \<mapsto> ''x'']" "''x''"] by (auto simp: infected_report_def)

theorem vanished_file_reported_quarantined_witness:
  "quarantine_callback map_files \<lparr>qu_quarantine_dir = Some ''/q'', qu_enable = 1\<rparr> (infected_report ''/f'') Map.empty
    = Some ((infected_report ''/f'')\<lparr>rep_action := A6O_ACTION_QUARANTINE\<rparr>, [''/q/aaaaaa'' \<mapsto> []])"
proof -
  have "qo_mkstemp map_files (''/q'' @ ''/XXXXXX'') Map.empty = (Some ''/q/aaaaaa'', [''/q/aaaaaa'' \<mapsto> []])"
      "qo_stat map_files ''/f'' [''/q/aaaaaa'' \<mapsto> []] = None"
    by (simp_all add: map_files_def Let_def)
  from vanished_file_reported_quarantined [OF _ _ _ _ this, of "\<lparr>qu_quarantine_dir = Some ''/q'', qu_enable = 1\<rparr>" "infected_report ''/f''"]
  show ?thesis
    by (simp add: infected_report_def A6O_ACTION_NONE_def)
qed

end
