(* ===== verification/Armadito.thy ===== *)
theory Armadito
  imports BuiltinModules
begin

text \<open>
  Opening and closing the library, \<open>libcore/armadito.c\<close>: the modules that are built in and those that
  are loaded are initialised, configured and started in three phases over the world of theory
  \<open>BuiltinModules\<close>.
\<close>

section \<open>Operations\<close>

record ('w, 'd) armadito =
  ar_module_manager :: "('w, 'd) mod_world module_manager"
  ar_conf :: "a6o_conf option"
  ar_event_source :: a6o_event_source

text \<open>
  What the process is started with: the system of the on-access monitor, its process identifier, the
  directory of modules if it is known, the tree below it and what the dynamic loader finds in a file.
\<close>

record ('w, 'd) armadito_env =
  ae_os :: "'w am_os"
  ae_pid :: int
  ae_modules_dir :: cstr
  ae_realpath :: "string \<Rightarrow> string option"
  ae_dir :: "string \<Rightarrow> fs_dir"
  ae_loader :: "string \<Rightarrow> ('w, 'd) mod_world object_file"
  ae_self :: "('w, 'd) mod_world object_file"

text \<open>The configuration is not set yet.\<close>

definition a6o_new :: "('w, 'd) armadito" where
  "a6o_new = \<lparr>ar_module_manager = module_manager_new, ar_conf = None, ar_event_source = a6o_event_source_new\<rparr>"

text \<open>The names of the modules and the entries of the listeners that are released.\<close>

definition a6o_free :: "('w, 'd) armadito \<Rightarrow> (string list \<times> (addr \<Rightarrow> callback_entry option)) option" where
  "a6o_free u = map_option (Pair (module_manager_free (ar_module_manager u))) (a6o_event_source_free (ar_event_source u))"

definition a6o_get_event_source :: "('w, 'd) armadito \<Rightarrow> a6o_event_source" where
  "a6o_get_event_source u = ar_event_source u"

text \<open>\<open>configure.ac\<close> defines the names of the first two modules; it has that of the quarantine in a comment.\<close>

definition a6o_add_builtin_modules :: "('w, 'd) armadito_env \<Rightarrow> ('w, 'd) armadito \<Rightarrow> ('w, 'd) armadito" where
  "a6o_add_builtin_modules env u =
    (let mm1 = module_manager_add (ar_module_manager u) on_demand_module;
         mm2 = module_manager_add mm1 (on_access_linux_module (ae_os env) (ae_pid env))
     in u\<lparr>ar_module_manager := mm2\<rparr>)"

definition a6o_get_modules :: "('w, 'd) armadito \<Rightarrow> ('w, 'd) mod_world a6o_module list" where
  "a6o_get_modules u = module_manager_get_modules (ar_module_manager u)"

definition a6o_get_module_by_name :: "('w, 'd) armadito \<Rightarrow> string \<Rightarrow> nat option" where
  "a6o_get_module_by_name u name = module_manager_get_module_by_name (ar_module_manager u) name"

definition a6o_get_conf :: "('w, 'd) armadito \<Rightarrow> a6o_conf option" where
  "a6o_get_conf u = ar_conf u"

text \<open>
  The modules reach the event source and the look-up of modules through their pointer to the library.
  The results of the phases are only logged.
\<close>

definition a6o_open ::
  "('w, 'd) armadito_env \<Rightarrow> a6o_conf \<Rightarrow> ('w, 'd) mod_world \<Rightarrow> (('w, 'd) armadito \<times> ('w, 'd) mod_world) option" where
  "a6o_open env conf w =
    (let u = a6o_add_builtin_modules env (a6o_new\<lparr>ar_conf := Some conf\<rparr>)
     in do {
       mm \<leftarrow> (case ae_modules_dir env of
                None \<Rightarrow> Some (ar_module_manager u)
              | Some dir \<Rightarrow> map_option snd (module_manager_load_path (ae_realpath env) (ae_loader env) (ae_self env)
                                 dir (ae_dir env dir) (ar_module_manager u)));
       let u1 = u\<lparr>ar_module_manager := mm\<rparr>;
           w1 = map_option (\<lambda>b. b\<lparr>bw_source := a6o_get_event_source u1, bw_by_name := a6o_get_module_by_name u1\<rparr>) w;
           ((r1, mm1), w2) = module_manager_init_all mm w1;
           (r2, w3) = module_manager_configure_all mm1 conf w2;
           ((r3, mm2), w4) = module_manager_post_init_all mm1 w3
       in Some (u1\<lparr>ar_module_manager := mm2\<rparr>, w4)
     })"

definition a6o_close :: "('w, 'd) armadito \<Rightarrow> ('w, 'd) mod_world \<Rightarrow> int \<times> ('w, 'd) armadito \<times> ('w, 'd) mod_world" where
  "a6o_close u w = (case module_manager_close_all (ar_module_manager u) w of
     ((r, mm), w1) \<Rightarrow> (r, u\<lparr>ar_module_manager := mm\<rparr>, w1))"

section \<open>Modules that are loaded\<close>

text \<open>A function that works on the data of loaded modules only, and does not crash.\<close>

definition keeps_builtin :: "(('w, 'd) mod_world \<Rightarrow> a6o_mod_status \<times> ('w, 'd) mod_world) \<Rightarrow> bool" where
  "keeps_builtin f \<longleftrightarrow> (\<forall>b. \<exists>d. snd (f (Some b)) = Some (b\<lparr>bw_rest := d\<rparr>))"

definition private_module :: "('w, 'd) mod_world a6o_module \<Rightarrow> bool" where
  "private_module m \<longleftrightarrow> (\<forall>f i. mod_init_fun m = Some f \<longrightarrow> keeps_builtin (f i))
    \<and> (\<forall>f i. mod_post_init_fun m = Some f \<longrightarrow> keeps_builtin (f i))
    \<and> (\<forall>table e f i k v. mod_conf_table m = Some table \<longrightarrow> e \<in> set table \<longrightarrow> cen_conf_fun e = Some f
         \<longrightarrow> keeps_builtin (f i k v))"

definition private_loader :: "('w, 'd) armadito_env \<Rightarrow> bool" where
  "private_loader env \<longleftrightarrow> (\<forall>m. ae_self env = ModuleObject m \<longrightarrow> private_module m)
    \<and> (\<forall>f m. ae_loader env f = ModuleObject m \<longrightarrow> private_module m)"

lemma private_module_new: "private_module m \<Longrightarrow> private_module (module_new m)"
  by (simp add: private_module_def module_new_def)

lemma private_same:
  assumes "private_module m" "same_module m m1"
  shows "private_module m1"
proof -
  obtain s where "m1 = m\<lparr>mod_status := s\<rparr>"
    using assms(2) unfolding same_module_def by blast
  with assms(1) show ?thesis
    by (simp add: private_module_def)
qed

lemma load_cases:
  assumes "private_loader env"
  shows "module_load_dirent_cb (ae_loader env) (ae_self env) p fl e mm = Some (0, mm)
    \<or> (\<exists>m. module_load_dirent_cb (ae_loader env) (ae_self env) p fl e mm = Some (0, module_manager_add mm m) \<and> private_module m)"
  using assms
  by (auto simp: module_load_dirent_cb_def module_load_def private_loader_def Let_def
      split: option.split object_file.split)

lemma load_adds_private:
  assumes "private_loader env"
  shows "\<exists>ls. module_load_dirent_cb (ae_loader env) (ae_self env) p fl e mm
      = Some (0, mm\<lparr>mm_modules := mm_modules mm @ ls\<rparr>) \<and> (\<forall>m \<in> set ls. private_module m)"
  using load_cases [OF assms, of p fl e mm]
proof (elim disjE exE conjE)
  fix m
  assume "private_module m" "module_load_dirent_cb (ae_loader env) (ae_self env) p fl e mm = Some (0, module_manager_add mm m)"
  then show ?thesis
    by (intro exI [of _ "[module_new m]"]) (simp add: module_manager_add_def private_module_new)
qed (intro exI [of _ "[]"], simp)

lemma run_load:
  assumes "private_loader env"
  shows "\<exists>ls. run_calls (module_load_dirent_cb (ae_loader env) (ae_self env)) cs mm
      = Some (mm\<lparr>mm_modules := mm_modules mm @ ls\<rparr>) \<and> (\<forall>m \<in> set ls. private_module m)"
proof (induction cs arbitrary: mm)
  case Nil
  then show ?case by (auto intro: exI [of _ "[]"])
next
  case (Cons c cs)
  obtain p fl e where c: "c = (p, fl, e)" by (cases c)
  obtain ls where ls: "module_load_dirent_cb (ae_loader env) (ae_self env) p fl e mm
      = Some (0, mm\<lparr>mm_modules := mm_modules mm @ ls\<rparr>)" "\<forall>m \<in> set ls. private_module m"
    using load_adds_private [OF assms] by blast
  obtain ls1 where ls1: "run_calls (module_load_dirent_cb (ae_loader env) (ae_self env)) cs (mm\<lparr>mm_modules := mm_modules mm @ ls\<rparr>)
      = Some (mm\<lparr>mm_modules := (mm_modules mm @ ls) @ ls1\<rparr>)" "\<forall>m \<in> set ls1. private_module m"
    using Cons.IH [of "mm\<lparr>mm_modules := mm_modules mm @ ls\<rparr>"] by auto
  show ?case
    by (intro exI [of _ "ls @ ls1"]) (use ls ls1 in \<open>auto simp: c\<close>)
qed

lemma load_path_private:
  assumes "private_loader env"
  shows "\<exists>ls. module_manager_load_path realpath (ae_loader env) (ae_self env) path d mm
      = Some (0, mm\<lparr>mm_modules := mm_modules mm @ ls\<rparr>) \<and> (\<forall>m \<in> set ls. private_module m)"
proof -
  have "tolerates_errors (module_load_dirent_cb (ae_loader env) (ae_self env))"
    using load_adds_private [OF assms] unfolding tolerates_errors_def by (metis option.inject prod.inject)
  from map_complete(1) [OF this] run_load [OF assms] show ?thesis
    unfolding module_manager_load_path_def by fastforce
qed

section \<open>The three phases\<close>

definition builtin_first :: "('w, 'd) armadito_env \<Rightarrow> ('w, 'd) mod_world module_manager \<Rightarrow> bool" where
  "builtin_first env mm \<longleftrightarrow> (\<exists>ls. mm_modules mm = module_new on_demand_module
      # module_new (on_access_linux_module (ae_os env) (ae_pid env)) # ls \<and> (\<forall>m \<in> set ls. private_module m))"

lemma keeps_rest:
  "keeps_builtin f \<Longrightarrow> \<exists>d1. snd (f (Some (b\<lparr>bw_rest := d\<rparr>))) = Some (b\<lparr>bw_rest := d1\<rparr>)"
  unfolding keeps_builtin_def by (metis builtin.unfold_congs(7) builtin.update_convs(7) builtin.surjective)

lemma run_hooks_private:
  assumes "\<And>m f i. m \<in> set ms \<Longrightarrow> h m = Some f \<Longrightarrow> keeps_builtin (f i)"
  shows "\<exists>d. run_hooks h i ms (Some b) = Some (b\<lparr>bw_rest := d\<rparr>)"
proof -
  have "\<exists>d1. run_hooks h i ms (Some (b\<lparr>bw_rest := d\<rparr>)) = Some (b\<lparr>bw_rest := d1\<rparr>)" for d
    using assms
  proof (induction ms arbitrary: i d)
    case (Cons m ms)
    have "\<exists>d1. (if mod_status m = A6O_MOD_OK then (case h m of None \<Rightarrow> Some (b\<lparr>bw_rest := d\<rparr>)
        | Some f \<Rightarrow> snd (f i (Some (b\<lparr>bw_rest := d\<rparr>)))) else Some (b\<lparr>bw_rest := d\<rparr>)) = Some (b\<lparr>bw_rest := d1\<rparr>)"
    proof (cases "h m")
      case (Some f)
      then have "keeps_builtin (f i)"
        using Cons.prems [of m] by simp
      with Some show ?thesis
        using keeps_rest [of "f i"] by auto
    qed auto
    then show ?case
      using Cons.IH [of "Suc i"] Cons.prems by fastforce
  qed auto
  from this [of "bw_rest b"] show ?thesis
    by simp
qed

lemma private_phase:
  assumes "\<And>i m w. f i m w = run_hook (h m) code i m w" "code \<noteq> 0" "\<forall>m \<in> set ms. private_module m"
    and "\<And>m f i. private_module m \<Longrightarrow> h m = Some f \<Longrightarrow> keeps_builtin (f i)"
  shows "\<exists>r ms1 d. all_loop f i ms 0 (Some b) = ((r, ms1), Some (b\<lparr>bw_rest := d\<rparr>)) \<and> (\<forall>m \<in> set ms1. private_module m)"
proof -
  obtain r ms1 w where all: "all_loop f i ms 0 (Some b) = ((r, ms1), w)"
    by (metis prod.exhaust)
  have "list_all2 same_module ms ms1" "w = run_hooks h i ms (Some b)"
    using all_loop_hooks [OF assms(1,2) all] by simp_all
  moreover obtain d where "run_hooks h i ms (Some b) = Some (b\<lparr>bw_rest := d\<rparr>)"
    using run_hooks_private [of ms h] assms(3,4) by blast
  ultimately show ?thesis
    using all assms(3) private_same unfolding list_all2_conv_all_nth by (metis in_set_conv_nth)
qed

lemma private_hooks:
  assumes "\<forall>m \<in> set ms. private_module m"
  shows "\<exists>r ms1 d. all_loop module_init i ms 0 (Some b) = ((r, ms1), Some (b\<lparr>bw_rest := d\<rparr>)) \<and> (\<forall>m \<in> set ms1. private_module m)"
    and "\<exists>r ms1 d. all_loop module_post_init i ms 0 (Some b) = ((r, ms1), Some (b\<lparr>bw_rest := d\<rparr>)) \<and> (\<forall>m \<in> set ms1. private_module m)"
proof -
  show "\<exists>r ms1 d. all_loop module_init i ms 0 (Some b) = ((r, ms1), Some (b\<lparr>bw_rest := d\<rparr>)) \<and> (\<forall>m \<in> set ms1. private_module m)"
    by (rule private_phase [where h = mod_init_fun and code = A6O_MOD_INIT_ERROR_code, OF _ _ assms])
       (simp_all add: module_init_def A6O_MOD_INIT_ERROR_code_def private_module_def)
  show "\<exists>r ms1 d. all_loop module_post_init i ms 0 (Some b) = ((r, ms1), Some (b\<lparr>bw_rest := d\<rparr>)) \<and> (\<forall>m \<in> set ms1. private_module m)"
    by (rule private_phase [where h = mod_post_init_fun and code = A6O_MOD_INIT_ERROR_code, OF _ _ assms])
       (simp_all add: module_post_init_def A6O_MOD_INIT_ERROR_code_def private_module_def)
qed

lemma module_new_fields [simp]:
  "mod_status (module_new m) = A6O_MOD_OK" "mod_init_fun (module_new m) = mod_init_fun m"
  "mod_post_init_fun (module_new m) = mod_post_init_fun m" "mod_conf_table (module_new m) = mod_conf_table m"
  "mod_name (module_new m) = mod_name m" "(module_new m)\<lparr>mod_status := A6O_MOD_OK\<rparr> = module_new m"
  by (simp_all add: module_new_def)

lemma builtin_fields [simp]:
  "mod_init_fun on_demand_module = None" "mod_post_init_fun on_demand_module = None"
  "mod_conf_table on_demand_module = Some on_demand_conf_table" "mod_name on_demand_module = ''on-demand''"
  "mod_init_fun (on_access_linux_module os pid) = Some (mod_oal_init os pid)"
  "mod_post_init_fun (on_access_linux_module os pid) = Some (mod_oal_post_init os)"
  "mod_conf_table (on_access_linux_module os pid) = Some (mod_oal_conf_table os)"
  "mod_name (on_access_linux_module os pid) = ''on-access-linux''"
  by (simp_all add: on_demand_module_def on_access_linux_module_def)

lemma init_phase:
  assumes "builtin_first env mm"
    and "access_monitor_new (ae_os env) (ae_pid env) (bw_source b) (bw_confs b, bw_kernel b) = Some (m0, confs)"
  shows "\<exists>r mm1 d. module_manager_init_all mm (Some b)
      = ((r, mm1), Some (b\<lparr>bw_monitor := Some m0, bw_confs := confs, bw_rest := d\<rparr>)) \<and> builtin_first env mm1"
proof -
  let ?oal = "module_new (on_access_linux_module (ae_os env) (ae_pid env))"
  obtain ls where ls: "mm_modules mm = module_new on_demand_module # ?oal # ls" "\<forall>m \<in> set ls. private_module m"
    using assms(1) by (auto simp: builtin_first_def)
  let ?b = "b\<lparr>bw_monitor := Some m0, bw_confs := confs\<rparr>"
  have first: "module_init (Suc 0) ?oal (Some b) = ((0, ?oal), Some ?b)"
    using assms(2) by (simp add: module_init_def run_hook_def mod_oal_init_def on_world_def)
  obtain r ms1 d where rest: "all_loop module_init (Suc (Suc 0)) ls 0 (Some ?b) = ((r, ms1), Some (?b\<lparr>bw_rest := d\<rparr>))"
      "\<forall>m \<in> set ms1. private_module m"
    using private_hooks(1) [OF ls(2), of "Suc (Suc 0)" ?b] by blast
  show ?thesis
    using rest(2)
    by (intro exI [of _ r] exI [of _ "mm\<lparr>mm_modules := module_new on_demand_module # ?oal # ms1\<rparr>"] exI [of _ d])
       (simp add: module_manager_init_all_def module_manager_all_def ls(1) first rest(1) builtin_first_def
        module_init_def [of 0] run_hook_def)
qed

lemma post_init_phase:
  assumes "builtin_first env mm" "bw_monitor b = Some m" "ao_io_ok (ae_os env) (am_world m)"
  shows "\<exists>r mm1 w. module_manager_post_init_all mm (Some b) = ((r, mm1), w)
      \<and> acts_as (ae_os env) gv (Some b) [DelayedStart] w"
proof -
  let ?oal = "module_new (on_access_linux_module (ae_os env) (ae_pid env))"
  obtain ls where ls: "mm_modules mm = module_new on_demand_module # ?oal # ls" "\<forall>m \<in> set ls. private_module m"
    using assms(1) by (auto simp: builtin_first_def)
  have "(\<lambda>m. snd (access_monitor_delayed_start (ae_os env) (Some m))) m \<noteq> None"
    using assms(3) by (simp add: access_monitor_delayed_start_def)
  then obtain b1 where b1: "with_monitor (\<lambda>m. snd (access_monitor_delayed_start (ae_os env) (Some m))) b = Some b1"
      "acts_as (ae_os env) gv (Some b) [DelayedStart] (Some b1)"
    using acts_as_monitor [OF assms(2), of DelayedStart "ae_os env" gv
        "\<lambda>m. snd (access_monitor_delayed_start (ae_os env) (Some m))"]
    by (auto simp: is_scan_conf_def)
  have first: "module_post_init (Suc 0) ?oal (Some b) = ((0, ?oal), Some b1)"
    by (simp add: module_post_init_def run_hook_def mod_oal_post_init_def on_world_def b1(1))
  obtain r ms1 d where rest: "all_loop module_post_init (Suc (Suc 0)) ls 0 (Some b1) = ((r, ms1), Some (b1\<lparr>bw_rest := d\<rparr>))"
    using private_hooks(2) [OF ls(2), of "Suc (Suc 0)" b1] by blast
  have "acts_as (ae_os env) gv (Some b1) [] (Some (b1\<lparr>bw_rest := d\<rparr>))"
    using b1(2) by (auto simp: acts_as_def [of _ _ "Some b"] intro: acts_as_nothing)
  with b1(2) have "acts_as (ae_os env) gv (Some b) [DelayedStart] (Some (b1\<lparr>bw_rest := d\<rparr>))"
    using acts_as_trans by fastforce
  then show ?thesis
    by (simp add: module_manager_post_init_all_def module_manager_all_def ls(1) first rest
        module_post_init_def [of 0] run_hook_def)
qed

section \<open>Configuring\<close>

lemma configure_fold:
  "a6o_conf_apply conf f st = fold (\<lambda>((s, k), v). f s k v) (conf_alist conf) st"
proof -
  have keys: "apply_keys f s ks st = fold (\<lambda>((s, k), v). f s k v) (map (\<lambda>k. ((s, ke_key k), ke_value k)) ks) st" for s ks st
    by (induction ks arbitrary: st) simp_all
  have "apply_sections f ss st
      = fold (\<lambda>((s, k), v). f s k v) (concat (map (\<lambda>s. map (\<lambda>k. ((se_section s, ke_key k), ke_value k)) (se_keys s)) ss)) st" for ss
    by (induction ss arbitrary: st) (simp_all add: keys)
  then show ?thesis
    by (simp add: a6o_conf_apply_def conf_alist_def)
qed

text \<open>An entry of the configuration, for the three kinds of module.\<close>

lemma on_demand_keeps:
  fixes b :: "('w, 'd) builtin" and gv :: "'v gvariant_ops" and os :: "'w am_os"
  assumes "e \<in> set on_demand_conf_table" "cen_conf_fun e = Some f" "typed (cen_type e) v" "v \<noteq> CV_STRING None"
    and "bw_monitor b = Some m"
  shows "acts_as os gv (Some b) [] (snd (f i key v (Some b)))"
proof -
  have set: "acts_as os gv (Some b) [] (Some (set_on_demand g b))" if "bw_monitor b = Some m" for g and b :: "('w, 'd) builtin" and m
    using that by (intro acts_as_nothing) (simp_all add: set_on_demand_def split: prod.split)
  have str: "acts_as os gv (Some b) [] (snd (on_world (conf_strings (\<lambda>s b. Some (set_on_demand (g s b) b)) v) (Some b)))"
    if "typed (CONF_TYPE_STRING OR CONF_TYPE_LIST) v" for g
    using conf_strings_act [where lab = "\<lambda>_. []" and f = "\<lambda>s b. Some (set_on_demand (g s b) b)" and os = os and gv = gv,
        OF _ assms(5) that assms(4)] set
    by (auto simp: concat_singletons)
  have int: "acts_as os gv (Some b) [] (snd (on_world (conf_int (\<lambda>n b. Some (set_on_demand (g n b) b)) v) (Some b)))"
    if "typed CONF_TYPE_INT v" for g
    using conf_int_acts [where lab = "\<lambda>_. []" and f = "\<lambda>n b. Some (set_on_demand (g n b) b)" and os = os and gv = gv,
        OF _ that] set [OF assms(5)]
    by (auto simp: concat_singletons)
  show ?thesis
    using assms(1-3) unfolding on_demand_conf_table_def list.set insert_iff empty_iff
    by (elim disjE FalseE; clarsimp simp: mod_on_demand_conf_white_list_dir_def mod_on_demand_conf_modules_def
        mod_on_demand_conf_mime_types_def mod_on_demand_conf_max_size_def str int)
qed

lemma private_entry_keeps:
  assumes "private_module md" "mod_conf_table md = Some table" "e \<in> set table" "cen_conf_fun e = Some f" "bw_monitor b = Some m"
  shows "acts_as os gv (Some b) [] (snd (f i key v (Some b)))"
proof -
  obtain d where "snd (f i key v (Some b)) = Some (b\<lparr>bw_rest := d\<rparr>)"
    using assms(1-4) unfolding private_module_def keeps_builtin_def by blast
  then show ?thesis
    using assms(5) by (auto intro: acts_as_nothing)
qed

lemma find_module_Some: "find_module ms name = Some i \<Longrightarrow> i < length ms \<and> mod_name (ms ! i) = name"
  by (induction ms arbitrary: i) (auto split: if_splits)

lemma untyped_no_labels:
  assumes "find_conf_entry (mod_oal_conf_table os) key = Some e" "\<not> typed (cen_type e) v"
  shows "entry_labels key v = []"
proof -
  have "e \<in> set (mod_oal_conf_table os)" "cen_key e = key"
    using find_conf_entry_Some [OF assms(1)] by simp_all
  moreover have "\<not> typed CONF_TYPE_INT v \<Longrightarrow> value_ints v = []"
    by (cases v) (simp_all add: typed_cases)
  moreover have "\<not> typed (CONF_TYPE_STRING OR CONF_TYPE_LIST) v \<Longrightarrow> value_strings v = []"
    by (cases v) (simp_all add: typed_cases)
  ultimately show ?thesis
    using assms(2) unfolding mod_oal_conf_table_def list.set insert_iff empty_iff
    by (elim disjE FalseE; clarsimp simp: entry_labels_def)
qed

lemma entry_acts:
  fixes gv :: "'v gvariant_ops" and env :: "('w, 'd) armadito_env"
  assumes "builtin_first env mm" "bw_monitor b = Some m" "v \<noteq> CV_STRING None"
  shows "acts_as (ae_os env) gv (Some b) (conf_labels [((sec, key), v)]) (module_conf_fun mm sec key v (Some b))"
proof -
  let ?oal = "module_new (on_access_linux_module (ae_os env) (ae_pid env))"
  have same: "acts_as (ae_os env) gv (Some b) [] (Some b)"
    by (rule acts_as_nothing [OF assms(2,2) refl])
  obtain ls where ls: "mm_modules mm = module_new on_demand_module # ?oal # ls" "\<forall>m \<in> set ls. private_module m"
    using assms(1) by (auto simp: builtin_first_def)
  show ?thesis
  proof (cases "sec = ''on-access-linux''")
    case True
    then have found: "module_manager_get_module_by_name mm sec = Some 1"
      by (simp add: module_manager_get_module_by_name_def ls(1))
    show ?thesis
    proof (cases "find_conf_entry (mod_oal_conf_table (ae_os env) :: ('w, 'd) mod_world a6o_conf_entry list) key")
      case None
      then have "entry_labels key v = ([] :: 'v am_label list)"
        by (auto simp: mod_oal_conf_table_def entry_labels_def split: if_splits)
      with None True found same show ?thesis
        by (simp add: module_conf_fun_def ls(1) conf_labels_def)
    next
      case (Some e)
      obtain f where f: "cen_conf_fun e = Some f"
        using find_conf_entry_Some [OF Some] by (auto simp: mod_oal_conf_table_def)
      show ?thesis
      proof (cases "typed (cen_type e) v")
        case True
        with oal_entry_acts [OF Some f True assms(3,2)] \<open>sec = _\<close> found Some f show ?thesis
          by (simp add: module_conf_fun_def ls(1) conf_labels_def typed_def)
      next
        case False
        have "entry_labels key v = ([] :: 'v am_label list)"
          by (rule untyped_no_labels [OF Some False])
        with False \<open>sec = _\<close> found Some f same show ?thesis
          by (simp add: module_conf_fun_def ls(1) conf_labels_def typed_def)
      qed
    qed
  next
    case False
    have keeps: "acts_as (ae_os env) gv (Some b) [] (snd (f i key v (Some b)))"
      if "module_manager_get_module_by_name mm sec = Some i" "mod_conf_table (mm_modules mm ! i) = Some table"
        "find_conf_entry table key = Some e" "cen_conf_fun e = Some f" "typed (cen_type e) v" for i table e f
    proof -
      have i: "i < length (mm_modules mm)" "mod_name (mm_modules mm ! i) = sec"
        using find_module_Some [OF that(1) [unfolded module_manager_get_module_by_name_def]] by simp_all
      have e: "e \<in> set table"
        using find_conf_entry_Some [OF that(3)] by simp
      consider "i = 0" | "i = 1" | j where "i = Suc (Suc j)" "j < length ls"
        using i(1) ls(1) by (cases i; cases "i - 1") auto
      then show ?thesis
      proof cases
        case 1
        with on_demand_keeps [OF _ that(4,5) assms(3,2)] e that(2) ls(1) show ?thesis
          by simp
      next
        case 2
        with i(2) False ls(1) show ?thesis by simp
      next
        case 3
        then have "private_module (ls ! j)"
          using ls(2) by simp
        from private_entry_keeps [OF this _ e that(4) assms(2)] 3 that(2) ls(1) show ?thesis
          by simp
      qed
    qed
    have "conf_labels [((sec, key), v)] = ([] :: 'v am_label list)"
      using False by (simp add: conf_labels_def)
    then show ?thesis
      using keeps same
      by (auto simp: module_conf_fun_def typed_def split: option.split)
  qed
qed

lemma configure_phase:
  assumes "builtin_first env mm" "bw_monitor b = Some m" "\<forall>(k, v) \<in> set es. v \<noteq> CV_STRING None"
  shows "acts_as (ae_os env) gv (Some b) (conf_labels es) (fold (\<lambda>((s, k), v). module_conf_fun mm s k v) es (Some b))"
  using assms(2,3)
proof (induction es arbitrary: b m)
  case Nil
  then show ?case
    by (simp add: conf_labels_def acts_as_nothing)
next
  case (Cons x es)
  obtain s k v where x: "x = ((s, k), v)" by (cases x) auto
  have one: "acts_as (ae_os env) gv (Some b) (conf_labels [x]) (module_conf_fun mm s k v (Some b))"
    unfolding x using Cons.prems by (intro entry_acts [OF assms(1)]) (auto simp: x)
  then obtain b1 m1 where b1: "module_conf_fun mm s k v (Some b) = Some b1" "bw_monitor b1 = Some m1"
    by (auto simp: acts_as_def)
  have "acts_as (ae_os env) gv (Some b1) (conf_labels es) (fold (\<lambda>((s, k), v). module_conf_fun mm s k v) es (Some b1))"
    using Cons.prems(2) by (intro Cons.IH [OF b1(2)]) auto
  from acts_as_trans [OF one [unfolded b1(1)] this] show ?case
    by (simp add: x b1(1) conf_labels_def)
qed

section \<open>Opening\<close>

text \<open>No string of the configuration is NULL.\<close>

definition conf_strings_set :: "a6o_conf \<Rightarrow> bool" where
  "conf_strings_set conf \<longleftrightarrow> (\<forall>(k, v) \<in> set (conf_alist conf). v \<noteq> CV_STRING None)"

lemma open_acts:
  fixes gv :: "'v gvariant_ops"
  assumes "private_loader env" "\<forall>w. ao_io_ok (ae_os env) w" "conf_strings_set conf"
  shows "\<exists>u b1 m0 confs m1 ls. a6o_open env conf (Some b) = Some (u, Some b1)
    \<and> access_monitor_new (ae_os env) (ae_pid env) a6o_event_source_new (bw_confs b, bw_kernel b) = Some (m0, confs)
    \<and> bw_monitor b1 = Some m1 \<and> am_run (ae_os env) gv m0 ls m1
    \<and> filter (\<lambda>l. \<not> is_scan_conf l) ls = conf_labels (conf_alist conf) @ [DelayedStart]"
proof -
  let ?u = "a6o_add_builtin_modules env (a6o_new\<lparr>ar_conf := Some conf\<rparr>)"
  have u: "mm_modules (ar_module_manager ?u)
      = [module_new on_demand_module, module_new (on_access_linux_module (ae_os env) (ae_pid env))]"
      "ar_event_source ?u = a6o_event_source_new"
    by (simp_all add: a6o_add_builtin_modules_def a6o_new_def module_manager_add_def module_manager_new_def Let_def)
  have "\<exists>mm. (case ae_modules_dir env of
                None \<Rightarrow> Some (ar_module_manager ?u)
              | Some dir \<Rightarrow> map_option snd (module_manager_load_path (ae_realpath env) (ae_loader env) (ae_self env)
                                 dir (ae_dir env dir) (ar_module_manager ?u))) = Some mm \<and> builtin_first env mm"
  proof (cases "ae_modules_dir env")
    case None
    then show ?thesis by (simp add: builtin_first_def u)
  next
    case (Some dir)
    obtain ls where "module_manager_load_path (ae_realpath env) (ae_loader env) (ae_self env) dir (ae_dir env dir) (ar_module_manager ?u)
        = Some (0, (ar_module_manager ?u)\<lparr>mm_modules := mm_modules (ar_module_manager ?u) @ ls\<rparr>)"
        "\<forall>m \<in> set ls. private_module m"
      using load_path_private [OF assms(1)] by blast
    with Some show ?thesis by (auto simp: builtin_first_def u)
  qed
  then obtain mm where mm: "(case ae_modules_dir env of
                None \<Rightarrow> Some (ar_module_manager ?u)
              | Some dir \<Rightarrow> map_option snd (module_manager_load_path (ae_realpath env) (ae_loader env) (ae_self env)
                                 dir (ae_dir env dir) (ar_module_manager ?u))) = Some mm" "builtin_first env mm"
    by blast
  let ?b = "b\<lparr>bw_source := a6o_event_source_new, bw_by_name := a6o_get_module_by_name (?u\<lparr>ar_module_manager := mm\<rparr>)\<rparr>"
  obtain m0 confs where new: "access_monitor_new (ae_os env) (ae_pid env) a6o_event_source_new (bw_confs b, bw_kernel b) = Some (m0, confs)"
    using assms(2)
    by (cases "fanotify_monitor_new (ae_pid env) a6o_event_source_new (bw_confs b, bw_kernel b)")
       (auto simp: access_monitor_new_def)
  have "access_monitor_new (ae_os env) (ae_pid env) (bw_source ?b) (bw_confs ?b, bw_kernel ?b) = Some (m0, confs)"
    using new by simp
  from init_phase [OF mm(2) this] obtain r mm1 b2 where init: "module_manager_init_all mm (Some ?b) = ((r, mm1), Some b2)"
      "bw_monitor b2 = Some m0" "builtin_first env mm1"
    by fastforce
  have "acts_as (ae_os env) gv (Some b2) (conf_labels (conf_alist conf)) (fold (\<lambda>((s, k), v). module_conf_fun mm1 s k v) (conf_alist conf) (Some b2))"
    by (rule configure_phase [OF init(3,2)]) (use assms(3) in \<open>simp add: conf_strings_set_def\<close>)
  then obtain b3 m3 where conf: "a6o_conf_apply conf (module_conf_fun mm1) (Some b2) = Some b3" "bw_monitor b3 = Some m3"
      "acts_as (ae_os env) gv (Some b2) (conf_labels (conf_alist conf)) (Some b3)"
    unfolding configure_fold by (auto simp: acts_as_def)
  obtain r3 mm2 w where post: "module_manager_post_init_all mm1 (Some b3) = ((r3, mm2), w)"
      "acts_as (ae_os env) gv (Some b3) [DelayedStart] w"
    using post_init_phase [OF init(3) conf(2)] assms(2) by blast
  obtain b4 m4 ls where run: "w = Some b4" "bw_monitor b4 = Some m4" "am_run (ae_os env) gv m0 ls m4"
      "filter (\<lambda>l. \<not> is_scan_conf l) ls = conf_labels (conf_alist conf) @ [DelayedStart]"
    using acts_as_trans [OF conf(3) post(2)] init(2) by (auto simp: acts_as_def)
  have "a6o_open env conf (Some b) = Some (?u\<lparr>ar_module_manager := mm2\<rparr>, Some b4)"
    using mm(1) init(1) conf(1) post(1) run(1)
    by (simp add: a6o_open_def Let_def module_manager_configure_all_def a6o_get_event_source_def u(2))
  then show ?thesis
    using new run(2-4) by blast
qed

section \<open>What the calls set\<close>

definition enable_of :: "'v am_label \<Rightarrow> int \<Rightarrow> int" where
  "enable_of l e = (case l of Enable n \<Rightarrow> n | _ \<Rightarrow> e)"

definition config_label :: "'v am_label \<Rightarrow> bool" where
  "config_label l = (case l of StartReady \<Rightarrow> False | CommandReady \<Rightarrow> False | InotifyReady \<Rightarrow> False | MountSignal v \<Rightarrow> False | _ \<Rightarrow> True)"

lemma config_react:
  assumes "am_react os gv l m = Some m1" "config_label l" "ao_io_ok os (am_world m)"
  shows "am_world m1 = am_world m \<and> am_command_pipe m1 = am_command_pipe m \<and> am_enable m1 = enable_of l (am_enable m)
    \<and> am_start_pipe m1 = am_start_pipe m @ (if l = DelayedStart then [start_byte] else [])
    \<and> set (am_entries m) \<subseteq> set (am_entries m1)
    \<and> (\<forall>p. l = AddDirectory p \<longrightarrow> \<lparr>me_path = p, me_flag = ENTRY_DIR\<rparr> \<in> set (am_entries m1))"
  using assms
  by (cases l) (auto simp: enable_of_def config_label_def access_monitor_enable_def access_monitor_enable_permission_def
      fanotify_monitor_enable_permission_def access_monitor_enable_removable_media_def am_world_def
      access_monitor_autoscan_removable_media_def access_monitor_add_directory_def add_entry_def set_scan_conf_def
      access_monitor_add_mount_def access_monitor_delayed_start_def Let_def split: if_splits)

lemma config_run:
  assumes "am_run os gv m0 ls m" "\<forall>l \<in> set ls. config_label l" "\<forall>w. ao_io_ok os w"
  shows "am_world m = am_world m0 \<and> am_command_pipe m = am_command_pipe m0 \<and> am_enable m = fold enable_of ls (am_enable m0)
    \<and> am_start_pipe m = am_start_pipe m0 @ map (\<lambda>_. start_byte) (filter (\<lambda>l. l = DelayedStart) ls)
    \<and> (\<forall>p. AddDirectory p \<in> set ls \<longrightarrow> \<lparr>me_path = p, me_flag = ENTRY_DIR\<rparr> \<in> set (am_entries m))"
  using assms(1,2)
proof (induction rule: am_run.induct)
  case (am_step ls m l m1)
  have "config_label l" using am_step.prems by simp
  from config_react [OF am_step.hyps(3) this] assms(3) am_step show ?case
    by auto
qed simp

lemma fold_enable_filter: "fold enable_of (filter (\<lambda>l. \<not> is_scan_conf l) ls) e = fold enable_of ls e"
  by (induction ls arbitrary: e) (auto simp: enable_of_def is_scan_conf_def split: am_label.split)

lemma fold_enable_map: "(\<And>x e. enable_of (f x) e = e) \<Longrightarrow> fold enable_of (map f xs) e = e"
  by (induction xs arbitrary: e) simp_all

lemma fold_enable_entry: "k \<noteq> ''enable'' \<Longrightarrow> fold enable_of (entry_labels k v) e = e"
  by (simp add: entry_labels_def fold_enable_map enable_of_def)

lemma conf_labels_enable:
  fixes es :: "((string \<times> string) \<times> a6o_conf_value) list"
  assumes "distinct (map fst es)"
  shows "fold enable_of (conf_labels es :: 'v am_label list) e
    = (case map_of es (''on-access-linux'', ''enable'') of Some (CV_INT n) \<Rightarrow> sint n | _ \<Rightarrow> e)"
  using assms
proof (induction es arbitrary: e)
  case Nil
  then show ?case by (simp add: conf_labels_def)
next
  case (Cons x es)
  obtain s k v where x: "x = ((s, k), v)" by (cases x) auto
  let ?ls = "(if s = ''on-access-linux'' then entry_labels k v else []) :: 'v am_label list"
  have split: "(conf_labels (x # es) :: 'v am_label list) = ?ls @ conf_labels es"
    by (simp add: conf_labels_def x)
  show ?case
  proof (cases "(s, k) = (''on-access-linux'', ''enable'')")
    case True
    then have "map_of es (''on-access-linux'', ''enable'') = None"
      using Cons.prems by (auto simp: x map_of_eq_None_iff)
    with Cons True show ?thesis
      unfolding split by (cases v) (auto simp: x entry_labels_def enable_of_def)
  next
    case False
    then have "fold enable_of ?ls e = e"
      by (auto simp: fold_enable_entry)
    moreover have "map_of (x # es) (''on-access-linux'', ''enable'') = map_of es (''on-access-linux'', ''enable'')"
      using False by (auto simp: x)
    moreover have "distinct (map fst es)"
      using Cons.prems by simp
    ultimately show ?thesis
      using Cons.IH [of e] unfolding split fold_append comp_def by (simp only:)
  qed
qed

lemma entry_labels_config: "l \<in> set (entry_labels k v) \<Longrightarrow> config_label l \<and> l \<noteq> DelayedStart"
  unfolding entry_labels_def by (simp only: split: if_split_asm) (auto simp: config_label_def)

lemma conf_labels_config: "l \<in> set (conf_labels es) \<Longrightarrow> config_label l \<and> l \<noteq> DelayedStart"
  unfolding conf_labels_def using entry_labels_config by (fastforce split: if_split_asm)

lemma enable_entry: "Enable n \<in> set (entry_labels k v) \<Longrightarrow> k = ''enable''"
  unfolding entry_labels_def by (simp only: split: if_split_asm) auto

lemma conf_labels_directory:
  assumes "map_of es (''on-access-linux'', ''directory'') = Some v" "d \<in> set (value_strings v)"
  shows "AddDirectory d \<in> set (conf_labels es)"
proof -
  have "((''on-access-linux'', ''directory''), v) \<in> set es"
    using assms(1) by (rule map_of_SomeD)
  moreover have "AddDirectory d \<in> set (entry_labels ''directory'' v)"
    using assms(2) by (simp add: entry_labels_def)
  ultimately show ?thesis
    unfolding conf_labels_def by fastforce
qed

section \<open>Properties\<close>

text \<open>
  opening the library. Whatever modules are loaded, as long as they keep to their own data, the
  on-access monitor is created and then goes through the calls that the entries of its section stand
  for, in their order, up to one request for its start.
\<close>

theorem open_configures_monitor:
  assumes "private_loader env" "\<forall>w. ao_io_ok (ae_os env) w" "conf_strings_set conf"
  shows "\<exists>u b1 m0 confs m1 ls. a6o_open env conf (Some b) = Some (u, Some b1)
    \<and> access_monitor_new (ae_os env) (ae_pid env) a6o_event_source_new (bw_confs b, bw_kernel b) = Some (m0, confs)
    \<and> bw_monitor b1 = Some m1 \<and> am_run (ae_os env) gv m0 ls m1
    \<and> filter (\<lambda>l. \<not> is_scan_conf l) ls = conf_labels (conf_alist conf) @ [DelayedStart]"
  by (rule open_acts [OF assms])

text \<open>The monitor after the opening, in terms of the configuration.\<close>

definition protection_enabled :: "a6o_conf \<Rightarrow> int" where
  "protection_enabled conf = (case conf_map conf (''on-access-linux'', ''enable'') of Some (CV_INT n) \<Rightarrow> sint n | _ \<Rightarrow> 0)"

definition protected_directories :: "a6o_conf \<Rightarrow> string list" where
  "protected_directories conf = (case conf_map conf (''on-access-linux'', ''directory'') of Some v \<Rightarrow> value_strings v | None \<Rightarrow> [])"

lemma open_monitor:
  fixes gv :: "'v gvariant_ops"
  assumes "private_loader env" "\<forall>w. ao_io_ok (ae_os env) w" "conf_strings_set conf" "conf_inv conf"
  shows "\<exists>u b1 m0 confs m1 ls. a6o_open env conf (Some b) = Some (u, Some b1) \<and> bw_monitor b1 = Some m1
    \<and> access_monitor_new (ae_os env) (ae_pid env) a6o_event_source_new (bw_confs b, bw_kernel b) = Some (m0, confs)
    \<and> am_run (ae_os env) gv m0 ls m1 \<and> filter (\<lambda>l. \<not> is_scan_conf l) ls = conf_labels (conf_alist conf) @ [DelayedStart]
    \<and> am_world m1 = bw_kernel b \<and> am_enable m1 = protection_enabled conf \<and> am_command_pipe m1 = []
    \<and> am_start_pipe m1 = [start_byte]
    \<and> (\<forall>d \<in> set (protected_directories conf). \<lparr>me_path = d, me_flag = ENTRY_DIR\<rparr> \<in> set (am_entries m1))"
proof -
  obtain u b1 m0 confs m1 and ls :: "'v am_label list" where o: "a6o_open env conf (Some b) = Some (u, Some b1)"
      "access_monitor_new (ae_os env) (ae_pid env) a6o_event_source_new (bw_confs b, bw_kernel b) = Some (m0, confs)"
      "bw_monitor b1 = Some m1" "am_run (ae_os env) gv m0 ls m1"
      "filter (\<lambda>l. \<not> is_scan_conf l) ls = conf_labels (conf_alist conf) @ [DelayedStart]"
    using open_acts [OF assms(1-3), of b gv] by blast
  have labels: "l \<in> set ls \<Longrightarrow> is_scan_conf l \<or> l \<in> set (conf_labels (conf_alist conf)) \<or> l = DelayedStart" for l
    using arg_cong [OF o(5), of set] by auto
  have "config_label l" if "l \<in> set ls" for l
    using labels [OF that] conf_labels_config [of l "conf_alist conf"]
    by (auto simp: is_scan_conf_def config_label_def split: am_label.splits)
  then have run: "am_world m1 = am_world m0" "am_command_pipe m1 = am_command_pipe m0"
      "am_enable m1 = fold enable_of ls (am_enable m0)"
      "am_start_pipe m1 = am_start_pipe m0 @ map (\<lambda>_. start_byte) (filter (\<lambda>l. l = DelayedStart) ls)"
      "\<And>p. AddDirectory p \<in> set ls \<Longrightarrow> \<lparr>me_path = p, me_flag = ENTRY_DIR\<rparr> \<in> set (am_entries m1)"
    using config_run [OF o(4) _ assms(2)] by blast+
  note new = new_fields [OF o(2)]
  have "fold enable_of ls 0 = fold enable_of (conf_labels (conf_alist conf) @ [DelayedStart :: 'v am_label]) 0"
    using fold_enable_filter [of ls 0] o(5) by simp
  then have enable: "am_enable m1 = protection_enabled conf"
    using run(3) conf_labels_enable [OF conf_alist_distinct [OF assms(4)], where 'v = 'v and e = 0]
    by (simp add: new protection_enabled_def conf_map_def enable_of_def)
  have "filter (\<lambda>l. l = DelayedStart) ls = filter (\<lambda>l. l = DelayedStart) (filter (\<lambda>l. \<not> is_scan_conf l) ls)"
    by (auto simp: is_scan_conf_def intro!: filter_cong)
  also have "\<dots> = [DelayedStart]"
    unfolding o(5) using conf_labels_config [of "DelayedStart :: 'v am_label" "conf_alist conf"] by (auto simp: filter_empty_conv)
  finally have start: "am_start_pipe m1 = [start_byte]"
    using run(4) by (simp add: new)
  have "\<lparr>me_path = d, me_flag = ENTRY_DIR\<rparr> \<in> set (am_entries m1)" if d: "d \<in> set (protected_directories conf)" for d
  proof -
    obtain v where "map_of (conf_alist conf) (''on-access-linux'', ''directory'') = Some v" "d \<in> set (value_strings v)"
      using d by (cases "map_of (conf_alist conf) (''on-access-linux'', ''directory'')")
        (simp_all add: protected_directories_def conf_map_def)
    then have "(AddDirectory d :: 'v am_label) \<in> set (filter (\<lambda>l. \<not> is_scan_conf l) ls)"
      unfolding o(5) using conf_labels_directory by auto
    then show ?thesis
      by (intro run(5)) simp
  qed
  then show ?thesis
    using o run(1,2) enable start by (auto simp: new)
qed

text \<open>
  the protection from the configuration to the kernel. With protection enabled, opening the library
  leaves a monitor whose two pending callbacks mark and watch every directory below the configured
  ones, as the tree stands when the process starts.
\<close>

theorem open_protects_directories:
  assumes "private_loader env" "kernel_laws (ae_os env) marks watches" "accepts (ae_os env)" "\<forall>w. fst (ao_bus (ae_os env) w)"
    and "watches (bw_kernel b) = (\<lambda>_. None)" "conf_inv conf" "conf_strings_set conf" "protection_enabled conf \<noteq> 0"
  shows "\<exists>u b1 m1 m2. a6o_open env conf (Some b) = Some (u, Some b1) \<and> bw_monitor b1 = Some m1
    \<and> am_run (ae_os env) gv m1 [StartReady, CommandReady] m2
    \<and> (\<forall>d \<in> set (protected_directories conf).
         dirs_of d (ao_dir (ae_os env) d (bw_kernel b)) \<subseteq> coverage marks watches (am_world m2))"
proof -
  have ok: "\<forall>w. ao_io_ok (ae_os env) w"
    using kernel_lawsD(3) [OF assms(2)] by blast
  obtain u b1 m0 confs m1 ls where o: "a6o_open env conf (Some b) = Some (u, Some b1)" "bw_monitor b1 = Some m1"
      "access_monitor_new (ae_os env) (ae_pid env) a6o_event_source_new (bw_confs b, bw_kernel b) = Some (m0, confs)"
      "am_run (ae_os env) gv m0 ls m1" "am_world m1 = bw_kernel b" "am_enable m1 \<noteq> 0" "am_command_pipe m1 = []"
      "am_start_pipe m1 = [start_byte]"
      "\<forall>d \<in> set (protected_directories conf). \<lparr>me_path = d, me_flag = ENTRY_DIR\<rparr> \<in> set (am_entries m1)"
    using open_monitor [OF assms(1) ok assms(7,6), of b gv] assms(8) by auto
  have "am_inv marks watches m1"
    by (rule run_inv [OF assms(2) new_inv [where watches = watches, OF o(3) assms(5)] o(4)])
  from started_monitor_covers [where gv = gv, OF assms(2-4) this o(6,8,7)]
  obtain m2 where m2: "am_run (ae_os env) gv m1 [StartReady, CommandReady] m2"
      "entry_coverage (ae_os env) (bw_kernel b) (am_entries m1) \<subseteq> coverage marks watches (am_world m2)"
    using o(5) by auto
  have "dirs_of d (ao_dir (ae_os env) d (bw_kernel b)) \<subseteq> coverage marks watches (am_world m2)"
    if "d \<in> set (protected_directories conf)" for d
    using bspec [OF o(9) that] m2(2) unfolding entry_coverage_def by fastforce
  then show ?thesis
    using o(1,2) m2(1) by blast
qed

text \<open>
  without an entry that enables the protection nothing is ever marked: whatever the callbacks do
  after the opening, the marks of the kernel are those from before the start and fanotify is not open.
\<close>

theorem open_disabled_marks_nothing:
  fixes gv :: "'v gvariant_ops"
  assumes "private_loader env" "\<forall>w. ao_io_ok (ae_os env) w" "conf_strings_set conf" "conf_inv conf"
    and "conf_map conf (''on-access-linux'', ''enable'') = None"
  shows "\<exists>u b1 m1. a6o_open env conf (Some b) = Some (u, Some b1) \<and> bw_monitor b1 = Some m1
    \<and> (\<forall>ls m2. am_run (ae_os env) gv m1 ls m2 \<longrightarrow> (\<forall>n. Enable n \<notin> set ls)
        \<longrightarrow> marks (am_world m2) = marks (bw_kernel b) \<and> fm_fanotify_fd (am_fanotify_monitor m2) = -1)"
proof -
  obtain u b1 m0 confs m1 and ls :: "'v am_label list" where o: "a6o_open env conf (Some b) = Some (u, Some b1)" "bw_monitor b1 = Some m1"
      "access_monitor_new (ae_os env) (ae_pid env) a6o_event_source_new (bw_confs b, bw_kernel b) = Some (m0, confs)"
      "am_run (ae_os env) gv m0 ls m1" "filter (\<lambda>l. \<not> is_scan_conf l) ls = conf_labels (conf_alist conf) @ [DelayedStart]"
    using open_monitor [OF assms(1-4), of b gv] by blast
  have "Enable n \<notin> set ls" for n
  proof
    assume "Enable n \<in> set ls"
    then have "(Enable n :: 'v am_label) \<in> set (filter (\<lambda>l. \<not> is_scan_conf l) ls)"
      by (simp add: is_scan_conf_def)
    then have "(Enable n :: 'v am_label) \<in> set (conf_labels (conf_alist conf))"
      unfolding o(5) by auto
    then obtain v where "((''on-access-linux'', ''enable''), v) \<in> set (conf_alist conf)"
      unfolding conf_labels_def by (auto dest!: enable_entry split: if_splits)
    with assms(5) show False
      unfolding conf_map_def by (force simp: map_of_eq_None_iff)
  qed
  then have none: "\<forall>n. Enable n \<in> set ls \<longrightarrow> n = 0"
    by blast
  have "idle_monitor marks (marks (bw_kernel b)) m0"
    by (simp add: idle_monitor_def new_fields [OF o(3)] inotify_monitor_new_def mount_monitor_new_def)
  from idle_run [OF this o(4) none] have "marks (am_world m2) = marks (bw_kernel b) \<and> fm_fanotify_fd (am_fanotify_monitor m2) = -1"
    if "am_run (ae_os env) gv m1 ls m2" "\<forall>n. Enable n \<notin> set ls" for ls m2
    using idle_run [OF _ that(1), of marks "marks (bw_kernel b)"] that(2) by (simp add: idle_monitor_def)
  then show ?thesis
    using o(1,2) by blast
qed

section \<open>Examples\<close>

definition opening_env :: "(kernel, unit) armadito_env" where
  "opening_env = \<lparr>ae_os = kernel_os True, ae_pid = 7, ae_modules_dir = Some ''/lib/armadito'', ae_realpath = Some,
    ae_dir = (\<lambda>_. Readable [Other ''clamav.so'' DT_REG] None), ae_loader = (\<lambda>_. ModuleObject (on_demand_module\<lparr>mod_conf_table := None\<rparr>)),
    ae_self = NotAnObject\<rparr>"

definition protecting_conf :: "string list \<Rightarrow> u32 option \<Rightarrow> a6o_conf" where
  "protecting_conf ds enable = \<lparr>conf_sections = [\<lparr>se_section = ''on-access-linux'', se_keys =
    (case enable of None \<Rightarrow> [] | Some n \<Rightarrow> [\<lparr>ke_key = ''enable'', ke_value = CV_INT n\<rparr>])
    @ [\<lparr>ke_key = ''directory'', ke_value = CV_LIST ds\<rparr>]\<rparr>]\<rparr>"

definition opening_world :: "(kernel, unit) builtin" where
  "opening_world = \<lparr>bw_monitor = None, bw_kernel = kernel_init, bw_confs = \<lparr>on_demand_conf = None, on_access_conf = None\<rparr>,
    bw_source = a6o_event_source_new, bw_by_name = (\<lambda>_. None), bw_quarantine = None, bw_rest = ()\<rparr>"

lemma opening_env_laws:
  "private_loader opening_env" "\<forall>w. ao_io_ok (ae_os opening_env) w" "kernel_laws (ae_os opening_env) kn_marks kn_watch"
  "accepts (ae_os opening_env)" "\<forall>w. fst (ao_bus (ae_os opening_env) w)" "kn_watch (bw_kernel opening_world) = (\<lambda>_. None)"
  using kernel_os_laws kernel_init_watches
  by (simp_all add: opening_env_def private_loader_def private_module_def opening_world_def kernel_os_def)

lemma protecting_conf_ok:
  "conf_inv (protecting_conf ds e)" "conf_strings_set (protecting_conf ds e)" "protected_directories (protecting_conf ds e) = ds"
  "protection_enabled (protecting_conf ds (Some n)) = sint n"
  "conf_map (protecting_conf ds None) (''on-access-linux'', ''enable'') = None"
  by (cases e; simp add: protecting_conf_def conf_inv_def conf_strings_set_def conf_alist_def protected_directories_def
      protection_enabled_def conf_map_def)+

theorem open_configures_monitor_witness:
  "\<exists>u b1 m1. a6o_open opening_env (protecting_conf [''/srv''] (Some 1)) (Some opening_world) = Some (u, Some b1) \<and> bw_monitor b1 = Some m1"
  using open_configures_monitor [OF opening_env_laws(1,2) protecting_conf_ok(2), of "[''/srv'']" "Some 1" opening_world quiet_gv] by blast

theorem open_protects_directories_witness:
  "\<exists>u b1 m1 m2. a6o_open opening_env (protecting_conf [''/srv'', ''/home''] (Some 1)) (Some opening_world) = Some (u, Some b1)
    \<and> bw_monitor b1 = Some m1 \<and> am_run (ae_os opening_env) quiet_gv m1 [StartReady, CommandReady] m2
    \<and> dirs_of ''/srv'' (ao_dir (ae_os opening_env) ''/srv'' kernel_init) \<subseteq> coverage kn_marks kn_watch (am_world m2)"
  using open_protects_directories [OF opening_env_laws(1,3-6) protecting_conf_ok(1,2), of "[''/srv'', ''/home'']" "Some 1" quiet_gv]
  by (simp add: protecting_conf_ok) (auto simp: opening_world_def)

theorem open_disabled_marks_nothing_witness:
  "\<exists>u b1 m1. a6o_open opening_env (protecting_conf [''/srv''] None) (Some opening_world) = Some (u, Some b1)
    \<and> bw_monitor b1 = Some m1 \<and> (\<forall>m2. am_run (ae_os opening_env) quiet_gv m1 [StartReady] m2 \<longrightarrow> kn_marks (am_world m2) = kn_marks kernel_init)"
  using open_disabled_marks_nothing [where marks = kn_marks, OF opening_env_laws(1,2) protecting_conf_ok(2,1,5), of "[''/srv'']" opening_world quiet_gv]
  by (fastforce simp: opening_world_def)

end
