(* ===== verification/Buffer.thy ===== *)
theory Buffer
  imports Prelude
begin

text \<open>
  The two growing character buffers: \<open>librpc/jrpc/buffer.c\<close>, in which the JSON text of a message
  is collected before it is sent, and the private buffer of \<open>libmodule/string.c\<close>, with which
  \<open>a6o_strcat_\<close> concatenates strings.

  An allocated block is a list of cells, \<open>None\<close> for a byte that was never written; a write outside
  the block is undefined behaviour. Sizes are \<open>size_t\<close> values, 64-bit words.
\<close>

section \<open>The buffer of the RPC library\<close>

type_synonym block = "char option list"

record buffer =
  buf_p :: block
  buf_filled_size :: u64
  buf_alloced_size :: u64

definition DEFAULT_INITIAL_SIZE :: u64 where "DEFAULT_INITIAL_SIZE = 128"

definition malloc_block :: "u64 \<Rightarrow> block" where
  "malloc_block n = replicate (unat n) None"

definition realloc_block :: "block \<Rightarrow> u64 \<Rightarrow> block" where
  "realloc_block p n = take (unat n) p @ replicate (unat n - length p) None"

definition memcpy_block :: "block \<Rightarrow> nat \<Rightarrow> char list \<Rightarrow> block option" where
  "memcpy_block p off bytes =
    (if off + length bytes \<le> length p
     then Some (take off p @ map Some bytes @ drop (off + length bytes) p)
     else None)"

definition buffer_init :: "u64 \<Rightarrow> buffer" where
  "buffer_init initial_size =
    (let n = (if initial_size = 0 then DEFAULT_INITIAL_SIZE else initial_size)
     in \<lparr>buf_p = malloc_block n, buf_filled_size = 0, buf_alloced_size = n\<rparr>)"

text \<open>The doubling loop. It has no bound of its own: \<open>None\<close> is a loop that never ends.\<close>

partial_function (option) grow_loop :: "u64 \<Rightarrow> u64 \<Rightarrow> u64 option" where
  "grow_loop need alloced = (if need \<ge> alloced then grow_loop need (alloced * 2) else Some alloced)"

definition buffer_grow :: "buffer \<Rightarrow> u64 \<Rightarrow> buffer option" where
  "buffer_grow b needed =
    (if buf_filled_size b + needed \<ge> buf_alloced_size b
     then case grow_loop (buf_filled_size b + needed) (buf_alloced_size b) of
            None \<Rightarrow> None
          | Some n \<Rightarrow> Some (b\<lparr>buf_alloced_size := n, buf_p := realloc_block (buf_p b) n\<rparr>)
     else Some b)"

definition buffer_increment :: "buffer \<Rightarrow> u64 \<Rightarrow> buffer" where
  "buffer_increment b sz = b\<lparr>buf_filled_size := buf_filled_size b + sz\<rparr>"

text \<open>\<open>buffer_end\<close> is a pointer into the block: the offset of the first free byte.\<close>

definition buffer_end :: "buffer \<Rightarrow> nat" where
  "buffer_end b = unat (buf_filled_size b)"

definition buffer_append :: "buffer \<Rightarrow> char list \<Rightarrow> buffer option" where
  "buffer_append b bytes = do {
     b1 \<leftarrow> buffer_grow b (of_nat (length bytes));
     p \<leftarrow> memcpy_block (buf_p b1) (buffer_end b1) bytes;
     Some (buffer_increment (b1\<lparr>buf_p := p\<rparr>) (of_nat (length bytes)))
   }"

definition buffer_size :: "buffer \<Rightarrow> u64" where
  "buffer_size b = buf_filled_size b"

definition buffer_data :: "buffer \<Rightarrow> block" where
  "buffer_data b = buf_p b"

definition buffer_clear :: "buffer \<Rightarrow> buffer" where
  "buffer_clear b = b\<lparr>buf_filled_size := 0\<rparr>"

section \<open>The buffer behind string concatenation\<close>

record cat_buffer =
  cb_alloced_size :: nat
  cb_filled_size :: nat
  cb_buff :: block

definition cb_init :: cat_buffer where
  "cb_init = \<lparr>cb_alloced_size = 128, cb_filled_size = 0, cb_buff = replicate 128 None\<rparr>"

definition grow_by_1 :: "cat_buffer \<Rightarrow> cat_buffer" where
  "grow_by_1 b =
    (if cb_filled_size b + 1 \<ge> cb_alloced_size b
     then let n = cb_alloced_size b * 2
          in b\<lparr>cb_alloced_size := n,
               cb_buff := take n (cb_buff b) @ replicate (n - length (cb_buff b)) None\<rparr>
     else b)"

definition cb_append :: "cat_buffer \<Rightarrow> char \<Rightarrow> cat_buffer option" where
  "cb_append b c =
    (let b1 = grow_by_1 b
     in if cb_filled_size b1 < length (cb_buff b1)
        then Some (b1\<lparr>cb_buff := (cb_buff b1)[cb_filled_size b1 := Some c],
                      cb_filled_size := cb_filled_size b1 + 1\<rparr>)
        else None)"

fun append_string :: "cat_buffer \<Rightarrow> string \<Rightarrow> cat_buffer option" where
  "append_string b [] = Some b"
| "append_string b (c # s) = do { b1 \<leftarrow> cb_append b c; append_string b1 s }"

fun append_args :: "cat_buffer \<Rightarrow> string list \<Rightarrow> cat_buffer option" where
  "append_args b [] = Some b"
| "append_args b (s # ss) = do { b1 \<leftarrow> append_string b s; append_args b1 ss }"

text \<open>
  \<open>a6o_strcat_(src, args..., NULL)\<close>: the outer option is undefined behaviour, the inner one the NULL
  that is returned for a NULL first argument. The result is the allocated block.
\<close>

definition a6o_strcat :: "cstr \<Rightarrow> string list \<Rightarrow> block option option" where
  "a6o_strcat src args = (case src of
       None \<Rightarrow> Some None
     | Some s \<Rightarrow> do {
         b \<leftarrow> append_args cb_init (s # args);
         b1 \<leftarrow> cb_append b CHR 0x00;
         Some (Some (cb_buff b1))
       })"

text \<open>The C string a block holds: the bytes before the first NUL, all of which must be written.\<close>

fun read_cstr :: "block \<Rightarrow> string option" where
  "read_cstr [] = None"
| "read_cstr (None # _) = None"
| "read_cstr (Some c # p) =
    (if c = CHR 0x00 then Some [] else map_option ((#) c) (read_cstr p))"

definition a6o_strdup :: "cstr \<Rightarrow> cstr" where
  "a6o_strdup s = (case a6o_strcat s [] of
       Some (Some p) \<Rightarrow> read_cstr p
     | _ \<Rightarrow> None)"

section \<open>Correctness of the RPC buffer\<close>

text \<open>The block has the size the buffer believes it has, and the bytes in use are \<open>bytes\<close>.\<close>

definition buffer_holds :: "buffer \<Rightarrow> char list \<Rightarrow> bool" where
  "buffer_holds b bytes \<longleftrightarrow>
    0 < buf_alloced_size b
    \<and> length (buf_p b) = unat (buf_alloced_size b)
    \<and> unat (buf_filled_size b) = length bytes
    \<and> length bytes \<le> length (buf_p b)
    \<and> take (length bytes) (buf_p b) = map Some bytes"

lemma buffer_init_holds [inv_rules]: "buffer_holds (buffer_init n) []"
  by (auto simp: buffer_holds_def buffer_init_def Let_def malloc_block_def DEFAULT_INITIAL_SIZE_def
      word_gt_0)

lemma grow_loop_total:
  assumes "0 < alloced" "unat need < 2 ^ 63"
  shows "\<exists>n. grow_loop need alloced = Some n \<and> need < n \<and> alloced \<le> n"
  using assms
proof (induction "unat need + 1 - unat alloced" arbitrary: alloced rule: less_induct)
  case less
  show ?case
  proof (cases "need \<ge> alloced")
    case False
    then show ?thesis
      by (subst grow_loop.simps) auto
  next
    case True
    have small: "unat alloced \<le> unat need"
      using True by (simp add: word_le_nat_alt)
    have pos: "0 < unat alloced"
      using less.prems(1) by (simp add: unat_gt_0 word_gt_0)
    have dbl: "unat (alloced * 2) = unat alloced * 2"
      using small less.prems(2) by (simp add: unat_word_ariths)
    have ex: "\<exists>n. grow_loop need (alloced * 2) = Some n \<and> need < n \<and> alloced * 2 \<le> n"
    proof (rule less.hyps)
      show "unat need + 1 - unat (alloced * 2) < unat need + 1 - unat alloced"
        using dbl small pos by simp
      have "0 < unat (alloced * 2)"
        using dbl pos by simp
      then show "0 < alloced * 2"
        by (simp only: word_less_nat_alt unat_0)
    qed (rule less.prems(2))
    have le: "alloced \<le> alloced * 2"
      using dbl by (simp add: word_le_nat_alt)
    have step: "grow_loop need alloced = grow_loop need (alloced * 2)"
      using True by (subst grow_loop.simps) simp
    from ex obtain n where "grow_loop need (alloced * 2) = Some n" "need < n" "alloced * 2 \<le> n"
      by blast
    with step le show ?thesis
      by (intro exI [of _ n]) (simp only: order_trans [of alloced "alloced * 2" n] simp_thms)
  qed
qed

lemma buffer_grow_holds:
  assumes "buffer_holds b bytes" and "length bytes + unat needed < 2 ^ 63"
  shows "\<exists>b'. buffer_grow b needed = Some b' \<and> buffer_holds b' bytes
    \<and> length bytes + unat needed < length (buf_p b')"
proof -
  have H: "0 < buf_alloced_size b" "length (buf_p b) = unat (buf_alloced_size b)"
      "unat (buf_filled_size b) = length bytes" "length bytes \<le> length (buf_p b)"
      "take (length bytes) (buf_p b) = map Some bytes"
    using assms(1) by (auto simp: buffer_holds_def)
  have sum: "unat (buf_filled_size b + needed) = length bytes + unat needed"
    using assms(2) H(3) by (simp add: unat_word_ariths)
  show ?thesis
  proof (cases "buf_filled_size b + needed \<ge> buf_alloced_size b")
    case False
    with assms(1) H(2) sum show ?thesis
      by (auto simp: buffer_grow_def word_le_nat_alt)
  next
    case True
    obtain n where n: "grow_loop (buf_filled_size b + needed) (buf_alloced_size b) = Some n"
        "buf_filled_size b + needed < n" "buf_alloced_size b \<le> n"
      using grow_loop_total [OF H(1), of "buf_filled_size b + needed"] assms(2) sum by auto
    have len: "length (buf_p b) \<le> unat n"
      using n(3) H(2) by (simp add: word_le_nat_alt)
    have "0 < n"
      using n(2) by (metis word_not_simps(1) word_gt_0)
    with n(1) True H len sum n(2) show ?thesis
      by (auto simp: buffer_grow_def buffer_holds_def realloc_block_def word_less_nat_alt)
  qed
qed

lemma buffer_append_holds:
  assumes "buffer_holds b bytes" and "length bytes + length ext < 2 ^ 63"
  shows "\<exists>b'. buffer_append b ext = Some b' \<and> buffer_holds b' (bytes @ ext)"
proof -
  have nat: "unat (of_nat (length ext) :: u64) = length ext"
    using assms(2) by (simp add: unat_of_nat)
  obtain b1 where b1: "buffer_grow b (of_nat (length ext)) = Some b1" "buffer_holds b1 bytes"
      "length bytes + length ext < length (buf_p b1)"
    using buffer_grow_holds [OF assms(1), of "of_nat (length ext)"] assms(2) nat by auto
  have H: "0 < buf_alloced_size b1" "length (buf_p b1) = unat (buf_alloced_size b1)"
      "unat (buf_filled_size b1) = length bytes" "take (length bytes) (buf_p b1) = map Some bytes"
    using b1(2) by (auto simp: buffer_holds_def)
  let ?p = "take (length bytes) (buf_p b1) @ map Some ext @ drop (length bytes + length ext) (buf_p b1)"
  have "buffer_append b ext
      = Some (buffer_increment (b1\<lparr>buf_p := ?p\<rparr>) (of_nat (length ext)))"
    using b1 H(3) by (simp add: buffer_append_def memcpy_block_def buffer_end_def)
  moreover have "buffer_holds (buffer_increment (b1\<lparr>buf_p := ?p\<rparr>) (of_nat (length ext))) (bytes @ ext)"
    using H b1(3) assms(2) nat
    by (auto simp: buffer_holds_def buffer_increment_def unat_word_ariths)
  ultimately show ?thesis
    by blast
qed

lemma buffer_clear_holds: "buffer_holds b bytes \<Longrightarrow> buffer_holds (buffer_clear b) []"
  by (simp add: buffer_holds_def buffer_clear_def)

section \<open>Correctness of concatenation\<close>

definition cb_holds :: "cat_buffer \<Rightarrow> string \<Rightarrow> bool" where
  "cb_holds b s \<longleftrightarrow>
    length (cb_buff b) = cb_alloced_size b \<and> 2 \<le> cb_alloced_size b
    \<and> cb_filled_size b = length s \<and> length s < cb_alloced_size b
    \<and> take (length s) (cb_buff b) = map Some s"

lemma cb_append_holds:
  assumes "cb_holds b s"
  shows "\<exists>b'. cb_append b c = Some b' \<and> cb_holds b' (s @ [c])"
proof -
  let ?b1 = "grow_by_1 b"
  have H: "length (cb_buff ?b1) = cb_alloced_size ?b1" "2 \<le> cb_alloced_size ?b1"
      "cb_filled_size ?b1 = length s" "length s + 1 < cb_alloced_size ?b1"
      "take (length s) (cb_buff ?b1) = map Some s"
    using assms by (auto simp: cb_holds_def grow_by_1_def Let_def)
  then show ?thesis
    by (auto simp: cb_append_def Let_def cb_holds_def take_Suc_conv_app_nth)
qed

lemma append_string_holds:
  "cb_holds b s \<Longrightarrow> \<exists>b'. append_string b t = Some b' \<and> cb_holds b' (s @ t)"
proof (induction t arbitrary: b s)
  case (Cons c t)
  obtain b1 where "cb_append b c = Some b1" "cb_holds b1 (s @ [c])"
    using cb_append_holds [OF Cons.prems] by blast
  with Cons.IH [of b1 "s @ [c]"] show ?case by auto
qed simp

lemma append_args_holds:
  "cb_holds b s \<Longrightarrow> \<exists>b'. append_args b args = Some b' \<and> cb_holds b' (s @ concat args)"
proof (induction args arbitrary: b s)
  case (Cons t args)
  obtain b1 where "append_string b t = Some b1" "cb_holds b1 (s @ t)"
    using append_string_holds [OF Cons.prems] by blast
  with Cons.IH [of b1 "s @ t"] show ?case by auto
qed simp

lemma read_cstr_append:
  "CHR 0x00 \<notin> set s \<Longrightarrow> read_cstr (map Some s @ Some CHR 0x00 # p) = Some s"
  by (induction s) auto

lemma a6o_strcat_block:
  "\<exists>p. a6o_strcat (Some s) args = Some (Some (map Some (s @ concat args) @ Some CHR 0x00 # p))"
proof -
  have "cb_holds cb_init []"
    by (simp add: cb_holds_def cb_init_def)
  then obtain b where b: "append_args cb_init (s # args) = Some b" "cb_holds b (s @ concat args)"
    using append_args_holds [of cb_init "[]" "s # args"] by auto
  obtain b' where b': "cb_append b CHR 0x00 = Some b'" "cb_holds b' ((s @ concat args) @ [CHR 0x00])"
    using cb_append_holds [OF b(2)] by blast
  let ?n = "length ((s @ concat args) @ [CHR 0x00])"
  have "take ?n (cb_buff b') = map Some ((s @ concat args) @ [CHR 0x00])"
    using b'(2) by (simp only: cb_holds_def)
  then have "cb_buff b' = map Some ((s @ concat args) @ [CHR 0x00]) @ drop ?n (cb_buff b')"
    by (metis append_take_drop_id)
  with b(1) b'(1) show ?thesis
    by (auto simp: a6o_strcat_def)
qed

lemma a6o_strcat_cstr:
  assumes "CHR 0x00 \<notin> set (s @ concat args)"
  shows "\<exists>p. a6o_strcat (Some s) args = Some (Some p) \<and> read_cstr p = Some (s @ concat args)"
  using a6o_strcat_block [of s args] read_cstr_append [OF assms] by auto

text \<open>Strings of the model carry no NUL of their own; on those \<open>a6o_strdup\<close> is a copy.\<close>

lemma a6o_strdup_copy: "(\<And>t. s = Some t \<Longrightarrow> CHR 0x00 \<notin> set t) \<Longrightarrow> a6o_strdup s = s"
proof (cases s)
  case None
  then show ?thesis by (simp add: a6o_strdup_def a6o_strcat_def)
next
  case (Some t)
  assume "\<And>t. s = Some t \<Longrightarrow> CHR 0x00 \<notin> set t"
  with Some have "CHR 0x00 \<notin> set t" by blast
  with Some a6o_strcat_cstr [of t "[]"] show ?thesis
    by (auto simp: a6o_strdup_def)
qed

section \<open>Properties\<close>

text \<open>
  C5: appending to a buffer. As long as the bytes stay below half of the address space, the doubling
  loop ends, the copy stays inside the block, and the buffer holds the old bytes followed by the new
  ones.
\<close>

theorem buffer_append_appends:
  assumes "buffer_holds b bytes" "length bytes + length ext < 2 ^ 63"
  shows "\<exists>b'. buffer_append b ext = Some b' \<and> buffer_holds b' (bytes @ ext)
    \<and> take (unat (buffer_size b')) (buffer_data b') = map Some (bytes @ ext)"
proof -
  obtain b' where b': "buffer_append b ext = Some b'" "buffer_holds b' (bytes @ ext)"
    using buffer_append_holds [OF assms] by blast
  then have "unat (buffer_size b') = length (bytes @ ext)"
      "take (length (bytes @ ext)) (buffer_data b') = map Some (bytes @ ext)"
    by (simp_all only: buffer_holds_def buffer_size_def buffer_data_def)
  with b' show ?thesis
    by auto
qed

theorem buffer_append_appends_witness:
  "\<exists>b'. buffer_append (buffer_init 0) ''abc'' = Some b' \<and> buffer_holds b' ''abc''
    \<and> take (unat (buffer_size b')) (buffer_data b') = map Some ''abc''"
  using buffer_append_appends [of "buffer_init 0" "[]" "''abc''"] by (simp add: buffer_init_holds)

text \<open>
  string concatenation. \<open>a6o_strcat_\<close> never writes outside its block, whatever the number and the
  length of its arguments, and returns a block that holds their concatenation as a C string; with a
  NULL first argument it returns NULL.
\<close>

theorem a6o_strcat_concatenates:
  "a6o_strcat None args = Some None
    \<and> (\<exists>p. a6o_strcat (Some s) args = Some (Some p)
        \<and> take (length (s @ concat args) + 1) p = map Some (s @ concat args @ [CHR 0x00]))"
  using a6o_strcat_block [of s args] by (auto simp: a6o_strcat_def)

end
