(* ===== verification/Json.thy ===== *)
theory Json
  imports Prelude
begin

text \<open>
  The interface of the JSON library that the RPC library calls. Its code is not part of the
  repository: a record of functions stands for it, and \<open>json_laws\<close> states what its documentation
  says of them. Values are immutable here: a function that adds to an object or an array returns
  the new one. Reference counts are left out.
\<close>

section \<open>Operations\<close>

datatype json_type =
    JSON_OBJECT | JSON_ARRAY | JSON_STRING | JSON_INTEGER | JSON_REAL | JSON_TRUE | JSON_FALSE | JSON_NULL

text \<open>The arguments of \<open>json_pack\<close> and \<open>json_unpack\<close>, for the formats that the source uses.\<close>

datatype 'j pack_arg = PackS cstr | PackO "'j option" | PackI int

datatype unpack_kind = UnpackS | UnpackO | UnpackI

datatype 'j unpacked = IsS string | IsO 'j | IsI int

text \<open>
  \<open>js_string\<close> gives NULL for NULL and for text that is not UTF-8; \<open>js_string_value\<close> gives NULL
  for a value that is not a string. \<open>js_dump\<close> gives the pieces of text that
  \<open>json_dump_callback\<close> hands to its callback, and \<open>None\<close> for the error it reports for NULL and
  for values it cannot write. \<open>js_elems\<close> lists what \<open>json_array_foreach\<close> visits.
\<close>

record 'j jansson =
  js_utf8 :: "string \<Rightarrow> bool"
  js_typeof :: "'j \<Rightarrow> json_type"
  js_null :: 'j
  js_string :: "cstr \<Rightarrow> 'j option"
  js_string_value :: "'j \<Rightarrow> cstr"
  js_integer :: "int \<Rightarrow> 'j"
  js_integer_value :: "'j \<Rightarrow> int"
  js_object :: 'j
  js_object_get :: "'j option \<Rightarrow> string \<Rightarrow> 'j option"
  js_object_set :: "'j \<Rightarrow> string \<Rightarrow> 'j option \<Rightarrow> 'j"
  js_array :: 'j
  js_array_append :: "'j \<Rightarrow> 'j option \<Rightarrow> 'j"
  js_elems :: "'j \<Rightarrow> 'j list"
  js_pack :: "(string \<times> 'j pack_arg) list \<Rightarrow> 'j option"
  js_unpack :: "'j option \<Rightarrow> (string \<times> unpack_kind \<times> bool) list \<Rightarrow> 'j unpacked option list option"
  js_dump :: "'j option \<Rightarrow> string list option"
  js_loadb :: "string \<Rightarrow> 'j option"

text \<open>The predicates of the library are macros: a type test on a pointer that may be NULL.\<close>

definition json_is :: "'j jansson \<Rightarrow> json_type \<Rightarrow> 'j option \<Rightarrow> bool" where
  "json_is J t j = (case j of None \<Rightarrow> False | Some v \<Rightarrow> js_typeof J v = t)"

lemma json_is_simps [simp]:
  "\<not> json_is J t None" "json_is J t (Some v) \<longleftrightarrow> js_typeof J v = t"
  by (simp_all add: json_is_def)

section \<open>Integers\<close>

text \<open>The conversions to \<open>int\<close>, to \<open>unsigned int\<close>, to \<open>json_int_t\<close> and to \<open>size_t\<close>.\<close>

definition to_int32 :: "int \<Rightarrow> int" where "to_int32 i = (i + 2 ^ 31) mod 2 ^ 32 - 2 ^ 31"
definition to_uint32 :: "int \<Rightarrow> int" where "to_uint32 i = i mod 2 ^ 32"
definition to_int64 :: "int \<Rightarrow> int" where "to_int64 i = (i + 2 ^ 63) mod 2 ^ 64 - 2 ^ 63"
definition to_size_t :: "int \<Rightarrow> nat" where "to_size_t i = nat (i mod 2 ^ 64)"

definition is_int32 :: "int \<Rightarrow> bool" where "is_int32 i \<longleftrightarrow> - (2 ^ 31) \<le> i \<and> i < 2 ^ 31"
definition is_uint32 :: "int \<Rightarrow> bool" where "is_uint32 i \<longleftrightarrow> 0 \<le> i \<and> i < 2 ^ 32"
definition is_int64 :: "int \<Rightarrow> bool" where "is_int64 i \<longleftrightarrow> - (2 ^ 63) \<le> i \<and> i < 2 ^ 63"
definition is_size_t :: "nat \<Rightarrow> bool" where "is_size_t n \<longleftrightarrow> n < 2 ^ 64"

lemma to_int32_id: "is_int32 i \<Longrightarrow> to_int32 i = i"
  by (simp add: is_int32_def to_int32_def)

lemma to_uint32_id: "is_uint32 i \<Longrightarrow> to_uint32 i = i"
  by (simp add: is_uint32_def to_uint32_def)

lemma to_int64_id: "is_int64 i \<Longrightarrow> to_int64 i = i"
  by (simp add: is_int64_def to_int64_def)

lemma to_int64_range: "is_int64 (to_int64 i)"
proof -
  have "0 \<le> (i + 2 ^ 63) mod 2 ^ 64" "(i + 2 ^ 63) mod 2 ^ 64 < 2 ^ 64"
    by (rule pos_mod_sign, simp, rule pos_mod_bound, simp)
  then show ?thesis
    by (simp add: is_int64_def to_int64_def)
qed

lemma is_int32_int64: "is_int32 i \<Longrightarrow> is_int64 i"
  by (simp add: is_int32_def is_int64_def)

lemma is_uint32_int64: "is_uint32 i \<Longrightarrow> is_int64 i"
  by (simp add: is_uint32_def is_int64_def)

text \<open>A \<open>size_t\<close> survives the signed integers of JSON, although a large one turns negative.\<close>

lemma to_size_t_to_int64: "is_size_t n \<Longrightarrow> to_size_t (to_int64 (int n)) = n"
proof -
  assume n: "is_size_t n"
  have "(to_int64 (int n)) mod 2 ^ 64 = int n mod 2 ^ 64"
    unfolding to_int64_def by (simp add: mod_diff_left_eq)
  with n show ?thesis
    by (simp add: to_size_t_def is_size_t_def)
qed

lemmas json_int_simps = to_int32_id to_uint32_id to_int64_id to_size_t_to_int64

section \<open>What the library documents\<close>

definition ascii :: "string \<Rightarrow> bool" where
  "ascii s \<longleftrightarrow> (\<forall>c \<in> set s. 0 < (of_char c :: nat) \<and> (of_char c :: nat) < 128)"

definition pack_value :: "'j jansson \<Rightarrow> 'j pack_arg \<Rightarrow> 'j option" where
  "pack_value J a = (case a of PackS s \<Rightarrow> js_string J s | PackO j \<Rightarrow> j | PackI i \<Rightarrow> Some (js_integer J i))"

definition pack_object :: "'j jansson \<Rightarrow> (string \<times> 'j pack_arg) list \<Rightarrow> 'j option" where
  "pack_object J fmt =
    (if \<exists>a \<in> set (map snd fmt). pack_value J a = None then None
     else Some (foldl (\<lambda>obj (k, a). js_object_set J obj k (pack_value J a)) (js_object J) fmt))"

definition unpack_value :: "'j jansson \<Rightarrow> unpack_kind \<Rightarrow> 'j \<Rightarrow> 'j unpacked option" where
  "unpack_value J kind v = (case kind of
       UnpackO \<Rightarrow> Some (IsO v)
     | UnpackS \<Rightarrow> if js_typeof J v = JSON_STRING then map_option IsS (js_string_value J v) else None
     | UnpackI \<Rightarrow> if js_typeof J v = JSON_INTEGER then Some (IsI (to_int32 (js_integer_value J v))) else None)"

text \<open>A missing key is an error unless it is marked with a question mark.\<close>

fun unpack_fields ::
  "'j jansson \<Rightarrow> 'j option \<Rightarrow> (string \<times> unpack_kind \<times> bool) list \<Rightarrow> 'j unpacked option list option" where
  "unpack_fields J obj [] = Some []"
| "unpack_fields J obj ((k, kind, optional) # fmt) =
    (case js_object_get J obj k of
       None \<Rightarrow> if optional then map_option (Cons None) (unpack_fields J obj fmt) else None
     | Some v \<Rightarrow>
       (case unpack_value J kind v of
          None \<Rightarrow> None
        | Some u \<Rightarrow> map_option (Cons (Some u)) (unpack_fields J obj fmt)))"

definition object_laws :: "'j jansson \<Rightarrow> bool" where
  "object_laws J \<longleftrightarrow>
    js_typeof J (js_object J) = JSON_OBJECT
    \<and> (\<forall>k. js_object_get J None k = None)
    \<and> (\<forall>k. js_object_get J (Some (js_object J)) k = None)
    \<and> (\<forall>j k. js_typeof J j \<noteq> JSON_OBJECT \<longrightarrow> js_object_get J (Some j) k = None)
    \<and> (\<forall>obj k. js_object_set J obj k None = obj)
    \<and> (\<forall>obj k v. js_typeof J obj = JSON_OBJECT \<and> js_utf8 J k \<longrightarrow>
          js_typeof J (js_object_set J obj k (Some v)) = JSON_OBJECT
          \<and> (\<forall>k'. js_object_get J (Some (js_object_set J obj k (Some v))) k'
                = (if k' = k then Some v else js_object_get J (Some obj) k')))"

definition array_laws :: "'j jansson \<Rightarrow> bool" where
  "array_laws J \<longleftrightarrow>
    js_typeof J (js_array J) = JSON_ARRAY \<and> js_elems J (js_array J) = []
    \<and> (\<forall>a v. js_typeof J a = JSON_ARRAY \<longrightarrow>
          js_typeof J (js_array_append J a (Some v)) = JSON_ARRAY
          \<and> js_elems J (js_array_append J a (Some v)) = js_elems J a @ [v])"

definition scalar_laws :: "'j jansson \<Rightarrow> bool" where
  "scalar_laws J \<longleftrightarrow>
    js_typeof J (js_null J) = JSON_NULL
    \<and> (\<forall>s. ascii s \<longrightarrow> js_utf8 J s)
    \<and> js_string J None = None
    \<and> (\<forall>s. js_utf8 J s \<longrightarrow>
          (\<exists>j. js_string J (Some s) = Some j \<and> js_typeof J j = JSON_STRING \<and> js_string_value J j = Some s))
    \<and> (\<forall>j. js_typeof J j = JSON_STRING \<longrightarrow> js_string_value J j \<noteq> None)
    \<and> (\<forall>i. js_typeof J (js_integer J i) = JSON_INTEGER
          \<and> (is_int64 i \<longrightarrow> js_integer_value J (js_integer J i) = i))"

definition json_laws :: "'j jansson \<Rightarrow> bool" where
  "json_laws J \<longleftrightarrow> object_laws J \<and> array_laws J \<and> scalar_laws J
    \<and> (\<forall>fmt. js_pack J fmt = pack_object J fmt)
    \<and> (\<forall>obj fmt. js_unpack J obj fmt = unpack_fields J obj fmt)
    \<and> js_dump J None = None"

section \<open>Consequences\<close>

lemma ascii_utf8: "json_laws J \<Longrightarrow> ascii s \<Longrightarrow> js_utf8 J s"
  by (simp add: json_laws_def scalar_laws_def)

lemma js_pack_eq: "json_laws J \<Longrightarrow> js_pack J fmt = pack_object J fmt"
  by (simp add: json_laws_def)

lemma js_unpack_eq: "json_laws J \<Longrightarrow> js_unpack J obj fmt = unpack_fields J obj fmt"
  by (simp add: json_laws_def)

lemma js_dump_None: "json_laws J \<Longrightarrow> js_dump J None = None"
  by (simp add: json_laws_def)

lemma js_object_get_None: "json_laws J \<Longrightarrow> js_object_get J None k = None"
  by (simp add: json_laws_def object_laws_def)

lemma js_object_get_other:
  "json_laws J \<Longrightarrow> js_typeof J j \<noteq> JSON_OBJECT \<Longrightarrow> js_object_get J (Some j) k = None"
  by (simp add: json_laws_def object_laws_def)

lemma js_object_set_None: "json_laws J \<Longrightarrow> js_object_set J obj k None = obj"
  by (simp add: json_laws_def object_laws_def)

lemma js_typeof_null: "json_laws J \<Longrightarrow> js_typeof J (js_null J) = JSON_NULL"
  by (simp add: json_laws_def scalar_laws_def)

lemma js_typeof_integer: "json_laws J \<Longrightarrow> js_typeof J (js_integer J i) = JSON_INTEGER"
  by (simp add: json_laws_def scalar_laws_def)

lemma js_integer_value_integer:
  "json_laws J \<Longrightarrow> is_int64 i \<Longrightarrow> js_integer_value J (js_integer J i) = i"
  by (simp add: json_laws_def scalar_laws_def)

lemma js_string_NULL: "json_laws J \<Longrightarrow> js_string J None = None"
  by (simp add: json_laws_def scalar_laws_def)

lemma js_string_value_string:
  "json_laws J \<Longrightarrow> js_typeof J j = JSON_STRING \<Longrightarrow> \<exists>s. js_string_value J j = Some s"
  by (simp add: json_laws_def scalar_laws_def)

text \<open>The value that stands for a valid string.\<close>

definition jstr :: "'j jansson \<Rightarrow> string \<Rightarrow> 'j" where
  "jstr J s = the (js_string J (Some s))"

lemma js_string_utf8:
  assumes "json_laws J" "js_utf8 J s"
  shows "js_string J (Some s) = Some (jstr J s)" "js_typeof J (jstr J s) = JSON_STRING"
    "js_string_value J (jstr J s) = Some s"
  using assms by (auto simp: json_laws_def scalar_laws_def jstr_def)

text \<open>An object built from a list of bindings.\<close>

definition jobj :: "'j jansson \<Rightarrow> (string \<times> 'j) list \<Rightarrow> 'j" where
  "jobj J kvs = foldl (\<lambda>obj (k, v). js_object_set J obj k (Some v)) (js_object J) kvs"

lemma jobj_Nil: "jobj J [] = js_object J"
  by (simp add: jobj_def)

lemma jobj_snoc: "js_object_set J (jobj J kvs) k (Some v) = jobj J (kvs @ [(k, v)])"
  by (simp add: jobj_def)

lemma jobj_get:
  assumes "json_laws J" "\<forall>k \<in> fst ` set kvs. js_utf8 J k"
  shows "js_typeof J (jobj J kvs) = JSON_OBJECT
    \<and> js_object_get J (Some (jobj J kvs)) k = map_of (rev kvs) k"
  using assms(2)
proof (induction kvs arbitrary: k rule: rev_induct)
  case Nil
  with assms(1) show ?case
    by (simp add: jobj_Nil json_laws_def object_laws_def)
next
  case (snoc kv kvs)
  obtain k1 v1 where kv: "kv = (k1, v1)" by force
  from snoc.prems kv have IH: "js_typeof J (jobj J kvs) = JSON_OBJECT"
      "\<And>k. js_object_get J (Some (jobj J kvs)) k = map_of (rev kvs) k" and u: "js_utf8 J k1"
    using snoc.IH by auto
  from assms(1) IH(1) u
  have "js_typeof J (js_object_set J (jobj J kvs) k1 (Some v1)) = JSON_OBJECT
      \<and> (\<forall>k'. js_object_get J (Some (js_object_set J (jobj J kvs) k1 (Some v1))) k'
            = (if k' = k1 then Some v1 else js_object_get J (Some (jobj J kvs)) k'))"
    unfolding json_laws_def object_laws_def by blast
  then show ?case
    by (simp add: kv IH(2) flip: jobj_snoc)
qed

text \<open>An array built from a list of values.\<close>

definition jarr :: "'j jansson \<Rightarrow> 'j list \<Rightarrow> 'j" where
  "jarr J vs = foldl (\<lambda>a v. js_array_append J a (Some v)) (js_array J) vs"

lemma jarr_snoc: "js_array_append J (jarr J vs) (Some v) = jarr J (vs @ [v])"
  by (simp add: jarr_def)

lemma jarr_elems:
  assumes "json_laws J"
  shows "js_typeof J (jarr J vs) = JSON_ARRAY \<and> js_elems J (jarr J vs) = vs"
proof (induction vs rule: rev_induct)
  case Nil
  with assms show ?case by (simp add: jarr_def json_laws_def array_laws_def)
next
  case (snoc v vs)
  with assms show ?case by (simp add: json_laws_def array_laws_def flip: jarr_snoc)
qed

lemmas json_rules =
  js_typeof_null js_typeof_integer js_integer_value_integer js_string_NULL js_string_utf8
  js_object_set_None

section \<open>A model of the laws\<close>

text \<open>Trees of values, on which the theorems that assume the laws are instantiated.\<close>

datatype json =
    JObject "(string \<times> json) list" | JArray "json list" | JString string | JInteger int | JNull

definition tree_get :: "json option \<Rightarrow> string \<Rightarrow> json option" where
  "tree_get j k = (case j of Some (JObject kvs) \<Rightarrow> map_of kvs k | _ \<Rightarrow> None)"

definition tree_type :: "json \<Rightarrow> json_type" where
  "tree_type j = (case j of JObject _ \<Rightarrow> JSON_OBJECT | JArray _ \<Rightarrow> JSON_ARRAY | JString _ \<Rightarrow> JSON_STRING
     | JInteger _ \<Rightarrow> JSON_INTEGER | JNull \<Rightarrow> JSON_NULL)"

definition tree_base :: "json jansson" where
  "tree_base =
    \<lparr>js_utf8 = \<lambda>s. True, js_typeof = tree_type, js_null = JNull, js_string = map_option JString,
     js_string_value = \<lambda>j. case j of JString s \<Rightarrow> Some s | _ \<Rightarrow> None,
     js_integer = JInteger, js_integer_value = \<lambda>j. case j of JInteger i \<Rightarrow> i | _ \<Rightarrow> 0,
     js_object = JObject [], js_object_get = tree_get,
     js_object_set = \<lambda>obj k v. case (obj, v) of (JObject kvs, Some x) \<Rightarrow> JObject ((k, x) # kvs) | _ \<Rightarrow> obj,
     js_array = JArray [],
     js_array_append = \<lambda>a v. case (a, v) of (JArray vs, Some x) \<Rightarrow> JArray (vs @ [x]) | _ \<Rightarrow> a,
     js_elems = \<lambda>j. case j of JArray vs \<Rightarrow> vs | _ \<Rightarrow> [],
     js_pack = \<lambda>fmt. None, js_unpack = \<lambda>j fmt. None,
     js_dump = map_option (\<lambda>j. [''{}'']), js_loadb = \<lambda>s. None\<rparr>"

definition json_tree :: "json jansson" where
  "json_tree = tree_base\<lparr>js_pack := pack_object tree_base, js_unpack := unpack_fields tree_base\<rparr>"

lemma tree_same:
  "js_object_set json_tree = js_object_set tree_base" "js_object json_tree = js_object tree_base"
  "js_object_get json_tree = js_object_get tree_base" "js_typeof json_tree = js_typeof tree_base"
  "js_string_value json_tree = js_string_value tree_base" "js_string json_tree = js_string tree_base"
  "js_integer json_tree = js_integer tree_base"
  "js_integer_value json_tree = js_integer_value tree_base"
  by (simp_all add: json_tree_def)

lemma json_tree_simps [simp]:
  "js_utf8 json_tree s" "js_typeof json_tree = tree_type" "js_null json_tree = JNull"
  "js_string json_tree = map_option JString" "js_integer json_tree = JInteger"
  "js_string_value json_tree j = (case j of JString s \<Rightarrow> Some s | _ \<Rightarrow> None)"
  "js_integer_value json_tree j = (case j of JInteger i \<Rightarrow> i | _ \<Rightarrow> 0)"
  "js_object json_tree = JObject []" "js_object_get json_tree = tree_get"
  "js_object_set json_tree obj k v
    = (case (obj, v) of (JObject kvs, Some x) \<Rightarrow> JObject ((k, x) # kvs) | _ \<Rightarrow> obj)"
  "js_array json_tree = JArray []"
  "js_array_append json_tree a v = (case (a, v) of (JArray vs, Some x) \<Rightarrow> JArray (vs @ [x]) | _ \<Rightarrow> a)"
  "js_elems json_tree j = (case j of JArray vs \<Rightarrow> vs | _ \<Rightarrow> [])"
  "js_dump json_tree = map_option (\<lambda>j. [''{}''])"
  by (simp_all add: json_tree_def tree_base_def)

lemma tree_type_eq:
  "tree_type j = JSON_OBJECT \<longleftrightarrow> (\<exists>kvs. j = JObject kvs)"
  "tree_type j = JSON_ARRAY \<longleftrightarrow> (\<exists>vs. j = JArray vs)"
  "tree_type j = JSON_STRING \<longleftrightarrow> (\<exists>s. j = JString s)"
  "tree_type j = JSON_INTEGER \<longleftrightarrow> (\<exists>i. j = JInteger i)"
  "tree_type j = JSON_NULL \<longleftrightarrow> j = JNull"
  by (simp_all add: tree_type_def split: json.splits)

lemma tree_get_simps [simp]:
  "tree_get None k = None" "tree_get (Some (JObject kvs)) k = map_of kvs k"
  by (simp_all add: tree_get_def)

lemma pack_value_tree: "pack_value json_tree = pack_value tree_base"
  unfolding pack_value_def tree_same ..

lemma pack_object_tree: "pack_object json_tree = pack_object tree_base"
  unfolding pack_object_def pack_value_tree tree_same ..

lemma unpack_value_tree: "unpack_value json_tree = unpack_value tree_base"
  unfolding unpack_value_def tree_same ..

lemma unpack_fields_tree: "unpack_fields json_tree obj fmt = unpack_fields tree_base obj fmt"
proof (induction fmt)
  case (Cons f fmt)
  obtain k kind opt where f: "f = (k, kind, opt)" by (cases f)
  show ?case
    unfolding f unpack_fields.simps unpack_value_tree tree_same Cons.IH ..
qed simp

lemma json_tree_laws: "json_laws json_tree"
proof -
  have "object_laws json_tree"
    unfolding object_laws_def by (auto simp: tree_type_eq tree_get_def split: json.splits option.splits)
  moreover have "array_laws json_tree"
    unfolding array_laws_def by (auto simp: tree_type_eq)
  moreover have "scalar_laws json_tree"
    unfolding scalar_laws_def by (auto simp: tree_type_eq)
  moreover have "js_pack json_tree fmt = pack_object json_tree fmt" for fmt
    unfolding pack_object_tree by (simp add: json_tree_def)
  moreover have "js_unpack json_tree obj fmt = unpack_fields json_tree obj fmt" for obj fmt
    unfolding unpack_fields_tree by (simp add: json_tree_def)
  ultimately show ?thesis
    unfolding json_laws_def by simp
qed

end
