(* ===== verification/Marshall.thy ===== *)
theory Marshall
  imports Json Event Module
begin

text \<open>
  The conversion of events, reports of the modules and parameters of remote calls to and from JSON:
  \<open>librpc/jrpc/marshall.c\<close>, the code generation macros of \<open>libjrpc/marshall.h\<close> and the
  declarations of \<open>rpc/rpcdefs.h\<close>, which expand to one function per structure. Each macro is a
  definition, and each generated function a definition that lists its fields as the declaration
  does. An error code is an \<open>Inl\<close>; \<open>None\<close> is an undefined behaviour.
\<close>

section \<open>Error codes\<close>

definition JRPC_OK :: int where "JRPC_OK = 0"
definition JRPC_EOF :: int where "JRPC_EOF = 1"
definition JRPC_ERR_PARSE_ERROR :: int where "JRPC_ERR_PARSE_ERROR = -32700"
definition JRPC_ERR_INVALID_REQUEST :: int where "JRPC_ERR_INVALID_REQUEST = -32600"
definition JRPC_ERR_METHOD_NOT_FOUND :: int where "JRPC_ERR_METHOD_NOT_FOUND = -32601"
definition JRPC_ERR_INTERNAL_ERROR :: int where "JRPC_ERR_INTERNAL_ERROR = -32603"
definition JRPC_ERR_MARSHALL_FIELD_NOT_FOUND :: int where "JRPC_ERR_MARSHALL_FIELD_NOT_FOUND = -32099"
definition JRPC_ERR_MARSHALL_TYPE_MISMATCH :: int where "JRPC_ERR_MARSHALL_TYPE_MISMATCH = -32098"
definition JRPC_ERR_MARSHALL_INVALID_ENUM_STRING :: int where "JRPC_ERR_MARSHALL_INVALID_ENUM_STRING = -32097"
definition JRPC_ERR_MARSHALL_INVALID_ENUM_VALUE :: int where "JRPC_ERR_MARSHALL_INVALID_ENUM_VALUE = -32096"
definition JRPC_ERR_INVALID_RESPONSE_ID :: int where "JRPC_ERR_INVALID_RESPONSE_ID = -32089"
definition JRPC_ERR_INVALID_RESPONSE :: int where "JRPC_ERR_INVALID_RESPONSE = -32088"
definition JRPC_ERR_METHOD_ERROR :: int where "JRPC_ERR_METHOD_ERROR = -30000"

lemmas jrpc_status_defs =
  JRPC_OK_def JRPC_EOF_def JRPC_ERR_PARSE_ERROR_def JRPC_ERR_INVALID_REQUEST_def
  JRPC_ERR_METHOD_NOT_FOUND_def JRPC_ERR_INTERNAL_ERROR_def JRPC_ERR_MARSHALL_FIELD_NOT_FOUND_def
  JRPC_ERR_MARSHALL_TYPE_MISMATCH_def JRPC_ERR_MARSHALL_INVALID_ENUM_STRING_def
  JRPC_ERR_MARSHALL_INVALID_ENUM_VALUE_def JRPC_ERR_INVALID_RESPONSE_ID_def
  JRPC_ERR_INVALID_RESPONSE_def JRPC_ERR_METHOD_ERROR_def

text \<open>\<open>E & 0xff\<close> on a two's complement integer is the remainder modulo 256.\<close>

definition JRPC_ERR_METHOD_TO_CODE :: "int \<Rightarrow> int" where
  "JRPC_ERR_METHOD_TO_CODE e = JRPC_ERR_METHOD_ERROR + e mod 256"

definition JRPC_ERR_CODE_TO_METHOD :: "int \<Rightarrow> int" where
  "JRPC_ERR_CODE_TO_METHOD c = (c - JRPC_ERR_METHOD_ERROR) mod 256"

definition JRPC_ERR_IS_METHOD_ERROR :: "int \<Rightarrow> bool" where
  "JRPC_ERR_IS_METHOD_ERROR c \<longleftrightarrow> JRPC_ERR_METHOD_ERROR < c \<and> c < JRPC_ERR_METHOD_ERROR + 256"

section \<open>Marshalling\<close>

type_synonym 'j marshalled = "(int + 'j option) option"

text \<open>
  \<open>MARSHALL_ENUM\<close> is the \<open>switch\<close> over the declared values; \<open>MARSHALL_STRUCT\<close> sets the fields
  one after the other and stops at the first that fails.
\<close>

definition MARSHALL_ENUM :: "'j jansson \<Rightarrow> (string \<times> 'e) list \<Rightarrow> 'e \<Rightarrow> 'j marshalled" where
  "MARSHALL_ENUM J values v =
    (case find (\<lambda>(name, x). x = v) values of
       Some (name, _) \<Rightarrow> Some (Inr (js_string J (Some name)))
     | None \<Rightarrow> Some (Inl JRPC_ERR_MARSHALL_INVALID_ENUM_VALUE))"

definition MARSHALL_INT :: "'j jansson \<Rightarrow> int \<Rightarrow> 'j marshalled" where
  "MARSHALL_INT J v = Some (Inr (Some (js_integer J (to_int64 v))))"

definition MARSHALL_STRING :: "'j jansson \<Rightarrow> cstr \<Rightarrow> 'j marshalled" where
  "MARSHALL_STRING J s = Some (Inr (js_string J s))"

fun marshall_fields :: "'j jansson \<Rightarrow> 'j \<Rightarrow> (string \<times> 'j marshalled) list \<Rightarrow> 'j marshalled" where
  "marshall_fields J obj [] = Some (Inr (Some obj))"
| "marshall_fields J obj ((name, r) # flds) =
    (case r of
       None \<Rightarrow> None
     | Some (Inl ret) \<Rightarrow> Some (Inl ret)
     | Some (Inr field) \<Rightarrow> marshall_fields J (js_object_set J obj name field) flds)"

definition MARSHALL_STRUCT :: "'j jansson \<Rightarrow> (string \<times> 'j marshalled) list \<Rightarrow> 'j marshalled" where
  "MARSHALL_STRUCT J flds = marshall_fields J (js_object J) flds"

fun marshall_elems :: "'j jansson \<Rightarrow> ('s \<Rightarrow> 'j marshalled) \<Rightarrow> 'j \<Rightarrow> 's list \<Rightarrow> 'j marshalled" where
  "marshall_elems J marshall_elem_cb obj [] = Some (Inr (Some obj))"
| "marshall_elems J marshall_elem_cb obj (p # ps) =
    (case marshall_elem_cb p of
       None \<Rightarrow> None
     | Some (Inl ret) \<Rightarrow> Some (Inl ret)
     | Some (Inr elem) \<Rightarrow> marshall_elems J marshall_elem_cb (js_array_append J obj elem) ps)"

definition jrpc_marshall_array ::
  "'j jansson \<Rightarrow> 's list option \<Rightarrow> ('s \<Rightarrow> 'j marshalled) \<Rightarrow> 'j marshalled" where
  "jrpc_marshall_array J array marshall_elem_cb = (case array of
       None \<Rightarrow> Some (Inr (Some (js_null J)))
     | Some ps \<Rightarrow> marshall_elems J marshall_elem_cb (js_array J) ps)"

section \<open>Unmarshalling\<close>

type_synonym 'a unmarshalled = "(int + 'a) option"

text \<open>The next statement of a generated function, or \<open>goto error_end\<close>.\<close>

definition ubind :: "'a unmarshalled \<Rightarrow> ('a \<Rightarrow> 'b unmarshalled) \<Rightarrow> 'b unmarshalled" where
  "ubind r f = (case r of None \<Rightarrow> None | Some (Inl ret) \<Rightarrow> Some (Inl ret) | Some (Inr x) \<Rightarrow> f x)"

definition jrpc_unmarshall_field ::
  "'j jansson \<Rightarrow> 'j option \<Rightarrow> string \<Rightarrow> json_type \<Rightarrow> bool \<Rightarrow> int + 'j" where
  "jrpc_unmarshall_field J obj name expected allow_null =
    (case js_object_get J obj name of
       None \<Rightarrow> Inl JRPC_ERR_MARSHALL_FIELD_NOT_FOUND
     | Some field \<Rightarrow>
         if allow_null \<and> js_typeof J field = JSON_NULL then Inr field
         else if js_typeof J field \<noteq> expected then Inl JRPC_ERR_MARSHALL_TYPE_MISMATCH
         else Inr field)"

definition UNMARSHALL_INT :: "'j jansson \<Rightarrow> 'j option \<Rightarrow> string \<Rightarrow> (int \<Rightarrow> 'a) \<Rightarrow> 'a unmarshalled" where
  "UNMARSHALL_INT J obj name int_type =
    ubind (Some (jrpc_unmarshall_field J obj name JSON_INTEGER False))
      (\<lambda>field. Some (Inr (int_type (js_integer_value J field))))"

definition UNMARSHALL_STRING :: "'j jansson \<Rightarrow> 'j option \<Rightarrow> string \<Rightarrow> cstr unmarshalled" where
  "UNMARSHALL_STRING J obj name =
    ubind (Some (jrpc_unmarshall_field J obj name JSON_STRING False))
      (\<lambda>field. map_option Inr (os_strdup (js_string_value J field)))"

text \<open>\<open>strcmp\<close> with the text of a value that is not a string dereferences NULL.\<close>

definition unmarshall_enum :: "'j jansson \<Rightarrow> (string \<times> 'e) list \<Rightarrow> 'j \<Rightarrow> 'e unmarshalled" where
  "unmarshall_enum J values obj =
    (case js_string_value J obj of
       None \<Rightarrow> None
     | Some enum_string \<Rightarrow>
       (case map_of values enum_string of
          Some v \<Rightarrow> Some (Inr v)
        | None \<Rightarrow> Some (Inl JRPC_ERR_MARSHALL_INVALID_ENUM_STRING)))"

definition UNMARSHALL_ENUM ::
  "'j jansson \<Rightarrow> 'j option \<Rightarrow> string \<Rightarrow> (string \<times> 'e) list \<Rightarrow> 'e unmarshalled" where
  "UNMARSHALL_ENUM J obj name values =
    ubind (Some (jrpc_unmarshall_field J obj name JSON_STRING False)) (unmarshall_enum J values)"

fun unmarshall_elems :: "('j \<Rightarrow> 's unmarshalled) \<Rightarrow> 'j list \<Rightarrow> 's list unmarshalled" where
  "unmarshall_elems unmarshall_cb [] = Some (Inr [])"
| "unmarshall_elems unmarshall_cb (elem # elems) =
    ubind (unmarshall_cb elem) (\<lambda>p.
    ubind (unmarshall_elems unmarshall_cb elems) (\<lambda>ps.
    Some (Inr (p # ps))))"

definition jrpc_unmarshall_array ::
  "'j jansson \<Rightarrow> 'j \<Rightarrow> ('j \<Rightarrow> 's unmarshalled) \<Rightarrow> 's list option unmarshalled" where
  "jrpc_unmarshall_array J obj unmarshall_cb =
    (if js_typeof J obj = JSON_NULL then Some (Inr None)
     else ubind (unmarshall_elems unmarshall_cb (js_elems J obj)) (\<lambda>array. Some (Inr (Some array))))"

definition UNMARSHALL_PTR_ARRAY ::
  "'j jansson \<Rightarrow> 'j option \<Rightarrow> string \<Rightarrow> ('j option \<Rightarrow> 's unmarshalled) \<Rightarrow> 's list option unmarshalled" where
  "UNMARSHALL_PTR_ARRAY J obj name unmarshall_struct =
    ubind (Some (jrpc_unmarshall_field J obj name JSON_ARRAY True))
      (\<lambda>field. jrpc_unmarshall_array J field (\<lambda>elem. unmarshall_struct (Some elem)))"

definition UNMARSHALL_UNION_STRUCT ::
  "'j jansson \<Rightarrow> 'j option \<Rightarrow> string \<Rightarrow> ('j option \<Rightarrow> 's unmarshalled) \<Rightarrow> ('s \<Rightarrow> 'u) \<Rightarrow> 'u unmarshalled" where
  "UNMARSHALL_UNION_STRUCT J obj name unmarshall_struct member =
    ubind (Some (jrpc_unmarshall_field J obj name JSON_OBJECT False)) (\<lambda>field.
    ubind (unmarshall_struct (Some field)) (\<lambda>s. Some (Inr (member s))))"

text \<open>\<open>JRPC_JSON2STRUCT\<close>: a JSON null gives a NULL pointer and no error.\<close>

definition jrpc_unmarshall_struct_ptr ::
  "'j jansson \<Rightarrow> 'j option \<Rightarrow> ('j option \<Rightarrow> 's unmarshalled) \<Rightarrow> 's option unmarshalled" where
  "jrpc_unmarshall_struct_ptr J obj unmarshall_cb =
    (if json_is J JSON_NULL obj then Some (Inr None)
     else ubind (unmarshall_cb obj) (\<lambda>s. Some (Inr (Some s))))"

section \<open>The enumerations\<close>

definition enum_a6o_file_status :: "(string \<times> a6o_file_status) list" where
  "enum_a6o_file_status =
    [(''A6O_FILE_UNDECIDED'', A6O_FILE_UNDECIDED), (''A6O_FILE_CLEAN'', A6O_FILE_CLEAN),
     (''A6O_FILE_UNKNOWN_TYPE'', A6O_FILE_UNKNOWN_TYPE), (''A6O_FILE_EINVAL'', A6O_FILE_EINVAL),
     (''A6O_FILE_IERROR'', A6O_FILE_IERROR), (''A6O_FILE_SUSPICIOUS'', A6O_FILE_SUSPICIOUS),
     (''A6O_FILE_WHITE_LISTED'', A6O_FILE_WHITE_LISTED), (''A6O_FILE_MALWARE'', A6O_FILE_MALWARE)]"

definition enum_a6o_update_status :: "(string \<times> a6o_update_status) list" where
  "enum_a6o_update_status =
    [(''A6O_UPDATE_OK'', A6O_UPDATE_OK), (''A6O_UPDATE_LATE'', A6O_UPDATE_LATE),
     (''A6O_UPDATE_CRITICAL'', A6O_UPDATE_CRITICAL),
     (''A6O_UPDATE_NON_AVAILABLE'', A6O_UPDATE_NON_AVAILABLE)]"

definition enum_a6o_action :: "(string \<times> u32) list" where
  "enum_a6o_action =
    [(''A6O_ACTION_NONE'', A6O_ACTION_NONE), (''A6O_ACTION_ALERT'', A6O_ACTION_ALERT),
     (''A6O_ACTION_QUARANTINE'', A6O_ACTION_QUARANTINE), (''A6O_ACTION_REMOVE'', A6O_ACTION_REMOVE)]"

definition enum_a6o_event_type :: "(string \<times> u32) list" where
  "enum_a6o_event_type =
    [(''EVENT_DETECTION'', EVENT_DETECTION), (''EVENT_ON_DEMAND_START'', EVENT_ON_DEMAND_START),
     (''EVENT_ON_DEMAND_COMPLETED'', EVENT_ON_DEMAND_COMPLETED),
     (''EVENT_ON_DEMAND_PROGRESS'', EVENT_ON_DEMAND_PROGRESS), (''EVENT_QUARANTINE'', EVENT_QUARANTINE),
     (''EVENT_REAL_TIME_PROT'', EVENT_REAL_TIME_PROT), (''EVENT_AV_UPDATE'', EVENT_AV_UPDATE)]"

definition enum_a6o_detection_context :: "(string \<times> a6o_detection_context) list" where
  "enum_a6o_detection_context =
    [(''CONTEXT_REAL_TIME'', CONTEXT_REAL_TIME), (''CONTEXT_ON_DEMAND'', CONTEXT_ON_DEMAND)]"

definition enum_a6o_quarantine_action :: "(string \<times> a6o_quarantine_action) list" where
  "enum_a6o_quarantine_action =
    [(''QUARANTINE_ENTER'', QUARANTINE_ENTER), (''QUARANTINE_EXIT'', QUARANTINE_EXIT)]"

lemmas enum_defs =
  enum_a6o_file_status_def enum_a6o_update_status_def enum_a6o_action_def enum_a6o_event_type_def
  enum_a6o_detection_context_def enum_a6o_quarantine_action_def

section \<open>Information on modules and databases\<close>

definition jrpc_marshall_struct_a6o_base_info :: "'j jansson \<Rightarrow> a6o_base_info \<Rightarrow> 'j marshalled" where
  "jrpc_marshall_struct_a6o_base_info J s = MARSHALL_STRUCT J
    [(''name'', MARSHALL_STRING J (bi_name s)),
     (''base_update_ts'', MARSHALL_INT J (bi_base_update_ts s)),
     (''version'', MARSHALL_STRING J (bi_version s)),
     (''signature_count'', MARSHALL_INT J (int (bi_signature_count s))),
     (''full_path'', MARSHALL_STRING J (bi_full_path s))]"

definition jrpc_marshall_struct_a6o_module_info :: "'j jansson \<Rightarrow> a6o_module_info \<Rightarrow> 'j marshalled" where
  "jrpc_marshall_struct_a6o_module_info J s = MARSHALL_STRUCT J
    [(''name'', MARSHALL_STRING J (mi_name s)),
     (''mod_status'', MARSHALL_ENUM J enum_a6o_update_status (mi_mod_status s)),
     (''mod_update_ts'', MARSHALL_INT J (mi_mod_update_ts s)),
     (''base_infos'', jrpc_marshall_array J (mi_base_infos s) (jrpc_marshall_struct_a6o_base_info J))]"

definition jrpc_marshall_struct_a6o_info :: "'j jansson \<Rightarrow> a6o_info \<Rightarrow> 'j marshalled" where
  "jrpc_marshall_struct_a6o_info J s = MARSHALL_STRUCT J
    [(''antivirus_version'', MARSHALL_STRING J (Some (inf_antivirus_version s))),
     (''global_status'', MARSHALL_ENUM J enum_a6o_update_status (inf_global_status s)),
     (''global_update_ts'', MARSHALL_INT J (inf_global_update_ts s)),
     (''module_infos'', jrpc_marshall_array J (Some (inf_module_infos s)) (jrpc_marshall_struct_a6o_module_info J))]"

definition jrpc_unmarshall_struct_a6o_base_info :: "'j jansson \<Rightarrow> 'j option \<Rightarrow> a6o_base_info unmarshalled" where
  "jrpc_unmarshall_struct_a6o_base_info J obj =
    ubind (UNMARSHALL_STRING J obj ''name'') (\<lambda>name.
    ubind (UNMARSHALL_INT J obj ''base_update_ts'' id) (\<lambda>ts.
    ubind (UNMARSHALL_STRING J obj ''version'') (\<lambda>version.
    ubind (UNMARSHALL_INT J obj ''signature_count'' to_size_t) (\<lambda>n.
    ubind (UNMARSHALL_STRING J obj ''full_path'') (\<lambda>path.
    Some (Inr \<lparr>bi_name = name, bi_base_update_ts = ts, bi_version = version, bi_signature_count = n,
               bi_full_path = path\<rparr>))))))"

definition jrpc_unmarshall_struct_a6o_module_info ::
  "'j jansson \<Rightarrow> 'j option \<Rightarrow> a6o_module_info unmarshalled" where
  "jrpc_unmarshall_struct_a6o_module_info J obj =
    ubind (UNMARSHALL_STRING J obj ''name'') (\<lambda>name.
    ubind (UNMARSHALL_ENUM J obj ''mod_status'' enum_a6o_update_status) (\<lambda>st.
    ubind (UNMARSHALL_INT J obj ''mod_update_ts'' id) (\<lambda>ts.
    ubind (UNMARSHALL_PTR_ARRAY J obj ''base_infos'' (jrpc_unmarshall_struct_a6o_base_info J)) (\<lambda>bases.
    Some (Inr \<lparr>mi_name = name, mi_mod_status = st, mi_mod_update_ts = ts, mi_base_infos = bases\<rparr>)))))"

text \<open>
  The information on the client's side, where the version and the array may be NULL pointers.
\<close>

record a6o_info_ptr =
  ip_antivirus_version :: cstr
  ip_global_status :: a6o_update_status
  ip_global_update_ts :: int
  ip_module_infos :: "a6o_module_info list option"

definition jrpc_unmarshall_struct_a6o_info :: "'j jansson \<Rightarrow> 'j option \<Rightarrow> a6o_info_ptr unmarshalled" where
  "jrpc_unmarshall_struct_a6o_info J obj =
    ubind (UNMARSHALL_STRING J obj ''antivirus_version'') (\<lambda>version.
    ubind (UNMARSHALL_ENUM J obj ''global_status'' enum_a6o_update_status) (\<lambda>st.
    ubind (UNMARSHALL_INT J obj ''global_update_ts'' id) (\<lambda>ts.
    ubind (UNMARSHALL_PTR_ARRAY J obj ''module_infos'' (jrpc_unmarshall_struct_a6o_module_info J)) (\<lambda>mods.
    Some (Inr \<lparr>ip_antivirus_version = version, ip_global_status = st, ip_global_update_ts = ts,
               ip_module_infos = mods\<rparr>)))))"

section \<open>Events\<close>

definition jrpc_marshall_struct_a6o_detection_event ::
  "'j jansson \<Rightarrow> a6o_detection_event \<Rightarrow> 'j marshalled" where
  "jrpc_marshall_struct_a6o_detection_event J s = MARSHALL_STRUCT J
    [(''context'', MARSHALL_ENUM J enum_a6o_detection_context (det_context s)),
     (''scan_id'', MARSHALL_INT J (det_scan_id s)),
     (''path'', MARSHALL_STRING J (det_path s)),
     (''scan_status'', MARSHALL_ENUM J enum_a6o_file_status (det_scan_status s)),
     (''scan_action'', MARSHALL_ENUM J enum_a6o_action (det_scan_action s)),
     (''module_name'', MARSHALL_STRING J (det_module_name s)),
     (''module_report'', MARSHALL_STRING J (det_module_report s))]"

definition jrpc_marshall_struct_a6o_on_demand_start_event ::
  "'j jansson \<Rightarrow> a6o_on_demand_start_event \<Rightarrow> 'j marshalled" where
  "jrpc_marshall_struct_a6o_on_demand_start_event J s = MARSHALL_STRUCT J
    [(''root_path'', MARSHALL_STRING J (sta_root_path s)),
     (''scan_id'', MARSHALL_INT J (sta_scan_id s))]"

definition jrpc_marshall_struct_a6o_on_demand_completed_event ::
  "'j jansson \<Rightarrow> a6o_on_demand_completed_event \<Rightarrow> 'j marshalled" where
  "jrpc_marshall_struct_a6o_on_demand_completed_event J s = MARSHALL_STRUCT J
    [(''scan_id'', MARSHALL_INT J (cmpl_scan_id s)),
     (''cancelled'', MARSHALL_INT J (cmpl_cancelled s)),
     (''total_malware_count'', MARSHALL_INT J (int (cmpl_total_malware_count s))),
     (''total_suspicious_count'', MARSHALL_INT J (int (cmpl_total_suspicious_count s))),
     (''total_scanned_count'', MARSHALL_INT J (int (cmpl_total_scanned_count s))),
     (''duration'', MARSHALL_INT J (cmpl_duration s))]"

definition jrpc_marshall_struct_a6o_on_demand_progress_event ::
  "'j jansson \<Rightarrow> a6o_on_demand_progress_event \<Rightarrow> 'j marshalled" where
  "jrpc_marshall_struct_a6o_on_demand_progress_event J s = MARSHALL_STRUCT J
    [(''scan_id'', MARSHALL_INT J (prg_scan_id s)),
     (''progress'', MARSHALL_INT J (prg_progress s)),
     (''path'', MARSHALL_STRING J (prg_path s)),
     (''malware_count'', MARSHALL_INT J (int (prg_malware_count s))),
     (''suspicious_count'', MARSHALL_INT J (int (prg_suspicious_count s))),
     (''scanned_count'', MARSHALL_INT J (int (prg_scanned_count s)))]"

definition jrpc_marshall_struct_a6o_quarantine_event ::
  "'j jansson \<Rightarrow> a6o_quarantine_event \<Rightarrow> 'j marshalled" where
  "jrpc_marshall_struct_a6o_quarantine_event J s = MARSHALL_STRUCT J
    [(''quarantine_action'', MARSHALL_ENUM J enum_a6o_quarantine_action (qua_quarantine_action s)),
     (''orig_path'', MARSHALL_STRING J (qua_orig_path s)),
     (''quarantine_path'', MARSHALL_STRING J (qua_quarantine_path s))]"

definition jrpc_marshall_struct_a6o_real_time_prot_event :: "'j jansson \<Rightarrow> int \<Rightarrow> 'j marshalled" where
  "jrpc_marshall_struct_a6o_real_time_prot_event J new_state = MARSHALL_STRUCT J
    [(''rt_prot_new_state'', MARSHALL_INT J new_state)]"

text \<open>The only field of the update event is never set: \<open>a6o_event_new\<close> leaves it uninitialised.\<close>

definition jrpc_marshall_struct_a6o_av_update_event :: "'j jansson \<Rightarrow> 'j marshalled" where
  "jrpc_marshall_struct_a6o_av_update_event J = MARSHALL_STRUCT J [(''foo'', None)]"

text \<open>The tag always names the member that is set, so the two are read from the same value.\<close>

definition jrpc_marshall_union_a6o_event_union :: "'j jansson \<Rightarrow> a6o_event_union \<Rightarrow> 'j marshalled" where
  "jrpc_marshall_union_a6o_event_union J u = MARSHALL_STRUCT J
    (case u of
       Ev_detection e \<Rightarrow> [(''ev_detection'', jrpc_marshall_struct_a6o_detection_event J e)]
     | Ev_on_demand_start e \<Rightarrow>
         [(''ev_on_demand_start'', jrpc_marshall_struct_a6o_on_demand_start_event J e)]
     | Ev_on_demand_completed e \<Rightarrow>
         [(''ev_on_demand_completed'', jrpc_marshall_struct_a6o_on_demand_completed_event J e)]
     | Ev_on_demand_progress e \<Rightarrow>
         [(''ev_on_demand_progress'', jrpc_marshall_struct_a6o_on_demand_progress_event J e)]
     | Ev_quarantine e \<Rightarrow> [(''ev_quarantine'', jrpc_marshall_struct_a6o_quarantine_event J e)]
     | Ev_real_time_prot n \<Rightarrow> [(''ev_real_time_prot'', jrpc_marshall_struct_a6o_real_time_prot_event J n)]
     | Ev_av_update \<Rightarrow> [(''ev_av_update'', jrpc_marshall_struct_a6o_av_update_event J)])"

definition jrpc_marshall_struct_a6o_event :: "'j jansson \<Rightarrow> a6o_event \<Rightarrow> 'j marshalled" where
  "jrpc_marshall_struct_a6o_event J ev = MARSHALL_STRUCT J
    [(''timestamp'', MARSHALL_INT J (ev_timestamp ev)),
     (''type'', MARSHALL_ENUM J enum_a6o_event_type (ev_type (ev_u ev))),
     (''u'', jrpc_marshall_union_a6o_event_union J (ev_u ev))]"

text \<open>
  The declarations read the identifier of a scan as an \<open>unsigned int\<close>, although the structures
  hold a \<open>time_t\<close>.
\<close>

definition jrpc_unmarshall_struct_a6o_detection_event ::
  "'j jansson \<Rightarrow> 'j option \<Rightarrow> a6o_detection_event unmarshalled" where
  "jrpc_unmarshall_struct_a6o_detection_event J obj =
    ubind (UNMARSHALL_ENUM J obj ''context'' enum_a6o_detection_context) (\<lambda>ctx.
    ubind (UNMARSHALL_INT J obj ''scan_id'' to_uint32) (\<lambda>scan_id.
    ubind (UNMARSHALL_STRING J obj ''path'') (\<lambda>path.
    ubind (UNMARSHALL_ENUM J obj ''scan_status'' enum_a6o_file_status) (\<lambda>st.
    ubind (UNMARSHALL_ENUM J obj ''scan_action'' enum_a6o_action) (\<lambda>action.
    ubind (UNMARSHALL_STRING J obj ''module_name'') (\<lambda>name.
    ubind (UNMARSHALL_STRING J obj ''module_report'') (\<lambda>rep.
    Some (Inr \<lparr>det_context = ctx, det_scan_id = scan_id, det_path = path, det_scan_status = st,
               det_scan_action = action, det_module_name = name, det_module_report = rep\<rparr>))))))))"

definition jrpc_unmarshall_struct_a6o_on_demand_start_event ::
  "'j jansson \<Rightarrow> 'j option \<Rightarrow> a6o_on_demand_start_event unmarshalled" where
  "jrpc_unmarshall_struct_a6o_on_demand_start_event J obj =
    ubind (UNMARSHALL_STRING J obj ''root_path'') (\<lambda>root_path.
    ubind (UNMARSHALL_INT J obj ''scan_id'' to_uint32) (\<lambda>scan_id.
    Some (Inr \<lparr>sta_scan_id = scan_id, sta_root_path = root_path\<rparr>)))"

definition jrpc_unmarshall_struct_a6o_on_demand_completed_event ::
  "'j jansson \<Rightarrow> 'j option \<Rightarrow> a6o_on_demand_completed_event unmarshalled" where
  "jrpc_unmarshall_struct_a6o_on_demand_completed_event J obj =
    ubind (UNMARSHALL_INT J obj ''scan_id'' to_uint32) (\<lambda>scan_id.
    ubind (UNMARSHALL_INT J obj ''cancelled'' to_int32) (\<lambda>cancelled.
    ubind (UNMARSHALL_INT J obj ''total_malware_count'' to_size_t) (\<lambda>malware.
    ubind (UNMARSHALL_INT J obj ''total_suspicious_count'' to_size_t) (\<lambda>suspicious.
    ubind (UNMARSHALL_INT J obj ''total_scanned_count'' to_size_t) (\<lambda>scanned.
    ubind (UNMARSHALL_INT J obj ''duration'' id) (\<lambda>duration.
    Some (Inr \<lparr>cmpl_scan_id = scan_id, cmpl_cancelled = cancelled, cmpl_total_malware_count = malware,
               cmpl_total_suspicious_count = suspicious, cmpl_total_scanned_count = scanned,
               cmpl_duration = duration\<rparr>)))))))"

definition jrpc_unmarshall_struct_a6o_on_demand_progress_event ::
  "'j jansson \<Rightarrow> 'j option \<Rightarrow> a6o_on_demand_progress_event unmarshalled" where
  "jrpc_unmarshall_struct_a6o_on_demand_progress_event J obj =
    ubind (UNMARSHALL_INT J obj ''scan_id'' to_uint32) (\<lambda>scan_id.
    ubind (UNMARSHALL_INT J obj ''progress'' to_int32) (\<lambda>progress.
    ubind (UNMARSHALL_STRING J obj ''path'') (\<lambda>path.
    ubind (UNMARSHALL_INT J obj ''malware_count'' to_size_t) (\<lambda>malware.
    ubind (UNMARSHALL_INT J obj ''suspicious_count'' to_size_t) (\<lambda>suspicious.
    ubind (UNMARSHALL_INT J obj ''scanned_count'' to_size_t) (\<lambda>scanned.
    Some (Inr \<lparr>prg_scan_id = scan_id, prg_progress = progress, prg_path = path,
               prg_malware_count = malware, prg_suspicious_count = suspicious,
               prg_scanned_count = scanned\<rparr>)))))))"

definition jrpc_unmarshall_struct_a6o_quarantine_event ::
  "'j jansson \<Rightarrow> 'j option \<Rightarrow> a6o_quarantine_event unmarshalled" where
  "jrpc_unmarshall_struct_a6o_quarantine_event J obj =
    ubind (UNMARSHALL_ENUM J obj ''quarantine_action'' enum_a6o_quarantine_action) (\<lambda>action.
    ubind (UNMARSHALL_STRING J obj ''orig_path'') (\<lambda>orig.
    ubind (UNMARSHALL_STRING J obj ''quarantine_path'') (\<lambda>qpath.
    Some (Inr \<lparr>qua_quarantine_action = action, qua_orig_path = orig, qua_quarantine_path = qpath\<rparr>))))"

definition jrpc_unmarshall_struct_a6o_real_time_prot_event ::
  "'j jansson \<Rightarrow> 'j option \<Rightarrow> int unmarshalled" where
  "jrpc_unmarshall_struct_a6o_real_time_prot_event J obj =
    UNMARSHALL_INT J obj ''rt_prot_new_state'' to_int32"

definition jrpc_unmarshall_struct_a6o_av_update_event :: "'j jansson \<Rightarrow> 'j option \<Rightarrow> int unmarshalled" where
  "jrpc_unmarshall_struct_a6o_av_update_event J obj = UNMARSHALL_INT J obj ''foo'' to_int32"

text \<open>The tag was read with \<open>enum_a6o_event_type\<close>, so it is one of the seven types.\<close>

definition jrpc_unmarshall_union_a6o_event_union ::
  "'j jansson \<Rightarrow> 'j option \<Rightarrow> u32 \<Rightarrow> a6o_event_union unmarshalled" where
  "jrpc_unmarshall_union_a6o_event_union J obj tag =
    (if tag = EVENT_DETECTION
     then UNMARSHALL_UNION_STRUCT J obj ''ev_detection'' (jrpc_unmarshall_struct_a6o_detection_event J) Ev_detection
     else if tag = EVENT_ON_DEMAND_START
     then UNMARSHALL_UNION_STRUCT J obj ''ev_on_demand_start''
            (jrpc_unmarshall_struct_a6o_on_demand_start_event J) Ev_on_demand_start
     else if tag = EVENT_ON_DEMAND_COMPLETED
     then UNMARSHALL_UNION_STRUCT J obj ''ev_on_demand_completed''
            (jrpc_unmarshall_struct_a6o_on_demand_completed_event J) Ev_on_demand_completed
     else if tag = EVENT_ON_DEMAND_PROGRESS
     then UNMARSHALL_UNION_STRUCT J obj ''ev_on_demand_progress''
            (jrpc_unmarshall_struct_a6o_on_demand_progress_event J) Ev_on_demand_progress
     else if tag = EVENT_QUARANTINE
     then UNMARSHALL_UNION_STRUCT J obj ''ev_quarantine''
            (jrpc_unmarshall_struct_a6o_quarantine_event J) Ev_quarantine
     else if tag = EVENT_REAL_TIME_PROT
     then UNMARSHALL_UNION_STRUCT J obj ''ev_real_time_prot''
            (jrpc_unmarshall_struct_a6o_real_time_prot_event J) Ev_real_time_prot
     else UNMARSHALL_UNION_STRUCT J obj ''ev_av_update''
            (jrpc_unmarshall_struct_a6o_av_update_event J) (\<lambda>_. Ev_av_update))"

definition UNMARSHALL_UNION ::
  "'j jansson \<Rightarrow> 'j option \<Rightarrow> string \<Rightarrow> ('j option \<Rightarrow> u32 \<Rightarrow> 'u unmarshalled) \<Rightarrow> u32 \<Rightarrow> 'u unmarshalled" where
  "UNMARSHALL_UNION J obj name unmarshall_union tag =
    ubind (Some (jrpc_unmarshall_field J obj name JSON_OBJECT False))
      (\<lambda>field. unmarshall_union (Some field) tag)"

definition jrpc_unmarshall_struct_a6o_event :: "'j jansson \<Rightarrow> 'j option \<Rightarrow> a6o_event unmarshalled" where
  "jrpc_unmarshall_struct_a6o_event J obj =
    ubind (UNMARSHALL_INT J obj ''timestamp'' id) (\<lambda>ts.
    ubind (UNMARSHALL_ENUM J obj ''type'' enum_a6o_event_type) (\<lambda>tag.
    ubind (UNMARSHALL_UNION J obj ''u'' (jrpc_unmarshall_union_a6o_event_union J) tag) (\<lambda>u.
    Some (Inr \<lparr>ev_timestamp = ts, ev_u = u\<rparr>))))"

section \<open>Parameters of the remote calls\<close>

record a6o_rpc_scan_param =
  sp_root_path :: cstr
  sp_send_progress :: int
  sp_recursive :: int
  sp_threaded :: int
  sp_scan_id :: int

record a6o_rpc_listen_param =
  lp_detection :: int
  lp_on_demand :: int
  lp_on_demand_progress :: int
  lp_quarantine :: int
  lp_real_time_prot :: int
  lp_av_update :: int

definition jrpc_marshall_struct_a6o_rpc_scan_param :: "'j jansson \<Rightarrow> a6o_rpc_scan_param \<Rightarrow> 'j marshalled" where
  "jrpc_marshall_struct_a6o_rpc_scan_param J s = MARSHALL_STRUCT J
    [(''root_path'', MARSHALL_STRING J (sp_root_path s)),
     (''send_progress'', MARSHALL_INT J (sp_send_progress s)),
     (''recursive'', MARSHALL_INT J (sp_recursive s)),
     (''threaded'', MARSHALL_INT J (sp_threaded s)),
     (''scan_id'', MARSHALL_INT J (sp_scan_id s))]"

definition jrpc_unmarshall_struct_a6o_rpc_scan_param ::
  "'j jansson \<Rightarrow> 'j option \<Rightarrow> a6o_rpc_scan_param unmarshalled" where
  "jrpc_unmarshall_struct_a6o_rpc_scan_param J obj =
    ubind (UNMARSHALL_STRING J obj ''root_path'') (\<lambda>root_path.
    ubind (UNMARSHALL_INT J obj ''send_progress'' to_int32) (\<lambda>send_progress.
    ubind (UNMARSHALL_INT J obj ''recursive'' to_int32) (\<lambda>recursive.
    ubind (UNMARSHALL_INT J obj ''threaded'' to_int32) (\<lambda>threaded.
    ubind (UNMARSHALL_INT J obj ''scan_id'' id) (\<lambda>scan_id.
    Some (Inr \<lparr>sp_root_path = root_path, sp_send_progress = send_progress, sp_recursive = recursive,
               sp_threaded = threaded, sp_scan_id = scan_id\<rparr>))))))"

definition jrpc_marshall_struct_a6o_rpc_listen_param ::
  "'j jansson \<Rightarrow> a6o_rpc_listen_param \<Rightarrow> 'j marshalled" where
  "jrpc_marshall_struct_a6o_rpc_listen_param J s = MARSHALL_STRUCT J
    [(''detection'', MARSHALL_INT J (lp_detection s)),
     (''on_demand'', MARSHALL_INT J (lp_on_demand s)),
     (''on_demand_progress'', MARSHALL_INT J (lp_on_demand_progress s)),
     (''quarantine'', MARSHALL_INT J (lp_quarantine s)),
     (''real_time_prot'', MARSHALL_INT J (lp_real_time_prot s)),
     (''av_update'', MARSHALL_INT J (lp_av_update s))]"

definition jrpc_unmarshall_struct_a6o_rpc_listen_param ::
  "'j jansson \<Rightarrow> 'j option \<Rightarrow> a6o_rpc_listen_param unmarshalled" where
  "jrpc_unmarshall_struct_a6o_rpc_listen_param J obj =
    ubind (UNMARSHALL_INT J obj ''detection'' to_int32) (\<lambda>detection.
    ubind (UNMARSHALL_INT J obj ''on_demand'' to_int32) (\<lambda>on_demand.
    ubind (UNMARSHALL_INT J obj ''on_demand_progress'' to_int32) (\<lambda>on_demand_progress.
    ubind (UNMARSHALL_INT J obj ''quarantine'' to_int32) (\<lambda>quarantine.
    ubind (UNMARSHALL_INT J obj ''real_time_prot'' to_int32) (\<lambda>real_time_prot.
    ubind (UNMARSHALL_INT J obj ''av_update'' to_int32) (\<lambda>av_update.
    Some (Inr \<lparr>lp_detection = detection, lp_on_demand = on_demand,
               lp_on_demand_progress = on_demand_progress, lp_quarantine = quarantine,
               lp_real_time_prot = real_time_prot, lp_av_update = av_update\<rparr>)))))))"

section \<open>Reading back what was written\<close>

lemma ubind_simps [simp]:
  "ubind None f = None" "ubind (Some (Inl ret)) f = Some (Inl ret)" "ubind (Some (Inr x)) f = f x"
  by (simp_all add: ubind_def)

text \<open>
  A marshaller and an unmarshaller agree on a value: the first gives a JSON value of the type that
  the second expects, and the second reads the value back.
\<close>

definition reads_back ::
  "'j jansson \<Rightarrow> json_type \<Rightarrow> 'j marshalled \<Rightarrow> ('j option \<Rightarrow> 'a unmarshalled) \<Rightarrow> 'a \<Rightarrow> bool" where
  "reads_back J t r u x \<longleftrightarrow>
    (\<exists>j. r = Some (Inr (Some j)) \<and> js_typeof J j = t \<and> u (Some j) = Some (Inr x))"

definition utf8_cstr :: "'j jansson \<Rightarrow> cstr \<Rightarrow> bool" where
  "utf8_cstr J s \<longleftrightarrow> (\<exists>t. s = Some t \<and> js_utf8 J t)"

lemma marshall_fields_Cons [simp]:
  "marshall_fields J obj ((name, Some (Inr field)) # flds)
    = marshall_fields J (js_object_set J obj name field) flds"
  "marshall_fields J obj ((name, Some (Inl ret)) # flds) = Some (Inl ret)"
  "marshall_fields J obj ((name, None) # flds) = None"
  by simp_all

declare marshall_fields.simps(2) [simp del]

lemma marshall_fields_jobj:
  "marshall_fields J (jobj J pre) (map (\<lambda>(k, v). (k, Some (Inr (Some v)))) kvs)
    = Some (Inr (Some (jobj J (pre @ kvs))))"
  by (induction kvs arbitrary: pre) (auto simp: jobj_snoc)

lemma MARSHALL_STRUCT_jobj:
  "MARSHALL_STRUCT J (map (\<lambda>(k, v). (k, Some (Inr (Some v)))) kvs) = Some (Inr (Some (jobj J kvs)))"
  using marshall_fields_jobj [of J "[]" kvs] by (simp add: MARSHALL_STRUCT_def jobj_Nil)

lemma jobj_field:
  assumes "json_laws J" "list_all ascii (map fst kvs)"
  shows "js_typeof J (jobj J kvs) = JSON_OBJECT"
    "js_object_get J (Some (jobj J kvs)) k = map_of (rev kvs) k"
  using jobj_get [OF assms(1), of kvs] ascii_utf8 [OF assms(1)] assms(2)
  by (auto simp: list_all_iff)

definition enum_name :: "(string \<times> 'e) list \<Rightarrow> 'e \<Rightarrow> string option" where
  "enum_name values v = map_option fst (find (\<lambda>(name, x). x = v) values)"

text \<open>The names of an enumeration are distinct, so a name leads back to its value.\<close>

definition enum_ok :: "(string \<times> 'e) list \<Rightarrow> bool" where
  "enum_ok values \<longleftrightarrow> distinct (map fst values) \<and> list_all ascii (map fst values)"

lemma enum_ok_names:
  "enum_ok enum_a6o_file_status" "enum_ok enum_a6o_update_status" "enum_ok enum_a6o_action"
  "enum_ok enum_a6o_event_type" "enum_ok enum_a6o_detection_context"
  "enum_ok enum_a6o_quarantine_action"
  by (simp_all add: enum_ok_def enum_defs ascii_def)

lemma enum_name_value:
  assumes "enum_ok values" "enum_name values v = Some name"
  shows "map_of values name = Some v" "ascii name"
proof -
  from assms(2) obtain x where "find (\<lambda>(name, x). x = v) values = Some (name, x)"
    by (auto simp: enum_name_def)
  then have "(name, v) \<in> set values"
    by (auto simp: find_Some_iff dest: nth_mem)
  with assms(1) show "map_of values name = Some v" "ascii name"
    by (auto simp: enum_ok_def list_all_iff)
qed

lemma enum_written:
  assumes "json_laws J" "enum_ok values" "enum_name values v = Some name"
  shows "MARSHALL_ENUM J values v = Some (Inr (Some (jstr J name)))"
    "js_utf8 J name" "map_of values name = Some v"
proof -
  show u: "js_utf8 J name"
    using enum_name_value(2) [OF assms(2,3)] by (rule ascii_utf8 [OF assms(1)])
  with assms show "MARSHALL_ENUM J values v = Some (Inr (Some (jstr J name)))"
    by (auto simp: MARSHALL_ENUM_def enum_name_def json_rules)
  show "map_of values name = Some v"
    by (rule enum_name_value(1) [OF assms(2,3)])
qed

lemma enum_name_total:
  "\<exists>n. enum_name enum_a6o_file_status st = Some n"
  "\<exists>n. enum_name enum_a6o_update_status up = Some n"
  "\<exists>n. enum_name enum_a6o_detection_context ctx = Some n"
  "\<exists>n. enum_name enum_a6o_quarantine_action qa = Some n"
  "\<exists>n. enum_name enum_a6o_event_type (ev_type u) = Some n"
  subgoal by (cases st) (simp_all add: enum_name_def enum_defs)
  subgoal by (cases up) (simp_all add: enum_name_def enum_defs)
  subgoal by (cases ctx) (simp_all add: enum_name_def enum_defs)
  subgoal by (cases qa) (simp_all add: enum_name_def enum_defs)
  subgoal by (cases u) (simp_all add: enum_name_def enum_defs ev_type_def event_type_defs)
  done

lemmas field_rules =
  UNMARSHALL_INT_def UNMARSHALL_STRING_def UNMARSHALL_ENUM_def jrpc_unmarshall_field_def
  unmarshall_enum_def json_rules json_int_simps is_uint32_int64 is_int32_int64

lemmas marshall_rules = MARSHALL_INT_def MARSHALL_STRING_def json_rules json_int_simps is_uint32_int64 is_int32_int64

section \<open>Structures\<close>

text \<open>A structure is read back when its fields are, from the object that holds them.\<close>

lemma struct_reads_back:
  assumes J: "json_laws J" and K: "list_all ascii (map fst kvs)"
    and M: "r = MARSHALL_STRUCT J (map (\<lambda>(k, v). (k, Some (Inr (Some v)))) kvs)"
    and U: "(\<And>k. js_object_get J (Some (jobj J kvs)) k = map_of (rev kvs) k)
      \<Longrightarrow> u (Some (jobj J kvs)) = Some (Inr x)"
  shows "reads_back J JSON_OBJECT r u x"
  using jobj_field [OF J K] U unfolding M reads_back_def MARSHALL_STRUCT_jobj by blast

lemma detection_event_reads_back:
  assumes J: "json_laws J"
    and wf: "is_uint32 (det_scan_id e)" "utf8_cstr J (det_path e)" "utf8_cstr J (det_module_name e)"
      "utf8_cstr J (det_module_report e)" "det_scan_action e \<in> snd ` set enum_a6o_action"
  shows "reads_back J JSON_OBJECT (jrpc_marshall_struct_a6o_detection_event J e)
    (jrpc_unmarshall_struct_a6o_detection_event J) e"
proof -
  obtain p m r where str: "det_path e = Some p" "js_utf8 J p" "det_module_name e = Some m" "js_utf8 J m"
      "det_module_report e = Some r" "js_utf8 J r"
    using wf by (auto simp: utf8_cstr_def)
  obtain c where c: "enum_name enum_a6o_detection_context (det_context e) = Some c"
    using enum_name_total(3) by blast
  obtain st where st: "enum_name enum_a6o_file_status (det_scan_status e) = Some st"
    using enum_name_total(1) by blast
  obtain a where a: "enum_name enum_a6o_action (det_scan_action e) = Some a"
    using wf(5) by (auto simp: enum_name_def enum_defs action_defs)
  note en = enum_written [OF J enum_ok_names(5) c] enum_written [OF J enum_ok_names(1) st]
    enum_written [OF J enum_ok_names(3) a]
  show ?thesis
    by (rule struct_reads_back [OF J, where kvs = "[(''context'', jstr J c),
        (''scan_id'', js_integer J (det_scan_id e)), (''path'', jstr J p), (''scan_status'', jstr J st),
        (''scan_action'', jstr J a), (''module_name'', jstr J m), (''module_report'', jstr J r)]"])
      (use str wf(1) in \<open>simp_all add: jrpc_marshall_struct_a6o_detection_event_def marshall_rules
         jrpc_unmarshall_struct_a6o_detection_event_def field_rules J en ascii_def\<close>)
qed

lemma start_event_reads_back:
  assumes J: "json_laws J" and wf: "is_uint32 (sta_scan_id e)" "utf8_cstr J (sta_root_path e)"
  shows "reads_back J JSON_OBJECT (jrpc_marshall_struct_a6o_on_demand_start_event J e)
    (jrpc_unmarshall_struct_a6o_on_demand_start_event J) e"
proof -
  obtain p where str: "sta_root_path e = Some p" "js_utf8 J p"
    using wf by (auto simp: utf8_cstr_def)
  show ?thesis
    by (rule struct_reads_back [OF J, where kvs = "[(''root_path'', jstr J p),
        (''scan_id'', js_integer J (sta_scan_id e))]"])
      (use str wf(1) in \<open>simp_all add: jrpc_marshall_struct_a6o_on_demand_start_event_def marshall_rules
         jrpc_unmarshall_struct_a6o_on_demand_start_event_def field_rules J ascii_def\<close>)
qed

lemma completed_event_reads_back:
  assumes J: "json_laws J"
    and wf: "is_uint32 (cmpl_scan_id e)" "is_int32 (cmpl_cancelled e)"
      "is_size_t (cmpl_total_malware_count e)" "is_size_t (cmpl_total_suspicious_count e)"
      "is_size_t (cmpl_total_scanned_count e)" "is_int64 (cmpl_duration e)"
  shows "reads_back J JSON_OBJECT (jrpc_marshall_struct_a6o_on_demand_completed_event J e)
    (jrpc_unmarshall_struct_a6o_on_demand_completed_event J) e"
  by (rule struct_reads_back [OF J, where kvs = "[(''scan_id'', js_integer J (cmpl_scan_id e)),
      (''cancelled'', js_integer J (cmpl_cancelled e)),
      (''total_malware_count'', js_integer J (to_int64 (int (cmpl_total_malware_count e)))),
      (''total_suspicious_count'', js_integer J (to_int64 (int (cmpl_total_suspicious_count e)))),
      (''total_scanned_count'', js_integer J (to_int64 (int (cmpl_total_scanned_count e)))),
      (''duration'', js_integer J (cmpl_duration e))]"])
    (use wf in \<open>simp_all add: jrpc_marshall_struct_a6o_on_demand_completed_event_def marshall_rules
       jrpc_unmarshall_struct_a6o_on_demand_completed_event_def field_rules J ascii_def to_int64_range\<close>)

lemma progress_event_reads_back:
  assumes J: "json_laws J"
    and wf: "is_uint32 (prg_scan_id e)" "is_int32 (prg_progress e)" "utf8_cstr J (prg_path e)"
      "is_size_t (prg_malware_count e)" "is_size_t (prg_suspicious_count e)"
      "is_size_t (prg_scanned_count e)"
  shows "reads_back J JSON_OBJECT (jrpc_marshall_struct_a6o_on_demand_progress_event J e)
    (jrpc_unmarshall_struct_a6o_on_demand_progress_event J) e"
proof -
  obtain p where str: "prg_path e = Some p" "js_utf8 J p"
    using wf by (auto simp: utf8_cstr_def)
  show ?thesis
    by (rule struct_reads_back [OF J, where kvs = "[(''scan_id'', js_integer J (prg_scan_id e)),
        (''progress'', js_integer J (prg_progress e)), (''path'', jstr J p),
        (''malware_count'', js_integer J (to_int64 (int (prg_malware_count e)))),
        (''suspicious_count'', js_integer J (to_int64 (int (prg_suspicious_count e)))),
        (''scanned_count'', js_integer J (to_int64 (int (prg_scanned_count e))))]"])
      (use str wf in \<open>simp_all add: jrpc_marshall_struct_a6o_on_demand_progress_event_def marshall_rules
         jrpc_unmarshall_struct_a6o_on_demand_progress_event_def field_rules J ascii_def to_int64_range\<close>)
qed

lemma quarantine_event_reads_back:
  assumes J: "json_laws J" and wf: "utf8_cstr J (qua_orig_path e)" "utf8_cstr J (qua_quarantine_path e)"
  shows "reads_back J JSON_OBJECT (jrpc_marshall_struct_a6o_quarantine_event J e)
    (jrpc_unmarshall_struct_a6o_quarantine_event J) e"
proof -
  obtain p q where str: "qua_orig_path e = Some p" "js_utf8 J p" "qua_quarantine_path e = Some q" "js_utf8 J q"
    using wf by (auto simp: utf8_cstr_def)
  obtain a where a: "enum_name enum_a6o_quarantine_action (qua_quarantine_action e) = Some a"
    using enum_name_total(4) by blast
  note en = enum_written [OF J enum_ok_names(6) a]
  show ?thesis
    by (rule struct_reads_back [OF J, where kvs = "[(''quarantine_action'', jstr J a),
        (''orig_path'', jstr J p), (''quarantine_path'', jstr J q)]"])
      (use str in \<open>simp_all add: jrpc_marshall_struct_a6o_quarantine_event_def marshall_rules
         jrpc_unmarshall_struct_a6o_quarantine_event_def field_rules J en ascii_def\<close>)
qed

lemma real_time_prot_event_reads_back:
  assumes J: "json_laws J" and wf: "is_int32 n"
  shows "reads_back J JSON_OBJECT (jrpc_marshall_struct_a6o_real_time_prot_event J n)
    (jrpc_unmarshall_struct_a6o_real_time_prot_event J) n"
  by (rule struct_reads_back [OF J, where kvs = "[(''rt_prot_new_state'', js_integer J n)]"])
    (use wf in \<open>simp_all add: jrpc_marshall_struct_a6o_real_time_prot_event_def marshall_rules
       jrpc_unmarshall_struct_a6o_real_time_prot_event_def field_rules J ascii_def\<close>)

text \<open>The events that the declarations can carry: ranges, text and a single action.\<close>

definition event_carried :: "'j jansson \<Rightarrow> a6o_event \<Rightarrow> bool" where
  "event_carried J ev \<longleftrightarrow> is_int64 (ev_timestamp ev) \<and> (case ev_u ev of
       Ev_detection e \<Rightarrow> is_uint32 (det_scan_id e) \<and> utf8_cstr J (det_path e)
         \<and> utf8_cstr J (det_module_name e) \<and> utf8_cstr J (det_module_report e)
         \<and> det_scan_action e \<in> snd ` set enum_a6o_action
     | Ev_on_demand_start e \<Rightarrow> is_uint32 (sta_scan_id e) \<and> utf8_cstr J (sta_root_path e)
     | Ev_on_demand_completed e \<Rightarrow> is_uint32 (cmpl_scan_id e) \<and> is_int32 (cmpl_cancelled e)
         \<and> is_size_t (cmpl_total_malware_count e) \<and> is_size_t (cmpl_total_suspicious_count e)
         \<and> is_size_t (cmpl_total_scanned_count e) \<and> is_int64 (cmpl_duration e)
     | Ev_on_demand_progress e \<Rightarrow> is_uint32 (prg_scan_id e) \<and> is_int32 (prg_progress e)
         \<and> utf8_cstr J (prg_path e) \<and> is_size_t (prg_malware_count e)
         \<and> is_size_t (prg_suspicious_count e) \<and> is_size_t (prg_scanned_count e)
     | Ev_quarantine e \<Rightarrow> utf8_cstr J (qua_orig_path e) \<and> utf8_cstr J (qua_quarantine_path e)
     | Ev_real_time_prot n \<Rightarrow> is_int32 n
     | Ev_av_update \<Rightarrow> False)"

lemma union_member_reads_back:
  assumes J: "json_laws J" and K: "ascii name" and s: "reads_back J JSON_OBJECT r u s"
  shows "\<exists>j. MARSHALL_STRUCT J [(name, r)] = Some (Inr (Some j)) \<and> js_typeof J j = JSON_OBJECT
    \<and> UNMARSHALL_UNION_STRUCT J (Some j) name u member = Some (Inr (member s))"
proof -
  obtain v where v: "r = Some (Inr (Some v))" "js_typeof J v = JSON_OBJECT" "u (Some v) = Some (Inr s)"
    using s by (auto simp: reads_back_def)
  have K1: "list_all ascii (map fst [(name, v)])"
    using K by simp
  show ?thesis
    using MARSHALL_STRUCT_jobj [of J "[(name, v)]"] v jobj_field [OF J K1]
    by (intro exI [of _ "jobj J [(name, v)]"])
      (simp add: UNMARSHALL_UNION_STRUCT_def jrpc_unmarshall_field_def)
qed

lemma union_reads_back:
  assumes J: "json_laws J" and c: "event_carried J ev"
  shows "reads_back J JSON_OBJECT (jrpc_marshall_union_a6o_event_union J (ev_u ev))
    (\<lambda>obj. jrpc_unmarshall_union_a6o_event_union J obj (ev_type (ev_u ev))) (ev_u ev)"
proof (cases "ev_u ev")
  case (Ev_detection e)
  with union_member_reads_back [OF J _ detection_event_reads_back [OF J, of e], of "''ev_detection''" Ev_detection] c
  show ?thesis
    by (simp add: reads_back_def event_carried_def ev_type_def event_type_defs ascii_def
        jrpc_marshall_union_a6o_event_union_def jrpc_unmarshall_union_a6o_event_union_def)
next
  case (Ev_on_demand_start e)
  with union_member_reads_back [OF J _ start_event_reads_back [OF J, of e], of "''ev_on_demand_start''" Ev_on_demand_start] c
  show ?thesis
    by (simp add: reads_back_def event_carried_def ev_type_def event_type_defs ascii_def
        jrpc_marshall_union_a6o_event_union_def jrpc_unmarshall_union_a6o_event_union_def)
next
  case (Ev_on_demand_completed e)
  with union_member_reads_back [OF J _ completed_event_reads_back [OF J, of e],
      of "''ev_on_demand_completed''" Ev_on_demand_completed] c
  show ?thesis
    by (simp add: reads_back_def event_carried_def ev_type_def event_type_defs ascii_def
        jrpc_marshall_union_a6o_event_union_def jrpc_unmarshall_union_a6o_event_union_def)
next
  case (Ev_on_demand_progress e)
  with union_member_reads_back [OF J _ progress_event_reads_back [OF J, of e],
      of "''ev_on_demand_progress''" Ev_on_demand_progress] c
  show ?thesis
    by (simp add: reads_back_def event_carried_def ev_type_def event_type_defs ascii_def
        jrpc_marshall_union_a6o_event_union_def jrpc_unmarshall_union_a6o_event_union_def)
next
  case (Ev_quarantine e)
  with union_member_reads_back [OF J _ quarantine_event_reads_back [OF J, of e], of "''ev_quarantine''" Ev_quarantine] c
  show ?thesis
    by (simp add: reads_back_def event_carried_def ev_type_def event_type_defs ascii_def
        jrpc_marshall_union_a6o_event_union_def jrpc_unmarshall_union_a6o_event_union_def)
next
  case (Ev_real_time_prot n)
  with union_member_reads_back [OF J _ real_time_prot_event_reads_back [OF J, of n],
      of "''ev_real_time_prot''" Ev_real_time_prot] c
  show ?thesis
    by (simp add: reads_back_def event_carried_def ev_type_def event_type_defs ascii_def
        jrpc_marshall_union_a6o_event_union_def jrpc_unmarshall_union_a6o_event_union_def)
next
  case Ev_av_update
  with c show ?thesis by (simp add: event_carried_def)
qed

lemma event_reads_back:
  assumes J: "json_laws J" and c: "event_carried J ev"
  shows "reads_back J JSON_OBJECT (jrpc_marshall_struct_a6o_event J ev) (jrpc_unmarshall_struct_a6o_event J) ev"
proof -
  obtain j where j: "jrpc_marshall_union_a6o_event_union J (ev_u ev) = Some (Inr (Some j))"
      "js_typeof J j = JSON_OBJECT"
      "jrpc_unmarshall_union_a6o_event_union J (Some j) (ev_type (ev_u ev)) = Some (Inr (ev_u ev))"
    using union_reads_back [OF assms] by (auto simp: reads_back_def)
  obtain t where t: "enum_name enum_a6o_event_type (ev_type (ev_u ev)) = Some t"
    using enum_name_total(5) by blast
  note en = enum_written [OF J enum_ok_names(4) t]
  have ts: "is_int64 (ev_timestamp ev)"
    using c by (simp add: event_carried_def)
  show ?thesis
    by (rule struct_reads_back [OF J, where kvs = "[(''timestamp'', js_integer J (ev_timestamp ev)),
        (''type'', jstr J t), (''u'', j)]"])
      (use j ts in \<open>simp_all add: jrpc_marshall_struct_a6o_event_def marshall_rules
         jrpc_unmarshall_struct_a6o_event_def UNMARSHALL_UNION_def field_rules J en ascii_def\<close>)
qed

section \<open>Arrays of structures\<close>

lemma marshall_elems_reads_back:
  assumes "\<And>x. x \<in> set xs \<Longrightarrow> reads_back J JSON_OBJECT (m x) u x"
  shows "\<exists>vs. marshall_elems J m (jarr J ws) xs = Some (Inr (Some (jarr J (ws @ vs))))
    \<and> unmarshall_elems (\<lambda>elem. u (Some elem)) vs = Some (Inr xs)"
  using assms
proof (induction xs arbitrary: ws)
  case Nil
  show ?case by (rule exI [of _ "[]"]) simp
next
  case (Cons x xs)
  obtain v where v: "m x = Some (Inr (Some v))" "u (Some v) = Some (Inr x)"
    using Cons.prems [of x] by (auto simp: reads_back_def)
  obtain vs where "marshall_elems J m (jarr J (ws @ [v])) xs = Some (Inr (Some (jarr J ((ws @ [v]) @ vs))))"
      "unmarshall_elems (\<lambda>elem. u (Some elem)) vs = Some (Inr xs)"
    using Cons.IH [of "ws @ [v]"] Cons.prems by auto
  with v show ?case
    by (intro exI [of _ "v # vs"]) (simp add: jarr_snoc)
qed

definition array_type :: "'a list option \<Rightarrow> json_type" where
  "array_type xs = (case xs of None \<Rightarrow> JSON_NULL | Some _ \<Rightarrow> JSON_ARRAY)"

lemma array_reads_back:
  assumes J: "json_laws J"
    and elems: "\<And>ys x. xs = Some ys \<Longrightarrow> x \<in> set ys \<Longrightarrow> reads_back J JSON_OBJECT (m x) u x"
  shows "\<exists>j. jrpc_marshall_array J xs m = Some (Inr (Some j)) \<and> js_typeof J j = array_type xs
    \<and> jrpc_unmarshall_array J j (\<lambda>elem. u (Some elem)) = Some (Inr xs)"
proof (cases xs)
  case None
  then show ?thesis
    by (simp add: jrpc_marshall_array_def jrpc_unmarshall_array_def array_type_def json_rules J)
next
  case (Some ys)
  obtain vs where vs: "marshall_elems J m (jarr J []) ys = Some (Inr (Some (jarr J ([] @ vs))))"
      "unmarshall_elems (\<lambda>elem. u (Some elem)) vs = Some (Inr ys)"
    using marshall_elems_reads_back [of ys J m u "[]"] elems [OF Some] by blast
  have "js_array J = jarr J []"
    by (simp add: jarr_def)
  with Some vs jarr_elems [OF J, of vs] show ?thesis
    by (simp add: jrpc_marshall_array_def jrpc_unmarshall_array_def array_type_def)
qed

definition base_carried :: "'j jansson \<Rightarrow> a6o_base_info \<Rightarrow> bool" where
  "base_carried J b \<longleftrightarrow> utf8_cstr J (bi_name b) \<and> is_int64 (bi_base_update_ts b)
    \<and> utf8_cstr J (bi_version b) \<and> is_size_t (bi_signature_count b) \<and> utf8_cstr J (bi_full_path b)"

definition module_carried :: "'j jansson \<Rightarrow> a6o_module_info \<Rightarrow> bool" where
  "module_carried J mi \<longleftrightarrow> utf8_cstr J (mi_name mi) \<and> is_int64 (mi_mod_update_ts mi)
    \<and> (\<forall>bs. mi_base_infos mi = Some bs \<longrightarrow> (\<forall>b \<in> set bs. base_carried J b))"

definition info_carried :: "'j jansson \<Rightarrow> a6o_info \<Rightarrow> bool" where
  "info_carried J i \<longleftrightarrow> js_utf8 J (inf_antivirus_version i) \<and> is_int64 (inf_global_update_ts i)
    \<and> (\<forall>mi \<in> set (inf_module_infos i). module_carried J mi)"

lemma base_info_reads_back:
  assumes J: "json_laws J" and c: "base_carried J b"
  shows "reads_back J JSON_OBJECT (jrpc_marshall_struct_a6o_base_info J b)
    (jrpc_unmarshall_struct_a6o_base_info J) b"
proof -
  obtain n v p where str: "bi_name b = Some n" "js_utf8 J n" "bi_version b = Some v" "js_utf8 J v"
      "bi_full_path b = Some p" "js_utf8 J p"
    using c by (auto simp: base_carried_def utf8_cstr_def)
  show ?thesis
    by (rule struct_reads_back [OF J, where kvs = "[(''name'', jstr J n),
        (''base_update_ts'', js_integer J (bi_base_update_ts b)), (''version'', jstr J v),
        (''signature_count'', js_integer J (to_int64 (int (bi_signature_count b)))),
        (''full_path'', jstr J p)]"])
      (use str c in \<open>simp_all add: jrpc_marshall_struct_a6o_base_info_def marshall_rules base_carried_def
         jrpc_unmarshall_struct_a6o_base_info_def field_rules J ascii_def to_int64_range\<close>)
qed

lemma array_field:
  assumes "js_object_get J obj name = Some j" "js_typeof J j = array_type xs"
  shows "UNMARSHALL_PTR_ARRAY J obj name u = jrpc_unmarshall_array J j (\<lambda>elem. u (Some elem))"
  using assms by (auto simp: UNMARSHALL_PTR_ARRAY_def jrpc_unmarshall_field_def array_type_def split: option.splits)

lemma module_info_reads_back:
  assumes J: "json_laws J" and c: "module_carried J mi"
  shows "reads_back J JSON_OBJECT (jrpc_marshall_struct_a6o_module_info J mi)
    (jrpc_unmarshall_struct_a6o_module_info J) mi"
proof -
  obtain n where str: "mi_name mi = Some n" "js_utf8 J n"
    using c by (auto simp: module_carried_def utf8_cstr_def)
  obtain j where j: "jrpc_marshall_array J (mi_base_infos mi) (jrpc_marshall_struct_a6o_base_info J) = Some (Inr (Some j))"
      "js_typeof J j = array_type (mi_base_infos mi)"
      "jrpc_unmarshall_array J j (\<lambda>elem. jrpc_unmarshall_struct_a6o_base_info J (Some elem)) = Some (Inr (mi_base_infos mi))"
    using array_reads_back [OF J, of "mi_base_infos mi" "jrpc_marshall_struct_a6o_base_info J"
        "jrpc_unmarshall_struct_a6o_base_info J"] base_info_reads_back [OF J] c
    unfolding module_carried_def by blast
  obtain st where st: "enum_name enum_a6o_update_status (mi_mod_status mi) = Some st"
    using enum_name_total(2) by blast
  note en = enum_written [OF J enum_ok_names(2) st]
  show ?thesis
    by (rule struct_reads_back [OF J, where kvs = "[(''name'', jstr J n), (''mod_status'', jstr J st),
        (''mod_update_ts'', js_integer J (mi_mod_update_ts mi)), (''base_infos'', j)]"])
      (use str j c in \<open>simp_all add: jrpc_marshall_struct_a6o_module_info_def marshall_rules module_carried_def
         jrpc_unmarshall_struct_a6o_module_info_def field_rules array_field J en ascii_def\<close>)
qed

lemma info_reads_back:
  assumes J: "json_laws J" and c: "info_carried J i"
  shows "reads_back J JSON_OBJECT (jrpc_marshall_struct_a6o_info J i) (jrpc_unmarshall_struct_a6o_info J)
    \<lparr>ip_antivirus_version = Some (inf_antivirus_version i), ip_global_status = inf_global_status i,
     ip_global_update_ts = inf_global_update_ts i, ip_module_infos = Some (inf_module_infos i)\<rparr>"
proof -
  obtain j where j: "jrpc_marshall_array J (Some (inf_module_infos i)) (jrpc_marshall_struct_a6o_module_info J) = Some (Inr (Some j))"
      "js_typeof J j = array_type (Some (inf_module_infos i))"
      "jrpc_unmarshall_array J j (\<lambda>elem. jrpc_unmarshall_struct_a6o_module_info J (Some elem)) = Some (Inr (Some (inf_module_infos i)))"
    using array_reads_back [OF J, of "Some (inf_module_infos i)" "jrpc_marshall_struct_a6o_module_info J"
        "jrpc_unmarshall_struct_a6o_module_info J"] module_info_reads_back [OF J] c
    unfolding info_carried_def by blast
  obtain st where st: "enum_name enum_a6o_update_status (inf_global_status i) = Some st"
    using enum_name_total(2) by blast
  note en = enum_written [OF J enum_ok_names(2) st]
  show ?thesis
    by (rule struct_reads_back [OF J, where kvs = "[(''antivirus_version'', jstr J (inf_antivirus_version i)),
        (''global_status'', jstr J st), (''global_update_ts'', js_integer J (inf_global_update_ts i)),
        (''module_infos'', j)]"])
      (use j c in \<open>simp_all add: jrpc_marshall_struct_a6o_info_def marshall_rules info_carried_def
         jrpc_unmarshall_struct_a6o_info_def field_rules array_field J en ascii_def\<close>)
qed

section \<open>Parameters\<close>

definition scan_param_carried :: "'j jansson \<Rightarrow> a6o_rpc_scan_param \<Rightarrow> bool" where
  "scan_param_carried J p \<longleftrightarrow> utf8_cstr J (sp_root_path p) \<and> is_int32 (sp_send_progress p)
    \<and> is_int32 (sp_recursive p) \<and> is_int32 (sp_threaded p) \<and> is_int64 (sp_scan_id p)"

lemma scan_param_reads_back:
  assumes J: "json_laws J" and c: "scan_param_carried J p"
  shows "reads_back J JSON_OBJECT (jrpc_marshall_struct_a6o_rpc_scan_param J p)
    (jrpc_unmarshall_struct_a6o_rpc_scan_param J) p"
proof -
  obtain r where str: "sp_root_path p = Some r" "js_utf8 J r"
    using c by (auto simp: scan_param_carried_def utf8_cstr_def)
  show ?thesis
    by (rule struct_reads_back [OF J, where kvs = "[(''root_path'', jstr J r),
        (''send_progress'', js_integer J (sp_send_progress p)), (''recursive'', js_integer J (sp_recursive p)),
        (''threaded'', js_integer J (sp_threaded p)), (''scan_id'', js_integer J (sp_scan_id p))]"])
      (use str c in \<open>simp_all add: jrpc_marshall_struct_a6o_rpc_scan_param_def marshall_rules
         scan_param_carried_def jrpc_unmarshall_struct_a6o_rpc_scan_param_def field_rules J ascii_def\<close>)
qed

definition listen_param_carried :: "a6o_rpc_listen_param \<Rightarrow> bool" where
  "listen_param_carried p \<longleftrightarrow> is_int32 (lp_detection p) \<and> is_int32 (lp_on_demand p)
    \<and> is_int32 (lp_on_demand_progress p) \<and> is_int32 (lp_quarantine p) \<and> is_int32 (lp_real_time_prot p)
    \<and> is_int32 (lp_av_update p)"

lemma listen_param_reads_back:
  assumes J: "json_laws J" and c: "listen_param_carried p"
  shows "reads_back J JSON_OBJECT (jrpc_marshall_struct_a6o_rpc_listen_param J p)
    (jrpc_unmarshall_struct_a6o_rpc_listen_param J) p"
  by (rule struct_reads_back [OF J, where kvs = "[(''detection'', js_integer J (lp_detection p)),
      (''on_demand'', js_integer J (lp_on_demand p)),
      (''on_demand_progress'', js_integer J (lp_on_demand_progress p)),
      (''quarantine'', js_integer J (lp_quarantine p)), (''real_time_prot'', js_integer J (lp_real_time_prot p)),
      (''av_update'', js_integer J (lp_av_update p))]"])
    (use c in \<open>simp_all add: jrpc_marshall_struct_a6o_rpc_listen_param_def marshall_rules
       listen_param_carried_def jrpc_unmarshall_struct_a6o_rpc_listen_param_def field_rules J ascii_def\<close>)

lemma reads_back_ptr:
  assumes "reads_back J JSON_OBJECT r u x"
  shows "\<exists>j. r = Some (Inr (Some j)) \<and> jrpc_unmarshall_struct_ptr J (Some j) u = Some (Inr (Some x))"
proof -
  obtain j where "r = Some (Inr (Some j))" "js_typeof J j = JSON_OBJECT" "u (Some j) = Some (Inr x)"
    using assms by (auto simp: reads_back_def)
  then show ?thesis
    by (intro exI [of _ j]) (simp add: jrpc_unmarshall_struct_ptr_def)
qed

text \<open>Reading a field of a request never goes wrong, whatever the client sent.\<close>

definition field_error :: "int \<Rightarrow> bool" where
  "field_error ret \<longleftrightarrow> ret = JRPC_ERR_MARSHALL_FIELD_NOT_FOUND \<or> ret = JRPC_ERR_MARSHALL_TYPE_MISMATCH"

definition reads_safely :: "('a \<Rightarrow> bool) \<Rightarrow> 'a unmarshalled \<Rightarrow> bool" where
  "reads_safely P r \<longleftrightarrow> (\<exists>ret. r = Some (Inl ret) \<and> field_error ret) \<or> (\<exists>x. r = Some (Inr x) \<and> P x)"

lemma reads_safely_bind:
  "reads_safely P r \<Longrightarrow> (\<And>x. P x \<Longrightarrow> reads_safely Q (f x)) \<Longrightarrow> reads_safely Q (ubind r f)"
  unfolding reads_safely_def by (elim disjE exE conjE) simp_all

lemma reads_safely_return: "P x \<Longrightarrow> reads_safely P (Some (Inr x))"
  by (simp add: reads_safely_def)

lemma reads_safely_int: "(\<And>i. P (f i)) \<Longrightarrow> reads_safely P (UNMARSHALL_INT J obj name f)"
  by (auto simp: UNMARSHALL_INT_def jrpc_unmarshall_field_def reads_safely_def field_error_def split: option.split)

lemma reads_safely_string:
  assumes "json_laws J"
  shows "reads_safely (\<lambda>s. s \<noteq> None) (UNMARSHALL_STRING J obj name)"
  using js_string_value_string [OF assms]
  by (auto simp: UNMARSHALL_STRING_def jrpc_unmarshall_field_def reads_safely_def field_error_def
      split: option.split)

lemma to_int32_range: "is_int32 (to_int32 i)"
proof -
  have "0 \<le> (i + 2 ^ 31) mod 2 ^ 32" "(i + 2 ^ 31) mod 2 ^ 32 < 2 ^ 32"
    by (rule pos_mod_sign, simp, rule pos_mod_bound, simp)
  then show ?thesis
    by (simp add: is_int32_def to_int32_def)
qed

lemma scan_param_safe:
  assumes "json_laws J"
  shows "reads_safely (\<lambda>p. sp_root_path p \<noteq> None) (jrpc_unmarshall_struct_a6o_rpc_scan_param J obj)"
  unfolding jrpc_unmarshall_struct_a6o_rpc_scan_param_def
  by (rule reads_safely_bind [OF reads_safely_string [OF assms]],
      (rule reads_safely_bind [OF reads_safely_int [of "\<lambda>_. True"]], rule TrueI)+,
      rule reads_safely_return, simp)

lemma listen_param_safe:
  "reads_safely listen_param_carried (jrpc_unmarshall_struct_a6o_rpc_listen_param J obj)"
  unfolding jrpc_unmarshall_struct_a6o_rpc_listen_param_def
  by ((rule reads_safely_bind [OF reads_safely_int [of is_int32, OF to_int32_range]])+,
      rule reads_safely_return, simp add: listen_param_carried_def)

section \<open>Properties\<close>


definition sample_event :: a6o_event where
  "sample_event = \<lparr>ev_timestamp = 1460000000, ev_u = Ev_detection
    \<lparr>det_context = CONTEXT_ON_DEMAND, det_scan_id = 7, det_path = Some ''/tmp/x'',
     det_scan_status = A6O_FILE_MALWARE, det_scan_action = A6O_ACTION_ALERT,
     det_module_name = Some ''clamav'', det_module_report = Some ''eicar''\<rparr>\<rparr>"


text \<open>
  C36: the update information that \<open>status\<close> answers with, with its nested arrays of modules and
  databases, is received as it was sent.
\<close>

theorem info_round_trip:
  assumes "json_laws J" "info_carried J i"
  shows "\<exists>j. jrpc_marshall_struct_a6o_info J i = Some (Inr (Some j))
    \<and> jrpc_unmarshall_struct_ptr J (Some j) (jrpc_unmarshall_struct_a6o_info J)
      = Some (Inr (Some \<lparr>ip_antivirus_version = Some (inf_antivirus_version i),
          ip_global_status = inf_global_status i, ip_global_update_ts = inf_global_update_ts i,
          ip_module_infos = Some (inf_module_infos i)\<rparr>))"
  by (rule reads_back_ptr [OF info_reads_back [OF assms]])

definition sample_info :: a6o_info where
  "sample_info = \<lparr>inf_antivirus_version = ''0.12'', inf_global_status = A6O_UPDATE_LATE,
    inf_global_update_ts = 1460000000,
    inf_module_infos = [\<lparr>mi_name = Some ''clamav'', mi_mod_status = A6O_UPDATE_LATE,
      mi_mod_update_ts = 1460000000,
      mi_base_infos = Some [\<lparr>bi_name = Some ''daily'', bi_base_update_ts = 1460000000,
        bi_version = Some ''21'', bi_signature_count = 2, bi_full_path = Some ''/d.cvd''\<rparr>]\<rparr>]\<rparr>"

theorem info_round_trip_witness:
  "\<exists>j. jrpc_marshall_struct_a6o_info json_tree sample_info = Some (Inr (Some j))
    \<and> jrpc_unmarshall_struct_ptr json_tree (Some j) (jrpc_unmarshall_struct_a6o_info json_tree)
      = Some (Inr (Some \<lparr>ip_antivirus_version = Some (inf_antivirus_version sample_info),
          ip_global_status = inf_global_status sample_info,
          ip_global_update_ts = inf_global_update_ts sample_info,
          ip_module_infos = Some (inf_module_infos sample_info)\<rparr>))"
  by (rule info_round_trip [OF json_tree_laws])
    (simp add: sample_info_def info_carried_def module_carried_def base_carried_def utf8_cstr_def
      is_int64_def is_size_t_def)

lemma detection_action_refused:
  assumes "det_scan_action e \<notin> snd ` set enum_a6o_action"
  shows "jrpc_marshall_struct_a6o_event J \<lparr>ev_timestamp = ts, ev_u = Ev_detection e\<rparr>
    = Some (Inl JRPC_ERR_MARSHALL_INVALID_ENUM_VALUE)"
proof -
  have a: "MARSHALL_ENUM J enum_a6o_action (det_scan_action e) = Some (Inl JRPC_ERR_MARSHALL_INVALID_ENUM_VALUE)"
    using assms by (auto simp: MARSHALL_ENUM_def enum_defs)
  obtain c st t where en: "MARSHALL_ENUM J enum_a6o_detection_context (det_context e) = Some (Inr c)"
      "MARSHALL_ENUM J enum_a6o_file_status (det_scan_status e) = Some (Inr st)"
      "MARSHALL_ENUM J enum_a6o_event_type (ev_type (Ev_detection e)) = Some (Inr t)"
    by (cases "det_context e"; cases "det_scan_status e")
      (simp_all add: MARSHALL_ENUM_def enum_defs ev_type_def event_type_defs)
  show ?thesis
    by (simp add: jrpc_marshall_struct_a6o_event_def jrpc_marshall_union_a6o_event_union_def
        jrpc_marshall_struct_a6o_detection_event_def MARSHALL_STRUCT_def MARSHALL_INT_def MARSHALL_STRING_def en a)
qed

text \<open>
  a detection whose actions are combined cannot be sent. The action of a report is a mask, which a
  scan with alert and quarantine sets to two flags at once; the declaration knows the single values
  only, so the event is refused with an error code.
\<close>

theorem combined_action_refused:
  assumes "det_scan_action e = A6O_ACTION_ALERT OR A6O_ACTION_QUARANTINE"
  shows "jrpc_marshall_struct_a6o_event J \<lparr>ev_timestamp = ts, ev_u = Ev_detection e\<rparr>
    = Some (Inl JRPC_ERR_MARSHALL_INVALID_ENUM_VALUE)"
  by (rule detection_action_refused) (simp add: assms enum_defs action_defs)

theorem combined_action_refused_witness:
  "jrpc_marshall_struct_a6o_event json_tree
     \<lparr>ev_timestamp = 0, ev_u = Ev_detection \<lparr>det_context = CONTEXT_REAL_TIME, det_scan_id = 0, det_path = Some ''/x'',
       det_scan_status = A6O_FILE_MALWARE, det_scan_action = A6O_ACTION_ALERT OR A6O_ACTION_QUARANTINE,
       det_module_name = Some ''m'', det_module_report = Some ''r''\<rparr>\<rparr>
    = Some (Inl JRPC_ERR_MARSHALL_INVALID_ENUM_VALUE)"
  by (rule combined_action_refused) simp

end
