(* ===== verification/HashTable.thy ===== *)
theory HashTable
  imports Interfaces "HOL-Library.Multiset"
begin

text \<open>
  The open-addressing hash table of \<open>librpc/jrpc/hash.c\<close>: the string and integer hash
  functions on machine words, and the table operations with linear probing, tombstones
  (\<open>REMOVED\<close> slots) and rehashing. Pointers released through the two \<open>free\<close> callbacks of a
  table are collected in a list that the operations return beside the new table.

  Sizes, counters and indices are natural numbers: a table has far fewer than \<open>2 ^ 64\<close> slots. The
  one place where the width matters, \<open>key_count--\<close> at 0, is written out.
\<close>

section \<open>Hash functions\<close>

text \<open>\<open>char\<close> is signed on the supported platforms, so \<open>*p\<close> is sign-extended to 32 bits.\<close>

definition char_to_u32 :: "char \<Rightarrow> u32" where
  "char_to_u32 c = signed (of_char c :: 8 word)"

definition pjw32_step :: "u32 \<Rightarrow> char \<Rightarrow> u32" where
  "pjw32_step h0 c =
    (let h1 = push_bit 4 h0 + char_to_u32 c;
         high = h1 AND 0xF0000000;
         h2 = (if high \<noteq> 0 then h1 XOR drop_bit 24 high else h1)
     in h2 AND NOT high)"

definition pjw32 :: "string \<Rightarrow> u32" where
  "pjw32 s = foldl pjw32_step 0 s"

definition himult32 :: "u64 \<Rightarrow> u32" where
  "himult32 k = ucast k * 2654435761"

definition himult64 :: "u64 \<Rightarrow> u64" where
  "himult64 k = k * 11400712997709160919"

definition fmix32 :: "u64 \<Rightarrow> u32" where
  "fmix32 k =
    (let h0 = (ucast k :: u32);
         h1 = h0 XOR drop_bit 16 h0;
         h2 = h1 * 0x85ebca6b;
         h3 = h2 XOR drop_bit 13 h2;
         h4 = h3 * 0xc2b2ae35
     in h4 XOR drop_bit 16 h4)"

definition xorshift33 :: "u64 \<Rightarrow> u64" where
  "xorshift33 k = k XOR drop_bit 33 k"

definition fmix64 :: "u64 \<Rightarrow> u64" where
  "fmix64 k =
    (let k1 = xorshift33 k;
         k2 = k1 * 0xff51afd7ed558ccd;
         k3 = xorshift33 k2;
         k4 = k3 * 0xc4ceb9fe1a85ec53
     in xorshift33 k4)"

section \<open>Tables\<close>

datatype hash_table_type = HASH_KEY_STR | HASH_KEY_INT | HASH_KEY_PTR

datatype slot_state = EMPTY | REMOVED | OCCUPIED

text \<open>
  A key is a \<open>void *\<close>: either a pointer to a string, represented by the string, or a plain
  pointer value (an integer stored in a pointer, for \<open>HASH_KEY_INT\<close>). NULL is the pointer 0.
\<close>

datatype hkey = HStr string | HPtr u64

definition NULL_key :: hkey where "NULL_key = HPtr 0"

record 'v hash_table_entry =
  ent_key :: hkey
  ent_value :: "'v option"
  ent_state :: slot_state

record 'v hash_table =
  ht_type :: hash_table_type
  ht_size :: nat
  ht_table :: "'v hash_table_entry list"
  ht_key_count :: nat
  ht_key_free_cb :: bool
  ht_value_free_cb :: bool

text \<open>A pointer passed to one of the two \<open>free\<close> callbacks.\<close>

datatype 'v freed = FreedKey hkey | FreedValue 'v

definition HASH_DEFAULT_SIZE :: nat where "HASH_DEFAULT_SIZE = 64"

definition empty_entry :: "'v hash_table_entry" where
  "empty_entry = \<lparr>ent_key = NULL_key, ent_value = None, ent_state = EMPTY\<rparr>"

text \<open>
  The hash function selected by the type of the table. The string function dereferences its
  argument, so a NULL key is undefined behaviour; the address of a string is not modelled, so the
  pointer functions are only applied to plain pointers. The 32-bit result of \<open>pjw32\<close> is read as
  a \<open>size_t\<close>, which zero-extends it.
\<close>

definition HASH :: "hash_table_type \<Rightarrow> hkey \<Rightarrow> u64 option" where
  "HASH t k = (case t of
      HASH_KEY_STR \<Rightarrow> (case k of HStr s \<Rightarrow> Some (ucast (pjw32 s)) | HPtr _ \<Rightarrow> None)
    | HASH_KEY_INT \<Rightarrow> (case k of HStr _ \<Rightarrow> None | HPtr p \<Rightarrow> Some (himult64 p))
    | HASH_KEY_PTR \<Rightarrow> (case k of HStr _ \<Rightarrow> None | HPtr p \<Rightarrow> Some (fmix64 p)))"

definition equal_str :: "hkey \<Rightarrow> hkey \<Rightarrow> bool option" where
  "equal_str k1 k2 = (case (k1, k2) of (HStr s1, HStr s2) \<Rightarrow> Some (s1 = s2) | _ \<Rightarrow> None)"

definition equal_pointer :: "hkey \<Rightarrow> hkey \<Rightarrow> bool option" where
  "equal_pointer k1 k2 = (case (k1, k2) of (HPtr p1, HPtr p2) \<Rightarrow> Some (p1 = p2) | _ \<Rightarrow> None)"

definition EQUAL :: "hash_table_type \<Rightarrow> hkey \<Rightarrow> hkey \<Rightarrow> bool option" where
  "EQUAL t k1 k2 = (if t = HASH_KEY_STR then equal_str k1 k2 else equal_pointer k1 k2)"

definition hash_table_new :: "hash_table_type \<Rightarrow> bool \<Rightarrow> bool \<Rightarrow> 'v hash_table" where
  "hash_table_new t key_free_cb value_free_cb =
    \<lparr>ht_type = t, ht_size = HASH_DEFAULT_SIZE,
     ht_table = replicate HASH_DEFAULT_SIZE empty_entry, ht_key_count = 0,
     ht_key_free_cb = key_free_cb, ht_value_free_cb = value_free_cb\<rparr>"

text \<open>What the two \<open>if (cb != NULL && p != NULL) (*cb)(p)\<close> statements release.\<close>

definition free_key :: "'v hash_table \<Rightarrow> hkey \<Rightarrow> 'v freed list" where
  "free_key ht k = (if ht_key_free_cb ht \<and> k \<noteq> NULL_key then [FreedKey k] else [])"

definition free_value :: "'v hash_table \<Rightarrow> 'v option \<Rightarrow> 'v freed list" where
  "free_value ht v =
    (if ht_value_free_cb ht then (case v of None \<Rightarrow> [] | Some x \<Rightarrow> [FreedValue x]) else [])"

definition hash_table_free :: "'v hash_table \<Rightarrow> 'v freed list" where
  "hash_table_free ht =
    concat (map (\<lambda>p. if ent_state p = EMPTY \<or> ent_state p = REMOVED then []
                     else free_key ht (ent_key p) @ free_value ht (ent_value p)) (ht_table ht))"

section \<open>Rehashing\<close>

text \<open>
  The inner loop of \<open>hash_table_rehash\<close>: the first empty slot, or the last slot probed when there
  is none.
\<close>

function empty_loop :: "'v hash_table_entry list \<Rightarrow> nat \<Rightarrow> nat \<Rightarrow> nat \<Rightarrow> nat \<Rightarrow> nat" where
  "empty_loop t n h i w =
    (if i < n
     then let w' = (h + i) mod n
          in if ent_state (t ! w') = EMPTY then w' else empty_loop t n h (Suc i) w'
     else w)"
  by pat_completeness auto
termination
  by (relation "measure (\<lambda>(t, n, h, i, w). n - i)") auto

declare empty_loop.simps [simp del]

definition rehash_entry ::
  "hash_table_type \<Rightarrow> nat \<Rightarrow> 'v hash_table_entry list \<Rightarrow> 'v hash_table_entry
    \<Rightarrow> 'v hash_table_entry list option" where
  "rehash_entry tp n t old =
    (case HASH tp (ent_key old) of
       None \<Rightarrow> None
     | Some k \<Rightarrow>
         let w = empty_loop t n (unat k mod n) 0 0
         in Some (t[w := \<lparr>ent_key = ent_key old, ent_value = ent_value old,
                          ent_state = OCCUPIED\<rparr>]))"

fun rehash_entries ::
  "hash_table_type \<Rightarrow> nat \<Rightarrow> 'v hash_table_entry list \<Rightarrow> 'v hash_table_entry list
    \<Rightarrow> 'v hash_table_entry list option" where
  "rehash_entries tp n t [] = Some t"
| "rehash_entries tp n t (old # olds) =
    (case rehash_entry tp n t old of
       None \<Rightarrow> None
     | Some t' \<Rightarrow> rehash_entries tp n t' olds)"

definition hash_table_rehash :: "'v hash_table \<Rightarrow> 'v hash_table option" where
  "hash_table_rehash ht =
    (let n = 2 * ht_size ht
     in case rehash_entries (ht_type ht) n (replicate n empty_entry) (ht_table ht) of
          None \<Rightarrow> None
        | Some t \<Rightarrow> Some (ht\<lparr>ht_size := n, ht_table := t\<rparr>))"

definition hash_table_must_rehash :: "'v hash_table \<Rightarrow> bool" where
  "hash_table_must_rehash ht \<longleftrightarrow> 23 * ht_key_count ht > 16 * ht_size ht"

definition hash_table_check_overflow :: "'v hash_table \<Rightarrow> 'v hash_table option" where
  "hash_table_check_overflow ht =
    (if hash_table_must_rehash ht then hash_table_rehash ht else Some ht)"

section \<open>Insertion, search, removal\<close>

text \<open>The loop of \<open>hash_table_insert\<close>; it returns the final value of \<open>i\<close>.\<close>

function insert_loop :: "'v hash_table \<Rightarrow> hkey \<Rightarrow> nat \<Rightarrow> nat \<Rightarrow> nat option" where
  "insert_loop ht key h i =
    (if i < ht_size ht
     then let e = ht_table ht ! ((h + i) mod ht_size ht)
          in if ent_state e \<noteq> OCCUPIED then Some i
             else case EQUAL (ht_type ht) (ent_key e) key of
                    None \<Rightarrow> None
                  | Some True \<Rightarrow> Some i
                  | Some False \<Rightarrow> insert_loop ht key h (Suc i)
     else Some i)"
  by pat_completeness auto
termination
  by (relation "measure (\<lambda>(ht, key, h, i). ht_size ht - i)") auto

declare insert_loop.simps [simp del]

text \<open>The body of \<open>hash_table_insert\<close> after the overflow check, \<open>assert(i != ht->size)\<close> included.\<close>

definition insert_slot ::
  "'v hash_table \<Rightarrow> hkey \<Rightarrow> 'v option \<Rightarrow> (int \<times> 'v hash_table \<times> 'v freed list) option" where
  "insert_slot ht key value =
    (case HASH (ht_type ht) key of
       None \<Rightarrow> None
     | Some k \<Rightarrow>
         (let h = unat k mod ht_size ht
          in case insert_loop ht key h 0 of
               None \<Rightarrow> None
             | Some i \<Rightarrow>
                 (if i = ht_size ht then None
                  else let w = (h + i) mod ht_size ht;
                           e = ht_table ht ! w
                       in Some (1,
                            ht\<lparr>ht_table := (ht_table ht)[w :=
                                 \<lparr>ent_key = key, ent_value = value, ent_state = OCCUPIED\<rparr>],
                               ht_key_count := ht_key_count ht + 1\<rparr>,
                            free_key ht (ent_key e) @ free_value ht (ent_value e)))))"

definition hash_table_insert ::
  "'v hash_table \<Rightarrow> hkey \<Rightarrow> 'v option \<Rightarrow> (int \<times> 'v hash_table \<times> 'v freed list) option" where
  "hash_table_insert ht key value =
    (case hash_table_check_overflow ht of
       None \<Rightarrow> None
     | Some ht' \<Rightarrow> insert_slot ht' key value)"

text \<open>\<open>lookup_entry\<close> returns the index of the entry, \<open>None\<close> for the NULL it returns.\<close>

function lookup_loop :: "'v hash_table \<Rightarrow> hkey \<Rightarrow> nat \<Rightarrow> nat \<Rightarrow> nat option option" where
  "lookup_loop ht key h i =
    (if i < ht_size ht
     then let w = (h + i) mod ht_size ht; e = ht_table ht ! w
          in if ent_state e = EMPTY then Some None
             else if ent_state e = REMOVED then lookup_loop ht key h (Suc i)
             else case EQUAL (ht_type ht) (ent_key e) key of
                    None \<Rightarrow> None
                  | Some True \<Rightarrow> Some (Some w)
                  | Some False \<Rightarrow> lookup_loop ht key h (Suc i)
     else Some None)"
  by pat_completeness auto
termination
  by (relation "measure (\<lambda>(ht, key, h, i). ht_size ht - i)") auto

declare lookup_loop.simps [simp del]

definition lookup_entry :: "'v hash_table \<Rightarrow> hkey \<Rightarrow> nat option option" where
  "lookup_entry ht key =
    (case HASH (ht_type ht) key of
       None \<Rightarrow> None
     | Some k \<Rightarrow> lookup_loop ht key (unat k mod ht_size ht) 0)"

definition hash_table_search :: "'v hash_table \<Rightarrow> hkey \<Rightarrow> 'v option option" where
  "hash_table_search ht key =
    (case lookup_entry ht key of
       None \<Rightarrow> None
     | Some None \<Rightarrow> Some None
     | Some (Some w) \<Rightarrow> Some (ent_value (ht_table ht ! w)))"

text \<open>\<open>key_count--\<close> on a \<open>size_t\<close>.\<close>

definition size_t_dec :: "nat \<Rightarrow> nat" where
  "size_t_dec n = (if n = 0 then 2 ^ 64 - 1 else n - 1)"

definition hash_table_remove ::
  "'v hash_table \<Rightarrow> hkey \<Rightarrow> (int \<times> 'v hash_table \<times> 'v freed list) option" where
  "hash_table_remove ht key =
    (case lookup_entry ht key of
       None \<Rightarrow> None
     | Some None \<Rightarrow> Some (0, ht, [])
     | Some (Some w) \<Rightarrow>
         (let p = ht_table ht ! w
          in Some (1,
               ht\<lparr>ht_table := (ht_table ht)[w :=
                     \<lparr>ent_key = NULL_key, ent_value = None, ent_state = REMOVED\<rparr>],
                  ht_key_count := size_t_dec (ht_key_count ht)\<rparr>,
               free_key ht (ent_key p) @ free_value ht (ent_value p))))"

section \<open>Facts about the hash functions\<close>

lemma xorshift33_involution: "xorshift33 (xorshift33 k) = k"
proof (rule bit_word_eqI)
  fix n assume "n < LENGTH(64)"
  then show "bit (xorshift33 (xorshift33 k)) n \<longleftrightarrow> bit k n"
    by (auto simp: xorshift33_def bit_simps)
qed

lemma xorshift33_inj: "xorshift33 k = xorshift33 k' \<Longrightarrow> k = k'"
  by (metis xorshift33_involution)

lemma mult_unit_inj:
  fixes a b c d :: u64
  assumes "c * d = 1" and "a * c = b * c"
  shows "a = b"
proof -
  have "a * (c * d) = b * (c * d)"
    using assms(2) by (metis mult.assoc)
  with assms(1) show ?thesis
    by simp
qed

lemma himult64_inj: "himult64 k = himult64 k' \<Longrightarrow> k = k'"
  unfolding himult64_def by (rule mult_unit_inj [where d = 16764672259175965159]) simp_all

lemma fmix64_inj: "fmix64 k = fmix64 k' \<Longrightarrow> k = k'"
proof -
  assume "fmix64 k = fmix64 k'"
  then have "xorshift33 (xorshift33 k * 0xff51afd7ed558ccd) * 0xc4ceb9fe1a85ec53
           = xorshift33 (xorshift33 k' * 0xff51afd7ed558ccd) * 0xc4ceb9fe1a85ec53"
    by (auto simp: fmix64_def Let_def dest: xorshift33_inj)
  then have "xorshift33 (xorshift33 k * 0xff51afd7ed558ccd)
           = xorshift33 (xorshift33 k' * 0xff51afd7ed558ccd)"
    by (rule mult_unit_inj [where d = "0x9cb4b2f8129337db", rotated]) simp
  then have "xorshift33 k * 0xff51afd7ed558ccd = xorshift33 k' * 0xff51afd7ed558ccd"
    by (rule xorshift33_inj)
  then have "xorshift33 k = xorshift33 k'"
    by (rule mult_unit_inj [where d = "0x4f74430c22a54005", rotated]) simp
  then show "k = k'"
    by (rule xorshift33_inj)
qed

lemma high_nibble_mask: "(0xF0000000 :: u32) = push_bit 28 (mask 4)"
  by (simp add: mask_eq_exp_minus_1)

lemma pjw32_step_high: "pjw32_step h c AND 0xF0000000 = 0"
proof -
  have bits: "bit (pjw32_step h c) n \<Longrightarrow> n < 28" if "n < 32" for n
    using that unfolding pjw32_step_def high_nibble_mask Let_def
    by (auto simp: bit_simps possible_bit_def split: if_splits)
  show ?thesis
  proof (rule bit_word_eqI)
    fix n assume "n < LENGTH(32)"
    then show "bit (pjw32_step h c AND 0xF0000000) n \<longleftrightarrow> bit (0 :: u32) n"
      using bits [of n] by (auto simp: high_nibble_mask bit_simps possible_bit_def)
  qed
qed

lemma pjw32_high: "pjw32 s AND 0xF0000000 = 0"
proof (cases s rule: rev_cases)
  case Nil
  then show ?thesis by (simp add: pjw32_def)
next
  case (snoc xs x)
  then show ?thesis by (simp add: pjw32_def pjw32_step_high)
qed

section \<open>Probe sequences\<close>

lemma probe_inj_le:
  fixes h i j n :: nat
  assumes "i \<le> j" "j < n" "(h + i) mod n = (h + j) mod n"
  shows "i = j"
proof -
  have "n dvd (h + j) - (h + i)"
    using assms(1,3) mod_eq_dvd_iff_nat [of "h + i" "h + j" n] by simp
  then have "j - i = 0"
    using assms(2) dvd_imp_le [of n "j - i"] by (cases "j - i = 0") auto
  with assms(1) show ?thesis
    by simp
qed

lemma probe_inj:
  fixes h i j n :: nat
  assumes "i < n" "j < n" "(h + i) mod n = (h + j) mod n"
  shows "i = j"
  using assms probe_inj_le [of i j n h] probe_inj_le [of j i n h] by (cases "i \<le> j") auto

lemma probe_surj:
  fixes h w n :: nat
  assumes "w < n"
  shows "\<exists>i < n. (h + i) mod n = w"
proof (intro exI conjI)
  let ?i = "(w + (n - h mod n)) mod n"
  show "?i < n"
    using assms by simp
  have "(h + ?i) mod n = (h mod n + (w + (n - h mod n))) mod n"
    by (simp add: mod_simps)
  also have "h mod n + (w + (n - h mod n)) = w + n"
    using assms mod_less_divisor [of n h] by linarith
  finally show "(h + ?i) mod n = w"
    using assms by simp
qed

section \<open>Well-formed tables\<close>

text \<open>The kind of key a table of a given type accepts.\<close>

fun key_fits :: "hash_table_type \<Rightarrow> hkey \<Rightarrow> bool" where
  "key_fits HASH_KEY_STR (HStr _) = True"
| "key_fits HASH_KEY_STR (HPtr _) = False"
| "key_fits _ (HStr _) = False"
| "key_fits _ (HPtr _) = True"

lemma EQUAL_fits: "key_fits t k1 \<Longrightarrow> key_fits t k2 \<Longrightarrow> EQUAL t k1 k2 = Some (k1 = k2)"
  by (cases t; cases k1; cases k2) (auto simp: EQUAL_def equal_str_def equal_pointer_def)

lemma HASH_fits: "key_fits t k \<Longrightarrow> \<exists>h. HASH t k = Some h"
  by (cases t; cases k) (auto simp: HASH_def)

lemma HASH_not_fits: "\<not> key_fits t k \<Longrightarrow> HASH t k = None"
  by (cases t; cases k) (auto simp: HASH_def)

lemma NULL_fits: "key_fits t NULL_key \<longleftrightarrow> t \<noteq> HASH_KEY_STR"
  by (cases t) (auto simp: NULL_key_def)

text \<open>The slot at which the probe sequence of a key starts.\<close>

definition home :: "hash_table_type \<Rightarrow> nat \<Rightarrow> hkey \<Rightarrow> nat" where
  "home t n k = (case HASH t k of None \<Rightarrow> 0 | Some h \<Rightarrow> unat h mod n)"

abbreviation occupied :: "'v hash_table_entry \<Rightarrow> bool" where
  "occupied e \<equiv> ent_state e = OCCUPIED"

abbreviation live :: "'v hash_table_entry \<Rightarrow> bool" where
  "live e \<equiv> occupied e \<and> ent_key e \<noteq> NULL_key"

text \<open>No empty slot separates slot \<open>w\<close> from the home slot of key \<open>k\<close>.\<close>

definition on_path :: "hash_table_type \<Rightarrow> nat \<Rightarrow> 'v hash_table_entry list \<Rightarrow> hkey \<Rightarrow> nat \<Rightarrow> bool" where
  "on_path tp n t k w \<longleftrightarrow>
    (\<exists>d < n. w = (home tp n k + d) mod n
      \<and> (\<forall>j < d. ent_state (t ! ((home tp n k + j) mod n)) \<noteq> EMPTY))"

definition table_inv :: "hash_table_type \<Rightarrow> nat \<Rightarrow> 'v hash_table_entry list \<Rightarrow> bool" where
  "table_inv tp n t \<longleftrightarrow>
    0 < n \<and> length t = n
    \<and> (\<forall>w < n. occupied (t ! w) \<longrightarrow> key_fits tp (ent_key (t ! w)) \<and> on_path tp n t (ent_key (t ! w)) w)
    \<and> (\<forall>w < n. \<not> occupied (t ! w) \<longrightarrow> ent_key (t ! w) = NULL_key \<and> ent_value (t ! w) = None)
    \<and> (\<forall>w < n. \<forall>w' < n. live (t ! w) \<longrightarrow> occupied (t ! w') \<longrightarrow> ent_key (t ! w) = ent_key (t ! w')
        \<longrightarrow> w = w')"

lemma table_invD:
  assumes "table_inv tp n t"
  shows "0 < n" and "length t = n"
    and "w < n \<Longrightarrow> occupied (t ! w) \<Longrightarrow> key_fits tp (ent_key (t ! w))"
    and "w < n \<Longrightarrow> occupied (t ! w) \<Longrightarrow> on_path tp n t (ent_key (t ! w)) w"
    and "w < n \<Longrightarrow> \<not> occupied (t ! w) \<Longrightarrow> ent_key (t ! w) = NULL_key"
    and "w < n \<Longrightarrow> \<not> occupied (t ! w) \<Longrightarrow> ent_value (t ! w) = None"
    and "w < n \<Longrightarrow> w' < n \<Longrightarrow> live (t ! w) \<Longrightarrow> occupied (t ! w') \<Longrightarrow> ent_key (t ! w) = ent_key (t ! w')
      \<Longrightarrow> w = w'"
  using assms unfolding table_inv_def by blast+

text \<open>
  Storing an entry in a slot that no key occupies: the slot must be on the probe path of the key, and
  the key must be new (or NULL, which rehashing stores many times).
\<close>

lemma on_path_list_update:
  assumes "on_path tp n t k w" and "ent_state e \<noteq> EMPTY"
  shows "on_path tp n (t[x := e]) k w"
proof -
  obtain d where d: "d < n" "w = (home tp n k + d) mod n"
      "\<forall>j < d. ent_state (t ! ((home tp n k + j) mod n)) \<noteq> EMPTY"
    using assms(1) by (auto simp: on_path_def)
  have "ent_state (t[x := e] ! ((home tp n k + j) mod n)) \<noteq> EMPTY" if "j < d" for j
    using d(3) that assms(2)
    by (cases "x = (home tp n k + j) mod n"; cases "x < length t")
       (auto simp: list_update_beyond)
  with d show ?thesis
    by (auto simp: on_path_def)
qed

lemma table_inv_store:
  assumes inv: "table_inv tp n t" and w: "w < n" and free: "\<not> occupied (t ! w)"
    and e: "occupied e" "key_fits tp (ent_key e)" and path: "on_path tp n t (ent_key e) w"
    and fresh: "ent_key e = NULL_key \<or> (\<forall>x < n. occupied (t ! x) \<longrightarrow> ent_key (t ! x) \<noteq> ent_key e)"
  shows "table_inv tp n (t[w := e])"
  unfolding table_inv_def
proof (intro conjI allI impI)
  note D = table_invD [OF inv]
  have nth: "t[w := e] ! x = (if x = w then e else t ! x)" if "x < n" for x
    using that w D(2) by simp
  show "0 < n" "length (t[w := e]) = n"
    using D by simp_all
  {
    fix x assume x: "x < n" "occupied (t[w := e] ! x)"
    then show "key_fits tp (ent_key (t[w := e] ! x))"
      using D(3) e by (simp add: nth split: if_splits)
    have "on_path tp n t (ent_key (t[w := e] ! x)) x"
      using x D(4) path by (simp add: nth split: if_splits)
    then show "on_path tp n (t[w := e]) (ent_key (t[w := e] ! x)) x"
      using e(1) by (simp add: on_path_list_update)
  }
  {
    fix x assume x: "x < n" "\<not> occupied (t[w := e] ! x)"
    then show "ent_key (t[w := e] ! x) = NULL_key" "ent_value (t[w := e] ! x) = None"
      using D(5,6) e(1) by (auto simp: nth split: if_splits)
  }
  fix x y assume "x < n" "y < n" "live (t[w := e] ! x)" "occupied (t[w := e] ! y)"
    "ent_key (t[w := e] ! x) = ent_key (t[w := e] ! y)"
  then show "x = y"
    using D(7) [of x y] fresh by (cases "x = w"; cases "y = w") (simp_all add: nth, metis+)
qed

lemma table_inv_tombstone:
  assumes inv: "table_inv tp n t" and w: "w < n"
  shows "table_inv tp n (t[w := \<lparr>ent_key = NULL_key, ent_value = None, ent_state = REMOVED\<rparr>])"
    (is "table_inv tp n (t[w := ?e])")
  unfolding table_inv_def
proof (intro conjI allI impI)
  note D = table_invD [OF inv]
  have nth: "t[w := ?e] ! x = (if x = w then ?e else t ! x)" if "x < n" for x
    using that w D(2) by simp
  show "0 < n" "length (t[w := ?e]) = n"
    using D by simp_all
  {
    fix x assume x: "x < n" "occupied (t[w := ?e] ! x)"
    then show "key_fits tp (ent_key (t[w := ?e] ! x))"
      using D(3) by (simp add: nth split: if_splits)
    have "on_path tp n t (ent_key (t[w := ?e] ! x)) x"
      using x D(4) by (simp add: nth split: if_splits)
    then show "on_path tp n (t[w := ?e]) (ent_key (t[w := ?e] ! x)) x"
      by (simp add: on_path_list_update)
  }
  {
    fix x assume x: "x < n" "\<not> occupied (t[w := ?e] ! x)"
    then show "ent_key (t[w := ?e] ! x) = NULL_key" "ent_value (t[w := ?e] ! x) = None"
      using D(5,6) by (auto simp: nth split: if_splits)
  }
  fix x y assume "x < n" "y < n" "live (t[w := ?e] ! x)" "occupied (t[w := ?e] ! y)"
    "ent_key (t[w := ?e] ! x) = ent_key (t[w := ?e] ! y)"
  then show "x = y"
    using D(7) [of x y] by (cases "x = w"; cases "y = w") (simp_all add: nth)
qed

section \<open>The loops\<close>

lemma empty_loop_first:
  assumes "i \<le> d" "d < n" "ent_state (t ! ((h + d) mod n)) = EMPTY"
  shows "\<exists>d'. i \<le> d' \<and> d' < n \<and> empty_loop t n h i w = (h + d') mod n
      \<and> ent_state (t ! ((h + d') mod n)) = EMPTY
      \<and> (\<forall>j. i \<le> j \<and> j < d' \<longrightarrow> ent_state (t ! ((h + j) mod n)) \<noteq> EMPTY)"
  using assms
proof (induction t n h i w rule: empty_loop.induct)
  case (1 t n h i w)
  show ?case
  proof (cases "ent_state (t ! ((h + i) mod n)) = EMPTY")
    case True
    with "1.prems" show ?thesis
      by (intro exI [of _ i]) (auto simp: empty_loop.simps [of t n h i w])
  next
    case False
    with "1.prems" have "i < n" and "Suc i \<le> d"
      by (auto simp: Suc_le_eq le_less)
    then obtain d' where d': "Suc i \<le> d'" "d' < n"
        "empty_loop t n h (Suc i) ((h + i) mod n) = (h + d') mod n"
        "ent_state (t ! ((h + d') mod n)) = EMPTY"
        "\<forall>j. Suc i \<le> j \<and> j < d' \<longrightarrow> ent_state (t ! ((h + j) mod n)) \<noteq> EMPTY"
      using "1.IH" [OF _ refl False] "1.prems" by blast
    have "ent_state (t ! ((h + j) mod n)) \<noteq> EMPTY" if "i \<le> j" "j < d'" for j
      using d'(5) False that by (cases "i = j") auto
    with d' False \<open>i < n\<close> show ?thesis
      by (intro exI [of _ d']) (simp add: empty_loop.simps [of t n h i w])
  qed
qed

lemma insert_loop_step:
  assumes "i < ht_size ht" "occupied (ht_table ht ! ((h + i) mod ht_size ht))"
    and "EQUAL (ht_type ht) (ent_key (ht_table ht ! ((h + i) mod ht_size ht))) key = Some False"
  shows "insert_loop ht key h i = insert_loop ht key h (Suc i)"
  using assms by (simp add: insert_loop.simps [of ht key h i])

lemma insert_loop_free:
  assumes "d < ht_size ht" "\<not> occupied (ht_table ht ! ((h + d) mod ht_size ht))"
    and neq: "\<And>w. w < ht_size ht \<Longrightarrow> occupied (ht_table ht ! w) \<Longrightarrow>
      EQUAL (ht_type ht) (ent_key (ht_table ht ! w)) key = Some False"
    and "i \<le> d"
  shows "\<exists>d'. d' < ht_size ht \<and> insert_loop ht key h i = Some d'
      \<and> \<not> occupied (ht_table ht ! ((h + d') mod ht_size ht))
      \<and> (\<forall>j. i \<le> j \<and> j < d' \<longrightarrow> occupied (ht_table ht ! ((h + j) mod ht_size ht)))"
  using assms(4)
proof (induction "d - i" arbitrary: i)
  case 0
  with assms(1,2) show ?case
    by (intro exI [of _ i]) (auto simp: insert_loop.simps [of ht key h i])
next
  case (Suc m)
  let ?occ = "\<lambda>j. occupied (ht_table ht ! ((h + j) mod ht_size ht))"
  have i: "i < ht_size ht"
    using Suc assms(1) by simp
  show ?case
  proof (cases "?occ i")
    case False
    with i show ?thesis
      by (intro exI [of _ i]) (auto simp: insert_loop.simps [of ht key h i])
  next
    case True
    have step: "insert_loop ht key h i = insert_loop ht key h (Suc i)"
      using insert_loop_step [OF i True neq] i True by simp
    have "m = d - Suc i" "Suc i \<le> d"
      using Suc.hyps(2) by simp_all
    from Suc.hyps(1) [OF this] obtain d' where d': "d' < ht_size ht"
        "insert_loop ht key h (Suc i) = Some d'" "\<not> ?occ d'"
        "\<And>j. Suc i \<le> j \<and> j < d' \<Longrightarrow> ?occ j"
      by blast
    have "?occ j" if "i \<le> j \<and> j < d'" for j
      using d'(4) [of j] True that by (cases "i = j") simp_all
    with d'(1-3) step show ?thesis
      by (intro exI [of _ d'] conjI) simp_all
  qed
qed

lemma lookup_loop_step:
  assumes "i < ht_size ht" "ent_state (ht_table ht ! ((h + i) mod ht_size ht)) \<noteq> EMPTY"
    and "occupied (ht_table ht ! ((h + i) mod ht_size ht)) \<Longrightarrow>
      EQUAL (ht_type ht) (ent_key (ht_table ht ! ((h + i) mod ht_size ht))) key = Some False"
  shows "lookup_loop ht key h i = lookup_loop ht key h (Suc i)"
  using assms
  by (cases "ent_state (ht_table ht ! ((h + i) mod ht_size ht))")
     (simp_all add: lookup_loop.simps [of ht key h i])

lemma lookup_loop_found:
  assumes "d < ht_size ht" "occupied (ht_table ht ! ((h + d) mod ht_size ht))"
    and "EQUAL (ht_type ht) (ent_key (ht_table ht ! ((h + d) mod ht_size ht))) key = Some True"
    and full: "\<And>j. j < d \<Longrightarrow> ent_state (ht_table ht ! ((h + j) mod ht_size ht)) \<noteq> EMPTY"
    and neq: "\<And>j. j < d \<Longrightarrow> occupied (ht_table ht ! ((h + j) mod ht_size ht)) \<Longrightarrow>
      EQUAL (ht_type ht) (ent_key (ht_table ht ! ((h + j) mod ht_size ht))) key = Some False"
    and "i \<le> d"
  shows "lookup_loop ht key h i = Some (Some ((h + d) mod ht_size ht))"
  using assms(6)
proof (induction "d - i" arbitrary: i)
  case 0
  then have "i = d" by simp
  with assms(1,2,3) show ?case
    by (simp add: lookup_loop.simps [of ht key h d])
next
  case (Suc m)
  then have "i < d" "m = d - Suc i" "Suc i \<le> d"
    by simp_all
  moreover have "lookup_loop ht key h i = lookup_loop ht key h (Suc i)"
    using \<open>i < d\<close> assms(1) full neq by (intro lookup_loop_step) simp_all
  ultimately show ?case
    using Suc.hyps(1) by simp
qed

lemma lookup_loop_absent:
  assumes neq: "\<And>w. w < ht_size ht \<Longrightarrow> occupied (ht_table ht ! w) \<Longrightarrow>
      EQUAL (ht_type ht) (ent_key (ht_table ht ! w)) key = Some False"
  shows "lookup_loop ht key h i = Some None"
proof (induction "ht_size ht - i" arbitrary: i)
  case 0
  then show ?case by (simp add: lookup_loop.simps [of ht key h i])
next
  case (Suc m)
  then have i: "i < ht_size ht" "m = ht_size ht - Suc i"
    by simp_all
  show ?case
  proof (cases "ent_state (ht_table ht ! ((h + i) mod ht_size ht)) = EMPTY")
    case True
    with i show ?thesis by (simp add: lookup_loop.simps [of ht key h i])
  next
    case False
    have "lookup_loop ht key h i = lookup_loop ht key h (Suc i)"
      using i(1) False neq by (intro lookup_loop_step) simp_all
    with Suc.hyps(1) i(2) show ?thesis by simp
  qed
qed

section \<open>The map a table stands for\<close>

definition ht_map :: "'v hash_table \<Rightarrow> hkey \<rightharpoonup> 'v option" where
  "ht_map ht k = map_option ent_value (find (\<lambda>e. live e \<and> ent_key e = k) (ht_table ht))"

definition occ_count :: "'v hash_table \<Rightarrow> nat" where
  "occ_count ht = length (filter occupied (ht_table ht))"

definition live_count :: "'v hash_table \<Rightarrow> nat" where
  "live_count ht = length (filter live (ht_table ht))"

text \<open>
  The invariant of a table: probing is sound, the counter covers the live keys, and the slots that
  hold no live key (a rehash marks the empty slots it copies as occupied) are few enough for
  \<open>hash_table_must_rehash\<close> to act before the table is full.
\<close>

definition hash_table_inv :: "'v hash_table \<Rightarrow> bool" where
  "hash_table_inv ht \<longleftrightarrow>
    table_inv (ht_type ht) (ht_size ht) (ht_table ht)
    \<and> 46 * occ_count ht \<le> 46 * ht_key_count ht + 7 * ht_size ht
    \<and> live_count ht \<le> ht_key_count ht"

abbreviation tinv :: "'v hash_table \<Rightarrow> bool" where
  "tinv ht \<equiv> table_inv (ht_type ht) (ht_size ht) (ht_table ht)"

lemma ht_map_iff:
  assumes "tinv ht"
  shows "ht_map ht k = Some v \<longleftrightarrow>
    (\<exists>w < ht_size ht. live (ht_table ht ! w) \<and> ent_key (ht_table ht ! w) = k
      \<and> ent_value (ht_table ht ! w) = v)"
proof
  note D = table_invD [OF assms]
  assume "ht_map ht k = Some v"
  then show "\<exists>w < ht_size ht. live (ht_table ht ! w) \<and> ent_key (ht_table ht ! w) = k
      \<and> ent_value (ht_table ht ! w) = v"
    using D(2) by (auto simp: ht_map_def find_Some_iff)
next
  note D = table_invD [OF assms]
  assume "\<exists>w < ht_size ht. live (ht_table ht ! w) \<and> ent_key (ht_table ht ! w) = k
      \<and> ent_value (ht_table ht ! w) = v"
  then obtain w where w: "w < ht_size ht" "live (ht_table ht ! w)" "ent_key (ht_table ht ! w) = k"
      "ent_value (ht_table ht ! w) = v"
    by blast
  have before: "\<not> (live (ht_table ht ! j) \<and> ent_key (ht_table ht ! j) = k)" if "j < w" for j
    using D(7) [of j w] that w by auto
  have "find (\<lambda>e. live e \<and> ent_key e = k) (ht_table ht) = Some (ht_table ht ! w)"
    unfolding find_Some_iff using D(2) w before by (intro exI [of _ w]) simp
  with w(4) show "ht_map ht k = Some v"
    by (simp add: ht_map_def)
qed

lemma ht_map_None_iff:
  assumes "tinv ht"
  shows "ht_map ht k = None \<longleftrightarrow>
    (\<forall>w < ht_size ht. live (ht_table ht ! w) \<longrightarrow> ent_key (ht_table ht ! w) \<noteq> k)"
  using ht_map_iff [OF assms, of k] by (cases "ht_map ht k") auto

lemma ht_map_eqI:
  assumes "tinv ht"
    and "\<And>v. m k = Some v \<longleftrightarrow> (\<exists>w < ht_size ht. live (ht_table ht ! w)
      \<and> ent_key (ht_table ht ! w) = k \<and> ent_value (ht_table ht ! w) = v)"
  shows "ht_map ht k = m k"
proof -
  have "ht_map ht k = Some v \<longleftrightarrow> m k = Some v" for v
    using assms by (simp add: ht_map_iff)
  then show ?thesis
    by (cases "m k"; cases "ht_map ht k") auto
qed

lemma ht_map_NULL [simp]: "ht_map ht NULL_key = None"
  by (auto simp: ht_map_def find_None_iff)

section \<open>Search\<close>

lemma lookup_entry_found:
  assumes inv: "tinv ht" and w: "w < ht_size ht" "live (ht_table ht ! w)"
  shows "lookup_entry ht (ent_key (ht_table ht ! w)) = Some (Some w)"
proof -
  note D = table_invD [OF inv]
  let ?k = "ent_key (ht_table ht ! w)"
  obtain d where d: "d < ht_size ht" "w = (home (ht_type ht) (ht_size ht) ?k + d) mod ht_size ht"
      "\<forall>j < d. ent_state (ht_table ht ! ((home (ht_type ht) (ht_size ht) ?k + j) mod ht_size ht)) \<noteq> EMPTY"
    using D(4) [of w] w by (auto simp: on_path_def)
  obtain h where h: "HASH (ht_type ht) ?k = Some h"
    using D(3) [of w] w HASH_fits by blast
  let ?h = "unat h mod ht_size ht"
  have home: "home (ht_type ht) (ht_size ht) ?k = ?h"
    by (simp add: home_def h)
  have "lookup_loop ht ?k ?h 0 = Some (Some ((?h + d) mod ht_size ht))"
  proof (rule lookup_loop_found)
    show "d < ht_size ht" by (rule d(1))
    show "occupied (ht_table ht ! ((?h + d) mod ht_size ht))"
      using w d(2) home by simp
    show "EQUAL (ht_type ht) (ent_key (ht_table ht ! ((?h + d) mod ht_size ht))) ?k = Some True"
      using D(3) [of w] w d(2) home by (simp add: EQUAL_fits)
    show "\<And>j. j < d \<Longrightarrow> ent_state (ht_table ht ! ((?h + j) mod ht_size ht)) \<noteq> EMPTY"
      using d(3) home by simp
    fix j assume j: "j < d" "occupied (ht_table ht ! ((?h + j) mod ht_size ht))"
    let ?x = "(?h + j) mod ht_size ht"
    have x: "?x < ht_size ht" using D(1) by simp
    have "?x \<noteq> w"
      using probe_inj [of j "ht_size ht" d ?h] j(1) d(1,2) home by auto
    then have "ent_key (ht_table ht ! ?x) \<noteq> ?k"
      using D(7) [of w ?x] w x j(2) by metis
    then show "EQUAL (ht_type ht) (ent_key (ht_table ht ! ?x)) ?k = Some False"
      using D(3) [of w] D(3) [OF x j(2)] w by (simp add: EQUAL_fits)
  qed simp
  with d(2) home h show ?thesis
    by (simp add: lookup_entry_def)
qed

lemma lookup_entry_absent:
  assumes inv: "tinv ht" and k: "key_fits (ht_type ht) k" "k \<noteq> NULL_key" "ht_map ht k = None"
  shows "lookup_entry ht k = Some None"
proof -
  obtain h where "HASH (ht_type ht) k = Some h"
    using HASH_fits k(1) by blast
  moreover have "EQUAL (ht_type ht) (ent_key (ht_table ht ! w)) k = Some False"
    if "w < ht_size ht" "occupied (ht_table ht ! w)" for w
    using that k table_invD(3) [OF inv that] ht_map_None_iff [OF inv, of k]
    by (auto simp: EQUAL_fits)
  ultimately show ?thesis
    by (simp add: lookup_entry_def lookup_loop_absent)
qed

lemma search_map:
  assumes inv: "tinv ht" and k: "key_fits (ht_type ht) k" "k \<noteq> NULL_key"
  shows "hash_table_search ht k = Some (case ht_map ht k of None \<Rightarrow> None | Some v \<Rightarrow> v)"
proof (cases "ht_map ht k")
  case None
  with assms show ?thesis
    by (simp add: hash_table_search_def lookup_entry_absent)
next
  case (Some v)
  then obtain w where "w < ht_size ht" "live (ht_table ht ! w)" "ent_key (ht_table ht ! w) = k"
      "ent_value (ht_table ht ! w) = v"
    using ht_map_iff [OF inv, of k v] by blast
  with inv Some show ?thesis
    using lookup_entry_found [OF inv, of w] by (simp add: hash_table_search_def)
qed

text \<open>A lookup never goes wrong, for NULL as well.\<close>

lemma lookup_loop_total:
  assumes "tinv ht" "key_fits (ht_type ht) k"
  shows "\<exists>r. lookup_loop ht k h i = Some r \<and> (\<forall>w. r = Some w \<longrightarrow> w < ht_size ht)"
proof (induction "ht_size ht - i" arbitrary: i)
  case 0
  then show ?case by (subst lookup_loop.simps) simp
next
  case (Suc n)
  let ?w = "(h + i) mod ht_size ht"
  have IH: "\<exists>r. lookup_loop ht k h (Suc i) = Some r \<and> (\<forall>w. r = Some w \<longrightarrow> w < ht_size ht)"
    using Suc.hyps(2) by (intro Suc.hyps(1)) simp
  have w: "?w < ht_size ht"
    using Suc.hyps(2) by simp
  then have "ent_state (ht_table ht ! ?w) = OCCUPIED \<longrightarrow> key_fits (ht_type ht) (ent_key (ht_table ht ! ?w))"
    using assms(1) by (auto simp: table_inv_def)
  then have "ent_state (ht_table ht ! ?w) = OCCUPIED
      \<longrightarrow> EQUAL (ht_type ht) (ent_key (ht_table ht ! ?w)) k = Some (ent_key (ht_table ht ! ?w) = k)"
    using EQUAL_fits [OF _ assms(2)] by blast
  with IH w show ?case
    by (subst lookup_loop.simps, cases "ent_state (ht_table ht ! ?w)") (simp_all add: Let_def split: bool.split)
qed

lemma search_total:
  assumes "tinv ht" "key_fits (ht_type ht) k"
  shows "\<exists>r. hash_table_search ht k = Some r"
    "\<exists>r ht' fr. hash_table_remove ht k = Some (r, ht', fr) \<and> tinv ht' \<and> ht_type ht' = ht_type ht"
proof -
  obtain h where "HASH (ht_type ht) k = Some h"
    using HASH_fits [OF assms(2)] by blast
  then obtain r where r: "lookup_entry ht k = Some r" "\<And>w. r = Some w \<Longrightarrow> w < ht_size ht"
    using lookup_loop_total [OF assms, of "unat h mod ht_size ht" 0] by (auto simp: lookup_entry_def)
  then show "\<exists>r. hash_table_search ht k = Some r"
    by (auto simp: hash_table_search_def split: option.split)
  show "\<exists>r ht' fr. hash_table_remove ht k = Some (r, ht', fr) \<and> tinv ht' \<and> ht_type ht' = ht_type ht"
  proof (cases r)
    case None
    with r assms(1) show ?thesis by (simp add: hash_table_remove_def)
  next
    case (Some w)
    with r table_inv_tombstone [OF assms(1) r(2) [OF Some]] show ?thesis
      by (simp add: hash_table_remove_def Let_def)
  qed
qed

section \<open>Removal\<close>

definition removed_table :: "'v hash_table \<Rightarrow> nat \<Rightarrow> 'v hash_table" where
  "removed_table ht w =
    ht\<lparr>ht_table := (ht_table ht)[w := \<lparr>ent_key = NULL_key, ent_value = None, ent_state = REMOVED\<rparr>],
       ht_key_count := size_t_dec (ht_key_count ht)\<rparr>"

lemma removed_table_simps [simp]:
  "ht_type (removed_table ht w) = ht_type ht"
  "ht_size (removed_table ht w) = ht_size ht"
  "ht_key_free_cb (removed_table ht w) = ht_key_free_cb ht"
  "ht_value_free_cb (removed_table ht w) = ht_value_free_cb ht"
  by (simp_all add: removed_table_def)

lemma removed_table_nth:
  "w < length (ht_table ht) \<Longrightarrow> ht_table (removed_table ht w) ! x
    = (if x = w then \<lparr>ent_key = NULL_key, ent_value = None, ent_state = REMOVED\<rparr> else ht_table ht ! x)"
  by (auto simp: removed_table_def nth_list_update)

lemma removed_table_map:
  assumes inv: "tinv ht" and w: "w < ht_size ht" "live (ht_table ht ! w)"
  shows "tinv (removed_table ht w)"
    and "ht_map (removed_table ht w) = (ht_map ht)(ent_key (ht_table ht ! w) := None)"
proof -
  note D = table_invD [OF inv]
  show inv': "tinv (removed_table ht w)"
    using table_inv_tombstone [OF inv w(1)] by (simp add: removed_table_def)
  show "ht_map (removed_table ht w) = (ht_map ht)(ent_key (ht_table ht ! w) := None)"
  proof (rule ext, rule ht_map_eqI [OF inv'])
    fix k v
    have nth: "ht_table (removed_table ht w) ! x = (if x = w
        then \<lparr>ent_key = NULL_key, ent_value = None, ent_state = REMOVED\<rparr> else ht_table ht ! x)" for x
      using D(2) w(1) by (simp add: removed_table_nth)
    show "((ht_map ht)(ent_key (ht_table ht ! w) := None)) k = Some v \<longleftrightarrow>
      (\<exists>x < ht_size (removed_table ht w). live (ht_table (removed_table ht w) ! x)
        \<and> ent_key (ht_table (removed_table ht w) ! x) = k
        \<and> ent_value (ht_table (removed_table ht w) ! x) = v)"
    proof (cases "k = ent_key (ht_table ht ! w)")
      case True
      then have "x = w" if "x < ht_size ht" "occupied (ht_table ht ! x)" "ent_key (ht_table ht ! x) = k" for x
        using D(7) [OF w(1) that(1) w(2) that(2)] that(3) by simp
      with True show ?thesis
        by (auto simp: nth)
    next
      case False
      then show ?thesis
        by (auto simp: nth ht_map_iff [OF inv])
    qed
  qed
qed

lemma removed_table_counts:
  assumes inv: "hash_table_inv ht" and w: "w < ht_size ht" "live (ht_table ht ! w)"
  shows "ht_key_count (removed_table ht w) = ht_key_count ht - 1"
    and "0 < ht_key_count ht"
    and "hash_table_inv (removed_table ht w)"
proof -
  have len: "w < length (ht_table ht)"
    using inv w(1) by (simp add: hash_table_inv_def table_inv_def)
  have occ: "occ_count (removed_table ht w) + 1 = occ_count ht"
    using length_filter_list_update [OF len, of occupied] w(2)
    by (simp add: occ_count_def removed_table_def)
  have live: "live_count (removed_table ht w) + 1 = live_count ht"
    using length_filter_list_update [OF len, of live] w(2)
    by (simp add: live_count_def removed_table_def)
  show pos: "0 < ht_key_count ht"
    using inv live by (simp add: hash_table_inv_def)
  then show kc: "ht_key_count (removed_table ht w) = ht_key_count ht - 1"
    by (simp add: removed_table_def size_t_dec_def)
  show "hash_table_inv (removed_table ht w)"
    unfolding hash_table_inv_def
  proof (intro conjI)
    show "tinv (removed_table ht w)"
      using inv w removed_table_map(1) [of ht w] unfolding hash_table_inv_def by blast
    show "46 * occ_count (removed_table ht w)
        \<le> 46 * ht_key_count (removed_table ht w) + 7 * ht_size (removed_table ht w)"
    proof -
      have "46 * occ_count ht \<le> 46 * ht_key_count ht + 7 * ht_size ht"
        using inv by (simp add: hash_table_inv_def)
      with occ pos show ?thesis
        unfolding kc removed_table_simps by arith
    qed
    show "live_count (removed_table ht w) \<le> ht_key_count (removed_table ht w)"
      using inv live pos unfolding kc hash_table_inv_def by arith
  qed
qed

lemma remove_present:
  assumes inv: "hash_table_inv ht" and w: "w < ht_size ht" "live (ht_table ht ! w)"
  shows "hash_table_remove ht (ent_key (ht_table ht ! w)) =
    Some (1, removed_table ht w,
      free_key ht (ent_key (ht_table ht ! w)) @ free_value ht (ent_value (ht_table ht ! w)))"
  using inv w lookup_entry_found [of ht w]
  by (simp add: hash_table_remove_def hash_table_inv_def removed_table_def Let_def)

lemma remove_correct:
  assumes inv: "hash_table_inv ht" and k: "key_fits (ht_type ht) k" "k \<noteq> NULL_key"
  shows "\<exists>ht'. hash_table_remove ht k =
      Some (if ht_map ht k = None then 0 else 1, ht',
            case ht_map ht k of None \<Rightarrow> [] | Some v \<Rightarrow> free_key ht k @ free_value ht v)
    \<and> hash_table_inv ht' \<and> ht_map ht' = (ht_map ht)(k := None)
    \<and> ht_type ht' = ht_type ht"
proof (cases "ht_map ht k")
  case None
  moreover have "lookup_entry ht k = Some None"
    using inv k None by (simp add: hash_table_inv_def lookup_entry_absent)
  ultimately show ?thesis
    using inv by (auto simp: hash_table_remove_def fun_upd_idem)
next
  case (Some v)
  then obtain w where w: "w < ht_size ht" "live (ht_table ht ! w)" "ent_key (ht_table ht ! w) = k"
      "ent_value (ht_table ht ! w) = v"
    using inv ht_map_iff [of ht k v] by (auto simp: hash_table_inv_def)
  have "tinv ht" using inv by (simp add: hash_table_inv_def)
  with Some w removed_table_map(2) [of ht w] removed_table_counts(3) [OF inv w(1,2)]
    remove_present [OF inv w(1,2)] show ?thesis
    by (intro exI [of _ "removed_table ht w"]) simp
qed

section \<open>Insertion\<close>

definition stored_table :: "'v hash_table \<Rightarrow> nat \<Rightarrow> hkey \<Rightarrow> 'v option \<Rightarrow> 'v hash_table" where
  "stored_table ht w k v =
    ht\<lparr>ht_table := (ht_table ht)[w := \<lparr>ent_key = k, ent_value = v, ent_state = OCCUPIED\<rparr>],
       ht_key_count := ht_key_count ht + 1\<rparr>"

lemma stored_table_simps [simp]:
  "ht_type (stored_table ht w k v) = ht_type ht"
  "ht_size (stored_table ht w k v) = ht_size ht"
  "ht_key_count (stored_table ht w k v) = ht_key_count ht + 1"
  "ht_key_free_cb (stored_table ht w k v) = ht_key_free_cb ht"
  "ht_value_free_cb (stored_table ht w k v) = ht_value_free_cb ht"
  by (simp_all add: stored_table_def)

lemma stored_table_nth:
  "w < length (ht_table ht) \<Longrightarrow> ht_table (stored_table ht w k v) ! x
    = (if x = w then \<lparr>ent_key = k, ent_value = v, ent_state = OCCUPIED\<rparr> else ht_table ht ! x)"
  by (auto simp: stored_table_def nth_list_update)

lemma stored_table_map:
  assumes inv: "tinv ht" and w: "w < ht_size ht" "\<not> occupied (ht_table ht ! w)"
    and path: "on_path (ht_type ht) (ht_size ht) (ht_table ht) k w"
    and k: "key_fits (ht_type ht) k" "k \<noteq> NULL_key" "ht_map ht k = None"
  shows "tinv (stored_table ht w k v)"
    and "ht_map (stored_table ht w k v) = (ht_map ht)(k \<mapsto> v)"
    and "occ_count (stored_table ht w k v) = occ_count ht + 1"
    and "live_count (stored_table ht w k v) = live_count ht + 1"
proof -
  note D = table_invD [OF inv]
  have nth: "ht_table (stored_table ht w k v) ! x = (if x = w
      then \<lparr>ent_key = k, ent_value = v, ent_state = OCCUPIED\<rparr> else ht_table ht ! x)" for x
    using D(2) w(1) by (simp add: stored_table_nth)
  have fresh: "\<forall>x < ht_size ht. occupied (ht_table ht ! x) \<longrightarrow> ent_key (ht_table ht ! x) \<noteq> k"
    using k(2,3) ht_map_None_iff [OF inv, of k] by metis
  show inv': "tinv (stored_table ht w k v)"
    using table_inv_store [OF inv w, of "\<lparr>ent_key = k, ent_value = v, ent_state = OCCUPIED\<rparr>"]
      k(1) path fresh by (simp add: stored_table_def)
  show "ht_map (stored_table ht w k v) = (ht_map ht)(k \<mapsto> v)"
  proof (rule ext, rule ht_map_eqI [OF inv'])
    fix x u
    show "((ht_map ht)(k \<mapsto> v)) x = Some u \<longleftrightarrow>
      (\<exists>y < ht_size (stored_table ht w k v). live (ht_table (stored_table ht w k v) ! y)
        \<and> ent_key (ht_table (stored_table ht w k v) ! y) = x
        \<and> ent_value (ht_table (stored_table ht w k v) ! y) = u)"
    proof (cases "x = k")
      case True
      with fresh k(2) w(1) show ?thesis
        by (auto simp: nth)
    next
      case False
      with w(2) show ?thesis
        by (auto simp: nth ht_map_iff [OF inv])
    qed
  qed
  have len: "w < length (ht_table ht)"
    using D(2) w(1) by simp
  show "occ_count (stored_table ht w k v) = occ_count ht + 1"
    using length_filter_list_update [OF len, of occupied] w(2)
    by (simp add: occ_count_def stored_table_def)
  show "live_count (stored_table ht w k v) = live_count ht + 1"
    using length_filter_list_update [OF len, of live] w(2) k(2)
    by (simp add: live_count_def stored_table_def)
qed

lemma insert_slot_fresh:
  assumes inv: "tinv ht" and room: "occ_count ht < ht_size ht"
    and k: "key_fits (ht_type ht) k" "k \<noteq> NULL_key" "ht_map ht k = None"
  shows "\<exists>w < ht_size ht. insert_slot ht k v = Some (1, stored_table ht w k v, [])
    \<and> \<not> occupied (ht_table ht ! w) \<and> on_path (ht_type ht) (ht_size ht) (ht_table ht) k w"
proof -
  note D = table_invD [OF inv]
  obtain c where c: "HASH (ht_type ht) k = Some c"
    using HASH_fits k(1) by blast
  let ?h = "unat c mod ht_size ht"
  obtain x where x: "x < ht_size ht" "\<not> occupied (ht_table ht ! x)"
    using room D(2) length_filter_less_iff [of occupied "ht_table ht"] by (auto simp: occ_count_def)
  obtain d0 where d0: "d0 < ht_size ht" "(?h + d0) mod ht_size ht = x"
    using probe_surj [OF x(1)] by blast
  have neq: "EQUAL (ht_type ht) (ent_key (ht_table ht ! w)) k = Some False"
    if "w < ht_size ht" "occupied (ht_table ht ! w)" for w
    using that k D(3) [OF that] ht_map_None_iff [OF inv, of k] by (auto simp: EQUAL_fits)
  obtain d where d: "d < ht_size ht" "insert_loop ht k ?h 0 = Some d"
      "\<not> occupied (ht_table ht ! ((?h + d) mod ht_size ht))"
      "\<forall>j. 0 \<le> j \<and> j < d \<longrightarrow> occupied (ht_table ht ! ((?h + j) mod ht_size ht))"
    using insert_loop_free [of d0 ht ?h k 0] d0 x neq by auto
  let ?w = "(?h + d) mod ht_size ht"
  have w: "?w < ht_size ht"
    using D(1) by simp
  have "on_path (ht_type ht) (ht_size ht) (ht_table ht) k ?w"
    unfolding on_path_def using d(1,4) by (intro exI [of _ d]) (simp add: home_def c)
  moreover have "insert_slot ht k v = Some (1, stored_table ht ?w k v, [])"
    using d(1,2) D(5) [OF w d(3)] D(6) [OF w d(3)]
    by (simp add: insert_slot_def c Let_def stored_table_def free_key_def free_value_def)
  ultimately show ?thesis
    using w d(3) by blast
qed

text \<open>A table that need not be rehashed has room for one more key.\<close>

lemma not_must_rehash_room:
  assumes "hash_table_inv ht" "\<not> hash_table_must_rehash ht"
  shows "occ_count ht < ht_size ht"
  using assms by (auto simp: hash_table_inv_def hash_table_must_rehash_def table_inv_def)

lemma insert_slot_correct:
  assumes inv: "hash_table_inv ht" and room: "occ_count ht < ht_size ht"
    and k: "key_fits (ht_type ht) k" "k \<noteq> NULL_key" "ht_map ht k = None"
  shows "\<exists>ht'. insert_slot ht k v = Some (1, ht', []) \<and> hash_table_inv ht'
    \<and> ht_map ht' = (ht_map ht)(k \<mapsto> v) \<and> ht_type ht' = ht_type ht"
proof -
  have tinv: "tinv ht"
    using inv by (simp add: hash_table_inv_def)
  obtain w where w: "w < ht_size ht" "insert_slot ht k v = Some (1, stored_table ht w k v, [])"
      "\<not> occupied (ht_table ht ! w)" "on_path (ht_type ht) (ht_size ht) (ht_table ht) k w"
    using insert_slot_fresh [OF tinv room k] by blast
  note S = stored_table_map [OF tinv w(1,3,4) k, of v]
  have "hash_table_inv (stored_table ht w k v)"
    unfolding hash_table_inv_def using inv S(1,3,4) by (simp add: hash_table_inv_def)
  with w(2) S(2) show ?thesis
    by auto
qed

section \<open>Rehashing\<close>

text \<open>
  Every slot of the old table, occupied or not, is stored in the new one as occupied. The slots that
  held no key carry the NULL key, so the map is unchanged, but they use up half of the new table.
\<close>

lemma rehash_entry_ok:
  assumes inv: "table_inv tp n t" and noremoved: "\<forall>e \<in> set t. ent_state e \<noteq> REMOVED"
    and room: "length (filter occupied t) < n"
    and e: "key_fits tp (ent_key e)"
    and fresh: "ent_key e = NULL_key \<or> (\<forall>x < n. occupied (t ! x) \<longrightarrow> ent_key (t ! x) \<noteq> ent_key e)"
  shows "\<exists>w < n. \<not> occupied (t ! w)
    \<and> rehash_entry tp n t e = Some (t[w := e\<lparr>ent_state := OCCUPIED\<rparr>])
    \<and> table_inv tp n (t[w := e\<lparr>ent_state := OCCUPIED\<rparr>])"
proof -
  note D = table_invD [OF inv]
  obtain c where c: "HASH tp (ent_key e) = Some c"
    using HASH_fits e by blast
  let ?h = "unat c mod n"
  obtain x where x: "x < n" "\<not> occupied (t ! x)"
    using room D(2) length_filter_less_iff [of occupied t] by auto
  then have "ent_state (t ! x) = EMPTY"
    using noremoved D(2) by (cases "ent_state (t ! x)") auto
  moreover obtain d0 where d0: "d0 < n" "(?h + d0) mod n = x"
    using probe_surj [OF x(1)] by blast
  ultimately obtain d where d: "d < n" "empty_loop t n ?h 0 0 = (?h + d) mod n"
      "ent_state (t ! ((?h + d) mod n)) = EMPTY"
      "\<forall>j. 0 \<le> j \<and> j < d \<longrightarrow> ent_state (t ! ((?h + j) mod n)) \<noteq> EMPTY"
    using empty_loop_first [of 0 d0 n t ?h 0] by auto
  let ?w = "(?h + d) mod n"
  have w: "?w < n" "\<not> occupied (t ! ?w)"
    using D(1) d(3) by simp_all
  have path: "on_path tp n t (ent_key e) ?w"
    unfolding on_path_def using d(1,4) by (intro exI [of _ d]) (simp add: home_def c)
  have e': "\<lparr>ent_key = ent_key e, ent_value = ent_value e, ent_state = OCCUPIED\<rparr> = e\<lparr>ent_state := OCCUPIED\<rparr>"
    by (cases e) simp
  have "rehash_entry tp n t e = Some (t[?w := e\<lparr>ent_state := OCCUPIED\<rparr>])"
    by (simp only: rehash_entry_def c Let_def option.case d(2) e')
  moreover have "table_inv tp n (t[?w := e\<lparr>ent_state := OCCUPIED\<rparr>])"
    using table_inv_store [OF inv w, of "e\<lparr>ent_state := OCCUPIED\<rparr>"] e path fresh by simp
  ultimately show ?thesis
    using w by blast
qed

definition bindings :: "'v hash_table_entry list \<Rightarrow> (hkey \<times> 'v option) set" where
  "bindings t = {(ent_key e, ent_value e) | e. e \<in> set t \<and> live e}"

lemma bindings_Cons:
  "bindings (e # t) = (if live e then insert (ent_key e, ent_value e) (bindings t) else bindings t)"
  by (auto simp: bindings_def)

lemma bindings_list_update:
  assumes "w < length t" "\<not> occupied (t ! w)"
  shows "bindings (t[w := e]) = bindings [e] \<union> bindings t"
proof -
  have split: "t = take w t @ t ! w # drop (Suc w) t"
    using assms(1) by (simp add: id_take_nth_drop)
  have upd: "t[w := e] = take w t @ e # drop (Suc w) t"
    using assms(1) by (simp add: upd_conv_take_nth_drop)
  have "bindings t = bindings (take w t) \<union> bindings (drop (Suc w) t)"
    by (subst split, use assms(2) in \<open>auto simp: bindings_def\<close>)
  then show ?thesis
    unfolding upd by (auto simp: bindings_def)
qed

lemma ht_map_bindings:
  assumes "tinv ht"
  shows "ht_map ht k = Some v \<longleftrightarrow> (k, v) \<in> bindings (ht_table ht)"
proof -
  have "length (ht_table ht) = ht_size ht"
    using assms by (rule table_invD)
  then show ?thesis
    unfolding ht_map_iff [OF assms] bindings_def by (auto simp: in_set_conv_nth)
qed

lemma rehash_entries_ok:
  assumes "table_inv tp n t" "\<forall>e \<in> set t. ent_state e \<noteq> REMOVED"
    and "length (filter occupied t) + length olds \<le> n"
    and "\<forall>e \<in> set olds. key_fits tp (ent_key e) \<and> (\<not> occupied e \<longrightarrow> ent_key e = NULL_key)"
    and "distinct (map ent_key (filter (\<lambda>e. ent_key e \<noteq> NULL_key) olds))"
    and "\<forall>e \<in> set olds. \<forall>f \<in> set t. ent_key e \<noteq> NULL_key \<longrightarrow> occupied f \<longrightarrow> ent_key f \<noteq> ent_key e"
  shows "\<exists>t'. rehash_entries tp n t olds = Some t' \<and> table_inv tp n t'
    \<and> length (filter occupied t') = length (filter occupied t) + length olds
    \<and> length (filter live t') = length (filter live t) + length (filter live olds)
    \<and> bindings t' = bindings t \<union> bindings olds"
  using assms
proof (induction olds arbitrary: t)
  case Nil
  then show ?case by (simp add: bindings_def)
next
  case (Cons e olds)
  have len: "length t = n"
    using Cons.prems(1) by (rule table_invD)
  have fresh: "ent_key e = NULL_key \<or> (\<forall>x < n. occupied (t ! x) \<longrightarrow> ent_key (t ! x) \<noteq> ent_key e)"
    using Cons.prems(6) len by auto
  obtain w where w: "w < n" "\<not> occupied (t ! w)"
      "rehash_entry tp n t e = Some (t[w := e\<lparr>ent_state := OCCUPIED\<rparr>])"
      "table_inv tp n (t[w := e\<lparr>ent_state := OCCUPIED\<rparr>])"
    using rehash_entry_ok [OF Cons.prems(1,2) _ _ fresh] Cons.prems(3,4) by auto
  let ?e = "e\<lparr>ent_state := OCCUPIED\<rparr>"
  let ?t = "t[w := ?e]"
  have set_t: "set ?t \<subseteq> insert ?e (set t)"
    by (rule set_update_subset_insert)
  have count: "length (filter occupied ?t) = length (filter occupied t) + 1"
    using length_filter_list_update [of w t occupied ?e] w(1,2) len by simp
  have live: "length (filter live ?t) + length (filter live olds)
      = length (filter live t) + length (filter live (e # olds))"
    using length_filter_list_update [of w t live ?e] w(1,2) len Cons.prems(4) by auto
  have "\<exists>t'. rehash_entries tp n ?t olds = Some t' \<and> table_inv tp n t'
    \<and> length (filter occupied t') = length (filter occupied ?t) + length olds
    \<and> length (filter live t') = length (filter live ?t) + length (filter live olds)
    \<and> bindings t' = bindings ?t \<union> bindings olds"
  proof (rule Cons.IH [OF w(4)])
    show "\<forall>f \<in> set ?t. ent_state f \<noteq> REMOVED"
      using set_t Cons.prems(2) by auto
    show "length (filter occupied ?t) + length olds \<le> n"
      using Cons.prems(3) count by simp
    show "\<forall>f \<in> set olds. key_fits tp (ent_key f) \<and> (\<not> occupied f \<longrightarrow> ent_key f = NULL_key)"
      using Cons.prems(4) by simp
    show "distinct (map ent_key (filter (\<lambda>f. ent_key f \<noteq> NULL_key) olds))"
      using Cons.prems(5) by (simp split: if_splits)
    show "\<forall>f \<in> set olds. \<forall>g \<in> set ?t. ent_key f \<noteq> NULL_key \<longrightarrow> occupied g \<longrightarrow> ent_key g \<noteq> ent_key f"
    proof (intro ballI impI)
      fix f g assume fg: "f \<in> set olds" "g \<in> set ?t" "ent_key f \<noteq> NULL_key" "occupied g"
      then consider "g = ?e" | "g \<in> set t"
        using set_t by auto
      then show "ent_key g \<noteq> ent_key f"
      proof cases
        case 1
        with fg Cons.prems(5) show ?thesis
          by (auto simp: image_iff split: if_splits)
      next
        case 2
        with fg Cons.prems(6) show ?thesis by simp
      qed
    qed
  qed
  moreover have "bindings ?t = bindings [?e] \<union> bindings t"
    using bindings_list_update [of w t ?e] w(1,2) len by simp
  moreover have "bindings [?e] = bindings [e]"
    using Cons.prems(4) by (auto simp: bindings_def)
  ultimately show ?case
    using w(3) count live by (auto simp: bindings_Cons bindings_def)
qed

lemma table_inv_replicate: "0 < n \<Longrightarrow> table_inv tp n (replicate n empty_entry)"
  by (auto simp: table_inv_def empty_entry_def)

lemma distinct_live_keys:
  assumes "table_inv tp n t"
  shows "distinct (map ent_key (filter (\<lambda>e. ent_key e \<noteq> NULL_key) t))"
proof -
  note D = table_invD [OF assms]
  let ?is = "filter (\<lambda>i. ent_key (t ! i) \<noteq> NULL_key) [0..<n]"
  have "filter (\<lambda>e. ent_key e \<noteq> NULL_key) t = map ((!) t) ?is"
    using D(2) by (metis (mono_tags, lifting) comp_def filter_cong filter_map map_nth)
  moreover have "inj_on (\<lambda>i. ent_key (t ! i)) (set ?is)"
  proof (rule inj_onI)
    fix i j assume "i \<in> set ?is" "j \<in> set ?is" "ent_key (t ! i) = ent_key (t ! j)"
    then show "i = j"
      using D(5) [of i] D(5) [of j] D(7) [of i j] by auto
  qed
  ultimately show ?thesis
    by (simp add: distinct_map comp_def)
qed

lemma rehash_correct:
  fixes ht :: "'v hash_table"
  assumes inv: "hash_table_inv ht" and ptr: "ht_type ht \<noteq> HASH_KEY_STR"
    and must: "hash_table_must_rehash ht"
  shows "\<exists>ht'. hash_table_rehash ht = Some ht' \<and> hash_table_inv ht' \<and> ht_map ht' = ht_map ht
    \<and> ht_type ht' = ht_type ht \<and> ht_size ht' = 2 * ht_size ht
    \<and> ht_key_count ht' = ht_key_count ht \<and> occ_count ht' = ht_size ht
    \<and> ht_key_free_cb ht' = ht_key_free_cb ht \<and> ht_value_free_cb ht' = ht_value_free_cb ht"
proof -
  have tinv: "tinv ht"
    using inv by (simp add: hash_table_inv_def)
  note D = table_invD [OF tinv]
  let ?n = "2 * ht_size ht" and ?new = "replicate (2 * ht_size ht) empty_entry :: 'v hash_table_entry list"
  have "\<exists>t'. rehash_entries (ht_type ht) ?n ?new (ht_table ht) = Some t'
    \<and> table_inv (ht_type ht) ?n t'
    \<and> length (filter occupied t') = length (filter occupied ?new) + length (ht_table ht)
    \<and> length (filter live t') = length (filter live ?new) + length (filter live (ht_table ht))
    \<and> bindings t' = bindings ?new \<union> bindings (ht_table ht)"
  proof (rule rehash_entries_ok)
    show "table_inv (ht_type ht) ?n ?new"
      using D(1) by (simp add: table_inv_replicate)
    show "\<forall>e \<in> set (ht_table ht). key_fits (ht_type ht) (ent_key e)
        \<and> (\<not> occupied e \<longrightarrow> ent_key e = NULL_key)"
      using D(2,3,5) ptr by (metis NULL_fits in_set_conv_nth)
    show "distinct (map ent_key (filter (\<lambda>e. ent_key e \<noteq> NULL_key) (ht_table ht)))"
      by (rule distinct_live_keys [OF tinv])
  qed (simp_all add: empty_entry_def D(2))
  then obtain t' where t': "rehash_entries (ht_type ht) ?n ?new (ht_table ht) = Some t'"
      "table_inv (ht_type ht) ?n t'" "length (filter occupied t') = ht_size ht"
      "length (filter live t') = live_count ht" "bindings t' = bindings (ht_table ht)"
    by (auto simp: bindings_def empty_entry_def live_count_def D(2))
  let ?ht = "ht\<lparr>ht_size := ?n, ht_table := t'\<rparr>"
  have map: "ht_map ?ht = ht_map ht"
  proof
    fix k
    have "ht_map ?ht k = Some v \<longleftrightarrow> ht_map ht k = Some v" for v
      using t'(2,5) tinv by (simp add: ht_map_bindings)
    then show "ht_map ?ht k = ht_map ht k"
      by (cases "ht_map ht k"; cases "ht_map ?ht k") auto
  qed
  have live: "live_count ?ht = live_count ht"
    using t'(4) by (simp add: live_count_def)
  have "hash_table_inv ?ht"
    using t'(2,3) inv must live
    by (simp add: hash_table_inv_def occ_count_def hash_table_must_rehash_def)
  with t' map show ?thesis
    by (simp add: hash_table_rehash_def occ_count_def)
qed

section \<open>The operations through an overflow check\<close>

lemma hash_table_new_inv [inv_rules]: "hash_table_inv (hash_table_new tp kf vf)"
proof -
  have "table_inv tp HASH_DEFAULT_SIZE (replicate HASH_DEFAULT_SIZE empty_entry)"
    by (rule table_inv_replicate) (simp add: HASH_DEFAULT_SIZE_def)
  then show ?thesis
    by (simp add: hash_table_inv_def hash_table_new_def occ_count_def live_count_def empty_entry_def)
qed

lemma hash_table_new_map: "ht_map (hash_table_new tp kf vf) = Map.empty"
  by (rule ext) (simp add: ht_map_def hash_table_new_def find_None_iff empty_entry_def)

lemma hash_table_new_simps [simp]:
  "ht_type (hash_table_new tp kf vf) = tp"
  "ht_key_free_cb (hash_table_new tp kf vf) = kf"
  "ht_value_free_cb (hash_table_new tp kf vf) = vf"
  "ht_key_count (hash_table_new tp kf vf) = 0"
  by (simp_all add: hash_table_new_def)

lemma insert_frame:
  assumes "hash_table_insert ht k v = Some (r, ht', fr)"
  shows "ht_type ht' = ht_type ht" "ht_key_free_cb ht' = ht_key_free_cb ht"
    "ht_value_free_cb ht' = ht_value_free_cb ht" "ht_key_count ht' = ht_key_count ht + 1" "r = 1"
  using assms
  by (auto simp: hash_table_insert_def hash_table_check_overflow_def hash_table_rehash_def
      insert_slot_def Let_def split: option.splits if_splits)

lemma insert_no_overflow:
  assumes "hash_table_inv ht" "\<not> hash_table_must_rehash ht"
    and "key_fits (ht_type ht) k" "k \<noteq> NULL_key" "ht_map ht k = None"
  shows "\<exists>ht'. hash_table_insert ht k v = Some (1, ht', []) \<and> hash_table_inv ht'
    \<and> ht_map ht' = (ht_map ht)(k \<mapsto> v)"
  using assms insert_slot_correct [OF assms(1) not_must_rehash_room [OF assms(1,2)] assms(3-5), of v]
  by (auto simp: hash_table_insert_def hash_table_check_overflow_def)

lemma insert_pointer_fresh:
  assumes inv: "hash_table_inv ht" and ptr: "ht_type ht \<noteq> HASH_KEY_STR"
    and k: "key_fits (ht_type ht) k" "k \<noteq> NULL_key" "ht_map ht k = None"
  shows "\<exists>ht'. hash_table_insert ht k v = Some (1, ht', []) \<and> hash_table_inv ht'
    \<and> ht_map ht' = (ht_map ht)(k \<mapsto> v)"
proof (cases "hash_table_must_rehash ht")
  case False
  with assms show ?thesis
    by (intro insert_no_overflow)
next
  case True
  obtain h1 where h1: "hash_table_rehash ht = Some h1" "hash_table_inv h1" "ht_map h1 = ht_map ht"
      "ht_type h1 = ht_type ht" "ht_size h1 = 2 * ht_size ht" "occ_count h1 = ht_size ht"
    using rehash_correct [OF inv ptr True] by blast
  have "0 < ht_size ht"
    using inv by (simp add: hash_table_inv_def table_inv_def)
  then have "occ_count h1 < ht_size h1"
    using h1(5,6) by simp
  with h1 k insert_slot_correct [of h1 k v] True show ?thesis
    by (auto simp: hash_table_insert_def hash_table_check_overflow_def)
qed

text \<open>
  A rehash hashes the key of every slot. In a table of strings a slot without a key holds NULL, which
  \<open>pjw32\<close> dereferences.
\<close>

lemma rehash_entries_fault:
  "e \<in> set olds \<Longrightarrow> HASH tp (ent_key e) = None \<Longrightarrow> rehash_entries tp n t olds = None"
  by (induction olds arbitrary: t) (auto simp: rehash_entry_def split: option.splits)

lemma rehash_string_fault:
  assumes "hash_table_inv ht" "ht_type ht = HASH_KEY_STR" "occ_count ht < ht_size ht"
  shows "hash_table_rehash ht = None"
proof -
  have tinv: "tinv ht"
    using assms(1) by (simp add: hash_table_inv_def)
  note D = table_invD [OF tinv]
  obtain w where w: "w < ht_size ht" "\<not> occupied (ht_table ht ! w)"
    using assms(3) D(2) length_filter_less_iff [of occupied "ht_table ht"]
    by (auto simp: occ_count_def)
  have "HASH (ht_type ht) (ent_key (ht_table ht ! w)) = None"
    using D(5) [OF w] assms(2) by (simp add: HASH_def NULL_key_def)
  moreover have "ht_table ht ! w \<in> set (ht_table ht)"
    using w(1) D(2) by simp
  ultimately show ?thesis
    by (simp add: hash_table_rehash_def Let_def rehash_entries_fault)
qed

section \<open>Ownership\<close>

text \<open>
  What a table still has to release when it is destroyed. Every value stored in a table leaves it
  exactly once: given to the callback by an insertion that overwrites it or by a removal, or released
  with the table.
\<close>

definition owned :: "'v hash_table \<Rightarrow> 'v multiset" where
  "owned ht = mset (concat (map (\<lambda>e. if occupied e then case ent_value e of None \<Rightarrow> [] | Some x \<Rightarrow> [x]
                                      else []) (ht_table ht)))"

definition freed_values :: "'v freed list \<Rightarrow> 'v multiset" where
  "freed_values fr = mset (concat (map (\<lambda>f. case f of FreedKey _ \<Rightarrow> [] | FreedValue x \<Rightarrow> [x]) fr))"

lemma freed_values_simps [simp]:
  "freed_values [] = {#}"
  "freed_values (fr1 @ fr2) = freed_values fr1 + freed_values fr2"
  "freed_values (free_key ht k) = {#}"
  "ht_value_free_cb ht \<Longrightarrow>
    freed_values (free_value ht v) = (case v of None \<Rightarrow> {#} | Some x \<Rightarrow> {#x#})"
  by (auto simp: freed_values_def free_key_def free_value_def split: option.splits)

lemma free_releases_owned:
  assumes "ht_value_free_cb ht"
  shows "freed_values (hash_table_free ht) = owned ht"
proof -
  have "freed_values (concat (map (\<lambda>p. if ent_state p = EMPTY \<or> ent_state p = REMOVED then []
            else free_key ht (ent_key p) @ free_value ht (ent_value p)) es))
      = mset (concat (map (\<lambda>e. if occupied e then case ent_value e of None \<Rightarrow> [] | Some x \<Rightarrow> [x]
                               else []) es))" for es
  proof (induction es)
    case (Cons e es)
    with assms show ?case
      by (cases "ent_state e") (auto split: option.splits)
  qed simp
  then show ?thesis
    by (simp add: hash_table_free_def owned_def)
qed

text \<open>The values one entry owns.\<close>

definition owned_entry :: "'v hash_table_entry \<Rightarrow> 'v multiset" where
  "owned_entry e = (if occupied e then case ent_value e of None \<Rightarrow> {#} | Some x \<Rightarrow> {#x#} else {#})"

lemma owned_sum: "owned ht = sum_list (map owned_entry (ht_table ht))"
proof -
  have "mset (concat (map (\<lambda>e. if occupied e then case ent_value e of None \<Rightarrow> [] | Some x \<Rightarrow> [x]
                               else []) es)) = sum_list (map owned_entry es)" for es
    by (induction es) (auto simp: owned_entry_def split: option.splits)
  then show ?thesis
    by (simp add: owned_def)
qed

lemma sum_list_mset_update:
  fixes f :: "'a \<Rightarrow> 'v multiset"
  assumes "w < length es"
  shows "sum_list (map f (es[w := e])) + f (es ! w) = sum_list (map f es) + f e"
proof -
  have "es = take w es @ es ! w # drop (Suc w) es"
    using assms by (simp add: id_take_nth_drop)
  then have "sum_list (map f es) = sum_list (map f (take w es)) + f (es ! w)
      + sum_list (map f (drop (Suc w) es))"
    by (metis (no_types, lifting) add.assoc list.simps(9) map_append sum_list.Cons sum_list_append)
  moreover have "es[w := e] = take w es @ e # drop (Suc w) es"
    using assms by (simp add: upd_conv_take_nth_drop)
  ultimately show ?thesis
    by (simp add: ac_simps)
qed

lemma remove_ownership:
  assumes inv: "hash_table_inv ht" and cb: "ht_value_free_cb ht"
    and k: "key_fits (ht_type ht) k" "k \<noteq> NULL_key" and r: "hash_table_remove ht k = Some (r, ht', fr)"
  shows "owned ht' + freed_values fr = owned ht"
proof (cases "ht_map ht k")
  case None
  moreover have "lookup_entry ht k = Some None"
    using inv k None by (simp add: hash_table_inv_def lookup_entry_absent)
  ultimately show ?thesis
    using r by (auto simp: hash_table_remove_def)
next
  case (Some v)
  have tinv: "tinv ht"
    using inv by (simp add: hash_table_inv_def)
  obtain w where w: "w < ht_size ht" "live (ht_table ht ! w)" "ent_key (ht_table ht ! w) = k"
    using Some ht_map_iff [OF tinv, of k v] by auto
  have res: "ht' = removed_table ht w" "fr = free_key ht k @ free_value ht (ent_value (ht_table ht ! w))"
    using remove_present [OF inv w(1,2)] r w(3) by auto
  have "w < length (ht_table ht)"
    using w(1) table_invD(2) [OF tinv] by simp
  from sum_list_mset_update [OF this, of owned_entry] res cb w(2) show ?thesis
    by (simp add: owned_sum removed_table_def owned_entry_def)
qed

section \<open>Filling a table\<close>

fun insert_all :: "'v hash_table \<Rightarrow> (hkey \<times> 'v option) list \<Rightarrow> 'v hash_table option" where
  "insert_all ht [] = Some ht"
| "insert_all ht ((k, v) # kvs) =
    (case hash_table_insert ht k v of
       None \<Rightarrow> None
     | Some (_, ht', _) \<Rightarrow> insert_all ht' kvs)"

text \<open>A table that has only seen insertions of fresh keys.\<close>

definition filled :: "'v hash_table \<Rightarrow> bool" where
  "filled ht \<longleftrightarrow> hash_table_inv ht \<and> occ_count ht = ht_key_count ht"

lemma filled_insert:
  assumes "filled ht" "\<not> hash_table_must_rehash ht"
    and k: "key_fits (ht_type ht) k" "k \<noteq> NULL_key" "ht_map ht k = None"
  shows "\<exists>ht'. hash_table_insert ht k v = Some (1, ht', []) \<and> filled ht'
    \<and> ht_map ht' = (ht_map ht)(k \<mapsto> v) \<and> ht_key_count ht' = ht_key_count ht + 1
    \<and> ht_type ht' = ht_type ht \<and> ht_size ht' = ht_size ht"
proof -
  have inv: "hash_table_inv ht" and tinv: "tinv ht"
    using assms(1) by (auto simp: filled_def hash_table_inv_def)
  obtain w where w: "w < ht_size ht" "insert_slot ht k v = Some (1, stored_table ht w k v, [])"
      "\<not> occupied (ht_table ht ! w)" "on_path (ht_type ht) (ht_size ht) (ht_table ht) k w"
    using insert_slot_fresh [OF tinv not_must_rehash_room [OF inv assms(2)] k] by blast
  note S = stored_table_map [OF tinv w(1,3,4) k, of v]
  have "filled (stored_table ht w k v)"
    unfolding filled_def hash_table_inv_def
    using inv S(1,3,4) assms(1) by (simp add: hash_table_inv_def filled_def)
  with w(2) S(2) assms(2) show ?thesis
    by (auto simp: hash_table_insert_def hash_table_check_overflow_def)
qed

lemma insert_all_string:
  assumes "filled ht" "ht_type ht = HASH_KEY_STR" "ht_size ht = HASH_DEFAULT_SIZE"
    and "distinct (map fst kvs)" "\<forall>k \<in> fst ` set kvs. key_fits HASH_KEY_STR k \<and> ht_map ht k = None"
    and "ht_key_count ht \<le> 45"
  shows "if ht_key_count ht + length kvs \<le> 45
    then \<exists>ht'. insert_all ht kvs = Some ht' \<and> filled ht' \<and> ht_map ht' = ht_map ht ++ map_of kvs
      \<and> ht_type ht' = HASH_KEY_STR
    else insert_all ht kvs = None"
  using assms
proof (induction kvs arbitrary: ht)
  case Nil
  then show ?case by simp
next
  case (Cons kv kvs)
  obtain k v where kv: "kv = (k, v)" by force
  have k: "key_fits (ht_type ht) k" "k \<noteq> NULL_key" "ht_map ht k = None"
    using Cons.prems(2,5) kv NULL_fits [of HASH_KEY_STR] by auto
  show ?case
  proof (cases "ht_key_count ht = 45")
    case True
    have "hash_table_must_rehash ht" "occ_count ht < ht_size ht"
      using True Cons.prems(1,3) by (simp_all add: hash_table_must_rehash_def HASH_DEFAULT_SIZE_def filled_def)
    then have "hash_table_insert ht k v = None"
      using rehash_string_fault [of ht] Cons.prems(1,2)
      by (simp add: hash_table_insert_def hash_table_check_overflow_def filled_def)
    with True kv show ?thesis by simp
  next
    case False
    then have "\<not> hash_table_must_rehash ht"
      using Cons.prems(3,6) by (simp add: hash_table_must_rehash_def HASH_DEFAULT_SIZE_def)
    then obtain ht' where h: "hash_table_insert ht k v = Some (1, ht', [])" "filled ht'"
        "ht_map ht' = (ht_map ht)(k \<mapsto> v)" "ht_key_count ht' = ht_key_count ht + 1"
        "ht_type ht' = ht_type ht" "ht_size ht' = ht_size ht"
      using filled_insert [OF Cons.prems(1) _ k] by blast
    have ih: "if ht_key_count ht' + length kvs \<le> 45
      then \<exists>ht''. insert_all ht' kvs = Some ht'' \<and> filled ht'' \<and> ht_map ht'' = ht_map ht' ++ map_of kvs
        \<and> ht_type ht'' = HASH_KEY_STR
      else insert_all ht' kvs = None"
      using Cons.prems h False kv by (intro Cons.IH) auto
    have "map_of kvs k = None"
      using Cons.prems(4) kv by (simp add: map_of_eq_None_iff)
    then have eq: "ht_map ht' ++ map_of kvs = ht_map ht ++ map_of (kv # kvs)"
      using h(3) kv by (auto simp: map_add_def fun_eq_iff split: option.splits)
    from ih h(1,4) show ?thesis
      unfolding eq kv by (simp del: map_of.simps split: if_splits)
  qed
qed

lemma filled_new: "filled (hash_table_new tp kf vf)"
  using hash_table_new_inv [of tp kf vf]
  by (simp add: filled_def hash_table_new_def occ_count_def empty_entry_def)

section \<open>The pointer table as a store\<close>

definition pointer_table :: "'v hash_table \<Rightarrow> bool" where
  "pointer_table ht \<longleftrightarrow> hash_table_inv ht \<and> ht_type ht \<noteq> HASH_KEY_STR"

definition pointer_key :: "'v hash_table \<Rightarrow> hkey \<Rightarrow> bool" where
  "pointer_key ht k \<longleftrightarrow> key_fits HASH_KEY_INT k \<and> k \<noteq> NULL_key"

definition ht_add :: "hkey \<Rightarrow> 'v option \<Rightarrow> 'v hash_table \<Rightarrow> 'v hash_table option" where
  "ht_add k v ht = map_option (\<lambda>(_, ht', _). ht') (hash_table_insert ht k v)"

definition ht_remove :: "hkey \<Rightarrow> 'v hash_table \<Rightarrow> 'v hash_table option" where
  "ht_remove k ht = map_option (\<lambda>(_, ht', _). ht') (hash_table_remove ht k)"

lemma pointer_key_fits: "pointer_table ht \<Longrightarrow> pointer_key ht k \<Longrightarrow> key_fits (ht_type ht) k \<and> k \<noteq> NULL_key"
  by (cases "ht_type ht"; cases k) (auto simp: pointer_table_def pointer_key_def)

interpretation ptr_store: removable_store pointer_table pointer_key ht_map ht_add ht_remove
proof
  fix ht :: "'v hash_table" and k v
  assume A: "pointer_table ht" "pointer_key ht k" "ht_map ht k = None"
  note F = pointer_key_fits [OF A(1,2)]
  obtain ht' where "hash_table_insert ht k v = Some (1, ht', [])" "hash_table_inv ht'"
      "ht_map ht' = (ht_map ht)(k \<mapsto> v)"
    using insert_pointer_fresh [of ht k v] A F by (auto simp: pointer_table_def)
  with A(1) insert_frame(1) [of ht k v 1 ht' "[]"]
  show "\<exists>s'. ht_add k v ht = Some s' \<and> pointer_table s' \<and> pointer_key s' = pointer_key ht
      \<and> ht_map s' = (ht_map ht)(k \<mapsto> v)"
    by (auto simp: ht_add_def pointer_table_def pointer_key_def fun_eq_iff)
next
  fix ht :: "'v hash_table" and k
  assume A: "pointer_table ht" "pointer_key ht k"
  note F = pointer_key_fits [OF A]
  obtain r ht' fr where "hash_table_remove ht k = Some (r, ht', fr)" "hash_table_inv ht'"
      "ht_map ht' = (ht_map ht)(k := None)" "ht_type ht' = ht_type ht"
    using remove_correct [of ht k] A F by (auto simp: pointer_table_def)
  with A(1) show "\<exists>s'. ht_remove k ht = Some s' \<and> pointer_table s' \<and> pointer_key s' = pointer_key ht
      \<and> ht_map s' = (ht_map ht)(k := None)"
    by (auto simp: ht_remove_def pointer_table_def pointer_key_def fun_eq_iff)
qed

section \<open>Properties\<close>

text \<open>
  C1: insertion in a table with integer or pointer keys. Whatever the table, full enough to be
  rehashed or not, inserting a value under a key that is not in the table succeeds (the assertion
  that a slot is found never fails), releases nothing, keeps the invariant, and afterwards a search
  finds the value under the new key and what it found before under every other key.
\<close>

theorem insert_then_search:
  assumes "hash_table_inv ht" "ht_type ht \<noteq> HASH_KEY_STR"
    and "key_fits (ht_type ht) k" "k \<noteq> NULL_key" "ht_map ht k = None"
  shows "\<exists>ht'. hash_table_insert ht k v = Some (1, ht', []) \<and> hash_table_inv ht'
    \<and> hash_table_search ht' k = Some v
    \<and> (\<forall>k'. key_fits (ht_type ht) k' \<and> k' \<noteq> NULL_key \<and> k' \<noteq> k
          \<longrightarrow> hash_table_search ht' k' = hash_table_search ht k')"
proof -
  obtain ht' where ht': "hash_table_insert ht k v = Some (1, ht', [])" "hash_table_inv ht'"
      "ht_map ht' = (ht_map ht)(k \<mapsto> v)"
    using insert_pointer_fresh [OF assms] by blast
  have "tinv ht" "tinv ht'" "ht_type ht' = ht_type ht"
    using assms(1) ht'(2) insert_frame(1) [OF ht'(1)] by (auto simp: hash_table_inv_def)
  with ht' assms(3,4) show ?thesis
    by (auto simp: search_map)
qed

theorem insert_then_search_witness:
  "\<exists>ht'. hash_table_insert (hash_table_new HASH_KEY_INT False True) (HPtr 65) (Some True) = Some (1, ht', [])
    \<and> hash_table_inv ht' \<and> hash_table_search ht' (HPtr 65) = Some (Some True)
    \<and> (\<forall>k'. key_fits HASH_KEY_INT k' \<and> k' \<noteq> NULL_key \<and> k' \<noteq> HPtr 65
          \<longrightarrow> hash_table_search ht' k' = hash_table_search (hash_table_new HASH_KEY_INT False True) k')"
  using insert_then_search [of "hash_table_new HASH_KEY_INT False True" "HPtr 65" "Some True"]
  by (simp add: hash_table_new_inv hash_table_new_map NULL_key_def)

text \<open>
  C2: removal. Removing a key that is in the table returns 1, gives the key and the value to the
  release callbacks and nothing else, and the key is no longer found while every other key is found as
  before; removing an absent key returns 0 and changes nothing that can be observed. This holds for
  tables of all three kinds.
\<close>

theorem remove_then_search:
  assumes "hash_table_inv ht" "key_fits (ht_type ht) k" "k \<noteq> NULL_key"
  shows "\<exists>ht'. hash_table_remove ht k =
      Some (if ht_map ht k = None then 0 else 1, ht',
            case ht_map ht k of None \<Rightarrow> [] | Some v \<Rightarrow> free_key ht k @ free_value ht v)
    \<and> hash_table_inv ht' \<and> hash_table_search ht' k = Some None
    \<and> (\<forall>k'. key_fits (ht_type ht) k' \<and> k' \<noteq> NULL_key \<and> k' \<noteq> k
          \<longrightarrow> hash_table_search ht' k' = hash_table_search ht k')"
proof -
  obtain ht' where ht': "hash_table_remove ht k =
      Some (if ht_map ht k = None then 0 else 1, ht',
            case ht_map ht k of None \<Rightarrow> [] | Some v \<Rightarrow> free_key ht k @ free_value ht v)"
      "hash_table_inv ht'" "ht_map ht' = (ht_map ht)(k := None)" "ht_type ht' = ht_type ht"
    using remove_correct [OF assms] by blast
  have "tinv ht" "tinv ht'"
    using assms(1) ht'(2) by (auto simp: hash_table_inv_def)
  with ht' assms(2,3) show ?thesis
    by (intro exI [of _ ht']) (simp add: search_map)
qed

theorem remove_then_search_witness:
  "\<exists>ht'. hash_table_remove (hash_table_new HASH_KEY_STR False False :: bool hash_table) (HStr ''scan'') = Some (0, ht', [])
    \<and> hash_table_search ht' (HStr ''scan'') = Some None"
  using remove_then_search [of "hash_table_new HASH_KEY_STR False False :: bool hash_table" "HStr ''scan''"]
  by (auto simp: hash_table_new_inv hash_table_new_map NULL_key_def)

text \<open>
  C3: the capacity of a table of string keys. Distinct names can be inserted in a new table up to the
  number of 45, and each is then found under its name; the insertion of the 46th triggers a rehash,
  which hashes the NULL key of an empty slot and so dereferences a NULL pointer.
\<close>

theorem string_table_capacity:
  assumes "distinct (map fst kvs)" "\<forall>k \<in> fst ` set kvs. key_fits HASH_KEY_STR k"
  shows "if length kvs \<le> 45
    then \<exists>ht. insert_all (hash_table_new HASH_KEY_STR kf vf) kvs = Some ht
      \<and> (\<forall>(k, v) \<in> set kvs. hash_table_search ht k = Some v)
    else insert_all (hash_table_new HASH_KEY_STR kf vf) kvs = None"
proof -
  let ?new = "hash_table_new HASH_KEY_STR kf vf :: 'a hash_table"
  have I: "if ht_key_count ?new + length kvs \<le> 45
    then \<exists>ht. insert_all ?new kvs = Some ht \<and> filled ht \<and> ht_map ht = ht_map ?new ++ map_of kvs
      \<and> ht_type ht = HASH_KEY_STR
    else insert_all ?new kvs = None"
    using assms by (intro insert_all_string)
      (simp_all add: filled_new hash_table_new_map, simp_all add: hash_table_new_def)
  show ?thesis
  proof (cases "length kvs \<le> 45")
    case True
    with I obtain ht where ht: "insert_all ?new kvs = Some ht" "filled ht" "ht_map ht = map_of kvs"
        "ht_type ht = HASH_KEY_STR"
      by (auto simp: hash_table_new_map)
    have "hash_table_search ht k = Some v" if kv: "(k, v) \<in> set kvs" for k v
    proof -
      have "key_fits (ht_type ht) k" "k \<noteq> NULL_key"
        using assms(2) kv ht(4) NULL_fits [of HASH_KEY_STR] by force+
      moreover have "tinv ht"
        using ht(2) by (simp add: filled_def hash_table_inv_def)
      ultimately show ?thesis
        using ht(3) assms(1) kv by (simp add: search_map)
    qed
    with True ht(1) show ?thesis
      by auto
  next
    case False
    with I show ?thesis
      by simp
  qed
qed

theorem string_table_capacity_witness:
  "insert_all (hash_table_new HASH_KEY_STR False False)
    (map (\<lambda>n. (HStr (replicate n CHR ''a''), Some n)) [0..<46]) = None"
proof -
  let ?kvs = "map (\<lambda>n. (HStr (replicate n CHR ''a''), Some n)) [0..<46]"
  have "inj_on (\<lambda>n. HStr (replicate n CHR ''a'')) {0..<46}"
    by (rule inj_onI) (auto dest: arg_cong [of _ _ length])
  then have "distinct (map fst ?kvs)"
    by (simp add: distinct_map comp_def)
  with string_table_capacity [of ?kvs False False] show ?thesis
    by auto
qed

text \<open>
  an insertion under a key that is already in the table may leave the old binding behind. The keys
  1 and 65 collide; after 65 is removed its slot is reused by a second insertion of 1, and the first
  binding of 1 comes back when the second one is removed.
\<close>

theorem reinsert_leaves_stale_binding:
  "do {
     (_, t1, _) \<leftarrow> hash_table_insert (hash_table_new HASH_KEY_INT False False) (HPtr 65) (Some (1 :: nat));
     (_, t2, _) \<leftarrow> hash_table_insert t1 (HPtr 1) (Some 2);
     (_, t3, _) \<leftarrow> hash_table_remove t2 (HPtr 65);
     (_, t4, _) \<leftarrow> hash_table_insert t3 (HPtr 1) (Some 3);
     (_, t5, _) \<leftarrow> hash_table_remove t4 (HPtr 1);
     Some (hash_table_search t4 (HPtr 1), hash_table_search t5 (HPtr 1))
   } = Some (Some (Some 3), Some (Some 2))"
  by (simp add: hash_table_new_def HASH_DEFAULT_SIZE_def hash_table_insert_def
      hash_table_check_overflow_def hash_table_must_rehash_def insert_slot_def HASH_def himult64_def
      insert_loop.simps nth_list_update empty_entry_def free_key_def free_value_def lookup_entry_def
      lookup_loop.simps hash_table_remove_def hash_table_search_def EQUAL_def equal_pointer_def
      NULL_key_def size_t_dec_def)

text \<open>
  the hash functions of the two pointer tables lose nothing: distinct keys have distinct 64-bit
  hashes, so that keys collide only through the reduction to the table size. The string hash always
  fits in 28 bits.
\<close>

theorem hash_functions_injective:
  "(fmix64 k = fmix64 k' \<longleftrightarrow> k = k') \<and> (himult64 k = himult64 k' \<longleftrightarrow> k = k')
    \<and> pjw32 s AND 0xF0000000 = 0"
  using fmix64_inj [of k k'] himult64_inj [of k k'] pjw32_high by blast

text \<open>
  C4: ownership. With a release callback for values, the values a table holds are exactly those it
  releases when it is freed, and removing a key moves its value, and no other, from the table to the
  callback.
\<close>

theorem values_released_once:
  assumes "hash_table_inv ht" "ht_value_free_cb ht" "key_fits (ht_type ht) k" "k \<noteq> NULL_key"
  shows "\<exists>r ht' fr. hash_table_remove ht k = Some (r, ht', fr)
    \<and> freed_values fr + freed_values (hash_table_free ht') = freed_values (hash_table_free ht)"
proof -
  obtain r ht' fr where rem: "hash_table_remove ht k = Some (r, ht', fr)"
    using remove_correct [OF assms(1,3,4)] by blast
  then have "ht_value_free_cb ht'"
    using assms(2) by (auto simp: hash_table_remove_def Let_def split: option.splits)
  with assms(2) remove_ownership [OF assms rem] rem show ?thesis
    by (auto simp: free_releases_owned add.commute)
qed

theorem values_released_once_witness:
  "\<exists>r ht' fr. hash_table_remove (hash_table_new HASH_KEY_INT False True :: nat hash_table) (HPtr 1) = Some (r, ht', fr)
    \<and> freed_values fr + freed_values (hash_table_free ht')
      = freed_values (hash_table_free (hash_table_new HASH_KEY_INT False True :: nat hash_table))"
  using values_released_once [of "hash_table_new HASH_KEY_INT False True :: nat hash_table" "HPtr 1"]
  by (simp add: hash_table_new_inv NULL_key_def)

end
