(* ===== verification/Jrpc.thy ===== *)
theory Jrpc
  imports Json Marshall HashTable Buffer
begin

text \<open>
  Remote procedure calls over JSON: the method mapper (\<open>librpc/jrpc/mapper.c\<close>), connections
  (\<open>librpc/jrpc/connection.c\<close>) and the dispatch of requests, results and errors
  (\<open>librpc/jrpc/jrpc.c\<close>). A pointer to a function or to user data is a number; the record
  \<open>jrpc_env\<close> says what the functions do. The locks and the reference counts are left out.
\<close>

section \<open>The mapper\<close>

record jrpc_mapper =
  mp_method_table :: "nat hash_table"
  mp_error_message_table :: "string hash_table"

definition jrpc_mapper_new :: jrpc_mapper where
  "jrpc_mapper_new =
    \<lparr>mp_method_table = hash_table_new HASH_KEY_STR True False,
     mp_error_message_table = hash_table_new HASH_KEY_INT False False\<rparr>"

definition jrpc_mapper_add :: "jrpc_mapper \<Rightarrow> string \<Rightarrow> nat \<Rightarrow> (int \<times> jrpc_mapper) option" where
  "jrpc_mapper_add mapper method method_fun = do {
     (r, ht, freed) \<leftarrow> hash_table_insert (mp_method_table mapper) (HStr method) (Some method_fun);
     Some (if r = 0 then 1 else 0, mapper\<lparr>mp_method_table := ht\<rparr>)
   }"

definition jrpc_mapper_find :: "jrpc_mapper \<Rightarrow> string \<Rightarrow> nat option option" where
  "jrpc_mapper_find mapper method = hash_table_search (mp_method_table mapper) (HStr method)"

definition jrpc_mapper_add_error_message ::
  "jrpc_mapper \<Rightarrow> u8 \<Rightarrow> string \<Rightarrow> (int \<times> jrpc_mapper) option" where
  "jrpc_mapper_add_error_message mapper error_code error_message = do {
     (r, ht, freed) \<leftarrow> hash_table_insert (mp_error_message_table mapper) (HPtr (ucast error_code)) (Some error_message);
     Some (if r = 0 then 1 else 0, mapper\<lparr>mp_error_message_table := ht\<rparr>)
   }"

definition jrpc_mapper_get_error_message :: "jrpc_mapper \<Rightarrow> u8 \<Rightarrow> cstr option" where
  "jrpc_mapper_get_error_message mapper error_code =
    hash_table_search (mp_error_message_table mapper) (HPtr (ucast error_code))"

section \<open>Connections\<close>

record rpc_callback_entry =
  rce_cb :: nat
  rce_user_data :: nat

text \<open>A function pointer that may be NULL is an \<open>option\<close>.\<close>

record jrpc_connection =
  jc_mapper :: "jrpc_mapper option"
  jc_current_id :: u64
  jc_response_table :: "rpc_callback_entry hash_table"
  jc_read_cb :: "nat option"
  jc_read_cb_data :: nat
  jc_write_cb :: "nat option"
  jc_write_cb_data :: nat
  jc_connection_data :: nat
  jc_error_handler :: "nat option"

text \<open>
  The functions behind the pointers. \<open>je_read\<close> gives \<open>None\<close> for a negative result and otherwise
  the bytes read, at most as many as asked for; \<open>je_write\<close> gives the result of the call. Methods,
  callbacks and error handlers may use the connection; \<open>None\<close> is a fault inside them.
\<close>

record ('j, 'w) jrpc_env =
  je_json :: "'j jansson"
  je_read :: "nat \<Rightarrow> nat \<Rightarrow> nat \<Rightarrow> 'w \<Rightarrow> string option \<times> 'w"
  je_write :: "nat \<Rightarrow> string \<Rightarrow> nat \<Rightarrow> 'w \<Rightarrow> int \<times> 'w"
  je_method :: "nat \<Rightarrow> 'j option \<Rightarrow> jrpc_connection \<times> 'w
    \<Rightarrow> ((int \<times> 'j option) \<times> jrpc_connection \<times> 'w) option"
  je_callback :: "nat \<Rightarrow> 'j \<Rightarrow> nat \<Rightarrow> jrpc_connection \<times> 'w \<Rightarrow> (jrpc_connection \<times> 'w) option"
  je_error_handler :: "nat \<Rightarrow> u64 \<Rightarrow> int \<Rightarrow> string \<Rightarrow> 'j option \<Rightarrow> jrpc_connection \<times> 'w
    \<Rightarrow> (jrpc_connection \<times> 'w) option"

definition DEFAULT_INPUT_BUFFER_SIZE :: nat where "DEFAULT_INPUT_BUFFER_SIZE = 4096"

definition jrpc_connection_new :: "jrpc_mapper option \<Rightarrow> nat \<Rightarrow> jrpc_connection" where
  "jrpc_connection_new mapper connection_data =
    \<lparr>jc_mapper = mapper, jc_current_id = 1, jc_response_table = hash_table_new HASH_KEY_INT False True,
     jc_read_cb = None, jc_read_cb_data = 0, jc_write_cb = None, jc_write_cb_data = 0,
     jc_connection_data = connection_data, jc_error_handler = None\<rparr>"

definition jrpc_connection_get_data :: "jrpc_connection \<Rightarrow> nat" where
  "jrpc_connection_get_data conn = jc_connection_data conn"

definition connection_get_mapper :: "jrpc_connection \<Rightarrow> jrpc_mapper option" where
  "connection_get_mapper conn = jc_mapper conn"

definition jrpc_connection_set_read_cb :: "jrpc_connection \<Rightarrow> nat \<Rightarrow> nat \<Rightarrow> jrpc_connection" where
  "jrpc_connection_set_read_cb conn read_cb data = conn\<lparr>jc_read_cb := Some read_cb, jc_read_cb_data := data\<rparr>"

definition jrpc_connection_set_write_cb :: "jrpc_connection \<Rightarrow> nat \<Rightarrow> nat \<Rightarrow> jrpc_connection" where
  "jrpc_connection_set_write_cb conn write_cb data = conn\<lparr>jc_write_cb := Some write_cb, jc_write_cb_data := data\<rparr>"

definition jrpc_connection_set_error_handler :: "jrpc_connection \<Rightarrow> nat \<Rightarrow> jrpc_connection" where
  "jrpc_connection_set_error_handler conn error_handler = conn\<lparr>jc_error_handler := Some error_handler\<rparr>"

definition jrpc_connection_get_error_handler :: "jrpc_connection \<Rightarrow> nat option" where
  "jrpc_connection_get_error_handler conn = jc_error_handler conn"

text \<open>The entries that are released with the connection.\<close>

definition jrpc_connection_free :: "jrpc_connection \<Rightarrow> rpc_callback_entry freed list" where
  "jrpc_connection_free conn = hash_table_free (jc_response_table conn)"

definition connection_register_callback ::
  "jrpc_connection \<Rightarrow> nat \<Rightarrow> nat \<Rightarrow> (u64 \<times> jrpc_connection) option" where
  "connection_register_callback conn cb user_data =
    (let entry = \<lparr>rce_cb = cb, rce_user_data = user_data\<rparr>;
         rid = jc_current_id conn;
         conn1 = conn\<lparr>jc_current_id := jc_current_id conn + 1\<rparr>
     in do {
       (r, ht, freed) \<leftarrow> hash_table_insert (jc_response_table conn1) (HPtr rid) (Some entry);
       Some (rid, conn1\<lparr>jc_response_table := ht\<rparr>)
     })"

definition connection_find_callback ::
  "jrpc_connection \<Rightarrow> u64 \<Rightarrow> ((nat \<times> nat) option \<times> jrpc_connection) option" where
  "connection_find_callback conn rid = do {
     entry \<leftarrow> hash_table_search (jc_response_table conn) (HPtr rid);
     (case entry of
        None \<Rightarrow> Some (None, conn)
      | Some e \<Rightarrow> do {
          (r, ht, freed) \<leftarrow> hash_table_remove (jc_response_table conn) (HPtr rid);
          Some (Some (rce_cb e, rce_user_data e), conn\<lparr>jc_response_table := ht\<rparr>)
        })
   }"

text \<open>The pieces of text that the library hands to \<open>json_buffer_dump_cb\<close>, in order.\<close>

fun json_buffer_dump :: "buffer \<Rightarrow> string list \<Rightarrow> buffer option" where
  "json_buffer_dump b [] = Some b"
| "json_buffer_dump b (piece # pieces) = Option.bind (buffer_append b piece) (\<lambda>b1. json_buffer_dump b1 pieces)"

definition block_string :: "block \<Rightarrow> nat \<Rightarrow> string option" where
  "block_string p n =
    (if n \<le> length p \<and> None \<notin> set (take n p) then Some (map the (take n p)) else None)"

definition message_end :: string where
  "message_end = [CHR 0x0D, CHR 0x0A, CHR 0x0D, CHR 0x0A]"

text \<open>\<open>None\<close> for the failing assertion on the write callback.\<close>

definition connection_send ::
  "('j, 'w) jrpc_env \<Rightarrow> 'j option \<Rightarrow> jrpc_connection \<times> 'w \<Rightarrow> (int \<times> jrpc_connection \<times> 'w) option" where
  "connection_send env obj st = (case st of (conn, w) \<Rightarrow> do {
     write_cb \<leftarrow> jc_write_cb conn;
     (case js_dump (je_json env) obj of
        None \<Rightarrow> Some (JRPC_ERR_INTERNAL_ERROR, conn, w)
      | Some pieces \<Rightarrow> do {
          b1 \<leftarrow> json_buffer_dump (buffer_init 0) pieces;
          b2 \<leftarrow> buffer_append b1 (message_end @ [CHR 0x00]);
          text \<leftarrow> block_string (buffer_data b2) (unat (buffer_size b2 - 1));
          (case je_write env write_cb text (jc_write_cb_data conn) w of
             (n, w1) \<Rightarrow> Some (if n < 0 then JRPC_ERR_INTERNAL_ERROR else JRPC_OK, conn, w1))
        })
   })"

definition connection_receive ::
  "('j, 'w) jrpc_env \<Rightarrow> jrpc_connection \<times> 'w \<Rightarrow> ((int \<times> 'j option) \<times> jrpc_connection \<times> 'w) option" where
  "connection_receive env st = (case st of (conn, w) \<Rightarrow> do {
     read_cb \<leftarrow> jc_read_cb conn;
     (case je_read env read_cb DEFAULT_INPUT_BUFFER_SIZE (jc_read_cb_data conn) w of
        (None, w1) \<Rightarrow> Some ((JRPC_ERR_INTERNAL_ERROR, None), conn, w1)
      | (Some buffer, w1) \<Rightarrow>
          if buffer = [] then Some ((JRPC_EOF, None), conn, w1)
          else (case js_loadb (je_json env) buffer of
                  None \<Rightarrow> Some ((JRPC_ERR_PARSE_ERROR, None), conn, w1)
                | Some obj \<Rightarrow> Some ((JRPC_OK, Some obj), conn, w1)))
   })"

section \<open>Messages\<close>

text \<open>\<open>json_object_set\<close> on a NULL object fails and changes nothing.\<close>

definition object_set :: "'j jansson \<Rightarrow> 'j option \<Rightarrow> string \<Rightarrow> 'j option \<Rightarrow> 'j option" where
  "object_set J obj name v = map_option (\<lambda>obj. js_object_set J obj name v) obj"

definition int_of_id :: "u64 \<Rightarrow> int" where "int_of_id rid = sint rid"

definition make_call_obj :: "'j jansson \<Rightarrow> string \<Rightarrow> 'j option \<Rightarrow> u64 \<Rightarrow> 'j option" where
  "make_call_obj J method params rid =
    (let obj = js_pack J [(''jsonrpc'', PackS (Some ''2.0'')), (''method'', PackS (Some method))];
         obj1 = (if params \<noteq> None then object_set J obj ''params'' params else obj)
     in if rid \<noteq> 0 then object_set J obj1 ''id'' (Some (js_integer J (int_of_id rid))) else obj1)"

definition make_result_obj :: "'j jansson \<Rightarrow> 'j option \<Rightarrow> u64 \<Rightarrow> 'j option" where
  "make_result_obj J result rid =
    js_pack J [(''jsonrpc'', PackS (Some ''2.0'')), (''result'', PackO result), (''id'', PackI (int_of_id rid))]"

definition make_error_obj :: "'j jansson \<Rightarrow> int \<Rightarrow> string \<Rightarrow> 'j option \<Rightarrow> u64 \<Rightarrow> 'j option" where
  "make_error_obj J code message data rid =
    (let err = js_pack J [(''code'', PackI code), (''message'', PackS (Some message))];
         err1 = (if data \<noteq> None then object_set J err ''data'' data else err);
         j_id = (if rid \<noteq> 0 then js_integer J (int_of_id rid) else js_null J)
     in js_pack J [(''jsonrpc'', PackS (Some ''2.0'')), (''error'', PackO err1), (''id'', PackO (Some j_id))])"

datatype 'j rpc_obj =
    REQUEST string u64 "'j option"
  | RESULT_RESPONSE u64 'j
  | ERROR_RESPONSE u64 int string "'j option"

definition unpacked_obj :: "'j unpacked option \<Rightarrow> 'j option" where
  "unpacked_obj u = (case u of Some (IsO j) \<Rightarrow> Some j | _ \<Rightarrow> None)"

text \<open>
  The identifier of a request is unpacked with the format \<open>i\<close>, which writes an \<open>int\<close>, into a
  \<open>size_t\<close> that holds 0: on a little-endian machine its lower half.
\<close>

definition unpacked_id :: "'j unpacked option \<Rightarrow> u64" where
  "unpacked_id u = (case u of Some (IsI i) \<Rightarrow> ucast (word_of_int i :: u32) | _ \<Rightarrow> 0)"

definition request_format :: "(string \<times> unpack_kind \<times> bool) list" where
  "request_format = [(''jsonrpc'', UnpackS, False), (''method'', UnpackS, False),
    (''params'', UnpackO, True), (''id'', UnpackI, True)]"

definition response_format :: "(string \<times> unpack_kind \<times> bool) list" where
  "response_format = [(''jsonrpc'', UnpackS, False), (''result'', UnpackO, True), (''error'', UnpackO, True)]"

definition error_format :: "(string \<times> unpack_kind \<times> bool) list" where
  "error_format = [(''code'', UnpackI, False), (''message'', UnpackS, False), (''data'', UnpackO, True)]"

definition json_rpc_unpack :: "'j jansson \<Rightarrow> 'j option \<Rightarrow> int + 'j rpc_obj" where
  "json_rpc_unpack J j_obj =
    (if json_is J JSON_STRING (js_object_get J j_obj ''method'')
     then (case js_unpack J j_obj request_format of
             Some [Some (IsS version), Some (IsS method), params, rid] \<Rightarrow>
               if version = ''2.0'' then Inr (REQUEST method (unpacked_id rid) (unpacked_obj params))
               else Inl JRPC_ERR_INVALID_REQUEST
           | _ \<Rightarrow> Inl JRPC_ERR_INVALID_REQUEST)
     else (case (case js_object_get J j_obj ''id'' of
                   None \<Rightarrow> None
                 | Some j_id \<Rightarrow>
                     if js_typeof J j_id = JSON_INTEGER then Some (word_of_int (js_integer_value J j_id) :: u64)
                     else if js_typeof J j_id = JSON_NULL then Some 0
                     else None) of
             None \<Rightarrow> Inl JRPC_ERR_INVALID_RESPONSE
           | Some rid \<Rightarrow>
             (case js_unpack J j_obj response_format of
                Some [Some (IsS version), result, error] \<Rightarrow>
                  if version \<noteq> ''2.0'' then Inl JRPC_ERR_INVALID_RESPONSE
                  else (case (unpacked_obj error, unpacked_obj result) of
                          (Some e, None) \<Rightarrow>
                            (case js_unpack J (Some e) error_format of
                               Some [Some (IsI code), Some (IsS message), data] \<Rightarrow>
                                 Inr (ERROR_RESPONSE rid code message (unpacked_obj data))
                             | _ \<Rightarrow> Inl JRPC_ERR_INVALID_RESPONSE)
                        | (None, Some r) \<Rightarrow> Inr (RESULT_RESPONSE rid r)
                        | _ \<Rightarrow> Inl JRPC_ERR_INVALID_RESPONSE)
              | _ \<Rightarrow> Inl JRPC_ERR_INVALID_RESPONSE)))"

section \<open>Calls and their processing\<close>

definition jrpc_call ::
  "('j, 'w) jrpc_env \<Rightarrow> string \<Rightarrow> 'j option \<Rightarrow> (nat \<times> nat) option \<Rightarrow> jrpc_connection \<times> 'w
    \<Rightarrow> (int \<times> jrpc_connection \<times> 'w) option" where
  "jrpc_call env method params cb st = (case st of (conn, w) \<Rightarrow> do {
     (rid, conn1) \<leftarrow> (case cb of
         Some (f, user_data) \<Rightarrow> connection_register_callback conn f user_data
       | None \<Rightarrow> Some (0, conn));
     connection_send env (make_call_obj (je_json env) method params rid) (conn1, w)
   })"

definition jrpc_notify ::
  "('j, 'w) jrpc_env \<Rightarrow> string \<Rightarrow> 'j option \<Rightarrow> jrpc_connection \<times> 'w \<Rightarrow> (int \<times> jrpc_connection \<times> 'w) option" where
  "jrpc_notify env method params st = jrpc_call env method params None st"

definition connection_process_request ::
  "('j, 'w) jrpc_env \<Rightarrow> string \<Rightarrow> u64 \<Rightarrow> 'j option \<Rightarrow> jrpc_connection \<times> 'w
    \<Rightarrow> (int \<times> jrpc_connection \<times> 'w) option" where
  "connection_process_request env method rid params st = do {
     method_cb \<leftarrow> (case connection_get_mapper (fst st) of
                     Some mapper \<Rightarrow> jrpc_mapper_find mapper method
                   | None \<Rightarrow> Some None);
     (case method_cb of
        None \<Rightarrow> do {
          let ret = JRPC_ERR_METHOD_NOT_FOUND;
          (_, st1) \<leftarrow> connection_send env (make_error_obj (je_json env) ret ''method was not found'' None rid) st;
          Some (ret, st1)
        }
      | Some f \<Rightarrow> do {
          ((mth_ret, result), st1) \<leftarrow> je_method env f params st;
          (if mth_ret \<noteq> 0
           then do {
             mapper \<leftarrow> connection_get_mapper (fst st1);
             found \<leftarrow> jrpc_mapper_get_error_message mapper (word_of_int mth_ret);
             let error_message = (case found of Some m \<Rightarrow> m | None \<Rightarrow> ''method returned an unknow error'');
             let ret = JRPC_ERR_METHOD_TO_CODE mth_ret;
             (_, st2) \<leftarrow> connection_send env (make_error_obj (je_json env) ret error_message None rid) st1;
             Some (ret, st2)
           }
           else if rid \<noteq> 0
           then do {
             (_, st2) \<leftarrow> connection_send env (make_result_obj (je_json env) result rid) st1;
             Some (JRPC_OK, st2)
           }
           else Some (JRPC_OK, st1))
        })
   }"

definition connection_process_result ::
  "('j, 'w) jrpc_env \<Rightarrow> u64 \<Rightarrow> 'j \<Rightarrow> jrpc_connection \<times> 'w \<Rightarrow> (int \<times> jrpc_connection \<times> 'w) option" where
  "connection_process_result env rid result st = do {
     (found, conn1) \<leftarrow> connection_find_callback (fst st) rid;
     (case found of
        None \<Rightarrow> Some (JRPC_ERR_INVALID_RESPONSE_ID, conn1, snd st)
      | Some (cb, user_data) \<Rightarrow> do {
          st1 \<leftarrow> je_callback env cb result user_data (conn1, snd st);
          Some (JRPC_OK, st1)
        })
   }"

definition connection_process_error ::
  "('j, 'w) jrpc_env \<Rightarrow> u64 \<Rightarrow> int \<Rightarrow> string \<Rightarrow> 'j option \<Rightarrow> jrpc_connection \<times> 'w
    \<Rightarrow> (int \<times> jrpc_connection \<times> 'w) option" where
  "connection_process_error env rid code message data st =
    (case jrpc_connection_get_error_handler (fst st) of
       None \<Rightarrow> Some (JRPC_OK, st)
     | Some h \<Rightarrow> map_option (Pair JRPC_OK) (je_error_handler env h rid code message data st))"

definition jrpc_process ::
  "('j, 'w) jrpc_env \<Rightarrow> jrpc_connection \<times> 'w \<Rightarrow> (int \<times> jrpc_connection \<times> 'w) option" where
  "jrpc_process env st = do {
     ((ret, j_obj), st1) \<leftarrow> connection_receive env st;
     (if ret \<noteq> 0 then Some (ret, st1)
      else case json_rpc_unpack (je_json env) j_obj of
          Inl ret1 \<Rightarrow>
            (if ret1 = JRPC_ERR_INVALID_REQUEST
             then do {
               (_, st2) \<leftarrow> connection_send env (make_error_obj (je_json env) ret1 ''invalid request'' None 0) st1;
               Some (ret1, st2)
             }
             else Some (ret1, st1))
        | Inr (REQUEST method rid params) \<Rightarrow> connection_process_request env method rid params st1
        | Inr (RESULT_RESPONSE rid result) \<Rightarrow> connection_process_result env rid result st1
        | Inr (ERROR_RESPONSE rid code message data) \<Rightarrow> connection_process_error env rid code message data st1)
   }"

end
