(* ===== verification/JrpcExchange.thy ===== *)
theory JrpcExchange
  imports Jrpc
begin

text \<open>
  What the RPC library guarantees: messages are understood as they were made, the table of pending
  calls behaves as a finite map from fresh identifiers, a call reaches the method of the other side
  and its result the callback of the caller; and where it fails: results that are never sent,
  messages that are lost.
\<close>

section \<open>Messages are read as they were written\<close>

lemma two_zero_utf8: "json_laws J \<Longrightarrow> js_utf8 J ''2.0''"
  by (rule ascii_utf8) (simp_all add: ascii_def)

lemma int_of_id_int64: "is_int64 (int_of_id n)"
  using sint_greater_eq [of n] sint_less [of n] by (simp add: int_of_id_def is_int64_def)

lemma word_of_int_of_id: "(word_of_int (int_of_id n) :: u64) = n"
  by (simp add: int_of_id_def)

lemma word_of_int_sint_ucast: "(word_of_int (sint (n :: u64)) :: u32) = ucast n"
  by (rule bit_word_eqI) (simp add: bit_simps)

text \<open>The truncation of a request identifier keeps those below \<open>2 ^ 32\<close>.\<close>

lemma low_half:
  assumes "unat n < 2 ^ 32"
  shows "(ucast (word_of_int (to_int32 (int_of_id n)) :: u32) :: u64) = n"
proof -
  have "(word_of_int (to_int32 (int_of_id n)) :: u32) = word_of_int (int_of_id n)"
  proof -
    have "to_int32 (int_of_id n) mod 2 ^ 32 = int_of_id n mod 2 ^ 32"
      unfolding to_int32_def by (simp add: mod_diff_left_eq)
    then show ?thesis
      by (simp add: word_of_int_eq_iff take_bit_eq_mod)
  qed
  also have "\<dots> = ucast n"
    unfolding int_of_id_def by (rule word_of_int_sint_ucast)
  finally have "(ucast (word_of_int (to_int32 (int_of_id n)) :: u32) :: u64) = ucast (ucast n :: u32)"
    by simp
  moreover have "unat (ucast (ucast n :: u32) :: u64) = unat n"
    using assms by (simp add: unsigned_ucast_eq unsigned_take_bit_eq take_bit_nat_eq_self_iff)
  ultimately show ?thesis
    by (simp add: word_unat_eq_iff)
qed

definition call_fields :: "'j jansson \<Rightarrow> string \<Rightarrow> 'j option \<Rightarrow> u64 \<Rightarrow> (string \<times> 'j) list" where
  "call_fields J method params rid =
    [(''jsonrpc'', jstr J ''2.0''), (''method'', jstr J method)]
    @ (case params of None \<Rightarrow> [] | Some p \<Rightarrow> [(''params'', p)])
    @ (if rid \<noteq> 0 then [(''id'', js_integer J (int_of_id rid))] else [])"

lemma make_call_obj_fields:
  assumes "json_laws J" "js_utf8 J method"
  shows "make_call_obj J method params rid = Some (jobj J (call_fields J method params rid))"
proof -
  have "js_pack J [(''jsonrpc'', PackS (Some ''2.0'')), (''method'', PackS (Some method))]
      = Some (jobj J [(''jsonrpc'', jstr J ''2.0''), (''method'', jstr J method)])"
    using assms two_zero_utf8 [OF assms(1)]
    by (simp add: js_pack_eq pack_object_def pack_value_def json_rules jobj_def)
  then show ?thesis
    by (cases params) (auto simp: make_call_obj_def call_fields_def object_set_def jobj_snoc)
qed

lemma request_understood:
  assumes J: "json_laws J" and m: "js_utf8 J method" and r: "unat rid < 2 ^ 32"
  shows "json_rpc_unpack J (make_call_obj J method params rid) = Inr (REQUEST method rid params)"
proof -
  have K: "list_all ascii (map fst (call_fields J method params rid))"
    by (cases params) (simp_all add: call_fields_def ascii_def)
  note get = jobj_field(2) [OF J K]
  define obj where "obj = jobj J (call_fields J method params rid)"
  have g: "js_object_get J (Some obj) ''jsonrpc'' = Some (jstr J ''2.0'')"
    "js_object_get J (Some obj) ''method'' = Some (jstr J method)"
    "js_object_get J (Some obj) ''params'' = params"
    "js_object_get J (Some obj) ''id'' = (if rid = 0 then None else Some (js_integer J (int_of_id rid)))"
    unfolding obj_def get by (cases params; simp add: call_fields_def)+
  note v = two_zero_utf8 [OF J]
  have U: "js_unpack J (Some obj) request_format
      = Some [Some (IsS ''2.0''), Some (IsS method), map_option IsO params,
          if rid = 0 then None else Some (IsI (to_int32 (int_of_id rid)))]"
    by (simp add: js_unpack_eq [OF J] request_format_def g unpack_value_def json_rules J m v
        int_of_id_int64 split: option.split)
  have "unpacked_id (if rid = 0 then None else Some (IsI (to_int32 (int_of_id rid)))) = rid"
    using low_half [OF r] by (simp add: unpacked_id_def)
  moreover have "unpacked_obj (map_option IsO params) = params"
    by (simp add: unpacked_obj_def split: option.split)
  moreover have "make_call_obj J method params rid = Some obj"
    by (simp add: make_call_obj_fields [OF J m] obj_def)
  ultimately show ?thesis
    by (simp add: json_rpc_unpack_def U g json_rules J m)
qed

text \<open>A result and an error, the latter with or without an identifier.\<close>

lemma result_understood:
  assumes J: "json_laws J"
  shows "json_rpc_unpack J (make_result_obj J (Some result) rid) = Inr (RESULT_RESPONSE rid result)"
proof -
  let ?kvs = "[(''jsonrpc'', jstr J ''2.0''), (''result'', result), (''id'', js_integer J (int_of_id rid))]"
  note v = two_zero_utf8 [OF J]
  have M: "make_result_obj J (Some result) rid = Some (jobj J ?kvs)"
    by (simp add: make_result_obj_def js_pack_eq [OF J] pack_object_def pack_value_def json_rules J v jobj_def)
  have K: "list_all ascii (map fst ?kvs)"
    by (simp add: ascii_def)
  note get = jobj_field(2) [OF J K]
  have U: "js_unpack J (Some (jobj J ?kvs)) response_format = Some [Some (IsS ''2.0''), Some (IsO result), None]"
    by (simp add: js_unpack_eq [OF J] response_format_def get unpack_value_def json_rules J v)
  show ?thesis
    unfolding M json_rpc_unpack_def U
    by (simp add: get unpacked_obj_def json_rules J int_of_id_int64 word_of_int_of_id)
qed

lemma error_understood:
  assumes J: "json_laws J" and m: "js_utf8 J message" and c: "is_int32 code"
  shows "json_rpc_unpack J (make_error_obj J code message None rid) = Inr (ERROR_RESPONSE rid code message None)"
proof -
  let ?err = "jobj J [(''code'', js_integer J code), (''message'', jstr J message)]"
  let ?id = "if rid \<noteq> 0 then js_integer J (int_of_id rid) else js_null J"
  let ?kvs = "[(''jsonrpc'', jstr J ''2.0''), (''error'', ?err), (''id'', ?id)]"
  note v = two_zero_utf8 [OF J]
  have M: "make_error_obj J code message None rid = Some (jobj J ?kvs)"
    by (simp add: make_error_obj_def js_pack_eq [OF J] pack_object_def pack_value_def json_rules J v m jobj_def)
  have K: "list_all ascii (map fst ?kvs)"
    by (simp add: ascii_def)
  note get = jobj_field(2) [OF J K]
  have K1: "list_all ascii (map fst [(''code'', js_integer J code), (''message'', jstr J message)])"
    by (simp add: ascii_def)
  note get1 = jobj_field(2) [OF J K1]
  have U: "js_unpack J (Some (jobj J ?kvs)) response_format = Some [Some (IsS ''2.0''), None, Some (IsO ?err)]"
    by (simp add: js_unpack_eq [OF J] response_format_def get unpack_value_def json_rules J v)
  have U1: "js_unpack J (Some ?err) error_format = Some [Some (IsI code), Some (IsS message), None]"
    using c by (simp add: js_unpack_eq [OF J] error_format_def get1 unpack_value_def json_rules J m
        is_int32_int64 to_int32_id)
  show ?thesis
    unfolding M json_rpc_unpack_def U
    by (simp add: get unpacked_obj_def json_rules J int_of_id_int64 word_of_int_of_id U1)
qed

section \<open>The msg on the wire\<close>

definition dumps_to :: "'j jansson \<Rightarrow> 'j \<Rightarrow> string \<Rightarrow> bool" where
  "dumps_to J j msg \<longleftrightarrow> (\<exists>pieces. js_dump J (Some j) = Some pieces \<and> concat pieces = msg)
    \<and> length msg < 2 ^ 62"

lemma json_buffer_dump_holds:
  assumes "buffer_holds b bytes" "length bytes + length (concat pieces) < 2 ^ 63"
  shows "\<exists>b'. json_buffer_dump b pieces = Some b' \<and> buffer_holds b' (bytes @ concat pieces)"
  using assms
proof (induction pieces arbitrary: b bytes)
  case Nil
  then show ?case by simp
next
  case (Cons piece pieces)
  obtain b1 where b1: "buffer_append b piece = Some b1" "buffer_holds b1 (bytes @ piece)"
    using buffer_append_holds [of b bytes piece] Cons.prems by auto
  then obtain b' where "json_buffer_dump b1 pieces = Some b'"
      "buffer_holds b' ((bytes @ piece) @ concat pieces)"
    using Cons.IH [of b1 "bytes @ piece"] Cons.prems by auto
  with b1 show ?case by simp
qed

text \<open>\<open>connection_send\<close> writes the text of the object and the end of message, without the final NUL.\<close>

lemma connection_send_text:
  assumes cb: "jc_write_cb conn = Some f" and d: "dumps_to (je_json env) j msg"
  shows "connection_send env (Some j) (conn, w) =
    (case je_write env f (msg @ message_end) (jc_write_cb_data conn) w of
       (n, w1) \<Rightarrow> Some (if n < 0 then JRPC_ERR_INTERNAL_ERROR else JRPC_OK, conn, w1))"
proof -
  obtain pieces where p: "js_dump (je_json env) (Some j) = Some pieces" "concat pieces = msg"
      and len: "length msg < 2 ^ 62"
    using d by (auto simp: dumps_to_def)
  obtain b1 where b1: "json_buffer_dump (buffer_init 0) pieces = Some b1" "buffer_holds b1 msg"
    using json_buffer_dump_holds [OF buffer_init_holds, of pieces 0] p(2) len by auto
  have ml: "length (message_end @ [CHR 0x00]) = 5"
    by (simp add: message_end_def)
  have "length msg + length (message_end @ [CHR 0x00]) < 2 ^ 63"
    unfolding ml using len by simp
  then obtain b2 where b2: "buffer_append b1 (message_end @ [CHR 0x00]) = Some b2"
      "buffer_holds b2 (msg @ message_end @ [CHR 0x00])"
    using buffer_append_holds [OF b1(2)] by blast
  let ?all = "msg @ message_end @ [CHR 0x00]"
  have sz: "unat (buffer_size b2) = length msg + 5" and mem: "length ?all \<le> length (buf_p b2)"
      "take (length ?all) (buf_p b2) = map Some ?all"
    using b2(2) ml by (simp_all add: buffer_holds_def buffer_size_def add.commute)
  have n: "unat (buffer_size b2 - 1) = length (msg @ message_end)"
  proof -
    have "unat (buffer_size b2 - 1) = unat (buffer_size b2) - 1"
      using sz by (intro unat_minus_one) auto
    with sz show ?thesis by (simp add: message_end_def)
  qed
  have "take (length (msg @ message_end)) (buf_p b2)
      = take (length (msg @ message_end)) (take (length ?all) (buf_p b2))"
    by (simp add: min_def)
  also have "\<dots> = map Some (msg @ message_end)"
    unfolding mem(2) by simp
  finally have "take (length (msg @ message_end)) (buf_p b2) = map Some (msg @ message_end)" .
  moreover have "length (msg @ message_end) \<le> length (buf_p b2)"
    using mem(1) by simp
  ultimately have "block_string (buffer_data b2) (unat (buffer_size b2 - 1)) = Some (msg @ message_end)"
    unfolding block_string_def n buffer_data_def by (auto simp: comp_def simp del: append_assoc length_append)
  with cb p b1 b2 show ?thesis
    by (simp add: connection_send_def split: prod.split)
qed

section \<open>The pending calls\<close>

text \<open>
  The calls that wait for a result, by identifier. The identifiers in the table were all given out,
  so the next one is free.
\<close>

definition pending :: "jrpc_connection \<Rightarrow> u64 \<rightharpoonup> rpc_callback_entry" where
  "pending conn rid = Option.bind (ht_map (jc_response_table conn) (HPtr rid)) (\<lambda>e. e)"

definition connection_inv :: "jrpc_connection \<Rightarrow> bool" where
  "connection_inv conn \<longleftrightarrow> pointer_table (jc_response_table conn) \<and> jc_current_id conn \<noteq> 0
    \<and> (\<forall>rid. ht_map (jc_response_table conn) (HPtr rid) \<noteq> None \<longrightarrow> rid < jc_current_id conn)"

lemma pointer_table_new: "tp \<noteq> HASH_KEY_STR \<Longrightarrow> pointer_table (hash_table_new tp kf vf)"
  by (simp add: pointer_table_def hash_table_new_inv)

lemma connection_new_inv [inv_rules]: "connection_inv (jrpc_connection_new mapper data)"
  by (simp add: connection_inv_def jrpc_connection_new_def pointer_table_new hash_table_new_map)

lemma pointer_key_id: "rid \<noteq> 0 \<Longrightarrow> pointer_key ht (HPtr rid)"
  by (simp add: pointer_key_def NULL_key_def)

lemma register_adds:
  assumes inv: "connection_inv conn" and room: "jc_current_id conn + 1 \<noteq> 0"
  shows "\<exists>conn1. connection_register_callback conn cb data = Some (jc_current_id conn, conn1)
    \<and> connection_inv conn1
    \<and> pending conn1 = (pending conn)(jc_current_id conn \<mapsto> \<lparr>rce_cb = cb, rce_user_data = data\<rparr>)
    \<and> pending conn (jc_current_id conn) = None
    \<and> (\<exists>ht. conn1 = conn\<lparr>jc_current_id := jc_current_id conn + 1, jc_response_table := ht\<rparr>)"
proof -
  let ?ht = "jc_response_table conn" and ?k = "jc_current_id conn"
  let ?e = "\<lparr>rce_cb = cb, rce_user_data = data\<rparr>"
  have fresh: "ht_map ?ht (HPtr ?k) = None"
    using inv unfolding connection_inv_def by (metis less_irrefl)
  obtain ht where ht: "ht_add (HPtr ?k) (Some ?e) ?ht = Some ht" "pointer_table ht"
      "ht_map ht = (ht_map ?ht)(HPtr ?k \<mapsto> Some ?e)"
    using ptr_store.add_fresh [of ?ht "HPtr ?k" "Some ?e"] inv fresh pointer_key_id
    by (auto simp: connection_inv_def)
  then obtain r fr where ins: "hash_table_insert ?ht (HPtr ?k) (Some ?e) = Some (r, ht, fr)"
    by (auto simp: ht_add_def)
  let ?c = "conn\<lparr>jc_current_id := ?k + 1, jc_response_table := ht\<rparr>"
  have less: "rid < ?k + 1" if "rid \<le> ?k" for rid
    using that unatSuc [of ?k] room by (simp add: word_less_nat_alt word_le_nat_alt add.commute)
  have "connection_inv ?c"
    unfolding connection_inv_def
  proof (intro conjI allI impI)
    fix rid assume "ht_map (jc_response_table ?c) (HPtr rid) \<noteq> None"
    then have "rid = ?k \<or> rid < ?k"
      using inv ht(3) by (auto simp: connection_inv_def split: if_splits)
    then have "rid \<le> ?k" by auto
    then show "rid < jc_current_id ?c" by (simp add: less)
  qed (use ht(2) room in simp_all)
  moreover have "pending ?c = (pending conn)(?k \<mapsto> ?e)"
    by (rule ext) (simp add: pending_def ht(3))
  moreover have "pending conn ?k = None"
    by (simp add: pending_def fresh)
  ultimately show ?thesis
    using ins by (intro exI [of _ ?c]) (auto simp: connection_register_callback_def Let_def)
qed

lemma find_removes:
  assumes inv: "connection_inv conn" and r: "rid \<noteq> 0"
  shows "\<exists>conn1. connection_find_callback conn rid =
      Some (map_option (\<lambda>e. (rce_cb e, rce_user_data e)) (pending conn rid), conn1)
    \<and> connection_inv conn1 \<and> pending conn1 = (pending conn)(rid := None)
    \<and> (\<exists>ht. conn1 = conn\<lparr>jc_response_table := ht\<rparr>)"
proof -
  let ?ht = "jc_response_table conn"
  have k: "key_fits (ht_type ?ht) (HPtr rid)" "HPtr rid \<noteq> NULL_key" and t: "tinv ?ht"
    using inv r pointer_key_fits [OF _ pointer_key_id [OF r]]
    by (auto simp: connection_inv_def pointer_table_def hash_table_inv_def)
  have S: "hash_table_search ?ht (HPtr rid) = Some (pending conn rid)"
    by (simp add: search_map [OF t k] pending_def split: option.split)
  show ?thesis
  proof (cases "pending conn rid")
    case None
    with S inv show ?thesis
      by (intro exI [of _ conn] conjI exI [of _ ?ht])
        (simp_all add: connection_find_callback_def fun_upd_idem)
  next
    case (Some e)
    obtain ht where ht: "ht_remove (HPtr rid) ?ht = Some ht" "pointer_table ht"
        "ht_map ht = (ht_map ?ht)(HPtr rid := None)"
      using ptr_store.remove_law [of ?ht "HPtr rid"] inv r pointer_key_id by (auto simp: connection_inv_def)
    then obtain x fr where rm: "hash_table_remove ?ht (HPtr rid) = Some (x, ht, fr)"
      by (auto simp: ht_remove_def)
    let ?c = "conn\<lparr>jc_response_table := ht\<rparr>"
    have "connection_inv ?c"
      using inv ht(2,3) by (auto simp: connection_inv_def)
    moreover have "pending ?c = (pending conn)(rid := None)"
      by (rule ext) (simp add: pending_def ht(3))
    ultimately show ?thesis
      using Some S rm by (intro exI [of _ ?c]) (auto simp: connection_find_callback_def)
  qed
qed

section \<open>Two ends of a stream\<close>

text \<open>
  A client and a server joined by two streams of bytes, as a stream socket joins them: a write
  appends, a read takes what has arrived, at most as much as asked for. The methods and callbacks
  act on a state \<open>wr_app\<close>.
\<close>

record 'w wire =
  to_server :: string
  to_client :: string
  wr_app :: 'w

definition client_env ::
  "'j jansson \<Rightarrow> (nat \<Rightarrow> 'j \<Rightarrow> nat \<Rightarrow> 'w \<Rightarrow> 'w) \<Rightarrow> (u64 \<Rightarrow> int \<Rightarrow> string \<Rightarrow> 'w \<Rightarrow> 'w) \<Rightarrow> ('j, 'w wire) jrpc_env" where
  "client_env J cbs on_error =
    \<lparr>je_json = J,
     je_read = \<lambda>_ n _ w. (Some (take n (to_client w)), w\<lparr>to_client := drop n (to_client w)\<rparr>),
     je_write = \<lambda>_ msg _ w. (int (length msg), w\<lparr>to_server := to_server w @ msg\<rparr>),
     je_method = \<lambda>_ _ st. Some ((1, None), st),
     je_callback = \<lambda>f result data (conn, w). Some (conn, w\<lparr>wr_app := cbs f result data (wr_app w)\<rparr>),
     je_error_handler = \<lambda>_ rid code message _ (conn, w). Some (conn, w\<lparr>wr_app := on_error rid code message (wr_app w)\<rparr>)\<rparr>"

definition server_env ::
  "'j jansson \<Rightarrow> (nat \<Rightarrow> 'j option \<Rightarrow> 'w \<Rightarrow> (int \<times> 'j option) \<times> 'w) \<Rightarrow> ('j, 'w wire) jrpc_env" where
  "server_env J methods =
    \<lparr>je_json = J,
     je_read = \<lambda>_ n _ w. (Some (take n (to_server w)), w\<lparr>to_server := drop n (to_server w)\<rparr>),
     je_write = \<lambda>_ msg _ w. (int (length msg), w\<lparr>to_client := to_client w @ msg\<rparr>),
     je_method = \<lambda>f params (conn, w). (case methods f params (wr_app w) of
                   (r, a) \<Rightarrow> Some (r, conn, w\<lparr>wr_app := a\<rparr>)),
     je_callback = \<lambda>_ _ _ st. Some st,
     je_error_handler = \<lambda>_ _ _ _ _ st. Some st\<rparr>"

text \<open>The text of a value fits the input buffer and is recognised at the start of what is read.\<close>

definition wire_text :: "'j jansson \<Rightarrow> 'j \<Rightarrow> string \<Rightarrow> bool" where
  "wire_text J j msg \<longleftrightarrow> dumps_to J j msg \<and> length msg + 4 \<le> DEFAULT_INPUT_BUFFER_SIZE
    \<and> (\<forall>rest. js_loadb J (msg @ rest) = Some j)"

definition connected :: "jrpc_connection \<Rightarrow> bool" where
  "connected conn \<longleftrightarrow> jc_read_cb conn \<noteq> None \<and> jc_write_cb conn \<noteq> None"

lemma wire_send:
  assumes "connected conn" "wire_text J j msg"
  shows "connection_send (client_env J cbs h) (Some j) (conn, w)
      = Some (JRPC_OK, conn, w\<lparr>to_server := to_server w @ msg @ message_end\<rparr>)"
    "connection_send (server_env J methods) (Some j) (conn, w)
      = Some (JRPC_OK, conn, w\<lparr>to_client := to_client w @ msg @ message_end\<rparr>)"
proof -
  obtain f where f: "jc_write_cb conn = Some f"
    using assms(1) by (auto simp: connected_def)
  have d: "dumps_to J j msg"
    using assms(2) by (simp add: wire_text_def)
  show "connection_send (client_env J cbs h) (Some j) (conn, w)
      = Some (JRPC_OK, conn, w\<lparr>to_server := to_server w @ msg @ message_end\<rparr>)"
    using connection_send_text [OF f, of "client_env J cbs h" j msg w] d by (simp add: client_env_def)
  show "connection_send (server_env J methods) (Some j) (conn, w)
      = Some (JRPC_OK, conn, w\<lparr>to_client := to_client w @ msg @ message_end\<rparr>)"
    using connection_send_text [OF f, of "server_env J methods" j msg w] d by (simp add: server_env_def)
qed

lemma wire_text_load:
  assumes "wire_text J j msg"
  shows "js_loadb J (take 4096 (msg @ message_end @ rest)) = Some j"
    "take 4096 (msg @ message_end @ rest) \<noteq> []"
proof -
  have len: "length (msg @ message_end) \<le> 4096"
    using assms by (simp add: wire_text_def DEFAULT_INPUT_BUFFER_SIZE_def message_end_def)
  have t: "take 4096 (msg @ message_end @ rest) = msg @ message_end @ take (4096 - length (msg @ message_end)) rest"
    using len by simp
  show "js_loadb J (take 4096 (msg @ message_end @ rest)) = Some j"
    unfolding t using assms by (simp add: wire_text_def)
  show "take 4096 (msg @ message_end @ rest) \<noteq> []"
    unfolding t by (simp add: message_end_def)
qed

text \<open>A read takes everything that has arrived, and gives its first value.\<close>

lemma wire_receive:
  assumes "connected conn" "wire_text J j msg"
  shows "to_client w = msg @ message_end @ rest \<Longrightarrow>
      connection_receive (client_env J cbs h) (conn, w)
        = Some ((JRPC_OK, Some j), conn, w\<lparr>to_client := drop 4096 (to_client w)\<rparr>)"
    "to_server w = msg @ message_end @ rest \<Longrightarrow>
      connection_receive (server_env J methods) (conn, w)
        = Some ((JRPC_OK, Some j), conn, w\<lparr>to_server := drop 4096 (to_server w)\<rparr>)"
proof -
  obtain f where f: "jc_read_cb conn = Some f"
    using assms(1) by (auto simp: connected_def)
  note L = wire_text_load [OF assms(2)]
  assume w: "to_client w = msg @ message_end @ rest"
  show "connection_receive (client_env J cbs h) (conn, w)
      = Some ((JRPC_OK, Some j), conn, w\<lparr>to_client := drop 4096 (to_client w)\<rparr>)"
    using L [of rest] f unfolding w by (simp add: connection_receive_def client_env_def DEFAULT_INPUT_BUFFER_SIZE_def w)
next
  obtain f where f: "jc_read_cb conn = Some f"
    using assms(1) by (auto simp: connected_def)
  note L = wire_text_load [OF assms(2)]
  assume w: "to_server w = msg @ message_end @ rest"
  show "connection_receive (server_env J methods) (conn, w)
      = Some ((JRPC_OK, Some j), conn, w\<lparr>to_server := drop 4096 (to_server w)\<rparr>)"
    using L [of rest] f unfolding w by (simp add: connection_receive_def server_env_def DEFAULT_INPUT_BUFFER_SIZE_def w)
qed

lemma wire_text_drop: "wire_text J j msg \<Longrightarrow> drop 4096 (msg @ message_end) = []"
  by (rule drop_all) (simp add: wire_text_def DEFAULT_INPUT_BUFFER_SIZE_def message_end_def)

text \<open>The steps of an exchange.\<close>

lemma client_calls:
  assumes J: "json_laws J" and m: "js_utf8 J method"
    and inv: "connection_inv cc" "connected cc" "jc_current_id cc + 1 \<noteq> 0"
    and t: "wire_text J (jobj J (call_fields J method params (jc_current_id cc))) msg"
  shows "\<exists>cc1. jrpc_call (client_env J cbs h) method params (Some (cb, data)) (cc, w)
      = Some (JRPC_OK, cc1, w\<lparr>to_server := to_server w @ msg @ message_end\<rparr>)
    \<and> connection_inv cc1 \<and> connected cc1
    \<and> pending cc1 = (pending cc)(jc_current_id cc \<mapsto> \<lparr>rce_cb = cb, rce_user_data = data\<rparr>)
    \<and> pending cc (jc_current_id cc) = None \<and> jc_error_handler cc1 = jc_error_handler cc"
proof -
  obtain cc1 ht where c: "connection_register_callback cc cb data = Some (jc_current_id cc, cc1)"
      "connection_inv cc1"
      "pending cc1 = (pending cc)(jc_current_id cc \<mapsto> \<lparr>rce_cb = cb, rce_user_data = data\<rparr>)"
      "pending cc (jc_current_id cc) = None"
      "cc1 = cc\<lparr>jc_current_id := jc_current_id cc + 1, jc_response_table := ht\<rparr>"
    using register_adds [OF inv(1,3), of cb data] by blast
  have con: "connected cc1"
    using inv(2) by (simp add: c(5) connected_def)
  have "je_json (client_env J cbs h) = J"
    by (simp add: client_env_def)
  then show ?thesis
    using c con wire_send(1) [OF con t, of cbs h w]
    by (intro exI [of _ cc1]) (simp add: jrpc_call_def make_call_obj_fields [OF J m])
qed

lemma server_answers:
  assumes J: "json_laws J" and m: "js_utf8 J method" and r: "unat rid < 2 ^ 32" "rid \<noteq> 0"
    and con: "connected sc" and mp: "jc_mapper sc = Some mp" "jrpc_mapper_find mp method = Some (Some f)"
    and t: "wire_text J (jobj J (call_fields J method params rid)) msg"
    and w: "to_server w = msg @ message_end @ rest"
    and meth: "methods f params (wr_app w) = ((0, result), a)"
    and t1: "\<And>x. result = Some x \<Longrightarrow> wire_text J (the (make_result_obj J result rid)) text1"
  shows "jrpc_process (server_env J methods) (sc, w)
    = Some (JRPC_OK, sc, w\<lparr>to_server := drop 4096 (to_server w), wr_app := a,
        to_client := to_client w @ (if result = None then [] else text1 @ message_end)\<rparr>)"
proof -
  have U: "json_rpc_unpack J (Some (jobj J (call_fields J method params rid))) = Inr (REQUEST method rid params)"
    using request_understood [OF J m r(1), of params] by (simp add: make_call_obj_fields [OF J m])
  have e: "je_json (server_env J methods) = J"
    by (simp add: server_env_def)
  let ?w1 = "w\<lparr>to_server := drop 4096 (to_server w)\<rparr>"
  have M: "je_method (server_env J methods) f params (sc, ?w1)
      = Some ((0, result), sc, ?w1\<lparr>wr_app := a\<rparr>)"
    using meth by (simp add: server_env_def)
  have S: "\<exists>n. connection_send (server_env J methods) (make_result_obj J result rid) (sc, ?w1\<lparr>wr_app := a\<rparr>)
      = Some (n, sc, ?w1\<lparr>wr_app := a, to_client := to_client w @ (if result = None then [] else text1 @ message_end)\<rparr>)"
  proof (cases result)
    case None
    have "make_result_obj J None rid = None"
      by (simp add: make_result_obj_def js_pack_eq [OF J] pack_object_def pack_value_def)
    moreover obtain g where "jc_write_cb sc = Some g"
      using con by (auto simp: connected_def)
    ultimately show ?thesis
      using None by (simp add: connection_send_def e js_dump_None [OF J])
  next
    case (Some x)
    obtain j where j: "make_result_obj J (Some x) rid = Some j"
      using two_zero_utf8 [OF J]
      by (simp add: make_result_obj_def js_pack_eq [OF J] pack_object_def pack_value_def json_rules J)
    with Some t1 [OF Some] wire_send(2) [OF con, of J j text1 methods "?w1\<lparr>wr_app := a\<rparr>"] show ?thesis
      by simp
  qed
  show ?thesis
    using S r(2) M mp
    by (auto simp: jrpc_process_def wire_receive(2) [OF con t w] U e JRPC_OK_def
        connection_process_request_def connection_get_mapper_def)
qed

lemma client_gets_result:
  assumes J: "json_laws J" and inv: "connection_inv cc" and con: "connected cc" and r: "rid \<noteq> 0"
    and p: "pending cc rid = Some e"
    and t: "wire_text J (the (make_result_obj J (Some result) rid)) msg"
    and w: "to_client w = msg @ message_end @ rest"
  shows "\<exists>cc1. jrpc_process (client_env J cbs h) (cc, w)
      = Some (JRPC_OK, cc1, w\<lparr>to_client := drop 4096 (to_client w),
          wr_app := cbs (rce_cb e) result (rce_user_data e) (wr_app w)\<rparr>)
    \<and> connection_inv cc1 \<and> pending cc1 = (pending cc)(rid := None)"
proof -
  obtain j where j: "make_result_obj J (Some result) rid = Some j"
    using two_zero_utf8 [OF J]
    by (simp add: make_result_obj_def js_pack_eq [OF J] pack_object_def pack_value_def json_rules J)
  with t have t': "wire_text J j msg" by simp
  have U: "json_rpc_unpack J (Some j) = Inr (RESULT_RESPONSE rid result)"
    using result_understood [OF J, of result rid] by (simp add: j)
  obtain cc1 where f: "connection_find_callback cc rid = Some (Some (rce_cb e, rce_user_data e), cc1)"
      "connection_inv cc1" "pending cc1 = (pending cc)(rid := None)"
    using find_removes [OF inv r] p by auto
  have "je_json (client_env J cbs h) = J"
    by (simp add: client_env_def)
  then show ?thesis
    using f U wire_receive(1) [OF con t' w, of cbs h]
    by (intro exI [of _ cc1])
      (simp add: jrpc_process_def JRPC_OK_def connection_process_result_def client_env_def)
qed

lemma server_reports_error:
  assumes J: "json_laws J" and m: "js_utf8 J method" and r: "unat rid < 2 ^ 32"
    and con: "connected sc" and mp: "jc_mapper sc = Some mp" "jrpc_mapper_find mp method = Some (Some f)"
    and em: "jrpc_mapper_get_error_message mp (word_of_int err) = Some (Some message)" "js_utf8 J message"
    and t: "wire_text J (jobj J (call_fields J method params rid)) msg"
    and w: "to_server w = msg @ message_end @ rest"
    and meth: "methods f params (wr_app w) = ((err, result), a)" "err \<noteq> 0"
    and t1: "wire_text J (the (make_error_obj J (JRPC_ERR_METHOD_TO_CODE err) message None rid)) msg1"
  shows "jrpc_process (server_env J methods) (sc, w)
    = Some (JRPC_ERR_METHOD_TO_CODE err, sc, w\<lparr>to_server := drop 4096 (to_server w), wr_app := a,
        to_client := to_client w @ msg1 @ message_end\<rparr>)"
proof -
  have U: "json_rpc_unpack J (Some (jobj J (call_fields J method params rid))) = Inr (REQUEST method rid params)"
    using request_understood [OF J m r, of params] by (simp add: make_call_obj_fields [OF J m])
  have e: "je_json (server_env J methods) = J"
    by (simp add: server_env_def)
  let ?w1 = "w\<lparr>to_server := drop 4096 (to_server w)\<rparr>"
  have M: "je_method (server_env J methods) f params (sc, ?w1) = Some ((err, result), sc, ?w1\<lparr>wr_app := a\<rparr>)"
    using meth by (simp add: server_env_def)
  obtain j where j: "make_error_obj J (JRPC_ERR_METHOD_TO_CODE err) message None rid = Some j"
    using two_zero_utf8 [OF J] em(2)
    by (simp add: make_error_obj_def js_pack_eq [OF J] pack_object_def pack_value_def json_rules J)
  have S: "connection_send (server_env J methods) (Some j) (sc, ?w1\<lparr>wr_app := a\<rparr>)
      = Some (JRPC_OK, sc, ?w1\<lparr>wr_app := a, to_client := to_client w @ msg1 @ message_end\<rparr>)"
    using wire_send(2) [OF con, of J j msg1 methods "?w1\<lparr>wr_app := a\<rparr>"] t1 by (simp add: j)
  show ?thesis
    using S M mp em(1) meth(2)
    by (simp add: jrpc_process_def wire_receive(2) [OF con t w] U e JRPC_OK_def j
        connection_process_request_def connection_get_mapper_def)
qed

lemma client_gets_error:
  assumes J: "json_laws J" and con: "connected cc" and h: "jc_error_handler cc = Some eh"
    and m: "js_utf8 J message" "is_int32 code"
    and t: "wire_text J (the (make_error_obj J code message None rid)) msg"
    and w: "to_client w = msg @ message_end @ rest"
  shows "jrpc_process (client_env J cbs on_error) (cc, w)
    = Some (JRPC_OK, cc, w\<lparr>to_client := drop 4096 (to_client w),
        wr_app := on_error rid code message (wr_app w)\<rparr>)"
proof -
  obtain j where j: "make_error_obj J code message None rid = Some j"
    using two_zero_utf8 [OF J] m(1)
    by (simp add: make_error_obj_def js_pack_eq [OF J] pack_object_def pack_value_def json_rules J)
  with t have t': "wire_text J j msg" by simp
  have U: "json_rpc_unpack J (Some j) = Inr (ERROR_RESPONSE rid code message None)"
    using error_understood [OF J m, of rid] by (simp add: j)
  have "je_json (client_env J cbs on_error) = J"
    by (simp add: client_env_def)
  then show ?thesis
    using U h wire_receive(1) [OF con t' w, of cbs on_error]
    by (simp add: jrpc_process_def JRPC_OK_def connection_process_error_def
        jrpc_connection_get_error_handler_def client_env_def)
qed

lemma method_code_int32: "is_int32 (JRPC_ERR_METHOD_TO_CODE e)"
proof -
  have "0 \<le> e mod 256" "e mod 256 < 256" by simp_all
  then show ?thesis
    by (simp add: is_int32_def JRPC_ERR_METHOD_TO_CODE_def JRPC_ERR_METHOD_ERROR_def)
qed

lemma small_id_room: "unat (n :: u64) < 2 ^ 32 \<Longrightarrow> n + 1 \<noteq> 0"
proof
  assume "unat n < 2 ^ 32" "n + 1 = 0"
  then have "n = -1"
    by (simp add: eq_neg_iff_add_eq_0)
  with \<open>unat n < 2 ^ 32\<close> show False
    by (simp add: unsigned_minus_1_eq_mask mask_eq_exp_minus_1)
qed

section \<open>No input is fatal\<close>

text \<open>
  What the dispatcher relies on: the callbacks of the connection are set, its tables are sound, and
  the functions behind the pointers do not go wrong and keep it so.
\<close>

definition sound_connection :: "jrpc_connection \<Rightarrow> bool" where
  "sound_connection conn \<longleftrightarrow> connected conn
    \<and> tinv (jc_response_table conn) \<and> ht_type (jc_response_table conn) \<noteq> HASH_KEY_STR
    \<and> (\<exists>mp. jc_mapper conn = Some mp \<and> tinv (mp_method_table mp) \<and> ht_type (mp_method_table mp) = HASH_KEY_STR
        \<and> pointer_table (mp_error_message_table mp))"

definition sound_env :: "('j, 'w) jrpc_env \<Rightarrow> bool" where
  "sound_env env \<longleftrightarrow> js_dump (je_json env) None = None
    \<and> (\<forall>j pieces. js_dump (je_json env) j = Some pieces \<longrightarrow> length (concat pieces) < 2 ^ 62)
    \<and> (\<forall>f params conn w. sound_connection conn \<longrightarrow>
        (\<exists>r conn1 w1. je_method env f params (conn, w) = Some (r, conn1, w1) \<and> sound_connection conn1))
    \<and> (\<forall>f result data conn w. sound_connection conn \<longrightarrow>
        (\<exists>conn1 w1. je_callback env f result data (conn, w) = Some (conn1, w1) \<and> sound_connection conn1))
    \<and> (\<forall>f rid code message data conn w. sound_connection conn \<longrightarrow>
        (\<exists>conn1 w1. je_error_handler env f rid code message data (conn, w) = Some (conn1, w1) \<and> sound_connection conn1))"

definition keeps_going :: "(int \<times> jrpc_connection \<times> 'w) option \<Rightarrow> bool" where
  "keeps_going r \<longleftrightarrow> (\<exists>ret conn w. r = Some (ret, conn, w) \<and> sound_connection conn)"

lemma keeps_goingI: "sound_connection conn \<Longrightarrow> keeps_going (Some (ret, conn, w))"
  by (simp add: keeps_going_def)

lemma send_keeps_going:
  assumes E: "sound_env env" and C: "sound_connection conn"
  shows "keeps_going (connection_send env obj (conn, w))"
proof -
  obtain f where f: "jc_write_cb conn = Some f"
    using C by (auto simp: sound_connection_def connected_def)
  show ?thesis
  proof (cases "js_dump (je_json env) obj")
    case None
    with f C show ?thesis
      by (simp add: connection_send_def keeps_going_def)
  next
    case (Some pieces)
    then obtain j where j: "obj = Some j"
      using E by (cases obj) (auto simp: sound_env_def)
    with Some E have "dumps_to (je_json env) j (concat pieces)"
      by (auto simp: dumps_to_def sound_env_def)
    from connection_send_text [OF f this, of w] C show ?thesis
      by (auto simp: j keeps_going_def split: prod.split)
  qed
qed

lemma send_then:
  assumes "sound_env env" "sound_connection conn"
  shows "keeps_going (Option.bind (connection_send env obj (conn, w)) (\<lambda>(_, st). Some (ret, st)))"
  using send_keeps_going [OF assms, of obj w] by (auto simp: keeps_going_def)

lemma request_keeps_going:
  assumes E: "sound_env env" and C: "sound_connection conn"
  shows "keeps_going (connection_process_request env method rid params (conn, w))"
proof -
  obtain mp where mp: "jc_mapper conn = Some mp" "tinv (mp_method_table mp)"
      "ht_type (mp_method_table mp) = HASH_KEY_STR"
    using C by (auto simp: sound_connection_def)
  obtain found where found: "jrpc_mapper_find mp method = Some found"
    using search_total(1) [OF mp(2), of "HStr method"] mp(3) by (auto simp: jrpc_mapper_find_def)
  note base = connection_process_request_def connection_get_mapper_def
  show ?thesis
  proof (cases found)
    case None
    with mp(1) found send_then [OF assms] show ?thesis
      by (simp add: base Let_def)
  next
    case (Some f)
    obtain mth_ret result conn1 w1 where M: "je_method env f params (conn, w) = Some ((mth_ret, result), conn1, w1)"
        "sound_connection conn1"
      using E C unfolding sound_env_def by (metis surj_pair)
    obtain mp1 where mp1: "jc_mapper conn1 = Some mp1" "pointer_table (mp_error_message_table mp1)"
      using M(2) by (auto simp: sound_connection_def)
    have k: "key_fits (ht_type (mp_error_message_table mp1)) (HPtr k)" for k
      using mp1(2) by (cases "ht_type (mp_error_message_table mp1)") (auto simp: pointer_table_def)
    obtain em where em: "jrpc_mapper_get_error_message mp1 (word_of_int mth_ret) = Some em"
      using search_total(1) [OF _ k] mp1(2)
      by (auto simp: jrpc_mapper_get_error_message_def pointer_table_def hash_table_inv_def)
    show ?thesis
      using mp(1) found Some M mp1(1) em send_then [OF E M(2)]
      by (simp add: base Let_def keeps_goingI)
  qed
qed

lemma result_keeps_going:
  assumes E: "sound_env env" and C: "sound_connection conn"
  shows "keeps_going (connection_process_result env rid result (conn, w))"
proof -
  let ?ht = "jc_response_table conn"
  have t: "tinv ?ht"
    using C by (simp add: sound_connection_def)
  have k: "key_fits (ht_type ?ht) (HPtr rid)"
    using C by (cases "ht_type ?ht") (auto simp: sound_connection_def)
  obtain entry where s: "hash_table_search ?ht (HPtr rid) = Some entry"
    using search_total(1) [OF t k] by blast
  obtain x ht fr where rm: "hash_table_remove ?ht (HPtr rid) = Some (x, ht, fr)" "tinv ht" "ht_type ht = ht_type ?ht"
    using search_total(2) [OF t k] by blast
  have "sound_connection (conn\<lparr>jc_response_table := ht\<rparr>)"
    using C rm(2,3) by (auto simp: sound_connection_def connected_def)
  then obtain found conn1 where f: "connection_find_callback conn rid = Some (found, conn1)" "sound_connection conn1"
    using C s rm(1) by (cases entry) (auto simp: connection_find_callback_def)
  show ?thesis
  proof (cases found)
    case None
    with f show ?thesis by (simp add: connection_process_result_def keeps_goingI)
  next
    case (Some e)
    obtain cb data where e: "e = (cb, data)" by force
    obtain conn2 w2 where "je_callback env cb result data (conn1, w) = Some (conn2, w2)" "sound_connection conn2"
      using E f(2) unfolding sound_env_def by meson
    with f Some e show ?thesis by (simp add: connection_process_result_def keeps_goingI)
  qed
qed

lemma error_keeps_going:
  assumes E: "sound_env env" and C: "sound_connection conn"
  shows "keeps_going (connection_process_error env rid code message data (conn, w))"
proof (cases "jc_error_handler conn")
  case None
  with C show ?thesis
    by (simp add: connection_process_error_def jrpc_connection_get_error_handler_def keeps_goingI)
next
  case (Some h)
  obtain conn1 w1 where "je_error_handler env h rid code message data (conn, w) = Some (conn1, w1)" "sound_connection conn1"
    using E C unfolding sound_env_def by meson
  with Some show ?thesis
    by (simp add: connection_process_error_def jrpc_connection_get_error_handler_def keeps_goingI)
qed

lemma receive_total:
  assumes "sound_connection conn"
  shows "\<exists>ret obj w1. connection_receive env (conn, w) = Some ((ret, obj), conn, w1)"
proof -
  obtain f where f: "jc_read_cb conn = Some f"
    using assms by (auto simp: sound_connection_def connected_def)
  obtain bytes w1 where "je_read env f DEFAULT_INPUT_BUFFER_SIZE (jc_read_cb_data conn) w = (bytes, w1)"
    by force
  with f show ?thesis
    by (simp add: connection_receive_def split: option.split)
qed

lemma process_keeps_going:
  assumes "sound_env env" "sound_connection conn"
  shows "keeps_going (jrpc_process env (conn, w))"
proof -
  obtain ret obj w1 where r: "connection_receive env (conn, w) = Some ((ret, obj), conn, w1)"
    using receive_total [OF assms(2), of env w] by auto
  then show ?thesis
    using send_then [OF assms] keeps_goingI [OF assms(2)] request_keeps_going [OF assms]
      result_keeps_going [OF assms] error_keeps_going [OF assms]
    by (auto simp: jrpc_process_def split: sum.split rpc_obj.split)
qed

section \<open>Properties\<close>

text \<open>
  C28: a call is answered. A client calls a method with a callback; the server, once it processes its
  input, runs the method with the parameters of the call and sends the result under the identifier of
  the call; the client then runs its callback with the result and its own data, once, and no call is
  left pending that was not before. The bounds: messages of at most 4096 bytes with their end, and
  identifiers below \<open>2 ^ 32\<close>.
\<close>

theorem call_is_answered:
  assumes "json_laws J" "js_utf8 J method"
    and "connection_inv cc" "connected cc" "unat (jc_current_id cc) < 2 ^ 32"
    and "connected sc" "jc_mapper sc = Some mp" "jrpc_mapper_find mp method = Some (Some f)"
    and "methods f params a = ((0, Some result), a1)"
    and "wire_text J (jobj J (call_fields J method params (jc_current_id cc))) msg"
    and "wire_text J (the (make_result_obj J (Some result) (jc_current_id cc))) msg1"
  shows "\<exists>cc1 cc2.
      jrpc_call (client_env J cbs h) method params (Some (cb, data)) (cc, \<lparr>to_server = [], to_client = [], wr_app = a\<rparr>)
        = Some (JRPC_OK, cc1, \<lparr>to_server = msg @ message_end, to_client = [], wr_app = a\<rparr>)
    \<and> jrpc_process (server_env J methods) (sc, \<lparr>to_server = msg @ message_end, to_client = [], wr_app = a\<rparr>)
        = Some (JRPC_OK, sc, \<lparr>to_server = [], to_client = msg1 @ message_end, wr_app = a1\<rparr>)
    \<and> jrpc_process (client_env J cbs h) (cc1, \<lparr>to_server = [], to_client = msg1 @ message_end, wr_app = a1\<rparr>)
        = Some (JRPC_OK, cc2, \<lparr>to_server = [], to_client = [], wr_app = cbs cb result data a1\<rparr>)
    \<and> pending cc2 = pending cc"
proof -
  have id0: "jc_current_id cc \<noteq> 0"
    using assms(3) by (simp add: connection_inv_def)
  have room: "jc_current_id cc + 1 \<noteq> 0"
    using assms(5) by (rule small_id_room)
  let ?w0 = "\<lparr>to_server = [], to_client = [], wr_app = a\<rparr>"
  let ?w1 = "\<lparr>to_server = msg @ message_end, to_client = [], wr_app = a\<rparr>"
  let ?w2 = "\<lparr>to_server = [], to_client = msg1 @ message_end, wr_app = a1\<rparr>"
  obtain cc1 where c1: "jrpc_call (client_env J cbs h) method params (Some (cb, data)) (cc, ?w0)
      = Some (JRPC_OK, cc1, ?w1)" "connection_inv cc1" "connected cc1"
      "pending cc1 = (pending cc)(jc_current_id cc \<mapsto> \<lparr>rce_cb = cb, rce_user_data = data\<rparr>)"
      "pending cc (jc_current_id cc) = None"
    using client_calls [OF assms(1-4) room assms(10), of cbs h cb data ?w0] by auto
  have s: "jrpc_process (server_env J methods) (sc, ?w1) = Some (JRPC_OK, sc, ?w2)"
    using server_answers [OF assms(1,2,5) id0 assms(6-8,10), of ?w1 "[]" methods "Some result" a1 msg1]
      assms(9,11) wire_text_drop [OF assms(10)] by simp
  obtain cc2 where c2: "jrpc_process (client_env J cbs h) (cc1, ?w2)
      = Some (JRPC_OK, cc2, \<lparr>to_server = [], to_client = [], wr_app = cbs cb result data a1\<rparr>)"
      "pending cc2 = (pending cc1)(jc_current_id cc := None)"
    using client_gets_result [OF assms(1) c1(2,3) id0, of "\<lparr>rce_cb = cb, rce_user_data = data\<rparr>" result msg1 ?w2 "[]" cbs h]
      c1(4) assms(11) wire_text_drop [OF assms(11)] by auto
  have "pending cc2 = pending cc"
    unfolding c2(2) c1(4) using c1(5) by (simp add: fun_upd_idem)
  with c1(1) s c2(1) show ?thesis by blast
qed

text \<open>
  C38: a call that fails stays pending. When the method returns an error, the server answers with the
  code and the message registered for it, and the client hands them to its error handler; but the
  callback of the call is neither run nor removed, so the table of pending calls grows by one entry
  for each failed call.
\<close>

theorem failed_call_stays_pending:
  assumes "json_laws J" "js_utf8 J method"
    and "connection_inv cc" "connected cc" "unat (jc_current_id cc) < 2 ^ 32"
    and "jc_error_handler cc = Some eh"
    and "connected sc" "jc_mapper sc = Some mp" "jrpc_mapper_find mp method = Some (Some f)"
    and "jrpc_mapper_get_error_message mp (word_of_int err) = Some (Some message)" "js_utf8 J message"
    and "methods f params a = ((err, result), a1)" "err \<noteq> 0"
    and "wire_text J (jobj J (call_fields J method params (jc_current_id cc))) msg"
    and "wire_text J (the (make_error_obj J (JRPC_ERR_METHOD_TO_CODE err) message None (jc_current_id cc))) msg1"
  shows "\<exists>cc1.
      jrpc_call (client_env J cbs on_error) method params (Some (cb, data)) (cc, \<lparr>to_server = [], to_client = [], wr_app = a\<rparr>)
        = Some (JRPC_OK, cc1, \<lparr>to_server = msg @ message_end, to_client = [], wr_app = a\<rparr>)
    \<and> jrpc_process (server_env J methods) (sc, \<lparr>to_server = msg @ message_end, to_client = [], wr_app = a\<rparr>)
        = Some (JRPC_ERR_METHOD_TO_CODE err, sc, \<lparr>to_server = [], to_client = msg1 @ message_end, wr_app = a1\<rparr>)
    \<and> jrpc_process (client_env J cbs on_error) (cc1, \<lparr>to_server = [], to_client = msg1 @ message_end, wr_app = a1\<rparr>)
        = Some (JRPC_OK, cc1, \<lparr>to_server = [], to_client = [],
            wr_app = on_error (jc_current_id cc) (JRPC_ERR_METHOD_TO_CODE err) message a1\<rparr>)
    \<and> pending cc (jc_current_id cc) = None
    \<and> pending cc1 (jc_current_id cc) = Some \<lparr>rce_cb = cb, rce_user_data = data\<rparr>"
proof -
  have room: "jc_current_id cc + 1 \<noteq> 0"
    using assms(5) by (rule small_id_room)
  let ?w0 = "\<lparr>to_server = [], to_client = [], wr_app = a\<rparr>"
  let ?w1 = "\<lparr>to_server = msg @ message_end, to_client = [], wr_app = a\<rparr>"
  let ?w2 = "\<lparr>to_server = [], to_client = msg1 @ message_end, wr_app = a1\<rparr>"
  obtain cc1 where c1: "jrpc_call (client_env J cbs on_error) method params (Some (cb, data)) (cc, ?w0)
      = Some (JRPC_OK, cc1, ?w1)" "connected cc1"
      "pending cc1 = (pending cc)(jc_current_id cc \<mapsto> \<lparr>rce_cb = cb, rce_user_data = data\<rparr>)"
      "pending cc (jc_current_id cc) = None" "jc_error_handler cc1 = Some eh"
    using client_calls [OF assms(1-4) room assms(14), of cbs on_error cb data ?w0] assms(6) by auto
  have s: "jrpc_process (server_env J methods) (sc, ?w1) = Some (JRPC_ERR_METHOD_TO_CODE err, sc, ?w2)"
    using server_reports_error [OF assms(1,2,5,7-11,14), of ?w1 "[]" methods result a1 msg1]
      assms(12,13,15) wire_text_drop [OF assms(14)] by simp
  have "jrpc_process (client_env J cbs on_error) (cc1, ?w2) = Some (JRPC_OK, cc1,
      \<lparr>to_server = [], to_client = [], wr_app = on_error (jc_current_id cc) (JRPC_ERR_METHOD_TO_CODE err) message a1\<rparr>)"
    using client_gets_error [OF assms(1) c1(2,5) assms(11) method_code_int32 assms(15), of ?w2 "[]" cbs on_error]
      wire_text_drop [OF assms(15)] by simp
  with c1 s show ?thesis by auto
qed

text \<open>
  C39: a method that sets no result is never answered. It returns OK, the dispatcher builds a result
  object around NULL, which fails, and the failure to send it is ignored: nothing is written and the
  call of the client stays pending.
\<close>

theorem void_result_unanswered:
  assumes "json_laws J" "js_utf8 J method" "unat rid < 2 ^ 32" "rid \<noteq> 0"
    and "connected sc" "jc_mapper sc = Some mp" "jrpc_mapper_find mp method = Some (Some f)"
    and "wire_text J (jobj J (call_fields J method params rid)) msg"
    and "methods f params a = ((0, None), a1)"
  shows "jrpc_process (server_env J methods) (sc, \<lparr>to_server = msg @ message_end, to_client = [], wr_app = a\<rparr>)
    = Some (JRPC_OK, sc, \<lparr>to_server = [], to_client = [], wr_app = a1\<rparr>)"
  using server_answers [OF assms(1-8), of "\<lparr>to_server = msg @ message_end, to_client = [], wr_app = a\<rparr>" "[]" methods None a1]
    assms(9) wire_text_drop [OF assms(8)] by simp

text \<open>
  C40: messages that arrive together are lost but the first. A receive takes all the bytes that have
  arrived, decodes the first value among them and drops the rest, so of several messages that fit the
  input buffer only the first is ever processed.
\<close>

theorem later_messages_lost:
  assumes "connected sc" "wire_text J j msg" "length (msg @ message_end @ others) \<le> DEFAULT_INPUT_BUFFER_SIZE"
  shows "connection_receive (server_env J methods) (sc, \<lparr>to_server = msg @ message_end @ others, to_client = out, wr_app = a\<rparr>)
    = Some ((JRPC_OK, Some j), sc, \<lparr>to_server = [], to_client = out, wr_app = a\<rparr>)"
  using wire_receive(2) [OF assms(1,2), of "\<lparr>to_server = msg @ message_end @ others, to_client = out, wr_app = a\<rparr>" others methods]
    assms(3) by (simp add: DEFAULT_INPUT_BUFFER_SIZE_def)

text \<open>
  C32: the table of pending calls is a finite map. Registering a callback gives an identifier that no
  pending call has and adds it; taking the callback of an identifier gives the one registered and
  removes it, so that a second result with the same identifier finds none; other calls are untouched.
\<close>

theorem pending_calls_map:
  assumes "connection_inv conn" "jc_current_id conn + 1 \<noteq> 0" "rid \<noteq> 0"
  shows "(\<exists>conn1. connection_register_callback conn cb data = Some (jc_current_id conn, conn1)
      \<and> connection_inv conn1 \<and> pending conn (jc_current_id conn) = None
      \<and> pending conn1 = (pending conn)(jc_current_id conn \<mapsto> \<lparr>rce_cb = cb, rce_user_data = data\<rparr>))
    \<and> (\<exists>conn2. connection_find_callback conn rid
        = Some (map_option (\<lambda>e. (rce_cb e, rce_user_data e)) (pending conn rid), conn2)
      \<and> connection_inv conn2 \<and> pending conn2 = (pending conn)(rid := None))"
  using register_adds [OF assms(1,2), of cb data] find_removes [OF assms(1,3)] by blast


section \<open>Instances\<close>

text \<open>A library whose values print as single letters: a call, a result and everything else.\<close>

definition sample_call :: json where
  "sample_call = JObject [(''id'', JInteger 1), (''method'', JString ''m''), (''jsonrpc'', JString ''2.0'')]"

definition sample_result :: json where
  "sample_result = JObject [(''id'', JInteger 1), (''result'', JInteger 5), (''jsonrpc'', JString ''2.0'')]"

definition sample_error :: json where
  "sample_error = JObject [(''id'', JInteger 1),
    (''error'', JObject [(''message'', JString ''e''), (''code'', JInteger (-29997))]),
    (''jsonrpc'', JString ''2.0'')]"

definition letter_dump :: "json option \<Rightarrow> string list option" where
  "letter_dump = map_option (\<lambda>j. [if j = sample_call then ''c'' else if j = sample_result then ''r'' else ''e''])"

definition letter_load :: "string \<Rightarrow> json option" where
  "letter_load s = (case s of [] \<Rightarrow> None
     | c # _ \<Rightarrow> if c = CHR ''c'' then Some sample_call else if c = CHR ''r'' then Some sample_result else Some sample_error)"

definition letter_json :: "json jansson" where
  "letter_json = json_tree\<lparr>js_dump := letter_dump, js_loadb := letter_load\<rparr>"

lemma pack_object_update:
  "pack_object (J\<lparr>js_dump := d, js_loadb := l\<rparr>) fmt = pack_object J fmt"
  by (simp add: pack_object_def pack_value_def cong: pack_arg.case_cong)

lemma unpack_fields_update:
  "unpack_fields (J\<lparr>js_dump := d, js_loadb := l\<rparr>) obj fmt = unpack_fields J obj fmt"
proof (induction fmt)
  case (Cons f fmt)
  obtain k kind opt where f: "f = (k, kind, opt)" by (cases f)
  have "unpack_value (J\<lparr>js_dump := d, js_loadb := l\<rparr>) = unpack_value J"
    by (simp add: unpack_value_def fun_eq_iff split: unpack_kind.split)
  with Cons.IH show ?case
    by (simp add: f split: option.split)
qed simp

lemma letter_json_laws: "json_laws letter_json"
  using json_tree_laws
  unfolding json_laws_def letter_json_def pack_object_update unpack_fields_update
  by (simp add: object_laws_def array_laws_def scalar_laws_def letter_dump_def)

lemma sample_distinct: "sample_call \<noteq> sample_result" "sample_result \<noteq> sample_call" "sample_error \<noteq> sample_call"
  "sample_error \<noteq> sample_result"
  by (simp_all add: sample_call_def sample_result_def sample_error_def)

lemma letter_wire_text:
  "wire_text letter_json sample_call ''c''" "wire_text letter_json sample_result ''r''"
  "wire_text letter_json sample_error ''e''"
  by (simp_all add: wire_text_def dumps_to_def letter_json_def letter_dump_def letter_load_def
      sample_distinct DEFAULT_INPUT_BUFFER_SIZE_def)

lemma letter_objects:
  "jobj letter_json (call_fields letter_json ''m'' None 1) = sample_call"
  "the (make_result_obj letter_json (Some (JInteger 5)) 1) = sample_result"
  "the (make_error_obj letter_json (JRPC_ERR_METHOD_TO_CODE 3) ''e'' None 1) = sample_error"
proof -
  have i: "int_of_id 1 = 1"
    by (simp add: int_of_id_def)
  have p: "js_pack letter_json fmt = pack_object letter_json fmt" for fmt
    by (rule js_pack_eq [OF letter_json_laws])
  show "jobj letter_json (call_fields letter_json ''m'' None 1) = sample_call"
    by (simp add: jobj_def call_fields_def jstr_def letter_json_def sample_call_def i)
  show "the (make_result_obj letter_json (Some (JInteger 5)) 1) = sample_result"
    unfolding make_result_obj_def p
    by (simp add: pack_object_def pack_value_def i sample_result_def letter_json_def)
  show "the (make_error_obj letter_json (JRPC_ERR_METHOD_TO_CODE 3) ''e'' None 1) = sample_error"
    unfolding make_error_obj_def p
    by (simp add: pack_object_def pack_value_def i sample_error_def letter_json_def
        JRPC_ERR_METHOD_TO_CODE_def JRPC_ERR_METHOD_ERROR_def)
qed

text \<open>A server with the method \<open>m\<close> and the message \<open>e\<close> for error 3, and a connected client.\<close>

definition sample_mapper :: jrpc_mapper where
  "sample_mapper = snd (the (jrpc_mapper_add_error_message (snd (the (jrpc_mapper_add jrpc_mapper_new ''m'' 1))) 3 ''e''))"

definition sample_connection :: "jrpc_mapper option \<Rightarrow> jrpc_connection" where
  "sample_connection mapper = jrpc_connection_set_error_handler
    (jrpc_connection_set_write_cb (jrpc_connection_set_read_cb (jrpc_connection_new mapper 0) 1 0) 2 0) 3"

lemma sample_connection_simps:
  "connection_inv (sample_connection mp)" "connected (sample_connection mp)"
  "jc_current_id (sample_connection mp) = 1" "jc_mapper (sample_connection mp) = mp"
  "jc_error_handler (sample_connection mp) = Some 3"
  by (simp_all add: sample_connection_def jrpc_connection_set_error_handler_def jrpc_connection_set_write_cb_def
      jrpc_connection_set_read_cb_def connected_def connection_inv_def jrpc_connection_new_def
      pointer_table_new hash_table_new_map)

lemma sample_mapper_sound:
  "tinv (mp_method_table sample_mapper)" "ht_type (mp_method_table sample_mapper) = HASH_KEY_STR"
  "pointer_table (mp_error_message_table sample_mapper)"
  "jrpc_mapper_find sample_mapper ''m'' = Some (Some 1)"
  "jrpc_mapper_get_error_message sample_mapper 3 = Some (Some ''e'')"
proof -
  have i: "hash_table_inv (hash_table_new tp kf vf)" "\<not> hash_table_must_rehash (hash_table_new tp kf vf)" for tp kf vf
    by (simp_all add: hash_table_new_inv hash_table_must_rehash_def)
  obtain ht where ht: "hash_table_insert (hash_table_new HASH_KEY_STR True False) (HStr ''m'') (Some (1 :: nat)) = Some (1, ht, [])"
      "hash_table_inv ht" "ht_map ht (HStr ''m'') = Some (Some 1)"
    using insert_no_overflow [OF i, of HASH_KEY_STR True False "HStr ''m''" "Some (1 :: nat)"]
    by (auto simp: hash_table_new_map NULL_key_def)
  obtain et where et: "hash_table_insert (hash_table_new HASH_KEY_INT False False) (HPtr 3) (Some ''e'') = Some (1, et, [])"
      "hash_table_inv et" "ht_map et (HPtr 3) = Some (Some ''e'')"
    using insert_no_overflow [OF i, of HASH_KEY_INT False False "HPtr 3" "Some ''e''"]
    by (auto simp: hash_table_new_map NULL_key_def)
  have S: "sample_mapper = \<lparr>mp_method_table = ht, mp_error_message_table = et\<rparr>"
    using ht(1) et(1) by (simp add: sample_mapper_def jrpc_mapper_add_def jrpc_mapper_new_def jrpc_mapper_add_error_message_def)
  have T: "ht_type ht = HASH_KEY_STR" "ht_type et = HASH_KEY_INT"
    using insert_frame(1) [OF ht(1)] insert_frame(1) [OF et(1)] by simp_all
  show "tinv (mp_method_table sample_mapper)" "ht_type (mp_method_table sample_mapper) = HASH_KEY_STR"
    "pointer_table (mp_error_message_table sample_mapper)"
    unfolding S using ht et T by (simp_all add: hash_table_inv_def pointer_table_def)
  show "jrpc_mapper_find sample_mapper ''m'' = Some (Some 1)"
    unfolding S jrpc_mapper_find_def using ht T search_map [of ht "HStr ''m''"]
    by (simp add: hash_table_inv_def NULL_key_def)
  show "jrpc_mapper_get_error_message sample_mapper 3 = Some (Some ''e'')"
    unfolding S jrpc_mapper_get_error_message_def using et T search_map [of et "HPtr 3"]
    by (simp add: hash_table_inv_def NULL_key_def)
qed

theorem call_is_answered_witness:
  "\<exists>cc1 cc2.
      jrpc_call (client_env letter_json (\<lambda>f r d w. w @ [(f, r, d)]) (\<lambda>i c m w. w)) ''m'' None (Some (8, 9))
          (sample_connection None, \<lparr>to_server = [], to_client = [], wr_app = []\<rparr>)
        = Some (JRPC_OK, cc1, \<lparr>to_server = ''c'' @ message_end, to_client = [], wr_app = []\<rparr>)
    \<and> jrpc_process (server_env letter_json (\<lambda>f p (w :: (nat \<times> json \<times> nat) list). ((0, Some (JInteger 5)), w)))
          (sample_connection (Some sample_mapper), \<lparr>to_server = ''c'' @ message_end, to_client = [], wr_app = []\<rparr>)
        = Some (JRPC_OK, sample_connection (Some sample_mapper),
            \<lparr>to_server = [], to_client = ''r'' @ message_end, wr_app = []\<rparr>)
    \<and> jrpc_process (client_env letter_json (\<lambda>f r d w. w @ [(f, r, d)]) (\<lambda>i c m w. w))
          (cc1, \<lparr>to_server = [], to_client = ''r'' @ message_end, wr_app = []\<rparr>)
        = Some (JRPC_OK, cc2, \<lparr>to_server = [], to_client = [], wr_app = [(8, JInteger 5, 9)]\<rparr>)
    \<and> pending cc2 = pending (sample_connection None)"
  using call_is_answered [OF letter_json_laws, of "''m''" "sample_connection None" "sample_connection (Some sample_mapper)"
      sample_mapper 1 "\<lambda>f p w. ((0, Some (JInteger 5)), w)" None "[]" "JInteger 5" "[]" "''c''" "''r''"
      "\<lambda>f r d w. w @ [(f, r, d)]" "\<lambda>i c m w. w" 8 9]
  by (simp add: sample_connection_simps sample_mapper_sound letter_objects letter_wire_text ascii_utf8 letter_json_laws ascii_def)

theorem failed_call_stays_pending_witness:
  "\<exists>cc1. pending (sample_connection None) 1 = None \<and> pending cc1 1 = Some \<lparr>rce_cb = 8, rce_user_data = 9\<rparr>
    \<and> jrpc_process (client_env letter_json (\<lambda>f r d w. w) (\<lambda>i c m w. w @ [(i, c, m)]))
          (cc1, \<lparr>to_server = [], to_client = ''e'' @ message_end, wr_app = []\<rparr>)
        = Some (JRPC_OK, cc1, \<lparr>to_server = [], to_client = [], wr_app = [(1, JRPC_ERR_METHOD_TO_CODE 3, ''e'')]\<rparr>)"
  using failed_call_stays_pending [OF letter_json_laws, of "''m''" "sample_connection None" 3
      "sample_connection (Some sample_mapper)" sample_mapper 1 3 "''e''" "\<lambda>f p w. ((3, None), w)" None "[]" None "[]"
      "''c''" "''e''" "\<lambda>f r d w. w" "\<lambda>i c m w. w @ [(i, c, m)]" 8 9]
  by (auto simp: sample_connection_simps sample_mapper_sound letter_objects letter_wire_text ascii_utf8 letter_json_laws ascii_def)

theorem void_result_unanswered_witness:
  "jrpc_process (server_env letter_json (\<lambda>f p w. ((0, None), w + 1)))
      (sample_connection (Some sample_mapper), \<lparr>to_server = ''c'' @ message_end, to_client = [], wr_app = (0 :: nat)\<rparr>)
    = Some (JRPC_OK, sample_connection (Some sample_mapper), \<lparr>to_server = [], to_client = [], wr_app = 1\<rparr>)"
  using void_result_unanswered [OF letter_json_laws, of "''m''" 1 "sample_connection (Some sample_mapper)" sample_mapper
      1 None "''c''" "\<lambda>f p w. ((0, None), w + 1)" "0 :: nat" 1]
  by (simp add: sample_connection_simps sample_mapper_sound letter_objects letter_wire_text ascii_utf8 letter_json_laws ascii_def)

theorem later_messages_lost_witness:
  "connection_receive (server_env letter_json (\<lambda>f p w. ((0, None), w)))
      (sample_connection None, \<lparr>to_server = ''c'' @ message_end @ ''c'' @ message_end, to_client = [], wr_app = ()\<rparr>)
    = Some ((JRPC_OK, Some sample_call), sample_connection None, \<lparr>to_server = [], to_client = [], wr_app = ()\<rparr>)"
  using later_messages_lost [OF sample_connection_simps(2) [of None] letter_wire_text(1), of "''c'' @ message_end"
      "\<lambda>f p w. ((0, None), w)" "[]" "()"]
  by (simp add: message_end_def DEFAULT_INPUT_BUFFER_SIZE_def)

theorem pending_calls_map_witness:
  "(\<exists>conn1. connection_register_callback (sample_connection None) 8 9 = Some (1, conn1)
      \<and> connection_inv conn1 \<and> pending (sample_connection None) 1 = None
      \<and> pending conn1 = (pending (sample_connection None))(1 \<mapsto> \<lparr>rce_cb = 8, rce_user_data = 9\<rparr>))
    \<and> (\<exists>conn2. connection_find_callback (sample_connection None) 4
        = Some (map_option (\<lambda>e. (rce_cb e, rce_user_data e)) (pending (sample_connection None) 4), conn2)
      \<and> connection_inv conn2 \<and> pending conn2 = (pending (sample_connection None))(4 := None))"
  using pending_calls_map [OF sample_connection_simps(1) [of None], of 4 8 9]
  by (simp add: sample_connection_simps)


end
