(* ===== verification/Rpcbe.thy ===== *)
theory Rpcbe
  imports JrpcExchange OnDemand
begin

text \<open>
  The remote calls of the daemon, \<open>librpc/rpcbe.c\<close>: the methods \<open>scan\<close>, \<open>status\<close> and
  \<open>listen\<close>, and the listeners through which events reach the clients. Connections, scans and the
  data of the listeners are objects in a heap, so that a listener that outlives its scan or its
  connection reads freed memory, as in the code.
\<close>

section \<open>State\<close>

record scan_event_data =
  sed_conn :: nat
  sed_on_demand :: "nat option"

text \<open>
  The objects by address, \<open>None\<close> when not allocated or freed, the scan threads that were started,
  and the rest of the world. \<open>rb_next\<close> is the address that the next allocation returns. The scan
  that a thread works on keeps its identifier, so the listeners may read it here.
\<close>

record 'w rpcbe =
  rb_conns :: "nat \<Rightarrow> jrpc_connection option"
  rb_scan_data :: "nat \<Rightarrow> scan_event_data option"
  rb_on_demand :: "nat \<Rightarrow> (a6o_on_demand \<times> a6o_scan_conf) option"
  rb_threads :: "nat option list"
  rb_confs :: scan_confs
  rb_next :: nat
  rb_world :: 'w

text \<open>What the methods use of the daemon: the version, the modules and \<open>realpath\<close>.\<close>

record ('j, 'w) rpcbe_env =
  re_jrpc :: "('j, 'w) jrpc_env"
  re_version :: string
  re_mm :: "'w module_manager"
  re_realpath :: "string \<Rightarrow> string option"

section \<open>Listeners\<close>

text \<open>The function pointers of the two listeners.\<close>

definition SCAN_EVENT_CB :: nat where "SCAN_EVENT_CB = 1"
definition LISTEN_EVENT_CB :: nat where "LISTEN_EVENT_CB = 2"

text \<open>Marshalling an event and notifying a connection of it; the result of the notification is ignored.\<close>

definition notify_event ::
  "('j, 'w) rpcbe_env \<Rightarrow> nat \<Rightarrow> a6o_event \<Rightarrow> 'w rpcbe \<Rightarrow> 'w rpcbe option" where
  "notify_event env conn_ptr ev rb =
    (case jrpc_marshall_struct_a6o_event (je_json (re_jrpc env)) ev of
       None \<Rightarrow> None
     | Some (Inl ret) \<Rightarrow> Some rb
     | Some (Inr j_ev) \<Rightarrow> do {
         conn \<leftarrow> rb_conns rb conn_ptr;
         (ret, conn1, w1) \<leftarrow> jrpc_notify (re_jrpc env) ''notify_event'' j_ev (conn, rb_world rb);
         Some (rb\<lparr>rb_conns := (rb_conns rb)(conn_ptr \<mapsto> conn1), rb_world := w1\<rparr>)
       })"

text \<open>The events of other scans are left out.\<close>

definition other_scan :: "a6o_event_union \<Rightarrow> int \<Rightarrow> bool" where
  "other_scan u expected_scan_id = (case u of
       Ev_detection e \<Rightarrow> det_scan_id e \<noteq> expected_scan_id
     | Ev_on_demand_completed e \<Rightarrow> cmpl_scan_id e \<noteq> expected_scan_id
     | Ev_on_demand_progress e \<Rightarrow> prg_scan_id e \<noteq> expected_scan_id
     | _ \<Rightarrow> False)"

definition scan_event_cb ::
  "('j, 'w) rpcbe_env \<Rightarrow> a6o_event \<Rightarrow> nat \<Rightarrow> 'w rpcbe \<Rightarrow> 'w rpcbe option" where
  "scan_event_cb env ev data rb = do {
     ev_data \<leftarrow> rb_scan_data rb data;
     p \<leftarrow> sed_on_demand ev_data;
     (od, c) \<leftarrow> rb_on_demand rb p;
     (if other_scan (ev_u ev) (a6o_on_demand_get_id od) then Some rb
      else notify_event env (sed_conn ev_data) ev rb)
   }"

definition listen_event_cb ::
  "('j, 'w) rpcbe_env \<Rightarrow> a6o_event \<Rightarrow> nat \<Rightarrow> 'w rpcbe \<Rightarrow> 'w rpcbe option" where
  "listen_event_cb env ev data rb = notify_event env data ev rb"

text \<open>The call of a listener through its pointer; the other listeners of the daemon are an argument.\<close>

definition rpcbe_call ::
  "('j, 'w) rpcbe_env \<Rightarrow> 'w rpcbe event_call \<Rightarrow> 'w rpcbe event_call" where
  "rpcbe_call env others cb ev data st = (case st of (src, rb) \<Rightarrow>
     if cb = SCAN_EVENT_CB then map_option (Pair src) (scan_event_cb env ev data rb)
     else if cb = LISTEN_EVENT_CB then map_option (Pair src) (listen_event_cb env ev data rb)
     else others cb ev data st)"

section \<open>Methods\<close>

type_synonym ('j, 'w) method_result = "((int \<times> 'j option) \<times> a6o_event_source \<times> 'w rpcbe) option"

text \<open>
  \<open>params\<close> may be a JSON null, which gives a NULL pointer and no error; both methods then
  dereference it. The new scan may be NULL; it is stored all the same.
\<close>

definition scan_flags :: "a6o_rpc_scan_param \<Rightarrow> u32" where
  "scan_flags p = (if sp_threaded p \<noteq> 0 then A6O_SCAN_THREADED else 0)
    OR (if sp_recursive p \<noteq> 0 then A6O_SCAN_RECURSE else 0)"

definition scan_mask :: "a6o_rpc_scan_param \<Rightarrow> u32" where
  "scan_mask p = EVENT_DETECTION OR EVENT_ON_DEMAND_COMPLETED
    OR (if sp_send_progress p \<noteq> 0 then EVENT_ON_DEMAND_PROGRESS else 0)"

definition scan_method ::
  "('j, 'w) rpcbe_env \<Rightarrow> nat \<Rightarrow> 'j option \<Rightarrow> a6o_event_source \<times> 'w rpcbe \<Rightarrow> ('j, 'w) method_result" where
  "scan_method env conn_ptr params st = (case st of (src, rb) \<Rightarrow>
    (case jrpc_unmarshall_struct_ptr (je_json (re_jrpc env)) params
            (jrpc_unmarshall_struct_a6o_rpc_scan_param (je_json (re_jrpc env))) of
       None \<Rightarrow> None
     | Some (Inl ret) \<Rightarrow> Some ((ret, None), src, rb)
     | Some (Inr None) \<Rightarrow> None
     | Some (Inr (Some s_param)) \<Rightarrow> do {
         root_path \<leftarrow> sp_root_path s_param;
         let (on_demand, confs) = a6o_on_demand_new (re_realpath env) (rb_confs rb) root_path
               (sp_scan_id s_param) (scan_flags s_param) (sp_send_progress s_param \<noteq> 0);
         let a = rb_next rb;
         let p = (if on_demand = None then None else Some a);
         let rb1 = rb\<lparr>rb_confs := confs,
               rb_on_demand := (rb_on_demand rb)(a := on_demand),
               rb_scan_data := (rb_scan_data rb)(a + 1 \<mapsto> \<lparr>sed_conn = conn_ptr, sed_on_demand = p\<rparr>),
               rb_threads := rb_threads rb @ [p],
               rb_next := a + 3\<rparr>;
         Some ((JRPC_OK, None),
           a6o_event_source_add_cb (a + 2) src (scan_mask s_param) SCAN_EVENT_CB (a + 1), rb1)
       }))"

definition status_method ::
  "('j, 'w) rpcbe_env \<Rightarrow> nat \<Rightarrow> 'j option \<Rightarrow> a6o_event_source \<times> 'w rpcbe \<Rightarrow> ('j, 'w) method_result" where
  "status_method env conn_ptr params st = (case st of (src, rb) \<Rightarrow>
    (case a6o_info_new (re_version env) (re_mm env) (rb_world rb) of
       (info, w1) \<Rightarrow>
         (case jrpc_marshall_struct_a6o_info (je_json (re_jrpc env)) info of
            None \<Rightarrow> None
          | Some (Inl ret) \<Rightarrow> Some ((ret, None), src, rb\<lparr>rb_world := w1\<rparr>)
          | Some (Inr result) \<Rightarrow> Some ((JRPC_OK, result), src, rb\<lparr>rb_world := w1\<rparr>))))"

definition listen_mask :: "a6o_rpc_listen_param \<Rightarrow> u32" where
  "listen_mask p =
    (if lp_detection p \<noteq> 0 then EVENT_DETECTION else 0)
    OR (if lp_on_demand p \<noteq> 0 then EVENT_ON_DEMAND_START OR EVENT_ON_DEMAND_COMPLETED else 0)
    OR (if lp_on_demand_progress p \<noteq> 0 then EVENT_ON_DEMAND_PROGRESS else 0)
    OR (if lp_quarantine p \<noteq> 0 then EVENT_QUARANTINE else 0)
    OR (if lp_real_time_prot p \<noteq> 0 then EVENT_REAL_TIME_PROT else 0)
    OR (if lp_av_update p \<noteq> 0 then EVENT_AV_UPDATE else 0)"

definition listen_method ::
  "('j, 'w) rpcbe_env \<Rightarrow> nat \<Rightarrow> 'j option \<Rightarrow> a6o_event_source \<times> 'w rpcbe \<Rightarrow> ('j, 'w) method_result" where
  "listen_method env conn_ptr params st = (case st of (src, rb) \<Rightarrow>
    (case jrpc_unmarshall_struct_ptr (je_json (re_jrpc env)) params
            (jrpc_unmarshall_struct_a6o_rpc_listen_param (je_json (re_jrpc env))) of
       None \<Rightarrow> None
     | Some (Inl ret) \<Rightarrow> Some ((ret, None), src, rb)
     | Some (Inr None) \<Rightarrow> None
     | Some (Inr (Some l_param)) \<Rightarrow>
         Some ((JRPC_OK, None),
           a6o_event_source_add_cb (rb_next rb) src (listen_mask l_param) LISTEN_EVENT_CB conn_ptr,
           rb\<lparr>rb_next := rb_next rb + 1\<rparr>)))"

text \<open>The mapper of the daemon, with the pointers 1, 2 and 3 for the three methods.\<close>

definition create_rpcbe_mapper :: "jrpc_mapper option" where
  "create_rpcbe_mapper = do {
     (_, m1) \<leftarrow> jrpc_mapper_add jrpc_mapper_new ''scan'' 1;
     (_, m2) \<leftarrow> jrpc_mapper_add m1 ''status'' 2;
     (_, m3) \<leftarrow> jrpc_mapper_add m2 ''listen'' 3;
     Some m3
   }"

definition rpcbe_method ::
  "('j, 'w) rpcbe_env \<Rightarrow> nat \<Rightarrow> nat \<Rightarrow> 'j option \<Rightarrow> a6o_event_source \<times> 'w rpcbe \<Rightarrow> ('j, 'w) method_result" where
  "rpcbe_method env f conn_ptr params st =
    (if f = 1 then scan_method env conn_ptr params st
     else if f = 2 then status_method env conn_ptr params st
     else if f = 3 then listen_method env conn_ptr params st
     else None)"

section \<open>The scan thread\<close>

text \<open>
  \<open>a6o_on_demand_run\<close> followed by \<open>a6o_on_demand_free\<close>. The configuration of the scan is shared
  with later scans.
\<close>

definition scan_thread_fun ::
  "'w rpcbe scan_env \<Rightarrow> bool \<Rightarrow> nat option \<Rightarrow> a6o_event_source \<times> 'w rpcbe
    \<Rightarrow> (a6o_event_source \<times> 'w rpcbe) option" where
  "scan_thread_fun env late on_demand st = (case st of (src, rb) \<Rightarrow> do {
     p \<leftarrow> on_demand;
     (od, c) \<leftarrow> rb_on_demand rb p;
     s \<leftarrow> a6o_on_demand_run env late \<lparr>ss_od = od, ss_conf = c, ss_source = src, ss_world = rb\<rparr>;
     let rb1 = ss_world s;
     Some (ss_source s, rb1\<lparr>rb_on_demand := (rb_on_demand rb1)(p := None),
                            rb_confs := (rb_confs rb1)\<lparr>on_demand_conf := Some (ss_conf s)\<rparr>\<rparr>)
   })"

section \<open>Delivery\<close>

text \<open>
  An environment in which the messages written are collected, by the file descriptor they are
  written to, and the text of the notification of an event.
\<close>

definition outbox_env :: "'j jansson \<Rightarrow> ('j, nat \<Rightarrow> string list) jrpc_env" where
  "outbox_env J =
    \<lparr>je_json = J, je_read = \<lambda>_ _ _ w. (None, w),
     je_write = \<lambda>_ msg fd w. (int (length msg), w(fd := w fd @ [msg])),
     je_method = \<lambda>_ _ st. Some ((0, None), st), je_callback = \<lambda>_ _ _ st. Some st,
     je_error_handler = \<lambda>_ _ _ _ _ st. Some st\<rparr>"

definition event_text :: "'j jansson \<Rightarrow> a6o_event \<Rightarrow> string \<Rightarrow> bool" where
  "event_text J ev t \<longleftrightarrow> (\<exists>j. jrpc_marshall_struct_a6o_event J ev = Some (Inr (Some j))
    \<and> dumps_to J (jobj J (call_fields J ''notify_event'' (Some j) 0)) t)"

text \<open>The connection a listener writes to, and whether it wants the event.\<close>

definition listener_conn :: "'w rpcbe \<Rightarrow> listener \<Rightarrow> nat option" where
  "listener_conn rb l = (case l of (m, cb, d) \<Rightarrow>
     if cb = LISTEN_EVENT_CB then Some d
     else if cb = SCAN_EVENT_CB then map_option sed_conn (rb_scan_data rb d)
     else None)"

definition listener_scan :: "'w rpcbe \<Rightarrow> nat \<Rightarrow> int option" where
  "listener_scan rb d = do {
     e \<leftarrow> rb_scan_data rb d;
     p \<leftarrow> sed_on_demand e;
     (od, c) \<leftarrow> rb_on_demand rb p;
     Some (od_scan_id od)
   }"

definition listener_ok :: "'w rpcbe \<Rightarrow> listener \<Rightarrow> bool" where
  "listener_ok rb l \<longleftrightarrow>
    (\<exists>c conn. listener_conn rb l = Some c \<and> rb_conns rb c = Some conn \<and> connected conn)
    \<and> (fst (snd l) = SCAN_EVENT_CB \<longrightarrow> listener_scan rb (snd (snd l)) \<noteq> None)"

definition listener_fd :: "'w rpcbe \<Rightarrow> listener \<Rightarrow> nat" where
  "listener_fd rb l = jc_write_cb_data (the (rb_conns rb (the (listener_conn rb l))))"

definition wants :: "'w rpcbe \<Rightarrow> a6o_event \<Rightarrow> listener \<Rightarrow> bool" where
  "wants rb ev l \<longleftrightarrow> (case l of (m, cb, d) \<Rightarrow> m AND ev_type (ev_u ev) \<noteq> 0
    \<and> (cb = SCAN_EVENT_CB \<longrightarrow> \<not> other_scan (ev_u ev) (the (listener_scan rb d))))"

definition rpcbe_ok :: "'j jansson \<Rightarrow> ('j, nat \<Rightarrow> string list) rpcbe_env \<Rightarrow> bool" where
  "rpcbe_ok J env \<longleftrightarrow> json_laws J \<and> re_jrpc env = outbox_env J"

definition post :: "nat \<Rightarrow> string \<Rightarrow> (nat \<Rightarrow> string list) rpcbe \<Rightarrow> (nat \<Rightarrow> string list) rpcbe" where
  "post fd msg rb = rb\<lparr>rb_world := (rb_world rb)(fd := rb_world rb fd @ [msg])\<rparr>"

lemma notify_event_posts:
  assumes env: "rpcbe_ok J env" and t: "event_text J ev t"
    and c: "rb_conns rb c = Some conn" "connected conn"
  shows "notify_event env c ev rb = Some (post (jc_write_cb_data conn) (t @ message_end) rb)"
proof -
  have J: "json_laws J" and e: "re_jrpc env = outbox_env J" and je: "je_json (outbox_env J) = J"
    using env by (simp_all add: rpcbe_ok_def outbox_env_def)
  obtain j where j: "jrpc_marshall_struct_a6o_event J ev = Some (Inr (Some j))"
      "dumps_to J (jobj J (call_fields J ''notify_event'' (Some j) 0)) t"
    using t by (auto simp: event_text_def)
  obtain f where f: "jc_write_cb conn = Some f"
    using c(2) by (auto simp: connected_def)
  have u: "js_utf8 J ''notify_event''"
    by (rule ascii_utf8 [OF J]) (simp add: ascii_def)
  have "connection_send (outbox_env J) (Some (jobj J (call_fields J ''notify_event'' (Some j) 0))) (conn, rb_world rb)
      = Some (JRPC_OK, conn, (rb_world rb)(jc_write_cb_data conn := rb_world rb (jc_write_cb_data conn) @ [t @ message_end]))"
    using connection_send_text [OF f, of "outbox_env J" _ t "rb_world rb"] j(2)
    by (simp add: outbox_env_def)
  then have "jrpc_notify (outbox_env J) ''notify_event'' (Some j) (conn, rb_world rb)
      = Some (JRPC_OK, conn, (rb_world rb)(jc_write_cb_data conn := rb_world rb (jc_write_cb_data conn) @ [t @ message_end]))"
    by (simp add: jrpc_notify_def jrpc_call_def je make_call_obj_fields [OF J u])
  moreover have "(rb_conns rb)(c \<mapsto> conn) = rb_conns rb"
    using c(1) by (simp add: fun_upd_idem)
  ultimately show ?thesis
    using c(1) j(1) by (simp add: notify_event_def e je post_def)
qed

text \<open>Posting changes nothing that the listeners read.\<close>

lemma post_frame [frame_simps]:
  "rb_conns (post fd msg rb) = rb_conns rb" "rb_scan_data (post fd msg rb) = rb_scan_data rb"
  "rb_on_demand (post fd msg rb) = rb_on_demand rb"
  "listener_conn (post fd msg rb) = listener_conn rb" "listener_scan (post fd msg rb) = listener_scan rb"
  "listener_ok (post fd msg rb) = listener_ok rb" "listener_fd (post fd msg rb) = listener_fd rb"
  "wants (post fd msg rb) = wants rb"
  by (simp_all add: post_def listener_conn_def [abs_def] listener_scan_def [abs_def] listener_ok_def [abs_def]
      listener_fd_def [abs_def] wants_def [abs_def] fun_eq_iff)

definition deliver ::
  "string \<Rightarrow> nat \<Rightarrow> a6o_event \<Rightarrow> nat \<Rightarrow> (nat \<Rightarrow> string list) rpcbe \<Rightarrow> (nat \<Rightarrow> string list) rpcbe" where
  "deliver msg cb ev d rb =
    (if cb = SCAN_EVENT_CB \<and> other_scan (ev_u ev) (the (listener_scan rb d)) then rb
     else post (listener_fd rb (0, cb, d)) msg rb)"

lemma listener_delivers:
  assumes env: "rpcbe_ok J env" and t: "event_text J ev t" and ok: "listener_ok rb (m, cb, d)"
  shows "rpcbe_call env others cb ev d (src, rb) = Some (src, deliver (t @ message_end) cb ev d rb)"
proof -
  obtain c conn where c: "listener_conn rb (m, cb, d) = Some c" "rb_conns rb c = Some conn" "connected conn"
    using ok by (auto simp: listener_ok_def)
  note P = notify_event_posts [OF env t c(2,3)]
  have fd: "listener_fd rb (0, cb, d) = jc_write_cb_data conn"
    using c(1,2) by (auto simp: listener_fd_def listener_conn_def)
  show ?thesis
  proof (cases "cb = SCAN_EVENT_CB")
    case True
    then obtain e p od sc where s: "rb_scan_data rb d = Some e" "sed_on_demand e = Some p"
        "rb_on_demand rb p = Some (od, sc)"
      using ok by (auto simp: listener_ok_def listener_scan_def split: bind_splits)
    have "sed_conn e = c"
      using c(1) s(1) True by (simp add: listener_conn_def SCAN_EVENT_CB_def LISTEN_EVENT_CB_def)
    with True s P fd show ?thesis
      by (simp add: rpcbe_call_def scan_event_cb_def deliver_def listener_scan_def a6o_on_demand_get_id_def)
  next
    case False
    then have "cb = LISTEN_EVENT_CB" "c = d"
      using c(1) by (auto simp: listener_conn_def split: if_splits)
    with False P fd show ?thesis
      by (simp add: rpcbe_call_def listen_event_cb_def deliver_def)
  qed
qed

definition outbox :: "'w rpcbe \<Rightarrow> a6o_event \<Rightarrow> listener list \<Rightarrow> nat \<Rightarrow> nat" where
  "outbox rb ev ls fd = length (filter (\<lambda>l. wants rb ev l \<and> listener_fd rb l = fd) ls)"

lemma listener_fd_mask: "listener_fd rb (m, cb, d) = listener_fd rb (0, cb, d)"
  by (simp add: listener_fd_def listener_conn_def)

lemma notify_deliver:
  "notify (deliver msg) ev ls rb = rb\<lparr>rb_world := \<lambda>fd. rb_world rb fd @ replicate (outbox rb ev ls fd) msg\<rparr>"
proof (induction ls arbitrary: rb)
  case Nil
  then show ?case by (simp add: outbox_def)
next
  case (Cons l ls)
  obtain m cb d where l: "l = (m, cb, d)" by (cases l)
  show ?case
  proof (cases "wants rb ev l")
    case True
    then have mask: "m AND ev_type (ev_u ev) \<noteq> 0"
        and d: "deliver msg cb ev d rb = post (listener_fd rb l) msg rb"
      by (auto simp: wants_def l deliver_def listener_fd_mask [of rb m])
    have eq: "outbox (post (listener_fd rb l) msg rb) ev ls = outbox rb ev ls"
      by (simp add: outbox_def fun_eq_iff frame_simps)
    have upd: "(post fd msg rb)\<lparr>rb_world := w\<rparr> = rb\<lparr>rb_world := w\<rparr>" for fd w
      by (simp add: post_def)
    have out: "(\<lambda>fd. rb_world (post (listener_fd rb l) msg rb) fd @ replicate (outbox rb ev ls fd) msg)
        = (\<lambda>fd. rb_world rb fd @ replicate (outbox rb ev (l # ls) fd) msg)"
      using True by (auto simp: fun_eq_iff post_def outbox_def)
    have "notify (deliver msg) ev (l # ls) rb = notify (deliver msg) ev ls (post (listener_fd rb l) msg rb)"
      using mask d by (simp add: l)
    then show ?thesis
      unfolding Cons.IH upd eq out .
  next
    case False
    then have "(if m AND ev_type (ev_u ev) \<noteq> 0 then deliver msg cb ev d rb else rb) = rb"
      by (auto simp: wants_def l deliver_def)
    with Cons.IH [of rb] False show ?thesis
      by (simp add: l outbox_def)
  qed
qed

definition same_objects :: "'w rpcbe \<Rightarrow> 'w rpcbe \<Rightarrow> bool" where
  "same_objects rb x \<longleftrightarrow> rb_conns x = rb_conns rb \<and> rb_scan_data x = rb_scan_data rb \<and> rb_on_demand x = rb_on_demand rb"

lemma same_objects_post: "same_objects rb x \<Longrightarrow> same_objects rb (post fd msg x)"
  by (simp add: same_objects_def frame_simps)

lemma same_objects_ok: "same_objects rb x \<Longrightarrow> listener_ok x l = listener_ok rb l"
  by (cases l) (simp add: same_objects_def listener_ok_def listener_conn_def listener_scan_def)

lemma fire_delivers:
  assumes env: "rpcbe_ok J env" and t: "event_text J ev t"
    and src: "listens src ls" "\<forall>l \<in> set ls. listener_ok rb l"
  shows "a6o_event_source_fire_event (rpcbe_call env others) src ev rb
    = Some (src, rb\<lparr>rb_world := \<lambda>fd. rb_world rb fd @ replicate (outbox rb ev ls fd) (t @ message_end)\<rparr>)"
proof -
  obtain as where as: "chain (src_heap src) (src_callbacks src) as ls"
    using src(1) by (auto simp: listens_def)
  have "fire_loop (rpcbe_call env others) ev (src_callbacks src) (src, rb)
      = Some (src, notify (deliver (t @ message_end)) ev ls rb)"
  proof (rule fire_loop_inv [OF as, where P = "same_objects rb"])
    show "same_objects rb rb"
      by (simp add: same_objects_def)
    fix m c d w
    assume l: "(m, c, d) \<in> set ls" and w: "same_objects rb w"
    have ok: "listener_ok w (m, c, d)"
      using same_objects_ok [OF w] src(2) l by simp
    have "same_objects rb (deliver (t @ message_end) c ev d w)"
      using w same_objects_post [OF w] by (simp add: deliver_def)
    with listener_delivers [OF env t ok]
    show "rpcbe_call env others c ev d (src, w) = Some (src, deliver (t @ message_end) c ev d w)
        \<and> same_objects rb (deliver (t @ message_end) c ev d w)"
      by blast
  qed
  then show ?thesis
    by (simp add: a6o_event_source_fire_event_def notify_deliver)
qed

section \<open>Listeners of scans that have ended\<close>

lemma notify_event_keeps:
  "notify_event env c ev rb = Some rb1 \<Longrightarrow> rb_scan_data rb1 = rb_scan_data rb \<and> rb_on_demand rb1 = rb_on_demand rb"
  by (auto simp: notify_event_def split: option.splits sum.splits bind_splits)

lemma rpcbe_call_keeps:
  assumes "cb = SCAN_EVENT_CB \<or> cb = LISTEN_EVENT_CB" "rpcbe_call env others cb ev d (src, rb) = Some st"
  shows "fst st = src \<and> rb_scan_data (snd st) = rb_scan_data rb \<and> rb_on_demand (snd st) = rb_on_demand rb"
  using assms notify_event_keeps
  by (fastforce simp: rpcbe_call_def scan_event_cb_def listen_event_cb_def split: if_splits bind_splits)

lemma freed_scan_call:
  assumes "rb_scan_data rb d = Some e" "sed_on_demand e = Some p" "rb_on_demand rb p = None"
  shows "rpcbe_call env others SCAN_EVENT_CB ev d (src, rb) = None"
  using assms by (simp add: rpcbe_call_def scan_event_cb_def)

lemma fire_freed_scan:
  assumes src: "listens src ls" "\<forall>(m, cb, d) \<in> set ls. cb = SCAN_EVENT_CB \<or> cb = LISTEN_EVENT_CB"
    and l: "(m, SCAN_EVENT_CB, d) \<in> set ls" "m AND ev_type (ev_u ev) \<noteq> 0"
    and freed: "rb_scan_data rb d = Some e" "sed_on_demand e = Some p" "rb_on_demand rb p = None"
  shows "a6o_event_source_fire_event (rpcbe_call env others) src ev rb = None"
proof -
  obtain as where as: "chain (src_heap src) (src_callbacks src) as ls"
    using src(1) by (auto simp: listens_def)
  show ?thesis
    unfolding a6o_event_source_fire_event_def
  proof (rule fire_loop_fault [OF as, where P = "\<lambda>x. rb_scan_data x = rb_scan_data rb \<and> rb_on_demand x = rb_on_demand rb"])
    show "(m, SCAN_EVENT_CB, d) \<in> set ls" "m AND ev_type (ev_u ev) \<noteq> 0"
      by (fact l)+
    show "rpcbe_call env others SCAN_EVENT_CB ev d (src, w) = None"
      if "rb_scan_data w = rb_scan_data rb \<and> rb_on_demand w = rb_on_demand rb" for w
      using that freed by (intro freed_scan_call [of w d e p]) simp_all
    fix m c d w st
    assume "(m, c, d) \<in> set ls" "rb_scan_data w = rb_scan_data rb \<and> rb_on_demand w = rb_on_demand rb"
      "rpcbe_call env others c ev d (src, w) = Some st"
    then show "fst st = src \<and> rb_scan_data (snd st) = rb_scan_data rb \<and> rb_on_demand (snd st) = rb_on_demand rb"
      using rpcbe_call_keeps [of c env others ev d src w st] src(2) by auto
  qed simp
qed

section \<open>The mapper\<close>

lemma mapper_adds:
  assumes "filled (mp_method_table mp)" "ht_type (mp_method_table mp) = HASH_KEY_STR"
    and "ht_size (mp_method_table mp) = HASH_DEFAULT_SIZE" "ht_key_count (mp_method_table mp) < 45"
    and "ht_map (mp_method_table mp) (HStr name) = None"
  shows "\<exists>mp'. jrpc_mapper_add mp name f = Some (0, mp') \<and> filled (mp_method_table mp')
    \<and> ht_type (mp_method_table mp') = HASH_KEY_STR \<and> ht_size (mp_method_table mp') = HASH_DEFAULT_SIZE
    \<and> ht_key_count (mp_method_table mp') = ht_key_count (mp_method_table mp) + 1
    \<and> ht_map (mp_method_table mp') = (ht_map (mp_method_table mp))(HStr name \<mapsto> Some f)"
proof -
  have "\<not> hash_table_must_rehash (mp_method_table mp)"
    using assms(3,4) by (simp add: hash_table_must_rehash_def HASH_DEFAULT_SIZE_def)
  then obtain ht where "hash_table_insert (mp_method_table mp) (HStr name) (Some f) = Some (1, ht, [])" "filled ht"
      "ht_map ht = (ht_map (mp_method_table mp))(HStr name \<mapsto> Some f)"
      "ht_key_count ht = ht_key_count (mp_method_table mp) + 1"
      "ht_type ht = HASH_KEY_STR" "ht_size ht = HASH_DEFAULT_SIZE"
    using filled_insert [OF assms(1), of "HStr name" "Some f"] assms(2,3,5) by (auto simp: NULL_key_def)
  then show ?thesis
    by (simp add: jrpc_mapper_add_def)
qed

lemma rpcbe_mapper:
  "\<exists>mp. create_rpcbe_mapper = Some mp \<and> tinv (mp_method_table mp) \<and> ht_type (mp_method_table mp) = HASH_KEY_STR
    \<and> pointer_table (mp_error_message_table mp) \<and> (\<forall>name. jrpc_mapper_find mp name =
     Some (if name = ''scan'' then Some 1 else if name = ''status'' then Some 2
           else if name = ''listen'' then Some 3 else None))"
proof -
  have new: "mp_method_table jrpc_mapper_new = hash_table_new HASH_KEY_STR True False"
      "ht_size (hash_table_new HASH_KEY_STR True False :: nat hash_table) = HASH_DEFAULT_SIZE"
    by (simp_all add: jrpc_mapper_new_def hash_table_new_def)
  obtain m1 where m1: "jrpc_mapper_add jrpc_mapper_new ''scan'' 1 = Some (0, m1)" "filled (mp_method_table m1)"
      "ht_type (mp_method_table m1) = HASH_KEY_STR" "ht_size (mp_method_table m1) = HASH_DEFAULT_SIZE"
      "ht_key_count (mp_method_table m1) = 1" "ht_map (mp_method_table m1) = [HStr ''scan'' \<mapsto> Some 1]"
    using mapper_adds [of jrpc_mapper_new "''scan''" 1] by (auto simp: new filled_new hash_table_new_map)
  obtain m2 where m2: "jrpc_mapper_add m1 ''status'' 2 = Some (0, m2)" "filled (mp_method_table m2)"
      "ht_type (mp_method_table m2) = HASH_KEY_STR" "ht_size (mp_method_table m2) = HASH_DEFAULT_SIZE"
      "ht_key_count (mp_method_table m2) = 2"
      "ht_map (mp_method_table m2) = [HStr ''scan'' \<mapsto> Some 1, HStr ''status'' \<mapsto> Some 2]"
    using mapper_adds [of m1 "''status''" 2] m1 by auto
  obtain m3 where m3: "jrpc_mapper_add m2 ''listen'' 3 = Some (0, m3)" "filled (mp_method_table m3)"
      "ht_type (mp_method_table m3) = HASH_KEY_STR"
      "ht_map (mp_method_table m3) = [HStr ''scan'' \<mapsto> Some 1, HStr ''status'' \<mapsto> Some 2, HStr ''listen'' \<mapsto> Some 3]"
    using mapper_adds [of m2 "''listen''" 3] m2 by auto
  have tinv: "tinv (mp_method_table m3)"
    using m3(2) by (simp add: filled_def hash_table_inv_def)
  have "mp_error_message_table m3 = mp_error_message_table jrpc_mapper_new"
    using m1(1) m2(1) m3(1) by (auto simp: jrpc_mapper_add_def split: bind_splits)
  then have err: "pointer_table (mp_error_message_table m3)"
    by (simp add: jrpc_mapper_new_def pointer_table_new)
  from tinv have "jrpc_mapper_find m3 name = Some (case ht_map (mp_method_table m3) (HStr name) of None \<Rightarrow> None | Some v \<Rightarrow> v)"
    for name
    using search_map [of "mp_method_table m3" "HStr name"] m3(3) by (simp add: jrpc_mapper_find_def NULL_key_def)
  then show ?thesis
    using m1(1) m2(1) m3(1,3,4) tinv err by (auto simp: create_rpcbe_mapper_def)
qed

section \<open>Properties\<close>



text \<open>
  a null request kills the daemon. The parameters of \<open>scan\<close> and \<open>listen\<close> may be the JSON
  null, which is read as a NULL pointer without an error, and the methods dereference it.
\<close>

theorem null_parameters_fault:
  assumes "json_laws (je_json (re_jrpc env))"
  shows "scan_method env c (Some (js_null (je_json (re_jrpc env)))) st = None
    \<and> listen_method env c (Some (js_null (je_json (re_jrpc env)))) st = None"
  by (simp add: scan_method_def listen_method_def jrpc_unmarshall_struct_ptr_def json_rules assms split: prod.split)

text \<open>
  C37: a scan that has ended takes the daemon with it. The listener of a scan is never removed, and it
  reads the scan, which its thread frees at the end: the next event of a type that the listener wants,
  a detection of the on-access monitor or of another scan for instance, reads freed memory.
\<close>

theorem ended_scan_faults:
  assumes "scan_thread_fun sce late (Some p) st = Some (src, rb)"
    and "listens src ls" "\<forall>(m, cb, d) \<in> set ls. cb = SCAN_EVENT_CB \<or> cb = LISTEN_EVENT_CB"
    and "(m, SCAN_EVENT_CB, d) \<in> set ls" "m AND ev_type (ev_u ev) \<noteq> 0"
    and "rb_scan_data rb d = Some \<lparr>sed_conn = c, sed_on_demand = Some p\<rparr>"
  shows "a6o_event_source_fire_event (rpcbe_call env others) src ev rb = None"
proof -
  have "rb_on_demand rb p = None"
    using assms(1) by (auto simp: scan_thread_fun_def Let_def split: prod.splits bind_splits)
  then show ?thesis
    by (intro fire_freed_scan [OF assms(2-6), where p = p]) simp_all
qed

text \<open>
  scanning a path that does not exist kills the daemon. The method answers that all is well, having
  stored a NULL scan, and the thread it starts dereferences it.
\<close>

theorem missing_path_faults:
  assumes "json_laws (je_json (re_jrpc env))" "re_realpath env root = None"
    and "scan_param_carried (je_json (re_jrpc env)) p" "sp_root_path p = Some root"
    and "jrpc_marshall_struct_a6o_rpc_scan_param (je_json (re_jrpc env)) p = Some (Inr (Some params))"
  shows "\<exists>src1 rb1. scan_method env c (Some params) (src, rb) = Some ((JRPC_OK, None), src1, rb1)
    \<and> rb_threads rb1 = rb_threads rb @ [None] \<and> scan_thread_fun sce late None (src1, rb1) = None"
proof -
  have u: "jrpc_unmarshall_struct_ptr (je_json (re_jrpc env)) (Some params)
      (jrpc_unmarshall_struct_a6o_rpc_scan_param (je_json (re_jrpc env))) = Some (Inr (Some p))"
    using reads_back_ptr [OF scan_param_reads_back [OF assms(1,3)]] assms(5) by auto
  obtain g where "a6o_on_demand_new (re_realpath env) (rb_confs rb) root (sp_scan_id p) (scan_flags p)
      (sp_send_progress p \<noteq> 0) = (None, g)"
    using assms(2) by (cases "a6o_scan_conf_on_demand (rb_confs rb)") (simp add: a6o_on_demand_new_def)
  then show ?thesis
    using assms(4) by (simp add: scan_method_def u scan_thread_fun_def Let_def)
qed


text \<open>
  C35: the methods of the daemon. Its mapper is built without a fault and knows exactly \<open>scan\<close>,
  \<open>status\<close> and \<open>listen\<close>.
\<close>

theorem rpcbe_mapper_methods:
  "\<exists>mp. create_rpcbe_mapper = Some mp \<and> (\<forall>name. jrpc_mapper_find mp name =
     Some (if name = ''scan'' then Some 1 else if name = ''status'' then Some 2
           else if name = ''listen'' then Some 3 else None))"
  using rpcbe_mapper by blast

section \<open>Instances\<close>

definition sample_env :: "(json, nat \<Rightarrow> string list) rpcbe_env" where
  "sample_env = \<lparr>re_jrpc = outbox_env json_tree, re_version = ''0.12'', re_mm = \<lparr>mm_modules = []\<rparr>,
     re_realpath = (\<lambda>p. None)\<rparr>"

definition sample_scan :: a6o_on_demand where
  "sample_scan = (case fst (a6o_on_demand_new Some \<lparr>on_demand_conf = None, on_access_conf = None\<rparr> ''/x'' 7 0 False) of
     Some (od, c) \<Rightarrow> od)"

text \<open>A connection at address 0 and a scan at address 5 whose listener has its data at address 6.\<close>

definition sample_rpcbe :: "(nat \<Rightarrow> string list) rpcbe" where
  "sample_rpcbe = \<lparr>rb_conns = [0 \<mapsto> sample_connection None],
     rb_scan_data = [6 \<mapsto> \<lparr>sed_conn = 0, sed_on_demand = Some 5\<rparr>],
     rb_on_demand = [5 \<mapsto> (sample_scan, a6o_scan_conf_new ''x'')], rb_threads = [],
     rb_confs = \<lparr>on_demand_conf = None, on_access_conf = None\<rparr>, rb_next = 8, rb_world = (\<lambda>fd. [])\<rparr>"

definition sample_source :: a6o_event_source where
  "sample_source = a6o_event_source_add_cb 7 a6o_event_source_new EVENT_DETECTION SCAN_EVENT_CB 6"

definition no_others :: "'w rpcbe event_call" where
  "no_others cb ev d st = Some st"

lemma sample_event_text: "event_text json_tree sample_event ''{}''"
proof -
  have "event_carried json_tree sample_event"
    by (simp add: sample_event_def event_carried_def utf8_cstr_def enum_defs is_int64_def is_uint32_def)
  then obtain j where "jrpc_marshall_struct_a6o_event json_tree sample_event = Some (Inr (Some j))"
    using event_reads_back [OF json_tree_laws] by (auto simp: reads_back_def)
  then show ?thesis
    by (auto simp: event_text_def dumps_to_def)
qed

lemma sample_rpcbe_simps:
  "rpcbe_ok json_tree sample_env" "listens sample_source [(EVENT_DETECTION, SCAN_EVENT_CB, 6)]"
  "connected (sample_connection mp)" "jc_write_cb_data (sample_connection mp) = 0"
  "listener_scan sample_rpcbe 6 = Some 7" "listener_conn sample_rpcbe (m, SCAN_EVENT_CB, 6) = Some 0"
  "rb_conns sample_rpcbe 0 = Some (sample_connection None)" "rb_world sample_rpcbe fd = []"
  "ev_u sample_event = Ev_detection \<lparr>det_context = CONTEXT_ON_DEMAND, det_scan_id = 7, det_path = Some ''/tmp/x'',
     det_scan_status = A6O_FILE_MALWARE, det_scan_action = A6O_ACTION_ALERT,
     det_module_name = Some ''clamav'', det_module_report = Some ''eicar''\<rparr>"
proof -
  show "listens sample_source [(EVENT_DETECTION, SCAN_EVENT_CB, 6)]"
    using listens_add [OF listens_new, of 7 EVENT_DETECTION SCAN_EVENT_CB 6]
    by (simp add: sample_source_def a6o_event_source_new_def)
  show "connected (sample_connection mp)"
    by (rule sample_connection_simps(2))
  show "jc_write_cb_data (sample_connection mp) = 0"
    by (simp add: sample_connection_def jrpc_connection_set_error_handler_def jrpc_connection_set_write_cb_def
        jrpc_connection_set_read_cb_def jrpc_connection_new_def)
  show "listener_scan sample_rpcbe 6 = Some 7"
    by (simp add: listener_scan_def sample_rpcbe_def sample_scan_def a6o_on_demand_new_def
        a6o_scan_conf_on_demand_def Let_def)
qed (simp_all add: rpcbe_ok_def sample_env_def json_tree_laws listener_conn_def sample_rpcbe_def SCAN_EVENT_CB_def
     LISTEN_EVENT_CB_def sample_event_def)


definition sample_listen :: a6o_rpc_listen_param where
  "sample_listen = \<lparr>lp_detection = 1, lp_on_demand = 0, lp_on_demand_progress = 0, lp_quarantine = 0,
     lp_real_time_prot = 0, lp_av_update = 0\<rparr>"


theorem null_parameters_fault_witness:
  "scan_method sample_env 0 (Some JNull) (a6o_event_source_new, sample_rpcbe) = None
    \<and> listen_method sample_env 0 (Some JNull) (a6o_event_source_new, sample_rpcbe) = None"
  using null_parameters_fault [of sample_env 0 "(a6o_event_source_new, sample_rpcbe)"]
  by (simp add: sample_env_def outbox_env_def json_tree_laws)

text \<open>The environment of a scan whose root is a pipe, which is neither scanned nor traversed.\<close>

definition sample_scan_env :: "(nat \<Rightarrow> string list) rpcbe scan_env" where
  "sample_scan_env = \<lparr>se_os = \<lparr>so_open = (\<lambda>p w. (3, w)), so_mime_type_guess_fd = (\<lambda>fd w. (Some ''text/plain'', w)),
       so_lseek = (\<lambda>fd w. (0, w)), so_close = (\<lambda>fd w. (0, w))\<rparr>,
     se_mm = \<lparr>mm_modules = []\<rparr>, se_call = rpcbe_call sample_env no_others,
     se_time = (\<lambda>w. 0), se_gettimeofday = (\<lambda>w. Some (1, 0)), se_realpath = Some,
     se_stat = (\<lambda>p. Inr (S_IFIFO, 0)), se_dir = (\<lambda>p. Unreadable 20)\<rparr>"

lemma sample_source_ignores:
  "ev_type (ev_u ev) AND EVENT_DETECTION = 0 \<Longrightarrow>
    a6o_event_source_fire_event call sample_source ev w = Some (sample_source, w)"
  using fire_loop_inv [where P = "\<lambda>_. True" and call = call and ev = ev and s = sample_source and w = w
      and p = "src_callbacks sample_source" and f = "\<lambda>_ _ _ w. w" and ls = "[(EVENT_DETECTION, SCAN_EVENT_CB, 6)]"]
    sample_rpcbe_simps(2)
  by (auto simp: a6o_event_source_fire_event_def listens_def and.commute)

lemma sample_scan_ends:
  "\<exists>rb. scan_thread_fun sample_scan_env False (Some 5) (sample_source, sample_rpcbe) = Some (sample_source, rb)
    \<and> rb_scan_data rb 6 = Some \<lparr>sed_conn = 0, sed_on_demand = Some 5\<rparr>"
proof -
  have od: "rb_on_demand sample_rpcbe 5 = Some (sample_scan, a6o_scan_conf_new ''x'')"
      "rb_scan_data sample_rpcbe 6 = Some \<lparr>sed_conn = 0, sed_on_demand = Some 5\<rparr>"
    by (simp_all add: sample_rpcbe_def)
  have fl: "od_flags sample_scan = 0" "od_count_thread sample_scan = False"
    by (simp_all add: sample_scan_def a6o_on_demand_new_def a6o_scan_conf_on_demand_def Let_def)
  have stat: "stat_flags sample_scan_env p = FILE_FLAG_IS_IPC" for p
    by (simp add: stat_flags_def os_file_stat_def sample_scan_env_def os_file_stat_of_def fill_stat_def)
  have fire: "fire sample_scan_env u s = Some s" if "ev_type u AND EVENT_DETECTION = 0" "ss_source s = sample_source"
      "a6o_event_new 0 u = Some \<lparr>ev_timestamp = 0, ev_u = u\<rparr>" for u s
    using that by (cases s) (simp add: fire_def sample_scan_env_def sample_source_ignores)
  have time: "get_milliseconds sample_scan_env w = Some 1000" for w
    by (simp add: get_milliseconds_def sample_scan_env_def)
  have other: "\<not> has_flag FILE_FLAG_IS_IPC FILE_FLAG_IS_PLAIN_FILE" "\<not> has_flag FILE_FLAG_IS_IPC FILE_FLAG_IS_DIRECTORY"
      "\<not> has_flag 0 A6O_SCAN_THREADED"
    by (simp_all add: has_flag_def file_flag_defs)
  show ?thesis
    by (simp add: scan_thread_fun_def od fl a6o_on_demand_run_def time fire scan_root_def stat other
        fire_on_demand_start_event_def fire_on_demand_completed_event_def ev_type_def event_type_defs
        a6o_event_new_def on_demand_start_event_clone_def on_demand_completed_event_clone_def)
qed

theorem ended_scan_faults_witness:
  "\<exists>rb. scan_thread_fun sample_scan_env False (Some 5) (sample_source, sample_rpcbe) = Some (sample_source, rb)
    \<and> a6o_event_source_fire_event (rpcbe_call sample_env no_others) sample_source sample_event rb = None"
proof -
  obtain rb where rb: "scan_thread_fun sample_scan_env False (Some 5) (sample_source, sample_rpcbe) = Some (sample_source, rb)"
      "rb_scan_data rb 6 = Some \<lparr>sed_conn = 0, sed_on_demand = Some 5\<rparr>"
    using sample_scan_ends by blast
  have "EVENT_DETECTION AND ev_type (ev_u sample_event) \<noteq> 0"
    by (simp add: sample_rpcbe_simps ev_type_def event_type_defs)
  with rb ended_scan_faults [OF rb(1) sample_rpcbe_simps(2), of EVENT_DETECTION 6 sample_event 0 sample_env no_others]
  show ?thesis
    by simp
qed

theorem missing_path_faults_witness:
  "\<exists>params src1 rb1. scan_method sample_env 0 (Some params) (a6o_event_source_new, sample_rpcbe)
      = Some ((JRPC_OK, None), src1, rb1)
    \<and> scan_thread_fun sample_scan_env False None (src1, rb1) = None"
proof -
  let ?p = "\<lparr>sp_root_path = Some ''/no'', sp_send_progress = 0, sp_recursive = 0, sp_threaded = 0, sp_scan_id = 1\<rparr>"
  have e: "je_json (re_jrpc sample_env) = json_tree" "re_realpath sample_env ''/no'' = None"
    by (simp_all add: sample_env_def outbox_env_def)
  have c: "scan_param_carried json_tree ?p"
    by (simp add: scan_param_carried_def utf8_cstr_def is_int32_def is_int64_def)
  obtain j where j: "jrpc_marshall_struct_a6o_rpc_scan_param json_tree ?p = Some (Inr (Some j))"
    using scan_param_reads_back [OF json_tree_laws c] by (auto simp: reads_back_def)
  from missing_path_faults [where env = sample_env and root = "''/no''" and p = ?p and params = j and c = 0
      and src = a6o_event_source_new and rb = sample_rpcbe and sce = sample_scan_env and late = False, unfolded e(1), OF json_tree_laws e(2) c _ j]
  show ?thesis by auto
qed


end
