(* ===== verification/Server.thy ===== *)
theory Server
  imports Rpcbe
begin

text \<open>
  The sockets of the daemon and of its clients (\<open>daemon/unixsockserver.c\<close>, \<open>net/unixsockclient.c\<close>,
  \<open>librpc/unixio.c\<close>), the threads that serve clients (\<open>daemon/server.c\<close>) and the loop around
  \<open>jrpc_process\<close> that these threads and the clients share.
\<close>

section \<open>Sockets\<close>

text \<open>
  The calls on sockets; an address is the bytes of \<open>sun_path\<close> and its length. \<open>recv\<close> gives \<open>None\<close>
  for an error.
\<close>

record 'w socket_os =
  sk_socket :: "'w \<Rightarrow> int \<times> 'w"
  sk_unlink :: "string \<Rightarrow> 'w \<Rightarrow> 'w"
  sk_bind :: "int \<Rightarrow> string \<times> nat \<Rightarrow> 'w \<Rightarrow> int \<times> 'w"
  sk_listen :: "int \<Rightarrow> nat \<Rightarrow> 'w \<Rightarrow> int \<times> 'w"
  sk_chmod :: "string \<Rightarrow> nat \<Rightarrow> 'w \<Rightarrow> int \<times> 'w"
  sk_connect :: "int \<Rightarrow> string \<times> nat \<Rightarrow> 'w \<Rightarrow> int \<times> 'w"
  sk_accept :: "int \<Rightarrow> 'w \<Rightarrow> int \<times> 'w"
  sk_send :: "int \<Rightarrow> string \<Rightarrow> 'w \<Rightarrow> int \<times> 'w"
  sk_recv :: "int \<Rightarrow> nat \<Rightarrow> 'w \<Rightarrow> string option \<times> 'w"
  sk_close :: "int \<Rightarrow> 'w \<Rightarrow> int \<times> 'w"

definition UNIX_PATH_MAX :: nat where "UNIX_PATH_MAX = 108"

text \<open>\<open>sun_path\<close> follows a field of two bytes. A name that starts with @ is abstract.\<close>

definition sun_path_offset :: nat where "sun_path_offset = 2"

definition is_abstract :: "string \<Rightarrow> bool" where
  "is_abstract socket_path \<longleftrightarrow> (case socket_path of c # _ \<Rightarrow> c = CHR ''@'' | [] \<Rightarrow> False)"

definition unix_sockaddr :: "string \<Rightarrow> string \<times> nat" where
  "unix_sockaddr socket_path =
    (let path_len = length socket_path;
         sun_path = socket_path @ replicate (UNIX_PATH_MAX - path_len) (CHR 0x00);
         sun_path1 = (if is_abstract socket_path then sun_path[0 := CHR 0x00] else sun_path)
     in (sun_path1, sun_path_offset + path_len))"

text \<open>\<open>None\<close> for the failing assertion on the length.\<close>

definition unix_server_listen :: "'w socket_os \<Rightarrow> string \<Rightarrow> 'w \<Rightarrow> (int \<times> 'w) option" where
  "unix_server_listen os socket_path w =
    (if \<not> length socket_path < UNIX_PATH_MAX then None
     else Some (case sk_socket os w of (fd, w1) \<Rightarrow>
       if fd < 0 then (-1, w1)
       else (let w2 = (if \<not> is_abstract socket_path then sk_unlink os socket_path w1 else w1)
             in case sk_bind os fd (unix_sockaddr socket_path) w2 of (r, w3) \<Rightarrow>
                if r < 0 then (-1, snd (sk_close os fd w3))
                else (case sk_listen os fd 5 w3 of (r, w4) \<Rightarrow>
                   if r < 0 then (-1, snd (sk_close os fd w4))
                   else (fd, if \<not> is_abstract socket_path then snd (sk_chmod os socket_path 511 w4) else w4)))))"

text \<open>The loop that connects: the result of the last attempt.\<close>

function connect_loop :: "'w socket_os \<Rightarrow> int \<Rightarrow> string \<times> nat \<Rightarrow> int \<Rightarrow> int \<Rightarrow> 'w \<Rightarrow> int \<times> 'w" where
  "connect_loop os fd addr max_retry retry_count w =
    (case sk_connect os fd addr w of (r, w1) \<Rightarrow>
       if r < 0 \<and> retry_count + 1 \<le> max_retry then connect_loop os fd addr max_retry (retry_count + 1) w1
       else (r, w1))"
  by pat_completeness auto
termination
  by (relation "measure (\<lambda>(os, fd, addr, max_retry, retry_count, w). nat (max_retry - retry_count))") auto

declare connect_loop.simps [simp del]

definition unix_client_connect :: "'w socket_os \<Rightarrow> string \<Rightarrow> int \<Rightarrow> 'w \<Rightarrow> (int \<times> 'w) option" where
  "unix_client_connect os socket_path max_retry w =
    (if \<not> length socket_path < UNIX_PATH_MAX then None
     else Some (case sk_socket os w of (fd, w1) \<Rightarrow>
       if fd < 0 then (-1, w1)
       else (let max_retry1 = (if max_retry \<le> 0 then 1 else max_retry)
             in case connect_loop os fd (unix_sockaddr socket_path) max_retry1 0 w1 of (r, w2) \<Rightarrow>
                if r < 0 then (r, snd (sk_close os fd w2)) else (fd, w2))))"

text \<open>The callbacks of connections; the descriptor is the user data.\<close>

definition unix_fd_write_cb :: "'w socket_os \<Rightarrow> string \<Rightarrow> nat \<Rightarrow> 'w \<Rightarrow> int \<times> 'w" where
  "unix_fd_write_cb os buffer data w = sk_send os (int data) buffer w"

definition unix_fd_read_cb :: "'w socket_os \<Rightarrow> nat \<Rightarrow> nat \<Rightarrow> 'w \<Rightarrow> string option \<times> 'w" where
  "unix_fd_read_cb os n data w = sk_recv os (int data) n w"

section \<open>The loop around the dispatcher\<close>

text \<open>
  Messages are processed until the end of the input, or until the condition holds after one of them;
  \<open>Some None\<close> is a fault, and the value of a loop that never ends is \<open>None\<close>.
\<close>

partial_function (option) process_until ::
  "('j, 'w) jrpc_env \<Rightarrow> ('w \<Rightarrow> bool) \<Rightarrow> jrpc_connection \<times> 'w \<Rightarrow> (jrpc_connection \<times> 'w) option option" where
  "process_until env stop st = (case jrpc_process env st of
       None \<Rightarrow> Some None
     | Some (ret, st1) \<Rightarrow>
         if ret = JRPC_EOF \<or> stop (snd st1) then Some (Some st1) else process_until env stop st1)"

section \<open>The server\<close>

record client_data =
  cd_client_sock :: nat
  cd_conn :: jrpc_connection

text \<open>The pool holds the clients whose threads were started; it has no limit.\<close>

record server =
  sv_listen_sock :: int
  sv_armadito :: nat
  sv_thread_pool :: "client_data list"

text \<open>The callbacks of the daemon's connections, by their pointers, and the data of a connection.\<close>

definition READ_CB :: nat where "READ_CB = 1"
definition WRITE_CB :: nat where "WRITE_CB = 2"

definition client_thread ::
  "('j, 'w) jrpc_env \<Rightarrow> 'w socket_os \<Rightarrow> client_data \<Rightarrow> 'w \<Rightarrow> (rpc_callback_entry freed list \<times> 'w) option option" where
  "client_thread env os cd w = (case process_until env (\<lambda>_. False) (cd_conn cd, w) of
       None \<Rightarrow> None
     | Some None \<Rightarrow> Some None
     | Some (Some (conn, w1)) \<Rightarrow>
         Some (Some (jrpc_connection_free conn, snd (sk_close os (int (cd_client_sock cd)) w1))))"

text \<open>The mapper is made by the first call.\<close>

definition a6o_get_rpcbe_mapper :: "jrpc_mapper option \<Rightarrow> jrpc_mapper option" where
  "a6o_get_rpcbe_mapper rpcbe_mapper = (case rpcbe_mapper of None \<Rightarrow> create_rpcbe_mapper | Some m \<Rightarrow> Some m)"

text \<open>A failing \<open>accept\<close> is logged with level error, which aborts.\<close>

definition server_listen_cb ::
  "'w socket_os \<Rightarrow> server \<times> jrpc_mapper option \<times> 'w \<Rightarrow> (bool \<times> server \<times> jrpc_mapper option \<times> 'w) option" where
  "server_listen_cb os st = (case st of (sv, rpcbe_mapper, w) \<Rightarrow>
    (case sk_accept os (sv_listen_sock sv) w of (client_sock, w1) \<Rightarrow>
       if client_sock < 0 then None
       else do {
         mapper \<leftarrow> a6o_get_rpcbe_mapper rpcbe_mapper;
         let fd = nat client_sock;
             conn = jrpc_connection_new (Some mapper) (sv_armadito sv);
             conn1 = jrpc_connection_set_read_cb conn READ_CB fd;
             conn2 = jrpc_connection_set_write_cb conn1 WRITE_CB fd;
             cd = \<lparr>cd_client_sock = fd, cd_conn = conn2\<rparr>
         in Some (True, sv\<lparr>sv_thread_pool := sv_thread_pool sv @ [cd]\<rparr>, Some mapper, w1)
       }))"

definition server_new :: "nat \<Rightarrow> int \<Rightarrow> server" where
  "server_new armadito server_sock =
    \<lparr>sv_listen_sock = server_sock, sv_armadito = armadito, sv_thread_pool = []\<rparr>"

section \<open>When the loop ends\<close>

text \<open>The text of a value has a length that fits the buffer; the value NULL has none.\<close>

definition dumps_short :: "'j jansson \<Rightarrow> bool" where
  "dumps_short J \<longleftrightarrow> js_dump J None = None \<and> (\<forall>j pieces. js_dump J j = Some pieces \<longrightarrow> length (concat pieces) < 2 ^ 62)"

text \<open>
  An environment whose input is finite: a read fails never, and takes something from what is left
  unless it reports the end; nothing else adds to what is left.
\<close>

locale finite_input =
  fixes env :: "('j, 'w) jrpc_env" and left :: "'w \<Rightarrow> nat"
  assumes sound: "dumps_short (je_json env) \<Longrightarrow> sound_env env"
    and reads: "je_read env cb DEFAULT_INPUT_BUFFER_SIZE d w = (r, w1) \<Longrightarrow> r \<noteq> None \<and> (if r = Some [] then left w1 = 0 else left w1 < left w)"
    and writes: "je_write env cb msg d w = (i, w1) \<Longrightarrow> left w1 \<le> left w"
    and methods: "je_method env f params (conn, w) = Some (res, conn1, w1) \<Longrightarrow> left w1 \<le> left w"
    and callbacks: "je_callback env f result d (conn, w) = Some (conn1, w1) \<Longrightarrow> left w1 \<le> left w"
    and handlers: "je_error_handler env f rid code message e (conn, w) = Some (conn1, w1) \<Longrightarrow> left w1 \<le> left w"
begin

definition calm :: "'w \<Rightarrow> (int \<times> jrpc_connection \<times> 'w) option \<Rightarrow> bool" where
  "calm w r \<longleftrightarrow> (\<forall>ret conn1 w1. r = Some (ret, conn1, w1) \<longrightarrow> left w1 \<le> left w)"

lemma send_calm: "calm w (connection_send env obj (conn, w))"
  using writes by (auto simp: calm_def connection_send_def split: bind_splits option.splits prod.splits)

lemma send_left: "connection_send env obj (conn, w) = Some (ret, conn1, w1) \<Longrightarrow> left w1 \<le> left w"
  using send_calm by (auto simp: calm_def)

lemma request_calm: "calm w (connection_process_request env method rid params (conn, w))"
  unfolding calm_def
proof (intro allI impI)
  fix ret conn1 w1
  assume "connection_process_request env method rid params (conn, w) = Some (ret, conn1, w1)"
  then show "left w1 \<le> left w"
    by (auto simp: connection_process_request_def Let_def split: bind_splits option.splits prod.splits if_splits
        dest!: methods send_left)
qed

lemma result_calm: "calm w (connection_process_result env rid result (conn, w))"
  unfolding calm_def
proof (intro allI impI)
  fix ret conn1 w1
  assume "connection_process_result env rid result (conn, w) = Some (ret, conn1, w1)"
  then show "left w1 \<le> left w"
    by (auto simp: connection_process_result_def split: bind_splits option.splits prod.splits dest!: callbacks)
qed

lemma error_calm: "calm w (connection_process_error env rid code message data (conn, w))"
  unfolding calm_def
proof (intro allI impI)
  fix ret conn1 w1
  assume "connection_process_error env rid code message data (conn, w) = Some (ret, conn1, w1)"
  then show "left w1 \<le> left w"
    by (auto simp: connection_process_error_def split: option.splits dest!: handlers)
qed

lemma codes_not_eof:
  "connection_process_request env method rid params st = Some (ret, st1) \<Longrightarrow> ret \<noteq> JRPC_EOF"
  "connection_process_result env rid result st = Some (ret, st1) \<Longrightarrow> ret \<noteq> JRPC_EOF"
  "connection_process_error env rid code message data st = Some (ret, st1) \<Longrightarrow> ret \<noteq> JRPC_EOF"
proof -
  have "JRPC_ERR_METHOD_TO_CODE e \<noteq> JRPC_EOF" for e
    using pos_mod_bound [of 256 e] by (simp add: JRPC_ERR_METHOD_TO_CODE_def JRPC_ERR_METHOD_ERROR_def JRPC_EOF_def)
  then show "connection_process_request env method rid params st = Some (ret, st1) \<Longrightarrow> ret \<noteq> JRPC_EOF"
    by (auto simp: connection_process_request_def Let_def JRPC_EOF_def JRPC_OK_def JRPC_ERR_METHOD_NOT_FOUND_def
        split: bind_splits option.splits prod.splits if_splits)
  show "connection_process_result env rid result st = Some (ret, st1) \<Longrightarrow> ret \<noteq> JRPC_EOF"
    by (auto simp: connection_process_result_def JRPC_EOF_def JRPC_OK_def JRPC_ERR_INVALID_RESPONSE_ID_def
        split: bind_splits option.splits prod.splits)
  show "connection_process_error env rid code message data st = Some (ret, st1) \<Longrightarrow> ret \<noteq> JRPC_EOF"
    by (auto simp: connection_process_error_def JRPC_EOF_def JRPC_OK_def split: option.splits)
qed

lemma unpack_not_eof: "json_rpc_unpack J j = Inl ret \<Longrightarrow> ret \<noteq> JRPC_EOF"
  unfolding json_rpc_unpack_def JRPC_EOF_def JRPC_ERR_INVALID_REQUEST_def JRPC_ERR_INVALID_RESPONSE_def
  by (auto split: if_splits option.splits list.splits unpacked.splits)

lemma process_left:
  assumes "jrpc_process env (conn, w) = Some (ret, conn1, w1)"
  shows "if ret = JRPC_EOF then left w1 = 0 else left w1 < left w"
proof -
  obtain ret0 obj w0 where r: "connection_receive env (conn, w) = Some ((ret0, obj), conn, w0)"
    using assms by (auto simp: jrpc_process_def connection_receive_def split: bind_splits option.splits prod.splits if_splits)
  have w0: "(if ret0 = JRPC_EOF then left w0 = 0 else left w0 < left w)"
    using r reads by (fastforce simp: connection_receive_def JRPC_EOF_def JRPC_OK_def JRPC_ERR_PARSE_ERROR_def
        split: bind_splits option.splits prod.splits if_splits)
  show ?thesis
  proof (cases "ret0 = 0")
    case False
    with r assms w0 show ?thesis by (auto simp: jrpc_process_def split: if_splits)
  next
    case True
    with w0 have less: "left w0 < left w"
      by (simp add: JRPC_EOF_def)
    have "left w1 \<le> left w0 \<and> ret \<noteq> JRPC_EOF"
    proof (cases "json_rpc_unpack (je_json env) obj")
      case (Inl ret1)
      with assms r True unpack_not_eof [OF Inl] show ?thesis
        by (auto simp: jrpc_process_def split: bind_splits if_splits dest!: send_left)
    next
      case (Inr m)
      with assms r True request_calm [of w0 _ _ _ conn] result_calm [of w0 _ _ conn] error_calm [of w0 _ _ _ _ conn]
        codes_not_eof show ?thesis
        by (cases m) (auto simp: jrpc_process_def calm_def)
    qed
    with less show ?thesis by simp
  qed
qed

lemma loop_ends:
  assumes "dumps_short (je_json env)" "sound_connection conn"
  shows "\<exists>conn1 w1. process_until env stop (conn, w) = Some (Some (conn1, w1)) \<and> sound_connection conn1
    \<and> (left w1 = 0 \<or> stop w1)"
  using assms(2)
proof (induction "left w" arbitrary: conn w rule: less_induct)
  case less
  obtain ret conn1 w1 where p: "jrpc_process env (conn, w) = Some (ret, conn1, w1)" "sound_connection conn1"
    using process_keeps_going [OF sound [OF assms(1)] less.prems, of w] by (auto simp: keeps_going_def)
  show ?case
  proof (cases "ret = JRPC_EOF \<or> stop w1")
    case True
    with p process_left [OF p(1)] show ?thesis
      by (subst process_until.simps) auto
  next
    case False
    then have "left w1 < left w"
      using process_left [OF p(1)] by simp
    from less.hyps [OF this p(2)] False p(1) show ?thesis
      by (subst process_until.simps) simp
  qed
qed

end

lemma server_env_sound: "dumps_short J \<Longrightarrow> sound_env (server_env J methods)"
  by (auto simp: sound_env_def dumps_short_def server_env_def split: prod.split)

text \<open>The server's end of a stream, whose client has sent all it will send.\<close>

interpretation served: finite_input "server_env J methods" "\<lambda>w. length (to_server w)" for J methods
proof
  show "dumps_short (je_json (server_env J methods)) \<Longrightarrow> sound_env (server_env J methods)"
    using server_env_sound [of J methods] by (simp add: server_env_def)
qed (auto simp: server_env_def DEFAULT_INPUT_BUFFER_SIZE_def length_greater_0_conv split: prod.splits intro!: diff_less)

section \<open>Properties\<close>

text \<open>
  a failing read. Once every read of a connection fails, as after a reset by the peer, the loop of
  its thread never ends: only the end of the input stops it, and an error is tried again for ever.
\<close>

lemma spin_step:
  assumes "jc_read_cb conn = Some cb" "je_read env cb DEFAULT_INPUT_BUFFER_SIZE (jc_read_cb_data conn) w = (None, w1)"
  shows "jrpc_process env (conn, w) = Some (JRPC_ERR_INTERNAL_ERROR, conn, w1)"
  using assms by (simp add: jrpc_process_def connection_receive_def JRPC_ERR_INTERNAL_ERROR_def)

theorem read_error_spins:
  assumes "jc_read_cb (cd_conn cd) = Some cb" "broken w"
    and "\<And>w. broken w \<Longrightarrow> \<exists>w1. je_read env cb DEFAULT_INPUT_BUFFER_SIZE (jc_read_cb_data (cd_conn cd)) w = (None, w1) \<and> broken w1"
  shows "client_thread env os cd w = None"
proof -
  let ?P = "\<lambda>e s st r. e = env \<longrightarrow> s = (\<lambda>_. False) \<longrightarrow> fst st = cd_conn cd \<longrightarrow> \<not> broken (snd st)"
  have "?P e s st r" if ret: "process_until e s st = Some r" for e s st r
  proof (rule process_until.raw_induct [where P = ?P, OF _ ret], intro impI notI)
    fix loop e s st r
    assume loop: "\<And>e s st r. loop e s st = Some r \<Longrightarrow> ?P e s st r"
      and body: "(case jrpc_process e st of None \<Rightarrow> Some None
        | Some (ret, st1) \<Rightarrow> if ret = JRPC_EOF \<or> s (snd st1) then Some (Some st1) else loop e s st1) = Some r"
      and e: "e = env" "s = (\<lambda>_. False)" "fst st = cd_conn cd" "broken (snd st)"
    obtain w0 where st: "st = (cd_conn cd, w0)" "broken w0"
      using e(3,4) by (cases st) simp
    obtain w1 where r: "je_read env cb DEFAULT_INPUT_BUFFER_SIZE (jc_read_cb_data (cd_conn cd)) w0 = (None, w1)" "broken w1"
      using assms(3) [OF st(2)] by blast
    note w1 = spin_step [OF assms(1) r(1)] r(2)
    then have "loop env (\<lambda>_. False) (cd_conn cd, w1) = Some r"
      using body by (simp add: e st JRPC_ERR_INTERNAL_ERROR_def JRPC_EOF_def)
    from loop [OF this] w1(2) show False by simp
  qed
  then have "process_until env (\<lambda>_. False) (cd_conn cd, w) = None"
    using assms(2) by (cases "process_until env (\<lambda>_. False) (cd_conn cd, w)") auto
  then show ?thesis
    by (simp add: client_thread_def)
qed

text \<open>
  a client from its acceptance to its end. The callback of the listening socket starts a thread with
  a new connection that reads and writes the accepted descriptor; the thread serves the requests that
  the client has sent, whatever they are and whatever the methods do, ends when the client has closed
  its end, and then closes the descriptor.
\<close>

theorem client_served:
  fixes J :: "'j jansson" and os :: "'w socket_os"
  assumes "dumps_short J" "sk_accept os (sv_listen_sock sv) w0 = (fd, w)" "0 \<le> fd"
    and "rpcbe_mapper = None \<or> rpcbe_mapper = create_rpcbe_mapper"
  shows "\<exists>cd mp. server_listen_cb os (sv, rpcbe_mapper, w0)
      = Some (True, sv\<lparr>sv_thread_pool := sv_thread_pool sv @ [cd]\<rparr>, Some mp, w)
    \<and> create_rpcbe_mapper = Some mp \<and> int (jc_read_cb_data (cd_conn cd)) = fd \<and> int (jc_write_cb_data (cd_conn cd)) = fd
    \<and> (\<forall>methods socks. \<forall>w1 :: 'x wire. \<exists>freed w2. client_thread (server_env J methods) socks cd w1
          = Some (Some (freed, snd (sk_close socks fd w2))) \<and> to_server w2 = [])"
proof -
  obtain mp where mp: "create_rpcbe_mapper = Some mp" "tinv (mp_method_table mp)" "ht_type (mp_method_table mp) = HASH_KEY_STR"
      "pointer_table (mp_error_message_table mp)"
    using rpcbe_mapper by blast
  let ?conn = "jrpc_connection_set_write_cb (jrpc_connection_set_read_cb (jrpc_connection_new (Some mp) (sv_armadito sv)) READ_CB (nat fd)) WRITE_CB (nat fd)"
  let ?cd = "\<lparr>cd_client_sock = nat fd, cd_conn = ?conn\<rparr>"
  have fields: "jc_response_table ?conn = hash_table_new HASH_KEY_INT False True" "jc_mapper ?conn = Some mp" "connected ?conn"
    by (simp_all add: connected_def jrpc_connection_set_write_cb_def jrpc_connection_set_read_cb_def jrpc_connection_new_def)
  have "pointer_table (jc_response_table ?conn)"
    unfolding fields(1) by (rule pointer_table_new) simp
  then have sound: "sound_connection ?conn"
    using mp fields(2,3) unfolding sound_connection_def pointer_table_def hash_table_inv_def by blast
  have m: "a6o_get_rpcbe_mapper rpcbe_mapper = Some mp"
    using assms(4) by (cases rpcbe_mapper) (simp_all add: a6o_get_rpcbe_mapper_def mp(1))
  have listen: "server_listen_cb os (sv, rpcbe_mapper, w0) = Some (True, sv\<lparr>sv_thread_pool := sv_thread_pool sv @ [?cd]\<rparr>, Some mp, w)"
    by (simp add: server_listen_cb_def assms(2,3) not_less m Let_def)
  have "\<exists>freed w2. client_thread (server_env J methods) socks ?cd w1 = Some (Some (freed, snd (sk_close socks fd w2))) \<and> to_server w2 = []"
    for methods socks and w1 :: "'x wire"
  proof -
    have "dumps_short (je_json (server_env J methods))"
      using assms(1) by (simp add: server_env_def)
    from served.loop_ends [OF this sound, of "\<lambda>_. False" w1] show ?thesis
      using assms(3) by (auto simp: client_thread_def)
  qed
  with listen mp(1) assms(3) show ?thesis
    by (intro exI [of _ ?cd] exI [of _ mp]) (simp add: jrpc_connection_set_write_cb_def jrpc_connection_set_read_cb_def)
qed

text \<open>
  reaching the daemon. A client that gives up after a number of retries has tried once more than that:
  when the first attempts fail and the next one succeeds it is connected exactly if at most
  \<open>max_retry\<close> of them failed. Client and daemon use the same address for the same path.
\<close>

fun failing_connects :: "'w socket_os \<Rightarrow> int \<Rightarrow> string \<times> nat \<Rightarrow> nat \<Rightarrow> 'w \<Rightarrow> 'w \<Rightarrow> bool" where
  "failing_connects os fd addr 0 w w1 \<longleftrightarrow> w1 = w"
| "failing_connects os fd addr (Suc n) w w1 \<longleftrightarrow> (case sk_connect os fd addr w of (r, w0) \<Rightarrow>
    r < 0 \<and> failing_connects os fd addr n w0 w1)"

lemma connect_after_failures:
  assumes "failing_connects os fd addr n w w1" "sk_connect os fd addr w1 = (0, w2)" "int n \<le> max_retry - tries"
  shows "connect_loop os fd addr max_retry tries w = (0, w2)"
  using assms
proof (induction n arbitrary: w tries)
  case 0
  then show ?case by (subst connect_loop.simps) simp
next
  case (Suc n)
  obtain r w0 where c: "sk_connect os fd addr w = (r, w0)" "r < 0" "failing_connects os fd addr n w0 w1"
    using Suc.prems(1) by (auto split: prod.splits)
  have "connect_loop os fd addr max_retry (tries + 1) w0 = (0, w2)"
    using Suc.prems(3) by (intro Suc.IH [OF c(3) Suc.prems(2)]) simp
  with c Suc.prems(3) show ?case
    by (subst connect_loop.simps) simp
qed

theorem client_connects_after_retries:
  assumes "length path < UNIX_PATH_MAX" "sk_socket os w0 = (fd, w)" "0 \<le> fd" "0 < max_retry"
    and "failing_connects os fd (unix_sockaddr path) n w w1" "sk_connect os fd (unix_sockaddr path) w1 = (0, w2)"
    and "int n \<le> max_retry"
  shows "unix_client_connect os path max_retry w0 = Some (fd, w2)"
  using assms(1-4) connect_after_failures [OF assms(5,6), of max_retry 0] assms(7)
  by (simp add: unix_client_connect_def Let_def)

section \<open>Instances\<close>

text \<open>A socket that accepts and reads nothing, and a client that sent two messages.\<close>

definition quiet_sockets :: "'w socket_os" where
  "quiet_sockets = \<lparr>sk_socket = (\<lambda>w. (3, w)), sk_unlink = (\<lambda>p w. w), sk_bind = (\<lambda>fd a w. (0, w)), sk_listen = (\<lambda>fd n w. (0, w)),
    sk_chmod = (\<lambda>p md w. (0, w)), sk_connect = (\<lambda>fd a w. (0, w)), sk_accept = (\<lambda>fd w. (5, w)), sk_send = (\<lambda>fd s w. (int (length s), w)),
    sk_recv = (\<lambda>fd n w. (None, w)), sk_close = (\<lambda>fd w. (0, w))\<rparr>"

lemma letter_dumps_short: "dumps_short letter_json"
  by (auto simp: dumps_short_def letter_json_def letter_dump_def split: if_splits)

definition two_calls :: "unit wire" where
  "two_calls = \<lparr>to_server = ''c'' @ message_end @ ''c'' @ message_end, to_client = [], wr_app = ()\<rparr>"

lemma quiet_accepts: "sk_accept quiet_sockets (sv_listen_sock (server_new 0 4)) w = (5, w)"
  by (simp add: quiet_sockets_def)

theorem client_served_witness:
  "\<exists>cd freed w2. sv_thread_pool (fst (snd (the (server_listen_cb quiet_sockets (server_new 0 4, None, two_calls))))) = [cd]
    \<and> client_thread (server_env letter_json (\<lambda>f p a. ((0, None), a))) quiet_sockets cd two_calls = Some (Some (freed, w2)) \<and> to_server w2 = []"
proof -
  obtain cd mp where cd: "server_listen_cb quiet_sockets (server_new 0 4, None, two_calls)
      = Some (True, (server_new 0 4)\<lparr>sv_thread_pool := sv_thread_pool (server_new 0 4) @ [cd]\<rparr>, Some mp, two_calls)"
      "\<forall>methods socks. \<forall>w1 :: unit wire. \<exists>freed w2. client_thread (server_env letter_json methods) socks cd w1
          = Some (Some (freed, snd (sk_close socks 5 w2))) \<and> to_server w2 = []"
    using client_served [OF letter_dumps_short, where os = quiet_sockets and sv = "server_new 0 4" and fd = 5 and rpcbe_mapper = None and 'x = unit,
        OF quiet_accepts, of two_calls]
    by auto
  from cd(2) [rule_format, of "\<lambda>f p a. ((0, None), a)" quiet_sockets two_calls]
  obtain freed w2 where "client_thread (server_env letter_json (\<lambda>f p a. ((0, None), a))) quiet_sockets cd two_calls
      = Some (Some (freed, snd (sk_close quiet_sockets 5 w2)))" "to_server w2 = []" by blast
  with cd(1) show ?thesis
    by (auto simp: quiet_sockets_def server_new_def)
qed

theorem read_error_spins_witness:
  "client_thread (outbox_env json_tree) quiet_sockets
    \<lparr>cd_client_sock = 5, cd_conn = jrpc_connection_set_read_cb (jrpc_connection_new None 0) READ_CB 5\<rparr> (\<lambda>_. []) = None"
  by (rule read_error_spins [where cb = READ_CB and broken = "\<lambda>_. True"])
     (simp_all add: outbox_env_def jrpc_connection_set_read_cb_def)

theorem client_connects_after_retries_witness:
  "unix_client_connect (quiet_sockets\<lparr>sk_connect := \<lambda>fd a n. (if n < 10 then -1 else 0, Suc n)\<rparr>) ''@/tmp/.armadito-daemon'' 10 0 = Some (3, 11)"
proof -
  let ?os = "quiet_sockets\<lparr>sk_connect := \<lambda>fd a n. (if n < 10 then -1 else 0, Suc n)\<rparr>"
  have "failing_connects ?os 3 (unix_sockaddr ''@/tmp/.armadito-daemon'') 10 0 10"
    by (simp add: eval_nat_numeral)
  then show ?thesis
    by (rule client_connects_after_retries [OF _ _ _ _ _ _ _, rotated 4])
       (simp_all add: quiet_sockets_def UNIX_PATH_MAX_def)
qed

end
