(* ===== verification/Clients.thy ===== *)
theory Clients
  imports Server ConfFile
begin

text \<open>
  The command line tools: \<open>tools/armadito-info.c\<close>, which prints what the daemon knows of its modules,
  and \<open>tools/armadito-scan.c\<close>, which asks for a scan and prints what it finds. What a tool prints on
  standard output is the field of its state; messages on standard error are left out.
\<close>

section \<open>What the tools share\<close>

text \<open>
  The world of a tool: the system calls on sockets, the JSON library with its function that prints a
  value on a file, and the calendar: the text that \<open>gmtime\<close> and \<open>strftime\<close> give for a time, unless
  \<open>gmtime\<close> fails.
\<close>

record ('j, 'w) client_lib =
  cl_sockets :: "'w socket_os"
  cl_json :: "'j jansson"
  cl_dumpf :: "'j \<Rightarrow> string"
  cl_calendar :: "int \<Rightarrow> string option"

definition newline :: string where "newline = [CHR 0x0A]"

text \<open>The connection of a tool over its socket; it carries no user data but a pointer.\<close>

definition client_connection :: "jrpc_mapper option \<Rightarrow> nat \<Rightarrow> jrpc_connection" where
  "client_connection mapper fd =
    jrpc_connection_set_write_cb (jrpc_connection_set_read_cb (jrpc_connection_new mapper 0) READ_CB fd) WRITE_CB fd"

text \<open>Reads and writes of a connection, in a state with a world.\<close>

definition read_through :: "'w socket_os \<Rightarrow> ('s \<Rightarrow> 'w) \<Rightarrow> ('w \<Rightarrow> 's \<Rightarrow> 's) \<Rightarrow> nat \<Rightarrow> nat \<Rightarrow> nat \<Rightarrow> 's \<Rightarrow> string option \<times> 's" where
  "read_through os world set_world cb n data s = (case unix_fd_read_cb os n data (world s) of (r, w1) \<Rightarrow> (r, set_world w1 s))"

definition write_through :: "'w socket_os \<Rightarrow> ('s \<Rightarrow> 'w) \<Rightarrow> ('w \<Rightarrow> 's \<Rightarrow> 's) \<Rightarrow> nat \<Rightarrow> string \<Rightarrow> nat \<Rightarrow> 's \<Rightarrow> int \<times> 's" where
  "write_through os world set_world cb msg data s = (case unix_fd_write_cb os msg data (world s) of (r, w1) \<Rightarrow> (r, set_world w1 s))"

section \<open>The info tool\<close>

record info_options =
  io_unix_socket_path :: string
  io_format_json :: int

definition info_parse_option :: "char \<times> cstr \<Rightarrow> info_options \<Rightarrow> info_options process option" where
  "info_parse_option arg opts = (case arg of (c, optarg) \<Rightarrow>
    (if c = CHR ''?'' then Some (Running opts)
     else if c = CHR ''h'' then Some (Exited EXIT_FAILURE)
     else if c = CHR ''V'' then Some (Exited EXIT_SUCCESS)
     else if c = CHR ''a'' then map_option (\<lambda>p. Running (opts\<lparr>io_unix_socket_path := p\<rparr>)) optarg
     else if c = CHR ''j'' then Some (Running (opts\<lparr>io_format_json := 1\<rparr>))
     else None))"

fun option_loop :: "(char \<times> cstr \<Rightarrow> 'o \<Rightarrow> 'o process option) \<Rightarrow> (char \<times> cstr) list \<Rightarrow> 'o \<Rightarrow> 'o process option" where
  "option_loop f [] opts = Some (Running opts)"
| "option_loop f (arg # args) opts = (case f arg opts of
       Some (Running opts1) \<Rightarrow> option_loop f args opts1
     | r \<Rightarrow> r)"

text \<open>\<open>operands\<close> are the arguments that are not options.\<close>

definition info_parse_options :: "string \<Rightarrow> (char \<times> cstr) list \<Rightarrow> string list \<Rightarrow> info_options process option" where
  "info_parse_options socket_path args operands =
    (case option_loop info_parse_option args \<lparr>io_unix_socket_path = socket_path, io_format_json = 0\<rparr> of
       Some (Running opts) \<Rightarrow> Some (if operands \<noteq> [] then Exited EXIT_FAILURE else Running opts)
     | r \<Rightarrow> r)"

text \<open>
  The buffer has the size of a date with one character to spare; \<open>strftime\<close> leaves it undefined when
  the text does not fit, which is when the year has more than four digits.
\<close>

definition date_size :: nat where "date_size = 22"

definition time_2_date :: "(int \<Rightarrow> string option) \<Rightarrow> int \<Rightarrow> string option" where
  "time_2_date calendar timestamp = do {
     text \<leftarrow> calendar timestamp;
     if length text < date_size then Some text else None
   }"

fun print_bases :: "(int \<Rightarrow> string option) \<Rightarrow> a6o_base_info list \<Rightarrow> string option" where
  "print_bases calendar [] = Some []"
| "print_bases calendar (base_info # bs) = do {
     buf \<leftarrow> time_2_date calendar (bi_base_update_ts base_info);
     rest \<leftarrow> print_bases calendar bs;
     Some (''-- Base '' @ format_s (bi_name base_info) @ '' '' @ newline
       @ ''--- Update date : '' @ buf @ newline
       @ (if bi_version base_info \<noteq> None then ''--- Version : '' @ format_s (bi_version base_info) @ newline else [])
       @ ''--- Signature count : '' @ format_size (bi_signature_count base_info) @ newline
       @ ''--- Full path : '' @ format_s (bi_full_path base_info) @ newline @ rest)
   }"

fun print_modules :: "(int \<Rightarrow> string option) \<Rightarrow> a6o_module_info list \<Rightarrow> string option" where
  "print_modules calendar [] = Some []"
| "print_modules calendar (mod_info # ms) = do {
     buf \<leftarrow> time_2_date calendar (mi_mod_update_ts mod_info);
     bases \<leftarrow> (case mi_base_infos mod_info of None \<Rightarrow> Some [] | Some bs \<Rightarrow> print_bases calendar bs);
     rest \<leftarrow> print_modules calendar ms;
     Some (''Module '' @ format_s (mi_name mod_info) @ '' '' @ newline
       @ ''- Update status : '' @ a6o_update_status_str (mi_mod_status mod_info) @ newline
       @ ''- Update date : '' @ buf @ newline @ bases @ rest)
   }"

text \<open>The loop over the modules dereferences their array.\<close>

definition info_print :: "(int \<Rightarrow> string option) \<Rightarrow> a6o_info_ptr \<Rightarrow> string option" where
  "info_print calendar info = do {
     buf \<leftarrow> time_2_date calendar (ip_global_update_ts info);
     module_infos \<leftarrow> ip_module_infos info;
     modules \<leftarrow> print_modules calendar module_infos;
     Some (''--- Armadito info --- '' @ newline
       @ ''antivirus version: '' @ format_s (ip_antivirus_version info) @ newline
       @ ''global status : '' @ a6o_update_status_str (ip_global_status info) @ newline
       @ ''global update date : '' @ buf @ newline @ modules)
   }"

record info_cb_data =
  id_done :: int
  id_format_json :: int

record 'w info_client =
  ic_data :: info_cb_data
  ic_stdout :: string
  ic_world :: 'w

definition INFO_CB :: nat where "INFO_CB = 1"

definition info_cb :: "('j, 'w) client_lib \<Rightarrow> 'j \<Rightarrow> 'w info_client \<Rightarrow> 'w info_client option" where
  "info_cb L result s =
    (if ctrue (id_format_json (ic_data s))
     then Some (s\<lparr>ic_stdout := ic_stdout s @ cl_dumpf L result @ newline, ic_data := (ic_data s)\<lparr>id_done := 1\<rparr>\<rparr>)
     else (case jrpc_unmarshall_struct_ptr (cl_json L) (Some result) (jrpc_unmarshall_struct_a6o_info (cl_json L)) of
             None \<Rightarrow> None
           | Some (Inl ret) \<Rightarrow> Some s
           | Some (Inr None) \<Rightarrow> None
           | Some (Inr (Some info)) \<Rightarrow> do {
               text \<leftarrow> info_print (cl_calendar L) info;
               Some (s\<lparr>ic_stdout := ic_stdout s @ text, ic_data := (ic_data s)\<lparr>id_done := 1\<rparr>\<rparr>)
             }))"

text \<open>The connection has no mapper, so no method is ever called, and no error handler.\<close>

definition info_env :: "('j, 'w) client_lib \<Rightarrow> ('j, 'w info_client) jrpc_env" where
  "info_env L = \<lparr>je_json = cl_json L,
     je_read = read_through (cl_sockets L) ic_world (\<lambda>w s. s\<lparr>ic_world := w\<rparr>),
     je_write = write_through (cl_sockets L) ic_world (\<lambda>w s. s\<lparr>ic_world := w\<rparr>),
     je_method = \<lambda>_ _ _. None,
     je_callback = \<lambda>cb result _ (conn, s). if cb = INFO_CB then map_option (Pair conn) (info_cb L result s) else None,
     je_error_handler = \<lambda>_ _ _ _ _ _. None\<rparr>"

definition info_done :: "'w info_client \<Rightarrow> bool" where
  "info_done s \<longleftrightarrow> ctrue (id_done (ic_data s))"

text \<open>\<open>None\<close> is a loop that never ends, \<open>Some None\<close> a fault.\<close>

definition do_info :: "('j, 'w) client_lib \<Rightarrow> info_options \<Rightarrow> 'w \<Rightarrow> (int \<times> 'w info_client) process option option" where
  "do_info L opts w = (case unix_client_connect (cl_sockets L) (io_unix_socket_path opts) 10 w of
       None \<Rightarrow> Some None
     | Some (client_sock, w1) \<Rightarrow>
         if client_sock < 0 then Some (Some (Exited EXIT_FAILURE))
         else let conn = client_connection None (nat client_sock);
                  s = \<lparr>ic_data = \<lparr>id_done = 0, id_format_json = io_format_json opts\<rparr>, ic_stdout = [], ic_world = w1\<rparr>
              in (case jrpc_call (info_env L) ''status'' None (Some (INFO_CB, 0)) (conn, s) of
                    None \<Rightarrow> Some None
                  | Some (ret, conn1, s1) \<Rightarrow>
                      if ctrue ret then Some (Some (Running (ret, s1)))
                      else (case process_until (info_env L) info_done (conn1, s1) of
                              None \<Rightarrow> None
                            | Some None \<Rightarrow> Some None
                            | Some (Some (conn2, s2)) \<Rightarrow>
                                Some (Some (Running (0, s2\<lparr>ic_world := snd (sk_close (cl_sockets L) client_sock (ic_world s2))\<rparr>))))))"

text \<open>The status that the process exits with, and its output; the result of \<open>do_info\<close> is dropped.\<close>

definition info_main ::
  "('j, 'w) client_lib \<Rightarrow> string \<Rightarrow> (char \<times> cstr) list \<Rightarrow> string list \<Rightarrow> 'w \<Rightarrow> (int \<times> string) option option" where
  "info_main L socket_path args operands w = (case info_parse_options socket_path args operands of
       None \<Rightarrow> Some None
     | Some (Exited status) \<Rightarrow> Some (Some (status, []))
     | Some (Running opts) \<Rightarrow> map_option (map_option (\<lambda>r. case r of
           Exited status \<Rightarrow> (status, []) | Running (ret, s) \<Rightarrow> (0, ic_stdout s))) (do_info L opts w))"

section \<open>The scan tool\<close>

record scan_options =
  so_unix_socket_path :: string
  so_format_json :: int
  so_recursive :: int
  so_threaded :: int
  so_no_summary :: int
  so_print_clean :: int
  so_path_to_scan :: cstr

definition scan_parse_option :: "char \<times> cstr \<Rightarrow> scan_options \<Rightarrow> scan_options process option" where
  "scan_parse_option arg opts = (case arg of (c, optarg) \<Rightarrow>
    (if c = CHR ''?'' then Some (Running opts)
     else if c = CHR ''h'' then Some (Exited (-1))
     else if c = CHR ''V'' then Some (Exited EXIT_SUCCESS)
     else if c = CHR ''a'' then map_option (\<lambda>p. Running (opts\<lparr>so_unix_socket_path := p\<rparr>)) optarg
     else if c = CHR ''j'' then Some (Running (opts\<lparr>so_format_json := 1\<rparr>))
     else if c = CHR ''r'' then Some (Running (opts\<lparr>so_recursive := 1\<rparr>))
     else if c = CHR ''t'' then Some (Running (opts\<lparr>so_threaded := 1\<rparr>))
     else if c = CHR ''n'' then Some (Running (opts\<lparr>so_no_summary := 1\<rparr>))
     else None))"

text \<open>There must be exactly one operand.\<close>

definition scan_parse_options :: "string \<Rightarrow> (char \<times> cstr) list \<Rightarrow> string list \<Rightarrow> scan_options process option" where
  "scan_parse_options socket_path args operands =
    (case option_loop scan_parse_option args \<lparr>so_unix_socket_path = socket_path, so_format_json = 0, so_recursive = 0,
            so_threaded = 0, so_no_summary = 0, so_print_clean = 0, so_path_to_scan = None\<rparr> of
       Some (Running opts) \<Rightarrow> Some (case operands of
           [path] \<Rightarrow> Running (opts\<lparr>so_path_to_scan := Some path\<rparr>)
         | _ \<Rightarrow> Exited (-1))
     | r \<Rightarrow> r)"

definition detection_event_print :: "a6o_detection_event \<Rightarrow> string" where
  "detection_event_print ev =
    format_s (det_path ev) @ '': '' @ a6o_file_status_pretty_str (det_scan_status ev) @ '' ['' @ format_s (det_module_name ev)
    @ '' - '' @ format_s (det_module_report ev) @ ''] (action '' @ a6o_action_pretty_str (det_scan_action ev) @ '')'' @ newline"

text \<open>
  \<open>%.5f\<close> of a number of milliseconds as seconds: the three digits of the milliseconds and two zeros. The
  division in \<open>double\<close> does not change a digit of the durations below \<open>2 ^ 33\<close> seconds.
\<close>

definition three_digits :: "nat \<Rightarrow> string" where
  "three_digits n = [digit_char (n div 100 mod 10), digit_char (n div 10 mod 10), digit_char (n mod 10)]"

definition format_seconds :: "int \<Rightarrow> string" where
  "format_seconds ms = (if ms < 0 then ''-'' else []) @ decimal (nat \<bar>ms\<bar> div 1000) @ ''.'' @ three_digits (nat \<bar>ms\<bar> mod 1000) @ ''00''"

definition on_demand_completed_event_print :: "a6o_on_demand_completed_event \<Rightarrow> string" where
  "on_demand_completed_event_print ev =
    newline @ ''SCAN SUMMARY:'' @ newline
    @ ''scanned files     : '' @ format_size (cmpl_total_scanned_count ev) @ newline
    @ ''malware files     : '' @ format_size (cmpl_total_malware_count ev) @ newline
    @ ''suspicious files  : '' @ format_size (cmpl_total_suspicious_count ev) @ newline
    @ ''duration          : '' @ format_seconds (cmpl_duration ev) @ ''s'' @ newline @ newline"

definition event_print_json :: "('j, 'w) client_lib \<Rightarrow> 'j \<Rightarrow> string" where
  "event_print_json L j_ev = cl_dumpf L j_ev @ newline @ newline"

record scan_data =
  sc_done :: int
  sc_format_json :: int
  sc_no_summary :: int

record 'w scan_client =
  sn_data :: scan_data
  sn_stdout :: string
  sn_world :: 'w

definition put_stdout :: "string \<Rightarrow> 'w scan_client \<Rightarrow> 'w scan_client" where
  "put_stdout text s = s\<lparr>sn_stdout := sn_stdout s @ text\<rparr>"

text \<open>An event that is NULL is dereferenced. The JSON form of the parameters is printed as it came.\<close>

definition notify_event_method :: "('j, 'w) client_lib \<Rightarrow> 'j option \<Rightarrow> 'w scan_client \<Rightarrow> (int \<times> 'w scan_client) option" where
  "notify_event_method L params s =
    (case jrpc_unmarshall_struct_ptr (cl_json L) params (jrpc_unmarshall_struct_a6o_event (cl_json L)) of
       None \<Rightarrow> None
     | Some (Inl ret) \<Rightarrow> Some (ret, s)
     | Some (Inr None) \<Rightarrow> None
     | Some (Inr (Some ev)) \<Rightarrow> (case params of
         None \<Rightarrow> None
       | Some j_ev \<Rightarrow> (case ev_u ev of
           Ev_on_demand_progress _ \<Rightarrow> Some (JRPC_OK, s)
         | Ev_detection e \<Rightarrow>
             Some (JRPC_OK, put_stdout (if ctrue (sc_format_json (sn_data s)) then event_print_json L j_ev else detection_event_print e) s)
         | Ev_on_demand_completed e \<Rightarrow>
             (let s1 = s\<lparr>sn_data := (sn_data s)\<lparr>sc_done := 1\<rparr>\<rparr>
              in Some (JRPC_OK,
                   if \<not> ctrue (sc_no_summary (sn_data s1))
                   then put_stdout (if ctrue (sc_format_json (sn_data s1)) then event_print_json L j_ev
                                    else on_demand_completed_event_print e) s1
                   else s1))
         | _ \<Rightarrow> Some (JRPC_OK, s))))"

definition NOTIFY_EVENT_METHOD :: nat where "NOTIFY_EVENT_METHOD = 1"

definition create_rpcfe_mapper :: "jrpc_mapper option" where
  "create_rpcfe_mapper = do {
     (_, rpcfe_mapper) \<leftarrow> jrpc_mapper_add jrpc_mapper_new ''notify_event'' NOTIFY_EVENT_METHOD;
     Some rpcfe_mapper
   }"

text \<open>The generator of \<open>random\<close> is a state; it is run a number of times that depends on the process.\<close>

fun skip_random :: "('r \<Rightarrow> nat \<times> 'r) \<Rightarrow> nat \<Rightarrow> 'r \<Rightarrow> 'r" where
  "skip_random random 0 r = r"
| "skip_random random (Suc n) r = skip_random random n (snd (random r))"

definition create_scan_id :: "(int \<Rightarrow> 'r) \<Rightarrow> ('r \<Rightarrow> nat \<times> 'r) \<Rightarrow> int \<Rightarrow> nat \<Rightarrow> u32" where
  "create_scan_id srandom random now pid = of_nat (fst (random (skip_random random (pid div 41) (srandom now))))"

definition scan_env :: "('j, 'w) client_lib \<Rightarrow> ('j, 'w scan_client) jrpc_env" where
  "scan_env L = \<lparr>je_json = cl_json L,
     je_read = read_through (cl_sockets L) sn_world (\<lambda>w s. s\<lparr>sn_world := w\<rparr>),
     je_write = write_through (cl_sockets L) sn_world (\<lambda>w s. s\<lparr>sn_world := w\<rparr>),
     je_method = \<lambda>f params (conn, s). if f = NOTIFY_EVENT_METHOD
       then map_option (\<lambda>(ret, s1). ((ret, None), conn, s1)) (notify_event_method L params s) else None,
     je_callback = \<lambda>_ _ _ _. None,
     je_error_handler = \<lambda>_ _ _ _ _ _. None\<rparr>"

definition scan_done :: "'w scan_client \<Rightarrow> bool" where
  "scan_done s \<longleftrightarrow> ctrue (sc_done (sn_data s))"

definition do_scan :: "('j, 'w) client_lib \<Rightarrow> u32 \<Rightarrow> scan_options \<Rightarrow> 'w \<Rightarrow> (int \<times> 'w scan_client) process option option" where
  "do_scan L scan_id opts w = (case unix_client_connect (cl_sockets L) (so_unix_socket_path opts) 10 w of
       None \<Rightarrow> Some None
     | Some (client_sock, w1) \<Rightarrow>
         if client_sock < 0 then Some (Some (Exited EXIT_FAILURE))
         else let s = \<lparr>sn_data = \<lparr>sc_done = 0, sc_format_json = so_format_json opts, sc_no_summary = so_no_summary opts\<rparr>,
                       sn_stdout = [], sn_world = w1\<rparr>;
                  param = \<lparr>sp_root_path = so_path_to_scan opts, sp_send_progress = 1, sp_recursive = so_recursive opts,
                           sp_threaded = so_threaded opts, sp_scan_id = uint scan_id\<rparr>
              in (case create_rpcfe_mapper of
                    None \<Rightarrow> Some None
                  | Some mapper \<Rightarrow>
                    let conn = client_connection (Some mapper) (nat client_sock)
                    in (case jrpc_marshall_struct_a6o_rpc_scan_param (cl_json L) param of
                          None \<Rightarrow> Some None
                        | Some (Inl ret) \<Rightarrow> Some (Some (Running (ret, s)))
                        | Some (Inr j_param) \<Rightarrow>
                            (case jrpc_call (scan_env L) ''scan'' j_param None (conn, s) of
                               None \<Rightarrow> Some None
                             | Some (ret, conn1, s1) \<Rightarrow>
                                 if ctrue ret then Some (Some (Running (ret, s1)))
                                 else (case process_until (scan_env L) scan_done (conn1, s1) of
                                         None \<Rightarrow> None
                                       | Some None \<Rightarrow> Some None
                                       | Some (Some (conn2, s2)) \<Rightarrow> Some (Some (Running (0,
                                           s2\<lparr>sn_world := snd (sk_close (cl_sockets L) client_sock (sn_world s2))\<rparr>))))))))"

definition scan_main ::
  "('j, 'w) client_lib \<Rightarrow> u32 \<Rightarrow> string \<Rightarrow> (char \<times> cstr) list \<Rightarrow> string list \<Rightarrow> 'w \<Rightarrow> (int \<times> string) option option" where
  "scan_main L scan_id socket_path args operands w = (case scan_parse_options socket_path args operands of
       None \<Rightarrow> Some None
     | Some (Exited status) \<Rightarrow> Some (Some (status, []))
     | Some (Running opts) \<Rightarrow> map_option (map_option (\<lambda>r. case r of
           Exited status \<Rightarrow> (status, []) | Running (ret, s) \<Rightarrow> (0, sn_stdout s))) (do_scan L scan_id opts w))"

section \<open>Messages over the sockets\<close>

lemma client_connection_fields [simp]:
  "jc_write_cb (client_connection mapper fd) = Some WRITE_CB" "jc_read_cb (client_connection mapper fd) = Some READ_CB"
  "jc_write_cb_data (client_connection mapper fd) = fd" "jc_read_cb_data (client_connection mapper fd) = fd"
  "jc_current_id (client_connection mapper fd) = 1" "jc_mapper (client_connection mapper fd) = mapper"
  "jc_error_handler (client_connection mapper fd) = None" "connection_inv (client_connection mapper fd)"
  "pending (client_connection mapper fd) = Map.empty"
  by (simp_all add: client_connection_def jrpc_connection_set_read_cb_def jrpc_connection_set_write_cb_def jrpc_connection_new_def
      connection_inv_def pointer_table_new hash_table_new_map pending_def fun_eq_iff)

text \<open>The descriptor of a connection, whatever its pending calls are.\<close>

definition over_socket :: "jrpc_connection \<Rightarrow> int \<Rightarrow> bool" where
  "over_socket conn fd \<longleftrightarrow> jc_write_cb conn = Some WRITE_CB \<and> jc_read_cb conn = Some READ_CB
    \<and> int (jc_write_cb_data conn) = fd \<and> int (jc_read_cb_data conn) = fd"

lemma send_through:
  assumes "over_socket conn fd" "je_write env = write_through os world set_world" "wire_text (je_json env) j msg"
    and "sk_send os fd (msg @ message_end) (world s) = (n, w1)"
  shows "connection_send env (Some j) (conn, s) = Some (if n < 0 then JRPC_ERR_INTERNAL_ERROR else JRPC_OK, conn, set_world w1 s)"
  using connection_send_text [of conn WRITE_CB env j msg s] assms
  by (simp add: over_socket_def wire_text_def write_through_def unix_fd_write_cb_def)

lemma receive_through:
  assumes "over_socket conn fd" "je_read env = read_through os world set_world" "wire_text (je_json env) j msg"
    and "sk_recv os fd 4096 (world s) = (Some (msg @ message_end), w1)"
  shows "connection_receive env (conn, s) = Some ((JRPC_OK, Some j), conn, set_world w1 s)"
  using assms wire_text_load [OF assms(3), of "[]"]
  by (auto simp: over_socket_def connection_receive_def read_through_def unix_fd_read_cb_def DEFAULT_INPUT_BUFFER_SIZE_def
      wire_text_def message_end_def)

section \<open>The info tool prints the report\<close>

lemma info_env_fields [simp]:
  "je_json (info_env L) = cl_json L" "je_read (info_env L) = read_through (cl_sockets L) ic_world (\<lambda>w s. s\<lparr>ic_world := w\<rparr>)"
  "je_write (info_env L) = write_through (cl_sockets L) ic_world (\<lambda>w s. s\<lparr>ic_world := w\<rparr>)"
  "je_callback (info_env L) cb result data (conn, s) = (if cb = INFO_CB then map_option (Pair conn) (info_cb L result s) else None)"
  by (simp_all add: info_env_def)

definition carried_info :: "a6o_info \<Rightarrow> a6o_info_ptr" where
  "carried_info i = \<lparr>ip_antivirus_version = Some (inf_antivirus_version i), ip_global_status = inf_global_status i,
     ip_global_update_ts = inf_global_update_ts i, ip_module_infos = Some (inf_module_infos i)\<rparr>"

lemma info_exchange:
  assumes J: "json_laws (cl_json L)" "info_carried (cl_json L) info" "jrpc_marshall_struct_a6o_info (cl_json L) info = Some (Inr (Some j))"
    and connect: "unix_client_connect (cl_sockets L) (io_unix_socket_path opts) 10 w = Some (fd, w1)" "0 \<le> fd"
    and call: "wire_text (cl_json L) (jobj (cl_json L) (call_fields (cl_json L) ''status'' None 1)) msg"
      "sk_send (cl_sockets L) fd (msg @ message_end) w1 = (n, w2)" "0 \<le> n"
    and answer: "wire_text (cl_json L) (the (make_result_obj (cl_json L) (Some j) 1)) msg1"
      "sk_recv (cl_sockets L) fd 4096 w2 = (Some (msg1 @ message_end), w3)"
    and printed: "io_format_json opts = 0" "info_print (cl_calendar L) (carried_info info) = Some text"
  shows "do_info L opts w = Some (Some (Running (0, \<lparr>ic_data = \<lparr>id_done = 1, id_format_json = 0\<rparr>, ic_stdout = text,
      ic_world = snd (sk_close (cl_sockets L) fd w3)\<rparr>)))"
proof -
  let ?J = "cl_json L" and ?conn = "client_connection None (nat fd)"
  let ?s = "\<lambda>w. \<lparr>ic_data = \<lparr>id_done = 0, id_format_json = 0\<rparr>, ic_stdout = [], ic_world = w\<rparr>"
  have status: "js_utf8 ?J ''status''"
    by (rule ascii_utf8 [OF J(1)]) (simp add: ascii_def)
  obtain conn1 where c1: "connection_register_callback ?conn INFO_CB 0 = Some (1, conn1)" "connection_inv conn1"
      "pending conn1 = [1 \<mapsto> \<lparr>rce_cb = INFO_CB, rce_user_data = 0\<rparr>]" "over_socket conn1 fd"
    using register_adds [of ?conn INFO_CB 0] connect(2) by (auto simp: over_socket_def)
  have sent: "jrpc_call (info_env L) ''status'' None (Some (INFO_CB, 0)) (?conn, ?s w1) = Some (JRPC_OK, conn1, ?s w2)"
    using send_through [OF c1(4), of "info_env L" "cl_sockets L" ic_world _ _ msg "?s w1" n w2] call
    by (simp add: jrpc_call_def c1(1) make_call_obj_fields [OF J(1) status])
  obtain obj where obj: "make_result_obj ?J (Some j) 1 = Some obj"
    using two_zero_utf8 [OF J(1)] by (simp add: make_result_obj_def js_pack_eq [OF J(1)] pack_object_def pack_value_def json_rules J(1))
  have got: "connection_receive (info_env L) (conn1, ?s w2) = Some ((JRPC_OK, Some obj), conn1, ?s w3)"
    using receive_through [OF c1(4), of "info_env L" "cl_sockets L" ic_world _ obj msg1 "?s w2" w3] answer obj by simp
  have U: "json_rpc_unpack ?J (Some obj) = Inr (RESULT_RESPONSE 1 j)"
    using result_understood [OF J(1), of j 1] by (simp add: obj)
  obtain conn2 where c2: "connection_find_callback conn1 1 = Some (Some (INFO_CB, 0), conn2)"
    using find_removes [OF c1(2), of 1] c1(3) by auto
  have "jrpc_unmarshall_struct_ptr ?J (Some j) (jrpc_unmarshall_struct_a6o_info ?J) = Some (Inr (Some (carried_info info)))"
    using reads_back_ptr [OF info_reads_back [OF J(1,2)]] J(3) by (auto simp: carried_info_def)
  then have "info_cb L j (?s w3) = Some (\<lparr>ic_data = \<lparr>id_done = 1, id_format_json = 0\<rparr>, ic_stdout = text, ic_world = w3\<rparr>)"
    by (simp add: info_cb_def printed(2))
  then have "jrpc_process (info_env L) (conn1, ?s w2) = Some (JRPC_OK, conn2,
      \<lparr>ic_data = \<lparr>id_done = 1, id_format_json = 0\<rparr>, ic_stdout = text, ic_world = w3\<rparr>)"
    by (simp add: jrpc_process_def got JRPC_OK_def U connection_process_result_def c2)
  then have "process_until (info_env L) info_done (conn1, ?s w2) = Some (Some (conn2,
      \<lparr>ic_data = \<lparr>id_done = 1, id_format_json = 0\<rparr>, ic_stdout = text, ic_world = w3\<rparr>))"
    by (subst process_until.simps) (simp add: info_done_def)
  with connect sent show ?thesis
    by (simp add: do_info_def printed(1) JRPC_OK_def)
qed

text \<open>
  The daemon behind the socket: what is written goes to it, and a read for which there is nothing yet
  waits while it processes one message with the methods of theory \<open>Rpcbe\<close>.
\<close>

definition daemon_methods ::
  "('j, 'w) rpcbe_env \<Rightarrow> nat \<Rightarrow> nat \<Rightarrow> 'j option \<Rightarrow> a6o_event_source \<times> 'w rpcbe \<Rightarrow> (int \<times> 'j option) \<times> a6o_event_source \<times> 'w rpcbe" where
  "daemon_methods env c f params st = (case rpcbe_method env f c params st of Some r \<Rightarrow> r | None \<Rightarrow> ((1, None), st))"

definition daemon_sockets ::
  "'j jansson \<Rightarrow> (nat \<Rightarrow> 'j option \<Rightarrow> 'a \<Rightarrow> (int \<times> 'j option) \<times> 'a) \<Rightarrow> jrpc_connection \<Rightarrow> 'a wire socket_os" where
  "daemon_sockets J methods sc =
    \<lparr>sk_socket = (\<lambda>w. (3, w)), sk_unlink = (\<lambda>_ w. w), sk_bind = (\<lambda>_ _ w. (0, w)), sk_listen = (\<lambda>_ _ w. (0, w)),
     sk_chmod = (\<lambda>_ _ w. (0, w)), sk_connect = (\<lambda>_ _ w. (0, w)), sk_accept = (\<lambda>_ w. (4, w)),
     sk_send = (\<lambda>_ msg w. (int (length msg), w\<lparr>to_server := to_server w @ msg\<rparr>)),
     sk_recv = (\<lambda>_ n w.
       let w1 = (if to_client w = [] then (case jrpc_process (server_env J methods) (sc, w) of Some (_, _, w1) \<Rightarrow> w1 | None \<Rightarrow> w) else w)
       in (Some (take n (to_client w1)), w1\<lparr>to_client := drop n (to_client w1)\<rparr>)),
     sk_close = (\<lambda>_ w. (0, w))\<rparr>"

lemma connects_to_daemon:
  "length path < UNIX_PATH_MAX \<Longrightarrow> unix_client_connect (daemon_sockets J methods sc) path n w = Some (3, w)"
  by (simp add: unix_client_connect_def daemon_sockets_def connect_loop.simps Let_def)

text \<open>
  the info tool and the daemon. The tool connects, calls \<open>status\<close>, and ends after it has printed the
  report that the daemon put together: the version and the modules in order, with the worst status and
  the latest update, as they were sent through JSON.
\<close>

theorem info_tool_prints_status:
  assumes "json_laws (cl_json L)" "je_json (re_jrpc env) = cl_json L"
    and "create_rpcbe_mapper = Some mp" "jc_mapper sc = Some mp" "connected sc"
    and "cl_sockets L = daemon_sockets (cl_json L) (daemon_methods env c) sc"
    and "length (io_unix_socket_path opts) < UNIX_PATH_MAX" "io_format_json opts = 0"
    and "a6o_info_new (re_version env) (re_mm env) (rb_world rb) = (info, w1)" "info_carried (cl_json L) info"
    and "info_print (cl_calendar L) (carried_info info) = Some text"
    and "wire_text (cl_json L) (jobj (cl_json L) (call_fields (cl_json L) ''status'' None 1)) msg"
    and "jrpc_marshall_struct_a6o_info (cl_json L) info = Some (Inr (Some j))"
    and "wire_text (cl_json L) (the (make_result_obj (cl_json L) (Some j) 1)) msg1"
  shows "do_info L opts \<lparr>to_server = [], to_client = [], wr_app = (src, rb)\<rparr> = Some (Some (Running (0,
    \<lparr>ic_data = \<lparr>id_done = 1, id_format_json = 0\<rparr>, ic_stdout = text,
     ic_world = \<lparr>to_server = [], to_client = [], wr_app = (src, rb\<lparr>rb_world := w1\<rparr>)\<rparr>\<rparr>)))"
proof -
  let ?J = "cl_json L" and ?m = "daemon_methods env c" and ?rb1 = "rb\<lparr>rb_world := w1\<rparr>"
  let ?w2 = "\<lparr>to_server = msg @ message_end, to_client = [], wr_app = (src, rb)\<rparr>"
  let ?w3 = "\<lparr>to_server = [], to_client = msg1 @ message_end, wr_app = (src, ?rb1)\<rparr>"
  have status: "js_utf8 ?J ''status''"
    by (rule ascii_utf8 [OF assms(1)]) (simp add: ascii_def)
  have find: "jrpc_mapper_find mp ''status'' = Some (Some 2)"
    using rpcbe_mapper unfolding assms(3) by auto
  have meth: "?m 2 None (wr_app ?w2) = ((0, Some j), src, ?rb1)"
    by (simp add: daemon_methods_def rpcbe_method_def status_method_def assms(2,9,13) JRPC_OK_def)
  have served: "jrpc_process (server_env ?J ?m) (sc, ?w2) = Some (JRPC_OK, sc, ?w3)"
    using server_answers [OF assms(1) status _ _ assms(5,4) find assms(12), of ?w2 "[]" ?m "Some j" _ msg1] meth assms(14)
    by (simp add: wire_text_drop [OF assms(12)] del: drop_append)
  have long: "length (msg1 @ message_end) \<le> 4096"
    using assms(14) by (simp add: wire_text_def DEFAULT_INPUT_BUFFER_SIZE_def message_end_def)
  have sent: "sk_send (cl_sockets L) 3 (msg @ message_end) \<lparr>to_server = [], to_client = [], wr_app = (src, rb)\<rparr>
      = (int (length (msg @ message_end)), ?w2)"
    by (simp add: assms(6) daemon_sockets_def)
  have read: "sk_recv (cl_sockets L) 3 4096 ?w2 = (Some (msg1 @ message_end), ?w3\<lparr>to_client := []\<rparr>)"
    using long served by (simp add: assms(6) daemon_sockets_def)
  have con: "unix_client_connect (cl_sockets L) (io_unix_socket_path opts) 10 \<lparr>to_server = [], to_client = [], wr_app = (src, rb)\<rparr>
      = Some (3, \<lparr>to_server = [], to_client = [], wr_app = (src, rb)\<rparr>)"
    unfolding assms(6) by (rule connects_to_daemon [OF assms(7)])
  from info_exchange [OF assms(1,10,13) con _ assms(12) sent _ assms(14) read assms(8,11)] show ?thesis
    by (simp add: assms(6)) (simp add: daemon_sockets_def)
qed

text \<open>
  an error answer does not end the tool: without an error handler it is dropped, and the tool waits
  for another message with nothing printed and nothing done.
\<close>

theorem info_tool_ignores_error:
  assumes "json_laws (cl_json L)" "js_utf8 (cl_json L) message" "is_int32 code"
    and "over_socket conn fd" "jc_error_handler conn = None" "\<not> info_done s"
    and "wire_text (cl_json L) (the (make_error_obj (cl_json L) code message None 1)) msg"
    and "make_error_obj (cl_json L) code message None 1 \<noteq> None"
    and "sk_recv (cl_sockets L) fd 4096 (ic_world s) = (Some (msg @ message_end), w1)"
  shows "process_until (info_env L) info_done (conn, s) = process_until (info_env L) info_done (conn, s\<lparr>ic_world := w1\<rparr>)"
proof -
  obtain obj where obj: "make_error_obj (cl_json L) code message None 1 = Some obj"
    using assms(8) by blast
  have "connection_receive (info_env L) (conn, s) = Some ((JRPC_OK, Some obj), conn, s\<lparr>ic_world := w1\<rparr>)"
    using receive_through [OF assms(4), of "info_env L" "cl_sockets L" ic_world _ obj msg s w1] assms(7,9) obj by simp
  moreover have "json_rpc_unpack (cl_json L) (Some obj) = Inr (ERROR_RESPONSE 1 code message None)"
    using error_understood [OF assms(1-3), of 1] by (simp add: obj)
  ultimately have "jrpc_process (info_env L) (conn, s) = Some (JRPC_OK, conn, s\<lparr>ic_world := w1\<rparr>)"
    by (simp add: jrpc_process_def JRPC_OK_def connection_process_error_def jrpc_connection_get_error_handler_def assms(5))
  moreover have "JRPC_OK \<noteq> JRPC_EOF" "\<not> info_done (s\<lparr>ic_world := w1\<rparr>)"
    using assms(6) by (simp_all add: JRPC_OK_def JRPC_EOF_def info_done_def)
  ultimately show ?thesis
    by (subst process_until.simps) simp
qed

section \<open>The scan tool prints what the scan finds\<close>

lemma scan_env_fields [simp]:
  "je_json (scan_env L) = cl_json L" "je_read (scan_env L) = read_through (cl_sockets L) sn_world (\<lambda>w s. s\<lparr>sn_world := w\<rparr>)"
  "je_write (scan_env L) = write_through (cl_sockets L) sn_world (\<lambda>w s. s\<lparr>sn_world := w\<rparr>)"
  "je_method (scan_env L) f params (conn, s) = (if f = NOTIFY_EVENT_METHOD
     then map_option (\<lambda>(ret, s1). ((ret, None), conn, s1)) (notify_event_method L params s) else None)"
  by (simp_all add: scan_env_def)

lemma rpcfe_mapper: "\<exists>mp. create_rpcfe_mapper = Some mp \<and> jrpc_mapper_find mp ''notify_event'' = Some (Some NOTIFY_EVENT_METHOD)"
proof -
  have new: "mp_method_table jrpc_mapper_new = hash_table_new HASH_KEY_STR True False"
      "ht_size (hash_table_new HASH_KEY_STR True False :: nat hash_table) = HASH_DEFAULT_SIZE"
    by (simp_all add: jrpc_mapper_new_def hash_table_new_def)
  obtain m1 where m1: "jrpc_mapper_add jrpc_mapper_new ''notify_event'' NOTIFY_EVENT_METHOD = Some (0, m1)" "filled (mp_method_table m1)"
      "ht_type (mp_method_table m1) = HASH_KEY_STR" "ht_map (mp_method_table m1) = [HStr ''notify_event'' \<mapsto> Some NOTIFY_EVENT_METHOD]"
    using mapper_adds [of jrpc_mapper_new "''notify_event''" NOTIFY_EVENT_METHOD] by (auto simp: new filled_new hash_table_new_map)
  have "tinv (mp_method_table m1)"
    using m1(2) by (simp add: filled_def hash_table_inv_def)
  then have "jrpc_mapper_find m1 ''notify_event'' = Some (Some NOTIFY_EVENT_METHOD)"
    using search_map [of "mp_method_table m1" "HStr ''notify_event''"] m1(3,4) by (simp add: jrpc_mapper_find_def NULL_key_def)
  with m1(1) show ?thesis
    by (simp add: create_rpcfe_mapper_def)
qed

text \<open>The message of an event as the daemon writes it, and what the tool does with the event.\<close>

definition event_message :: "'j jansson \<Rightarrow> a6o_event \<Rightarrow> 'j \<Rightarrow> string \<Rightarrow> bool" where
  "event_message J ev j msg \<longleftrightarrow> event_carried J ev \<and> jrpc_marshall_struct_a6o_event J ev = Some (Inr (Some j))
    \<and> wire_text J (jobj J (call_fields J ''notify_event'' (Some j) 0)) msg"

definition shown :: "('j, 'w) client_lib \<Rightarrow> scan_data \<Rightarrow> a6o_event \<times> 'j \<Rightarrow> string" where
  "shown L d e = (case e of (ev, j) \<Rightarrow> (case ev_u ev of
       Ev_detection e \<Rightarrow> if ctrue (sc_format_json d) then event_print_json L j else detection_event_print e
     | Ev_on_demand_completed e \<Rightarrow>
         if ctrue (sc_no_summary d) then []
         else if ctrue (sc_format_json d) then event_print_json L j else on_demand_completed_event_print e
     | _ \<Rightarrow> []))"

definition ends_scan :: "a6o_event \<Rightarrow> bool" where
  "ends_scan ev \<longleftrightarrow> ev_type (ev_u ev) = EVENT_ON_DEMAND_COMPLETED"

lemma event_processed:
  assumes J: "json_laws (cl_json L)" and m: "event_message (cl_json L) ev j msg"
    and conn: "over_socket conn fd" "jc_mapper conn = Some mp" "jrpc_mapper_find mp ''notify_event'' = Some (Some NOTIFY_EVENT_METHOD)"
    and r: "sk_recv (cl_sockets L) fd 4096 (sn_world s) = (Some (msg @ message_end), w1)"
  shows "jrpc_process (scan_env L) (conn, s) = Some (JRPC_OK, conn,
    \<lparr>sn_data = (sn_data s)\<lparr>sc_done := if ends_scan ev then 1 else sc_done (sn_data s)\<rparr>,
     sn_stdout = sn_stdout s @ shown L (sn_data s) (ev, j), sn_world = w1\<rparr>)"
proof -
  let ?J = "cl_json L" and ?s1 = "s\<lparr>sn_world := w1\<rparr>"
  have ev: "event_carried ?J ev" "jrpc_marshall_struct_a6o_event ?J ev = Some (Inr (Some j))"
      "wire_text ?J (jobj ?J (call_fields ?J ''notify_event'' (Some j) 0)) msg"
    using m by (simp_all add: event_message_def)
  have name: "js_utf8 ?J ''notify_event''"
    by (rule ascii_utf8 [OF J]) (simp add: ascii_def)
  have got: "connection_receive (scan_env L) (conn, s)
      = Some ((JRPC_OK, make_call_obj ?J ''notify_event'' (Some j) 0), conn, ?s1)"
    using receive_through [OF conn(1), of "scan_env L" "cl_sockets L" sn_world _ _ msg s w1] ev(3) r
    by (simp add: make_call_obj_fields [OF J name])
  have U: "json_rpc_unpack ?J (make_call_obj ?J ''notify_event'' (Some j) 0) = Inr (REQUEST ''notify_event'' 0 (Some j))"
    by (rule request_understood [OF J name]) simp
  have "jrpc_unmarshall_struct_ptr ?J (Some j) (jrpc_unmarshall_struct_a6o_event ?J) = Some (Inr (Some ev))"
    using reads_back_ptr [OF event_reads_back [OF J ev(1)]] ev(2) by auto
  then have "notify_event_method L (Some j) ?s1 = Some (JRPC_OK,
      \<lparr>sn_data = (sn_data s)\<lparr>sc_done := if ends_scan ev then 1 else sc_done (sn_data s)\<rparr>,
       sn_stdout = sn_stdout s @ shown L (sn_data s) (ev, j), sn_world = w1\<rparr>)"
    by (cases "ev_u ev") (simp_all add: notify_event_method_def shown_def ends_scan_def ev_type_def event_type_defs put_stdout_def Let_def)
  then show ?thesis
    by (simp add: jrpc_process_def got U connection_process_request_def connection_get_mapper_def conn(2,3) JRPC_OK_def)
qed

fun receives :: "'w socket_os \<Rightarrow> int \<Rightarrow> string list \<Rightarrow> 'w \<Rightarrow> 'w option" where
  "receives os fd [] w = Some w"
| "receives os fd (msg # msgs) w = (case sk_recv os fd 4096 w of (r, w1) \<Rightarrow>
     if r = Some (msg @ message_end) then receives os fd msgs w1 else None)"

lemma events_processed:
  assumes J: "json_laws (cl_json L)"
    and conn: "over_socket conn fd" "jc_mapper conn = Some mp" "jrpc_mapper_find mp ''notify_event'' = Some (Some NOTIFY_EVENT_METHOD)"
    and last: "ends_scan evn" "event_message (cl_json L) evn jn msgn"
  shows "list_all2 (\<lambda>(ev, j) msg. event_message (cl_json L) ev j msg \<and> \<not> ends_scan ev) es msgs
    \<Longrightarrow> receives (cl_sockets L) fd (msgs @ [msgn]) (sn_world s) = Some w1 \<Longrightarrow> \<not> scan_done s
    \<Longrightarrow> process_until (scan_env L) scan_done (conn, s) = Some (Some (conn,
        \<lparr>sn_data = (sn_data s)\<lparr>sc_done := 1\<rparr>, sn_stdout = sn_stdout s @ concat (map (shown L (sn_data s)) (es @ [(evn, jn)])), sn_world = w1\<rparr>))"
proof (induction es arbitrary: msgs s)
  case Nil
  then have "sk_recv (cl_sockets L) fd 4096 (sn_world s) = (Some (msgn @ message_end), w1)"
    by (auto split: prod.splits if_splits)
  from event_processed [OF J last(2) conn this] last(1) show ?case
    by (subst process_until.simps) (simp add: scan_done_def)
next
  case (Cons e es)
  obtain ev j where e: "e = (ev, j)"
    by force
  obtain msg msgs' w2 where m: "msgs = msg # msgs'" "event_message (cl_json L) ev j msg" "\<not> ends_scan ev"
      "list_all2 (\<lambda>(ev, j) msg. event_message (cl_json L) ev j msg \<and> \<not> ends_scan ev) es msgs'"
      "sk_recv (cl_sockets L) fd 4096 (sn_world s) = (Some (msg @ message_end), w2)"
      "receives (cl_sockets L) fd (msgs' @ [msgn]) w2 = Some w1"
    using Cons.prems(1,2) e by (cases msgs) (auto split: prod.splits if_splits)
  let ?s1 = "\<lparr>sn_data = sn_data s, sn_stdout = sn_stdout s @ shown L (sn_data s) (ev, j), sn_world = w2\<rparr>"
  have p: "jrpc_process (scan_env L) (conn, s) = Some (JRPC_OK, conn, ?s1)"
    using event_processed [OF J m(2) conn m(5)] m(3) by simp
  have "\<not> scan_done ?s1"
    using Cons.prems(3) by (simp add: scan_done_def)
  with p have "process_until (scan_env L) scan_done (conn, s) = process_until (scan_env L) scan_done (conn, ?s1)"
    by (subst process_until.simps) (simp add: JRPC_OK_def JRPC_EOF_def)
  with Cons.IH [of msgs' ?s1] m(4,6) \<open>\<not> scan_done ?s1\<close> show ?case
    by (simp add: e)
qed

text \<open>
  the scan tool. When the daemon takes the call and then sends events, the last of which is the end of
  the scan, the tool prints each detection in order and the summary, whichever format was asked for,
  closes its socket and ends; progress and other events print nothing.
\<close>

theorem scan_tool_prints_events:
  assumes "json_laws (cl_json L)" "unix_client_connect (cl_sockets L) (so_unix_socket_path opts) 10 w = Some (fd, w1)" "0 \<le> fd"
    and "jrpc_marshall_struct_a6o_rpc_scan_param (cl_json L) \<lparr>sp_root_path = so_path_to_scan opts, sp_send_progress = 1,
           sp_recursive = so_recursive opts, sp_threaded = so_threaded opts, sp_scan_id = uint scan_id\<rparr> = Some (Inr (Some j_param))"
    and "wire_text (cl_json L) (jobj (cl_json L) (call_fields (cl_json L) ''scan'' (Some j_param) 0)) msg"
    and "sk_send (cl_sockets L) fd (msg @ message_end) w1 = (n, w2)" "0 \<le> n"
    and "list_all2 (\<lambda>(ev, j) msg. event_message (cl_json L) ev j msg \<and> \<not> ends_scan ev) es msgs"
    and "ends_scan evn" "event_message (cl_json L) evn jn msgn"
    and "receives (cl_sockets L) fd (msgs @ [msgn]) w2 = Some w3"
  shows "\<exists>d. do_scan L scan_id opts w = Some (Some (Running (0, \<lparr>sn_data = d\<lparr>sc_done := 1\<rparr>,
      sn_stdout = concat (map (shown L d) (es @ [(evn, jn)])), sn_world = snd (sk_close (cl_sockets L) fd w3)\<rparr>)))
    \<and> d = \<lparr>sc_done = 0, sc_format_json = so_format_json opts, sc_no_summary = so_no_summary opts\<rparr>"
proof -
  obtain mp where mp: "create_rpcfe_mapper = Some mp" "jrpc_mapper_find mp ''notify_event'' = Some (Some NOTIFY_EVENT_METHOD)"
    using rpcfe_mapper by blast
  let ?d = "\<lparr>sc_done = 0, sc_format_json = so_format_json opts, sc_no_summary = so_no_summary opts\<rparr>"
  let ?conn = "client_connection (Some mp) (nat fd)" and ?s = "\<lambda>w. \<lparr>sn_data = ?d, sn_stdout = [], sn_world = w\<rparr>"
  have conn: "over_socket ?conn fd" "jc_mapper ?conn = Some mp"
    using assms(3) by (simp_all add: over_socket_def)
  have scan: "js_utf8 (cl_json L) ''scan''"
    by (rule ascii_utf8 [OF assms(1)]) (simp add: ascii_def)
  have sent: "jrpc_call (scan_env L) ''scan'' (Some j_param) None (?conn, ?s w1) = Some (JRPC_OK, ?conn, ?s w2)"
    using send_through [OF conn(1), of "scan_env L" "cl_sockets L" sn_world _ _ msg "?s w1" n w2] assms(5-7)
    by (simp add: jrpc_call_def make_call_obj_fields [OF assms(1) scan])
  have "process_until (scan_env L) scan_done (?conn, ?s w2) = Some (Some (?conn,
      \<lparr>sn_data = ?d\<lparr>sc_done := 1\<rparr>, sn_stdout = concat (map (shown L ?d) (es @ [(evn, jn)])), sn_world = w3\<rparr>))"
    using events_processed [OF assms(1) conn mp(2) assms(9,10,8), of "?s w2" w3] assms(11) by (simp add: scan_done_def)
  with assms(2-4) sent show ?thesis
    unfolding do_scan_def mp(1) by (simp add: Let_def JRPC_OK_def)
qed

text \<open>an event that is the JSON null is dereferenced.\<close>

theorem null_event_faults:
  assumes "json_is (cl_json L) JSON_NULL (Some j)"
  shows "notify_event_method L (Some j) s = None"
  using assms by (simp add: notify_event_method_def jrpc_unmarshall_struct_ptr_def)

text \<open>the option \<open>-v\<close>, which the string given to \<open>getopt_long\<close> has and the \<open>switch\<close> has not, aborts both tools.\<close>

theorem option_v_aborts:
  assumes "info_parse_options socket_path args operands = Some (Running opts)"
  shows "info_parse_options socket_path (args @ (CHR ''v'', None) # rest) operands = None"
proof -
  have append: "option_loop f as opts = Some (Running opts1) \<Longrightarrow> option_loop f (as @ bs) opts = option_loop f bs opts1"
    for f as bs and opts opts1 :: info_options
    by (induction as arbitrary: opts) (auto split: option.splits process.splits)
  have "option_loop info_parse_option args \<lparr>io_unix_socket_path = socket_path, io_format_json = 0\<rparr> = Some (Running opts)"
    using assms by (auto simp: info_parse_options_def split: option.splits process.splits if_splits)
  from append [OF this] show ?thesis
    by (simp add: info_parse_options_def info_parse_option_def)
qed

section \<open>Examples\<close>

text \<open>A library that writes the values of a table as single letters.\<close>

definition coded_json :: "(json \<times> char) list \<Rightarrow> json jansson" where
  "coded_json t = json_tree\<lparr>js_dump := (\<lambda>j. Option.bind j (\<lambda>v. map_option (\<lambda>c. [[c]]) (map_of t v))),
     js_loadb := (\<lambda>s. case s of [] \<Rightarrow> None | c # _ \<Rightarrow> map_of (map prod.swap t) c)\<rparr>"

lemma coded_json_laws: "json_laws (coded_json t)"
  using json_tree_laws
  unfolding json_laws_def coded_json_def pack_object_update unpack_fields_update
  by (simp add: object_laws_def array_laws_def scalar_laws_def)

lemma coded_wire_text: "map_of t v = Some c \<Longrightarrow> map_of (map prod.swap t) c = Some v \<Longrightarrow> wire_text (coded_json t) v [c]"
  by (simp add: wire_text_def dumps_to_def coded_json_def DEFAULT_INPUT_BUFFER_SIZE_def)

lemma coded_call: "jobj (coded_json t) (call_fields (coded_json t) method params rid) = jobj json_tree (call_fields json_tree method params rid)"
  by (simp add: jobj_def call_fields_def jstr_def coded_json_def)

lemma coded_result: "make_result_obj (coded_json t) result rid = make_result_obj json_tree result rid"
  unfolding make_result_obj_def js_pack_eq [OF coded_json_laws] js_pack_eq [OF json_tree_laws]
  by (simp add: coded_json_def pack_object_update)

definition empty_report :: a6o_info where
  "empty_report = \<lparr>inf_antivirus_version = ''0.12'', inf_global_status = A6O_UPDATE_NON_AVAILABLE, inf_global_update_ts = 0, inf_module_infos = []\<rparr>"

definition report_json :: json where
  "report_json = JObject [(''module_infos'', JArray []), (''global_update_ts'', JInteger 0),
     (''global_status'', JString ''A6O_UPDATE_NON_AVAILABLE''), (''antivirus_version'', JString ''0.12'')]"

definition info_table :: "(json \<times> char) list" where
  "info_table = [(jobj json_tree (call_fields json_tree ''status'' None 1), CHR ''c''),
     (the (make_result_obj json_tree (Some report_json) 1), CHR ''r'')]"

lemma info_table_json:
  "jobj json_tree (call_fields json_tree ''status'' None 1)
    = JObject [(''id'', JInteger 1), (''method'', JString ''status''), (''jsonrpc'', JString ''2.0'')]"
  "the (make_result_obj json_tree (Some report_json) 1) = JObject [(''id'', JInteger 1), (''result'', report_json), (''jsonrpc'', JString ''2.0'')]"
proof -
  have i: "int_of_id 1 = 1"
    by (simp add: int_of_id_def)
  show "jobj json_tree (call_fields json_tree ''status'' None 1)
    = JObject [(''id'', JInteger 1), (''method'', JString ''status''), (''jsonrpc'', JString ''2.0'')]"
    by (simp add: jobj_def call_fields_def jstr_def i)
  show "the (make_result_obj json_tree (Some report_json) 1) = JObject [(''id'', JInteger 1), (''result'', report_json), (''jsonrpc'', JString ''2.0'')]"
    unfolding make_result_obj_def js_pack_eq [OF json_tree_laws] by (simp add: pack_object_def pack_value_def i)
qed

definition info_lib :: "'w socket_os \<Rightarrow> (json, 'w) client_lib" where
  "info_lib os = \<lparr>cl_sockets = os, cl_json = coded_json info_table, cl_dumpf = (\<lambda>_. ''{}''),
     cl_calendar = (\<lambda>_. Some ''1970-01-01T00:00:00Z'')\<rparr>"

definition report_env :: "(json, nat \<Rightarrow> string list) rpcbe_env" where
  "report_env = \<lparr>re_jrpc = outbox_env (coded_json info_table), re_version = ''0.12'', re_mm = \<lparr>mm_modules = []\<rparr>, re_realpath = (\<lambda>p. None)\<rparr>"

theorem info_tool_prints_status_witness:
  "\<exists>mp L. create_rpcbe_mapper = Some mp
    \<and> do_info (L :: (json, (a6o_event_source \<times> (nat \<Rightarrow> string list) rpcbe) wire) client_lib)
        \<lparr>io_unix_socket_path = ''/tmp/.armadito'', io_format_json = 0\<rparr>
        \<lparr>to_server = [], to_client = [], wr_app = (a6o_event_source_new, sample_rpcbe)\<rparr>
      = Some (Some (Running (0, \<lparr>ic_data = \<lparr>id_done = 1, id_format_json = 0\<rparr>,
          ic_stdout = ''--- Armadito info --- '' @ newline @ ''antivirus version: 0.12'' @ newline
            @ ''global status : '' @ a6o_update_status_str A6O_UPDATE_NON_AVAILABLE @ newline @ ''global update date : 1970-01-01T00:00:00Z'' @ newline,
          ic_world = \<lparr>to_server = [], to_client = [], wr_app = (a6o_event_source_new, sample_rpcbe)\<rparr>\<rparr>)))"
proof -
  obtain mp where mp: "create_rpcbe_mapper = Some mp"
    using rpcbe_mapper by blast
  let ?sc = "client_connection (Some mp) 4"
  let ?L = "info_lib (daemon_sockets (coded_json info_table) (daemon_methods report_env 0) ?sc)"
  have L: "cl_json ?L = coded_json info_table" "je_json (re_jrpc report_env) = coded_json info_table" "connected ?sc" "jc_mapper ?sc = Some mp"
    "cl_sockets ?L = daemon_sockets (coded_json info_table) (daemon_methods report_env 0) ?sc"
    by (simp_all add: info_lib_def report_env_def outbox_env_def connected_def)
  have i: "a6o_info_new (re_version report_env) (re_mm report_env) (rb_world sample_rpcbe) = (empty_report, rb_world sample_rpcbe)"
    by (simp add: report_env_def a6o_info_new_def empty_report_def)
  have c: "info_carried (coded_json info_table) empty_report"
    by (simp add: info_carried_def is_int64_def empty_report_def coded_json_def)
  have t: "info_print (cl_calendar ?L) (carried_info empty_report) = Some (''--- Armadito info --- '' @ newline @ ''antivirus version: 0.12'' @ newline
            @ ''global status : '' @ a6o_update_status_str A6O_UPDATE_NON_AVAILABLE @ newline @ ''global update date : 1970-01-01T00:00:00Z'' @ newline)"
    by (simp add: info_print_def time_2_date_def date_size_def carried_info_def empty_report_def info_lib_def format_s_def)
  have distinct: "jobj json_tree (call_fields json_tree ''status'' None 1) \<noteq> the (make_result_obj json_tree (Some report_json) 1)"
    by (simp add: info_table_json)
  have w: "wire_text (coded_json info_table) (jobj (coded_json info_table) (call_fields (coded_json info_table) ''status'' None 1)) ''c''"
    "wire_text (coded_json info_table) (the (make_result_obj (coded_json info_table) (Some report_json) 1)) ''r''"
    unfolding coded_call coded_result using distinct by (auto intro!: coded_wire_text simp: info_table_def)
  have m: "jrpc_marshall_struct_a6o_info (coded_json info_table) empty_report = Some (Inr (Some report_json))"
    by (simp add: jrpc_marshall_struct_a6o_info_def MARSHALL_STRUCT_def enum_defs MARSHALL_STRING_def MARSHALL_INT_def
        MARSHALL_ENUM_def jrpc_marshall_array_def coded_json_def empty_report_def report_json_def to_int64_id is_int64_def)
  let ?opts = "\<lparr>io_unix_socket_path = ''/tmp/.armadito'', io_format_json = 0\<rparr>"
  have opts: "length (io_unix_socket_path ?opts) < UNIX_PATH_MAX" "io_format_json ?opts = 0"
    by (simp_all add: UNIX_PATH_MAX_def)
  from info_tool_prints_status [of ?L report_env, unfolded L(1), OF coded_json_laws L(2) mp L(4,3,5) opts i c t w(1) m w(2), of a6o_event_source_new]
  have "do_info ?L ?opts \<lparr>to_server = [], to_client = [], wr_app = (a6o_event_source_new, sample_rpcbe)\<rparr>
      = Some (Some (Running (0, \<lparr>ic_data = \<lparr>id_done = 1, id_format_json = 0\<rparr>,
          ic_stdout = ''--- Armadito info --- '' @ newline @ ''antivirus version: 0.12'' @ newline
            @ ''global status : '' @ a6o_update_status_str A6O_UPDATE_NON_AVAILABLE @ newline @ ''global update date : 1970-01-01T00:00:00Z'' @ newline,
          ic_world = \<lparr>to_server = [], to_client = [], wr_app = (a6o_event_source_new, sample_rpcbe)\<rparr>\<rparr>)))"
    by simp
  with mp show ?thesis
    by blast
qed

text \<open>Sockets whose world is the list of the messages that are still to be read.\<close>

definition script_sockets :: "string list socket_os" where
  "script_sockets =
    \<lparr>sk_socket = (\<lambda>w. (3, w)), sk_unlink = (\<lambda>_ w. w), sk_bind = (\<lambda>_ _ w. (0, w)), sk_listen = (\<lambda>_ _ w. (0, w)),
     sk_chmod = (\<lambda>_ _ w. (0, w)), sk_connect = (\<lambda>_ _ w. (0, w)), sk_accept = (\<lambda>_ w. (4, w)),
     sk_send = (\<lambda>_ msg w. (int (length msg), w)),
     sk_recv = (\<lambda>_ n w. case w of [] \<Rightarrow> (Some [], w) | m # ms \<Rightarrow> (Some m, ms)), sk_close = (\<lambda>_ w. (0, w))\<rparr>"

lemma script_connects: "length path < UNIX_PATH_MAX \<Longrightarrow> unix_client_connect script_sockets path n w = Some (3, w)"
  by (simp add: unix_client_connect_def script_sockets_def connect_loop.simps Let_def)

definition refused_json :: json where
  "refused_json = the (make_error_obj json_tree JRPC_ERR_METHOD_NOT_FOUND ''method was not found'' None 1)"

theorem info_tool_ignores_error_witness:
  "\<exists>L :: (json, string list) client_lib. \<forall>rest.
    process_until (info_env L) info_done (client_connection None 3,
        \<lparr>ic_data = \<lparr>id_done = 0, id_format_json = 0\<rparr>, ic_stdout = [], ic_world = (''e'' @ message_end) # rest\<rparr>)
    = process_until (info_env L) info_done (client_connection None 3,
        \<lparr>ic_data = \<lparr>id_done = 0, id_format_json = 0\<rparr>, ic_stdout = [], ic_world = rest\<rparr>)"
proof -
  let ?J = "coded_json [(refused_json, CHR ''e'')]"
  let ?L = "\<lparr>cl_sockets = script_sockets, cl_json = ?J, cl_dumpf = (\<lambda>_. []), cl_calendar = (\<lambda>_. None)\<rparr> :: (json, string list) client_lib"
  have p: "js_pack ?J fmt = js_pack json_tree fmt" for fmt
    unfolding js_pack_eq [OF coded_json_laws] js_pack_eq [OF json_tree_laws] by (simp add: coded_json_def pack_object_update)
  have e: "make_error_obj ?J code m None 1 = make_error_obj json_tree code m None 1" for code m
    by (simp add: make_error_obj_def p) (simp add: coded_json_def)
  have some: "make_error_obj json_tree JRPC_ERR_METHOD_NOT_FOUND ''method was not found'' None 1 \<noteq> None"
    unfolding make_error_obj_def js_pack_eq [OF json_tree_laws] by (simp add: pack_object_def pack_value_def ascii_utf8 [OF json_tree_laws] ascii_def)
  have w: "wire_text ?J (the (make_error_obj ?J JRPC_ERR_METHOD_NOT_FOUND ''method was not found'' None 1)) ''e''"
    unfolding e by (rule coded_wire_text) (simp_all add: refused_json_def)
  have a: "over_socket (client_connection None 3) 3" "jc_error_handler (client_connection None 3) = None"
    "is_int32 JRPC_ERR_METHOD_NOT_FOUND" "js_utf8 ?J ''method was not found''"
    by (simp_all add: over_socket_def is_int32_def JRPC_ERR_METHOD_NOT_FOUND_def ascii_utf8 [OF coded_json_laws] ascii_def)
  have "process_until (info_env ?L) info_done (client_connection None 3,
        \<lparr>ic_data = \<lparr>id_done = 0, id_format_json = 0\<rparr>, ic_stdout = [], ic_world = (''e'' @ message_end) # rest\<rparr>)
    = process_until (info_env ?L) info_done (client_connection None 3,
        \<lparr>ic_data = \<lparr>id_done = 0, id_format_json = 0\<rparr>, ic_stdout = [], ic_world = rest\<rparr>)" for rest
    using info_tool_ignores_error [of ?L "''method was not found''" JRPC_ERR_METHOD_NOT_FOUND "client_connection None 3" 3
        "\<lparr>ic_data = \<lparr>id_done = 0, id_format_json = 0\<rparr>, ic_stdout = [], ic_world = (''e'' @ message_end) # rest\<rparr>" "''e''" rest]
      coded_json_laws a w some e by (simp add: info_done_def script_sockets_def)
  then show ?thesis
    by blast
qed

definition finished_event :: a6o_event where
  "finished_event = \<lparr>ev_timestamp = 1460000001, ev_u = Ev_on_demand_completed \<lparr>cmpl_scan_id = 7, cmpl_cancelled = 0,
     cmpl_total_malware_count = 1, cmpl_total_suspicious_count = 0, cmpl_total_scanned_count = 3, cmpl_duration = 1250\<rparr>\<rparr>"

definition event_json :: "a6o_event \<Rightarrow> json" where
  "event_json ev = (case jrpc_marshall_struct_a6o_event json_tree ev of Some (Inr (Some j)) \<Rightarrow> j | _ \<Rightarrow> JNull)"

definition event_call :: "a6o_event \<Rightarrow> json" where
  "event_call ev = jobj json_tree (call_fields json_tree ''notify_event'' (Some (event_json ev)) 0)"

definition scan_param_json :: json where
  "scan_param_json = JObject [(''scan_id'', JInteger 7), (''threaded'', JInteger 0), (''recursive'', JInteger 1),
     (''send_progress'', JInteger 1), (''root_path'', JString ''/srv'')]"

definition scan_table :: "(json \<times> char) list" where
  "scan_table = [(jobj json_tree (call_fields json_tree ''scan'' (Some scan_param_json) 0), CHR ''c''),
     (event_call sample_event, CHR ''d''), (event_call finished_event, CHR ''f'')]"


lemma coded_same:
  "js_object (coded_json t) = js_object json_tree" "js_object_set (coded_json t) = js_object_set json_tree"
  "js_string (coded_json t) = js_string json_tree" "js_integer (coded_json t) = js_integer json_tree"
  "js_null (coded_json t) = js_null json_tree"
  by (simp_all add: coded_json_def)

lemma marshall_fields_coded: "marshall_fields (coded_json t) obj flds = marshall_fields json_tree obj flds"
  by (induction json_tree obj flds rule: marshall_fields.induct)
    (simp_all add: coded_same marshall_fields.simps split: option.split sum.split)

lemma marshall_coded:
  "MARSHALL_STRUCT (coded_json t) flds = MARSHALL_STRUCT json_tree flds" "MARSHALL_INT (coded_json t) n = MARSHALL_INT json_tree n"
  "MARSHALL_STRING (coded_json t) s = MARSHALL_STRING json_tree s" "MARSHALL_ENUM (coded_json t) tab v = MARSHALL_ENUM json_tree tab v"
  by (simp_all only: MARSHALL_STRUCT_def marshall_fields_coded MARSHALL_INT_def MARSHALL_STRING_def MARSHALL_ENUM_def coded_same)

lemma event_coded: "jrpc_marshall_struct_a6o_event (coded_json t) ev = jrpc_marshall_struct_a6o_event json_tree ev"
  by (cases "ev_u ev") (simp_all add: jrpc_marshall_struct_a6o_event_def jrpc_marshall_union_a6o_event_union_def marshall_coded
      jrpc_marshall_struct_a6o_detection_event_def jrpc_marshall_struct_a6o_on_demand_start_event_def
      jrpc_marshall_struct_a6o_on_demand_completed_event_def jrpc_marshall_struct_a6o_on_demand_progress_event_def
      jrpc_marshall_struct_a6o_quarantine_event_def jrpc_marshall_struct_a6o_real_time_prot_event_def
      jrpc_marshall_struct_a6o_av_update_event_def)

lemma event_message_coded:
  assumes "event_carried (coded_json t) ev" "map_of t (event_call ev) = Some c" "map_of (map prod.swap t) c = Some (event_call ev)"
  shows "event_message (coded_json t) ev (event_json ev) [c]"
proof -
  obtain j where "jrpc_marshall_struct_a6o_event (coded_json t) ev = Some (Inr (Some j))"
    using reads_back_ptr [OF event_reads_back [OF coded_json_laws assms(1)]] by blast
  then show ?thesis
    using assms coded_wire_text [OF assms(2,3)] by (simp add: event_message_def event_call_def event_json_def event_coded coded_call)
qed

lemma call_inj:
  assumes "js_utf8 json_tree m" "js_utf8 json_tree m'"
    and "jobj json_tree (call_fields json_tree m (Some p) 0) = jobj json_tree (call_fields json_tree m' (Some p') 0)"
  shows "m = m'" "p = p'"
proof -
  have "Inr (REQUEST m 0 (Some p)) = (Inr (REQUEST m' 0 (Some p')) :: int + json rpc_obj)"
    using request_understood [OF json_tree_laws assms(1), of 0 "Some p"] request_understood [OF json_tree_laws assms(2), of 0 "Some p'"]
      assms(3) by (simp add: make_call_obj_fields [OF json_tree_laws] assms(1,2))
  then show "m = m'" "p = p'"
    by simp_all
qed

lemma event_json_inj:
  assumes "event_carried json_tree ev" "event_carried json_tree ev'" "event_json ev = event_json ev'"
  shows "ev = ev'"
  using reads_back_ptr [OF event_reads_back [OF json_tree_laws assms(1)]] reads_back_ptr [OF event_reads_back [OF json_tree_laws assms(2)]]
    assms(3) by (auto simp: event_json_def)

lemma example_events_carried: "event_carried json_tree sample_event" "event_carried json_tree finished_event"
  "event_carried (coded_json t) sample_event" "event_carried (coded_json t) finished_event"
  by (simp_all add: event_carried_def sample_event_def finished_event_def utf8_cstr_def enum_defs is_int64_def is_uint32_def
      is_int32_def is_size_t_def coded_json_def)

lemma scan_table_distinct: "distinct (map fst scan_table)"
proof -
  have names: "js_utf8 json_tree ''scan''" "js_utf8 json_tree ''notify_event''"
    by (simp_all add: ascii_utf8 [OF json_tree_laws] ascii_def)
  have "sample_event \<noteq> finished_event"
    by (simp add: sample_event_def finished_event_def)
  then have "event_call sample_event \<noteq> event_call finished_event"
    using call_inj(2) [OF names(2,2)] event_json_inj [OF example_events_carried(1,2)] unfolding event_call_def by blast
  moreover have "jobj json_tree (call_fields json_tree ''scan'' (Some scan_param_json) 0) \<noteq> event_call ev" for ev
    using call_inj(1) [OF names] unfolding event_call_def by blast
  ultimately show ?thesis
    by (simp add: scan_table_def)
qed

theorem scan_tool_prints_events_witness:
  "\<exists>L :: (json, string list) client_lib. do_scan L 7
      \<lparr>so_unix_socket_path = ''/tmp/.armadito'', so_format_json = 0, so_recursive = 1, so_threaded = 0, so_no_summary = 0,
       so_print_clean = 0, so_path_to_scan = Some ''/srv''\<rparr> [''d'' @ message_end, ''f'' @ message_end]
    = Some (Some (Running (0, \<lparr>sn_data = \<lparr>sc_done = 1, sc_format_json = 0, sc_no_summary = 0\<rparr>,
        sn_stdout = ''/tmp/x: malware [clamav - eicar] (action alert)'' @ newline @ newline @ ''SCAN SUMMARY:'' @ newline
          @ ''scanned files     : 3'' @ newline @ ''malware files     : 1'' @ newline @ ''suspicious files  : 0'' @ newline
          @ ''duration          : 1.25000s'' @ newline @ newline,
        sn_world = []\<rparr>)))"
proof -
  let ?J = "coded_json scan_table"
  let ?L = "\<lparr>cl_sockets = script_sockets, cl_json = ?J, cl_dumpf = (\<lambda>_. []), cl_calendar = (\<lambda>_. None)\<rparr> :: (json, string list) client_lib"
  let ?opts = "\<lparr>so_unix_socket_path = ''/tmp/.armadito'', so_format_json = 0, so_recursive = 1, so_threaded = 0, so_no_summary = 0,
       so_print_clean = 0, so_path_to_scan = Some ''/srv''\<rparr>" and ?w = "[''d'' @ message_end, ''f'' @ message_end]"
  have con: "unix_client_connect (cl_sockets ?L) (so_unix_socket_path ?opts) 10 ?w = Some (3, ?w)"
    using script_connects [of "''/tmp/.armadito''" 10 ?w] by (simp add: UNIX_PATH_MAX_def)
  have param: "jrpc_marshall_struct_a6o_rpc_scan_param (cl_json ?L) \<lparr>sp_root_path = so_path_to_scan ?opts, sp_send_progress = 1,
           sp_recursive = so_recursive ?opts, sp_threaded = so_threaded ?opts, sp_scan_id = uint (7 :: u32)\<rparr> = Some (Inr (Some scan_param_json))"
    by (simp add: jrpc_marshall_struct_a6o_rpc_scan_param_def coded_same MARSHALL_STRUCT_def MARSHALL_INT_def MARSHALL_STRING_def to_int64_id is_int64_def scan_param_json_def)
  note d = scan_table_distinct
  have msg: "wire_text (cl_json ?L) (jobj (cl_json ?L) (call_fields (cl_json ?L) ''scan'' (Some scan_param_json) 0)) ''c''"
    using d by (simp add: coded_call) (rule coded_wire_text; simp add: scan_table_def)
  have events: "event_message (cl_json ?L) sample_event (event_json sample_event) ''d''"
    "event_message (cl_json ?L) finished_event (event_json finished_event) ''f''"
    using d by (auto intro!: event_message_coded simp: scan_table_def example_events_carried)
  from scan_tool_prints_events [of ?L ?opts ?w 3 ?w 7 scan_param_json "''c''" 5 ?w "[(sample_event, event_json sample_event)]" "[''d'']"
      finished_event "event_json finished_event" "''f''" "[]"] con param msg events coded_json_laws
  have run: "do_scan ?L 7 ?opts ?w = Some (Some (Running (0, \<lparr>sn_data = \<lparr>sc_done = 1, sc_format_json = 0, sc_no_summary = 0\<rparr>,
      sn_stdout = concat (map (shown ?L \<lparr>sc_done = 0, sc_format_json = 0, sc_no_summary = 0\<rparr>)
        [(sample_event, event_json sample_event), (finished_event, event_json finished_event)]), sn_world = []\<rparr>)))"
    by (simp add: script_sockets_def ends_scan_def message_end_def sample_event_def finished_event_def ev_type_def event_type_defs)
  have detection: "shown ?L \<lparr>sc_done = 0, sc_format_json = 0, sc_no_summary = 0\<rparr> (sample_event, event_json sample_event)
      = ''/tmp/x: malware [clamav - eicar] (action alert)'' @ newline"
    by (simp add: shown_def sample_event_def detection_event_print_def format_s_def a6o_file_status_pretty_str_def
        a6o_action_pretty_str_def action_defs)
  have "char_of (48 :: nat) = CHR ''0''" "char_of (49 :: nat) = CHR ''1''" "char_of (50 :: nat) = CHR ''2''"
    "char_of (51 :: nat) = CHR ''3''" "char_of (53 :: nat) = CHR ''5''"
    by code_simp+
  moreover have "decimal n = [digit_char n]" if "n < 10" for n
    using that by (subst decimal.simps) simp
  ultimately have "shown ?L \<lparr>sc_done = 0, sc_format_json = 0, sc_no_summary = 0\<rparr> (finished_event, event_json finished_event)
      = newline @ ''SCAN SUMMARY:'' @ newline
          @ ''scanned files     : 3'' @ newline @ ''malware files     : 1'' @ newline @ ''suspicious files  : 0'' @ newline
          @ ''duration          : 1.25000s'' @ newline @ newline"
    by (simp add: shown_def finished_event_def on_demand_completed_event_print_def format_size_def format_ld_def format_seconds_def
        three_digits_def digit_char_def)
  with run detection show ?thesis
    by (intro exI [of _ ?L]) simp
qed

theorem null_event_faults_witness:
  "\<exists>L :: (json, unit) client_lib. notify_event_method L (Some JNull)
     \<lparr>sn_data = \<lparr>sc_done = 0, sc_format_json = 0, sc_no_summary = 0\<rparr>, sn_stdout = [], sn_world = ()\<rparr> = None"
  by (rule exI [of _ "\<lparr>cl_sockets = quiet_sockets, cl_json = json_tree, cl_dumpf = (\<lambda>_. []), cl_calendar = (\<lambda>_. None)\<rparr>"],
      rule null_event_faults) (simp add: json_is_def tree_type_def)

theorem option_v_aborts_witness:
  "info_parse_options ''/tmp/.armadito'' [(CHR ''j'', None), (CHR ''v'', None)] [] = None"
proof -
  have "info_parse_options ''/tmp/.armadito'' [(CHR ''j'', None)] [] = Some (Running \<lparr>io_unix_socket_path = ''/tmp/.armadito'', io_format_json = 1\<rparr>)"
    by (simp add: info_parse_options_def info_parse_option_def)
  from option_v_aborts [OF this, of "[]"] show ?thesis
    by simp
qed

end
