(* ===== verification/Log.thy ===== *)
theory Log
  imports Prelude
begin

text \<open>
  The log facility, \<open>libmodule/log.c\<close>: which messages reach the handler, and the \<open>abort\<close> that follows
  a message of level error. Other components log warnings without consequence; where they log an
  error, their model faults.
\<close>

datatype a6o_log_domain = A6O_LOG_LIB | A6O_LOG_MODULE | A6O_LOG_SERVICE

definition A6O_LOG_LEVEL_ERROR :: u32 where "A6O_LOG_LEVEL_ERROR = push_bit 1 1"
definition A6O_LOG_LEVEL_WARNING :: u32 where "A6O_LOG_LEVEL_WARNING = push_bit 2 1"
definition A6O_LOG_LEVEL_INFO :: u32 where "A6O_LOG_LEVEL_INFO = push_bit 3 1"
definition A6O_LOG_LEVEL_DEBUG :: u32 where "A6O_LOG_LEVEL_DEBUG = push_bit 4 1"
definition A6O_LOG_LEVEL_NONE :: u32 where "A6O_LOG_LEVEL_NONE = push_bit 5 1"

lemmas log_level_defs =
  A6O_LOG_LEVEL_ERROR_def A6O_LOG_LEVEL_WARNING_def A6O_LOG_LEVEL_INFO_def
  A6O_LOG_LEVEL_DEBUG_def A6O_LOG_LEVEL_NONE_def

text \<open>
  The three static variables. A handler acts on the world and on its user data is part of it;
  \<open>None\<close> for \<open>current_handler\<close> stands for the default handler.
\<close>

type_synonym 'w log_handler = "a6o_log_domain \<Rightarrow> u32 \<Rightarrow> string \<Rightarrow> 'w \<Rightarrow> 'w"

record 'w log_state =
  lg_max_level :: u32
  lg_handler :: "'w log_handler option"

definition log_state_init :: "'w log_state" where
  "log_state_init = \<lparr>lg_max_level = A6O_LOG_LEVEL_WARNING, lg_handler = None\<rparr>"

definition a6o_log_set_handler :: "u32 \<Rightarrow> 'w log_handler option \<Rightarrow> 'w log_state \<Rightarrow> 'w log_state" where
  "a6o_log_set_handler max_level handler lg =
    (let lg1 = lg\<lparr>lg_max_level := max_level\<rparr>
     in if handler \<noteq> None then lg1\<lparr>lg_handler := handler\<rparr> else lg1\<lparr>lg_handler := None\<rparr>)"

text \<open>
  \<open>a6o_log\<close> on an already formatted message. The default handler, which prints to a stream, is an
  argument. \<open>None\<close> is the call to \<open>abort\<close>, before which the handler was called on the world; it is
  compiled on every platform but Windows, whose theories leave the messages out.
\<close>

definition a6o_log ::
  "'w log_handler \<Rightarrow> 'w log_state \<Rightarrow> a6o_log_domain \<Rightarrow> u32 \<Rightarrow> string \<Rightarrow> 'w \<Rightarrow> 'w option" where
  "a6o_log default_handler lg domain level message w =
    (if level \<noteq> A6O_LOG_LEVEL_NONE \<and> level > lg_max_level lg then Some w
     else let h = (case lg_handler lg of None \<Rightarrow> default_handler | Some h \<Rightarrow> h);
              w' = h domain level message w
          in if level AND A6O_LOG_LEVEL_ERROR \<noteq> 0 then None else Some w')"

definition to_stderr :: "u32 \<Rightarrow> bool" where
  "to_stderr log_level \<longleftrightarrow> log_level AND (A6O_LOG_LEVEL_ERROR OR A6O_LOG_LEVEL_WARNING) \<noteq> 0"

definition domain_str :: "a6o_log_domain \<Rightarrow> string" where
  "domain_str domain = (case domain of
       A6O_LOG_LIB \<Rightarrow> ''lib''
     | A6O_LOG_MODULE \<Rightarrow> ''module''
     | A6O_LOG_SERVICE \<Rightarrow> ''service'')"

definition a6o_log_level_str :: "u32 \<Rightarrow> string" where
  "a6o_log_level_str log_level =
    (if log_level = A6O_LOG_LEVEL_ERROR then ''error''
     else if log_level = A6O_LOG_LEVEL_WARNING then ''warning''
     else if log_level = A6O_LOG_LEVEL_INFO then ''info''
     else if log_level = A6O_LOG_LEVEL_DEBUG then ''debug''
     else [])"

section \<open>Properties\<close>

text \<open>
  what logging does. A message of level error always aborts the process, whatever handler and
  maximum level are installed, and a message of another level never does; the latter reaches the
  handler exactly when its level is none or at most the maximum.
\<close>

theorem log_error_aborts:
  assumes "lg_max_level lg \<in> {A6O_LOG_LEVEL_ERROR, A6O_LOG_LEVEL_WARNING, A6O_LOG_LEVEL_INFO, A6O_LOG_LEVEL_DEBUG}"
    and "level \<in> {A6O_LOG_LEVEL_ERROR, A6O_LOG_LEVEL_WARNING, A6O_LOG_LEVEL_INFO, A6O_LOG_LEVEL_DEBUG, A6O_LOG_LEVEL_NONE}"
  shows "a6o_log dflt lg domain level msg w =
    (if level = A6O_LOG_LEVEL_ERROR then None
     else Some (if level = A6O_LOG_LEVEL_NONE \<or> level \<le> lg_max_level lg
                then (case lg_handler lg of None \<Rightarrow> dflt | Some h \<Rightarrow> h) domain level msg w
                else w))"
  using assms by (auto simp: a6o_log_def Let_def log_level_defs)

theorem log_error_aborts_witness:
  "a6o_log (\<lambda>_ _ m w. m # w) log_state_init A6O_LOG_LIB A6O_LOG_LEVEL_WARNING ''m'' [] = Some [''m'']
    \<and> a6o_log (\<lambda>_ _ m w. m # w) log_state_init A6O_LOG_LIB A6O_LOG_LEVEL_ERROR ''m'' [] = None"
proof
  show "a6o_log (\<lambda>_ _ m w. m # w) log_state_init A6O_LOG_LIB A6O_LOG_LEVEL_WARNING ''m'' [] = Some [''m'']"
    by (subst log_error_aborts) (simp_all add: log_state_init_def log_level_defs)
  show "a6o_log (\<lambda>_ _ m w. m # w) log_state_init A6O_LOG_LIB A6O_LOG_LEVEL_ERROR ''m'' [] = None"
    by (subst log_error_aborts) (simp_all add: log_state_init_def log_level_defs)
qed

end
