(* ===== verification/Journal.thy ===== *)
theory Journal
  imports Armadito Log
begin

text \<open>
  What the daemon writes to syslog: its log (\<open>daemon/log.c\<close>) and its journal of events
  (\<open>daemon/journal.c\<close>).
\<close>

section \<open>Syslog\<close>

text \<open>The name that \<open>openlog\<close> set for the process, and the lines with their names and priorities.\<close>

record syslog =
  sl_ident :: cstr
  sl_lines :: "(cstr \<times> nat \<times> string) list"

definition openlog :: "string \<Rightarrow> syslog \<Rightarrow> syslog" where
  "openlog name sl = sl\<lparr>sl_ident := Some name\<rparr>"

definition syslog_write :: "nat \<Rightarrow> string \<Rightarrow> syslog \<Rightarrow> syslog" where
  "syslog_write priority line sl = sl\<lparr>sl_lines := sl_lines sl @ [(sl_ident sl, priority, line)]\<rparr>"

definition LOG_ERR :: nat where "LOG_ERR = 3"
definition LOG_WARNING :: nat where "LOG_WARNING = 4"
definition LOG_INFO :: nat where "LOG_INFO = 6"
definition LOG_DEBUG :: nat where "LOG_DEBUG = 7"

section \<open>The log\<close>

text \<open>The result -1 as a value of the unsigned enumeration.\<close>

definition get_a6o_log_level_from_str :: "string \<Rightarrow> u32" where
  "get_a6o_log_level_from_str s_log_level =
    (if s_log_level = ''error'' then A6O_LOG_LEVEL_ERROR
     else if s_log_level = ''warning'' then A6O_LOG_LEVEL_WARNING
     else if s_log_level = ''info'' then A6O_LOG_LEVEL_INFO
     else if s_log_level = ''debug'' then A6O_LOG_LEVEL_DEBUG
     else -1)"

definition priority_from_level :: "u32 \<Rightarrow> nat" where
  "priority_from_level log_level =
    (if log_level = A6O_LOG_LEVEL_ERROR then LOG_ERR
     else if log_level = A6O_LOG_LEVEL_WARNING then LOG_WARNING
     else if log_level = A6O_LOG_LEVEL_INFO then LOG_INFO
     else if log_level = A6O_LOG_LEVEL_DEBUG then LOG_DEBUG
     else LOG_INFO)"

definition a6o_syslog_handler :: "syslog log_handler" where
  "a6o_syslog_handler domain log_level message sl =
    (if log_level \<noteq> A6O_LOG_LEVEL_NONE
     then syslog_write (priority_from_level log_level)
            (''<'' @ a6o_log_level_str log_level @ ''> '' @ message @ [CHR 0x0A]) sl
     else syslog_write (priority_from_level log_level) (message @ [CHR 0x0A]) sl)"

text \<open>\<open>None\<close> is the default handler.\<close>

definition log_init_with_a6o_log ::
  "string \<Rightarrow> bool \<Rightarrow> syslog log_state \<times> syslog \<Rightarrow> syslog log_state \<times> syslog" where
  "log_init_with_a6o_log s_log_level use_syslog st = (case st of (lg, sl) \<Rightarrow>
    (let level = get_a6o_log_level_from_str s_log_level
     in if use_syslog then (a6o_log_set_handler level (Some a6o_syslog_handler) lg, openlog ''armadito-av'' sl)
        else (a6o_log_set_handler level None lg, sl)))"

definition log_init :: "string \<Rightarrow> bool \<Rightarrow> syslog log_state \<times> syslog \<Rightarrow> syslog log_state \<times> syslog" where
  "log_init s_log_level use_syslog st = log_init_with_a6o_log s_log_level use_syslog st"

section \<open>The journal\<close>

definition detection_event_journal :: "a6o_detection_event \<Rightarrow> string" where
  "detection_event_journal e =
    ''type='' @ quote ''detection''
    @ '', context='' @ quote (if det_context e = CONTEXT_REAL_TIME then ''real-time'' else ''on-demand'')
    @ '', scan_id='' @ format_ld (det_scan_id e)
    @ '', path='' @ quote (format_s (det_path e))
    @ '', scan_status='' @ quote (a6o_file_status_pretty_str (det_scan_status e))
    @ '', scan_action='' @ quote (a6o_action_pretty_str (det_scan_action e))
    @ '', module_name='' @ quote (format_s (det_module_name e))
    @ '', module_report='' @ quote (format_s (det_module_report e))"

definition on_demand_start_event_journal :: "a6o_on_demand_start_event \<Rightarrow> string" where
  "on_demand_start_event_journal e =
    ''type='' @ quote ''on_demand_start''
    @ '', scan_id='' @ format_ld (sta_scan_id e)
    @ '', root_path='' @ quote (format_s (sta_root_path e))"

definition on_demand_completed_event_journal :: "a6o_on_demand_completed_event \<Rightarrow> string" where
  "on_demand_completed_event_journal e =
    ''type='' @ quote ''on_demand_completed''
    @ '', scan_id='' @ format_ld (cmpl_scan_id e)
    @ '', cancelled='' @ format_ld (cmpl_cancelled e)
    @ '', total_malware_count='' @ format_size (cmpl_total_malware_count e)
    @ '', total_suspicious_count='' @ format_size (cmpl_total_suspicious_count e)
    @ '', total_scanned_count='' @ format_size (cmpl_total_scanned_count e)
    @ '', duration='' @ format_ld (cmpl_duration e)"

definition quarantine_event_journal :: "a6o_quarantine_event \<Rightarrow> string" where
  "quarantine_event_journal e =
    ''type='' @ quote ''quarantine''
    @ '', action='' @ quote (if qua_quarantine_action e = QUARANTINE_ENTER then ''enter'' else ''exit'')
    @ '', orig_path='' @ quote (format_s (qua_orig_path e))
    @ '', quarantine_path='' @ quote (format_s (qua_quarantine_path e))"

definition real_time_prot_event_journal :: "int \<Rightarrow> string" where
  "real_time_prot_event_journal new_state =
    ''type='' @ quote ''real_time_prot'' @ '', rt_prot_new_state='' @ quote (format_ld new_state)"

text \<open>The line of an event, if it has one.\<close>

definition journal_line :: "a6o_event_union \<Rightarrow> string option" where
  "journal_line u = (case u of
       Ev_detection e \<Rightarrow> Some (detection_event_journal e)
     | Ev_on_demand_start e \<Rightarrow> Some (on_demand_start_event_journal e)
     | Ev_on_demand_completed e \<Rightarrow> Some (on_demand_completed_event_journal e)
     | Ev_on_demand_progress _ \<Rightarrow> None
     | Ev_quarantine e \<Rightarrow> Some (quarantine_event_journal e)
     | Ev_real_time_prot n \<Rightarrow> Some (real_time_prot_event_journal n)
     | Ev_av_update \<Rightarrow> None)"

definition journal_event_cb :: "a6o_event \<Rightarrow> nat \<Rightarrow> syslog \<Rightarrow> syslog" where
  "journal_event_cb ev data sl = (case journal_line (ev_u ev) of
       Some line \<Rightarrow> syslog_write LOG_INFO line sl
     | None \<Rightarrow> sl)"

text \<open>The pointer to the listener; \<open>a\<close> is the address of its entry.\<close>

definition JOURNAL_EVENT_CB :: nat where "JOURNAL_EVENT_CB = 3"

definition journal_mask :: u32 where
  "journal_mask = EVENT_DETECTION OR EVENT_ON_DEMAND_START OR EVENT_ON_DEMAND_COMPLETED OR EVENT_QUARANTINE
     OR EVENT_REAL_TIME_PROT OR EVENT_AV_UPDATE"

definition journal_init :: "addr \<Rightarrow> ('w, 'd) armadito \<times> syslog \<Rightarrow> ('w, 'd) armadito \<times> syslog" where
  "journal_init a st = (case st of (u, sl) \<Rightarrow>
    (let sl1 = openlog ''armadito-journal'' sl
     in (u\<lparr>ar_event_source := a6o_event_source_add_cb a (a6o_get_event_source u) journal_mask JOURNAL_EVENT_CB 0\<rparr>, sl1)))"

section \<open>The journal records events\<close>

text \<open>The listener of the journal among others, each acting on its own part of the world.\<close>

definition journal_call :: "(nat \<Rightarrow> a6o_event \<Rightarrow> nat \<Rightarrow> 'w \<Rightarrow> 'w) \<Rightarrow> nat \<Rightarrow> a6o_event \<Rightarrow> nat \<Rightarrow> syslog \<times> 'w \<Rightarrow> syslog \<times> 'w" where
  "journal_call others c ev d st = (case st of (sl, w) \<Rightarrow>
     if c = JOURNAL_EVENT_CB then (journal_event_cb ev d sl, w) else (sl, others c ev d w))"

definition journaled :: "syslog \<Rightarrow> a6o_event \<Rightarrow> syslog" where
  "journaled sl ev = sl\<lparr>sl_lines := sl_lines sl
     @ (case journal_line (ev_u ev) of Some line \<Rightarrow> [(Some ''armadito-journal'', LOG_INFO, line)] | None \<Rightarrow> [])\<rparr>"

lemma notify_others:
  "\<forall>(m, c, d) \<in> set ls. c \<noteq> JOURNAL_EVENT_CB \<Longrightarrow> notify (journal_call others) ev ls (sl, w) = (sl, notify others ev ls w)"
  by (induction ls arbitrary: w) (auto simp: journal_call_def)

lemma journal_mask_types:
  "journal_mask AND ev_type u \<noteq> 0 \<longleftrightarrow> ev_type u \<noteq> EVENT_ON_DEMAND_PROGRESS"
  by (cases u) (simp_all add: ev_type_def journal_mask_def event_type_defs)

lemma journal_line_progress: "ev_type u = EVENT_ON_DEMAND_PROGRESS \<Longrightarrow> journal_line u = None"
  by (cases u) (simp_all add: ev_type_def journal_line_def event_type_defs)

text \<open>
  the journal. Once it is initialised, every event that is fired appends its line, under the name of
  the journal, or nothing when it is an event of progress or of an update; the other listeners get
  the event as before.
\<close>

theorem journal_records_events:
  assumes "journal_init a (u, sl) = (u1, sl1)" "listens (ar_event_source u) ls" "src_heap (ar_event_source u) a = None"
    and "\<forall>(m, c, d) \<in> set ls. c \<noteq> JOURNAL_EVENT_CB"
  shows "a6o_event_source_fire_event (\<lambda>c ev d (s, w). Some (s, journal_call others c ev d w)) (ar_event_source u1) ev (sl1, w)
    = Some (ar_event_source u1, journaled sl1 ev, notify others ev ls w)"
proof -
  have u1: "ar_event_source u1 = a6o_event_source_add_cb a (ar_event_source u) journal_mask JOURNAL_EVENT_CB 0"
      "sl_ident sl1 = Some ''armadito-journal''"
    using assms(1) by (auto simp: journal_init_def Let_def a6o_get_event_source_def openlog_def)
  have "listens (ar_event_source u1) ((journal_mask, JOURNAL_EVENT_CB, 0) # ls)"
    unfolding u1(1) by (rule listens_add [OF assms(2,3)])
  then obtain as where "chain (src_heap (ar_event_source u1)) (src_callbacks (ar_event_source u1)) as
      ((journal_mask, JOURNAL_EVENT_CB, 0) # ls)"
    by (auto simp: listens_def)
  from fire_loop_notify [OF this, of "journal_call others" ev "(sl1, w)"]
  have "a6o_event_source_fire_event (\<lambda>c ev d (s, w). Some (s, journal_call others c ev d w)) (ar_event_source u1) ev (sl1, w)
    = Some (ar_event_source u1, notify (journal_call others) ev ((journal_mask, JOURNAL_EVENT_CB, 0) # ls) (sl1, w))"
    by (simp add: a6o_event_source_fire_event_def)
  moreover have "notify (journal_call others) ev ((journal_mask, JOURNAL_EVENT_CB, 0) # ls) (sl1, w)
      = (journaled sl1 ev, notify others ev ls w)"
    using journal_mask_types [of "ev_u ev"] journal_line_progress [of "ev_u ev"] notify_others [OF assms(4)] u1(2)
    by (auto simp: journal_call_def journal_event_cb_def journaled_def syslog_write_def split: option.split)
  ultimately show ?thesis
    by simp
qed

section \<open>Reading the journal\<close>

text \<open>The text up to a character that it does not contain.\<close>

lemma upto_char: "c \<notin> set s \<Longrightarrow> c \<notin> set s' \<Longrightarrow> s @ c # r = s' @ c # r' \<longleftrightarrow> s = s' \<and> r = r'"
  by (induction s arbitrary: s'; case_tac s'; auto)

definition quote_free :: "cstr \<Rightarrow> bool" where
  "quote_free s \<longleftrightarrow> s \<noteq> None \<and> CHR 0x22 \<notin> set (format_s s)"

lemma quote_fields:
  "CHR 0x22 \<notin> set s \<Longrightarrow> CHR 0x22 \<notin> set s' \<Longrightarrow> quote s @ r = quote s' @ r' \<longleftrightarrow> s = s' \<and> r = r'"
  by (simp add: quote_def upto_char)

lemma decimal_inj: "decimal n = decimal m \<longleftrightarrow> n = m"
  using decimal_value_decimal by metis

lemma decimal_chars: "\<not> isdigit c \<Longrightarrow> c \<notin> set (decimal n)"
  using decimal_digits by blast

lemma format_ld_chars: "\<not> isdigit c \<Longrightarrow> c \<noteq> CHR ''-'' \<Longrightarrow> c \<notin> set (format_ld i)"
  by (simp add: format_ld_def decimal_chars)

lemma format_ld_inj: "format_ld i = format_ld j \<longleftrightarrow> i = j"
proof -
  have "decimal n \<noteq> CHR ''-'' # s" for n s
    using decimal_chars [of "CHR ''-''" n] by (auto simp: isdigit_def char_in_def)
  then show ?thesis
    by (auto simp: format_ld_def decimal_inj) metis
qed

lemma format_ld_fields: "format_ld i @ CHR '','' # r = format_ld j @ CHR '','' # r' \<longleftrightarrow> i = j \<and> r = r'"
  using format_ld_chars [of "CHR '',''"] by (simp add: upto_char format_ld_inj isdigit_def char_in_def)

lemma format_size_small:
  assumes "n < 2 ^ 63"
  shows "format_size n = format_ld (int n)"
proof -
  have "sint (of_nat n :: u64) = int n"
    using assms by (simp add: signed_of_nat signed_take_bit_int_eq_self)
  then show ?thesis
    by (simp add: format_size_def)
qed

lemma pretty_str_inj: "a6o_file_status_pretty_str s = a6o_file_status_pretty_str t \<longleftrightarrow> s = t"
  by (cases s; cases t) (simp_all add: a6o_file_status_pretty_str_def)

lemma pretty_str_quotes: "CHR 0x22 \<notin> set (a6o_file_status_pretty_str s)" "CHR 0x22 \<notin> set (a6o_action_pretty_str a)"
  by (cases s; simp add: a6o_file_status_pretty_str_def) (simp add: a6o_action_pretty_str_def Let_def)

definition action_has_name :: "u32 \<Rightarrow> bool" where
  "action_has_name a \<longleftrightarrow> a \<in> {A6O_ACTION_NONE, A6O_ACTION_ALERT, A6O_ACTION_ALERT OR A6O_ACTION_QUARANTINE, A6O_ACTION_ALERT OR A6O_ACTION_REMOVE}"

lemma action_str_inj:
  "action_has_name a \<Longrightarrow> action_has_name b \<Longrightarrow> a6o_action_pretty_str a = a6o_action_pretty_str b \<longleftrightarrow> a = b"
  unfolding action_has_name_def by (elim insertE emptyE; clarsimp simp: a6o_action_pretty_str_def action_defs)

text \<open>The events whose strings have no quotes, whose counts are in range and whose action has a name of its own.\<close>

definition loggable :: "a6o_event_union \<Rightarrow> bool" where
  "loggable u \<longleftrightarrow> (case u of
       Ev_detection e \<Rightarrow> quote_free (det_path e) \<and> quote_free (det_module_name e) \<and> quote_free (det_module_report e)
                           \<and> action_has_name (det_scan_action e)
     | Ev_on_demand_start e \<Rightarrow> quote_free (sta_root_path e)
     | Ev_on_demand_completed e \<Rightarrow> cmpl_total_malware_count e < 2 ^ 63 \<and> cmpl_total_suspicious_count e < 2 ^ 63
                           \<and> cmpl_total_scanned_count e < 2 ^ 63
     | Ev_quarantine e \<Rightarrow> quote_free (qua_orig_path e) \<and> quote_free (qua_quarantine_path e)
     | _ \<Rightarrow> True)"

lemma cstr_inj: "s \<noteq> None \<Longrightarrow> t \<noteq> None \<Longrightarrow> format_s s = format_s t \<longleftrightarrow> s = t"
  by (auto simp: format_s_def)

lemma type_quotes: "CHR 0x22 \<notin> set ''detection''" "CHR 0x22 \<notin> set ''on_demand_start''" "CHR 0x22 \<notin> set ''on_demand_completed''"
  "CHR 0x22 \<notin> set ''quarantine''" "CHR 0x22 \<notin> set ''real_time_prot''" "CHR 0x22 \<notin> set ''enter''" "CHR 0x22 \<notin> set ''exit''"
  "CHR 0x22 \<notin> set ''real-time''" "CHR 0x22 \<notin> set ''on-demand''"
  by simp_all

lemmas journal_field_simps =
  quote_fields format_ld_fields format_ld_inj pretty_str_inj pretty_str_quotes type_quotes quote_free_def loggable_def

lemma detection_line_inj:
  assumes "loggable (Ev_detection e)" "loggable (Ev_detection e')" "detection_event_journal e = detection_event_journal e'"
  shows "e = e'"
proof -
  have "(if det_context e = CONTEXT_REAL_TIME then ''real-time'' else ''on-demand'') = (if det_context e' = CONTEXT_REAL_TIME then ''real-time'' else ''on-demand'')
    \<longleftrightarrow> det_context e = det_context e'" "CHR 0x22 \<notin> set (if det_context f = CONTEXT_REAL_TIME then ''real-time'' else ''on-demand'')" for f
    by (cases "det_context e"; cases "det_context e'"; simp) simp
  then show ?thesis
    using assms quote_fields [of "format_s (det_module_report e)" "format_s (det_module_report e')" "[]" "[]"]
    by (intro a6o_detection_event.equality)
      (simp_all add: detection_event_journal_def journal_field_simps action_str_inj cstr_inj)
qed

lemma start_line_inj:
  assumes "loggable (Ev_on_demand_start e)" "loggable (Ev_on_demand_start e')"
    "on_demand_start_event_journal e = on_demand_start_event_journal e'"
  shows "e = e'"
  using assms quote_fields [of "format_s (sta_root_path e)" "format_s (sta_root_path e')" "[]" "[]"]
  by (intro a6o_on_demand_start_event.equality)
    (simp_all add: on_demand_start_event_journal_def journal_field_simps cstr_inj)

lemma completed_line_inj:
  assumes "loggable (Ev_on_demand_completed e)" "loggable (Ev_on_demand_completed e')"
    "on_demand_completed_event_journal e = on_demand_completed_event_journal e'"
  shows "e = e'"
  using assms
  by (intro a6o_on_demand_completed_event.equality)
    (simp_all add: on_demand_completed_event_journal_def journal_field_simps format_size_small)

lemma quarantine_line_inj:
  assumes "loggable (Ev_quarantine e)" "loggable (Ev_quarantine e')" "quarantine_event_journal e = quarantine_event_journal e'"
  shows "e = e'"
proof -
  have "(if qua_quarantine_action e = QUARANTINE_ENTER then ''enter'' else ''exit'') = (if qua_quarantine_action e' = QUARANTINE_ENTER then ''enter'' else ''exit'')
    \<longleftrightarrow> qua_quarantine_action e = qua_quarantine_action e'" "CHR 0x22 \<notin> set (if qua_quarantine_action f = QUARANTINE_ENTER then ''enter'' else ''exit'')" for f
    by (cases "qua_quarantine_action e"; cases "qua_quarantine_action e'"; simp) simp
  then show ?thesis
    using assms quote_fields [of "format_s (qua_quarantine_path e)" "format_s (qua_quarantine_path e')" "[]" "[]"]
    by (intro a6o_quarantine_event.equality) (simp_all add: quarantine_event_journal_def journal_field_simps cstr_inj)
qed

lemmas line_defs =
  detection_event_journal_def on_demand_start_event_journal_def on_demand_completed_event_journal_def
  quarantine_event_journal_def real_time_prot_event_journal_def

lemma protection_line_inj: "real_time_prot_event_journal n = real_time_prot_event_journal n' \<Longrightarrow> n = n'"
  using quote_fields [of "format_ld n" "format_ld n'" "[]" "[]"] format_ld_chars [of "CHR 0x22"]
  by (simp add: real_time_prot_event_journal_def format_ld_inj isdigit_def char_in_def)

text \<open>
  the lines of the journal can be read back. As long as no string contains a quote, the counts are
  in range and the action has a name of its own, two events with the same line are the same event.
\<close>

theorem journal_lines_distinguish:
  assumes "loggable u" "loggable v" "journal_line u = Some l" "journal_line v = Some l"
  shows "u = v"
proof -
  have same: "journal_line u = journal_line v"
    using assms(3,4) by simp
  show ?thesis
  proof (cases u)
    case (Ev_detection e)
    with same assms show ?thesis
      by (cases v) (auto simp: journal_line_def dest: detection_line_inj,
        simp_all add: line_defs quote_def)
  next
    case (Ev_on_demand_start e)
    with same assms show ?thesis
      by (cases v) (auto simp: journal_line_def dest: start_line_inj,
        simp_all add: line_defs quote_def)
  next
    case (Ev_on_demand_completed e)
    with same assms show ?thesis
      by (cases v) (auto simp: journal_line_def dest: completed_line_inj,
        simp_all add: line_defs quote_def)
  next
    case (Ev_quarantine e)
    with same assms show ?thesis
      by (cases v) (auto simp: journal_line_def dest: quarantine_line_inj,
        simp_all add: line_defs quote_def)
  next
    case (Ev_real_time_prot n)
    with same assms show ?thesis
      by (cases v) (auto simp: journal_line_def dest: protection_line_inj,
        simp_all add: line_defs quote_def)
  qed (use assms in \<open>simp_all add: journal_line_def\<close>)
qed

text \<open>
  strings are not escaped: a path that contains a quote can make the line of another event, here of a
  file in quarantine under another path.
\<close>

theorem journal_line_forged:
  "journal_line (Ev_quarantine \<lparr>qua_quarantine_action = QUARANTINE_ENTER, qua_orig_path = Some p,
        qua_quarantine_path = Some (q @ [CHR 0x22] @ '', quarantine_path='' @ [CHR 0x22] @ r)\<rparr>)
    = journal_line (Ev_quarantine \<lparr>qua_quarantine_action = QUARANTINE_ENTER,
        qua_orig_path = Some (p @ [CHR 0x22] @ '', quarantine_path='' @ [CHR 0x22] @ q), qua_quarantine_path = Some r\<rparr>)"
  by (simp add: journal_line_def quarantine_event_journal_def quote_def format_s_def)

section \<open>Examples\<close>

definition infected_event :: a6o_event where
  "infected_event = \<lparr>ev_timestamp = 0, ev_u = Ev_detection \<lparr>det_context = CONTEXT_ON_DEMAND, det_scan_id = 316020368,
     det_path = Some ''/home/joebar/EICAR/eicar.com'', det_scan_status = A6O_FILE_MALWARE, det_scan_action = A6O_ACTION_NONE,
     det_module_name = Some ''clamav'', det_module_report = Some ''Eicar-Test-Signature''\<rparr>\<rparr>"

theorem journal_records_events_witness:
  "\<exists>u1 sl1. journal_init 1 (a6o_new :: (nat, unit) armadito, \<lparr>sl_ident = Some ''armadito-av'', sl_lines = []\<rparr>) = (u1, sl1)
    \<and> a6o_event_source_fire_event (\<lambda>c ev d (s, w). Some (s, journal_call (\<lambda>_ _ _ w. w) c ev d w)) (ar_event_source u1) infected_event (sl1, ())
      = Some (ar_event_source u1, journaled sl1 infected_event, ())"
proof -
  obtain u1 sl1 where i: "journal_init 1 (a6o_new :: (nat, unit) armadito, \<lparr>sl_ident = Some ''armadito-av'', sl_lines = []\<rparr>) = (u1, sl1)"
    by force
  have "listens (ar_event_source (a6o_new :: (nat, unit) armadito)) []" "src_heap (ar_event_source (a6o_new :: (nat, unit) armadito)) 1 = None"
    using listens_new by (simp_all add: a6o_new_def a6o_event_source_new_def)
  from journal_records_events [OF i this] i show ?thesis
    by auto
qed

theorem journal_lines_distinguish_witness:
  "\<forall>v. loggable v \<longrightarrow> journal_line v = journal_line (ev_u infected_event) \<longrightarrow> v = ev_u infected_event"
proof (intro allI impI)
  fix v assume v: "loggable v" "journal_line v = journal_line (ev_u infected_event)"
  have "loggable (ev_u infected_event)"
    by (simp add: loggable_def infected_event_def quote_free_def format_s_def action_has_name_def)
  moreover obtain l where "journal_line (ev_u infected_event) = Some l"
    by (simp add: infected_event_def journal_line_def)
  ultimately show "v = ev_u infected_event"
    using journal_lines_distinguish [OF v(1)] v(2) by simp
qed

end
