(* ===== verification/StdPaths.thy ===== *)
theory StdPaths
  imports Buffer
begin

text \<open>
  The standard locations, \<open>libmodule/stdpaths.c\<close>: fixed when the program is built on Linux, computed
  from the path of the executable on Windows.
\<close>

section \<open>Locations\<close>

datatype a6o_std_location =
    A6O_LOCATION_MODULES
  | A6O_LOCATION_CONFIG_FILE
  | A6O_LOCATION_CONFIG_DIR
  | A6O_LOCATION_BASES
  | A6O_LOCATION_BINARY
  | A6O_LOCATION_TMP

text \<open>The functions of a platform; \<open>None\<close> is a fault, \<open>Some None\<close> a NULL result.\<close>

record os_stdpaths =
  os_stdpath_module :: "cstr option"
  os_stdpath_config_file :: "cstr option"
  os_stdpath_config_dir :: "cstr option"
  os_stdpath_bases :: "cstr option"
  os_stdpath_binary :: "cstr option"
  os_stdpath_tmp :: "cstr option"

definition a6o_std_path :: "os_stdpaths \<Rightarrow> a6o_std_location \<Rightarrow> cstr option" where
  "a6o_std_path os location = (case location of
       A6O_LOCATION_MODULES \<Rightarrow> os_stdpath_module os
     | A6O_LOCATION_CONFIG_FILE \<Rightarrow> os_stdpath_config_file os
     | A6O_LOCATION_CONFIG_DIR \<Rightarrow> os_stdpath_config_dir os
     | A6O_LOCATION_BASES \<Rightarrow> os_stdpath_bases os
     | A6O_LOCATION_BINARY \<Rightarrow> os_stdpath_binary os
     | A6O_LOCATION_TMP \<Rightarrow> os_stdpath_tmp os)"

section \<open>Linux\<close>

text \<open>The three directories are defined by the build.\<close>

record build_dirs =
  LIBARMADITO_MODULES_PATH :: string
  LIBARMADITO_CONF_DIR :: string
  LIBARMADITO_BASES_DIR :: string

definition linux_stdpaths :: "build_dirs \<Rightarrow> os_stdpaths" where
  "linux_stdpaths d =
    \<lparr>os_stdpath_module = os_strdup (Some (LIBARMADITO_MODULES_PATH d)),
     os_stdpath_config_file = os_strdup (Some (LIBARMADITO_CONF_DIR d @ ''/armadito.conf'')),
     os_stdpath_config_dir = os_strdup (Some (LIBARMADITO_CONF_DIR d @ ''/conf.d'')),
     os_stdpath_bases = os_strdup (Some (LIBARMADITO_BASES_DIR d)),
     os_stdpath_binary = Some None,
     os_stdpath_tmp = Some None\<rparr>"

section \<open>Windows\<close>

definition WIN_MODULES_PATH :: string where "WIN_MODULES_PATH = ''modules''"
definition WIN_MODULES_DB_PATH :: string where "WIN_MODULES_DB_PATH = ''DB''"
definition WIN_CONF_DIR :: string where "WIN_CONF_DIR = ''conf''"

definition WIN_MAX_PATH :: nat where "WIN_MAX_PATH = 260"

definition backslash :: char where "backslash = CHR 0x5C"

text \<open>Library functions on strings and blocks.\<close>

definition strrchr :: "string \<Rightarrow> char \<Rightarrow> nat option" where
  "strrchr s c = (if c \<in> set s then Some (length s - 1 - length (takeWhile (\<lambda>x. x \<noteq> c) (rev s))) else None)"

definition strnlen_s :: "string \<Rightarrow> nat \<Rightarrow> nat" where
  "strnlen_s s n = min (length s) n"

definition calloc_block :: "nat \<Rightarrow> block" where
  "calloc_block n = replicate n (Some (CHR 0x00))"

text \<open>The size that \<open>memcpy_s\<close> is told; a larger source is a violation that ends the process.\<close>

definition memcpy_s :: "block \<Rightarrow> nat \<Rightarrow> nat \<Rightarrow> string \<Rightarrow> nat \<Rightarrow> block option" where
  "memcpy_s p off destsz src n = (if destsz < n \<or> length src < n then None else memcpy_block p off (take n src))"

text \<open>
  \<open>GetModuleFileNameA\<close> gives the path of the executable, or fails; then, as for a path without a
  backslash, the result is NULL. The log message of level error does not end the process on Windows.
\<close>

definition GetBinaryDirectory :: "string option \<Rightarrow> block option option" where
  "GetBinaryDirectory module_file_name = (case module_file_name of
       None \<Rightarrow> Some None
     | Some filepath \<Rightarrow> (case strrchr filepath backslash of
         None \<Rightarrow> Some None
       | Some len \<Rightarrow> map_option Some (do {
           p \<leftarrow> memcpy_block (calloc_block (len + 1)) len [CHR 0x00];
           memcpy_s p 0 len filepath len
         })))"

text \<open>The directory as a string, for the functions that extend it; a NULL directory gives NULL.\<close>

definition with_binary_directory :: "string option \<Rightarrow> (string \<Rightarrow> block option) \<Rightarrow> cstr option" where
  "with_binary_directory module_file_name f = (case GetBinaryDirectory module_file_name of
       None \<Rightarrow> None
     | Some None \<Rightarrow> Some None
     | Some (Some q) \<Rightarrow> do { dirpath \<leftarrow> read_cstr q; p \<leftarrow> f dirpath; map_option Some (read_cstr p) })"

definition win_stdpath_module :: "string option \<Rightarrow> cstr option" where
  "win_stdpath_module module_file_name = with_binary_directory module_file_name (\<lambda>dirpath.
    let d = strnlen_s dirpath WIN_MAX_PATH;
        m = strnlen_s WIN_MODULES_PATH WIN_MAX_PATH;
        len = d + m + 1
    in do {
      p0 \<leftarrow> memcpy_block (calloc_block (len + 1)) len [CHR 0x00];
      p1 \<leftarrow> memcpy_s p0 0 len dirpath d;
      p2 \<leftarrow> memcpy_block p1 d [backslash];
      memcpy_s p2 (d + 1) len WIN_MODULES_PATH m
    })"

definition win_stdpath_config_file :: "string option \<Rightarrow> cstr option" where
  "win_stdpath_config_file module_file_name = with_binary_directory module_file_name (\<lambda>dirpath.
    let conffile = backslash # ''armadito.conf'';
        d = strnlen_s dirpath WIN_MAX_PATH;
        c = strnlen_s WIN_CONF_DIR WIN_MAX_PATH;
        f = strnlen_s conffile WIN_MAX_PATH;
        len = d + c + f + 1
    in do {
      p0 \<leftarrow> memcpy_block (calloc_block (len + 1)) len [CHR 0x00];
      p1 \<leftarrow> memcpy_s p0 0 len dirpath d;
      p2 \<leftarrow> memcpy_block p1 d [backslash];
      p3 \<leftarrow> memcpy_s p2 (d + 1) len WIN_CONF_DIR c;
      memcpy_s p3 (d + c + 1) len conffile f
    })"

text \<open>The directory is built and then dropped.\<close>

definition win_stdpath_config_dir :: "string option \<Rightarrow> cstr option" where
  "win_stdpath_config_dir module_file_name = (case with_binary_directory module_file_name (\<lambda>dirpath.
      let d = strnlen_s dirpath WIN_MAX_PATH;
          c = strnlen_s WIN_CONF_DIR WIN_MAX_PATH;
          len = d + c + 1
      in do {
        p0 \<leftarrow> memcpy_block (calloc_block (len + 1)) len [CHR 0x00];
        p1 \<leftarrow> memcpy_s p0 0 len dirpath d;
        p2 \<leftarrow> memcpy_block p1 d [backslash];
        memcpy_s p2 (d + 1) len WIN_CONF_DIR c
      }) of None \<Rightarrow> None | Some _ \<Rightarrow> Some None)"

definition win_stdpath_bases :: "string option \<Rightarrow> cstr option" where
  "win_stdpath_bases module_file_name = with_binary_directory module_file_name (\<lambda>dirpath.
    let d = strnlen_s dirpath WIN_MAX_PATH;
        m = strnlen_s WIN_MODULES_PATH WIN_MAX_PATH;
        b = strnlen_s WIN_MODULES_DB_PATH WIN_MAX_PATH;
        len = d + m + b + 2
    in do {
      p0 \<leftarrow> memcpy_block (calloc_block (len + 1)) len [CHR 0x00];
      p1 \<leftarrow> memcpy_s p0 0 len dirpath d;
      p2 \<leftarrow> memcpy_block p1 d [backslash];
      p3 \<leftarrow> memcpy_s p2 (d + 1) len WIN_MODULES_PATH m;
      p4 \<leftarrow> memcpy_block p3 (d + 1 + m) [backslash];
      memcpy_s p4 (d + 1 + m + 1) len WIN_MODULES_DB_PATH b
    })"

definition windows_stdpaths :: "string option \<Rightarrow> os_stdpaths" where
  "windows_stdpaths module_file_name =
    \<lparr>os_stdpath_module = win_stdpath_module module_file_name,
     os_stdpath_config_file = win_stdpath_config_file module_file_name,
     os_stdpath_config_dir = win_stdpath_config_dir module_file_name,
     os_stdpath_bases = win_stdpath_bases module_file_name,
     os_stdpath_binary = Some None,
     os_stdpath_tmp = Some None\<rparr>"

definition a6o_path_sep :: "bool \<Rightarrow> string" where
  "a6o_path_sep windows = (if windows then [backslash] else ''/'')"

section \<open>The paths on Windows\<close>

text \<open>Filling a block from its start: the bytes that were put, and zeros to the end.\<close>

definition filled_block :: "string \<Rightarrow> nat \<Rightarrow> block" where
  "filled_block s n = map Some s @ replicate n (Some (CHR 0x00))"

lemma calloc_filled: "calloc_block n = filled_block [] n"
  by (simp add: calloc_block_def filled_block_def)

lemma put_filled: "off = length s \<Longrightarrow> length t \<le> n \<Longrightarrow> memcpy_block (filled_block s n) off t = Some (filled_block (s @ t) (n - length t))"
  by (simp add: memcpy_block_def filled_block_def)

lemma put_end: "n = off + 1 \<Longrightarrow> memcpy_block (filled_block [] n) off [CHR 0x00] = Some (filled_block [] n)"
  by (simp add: memcpy_block_def filled_block_def replicate_append_same flip: replicate_Suc)

lemma copy_filled:
  assumes "off = length s" "n = length t" "n \<le> destsz" "n \<le> room"
  shows "memcpy_s (filled_block s room) off destsz t n = Some (filled_block (s @ t) (room - n))"
  using assms by (simp add: memcpy_s_def put_filled)

lemma read_filled: "CHR 0x00 \<notin> set s \<Longrightarrow> 0 < n \<Longrightarrow> read_cstr (filled_block s n) = Some s"
  by (cases n) (simp_all add: filled_block_def read_cstr_append)

lemma strnlen_short: "length s < WIN_MAX_PATH \<Longrightarrow> strnlen_s s WIN_MAX_PATH = length s"
  by (simp add: strnlen_s_def)

lemma win_names:
  "strnlen_s WIN_MODULES_PATH WIN_MAX_PATH = length WIN_MODULES_PATH" "strnlen_s WIN_CONF_DIR WIN_MAX_PATH = length WIN_CONF_DIR"
  "strnlen_s WIN_MODULES_DB_PATH WIN_MAX_PATH = length WIN_MODULES_DB_PATH"
  "strnlen_s (backslash # ''armadito.conf'') WIN_MAX_PATH = length (backslash # ''armadito.conf'')"
  by (simp_all add: strnlen_s_def WIN_MAX_PATH_def WIN_MODULES_PATH_def WIN_CONF_DIR_def WIN_MODULES_DB_PATH_def)

lemma strrchr_last:
  assumes "c \<notin> set file"
  shows "strrchr (dir @ c # file) c = Some (length dir)"
  using assms by (simp add: strrchr_def takeWhile_append)

lemma binary_directory:
  assumes "backslash \<notin> set file"
  shows "GetBinaryDirectory (Some (dir @ backslash # file)) = Some (Some (filled_block dir 1))"
proof -
  have "memcpy_s (filled_block [] (length dir + 1)) 0 (length dir) (dir @ backslash # file) (length dir)
      = Some (filled_block dir 1)"
    using put_filled [of 0 "[]" dir "length dir + 1"] by (simp add: memcpy_s_def)
  then show ?thesis
    using strrchr_last [OF assms, of dir] by (simp add: GetBinaryDirectory_def calloc_filled put_end)
qed

lemmas win_path_simps = calloc_filled put_end put_filled copy_filled read_filled strnlen_short win_names Let_def

text \<open>
  where the program looks for its files on Windows. From an executable in a directory \<open>dir\<close> the
  paths are put together without writing outside the allocated blocks: the modules, the configuration
  file and the databases are below \<open>dir\<close>. The configuration directory is always NULL, and so are the
  two locations that have no function.
\<close>

theorem windows_locations:
  assumes "backslash \<notin> set file" "CHR 0x00 \<notin> set dir" "length dir + length file + 1 < WIN_MAX_PATH"
  shows "a6o_std_path (windows_stdpaths (Some (dir @ backslash # file))) location = Some (case location of
       A6O_LOCATION_MODULES \<Rightarrow> Some (dir @ a6o_path_sep True @ ''modules'')
     | A6O_LOCATION_CONFIG_FILE \<Rightarrow> Some (dir @ a6o_path_sep True @ ''conf'' @ a6o_path_sep True @ ''armadito.conf'')
     | A6O_LOCATION_BASES \<Rightarrow> Some (dir @ a6o_path_sep True @ ''modules'' @ a6o_path_sep True @ ''DB'')
     | _ \<Rightarrow> None)"
proof -
  have dir: "length dir < WIN_MAX_PATH" "CHR 0x00 \<noteq> backslash"
    using assms(3) by (auto simp: backslash_def)
  have names: "CHR 0x00 \<notin> set WIN_MODULES_PATH" "CHR 0x00 \<notin> set WIN_CONF_DIR" "CHR 0x00 \<notin> set WIN_MODULES_DB_PATH"
    by (simp_all add: WIN_MODULES_PATH_def WIN_CONF_DIR_def WIN_MODULES_DB_PATH_def)
  note simps = with_binary_directory_def binary_directory [OF assms(1)] win_path_simps assms(2) dir names
  have "win_stdpath_module (Some (dir @ backslash # file)) = Some (Some (dir @ backslash # WIN_MODULES_PATH))"
    by (simp add: win_stdpath_module_def simps)
  moreover have "win_stdpath_config_file (Some (dir @ backslash # file))
      = Some (Some (dir @ backslash # WIN_CONF_DIR @ backslash # ''armadito.conf''))"
    by (simp add: win_stdpath_config_file_def simps)
  moreover have "win_stdpath_config_dir (Some (dir @ backslash # file)) = Some None"
    by (simp add: win_stdpath_config_dir_def simps)
  moreover have "win_stdpath_bases (Some (dir @ backslash # file))
      = Some (Some (dir @ backslash # WIN_MODULES_PATH @ backslash # WIN_MODULES_DB_PATH))"
    by (simp add: win_stdpath_bases_def simps)
  ultimately show ?thesis
    by (simp add: a6o_std_path_def windows_stdpaths_def a6o_path_sep_def WIN_MODULES_PATH_def WIN_CONF_DIR_def
        WIN_MODULES_DB_PATH_def split: a6o_std_location.split)
qed

theorem windows_locations_witness:
  "a6o_std_path (windows_stdpaths (Some (''C:'' @ backslash # ''av'' @ backslash # ''svc.exe''))) A6O_LOCATION_CONFIG_FILE
    = Some (Some (''C:'' @ backslash # ''av'' @ backslash # ''conf'' @ backslash # ''armadito.conf''))"
  using windows_locations [of "''svc.exe''" "''C:'' @ backslash # ''av''" A6O_LOCATION_CONFIG_FILE]
  by (simp add: backslash_def WIN_MAX_PATH_def a6o_path_sep_def)

end
