(* ===== verification/Daemon.thy ===== *)
theory Daemon
  imports Journal Server StdPaths
begin

text \<open>
  The daemon: going to the background (\<open>daemon/daemonize.c\<close>), its options and its start
  (\<open>daemon/main.c\<close>), over the theories of the library, the server and the journal.
\<close>

section \<open>Options\<close>

record a6o_daemon_options =
  do_no_daemon :: int
  do_unix_path :: string
  do_s_log_level :: string
  do_pid_file :: cstr

text \<open>The two paths are defined by the build.\<close>

definition default_options :: "string \<Rightarrow> string \<Rightarrow> a6o_daemon_options" where
  "default_options socket_path pid_file =
    \<lparr>do_no_daemon = 0, do_unix_path = socket_path, do_s_log_level = ''error'', do_pid_file = Some pid_file\<rparr>"

text \<open>Zero when the level is known.\<close>

definition check_log_level :: "string \<Rightarrow> bool" where
  "check_log_level s_log_level \<longleftrightarrow> s_log_level \<noteq> ''error'' \<and> s_log_level \<noteq> ''warning'' \<and> s_log_level \<noteq> ''info''
     \<and> s_log_level \<noteq> ''debug''"

text \<open>
  One result of \<open>getopt_long\<close>: the character of the option and its argument. \<open>usage\<close> and \<open>version\<close>
  print and exit. The standard library gives a question mark for an option that is not in its list.
\<close>

definition parse_option :: "char \<times> cstr \<Rightarrow> a6o_daemon_options \<Rightarrow> a6o_daemon_options process option" where
  "parse_option arg opts = (case arg of (c, optarg) \<Rightarrow>
    (if c = CHR ''h'' then Some (Exited EXIT_FAILURE)
     else if c = CHR ''V'' then Some (Exited EXIT_SUCCESS)
     else if c = CHR ''n'' then Some (Running (opts\<lparr>do_no_daemon := 1\<rparr>))
     else if c = CHR ''l'' then
       (case optarg of
          None \<Rightarrow> None
        | Some level \<Rightarrow> if check_log_level level then Some (Exited EXIT_FAILURE)
                        else Some (Running (opts\<lparr>do_s_log_level := level\<rparr>)))
     else if c = CHR ''a'' then map_option (\<lambda>p. Running (opts\<lparr>do_unix_path := p\<rparr>)) optarg
     else if c = CHR ''i'' then map_option (\<lambda>s. Running (opts\<lparr>do_pid_file := s\<rparr>)) (os_strdup optarg)
     else if c = CHR ''?'' then Some (Running opts)
     else None))"

fun parse_loop :: "(char \<times> cstr) list \<Rightarrow> a6o_daemon_options \<Rightarrow> a6o_daemon_options process option" where
  "parse_loop [] opts = Some (Running opts)"
| "parse_loop (arg # args) opts = (case parse_option arg opts of
       Some (Running opts1) \<Rightarrow> parse_loop args opts1
     | r \<Rightarrow> r)"

text \<open>\<open>remaining\<close>: there are arguments that are not options.\<close>

definition parse_options ::
  "string \<Rightarrow> string \<Rightarrow> (char \<times> cstr) list \<Rightarrow> bool \<Rightarrow> a6o_daemon_options process option" where
  "parse_options socket_path pid_file args remaining =
    (case parse_loop args (default_options socket_path pid_file) of
       Some (Running opts) \<Rightarrow> Some (if remaining then Exited EXIT_FAILURE else Running opts)
     | r \<Rightarrow> r)"

section \<open>Starting\<close>

text \<open>The calls of the daemon to the system. Writing a file is three calls, which may fail.\<close>

record 's daemon_os =
  dm_fork :: "'s \<Rightarrow> int \<times> 's"
  dm_umask :: "nat \<Rightarrow> 's \<Rightarrow> 's"
  dm_setsid :: "'s \<Rightarrow> int \<times> 's"
  dm_chdir :: "string \<Rightarrow> 's \<Rightarrow> int \<times> 's"
  dm_close :: "nat \<Rightarrow> 's \<Rightarrow> 's"
  dm_getpid :: "'s \<Rightarrow> int"
  dm_fopen :: "string \<Rightarrow> 's \<Rightarrow> bool \<times> 's"
  dm_fprintf :: "string \<Rightarrow> 's \<Rightarrow> int \<times> 's"
  dm_fclose :: "'s \<Rightarrow> int \<times> 's"
  dm_contents :: "'s \<Rightarrow> string \<Rightarrow> string option"
  dm_readdir :: "'s \<Rightarrow> string \<Rightarrow> string list option"
  dm_sockets :: "'s socket_os"

definition daemonize :: "'s daemon_os \<Rightarrow> 's \<Rightarrow> 's process" where
  "daemonize os s = (case dm_fork os s of (pid, s1) \<Rightarrow>
     if pid < 0 then Exited EXIT_FAILURE
     else if pid > 0 then Exited EXIT_SUCCESS
     else (case dm_setsid os (dm_umask os 0 s1) of (sid, s2) \<Rightarrow>
       if sid < 0 then Exited EXIT_FAILURE
       else (case dm_chdir os ''/'' s2 of (r, s3) \<Rightarrow>
         if r < 0 then Exited EXIT_FAILURE
         else Running (dm_close os 2 (dm_close os 1 (dm_close os 0 s3))))))"

text \<open>A failure is logged with level error, which aborts before the \<open>exit\<close>.\<close>

definition create_pid_file :: "'s daemon_os \<Rightarrow> string \<Rightarrow> 's \<Rightarrow> 's option" where
  "create_pid_file os pidfile s = (case dm_fopen os pidfile s of (opened, s1) \<Rightarrow>
     if \<not> opened then None
     else (case dm_fprintf os (format_ld (dm_getpid os s1) @ [CHR 0x0A]) s1 of (n, s2) \<Rightarrow>
       if n < 0 then None
       else (case dm_fclose os s2 of (r, s3) \<Rightarrow> if r \<noteq> 0 then None else Some s3)))"

definition create_server_socket :: "'s daemon_os \<Rightarrow> string \<Rightarrow> 's \<Rightarrow> (int \<times> 's) option" where
  "create_server_socket os unix_path s = do {
     (server_sock, s1) \<leftarrow> unix_server_listen (dm_sockets os) unix_path s;
     if server_sock < 0 then None else Some (server_sock, s1)
   }"

text \<open>\<open>log\<close> is \<open>a6o_log\<close> for the domain of the service in the state that was set up.\<close>

type_synonym logger = "u32 \<Rightarrow> string \<Rightarrow> syslog \<Rightarrow> syslog option"

definition load_conf ::
  "'s daemon_os \<Rightarrow> os_stdpaths \<Rightarrow> logger \<Rightarrow> 's \<Rightarrow> a6o_conf \<times> syslog \<Rightarrow> (a6o_conf \<times> syslog) process option" where
  "load_conf os paths log s st = (case st of (conf, sl) \<Rightarrow> do {
     conf_file \<leftarrow> a6o_std_path paths A6O_LOCATION_CONFIG_FILE;
     sl1 \<leftarrow> log A6O_LOG_LEVEL_INFO (''loading configuration file '' @ format_s conf_file) sl;
     path \<leftarrow> conf_file;
     (ret, conf1) \<leftarrow> a6o_conf_load_file conf path (dm_contents os s path);
     if ctrue ret then map_option (\<lambda>_. Exited EXIT_FAILURE) (log A6O_LOG_LEVEL_WARNING ''loading configuration failed'' sl1)
     else Some (Running (conf1, sl1))
   })"

fun load_entries ::
  "'s daemon_os \<Rightarrow> string \<Rightarrow> logger \<Rightarrow> 's \<Rightarrow> string list \<Rightarrow> a6o_conf \<times> syslog \<Rightarrow> (a6o_conf \<times> syslog) process option" where
  "load_entries os conf_dir log s [] st = Some (Running st)"
| "load_entries os conf_dir log s (file_name # rest) (conf, sl) =
    (if file_name = ''.'' \<or> file_name = ''..'' then load_entries os conf_dir log s rest (conf, sl)
     else let len = length file_name
          in if len > 5 \<and> drop (len - 5) file_name = ''.conf'' then
               let full_path = conf_dir @ ''/'' @ file_name
               in do {
                 sl1 \<leftarrow> log A6O_LOG_LEVEL_INFO (''loading configuration file '' @ full_path) sl;
                 (ret, conf1) \<leftarrow> a6o_conf_load_file conf full_path (dm_contents os s full_path);
                 if ctrue ret
                 then map_option (\<lambda>_. Exited EXIT_FAILURE) (log A6O_LOG_LEVEL_WARNING ''loading configuration failed'' sl1)
                 else load_entries os conf_dir log s rest (conf1, sl1)
               }
             else load_entries os conf_dir log s rest (conf, sl))"

text \<open>\<open>opendir\<close> on NULL is undefined. The text of the error is left out of the warning.\<close>

definition load_conf_dir ::
  "'s daemon_os \<Rightarrow> os_stdpaths \<Rightarrow> logger \<Rightarrow> 's \<Rightarrow> a6o_conf \<times> syslog \<Rightarrow> (a6o_conf \<times> syslog) process option" where
  "load_conf_dir os paths log s st = (case st of (conf, sl) \<Rightarrow> do {
     conf_dir \<leftarrow> a6o_std_path paths A6O_LOCATION_CONFIG_DIR;
     sl1 \<leftarrow> log A6O_LOG_LEVEL_INFO (''loading configuration directory '' @ format_s conf_dir) sl;
     d \<leftarrow> conf_dir;
     (case dm_readdir os s d of
        None \<Rightarrow> map_option (\<lambda>sl2. Running (conf, sl2))
                 (log A6O_LOG_LEVEL_WARNING (''error opening configuration directory '' @ d) sl1)
      | Some names \<Rightarrow> load_entries os d log s names (conf, sl1))
   })"

text \<open>
  A daemon that was started and waits for clients. The system behind the descriptors, files and
  sockets is \<open>dn_sys\<close>, that behind the modules is part of \<open>dn_modules\<close>. The modules share the event
  source of \<open>dn_armadito\<close>; their copy is the one from before the journal was added.
\<close>

record ('s, 'w, 'd) daemon =
  dn_sys :: 's
  dn_log :: "syslog log_state"
  dn_syslog :: syslog
  dn_conf :: a6o_conf
  dn_armadito :: "('w, 'd) armadito"
  dn_modules :: "('w, 'd) builtin"
  dn_server :: server

record ('s, 'w, 'd) daemon_env =
  dv_os :: "'s daemon_os"
  dv_paths :: os_stdpaths
  dv_lib :: "('w, 'd) armadito_env"
  dv_default_handler :: "syslog log_handler"
  dv_alloc :: addr
  dv_handle :: nat

text \<open>
  \<open>dv_alloc\<close> is the address of the entry of the journal and \<open>dv_handle\<close> the pointer to the library
  that connections carry. The main loop, which runs the callbacks, follows.
\<close>

definition start_daemon ::
  "('s, 'w, 'd) daemon_env \<Rightarrow> string \<Rightarrow> a6o_daemon_options \<Rightarrow> ('w, 'd) builtin \<Rightarrow> syslog log_state \<times> syslog \<times> 's
    \<Rightarrow> ('s, 'w, 'd) daemon process option" where
  "start_daemon env progname opts b st = (case st of (lg, sl, s) \<Rightarrow>
    (case log_init (do_s_log_level opts) (\<not> ctrue (do_no_daemon opts)) (lg, sl) of (lg1, sl1) \<Rightarrow>
     let os = dv_os env; log = a6o_log (dv_default_handler env) lg1 A6O_LOG_SERVICE
     in case (if \<not> ctrue (do_no_daemon opts) then daemonize os s else Running s) of
       Exited status \<Rightarrow> Some (Exited status)
     | Running s1 \<Rightarrow> do {
         s2 \<leftarrow> (case do_pid_file opts of None \<Rightarrow> Some s1 | Some pidfile \<Rightarrow> create_pid_file os pidfile s1);
         sl2 \<leftarrow> log A6O_LOG_LEVEL_NONE
                 (''starting '' @ progname @ (if ctrue (do_no_daemon opts) then '''' else '' in daemon mode'')) sl1;
         p1 \<leftarrow> load_conf os (dv_paths env) log s2 (a6o_conf_new, sl2);
         (case p1 of Exited status \<Rightarrow> Some (Exited status) | Running st1 \<Rightarrow> do {
           p2 \<leftarrow> load_conf_dir os (dv_paths env) log s2 st1;
           (case p2 of Exited status \<Rightarrow> Some (Exited status) | Running (conf, sl3) \<Rightarrow> do {
             (u, w) \<leftarrow> a6o_open (dv_lib env) conf (Some b);
             b1 \<leftarrow> w;
             (case journal_init (dv_alloc env) (u, sl3) of (u1, sl4) \<Rightarrow> do {
               (server_sock, s3) \<leftarrow> create_server_socket os (do_unix_path opts) s2;
               let sv = server_new (dv_handle env) server_sock;
               sl5 \<leftarrow> log A6O_LOG_LEVEL_INFO (''listening on '' @ do_unix_path opts) sl4;
               Some (Running \<lparr>dn_sys = s3, dn_log = lg1, dn_syslog = sl5, dn_conf = conf, dn_armadito = u1,
                              dn_modules = b1, dn_server = sv\<rparr>)
             })
           })
         })
       }))"

definition daemon_main ::
  "('s, 'w, 'd) daemon_env \<Rightarrow> string \<Rightarrow> string \<Rightarrow> (char \<times> cstr) list \<Rightarrow> bool \<Rightarrow> string \<Rightarrow> ('w, 'd) builtin
    \<Rightarrow> syslog log_state \<times> syslog \<times> 's \<Rightarrow> ('s, 'w, 'd) daemon process option" where
  "daemon_main env socket_path pid_file args remaining argv0 b st =
    (case parse_options socket_path pid_file args remaining of
       None \<Rightarrow> None
     | Some (Exited status) \<Rightarrow> Some (Exited status)
     | Some (Running opts) \<Rightarrow> start_daemon env argv0 opts b st)"

section \<open>The configuration of the daemon\<close>

definition total_log :: "logger \<Rightarrow> bool" where
  "total_log log \<longleftrightarrow> (\<forall>level \<in> {A6O_LOG_LEVEL_NONE, A6O_LOG_LEVEL_WARNING, A6O_LOG_LEVEL_INFO}. \<forall>msg sl. log level msg sl \<noteq> None)"

lemma total_logD:
  "total_log log \<Longrightarrow> level \<in> {A6O_LOG_LEVEL_NONE, A6O_LOG_LEVEL_WARNING, A6O_LOG_LEVEL_INFO} \<Longrightarrow> \<exists>sl1. log level msg sl = Some sl1"
  unfolding total_log_def by blast

lemma a6o_log_total: "total_log (a6o_log dflt lg domain)"
  by (auto simp: total_log_def a6o_log_def Let_def log_level_defs)

abbreviation main_conf_file :: "build_dirs \<Rightarrow> string" where
  "main_conf_file dirs \<equiv> LIBARMADITO_CONF_DIR dirs @ ''/armadito.conf''"

lemma linux_locations:
  "a6o_std_path (linux_stdpaths dirs) A6O_LOCATION_CONFIG_FILE = Some (Some (main_conf_file dirs))"
  "a6o_std_path (linux_stdpaths dirs) A6O_LOCATION_CONFIG_DIR = Some (Some (LIBARMADITO_CONF_DIR dirs @ ''/conf.d''))"
  by (simp_all add: a6o_std_path_def linux_stdpaths_def)

lemma load_conf_loads:
  assumes "total_log log" "conf_inv conf"
  shows "\<exists>conf1 sl1. load_conf os (linux_stdpaths dirs) log s (conf, sl) = Some (Running (conf1, sl1))
    \<and> a6o_conf_load_file conf (main_conf_file dirs) (dm_contents os s (main_conf_file dirs)) = Some (0, conf1)
    \<and> extends_conf conf conf1"
proof -
  obtain conf1 where c: "a6o_conf_load_file conf (main_conf_file dirs) (dm_contents os s (main_conf_file dirs)) = Some (0, conf1)"
      "extends_conf conf conf1"
    using load_file_extends [OF assms(2)] by blast
  obtain sl1 where "log A6O_LOG_LEVEL_INFO (''loading configuration file '' @ format_s (Some (main_conf_file dirs))) sl = Some sl1"
    using total_logD [OF assms(1)] by blast
  with c show ?thesis
    by (simp add: load_conf_def linux_locations)
qed

lemma load_entries_extend:
  assumes "total_log log" "conf_inv conf"
  shows "\<exists>conf1 sl1. load_entries os d log s names (conf, sl) = Some (Running (conf1, sl1)) \<and> extends_conf conf conf1"
  using assms(2)
proof (induction names arbitrary: conf sl)
  case Nil
  then show ?case
    by (simp add: extends_conf_refl)
next
  case (Cons name names)
  let ?path = "d @ ''/'' @ name"
  obtain conf1 where c: "a6o_conf_load_file conf ?path (dm_contents os s ?path) = Some (0, conf1)" "extends_conf conf conf1"
    using load_file_extends [OF Cons.prems] by blast
  obtain sl1 where l: "log A6O_LOG_LEVEL_INFO (''loading configuration file '' @ ?path) sl = Some sl1"
    using total_logD [OF assms(1)] by blast
  have "conf_inv conf1"
    using c(2) by (simp add: extends_conf_def)
  with Cons.IH [of conf1 sl1] obtain conf2 sl2 where
    "load_entries os d log s names (conf1, sl1) = Some (Running (conf2, sl2))" "extends_conf conf conf2"
    using extends_conf_trans [OF c(2)] by blast
  moreover obtain conf3 sl3 where "load_entries os d log s names (conf, sl) = Some (Running (conf3, sl3))" "extends_conf conf conf3"
    using Cons by blast
  ultimately show ?case
    using c(1) l by (cases "length name > 5 \<and> drop (length name - 5) name = ''.conf''") (auto simp: Let_def)
qed

lemma load_conf_dir_extends:
  assumes "total_log log" "conf_inv conf"
  shows "\<exists>conf1 sl1. load_conf_dir os (linux_stdpaths dirs) log s (conf, sl) = Some (Running (conf1, sl1)) \<and> extends_conf conf conf1"
proof -
  let ?d = "LIBARMADITO_CONF_DIR dirs @ ''/conf.d''"
  obtain sl1 where l: "log A6O_LOG_LEVEL_INFO (''loading configuration directory '' @ format_s (Some ?d)) sl = Some sl1"
    using total_logD [OF assms(1)] by blast
  show ?thesis
  proof (cases "dm_readdir os s ?d")
    case None
    obtain sl2 where "log A6O_LOG_LEVEL_WARNING (''error opening configuration directory '' @ ?d) sl1 = Some sl2"
      using total_logD [OF assms(1)] by blast
    with None l show ?thesis
      by (simp add: load_conf_dir_def linux_locations extends_conf_refl [OF assms(2)])
  next
    case (Some names)
    with l load_entries_extend [OF assms, of os ?d s names sl1] show ?thesis
      by (simp add: load_conf_dir_def linux_locations)
  qed
qed

text \<open>
  which file decides. Whatever the main file and those of the configuration directory hold, the daemon
  gets a well formed configuration, and every key of the main file has the value it has there: the
  files of the directory add keys but change none.
\<close>

theorem main_file_wins:
  assumes "total_log log"
  shows "\<exists>conf1 sl1 conf2 sl2. load_conf os (linux_stdpaths dirs) log s (a6o_conf_new, sl) = Some (Running (conf1, sl1))
    \<and> a6o_conf_load_file a6o_conf_new (main_conf_file dirs) (dm_contents os s (main_conf_file dirs)) = Some (0, conf1)
    \<and> load_conf_dir os (linux_stdpaths dirs) log s (conf1, sl1) = Some (Running (conf2, sl2)) \<and> conf_inv conf2
    \<and> (\<forall>sec key w. a6o_conf_has_key conf1 sec key \<longrightarrow> a6o_conf_get_value conf2 sec key w = a6o_conf_get_value conf1 sec key w)"
proof -
  obtain conf1 sl1 where c: "load_conf os (linux_stdpaths dirs) log s (a6o_conf_new, sl) = Some (Running (conf1, sl1))"
      "a6o_conf_load_file a6o_conf_new (main_conf_file dirs) (dm_contents os s (main_conf_file dirs)) = Some (0, conf1)"
      "extends_conf a6o_conf_new conf1"
    using load_conf_loads [OF assms conf_new_inv, of os dirs s sl] by blast
  have inv: "conf_inv conf1"
    using c(3) by (simp add: extends_conf_def)
  obtain conf2 sl2 where d: "load_conf_dir os (linux_stdpaths dirs) log s (conf1, sl1) = Some (Running (conf2, sl2))" "extends_conf conf1 conf2"
    using load_conf_dir_extends [OF assms inv, of os dirs s sl1] by blast
  have "conf_inv conf2"
    using d(2) by (simp add: extends_conf_def)
  with c(1,2) d(1) extends_conf_get [OF d(2) inv] show ?thesis
    by blast
qed

section \<open>From the configuration file to the protection\<close>

text \<open>The calls to the system succeed, and the process is the child.\<close>

definition cooperative :: "'s daemon_os \<Rightarrow> bool" where
  "cooperative os \<longleftrightarrow> (\<forall>s. fst (dm_fork os s) = 0 \<and> 0 \<le> fst (dm_setsid os s) \<and> (\<forall>p. 0 \<le> fst (dm_chdir os p s))
    \<and> (\<forall>p. fst (dm_fopen os p s)) \<and> (\<forall>t. 0 \<le> fst (dm_fprintf os t s)) \<and> fst (dm_fclose os s) = 0
    \<and> 0 \<le> fst (sk_socket (dm_sockets os) s) \<and> (\<forall>fd a. 0 \<le> fst (sk_bind (dm_sockets os) fd a s))
    \<and> (\<forall>fd n. 0 \<le> fst (sk_listen (dm_sockets os) fd n s)))"

lemma cooperative_steps:
  assumes "cooperative os"
  shows "\<exists>s1. daemonize os s = Running s1" "\<exists>s1. create_pid_file os f s = Some s1"
    "length p < UNIX_PATH_MAX \<Longrightarrow> \<exists>fd s1. create_server_socket os p s = Some (fd, s1) \<and> 0 \<le> fd"
proof -
  obtain s1 where f: "dm_fork os s = (0, s1)"
    using assms unfolding cooperative_def by (metis prod.collapse)
  obtain sid s2 where d: "dm_setsid os (dm_umask os 0 s1) = (sid, s2)" "0 \<le> sid"
    using assms unfolding cooperative_def by (metis prod.collapse)
  obtain r s3 where "dm_chdir os ''/'' s2 = (r, s3)" "0 \<le> r"
    using assms unfolding cooperative_def by (metis prod.collapse)
  with f d show "\<exists>s1. daemonize os s = Running s1"
    by (simp add: daemonize_def)
  obtain s4 where f4: "dm_fopen os f s = (True, s4)"
    using assms unfolding cooperative_def by (metis (full_types) prod.collapse)
  obtain n s5 where f5: "dm_fprintf os (format_ld (dm_getpid os s4) @ [CHR 0x0A]) s4 = (n, s5)" "0 \<le> n"
    using assms unfolding cooperative_def by (metis prod.collapse)
  obtain s6 where f6: "dm_fclose os s5 = (0, s6)"
    using assms unfolding cooperative_def by (metis prod.collapse)
  from f4 f5 f6 show "\<exists>s1. create_pid_file os f s = Some s1"
    by (simp add: create_pid_file_def)
  assume len: "length p < UNIX_PATH_MAX"
  obtain fd s7 where k: "sk_socket (dm_sockets os) s = (fd, s7)" by force
  let ?s7 = "if \<not> is_abstract p then sk_unlink (dm_sockets os) p s7 else s7"
  obtain r8 s8 where k8: "sk_bind (dm_sockets os) fd (unix_sockaddr p) ?s7 = (r8, s8)" by force
  obtain r9 s9 where k9: "sk_listen (dm_sockets os) fd 5 s8 = (r9, s9)" by force
  have "0 \<le> fd" "0 \<le> r8" "0 \<le> r9"
    using assms k k8 k9 unfolding cooperative_def by (metis fst_conv)+
  with len k k8 k9 show "\<exists>fd s1. create_server_socket os p s = Some (fd, s1) \<and> 0 \<le> fd"
    by (auto simp: create_server_socket_def unix_server_listen_def Let_def)
qed

text \<open>The start, up to what opening the library does with the configuration.\<close>

lemma daemon_starts:
  assumes "cooperative (dv_os env)" "dv_paths env = linux_stdpaths dirs" "length (do_unix_path opts) < UNIX_PATH_MAX"
    and "\<forall>s. dm_contents (dv_os env) s (main_conf_file dirs) = contents"
  shows "\<exists>conf1 conf2. a6o_conf_load_file a6o_conf_new (main_conf_file dirs) contents = Some (0, conf1)
    \<and> extends_conf a6o_conf_new conf1 \<and> extends_conf conf1 conf2
    \<and> (\<forall>u b1. a6o_open (dv_lib env) conf2 (Some b) = Some (u, Some b1) \<longrightarrow>
        (\<exists>dn. start_daemon env progname opts b st = Some (Running dn) \<and> dn_modules dn = b1 \<and> dn_conf dn = conf2
          \<and> 0 \<le> sv_listen_sock (dn_server dn)))"
proof -
  obtain lg sl s where st: "st = (lg, sl, s)"
    by (cases st)
  obtain lg1 sl1 where li: "log_init (do_s_log_level opts) (\<not> ctrue (do_no_daemon opts)) (lg, sl) = (lg1, sl1)"
    by force
  let ?log = "a6o_log (dv_default_handler env) lg1 A6O_LOG_SERVICE"
  have log_total: "total_log ?log"
    by (rule a6o_log_total)
  note log = total_logD [OF log_total]
  obtain s1 where s1: "(if \<not> ctrue (do_no_daemon opts) then daemonize (dv_os env) s else Running s) = Running s1"
    using cooperative_steps(1) [OF assms(1)] by (cases "ctrue (do_no_daemon opts)") auto
  obtain s2 where s2: "(case do_pid_file opts of None \<Rightarrow> Some s1 | Some pidfile \<Rightarrow> create_pid_file (dv_os env) pidfile s1) = Some s2"
    using cooperative_steps(2) [OF assms(1)] by (cases "do_pid_file opts") auto
  obtain sl2 where sl2: "?log A6O_LOG_LEVEL_NONE
      (''starting '' @ progname @ (if ctrue (do_no_daemon opts) then '''' else '' in daemon mode'')) sl1 = Some sl2"
    using log by blast
  obtain conf1 sl3 where c1: "load_conf (dv_os env) (dv_paths env) ?log s2 (a6o_conf_new, sl2) = Some (Running (conf1, sl3))"
      "a6o_conf_load_file a6o_conf_new (main_conf_file dirs) contents = Some (0, conf1)" "extends_conf a6o_conf_new conf1"
    using load_conf_loads [OF log_total conf_new_inv, of "dv_os env" dirs s2 sl2] assms(2,4) by auto
  have "conf_inv conf1"
    using c1(3) by (simp add: extends_conf_def)
  from load_conf_dir_extends [OF log_total this, of "dv_os env" dirs s2 sl3]
  obtain conf2 sl4 where c2: "load_conf_dir (dv_os env) (dv_paths env) ?log s2 (conf1, sl3) = Some (Running (conf2, sl4))" "extends_conf conf1 conf2"
    using assms(2) by auto
  have "\<exists>dn. start_daemon env progname opts b st = Some (Running dn) \<and> dn_modules dn = b1 \<and> dn_conf dn = conf2
      \<and> 0 \<le> sv_listen_sock (dn_server dn)" if o: "a6o_open (dv_lib env) conf2 (Some b) = Some (u, Some b1)" for u b1
  proof -
    obtain u1 sl5 where j: "journal_init (dv_alloc env) (u, sl4) = (u1, sl5)"
      by force
    obtain fd s3 where k: "create_server_socket (dv_os env) (do_unix_path opts) s2 = Some (fd, s3)" "0 \<le> fd"
      using cooperative_steps(3) [OF assms(1,3)] by blast
    obtain sl6 where l: "?log A6O_LOG_LEVEL_INFO (''listening on '' @ do_unix_path opts) sl5 = Some sl6"
      using log by blast
    show ?thesis
      unfolding start_daemon_def st by (simp only: prod.case li Let_def s1 process.case s2 sl2 c1 c2 o j k l bind.bind_lunit option.case)
        (simp add: k(2) server_new_def)
  qed
  with c1 c2 show ?thesis
    by blast
qed

lemma extends_strings_set:
  assumes "extends_conf a6o_conf_new conf"
  shows "conf_strings_set conf"
proof -
  have inv: "conf_inv conf" "CV_STRING None \<notin> ran (conf_map conf)"
    using assms by (simp_all add: extends_conf_def conf_new_map)
  show ?thesis
    unfolding conf_strings_set_def
  proof (intro ballI, clarify)
    fix s k assume "((s, k), CV_STRING None) \<in> set (conf_alist conf)"
    then have "conf_map conf (s, k) = Some (CV_STRING None)"
      using conf_alist_distinct [OF inv(1)] by (simp add: conf_map_def)
    with inv(2) show False
      by (blast intro: ranI)
  qed
qed

lemma protection_kept:
  assumes "conf_map conf \<subseteq>\<^sub>m conf_map conf'"
  shows "protection_enabled conf \<noteq> 0 \<Longrightarrow> protection_enabled conf' = protection_enabled conf"
    "set (protected_directories conf) \<subseteq> set (protected_directories conf')"
proof -
  have kept: "conf_map conf' k = Some v" if "conf_map conf k = Some v" for k v
    using assms that by (metis domI map_le_def)
  show "protection_enabled conf' = protection_enabled conf" if "protection_enabled conf \<noteq> 0"
    using that kept [of "(''on-access-linux'', ''enable'')"]
    by (cases "conf_map conf (''on-access-linux'', ''enable'')") (simp_all add: protection_enabled_def)
  show "set (protected_directories conf) \<subseteq> set (protected_directories conf')"
    using kept [of "(''on-access-linux'', ''directory'')"]
    by (cases "conf_map conf (''on-access-linux'', ''directory'')") (simp_all add: protected_directories_def)
qed

text \<open>
  the daemon protects what its configuration file says. A configuration that enables the protection is
  saved as the main file; whatever the configuration directory holds, the daemon then starts, listens
  on its socket, and leaves a monitor whose two pending callbacks mark and watch every directory below
  the configured ones.
\<close>

theorem daemon_protects_directories:
  assumes "cooperative (dv_os env)" "dv_paths env = linux_stdpaths dirs" "length (do_unix_path opts) < UNIX_PATH_MAX"
    and "printable_conf conf" "a6o_conf_save_file conf path True = Some (0, contents)"
    and "\<forall>s. dm_contents (dv_os env) s (main_conf_file dirs) = Some contents" "protection_enabled conf \<noteq> 0"
    and "private_loader (dv_lib env)" "kernel_laws (ae_os (dv_lib env)) marks watches" "accepts (ae_os (dv_lib env))"
    and "\<forall>w. fst (ao_bus (ae_os (dv_lib env)) w)" "watches (bw_kernel b) = (\<lambda>_. None)"
  shows "\<exists>dn m1 m2. start_daemon env progname opts b st = Some (Running dn) \<and> 0 \<le> sv_listen_sock (dn_server dn)
    \<and> bw_monitor (dn_modules dn) = Some m1 \<and> am_run (ae_os (dv_lib env)) gv m1 [StartReady, CommandReady] m2
    \<and> (\<forall>d \<in> set (protected_directories conf).
         dirs_of d (ao_dir (ae_os (dv_lib env)) d (bw_kernel b)) \<subseteq> coverage marks watches (am_world m2))"
proof -
  obtain conf1 conf2 where c: "a6o_conf_load_file a6o_conf_new (main_conf_file dirs) (Some contents) = Some (0, conf1)"
      "extends_conf a6o_conf_new conf1" "extends_conf conf1 conf2"
      "\<And>u b1. a6o_open (dv_lib env) conf2 (Some b) = Some (u, Some b1) \<Longrightarrow>
        \<exists>dn. start_daemon env progname opts b st = Some (Running dn) \<and> dn_modules dn = b1 \<and> dn_conf dn = conf2
          \<and> 0 \<le> sv_listen_sock (dn_server dn)"
    using daemon_starts [OF assms(1-3,6), of b progname st] by blast
  have "contents = sections_text (conf_sections conf)"
    using save_text [OF assms(4), of path] assms(5) by simp
  then have "conf_map conf1 = conf_map conf"
    using load_saved [OF assms(4) conf_new_inv, of "main_conf_file dirs"] c(1) by (simp add: conf_new_map)
  then have le: "conf_map conf \<subseteq>\<^sub>m conf_map conf2"
    using c(3) by (simp add: extends_conf_def)
  have inv: "conf_inv conf2" "conf_strings_set conf2"
    using c(3) extends_strings_set [OF extends_conf_trans [OF c(2,3)]] by (simp_all add: extends_conf_def)
  have "protection_enabled conf2 \<noteq> 0"
    using protection_kept(1) [OF le] assms(7) by simp
  from open_protects_directories [OF assms(8-12) inv this, of gv]
  obtain u b1 m1 m2 where o: "a6o_open (dv_lib env) conf2 (Some b) = Some (u, Some b1)" "bw_monitor b1 = Some m1"
      "am_run (ae_os (dv_lib env)) gv m1 [StartReady, CommandReady] m2"
      "\<forall>d \<in> set (protected_directories conf2).
         dirs_of d (ao_dir (ae_os (dv_lib env)) d (bw_kernel b)) \<subseteq> coverage marks watches (am_world m2)"
    by blast
  with c(4) [OF o(1)] protection_kept(2) [OF le] show ?thesis
    by blast
qed

section \<open>Options and log\<close>

lemma parse_option_level:
  assumes "parse_option arg opts = Some (Running opts1)" "\<not> check_log_level (do_s_log_level opts)"
  shows "\<not> check_log_level (do_s_log_level opts1)"
  using assms by (auto simp: parse_option_def split: prod.splits if_splits option.splits)

lemma parse_loop_level:
  "parse_loop args opts = Some (Running opts1) \<Longrightarrow> \<not> check_log_level (do_s_log_level opts)
    \<Longrightarrow> \<not> check_log_level (do_s_log_level opts1)"
proof (induction args arbitrary: opts)
  case (Cons arg args)
  then obtain opts2 where "parse_option arg opts = Some (Running opts2)" "parse_loop args opts2 = Some (Running opts1)"
    by (auto split: option.splits process.splits)
  with Cons.IH [of opts2] Cons.prems(2) parse_option_level show ?case
    by blast
qed simp

text \<open>
  options that are accepted carry a known log level, so the log is never set up with the value for an
  unknown one.
\<close>

theorem parsed_level_known:
  assumes "parse_options socket_path pid_file args remaining = Some (Running opts)"
  shows "get_a6o_log_level_from_str (do_s_log_level opts)
    \<in> {A6O_LOG_LEVEL_ERROR, A6O_LOG_LEVEL_WARNING, A6O_LOG_LEVEL_INFO, A6O_LOG_LEVEL_DEBUG}"
proof -
  have "parse_loop args (default_options socket_path pid_file) = Some (Running opts)"
    using assms by (auto simp: parse_options_def split: option.splits process.splits if_splits)
  then have "\<not> check_log_level (do_s_log_level opts)"
    by (rule parse_loop_level) (simp add: check_log_level_def default_options_def)
  then show ?thesis
    by (auto simp: check_log_level_def get_a6o_log_level_from_str_def)
qed

text \<open>
  the option \<open>-p\<close>, which the string given to \<open>getopt_long\<close> has and the \<open>switch\<close> has not, aborts.
\<close>

lemma parse_loop_append:
  "parse_loop args opts = Some (Running opts1) \<Longrightarrow> parse_loop (args @ rest) opts = parse_loop rest opts1"
  by (induction args arbitrary: opts) (auto split: option.splits process.splits)

theorem option_p_aborts:
  assumes "parse_options socket_path pid_file args False = Some (Running opts)"
  shows "parse_options socket_path pid_file (args @ (CHR ''p'', Some path) # rest) remaining = None"
proof -
  have "parse_loop args (default_options socket_path pid_file) = Some (Running opts)"
    using assms by (auto simp: parse_options_def split: option.splits process.splits)
  from parse_loop_append [OF this] show ?thesis
    by (simp add: parse_options_def parse_option_def)
qed

text \<open>How a start that succeeded ends.\<close>

lemma journal_name: "journal_init a (u, sl) = (u1, sl1) \<Longrightarrow> sl_ident sl1 = Some ''armadito-journal''"
  by (auto simp: journal_init_def Let_def openlog_def)

lemma started_daemon_log:
  assumes "start_daemon env progname opts b (lg, sl, s) = Some (Running dn)"
  shows "\<exists>sl1. sl_ident sl1 = Some ''armadito-journal''
    \<and> a6o_log (dv_default_handler env) (dn_log dn) A6O_LOG_SERVICE A6O_LOG_LEVEL_INFO (''listening on '' @ do_unix_path opts) sl1 = Some (dn_syslog dn)
    \<and> dn_log dn = fst (log_init (do_s_log_level opts) (\<not> ctrue (do_no_daemon opts)) (lg, sl))"
proof -
  obtain lg1 sl0 where li: "log_init (do_s_log_level opts) (\<not> ctrue (do_no_daemon opts)) (lg, sl) = (lg1, sl0)"
    by force
  show ?thesis
    using assms unfolding start_daemon_def Let_def prod.case li
    by (auto elim!: bindE dest!: journal_name split: prod.split_asm process.split_asm simp del: append.simps) blast
qed

text \<open>
  the journal takes the name of the process for syslog: in a daemon that was started, the messages
  of the log carry the name of the journal too.
\<close>

theorem log_tagged_as_journal:
  assumes "start_daemon env progname opts b st = Some (Running dn)" "do_no_daemon opts = 0"
    and "level \<noteq> A6O_LOG_LEVEL_NONE" "level \<le> lg_max_level (dn_log dn)" "level AND A6O_LOG_LEVEL_ERROR = 0"
  shows "a6o_log dflt (dn_log dn) domain level message (dn_syslog dn)
    = Some (dn_syslog dn\<lparr>sl_lines := sl_lines (dn_syslog dn)
        @ [(Some ''armadito-journal'', priority_from_level level, ''<'' @ a6o_log_level_str level @ ''> '' @ message @ [CHR 0x0A])]\<rparr>)"
proof -
  obtain lg sl s where st: "st = (lg, sl, s)"
    by (cases st)
  obtain sl1 where j: "sl_ident sl1 = Some ''armadito-journal''"
      "a6o_log (dv_default_handler env) (dn_log dn) A6O_LOG_SERVICE A6O_LOG_LEVEL_INFO (''listening on '' @ do_unix_path opts) sl1 = Some (dn_syslog dn)"
      "dn_log dn = fst (log_init (do_s_log_level opts) (\<not> ctrue (do_no_daemon opts)) (lg, sl))"
    using started_daemon_log [OF assms(1) [unfolded st]] by blast
  have h: "lg_handler (dn_log dn) = Some a6o_syslog_handler"
    using j(3) assms(2) by (simp add: log_init_def log_init_with_a6o_log_def a6o_log_set_handler_def Let_def)
  have "dn_syslog dn \<in> {sl1, a6o_syslog_handler A6O_LOG_SERVICE A6O_LOG_LEVEL_INFO (''listening on '' @ do_unix_path opts) sl1}"
    using j(2) h by (auto simp: a6o_log_def Let_def split: if_splits)
  with j(1) have "sl_ident (dn_syslog dn) = Some ''armadito-journal''"
    by (auto simp: a6o_syslog_handler_def syslog_write_def)
  with h assms(3-5) show ?thesis
    by (auto simp: a6o_log_def Let_def a6o_syslog_handler_def syslog_write_def)
qed

section \<open>Examples\<close>

definition sample_dirs :: build_dirs where
  "sample_dirs = \<lparr>LIBARMADITO_MODULES_PATH = ''/usr/lib/armadito/modules'', LIBARMADITO_CONF_DIR = ''/etc/armadito'',
     LIBARMADITO_BASES_DIR = ''/var/lib/armadito/bases''\<rparr>"

definition quiet_daemon_os :: "(string \<Rightarrow> string option) \<Rightarrow> unit daemon_os" where
  "quiet_daemon_os files = \<lparr>dm_fork = (\<lambda>s. (0, s)), dm_umask = (\<lambda>_ s. s), dm_setsid = (\<lambda>s. (12, s)), dm_chdir = (\<lambda>_ s. (0, s)),
     dm_close = (\<lambda>_ s. s), dm_getpid = (\<lambda>_. 12), dm_fopen = (\<lambda>_ s. (True, s)), dm_fprintf = (\<lambda>t s. (int (length t), s)),
     dm_fclose = (\<lambda>s. (0, s)), dm_contents = (\<lambda>_. files), dm_readdir = (\<lambda>_ _. Some [''.'', ''..'', ''clamav.conf'']),
     dm_sockets = quiet_sockets\<rparr>"

definition sample_daemon_env :: "string \<Rightarrow> (unit, kernel, unit) daemon_env" where
  "sample_daemon_env contents = \<lparr>dv_os = quiet_daemon_os [main_conf_file sample_dirs \<mapsto> contents], dv_paths = linux_stdpaths sample_dirs,
     dv_lib = opening_env, dv_default_handler = (\<lambda>_ _ _ w. w), dv_alloc = 1, dv_handle = 5\<rparr>"

lemma quiet_cooperative: "cooperative (quiet_daemon_os files)"
  by (simp add: cooperative_def quiet_daemon_os_def quiet_sockets_def)

lemma protecting_conf_printable: "printable_conf (protecting_conf [''/srv'', ''/home''] (Some 1))"
  by (simp add: printable_conf_def protecting_conf_def conf_inv_def printable_section_def printable_key_def
        ident_name_def is_first_identifier_def is_identifier_def isalnum_def isalpha_def isdigit_def
        char_in_def plain_string_def)

theorem main_file_wins_witness:
  "\<exists>conf1 sl1. load_conf (quiet_daemon_os Map.empty) (linux_stdpaths sample_dirs) (\<lambda>_ _. Some) () (a6o_conf_new, \<lparr>sl_ident = None, sl_lines = []\<rparr>)
    = Some (Running (conf1, sl1))"
  using main_file_wins [of "\<lambda>_ _. Some" "quiet_daemon_os Map.empty" sample_dirs "()" "\<lparr>sl_ident = None, sl_lines = []\<rparr>"]
  by (auto simp: total_log_def)

theorem daemon_protects_directories_witness:
  "\<exists>contents dn m1 m2. a6o_conf_save_file (protecting_conf [''/srv'', ''/home''] (Some 1)) ''a.conf'' True = Some (0, contents)
    \<and> start_daemon (sample_daemon_env contents) ''armadito-scand'' (default_options ''/tmp/.armadito'' ''/run/armadito.pid'') opening_world
        (log_state_init, \<lparr>sl_ident = None, sl_lines = []\<rparr>, ()) = Some (Running dn)
    \<and> bw_monitor (dn_modules dn) = Some m1 \<and> am_run (ae_os opening_env) quiet_gv m1 [StartReady, CommandReady] m2
    \<and> dirs_of ''/srv'' (ao_dir (ae_os opening_env) ''/srv'' kernel_init) \<subseteq> coverage kn_marks kn_watch (am_world m2)"
proof -
  let ?conf = "protecting_conf [''/srv'', ''/home''] (Some 1)" and ?opts = "default_options ''/tmp/.armadito'' ''/run/armadito.pid''"
  obtain contents where c: "a6o_conf_save_file ?conf ''a.conf'' True = Some (0, contents)"
    using save_text [OF protecting_conf_printable] by blast
  have env: "cooperative (dv_os (sample_daemon_env contents))" "dv_paths (sample_daemon_env contents) = linux_stdpaths sample_dirs"
    "length (do_unix_path ?opts) < UNIX_PATH_MAX" "dv_lib (sample_daemon_env contents) = opening_env"
    "\<forall>s. dm_contents (dv_os (sample_daemon_env contents)) s (main_conf_file sample_dirs) = Some contents" "protection_enabled ?conf \<noteq> 0"
    by (simp_all only: sample_daemon_env_def quiet_cooperative daemon_env.simps)
      (simp_all add: quiet_daemon_os_def default_options_def UNIX_PATH_MAX_def protecting_conf_ok)
  from daemon_protects_directories [OF env(1-3) protecting_conf_printable c env(5,6), unfolded env(4), OF opening_env_laws(1,3-6),
      of "''armadito-scand''" "(log_state_init, \<lparr>sl_ident = None, sl_lines = []\<rparr>, ())" quiet_gv]
  show ?thesis
    using c by (simp add: protecting_conf_ok(3)) (auto simp: opening_world_def)
qed

theorem parsed_level_known_witness:
  "\<exists>opts. parse_options ''/tmp/.armadito'' ''/run/armadito.pid'' [(CHR ''l'', Some ''debug''), (CHR ''n'', None)] False = Some (Running opts)
    \<and> get_a6o_log_level_from_str (do_s_log_level opts)
      \<in> {A6O_LOG_LEVEL_ERROR, A6O_LOG_LEVEL_WARNING, A6O_LOG_LEVEL_INFO, A6O_LOG_LEVEL_DEBUG}"
proof -
  obtain opts where o: "parse_options ''/tmp/.armadito'' ''/run/armadito.pid'' [(CHR ''l'', Some ''debug''), (CHR ''n'', None)] False = Some (Running opts)"
    by (simp add: parse_options_def parse_option_def check_log_level_def)
  from o parsed_level_known [OF o] show ?thesis
    by blast
qed

theorem option_p_aborts_witness:
  "parse_options ''/tmp/.armadito'' ''/run/armadito.pid'' [(CHR ''n'', None), (CHR ''p'', Some ''/srv'')] False = None"
proof -
  obtain opts where "parse_options ''/tmp/.armadito'' ''/run/armadito.pid'' [(CHR ''n'', None)] False = Some (Running opts)"
    by (simp add: parse_options_def parse_option_def)
  from option_p_aborts [OF this, of "''/srv''" "[]" False] show ?thesis
    by simp
qed

theorem log_tagged_as_journal_witness:
  "\<exists>dn. a6o_log (\<lambda>_ _ _ w. w) (dn_log (dn :: (unit, kernel, unit) daemon)) A6O_LOG_MODULE A6O_LOG_LEVEL_WARNING ''m'' (dn_syslog dn)
    = Some (dn_syslog dn\<lparr>sl_lines := sl_lines (dn_syslog dn) @ [(Some ''armadito-journal'', LOG_WARNING, ''<warning> m'' @ [CHR 0x0A])]\<rparr>)"
proof -
  let ?env = "sample_daemon_env []"
    and ?opts = "\<lparr>do_no_daemon = 0, do_unix_path = ''/tmp/.armadito'', do_s_log_level = ''info'', do_pid_file = None\<rparr>"
  have env: "cooperative (dv_os ?env)" "dv_paths ?env = linux_stdpaths sample_dirs" "length (do_unix_path ?opts) < UNIX_PATH_MAX"
    "\<forall>s. dm_contents (dv_os ?env) s (main_conf_file sample_dirs) = Some []" "dv_lib ?env = opening_env"
    by (simp_all only: sample_daemon_env_def quiet_cooperative daemon_env.simps)
      (simp_all add: quiet_daemon_os_def UNIX_PATH_MAX_def)
  obtain conf1 conf2 where c: "extends_conf a6o_conf_new conf1" "extends_conf conf1 conf2"
      "\<And>u b1. a6o_open opening_env conf2 (Some opening_world) = Some (u, Some b1) \<Longrightarrow> \<exists>dn. start_daemon ?env ''armadito-scand'' ?opts
          opening_world (log_state_init, \<lparr>sl_ident = None, sl_lines = []\<rparr>, ()) = Some (Running dn)"
    using daemon_starts [OF env(1-4), of opening_world "''armadito-scand''" "(log_state_init, \<lparr>sl_ident = None, sl_lines = []\<rparr>, ())"]
    unfolding env(5) by blast
  obtain u b1 where "a6o_open opening_env conf2 (Some opening_world) = Some (u, Some b1)"
    using open_configures_monitor [OF opening_env_laws(1,2) extends_strings_set [OF extends_conf_trans [OF c(1,2)]], of opening_world quiet_gv]
    by blast
  then obtain dn where dn: "start_daemon ?env ''armadito-scand'' ?opts opening_world (log_state_init, \<lparr>sl_ident = None, sl_lines = []\<rparr>, ())
      = Some (Running dn)"
    using c(3) by blast
  have "lg_max_level (dn_log dn) = A6O_LOG_LEVEL_INFO"
    using started_daemon_log [OF dn]
    by (auto simp: log_init_def log_init_with_a6o_log_def a6o_log_set_handler_def Let_def get_a6o_log_level_from_str_def)
  then have "A6O_LOG_LEVEL_WARNING \<le> lg_max_level (dn_log dn)"
    by (simp add: log_level_defs)
  from log_tagged_as_journal [OF dn _ _ this, of "\<lambda>_ _ _ w. w" A6O_LOG_MODULE "''m''"] show ?thesis
    by (intro exI [of _ dn]) (simp add: log_level_defs priority_from_level_def a6o_log_level_str_def)
qed

end
