(* ===== verification/GetOpt.thy ===== *)
theory GetOpt
  imports Prelude "HOL-Library.Sublist"
begin

text \<open>
  The option parser of the Windows programs, \<open>arch/windows/utils/getopt.c\<close>. An array of
  options that ends with a NULL name is the list of its other elements; \<open>argc\<close> is the length of
  \<open>argv\<close>.
\<close>

section \<open>Options\<close>

record opt =
  op_long_form :: string
  op_short_form :: char
  op_need_arg :: int
  op_is_set :: int
  op_value :: cstr

definition clear_opt :: "opt list \<Rightarrow> opt list" where
  "clear_opt opts = map (\<lambda>ot. ot\<lparr>op_is_set := 0, op_value := None\<rparr>) opts"

text \<open>\<open>strchr (s, '=')\<close>: the offset of the first equals sign.\<close>

definition strchr_eq :: "string \<Rightarrow> nat option" where
  "strchr_eq s = (let l = length (takeWhile (\<lambda>c. c \<noteq> CHR ''='') s)
                  in if l < length s then Some l else None)"

text \<open>The option found is marked and given by its position. Without an equals sign, \<open>l\<close> is not used.\<close>

fun find_long_opt :: "opt list \<Rightarrow> string \<Rightarrow> (nat \<times> opt list) option" where
  "find_long_opt [] arg = None"
| "find_long_opt (ot # os) arg =
    (let found = (case strchr_eq (drop 2 arg) of
           None \<Rightarrow> drop 2 arg = op_long_form ot
         | Some l \<Rightarrow> take l (drop 2 arg) = take l (op_long_form ot))
     in if found then Some (0, ot\<lparr>op_is_set := 1\<rparr> # os)
        else map_option (\<lambda>(j, os1). (Suc j, ot # os1)) (find_long_opt os arg))"

text \<open>
  For the argument \<open>-\<close> the character after the dash is the terminating NUL; an option without a
  short form, whose letter is NUL, then makes the code read past the end: \<open>None\<close>.
\<close>

fun find_short_opt :: "opt list \<Rightarrow> string \<Rightarrow> (nat \<times> opt list) option option" where
  "find_short_opt [] arg = Some None"
| "find_short_opt (ot # os) arg =
    (if length arg < 2 \<and> op_short_form ot = CHR 0x00 then None
     else if length arg = 2 \<and> arg ! 1 = op_short_form ot then Some (Some (0, ot\<lparr>op_is_set := 1\<rparr> # os))
     else map_option (map_option (\<lambda>(j, os1). (Suc j, ot # os1))) (find_short_opt os arg))"

definition is_option :: "string \<Rightarrow> bool" where
  "is_option a \<longleftrightarrow> a \<noteq> [] \<and> a ! 0 = CHR ''-''"

definition is_long_option :: "string \<Rightarrow> bool" where
  "is_long_option a \<longleftrightarrow> 2 \<le> length a \<and> a ! 1 = CHR ''-''"

definition set_opt_value :: "nat \<Rightarrow> string \<Rightarrow> opt list \<Rightarrow> opt list" where
  "set_opt_value j v opts = opts[j := (opts ! j)\<lparr>op_value := Some v\<rparr>]"

text \<open>The loop at index \<open>i\<close>, with the arguments from there on.\<close>

fun opt_loop :: "nat \<Rightarrow> string list \<Rightarrow> opt list \<Rightarrow> (int \<times> opt list) option" where
  "opt_loop i [] opts = Some (int i, opts)"
| "opt_loop i (ot # args) opts =
    (if \<not> is_option ot then Some (int i, opts)
     else if is_long_option ot then
       (case find_long_opt opts ot of
          None \<Rightarrow> Some (-1, opts)
        | Some (j, opts1) \<Rightarrow>
            if ctrue (op_need_arg (opts1 ! j)) then
              (case strchr_eq (drop 2 ot) of
                 None \<Rightarrow> Some (-1, opts1)
               | Some l \<Rightarrow> opt_loop (Suc i) args (set_opt_value j (drop (Suc l) (drop 2 ot)) opts1))
            else opt_loop (Suc i) args opts1)
     else
       (case find_short_opt opts ot of
          None \<Rightarrow> None
        | Some None \<Rightarrow> Some (-1, opts)
        | Some (Some (j, opts1)) \<Rightarrow>
            if ctrue (op_need_arg (opts1 ! j)) then
              (case args of
                 [] \<Rightarrow> Some (-1, opts1)
               | a # args1 \<Rightarrow> opt_loop (Suc (Suc i)) args1 (set_opt_value j a opts1))
            else opt_loop (Suc i) args opts1))"

definition opt_parse :: "opt list \<Rightarrow> string list \<Rightarrow> (int \<times> opt list) option" where
  "opt_parse opts argv = opt_loop 1 (drop 1 argv) (clear_opt opts)"

fun opt_is_set :: "opt list \<Rightarrow> string \<Rightarrow> int" where
  "opt_is_set [] opt_name = 0"
| "opt_is_set (ot # os) opt_name = (if opt_name = op_long_form ot then op_is_set ot else opt_is_set os opt_name)"

fun opt_value :: "opt list \<Rightarrow> string \<Rightarrow> cstr \<Rightarrow> cstr" where
  "opt_value [] opt_name default_value = default_value"
| "opt_value (ot # os) opt_name default_value =
    (if opt_name = op_long_form ot \<and> ctrue (op_is_set ot) then op_value ot
     else opt_value os opt_name default_value)"

section \<open>Writing a command line\<close>

text \<open>A setting of the \<open>j\<close>-th option, in its long or its short form, with a value or not.\<close>

type_synonym setting = "nat \<times> bool \<times> cstr"

fun render :: "opt list \<Rightarrow> setting \<Rightarrow> string list" where
  "render opts (j, True, None) = [''--'' @ op_long_form (opts ! j)]"
| "render opts (j, True, Some v) = [''--'' @ op_long_form (opts ! j) @ ''='' @ v]"
| "render opts (j, False, None) = [[CHR ''-'', op_short_form (opts ! j)]]"
| "render opts (j, False, Some v) = [[CHR ''-'', op_short_form (opts ! j)], v]"

fun ok_setting :: "opt list \<Rightarrow> setting \<Rightarrow> bool" where
  "ok_setting opts (j, _, v) \<longleftrightarrow> j < length opts \<and> (ctrue (op_need_arg (opts ! j)) \<longleftrightarrow> v \<noteq> None)"

text \<open>
  Options that no argument confuses: no name has an equals sign or starts an earlier name, and the
  letters differ from each other, from the dash and from NUL.
\<close>

definition opts_ok :: "opt list \<Rightarrow> bool" where
  "opts_ok opts \<longleftrightarrow> (\<forall>ot \<in> set opts. CHR ''='' \<notin> set (op_long_form ot)
       \<and> op_short_form ot \<noteq> CHR ''-'' \<and> op_short_form ot \<noteq> CHR 0x00)
     \<and> (\<forall>j < length opts. \<forall>i < j. \<not> prefix (op_long_form (opts ! j)) (op_long_form (opts ! i)))
     \<and> distinct (map op_short_form opts)"

definition apply_setting :: "setting \<Rightarrow> opt list \<Rightarrow> opt list" where
  "apply_setting s opts = (case s of (j, _, v) \<Rightarrow>
     opts[j := (opts ! j)\<lparr>op_is_set := 1, op_value := (if v = None then op_value (opts ! j) else v)\<rparr>])"

text \<open>What the options that the parser works on share with the table it was given.\<close>

definition same_table :: "opt list \<Rightarrow> opt list \<Rightarrow> bool" where
  "same_table opts os \<longleftrightarrow>
    map (\<lambda>ot. (op_long_form ot, op_short_form ot, op_need_arg ot)) os
    = map (\<lambda>ot. (op_long_form ot, op_short_form ot, op_need_arg ot)) opts"

lemma same_tableD:
  assumes "same_table opts os"
  shows "length os = length opts"
    and "j < length opts \<Longrightarrow> op_long_form (os ! j) = op_long_form (opts ! j)
      \<and> op_short_form (os ! j) = op_short_form (opts ! j) \<and> op_need_arg (os ! j) = op_need_arg (opts ! j)"
proof -
  have len: "length os = length opts"
    using assms by (auto simp: same_table_def dest: map_eq_imp_length_eq)
  then show "length os = length opts" .
  assume "j < length opts"
  with assms len have "map (\<lambda>ot. (op_long_form ot, op_short_form ot, op_need_arg ot)) os ! j
      = map (\<lambda>ot. (op_long_form ot, op_short_form ot, op_need_arg ot)) opts ! j"
    by (simp add: same_table_def)
  with \<open>j < length opts\<close> len show "op_long_form (os ! j) = op_long_form (opts ! j)
      \<and> op_short_form (os ! j) = op_short_form (opts ! j) \<and> op_need_arg (os ! j) = op_need_arg (opts ! j)"
    by simp
qed

lemma same_table_update:
  assumes "same_table opts os" "op_long_form ot = op_long_form (os ! j)"
    "op_short_form ot = op_short_form (os ! j)" "op_need_arg ot = op_need_arg (os ! j)"
  shows "same_table opts (os[j := ot])"
proof -
  have "map (\<lambda>ot. (op_long_form ot, op_short_form ot, op_need_arg ot)) (os[j := ot])
      = map (\<lambda>ot. (op_long_form ot, op_short_form ot, op_need_arg ot)) (os[j := os ! j])"
    using assms(2-4) by (simp only: map_update)
  with assms(1) show ?thesis
    by (simp add: same_table_def)
qed

lemma same_table_clear [simp]: "same_table opts (clear_opt opts)"
  by (simp add: same_table_def clear_opt_def)

lemma same_table_apply:
  assumes "same_table opts os"
  shows "same_table opts (apply_setting s os)"
  using assms by (auto simp: apply_setting_def split: prod.splits intro: same_table_update)

section \<open>Finding an option\<close>

lemma strchr_eq_append [simp]:
  assumes "CHR ''='' \<notin> set n"
  shows "strchr_eq (n @ CHR ''='' # v) = Some (length n)" "strchr_eq n = None"
proof -
  have all: "\<forall>c \<in> set n. c \<noteq> CHR ''=''"
    using assms by metis
  from all show "strchr_eq (n @ CHR ''='' # v) = Some (length n)"
    by (simp add: strchr_eq_def takeWhile_append2)
  from all have "takeWhile (\<lambda>c. c \<noteq> CHR ''='') n = n"
    by (simp only: takeWhile_eq_all_conv)
  then show "strchr_eq n = None"
    by (simp only: strchr_eq_def Let_def less_irrefl if_False)
qed

lemma find_long_plain:
  assumes "j < length os" "op_long_form (os ! j) = n" "CHR ''='' \<notin> set n"
    and "\<And>i. i < j \<Longrightarrow> op_long_form (os ! i) \<noteq> n"
  shows "find_long_opt os (''--'' @ n) = Some (j, os[j := (os ! j)\<lparr>op_is_set := 1\<rparr>])"
  using assms
proof (induction os arbitrary: j)
  case (Cons o' os)
  show ?case
  proof (cases j)
    case (Suc k)
    have prem: "op_long_form (os ! i) \<noteq> n" if "i < k" for i
      using Cons.prems(4) [of "Suc i"] that Suc by simp
    from Suc Cons.prems(4) [of 0] have "op_long_form o' \<noteq> n" by auto
    moreover have "find_long_opt os (''--'' @ n) = Some (k, os[k := (os ! k)\<lparr>op_is_set := 1\<rparr>])"
      using Cons.prems(1) Suc prem Cons.prems by (intro Cons.IH) auto
    ultimately show ?thesis
      using Suc Cons.prems(3) by simp
  qed (use Cons.prems in simp)
qed simp

lemma find_long_value:
  assumes "j < length os" "op_long_form (os ! j) = n" "CHR ''='' \<notin> set n"
    and "\<And>i. i < j \<Longrightarrow> \<not> prefix n (op_long_form (os ! i))"
  shows "find_long_opt os (''--'' @ n @ ''='' @ v) = Some (j, os[j := (os ! j)\<lparr>op_is_set := 1\<rparr>])"
  using assms
proof (induction os arbitrary: j)
  case (Cons o' os)
  show ?case
  proof (cases j)
    case (Suc k)
    have prem: "\<not> prefix n (op_long_form (os ! i))" if "i < k" for i
      using Cons.prems(4) [of "Suc i"] that Suc by simp
    from Suc Cons.prems(4) [of 0] have "n \<noteq> take (length n) (op_long_form o')"
      by (auto simp: prefix_def) (metis append_take_drop_id)
    moreover have "find_long_opt os (''--'' @ n @ ''='' @ v) = Some (k, os[k := (os ! k)\<lparr>op_is_set := 1\<rparr>])"
      using Cons.prems(1) Suc prem Cons.prems by (intro Cons.IH) auto
    ultimately show ?thesis
      using Suc Cons.prems(3) by simp
  qed (use Cons.prems in simp)
qed simp

lemma find_short:
  assumes "j < length os" "op_short_form (os ! j) = c"
    and "\<And>i. i < j \<Longrightarrow> op_short_form (os ! i) \<noteq> c"
  shows "find_short_opt os [CHR ''-'', c] = Some (Some (j, os[j := (os ! j)\<lparr>op_is_set := 1\<rparr>]))"
  using assms
proof (induction os arbitrary: j)
  case (Cons o' os)
  show ?case
  proof (cases j)
    case (Suc k)
    have prem: "op_short_form (os ! i) \<noteq> c" if "i < k" for i
      using Cons.prems(3) [of "Suc i"] that Suc by simp
    from Suc Cons.prems(3) [of 0] have "op_short_form o' \<noteq> c" by auto
    moreover have "find_short_opt os [CHR ''-'', c] = Some (Some (k, os[k := (os ! k)\<lparr>op_is_set := 1\<rparr>]))"
      using Cons.prems(1) Suc prem Cons.prems by (intro Cons.IH) auto
    ultimately show ?thesis
      using Suc by simp
  qed (use Cons.prems in simp)
qed simp

text \<open>One setting.\<close>

lemma opt_loop_setting:
  assumes opts: "opts_ok opts" and tab: "same_table opts os" and ok: "ok_setting opts s"
  shows "opt_loop i (render opts s @ args) os = opt_loop (i + length (render opts s)) args (apply_setting s os)"
proof -
  obtain j lg v where s: "s = (j, lg, v)" by (cases s)
  let ?n = "op_long_form (opts ! j)" and ?c = "op_short_form (opts ! j)"
  have j: "j < length opts" and need: "ctrue (op_need_arg (opts ! j)) \<longleftrightarrow> v \<noteq> None"
    using ok s by auto
  have len: "length os = length opts" and
    f: "op_long_form (os ! j) = ?n" "op_short_form (os ! j) = ?c" "op_need_arg (os ! j) = op_need_arg (opts ! j)"
    using same_tableD [OF tab] j by auto
  have eq: "CHR ''='' \<notin> set ?n" and dash: "?c \<noteq> CHR ''-''"
    using opts nth_mem [OF j] by (auto simp: opts_ok_def)
  have np: "\<not> prefix ?n (op_long_form (os ! k))" if "k < j" for k
    using opts j that same_tableD(2) [OF tab, of k] by (auto simp: opts_ok_def)
  have nc: "op_short_form (os ! k) \<noteq> ?c" if "k < j" for k
    using opts j that same_tableD(2) [OF tab, of k] by (auto simp: opts_ok_def distinct_conv_nth)
  note find = find_long_plain [of j os ?n] find_long_value [of j os ?n] find_short [of j os ?c]
  show ?thesis
  proof (cases lg)
    case True
    have np': "\<And>k. k < j \<Longrightarrow> op_long_form (os ! k) \<noteq> ?n"
      using np by fastforce
    show ?thesis
    proof (cases v)
      case None
      show ?thesis
        using find(1) [OF _ f(1) eq np'] s True None j len f need eq
        by (simp add: is_option_def is_long_option_def apply_setting_def)
    next
      case (Some w)
      show ?thesis
        using find(2) [OF _ f(1) eq np, of w] s True Some j len f need eq
        by (simp add: is_option_def is_long_option_def apply_setting_def set_opt_value_def)
    qed
  next
    case False
    have fs: "find_short_opt os [CHR ''-'', ?c] = Some (Some (j, os[j := (os ! j)\<lparr>op_is_set := 1\<rparr>]))"
      using find(3) [OF _ f(2) nc] j len by simp
    show ?thesis
      using fs s False j len f need dash
      by (cases v) (simp_all add: is_option_def is_long_option_def apply_setting_def set_opt_value_def)
  qed
qed

lemma opt_loop_settings:
  assumes "opts_ok opts" "same_table opts os" "\<forall>s \<in> set ss. ok_setting opts s"
    and "operands = [] \<or> \<not> is_option (hd operands)"
  shows "opt_loop i (concat (map (render opts) ss) @ operands) os
    = Some (int (i + length (concat (map (render opts) ss))), fold apply_setting ss os)"
  using assms
proof (induction ss arbitrary: i os)
  case Nil
  then show ?case by (cases operands) auto
next
  case (Cons s ss)
  show ?case
    using Cons.prems opt_loop_setting [of opts os s i "concat (map (render opts) ss) @ operands"]
      Cons.IH [of "apply_setting s os" "i + length (render opts s)"] same_table_apply [of opts os s]
    by simp
qed

section \<open>Reading the options\<close>

text \<open>The settings of the \<open>j\<close>-th option that give it a value, the last one first.\<close>

definition last_value :: "setting list \<Rightarrow> nat \<Rightarrow> cstr" where
  "last_value ss j = (case find (\<lambda>(k, _, v). k = j \<and> v \<noteq> None) (rev ss) of None \<Rightarrow> None | Some (_, _, v) \<Rightarrow> v)"

lemma fold_settings:
  assumes "\<forall>s \<in> set ss. ok_setting opts s" "j < length opts"
  shows "length (fold apply_setting ss (clear_opt opts)) = length opts
    \<and> op_long_form (fold apply_setting ss (clear_opt opts) ! j) = op_long_form (opts ! j)
    \<and> op_is_set (fold apply_setting ss (clear_opt opts) ! j) = (if j \<in> fst ` set ss then 1 else 0)
    \<and> op_value (fold apply_setting ss (clear_opt opts) ! j) = last_value ss j"
  using assms
proof (induction ss rule: rev_induct)
  case Nil
  then show ?case by (simp add: clear_opt_def last_value_def)
next
  case (snoc s ss)
  obtain k lg v where s: "s = (k, lg, v)" by (cases s)
  show ?case
    using snoc s by (auto simp: apply_setting_def last_value_def nth_list_update)
qed

lemma opt_is_set_nth:
  assumes "j < length os" "\<And>i. i < j \<Longrightarrow> op_long_form (os ! i) \<noteq> op_long_form (os ! j)"
  shows "opt_is_set os (op_long_form (os ! j)) = op_is_set (os ! j)"
  using assms
proof (induction os arbitrary: j)
  case (Cons o' os)
  show ?case
  proof (cases j)
    case (Suc k)
    have prem: "op_long_form (os ! i) \<noteq> op_long_form (os ! k)" if "i < k" for i
      using Cons.prems(2) [of "Suc i"] that Suc by simp
    have "opt_is_set os (op_long_form (os ! k)) = op_is_set (os ! k)"
      using Cons.prems(1) Suc prem Cons.prems by (intro Cons.IH) auto
    with Suc Cons.prems(2) [of 0] show ?thesis by auto
  qed simp
qed simp

lemma opt_value_nth:
  assumes "j < length os" "\<And>i. i < length os \<Longrightarrow> i \<noteq> j \<Longrightarrow> op_long_form (os ! i) \<noteq> op_long_form (os ! j)"
  shows "opt_value os (op_long_form (os ! j)) d = (if ctrue (op_is_set (os ! j)) then op_value (os ! j) else d)"
  using assms
proof (induction os arbitrary: j)
  case (Cons o' os)
  have other: "opt_value os n d = d" if "\<And>i. i < length os \<Longrightarrow> op_long_form (os ! i) \<noteq> n" for n
    using that
  proof (induction os)
    case (Cons a os)
    from Cons.prems [of 0] Cons.prems [of "Suc _"] Cons.IH show ?case by auto
  qed simp
  show ?case
  proof (cases j)
    case 0
    have "op_long_form (os ! i) \<noteq> op_long_form o'" if "i < length os" for i
      using Cons.prems(2) [of "Suc i"] that 0 by auto
    with 0 other show ?thesis by auto
  next
    case (Suc k)
    have "opt_value os (op_long_form (os ! k)) d = (if ctrue (op_is_set (os ! k)) then op_value (os ! k) else d)"
      using Cons.prems(1) Suc
    proof (intro Cons.IH)
      show "op_long_form (os ! i) \<noteq> op_long_form (os ! k)" if "i < length os" "i \<noteq> k" for i
        using Cons.prems(2) [of "Suc i"] that Suc by auto
    qed simp
    with Suc Cons.prems(2) [of 0] show ?thesis by auto
  qed
qed simp

section \<open>Properties\<close>

text \<open>
  round trip of the option parser. A command line written from settings of the options,
  in their long or short form, followed by operands, is parsed back: the result is the index of the
  first operand, an option is set exactly when a setting names it, and its value is the one that was
  given last.
\<close>

theorem opt_parse_round_trip:
  assumes "opts_ok opts" "\<forall>s \<in> set ss. ok_setting opts s"
    and "operands = [] \<or> \<not> is_option (hd operands)"
  shows "\<exists>opts'. opt_parse opts (prog # concat (map (render opts) ss) @ operands)
      = Some (int (1 + length (concat (map (render opts) ss))), opts')
    \<and> (\<forall>j < length opts. opt_is_set opts' (op_long_form (opts ! j)) = (if j \<in> fst ` set ss then 1 else 0)
        \<and> opt_value opts' (op_long_form (opts ! j)) d = (if j \<in> fst ` set ss then last_value ss j else d))"
proof (intro exI conjI allI impI)
  let ?ot = "fold apply_setting ss (clear_opt opts)"
  show "opt_parse opts (prog # concat (map (render opts) ss) @ operands)
      = Some (int (1 + length (concat (map (render opts) ss))), ?ot)"
    unfolding opt_parse_def
    using opt_loop_settings [OF assms(1) same_table_clear assms(2,3), of 1] by simp
  fix j assume j: "j < length opts"
  have ne: "op_long_form (opts ! i) \<noteq> op_long_form (opts ! k)" if "i < length opts" "k < length opts" "i \<noteq> k" for i k
    using assms(1) that unfolding opts_ok_def
    by (metis linorder_neqE_nat prefix_order.refl)
  note f = fold_settings [OF assms(2)]
  have len: "length ?ot = length opts" using f j by blast
  have "opt_is_set ?ot (op_long_form (?ot ! j)) = op_is_set (?ot ! j)"
    using j len f ne by (intro opt_is_set_nth) auto
  with f [OF j] show "opt_is_set ?ot (op_long_form (opts ! j)) = (if j \<in> fst ` set ss then 1 else 0)"
    by simp
  have "opt_value ?ot (op_long_form (?ot ! j)) d = (if ctrue (op_is_set (?ot ! j)) then op_value (?ot ! j) else d)"
    using j len f ne by (intro opt_value_nth) auto
  with f [OF j] show "opt_value ?ot (op_long_form (opts ! j)) d
      = (if j \<in> fst ` set ss then last_value ss j else d)"
    by (simp split: if_splits)
qed

text \<open>
  an option whose name starts an earlier name cannot be given a value: \<open>strncmp\<close> compares
  no more characters than the argument has before its equals sign, so the earlier option takes it,
  and the option itself stays unset.
\<close>

theorem prefix_name_taken:
  assumes "op_long_form o1 = n @ c # m" "op_long_form o2 = n" "CHR ''='' \<notin> set n" "ctrue (op_need_arg o1)"
  shows "\<exists>opts'. opt_parse [o1, o2] [prog, ''--'' @ n @ ''='' @ v] = Some (2, opts')
    \<and> opt_is_set opts' (n @ c # m) = 1 \<and> opt_is_set opts' n = 0 \<and> opt_value opts' (n @ c # m) None = Some v"
  using assms
  by (simp add: opt_parse_def clear_opt_def is_option_def is_long_option_def set_opt_value_def)

section \<open>Witnesses\<close>

definition sample_opts :: "opt list" where
  "sample_opts = [\<lparr>op_long_form = ''help'', op_short_form = CHR ''h'', op_need_arg = 0, op_is_set = 0, op_value = None\<rparr>,
    \<lparr>op_long_form = ''path'', op_short_form = CHR ''p'', op_need_arg = 1, op_is_set = 0, op_value = None\<rparr>]"

theorem opt_parse_round_trip_witness:
  "\<exists>opts'. opt_parse sample_opts [''prog'', ''--path=a'', ''-h'', ''-p'', ''b'', ''file''] = Some (5, opts')
    \<and> opt_value opts' ''path'' None = Some ''b'' \<and> opt_is_set opts' ''help'' = 1"
proof -
  let ?ss = "[(1, True, Some ''a''), (0, False, None), (1, False, Some ''b'')] :: setting list"
  have "opts_ok sample_opts"
    by (auto simp: opts_ok_def sample_opts_def less_Suc_eq)
  moreover have "\<forall>s \<in> set ?ss. ok_setting sample_opts s"
    by (simp add: sample_opts_def)
  ultimately obtain opts' where p: "opt_parse sample_opts (''prog'' # concat (map (render sample_opts) ?ss) @ [''file''])
      = Some (int (1 + length (concat (map (render sample_opts) ?ss))), opts')"
    and r: "\<forall>j < length sample_opts. opt_is_set opts' (op_long_form (sample_opts ! j)) = (if j \<in> fst ` set ?ss then 1 else 0)
      \<and> opt_value opts' (op_long_form (sample_opts ! j)) None = (if j \<in> fst ` set ?ss then last_value ?ss j else None)"
    using opt_parse_round_trip [of sample_opts ?ss "[''file'']" "''prog''" None]
    by (force simp: is_option_def)
  from r [rule_format, of 0] r [rule_format, of 1] p show ?thesis
    by (auto simp: sample_opts_def last_value_def)
qed

theorem prefix_name_taken_witness:
  "\<exists>opts'. opt_parse [\<lparr>op_long_form = ''format'', op_short_form = CHR ''f'', op_need_arg = 1, op_is_set = 0, op_value = None\<rparr>,
      \<lparr>op_long_form = ''for'', op_short_form = CHR ''r'', op_need_arg = 1, op_is_set = 0, op_value = None\<rparr>]
      [''prog'', ''--for=x''] = Some (2, opts')
    \<and> opt_is_set opts' ''format'' = 1 \<and> opt_is_set opts' ''for'' = 0"
  using prefix_name_taken [of "\<lparr>op_long_form = ''format'', op_short_form = CHR ''f'', op_need_arg = 1, op_is_set = 0, op_value = None\<rparr>"
      "''for''" "CHR ''m''" "''at''"
      "\<lparr>op_long_form = ''for'', op_short_form = CHR ''r'', op_need_arg = 1, op_is_set = 0, op_value = None\<rparr>" "''prog''" "''x''"]
  by force

end
