(* ===== verification/MimeType.thy ===== *)
theory MimeType
  imports Prelude
begin

text \<open>
  MIME types of files, \<open>libcore/arch/linux/os/mimetype.c\<close>. The library libmagic, which is not
  thread-safe, is an argument; the code keeps one handle per thread in thread-private data.
\<close>

section \<open>Handles\<close>

text \<open>
  libmagic and \<open>read\<close>. \<open>magic_open\<close> gives NULL when it fails; the guesses give NULL when they
  have no answer.
\<close>

record ('m, 'w) magic_lib =
  magic_open :: "'w \<Rightarrow> 'm option \<times> 'w"
  magic_load :: "'m option \<Rightarrow> 'w \<Rightarrow> int \<times> 'w"
  magic_file :: "'m option \<Rightarrow> string \<Rightarrow> 'w \<Rightarrow> cstr \<times> 'w"
  magic_buffer :: "'m option \<Rightarrow> string \<Rightarrow> 'w \<Rightarrow> cstr \<times> 'w"
  magic_close :: "'m \<Rightarrow> 'w \<Rightarrow> 'w"
  os_read :: "int \<Rightarrow> nat \<Rightarrow> 'w \<Rightarrow> string option \<times> 'w"

text \<open>
  The static variables, with the private data of every thread; the key is NULL until it is made.
\<close>

record ('m, 'w) mime_state =
  mm_init_done :: int
  mm_private_key :: bool
  mm_private :: "nat \<Rightarrow> 'm option"
  mm_world :: 'w

definition magic_destroy_notify :: "('m, 'w) magic_lib \<Rightarrow> 'm \<Rightarrow> 'w \<Rightarrow> 'w" where
  "magic_destroy_notify lib data w = magic_close lib data w"

text \<open>On thread \<open>t\<close>. \<open>g_private_get\<close> dereferences the key.\<close>

definition get_private_magic ::
  "('m, 'w) magic_lib \<Rightarrow> nat \<Rightarrow> ('m, 'w) mime_state \<Rightarrow> ('m option \<times> ('m, 'w) mime_state) option" where
  "get_private_magic lib t s =
    (if \<not> mm_private_key s then None
     else case mm_private s t of
         Some m \<Rightarrow> Some (Some m, s)
       | None \<Rightarrow>
           (case magic_open lib (mm_world s) of (m, w1) \<Rightarrow>
            case magic_load lib m w1 of (_, w2) \<Rightarrow>
              Some (m, s\<lparr>mm_private := (mm_private s)(t := m), mm_world := w2\<rparr>)))"

definition os_mime_type_init ::
  "('m, 'w) magic_lib \<Rightarrow> nat \<Rightarrow> ('m, 'w) mime_state \<Rightarrow> ('m, 'w) mime_state option" where
  "os_mime_type_init lib t s =
    (if \<not> ctrue (mm_init_done s) then
       (case get_private_magic lib t (s\<lparr>mm_private_key := True\<rparr>) of
          None \<Rightarrow> None
        | Some (_, s1) \<Rightarrow> Some (s1\<lparr>mm_init_done := 1\<rparr>))
     else Some s)"

definition os_mime_type_guess ::
  "('m, 'w) magic_lib \<Rightarrow> nat \<Rightarrow> string \<Rightarrow> ('m, 'w) mime_state \<Rightarrow> (cstr \<times> ('m, 'w) mime_state) option" where
  "os_mime_type_guess lib t path s = (case get_private_magic lib t s of
       None \<Rightarrow> None
     | Some (m, s1) \<Rightarrow>
         (case magic_file lib m path (mm_world s1) of (mime_type, w1) \<Rightarrow>
            map_option (\<lambda>r. (r, s1\<lparr>mm_world := w1\<rparr>)) (os_strdup mime_type)))"

definition MIME_BUFFER_SIZE :: nat where "MIME_BUFFER_SIZE = 1024"

definition os_mime_type_guess_fd ::
  "('m, 'w) magic_lib \<Rightarrow> nat \<Rightarrow> int \<Rightarrow> ('m, 'w) mime_state \<Rightarrow> (cstr \<times> ('m, 'w) mime_state) option" where
  "os_mime_type_guess_fd lib t fd s = (case get_private_magic lib t s of
       None \<Rightarrow> None
     | Some (m, s1) \<Rightarrow>
         (case os_read lib fd MIME_BUFFER_SIZE (mm_world s1) of
            (None, w1) \<Rightarrow> Some (None, s1\<lparr>mm_world := w1\<rparr>)
          | (Some data, w1) \<Rightarrow>
              (case magic_buffer lib m data w1 of (mime_type, w2) \<Rightarrow>
                 map_option (\<lambda>r. (r, s1\<lparr>mm_world := w2\<rparr>)) (os_strdup mime_type))))"

text \<open>What happens to the private data of a thread that ends.\<close>

definition thread_exit :: "('m, 'w) magic_lib \<Rightarrow> nat \<Rightarrow> ('m, 'w) mime_state \<Rightarrow> ('m, 'w) mime_state" where
  "thread_exit lib t s = (case mm_private s t of
       None \<Rightarrow> s
     | Some m \<Rightarrow> s\<lparr>mm_private := (mm_private s)(t := None),
                   mm_world := magic_destroy_notify lib m (mm_world s)\<rparr>)"

section \<open>Threads\<close>

datatype mime_op = Init nat | Guess nat string | Guess_fd nat int | Thread_exit nat

fun mime_step :: "('m, 'w) magic_lib \<Rightarrow> mime_op \<Rightarrow> ('m, 'w) mime_state \<Rightarrow> ('m, 'w) mime_state option" where
  "mime_step lib (Init t) s = os_mime_type_init lib t s"
| "mime_step lib (Guess t path) s = map_option snd (os_mime_type_guess lib t path s)"
| "mime_step lib (Guess_fd t fd) s = map_option snd (os_mime_type_guess_fd lib t fd s)"
| "mime_step lib (Thread_exit t) s = Some (thread_exit lib t s)"

inductive mime_reaches :: "('m, 'w) magic_lib \<Rightarrow> ('m, 'w) mime_state \<Rightarrow> ('m, 'w) mime_state \<Rightarrow> bool"
  for lib s0 where
  start: "mime_reaches lib s0 s0"
| step: "mime_reaches lib s0 s \<Longrightarrow> mime_step lib a s = Some s1 \<Longrightarrow> mime_reaches lib s0 s1"

definition mime_init_state :: "'w \<Rightarrow> ('m, 'w) mime_state" where
  "mime_init_state w = \<lparr>mm_init_done = 0, mm_private_key = False, mm_private = Map.empty, mm_world = w\<rparr>"

text \<open>
  libmagic as documented: \<open>magic_open\<close> gives a handle that is not open, \<open>magic_close\<close> closes its
  handle and the other calls open and close none. \<open>handles\<close> are the open handles.
\<close>

definition magic_laws :: "('m, 'w) magic_lib \<Rightarrow> ('w \<Rightarrow> 'm set) \<Rightarrow> bool" where
  "magic_laws lib handles \<longleftrightarrow>
    (\<forall>w. case magic_open lib w of
        (None, w1) \<Rightarrow> handles w1 = handles w
      | (Some m, w1) \<Rightarrow> m \<notin> handles w \<and> handles w1 = insert m (handles w))
    \<and> (\<forall>m w. handles (snd (magic_load lib m w)) = handles w)
    \<and> (\<forall>m f w. handles (snd (magic_file lib m f w)) = handles w)
    \<and> (\<forall>m b w. handles (snd (magic_buffer lib m b w)) = handles w)
    \<and> (\<forall>m w. handles (magic_close lib m w) = handles w - {m})
    \<and> (\<forall>fd n w. handles (snd (os_read lib fd n w)) = handles w)"

text \<open>The open handles are those of the threads, and no two threads have the same.\<close>

definition mime_inv :: "('w \<Rightarrow> 'm set) \<Rightarrow> ('m, 'w) mime_state \<Rightarrow> bool" where
  "mime_inv handles s \<longleftrightarrow> handles (mm_world s) = ran (mm_private s)
     \<and> (\<forall>t1 t2 m. mm_private s t1 = Some m \<and> mm_private s t2 = Some m \<longrightarrow> t1 = t2)
     \<and> (ctrue (mm_init_done s) \<longrightarrow> mm_private_key s)"

lemma magic_lawsD:
  assumes "magic_laws lib handles"
  shows "magic_open lib w = (None, w1) \<Longrightarrow> handles w1 = handles w"
    and "magic_open lib w = (Some m, w1) \<Longrightarrow> m \<notin> handles w \<and> handles w1 = insert m (handles w)"
    and "magic_load lib mo w = (r, w1) \<Longrightarrow> handles w1 = handles w"
    and "magic_file lib mo f w = (c, w1) \<Longrightarrow> handles w1 = handles w"
    and "magic_buffer lib mo b w = (c, w1) \<Longrightarrow> handles w1 = handles w"
    and "handles (magic_close lib m w) = handles w - {m}"
    and "os_read lib fd n w = (c, w1) \<Longrightarrow> handles w1 = handles w"
proof -
  have o: "case magic_open lib w of (None, w1) \<Rightarrow> handles w1 = handles w
      | (Some m, w1) \<Rightarrow> m \<notin> handles w \<and> handles w1 = insert m (handles w)"
    using assms by (simp add: magic_laws_def)
  show "magic_open lib w = (None, w1) \<Longrightarrow> handles w1 = handles w"
    using o by simp
  show "magic_open lib w = (Some m, w1) \<Longrightarrow> m \<notin> handles w \<and> handles w1 = insert m (handles w)"
    using o by simp
  have l: "handles (snd (magic_load lib mo w)) = handles w" "handles (snd (magic_file lib mo f w)) = handles w"
    "handles (snd (magic_buffer lib mo b w)) = handles w" "handles (snd (os_read lib fd n w)) = handles w"
    using assms by (simp_all add: magic_laws_def)
  show "magic_load lib mo w = (r, w1) \<Longrightarrow> handles w1 = handles w"
    using l(1) by simp
  show "magic_file lib mo f w = (c, w1) \<Longrightarrow> handles w1 = handles w"
    using l(2) by simp
  show "magic_buffer lib mo b w = (c, w1) \<Longrightarrow> handles w1 = handles w"
    using l(3) by simp
  show "os_read lib fd n w = (c, w1) \<Longrightarrow> handles w1 = handles w"
    using l(4) by simp
  show "handles (magic_close lib m w) = handles w - {m}"
    using assms by (simp add: magic_laws_def)
qed

lemma get_private_magic_inv:
  assumes "magic_laws lib handles" "mime_inv handles s" "get_private_magic lib t s = Some (m, s1)"
  shows "mime_inv handles s1 \<and> mm_private s1 t = m \<and> mm_init_done s1 = mm_init_done s"
proof (cases "mm_private s t")
  case (Some m')
  with assms(2,3) show ?thesis
    by (auto simp: get_private_magic_def split: if_splits)
next
  case None
  obtain w1 w2 r where o: "magic_open lib (mm_world s) = (m, w1)" "magic_load lib m w1 = (r, w2)"
      "s1 = s\<lparr>mm_private := (mm_private s)(t := m), mm_world := w2\<rparr>" "mm_private_key s"
    using assms(3) None by (auto simp: get_private_magic_def split: if_splits prod.splits)
  show ?thesis
  proof (cases m)
    case m: None
    with o None magic_lawsD(1,3) [OF assms(1)] assms(2) show ?thesis
      by (auto simp: mime_inv_def fun_upd_idem)
  next
    case (Some n)
    with o magic_lawsD(2) [OF assms(1), of "mm_world s" n w1] magic_lawsD(3) [OF assms(1) o(2)] assms(2)
    have "n \<notin> ran (mm_private s)" "handles w2 = insert n (ran (mm_private s))"
      by (auto simp: mime_inv_def)
    with o None Some assms(2) show ?thesis
      by (auto simp: mime_inv_def ran_map_upd) (auto simp: ran_def split: if_splits)
  qed
qed

lemma mime_step_inv:
  assumes "magic_laws lib handles" "mime_inv handles s" "mime_step lib a s = Some s1"
  shows "mime_inv handles s1"
proof (cases a)
  case (Init t)
  show ?thesis
  proof (cases "ctrue (mm_init_done s)")
    case False
    have "mime_inv handles (s\<lparr>mm_private_key := True\<rparr>)"
      using assms(2) by (simp add: mime_inv_def)
    moreover obtain m s2 where g: "get_private_magic lib t (s\<lparr>mm_private_key := True\<rparr>) = Some (m, s2)"
        "s1 = s2\<lparr>mm_init_done := 1\<rparr>"
      using assms(3) Init False by (auto simp: os_mime_type_init_def split: option.splits)
    moreover from g(1) have "mm_private_key s2"
      by (auto simp: get_private_magic_def split: option.splits prod.splits)
    ultimately show ?thesis
      using get_private_magic_inv [OF assms(1), of "s\<lparr>mm_private_key := True\<rparr>" t m s2]
      by (simp add: mime_inv_def)
  qed (use assms Init in \<open>simp add: os_mime_type_init_def\<close>)
next
  case (Guess t path)
  with assms(3) obtain m s2 c w1 where "get_private_magic lib t s = Some (m, s2)"
      "magic_file lib m path (mm_world s2) = (c, w1)" "s1 = s2\<lparr>mm_world := w1\<rparr>"
    by (auto simp: os_mime_type_guess_def split: option.splits prod.splits)
  with get_private_magic_inv [OF assms(1,2), of t m s2] magic_lawsD(4) [OF assms(1), of m path "mm_world s2" c w1]
  show ?thesis
    by (auto simp: mime_inv_def)
next
  case (Guess_fd t fd)
  with assms(3) obtain m s2 where g: "get_private_magic lib t s = Some (m, s2)"
    by (auto simp: os_mime_type_guess_fd_def split: option.splits prod.splits)
  obtain c w1 where r: "os_read lib fd MIME_BUFFER_SIZE (mm_world s2) = (c, w1)"
    by fastforce
  have w: "handles (mm_world s1) = handles (mm_world s2)" "mm_private s1 = mm_private s2"
      "mm_private_key s1 = mm_private_key s2" "mm_init_done s1 = mm_init_done s2"
    using assms(3) Guess_fd g r magic_lawsD(7) [OF assms(1) r] magic_lawsD(5) [OF assms(1)]
    by (auto simp: os_mime_type_guess_fd_def split: option.splits prod.splits)
  with get_private_magic_inv [OF assms(1,2) g] show ?thesis
    by (simp add: mime_inv_def)
next
  case (Thread_exit t)
  show ?thesis
  proof (cases "mm_private s t")
    case None
    with assms Thread_exit show ?thesis by (simp add: thread_exit_def)
  next
    case (Some m)
    have "ran ((mm_private s)(t := None)) = ran (mm_private s) - {m}"
    proof (intro set_eqI iffI)
      fix x assume "x \<in> ran ((mm_private s)(t := None))"
      then obtain a where "a \<noteq> t" "mm_private s a = Some x"
        by (auto simp: ran_def split: if_splits)
      with Some assms(2) show "x \<in> ran (mm_private s) - {m}"
        by (auto simp: ran_def mime_inv_def)
    next
      fix x assume "x \<in> ran (mm_private s) - {m}"
      then obtain a where "mm_private s a = Some x" "x \<noteq> m"
        by (auto simp: ran_def)
      with Some have "((mm_private s)(t := None)) a = Some x" by auto
      then show "x \<in> ran ((mm_private s)(t := None))" by (rule ranI)
    qed
    moreover have "s1 = s\<lparr>mm_private := (mm_private s)(t := None), mm_world := magic_close lib m (mm_world s)\<rparr>"
      using Some assms(3) Thread_exit by (simp add: thread_exit_def magic_destroy_notify_def)
    ultimately show ?thesis
      using assms(2) magic_lawsD(6) [OF assms(1), of m "mm_world s"]
      by (simp add: mime_inv_def)
  qed
qed

section \<open>Properties\<close>

text \<open>
  libmagic is used safely by several threads. Whatever calls and thread ends happen, in any
  order, every open handle belongs to exactly one thread that has not ended, so no handle is shared
  and none leaks.
\<close>

theorem magic_handles_private:
  assumes "magic_laws lib handles" "handles w = {}" "mime_reaches lib (mime_init_state w) s"
  shows "m \<in> handles (mm_world s) \<longleftrightarrow> (\<exists>!t. mm_private s t = Some m)"
proof -
  from assms(3) have "mime_inv handles s"
  proof induction
    case start
    with assms(2) show ?case by (simp add: mime_inv_def mime_init_state_def)
  next
    case (step s a s1)
    then show ?case using mime_step_inv [OF assms(1)] by blast
  qed
  then show ?thesis
    by (auto simp: mime_inv_def ran_def)
qed

text \<open>
  a failing \<open>magic_open\<close>, or a file for which libmagic has no answer, faults: the NULL
  that it gives is passed to \<open>strdup\<close>.
\<close>

theorem unknown_type_faults:
  assumes "get_private_magic lib t s = Some (m, s1)" "fst (magic_file lib m path (mm_world s1)) = None"
  shows "os_mime_type_guess lib t path s = None"
  using assms by (auto simp: os_mime_type_guess_def split: prod.splits)

section \<open>Witnesses\<close>

text \<open>A library whose handles are numbers; its world is the open handles and the next number.\<close>

definition sample_magic :: "(nat, nat set \<times> nat) magic_lib" where
  "sample_magic = \<lparr>magic_open = \<lambda>(h, n). (Some n, insert n h, Suc n), magic_load = \<lambda>m w. (0, w),
     magic_file = \<lambda>m f w. (if f = ''lost'' then None else Some ''text/plain'', w),
     magic_buffer = \<lambda>m b w. (Some ''text/plain'', w),
     magic_close = \<lambda>m (h, n). (h - {m}, n), os_read = \<lambda>fd n w. (Some [], w)\<rparr>"

text \<open>The open handles of a world: those below the next number, which alone can be given again.\<close>

definition sample_handles :: "nat set \<times> nat \<Rightarrow> nat set" where
  "sample_handles w = {m \<in> fst w. m < snd w}"

lemma sample_magic_laws: "magic_laws sample_magic sample_handles"
  by (auto simp: magic_laws_def sample_magic_def sample_handles_def split: prod.splits)

theorem magic_handles_private_witness:
  "\<exists>s :: (nat, nat set \<times> nat) mime_state. (mm_private s 1 = Some 0 \<and> mm_private s 2 = Some 1)
    \<and> (0 \<in> sample_handles (mm_world s) \<longleftrightarrow> (\<exists>!t. mm_private s t = Some 0))"
proof -
  let ?s0 = "mime_init_state ({}, 0) :: (nat, nat set \<times> nat) mime_state"
  obtain s1 where s1: "mime_step sample_magic (Init 1) ?s0 = Some s1"
      "mm_private s1 = [1 \<mapsto> 0]" "mm_private_key s1" "mm_world s1 = ({0}, 1)"
    by (simp add: mime_init_state_def os_mime_type_init_def get_private_magic_def sample_magic_def)
  obtain s2 where s2: "mime_step sample_magic (Guess 2 ''f'') s1 = Some s2"
      "mm_private s2 = [1 \<mapsto> 0, 2 \<mapsto> 1]"
    using s1 by (auto simp: os_mime_type_guess_def get_private_magic_def sample_magic_def)
  have "mime_reaches sample_magic ?s0 s2"
    using mime_reaches.start s1(1) s2(1) mime_reaches.step by metis
  from magic_handles_private [OF sample_magic_laws _ this, of 0] s2(2) show ?thesis
    by (intro exI [of _ s2]) (simp add: sample_handles_def)
qed

theorem unknown_type_faults_witness:
  "os_mime_type_guess sample_magic 1 ''lost'' (\<lparr>mm_init_done = 1, mm_private_key = True, mm_private = Map.empty, mm_world = ({}, 0)\<rparr>) = None"
  by (rule unknown_type_faults) (simp_all add: get_private_magic_def sample_magic_def)

end
