(* ===== verification/Registry.thy ===== *)
theory Registry
  imports ConfFile "HOL-Library.Char_ord" "HOL-Library.List_Lexorder"
begin

text \<open>
  The configuration in the Windows registry, \<open>arch/windows/service/config.c\<close>: a configuration is
  saved as one key per section with one value per entry, and read back by a walk over the keys. The
  registry functions of Windows are arguments.
\<close>

section \<open>The registry\<close>

datatype reg_type = REG_DWORD | REG_SZ | REG_MULTI_SZ | REG_OTHER

text \<open>What \<open>RegQueryInfoKeyA\<close> tells of a key: numbers of subkeys and values, and the longest names.\<close>

record reg_info =
  ri_subkeys :: nat
  ri_subkey_maxlen :: nat
  ri_values :: nat
  ri_value_maxlen :: nat

text \<open>
  The functions, over the state of the registry: an error code or a handle, or \<open>None\<close> for an
  error. The data of a value are bytes; the enumerations are given the size of the buffer for the name.
\<close>

record ('h, 'w) registry_os =
  HKEY_LOCAL_MACHINE :: 'h
  RegOpenKeyA :: "'h \<Rightarrow> cstr \<Rightarrow> 'w \<Rightarrow> (int + 'h) \<times> 'w"
  RegCreateKeyA :: "'h \<Rightarrow> string \<Rightarrow> 'w \<Rightarrow> (int + 'h) \<times> 'w"
  RegCloseKey :: "'h \<Rightarrow> 'w \<Rightarrow> 'w"
  RegSetKeyValueA :: "'h option \<Rightarrow> string \<Rightarrow> reg_type \<Rightarrow> cstr \<Rightarrow> 'w \<Rightarrow> int \<times> 'w"
  RegQueryInfoKeyA :: "'h \<Rightarrow> 'w \<Rightarrow> reg_info option"
  RegEnumValueA :: "'h \<Rightarrow> nat \<Rightarrow> nat \<Rightarrow> 'w \<Rightarrow> (string \<times> reg_type \<times> nat) option"
  RegGetValueA :: "'h \<Rightarrow> string \<Rightarrow> nat \<Rightarrow> 'w \<Rightarrow> string option"
  RegEnumKeyExA :: "'h \<Rightarrow> nat \<Rightarrow> nat \<Rightarrow> 'w \<Rightarrow> string option"

definition APP_ROOT_KEY_PATH :: string where
  "APP_ROOT_KEY_PATH = ''SOFTWARE'' @ [CHR 0x5C] @ ''Teclib'' @ [CHR 0x5C] @ ''Armadito''"

definition MAX_LEN :: nat where "MAX_LEN = 512"
definition MAX_PATH :: nat where "MAX_PATH = 260"

abbreviation NUL :: char where "NUL \<equiv> CHR 0x00"

text \<open>The bytes of a 32-bit integer in memory, and the integer that four bytes hold.\<close>

definition dword_bytes :: "u32 \<Rightarrow> string" where
  "dword_bytes v = map (\<lambda>i. char_of (unat (drop_bit (8 * i) v))) [0..<4]"

definition dword_of :: "string \<Rightarrow> u32" where
  "dword_of b = foldr (\<lambda>c v. of_char c + 256 * v) b 0"

section \<open>Saving\<close>

record 'h conf_reg_data =
  rd_root :: "'h option"
  rd_section :: "'h option"
  rd_prev_section :: cstr

text \<open>The characters copied of a string: at most \<open>MAX_LEN\<close> and the one after them.\<close>

definition copied :: "string \<Rightarrow> string" where
  "copied s = take (min (length s) MAX_LEN + 1) (s @ [NUL])"

text \<open>The type and the data of a value; none is written for a void value.\<close>

definition entry_data :: "a6o_conf_value \<Rightarrow> (reg_type \<times> cstr) option" where
  "entry_data v = (case v of
       CV_VOID \<Rightarrow> None
     | CV_INT i \<Rightarrow> Some (REG_DWORD, Some (dword_bytes i))
     | CV_STRING s \<Rightarrow> Some (REG_SZ, map_option copied s)
     | CV_LIST ss \<Rightarrow> Some (REG_MULTI_SZ, Some (concat (map copied ss) @ [NUL])))"

text \<open>The key of the section, when the section is a new one; \<open>None\<close> is the early return.\<close>

definition enter_section ::
  "('h, 'w) registry_os \<Rightarrow> string \<Rightarrow> 'h conf_reg_data \<times> 'w \<Rightarrow> bool \<times> 'h conf_reg_data \<times> 'w" where
  "enter_section os sec st = (case st of (d, w) \<Rightarrow>
     if rd_prev_section d = None \<or> rd_prev_section d \<noteq> Some sec then
       (case rd_root d of
          None \<Rightarrow> (True, d\<lparr>rd_prev_section := Some sec\<rparr>, w)
        | Some root \<Rightarrow>
            (case RegCreateKeyA os root sec w of
               (Inl res, w1) \<Rightarrow> (False, d, w1)
             | (Inr h, w1) \<Rightarrow>
                 (True, d\<lparr>rd_section := Some h, rd_prev_section := Some sec\<rparr>,
                  case rd_section d of None \<Rightarrow> w1 | Some h0 \<Rightarrow> RegCloseKey os h0 w1)))
     else (True, d, w))"

definition write_entry_in_registry ::
  "('h, 'w) registry_os \<Rightarrow> string \<Rightarrow> string \<Rightarrow> a6o_conf_value \<Rightarrow> 'h conf_reg_data \<times> 'w \<Rightarrow> 'h conf_reg_data \<times> 'w" where
  "write_entry_in_registry os sec key v st = (case enter_section os sec st of
       (False, d, w) \<Rightarrow> (d, w)
     | (True, d, w) \<Rightarrow>
         (case entry_data v of
            None \<Rightarrow> (d, w)
          | Some (t, b) \<Rightarrow> (d, snd (RegSetKeyValueA os (rd_section d) key t b w))))"

definition close_opt :: "('h, 'w) registry_os \<Rightarrow> 'h option \<Rightarrow> 'w \<Rightarrow> 'w" where
  "close_opt os h w = (case h of None \<Rightarrow> w | Some k \<Rightarrow> RegCloseKey os k w)"

definition save_conf_in_registry :: "('h, 'w) registry_os \<Rightarrow> a6o_conf option \<Rightarrow> 'w \<Rightarrow> int \<times> 'w" where
  "save_conf_in_registry os conf w = (case conf of
       None \<Rightarrow> (-1, w)
     | Some c \<Rightarrow>
         (case RegOpenKeyA os (HKEY_LOCAL_MACHINE os) (Some APP_ROOT_KEY_PATH) w of
            (Inl res, w1) \<Rightarrow> (-2, w1)
          | (Inr root, w1) \<Rightarrow>
              (case a6o_conf_apply c (write_entry_in_registry os)
                      (\<lparr>rd_root = Some root, rd_section = None, rd_prev_section = None\<rparr>, w1) of
                 (d, w2) \<Rightarrow> (0, close_opt os (rd_section d) (RegCloseKey os root w2)))))"

section \<open>Reading back\<close>

text \<open>
  The strings of a list of strings in a buffer, with whether the copy of each ends with a NUL.
  \<open>None\<close> is a read past the end of the buffer.
\<close>

function split_multi :: "string \<Rightarrow> (string \<times> bool) list option" where
  "split_multi [] = None"
| "split_multi (c # cs) =
    (if c = NUL then Some []
     else let n = min (length (takeWhile (\<lambda>x. x \<noteq> NUL) (c # cs))) MAX_PATH in
       if n \<ge> length (c # cs) then None
       else map_option ((#) (take n (c # cs), (c # cs) ! n = NUL)) (split_multi (drop (Suc n) (c # cs))))"
  by pat_completeness auto
termination
  by (relation "measure length") auto

text \<open>
  One value. The buffer for the data is cleared and one byte longer than the data. The copies of the
  strings are duplicated when the list is added, which reads past the end of one without a NUL.
\<close>

definition walk_value ::
  "('h, 'w) registry_os \<Rightarrow> 'h \<Rightarrow> cstr \<Rightarrow> string \<Rightarrow> reg_type \<Rightarrow> nat \<Rightarrow> 'w \<Rightarrow> a6o_conf \<Rightarrow> a6o_conf option" where
  "walk_value os hkey sec name t data_len w conf =
    (if t = REG_OTHER then Some conf
     else case RegGetValueA os hkey name data_len w of
         None \<Rightarrow> Some conf
       | Some b \<Rightarrow>
           (case t of
              REG_DWORD \<Rightarrow> Some (case sec of None \<Rightarrow> conf
                | Some s \<Rightarrow> snd (a6o_conf_add_uint conf s name (dword_of b)))
            | REG_SZ \<Rightarrow> Some (case sec of None \<Rightarrow> conf
                | Some s \<Rightarrow> snd (a6o_conf_add_string conf s name (Some (takeWhile (\<lambda>x. x \<noteq> NUL) b))))
            | REG_MULTI_SZ \<Rightarrow>
                (case split_multi (b @ replicate (data_len + 1 - length b) NUL) of
                   None \<Rightarrow> None
                 | Some items \<Rightarrow>
                     (case sec of
                        None \<Rightarrow> Some conf
                      | Some s \<Rightarrow>
                          if list_all snd items then Some (snd (a6o_conf_add_list conf s name (map fst items)))
                          else None))
            | REG_OTHER \<Rightarrow> Some conf))"

text \<open>The loop over the values: \<open>False\<close> when \<open>RegEnumValueA\<close> fails, which ends the function.\<close>

fun walk_values ::
  "('h, 'w) registry_os \<Rightarrow> 'h \<Rightarrow> cstr \<Rightarrow> nat \<Rightarrow> nat list \<Rightarrow> 'w \<Rightarrow> a6o_conf \<Rightarrow> (bool \<times> a6o_conf) option" where
  "walk_values os hkey sec maxlen [] w conf = Some (True, conf)"
| "walk_values os hkey sec maxlen (i # is) w conf =
    (case RegEnumValueA os hkey i maxlen w of
       None \<Rightarrow> Some (False, conf)
     | Some (name, t, data_len) \<Rightarrow>
         (case walk_value os hkey sec name t data_len w conf of
            None \<Rightarrow> None
          | Some conf1 \<Rightarrow> walk_values os hkey sec maxlen is w conf1))"

text \<open>
  The loop over the subkeys; \<open>walk\<close> is the walk of a subkey. Only the handle opened last is closed.
\<close>

fun walk_keys ::
  "('h, 'w) registry_os \<Rightarrow> ('h \<Rightarrow> cstr \<Rightarrow> a6o_conf \<times> 'w \<Rightarrow> (int \<times> a6o_conf \<times> 'w) option)
    \<Rightarrow> 'h \<Rightarrow> nat \<Rightarrow> nat list \<Rightarrow> 'h option \<Rightarrow> a6o_conf \<times> 'w \<Rightarrow> (int \<times> a6o_conf \<times> 'w) option" where
  "walk_keys os walk hkey maxlen [] hSubKey (conf, w) = Some (0, conf, close_opt os hSubKey w)"
| "walk_keys os walk hkey maxlen (i # is) hSubKey (conf, w) =
    (case RegEnumKeyExA os hkey i maxlen w of
       None \<Rightarrow> Some (-3, conf, close_opt os hSubKey w)
     | Some name \<Rightarrow>
         (case RegOpenKeyA os hkey (Some name) w of
            (Inl res, w1) \<Rightarrow> Some (-2, conf, close_opt os hSubKey w1)
          | (Inr h, w1) \<Rightarrow>
              (case walk h (Some name) (conf, w1) of
                 None \<Rightarrow> None
               | Some (_, conf1, w2) \<Rightarrow> walk_keys os walk hkey maxlen is (Some h) (conf1, w2))))"

text \<open>The recursion follows the tree of keys: \<open>fuel\<close> bounds its depth, and 0 gives \<open>None\<close>.\<close>

fun registry_walker ::
  "('h, 'w) registry_os \<Rightarrow> nat \<Rightarrow> 'h \<Rightarrow> cstr \<Rightarrow> a6o_conf \<times> 'w \<Rightarrow> (int \<times> a6o_conf \<times> 'w) option" where
  "registry_walker os 0 hkey sec st = None"
| "registry_walker os (Suc fuel) hkey sec (conf, w) =
    (case RegQueryInfoKeyA os hkey w of
       None \<Rightarrow> Some (-3, conf, w)
     | Some info \<Rightarrow>
         (case walk_values os hkey sec (ri_value_maxlen info + 1) [0..<ri_values info] w conf of
            None \<Rightarrow> None
          | Some (False, conf1) \<Rightarrow> Some (-3, conf1, w)
          | Some (True, conf1) \<Rightarrow>
              walk_keys os (registry_walker os fuel) hkey (ri_subkey_maxlen info + 1) [0..<ri_subkeys info]
                None (conf1, w)))"

definition restore_conf_from_registry ::
  "('h, 'w) registry_os \<Rightarrow> nat \<Rightarrow> a6o_conf option \<Rightarrow> 'w \<Rightarrow> (int \<times> a6o_conf option \<times> 'w) option" where
  "restore_conf_from_registry os fuel conf w = (case conf of
       None \<Rightarrow> Some (-1, None, w)
     | Some c \<Rightarrow>
         (case RegOpenKeyA os (HKEY_LOCAL_MACHINE os) (Some APP_ROOT_KEY_PATH) w of
            (Inl res, w1) \<Rightarrow> Some (-2, Some c, w1)
          | (Inr hAppKey, w1) \<Rightarrow>
              (case registry_walker os fuel hAppKey None (c, w1) of
                 None \<Rightarrow> None
               | Some (_, c1, w2) \<Rightarrow> Some (0, Some c1, RegCloseKey os hAppKey w2))))"

section \<open>Setting up\<close>

text \<open>Whatever fails, the result is 0.\<close>

definition create_app_registry :: "('h, 'w) registry_os \<Rightarrow> 'w \<Rightarrow> int \<times> 'w" where
  "create_app_registry os w = (case RegOpenKeyA os (HKEY_LOCAL_MACHINE os) None w of
       (Inl res, w1) \<Rightarrow> (0, w1)
     | (Inr hRootKey, w1) \<Rightarrow>
         (case RegCreateKeyA os hRootKey APP_ROOT_KEY_PATH w1 of
            (Inl res, w2) \<Rightarrow> (0, RegCloseKey os hRootKey w2)
          | (Inr hAppKey, w2) \<Rightarrow> (0, RegCloseKey os hRootKey (RegCloseKey os hAppKey w2))))"

definition delete_app_registry :: "('h, 'w) registry_os \<Rightarrow> 'w \<Rightarrow> int \<times> 'w" where
  "delete_app_registry os w = (case RegOpenKeyA os (HKEY_LOCAL_MACHINE os) (Some ''SOFTWARE'') w of
       (Inl res, w1) \<Rightarrow> (0, w1)
     | (Inr hRootKey, w1) \<Rightarrow> (0, RegCloseKey os hRootKey w1))"

text \<open>\<open>conf_file\<close> is the path of the configuration file, and \<open>contents\<close> what opening a path gives.\<close>

definition init_configuration ::
  "('h, 'w) registry_os \<Rightarrow> cstr \<Rightarrow> (string \<Rightarrow> string option) \<Rightarrow> 'w \<Rightarrow> (int \<times> 'w) option" where
  "init_configuration os conf_file contents w = (case create_app_registry os w of (ret, w1) \<Rightarrow>
     if ret \<noteq> 0 then Some (-1, w1)
     else case conf_file of
         None \<Rightarrow> Some (-3, w1)
       | Some path \<Rightarrow>
           (case a6o_conf_load_file a6o_conf_new path (contents path) of
              None \<Rightarrow> None
            | Some (_, conf) \<Rightarrow> Some (0, snd (save_conf_in_registry os (Some conf) w1))))"

definition conf_poc_windows ::
  "('h, 'w) registry_os \<Rightarrow> nat \<Rightarrow> string \<Rightarrow> (string \<Rightarrow> string option) \<Rightarrow> 'w \<Rightarrow> (int \<times> 'w) option" where
  "conf_poc_windows os fuel conf_file_path contents w = (case create_app_registry os w of (ret, w1) \<Rightarrow>
     (case a6o_conf_load_file a6o_conf_new conf_file_path (contents conf_file_path) of
        None \<Rightarrow> None
      | Some (_, conf) \<Rightarrow>
          (case save_conf_in_registry os (Some conf) w1 of (_, w2) \<Rightarrow>
             map_option (\<lambda>(_, _, w3). (ret, w3)) (restore_conf_from_registry os fuel (Some a6o_conf_new) w2))))"

section \<open>The registry as documented\<close>

text \<open>A key: its values with their types and data, and the names of its subkeys.\<close>

record reg_key =
  rk_values :: "string \<rightharpoonup> reg_type \<times> string"
  rk_subkeys :: "string set"

definition empty_key :: reg_key where
  "empty_key = \<lparr>rk_values = Map.empty, rk_subkeys = {}\<rparr>"

text \<open>
  What is known of the registry: the keys by their paths, the open handles and the path of each, and
  the orders of the enumerations, about which nothing is assumed.
\<close>

record ('h, 'w) registry_view =
  rv_path :: "'h \<Rightarrow> string list"
  rv_keys :: "'w \<Rightarrow> string list \<Rightarrow> reg_key option"
  rv_open :: "'w \<Rightarrow> 'h set"
  rv_value_order :: "(string list \<Rightarrow> reg_key option) \<Rightarrow> string list \<Rightarrow> string list"
  rv_key_order :: "(string list \<Rightarrow> reg_key option) \<Rightarrow> string list \<Rightarrow> string list"

text \<open>\<open>RegGetValueA\<close> gives the data as they are when they end as their type asks.\<close>

definition well_ended :: "reg_type \<Rightarrow> string \<Rightarrow> bool" where
  "well_ended t b \<longleftrightarrow> (case t of
       REG_DWORD \<Rightarrow> length b = 4
     | REG_SZ \<Rightarrow> b \<noteq> [] \<and> last b = NUL
     | REG_MULTI_SZ \<Rightarrow> b \<noteq> [] \<and> last b = NUL
     | REG_OTHER \<Rightarrow> True)"

text \<open>What the enumerations of a key give.\<close>

definition enumerates ::
  "('h, 'w) registry_os \<Rightarrow> 'h \<Rightarrow> reg_key \<Rightarrow> string list \<Rightarrow> string list \<Rightarrow> 'w \<Rightarrow> bool" where
  "enumerates os h k vs ks w \<longleftrightarrow> distinct vs \<and> set vs = dom (rk_values k) \<and> distinct ks \<and> set ks = rk_subkeys k
     \<and> (\<exists>info. RegQueryInfoKeyA os h w = Some info \<and> ri_values info = length vs \<and> ri_subkeys info = length ks
         \<and> (\<forall>s \<in> set vs. length s \<le> ri_value_maxlen info) \<and> (\<forall>s \<in> set ks. length s \<le> ri_subkey_maxlen info))
     \<and> (\<forall>i < length vs. \<forall>n > length (vs ! i). RegEnumValueA os h i n w
         = Some (vs ! i, fst (the (rk_values k (vs ! i))), length (snd (the (rk_values k (vs ! i))))))
     \<and> (\<forall>i < length ks. \<forall>n > length (ks ! i). RegEnumKeyExA os h i n w = Some (ks ! i))"

text \<open>
  The documented behaviour, for names of \<open>names\<close>: names that the registry accepts, and of which no two
  differ in the case of letters only. The calls on a handle concern handles that are open.
\<close>

definition registry_laws :: "('h, 'w) registry_os \<Rightarrow> ('h, 'w) registry_view \<Rightarrow> string set \<Rightarrow> bool" where
  "registry_laws os v names \<longleftrightarrow>
    (\<forall>w h s. h \<in> rv_open v w \<and> s \<in> names \<longrightarrow> (case RegOpenKeyA os h (Some s) w of
        (Inl _, w') \<Rightarrow> rv_keys v w (rv_path v h @ [s]) = None
      | (Inr h', w') \<Rightarrow> rv_keys v w (rv_path v h @ [s]) \<noteq> None \<and> rv_path v h' = rv_path v h @ [s]
          \<and> h' \<notin> rv_open v w \<and> rv_open v w' = insert h' (rv_open v w) \<and> rv_keys v w' = rv_keys v w))
    \<and> (\<forall>w h s k. h \<in> rv_open v w \<and> s \<in> names \<and> rv_keys v w (rv_path v h) = Some k \<longrightarrow>
        (\<exists>h' w'. RegCreateKeyA os h s w = (Inr h', w') \<and> rv_path v h' = rv_path v h @ [s]
          \<and> h' \<notin> rv_open v w \<and> rv_open v w' = insert h' (rv_open v w)
          \<and> rv_keys v w' = (if rv_keys v w (rv_path v h @ [s]) \<noteq> None then rv_keys v w
              else (rv_keys v w)(rv_path v h \<mapsto> k\<lparr>rk_subkeys := insert s (rk_subkeys k)\<rparr>,
                                 rv_path v h @ [s] \<mapsto> empty_key))))
    \<and> (\<forall>w h. rv_open v (RegCloseKey os h w) = rv_open v w - {h} \<and> rv_keys v (RegCloseKey os h w) = rv_keys v w)
    \<and> (\<forall>w h s t b k. h \<in> rv_open v w \<and> s \<in> names \<and> rv_keys v w (rv_path v h) = Some k \<longrightarrow>
        rv_open v (snd (RegSetKeyValueA os (Some h) s t (Some b) w)) = rv_open v w
        \<and> rv_keys v (snd (RegSetKeyValueA os (Some h) s t (Some b) w))
          = (rv_keys v w)(rv_path v h \<mapsto> k\<lparr>rk_values := (rk_values k)(s \<mapsto> (t, b))\<rparr>))
    \<and> (\<forall>w h k. h \<in> rv_open v w \<and> rv_keys v w (rv_path v h) = Some k \<and> finite (dom (rk_values k)) \<and> finite (rk_subkeys k) \<longrightarrow>
        enumerates os h k (rv_value_order v (rv_keys v w) (rv_path v h)) (rv_key_order v (rv_keys v w) (rv_path v h)) w)
    \<and> (\<forall>w h k s t b. h \<in> rv_open v w \<and> rv_keys v w (rv_path v h) = Some k \<and> rk_values k s = Some (t, b)
        \<and> well_ended t b \<longrightarrow> RegGetValueA os h s (length b) w = Some b)"

lemma registry_lawsD:
  assumes "registry_laws os v names"
  shows open_law: "h \<in> rv_open v w \<Longrightarrow> s \<in> names \<Longrightarrow> rv_keys v w (rv_path v h @ [s]) \<noteq> None \<Longrightarrow>
      \<exists>h' w'. RegOpenKeyA os h (Some s) w = (Inr h', w') \<and> rv_path v h' = rv_path v h @ [s]
        \<and> h' \<notin> rv_open v w \<and> rv_open v w' = insert h' (rv_open v w) \<and> rv_keys v w' = rv_keys v w"
    and create_law: "h \<in> rv_open v w \<Longrightarrow> s \<in> names \<Longrightarrow> rv_keys v w (rv_path v h) = Some k \<Longrightarrow>
      \<exists>h' w'. RegCreateKeyA os h s w = (Inr h', w') \<and> rv_path v h' = rv_path v h @ [s]
          \<and> h' \<notin> rv_open v w \<and> rv_open v w' = insert h' (rv_open v w)
          \<and> rv_keys v w' = (if rv_keys v w (rv_path v h @ [s]) \<noteq> None then rv_keys v w
              else (rv_keys v w)(rv_path v h \<mapsto> k\<lparr>rk_subkeys := insert s (rk_subkeys k)\<rparr>,
                                 rv_path v h @ [s] \<mapsto> empty_key))"
    and close_law: "rv_open v (RegCloseKey os h w) = rv_open v w - {h}"
      "rv_keys v (RegCloseKey os h w) = rv_keys v w"
    and set_law: "h \<in> rv_open v w \<Longrightarrow> s \<in> names \<Longrightarrow> rv_keys v w (rv_path v h) = Some k \<Longrightarrow>
      rv_open v (snd (RegSetKeyValueA os (Some h) s t (Some b) w)) = rv_open v w
        \<and> rv_keys v (snd (RegSetKeyValueA os (Some h) s t (Some b) w))
          = (rv_keys v w)(rv_path v h \<mapsto> k\<lparr>rk_values := (rk_values k)(s \<mapsto> (t, b))\<rparr>)"
    and get_law: "h \<in> rv_open v w \<Longrightarrow> rv_keys v w (rv_path v h) = Some k \<Longrightarrow> rk_values k s = Some (t, b)
        \<Longrightarrow> well_ended t b \<Longrightarrow> RegGetValueA os h s (length b) w = Some b"
    and query_law: "h \<in> rv_open v w \<Longrightarrow> rv_keys v w (rv_path v h) = Some k \<Longrightarrow> finite (dom (rk_values k)) \<Longrightarrow>
      finite (rk_subkeys k) \<Longrightarrow>
      enumerates os h k (rv_value_order v (rv_keys v w) (rv_path v h)) (rv_key_order v (rv_keys v w) (rv_path v h)) w"
proof -
  note L = assms [unfolded registry_laws_def]
  show "h \<in> rv_open v w \<Longrightarrow> s \<in> names \<Longrightarrow> rv_keys v w (rv_path v h @ [s]) \<noteq> None \<Longrightarrow>
      \<exists>h' w'. RegOpenKeyA os h (Some s) w = (Inr h', w') \<and> rv_path v h' = rv_path v h @ [s]
        \<and> h' \<notin> rv_open v w \<and> rv_open v w' = insert h' (rv_open v w) \<and> rv_keys v w' = rv_keys v w"
    using L [THEN conjunct1, rule_format, of h w s] by (auto split: prod.splits sum.splits)
  show "h \<in> rv_open v w \<Longrightarrow> s \<in> names \<Longrightarrow> rv_keys v w (rv_path v h) = Some k \<Longrightarrow>
      \<exists>h' w'. RegCreateKeyA os h s w = (Inr h', w') \<and> rv_path v h' = rv_path v h @ [s]
          \<and> h' \<notin> rv_open v w \<and> rv_open v w' = insert h' (rv_open v w)
          \<and> rv_keys v w' = (if rv_keys v w (rv_path v h @ [s]) \<noteq> None then rv_keys v w
              else (rv_keys v w)(rv_path v h \<mapsto> k\<lparr>rk_subkeys := insert s (rk_subkeys k)\<rparr>,
                                 rv_path v h @ [s] \<mapsto> empty_key))"
    using L [THEN conjunct2, THEN conjunct1, rule_format, of h w s k] by blast
  show "rv_open v (RegCloseKey os h w) = rv_open v w - {h}" "rv_keys v (RegCloseKey os h w) = rv_keys v w"
    using L by blast+
  show "h \<in> rv_open v w \<Longrightarrow> s \<in> names \<Longrightarrow> rv_keys v w (rv_path v h) = Some k \<Longrightarrow>
      rv_open v (snd (RegSetKeyValueA os (Some h) s t (Some b) w)) = rv_open v w
        \<and> rv_keys v (snd (RegSetKeyValueA os (Some h) s t (Some b) w))
          = (rv_keys v w)(rv_path v h \<mapsto> k\<lparr>rk_values := (rk_values k)(s \<mapsto> (t, b))\<rparr>)"
    using L [THEN conjunct2, THEN conjunct2, THEN conjunct2, THEN conjunct1, rule_format, of h w s k t b] by blast
  show "h \<in> rv_open v w \<Longrightarrow> rv_keys v w (rv_path v h) = Some k \<Longrightarrow> rk_values k s = Some (t, b)
        \<Longrightarrow> well_ended t b \<Longrightarrow> RegGetValueA os h s (length b) w = Some b"
    using L [THEN conjunct2, THEN conjunct2, THEN conjunct2, THEN conjunct2, THEN conjunct2, rule_format, of h w k s t b]
    by blast
  show "h \<in> rv_open v w \<Longrightarrow> rv_keys v w (rv_path v h) = Some k \<Longrightarrow> finite (dom (rk_values k)) \<Longrightarrow>
      finite (rk_subkeys k) \<Longrightarrow>
      enumerates os h k (rv_value_order v (rv_keys v w) (rv_path v h)) (rv_key_order v (rv_keys v w) (rv_path v h)) w"
    using L [THEN conjunct2, THEN conjunct2, THEN conjunct2, THEN conjunct2, THEN conjunct1, rule_format, of h w k]
    by blast
qed

section \<open>Values\<close>

text \<open>The values that the registry gives back as they were.\<close>

definition storable :: "a6o_conf_value \<Rightarrow> bool" where
  "storable v \<longleftrightarrow> (case v of
       CV_VOID \<Rightarrow> False
     | CV_INT i \<Rightarrow> True
     | CV_STRING s \<Rightarrow> (case s of None \<Rightarrow> False | Some t \<Rightarrow> NUL \<notin> set t \<and> length t \<le> MAX_LEN)
     | CV_LIST ss \<Rightarrow> (\<forall>s \<in> set ss. s \<noteq> [] \<and> NUL \<notin> set s \<and> length s \<le> MAX_PATH))"

text \<open>The type and the bytes that a storable value has in the registry.\<close>

definition reg_form :: "a6o_conf_value \<Rightarrow> reg_type \<times> string" where
  "reg_form v = (case v of
       CV_VOID \<Rightarrow> (REG_OTHER, [])
     | CV_INT i \<Rightarrow> (REG_DWORD, dword_bytes i)
     | CV_STRING s \<Rightarrow> (REG_SZ, the s @ [NUL])
     | CV_LIST ss \<Rightarrow> (REG_MULTI_SZ, concat (map (\<lambda>s. s @ [NUL]) ss) @ [NUL]))"

lemma copied_short: "length s \<le> MAX_LEN \<Longrightarrow> copied s = s @ [NUL]"
  by (simp add: copied_def)

lemma entry_data_form:
  assumes "storable v"
  shows "entry_data v = Some (fst (reg_form v), Some (snd (reg_form v)))"
proof (cases v)
  case (CV_LIST ss)
  then have m: "map copied ss = map (\<lambda>s. s @ [NUL]) ss"
    using assms by (auto simp: storable_def MAX_PATH_def MAX_LEN_def intro!: copied_short)
  show ?thesis
    by (simp only: CV_LIST entry_data_def reg_form_def a6o_conf_value.case m fst_conv snd_conv)
qed (use assms in \<open>auto simp: storable_def entry_data_def reg_form_def copied_short split: option.splits\<close>)

lemma well_ended_form: "storable v \<Longrightarrow> well_ended (fst (reg_form v)) (snd (reg_form v))"
  by (auto simp: storable_def reg_form_def well_ended_def dword_bytes_def split: a6o_conf_value.splits)

lemma dword_of_bytes: "dword_of (dword_bytes v) = v"
proof -
  let ?n = "unat v"
  have byte: "(of_char (char_of (unat (drop_bit k v))) :: u32) = of_nat (?n div 2 ^ k mod 256)" for k
  proof -
    have "unat (drop_bit k v) = ?n div 2 ^ k"
      by (subst unat_drop_bit_eq) (rule drop_bit_eq_div)
    moreover have "(of_char (char_of m) :: u32) = of_nat (m mod 256)" for m :: nat
      by (metis of_char_of of_nat_of_char)
    ultimately show ?thesis by simp
  qed
  have n: "?n < 4294967296"
  proof -
    have "?n < 2 ^ LENGTH(32)" by (rule unsigned_less)
    then show ?thesis by simp
  qed
  have "dword_of (dword_bytes v) = of_nat (?n mod 256 + 256 * (?n div 256 mod 256 + 256 * (?n div 65536 mod 256
      + 256 * (?n div 16777216 mod 256))))"
  proof -
    have upt: "[0..<4] = [0, 1, 2, 3::nat]" by (simp add: upt_rec)
    show ?thesis
      using byte [of 0] byte [of 8] byte [of 16] byte [of 24]
      by (simp add: dword_of_def dword_bytes_def upt algebra_simps)
  qed
  also have "?n mod 256 + 256 * (?n div 256 mod 256 + 256 * (?n div 65536 mod 256 + 256 * (?n div 16777216 mod 256))) = ?n"
  proof -
    have d: "?n div 65536 = ?n div 256 div 256" "?n div 16777216 = ?n div 256 div 256 div 256"
      by (simp_all add: div_mult2_eq [symmetric])
    have "?n div 256 div 256 div 256 < 256"
      using n by (simp add: div_mult2_eq [symmetric] less_mult_imp_div_less)
    then show ?thesis
      unfolding d by (simp only: mod_less mod_mult_div_eq)
  qed
  finally show ?thesis by simp
qed

lemma takeWhile_NUL: "NUL \<notin> set s \<Longrightarrow> takeWhile (\<lambda>x. x \<noteq> NUL) (s @ NUL # r) = s"
proof -
  assume "NUL \<notin> set s"
  then have "\<forall>x \<in> set s. x \<noteq> NUL" by metis
  then show ?thesis by (simp add: takeWhile_append2)
qed

lemma split_multi_item:
  assumes "s \<noteq> []" "NUL \<notin> set s" "length s \<le> MAX_PATH"
  shows "split_multi (s @ NUL # r) = map_option ((#) (s, True)) (split_multi r)"
proof (cases s)
  case (Cons c cs)
  have t: "takeWhile (\<lambda>x. x \<noteq> NUL) (c # cs @ NUL # r) = c # cs"
    using takeWhile_NUL [OF assms(2), of r] Cons by simp
  have m: "min (length (c # cs)) MAX_PATH = length (c # cs)"
    using assms(3) Cons by simp
  have "c \<noteq> NUL"
    using assms(2) Cons by auto
  then show ?thesis
    unfolding Cons append_Cons
    by (subst split_multi.simps) (simp only: t m Let_def if_False, simp add: nth_append)
qed (use assms in simp)

lemma split_multi_list:
  assumes "\<forall>s \<in> set ss. s \<noteq> [] \<and> NUL \<notin> set s \<and> length s \<le> MAX_PATH"
  shows "split_multi (concat (map (\<lambda>s. s @ [NUL]) ss) @ NUL # r) = Some (map (\<lambda>s. (s, True)) ss)"
  using assms
proof (induction ss)
  case (Cons s ss)
  then show ?case
    using split_multi_item [of s "concat (map (\<lambda>s. s @ [NUL]) ss) @ NUL # r"] by simp
qed simp

lemma walk_value_form:
  assumes "storable v" "RegGetValueA os h name (length (snd (reg_form v))) w = Some (snd (reg_form v))"
  shows "walk_value os h (Some sec) name (fst (reg_form v)) (length (snd (reg_form v))) w conf
    = Some (snd (a6o_conf_add_value conf sec name v))"
proof (cases v)
  case (CV_LIST ss)
  have "split_multi (snd (reg_form v) @ [NUL]) = Some (map (\<lambda>s. (s, True)) ss)"
    using split_multi_list [of ss "[NUL]"] assms(1) CV_LIST by (simp add: storable_def reg_form_def)
  then show ?thesis
    using assms CV_LIST by (simp add: walk_value_def reg_form_def add_typed list_all_iff comp_def)
next
  case (CV_STRING s)
  then obtain t where s: "s = Some t" "NUL \<notin> set t"
    using assms(1) by (cases s) (auto simp: storable_def)
  with takeWhile_NUL [OF s(2), of "[]"] assms CV_STRING show ?thesis
    by (simp add: walk_value_def reg_form_def add_typed)
qed (use assms in \<open>auto simp: storable_def walk_value_def reg_form_def add_typed dword_of_bytes\<close>)

section \<open>What saving writes\<close>

type_synonym conf_entries = "((string \<times> string) \<times> a6o_conf_value) list"

abbreviation sections_of :: "conf_entries \<Rightarrow> string set" where
  "sections_of L \<equiv> (\<lambda>e. fst (fst e)) ` set L"

text \<open>The key of a section with its values.\<close>

definition section_key :: "conf_entries \<Rightarrow> string \<Rightarrow> reg_key" where
  "section_key L s = \<lparr>rk_values = (\<lambda>n. map_option reg_form (map_of L (s, n))), rk_subkeys = {}\<rparr>"

text \<open>The keys hold the entries \<open>L\<close>: the key at \<open>p\<close> has a subkey for each section of \<open>S\<close>.\<close>

definition holds :: "string list \<Rightarrow> conf_entries \<Rightarrow> string set \<Rightarrow> (string list \<Rightarrow> reg_key option) \<Rightarrow> bool" where
  "holds p L S K \<longleftrightarrow> K p = Some \<lparr>rk_values = Map.empty, rk_subkeys = S\<rparr>
     \<and> (\<forall>s. K (p @ [s]) = (if s \<in> S then Some (section_key L s) else None))"

text \<open>
  The data of the callback between two entries: the handle of the section entered last is open, and
  besides it the one of the root only.
\<close>

definition save_inv ::
  "('h, 'w) registry_view \<Rightarrow> string list \<Rightarrow> 'h set \<Rightarrow> conf_entries \<Rightarrow> 'h conf_reg_data \<times> 'w \<Rightarrow> bool" where
  "save_inv v p Op L st \<longleftrightarrow> (case st of (d, w) \<Rightarrow>
     \<exists>r. rd_root d = Some r \<and> rv_path v r = p \<and> r \<notin> Op
       \<and> rv_open v w = insert r (set_option (rd_section d) \<union> Op)
       \<and> holds p L (sections_of L) (rv_keys v w)
       \<and> (case rd_prev_section d of
            None \<Rightarrow> rd_section d = None
          | Some s \<Rightarrow> s \<in> sections_of L \<and> (\<exists>h. rd_section d = Some h \<and> rv_path v h = p @ [s] \<and> h \<noteq> r \<and> h \<notin> Op)))"

lemma enter_section_spec:
  assumes laws: "registry_laws os v names" and inv: "save_inv v p Op L (d, w)" and s: "s \<in> names"
  shows "\<exists>r h d1 w1. enter_section os s (d, w) = (True, d1, w1) \<and> rd_root d1 = Some r \<and> rv_path v r = p \<and> r \<notin> Op
    \<and> rd_section d1 = Some h \<and> rv_path v h = p @ [s] \<and> h \<noteq> r \<and> h \<notin> Op \<and> rd_prev_section d1 = Some s
    \<and> rv_open v w1 = insert r (insert h Op) \<and> holds p L (insert s (sections_of L)) (rv_keys v w1)"
proof -
  obtain r where r: "rd_root d = Some r" "rv_path v r = p" "r \<notin> Op"
      "rv_open v w = insert r (set_option (rd_section d) \<union> Op)" "holds p L (sections_of L) (rv_keys v w)"
      "case rd_prev_section d of None \<Rightarrow> rd_section d = None
        | Some s \<Rightarrow> s \<in> sections_of L \<and> (\<exists>h. rd_section d = Some h \<and> rv_path v h = p @ [s] \<and> h \<noteq> r \<and> h \<notin> Op)"
    using inv by (auto simp: save_inv_def)
  show ?thesis
  proof (cases "rd_prev_section d = Some s")
    case True
    with r have in_S: "s \<in> sections_of L" by simp
    obtain h where h: "rd_section d = Some h" "rv_path v h = p @ [s]" "h \<noteq> r" "h \<notin> Op"
      using True r(6) by auto
    have "enter_section os s (d, w) = (True, d, w)"
      using True by (simp add: enter_section_def)
    moreover have "insert s (sections_of L) = sections_of L"
      using in_S by (rule insert_absorb)
    ultimately show ?thesis
      using r(1-5) h True by (intro exI [of _ r] exI [of _ h] exI [of _ d] exI [of _ w]) simp
  next
    case False
    let ?K = "rv_keys v w"
    have Kp: "?K (rv_path v r) = Some \<lparr>rk_values = Map.empty, rk_subkeys = sections_of L\<rparr>"
      using r(2,5) by (simp add: holds_def)
    have "r \<in> rv_open v w" using r(4) by simp
    from create_law [OF laws this s Kp] obtain h w1 where c: "RegCreateKeyA os r s w = (Inr h, w1)"
        "rv_path v h = p @ [s]" "h \<notin> rv_open v w" "rv_open v w1 = insert h (rv_open v w)"
        "rv_keys v w1 = (if ?K (p @ [s]) \<noteq> None then ?K
          else ?K(p \<mapsto> \<lparr>rk_values = Map.empty, rk_subkeys = insert s (sections_of L)\<rparr>, p @ [s] \<mapsto> empty_key))"
      using r(2) by auto
    have keys: "holds p L (insert s (sections_of L)) (rv_keys v w1)"
    proof (cases "s \<in> sections_of L")
      case True
      then have "insert s (sections_of L) = sections_of L" by (rule insert_absorb)
      moreover have "?K (p @ [s]) \<noteq> None"
        using True r(5) by (simp add: holds_def)
      ultimately show ?thesis using r(5) c(5) by simp
    next
      case False
      have "map_of L (s, n) = None" for n
        using False by (force simp: map_of_eq_None_iff image_iff)
      then have "section_key L s = empty_key"
        by (simp add: section_key_def empty_key_def)
      with False r(5) c(5) show ?thesis
        by (auto simp: holds_def)
    qed
    define w2 where "w2 = (case rd_section d of None \<Rightarrow> w1 | Some h0 \<Rightarrow> RegCloseKey os h0 w1)"
    have w2: "rv_keys v w2 = rv_keys v w1" "rv_open v w2 = insert r (insert h Op)"
      using r(3,4,6) c(3,4) close_law [OF laws] unfolding w2_def
      by (cases "rd_section d"; cases "rd_prev_section d"; auto)+
    have "enter_section os s (d, w) = (True, d\<lparr>rd_section := Some h, rd_prev_section := Some s\<rparr>, w2)"
      using False r(1) c(1) by (cases "rd_prev_section d") (auto simp: enter_section_def w2_def)
    then show ?thesis
      using r(1-4) c(2,3) w2 keys by (intro exI [of _ r] exI [of _ h]) auto
  qed
qed

lemma write_entry_spec:
  assumes laws: "registry_laws os v names" and inv: "save_inv v p Op L (d, w)"
    and e: "s \<in> names" "n \<in> names" "storable x" "(s, n) \<notin> fst ` set L"
  shows "save_inv v p Op (L @ [((s, n), x)]) (write_entry_in_registry os s n x (d, w))"
proof -
  let ?L = "L @ [((s, n), x)]"
  obtain r h d1 w1 where A: "enter_section os s (d, w) = (True, d1, w1)" "rd_root d1 = Some r" "rv_path v r = p" "r \<notin> Op"
      "rd_section d1 = Some h" "rv_path v h = p @ [s]" "h \<noteq> r" "h \<notin> Op" "rd_prev_section d1 = Some s"
      "rv_open v w1 = insert r (insert h Op)" "holds p L (insert s (sections_of L)) (rv_keys v w1)"
    using enter_section_spec [OF laws inv e(1)] by blast
  define w2 where "w2 = snd (RegSetKeyValueA os (Some h) n (fst (reg_form x)) (Some (snd (reg_form x))) w1)"
  have wr: "write_entry_in_registry os s n x (d, w) = (d1, w2)"
    using A(1,5) by (simp add: write_entry_in_registry_def entry_data_form [OF e(3)] w2_def)
  have Kh: "rv_keys v w1 (rv_path v h) = Some (section_key L s)"
    using A(6,11) by (simp add: holds_def)
  have w2: "rv_open v w2 = rv_open v w1"
      "rv_keys v w2 = (rv_keys v w1)(p @ [s] \<mapsto> (section_key L s)\<lparr>rk_values := (rk_values (section_key L s))(n \<mapsto> reg_form x)\<rparr>)"
    using set_law [OF laws _ e(2) Kh, of "fst (reg_form x)" "snd (reg_form x)"] A(6,10) unfolding w2_def by auto
  have "map_of L (s, n) = None"
    using e(4) by (simp add: map_of_eq_None_iff)
  then have upd: "(section_key L s)\<lparr>rk_values := (rk_values (section_key L s))(n \<mapsto> reg_form x)\<rparr> = section_key ?L s"
    by (auto simp: section_key_def map_add_def fun_eq_iff split: option.splits)
  have same: "section_key ?L s' = section_key L s'" if "s' \<noteq> s" for s'
    using that by (auto simp: section_key_def map_add_def fun_eq_iff split: option.splits)
  have secs: "sections_of ?L = insert s (sections_of L)" by simp
  have "holds p ?L (sections_of ?L) (rv_keys v w2)"
    using A(11) unfolding holds_def w2(2) upd secs by (auto simp: same)
  then show ?thesis
    unfolding wr save_inv_def using A w2(1) secs by auto
qed

lemma save_fold:
  assumes laws: "registry_laws os v names"
    and "save_inv v p Op L st" "distinct (map fst (L @ M))"
    and "\<forall>((s, n), x) \<in> set M. s \<in> names \<and> n \<in> names \<and> storable x"
  shows "save_inv v p Op (L @ M) (fold (\<lambda>((s, k), v). write_entry_in_registry os s k v) M st)"
  using assms(2-4)
proof (induction M arbitrary: L st)
  case (Cons e M)
  obtain s n x where e: "e = ((s, n), x)" by (metis prod.exhaust)
  obtain d w where st: "st = (d, w)" by (cases st)
  have "(s, n) \<notin> fst ` set L"
    using Cons.prems(2) e by auto
  then have "save_inv v p Op (L @ [e]) (write_entry_in_registry os s n x st)"
    using write_entry_spec [OF laws, of p Op L d w s n x] Cons.prems(1,3) e st by auto
  from Cons.IH [OF this] Cons.prems(2,3) e show ?case by simp
qed simp

text \<open>The configurations that the registry can hold under the names.\<close>

definition registrable :: "string set \<Rightarrow> a6o_conf \<Rightarrow> bool" where
  "registrable names conf \<longleftrightarrow> conf_inv conf
     \<and> (\<forall>((s, n), x) \<in> set (conf_alist conf). s \<in> names \<and> n \<in> names \<and> storable x)"

lemma save_spec:
  assumes laws: "registry_laws os v names" and conf: "registrable names conf"
    and root: "HKEY_LOCAL_MACHINE os \<in> rv_open v w" "APP_ROOT_KEY_PATH \<in> names"
    and p: "p = rv_path v (HKEY_LOCAL_MACHINE os) @ [APP_ROOT_KEY_PATH]"
    and empty: "holds p [] {} (rv_keys v w)"
  shows "\<exists>w'. save_conf_in_registry os (Some conf) w = (0, w') \<and> rv_open v w' = rv_open v w
    \<and> holds p (conf_alist conf) (sections_of (conf_alist conf)) (rv_keys v w')"
proof -
  have "rv_keys v w p \<noteq> None" using empty by (simp add: holds_def)
  with open_law [OF laws root] p obtain r w1 where o1: "RegOpenKeyA os (HKEY_LOCAL_MACHINE os) (Some APP_ROOT_KEY_PATH) w = (Inr r, w1)"
      "rv_path v r = p" "r \<notin> rv_open v w" "rv_open v w1 = insert r (rv_open v w)" "rv_keys v w1 = rv_keys v w"
    by blast
  let ?d = "\<lparr>rd_root = Some r, rd_section = None, rd_prev_section = None\<rparr>"
  have "save_inv v p (rv_open v w) [] (?d, w1)"
    using o1 empty by (simp add: save_inv_def)
  from save_fold [OF laws this, of "conf_alist conf"] conf conf_alist_distinct [of conf]
  have inv: "save_inv v p (rv_open v w) (conf_alist conf) (a6o_conf_apply conf (write_entry_in_registry os) (?d, w1))"
    by (simp add: registrable_def apply_fold)
  obtain d w2 where a: "a6o_conf_apply conf (write_entry_in_registry os) (?d, w1) = (d, w2)"
    by fastforce
  obtain r' where i: "r' \<notin> rv_open v w" "rd_root d = Some r'" "rv_open v w2 = insert r' (set_option (rd_section d) \<union> rv_open v w)"
      "holds p (conf_alist conf) (sections_of (conf_alist conf)) (rv_keys v w2)"
      "case rd_prev_section d of None \<Rightarrow> rd_section d = None
        | Some s \<Rightarrow> (\<exists>h. rd_section d = Some h \<and> h \<noteq> r' \<and> h \<notin> rv_open v w)"
    using inv unfolding a save_inv_def by (auto split: option.splits)
  have root_kept: "rd_root (fst (fold (\<lambda>((s, k), v). write_entry_in_registry os s k v) M (d0, w0))) = rd_root d0" for M d0 w0
  proof (induction M arbitrary: d0 w0)
    case (Cons e M)
    obtain s n x where e: "e = ((s, n), x)" by (metis prod.exhaust)
    obtain d1 w1 where w: "write_entry_in_registry os s n x (d0, w0) = (d1, w1)" by fastforce
    then have "rd_root d1 = rd_root d0"
      by (auto simp: write_entry_in_registry_def enter_section_def split: if_splits option.splits sum.splits prod.splits bool.splits)
    with Cons [of d1 w1] e w show ?case by simp
  qed simp
  have "r' = r"
    using root_kept [of "conf_alist conf" ?d w1] a i(2) by (simp add: apply_fold)
  with i have open2: "rv_open v (close_opt os (rd_section d) (RegCloseKey os r w2)) = rv_open v w"
    by (cases "rd_prev_section d") (auto simp: close_opt_def close_law [OF laws])
  have keys2: "rv_keys v (close_opt os (rd_section d) (RegCloseKey os r w2)) = rv_keys v w2"
    by (simp add: close_opt_def close_law [OF laws] split: option.splits)
  show ?thesis
    using a o1(1) open2 keys2 i(4) by (auto simp: save_conf_in_registry_def)
qed

section \<open>What reading gives\<close>

text \<open>Adding values under fresh names of one section.\<close>

lemma fold_add:
  assumes "conf_inv conf" "distinct vs" "\<forall>n \<in> set vs. conf_map conf (s, n) = None"
  shows "conf_inv (fold (\<lambda>n c. snd (a6o_conf_add_value c s n (val n))) vs conf)
    \<and> conf_map (fold (\<lambda>n c. snd (a6o_conf_add_value c s n (val n))) vs conf)
      = (\<lambda>x. if fst x = s \<and> snd x \<in> set vs then Some (val (snd x)) else conf_map conf x)"
  using assms
proof (induction vs arbitrary: conf)
  case (Cons n vs)
  obtain c where c: "a6o_conf_add_value conf s n (val n) = (0, c)" "conf_inv c" "conf_map c = (conf_map conf)((s, n) \<mapsto> val n)"
    using add_value_spec [OF Cons.prems(1), of s n "val n"] Cons.prems(3) by auto
  have "\<forall>m \<in> set vs. conf_map c (s, m) = None"
    using Cons.prems(2,3) c(3) by auto
  from Cons.IH [OF c(2) _ this] Cons.prems(2) c(1,3) show ?case
    by (auto simp: fun_eq_iff)
qed simp

lemma walk_values_spec:
  assumes laws: "registry_laws os v names" and h: "h \<in> rv_open v w" "rv_keys v w (rv_path v h) = Some k"
    and en: "enumerates os h k vs ks w" and vals: "rk_values k = (\<lambda>n. map_option reg_form (M n))"
      "\<forall>n x. M n = Some x \<longrightarrow> storable x"
    and len: "\<forall>n \<in> set vs. length n < maxlen"
  shows "\<forall>i \<in> set is. i < length vs \<Longrightarrow> walk_values os h (Some s) maxlen is w conf
    = Some (True, fold (\<lambda>n c. snd (a6o_conf_add_value c s n (the (M n)))) (map ((!) vs) is) conf)"
proof (induction "is" arbitrary: conf)
  case (Cons i "is")
  let ?n = "vs ! i"
  have i: "i < length vs" using Cons.prems by simp
  have "set vs = dom (rk_values k)" using en by (simp add: enumerates_def)
  then obtain x where x: "M ?n = Some x"
    using nth_mem [OF i] vals(1) by auto
  then have kx: "rk_values k ?n = Some (reg_form x)" using vals(1) by simp
  have st: "storable x" using vals(2) x by blast
  have "RegEnumValueA os h i maxlen w = Some (?n, fst (reg_form x), length (snd (reg_form x)))"
    using en i len nth_mem [OF i] kx by (simp add: enumerates_def)
  moreover have "RegGetValueA os h ?n (length (snd (reg_form x))) w = Some (snd (reg_form x))"
    using get_law [OF laws h, of ?n "fst (reg_form x)"] kx well_ended_form [OF st] by simp
  ultimately show ?case
    using Cons walk_value_form [OF st, of os h ?n w s conf] x by simp
qed simp

text \<open>The walk of the key of a section.\<close>

lemma walk_section_spec:
  assumes laws: "registry_laws os v names" and h: "h \<in> rv_open v w" "rv_keys v w (rv_path v h) = Some (section_key L s)"
    and L: "\<forall>(_, x) \<in> set L. storable x" and conf: "conf_inv conf" "\<forall>n. conf_map conf (s, n) = None"
  shows "\<exists>conf'. registry_walker os (Suc fuel) h (Some s) (conf, w) = Some (0, conf', w) \<and> conf_inv conf'
    \<and> conf_map conf' = (\<lambda>x. if fst x = s then map_of L x else conf_map conf x)"
proof -
  let ?k = "section_key L s" and ?M = "\<lambda>n. map_of L (s, n)"
  have dom: "dom (rk_values ?k) = dom ?M"
    by (auto simp: section_key_def)
  have "dom ?M \<subseteq> (\<lambda>e. snd (fst e)) ` set L"
    by (force dest: map_of_SomeD)
  then have "finite (dom ?M)"
    by (rule finite_subset) simp
  then have fin: "finite (dom (rk_values ?k))" "finite (rk_subkeys ?k)"
    unfolding dom by (simp_all add: section_key_def)
  obtain vs ks where en: "enumerates os h ?k vs ks w"
    using query_law [OF laws h fin] by blast
  then obtain info where info: "RegQueryInfoKeyA os h w = Some info" "ri_values info = length vs" "ri_subkeys info = length ks"
      "\<forall>n \<in> set vs. length n \<le> ri_value_maxlen info" and vs: "distinct vs" "set vs = dom (rk_values ?k)" "ks = []"
    by (auto simp: enumerates_def section_key_def)
  let ?c = "fold (\<lambda>n c. snd (a6o_conf_add_value c s n (the (?M n)))) vs conf"
  have vals: "rk_values ?k = (\<lambda>n. map_option reg_form (?M n))" "\<forall>n x. ?M n = Some x \<longrightarrow> storable x"
    using L by (auto simp: section_key_def dest: map_of_SomeD)
  have len: "\<forall>n \<in> set vs. length n < ri_value_maxlen info + 1"
    using info(4) by (simp add: less_Suc_eq_le)
  have "walk_values os h (Some s) (ri_value_maxlen info + 1) [0..<ri_values info] w conf = Some (True, ?c)"
    using walk_values_spec [OF laws h en vals len, of "[0..<ri_values info]" s conf] info(2)
    by (simp add: map_nth)
  then have "registry_walker os (Suc fuel) h (Some s) (conf, w) = Some (0, ?c, w)"
    using info(1,3) vs(3) by (simp add: close_opt_def)
  moreover have "conf_inv ?c \<and> conf_map ?c = (\<lambda>x. if fst x = s \<and> snd x \<in> set vs then Some (the (?M (snd x))) else conf_map conf x)"
    by (rule fold_add [OF conf(1) vs(1)]) (simp add: conf(2))
  moreover have "(\<lambda>x. if fst x = s \<and> snd x \<in> set vs then Some (the (?M (snd x))) else conf_map conf x)
      = (\<lambda>x. if fst x = s then map_of L x else conf_map conf x)"
  proof
    fix x :: "string \<times> string"
    obtain s' n where x: "x = (s', n)" by (cases x)
    show "(if fst x = s \<and> snd x \<in> set vs then Some (the (?M (snd x))) else conf_map conf x)
        = (if fst x = s then map_of L x else conf_map conf x)"
    proof (cases "map_of L (s, n)")
      case None
      then have "n \<notin> set vs" using vs(2) dom by (simp add: domIff)
      with None conf(2) x show ?thesis by simp
    next
      case (Some v)
      then have "n \<in> set vs" using vs(2) dom by (simp add: domI)
      with Some x show ?thesis by simp
    qed
  qed
  ultimately show ?thesis by auto
qed

lemma walk_keys_spec:
  assumes laws: "registry_laws os v names" and p: "rv_path v a = p"
    and L: "\<forall>((s, _), x) \<in> set L. s \<in> names \<and> storable x" and ks: "distinct ks" "set ks \<subseteq> sections_of L"
    and K: "holds p L (sections_of L) K"
    and enum: "\<forall>w'. a \<in> rv_open v w' \<and> rv_keys v w' = K \<longrightarrow> (\<forall>i < length ks. RegEnumKeyExA os a i maxlen w' = Some (ks ! i))"
  shows "is = [i..<length ks] \<Longrightarrow> a \<in> rv_open v w \<Longrightarrow> rv_keys v w = K \<Longrightarrow> hs \<noteq> Some a \<Longrightarrow> conf_inv conf \<Longrightarrow>
    \<forall>s n. s \<in> set (drop i ks) \<longrightarrow> conf_map conf (s, n) = None \<Longrightarrow>
    \<exists>conf' w'. walk_keys os (registry_walker os (Suc fuel)) a maxlen is hs (conf, w) = Some (0, conf', w') \<and> conf_inv conf'
      \<and> a \<in> rv_open v w' \<and> conf_map conf' = (\<lambda>x. if fst x \<in> set (drop i ks) then map_of L x else conf_map conf x)"
proof (induction "is" arbitrary: i w hs conf)
  case Nil
  then have "length ks \<le> i"
    by (metis le0 upt_eq_Nil_conv)
  with Nil show ?case
    by (cases hs) (auto simp: close_opt_def close_law [OF laws])
next
  case (Cons j "is")
  note u = upt_eq_Cons_conv [THEN iffD1, OF Cons.prems(1) [symmetric]]
  note i = u [THEN conjunct1] u [THEN conjunct2, THEN conjunct1, symmetric]
    u [THEN conjunct2, THEN conjunct2, symmetric]
  let ?s = "ks ! i"
  have drop: "drop i ks = ?s # drop (Suc i) ks"
    using i(1) by (simp add: Cons_nth_drop_Suc)
  have s: "?s \<in> sections_of L" using ks(2) nth_mem [OF i(1)] by blast
  then have names: "?s \<in> names" using L by force
  have key: "K (p @ [?s]) = Some (section_key L ?s)"
    using K s by (simp add: holds_def)
  obtain h w1 where o1: "RegOpenKeyA os a (Some ?s) w = (Inr h, w1)" "rv_path v h = p @ [?s]" "h \<notin> rv_open v w"
      "rv_open v w1 = insert h (rv_open v w)" "rv_keys v w1 = K"
    using open_law [OF laws Cons.prems(2) names] key p Cons.prems(3) by auto
  have "\<exists>conf'. registry_walker os (Suc fuel) h (Some ?s) (conf, w1) = Some (0, conf', w1) \<and> conf_inv conf'
      \<and> conf_map conf' = (\<lambda>x. if fst x = ?s then map_of L x else conf_map conf x)"
    using o1 key L Cons.prems(5,6) drop by (intro walk_section_spec [OF laws]) auto
  then obtain c1 where c1: "registry_walker os (Suc fuel) h (Some ?s) (conf, w1) = Some (0, c1, w1)" "conf_inv c1"
      "conf_map c1 = (\<lambda>x. if fst x = ?s then map_of L x else conf_map conf x)"
    by blast
  have fresh: "?s \<notin> set (drop (Suc i) ks)"
    using ks(1) drop by (metis distinct.simps(2) distinct_drop)
  have "\<exists>conf' w'. walk_keys os (registry_walker os (Suc fuel)) a maxlen is (Some h) (c1, w1) = Some (0, conf', w') \<and> conf_inv conf'
      \<and> a \<in> rv_open v w' \<and> conf_map conf' = (\<lambda>x. if fst x \<in> set (drop (Suc i) ks) then map_of L x else conf_map c1 x)"
    using o1 c1 Cons.prems(2,6) i(3) fresh drop by (intro Cons.IH) auto
  moreover have "RegEnumKeyExA os a i maxlen w = Some ?s"
    using enum Cons.prems(2,3) i(1) by blast
  ultimately show ?case
    using o1(1) c1(1,3) i(2) drop by (auto simp: fun_eq_iff)
qed

lemma restore_spec:
  assumes laws: "registry_laws os v names" and conf: "registrable names conf"
    and root: "HKEY_LOCAL_MACHINE os \<in> rv_open v w" "APP_ROOT_KEY_PATH \<in> names"
    and p: "p = rv_path v (HKEY_LOCAL_MACHINE os) @ [APP_ROOT_KEY_PATH]"
    and K: "holds p (conf_alist conf) (sections_of (conf_alist conf)) (rv_keys v w)"
  shows "\<exists>conf' w'. restore_conf_from_registry os (Suc (Suc fuel)) (Some a6o_conf_new) w = Some (0, Some conf', w')
    \<and> conf_inv conf' \<and> conf_map conf' = conf_map conf"
proof -
  let ?L = "conf_alist conf"
  let ?k = "\<lparr>rk_values = Map.empty, rk_subkeys = sections_of ?L\<rparr> :: reg_key"
  have "rv_keys v w p \<noteq> None" using K by (simp add: holds_def)
  with open_law [OF laws root] p obtain a w1 where o1: "RegOpenKeyA os (HKEY_LOCAL_MACHINE os) (Some APP_ROOT_KEY_PATH) w = (Inr a, w1)"
      "rv_path v a = p" "rv_open v w1 = insert a (rv_open v w)" "rv_keys v w1 = rv_keys v w"
    by blast
  have a: "a \<in> rv_open v w'" "rv_keys v w' (rv_path v a) = Some ?k" if "a \<in> rv_open v w' \<and> rv_keys v w' = rv_keys v w" for w'
    using that K o1(2) by (simp_all add: holds_def)
  let ?vs = "rv_value_order v (rv_keys v w) p" and ?ks = "rv_key_order v (rv_keys v w) p"
  have en: "enumerates os a ?k ?vs ?ks w'" if "a \<in> rv_open v w' \<and> rv_keys v w' = rv_keys v w" for w'
    using query_law [OF laws a [OF that]] that o1(2) by simp
  have w1: "a \<in> rv_open v w1 \<and> rv_keys v w1 = rv_keys v w" using o1 by simp
  from en [OF w1] obtain info where info: "RegQueryInfoKeyA os a w1 = Some info" "ri_values info = 0" "ri_subkeys info = length ?ks"
      "\<forall>s \<in> set ?ks. length s \<le> ri_subkey_maxlen info" and ks: "distinct ?ks" "set ?ks = sections_of ?L"
    by (auto simp: enumerates_def)
  have enum: "\<forall>w'. a \<in> rv_open v w' \<and> rv_keys v w' = rv_keys v w \<longrightarrow>
      (\<forall>i < length ?ks. RegEnumKeyExA os a i (ri_subkey_maxlen info + 1) w' = Some (?ks ! i))"
    using en info(4) nth_mem unfolding enumerates_def by (metis Suc_eq_plus1 less_Suc_eq_le)
  have L: "\<forall>((s, _), x) \<in> set ?L. s \<in> names \<and> storable x"
    using conf by (auto simp: registrable_def)
  obtain conf' w2 where wk: "walk_keys os (registry_walker os (Suc fuel)) a (ri_subkey_maxlen info + 1) [0..<length ?ks] None
        (a6o_conf_new, w1) = Some (0, conf', w2)" "conf_inv conf'"
      "conf_map conf' = (\<lambda>x. if fst x \<in> set ?ks then map_of ?L x else conf_map a6o_conf_new x)"
    using walk_keys_spec [OF laws o1(2) L ks(1) _ K enum, of "[0..<length ?ks]" 0 w1 None a6o_conf_new fuel] w1 ks(2)
    by (auto simp: conf_new_inv conf_new_map [THEN fun_cong])
  have "conf_map conf' = conf_map conf"
  proof
    fix x
    have new: "conf_map a6o_conf_new x = None"
      by (simp add: conf_new_map)
    show "conf_map conf' x = conf_map conf x"
    proof (cases "fst x \<in> sections_of ?L")
      case True
      then show ?thesis
        unfolding wk(3) ks(2) by (simp only: if_True conf_map_def)
    next
      case False
      then have "map_of ?L x = None"
        by (force simp: map_of_eq_None_iff image_iff)
      then have "conf_map conf x = None"
        by (simp only: conf_map_def)
      with False new show ?thesis
        unfolding wk(3) ks(2) by (simp only: if_False)
    qed
  qed
  moreover have "registry_walker os (Suc (Suc fuel)) a None (a6o_conf_new, w1) = Some (0, conf', w2)"
    using info(1-3) wk(1) by simp
  then have "restore_conf_from_registry os (Suc (Suc fuel)) (Some a6o_conf_new) w = Some (0, Some conf', RegCloseKey os a w2)"
    using o1(1) by (simp add: restore_conf_from_registry_def del: registry_walker.simps)
  ultimately show ?thesis using wk(2) by blast
qed

section \<open>Properties\<close>

text \<open>
  the round trip through the registry. A configuration saved under a key that is there and
  empty is read back: every key of the configuration has the value it had. This needs values that the
  registry can hold (no void value, strings of at most 512 characters, lists of at most 260
  characters each and none empty), and saving leaves no handle open.
\<close>

theorem registry_round_trip:
  assumes "registry_laws os v names" "registrable names conf" "APP_ROOT_KEY_PATH \<in> names"
    and "HKEY_LOCAL_MACHINE os \<in> rv_open v w"
    and "holds (rv_path v (HKEY_LOCAL_MACHINE os) @ [APP_ROOT_KEY_PATH]) [] {} (rv_keys v w)"
  shows "\<exists>w1 conf' w2. save_conf_in_registry os (Some conf) w = (0, w1) \<and> rv_open v w1 = rv_open v w
    \<and> restore_conf_from_registry os (Suc (Suc fuel)) (Some a6o_conf_new) w1 = Some (0, Some conf', w2)
    \<and> (\<forall>s k x. a6o_conf_get_value conf' s k x = a6o_conf_get_value conf s k x)"
proof -
  obtain w1 where w1: "save_conf_in_registry os (Some conf) w = (0, w1)" "rv_open v w1 = rv_open v w"
      "holds (rv_path v (HKEY_LOCAL_MACHINE os) @ [APP_ROOT_KEY_PATH]) (conf_alist conf) (sections_of (conf_alist conf)) (rv_keys v w1)"
    using save_spec [OF assms(1,2,4,3) refl assms(5)] by blast
  then obtain conf' w2 where "restore_conf_from_registry os (Suc (Suc fuel)) (Some a6o_conf_new) w1 = Some (0, Some conf', w2)"
      "conf_inv conf'" "conf_map conf' = conf_map conf"
    using restore_spec [OF assms(1,2) _ assms(3) refl w1(3)] assms(4) by metis
  moreover have "conf_inv conf" using assms(2) by (simp add: registrable_def)
  ultimately show ?thesis
    using w1(1,2) by (auto simp: get_spec(3))
qed

text \<open>
  a string of more than 512 characters is written without its terminating NUL: its first
  513 characters are all that the registry gets.
\<close>

theorem long_string_truncated:
  assumes "length s > MAX_LEN"
  shows "entry_data (CV_STRING (Some s)) = Some (REG_SZ, Some (take (MAX_LEN + 1) s))"
  using assms by (simp add: entry_data_def copied_def)

text \<open>
  a list that has an empty string is read back without that string and all that follow it.
\<close>

theorem empty_item_ends_list:
  assumes "\<forall>s \<in> set ss. s \<noteq> [] \<and> NUL \<notin> set s \<and> length s \<le> MAX_PATH"
  shows "\<exists>b. entry_data (CV_LIST (ss @ [] # ts)) = Some (REG_MULTI_SZ, Some b)
    \<and> split_multi (b @ [NUL]) = Some (map (\<lambda>s. (s, True)) ss)"
proof -
  have m: "map copied ss = map (\<lambda>s. s @ [NUL]) ss"
    using assms by (auto simp: MAX_PATH_def MAX_LEN_def intro!: copied_short)
  have "copied [] = [NUL]" by (simp add: copied_def)
  then have "entry_data (CV_LIST (ss @ [] # ts))
      = Some (REG_MULTI_SZ, Some (concat (map (\<lambda>s. s @ [NUL]) ss) @ NUL # concat (map copied ts) @ [NUL]))"
    by (simp add: entry_data_def m del: map_eq_conv)
  with split_multi_list [OF assms, of "concat (map copied ts) @ [NUL, NUL]"] show ?thesis
    by simp
qed

text \<open>
  the creation of the application key reports success whatever the registry answers.
\<close>

theorem create_app_registry_reports_success: "fst (create_app_registry os w) = 0"
  by (simp add: create_app_registry_def split: prod.splits sum.splits)

section \<open>Witnesses\<close>

text \<open>A registry: keys by their paths; a handle is the path of its key and a number never used before.\<close>

record sample_world =
  sw_keys :: "string list \<Rightarrow> reg_key option"
  sw_open :: "(string list \<times> nat) set"
  sw_next :: nat

definition new_handle :: "string list \<Rightarrow> sample_world \<Rightarrow> (int + (string list \<times> nat)) \<times> sample_world" where
  "new_handle p w = (Inr (p, sw_next w), w\<lparr>sw_open := insert (p, sw_next w) {h \<in> sw_open w. snd h < sw_next w}, sw_next := Suc (sw_next w)\<rparr>)"

definition value_names :: "(string list \<Rightarrow> reg_key option) \<Rightarrow> string list \<Rightarrow> string list" where
  "value_names K p = (case K p of None \<Rightarrow> [] | Some k \<Rightarrow> sorted_list_of_set (dom (rk_values k)))"

definition key_names :: "(string list \<Rightarrow> reg_key option) \<Rightarrow> string list \<Rightarrow> string list" where
  "key_names K p = (case K p of None \<Rightarrow> [] | Some k \<Rightarrow> sorted_list_of_set (rk_subkeys k))"

definition longest :: "string list \<Rightarrow> nat" where
  "longest ns = foldr max (map length ns) 0"

definition sample_registry :: "(string list \<times> nat, sample_world) registry_os" where
  "sample_registry = \<lparr>HKEY_LOCAL_MACHINE = ([], 0),
     RegOpenKeyA = (\<lambda>h s w. case s of None \<Rightarrow> (Inr h, w)
        | Some n \<Rightarrow> if sw_keys w (fst h @ [n]) = None then (Inl 2, w) else new_handle (fst h @ [n]) w),
     RegCreateKeyA = (\<lambda>h s w. case sw_keys w (fst h) of None \<Rightarrow> (Inl 2, w)
        | Some k \<Rightarrow> new_handle (fst h @ [s]) (if sw_keys w (fst h @ [s]) \<noteq> None then w
            else w\<lparr>sw_keys := (sw_keys w)(fst h \<mapsto> k\<lparr>rk_subkeys := insert s (rk_subkeys k)\<rparr>, fst h @ [s] \<mapsto> empty_key)\<rparr>)),
     RegCloseKey = (\<lambda>h w. w\<lparr>sw_open := sw_open w - {h}\<rparr>),
     RegSetKeyValueA = (\<lambda>h s t b w. case (h, b) of
          (Some h, Some b) \<Rightarrow> (case sw_keys w (fst h) of None \<Rightarrow> (2, w)
             | Some k \<Rightarrow> (0, w\<lparr>sw_keys := (sw_keys w)(fst h \<mapsto> k\<lparr>rk_values := (rk_values k)(s \<mapsto> (t, b))\<rparr>)\<rparr>))
        | _ \<Rightarrow> (6, w)),
     RegQueryInfoKeyA = (\<lambda>h w. let vs = value_names (sw_keys w) (fst h); ks = key_names (sw_keys w) (fst h)
        in Some \<lparr>ri_subkeys = length ks, ri_subkey_maxlen = longest ks, ri_values = length vs, ri_value_maxlen = longest vs\<rparr>),
     RegEnumValueA = (\<lambda>h i n w. let vs = value_names (sw_keys w) (fst h); d = the (rk_values (the (sw_keys w (fst h))) (vs ! i))
        in if i < length vs \<and> length (vs ! i) < n then Some (vs ! i, fst d, length (snd d)) else None),
     RegGetValueA = (\<lambda>h s n w. case sw_keys w (fst h) of None \<Rightarrow> None
        | Some k \<Rightarrow> (case rk_values k s of None \<Rightarrow> None | Some (t, b) \<Rightarrow> if length b \<le> n then Some b else None)),
     RegEnumKeyExA = (\<lambda>h i n w. let ks = key_names (sw_keys w) (fst h)
        in if i < length ks \<and> length (ks ! i) < n then Some (ks ! i) else None)\<rparr>"

definition sample_view :: "(string list \<times> nat, sample_world) registry_view" where
  "sample_view = \<lparr>rv_path = fst, rv_keys = sw_keys, rv_open = (\<lambda>w. {h \<in> sw_open w. snd h < sw_next w}),
     rv_value_order = value_names, rv_key_order = key_names\<rparr>"

lemma longest_ge: "n \<in> set ns \<Longrightarrow> length n \<le> longest ns"
  by (induction ns) (auto simp: longest_def)

lemma sample_enumerates:
  assumes "sw_keys w (fst h) = Some k" "finite (dom (rk_values k))" "finite (rk_subkeys k)"
  shows "enumerates sample_registry h k (value_names (sw_keys w) (fst h)) (key_names (sw_keys w) (fst h)) w"
  unfolding enumerates_def
proof (intro conjI)
  show "\<exists>info. RegQueryInfoKeyA sample_registry h w = Some info \<and> ri_values info = length (value_names (sw_keys w) (fst h))
      \<and> ri_subkeys info = length (key_names (sw_keys w) (fst h))
      \<and> (\<forall>s \<in> set (value_names (sw_keys w) (fst h)). length s \<le> ri_value_maxlen info)
      \<and> (\<forall>s \<in> set (key_names (sw_keys w) (fst h)). length s \<le> ri_subkey_maxlen info)"
    by (simp add: sample_registry_def Let_def longest_ge)
qed (use assms in \<open>simp_all add: value_names_def key_names_def sample_registry_def Let_def\<close>)

lemma sample_laws: "registry_laws sample_registry sample_view names"
  unfolding registry_laws_def
proof (intro conjI allI impI)
  fix w and h :: "string list \<times> nat" and k
  assume "h \<in> rv_open sample_view w \<and> rv_keys sample_view w (rv_path sample_view h) = Some k
    \<and> finite (dom (rk_values k)) \<and> finite (rk_subkeys k)"
  then show "enumerates sample_registry h k (rv_value_order sample_view (rv_keys sample_view w) (rv_path sample_view h))
      (rv_key_order sample_view (rv_keys sample_view w) (rv_path sample_view h)) w"
    using sample_enumerates [of w h k] by (simp add: sample_view_def)
qed (auto simp: sample_registry_def sample_view_def new_handle_def)

definition installed :: sample_world where
  "installed = \<lparr>sw_keys = [[] \<mapsto> \<lparr>rk_values = Map.empty, rk_subkeys = {APP_ROOT_KEY_PATH}\<rparr>, [APP_ROOT_KEY_PATH] \<mapsto> empty_key],
     sw_open = {([], 0)}, sw_next = 1\<rparr>"

theorem registry_round_trip_witness:
  "\<exists>w1 conf' w2. save_conf_in_registry sample_registry (Some example_conf) installed = (0, w1)
    \<and> restore_conf_from_registry sample_registry 2 (Some a6o_conf_new) w1 = Some (0, Some conf', w2)
    \<and> a6o_conf_get_value conf' ''on-demand'' ''modules'' CV_VOID = (1, CV_LIST [''clamav'', ''moduleH1''])"
proof -
  have "registrable UNIV example_conf"
    by (auto simp: registrable_def example_conf_def conf_inv_def conf_alist_def storable_def MAX_PATH_def)
  moreover have "HKEY_LOCAL_MACHINE sample_registry \<in> rv_open sample_view installed"
      "holds (rv_path sample_view (HKEY_LOCAL_MACHINE sample_registry) @ [APP_ROOT_KEY_PATH]) [] {} (rv_keys sample_view installed)"
    by (simp_all add: sample_registry_def sample_view_def installed_def holds_def empty_key_def)
  ultimately obtain w1 conf' w2 where r: "save_conf_in_registry sample_registry (Some example_conf) installed = (0, w1)"
      "restore_conf_from_registry sample_registry (Suc (Suc 0)) (Some a6o_conf_new) w1 = Some (0, Some conf', w2)"
      "\<forall>s k x. a6o_conf_get_value conf' s k x = a6o_conf_get_value example_conf s k x"
    using registry_round_trip [OF sample_laws, of UNIV example_conf installed 0] by auto
  moreover have "a6o_conf_get_value example_conf ''on-demand'' ''modules'' CV_VOID = (1, CV_LIST [''clamav'', ''moduleH1''])"
    by (simp add: get_spec(3) example_conf_def conf_inv_def conf_map_def conf_alist_def)
  ultimately show ?thesis
    by (auto simp: numeral_2_eq_2)
qed

theorem long_string_truncated_witness:
  "entry_data (CV_STRING (Some (replicate 600 CHR ''a''))) = Some (REG_SZ, Some (replicate 513 CHR ''a''))"
  using long_string_truncated [of "replicate 600 CHR ''a''"] by (simp add: MAX_LEN_def)

theorem empty_item_ends_list_witness:
  "\<exists>b. entry_data (CV_LIST [''a'', [], ''b'']) = Some (REG_MULTI_SZ, Some b)
    \<and> split_multi (b @ [NUL]) = Some [(''a'', True)]"
  using empty_item_ends_list [of "[''a'']" "[''b'']"] by (simp add: MAX_PATH_def)

end
