(* ===== verification/ScanPool.thy ===== *)
theory ScanPool
  imports OnDemand
begin

text \<open>
  The threads of a threaded on-demand scan, \<open>libcore/ondemand.c\<close>. At most \<open>get_max_threads\<close> workers
  take paths from the queue and run \<open>scan_file\<close>; they meet on the counters of the scan, which each
  worker increments atomically, one after the other. A step of the pool is a worker taking a path, or
  one worker passing from one stage of \<open>scan_file\<close> to the next.

  What a scan finds out about a path is a function of the path here, an argument; how it is found is the
  subject of theory \<open>ScanCtx\<close>. The last stage stands for the progress event and the end of the task.
\<close>

section \<open>Steps\<close>

definition get_max_threads :: nat where
  "get_max_threads = 4"

datatype stage =
    Scanning string
  | Counting a6o_file_status
  | Classifying a6o_file_status
  | Finishing

record pool =
  pl_queue :: "string list"
  pl_running :: "stage list"
  pl_scanned :: nat
  pl_malware :: nat
  pl_suspicious :: nat

definition pool_new :: "string list \<Rightarrow> pool" where
  "pool_new ps = \<lparr>pl_queue = ps, pl_running = [], pl_scanned = 0, pl_malware = 0, pl_suspicious = 0\<rparr>"

text \<open>The increment of the switch of \<open>update_counters\<close>.\<close>

definition classify :: "a6o_file_status \<Rightarrow> pool \<Rightarrow> pool" where
  "classify st c = (case st of
       A6O_FILE_SUSPICIOUS \<Rightarrow> c\<lparr>pl_suspicious := pl_suspicious c + 1\<rparr>
     | A6O_FILE_MALWARE \<Rightarrow> c\<lparr>pl_malware := pl_malware c + 1\<rparr>
     | _ \<Rightarrow> c)"

inductive pool_step :: "(string \<Rightarrow> a6o_file_status) \<Rightarrow> pool \<Rightarrow> pool \<Rightarrow> bool"
  for scan :: "string \<Rightarrow> a6o_file_status"
  where
  take_path: "pl_queue c = p # ps \<Longrightarrow> length (pl_running c) < get_max_threads \<Longrightarrow>
    pool_step scan c (c\<lparr>pl_queue := ps, pl_running := pl_running c @ [Scanning p]\<rparr>)"
| scanned: "pl_running c = xs @ Scanning p # ys \<Longrightarrow>
    pool_step scan c (c\<lparr>pl_running := xs @ Counting (scan p) # ys\<rparr>)"
| count: "pl_running c = xs @ Counting st # ys \<Longrightarrow>
    pool_step scan c (c\<lparr>pl_running := xs @ Classifying st # ys, pl_scanned := pl_scanned c + 1\<rparr>)"
| classified: "pl_running c = xs @ Classifying st # ys \<Longrightarrow>
    pool_step scan c ((classify st c)\<lparr>pl_running := xs @ Finishing # ys\<rparr>)"
| finish: "pl_running c = xs @ Finishing # ys \<Longrightarrow>
    pool_step scan c (c\<lparr>pl_running := xs @ ys\<rparr>)"

inductive_cases pool_stepE: "pool_step scan c c'"

definition pool_done :: "pool \<Rightarrow> bool" where
  "pool_done c \<longleftrightarrow> pl_queue c = [] \<and> pl_running c = []"

section \<open>What the workers still owe\<close>

fun owes_scanned :: "stage \<Rightarrow> nat" where
  "owes_scanned (Scanning p) = 1"
| "owes_scanned (Counting st) = 1"
| "owes_scanned (Classifying st) = 0"
| "owes_scanned Finishing = 0"

fun owes :: "(string \<Rightarrow> a6o_file_status) \<Rightarrow> a6o_file_status \<Rightarrow> stage \<Rightarrow> nat" where
  "owes scan s (Scanning p) = (if scan p = s then 1 else 0)"
| "owes scan s (Counting st) = (if st = s then 1 else 0)"
| "owes scan s (Classifying st) = (if st = s then 1 else 0)"
| "owes scan s Finishing = 0"

definition found :: "(string \<Rightarrow> a6o_file_status) \<Rightarrow> a6o_file_status \<Rightarrow> string list \<Rightarrow> nat" where
  "found scan s ps = length (filter (\<lambda>p. scan p = s) ps)"

lemma found_simps [simp]:
  "found scan s [] = 0"
  "found scan s (p # ps) = (if scan p = s then 1 else 0) + found scan s ps"
  by (simp_all add: found_def)

definition balanced :: "(string \<Rightarrow> a6o_file_status) \<Rightarrow> string list \<Rightarrow> pool \<Rightarrow> bool" where
  "balanced scan ps c \<longleftrightarrow>
    pl_scanned c + length (pl_queue c) + sum_list (map owes_scanned (pl_running c)) = length ps
    \<and> pl_malware c + found scan A6O_FILE_MALWARE (pl_queue c)
        + sum_list (map (owes scan A6O_FILE_MALWARE) (pl_running c)) = found scan A6O_FILE_MALWARE ps
    \<and> pl_suspicious c + found scan A6O_FILE_SUSPICIOUS (pl_queue c)
        + sum_list (map (owes scan A6O_FILE_SUSPICIOUS) (pl_running c)) = found scan A6O_FILE_SUSPICIOUS ps
    \<and> length (pl_running c) \<le> get_max_threads"

lemma classify_simps [simp]:
  "pl_queue (classify st c) = pl_queue c" "pl_running (classify st c) = pl_running c"
  "pl_scanned (classify st c) = pl_scanned c"
  "pl_malware (classify st c) = pl_malware c + (if st = A6O_FILE_MALWARE then 1 else 0)"
  "pl_suspicious (classify st c) = pl_suspicious c + (if st = A6O_FILE_SUSPICIOUS then 1 else 0)"
  by (simp_all add: classify_def split: a6o_file_status.splits)

lemma balanced_new: "balanced scan ps (pool_new ps)"
  by (simp add: balanced_def pool_new_def)

lemma balanced_step [inv_rules]: "pool_step scan c c' \<Longrightarrow> balanced scan ps c \<Longrightarrow> balanced scan ps c'"
  by (erule pool_stepE) (auto simp: balanced_def)

lemma balanced_steps: "(pool_step scan)\<^sup>*\<^sup>* c c' \<Longrightarrow> balanced scan ps c \<Longrightarrow> balanced scan ps c'"
  by (induction rule: rtranclp_induct) (auto intro: inv_rules)

section \<open>Every schedule ends\<close>

fun stages_left :: "stage \<Rightarrow> nat" where
  "stages_left (Scanning p) = 4"
| "stages_left (Counting st) = 3"
| "stages_left (Classifying st) = 2"
| "stages_left Finishing = 1"

definition work :: "pool \<Rightarrow> nat" where
  "work c = 5 * length (pl_queue c) + sum_list (map stages_left (pl_running c))"

lemma work_step: "pool_step scan c c' \<Longrightarrow> work c = Suc (work c')"
  by (erule pool_stepE) (auto simp: work_def)

lemma work_done: "work c = 0 \<longleftrightarrow> pool_done c"
proof -
  have "stages_left x \<noteq> 0" for x
    by (cases x) simp_all
  then show ?thesis
    by (cases "pl_running c") (auto simp: work_def pool_done_def)
qed

lemma pool_progress:
  assumes "\<not> pool_done c"
  shows "\<exists>c'. pool_step scan c c'"
proof (cases "pl_running c")
  case Nil
  then obtain p ps where "pl_queue c = p # ps"
    using assms by (cases "pl_queue c") (auto simp: pool_done_def)
  with Nil take_path [of c p ps] show ?thesis
    by (auto simp: get_max_threads_def)
next
  case (Cons x xs)
  then show ?thesis
    using scanned [of c "[]"] count [of c "[]"] classified [of c "[]"] finish [of c "[]" xs]
    by (cases x) fastforce+
qed

lemma steps_work: "(pool_step scan ^^ n) c c' \<Longrightarrow> work c = n + work c'"
proof (induction n arbitrary: c')
  case (Suc n)
  then obtain d where "(pool_step scan ^^ n) c d" "pool_step scan d c'"
    by auto
  then show ?case
    using Suc.IH work_step by fastforce
qed simp

lemma steps_exist: "\<exists>c'. (pool_step scan ^^ work c) c c'"
proof (induction "work c" arbitrary: c)
  case 0
  then show ?case by auto
next
  case (Suc n)
  then obtain d where "pool_step scan c d"
    using pool_progress [of c scan] work_done [of c] by auto
  with work_step [OF this] Suc.hyps show ?case
    by (metis Suc.hyps(1) nat.inject relpowp_Suc_I2)
qed

section \<open>Properties\<close>

text \<open>
  C23: the counters of a threaded scan. Whatever the order in which the threads take paths and
  increment the counters, at most four files are being scanned at any time, no counter is ever above
  its final value, and when the pool is idle each path was counted once and each detection once.
\<close>

theorem pool_counts_every_path:
  assumes "(pool_step scan)\<^sup>*\<^sup>* (pool_new ps) c"
  shows "length (pl_running c) \<le> 4 \<and> pl_scanned c \<le> length ps
    \<and> pl_malware c \<le> found scan A6O_FILE_MALWARE ps \<and> pl_suspicious c \<le> found scan A6O_FILE_SUSPICIOUS ps
    \<and> (pool_done c \<longrightarrow> pl_scanned c = length ps \<and> pl_malware c = found scan A6O_FILE_MALWARE ps
        \<and> pl_suspicious c = found scan A6O_FILE_SUSPICIOUS ps)"
  using balanced_steps [OF assms balanced_new [of scan ps]]
  by (auto simp: balanced_def pool_done_def get_max_threads_def)

theorem pool_counts_every_path_witness:
  "\<exists>c. (pool_step (\<lambda>p. A6O_FILE_MALWARE))\<^sup>*\<^sup>* (pool_new [''a'', ''b'']) c \<and> pool_done c \<and> pl_malware c = 2"
proof -
  obtain c where c: "(pool_step (\<lambda>p. A6O_FILE_MALWARE) ^^ work (pool_new [''a'', ''b''])) (pool_new [''a'', ''b'']) c"
    using steps_exist by blast
  then have "pool_done c"
    using steps_work [OF c] by (simp add: work_done)
  with pool_counts_every_path [OF relpowp_imp_rtranclp [OF c]] relpowp_imp_rtranclp [OF c] show ?thesis
    by (intro exI [of _ c]) simp
qed



end
