(* ===== verification/WinOnAccess.thy ===== *)
theory WinOnAccess
  imports BuiltinModules Status
begin

text \<open>
  The on-access protection of the Windows service: the module that configures it
  (\<open>libcore/arch/windows/builtin-modules/on-access/onaccessmod.c\<close>) and the threads that answer the requests
  of the filter driver (\<open>arch/windows/service/scan_onaccess.c\<close>). The Windows functions, the driver and the
  scan of a file are arguments.
\<close>

section \<open>The module\<close>

record onaccess_data =
  oa_enable_permission :: int
  oa_state_flag :: int

text \<open>The data of the module is in the rest of the world of the modules; \<open>None\<close> before it is allocated.\<close>

type_synonym 'w onaccess_world = "('w, onaccess_data option) mod_world"

definition mod_onaccess_init :: "nat \<Rightarrow> 'w onaccess_world \<Rightarrow> a6o_mod_status \<times> 'w onaccess_world" where
  "mod_onaccess_init i = on_world (\<lambda>b.
     Some (A6O_MOD_OK, b\<lparr>bw_rest := Some \<lparr>oa_enable_permission = 0, oa_state_flag = 0\<rparr>\<rparr>))"

definition mod_onaccess_conf_set_enable_on_access ::
  "nat \<Rightarrow> string \<Rightarrow> a6o_conf_value \<Rightarrow> 'w onaccess_world \<Rightarrow> a6o_mod_status \<times> 'w onaccess_world" where
  "mod_onaccess_conf_set_enable_on_access i key v =
    on_world (conf_int (\<lambda>n b. map_option (\<lambda>d. b\<lparr>bw_rest := Some (d\<lparr>oa_enable_permission := sint n\<rparr>)\<rparr>) (bw_rest b)) v)"

definition mod_onaccess_conf_modules ::
  "nat \<Rightarrow> string \<Rightarrow> a6o_conf_value \<Rightarrow> 'w onaccess_world \<Rightarrow> a6o_mod_status \<times> 'w onaccess_world" where
  "mod_onaccess_conf_modules i key v =
    on_world (conf_strings (\<lambda>s b. Some (set_on_access (\<lambda>c. a6o_scan_conf_add_module c s (bw_by_name b)) b)) v)"

definition mod_onaccess_conf_max_size ::
  "nat \<Rightarrow> string \<Rightarrow> a6o_conf_value \<Rightarrow> 'w onaccess_world \<Rightarrow> a6o_mod_status \<times> 'w onaccess_world" where
  "mod_onaccess_conf_max_size i key v =
    on_world (conf_int (\<lambda>n b. Some (set_on_access (\<lambda>c. a6o_scan_conf_max_file_size c n) b)) v)"

definition mod_onaccess_conf_mime_types ::
  "nat \<Rightarrow> string \<Rightarrow> a6o_conf_value \<Rightarrow> 'w onaccess_world \<Rightarrow> a6o_mod_status \<times> 'w onaccess_world" where
  "mod_onaccess_conf_mime_types i key v =
    on_world (conf_strings (\<lambda>s b. Some (set_on_access (\<lambda>c. a6o_scan_conf_add_mime_type c s) b)) v)"

definition mod_onaccess_close :: "nat \<Rightarrow> 'w onaccess_world \<Rightarrow> a6o_mod_status \<times> 'w onaccess_world" where
  "mod_onaccess_close i = on_world (\<lambda>b. Some (A6O_MOD_OK, b\<lparr>bw_rest := None\<rparr>))"

text \<open>
  The update status; the fixed date the function also sets is in fields that the structure of the library
  does not have.
\<close>

definition mod_onaccess_info :: "onaccess_data \<Rightarrow> a6o_update_status" where
  "mod_onaccess_info d = (if oa_state_flag d = 0 then A6O_UPDATE_NON_AVAILABLE else A6O_UPDATE_OK)"

definition mod_onaccess_conf_table :: "'w onaccess_world a6o_conf_entry list" where
  "mod_onaccess_conf_table =
    [\<lparr>cen_key = ''enable'', cen_type = CONF_TYPE_INT, cen_conf_fun = Some mod_onaccess_conf_set_enable_on_access\<rparr>,
     \<lparr>cen_key = ''modules'', cen_type = CONF_TYPE_STRING OR CONF_TYPE_LIST, cen_conf_fun = Some mod_onaccess_conf_modules\<rparr>,
     \<lparr>cen_key = ''mime-types'', cen_type = CONF_TYPE_STRING OR CONF_TYPE_LIST, cen_conf_fun = Some mod_onaccess_conf_mime_types\<rparr>,
     \<lparr>cen_key = ''max-size'', cen_type = CONF_TYPE_INT, cen_conf_fun = Some mod_onaccess_conf_max_size\<rparr>]"

text \<open>Without its data, which is there from the initialisation to the end, the module is not available.\<close>

definition on_access_win_module :: "'w onaccess_world a6o_module" where
  "on_access_win_module =
    \<lparr>mod_init_fun = Some mod_onaccess_init, mod_conf_table = Some mod_onaccess_conf_table, mod_post_init_fun = None,
     mod_scan_fun = None, mod_close_fun = Some mod_onaccess_close,
     mod_info_fun = Some (\<lambda>i info w. ((case Option.bind w bw_rest of None \<Rightarrow> A6O_UPDATE_NON_AVAILABLE
       | Some d \<Rightarrow> mod_onaccess_info d, info), w)), mod_supported_mime_types = None,
     mod_name = ''on-access'', mod_size = 8, mod_status = A6O_MOD_OK, mod_data = False\<rparr>"

section \<open>Device names\<close>

definition MAX_PATH_SIZE :: nat where "MAX_PATH_SIZE = 512"
definition BUFSIZE :: nat where "BUFSIZE = 512"

text \<open>\<open>strstr\<close>, as a test.\<close>

fun occurs_in :: "string \<Rightarrow> string \<Rightarrow> bool" where
  "occurs_in needle [] \<longleftrightarrow> needle = []"
| "occurs_in needle (c # s) \<longleftrightarrow> take (length needle) (c # s) = needle \<or> occurs_in needle s"

text \<open>
  The loop over the root directories of the drives: the first one whose device name occurs in the file
  name gives its letter to what follows as many characters as the device name has. A drive whose device
  name cannot be queried ends it.
\<close>

fun convert_loop :: "(string \<Rightarrow> string option) \<Rightarrow> string \<Rightarrow> string list \<Rightarrow> cstr" where
  "convert_loop query file [] = None"
| "convert_loop query file (drive # drives) = (case query (take 2 drive) of
       None \<Rightarrow> None
     | Some deviceNameQuery \<Rightarrow>
         if occurs_in deviceNameQuery file
         then Some (take 2 drive @ drop (length deviceNameQuery) file)
         else convert_loop query file drives)"

definition ConvertDeviceNameToMsDosName :: "string list \<Rightarrow> (string \<Rightarrow> string option) \<Rightarrow> cstr \<Rightarrow> cstr" where
  "ConvertDeviceNameToMsDosName drives query file = (case file of
       None \<Rightarrow> None
     | Some f \<Rightarrow> convert_loop query f drives)"

section \<open>The context\<close>

definition USER_SCAN_THREAD_COUNT :: nat where "USER_SCAN_THREAD_COUNT = 6"

text \<open>
  The handles of the threads, NULL before they are set and after they are freed, and of the port and the
  completion port; the context of the service with the data of the module.
\<close>

record onaccess_ctx =
  ac_threads :: "nat list option"
  ac_finalized :: bool
  ac_port :: "nat option"
  ac_completion :: "nat option"

record scan_ctx =
  gc_on_access :: "onaccess_ctx option"
  gc_module :: "onaccess_data option"

text \<open>The results of \<open>FilterGetMessage\<close>: the message will come, has come, or not.\<close>

datatype get_message = Pending | Done_at_once | Aborted | Failed

record 'w filter_os =
  fo_thread :: "'w \<Rightarrow> nat option \<times> 'w"
  fo_connect :: "'w \<Rightarrow> nat option \<times> 'w"
  fo_completion :: "nat \<Rightarrow> 'w \<Rightarrow> nat option \<times> 'w"
  fo_resume :: "nat \<Rightarrow> 'w \<Rightarrow> bool \<times> 'w"
  fo_get_message :: "'w \<Rightarrow> get_message \<times> 'w"
  fo_cancel :: "'w \<Rightarrow> 'w"
  fo_wait :: "nat list \<Rightarrow> 'w \<Rightarrow> 'w"
  fo_close :: "nat \<Rightarrow> 'w \<Rightarrow> bool \<times> 'w"
  fo_wow64 :: "'w \<Rightarrow> bool"
  fo_completed :: "'w \<Rightarrow> (nat \<times> string) option \<times> 'w"
  fo_drives :: "'w \<Rightarrow> string list"
  fo_query :: "string \<Rightarrow> 'w \<Rightarrow> string option"
  fo_scan :: "string \<Rightarrow> 'w \<Rightarrow> a6o_file_status \<times> 'w"
  fo_reply :: "nat \<Rightarrow> a6o_file_status \<Rightarrow> 'w \<Rightarrow> bool \<times> 'w"

text \<open>The flag of the module is turned round.\<close>

definition toggle_onaccess_state :: "scan_ctx \<Rightarrow> int \<times> scan_ctx" where
  "toggle_onaccess_state c =
    (if gc_on_access c = None then (-1, c)
     else case gc_module c of
         None \<Rightarrow> (-1, c)
       | Some d \<Rightarrow> (0, c\<lparr>gc_module := Some (d\<lparr>oa_state_flag := if oa_state_flag d = 1 then 0 else 1\<rparr>)\<rparr>))"

section \<open>Starting\<close>

text \<open>The threads created one after the other until one fails, with whether all were.\<close>

fun create_threads :: "'w filter_os \<Rightarrow> nat \<Rightarrow> 'w \<Rightarrow> nat list \<times> bool \<times> 'w" where
  "create_threads os 0 w = ([], True, w)"
| "create_threads os (Suc n) w = (case fo_thread os w of
       (None, w1) \<Rightarrow> ([], False, w1)
     | (Some h, w1) \<Rightarrow> (case create_threads os n w1 of (hs, ok, w2) \<Rightarrow> (h # hs, ok, w2)))"

fun resume_threads :: "'w filter_os \<Rightarrow> nat list \<Rightarrow> 'w \<Rightarrow> bool \<times> 'w" where
  "resume_threads os [] w = (True, w)"
| "resume_threads os (h # hs) w = (case fo_resume os h w of
       (False, w1) \<Rightarrow> (False, w1)
     | (True, w1) \<Rightarrow> resume_threads os hs w1)"

fun pump_messages :: "'w filter_os \<Rightarrow> nat \<Rightarrow> 'w \<Rightarrow> get_message \<times> 'w" where
  "pump_messages os 0 w = (Pending, w)"
| "pump_messages os (Suc n) w = (case fo_get_message os w of
       (Pending, w1) \<Rightarrow> pump_messages os n w1
     | (r, w1) \<Rightarrow> (r, w1))"

definition close_all :: "'w filter_os \<Rightarrow> nat list \<Rightarrow> 'w \<Rightarrow> 'w" where
  "close_all os hs w = fold (\<lambda>h w. snd (fo_close os h w)) hs w"

text \<open>The end of a start that failed: the completion port, the port and the threads are closed, in this order.\<close>

definition init_failed ::
  "'w filter_os \<Rightarrow> nat option \<Rightarrow> nat option \<Rightarrow> nat list \<Rightarrow> scan_ctx \<Rightarrow> 'w \<Rightarrow> bool \<times> scan_ctx \<times> 'w" where
  "init_failed os completion port ts c w =
    (False, c\<lparr>gc_on_access := None\<rparr>,
      close_all os ((case completion of None \<Rightarrow> [] | Some h \<Rightarrow> [h]) @ (case port of None \<Rightarrow> [] | Some h \<Rightarrow> [h]) @ ts) w)"

text \<open>
  The result says whether the protection runs. A message that has come at once ends the pumping of the
  messages as a failure does, but its result, \<open>S_OK\<close>, is taken for success.
\<close>

definition UserScanInit :: "'w filter_os \<Rightarrow> scan_ctx \<Rightarrow> 'w \<Rightarrow> bool \<times> scan_ctx \<times> 'w" where
  "UserScanInit os c w = (case create_threads os USER_SCAN_THREAD_COUNT w of
     (ts, False, w1) \<Rightarrow> init_failed os None None ts c w1
   | (ts, True, w1) \<Rightarrow>
       (case fo_connect os w1 of
          (None, w2) \<Rightarrow> init_failed os None None ts c w2
        | (Some port, w2) \<Rightarrow>
            (case fo_completion os port w2 of
               (None, w3) \<Rightarrow> init_failed os None (Some port) ts c w3
             | (Some completion, w3) \<Rightarrow>
                 (case resume_threads os ts w3 of
                    (False, w4) \<Rightarrow> init_failed os (Some completion) (Some port) ts c w4
                  | (True, w4) \<Rightarrow>
                      (let ctx = \<lparr>ac_threads = Some ts, ac_finalized = False, ac_port = Some port, ac_completion = Some completion\<rparr>;
                           c1 = c\<lparr>gc_on_access := Some ctx\<rparr>
                       in case pump_messages os USER_SCAN_THREAD_COUNT w4 of
                            (Pending, w5) \<Rightarrow> (True, snd (toggle_onaccess_state c1), w5)
                          | (Done_at_once, w5) \<Rightarrow> (True, c1, w5)
                          | (_, w5) \<Rightarrow> init_failed os (Some completion) (Some port) ts c1 w5)))))"

section \<open>Ending\<close>

text \<open>
  \<open>None\<close> is a context that is not there. The result is a failure when the port or the completion port
  cannot be closed.
\<close>

definition UserScanFinalize :: "'w filter_os \<Rightarrow> scan_ctx \<Rightarrow> 'w \<Rightarrow> (bool \<times> scan_ctx \<times> 'w) option" where
  "UserScanFinalize os c w = (case gc_on_access c of
       None \<Rightarrow> None
     | Some ctx \<Rightarrow>
         (case ac_threads ctx of
            None \<Rightarrow> Some (True, c, w)
          | Some ts \<Rightarrow>
              (let w1 = fo_wait os ts (fo_cancel os w);
                   (ok1, w2) = (case ac_port ctx of None \<Rightarrow> (True, w1) | Some h \<Rightarrow> fo_close os h w1);
                   (ok2, w3) = (case ac_completion ctx of None \<Rightarrow> (False, w2) | Some h \<Rightarrow> fo_close os h w2);
                   w4 = close_all os ts w3;
                   c1 = c\<lparr>gc_on_access := Some \<lparr>ac_threads = None, ac_finalized = True, ac_port = None, ac_completion = None\<rparr>\<rparr>
               in Some (ok1 \<and> ok2, snd (toggle_onaccess_state c1), w4))))"

section \<open>Answering the driver\<close>

text \<open>
  A message: the verdict for its file is sent to the driver, or the status of an invalid argument when its
  name has no path. A file that was detected is scanned a second time once the reply is sent.
\<close>

definition scan_path :: "'w filter_os \<Rightarrow> cstr \<Rightarrow> 'w \<Rightarrow> a6o_file_status \<times> 'w" where
  "scan_path os path w = (case path of None \<Rightarrow> (A6O_FILE_EINVAL, w) | Some p \<Rightarrow> fo_scan os p w)"

definition handle_message :: "'w filter_os \<Rightarrow> nat \<times> string \<Rightarrow> 'w \<Rightarrow> 'w" where
  "handle_message os m w =
    (let path = ConvertDeviceNameToMsDosName (fo_drives os w) (\<lambda>l. fo_query os l w) (Some (snd m))
     in case scan_path os path w of
          (scan_result, w1) \<Rightarrow>
            (case fo_reply os (fst m) scan_result w1 of
               (False, w2) \<Rightarrow> w2
             | (True, w2) \<Rightarrow> if scan_result = A6O_FILE_MALWARE then snd (scan_path os path w2) else w2))"

text \<open>
  The loop of a thread; \<open>None\<close> when the fuel is used up. It ends when the completion port is closed,
  after the message it handled when the end was asked for, and when the next message cannot be asked for.
\<close>

fun worker_loop :: "'w filter_os \<Rightarrow> ('w \<Rightarrow> bool) \<Rightarrow> nat \<Rightarrow> 'w \<Rightarrow> 'w option" where
  "worker_loop os finalized 0 w = None"
| "worker_loop os finalized (Suc n) w = (case fo_completed os w of
       (None, w1) \<Rightarrow> Some w1
     | (Some m, w1) \<Rightarrow>
         (let w2 = handle_message os m w1
          in if finalized w2 then Some w2
             else (case fo_get_message os w2 of
                 (Pending, w3) \<Rightarrow> worker_loop os finalized n w3
               | (_, w3) \<Rightarrow> Some w3)))"

text \<open>
  A thread, which always finds its context: it is resumed once the contexts are set. Without the
  redirection of the file system disabled it ends at once.
\<close>

definition UserScanWorker :: "'w filter_os \<Rightarrow> ('w \<Rightarrow> bool) \<Rightarrow> nat \<Rightarrow> 'w \<Rightarrow> 'w option" where
  "UserScanWorker os finalized fuel w = (if fo_wow64 os w then worker_loop os finalized fuel w else Some w)"

section \<open>Paths\<close>

lemma occurs_in_prefix: "occurs_in d (d @ s)"
proof (cases "d @ s")
  case (Cons x t)
  then have "take (length d) (x # t) = d" by (metis append_eq_conv_conj)
  with Cons show ?thesis by simp
qed simp

text \<open>
  A device path is converted to the path on the drive of its volume when the name of no device that is
  listed before occurs in it.
\<close>

theorem device_path_converted:
  assumes "\<And>drive. drive \<in> set before \<Longrightarrow> \<exists>q. query (take 2 drive) = Some q \<and> \<not> occurs_in q (device @ rest)"
    and "query (take 2 drive) = Some device"
  shows "ConvertDeviceNameToMsDosName (before @ drive # after) query (Some (device @ rest)) = Some (take 2 drive @ rest)"
proof -
  have "convert_loop query (device @ rest) (before @ drive # after) = Some (take 2 drive @ rest)"
    using assms(1)
  proof (induction before)
    case Nil
    then show ?case using assms(2) occurs_in_prefix [of device rest] by simp
  next
    case (Cons d before)
    obtain q where "query (take 2 d) = Some q" "\<not> occurs_in q (device @ rest)"
      using Cons.prems [of d] by auto
    moreover have "convert_loop query (device @ rest) (before @ drive # after) = Some (take 2 drive @ rest)"
      using Cons.prems by (intro Cons.IH) simp
    ultimately show ?case by simp
  qed
  then show ?thesis by (simp add: ConvertDeviceNameToMsDosName_def)
qed

text \<open>
  A finding: a volume whose number begins with that of a volume listed before, such as 10 after 1, is
  taken for that volume, and the path that is scanned is not that of the file.
\<close>

theorem other_volume_taken:
  assumes "query (take 2 drive) = Some device"
  shows "ConvertDeviceNameToMsDosName (drive # drives) query (Some (device @ digits @ rest)) = Some (take 2 drive @ digits @ rest)"
  using assms occurs_in_prefix [of device "digits @ rest"]
  by (simp add: ConvertDeviceNameToMsDosName_def)

section \<open>Handles\<close>

text \<open>
  The documented behaviour of the calls on the open handles: a new handle was not open, closing an open
  handle succeeds, and the other calls open and close nothing.
\<close>

definition handle_laws :: "'w filter_os \<Rightarrow> ('w \<Rightarrow> nat set) \<Rightarrow> bool" where
  "handle_laws os opened \<longleftrightarrow>
    (\<forall>w h w1. fo_thread os w = (Some h, w1) \<longrightarrow> h \<notin> opened w \<and> opened w1 = insert h (opened w))
    \<and> (\<forall>w w1. fo_thread os w = (None, w1) \<longrightarrow> opened w1 = opened w)
    \<and> (\<forall>w h w1. fo_connect os w = (Some h, w1) \<longrightarrow> h \<notin> opened w \<and> opened w1 = insert h (opened w))
    \<and> (\<forall>w w1. fo_connect os w = (None, w1) \<longrightarrow> opened w1 = opened w)
    \<and> (\<forall>p w h w1. fo_completion os p w = (Some h, w1) \<longrightarrow> h \<notin> opened w \<and> opened w1 = insert h (opened w))
    \<and> (\<forall>p w w1. fo_completion os p w = (None, w1) \<longrightarrow> opened w1 = opened w)
    \<and> (\<forall>h w. opened (snd (fo_resume os h w)) = opened w)
    \<and> (\<forall>w. opened (snd (fo_get_message os w)) = opened w)
    \<and> (\<forall>w. opened (fo_cancel os w) = opened w) \<and> (\<forall>hs w. opened (fo_wait os hs w) = opened w)
    \<and> (\<forall>h w. h \<in> opened w \<longrightarrow> fst (fo_close os h w) \<and> opened (snd (fo_close os h w)) = opened w - {h})"

lemma handle_lawsD:
  assumes "handle_laws os opened"
  shows "fo_thread os w = (Some h, w1) \<Longrightarrow> h \<notin> opened w \<and> opened w1 = insert h (opened w)"
    and "fo_thread os w = (None, w1) \<Longrightarrow> opened w1 = opened w"
    and "fo_connect os w = (Some h, w1) \<Longrightarrow> h \<notin> opened w \<and> opened w1 = insert h (opened w)"
    and "fo_connect os w = (None, w1) \<Longrightarrow> opened w1 = opened w"
    and "fo_completion os p w = (Some h, w1) \<Longrightarrow> h \<notin> opened w \<and> opened w1 = insert h (opened w)"
    and "fo_completion os p w = (None, w1) \<Longrightarrow> opened w1 = opened w"
    and "opened (snd (fo_resume os h w)) = opened w"
    and "opened (snd (fo_get_message os w)) = opened w"
    and "opened (fo_cancel os w) = opened w" and "opened (fo_wait os hs w) = opened w"
    and "h \<in> opened w \<Longrightarrow> fst (fo_close os h w) \<and> opened (snd (fo_close os h w)) = opened w - {h}"
  using assms unfolding handle_laws_def by (simp_all only: simp_thms)

lemma create_threads_open:
  assumes "handle_laws os opened" "create_threads os n w = (hs, ok, w1)"
  shows "distinct hs \<and> set hs \<inter> opened w = {} \<and> opened w1 = set hs \<union> opened w"
  using assms(2)
proof (induction n arbitrary: w hs)
  case (Suc n)
  obtain h w2 where t: "fo_thread os w = (h, w2)" by fastforce
  show ?case
  proof (cases h)
    case None
    with Suc.prems t handle_lawsD(2) [OF assms(1), of w w2] show ?thesis by simp
  next
    case (Some x)
    obtain hs1 ok1 w3 where r: "create_threads os n w2 = (hs1, ok1, w3)" by (cases "create_threads os n w2") auto
    from Suc.prems t Some r have "hs = x # hs1" "w3 = w1" "ok1 = ok" by simp_all
    with Suc.IH [of w2 hs1] r handle_lawsD(1) [OF assms(1), of w x w2] t Some show ?thesis by auto
  qed
qed simp

lemma resume_threads_open:
  "handle_laws os opened \<Longrightarrow> resume_threads os hs w = (ok, w1) \<Longrightarrow> opened w1 = opened w"
proof (induction hs arbitrary: w)
  case (Cons h hs)
  obtain r w2 where r: "fo_resume os h w = (r, w2)" by fastforce
  have "opened w2 = opened w" using handle_lawsD(7) [OF Cons.prems(1), of h w] r by simp
  with Cons r show ?case by (cases r) auto
qed simp

lemma pump_messages_open:
  "handle_laws os opened \<Longrightarrow> pump_messages os n w = (r, w1) \<Longrightarrow> opened w1 = opened w"
proof (induction n arbitrary: w)
  case (Suc n)
  obtain g w2 where g: "fo_get_message os w = (g, w2)" by fastforce
  have "opened w2 = opened w" using handle_lawsD(8) [OF Suc.prems(1), of w] g by simp
  with Suc g show ?case by (cases g) auto
qed simp

lemma close_all_open:
  "handle_laws os opened \<Longrightarrow> distinct hs \<Longrightarrow> set hs \<subseteq> opened w \<Longrightarrow> opened (close_all os hs w) = opened w - set hs"
proof (induction hs arbitrary: w)
  case (Cons h hs)
  have o: "opened (snd (fo_close os h w)) = opened w - {h}"
    using handle_lawsD(11) [OF Cons.prems(1), of h w] Cons.prems(3) by simp
  have "set hs \<subseteq> opened (snd (fo_close os h w))"
    using Cons.prems(2,3) o by auto
  then have "opened (close_all os hs (snd (fo_close os h w))) = opened w - {h} - set hs"
    using Cons.IH [OF Cons.prems(1)] Cons.prems(2) o by simp
  then show ?case by (auto simp: close_all_def)
qed (simp add: close_all_def)

lemma pump_done_at_once:
  "pump_messages os n w = (Done_at_once, w1) \<Longrightarrow> \<exists>v. fst (fo_get_message os v) = Done_at_once"
proof (induction n arbitrary: w)
  case (Suc n)
  obtain a b where ab: "fo_get_message os w = (a, b)" by fastforce
  with Suc show ?case by (cases a) (auto intro!: exI [of _ w])
qed simp

text \<open>The context of a protection that runs, with its handles, on a world that had others open.\<close>

definition protecting :: "('w \<Rightarrow> nat set) \<Rightarrow> nat set \<Rightarrow> scan_ctx \<Rightarrow> 'w \<Rightarrow> bool" where
  "protecting opened rest c w \<longleftrightarrow> (\<exists>ts port completion.
    gc_on_access c = Some \<lparr>ac_threads = Some ts, ac_finalized = False, ac_port = Some port, ac_completion = Some completion\<rparr>
    \<and> distinct (port # completion # ts) \<and> set (port # completion # ts) \<inter> rest = {}
    \<and> opened w = set (port # completion # ts) \<union> rest)"

lemma init_failed_open:
  assumes "handle_laws os opened" "init_failed os completion port ts c w = (ok, c1, w1)"
    and "distinct ((case completion of None \<Rightarrow> [] | Some h \<Rightarrow> [h]) @ (case port of None \<Rightarrow> [] | Some h \<Rightarrow> [h]) @ ts)"
    and "opened w = set ((case completion of None \<Rightarrow> [] | Some h \<Rightarrow> [h]) @ (case port of None \<Rightarrow> [] | Some h \<Rightarrow> [h]) @ ts) \<union> rest"
    and "set ((case completion of None \<Rightarrow> [] | Some h \<Rightarrow> [h]) @ (case port of None \<Rightarrow> [] | Some h \<Rightarrow> [h]) @ ts) \<inter> rest = {}"
  shows "\<not> ok \<and> c1 = c\<lparr>gc_on_access := None\<rparr> \<and> opened w1 = rest"
proof -
  let ?hs = "(case completion of None \<Rightarrow> [] | Some h \<Rightarrow> [h]) @ (case port of None \<Rightarrow> [] | Some h \<Rightarrow> [h]) @ ts"
  have "opened (close_all os ?hs w) = opened w - set ?hs"
    using close_all_open [OF assms(1,3), of w] assms(4) by simp
  also have "\<dots> = rest" using assms(4,5) by blast
  finally show ?thesis using assms(2) by (auto simp: init_failed_def)
qed

lemma init_outcome:
  assumes laws: "handle_laws os opened" and init: "UserScanInit os c w = (ok, c1, w1)"
  shows "if ok then protecting opened (opened w) c1 w1
        \<and> (\<exists>c0. gc_on_access c0 \<noteq> None \<and> gc_module c0 = gc_module c
            \<and> (c1 = snd (toggle_onaccess_state c0) \<or> c1 = c0 \<and> (\<exists>v. fst (fo_get_message os v) = Done_at_once)))
    else c1 = c\<lparr>gc_on_access := None\<rparr> \<and> opened w1 = opened w"
proof -
  obtain ts okt v1 where t: "create_threads os USER_SCAN_THREAD_COUNT w = (ts, okt, v1)"
    by (cases "create_threads os USER_SCAN_THREAD_COUNT w") auto
  note T = create_threads_open [OF laws t]
  obtain port v2 where p: "fo_connect os v1 = (port, v2)" by fastforce
  show ?thesis
  proof (cases "okt \<and> port \<noteq> None")
    case False
    then have "init_failed os None None ts c (if okt then v2 else v1) = (ok, c1, w1)"
      using init t p by (auto simp: UserScanInit_def split: bool.splits option.splits)
    moreover have "okt \<Longrightarrow> opened v2 = opened v1"
      using False p handle_lawsD(4) [OF laws, of v1 v2] by auto
    ultimately have "\<not> ok \<and> c1 = c\<lparr>gc_on_access := None\<rparr> \<and> opened w1 = opened w"
      using T by (intro init_failed_open [OF laws]) (auto split: if_splits)
    then show ?thesis by simp
  next
    case True
    then obtain pt where pt: "port = Some pt" by auto
    have P: "pt \<notin> opened v1 \<and> opened v2 = insert pt (opened v1)"
      using handle_lawsD(3) [OF laws, of v1 pt v2] p pt by simp
    obtain completion v3 where k: "fo_completion os pt v2 = (completion, v3)" by fastforce
    show ?thesis
    proof (cases completion)
      case None
      then have "init_failed os None (Some pt) ts c v3 = (ok, c1, w1)"
        using init t p pt k True by (simp add: UserScanInit_def)
      then have "\<not> ok \<and> c1 = c\<lparr>gc_on_access := None\<rparr> \<and> opened w1 = opened w"
        using T P handle_lawsD(6) [OF laws, of pt v2 v3] k None by (intro init_failed_open [OF laws]) auto
      then show ?thesis by simp
    next
      case (Some cp)
      have K: "cp \<notin> opened v2 \<and> opened v3 = insert cp (opened v2)"
        using handle_lawsD(5) [OF laws, of pt v2 cp v3] k Some by simp
      obtain okr v4 where r: "resume_threads os ts v3 = (okr, v4)" by fastforce
      have R: "opened v4 = opened v3" by (rule resume_threads_open [OF laws r])
      obtain g v5 where g: "pump_messages os USER_SCAN_THREAD_COUNT v4 = (g, v5)" by fastforce
      have G: "opened v5 = opened v4" by (rule pump_messages_open [OF laws g])
      let ?ctx = "\<lparr>ac_threads = Some ts, ac_finalized = False, ac_port = Some pt, ac_completion = Some cp\<rparr>"
      let ?c0 = "c\<lparr>gc_on_access := Some ?ctx\<rparr>"
      have fail: "\<not> ok \<and> c1 = c\<lparr>gc_on_access := None\<rparr> \<and> opened w1 = opened w"
        if "init_failed os (Some cp) (Some pt) ts c' v = (ok, c1, w1)" "c' = c \<or> c' = ?c0" "v = v4 \<or> v = v5" for c' v
      proof -
        have "\<not> ok \<and> c1 = c'\<lparr>gc_on_access := None\<rparr> \<and> opened w1 = opened w"
          using that T P K R G by (intro init_failed_open [OF laws that(1)]) auto
        with that(2) show ?thesis by auto
      qed
      have prot: "protecting opened (opened w) c' v5" if "gc_on_access c' = Some ?ctx" for c'
        using that T P K R G unfolding protecting_def
        by (intro exI [of _ ts] exI [of _ pt] exI [of _ cp]) auto
      show ?thesis
      proof (cases "okr \<and> (g = Pending \<or> g = Done_at_once)")
        case False
        then have "init_failed os (Some cp) (Some pt) ts (if okr then ?c0 else c) (if okr then v5 else v4) = (ok, c1, w1)"
          using init t p pt k Some r g True by (cases g; cases okr) (simp_all add: UserScanInit_def Let_def)
        from fail [OF this] show ?thesis by (auto split: if_splits)
      next
        case ok: True
        then have "(ok, c1, w1) = (True, if g = Pending then snd (toggle_onaccess_state ?c0) else ?c0, v5)"
          using init t p pt k Some r g True by (cases g) (auto simp: UserScanInit_def Let_def)
        moreover have "gc_on_access (snd (toggle_onaccess_state ?c0)) = Some ?ctx"
          by (simp add: toggle_onaccess_state_def split: option.splits)
        moreover have "\<exists>v. fst (fo_get_message os v) = Done_at_once" if "g = Done_at_once"
          by (rule pump_done_at_once [OF g [unfolded that]])
        ultimately show ?thesis
          using ok prot by (auto intro!: exI [of _ ?c0] split: if_splits)
      qed
    qed
  qed
qed

lemma finalize_outcome:
  assumes laws: "handle_laws os opened" and "protecting opened rest c w"
  shows "\<exists>c1 w1. UserScanFinalize os c w = Some (True, c1, w1) \<and> opened w1 = rest
    \<and> (\<exists>c0. gc_on_access c0 \<noteq> None \<and> gc_module c0 = gc_module c \<and> c1 = snd (toggle_onaccess_state c0))"
proof -
  obtain ts p k where c: "gc_on_access c = Some \<lparr>ac_threads = Some ts, ac_finalized = False, ac_port = Some p, ac_completion = Some k\<rparr>"
    and d: "distinct (p # k # ts)" "set (p # k # ts) \<inter> rest = {}" "opened w = set (p # k # ts) \<union> rest"
    using assms(2) unfolding protecting_def by blast
  let ?w1 = "fo_wait os ts (fo_cancel os w)"
  have o1: "opened ?w1 = opened w" using handle_lawsD(9,10) [OF laws] by simp
  obtain ok2 w2 where cp: "fo_close os p ?w1 = (ok2, w2)" by fastforce
  have o2: "ok2" "opened w2 = opened w - {p}"
    using handle_lawsD(11) [OF laws, of p ?w1] o1 cp d(3) by auto
  obtain ok3 w3 where ck: "fo_close os k w2 = (ok3, w3)" by fastforce
  have o3: "ok3" "opened w3 = opened w - {p, k}"
    using handle_lawsD(11) [OF laws, of k w2] o2 ck d(1,3) by auto
  have "opened (close_all os ts w3) = opened w3 - set ts"
    using d(1,3) o3 by (intro close_all_open [OF laws]) auto
  then have "opened (close_all os ts w3) = rest" using d o3 by auto
  then show ?thesis
    using c cp ck o2(1) o3(1)
    by (auto simp: UserScanFinalize_def Let_def intro!: exI [of _ "c\<lparr>gc_on_access := Some _\<rparr>"])
qed

text \<open>
  Starting and ending the on-access protection is balanced. A start that fails closes every handle it
  opened and leaves the flag of the module as it was; one that succeeds sets the flag, and the end, after
  whatever the threads did, succeeds, closes exactly the handles of the start and clears the flag.
\<close>

theorem protection_balanced:
  assumes "handle_laws os opened" "\<And>v. fst (fo_get_message os v) \<noteq> Done_at_once"
    and "gc_module c = Some d" "oa_state_flag d = 0"
    and "UserScanInit os c w = (ok, c1, w1)" "opened w2 = opened w1"
  shows "if ok then gc_module c1 = Some (d\<lparr>oa_state_flag := 1\<rparr>)
      \<and> (\<exists>c2 w3. UserScanFinalize os c1 w2 = Some (True, c2, w3) \<and> opened w3 = opened w \<and> gc_module c2 = Some d)
    else opened w1 = opened w \<and> c1 = c\<lparr>gc_on_access := None\<rparr>"
proof (cases ok)
  case True
  from init_outcome [OF assms(1,5)] True assms(2) obtain c0 where
    p: "protecting opened (opened w) c1 w1" and c0: "gc_on_access c0 \<noteq> None" "gc_module c0 = gc_module c"
      "c1 = snd (toggle_onaccess_state c0)"
    by auto
  then have m: "gc_module c1 = Some (d\<lparr>oa_state_flag := 1\<rparr>)"
    using assms(3,4) by (auto simp: toggle_onaccess_state_def)
  have "protecting opened (opened w) c1 w2" using p assms(6) by (simp add: protecting_def)
  from finalize_outcome [OF assms(1) this] obtain c2 w3 c3 where
    f: "UserScanFinalize os c1 w2 = Some (True, c2, w3)" "opened w3 = opened w"
      "gc_on_access c3 \<noteq> None" "gc_module c3 = gc_module c1" "c2 = snd (toggle_onaccess_state c3)"
    by blast
  then have "gc_module c2 = Some d" using m assms(4) by (auto simp: toggle_onaccess_state_def)
  with f m True show ?thesis by auto
next
  case False
  with init_outcome [OF assms(1,5)] show ?thesis by simp
qed

section \<open>Replies\<close>

text \<open>
  The driver: the messages that wait, after which the port is closed, and the replies it was sent. A
  verdict depends on the path only.
\<close>

definition driver_laws :: "'w filter_os \<Rightarrow> ('w \<Rightarrow> (nat \<times> string) list) \<Rightarrow> ('w \<Rightarrow> (nat \<times> a6o_file_status) list)
    \<Rightarrow> string list \<Rightarrow> (string \<Rightarrow> string option) \<Rightarrow> (string \<Rightarrow> a6o_file_status) \<Rightarrow> bool" where
  "driver_laws os waiting replies drives query judge \<longleftrightarrow>
    (\<forall>w. fo_wow64 os w \<and> fo_drives os w = drives \<and> (\<lambda>l. fo_query os l w) = query)
    \<and> (\<forall>w. \<exists>w1. fo_completed os w = (case waiting w of [] \<Rightarrow> None | m # ms \<Rightarrow> Some m, w1)
          \<and> waiting w1 = tl (waiting w) \<and> replies w1 = replies w)
    \<and> (\<forall>p w. \<exists>w1. fo_scan os p w = (judge p, w1) \<and> waiting w1 = waiting w \<and> replies w1 = replies w)
    \<and> (\<forall>i st w. \<exists>w1. fo_reply os i st w = (True, w1) \<and> waiting w1 = waiting w \<and> replies w1 = replies w @ [(i, st)])
    \<and> (\<forall>w. \<exists>w1. fo_get_message os w = (Pending, w1) \<and> waiting w1 = waiting w \<and> replies w1 = replies w)"

definition reply_for :: "string list \<Rightarrow> (string \<Rightarrow> string option) \<Rightarrow> (string \<Rightarrow> a6o_file_status) \<Rightarrow> nat \<times> string \<Rightarrow> nat \<times> a6o_file_status" where
  "reply_for drives query judge m = (fst m, case ConvertDeviceNameToMsDosName drives query (Some (snd m)) of
     None \<Rightarrow> A6O_FILE_EINVAL | Some p \<Rightarrow> judge p)"

lemma handle_message_replies:
  assumes laws: "driver_laws os waiting replies drives query judge"
  shows "waiting (handle_message os m w) = waiting w
    \<and> replies (handle_message os m w) = replies w @ [reply_for drives query judge m]"
proof -
  let ?path = "ConvertDeviceNameToMsDosName drives query (Some (snd m))"
  let ?st = "case ?path of None \<Rightarrow> A6O_FILE_EINVAL | Some p \<Rightarrow> judge p"
  have scan: "\<exists>w1. scan_path os ?path v = (?st, w1) \<and> waiting w1 = waiting v \<and> replies w1 = replies v" for v
    using laws by (cases ?path) (auto simp: driver_laws_def scan_path_def)
  obtain w1 where w1: "scan_path os ?path w = (?st, w1)" "waiting w1 = waiting w" "replies w1 = replies w"
    using scan by blast
  obtain w2 where w2: "fo_reply os (fst m) ?st w1 = (True, w2)" "waiting w2 = waiting w1" "replies w2 = replies w1 @ [(fst m, ?st)]"
    using laws unfolding driver_laws_def by blast
  obtain w3 where w3: "scan_path os ?path w2 = (?st, w3)" "waiting w3 = waiting w2" "replies w3 = replies w2"
    using scan by blast
  have "fo_drives os w = drives" "(\<lambda>l. fo_query os l w) = query"
    using laws by (simp_all add: driver_laws_def)
  then have "handle_message os m w = (if ?st = A6O_FILE_MALWARE then w3 else w2)"
    using w1(1) w2(1) w3(1) by (simp add: handle_message_def Let_def)
  then show ?thesis using w1 w2 w3 by (simp add: reply_for_def)
qed

lemma worker_loop_replies:
  assumes laws: "driver_laws os waiting replies drives query judge"
  shows "waiting w = ms \<Longrightarrow> length ms < fuel \<Longrightarrow> \<exists>w1. worker_loop os (\<lambda>v. False) fuel w = Some w1
    \<and> replies w1 = replies w @ map (reply_for drives query judge) ms"
proof (induction ms arbitrary: w fuel)
  case Nil
  obtain w1 where "fo_completed os w = (None, w1)" "replies w1 = replies w"
    using laws Nil.prems(1) unfolding driver_laws_def by (metis list.simps(4))
  with Nil.prems(2) show ?case by (cases fuel) simp_all
next
  case (Cons m ms)
  obtain n where n: "fuel = Suc n" "length ms < n" using Cons.prems(2) by (cases fuel) auto
  obtain w1 where w1: "fo_completed os w = (Some m, w1)" "waiting w1 = ms" "replies w1 = replies w"
    using laws Cons.prems(1) unfolding driver_laws_def by (metis list.simps(5) list.sel(3))
  note h = handle_message_replies [OF laws, of m w1]
  obtain w3 where w3: "fo_get_message os (handle_message os m w1) = (Pending, w3)"
    "waiting w3 = ms" "replies w3 = replies w @ [reply_for drives query judge m]"
    using laws h w1(2,3) unfolding driver_laws_def by metis
  obtain w4 where "worker_loop os (\<lambda>v. False) n w3 = Some w4"
    "replies w4 = replies w3 @ map (reply_for drives query judge) ms"
    using Cons.IH [OF w3(2) n(2)] by blast
  then show ?case using n(1) w1(1) w3(1,3) by (simp add: Let_def)
qed

text \<open>
  A thread answers every message of the driver, in order and once each: with the verdict for the
  path of the file, or with the status of an invalid argument when the file has no path.
\<close>

theorem every_message_answered:
  assumes "driver_laws os waiting replies drives query judge" "\<And>v. \<not> finalized v"
    and "length (waiting w) < fuel"
  shows "\<exists>w1. UserScanWorker os finalized fuel w = Some w1
    \<and> replies w1 = replies w @ map (\<lambda>(i, file). (i, case ConvertDeviceNameToMsDosName drives query (Some file) of
        None \<Rightarrow> A6O_FILE_EINVAL | Some p \<Rightarrow> judge p)) (waiting w)"
proof -
  have "fo_wow64 os w" using assms(1) by (simp add: driver_laws_def)
  moreover have "reply_for drives query judge = (\<lambda>(i, file). (i, case ConvertDeviceNameToMsDosName drives query (Some file) of
        None \<Rightarrow> A6O_FILE_EINVAL | Some p \<Rightarrow> judge p))"
    by (simp add: fun_eq_iff reply_for_def split_beta)
  moreover have "finalized = (\<lambda>v. False)" using assms(2) by auto
  ultimately show ?thesis
    using worker_loop_replies [OF assms(1) refl assms(3)] by (simp add: UserScanWorker_def)
qed

section \<open>Witnesses\<close>

text \<open>A driver with one message and a disk \<open>C:\<close> on volume 1 and \<open>D:\<close> on volume 2.\<close>

record driver_world =
  dw_open :: "nat list"
  dw_waiting :: "(nat \<times> string) list"
  dw_replies :: "(nat \<times> a6o_file_status) list"

definition fresh_handle :: "driver_world \<Rightarrow> nat option \<times> driver_world" where
  "fresh_handle w = (let h = Suc (sum_list (dw_open w)) in (Some h, w\<lparr>dw_open := h # dw_open w\<rparr>))"

definition sample_query :: "string \<Rightarrow> string option" where
  "sample_query l = (if l = ''C:'' then Some ''vol1'' else if l = ''D:'' then Some ''vol2'' else None)"

definition sample_judge :: "string \<Rightarrow> a6o_file_status" where
  "sample_judge p = (if p = ''D:virus'' then A6O_FILE_MALWARE else A6O_FILE_CLEAN)"

definition sample_filter :: "driver_world filter_os" where
  "sample_filter = \<lparr>fo_thread = fresh_handle, fo_connect = fresh_handle, fo_completion = (\<lambda>p. fresh_handle),
     fo_resume = (\<lambda>h w. (True, w)), fo_get_message = (\<lambda>w. (Pending, w)), fo_cancel = (\<lambda>w. w), fo_wait = (\<lambda>hs w. w),
     fo_close = (\<lambda>h w. (True, w\<lparr>dw_open := removeAll h (dw_open w)\<rparr>)), fo_wow64 = (\<lambda>w. True),
     fo_completed = (\<lambda>w. (case dw_waiting w of [] \<Rightarrow> None | m # ms \<Rightarrow> Some m, w\<lparr>dw_waiting := tl (dw_waiting w)\<rparr>)),
     fo_drives = (\<lambda>w. [''C:'', ''D:'']), fo_query = (\<lambda>l w. sample_query l), fo_scan = (\<lambda>p w. (sample_judge p, w)),
     fo_reply = (\<lambda>i st w. (True, w\<lparr>dw_replies := dw_replies w @ [(i, st)]\<rparr>))\<rparr>"

lemma fresh_handle_new: "Suc (sum_list xs) \<notin> set xs"
  using member_le_sum_list [of "Suc (sum_list xs)" xs] by auto

lemma sample_handle_laws: "handle_laws sample_filter (\<lambda>w. set (dw_open w))"
  using fresh_handle_new by (auto simp: handle_laws_def sample_filter_def fresh_handle_def Let_def)

lemma sample_driver_laws:
  "driver_laws sample_filter dw_waiting dw_replies [''C:'', ''D:''] sample_query sample_judge"
  by (simp add: driver_laws_def sample_filter_def)

theorem device_path_converted_witness:
  "ConvertDeviceNameToMsDosName [''C:'', ''D:''] sample_query (Some ''vol2virus'') = Some ''D:virus''"
  using device_path_converted [of "[''C:'']" sample_query "''vol2''" "''virus''" "''D:''" "[]"]
  by (simp add: sample_query_def)

theorem other_volume_taken_witness:
  "ConvertDeviceNameToMsDosName [''C:''] sample_query (Some ''vol10file'') = Some ''C:0file''"
  using other_volume_taken [of sample_query "''C:''" "''vol1''" "[]" "''0''" "''file''"]
  by (simp add: sample_query_def)

theorem every_message_answered_witness:
  "\<exists>w1. UserScanWorker sample_filter (\<lambda>v. False) 3
      \<lparr>dw_open = [], dw_waiting = [(7, ''vol2virus''), (8, ''other'')], dw_replies = []\<rparr> = Some w1
    \<and> dw_replies w1 = [(7, A6O_FILE_MALWARE), (8, A6O_FILE_EINVAL)]"
  using every_message_answered [OF sample_driver_laws, of "\<lambda>v. False"
      "\<lparr>dw_open = [], dw_waiting = [(7, ''vol2virus''), (8, ''other'')], dw_replies = []\<rparr>" 3]
  by (simp add: ConvertDeviceNameToMsDosName_def sample_query_def sample_judge_def)

theorem protection_balanced_witness:
  "\<exists>c1 w1 c2 w3. UserScanInit sample_filter \<lparr>gc_on_access = None, gc_module = Some \<lparr>oa_enable_permission = 1, oa_state_flag = 0\<rparr>\<rparr>
      \<lparr>dw_open = [], dw_waiting = [], dw_replies = []\<rparr> = (True, c1, w1)
    \<and> UserScanFinalize sample_filter c1 w1 = Some (True, c2, w3) \<and> set (dw_open w3) = {}"
proof -
  let ?d = "\<lparr>oa_enable_permission = 1, oa_state_flag = 0\<rparr>"
  let ?c = "\<lparr>gc_on_access = None, gc_module = Some ?d\<rparr>" and ?w = "\<lparr>dw_open = [], dw_waiting = [], dw_replies = []\<rparr>"
  obtain ok c1 w1 where i: "UserScanInit sample_filter ?c ?w = (ok, c1, w1)"
    by (cases "UserScanInit sample_filter ?c ?w") auto
  have ok
    using i by (simp add: UserScanInit_def sample_filter_def USER_SCAN_THREAD_COUNT_def numeral_nat fresh_handle_def Let_def)
  have pending: "fst (fo_get_message sample_filter v) \<noteq> Done_at_once" for v
    by (simp add: sample_filter_def)
  from protection_balanced [OF sample_handle_laws pending _ _ i refl, of ?d] i \<open>ok\<close> show ?thesis by auto
qed

end
