(* ===== verification/WinOnDemand.thy ===== *)
theory WinOnDemand
  imports Prelude
begin

text \<open>
  The on-demand scans of the Windows service, \<open>arch/windows/service/scan_ondemand.c\<close>: a main thread waits
  for clients on a named pipe and starts a thread for each of them, which is registered in a slot of an
  array. The threads run interleaved: the main thread stops where it waits for a client, a scan
  thread between the reading of a request and the writing of its answer. The Windows functions and the
  JSON handler are arguments; a thread identifier is never zero, as documented.
\<close>

section \<open>The context\<close>

definition SCAN_THREAD_COUNT :: nat where "SCAN_THREAD_COUNT = 3"

text \<open>The slot of a scan thread. A handle that is NULL is \<open>None\<close>.\<close>

record ondemand_thread =
  ot_handle :: "nat option"
  ot_thread_id :: u32
  ot_pipe :: "nat option"
  ot_scan_id :: int
  ot_aborted :: bool

definition zero_thread :: ondemand_thread where
  "zero_thread = \<lparr>ot_handle = None, ot_thread_id = 0, ot_pipe = None, ot_scan_id = 0, ot_aborted = False\<rparr>"

text \<open>The array of the slots is NULL before it is allocated and after it is freed.\<close>

record ondemand_ctx =
  oc_threads :: "ondemand_thread list option"
  oc_count :: u32
  oc_finalized :: bool
  oc_main :: "nat option option"

text \<open>
  Creating the pipe and waiting for a client; creating a suspended thread, with its handle and
  identifier, resuming, terminating and waiting; reading and writing, where a transfer of no bytes counts as
  a failure; the answer of the JSON handler to a request and the execution of its callback; ending a pipe.
\<close>

record 'w pipe_os =
  po_security :: "'w \<Rightarrow> bool"
  po_create :: "'w \<Rightarrow> nat option \<times> 'w"
  po_connect :: "nat \<Rightarrow> 'w \<Rightarrow> bool \<times> 'w"
  po_thread :: "'w \<Rightarrow> (nat \<times> u32) option \<times> 'w"
  po_resume :: "nat option \<Rightarrow> 'w \<Rightarrow> bool \<times> 'w"
  po_terminate :: "nat option \<Rightarrow> 'w \<Rightarrow> 'w"
  po_wait :: "nat option list \<Rightarrow> 'w \<Rightarrow> bool \<times> 'w"
  po_wow64 :: "'w \<Rightarrow> bool"
  po_read :: "nat option \<Rightarrow> 'w \<Rightarrow> string option \<times> 'w"
  po_write :: "nat option \<Rightarrow> string \<Rightarrow> 'w \<Rightarrow> bool \<times> 'w"
  po_response :: "string \<Rightarrow> 'w \<Rightarrow> (int + string) \<times> 'w"
  po_process :: "'w \<Rightarrow> 'w"
  po_disconnect :: "nat option \<Rightarrow> 'w \<Rightarrow> 'w"
  po_close :: "nat option \<Rightarrow> 'w \<Rightarrow> 'w"

definition CreatePipeSecurityAttributes :: "'w pipe_os \<Rightarrow> 'w \<Rightarrow> int" where
  "CreatePipeSecurityAttributes os w = (if po_security os w then 0 else -2)"

section \<open>Scan threads\<close>

text \<open>
  A scan thread before it has looked up its slot, before it reads a request, with the answer to a
  request, and at its end.
\<close>

datatype scan_phase = Started | Ready nat | Answering nat string | Ended int

definition slot_of :: "u32 \<Rightarrow> ondemand_thread list \<Rightarrow> nat option" where
  "slot_of tid ts = (case filter (\<lambda>i. ot_thread_id (ts ! i) = tid) [0..<SCAN_THREAD_COUNT] of
     [] \<Rightarrow> None | i # _ \<Rightarrow> Some i)"

text \<open>The end of a thread: its slot is cleared and the count decreased.\<close>

definition thread_finally :: "'w pipe_os \<Rightarrow> nat \<Rightarrow> int \<Rightarrow> ondemand_ctx \<Rightarrow> 'w \<Rightarrow> (scan_phase \<times> ondemand_ctx \<times> 'w) option" where
  "thread_finally os i ret ctx w = (case oc_threads ctx of
       None \<Rightarrow> None
     | Some ts \<Rightarrow>
         (let p = ot_pipe (ts ! i);
              w1 = po_close os p (po_disconnect os p w)
          in Some (Ended ret, ctx\<lparr>oc_threads := Some (ts[i := zero_thread]), oc_count := oc_count ctx - 1\<rparr>, w1)))"

text \<open>
  The beginning of \<open>ScanThreadWork\<close>. A thread that does not find its slot leaves at once, without the end
  above.
\<close>

definition thread_start :: "'w pipe_os \<Rightarrow> u32 \<Rightarrow> ondemand_ctx \<Rightarrow> 'w \<Rightarrow> (scan_phase \<times> ondemand_ctx \<times> 'w) option" where
  "thread_start os tid ctx w = (case oc_threads ctx of
       None \<Rightarrow> None
     | Some ts \<Rightarrow>
         (case slot_of tid ts of
            None \<Rightarrow> Some (Ended (-2), ctx, w)
          | Some i \<Rightarrow>
              if \<not> po_wow64 os w then Some (Ended (-3), ctx, w)
              else if oc_finalized ctx then thread_finally os i 0 ctx w
              else if ot_pipe (ts ! i) = None then thread_finally os i (-3) ctx w
              else Some (Ready i, ctx, w)))"

text \<open>Reading a request from the pipe that is in the slot, and computing the answer.\<close>

definition thread_read :: "'w pipe_os \<Rightarrow> nat \<Rightarrow> ondemand_ctx \<Rightarrow> 'w \<Rightarrow> (scan_phase \<times> ondemand_ctx \<times> 'w) option" where
  "thread_read os i ctx w = (if oc_finalized ctx then thread_finally os i 0 ctx w
     else case oc_threads ctx of
       None \<Rightarrow> None
     | Some ts \<Rightarrow>
         (case po_read os (ot_pipe (ts ! i)) w of
            (None, w1) \<Rightarrow> thread_finally os i (-6) ctx w1
          | (Some request, w1) \<Rightarrow>
              (case po_response os request w1 of
                 (Inl ret, w2) \<Rightarrow> thread_finally os i ret ctx w2
               | (Inr response, w2) \<Rightarrow> Some (Answering i response, ctx, w2))))"

definition thread_answer :: "'w pipe_os \<Rightarrow> nat \<Rightarrow> string \<Rightarrow> ondemand_ctx \<Rightarrow> 'w \<Rightarrow> (scan_phase \<times> ondemand_ctx \<times> 'w) option" where
  "thread_answer os i response ctx w = (case oc_threads ctx of
       None \<Rightarrow> None
     | Some ts \<Rightarrow>
         (case po_write os (ot_pipe (ts ! i)) response w of
            (False, w1) \<Rightarrow> thread_finally os i (-9) ctx w1
          | (True, w1) \<Rightarrow> Some (Ready i, ctx, po_process os w1)))"

definition ScanThreadWork :: "'w pipe_os \<Rightarrow> u32 \<Rightarrow> scan_phase \<Rightarrow> ondemand_ctx \<Rightarrow> 'w \<Rightarrow> (scan_phase \<times> ondemand_ctx \<times> 'w) option" where
  "ScanThreadWork os tid ph ctx w = (case ph of
       Started \<Rightarrow> thread_start os tid ctx w
     | Ready i \<Rightarrow> thread_read os i ctx w
     | Answering i response \<Rightarrow> thread_answer os i response ctx w
     | Ended ret \<Rightarrow> Some (Ended ret, ctx, w))"

section \<open>Termination\<close>

text \<open>
  The pipes of the slots with a handle are closed, their threads waited for, and the slots freed. The
  array of handles given to \<open>WaitForMultipleObjects\<close> keeps NULL for the other slots, and the wait is
  skipped when there is none.
\<close>

definition used_slots :: "ondemand_thread list \<Rightarrow> ondemand_thread list" where
  "used_slots ts = filter (\<lambda>t. ot_handle t \<noteq> None) ts"

definition TerminateAllScanThreads :: "'w pipe_os \<Rightarrow> ondemand_ctx \<Rightarrow> 'w \<Rightarrow> int \<times> ondemand_ctx \<times> 'w" where
  "TerminateAllScanThreads os ctx w =
    (let ctx1 = ctx\<lparr>oc_finalized := True\<rparr>
     in case oc_threads ctx of
          None \<Rightarrow> (-1, ctx1, w)
        | Some ts \<Rightarrow>
            (let w1 = fold (\<lambda>t. po_close os (ot_pipe t)) (used_slots ts) w;
                 w2 = (if used_slots ts = [] then w1 else snd (po_wait os (map ot_handle ts) w1))
             in (0, ctx1\<lparr>oc_threads := None\<rparr>, w2)))"

section \<open>The main thread\<close>

text \<open>The main thread before it waits for a client, with a client to register, and at its end.\<close>

datatype main_phase = Listening nat | Registering nat nat | Finished int

text \<open>The slot for a new thread: the first one that has a handle, else the one chosen before.\<close>

definition free_slot :: "ondemand_thread list \<Rightarrow> nat \<Rightarrow> nat" where
  "free_slot ts index = (case filter (\<lambda>i. ot_handle (ts ! i) \<noteq> None) [0..<SCAN_THREAD_COUNT] of
     [] \<Rightarrow> index | i # _ \<Rightarrow> i)"

text \<open>The end of the main thread on an error: the memory of both contexts is freed.\<close>

definition main_failed :: "'w pipe_os \<Rightarrow> int \<Rightarrow> ondemand_ctx \<Rightarrow> 'w \<Rightarrow> (main_phase \<times> u32 option \<times> ondemand_ctx \<times> 'w) option" where
  "main_failed os ret ctx w = (case TerminateAllScanThreads os ctx w of
     (_, ctx1, w1) \<Rightarrow> Some (Finished ret, None, ctx1\<lparr>oc_main := None\<rparr>, w1))"

definition main_listen :: "'w pipe_os \<Rightarrow> nat \<Rightarrow> ondemand_ctx \<Rightarrow> 'w \<Rightarrow> (main_phase \<times> u32 option \<times> ondemand_ctx \<times> 'w) option" where
  "main_listen os index ctx w =
    (if oc_finalized ctx then Some (Finished 0, None, ctx, w)
     else if unat (oc_count ctx) = SCAN_THREAD_COUNT then Some (Listening index, None, ctx, w)
     else case po_create os w of
         (None, w1) \<Rightarrow> main_failed os (-3) ctx w1
       | (Some hPipe, w1) \<Rightarrow>
           (case po_connect os hPipe w1 of
              (False, w2) \<Rightarrow> main_failed os (-4) ctx w2
            | (True, w2) \<Rightarrow> Some (Registering index hPipe, None, ctx, w2)))"

text \<open>
  Registering a client. The message that is printed reads the slot before the count, which must exist. The
  identifier of the new thread is given back with the phase.
\<close>

definition main_register :: "'w pipe_os \<Rightarrow> nat \<Rightarrow> nat \<Rightarrow> ondemand_ctx \<Rightarrow> 'w \<Rightarrow> (main_phase \<times> u32 option \<times> ondemand_ctx \<times> 'w) option" where
  "main_register os index hPipe ctx w = (case oc_threads ctx of
       None \<Rightarrow> None
     | Some ts \<Rightarrow>
         (let i = free_slot ts index;
              slot = (ts ! i)\<lparr>ot_pipe := Some hPipe, ot_scan_id := 0\<rparr>
          in case po_thread os w of
               (None, w1) \<Rightarrow> main_failed os (-5) (ctx\<lparr>oc_threads := Some (ts[i := slot\<lparr>ot_handle := None\<rparr>])\<rparr>) w1
             | (Some (h, tid), w1) \<Rightarrow>
                 (let ctx1 = ctx\<lparr>oc_threads := Some (ts[i := slot\<lparr>ot_handle := Some h, ot_thread_id := tid\<rparr>])\<rparr>
                  in case po_resume os (Some h) w1 of
                       (False, w2) \<Rightarrow> main_failed os (-6) ctx1 w2
                     | (True, w2) \<Rightarrow>
                         (let count = oc_count ctx + 1
                          in if count = 0 \<or> unat count > SCAN_THREAD_COUNT then None
                             else Some (Listening i, Some tid, ctx1\<lparr>oc_count := count\<rparr>, w2)))))"

text \<open>The allocation of the slots and the security attributes come first.\<close>

definition main_begin :: "'w pipe_os \<Rightarrow> ondemand_ctx \<Rightarrow> 'w \<Rightarrow> (main_phase \<times> u32 option \<times> ondemand_ctx \<times> 'w) option" where
  "main_begin os ctx w =
    (let ctx1 = ctx\<lparr>oc_threads := Some (replicate SCAN_THREAD_COUNT zero_thread)\<rparr>
     in if CreatePipeSecurityAttributes os w < 0 then main_failed os (-2) ctx1 w
        else Some (Listening 0, None, ctx1, w))"

definition MainThreadWork :: "'w pipe_os \<Rightarrow> main_phase \<Rightarrow> ondemand_ctx \<Rightarrow> 'w \<Rightarrow> (main_phase \<times> u32 option \<times> ondemand_ctx \<times> 'w) option" where
  "MainThreadWork os ph ctx w = (case ph of
       Listening index \<Rightarrow> main_listen os index ctx w
     | Registering index hPipe \<Rightarrow> main_register os index hPipe ctx w
     | Finished ret \<Rightarrow> Some (Finished ret, None, ctx, w))"

section \<open>Starting and closing\<close>

text \<open>
  The context that is started with; the result of \<open>CreateThread\<close> is compared with another value than the
  NULL of a failure. When the main thread cannot be resumed the error handling dereferences the array of
  slots, which is not allocated yet.
\<close>

definition Start_IHM_Connection :: "'w pipe_os \<Rightarrow> bool \<Rightarrow> 'w \<Rightarrow> (int \<times> ondemand_ctx option \<times> 'w) option" where
  "Start_IHM_Connection os armadito w =
    (if \<not> armadito then Some (-1, None, w)
     else case po_thread os w of (th, w1) \<Rightarrow>
       (let handle = map_option fst th;
            ctx = \<lparr>oc_threads = None, oc_count = 0, oc_finalized = False, oc_main = Some handle\<rparr>
        in case po_resume os handle w1 of
             (False, w2) \<Rightarrow> None
           | (True, w2) \<Rightarrow> Some (0, Some ctx, w2)))"

definition Close_IHM_Connection :: "'w pipe_os \<Rightarrow> ondemand_ctx \<Rightarrow> 'w \<Rightarrow> int \<times> ondemand_ctx \<times> 'w" where
  "Close_IHM_Connection os ctx w = (case TerminateAllScanThreads os ctx w of
     (_, ctx1, w1) \<Rightarrow>
       (case oc_main ctx1 of
          None \<Rightarrow> (0, ctx1, w1)
        | Some h \<Rightarrow> (0, ctx1\<lparr>oc_main := None\<rparr>, po_terminate os h w1)))"

section \<open>Interleavings\<close>

record 'w ondemand_state =
  os_ctx :: ondemand_ctx
  os_main :: main_phase
  os_threads :: "u32 \<Rightarrow> scan_phase option"
  os_world :: 'w

inductive ondemand_step :: "'w pipe_os \<Rightarrow> 'w ondemand_state \<Rightarrow> 'w ondemand_state \<Rightarrow> bool"
  for os :: "'w pipe_os" where
  main: "MainThreadWork os (os_main s) (os_ctx s) (os_world s) = Some (ph, new, ctx, w) \<Longrightarrow>
     ondemand_step os s \<lparr>os_ctx = ctx, os_main = ph,
       os_threads = (case new of None \<Rightarrow> os_threads s | Some tid \<Rightarrow> (os_threads s)(tid \<mapsto> Started)), os_world = w\<rparr>"
| scan: "os_threads s tid = Some ph0 \<Longrightarrow> ScanThreadWork os tid ph0 (os_ctx s) (os_world s) = Some (ph, ctx, w) \<Longrightarrow>
     ondemand_step os s (s\<lparr>os_ctx := ctx, os_threads := (os_threads s)(tid \<mapsto> ph), os_world := w\<rparr>)"
| close: "Close_IHM_Connection os (os_ctx s) (os_world s) = (ret, ctx, w) \<Longrightarrow>
     ondemand_step os s (s\<lparr>os_ctx := ctx, os_main := Finished 0, os_world := w\<rparr>)"

inductive ondemand_reaches :: "'w pipe_os \<Rightarrow> 'w ondemand_state \<Rightarrow> 'w ondemand_state \<Rightarrow> bool"
  for os :: "'w pipe_os" where
  start: "ondemand_reaches os s s"
| step: "ondemand_reaches os s s1 \<Longrightarrow> ondemand_step os s1 s2 \<Longrightarrow> ondemand_reaches os s s2"

text \<open>The state in which the main thread waits for its first client.\<close>

definition first_state :: "'w \<Rightarrow> 'w ondemand_state" where
  "first_state w = \<lparr>os_ctx = \<lparr>oc_threads = Some (replicate SCAN_THREAD_COUNT zero_thread), oc_count = 0,
      oc_finalized = False, oc_main = Some (Some 0)\<rparr>,
    os_main = Listening 0, os_threads = Map.empty, os_world = w\<rparr>"

section \<open>The slots\<close>

text \<open>Every thread and every client uses the slot 0, and the others are never used.\<close>

definition first_slot_only :: "ondemand_ctx \<Rightarrow> bool" where
  "first_slot_only ctx \<longleftrightarrow> (\<forall>ts. oc_threads ctx = Some ts \<longrightarrow> length ts = SCAN_THREAD_COUNT \<and> (\<forall>i. 0 < i \<and> i < SCAN_THREAD_COUNT \<longrightarrow> ts ! i = zero_thread))"

definition phase_ok :: "scan_phase \<Rightarrow> bool" where
  "phase_ok ph \<longleftrightarrow> (\<forall>i r. ph = Ready i \<or> ph = Answering i r \<longrightarrow> i = 0)"

definition main_ok :: "main_phase \<Rightarrow> bool" where
  "main_ok ph \<longleftrightarrow> (\<forall>i q. ph = Listening i \<or> ph = Registering i q \<longrightarrow> i = 0)"

definition ondemand_inv :: "'w ondemand_state \<Rightarrow> bool" where
  "ondemand_inv s \<longleftrightarrow> first_slot_only (os_ctx s) \<and> main_ok (os_main s)
    \<and> (\<forall>tid ph. os_threads s tid = Some ph \<longrightarrow> tid \<noteq> 0 \<and> phase_ok ph)"

text \<open>Thread identifiers are not 0.\<close>

definition threads_law :: "'w pipe_os \<Rightarrow> bool" where
  "threads_law os \<longleftrightarrow> (\<forall>w h tid w1. po_thread os w = (Some (h, tid), w1) \<longrightarrow> tid \<noteq> 0)"

lemma first_slot_update:
  assumes "first_slot_only ctx" "oc_threads ctx = Some ts"
  shows "first_slot_only (ctx\<lparr>oc_threads := Some (ts[0 := t])\<rparr>)"
  using assms by (auto simp: first_slot_only_def)

lemma free_slot_first:
  assumes "first_slot_only ctx" "oc_threads ctx = Some ts" shows "free_slot ts 0 = 0"
proof -
  have "ts ! Suc 0 = zero_thread" "ts ! Suc (Suc 0) = zero_thread"
    using assms by (auto simp: first_slot_only_def SCAN_THREAD_COUNT_def)
  then show ?thesis
    by (simp add: free_slot_def SCAN_THREAD_COUNT_def upt_conv_Cons zero_thread_def numeral_2_eq_2)
qed

lemma slot_of_first:
  assumes "first_slot_only ctx" "oc_threads ctx = Some ts" "slot_of tid ts = Some i" "tid \<noteq> 0" shows "i = 0"
proof -
  have "ts ! Suc 0 = zero_thread" "ts ! Suc (Suc 0) = zero_thread"
    using assms(1,2) by (auto simp: first_slot_only_def SCAN_THREAD_COUNT_def)
  then show ?thesis
    using assms(3,4) by (simp add: slot_of_def SCAN_THREAD_COUNT_def upt_conv_Cons zero_thread_def numeral_2_eq_2 split: if_splits)
qed

lemma finally_first_slot:
  assumes "thread_finally os 0 ret ctx w = Some (ph, ctx1, w1)" "first_slot_only ctx"
  shows "first_slot_only ctx1 \<and> phase_ok ph"
  using assms by (auto simp: thread_finally_def first_slot_only_def phase_ok_def Let_def split: option.splits)

lemma scan_thread_first_slot:
  assumes "ScanThreadWork os tid ph ctx w = Some (ph1, ctx1, w1)" "first_slot_only ctx" "phase_ok ph" "tid \<noteq> 0"
  shows "first_slot_only ctx1 \<and> phase_ok ph1"
proof (cases ph)
  case Started
  note R = assms(1) [unfolded Started ScanThreadWork_def scan_phase.case thread_start_def]
  then obtain ts where ts: "oc_threads ctx = Some ts" by (auto split: option.splits)
  note slot = slot_of_first [OF assms(2) ts _ assms(4)]
  show ?thesis
  proof (cases "\<exists>ret. thread_finally os 0 ret ctx w = Some (ph1, ctx1, w1)")
    case True
    then show ?thesis by (elim exE) (rule finally_first_slot [OF _ assms(2)])
  next
    case False
    then show ?thesis
      using R ts assms(2) slot by (auto simp: phase_ok_def split: option.splits if_splits)
  qed
next
  case (Ready i)
  then have i: "i = 0" using assms(3) by (simp add: phase_ok_def)
  note R = assms(1) [unfolded Ready i ScanThreadWork_def scan_phase.case thread_read_def]
  show ?thesis
  proof (cases "thread_finally os 0 0 ctx w = Some (ph1, ctx1, w1)
      \<or> (\<exists>ret w2. thread_finally os 0 ret ctx w2 = Some (ph1, ctx1, w1))")
    case True
    then show ?thesis by (elim exE disjE) (rule finally_first_slot [OF _ assms(2)], assumption)+
  next
    case False
    then show ?thesis
      using R assms(2) by (auto simp: phase_ok_def split: option.splits prod.splits sum.splits if_splits)
  qed
next
  case (Answering i r)
  then have i: "i = 0" using assms(3) by (simp add: phase_ok_def)
  note R = assms(1) [unfolded Answering i ScanThreadWork_def scan_phase.case thread_answer_def]
  show ?thesis
  proof (cases "\<exists>ret w2. thread_finally os 0 ret ctx w2 = Some (ph1, ctx1, w1)")
    case True
    then show ?thesis by (elim exE disjE) (rule finally_first_slot [OF _ assms(2)], assumption)+
  next
    case False
    then show ?thesis
      using R assms(2) by (auto simp: phase_ok_def split: option.splits prod.splits bool.splits)
  qed
next
  case (Ended r)
  then show ?thesis using assms by (simp add: ScanThreadWork_def)
qed

lemma terminate_first_slot:
  "TerminateAllScanThreads os ctx w = (ret, ctx1, w1) \<Longrightarrow> first_slot_only ctx \<Longrightarrow> first_slot_only ctx1"
  by (auto simp: TerminateAllScanThreads_def first_slot_only_def Let_def split: option.splits)

lemma main_failed_first_slot:
  assumes "main_failed os ret ctx w = Some (ph, new, ctx1, w1)" "first_slot_only ctx"
  shows "first_slot_only ctx1 \<and> main_ok ph \<and> new = None"
  using assms terminate_first_slot [of os ctx w] by (auto simp: main_failed_def first_slot_only_def main_ok_def split: prod.splits)

lemma main_thread_first_slot:
  assumes "MainThreadWork os ph ctx w = Some (ph1, new, ctx1, w1)" "first_slot_only ctx" "main_ok ph" "threads_law os"
  shows "first_slot_only ctx1 \<and> main_ok ph1 \<and> new \<noteq> Some 0"
proof (cases ph)
  case (Listening i)
  then show ?thesis
    using assms main_failed_first_slot
    by (fastforce simp: MainThreadWork_def main_listen_def main_ok_def split: option.splits prod.splits bool.splits if_splits)
next
  case (Registering i q)
  then have i: "i = 0" using assms(3) by (simp add: main_ok_def)
  obtain ts where ts: "oc_threads ctx = Some ts"
    using assms(1) Registering by (auto simp: MainThreadWork_def main_register_def split: option.splits)
  note f = free_slot_first [OF assms(2) ts] and u = first_slot_update [OF assms(2) ts]
  let ?slot = "(ts ! 0)\<lparr>ot_pipe := Some q, ot_scan_id := 0\<rparr>"
  have R: "main_register os 0 q ctx w = Some (ph1, new, ctx1, w1)"
    using assms(1) Registering i by (simp add: MainThreadWork_def)
  show ?thesis
  proof (cases "po_thread os w")
    case (Pair th w2)
    show ?thesis
    proof (cases th)
      case None
      with Pair R ts f have "main_failed os (-5) (ctx\<lparr>oc_threads := Some (ts[0 := ?slot\<lparr>ot_handle := None\<rparr>])\<rparr>) w2
          = Some (ph1, new, ctx1, w1)"
        by (simp add: main_register_def Let_def)
      from main_failed_first_slot [OF this u] show ?thesis by simp
    next
      case (Some x)
      obtain h tid where x: "x = (h, tid)" by fastforce
      have tid: "tid \<noteq> 0" using assms(4) [unfolded threads_law_def, rule_format, of w h tid w2] Pair Some x by simp
      let ?ctx = "ctx\<lparr>oc_threads := Some (ts[0 := ?slot\<lparr>ot_handle := Some h, ot_thread_id := tid\<rparr>])\<rparr>"
      obtain ok w3 where ok: "po_resume os (Some h) w2 = (ok, w3)" by fastforce
      show ?thesis
      proof (cases ok)
        case False
        with ok Pair Some x R ts f have "main_failed os (-6) ?ctx w3 = Some (ph1, new, ctx1, w1)"
          by (simp add: main_register_def Let_def)
        from main_failed_first_slot [OF this u] show ?thesis by simp
      next
        case True
        with ok Pair Some x R ts f have "ph1 = Listening 0 \<and> new = Some tid \<and> ctx1 = ?ctx\<lparr>oc_count := oc_count ctx + 1\<rparr>"
          by (auto simp: main_register_def Let_def split: if_splits)
        with u tid show ?thesis by (auto simp: main_ok_def first_slot_only_def)
      qed
    qed
  qed
next
  case (Finished r)
  then show ?thesis using assms by (simp add: MainThreadWork_def)
qed

lemma close_first_slot:
  "Close_IHM_Connection os ctx w = (ret, ctx1, w1) \<Longrightarrow> first_slot_only ctx \<Longrightarrow> first_slot_only ctx1"
  using terminate_first_slot [of os ctx w]
  by (fastforce simp: Close_IHM_Connection_def first_slot_only_def split: prod.splits option.splits)

lemma ondemand_inv_step:
  assumes "ondemand_step os s s1" "ondemand_inv s" "threads_law os" shows "ondemand_inv s1"
  using assms(1)
proof (cases rule: ondemand_step.cases)
  case (main ph new ctx w)
  with main_thread_first_slot [OF main(2)] assms(2,3) show ?thesis
    by (auto simp: ondemand_inv_def phase_ok_def split: option.splits if_splits)
next
  case (scan tid ph0 ph ctx w)
  with scan_thread_first_slot [OF scan(3)] assms(2) show ?thesis
    by (auto simp: ondemand_inv_def split: if_splits)
next
  case (close ret ctx w)
  with close_first_slot [OF close(2)] assms(2) show ?thesis
    by (auto simp: ondemand_inv_def main_ok_def)
qed

lemma ondemand_inv_reaches:
  assumes "ondemand_reaches os s s1" "ondemand_inv s" "threads_law os" shows "ondemand_inv s1"
  using assms by (induction rule: ondemand_reaches.induct) (auto intro: ondemand_inv_step)

lemma first_state_inv: "ondemand_inv (first_state w)"
  by (simp add: ondemand_inv_def first_state_def first_slot_only_def main_ok_def SCAN_THREAD_COUNT_def)

text \<open>
  In every reachable state all clients have been registered in the slot 0, and every scan thread works
  on it: the search for a slot looks for one that is in use. The two other slots are never used.
\<close>

theorem one_slot_for_all_clients:
  assumes "ondemand_reaches os (first_state w) s" "threads_law os"
  shows "(oc_threads (os_ctx s) = Some ts \<longrightarrow> length ts = 3 \<and> ts ! 1 = zero_thread \<and> ts ! 2 = zero_thread)
    \<and> (os_threads s tid = Some (Ready i) \<or> os_threads s tid = Some (Answering i r) \<longrightarrow> i = 0)
    \<and> (os_main s = Registering j q \<longrightarrow> j = 0)"
proof -
  have inv: "ondemand_inv s"
    using ondemand_inv_reaches [OF assms(1) first_state_inv assms(2)] .
  then have "os_threads s tid = Some ph \<Longrightarrow> phase_ok ph" for ph
    by (simp add: ondemand_inv_def)
  with inv show ?thesis
    by (auto simp: ondemand_inv_def first_slot_only_def main_ok_def phase_ok_def SCAN_THREAD_COUNT_def)
qed

lemma registered_in_first:
  assumes "ondemand_inv s" "os_main s = Registering j q"
    and "MainThreadWork os (os_main s) (os_ctx s) (os_world s) = Some (Listening k, new, ctx, w1)"
  obtains ts where "oc_threads ctx = Some ts" "ot_pipe (ts ! 0) = Some q"
proof -
  have j: "j = 0" and f: "first_slot_only (os_ctx s)"
    using assms(1,2) by (auto simp: ondemand_inv_def main_ok_def)
  have R: "main_register os 0 q (os_ctx s) (os_world s) = Some (Listening k, new, ctx, w1)"
    using assms(2,3) j by (simp add: MainThreadWork_def)
  obtain ts where ts: "oc_threads (os_ctx s) = Some ts"
    using R by (auto simp: main_register_def split: option.splits)
  have "0 < length ts" using f ts by (simp add: first_slot_only_def SCAN_THREAD_COUNT_def)
  then show thesis
    using R ts free_slot_first [OF f ts] that
    by (auto simp: main_register_def main_failed_def Let_def split: option.splits prod.splits bool.splits if_splits)
qed

text \<open>
  A finding: an answer goes to whoever connected last. When a client is registered while the answer to
  another client is being computed, the answer is written to the pipe of the new client.
\<close>

theorem answer_reaches_last_client:
  assumes "ondemand_reaches os (first_state w) s" "threads_law os"
    and "os_threads s tid = Some (Answering i response)" "os_main s = Registering j q"
    and "MainThreadWork os (os_main s) (os_ctx s) (os_world s) = Some (Listening k, new, ctx, w1)"
  shows "ScanThreadWork os tid (Answering i response) ctx w1 = (case po_write os (Some q) response w1 of
      (False, w2) \<Rightarrow> thread_finally os i (-9) ctx w2
    | (True, w2) \<Rightarrow> Some (Ready i, ctx, po_process os w2))"
proof -
  have inv: "ondemand_inv s"
    using ondemand_inv_reaches [OF assms(1) first_state_inv assms(2)] .
  then have "i = 0" using assms(3) by (auto simp: ondemand_inv_def phase_ok_def)
  moreover obtain ts where "oc_threads ctx = Some ts" "ot_pipe (ts ! 0) = Some q"
    using registered_in_first [OF inv assms(4,5)] .
  ultimately show ?thesis by (auto simp: ScanThreadWork_def thread_answer_def split: prod.splits bool.splits)
qed

text \<open>
  A finding: the threads are never waited for when the scans are ended. The wait is given NULL for the
  slots that are not used, which makes it fail, and there are always such slots; the slots are then freed
  and every thread that is still running accesses freed memory with its next step.
\<close>

theorem termination_does_not_wait:
  assumes "ondemand_reaches os (first_state w) s" "threads_law os"
    and "oc_threads (os_ctx s) = Some ts" "\<And>hs v. None \<in> set hs \<Longrightarrow> po_wait os hs v = (False, v)"
    and "os_threads s tid = Some ph" "\<And>r. ph \<noteq> Ended r"
  shows "TerminateAllScanThreads os (os_ctx s) v
      = (0, (os_ctx s)\<lparr>oc_finalized := True, oc_threads := None\<rparr>, fold (\<lambda>t. po_close os (ot_pipe t)) (used_slots ts) v)
    \<and> ScanThreadWork os tid ph ((os_ctx s)\<lparr>oc_finalized := True, oc_threads := None\<rparr>) v1 = None"
proof -
  have "first_slot_only (os_ctx s)"
    using ondemand_inv_reaches [OF assms(1) first_state_inv assms(2)] by (simp add: ondemand_inv_def)
  then have "length ts = 3" "ts ! 1 = zero_thread"
    using assms(3) by (auto simp: first_slot_only_def SCAN_THREAD_COUNT_def)
  then have "zero_thread \<in> set ts" using nth_mem [of 1 ts] by simp
  then have "None \<in> set (map ot_handle ts)" by (force simp: zero_thread_def)
  then have "TerminateAllScanThreads os (os_ctx s) v
      = (0, (os_ctx s)\<lparr>oc_finalized := True, oc_threads := None\<rparr>, fold (\<lambda>t. po_close os (ot_pipe t)) (used_slots ts) v)"
    using assms(3,4) by (simp add: TerminateAllScanThreads_def Let_def)
  moreover have "ScanThreadWork os tid ph ((os_ctx s)\<lparr>oc_finalized := True, oc_threads := None\<rparr>) v1 = None"
    using assms(6) by (cases ph) (auto simp: ScanThreadWork_def thread_start_def thread_read_def thread_answer_def thread_finally_def)
  ultimately show ?thesis by blast
qed

text \<open>
  A finding: when the main thread cannot be created or resumed, the error handling dereferences the
  slots, which are not allocated yet.
\<close>

theorem failed_start_faults:
  assumes "po_thread os w = (th, w1)" "po_resume os (map_option fst th) w1 = (False, w2)"
  shows "Start_IHM_Connection os True w = None"
  using assms by (simp add: Start_IHM_Connection_def Let_def)

section \<open>Witnesses\<close>

text \<open>Calls that succeed; the world counts the threads, and the pipes are numbered from 10.\<close>

definition sample_pipes :: "nat pipe_os" where
  "sample_pipes = \<lparr>po_security = (\<lambda>w. True), po_create = (\<lambda>w. (Some (10 + w), w)), po_connect = (\<lambda>q w. (True, w)),
     po_thread = (\<lambda>w. (Some (w, if w = 0 then 1 else 2), Suc w)), po_resume = (\<lambda>h w. (True, w)),
     po_terminate = (\<lambda>h w. w), po_wait = (\<lambda>hs w. (None \<notin> set hs, w)), po_wow64 = (\<lambda>w. True),
     po_read = (\<lambda>q w. (Some ''request'', w)), po_write = (\<lambda>q r w. (True, w)), po_response = (\<lambda>r w. (Inr ''answer'', w)),
     po_process = (\<lambda>w. w), po_disconnect = (\<lambda>q w. w), po_close = (\<lambda>q w. w)\<rparr>"

lemma sample_threads_law: "threads_law sample_pipes"
  by (simp add: threads_law_def sample_pipes_def)

text \<open>The first client is served by the thread 1, whose answer is ready when a second client has connected.\<close>

definition first_slot :: ondemand_thread where
  "first_slot = zero_thread\<lparr>ot_handle := Some 0, ot_thread_id := 1, ot_pipe := Some 10\<rparr>"

definition second_connects :: "nat ondemand_state" where
  "second_connects = \<lparr>os_ctx = \<lparr>oc_threads = Some [first_slot, zero_thread, zero_thread], oc_count = 1,
      oc_finalized = False, oc_main = Some (Some 0)\<rparr>,
    os_main = Registering 0 11, os_threads = [1 \<mapsto> Answering 0 ''answer''], os_world = 1\<rparr>"

lemma second_connects_reached: "ondemand_reaches sample_pipes (first_state 0) second_connects"
proof -
  let ?zero = "\<lparr>oc_threads = Some (replicate SCAN_THREAD_COUNT zero_thread), oc_count = 0, oc_finalized = False, oc_main = Some (Some 0)\<rparr>"
  let ?ctx = "\<lparr>oc_threads = Some [first_slot, zero_thread, zero_thread], oc_count = 1, oc_finalized = False, oc_main = Some (Some 0)\<rparr>"
  let ?s = "\<lambda>m t. \<lparr>os_ctx = ?ctx, os_main = m, os_threads = t, os_world = 1\<rparr>"
  let ?s1 = "\<lparr>os_ctx = ?zero, os_main = Registering 0 10, os_threads = Map.empty, os_world = 0 :: nat\<rparr>"
  note slots = SCAN_THREAD_COUNT_def numeral_3_eq_3 free_slot_def slot_of_def zero_thread_def first_slot_def Let_def
  have m1: "MainThreadWork sample_pipes (Listening 0) ?zero 0 = Some (Registering 0 10, None, ?zero, 0)"
    by (simp add: MainThreadWork_def main_listen_def sample_pipes_def SCAN_THREAD_COUNT_def)
  have m2: "MainThreadWork sample_pipes (Registering 0 10) ?zero 0 = Some (Listening 0, Some 1, ?ctx, 1)"
    by (simp add: MainThreadWork_def main_register_def sample_pipes_def slots)
  have t1: "ScanThreadWork sample_pipes 1 Started ?ctx 1 = Some (Ready 0, ?ctx, 1)"
    by (simp add: ScanThreadWork_def thread_start_def sample_pipes_def slots)
  have t2: "ScanThreadWork sample_pipes 1 (Ready 0) ?ctx 1 = Some (Answering 0 ''answer'', ?ctx, 1)"
    by (simp add: ScanThreadWork_def thread_read_def sample_pipes_def)
  have m3: "MainThreadWork sample_pipes (Listening 0) ?ctx 1 = Some (Registering 0 11, None, ?ctx, 1)"
    by (simp add: MainThreadWork_def main_listen_def sample_pipes_def SCAN_THREAD_COUNT_def)
  have "ondemand_step sample_pipes (first_state 0) ?s1"
    using ondemand_step.main [of sample_pipes "first_state 0"] m1 by (simp add: first_state_def)
  moreover have "ondemand_step sample_pipes ?s1 (?s (Listening 0) [1 \<mapsto> Started])"
    using ondemand_step.main [of sample_pipes ?s1] m2 by simp
  moreover have "ondemand_step sample_pipes (?s (Listening 0) [1 \<mapsto> Started]) (?s (Listening 0) [1 \<mapsto> Ready 0])"
    using ondemand_step.scan [of "?s (Listening 0) [1 \<mapsto> Started]" 1 Started sample_pipes] t1 by simp
  moreover have "ondemand_step sample_pipes (?s (Listening 0) [1 \<mapsto> Ready 0]) (?s (Listening 0) [1 \<mapsto> Answering 0 ''answer''])"
    using ondemand_step.scan [of "?s (Listening 0) [1 \<mapsto> Ready 0]" 1 "Ready 0" sample_pipes] t2 by simp
  moreover have "ondemand_step sample_pipes (?s (Listening 0) [1 \<mapsto> Answering 0 ''answer'']) second_connects"
    using ondemand_step.main [of sample_pipes "?s (Listening 0) [1 \<mapsto> Answering 0 ''answer'']"] m3
    by (simp add: second_connects_def)
  ultimately show ?thesis
    by (meson ondemand_reaches.start ondemand_reaches.step)
qed

theorem one_slot_for_all_clients_witness:
  "length [first_slot, zero_thread, zero_thread] = 3 \<and> [first_slot, zero_thread, zero_thread] ! 2 = zero_thread"
  using one_slot_for_all_clients [OF second_connects_reached sample_threads_law, of "[first_slot, zero_thread, zero_thread]"]
  by (simp add: second_connects_def)

theorem answer_reaches_last_client_witness:
  "\<exists>ctx. ScanThreadWork sample_pipes 1 (Answering 0 ''answer'') ctx 2 = (case po_write sample_pipes (Some 11) ''answer'' 2 of
      (False, w2) \<Rightarrow> thread_finally sample_pipes 0 (-9) ctx w2
    | (True, w2) \<Rightarrow> Some (Ready 0, ctx, po_process sample_pipes w2))"
proof -
  let ?slot = "first_slot\<lparr>ot_pipe := Some 11, ot_handle := Some 1, ot_thread_id := 2\<rparr>"
  have "MainThreadWork sample_pipes (os_main second_connects) (os_ctx second_connects) (os_world second_connects)
    = Some (Listening 0, Some 2, (os_ctx second_connects)\<lparr>oc_threads := Some [?slot, zero_thread, zero_thread], oc_count := 2\<rparr>, 2)"
    by (simp add: MainThreadWork_def main_register_def sample_pipes_def second_connects_def SCAN_THREAD_COUNT_def
        numeral_3_eq_3 free_slot_def zero_thread_def first_slot_def Let_def)
  from answer_reaches_last_client [OF second_connects_reached sample_threads_law _ _ this, of 1 0 "''answer''" 0 11]
  show ?thesis
    by (intro exI [of _ "(os_ctx second_connects)\<lparr>oc_threads := Some [?slot, zero_thread, zero_thread], oc_count := 2\<rparr>"])
      (simp add: second_connects_def)
qed

theorem termination_does_not_wait_witness:
  "fst (TerminateAllScanThreads sample_pipes (os_ctx second_connects) 1) = 0
    \<and> ScanThreadWork sample_pipes 1 (Answering 0 ''answer'') ((os_ctx second_connects)\<lparr>oc_finalized := True, oc_threads := None\<rparr>) 1 = None"
  using termination_does_not_wait [OF second_connects_reached sample_threads_law, of "[first_slot, zero_thread, zero_thread]" 1
      "Answering 0 ''answer''" 1 1]
  by (simp add: second_connects_def) (simp add: sample_pipes_def)

theorem failed_start_faults_witness:
  "Start_IHM_Connection (sample_pipes\<lparr>po_resume := \<lambda>h w. (False, w)\<rparr>) True 0 = None"
  by (rule failed_start_faults) (simp_all add: sample_pipes_def)

end
