(* ===== verification/Service.thy ===== *)
theory Service
  imports WinOnAccess WinOnDemand Conf
begin

text \<open>
  The Windows service, \<open>arch/windows/service/service.c\<close>: loading and unloading the protection, the control
  handler, and the commands that start, stop, pause and continue the service through the service manager.
  The service manager, the library and the registry keys of the installation are arguments; the two parts
  of the protection are those of theories \<open>WinOnAccess\<close> and \<open>WinOnDemand\<close>.
\<close>

section \<open>Loading and unloading\<close>

datatype start_mode = SVC_MODE | GUI_ONLY

text \<open>
  The path of the configuration file, the configuration loaded from it, \<open>a6o_open\<close> with the data of the
  on-access module when the library has opened, \<open>a6o_close\<close>, and the notifications.
\<close>

record 'w library_os =
  lo_conf_file :: cstr
  lo_load :: "string \<Rightarrow> 'w \<Rightarrow> a6o_conf \<times> 'w"
  lo_open :: "a6o_conf \<Rightarrow> 'w \<Rightarrow> onaccess_data option option \<times> 'w"
  lo_close :: "'w \<Rightarrow> 'w"
  lo_notify :: "string \<Rightarrow> 'w \<Rightarrow> 'w"
  lo_filter :: "'w filter_os"
  lo_pipes :: "'w pipe_os"

text \<open>The global context: the library, the on-access protection with the data of its module, and the clients.\<close>

record global_ctx =
  gs_armadito :: bool
  gs_scan :: scan_ctx
  gs_on_demand :: "ondemand_ctx option"

definition no_ctx :: global_ctx where
  "no_ctx = \<lparr>gs_armadito = False, gs_scan = \<lparr>gc_on_access = None, gc_module = None\<rparr>, gs_on_demand = None\<rparr>"

text \<open>
  The value \<open>-1\<close> of a key that is missing is a number that is not 0 in the unsigned variable, as any other
  than 0.
\<close>

definition ServiceLoadProcedure ::
  "'w library_os \<Rightarrow> start_mode \<Rightarrow> global_ctx \<Rightarrow> 'w \<Rightarrow> (int \<times> global_ctx \<times> 'w) option" where
  "ServiceLoadProcedure os mode g w = (case lo_conf_file os of
       None \<Rightarrow> Some (-3, g, w)
     | Some conffile \<Rightarrow>
         (case lo_load os conffile w of (conf, w1) \<Rightarrow>
           (case lo_open os conf w1 of
              (None, w2) \<Rightarrow> Some (-1, g, w2)
            | (Some data, w2) \<Rightarrow>
                (let c = \<lparr>gc_on_access = None, gc_module = data\<rparr>;
                     onaccess_enable = a6o_conf_get_uint conf ''on-access'' ''enable'';
                     (ok, c1, w3) = (if onaccess_enable \<noteq> 0 \<and> mode = SVC_MODE then UserScanInit (lo_filter os) c w2
                       else (True, c, w2));
                     g1 = \<lparr>gs_armadito = True, gs_scan = c1, gs_on_demand = None\<rparr>
                 in if \<not> ok then Some (-2, g1, w3)
                    else (case Start_IHM_Connection (lo_pipes os) True w3 of
                        None \<Rightarrow> None
                      | Some (r, ctx, w4) \<Rightarrow>
                          if r < 0 then Some (-3, g1\<lparr>gs_on_demand := ctx\<rparr>, w4)
                          else Some (0, g1\<lparr>gs_on_demand := ctx\<rparr>, lo_notify os ''Service started!'' w4))))))"

definition ServiceUnloadProcedure ::
  "'w library_os \<Rightarrow> global_ctx \<Rightarrow> 'w \<Rightarrow> (int \<times> global_ctx \<times> 'w) option" where
  "ServiceUnloadProcedure os g w =
    (case (if gc_on_access (gs_scan g) = None then Some (0, w)
           else map_option (\<lambda>(ok, c1, w1). (if ok then 0 else -1, w1)) (UserScanFinalize (lo_filter os) (gs_scan g) w)) of
       None \<Rightarrow> None
     | Some (ret, w1) \<Rightarrow>
         (let (ret2, w2) = (case gs_on_demand g of
                None \<Rightarrow> (ret, w1)
              | Some ctx \<Rightarrow> (case Close_IHM_Connection (lo_pipes os) ctx w1 of (r, _, w2) \<Rightarrow> (r, w2)));
              w3 = (if gs_armadito g then lo_close os w2 else w2)
          in Some (ret2, no_ctx, lo_notify os ''Service stopped!'' w3)))"

section \<open>The status of the service\<close>

datatype svc_state = SERVICE_STOPPED | SERVICE_START_PENDING | SERVICE_STOP_PENDING | SERVICE_RUNNING
  | SERVICE_CONTINUE_PENDING | SERVICE_PAUSE_PENDING | SERVICE_PAUSED

record svc_status =
  ss_state :: svc_state
  ss_accepts :: bool
  ss_check_point :: u32
  ss_wait_hint :: u32

text \<open>The status, the next check point, which is static, and the statuses that were reported.\<close>

record svc_report =
  sr_next_check_point :: u32
  sr_reported :: "svc_status list"

definition ReportSvcStatus :: "svc_state \<Rightarrow> u32 \<Rightarrow> svc_report \<Rightarrow> svc_report" where
  "ReportSvcStatus st hint r =
    (let settled = (st = SERVICE_RUNNING \<or> st = SERVICE_STOPPED);
         status = \<lparr>ss_state = st, ss_accepts = (st \<noteq> SERVICE_START_PENDING),
           ss_check_point = (if settled then 0 else sr_next_check_point r), ss_wait_hint = hint\<rparr>
     in \<lparr>sr_next_check_point = (if settled then sr_next_check_point r else sr_next_check_point r + 1),
         sr_reported = sr_reported r @ [status]\<rparr>)"

section \<open>Commands to the service manager\<close>

text \<open>
  Opening the manager and the service, querying the state with its wait hint and check point, sending a
  control, starting, creating and deleting the service, sleeping, and the clock in milliseconds.
\<close>

datatype svc_control = CONTROL_STOP | CONTROL_PAUSE | CONTROL_CONTINUE | CONTROL_INTERROGATE

record 'w manager_os =
  mo_manager :: "'w \<Rightarrow> bool \<times> 'w"
  mo_service :: "'w \<Rightarrow> bool \<times> 'w"
  mo_query :: "'w \<Rightarrow> svc_status option \<times> 'w"
  mo_control :: "svc_control \<Rightarrow> 'w \<Rightarrow> svc_status option \<times> 'w"
  mo_start :: "'w \<Rightarrow> bool \<times> 'w"
  mo_create :: "'w \<Rightarrow> bool \<times> 'w"
  mo_delete :: "'w \<Rightarrow> bool \<times> 'w"
  mo_module_file :: bool
  mo_registry :: "'w \<Rightarrow> int \<times> 'w"
  mo_unregister :: "'w \<Rightarrow> 'w"
  mo_sleep :: "u32 \<Rightarrow> 'w \<Rightarrow> 'w"
  mo_tick :: "'w \<Rightarrow> u32"

definition TIMEOUT :: u32 where "TIMEOUT = 10000"

text \<open>
  Waiting until the service is in a state; \<open>goal\<close> ends the loop before a query and \<open>reached\<close> after one.
  \<open>None\<close> is no fuel left.
\<close>

datatype wait_result = Reached | QueryFailed | TimedOut

fun wait_state :: "'w manager_os \<Rightarrow> svc_state \<Rightarrow> svc_state \<Rightarrow> u32 \<Rightarrow> nat \<Rightarrow> svc_status \<Rightarrow> 'w \<Rightarrow> (wait_result \<times> 'w) option" where
  "wait_state os goal reached start 0 st w = None"
| "wait_state os goal reached start (Suc n) st w =
    (if ss_state st = goal then Some (Reached, w)
     else case mo_query os (mo_sleep os (ss_wait_hint st) w) of
         (None, w1) \<Rightarrow> Some (QueryFailed, w1)
       | (Some st1, w1) \<Rightarrow>
           if ss_state st1 = reached then Some (Reached, w1)
           else if mo_tick os w1 - start > TIMEOUT then Some (TimedOut, w1)
           else wait_state os goal reached start n st1 w1)"

text \<open>A pending stop is waited for without a limit and without sleeping; the state after it, if any.\<close>

fun stop_pending :: "'w manager_os \<Rightarrow> nat \<Rightarrow> svc_status \<Rightarrow> 'w \<Rightarrow> (svc_status option \<times> 'w) option" where
  "stop_pending os 0 st w = None"
| "stop_pending os (Suc n) st w =
    (if ss_state st \<noteq> SERVICE_STOP_PENDING then Some (Some st, w)
     else case mo_query os w of
         (None, w1) \<Rightarrow> Some (None, w1)
       | (Some st1, w1) \<Rightarrow> if ss_state st1 = SERVICE_STOPPED then Some (None, w1) else stop_pending os n st1 w1)"

text \<open>
  \<open>ServiceStop\<close>. The inner option of the result is a fault of the unloading, the outer one no fuel left;
  the flag says whether the service has stopped.
\<close>

definition ServiceStop ::
  "'w library_os \<Rightarrow> 'w manager_os \<Rightarrow> nat \<Rightarrow> global_ctx \<Rightarrow> 'w \<Rightarrow> (bool \<times> global_ctx \<times> 'w) option option" where
  "ServiceStop lib os fuel g w = (let start = mo_tick os w in
    case mo_manager os w of
      (False, w1) \<Rightarrow> Some (Some (False, g, w1))
    | (True, w1) \<Rightarrow> (case mo_service os w1 of
        (False, w2) \<Rightarrow> Some (Some (False, g, w2))
      | (True, w2) \<Rightarrow> (case mo_query os w2 of
          (None, w3) \<Rightarrow> Some (Some (False, g, w3))
        | (Some st, w3) \<Rightarrow>
            if ss_state st = SERVICE_STOPPED then Some (Some (True, g, w3))
            else (case stop_pending os fuel st w3 of
                None \<Rightarrow> None
              | Some (None, w4) \<Rightarrow> Some (Some (False, g, w4))
              | Some (Some st1, w4) \<Rightarrow>
                  (case ServiceUnloadProcedure lib g w4 of
                     None \<Rightarrow> Some None
                   | Some (ret, g1, w5) \<Rightarrow>
                       (case mo_control os CONTROL_STOP w5 of
                          (None, w6) \<Rightarrow> Some (Some (False, g1, w6))
                        | (Some st2, w6) \<Rightarrow>
                            map_option (\<lambda>(r, w7). Some (r = Reached, g1, w7))
                              (wait_state os SERVICE_STOPPED SERVICE_STOPPED start fuel st2 w6)))))))"

text \<open>\<open>ServicePause\<close> and \<open>ServiceContinue\<close> differ in the state they need, the control and the states they wait for.\<close>

definition control_service ::
  "'w manager_os \<Rightarrow> svc_state \<Rightarrow> svc_control \<Rightarrow> svc_state \<Rightarrow> svc_state \<Rightarrow> nat \<Rightarrow> 'w \<Rightarrow> (int \<times> 'w) option" where
  "control_service os needed ctrl goal reached fuel w = (let start = mo_tick os w in
    case mo_manager os w of
      (False, w1) \<Rightarrow> Some (-1, w1)
    | (True, w1) \<Rightarrow> (case mo_service os w1 of
        (False, w2) \<Rightarrow> Some (-2, w2)
      | (True, w2) \<Rightarrow> (case mo_query os w2 of
          (None, w3) \<Rightarrow> Some (-3, w3)
        | (Some st, w3) \<Rightarrow>
            if ss_state st \<noteq> needed then Some (-4, w3)
            else (case mo_control os ctrl w3 of
                (None, w4) \<Rightarrow> Some (-5, w4)
              | (Some st1, w4) \<Rightarrow>
                  map_option (\<lambda>(r, w5). (case r of Reached \<Rightarrow> 0 | QueryFailed \<Rightarrow> -6 | TimedOut \<Rightarrow> -7, w5))
                    (wait_state os goal reached start fuel st1 w4)))))"

definition ServicePause :: "'w manager_os \<Rightarrow> nat \<Rightarrow> 'w \<Rightarrow> (int \<times> 'w) option" where
  "ServicePause os = control_service os SERVICE_RUNNING CONTROL_PAUSE SERVICE_STOPPED SERVICE_PAUSED"

definition ServiceContinue :: "'w manager_os \<Rightarrow> nat \<Rightarrow> 'w \<Rightarrow> (int \<times> 'w) option" where
  "ServiceContinue os = control_service os SERVICE_PAUSED CONTROL_CONTINUE SERVICE_RUNNING SERVICE_RUNNING"

text \<open>The time to wait for the start, from the hint.\<close>

definition wait_time :: "u32 \<Rightarrow> u32" where
  "wait_time hint = (let t = hint div 10 in if t < 1000 then 1000 else if t > 10000 then 10000 else t)"

fun wait_start :: "'w manager_os \<Rightarrow> nat \<Rightarrow> u32 \<Rightarrow> u32 \<Rightarrow> svc_status \<Rightarrow> 'w \<Rightarrow> (svc_status \<times> 'w) option" where
  "wait_start os 0 start old st w = None"
| "wait_start os (Suc n) start old st w =
    (if ss_state st \<noteq> SERVICE_START_PENDING then Some (st, w)
     else case mo_query os (mo_sleep os (wait_time (ss_wait_hint st)) w) of
         (None, w1) \<Rightarrow> Some (st, w1)
       | (Some st1, w1) \<Rightarrow>
           if ss_check_point st1 > old then wait_start os n (mo_tick os w1) (ss_check_point st1) st1 w1
           else if mo_tick os w1 - start > ss_wait_hint st1 then Some (st1, w1)
           else wait_start os n start old st1 w1)"

text \<open>Whether the service runs at the end, which is only printed.\<close>

definition ServiceLaunch :: "'w manager_os \<Rightarrow> nat \<Rightarrow> 'w \<Rightarrow> (bool \<times> 'w) option" where
  "ServiceLaunch os fuel w = (case mo_manager os w of
      (False, w1) \<Rightarrow> Some (False, w1)
    | (True, w1) \<Rightarrow> (case mo_service os w1 of
        (False, w2) \<Rightarrow> Some (False, w2)
      | (True, w2) \<Rightarrow> (case mo_query os w2 of
          (None, w3) \<Rightarrow> Some (False, w3)
        | (Some st, w3) \<Rightarrow>
            if ss_state st \<noteq> SERVICE_STOPPED \<and> ss_state st \<noteq> SERVICE_STOP_PENDING then Some (False, w3)
            else (case mo_start os w3 of
                (False, w4) \<Rightarrow> Some (False, w4)
              | (True, w4) \<Rightarrow> (case mo_query os w4 of
                  (None, w5) \<Rightarrow> Some (False, w5)
                | (Some st1, w5) \<Rightarrow>
                    map_option (\<lambda>(st2, w6). (ss_state st2 = SERVICE_RUNNING, w6))
                      (wait_start os fuel (mo_tick os w5) (ss_check_point st1) st1 w5))))))"

definition ServiceInstall :: "'w manager_os \<Rightarrow> 'w \<Rightarrow> int \<times> 'w" where
  "ServiceInstall os w = (if \<not> mo_module_file os then (-1, w)
    else case mo_manager os w of
      (False, w1) \<Rightarrow> (-1, w1)
    | (True, w1) \<Rightarrow> (case mo_create os w1 of
        (False, w2) \<Rightarrow> (-1, w2)
      | (True, w2) \<Rightarrow> (case mo_registry os w2 of (r, w3) \<Rightarrow> (if r < 0 then -1 else 0, w3))))"

definition ServiceRemove ::
  "'w library_os \<Rightarrow> 'w manager_os \<Rightarrow> nat \<Rightarrow> global_ctx \<Rightarrow> 'w \<Rightarrow> (int \<times> global_ctx \<times> 'w) option option" where
  "ServiceRemove lib os fuel g w = (case mo_manager os w of
      (False, w1) \<Rightarrow> Some (Some (-1, g, w1))
    | (True, w1) \<Rightarrow> (case mo_service os w1 of
        (False, w2) \<Rightarrow> Some (Some (-1, g, w2))
      | (True, w2) \<Rightarrow> (case mo_query os w2 of
          (None, w3) \<Rightarrow> Some (Some (-1, g, w3))
        | (Some st, w3) \<Rightarrow>
            (case (if ss_state st = SERVICE_RUNNING \<or> ss_state st = SERVICE_START_PENDING
                   then map_option (map_option snd) (ServiceStop lib os fuel g w3) else Some (Some (g, w3))) of
               None \<Rightarrow> None
             | Some None \<Rightarrow> Some None
             | Some (Some (g1, w4)) \<Rightarrow>
                 (case mo_delete os w4 of
                    (False, w5) \<Rightarrow> Some (Some (-1, g1, w5))
                  | (True, w5) \<Rightarrow> Some (Some (0, g1, mo_unregister os w5)))))))"

section \<open>The service process\<close>

text \<open>
  The control handler. The result is the report and the context, or a fault inside. A service that cannot
  be loaded again stops itself.
\<close>

definition ServiceCtrlHandler ::
  "'w library_os \<Rightarrow> 'w manager_os \<Rightarrow> nat \<Rightarrow> svc_control
    \<Rightarrow> svc_report \<Rightarrow> global_ctx \<Rightarrow> 'w \<Rightarrow> (svc_report \<times> global_ctx \<times> 'w) option option" where
  "ServiceCtrlHandler lib os fuel ctrl r g w = (case ctrl of
       CONTROL_PAUSE \<Rightarrow>
         (let r1 = ReportSvcStatus SERVICE_PAUSE_PENDING 0 r
          in case ServiceUnloadProcedure lib g w of
               None \<Rightarrow> Some None
             | Some (ret, g1, w1) \<Rightarrow> Some (Some (ReportSvcStatus SERVICE_PAUSED 0 r1, g1, w1)))
     | CONTROL_CONTINUE \<Rightarrow>
         (let r1 = ReportSvcStatus SERVICE_RUNNING 0 (ReportSvcStatus SERVICE_START_PENDING 0 r)
          in case ServiceLoadProcedure lib SVC_MODE g w of
               None \<Rightarrow> Some None
             | Some (ret, g1, w1) \<Rightarrow>
                 if ret < 0 then map_option (map_option (\<lambda>(_, g2, w2). (r1, g2, w2))) (ServiceStop lib os fuel g1 w1)
                 else Some (Some (r1, g1, w1)))
     | CONTROL_STOP \<Rightarrow>
         (let r1 = ReportSvcStatus SERVICE_STOP_PENDING 0 r
          in case ServiceUnloadProcedure lib g w of
               None \<Rightarrow> Some None
             | Some (ret, g1, w1) \<Rightarrow> Some (Some (ReportSvcStatus SERVICE_STOPPED 0 r1, g1, w1)))
     | CONTROL_INTERROGATE \<Rightarrow> Some (Some (r, g, w)))"

definition PerformServiceAction ::
  "'w library_os \<Rightarrow> 'w manager_os \<Rightarrow> nat \<Rightarrow> global_ctx \<Rightarrow> 'w
    \<Rightarrow> (global_ctx \<times> 'w) option option" where
  "PerformServiceAction lib os fuel g w = (case ServiceLoadProcedure lib SVC_MODE g w of
       None \<Rightarrow> Some None
     | Some (ret, g1, w1) \<Rightarrow>
         if ret < 0 then map_option (map_option snd) (ServiceStop lib os fuel g1 w1) else Some (Some (g1, w1)))"

definition ServiceInit :: "bool \<Rightarrow> svc_report \<Rightarrow> svc_report" where
  "ServiceInit stop_event r = (if \<not> stop_event then ReportSvcStatus SERVICE_STOPPED 0 r else ReportSvcStatus SERVICE_RUNNING 0 r)"

text \<open>The service is loaded also when its event could not be created and it is reported as stopped.\<close>

definition ServiceMain ::
  "'w library_os \<Rightarrow> 'w manager_os \<Rightarrow> nat \<Rightarrow> bool \<Rightarrow> bool
    \<Rightarrow> svc_report \<Rightarrow> global_ctx \<Rightarrow> 'w \<Rightarrow> (svc_report \<times> global_ctx \<times> 'w) option option" where
  "ServiceMain lib os fuel handler stop_event r g w =
    (if \<not> handler then map_option (map_option (\<lambda>(_, g1, w1). (r, g1, w1))) (ServiceStop lib os fuel g w)
     else (let r1 = ServiceInit stop_event (ReportSvcStatus SERVICE_START_PENDING 3000 r)
           in map_option (map_option (\<lambda>(g1, w1). (r1, g1, w1))) (PerformServiceAction lib os fuel g w)))"

text \<open>The service at the command line, on the keys that are pressed; \<open>None\<close> when a load or unload faults.\<close>

fun cmdline_keys ::
  "'w library_os \<Rightarrow> start_mode \<Rightarrow> string \<Rightarrow> global_ctx \<Rightarrow> 'w \<Rightarrow> (global_ctx \<times> 'w) option" where
  "cmdline_keys lib mode [] g w = Some (g, w)"
| "cmdline_keys lib mode (c # cs) g w =
    (if c = CHR ''q'' then Some (g, w)
     else if c = CHR ''p'' then
       (case ServiceUnloadProcedure lib g w of
          None \<Rightarrow> None
        | Some (ret, g1, w1) \<Rightarrow> if ret \<noteq> 0 then Some (g1, w1) else cmdline_keys lib mode cs g1 w1)
     else if c = CHR ''c'' then
       (case ServiceLoadProcedure lib mode g w of
          None \<Rightarrow> None
        | Some (ret, g1, w1) \<Rightarrow> cmdline_keys lib mode cs g1 w1)
     else cmdline_keys lib mode cs g w)"

definition LaunchCmdLineService ::
  "'w library_os \<Rightarrow> start_mode \<Rightarrow> string \<Rightarrow> global_ctx \<Rightarrow> 'w \<Rightarrow> (global_ctx \<times> 'w) option" where
  "LaunchCmdLineService lib mode keys g w = (case ServiceLoadProcedure lib mode g w of
       None \<Rightarrow> None
     | Some (ret, g1, w1) \<Rightarrow>
         (case (if ret < 0 then Some (g1, w1) else cmdline_keys lib mode keys g1 w1) of
            None \<Rightarrow> None
          | Some (g2, w2) \<Rightarrow> map_option snd (ServiceUnloadProcedure lib g2 w2)))"

text \<open>What the command line asks for; an option is recognised by its beginning, in this order.\<close>

datatype svc_action = Nothing | Notify | Test_gui | Test | Info | Install_boot | Install | Uninstall | Stop | Start
  | Pause | Continue | Dispatch

definition starts_with :: "string \<Rightarrow> string \<Rightarrow> bool" where
  "starts_with opt arg \<longleftrightarrow> take (length opt) arg = opt"

definition main_options :: "(string \<times> svc_action) list" where
  "main_options = [(''--conf'', Nothing), (''--disable_rt'', Nothing), (''--notify'', Notify), (''--testGUI'', Test_gui),
     (''--test'', Test), (''--register'', Nothing), (''--crypt'', Nothing), (''--quarantine'', Nothing),
     (''--restore'', Nothing), (''--updatedb'', Nothing), (''--info'', Info), (''--installboot'', Install_boot),
     (''--install'', Install), (''--uninstall'', Uninstall), (''--stop'', Stop), (''--start'', Start),
     (''--pause'', Pause), (''--continue'', Continue)]"

definition service_main :: "string list \<Rightarrow> svc_action" where
  "service_main args = (case args of
       prog # arg # rest \<Rightarrow> (case filter (\<lambda>(opt, _). starts_with opt arg) main_options of
           [] \<Rightarrow> Dispatch | (_, a) # _ \<Rightarrow> a)
     | _ \<Rightarrow> Dispatch)"

section \<open>Loading and unloading are balanced\<close>

text \<open>The calls that are not about the on-access protection do not touch its handles.\<close>

definition apart_laws :: "'w library_os \<Rightarrow> ('w \<Rightarrow> nat set) \<Rightarrow> bool" where
  "apart_laws lib opened \<longleftrightarrow>
    (\<forall>p w. opened (snd (lo_load lib p w)) = opened w) \<and> (\<forall>c w. opened (snd (lo_open lib c w)) = opened w)
    \<and> (\<forall>w. opened (lo_close lib w) = opened w) \<and> (\<forall>m w. opened (lo_notify lib m w) = opened w)
    \<and> (\<forall>w. opened (snd (po_thread (lo_pipes lib) w)) = opened w)
    \<and> (\<forall>h w. opened (snd (po_resume (lo_pipes lib) h w)) = opened w)
    \<and> (\<forall>h w. opened (po_terminate (lo_pipes lib) h w) = opened w)
    \<and> (\<forall>hs w. opened (snd (po_wait (lo_pipes lib) hs w)) = opened w)
    \<and> (\<forall>h w. opened (po_close (lo_pipes lib) h w) = opened w)"

lemma close_connection_apart:
  assumes "apart_laws lib opened" "Close_IHM_Connection (lo_pipes lib) ctx w = (r, ctx1, w1)"
  shows "opened w1 = opened w \<and> r = 0"
proof -
  have f: "opened (fold (\<lambda>t. po_close (lo_pipes lib) (ot_pipe t)) ts v) = opened v" for ts :: "ondemand_thread list" and v
    using assms(1) by (induction ts arbitrary: v) (simp_all add: apart_laws_def)
  have "opened (snd (snd (TerminateAllScanThreads (lo_pipes lib) ctx w))) = opened w"
    using assms(1) f by (simp add: TerminateAllScanThreads_def apart_laws_def Let_def split: option.splits)
  then show ?thesis
    using assms by (auto simp: Close_IHM_Connection_def apart_laws_def split: prod.splits option.splits)
qed

lemma load_outcome:
  assumes h: "handle_laws (lo_filter lib) opened" and a: "apart_laws lib opened"
    and sync: "\<And>v. fst (fo_get_message (lo_filter lib) v) \<noteq> Done_at_once"
    and l: "ServiceLoadProcedure lib mode no_ctx w = Some (ret, g1, w1)"
  shows "gc_on_access (gs_scan g1) = None \<and> opened w1 = opened w \<or> protecting opened (opened w) (gs_scan g1) w1"
proof (cases "lo_conf_file lib")
  case None
  with l show ?thesis by (auto simp: ServiceLoadProcedure_def no_ctx_def)
next
  case (Some conffile)
  obtain conf v1 where c: "lo_load lib conffile w = (conf, v1)" by fastforce
  obtain data v2 where o: "lo_open lib conf v1 = (data, v2)" by fastforce
  have o2: "opened v2 = opened w" using a c o unfolding apart_laws_def by (metis snd_conv)
  show ?thesis
  proof (cases data)
    case None
    with l Some c o o2 show ?thesis by (auto simp: ServiceLoadProcedure_def no_ctx_def)
  next
    case d: (Some d)
    let ?c = "\<lparr>gc_on_access = None, gc_module = d\<rparr>"
    let ?init = "if a6o_conf_get_uint conf ''on-access'' ''enable'' \<noteq> 0 \<and> mode = SVC_MODE
        then UserScanInit (lo_filter lib) ?c v2 else (True, ?c, v2)"
    obtain ok c1 v3 where i: "?init = (ok, c1, v3)" by (cases ?init) auto
    have I: "gc_on_access c1 = None \<and> opened v3 = opened w \<or> ok \<and> protecting opened (opened w) c1 v3"
      using i init_outcome [OF h, of ?c v2 ok c1 v3] o2 by (auto split: if_splits)
    have g: "gs_scan g1 = c1 \<and> opened w1 = opened v3"
    proof (cases ok)
      case False
      with l Some c o d i show ?thesis by (auto simp: ServiceLoadProcedure_def Let_def)
    next
      case True
      obtain r ctx v4 where s: "Start_IHM_Connection (lo_pipes lib) True v3 = Some (r, ctx, v4)"
        and R: "gs_scan g1 = c1" "w1 = (if r < 0 then v4 else lo_notify lib ''Service started!'' v4)"
        using l Some c o d i True by (auto simp: ServiceLoadProcedure_def Let_def split: option.splits if_splits)
      have "opened v4 = opened v3"
      proof -
        obtain th u1 where th: "po_thread (lo_pipes lib) v3 = (th, u1)" by fastforce
        obtain okr u2 where rs: "po_resume (lo_pipes lib) (map_option fst th) u1 = (okr, u2)" by fastforce
        have "opened u1 = opened v3" "opened u2 = opened u1"
          using a th rs unfolding apart_laws_def by (metis snd_conv)+
        then show ?thesis using s th rs by (auto simp: Start_IHM_Connection_def Let_def split: bool.splits)
      qed
      then show ?thesis using R a by (simp add: apart_laws_def)
    qed
    then show ?thesis using I by (auto simp: protecting_def)
  qed
qed

text \<open>
  However far loading the service has come, unloading it undoes it: it returns 0, clears the context,
  and the handles of the on-access protection are those that were open before.
\<close>

theorem unloading_undoes_loading:
  assumes "handle_laws (lo_filter lib) opened" "apart_laws lib opened"
    and "\<And>v. fst (fo_get_message (lo_filter lib) v) \<noteq> Done_at_once"
    and "ServiceLoadProcedure lib mode no_ctx w = Some (ret, g1, w1)" "opened w2 = opened w1"
  shows "\<exists>w3. ServiceUnloadProcedure lib g1 w2 = Some (0, no_ctx, w3) \<and> opened w3 = opened w"
proof -
  have "\<exists>v. (if gc_on_access (gs_scan g1) = None then Some (0, w2)
      else map_option (\<lambda>(ok, c1, w1). (if ok then 0 else -1 :: int, w1)) (UserScanFinalize (lo_filter lib) (gs_scan g1) w2))
        = Some (0, v) \<and> opened v = opened w"
  proof (cases "gc_on_access (gs_scan g1) = None")
    case True
    then have "opened w1 = opened w"
      using load_outcome [OF assms(1-4)] by (auto simp: protecting_def)
    with True assms(5) show ?thesis by simp
  next
    case False
    then have "protecting opened (opened w) (gs_scan g1) w2"
      using load_outcome [OF assms(1-4)] assms(5) by (auto simp: protecting_def)
    from finalize_outcome [OF assms(1) this] False show ?thesis by auto
  qed
  then obtain v where v: "(if gc_on_access (gs_scan g1) = None then Some (0, w2)
      else map_option (\<lambda>(ok, c1, w1). (if ok then 0 else -1 :: int, w1)) (UserScanFinalize (lo_filter lib) (gs_scan g1) w2))
        = Some (0, v)" "opened v = opened w" by blast
  obtain ret2 v2 where c: "(case gs_on_demand g1 of None \<Rightarrow> (0, v)
      | Some ctx \<Rightarrow> (case Close_IHM_Connection (lo_pipes lib) ctx v of (r, _, w2) \<Rightarrow> (r, w2))) = (ret2, v2)"
    by fastforce
  have "ret2 = 0 \<and> opened v2 = opened v"
    using c close_connection_apart [OF assms(2)] by (auto split: option.splits prod.splits)
  then show ?thesis
    using v c assms(2) by (simp add: ServiceUnloadProcedure_def apart_laws_def)
qed

section \<open>Waiting ends\<close>

text \<open>
  The clock: \<open>GetTickCount\<close> counts milliseconds modulo \<open>2 ^ 32\<close> of a time in finer units, of which a query
  takes at least one, and no call takes more than \<open>2 ^ 28\<close> milliseconds, about three days.
\<close>

definition takes_time :: "('w \<Rightarrow> nat) \<Rightarrow> nat \<Rightarrow> nat \<Rightarrow> 'w \<Rightarrow> 'w \<Rightarrow> bool" where
  "takes_time time unit least w w1 \<longleftrightarrow> time w + least \<le> time w1 \<and> time w1 \<le> time w + unit * 2 ^ 28"

definition clock_laws :: "'w manager_os \<Rightarrow> ('w \<Rightarrow> nat) \<Rightarrow> nat \<Rightarrow> bool" where
  "clock_laws os time unit \<longleftrightarrow> 0 < unit \<and> (\<forall>w. mo_tick os w = of_nat (time w div unit))
    \<and> (\<forall>w. takes_time time unit 1 w (snd (mo_query os w)))
    \<and> (\<forall>t w. takes_time time unit 0 w (mo_sleep os t w))
    \<and> (\<forall>w. takes_time time unit 0 w (snd (mo_manager os w)))
    \<and> (\<forall>w. takes_time time unit 0 w (snd (mo_service os w)))
    \<and> (\<forall>c w. takes_time time unit 0 w (snd (mo_control os c w)))"

lemma elapsed:
  assumes "t0 \<le> t" "t - t0 < 2 ^ 32"
  shows "unat (of_nat t - of_nat t0 :: u32) = t - t0"
proof -
  have "of_nat t - of_nat t0 = (of_nat (t - t0) :: u32)" using assms(1) by simp
  then show ?thesis using assms(2) by (simp add: unat_of_nat)
qed

text \<open>The clock after one more query, in milliseconds since \<open>t0\<close>.\<close>

lemma query_time:
  assumes laws: "clock_laws os time unit" and t0: "t0 \<le> time w" "time w \<le> t0 + unit * (10001 + 5 * 2 ^ 28)"
    and q: "mo_query os (mo_sleep os h w) = (st, w1)"
  shows "time w < time w1" and "\<not> mo_tick os w1 - of_nat (t0 div unit) > TIMEOUT \<Longrightarrow> time w1 < t0 + unit * 10001 + unit"
proof -
  have "takes_time time unit 0 w (mo_sleep os h w)"
    and "takes_time time unit 1 (mo_sleep os h w) (snd (mo_query os (mo_sleep os h w)))"
    using laws by (simp_all add: clock_laws_def)
  then have t: "time w < time w1" "time w1 \<le> time w + 2 * (unit * 2 ^ 28)"
    using q by (simp_all add: takes_time_def)
  then show "time w < time w1" by simp
  assume late: "\<not> mo_tick os w1 - of_nat (t0 div unit) > TIMEOUT"
  have u: "0 < unit" and tick: "mo_tick os w1 = of_nat (time w1 div unit)"
    using laws by (simp_all add: clock_laws_def)
  have "time w1 \<le> t0 + unit * (10001 + 7 * 2 ^ 28)"
    using t(2) t0(2) by (simp add: algebra_simps)
  then have "time w1 div unit \<le> (t0 + unit * (10001 + 7 * 2 ^ 28)) div unit"
    by (rule div_le_mono)
  also have "\<dots> = t0 div unit + (10001 + 7 * 2 ^ 28)" using u by simp
  finally have small: "time w1 div unit - t0 div unit < 2 ^ 32" by simp
  have "t0 div unit \<le> time w1 div unit" using t0(1) t(1) by (intro div_le_mono) simp
  from elapsed [OF this small] have "time w1 div unit - t0 div unit \<le> 10000"
    using late tick by (simp add: TIMEOUT_def word_less_nat_alt not_less)
  then have "time w1 div unit < t0 div unit + 10001" by simp
  then have "time w1 < (t0 div unit + 10001) * unit"
    using u by (simp add: div_less_iff_less_mult)
  also have "\<dots> \<le> t0 + unit * 10001 + unit"
    by (simp add: algebra_simps trans_le_add1)
  finally show "time w1 < t0 + unit * 10001 + unit" .
qed

lemma wait_state_ends:
  assumes laws: "clock_laws os time unit"
  shows "t0 \<le> time w \<Longrightarrow> time w \<le> t0 + unit * (10001 + 5 * 2 ^ 28) \<Longrightarrow> t0 + unit * 10002 - time w < fuel
    \<Longrightarrow> wait_state os goal reached (of_nat (t0 div unit)) fuel st w \<noteq> None"
proof (induction fuel arbitrary: st w)
  case (Suc n)
  obtain r w1 where q: "mo_query os (mo_sleep os (ss_wait_hint st) w) = (r, w1)" by fastforce
  note T = query_time [OF laws Suc.prems(1,2) q]
  show ?case
  proof (cases r)
    case None
    with q show ?thesis by simp
  next
    case (Some st1)
    have "wait_state os goal reached (of_nat (t0 div unit)) n st1 w1 \<noteq> None"
      if "\<not> mo_tick os w1 - of_nat (t0 div unit) > TIMEOUT"
    proof (rule Suc.IH)
      note b = T(2) [OF that]
      show "t0 \<le> time w1" using T(1) Suc.prems(1) by simp
      show "time w1 \<le> t0 + unit * (10001 + 5 * 2 ^ 28)" using b by (simp add: algebra_simps)
      show "t0 + unit * 10002 - time w1 < n"
        using Suc.prems(3) T(1) b by (simp add: algebra_simps)
    qed
    with q Some show ?thesis by simp
  qed
qed simp

lemma control_service_ends:
  assumes laws: "clock_laws os time unit" and fuel: "unit * 10002 < fuel"
  shows "control_service os needed ctrl goal reached fuel w \<noteq> None"
proof -
  obtain m w1 where m: "mo_manager os w = (m, w1)" by fastforce
  obtain s w2 where s: "mo_service os w1 = (s, w2)" by fastforce
  obtain q w3 where q: "mo_query os w2 = (q, w3)" by fastforce
  obtain c w4 where c: "mo_control os ctrl w3 = (c, w4)" by fastforce
  have "takes_time time unit 0 w w1" "takes_time time unit 0 w1 w2" "takes_time time unit 1 w2 w3"
      "takes_time time unit 0 w3 w4"
    using laws m s q c unfolding clock_laws_def by (metis snd_conv)+
  then have "time w \<le> time w4" "time w4 \<le> time w + unit * (10001 + 5 * 2 ^ 28)"
    by (simp_all add: takes_time_def algebra_simps)
  moreover have "mo_tick os w = of_nat (time w div unit)" using laws by (simp add: clock_laws_def)
  moreover have "time w + unit * 10002 - time w4 < fuel" using fuel \<open>time w \<le> time w4\<close> by simp
  ultimately have "wait_state os goal reached (mo_tick os w) fuel st w4 \<noteq> None" for st :: svc_status
    using wait_state_ends [OF laws, of "time w" w4 fuel] by simp
  then have "\<exists>b a. wait_state os goal reached (mo_tick os w) fuel st w4 = Some (a, b)" for st :: svc_status
    by (metis not_None_eq prod.collapse)
  then show ?thesis
    using m s q c by (cases m; cases s; cases q; cases c) (simp_all add: control_service_def Let_def)
qed

text \<open>
  Pausing and continuing the service return: at the latest when ten seconds have gone by without the
  state that is waited for, also when the clock wraps around meanwhile.
\<close>

theorem pause_and_continue_end:
  assumes "clock_laws os time unit" "unit * 10002 < fuel"
  shows "(\<exists>r w1. ServicePause os fuel w = Some (r, w1)) \<and> (\<exists>r w1. ServiceContinue os fuel w = Some (r, w1))"
  using control_service_ends [OF assms] by (simp add: ServicePause_def ServiceContinue_def)

text \<open>
  A finding: a stop that stays pending is waited for without a limit, so stopping the service may never
  return.
\<close>

theorem stop_pending_spins:
  assumes "fst (mo_manager os w) \<and> fst (mo_service os (snd (mo_manager os w)))"
    and "\<And>v. \<exists>st. fst (mo_query os v) = Some st \<and> ss_state st = SERVICE_STOP_PENDING"
  shows "ServiceStop lib os fuel g w = None"
proof -
  have spin: "ss_state st = SERVICE_STOP_PENDING \<Longrightarrow> stop_pending os n st v = None" for n st v
  proof (induction n arbitrary: st v)
    case (Suc n)
    obtain st1 v1 where "mo_query os v = (Some st1, v1)" "ss_state st1 = SERVICE_STOP_PENDING"
      using assms(2) [of v] by (cases "mo_query os v") auto
    with Suc show ?case by simp
  qed simp
  obtain w1 w2 where w: "mo_manager os w = (True, w1)" "mo_service os w1 = (True, w2)"
    using assms(1) by (metis prod.collapse)
  obtain st w3 where "mo_query os w2 = (Some st, w3)" "ss_state st = SERVICE_STOP_PENDING"
    using assms(2) [of w2] by (cases "mo_query os w2") auto
  with w spin show ?thesis by (simp add: ServiceStop_def Let_def)
qed

text \<open>
  A finding: the service is reported as running before it is loaded again, and stays so in the reports
  of the handler when the load fails.
\<close>

theorem failed_continue_reported_running:
  assumes "ServiceLoadProcedure lib SVC_MODE g w = Some (ret, g1, w1)" "ret < 0"
    and "ServiceCtrlHandler lib os fuel CONTROL_CONTINUE r g w = Some (Some (r1, g2, w2))"
  shows "ss_state (last (sr_reported r1)) = SERVICE_RUNNING"
  using assms by (auto simp: ServiceCtrlHandler_def ReportSvcStatus_def Let_def split: option.splits)

section \<open>Witnesses\<close>

text \<open>A library with the on-access protection enabled, over the driver of theory \<open>WinOnAccess\<close>.\<close>

definition quiet_pipes :: "driver_world pipe_os" where
  "quiet_pipes = \<lparr>po_security = (\<lambda>w. True), po_create = (\<lambda>w. (None, w)), po_connect = (\<lambda>q w. (True, w)),
     po_thread = (\<lambda>w. (Some (1, 1), w)), po_resume = (\<lambda>h w. (True, w)), po_terminate = (\<lambda>h w. w),
     po_wait = (\<lambda>hs w. (True, w)), po_wow64 = (\<lambda>w. True), po_read = (\<lambda>q w. (None, w)), po_write = (\<lambda>q r w. (True, w)),
     po_response = (\<lambda>r w. (Inl 0, w)), po_process = (\<lambda>w. w), po_disconnect = (\<lambda>q w. w), po_close = (\<lambda>q w. w)\<rparr>"

definition sample_library :: "bool \<Rightarrow> driver_world library_os" where
  "sample_library opens = \<lparr>lo_conf_file = Some ''a6o.conf'', lo_load = (\<lambda>p w. (a6o_conf_new, w)),
     lo_open = (\<lambda>c w. (if opens then Some (Some \<lparr>oa_enable_permission = 1, oa_state_flag = 0\<rparr>) else None, w)),
     lo_close = (\<lambda>w. w), lo_notify = (\<lambda>m w. w), lo_filter = sample_filter, lo_pipes = quiet_pipes\<rparr>"

definition no_driver :: driver_world where
  "no_driver = \<lparr>dw_open = [], dw_waiting = [], dw_replies = []\<rparr>"

lemma sample_apart: "apart_laws (sample_library opens) (\<lambda>w. set (dw_open w))"
  by (simp add: apart_laws_def sample_library_def quiet_pipes_def)

lemma no_key: "a6o_conf_get_uint a6o_conf_new ''on-access'' ''enable'' = -1"
  by code_simp

lemma sample_loads:
  "\<exists>g1 w1. ServiceLoadProcedure (sample_library True) SVC_MODE no_ctx no_driver = Some (0, g1, w1)
    \<and> gc_on_access (gs_scan g1) \<noteq> None"
  by (simp add: ServiceLoadProcedure_def sample_library_def no_key
      UserScanInit_def sample_filter_def USER_SCAN_THREAD_COUNT_def numeral_nat fresh_handle_def no_driver_def Let_def
      Start_IHM_Connection_def quiet_pipes_def toggle_onaccess_state_def split: option.splits)

theorem unloading_undoes_loading_witness:
  "\<exists>g1 w1 w3. ServiceLoadProcedure (sample_library True) SVC_MODE no_ctx no_driver = Some (0, g1, w1)
    \<and> gc_on_access (gs_scan g1) \<noteq> None
    \<and> ServiceUnloadProcedure (sample_library True) g1 w1 = Some (0, no_ctx, w3) \<and> dw_open w3 = []"
proof -
  obtain g1 w1 where l: "ServiceLoadProcedure (sample_library True) SVC_MODE no_ctx no_driver = Some (0, g1, w1)"
      "gc_on_access (gs_scan g1) \<noteq> None"
    using sample_loads by blast
  have "handle_laws (lo_filter (sample_library True)) (\<lambda>w. set (dw_open w))"
    using sample_handle_laws by (simp add: sample_library_def)
  moreover have "fst (fo_get_message (lo_filter (sample_library True)) v) \<noteq> Done_at_once" for v
    by (simp add: sample_library_def sample_filter_def)
  ultimately obtain w3 where "ServiceUnloadProcedure (sample_library True) g1 w1 = Some (0, no_ctx, w3)"
      "set (dw_open w3) = set (dw_open no_driver)"
    using unloading_undoes_loading [OF _ sample_apart _ l(1) refl] by blast
  with l show ?thesis by (auto simp: no_driver_def)
qed

text \<open>A manager with a service that stays in a state; a query takes the world to the next one.\<close>

definition stuck_manager :: "('w \<Rightarrow> 'w) \<Rightarrow> ('w \<Rightarrow> nat) \<Rightarrow> svc_state \<Rightarrow> 'w manager_os" where
  "stuck_manager tick time st = (let status = \<lparr>ss_state = st, ss_accepts = True, ss_check_point = 0, ss_wait_hint = 0\<rparr> in
    \<lparr>mo_manager = (\<lambda>w. (True, w)), mo_service = (\<lambda>w. (True, w)), mo_query = (\<lambda>w. (Some status, tick w)),
     mo_control = (\<lambda>c w. (Some status, w)), mo_start = (\<lambda>w. (True, w)), mo_create = (\<lambda>w. (True, w)), mo_delete = (\<lambda>w. (True, w)),
     mo_module_file = True, mo_registry = (\<lambda>w. (0, w)), mo_unregister = (\<lambda>w. w), mo_sleep = (\<lambda>t w. w),
     mo_tick = (\<lambda>w. of_nat (time w))\<rparr>)"

theorem pause_and_continue_end_witness:
  "\<exists>r w1. ServicePause (stuck_manager Suc (\<lambda>w. w) SERVICE_RUNNING) 20000 0 = Some (r, w1)"
proof -
  have "clock_laws (stuck_manager Suc (\<lambda>w. w) SERVICE_RUNNING) (\<lambda>w. w) 1"
    by (simp add: clock_laws_def takes_time_def stuck_manager_def Let_def)
  from pause_and_continue_end [OF this, of 20000 0] show ?thesis by simp
qed

theorem stop_pending_spins_witness:
  "ServiceStop (sample_library True) (stuck_manager (\<lambda>w. w) (\<lambda>w. 0) SERVICE_STOP_PENDING) 1000 no_ctx no_driver = None"
  by (rule stop_pending_spins) (simp_all add: stuck_manager_def Let_def)

theorem failed_continue_reported_running_witness:
  "\<exists>r1 g2 w2. ServiceCtrlHandler (sample_library False) (stuck_manager (\<lambda>w. w) (\<lambda>w. 0) SERVICE_STOPPED) 1 CONTROL_CONTINUE
      \<lparr>sr_next_check_point = 1, sr_reported = []\<rparr> no_ctx no_driver = Some (Some (r1, g2, w2))
    \<and> ss_state (last (sr_reported r1)) = SERVICE_RUNNING"
proof -
  let ?os = "stuck_manager (\<lambda>w. w) (\<lambda>w. 0) SERVICE_STOPPED :: driver_world manager_os"
  have l: "ServiceLoadProcedure (sample_library False) SVC_MODE no_ctx no_driver = Some (-1, no_ctx, no_driver)"
    by (simp add: ServiceLoadProcedure_def sample_library_def)
  have "ServiceStop (sample_library False) ?os 1 no_ctx no_driver = Some (Some (True, no_ctx, no_driver))"
    by (simp add: ServiceStop_def stuck_manager_def Let_def)
  with l have h: "\<exists>r1. ServiceCtrlHandler (sample_library False) ?os 1 CONTROL_CONTINUE
      \<lparr>sr_next_check_point = 1, sr_reported = []\<rparr> no_ctx no_driver = Some (Some (r1, no_ctx, no_driver))"
    by (simp add: ServiceCtrlHandler_def Let_def)
  then obtain r1 where "ServiceCtrlHandler (sample_library False) ?os 1 CONTROL_CONTINUE
      \<lparr>sr_next_check_point = 1, sr_reported = []\<rparr> no_ctx no_driver = Some (Some (r1, no_ctx, no_driver))" ..
  with failed_continue_reported_running [OF l _ this] show ?thesis by auto
qed

end
