(* ===== verification/Signature.thy ===== *)
theory Signature
  imports Prelude
begin

text \<open>
  The verification of signed files on Windows, \<open>arch/windows/utils/crypt.c\<close>, with the reading of files of
  \<open>arch/windows/utils/others.c\<close>. The files, the download and the cryptography interface are arguments; a
  handle on a hash is the data that was hashed into it.
\<close>

section \<open>Reading files\<close>

text \<open>
  The Windows functions: opening, measuring, reading and closing a file; acquiring and releasing the
  cryptography context; downloading the public key to a cached file; decoding and importing a key;
  creating a hash, adding data, getting its value, and verifying a signature.
\<close>

record ('k, 'h, 'w) crypt_os =
  cr_open :: "string \<Rightarrow> 'w \<Rightarrow> nat option \<times> 'w"
  cr_size :: "nat \<Rightarrow> 'w \<Rightarrow> nat option"
  cr_read :: "nat \<Rightarrow> nat \<Rightarrow> 'w \<Rightarrow> string option \<times> 'w"
  cr_close :: "nat \<Rightarrow> 'w \<Rightarrow> 'w"
  cr_acquire :: "'w \<Rightarrow> bool \<times> 'w"
  cr_release :: "'w \<Rightarrow> 'w"
  cr_download :: "'w \<Rightarrow> string option \<times> 'w"
  cr_base64 :: "string \<Rightarrow> string option"
  cr_decode :: "string \<Rightarrow> string option"
  cr_import :: "string \<Rightarrow> 'w \<Rightarrow> 'k option \<times> 'w"
  cr_create_hash :: "'w \<Rightarrow> 'h option \<times> 'w"
  cr_hash_data :: "'h \<Rightarrow> string \<Rightarrow> 'w \<Rightarrow> 'h option \<times> 'w"
  cr_hash_value :: "'h \<Rightarrow> 'w \<Rightarrow> string option \<times> 'w"
  cr_verify :: "'h \<Rightarrow> string \<Rightarrow> 'k \<Rightarrow> 'w \<Rightarrow> bool \<times> 'w"
  cr_destroy_key :: "'k option \<Rightarrow> 'w \<Rightarrow> 'w"
  cr_destroy_hash :: "'h \<Rightarrow> 'w \<Rightarrow> 'w"

text \<open>
  The size of the file is assigned to an \<open>int\<close>. A size that is negative there makes the allocation
  fail or be of no bytes, and the terminator is then written outside of it; the largest one overflows.
\<close>

definition int_size :: "nat \<Rightarrow> int" where
  "int_size n = sint (of_nat n :: u32)"

definition GetFileContent_b ::
  "('k, 'h, 'w) crypt_os \<Rightarrow> cstr \<Rightarrow> 'w \<Rightarrow> (cstr \<times> 'w) option" where
  "GetFileContent_b os filename w = (case filename of
       None \<Rightarrow> Some (None, w)
     | Some f \<Rightarrow>
         (case cr_open os f w of
            (None, w1) \<Rightarrow> Some (None, w1)
          | (Some hFile, w1) \<Rightarrow>
              (case cr_size os hFile w1 of
                 None \<Rightarrow> Some (None, cr_close os hFile w1)
               | Some fileSize \<Rightarrow>
                   (let size = int_size fileSize
                    in if size < 0 \<or> size + 1 \<ge> 2 ^ 31 then None
                       else (case cr_read os hFile (nat size) w1 of
                           (None, w2) \<Rightarrow> Some (None, cr_close os hFile w2)
                         | (Some data, w2) \<Rightarrow>
                             Some (Some (take (nat size) (data @ replicate (nat size) CHR 0x00)), cr_close os hFile w2))))))"

section \<open>Keys and hashes\<close>

definition download_pub_key :: "('k, 'h, 'w) crypt_os \<Rightarrow> 'w \<Rightarrow> cstr \<times> 'w" where
  "download_pub_key os w = cr_download os w"

text \<open>The result 0, no key, is \<open>None\<close> inside.\<close>

definition import_public_key ::
  "('k, 'h, 'w) crypt_os \<Rightarrow> cstr \<Rightarrow> 'w \<Rightarrow> ('k option \<times> 'w) option" where
  "import_public_key os filename w = (case filename of
       None \<Rightarrow> Some (None, w)
     | Some f \<Rightarrow>
         (case GetFileContent_b os (Some f) w of
            None \<Rightarrow> None
          | Some (None, w1) \<Rightarrow> Some (None, w1)
          | Some (Some content, w1) \<Rightarrow>
              (case cr_base64 os content of
                 None \<Rightarrow> Some (None, w1)
               | Some buf \<Rightarrow>
                   (case cr_decode os buf of
                      None \<Rightarrow> Some (None, w1)
                    | Some pubKeyBlob \<Rightarrow> Some (cr_import os pubKeyBlob w1)))))"

text \<open>The handle is returned whether or not the data could be hashed; the value is computed for display.\<close>

definition calc_file_hash ::
  "('k, 'h, 'w) crypt_os \<Rightarrow> cstr \<Rightarrow> 'w \<Rightarrow> ('h option \<times> 'w) option" where
  "calc_file_hash os filename w = (case GetFileContent_b os filename w of
       None \<Rightarrow> None
     | Some (None, w1) \<Rightarrow> Some (None, w1)
     | Some (Some content, w1) \<Rightarrow>
         (case cr_create_hash os w1 of
            (None, w2) \<Rightarrow> Some (None, w2)
          | (Some hHash, w2) \<Rightarrow>
              (case cr_hash_data os hHash content w2 of
                 (None, w3) \<Rightarrow> Some (Some hHash, w3)
               | (Some hHash1, w3) \<Rightarrow> Some (Some hHash1, snd (cr_hash_value os hHash1 w3)))))"

section \<open>Verification\<close>

text \<open>The common end of the verification.\<close>

definition sig_finally ::
  "('k, 'h, 'w) crypt_os \<Rightarrow> 'k option \<Rightarrow> 'h option \<Rightarrow> int \<Rightarrow> 'w \<Rightarrow> (int \<times> 'w) option" where
  "sig_finally os hPubKey hHash ret w =
    (let w1 = cr_destroy_key os hPubKey w;
         w2 = (case hHash of None \<Rightarrow> w1 | Some h \<Rightarrow> cr_destroy_hash os h w1)
     in Some (ret, cr_release os w2))"

text \<open>The signature is reversed byte by byte before it is verified.\<close>

definition verify_file_signature ::
  "('k, 'h, 'w) crypt_os \<Rightarrow> cstr \<Rightarrow> cstr \<Rightarrow> 'w \<Rightarrow> (int \<times> 'w) option" where
  "verify_file_signature os filename sigfile w =
    (if filename = None \<or> sigfile = None then Some (-1, w)
     else case cr_acquire os w of
         (False, w1) \<Rightarrow> sig_finally os None None (-1) w1
       | (True, w1) \<Rightarrow>
           (case download_pub_key os w1 of
              (None, w2) \<Rightarrow> sig_finally os None None (-1) w2
            | (Some pubkeyfile, w2) \<Rightarrow>
                (case import_public_key os (Some pubkeyfile) w2 of
                   None \<Rightarrow> None
                 | Some (None, w3) \<Rightarrow> sig_finally os None None (-2) w3
                 | Some (Some hPubKey, w3) \<Rightarrow>
                     (case calc_file_hash os filename w3 of
                        None \<Rightarrow> None
                      | Some (None, w4) \<Rightarrow> sig_finally os (Some hPubKey) None (-3) w4
                      | Some (Some hHash, w4) \<Rightarrow>
                          (case GetFileContent_b os sigfile w4 of
                             None \<Rightarrow> None
                           | Some (None, w5) \<Rightarrow> sig_finally os (Some hPubKey) (Some hHash) (-4) w5
                           | Some (Some signature, w5) \<Rightarrow>
                               (case cr_verify os hHash (rev signature) hPubKey w5 of
                                  (False, w6) \<Rightarrow> sig_finally os (Some hPubKey) (Some hHash) (-9) w6
                                | (True, w6) \<Rightarrow> sig_finally os (Some hPubKey) (Some hHash) 0 w6))))))"

section \<open>What is verified\<close>

text \<open>
  The documented behaviour: the calls read the files of \<open>disk\<close>, which do not change meanwhile, a hash is
  the data added to it, and a signature is accepted only when it is \<open>valid\<close> for the key and the data.
\<close>

definition crypt_laws ::
  "('k, 'h, 'w) crypt_os \<Rightarrow> (string \<Rightarrow> string option) \<Rightarrow> (nat \<Rightarrow> string) \<Rightarrow> ('h \<Rightarrow> string) \<Rightarrow> ('k \<Rightarrow> string)
    \<Rightarrow> (string \<Rightarrow> string \<Rightarrow> string \<Rightarrow> bool) \<Rightarrow> bool" where
  "crypt_laws os disk name hashed blob valid \<longleftrightarrow>
    (\<forall>p h w w1. cr_open os p w = (Some h, w1) \<longrightarrow> name h = p)
    \<and> (\<forall>h n w. cr_size os h w = Some n \<longrightarrow> (\<exists>c. disk (name h) = Some c \<and> n = length c))
    \<and> (\<forall>h m d w w1. cr_read os h m w = (Some d, w1) \<longrightarrow> (\<exists>c. disk (name h) = Some c \<and> d = take m c))
    \<and> (\<forall>b k w w1. cr_import os b w = (Some k, w1) \<longrightarrow> blob k = b)
    \<and> (\<forall>h w w1. cr_create_hash os w = (Some h, w1) \<longrightarrow> hashed h = [])
    \<and> (\<forall>h d h1 w w1. cr_hash_data os h d w = (Some h1, w1) \<longrightarrow> hashed h1 = hashed h @ d)
    \<and> (\<forall>h s k w w1. cr_verify os h s k w = (True, w1) \<longrightarrow> valid (blob k) (hashed h) s)"

lemma crypt_lawsD:
  assumes "crypt_laws os disk name hashed blob valid"
  shows "cr_open os p w = (Some h, w1) \<Longrightarrow> name h = p"
    and "cr_size os h w = Some n \<Longrightarrow> \<exists>c. disk (name h) = Some c \<and> n = length c"
    and "cr_read os h m w = (Some d, w1) \<Longrightarrow> \<exists>c. disk (name h) = Some c \<and> d = take m c"
    and "cr_import os b w = (Some k, w1) \<Longrightarrow> blob k = b"
    and "cr_create_hash os w = (Some g, w1) \<Longrightarrow> hashed g = []"
    and "cr_hash_data os g d w = (Some g1, w1) \<Longrightarrow> hashed g1 = hashed g @ d"
    and "cr_verify os g s k w = (True, w1) \<Longrightarrow> valid (blob k) (hashed g) s"
  using assms unfolding crypt_laws_def by (simp_all only:)

text \<open>What the program sees of a file: as many bytes as the size says modulo \<open>2 ^ 32\<close>.\<close>

definition seen :: "string \<Rightarrow> string" where
  "seen c = take (length c mod 2 ^ 32) c"

lemma int_size_seen:
  assumes "0 \<le> int_size n" shows "nat (int_size n) = n mod 2 ^ 32"
proof -
  have "int_size n < 2 ^ 31"
    using sint_lt [of "of_nat n :: u32"] by (simp add: int_size_def)
  then have "uint (of_nat n :: u32) = int_size n"
    using assms by (simp add: uint_sint int_size_def take_bit_int_eq_self)
  then have "int_size n = int (unat (of_nat n :: u32))" by simp
  then show ?thesis by (simp only: nat_int unat_of_nat) simp
qed

lemma int_size_small: "n < 2 ^ 31 \<Longrightarrow> int_size n = int n"
proof -
  assume "n < 2 ^ 31"
  then have "signed_take_bit 31 (int n) = int n"
    by (intro signed_take_bit_int_eq_self) simp_all
  then show ?thesis by (simp add: int_size_def signed_of_nat)
qed

text \<open>Reading a file gives nothing, or what is seen of it.\<close>

lemma content_seen:
  assumes laws: "crypt_laws os disk name hashed blob valid"
    and r: "GetFileContent_b os filename w = Some (Some content, w1)"
  obtains f c where "filename = Some f" "disk f = Some c" "content = seen c"
proof -
  obtain f h w2 where f: "filename = Some f" "cr_open os f w = (Some h, w2)"
    using r by (auto simp: GetFileContent_b_def split: option.splits prod.splits)
  then obtain n w3 data where n: "cr_size os h w2 = Some n" "0 \<le> int_size n"
    and d: "cr_read os h (nat (int_size n)) w2 = (Some data, w3)"
    and c: "content = take (nat (int_size n)) (data @ replicate (nat (int_size n)) CHR 0x00)"
    using r by (auto simp: GetFileContent_b_def Let_def split: option.splits prod.splits if_splits)
  have "name h = f" and "\<exists>c. disk (name h) = Some c \<and> n = length c"
    and "\<exists>c. disk (name h) = Some c \<and> data = take (nat (int_size n)) c"
    using crypt_lawsD(1) [OF laws f(2)] crypt_lawsD(2) [OF laws n(1)] crypt_lawsD(3) [OF laws d] .
  then obtain b where b: "disk f = Some b" "n = length b" "data = take (nat (int_size n)) b" by auto
  have "nat (int_size n) \<le> length b"
    using int_size_seen [OF n(2)] b(2) by simp
  then have "content = seen b"
    using c b int_size_seen [OF n(2)] by (simp add: seen_def)
  with f(1) b(1) show thesis by (rule that)
qed

lemma imported_key:
  assumes laws: "crypt_laws os disk name hashed blob valid"
    and "import_public_key os (Some p) w = Some (Some k, w1)"
  obtains kc b64 where "disk p = Some kc" "cr_base64 os (seen kc) = Some b64" "cr_decode os b64 = Some (blob k)"
proof -
  obtain content w2 b64 b where c: "GetFileContent_b os (Some p) w = Some (Some content, w2)"
    and d: "cr_base64 os content = Some b64" "cr_decode os b64 = Some b" "cr_import os b w2 = (Some k, w1)"
    using assms(2) by (auto simp: import_public_key_def split: option.splits)
  have "blob k = b" by (rule crypt_lawsD(4) [OF laws d(3)])
  with content_seen [OF laws c] d that show thesis by auto
qed

lemma file_hash:
  assumes laws: "crypt_laws os disk name hashed blob valid"
    and "calc_file_hash os (Some f) w = Some (Some h, w1)"
  obtains c where "disk f = Some c" "hashed h = seen c \<or> hashed h = []"
proof -
  obtain content w2 h0 w3 where c: "GetFileContent_b os (Some f) w = Some (Some content, w2)"
    and h0: "cr_create_hash os w2 = (Some h0, w3)"
    and h: "h = h0 \<or> (\<exists>w4. cr_hash_data os h0 content w3 = (Some h, w4))"
    using assms(2) by (auto simp: calc_file_hash_def split: option.splits prod.splits)
  have "hashed h0 = []" by (rule crypt_lawsD(5) [OF laws h0])
  moreover have "hashed h = hashed h0 @ content" if "cr_hash_data os h0 content w3 = (Some h, w4)" for w4
    by (rule crypt_lawsD(6) [OF laws that])
  ultimately have "hashed h = content \<or> hashed h = []" using h by auto
  with content_seen [OF laws c] that show thesis by auto
qed

text \<open>
  A file is accepted only with a signature: when the verification returns 0, the bytes of the
  signature file, reversed, are a valid signature under the downloaded key of what is seen of the file,
  or of nothing when its data could not be hashed.
\<close>

theorem accepted_only_if_signed:
  assumes laws: "crypt_laws os disk name hashed blob valid"
    and r: "verify_file_signature os (Some f) (Some sigfile) w = Some (0, w1)"
  shows "\<exists>p kc b64 key c sig. disk p = Some kc \<and> cr_base64 os (seen kc) = Some b64 \<and> cr_decode os b64 = Some key
    \<and> disk f = Some c \<and> disk sigfile = Some sig
    \<and> (valid key (seen c) (rev (seen sig)) \<or> valid key [] (rev (seen sig)))"
proof -
  obtain p w2 k w3 h w4 sg w5 w6 where k: "import_public_key os (Some p) w2 = Some (Some k, w3)"
    and h: "calc_file_hash os (Some f) w3 = Some (Some h, w4)"
    and s: "GetFileContent_b os (Some sigfile) w4 = Some (Some sg, w5)"
    and v: "cr_verify os h (rev sg) k w5 = (True, w6)"
    using r by (auto simp: verify_file_signature_def sig_finally_def Let_def split: option.splits prod.splits bool.splits)
  have "valid (blob k) (hashed h) (rev sg)"
    by (rule crypt_lawsD(7) [OF laws v])
  moreover obtain kc b64 where "disk p = Some kc" "cr_base64 os (seen kc) = Some b64" "cr_decode os b64 = Some (blob k)"
    using imported_key [OF laws k] .
  moreover obtain c where "disk f = Some c" "hashed h = seen c \<or> hashed h = []"
    using file_hash [OF laws h] .
  moreover obtain sig where "disk sigfile = Some sig" "sg = seen sig"
    using content_seen [OF laws s] by blast
  ultimately show ?thesis by metis
qed

section \<open>Working calls\<close>

text \<open>No call fails, and a signature that is valid is accepted; \<open>hash_ok\<close> says whether data can be hashed.\<close>

definition crypt_works ::
  "('k, 'h, 'w) crypt_os \<Rightarrow> (string \<Rightarrow> string option) \<Rightarrow> string \<Rightarrow> ('h \<Rightarrow> string) \<Rightarrow> ('k \<Rightarrow> string)
    \<Rightarrow> (string \<Rightarrow> string \<Rightarrow> string \<Rightarrow> bool) \<Rightarrow> bool \<Rightarrow> bool" where
  "crypt_works os disk keyfile hashed blob valid hash_ok \<longleftrightarrow>
    (\<forall>p c w. disk p = Some c \<longrightarrow> (\<exists>h w1. cr_open os p w = (Some h, w1)
        \<and> cr_size os h w1 = Some (length c) \<and> (\<forall>m. \<exists>w2. cr_read os h m w1 = (Some (take m c), w2))))
    \<and> (\<forall>w. fst (cr_acquire os w)) \<and> (\<forall>w. fst (cr_download os w) = Some keyfile)
    \<and> (\<forall>b w. \<exists>k w1. cr_import os b w = (Some k, w1) \<and> blob k = b)
    \<and> (\<forall>w. \<exists>h w1. cr_create_hash os w = (Some h, w1) \<and> hashed h = [])
    \<and> (\<forall>h d w. if hash_ok then \<exists>h1 w1. cr_hash_data os h d w = (Some h1, w1) \<and> hashed h1 = hashed h @ d
        else fst (cr_hash_data os h d w) = None)
    \<and> (\<forall>h s k w. fst (cr_verify os h s k w) \<longleftrightarrow> valid (blob k) (hashed h) s)"

text \<open>The files that can be read: not of a size that is negative as an \<open>int\<close>, or the largest.\<close>

definition size_fits :: "string \<Rightarrow> bool" where
  "size_fits c \<longleftrightarrow> length c mod 2 ^ 32 + 1 < 2 ^ 31"

lemma size_fits_int:
  assumes "size_fits c" shows "int_size (length c) = int (length c mod 2 ^ 32)"
proof -
  have "(of_nat (length c) :: u32) = of_nat (length c mod 2 ^ 32)"
    by (simp add: word_unat_eq_iff unat_of_nat)
  then have "int_size (length c) = int_size (length c mod 2 ^ 32)"
    by (simp add: int_size_def)
  then show ?thesis using int_size_small [of "length c mod 2 ^ 32"] assms by (simp add: size_fits_def)
qed

lemma content_read:
  assumes "crypt_works os disk keyfile hashed blob valid hash_ok" "disk f = Some c" "size_fits c"
  shows "\<exists>w1. GetFileContent_b os (Some f) w = Some (Some (seen c), w1)"
proof -
  obtain h w1 where o: "cr_open os f w = (Some h, w1)" "cr_size os h w1 = Some (length c)"
    and r: "\<forall>m. \<exists>w2. cr_read os h m w1 = (Some (take m c), w2)"
    using assms(1,2) unfolding crypt_works_def by meson
  obtain w2 where "cr_read os h (length c mod 2 ^ 32) w1 = (Some (seen c), w2)"
    using r unfolding seen_def by blast
  then show ?thesis
    using o size_fits_int [OF assms(3)] assms(3) mod_less_eq_dividend [of "length c" "2 ^ 32"]
    by (simp add: GetFileContent_b_def Let_def size_fits_def seen_def)
qed

lemma works_steps:
  assumes "crypt_works os disk keyfile hashed blob valid hash_ok"
  shows "\<exists>w1. cr_acquire os w = (True, w1)" and "\<exists>w1. cr_download os w = (Some keyfile, w1)"
    and "\<exists>k w1. cr_import os b w = (Some k, w1) \<and> blob k = b"
    and "\<exists>g w1. cr_create_hash os w = (Some g, w1) \<and> hashed g = []"
    and "hash_ok \<Longrightarrow> \<exists>h1 w1. cr_hash_data os h d w = (Some h1, w1) \<and> hashed h1 = hashed h @ d"
    and "\<not> hash_ok \<Longrightarrow> \<exists>w1. cr_hash_data os h d w = (None, w1)"
    and "\<exists>w1. cr_verify os h sg k w = (valid (blob k) (hashed h) sg, w1)"
proof -
  note W = assms [unfolded crypt_works_def]
  show "\<exists>w1. cr_acquire os w = (True, w1)" using W by (metis (full_types) prod.collapse)
  show "\<exists>w1. cr_download os w = (Some keyfile, w1)" using W by (metis prod.collapse)
  show "\<exists>k w1. cr_import os b w = (Some k, w1) \<and> blob k = b" using W by meson
  show "\<exists>g w1. cr_create_hash os w = (Some g, w1) \<and> hashed g = []" using W by meson
  show "hash_ok \<Longrightarrow> \<exists>h1 w1. cr_hash_data os h d w = (Some h1, w1) \<and> hashed h1 = hashed h @ d" using W by meson
  show "\<not> hash_ok \<Longrightarrow> \<exists>w1. cr_hash_data os h d w = (None, w1)" using W by (metis prod.collapse)
  have "fst (cr_verify os h sg k w) \<longleftrightarrow> valid (blob k) (hashed h) sg" using W by simp
  then show "\<exists>w1. cr_verify os h sg k w = (valid (blob k) (hashed h) sg, w1)"
    by (intro exI [of _ "snd (cr_verify os h sg k w)"]) (simp add: prod_eq_iff)
qed

lemma hash_works:
  assumes W: "crypt_works os disk keyfile hashed blob valid hash_ok" and "disk f = Some c" "size_fits c"
  shows "\<exists>h w1. calc_file_hash os (Some f) w = Some (Some h, w1) \<and> hashed h = (if hash_ok then seen c else [])"
proof -
  obtain w1 where r: "GetFileContent_b os (Some f) w = Some (Some (seen c), w1)"
    using content_read [OF assms] by blast
  obtain g w2 where g: "cr_create_hash os w1 = (Some g, w2)" "hashed g = []"
    using works_steps(4) [OF W] by blast
  show ?thesis
  proof (cases hash_ok)
    case True
    then obtain h w3 where "cr_hash_data os g (seen c) w2 = (Some h, w3)" "hashed h = seen c"
      using works_steps(5) [OF W, of g "seen c" w2] g(2) by auto
    with r g(1) True show ?thesis by (simp add: calc_file_hash_def)
  next
    case False
    then obtain w3 where "cr_hash_data os g (seen c) w2 = (None, w3)"
      using works_steps(6) [OF W] by blast
    with r g False show ?thesis by (simp add: calc_file_hash_def)
  qed
qed

lemma verification_works:
  assumes W: "crypt_works os disk keyfile hashed blob valid hash_ok"
    and key: "disk keyfile = Some kc" "size_fits kc" "cr_base64 os (seen kc) = Some b64" "cr_decode os b64 = Some key"
    and f: "disk f = Some c" "size_fits c" and s: "disk sigfile = Some sig" "size_fits sig"
  shows "\<exists>w1. verify_file_signature os (Some f) (Some sigfile) w
    = Some (if valid key (if hash_ok then seen c else []) (rev (seen sig)) then 0 else -9, w1)"
proof -
  obtain w1 where w1: "cr_acquire os w = (True, w1)" using works_steps(1) [OF W] by blast
  obtain w2 where w2: "cr_download os w1 = (Some keyfile, w2)" using works_steps(2) [OF W] by blast
  obtain w3 where r: "GetFileContent_b os (Some keyfile) w2 = Some (Some (seen kc), w3)"
    using content_read [OF W key(1,2)] by blast
  obtain k w4 where k: "cr_import os key w3 = (Some k, w4)" "blob k = key"
    using works_steps(3) [OF W] by blast
  have i: "import_public_key os (Some keyfile) w2 = Some (Some k, w4)"
    using r k(1) key(3,4) by (simp add: import_public_key_def)
  obtain h w5 where h: "calc_file_hash os (Some f) w4 = Some (Some h, w5)" "hashed h = (if hash_ok then seen c else [])"
    using hash_works [OF W f] by blast
  obtain w6 where g: "GetFileContent_b os (Some sigfile) w5 = Some (Some (seen sig), w6)"
    using content_read [OF W s] by blast
  obtain w7 where v: "cr_verify os h (rev (seen sig)) k w6 = (valid key (hashed h) (rev (seen sig)), w7)"
    using works_steps(7) [OF W, of h "rev (seen sig)" k w6] k(2) by auto
  show ?thesis
    using w1 w2 i h g v
    by (cases "valid key (hashed h) (rev (seen sig))")
      (simp_all add: verify_file_signature_def download_pub_key_def sig_finally_def Let_def)
qed

text \<open>
  When no call fails, the verification accepts exactly the valid signatures of what is seen of the
  file, with 0, and refuses the others with -9.
\<close>

theorem signature_verified:
  assumes "crypt_works os disk keyfile hashed blob valid True"
    and "disk keyfile = Some kc" "size_fits kc" "cr_base64 os (seen kc) = Some b64" "cr_decode os b64 = Some key"
    and "disk f = Some c" "size_fits c" and "disk sigfile = Some sig" "size_fits sig"
  shows "\<exists>w1. verify_file_signature os (Some f) (Some sigfile) w
    = Some (if valid key (seen c) (rev (seen sig)) then 0 else -9, w1)"
  using verification_works [OF assms, of w] by simp

text \<open>
  A finding: the size of the file is taken modulo \<open>2 ^ 32\<close>, so a signed file stays accepted when
  \<open>2 ^ 32\<close> bytes, or a multiple of them, are appended.
\<close>

theorem appended_data_accepted:
  assumes "crypt_works os disk keyfile hashed blob valid True"
    and "disk keyfile = Some kc" "size_fits kc" "cr_base64 os (seen kc) = Some b64" "cr_decode os b64 = Some key"
    and "disk sigfile = Some sig" "size_fits sig"
    and "disk f = Some (c @ tail)" "length c + 1 < 2 ^ 31" "2 ^ 32 dvd length tail" "valid key c (rev (seen sig))"
  shows "\<exists>w1. verify_file_signature os (Some f) (Some sigfile) w = Some (0, w1)"
proof -
  have "length (c @ tail) mod 2 ^ 32 = length c"
    using assms(9,10) by (auto elim!: dvdE)
  then have "size_fits (c @ tail)" "seen (c @ tail) = c"
    using assms(9) by (simp_all add: size_fits_def seen_def)
  then show ?thesis
    using verification_works [OF assms(1-5,8) _ assms(6,7), of w] assms(11) by simp
qed

text \<open>
  A finding: when the data cannot be hashed the hash of nothing is verified in its place, and any file
  is accepted with a valid signature of the empty file.
\<close>

theorem hash_failure_accepts:
  assumes "crypt_works os disk keyfile hashed blob valid False"
    and "disk keyfile = Some kc" "size_fits kc" "cr_base64 os (seen kc) = Some b64" "cr_decode os b64 = Some key"
    and "disk f = Some c" "size_fits c" and "disk sigfile = Some sig" "size_fits sig" "valid key [] (rev (seen sig))"
  shows "\<exists>w1. verify_file_signature os (Some f) (Some sigfile) w = Some (0, w1)"
  using verification_works [OF assms(1-9), of w] assms(10) by simp

section \<open>Witnesses\<close>

text \<open>A disk with the file, its signature and the key; a signature is the reversed data.\<close>

definition sample_file :: "string \<Rightarrow> string \<Rightarrow> string \<Rightarrow> string option" where
  "sample_file data sg p = (if p = ''f'' then Some data else if p = ''sig'' then Some sg else if p = ''key'' then Some ''k''
     else None)"

definition sample_name :: "nat \<Rightarrow> string" where
  "sample_name h = (if h = 0 then ''f'' else if h = 1 then ''sig'' else ''key'')"

definition sample_crypt :: "(string \<Rightarrow> string option) \<Rightarrow> bool \<Rightarrow> (string, string, unit) crypt_os" where
  "sample_crypt disk hash_ok = \<lparr>
     cr_open = (\<lambda>p w. (if p = ''f'' then Some 0 else if p = ''sig'' then Some 1 else if p = ''key'' then Some 2 else None, w)),
     cr_size = (\<lambda>h w. map_option length (disk (sample_name h))),
     cr_read = (\<lambda>h m w. (map_option (take m) (disk (sample_name h)), w)),
     cr_close = (\<lambda>h w. w), cr_acquire = (\<lambda>w. (True, w)), cr_release = (\<lambda>w. w), cr_download = (\<lambda>w. (Some ''key'', w)),
     cr_base64 = Some, cr_decode = Some, cr_import = (\<lambda>b w. (Some b, w)), cr_create_hash = (\<lambda>w. (Some [], w)),
     cr_hash_data = (\<lambda>h d w. (if hash_ok then Some (h @ d) else None, w)), cr_hash_value = (\<lambda>h w. (Some h, w)),
     cr_verify = (\<lambda>h s k w. (s = rev h, w)), cr_destroy_key = (\<lambda>k w. w), cr_destroy_hash = (\<lambda>h w. w)\<rparr>"

lemma sample_crypt_laws:
  "crypt_laws (sample_crypt (sample_file d sg) ok) (sample_file d sg) sample_name (\<lambda>h. h) (\<lambda>k. k) (\<lambda>k h s. s = rev h)"
  by (auto simp: crypt_laws_def sample_crypt_def sample_name_def split: if_splits)

lemma sample_crypt_works:
  "crypt_works (sample_crypt (sample_file d sg) ok) (sample_file d sg) ''key'' (\<lambda>h. h) (\<lambda>k. k) (\<lambda>k h s. s = rev h) ok"
  by (auto simp: crypt_works_def sample_crypt_def sample_name_def sample_file_def split: if_splits)

lemma sample_reads: "seen ''k'' = ''k''" "size_fits ''k''" "seen ''data'' = ''data''" "size_fits ''data''" "seen [] = []" "size_fits []"
  by (simp_all add: seen_def size_fits_def)

text \<open>The appended data: \<open>2 ^ 32\<close> times the letter a.\<close>

definition appended :: string where "appended = replicate (2 ^ 32) CHR ''a''"

lemma sample_decodes: "cr_base64 (sample_crypt d ok) s = Some s" "cr_decode (sample_crypt d ok) s = Some s"
  by (simp_all add: sample_crypt_def)

lemma sample_files: "sample_file d sg ''f'' = Some d" "sample_file d sg ''sig'' = Some sg" "sample_file d sg ''key'' = Some ''k''"
  by (simp_all add: sample_file_def)

theorem signature_verified_witness:
  "\<exists>w1. verify_file_signature (sample_crypt (sample_file ''data'' ''data'') True) (Some ''f'') (Some ''sig'') () = Some (0, w1)"
  using signature_verified [OF sample_crypt_works sample_files(3) sample_reads(2) sample_decodes sample_files(1)
      sample_reads(4) sample_files(2) sample_reads(4)]
  by (simp only: sample_reads rev_rev_ident if_True simp_thms)

theorem appended_data_accepted_witness:
  "\<exists>w1. verify_file_signature (sample_crypt (sample_file (''data'' @ appended) ''data'') True) (Some ''f'') (Some ''sig'') ()
    = Some (0, w1)"
  by (rule appended_data_accepted [OF sample_crypt_works sample_files(3) sample_reads(2) sample_decodes sample_files(2)
      sample_reads(4) sample_files(1)])
    (simp_all add: appended_def sample_reads)

theorem hash_failure_accepts_witness:
  "\<exists>w1. verify_file_signature (sample_crypt (sample_file ''data'' []) False) (Some ''f'') (Some ''sig'') () = Some (0, w1)"
  by (rule hash_failure_accepts [OF sample_crypt_works sample_files(3) sample_reads(2) sample_decodes sample_files(1)
      sample_reads(4) sample_files(2) sample_reads(6)]) (simp add: sample_reads)

theorem accepted_only_if_signed_witness:
  "\<exists>w1. verify_file_signature (sample_crypt (sample_file ''data'' ''data'') True) (Some ''f'') (Some ''sig'') () = Some (0, w1)
    \<and> (\<exists>c sg. sample_file ''data'' ''data'' ''f'' = Some c \<and> sample_file ''data'' ''data'' ''sig'' = Some sg
        \<and> (rev (seen sg) = rev (seen c) \<or> rev (seen sg) = rev []))"
proof -
  obtain w1 where w1: "verify_file_signature (sample_crypt (sample_file ''data'' ''data'') True) (Some ''f'') (Some ''sig'') () = Some (0, w1)"
    using verification_works [OF sample_crypt_works [where ok = True] sample_files(3) sample_reads(2) sample_decodes sample_files(1)
      sample_reads(4) sample_files(2) sample_reads(4), of "()"]
    by (simp only: sample_reads rev_rev_ident if_True simp_thms) blast
  from accepted_only_if_signed [OF sample_crypt_laws this] w1 show ?thesis by blast
qed

end
