(* ===== verification/WinFiles.thy ===== *)
theory WinFiles
  imports OsDir
begin

text \<open>
  Files and directories on Windows: \<open>libcore/arch/windows/os/dir.c\<close>, \<open>file.c\<close> and
  \<open>mimetype.c\<close>. The functions of the Windows interface are arguments. A log message of level error
  does not end the process on this platform (\<open>libmodule/log.c\<close>), so messages are left out.
\<close>

section \<open>Directories\<close>

definition FILE_ATTRIBUTE_DIRECTORY :: u32 where "FILE_ATTRIBUTE_DIRECTORY = push_bit 4 1"
definition FILE_ATTRIBUTE_ARCHIVE :: u32 where "FILE_ATTRIBUTE_ARCHIVE = push_bit 5 1"
definition FILE_ATTRIBUTE_DEVICE :: u32 where "FILE_ATTRIBUTE_DEVICE = push_bit 6 1"
definition FILE_ATTRIBUTE_NORMAL :: u32 where "FILE_ATTRIBUTE_NORMAL = push_bit 7 1"
definition FILE_ATTRIBUTE_NOT_CONTENT_INDEXED :: u32 where "FILE_ATTRIBUTE_NOT_CONTENT_INDEXED = push_bit 13 1"
definition FILE_ATTRIBUTE_READONLY :: u32 where "FILE_ATTRIBUTE_READONLY = push_bit 0 1"
definition INVALID_FILE_ATTRIBUTES :: u32 where "INVALID_FILE_ATTRIBUTES = -1"

lemmas attribute_defs =
  FILE_ATTRIBUTE_DIRECTORY_def FILE_ATTRIBUTE_ARCHIVE_def FILE_ATTRIBUTE_DEVICE_def
  FILE_ATTRIBUTE_NORMAL_def FILE_ATTRIBUTE_NOT_CONTENT_INDEXED_def FILE_ATTRIBUTE_READONLY_def
  INVALID_FILE_ATTRIBUTES_def

definition win_dirent_flags :: "u32 \<Rightarrow> u32" where
  "win_dirent_flags fileAttributes =
    (if has_flag fileAttributes FILE_ATTRIBUTE_DIRECTORY then FILE_FLAG_IS_DIRECTORY
     else if has_flag fileAttributes FILE_ATTRIBUTE_DEVICE then FILE_FLAG_IS_DEVICE
     else if has_flag fileAttributes FILE_ATTRIBUTE_NORMAL \<or> has_flag fileAttributes FILE_ATTRIBUTE_ARCHIVE
       \<or> has_flag fileAttributes FILE_ATTRIBUTE_NOT_CONTENT_INDEXED then FILE_FLAG_IS_PLAIN_FILE
     else FILE_FLAG_IS_UNKNOWN)"

definition DirectoryExists :: "(string \<Rightarrow> u32) \<Rightarrow> string \<Rightarrow> bool" where
  "DirectoryExists attr szPath \<longleftrightarrow>
    attr szPath \<noteq> INVALID_FILE_ATTRIBUTES \<and> has_flag (attr szPath) FILE_ATTRIBUTE_DIRECTORY"

text \<open>
  What \<open>FindFirstFile\<close> and \<open>FindNextFile\<close> give for a path and for all that lies below it: no handle,
  or a first entry and the others. An entry has a name, its attributes, and what a search of its own
  path gives.
\<close>

datatype find_result = NoFind | Find find_entry "find_entry list"
and find_entry = Entry string u32 find_result

definition win_entry_path :: "string \<Rightarrow> string \<Rightarrow> string" where
  "win_entry_path path name = path @ [CHR 0x5C] @ name"

text \<open>
  \<open>os_dir_map\<close> over \<open>GetFileAttributesA\<close>. The first entry is read into \<open>fdata\<close>, which is never
  looked at; the loop starts with the second.
\<close>

fun win_os_dir_map :: "(string \<Rightarrow> u32) \<Rightarrow> int \<Rightarrow> 's dirent_cb \<Rightarrow> string \<Rightarrow> find_result \<Rightarrow> 's \<Rightarrow> (int \<times> 's) option"
  and win_dir_loop :: "(string \<Rightarrow> u32) \<Rightarrow> int \<Rightarrow> 's dirent_cb \<Rightarrow> string \<Rightarrow> find_entry list \<Rightarrow> 's \<Rightarrow> 's option"
  where
  "win_os_dir_map attr recurse cb path NoFind data =
    (if \<not> has_flag (attr path) FILE_ATTRIBUTE_DIRECTORY then Some (1, data) else Some (0, data))"
| "win_os_dir_map attr recurse cb path (Find fdata es) data =
    (if \<not> has_flag (attr path) FILE_ATTRIBUTE_DIRECTORY then Some (1, data)
     else map_option (Pair 0) (win_dir_loop attr recurse cb path es data))"
| "win_dir_loop attr recurse cb path [] data = Some data"
| "win_dir_loop attr recurse cb path (Entry name a d # es) data =
    (if dot_name name then win_dir_loop attr recurse cb path es data
     else if has_flag (attr (win_entry_path path name)) FILE_ATTRIBUTE_DIRECTORY \<and> recurse \<ge> 1
     then case win_os_dir_map attr recurse cb (win_entry_path path name) d data of
            None \<Rightarrow> None
          | Some (ret, data1) \<Rightarrow>
              if ret \<noteq> 0 then Some data1 else win_dir_loop attr recurse cb path es data1
     else case cb (Some (win_entry_path path name)) (win_dirent_flags a) 0 data of
            None \<Rightarrow> None
          | Some (_, data1) \<Rightarrow> win_dir_loop attr recurse cb path es data1)"

definition win_os_mkdir_p :: "string \<Rightarrow> int" where
  "win_os_mkdir_p path = -1"

section \<open>Files\<close>

definition S_IFDIR_BIT :: u32 where "S_IFDIR_BIT = 0x4000"
definition S_IFREG_BIT :: u32 where "S_IFREG_BIT = 0x8000"

text \<open>\<open>_stat\<close> gives the error number or the mode; the size is not filled in.\<close>

definition win_os_file_stat ::
  "(string \<Rightarrow> int + u32) \<Rightarrow> string \<Rightarrow> os_file_stat \<Rightarrow> int \<times> os_file_stat \<times> int option" where
  "win_os_file_stat stat path buf = (case stat path of
       Inl e \<Rightarrow> (-1, buf\<lparr>fs_flags := FILE_FLAG_IS_ERROR\<rparr>, Some e)
     | Inr st_mode \<Rightarrow>
         (0, buf\<lparr>fs_flags := (if has_flag st_mode S_IFDIR_BIT then FILE_FLAG_IS_DIRECTORY
                            else if has_flag st_mode S_IFREG_BIT then FILE_FLAG_IS_PLAIN_FILE
                            else FILE_FLAG_IS_UNKNOWN)\<rparr>, None))"

definition win_os_file_do_not_scan :: "string \<Rightarrow> int" where
  "win_os_file_do_not_scan path = 0"

section \<open>MIME types\<close>

definition MIME_SIZE :: nat where "MIME_SIZE = 100"
definition BUF_SIZE :: nat where "BUF_SIZE = 1024"

text \<open>
  \<open>FindMimeFromData\<close> on the bytes of a buffer, \<open>_read\<close>, and \<open>CreateFileA\<close>, \<open>GetFileSizeEx\<close>,
  \<open>ReadFile\<close> and \<open>CloseHandle\<close>.
\<close>

record 'w win_file_os =
  wf_find_mime :: "string \<Rightarrow> int + string"
  wf_read :: "int \<Rightarrow> nat \<Rightarrow> 'w \<Rightarrow> string option \<times> 'w"
  wf_create :: "string \<Rightarrow> 'w \<Rightarrow> nat option \<times> 'w"
  wf_size :: "nat \<Rightarrow> 'w \<Rightarrow> nat option"
  wf_read_file :: "nat \<Rightarrow> nat \<Rightarrow> 'w \<Rightarrow> string option \<times> 'w"
  wf_close :: "nat \<Rightarrow> 'w \<Rightarrow> 'w"

text \<open>\<open>wcstombs_s\<close> into a buffer of \<open>MIME_SIZE\<close> characters ends the process when the result does not fit.\<close>

definition mime_to_char :: "string \<Rightarrow> cstr option" where
  "mime_to_char mt = (if length mt < MIME_SIZE then Some (Some mt) else None)"

text \<open>
  The whole buffer is passed on, whatever was read: \<open>stack\<close> is what the uninitialised array held.
\<close>

definition win_os_mime_type_guess_fd ::
  "'w win_file_os \<Rightarrow> string \<Rightarrow> int \<Rightarrow> 'w \<Rightarrow> (cstr \<times> 'w) option" where
  "win_os_mime_type_guess_fd os stack fd w =
    (if fd < 0 then Some (None, w)
     else case wf_read os fd BUF_SIZE w of
         (None, w1) \<Rightarrow> Some (None, w1)
       | (Some data, w1) \<Rightarrow>
           (case wf_find_mime os (take BUF_SIZE (data @ drop (length data) stack)) of
              Inl res \<Rightarrow> Some (None, w1)
            | Inr mt \<Rightarrow> map_option (\<lambda>r. (r, w1)) (mime_to_char mt)))"

text \<open>The buffer is cleared before the file is read, so a short read leaves NULs.\<close>

definition win_os_mime_type_guess ::
  "'w win_file_os \<Rightarrow> string \<Rightarrow> 'w \<Rightarrow> (cstr \<times> 'w) option" where
  "win_os_mime_type_guess os path w =
    (case wf_create os path w of
       (None, w1) \<Rightarrow> Some (None, w1)
     | (Some fh, w1) \<Rightarrow>
         (case wf_size os fh w1 of
            None \<Rightarrow> Some (None, w1)
          | Some fileSize \<Rightarrow>
              (let size = (if fileSize > BUF_SIZE then BUF_SIZE else fileSize)
               in case wf_read_file os fh size w1 of
                    (None, w2) \<Rightarrow> Some (None, wf_close os fh w2)
                  | (Some data, w2) \<Rightarrow>
                      (case wf_find_mime os (take size (data @ replicate size CHR 0x00)) of
                         Inl res \<Rightarrow> Some (None, wf_close os fh w2)
                       | Inr mt \<Rightarrow> map_option (\<lambda>r. (r, wf_close os fh w2)) (mime_to_char mt)))))"

section \<open>Trees of files\<close>

text \<open>A file system tree: names with the attributes and, for a directory, the nodes below it.\<close>

datatype node = File string u32 | Dir string u32 "node list"

text \<open>
  What a search gives in a directory below the root of a drive: the entries for the directory itself
  and for its parent come first. \<open>drive_of\<close> is the root, which has neither.
\<close>

definition dot_entry :: "string \<Rightarrow> find_entry" where
  "dot_entry name = Entry name FILE_ATTRIBUTE_DIRECTORY NoFind"

fun entry_of :: "node \<Rightarrow> find_entry" where
  "entry_of (File name a) = Entry name a NoFind"
| "entry_of (Dir name a ns) = Entry name a (Find (dot_entry ''.'') (dot_entry ''..'' # map entry_of ns))"

definition dir_of :: "node list \<Rightarrow> find_result" where
  "dir_of ns = Find (dot_entry ''.'') (dot_entry ''..'' # map entry_of ns)"

definition drive_of :: "node list \<Rightarrow> find_result" where
  "drive_of ns = (case map entry_of ns of [] \<Rightarrow> NoFind | e # es \<Rightarrow> Find e es)"

text \<open>The files of a tree in order, with their flags.\<close>

fun files :: "string \<Rightarrow> node \<Rightarrow> (cstr \<times> u32 \<times> int) list" where
  "files path (File name a) = [(Some (win_entry_path path name), win_dirent_flags a, 0)]"
| "files path (Dir name a ns) = concat (map (files (win_entry_path path name)) ns)"

text \<open>\<open>GetFileAttributesA\<close> agrees with the tree, and no file is named like the two special entries.\<close>

fun attributes_ok :: "(string \<Rightarrow> u32) \<Rightarrow> string \<Rightarrow> node \<Rightarrow> bool" where
  "attributes_ok attr path (File name a) \<longleftrightarrow> \<not> dot_name name
     \<and> \<not> has_flag (attr (win_entry_path path name)) FILE_ATTRIBUTE_DIRECTORY"
| "attributes_ok attr path (Dir name a ns) \<longleftrightarrow> \<not> dot_name name
     \<and> has_flag (attr (win_entry_path path name)) FILE_ATTRIBUTE_DIRECTORY
     \<and> list_all (attributes_ok attr (win_entry_path path name)) ns"

lemma dot_entries_skipped [simp]:
  "win_dir_loop attr recurse cb path (dot_entry ''..'' # es) data = win_dir_loop attr recurse cb path es data"
  by (simp add: dot_entry_def dot_name_def)

lemma loop_nodes:
  assumes "recurse \<ge> 1" "list_all (attributes_ok attr path) ns"
  shows "win_dir_loop attr recurse cb path (map entry_of ns) data
    = run_calls cb (concat (map (files path) ns)) data"
  using assms(2)
proof (induction "size_list size ns" arbitrary: path ns data rule: less_induct)
  case less
  show ?case
  proof (cases ns)
    case (Cons n ms)
    have rest: "win_dir_loop attr recurse cb path (map entry_of ms) d
        = run_calls cb (concat (map (files path) ms)) d" for d
      using less Cons by simp
    show ?thesis
    proof (cases n)
      case (File name a)
      then show ?thesis
        using less.prems Cons rest by (simp split: option.splits)
    next
      case (Dir name a ks)
      have "win_dir_loop attr recurse cb (win_entry_path path name) (map entry_of ks) data
          = run_calls cb (concat (map (files (win_entry_path path name)) ks)) data"
        using less Cons Dir by simp
      then show ?thesis
        using less.prems Cons rest Dir assms(1)
        by (simp add: run_calls_append split: option.splits bind_splits)
    qed
  qed simp
qed

section \<open>Properties\<close>

text \<open>
  the recursive traversal on Windows. In a directory below the root of a drive, where the
  special entries come first, the callback is called for every file of the tree exactly once, in
  order, and for nothing else; the result is 0, and the traversal faults only if the callback does.
\<close>

theorem windows_files_visited:
  assumes "recurse \<ge> 1" "list_all (attributes_ok attr path) ns"
    and "has_flag (attr path) FILE_ATTRIBUTE_DIRECTORY"
  shows "win_os_dir_map attr recurse cb path (dir_of ns) data
    = map_option (Pair 0) (run_calls cb (concat (map (files path) ns)) data)"
  using assms(3) by (simp add: dir_of_def loop_nodes [OF assms(1,2)])

text \<open>
  the traversal of the root of a drive, which has no special entries, misses its first
  entry: a file there, or the whole tree below a directory there, is never visited.
\<close>

theorem drive_first_entry_missed:
  assumes "recurse \<ge> 1" "list_all (attributes_ok attr path) (n # ns)"
    and "has_flag (attr path) FILE_ATTRIBUTE_DIRECTORY"
  shows "win_os_dir_map attr recurse cb path (drive_of (n # ns)) data
    = map_option (Pair 0) (run_calls cb (concat (map (files path) ns)) data)"
  using assms(2,3) by (simp add: drive_of_def loop_nodes [OF assms(1)])

text \<open>
  a file whose only attribute is that it is read-only, hidden or a system file is reported
  as of unknown type, not as a plain file, and a path that does not exist passes for a directory.
\<close>

theorem attributes_misread:
  "a \<in> {1, 2, 3, 4, 5, 6, 7} \<Longrightarrow> win_dirent_flags a = FILE_FLAG_IS_UNKNOWN"
  "attr path = INVALID_FILE_ATTRIBUTES \<Longrightarrow> win_os_dir_map attr recurse cb path NoFind data = Some (0, data)"
  by (auto simp: win_dirent_flags_def has_flag_def attribute_defs)

text \<open>
  the type of a file shorter than the buffer is guessed from its contents followed by what
  the stack held: a library that looks at the last byte answers differently.
\<close>

theorem short_file_guess_varies:
  assumes "0 \<le> fd" "wf_read os fd BUF_SIZE w = (Some data, w1)" "length data < BUF_SIZE"
    and "wf_find_mime os = (\<lambda>b. Inr (if last b = CHR 0x00 then ''text/plain'' else ''application/x-msdownload''))"
  shows "win_os_mime_type_guess_fd os (replicate BUF_SIZE CHR 0x00) fd w = Some (Some ''text/plain'', w1)"
    and "win_os_mime_type_guess_fd os (replicate BUF_SIZE CHR 0xFF) fd w = Some (Some ''application/x-msdownload'', w1)"
proof -
  have last: "last (take BUF_SIZE (data @ drop (length data) (replicate BUF_SIZE c))) = c" for c
    using assms(3) by (simp add: drop_replicate last_append)
  show "win_os_mime_type_guess_fd os (replicate BUF_SIZE CHR 0x00) fd w = Some (Some ''text/plain'', w1)"
    unfolding win_os_mime_type_guess_fd_def assms(2,4) using assms(1)
    by (simp del: take_append take_replicate drop_replicate add: last mime_to_char_def MIME_SIZE_def)
  show "win_os_mime_type_guess_fd os (replicate BUF_SIZE CHR 0xFF) fd w = Some (Some ''application/x-msdownload'', w1)"
    unfolding win_os_mime_type_guess_fd_def assms(2,4) using assms(1)
    by (simp del: take_append take_replicate drop_replicate add: last mime_to_char_def MIME_SIZE_def)
qed

section \<open>Witnesses\<close>

definition sample_tree :: "node list" where
  "sample_tree = [File ''f'' 32, Dir ''d'' 16 [File ''g'' 32]]"

definition sample_attr :: "string \<Rightarrow> u32" where
  "sample_attr p = (if p = ''C:'' \<or> p = win_entry_path ''C:'' ''d'' then 16 else 32)"

definition record_path :: "cstr list dirent_cb" where
  "record_path p fl e st = Some (0, st @ [p])"

lemma sample_attributes: "list_all (attributes_ok sample_attr ''C:'') sample_tree"
    "has_flag (sample_attr ''C:'') FILE_ATTRIBUTE_DIRECTORY"
  by (simp_all add: sample_tree_def sample_attr_def win_entry_path_def has_flag_def attribute_defs dot_name_def)

theorem windows_files_visited_witness:
  "win_os_dir_map sample_attr 1 record_path ''C:'' (dir_of sample_tree) []
    = Some (0, [Some (win_entry_path ''C:'' ''f''), Some (win_entry_path (win_entry_path ''C:'' ''d'') ''g'')])"
  by (subst windows_files_visited [OF _ sample_attributes])
     (simp_all add: sample_tree_def record_path_def)

theorem drive_first_entry_missed_witness:
  "win_os_dir_map sample_attr 1 record_path ''C:'' (drive_of sample_tree) []
    = Some (0, [Some (win_entry_path (win_entry_path ''C:'' ''d'') ''g'')])"
  unfolding sample_tree_def
  by (subst drive_first_entry_missed [OF _ sample_attributes [unfolded sample_tree_def]])
     (simp_all add: record_path_def)

theorem attributes_misread_witness:
  "win_dirent_flags 1 = FILE_FLAG_IS_UNKNOWN
    \<and> win_os_dir_map (\<lambda>_. INVALID_FILE_ATTRIBUTES) 1 record_path ''lost'' NoFind [] = Some (0, [])"
  using attributes_misread(1) [of 1]
    attributes_misread(2) [of "\<lambda>_. INVALID_FILE_ATTRIBUTES" "''lost''" 1 record_path "[]"] by simp

definition last_byte_os :: "unit win_file_os" where
  "last_byte_os = \<lparr>wf_find_mime = \<lambda>b. Inr (if last b = CHR 0x00 then ''text/plain'' else ''application/x-msdownload''),
     wf_read = \<lambda>fd n w. (Some ''hello'', w), wf_create = \<lambda>p w. (None, w), wf_size = \<lambda>h w. None,
     wf_read_file = \<lambda>h n w. (None, w), wf_close = \<lambda>h w. w\<rparr>"

theorem short_file_guess_varies_witness:
  "win_os_mime_type_guess_fd last_byte_os (replicate BUF_SIZE CHR 0x00) 3 ()
    \<noteq> win_os_mime_type_guess_fd last_byte_os (replicate BUF_SIZE CHR 0xFF) 3 ()"
proof -
  have "wf_read last_byte_os 3 BUF_SIZE () = (Some ''hello'', ())" "length ''hello'' < BUF_SIZE"
    "wf_find_mime last_byte_os = (\<lambda>b. Inr (if last b = CHR 0x00 then ''text/plain'' else ''application/x-msdownload''))"
    by (simp_all add: last_byte_os_def BUF_SIZE_def)
  from short_file_guess_varies [OF _ this] show ?thesis by simp
qed

end
