(* ===== verification/WinQuarantine.thy ===== *)
theory WinQuarantine
  imports StdPaths BuiltinModules
begin

text \<open>
  The quarantine on Windows, \<open>libcore/arch/windows/builtin-modules/quarantine/quarantine.c\<close>: a file
  is moved into a directory beside the program under its name and the time, and a description of it is
  written next to it. The Windows functions and the JSON library are arguments.
\<close>

section \<open>Paths\<close>

text \<open>\<open>strncat_s\<close>: a result that does not fit is a violation that ends the process.\<close>

definition strncat_s :: "string \<Rightarrow> nat \<Rightarrow> string \<Rightarrow> nat \<Rightarrow> string option" where
  "strncat_s dst sz src n =
    (let t = take n src in if length dst + length t < sz then Some (dst @ t) else None)"

text \<open>The Windows functions, over a world that includes the file system.\<close>

record 'w win_quarantine_os =
  wq_module_file :: "cstr"
  wq_system_time :: "'w \<Rightarrow> nat \<times> nat \<times> nat \<times> nat \<times> nat \<times> nat"
  wq_exists :: "string \<Rightarrow> 'w \<Rightarrow> bool"
  wq_mkdir :: "string \<Rightarrow> 'w \<Rightarrow> bool \<times> 'w"
  wq_move :: "string \<Rightarrow> string \<Rightarrow> 'w \<Rightarrow> bool \<times> 'w"
  wq_create :: "string \<Rightarrow> 'w \<Rightarrow> nat option \<times> 'w"
  wq_write :: "nat \<Rightarrow> string \<Rightarrow> 'w \<Rightarrow> bool \<times> 'w"
  wq_close :: "nat \<Rightarrow> 'w \<Rightarrow> 'w"
  wq_copy :: "string \<Rightarrow> string \<Rightarrow> 'w \<Rightarrow> bool \<times> 'w"
  wq_to_json :: "(string \<times> string) list \<Rightarrow> cstr"
  wq_notify :: "'w \<Rightarrow> 'w option"

definition ALERT_DIR :: string where "ALERT_DIR = ''Alerts''"

text \<open>The directory of the executable with another one below it; \<open>Some None\<close> is NULL.\<close>

definition GetLocationCompletepath :: "cstr \<Rightarrow> string \<Rightarrow> cstr option" where
  "GetLocationCompletepath module_file specialDir = (case module_file of
       None \<Rightarrow> Some None
     | Some filepath \<Rightarrow>
         (case strrchr filepath backslash of
            None \<Rightarrow> Some None
          | Some dir_len \<Rightarrow>
              (let dirpath = take dir_len filepath;
                   len = dir_len + strnlen_s specialDir WIN_MAX_PATH + 2
               in do {
                 p1 \<leftarrow> strncat_s [] len dirpath dir_len;
                 p2 \<leftarrow> strncat_s p1 len [backslash] 1;
                 p3 \<leftarrow> strncat_s p2 len specialDir (strnlen_s specialDir WIN_MAX_PATH);
                 Some (Some p3)
               })))"

text \<open>\<open>%04d\<close> and \<open>%02d\<close> of a number that is not negative.\<close>

definition zero_padded :: "nat \<Rightarrow> nat \<Rightarrow> string" where
  "zero_padded k n = replicate (k - length (decimal n)) CHR ''0'' @ decimal n"

text \<open>\<open>sprintf_s\<close> into 15 characters.\<close>

definition GetTimestampString :: "'w win_quarantine_os \<Rightarrow> 'w \<Rightarrow> string option" where
  "GetTimestampString os w = (case wq_system_time os w of (year, month, day, hour, minute, second) \<Rightarrow>
     let t = zero_padded 4 year @ zero_padded 2 month @ zero_padded 2 day
             @ zero_padded 2 hour @ zero_padded 2 minute @ zero_padded 2 second
     in if length t < 15 then Some t else None)"

definition BuildLocationFilePath :: "'w win_quarantine_os \<Rightarrow> cstr \<Rightarrow> cstr \<Rightarrow> 'w \<Rightarrow> cstr option" where
  "BuildLocationFilePath os filepath specialDir w = (case (filepath, specialDir) of
       (Some f, Some sd) \<Rightarrow>
         (case GetLocationCompletepath (wq_module_file os) sd of
            None \<Rightarrow> None
          | Some None \<Rightarrow> Some None
          | Some (Some location_dir) \<Rightarrow>
              (case strrchr f backslash of
                 None \<Rightarrow> Some None
               | Some n \<Rightarrow> do {
                   let filename = drop n f;
                   timestamp \<leftarrow> GetTimestampString os w;
                   let len = strnlen_s location_dir WIN_MAX_PATH + strnlen_s f WIN_MAX_PATH
                             + strnlen_s timestamp WIN_MAX_PATH + 3;
                   p1 \<leftarrow> strncat_s [] len location_dir (strnlen_s location_dir WIN_MAX_PATH);
                   p2 \<leftarrow> strncat_s p1 len filename (strnlen_s filename WIN_MAX_PATH);
                   p3 \<leftarrow> strncat_s p2 len ''_'' 1;
                   p4 \<leftarrow> strncat_s p3 len timestamp (strnlen_s timestamp WIN_MAX_PATH);
                   Some (Some p4)
                 }))
     | _ \<Rightarrow> Some None)"

definition GetFilenameFromPath :: "cstr \<Rightarrow> cstr" where
  "GetFilenameFromPath path = (case path of
       None \<Rightarrow> None
     | Some p \<Rightarrow> map_option (\<lambda>n. drop n p) (strrchr p backslash))"

section \<open>Quarantine\<close>

definition with_info :: "string \<Rightarrow> string option" where
  "with_info p = (let len = strnlen_s p WIN_MAX_PATH + 5 + 1 in do {
     p1 \<leftarrow> strncat_s [] len p (strnlen_s p WIN_MAX_PATH);
     strncat_s p1 len ''.info'' 5
   })"

text \<open>
  The fields of the description. A file name that is not there would be a NULL given to
  \<open>json_object_new_string\<close>.
\<close>

definition info_fields :: "string \<Rightarrow> cstr \<Rightarrow> string \<Rightarrow> a6o_report \<Rightarrow> (string \<times> string) list option" where
  "info_fields timestamp fname oldfilepath report =
    map_option (\<lambda>f. [(''date'', timestamp), (''fname'', f), (''path'', oldfilepath),
       (''module'', case rep_module_name report of None \<Rightarrow> ''black_list'' | Some m \<Rightarrow> m),
       (''desc'', case rep_module_report report of None \<Rightarrow> ''uh_malware'' | Some r \<Rightarrow> r)]) fname"

text \<open>The paths are not NULL here: \<open>quarantine_do\<close> has tested them.\<close>

definition WriteQuarantineInfoFile ::
  "'w win_quarantine_os \<Rightarrow> string \<Rightarrow> string \<Rightarrow> a6o_report \<Rightarrow> 'w \<Rightarrow> (int \<times> 'w) option" where
  "WriteQuarantineInfoFile os oldfilepath quarantinePath report w = do {
     info_path \<leftarrow> with_info quarantinePath;
     tmp \<leftarrow> BuildLocationFilePath os (Some oldfilepath) (Some ALERT_DIR) w;
     alert_tmp \<leftarrow> tmp;
     alert_path \<leftarrow> with_info alert_tmp;
     timestamp \<leftarrow> GetTimestampString os w;
     jobj \<leftarrow> info_fields timestamp (GetFilenameFromPath (Some quarantinePath)) oldfilepath report;
     (case wq_to_json os jobj of
        None \<Rightarrow> Some (-2, w)
      | Some content \<Rightarrow>
          (case wq_create os info_path w of
             (None, w1) \<Rightarrow> Some (-3, w1)
           | (Some fh, w1) \<Rightarrow>
               (case wq_write os fh (take 2048 content) w1 of
                  (False, w2) \<Rightarrow> Some (-3, wq_close os fh w2)
                | (True, w2) \<Rightarrow> Some (0, snd (wq_copy os info_path alert_path (wq_close os fh w2))))))
   }"

definition CreateAvDirectory :: "'w win_quarantine_os \<Rightarrow> cstr \<Rightarrow> 'w \<Rightarrow> (int \<times> 'w) option" where
  "CreateAvDirectory os dir w = (case dir of
       None \<Rightarrow> Some (-1, w)
     | Some d \<Rightarrow>
         (case GetLocationCompletepath (wq_module_file os) d of
            None \<Rightarrow> None
          | Some None \<Rightarrow> Some (-2, w)
          | Some (Some completePath) \<Rightarrow>
              if wq_exists os completePath w then Some (1, w)
              else (case wq_mkdir os completePath w of
                  (False, w1) \<Rightarrow> Some (-3, w1)
                | (True, w1) \<Rightarrow> Some (0, w1))))"

text \<open>
  The notification has a conversion without its argument, which is undefined: \<open>wq_notify\<close> may be
  \<open>None\<close>.
\<close>

definition win_quarantine_do ::
  "'w win_quarantine_os \<Rightarrow> quarantine_data \<Rightarrow> cstr \<Rightarrow> a6o_report \<Rightarrow> 'w \<Rightarrow> (int \<times> 'w) option" where
  "win_quarantine_do os qu path report w = (case path of
       None \<Rightarrow> Some (-1, w)
     | Some p \<Rightarrow>
         (case BuildLocationFilePath os path (qu_quarantine_dir qu) w of
            None \<Rightarrow> None
          | Some None \<Rightarrow> Some (-2, w)
          | Some (Some q) \<Rightarrow>
              (case CreateAvDirectory os (qu_quarantine_dir qu) w of
                 None \<Rightarrow> None
               | Some (r, w1) \<Rightarrow>
                   if r < 0 then Some (-3, w1)
                   else (case wq_move os p q w1 of
                       (False, w2) \<Rightarrow> Some (-4, w2)
                     | (True, w2) \<Rightarrow>
                         (case WriteQuarantineInfoFile os p q report w2 of
                            None \<Rightarrow> None
                          | Some (r2, w3) \<Rightarrow>
                              if r2 \<noteq> 0 then Some (-5, w3)
                              else map_option (Pair 0) (wq_notify os w3))))))"

definition win_quarantine_callback ::
  "'w win_quarantine_os \<Rightarrow> quarantine_data \<Rightarrow> a6o_report \<Rightarrow> 'w \<Rightarrow> (a6o_report \<times> 'w) option" where
  "win_quarantine_callback os qu report w =
    (if \<not> ctrue (qu_enable qu) then Some (report, w)
     else if rep_status report \<in> {A6O_FILE_UNDECIDED, A6O_FILE_CLEAN, A6O_FILE_UNKNOWN_TYPE, A6O_FILE_EINVAL,
                A6O_FILE_IERROR, A6O_FILE_SUSPICIOUS, A6O_FILE_WHITE_LISTED}
     then Some (report, w)
     else case win_quarantine_do os qu (rep_path report) report w of
         None \<Rightarrow> None
       | Some (r, w1) \<Rightarrow>
           Some (if r = 0 then report\<lparr>rep_action := rep_action report OR A6O_ACTION_QUARANTINE\<rparr> else report, w1))"

section \<open>The module\<close>

text \<open>
  The functions and the table of the module. \<open>_strdup\<close> of NULL is NULL here. The record of the module
  has no size, so its data is only what the initialisation allocates.
\<close>

definition win_quarantine_init :: "nat \<Rightarrow> ('w, 'd) mod_world \<Rightarrow> a6o_mod_status \<times> ('w, 'd) mod_world" where
  "win_quarantine_init i = on_world (\<lambda>b.
     Some (A6O_MOD_OK, b\<lparr>bw_quarantine := Some \<lparr>qu_quarantine_dir = None, qu_enable = 0\<rparr>\<rparr>))"

definition win_quarantine_conf_quarantine_dir ::
  "nat \<Rightarrow> string \<Rightarrow> a6o_conf_value \<Rightarrow> ('w, 'd) mod_world \<Rightarrow> a6o_mod_status \<times> ('w, 'd) mod_world" where
  "win_quarantine_conf_quarantine_dir i key v = on_world (\<lambda>b. map_option (Pair A6O_MOD_OK) (case v of
     CV_STRING s \<Rightarrow> with_quarantine (\<lambda>q. q\<lparr>qu_quarantine_dir := s\<rparr>) b
   | _ \<Rightarrow> None))"

definition win_quarantine_conf_enable ::
  "nat \<Rightarrow> string \<Rightarrow> a6o_conf_value \<Rightarrow> ('w, 'd) mod_world \<Rightarrow> a6o_mod_status \<times> ('w, 'd) mod_world" where
  "win_quarantine_conf_enable i key v =
    on_world (conf_int (\<lambda>n. with_quarantine (\<lambda>q. q\<lparr>qu_enable := sint n\<rparr>)) v)"

definition win_quarantine_conf_table :: "('w, 'd) mod_world a6o_conf_entry list" where
  "win_quarantine_conf_table =
    [\<lparr>cen_key = ''enable'', cen_type = CONF_TYPE_INT, cen_conf_fun = Some win_quarantine_conf_enable\<rparr>,
     \<lparr>cen_key = ''quarantine-dir'', cen_type = CONF_TYPE_STRING, cen_conf_fun = Some win_quarantine_conf_quarantine_dir\<rparr>]"

definition win_quarantine_module :: "('w, 'd) mod_world a6o_module" where
  "win_quarantine_module =
    \<lparr>mod_init_fun = Some win_quarantine_init, mod_conf_table = Some win_quarantine_conf_table, mod_post_init_fun = None,
     mod_scan_fun = None, mod_close_fun = None, mod_info_fun = None, mod_supported_mime_types = None,
     mod_name = ''quarantine'', mod_size = 0, mod_status = A6O_MOD_OK, mod_data = False\<rparr>"

section \<open>The paths in the quarantine\<close>

lemma strncat_s_fits: "length dst + length src < sz \<Longrightarrow> strncat_s dst sz src (length src) = Some (dst @ src)"
  by (simp add: strncat_s_def)

lemma location_path:
  assumes "backslash \<notin> set exe" "length sd \<le> WIN_MAX_PATH"
  shows "GetLocationCompletepath (Some (dir @ backslash # exe)) sd = Some (Some (dir @ backslash # sd))"
proof -
  have "strnlen_s sd WIN_MAX_PATH = length sd"
    using assms(2) by (simp add: strnlen_s_def)
  then show ?thesis
    using strrchr_last [OF assms(1), of dir]
    by (simp add: GetLocationCompletepath_def strncat_s_def Let_def)
qed

text \<open>The path of a file in a directory beside the program, at a time that has a time stamp.\<close>

lemma build_path:
  assumes "wq_module_file os = Some (dir @ backslash # exe)" "backslash \<notin> set exe"
    and "length (dir @ backslash # sd) \<le> WIN_MAX_PATH" "length (fdir @ backslash # name) \<le> WIN_MAX_PATH"
    and "backslash \<notin> set name" "GetTimestampString os w = Some ts"
  shows "BuildLocationFilePath os (Some (fdir @ backslash # name)) (Some sd) w
    = Some (Some (dir @ backslash # sd @ backslash # name @ ''_'' @ ts))"
proof -
  have ts: "length ts < 15"
    using assms(6) by (auto simp: GetTimestampString_def Let_def split: prod.splits if_splits)
  have loc: "GetLocationCompletepath (wq_module_file os) sd = Some (Some (dir @ backslash # sd))"
    unfolding assms(1) using assms(2,3) by (intro location_path) auto
  let ?l = "dir @ backslash # sd" and ?f = "fdir @ backslash # name" and ?n = "backslash # name"
  let ?len = "length ?l + length ?f + length ts + 3"
  have lens: "strnlen_s ?l WIN_MAX_PATH = length ?l" "strnlen_s ?f WIN_MAX_PATH = length ?f"
      "strnlen_s ?n WIN_MAX_PATH = length ?n" "strnlen_s ts WIN_MAX_PATH = length ts"
    using assms(3,4) ts by (simp_all add: strnlen_s_def WIN_MAX_PATH_def)
  have "strncat_s [] ?len ?l (length ?l) = Some ?l" "strncat_s ?l ?len ?n (length ?n) = Some (?l @ ?n)"
      "strncat_s (?l @ ?n) ?len ''_'' 1 = Some (?l @ ?n @ ''_'')"
      "strncat_s (?l @ ?n @ ''_'') ?len ts (length ts) = Some (?l @ ?n @ ''_'' @ ts)"
    by (simp_all add: strncat_s_def)
  moreover have "drop (length fdir) ?f = ?n" by simp
  ultimately show ?thesis
    unfolding BuildLocationFilePath_def option.case prod.case loc strrchr_last [OF assms(5)] assms(6) lens Let_def
    by (simp only: bind.simps lens) simp
qed

lemma last_separator:
  assumes "a @ backslash # x = b @ backslash # y" "backslash \<notin> set x" "backslash \<notin> set y"
  shows "a = b" "x = y"
proof -
  have "length a = length b"
    using strrchr_last [OF assms(2), of a] strrchr_last [OF assms(3), of b] assms(1) by simp
  with assms(1) show "a = b" "x = y" by simp_all
qed

lemma timestamp_plain:
  assumes "GetTimestampString os w = Some ts"
  shows "backslash \<notin> set ts" "length ts < 15"
proof -
  have d: "backslash \<notin> set (zero_padded k n)" for k n
    using decimal_digits [of n] by (auto simp: zero_padded_def backslash_def isdigit_def char_in_def)
  show "backslash \<notin> set ts"
    using assms d by (auto simp: GetTimestampString_def Let_def split: prod.splits if_splits)
  show "length ts < 15"
    using assms by (auto simp: GetTimestampString_def Let_def split: prod.splits if_splits)
qed

lemma with_info_path: "length p \<le> WIN_MAX_PATH \<Longrightarrow> with_info p = Some (p @ ''.info'')"
  by (simp add: with_info_def strnlen_s_def strncat_s_def Let_def)

text \<open>
  The documented behaviour of the functions on the files of a world: moving renames and replaces,
  creating empties, writing fills the file of the handle, copying does not replace. The year has four
  digits.
\<close>

definition win_quarantine_laws ::
  "'w win_quarantine_os \<Rightarrow> ('w \<Rightarrow> string \<Rightarrow> string option) \<Rightarrow> (nat \<Rightarrow> string) \<Rightarrow> bool" where
  "win_quarantine_laws os files handle \<longleftrightarrow>
    (\<forall>w. GetTimestampString os w \<noteq> None)
    \<and> (\<forall>p w. files (snd (wq_mkdir os p w)) = files w)
    \<and> (\<forall>p q w w'. wq_move os p q w = (True, w') \<longrightarrow>
          files w p \<noteq> None \<and> files w' = (files w)(p := None, q := files w p))
    \<and> (\<forall>p q w w'. wq_move os p q w = (False, w') \<longrightarrow> files w' = files w)
    \<and> (\<forall>p h w w'. wq_create os p w = (Some h, w') \<longrightarrow>
          handle h = p \<and> files w' = (files w)(p := Some []))
    \<and> (\<forall>p w w'. wq_create os p w = (None, w') \<longrightarrow> files w' = files w)
    \<and> (\<forall>h c w w'. wq_write os h c w = (True, w') \<longrightarrow> files w' = (files w)(handle h := Some c))
    \<and> (\<forall>h c w w'. wq_write os h c w = (False, w') \<longrightarrow> (\<exists>d. files w' = (files w)(handle h := d)))
    \<and> (\<forall>h w. files (wq_close os h w) = files w)
    \<and> (\<forall>p q w. files (snd (wq_copy os p q w)) = files w
        \<or> files w q = None \<and> files (snd (wq_copy os p q w)) = (files w)(q := files w p))
    \<and> (\<forall>js. wq_to_json os js \<noteq> None)
    \<and> (\<forall>w w'. wq_notify os w = Some w' \<longrightarrow> files w' = files w)"

lemma win_quarantine_lawsD:
  assumes "win_quarantine_laws os files handle"
  shows "\<exists>ts. GetTimestampString os w = Some ts"
    and "files (snd (wq_mkdir os p w)) = files w"
    and "wq_move os p q w = (True, w') \<Longrightarrow> files w p \<noteq> None \<and> files w' = (files w)(p := None, q := files w p)"
    and "wq_move os p q w = (False, w') \<Longrightarrow> files w' = files w"
    and "wq_create os p w = (Some h, w') \<Longrightarrow> handle h = p \<and> files w' = (files w)(p := Some [])"
    and "wq_create os p w = (None, w') \<Longrightarrow> files w' = files w"
    and "wq_write os h c w = (True, w') \<Longrightarrow> files w' = (files w)(handle h := Some c)"
    and "wq_write os h c w = (False, w') \<Longrightarrow> \<exists>d. files w' = (files w)(handle h := d)"
    and "files (wq_close os h w) = files w"
    and "files (snd (wq_copy os p q w)) = files w
      \<or> files w q = None \<and> files (snd (wq_copy os p q w)) = (files w)(q := files w p)"
    and "\<exists>c. wq_to_json os js = Some c"
    and "wq_notify os w = Some w' \<Longrightarrow> files w' = files w"
  using assms unfolding win_quarantine_laws_def by (simp_all only: not_None_eq split_paired_All)

text \<open>The description written: its five fields as JSON, cut after 2048 characters.\<close>

definition description :: "'w win_quarantine_os \<Rightarrow> string \<Rightarrow> string \<Rightarrow> string \<Rightarrow> a6o_report \<Rightarrow> string" where
  "description os ts fname path report =
    take 2048 (the (wq_to_json os (the (info_fields ts (Some fname) path report))))"

lemma write_info_spec:
  assumes laws: "win_quarantine_laws os files handle"
    and exe: "wq_module_file os = Some (dir @ backslash # exe)" "backslash \<notin> set exe" "length dir + 20 \<le> WIN_MAX_PATH"
    and p: "length (fdir @ backslash # name) \<le> WIN_MAX_PATH" "backslash \<notin> set name"
    and q: "q = qdir @ backslash # qname" "backslash \<notin> set qname" "length q \<le> WIN_MAX_PATH"
    and alert: "length (dir @ backslash # ALERT_DIR @ backslash # name) + 16 \<le> WIN_MAX_PATH"
  shows "\<exists>ts alert w1 r. GetTimestampString os w = Some ts \<and> alert = dir @ backslash # ALERT_DIR @ backslash # name @ ''_'' @ ts @ ''.info''
    \<and> WriteQuarantineInfoFile os (fdir @ backslash # name) q report w = Some (r, w1)
    \<and> (if r = 0 then files w1 (q @ ''.info'') = Some (description os ts (backslash # qname) (fdir @ backslash # name) report) else r = -3)
    \<and> (\<forall>f. f \<noteq> q @ ''.info'' \<and> f \<noteq> alert \<longrightarrow> files w1 f = files w f)"
proof -
  note L = win_quarantine_lawsD [OF laws]
  let ?p = "fdir @ backslash # name" and ?i = "q @ ''.info''"
  obtain ts where ts: "GetTimestampString os w = Some ts"
    using L(1) by blast
  note tp = timestamp_plain [OF ts]
  let ?a = "dir @ backslash # ALERT_DIR @ backslash # name @ ''_'' @ ts"
  have a: "BuildLocationFilePath os (Some ?p) (Some ALERT_DIR) w = Some (Some ?a)"
    using exe(3) by (intro build_path [OF exe(1,2) _ p ts]) (simp add: ALERT_DIR_def)
  have ai: "with_info ?a = Some (?a @ ''.info'')"
    using alert tp(2) by (intro with_info_path) simp
  have fn: "GetFilenameFromPath (Some q) = Some (backslash # qname)"
    using strrchr_last [OF q(2), of qdir] by (simp add: GetFilenameFromPath_def q(1))
  obtain js where js: "info_fields ts (Some (backslash # qname)) ?p report = Some js"
    by (simp add: info_fields_def)
  obtain content where json: "wq_to_json os js = Some content"
    using L(11) by blast
  have desc: "description os ts (backslash # qname) ?p report = take 2048 content"
    by (simp only: description_def js json option.sel)
  have step: "WriteQuarantineInfoFile os ?p q report w = (case wq_create os ?i w of
             (None, w1) \<Rightarrow> Some (-3, w1)
           | (Some fh, w1) \<Rightarrow>
               (case wq_write os fh (take 2048 content) w1 of
                  (False, w2) \<Rightarrow> Some (-3, wq_close os fh w2)
                | (True, w2) \<Rightarrow> Some (0, snd (wq_copy os ?i (?a @ ''.info'') (wq_close os fh w2)))))"
    by (simp only: WriteQuarantineInfoFile_def with_info_path [OF q(3)] a ai ts fn js json bind.simps option.case)
  obtain c w1 where c: "wq_create os ?i w = (c, w1)" by fastforce
  show ?thesis
  proof (cases c)
    case None
    with c L(6) [of ?i w w1] step ts show ?thesis by auto
  next
    case (Some h)
    obtain ok w2 where wr: "wq_write os h (take 2048 content) w1 = (ok, w2)" by fastforce
    have h: "handle h = ?i" "files w1 = (files w)(?i := Some [])"
      using L(5) c Some by auto
    show ?thesis
    proof (cases ok)
      case False
      then obtain d where d: "files w2 = (files w1)(?i := d)"
        using L(8) wr h(1) by metis
      have "WriteQuarantineInfoFile os ?p q report w = Some (-3, wq_close os h w2)"
        using False step c Some wr by simp
      then show ?thesis
        using ts d h(2) L(9) by (intro exI [of _ ts] exI [of _ "?a @ ''.info''"] exI [of _ "wq_close os h w2"] exI [of _ "-3"]) simp
    next
      case True
      let ?w3 = "snd (wq_copy os ?i (?a @ ''.info'') (wq_close os h w2))"
      have f2: "files (wq_close os h w2) = (files w)(?i := Some (take 2048 content))"
        using True wr h L(7) [of h "take 2048 content" w1 w2] L(9) [of h w2] by simp
      have f3: "files ?w3 ?i = Some (take 2048 content)" "\<And>f. f \<noteq> ?i \<Longrightarrow> f \<noteq> ?a @ ''.info'' \<Longrightarrow> files ?w3 f = files w f"
        using L(10) [of ?i "?a @ ''.info''" "wq_close os h w2"] f2 by auto
      moreover have "WriteQuarantineInfoFile os ?p q report w = Some (0, ?w3)"
        using step c Some wr True by simp
      ultimately show ?thesis
        using ts desc f3 by (intro exI [of _ ts] exI [of _ "?a @ ''.info''"] exI [of _ ?w3] exI [of _ 0]) simp
    qed
  qed
qed

text \<open>
  The paths of a quarantine: the program and the file have separated names, the paths fit in
  \<open>MAX_PATH\<close>, and the file is not already in one of the two directories.
\<close>

definition quarantine_paths :: "'w win_quarantine_os \<Rightarrow> string \<Rightarrow> string \<Rightarrow> string \<Rightarrow> string \<Rightarrow> bool" where
  "quarantine_paths os dir sd fdir name \<longleftrightarrow>
    (\<exists>exe. wq_module_file os = Some (dir @ backslash # exe) \<and> backslash \<notin> set exe)
    \<and> length (dir @ backslash # sd @ backslash # name) + 16 \<le> WIN_MAX_PATH
    \<and> length (dir @ backslash # ALERT_DIR @ backslash # name) + 16 \<le> WIN_MAX_PATH
    \<and> length (fdir @ backslash # name) \<le> WIN_MAX_PATH \<and> backslash \<notin> set name
    \<and> sd \<noteq> ALERT_DIR \<and> fdir \<noteq> dir @ backslash # sd \<and> fdir \<noteq> dir @ backslash # ALERT_DIR"

definition quarantined_path :: "string \<Rightarrow> string \<Rightarrow> string \<Rightarrow> string \<Rightarrow> string" where
  "quarantined_path dir sd name ts = dir @ backslash # sd @ backslash # name @ ''_'' @ ts"

lemma quarantined_path_outside:
  assumes "fdir \<noteq> dir @ backslash # sd" "backslash \<notin> set name" "backslash \<notin> set n" "backslash \<notin> set ts"
  shows "fdir @ backslash # name \<noteq> quarantined_path dir sd n ts"
    and "fdir @ backslash # name \<noteq> quarantined_path dir sd n ts @ ''.info''"
proof -
  have "fdir @ backslash # name \<noteq> (dir @ backslash # sd) @ backslash # (n @ ''_'' @ ts @ x)"
      if "backslash \<notin> set x" for x
    using last_separator(1) [of fdir name "dir @ backslash # sd" "n @ ''_'' @ ts @ x"] assms that
    by (auto simp: backslash_def)
  from this [of "[]"] this [of "''.info''"]
  show "fdir @ backslash # name \<noteq> quarantined_path dir sd n ts"
    "fdir @ backslash # name \<noteq> quarantined_path dir sd n ts @ ''.info''"
    by (simp_all add: quarantined_path_def backslash_def)
qed

section \<open>Quarantining\<close>

text \<open>
  What quarantining a file does: a code 0 with the file moved and described, -5 with the file moved
  but not described, another negative code with the files unchanged, or the undefined notification
  after the file is moved.
\<close>

lemma quarantine_do_spec:
  assumes laws: "win_quarantine_laws os files handle"
    and paths: "quarantine_paths os dir sd fdir name"
    and sd: "qu_quarantine_dir qu = Some sd"
  obtains ts where "GetTimestampString os w = Some ts" "backslash \<notin> set ts"
    and "case win_quarantine_do os qu (Some (fdir @ backslash # name)) report w of
        None \<Rightarrow> \<exists>v. wq_notify os v = None
      | Some (r, w') \<Rightarrow> r \<le> 0 \<and> (let p = fdir @ backslash # name; q = quarantined_path dir sd name ts in
          if r = 0 \<or> r = -5
          then files w p \<noteq> None \<and> files w' p = None \<and> files w' q = files w p
               \<and> (\<exists>ts2. backslash \<notin> set ts2
                   \<and> (r = 0 \<longrightarrow> files w' (q @ ''.info'') = Some (description os ts2 (backslash # name @ ''_'' @ ts) p report))
                   \<and> (\<forall>f. f \<notin> {p, q, q @ ''.info'', quarantined_path dir ALERT_DIR name ts2 @ ''.info''} \<longrightarrow> files w' f = files w f))
          else files w' = files w)"
proof -
  note L = win_quarantine_lawsD [OF laws]
  let ?p = "fdir @ backslash # name"
  obtain exe where exe: "wq_module_file os = Some (dir @ backslash # exe)" "backslash \<notin> set exe"
    using paths unfolding quarantine_paths_def by blast
  have len: "length (dir @ backslash # sd @ backslash # name) + 16 \<le> WIN_MAX_PATH"
      "length (dir @ backslash # ALERT_DIR @ backslash # name) + 16 \<le> WIN_MAX_PATH"
    and p: "length ?p \<le> WIN_MAX_PATH" "backslash \<notin> set name"
    and apart: "sd \<noteq> ALERT_DIR" "fdir \<noteq> dir @ backslash # sd" "fdir \<noteq> dir @ backslash # ALERT_DIR"
    using paths by (simp_all add: quarantine_paths_def)
  obtain ts where ts: "GetTimestampString os w = Some ts" using L(1) by blast
  note tp = timestamp_plain [OF ts]
  let ?q = "quarantined_path dir sd name ts"
  have b: "BuildLocationFilePath os (Some ?p) (Some sd) w = Some (Some ?q)"
    unfolding quarantined_path_def using len(1) by (intro build_path [OF exe _ p ts]) simp
  have q: "?q = (dir @ backslash # sd) @ backslash # (name @ ''_'' @ ts)" "backslash \<notin> set (name @ ''_'' @ ts)"
      "length ?q \<le> WIN_MAX_PATH"
    using len(1) p(2) tp by (simp_all add: quarantined_path_def backslash_def)
  obtain c w1 where c: "CreateAvDirectory os (Some sd) w = Some (c, w1)" "files w1 = files w" "c = -3 \<or> c = 0 \<or> c = 1"
  proof -
    have loc: "GetLocationCompletepath (wq_module_file os) sd = Some (Some (dir @ backslash # sd))"
      unfolding exe(1) using exe(2) len(1) by (intro location_path) auto
    obtain m w1 where m: "wq_mkdir os (dir @ backslash # sd) w = (m, w1)" by fastforce
    show ?thesis
    proof (cases "wq_exists os (dir @ backslash # sd) w")
      case True
      then show ?thesis using that [of 1 w] loc by (simp add: CreateAvDirectory_def)
    next
      case False
      then show ?thesis
        using that [of "if m then 0 else -3" w1] L(2) [of "dir @ backslash # sd" w] loc m
        by (cases m) (simp_all add: CreateAvDirectory_def)
    qed
  qed
  let ?R = "win_quarantine_do os qu (Some ?p) report w"
  let ?out = "\<lambda>(r::int) w'. if r = 0 \<or> r = -5
          then files w ?p \<noteq> None \<and> files w' ?p = None \<and> files w' ?q = files w ?p
               \<and> (\<exists>ts2. backslash \<notin> set ts2
                   \<and> (r = 0 \<longrightarrow> files w' (?q @ ''.info'') = Some (description os ts2 (backslash # name @ ''_'' @ ts) ?p report))
                   \<and> (\<forall>f. f \<notin> {?p, ?q, ?q @ ''.info'', quarantined_path dir ALERT_DIR name ts2 @ ''.info''} \<longrightarrow> files w' f = files w f))
          else files w' = files w"
  have "case ?R of None \<Rightarrow> \<exists>v. wq_notify os v = None | Some (r, w') \<Rightarrow> r \<le> (0::int) \<and> ?out r w'"
  proof (cases "c < 0")
    case True
    then show ?thesis using b c sd by (simp add: win_quarantine_do_def)
  next
    case c0: False
    obtain ok w2 where mv: "wq_move os ?p ?q w1 = (ok, w2)" by fastforce
    show ?thesis
    proof (cases ok)
      case False
      then show ?thesis using b c sd c0 mv L(4) [of ?p ?q w1 w2] by (simp add: win_quarantine_do_def)
    next
      case True
      have moved: "files w ?p \<noteq> None" "files w2 = (files w)(?p := None, ?q := files w ?p)"
        using L(3) [of ?p ?q w1 w2] mv True c(2) by simp_all
      obtain ts2 w3 r where ts2: "GetTimestampString os w2 = Some ts2"
        and wi: "WriteQuarantineInfoFile os ?p ?q report w2 = Some (r, w3)"
        and res: "if r = 0 then files w3 (?q @ ''.info'') = Some (description os ts2 (backslash # name @ ''_'' @ ts) ?p report) else r = -3"
        and frame: "\<And>f. f \<noteq> ?q @ ''.info'' \<Longrightarrow> f \<noteq> quarantined_path dir ALERT_DIR name ts2 @ ''.info'' \<Longrightarrow> files w3 f = files w2 f"
        using write_info_spec [OF laws exe _ p q len(2), of w2 report] len(2)
        unfolding quarantined_path_def by (auto simp: ALERT_DIR_def)
      note tp2 = timestamp_plain(1) [OF ts2]
      have d: "?p \<noteq> ?q" "?p \<noteq> ?q @ ''.info''" "?p \<noteq> quarantined_path dir ALERT_DIR name ts2 @ ''.info''"
        using quarantined_path_outside [OF apart(2) p(2) p(2) tp(1)]
          quarantined_path_outside(2) [OF apart(3) p(2) p(2) tp2] by blast+
      have "?q \<noteq> quarantined_path dir ALERT_DIR name ts2 @ ''.info''"
        using last_separator(1) [of "dir @ backslash # sd" "name @ ''_'' @ ts" "dir @ backslash # ALERT_DIR" "name @ ''_'' @ ts2 @ ''.info''"]
          p(2) tp(1) tp2 apart(1) by (auto simp: quarantined_path_def backslash_def)
      then have at: "files w3 ?p = None" "files w3 ?q = files w ?p"
        using frame [of ?p] frame [of ?q] d moved by simp_all
      have rest: "\<forall>f. f \<notin> {?p, ?q, ?q @ ''.info'', quarantined_path dir ALERT_DIR name ts2 @ ''.info''} \<longrightarrow> files w3 f = files w f"
        using frame moved(2) by simp
      have ex: "\<exists>ts2. backslash \<notin> set ts2
          \<and> (r = 0 \<longrightarrow> files w3 (?q @ ''.info'') = Some (description os ts2 (backslash # name @ ''_'' @ ts) ?p report))
          \<and> (\<forall>f. f \<notin> {?p, ?q, ?q @ ''.info'', quarantined_path dir ALERT_DIR name ts2 @ ''.info''} \<longrightarrow> files w3 f = files w f)"
        using rest res tp2 by (intro exI [of _ ts2]) (simp split: if_splits)
      have out: "?out (if r = 0 then 0 else -5) v" if v: "files v = files w3" for v
      proof (cases "r = 0")
        case True
        show ?thesis
          unfolding v if_P [OF True] using moved(1) at ex True by (simp only: simp_thms if_True)
      next
        case False
        have "\<exists>ts2. backslash \<notin> set ts2
          \<and> (\<forall>f. f \<notin> {?p, ?q, ?q @ ''.info'', quarantined_path dir ALERT_DIR name ts2 @ ''.info''} \<longrightarrow> files w3 f = files w f)"
          using ex by (elim exE conjE) (intro exI conjI)
        then show ?thesis
          unfolding v if_not_P [OF False] using moved(1) at by (simp del: insert_iff)
      qed
      have R: "?R = (if r \<noteq> 0 then Some (-5, w3) else map_option (Pair 0) (wq_notify os w3))"
        using b c sd c0 mv True wi by (simp add: win_quarantine_do_def)
      show ?thesis
      proof (cases "r = 0")
        case False
        then show ?thesis using R out [of w3] by simp
      next
        case True
        then show ?thesis using R out L(12) [of w3] by (cases "wq_notify os w3") (auto simp: simp del: insert_iff)
      qed
    qed
  qed
  then show thesis
    using that [OF ts tp(1)] unfolding Let_def by blast
qed

lemma quarantine_done:
  assumes "win_quarantine_laws os files handle" "quarantine_paths os dir sd fdir name"
    and "qu_quarantine_dir qu = Some sd"
    and "win_quarantine_do os qu (Some (fdir @ backslash # name)) report w = Some (0, w')"
  obtains ts ts2 where "GetTimestampString os w = Some ts" "backslash \<notin> set ts" "backslash \<notin> set ts2"
    and "files w' (fdir @ backslash # name) = None"
    and "files w' (quarantined_path dir sd name ts) = files w (fdir @ backslash # name)"
    and "\<forall>f. f \<notin> {fdir @ backslash # name, quarantined_path dir sd name ts, quarantined_path dir sd name ts @ ''.info'',
        quarantined_path dir ALERT_DIR name ts2 @ ''.info''} \<longrightarrow> files w' f = files w f"
proof -
  from quarantine_do_spec [OF assms(1-3), where w = w and report = report] obtain ts where
    ts: "GetTimestampString os w = Some ts" "backslash \<notin> set ts"
    and *: "case win_quarantine_do os qu (Some (fdir @ backslash # name)) report w of
        None \<Rightarrow> \<exists>v. wq_notify os v = None
      | Some (r, w') \<Rightarrow> r \<le> 0 \<and> (let p = fdir @ backslash # name; q = quarantined_path dir sd name ts in
          if r = 0 \<or> r = -5
          then files w p \<noteq> None \<and> files w' p = None \<and> files w' q = files w p
               \<and> (\<exists>ts2. backslash \<notin> set ts2
                   \<and> (r = 0 \<longrightarrow> files w' (q @ ''.info'') = Some (description os ts2 (backslash # name @ ''_'' @ ts) p report))
                   \<and> (\<forall>f. f \<notin> {p, q, q @ ''.info'', quarantined_path dir ALERT_DIR name ts2 @ ''.info''} \<longrightarrow> files w' f = files w f))
          else files w' = files w)" .
  note D = * [unfolded assms(4) option.case prod.case Let_def, THEN conjunct2, simplified simp_thms if_True]
  then show thesis using that [OF ts] by blast
qed

lemma malware_is_quarantined:
  assumes "ctrue (qu_enable qu)" "rep_status report = A6O_FILE_MALWARE"
  shows "win_quarantine_callback os qu report w =
    (case win_quarantine_do os qu (rep_path report) report w of None \<Rightarrow> None
     | Some (r, w1) \<Rightarrow> Some (if r = 0 then report\<lparr>rep_action := rep_action report OR A6O_ACTION_QUARANTINE\<rparr> else report, w1))"
  using assms by (simp add: win_quarantine_callback_def)

text \<open>
  A detected file is never lost by the quarantine. When the report says that the file was
  quarantined, the file is gone from its path, its content is in the quarantine directory under its
  name and the time, and its description is beside it; otherwise the report is unchanged and so are the
  files, or the content has moved without being reported. Nothing is returned only when the notification,
  whose format lacks its argument, is undefined.
\<close>

theorem win_quarantine_moves_or_keeps:
  assumes "win_quarantine_laws os files handle" "quarantine_paths os dir sd fdir name"
    and "qu_quarantine_dir qu = Some sd" "ctrue (qu_enable qu)"
    and "rep_status report = A6O_FILE_MALWARE" "rep_path report = Some (fdir @ backslash # name)"
  shows "\<exists>ts. GetTimestampString os w = Some ts \<and>
    (case win_quarantine_callback os qu report w of
       None \<Rightarrow> \<exists>v. wq_notify os v = None
     | Some (report', w') \<Rightarrow> (let p = fdir @ backslash # name; q = quarantined_path dir sd name ts in
         report' = report\<lparr>rep_action := rep_action report OR A6O_ACTION_QUARANTINE\<rparr>
           \<and> files w p \<noteq> None \<and> files w' p = None \<and> files w' q = files w p
           \<and> (\<exists>ts2. files w' (q @ ''.info'') = Some (description os ts2 (backslash # name @ ''_'' @ ts) p report))
         \<or> report' = report \<and> (files w' = files w
             \<or> files w p \<noteq> None \<and> files w' p = None \<and> files w' q = files w p)))"
proof -
  let ?p = "fdir @ backslash # name" and ?R = "win_quarantine_do os qu (rep_path report) report w"
  from quarantine_do_spec [OF assms(1-3), where w = w and report = report] obtain ts where
    ts: "GetTimestampString os w = Some ts"
    and spec: "case ?R of None \<Rightarrow> \<exists>v. wq_notify os v = None
      | Some (r, w') \<Rightarrow> r \<le> 0 \<and> (let p = ?p; q = quarantined_path dir sd name ts in
          if r = 0 \<or> r = -5
          then files w p \<noteq> None \<and> files w' p = None \<and> files w' q = files w p
               \<and> (\<exists>ts2. backslash \<notin> set ts2
                   \<and> (r = 0 \<longrightarrow> files w' (q @ ''.info'') = Some (description os ts2 (backslash # name @ ''_'' @ ts) p report))
                   \<and> (\<forall>f. f \<notin> {p, q, q @ ''.info'', quarantined_path dir ALERT_DIR name ts2 @ ''.info''} \<longrightarrow> files w' f = files w f))
          else files w' = files w)"
    unfolding assms(6) .
  show ?thesis
  proof (cases ?R)
    case None
    then show ?thesis
      using ts spec by (simp add: malware_is_quarantined [OF assms(4,5)])
  next
    case (Some x)
    obtain r w' where x: "x = (r, w')" by fastforce
    note S = spec [unfolded Some x option.case prod.case Let_def, THEN conjunct2]
    have R: "win_quarantine_callback os qu report w =
        Some (if r = 0 then report\<lparr>rep_action := rep_action report OR A6O_ACTION_QUARANTINE\<rparr> else report, w')"
      by (simp add: malware_is_quarantined [OF assms(4,5)] Some x)
    show ?thesis
    proof (cases "r = 0")
      case True
      have "files w ?p \<noteq> None \<and> files w' ?p = None \<and> files w' (quarantined_path dir sd name ts) = files w ?p
           \<and> (\<exists>ts2. files w' (quarantined_path dir sd name ts @ ''.info'')
                = Some (description os ts2 (backslash # name @ ''_'' @ ts) ?p report))"
        using S unfolding True by (simp only: simp_thms if_True) blast
      then show ?thesis
        unfolding R option.case prod.case Let_def if_P [OF True] using ts by (intro exI [of _ ts]) simp
    next
      case False
      with S have "files w' = files w \<or> files w ?p \<noteq> None \<and> files w' ?p = None
          \<and> files w' (quarantined_path dir sd name ts) = files w ?p"
        by meson
      then show ?thesis
        unfolding R option.case prod.case Let_def if_not_P [OF False] using ts by (intro exI [of _ ts]) simp
    qed
  qed
qed

text \<open>
  A finding: two detected files of the same name that are quarantined in the same second take the
  same path in the quarantine, and the second replaces the first. Both are reported as quarantined, and
  the content of the first is nowhere.
\<close>

theorem quarantine_replaces:
  assumes "win_quarantine_laws os files handle"
    and "quarantine_paths os dir sd fdir name" "quarantine_paths os dir sd fdir2 name" "fdir2 \<noteq> fdir"
    and "qu_quarantine_dir qu = Some sd"
    and "win_quarantine_do os qu (Some (fdir @ backslash # name)) report w = Some (0, w1)"
    and "win_quarantine_do os qu (Some (fdir2 @ backslash # name)) report2 w1 = Some (0, w2)"
    and "wq_system_time os w1 = wq_system_time os w"
  shows "\<exists>ts. GetTimestampString os w = Some ts
    \<and> files w1 (quarantined_path dir sd name ts) = files w (fdir @ backslash # name)
    \<and> files w2 (quarantined_path dir sd name ts) = files w (fdir2 @ backslash # name)
    \<and> files w2 (fdir @ backslash # name) = None \<and> files w2 (fdir2 @ backslash # name) = None"
proof -
  let ?p = "fdir @ backslash # name" and ?p2 = "fdir2 @ backslash # name"
  have n: "backslash \<notin> set name" using assms(2) by (simp add: quarantine_paths_def)
  obtain ts tsa where ts: "GetTimestampString os w = Some ts" "backslash \<notin> set ts" "backslash \<notin> set tsa"
    and q1: "files w1 ?p = None" "files w1 (quarantined_path dir sd name ts) = files w ?p"
    and f1: "\<forall>f. f \<notin> {?p, quarantined_path dir sd name ts, quarantined_path dir sd name ts @ ''.info'',
        quarantined_path dir ALERT_DIR name tsa @ ''.info''} \<longrightarrow> files w1 f = files w f"
    using quarantine_done [OF assms(1,2,5,6)] by metis
  obtain ts1 tsb where ts1: "GetTimestampString os w1 = Some ts1" "backslash \<notin> set tsb"
    and q2: "files w2 ?p2 = None" "files w2 (quarantined_path dir sd name ts1) = files w1 ?p2"
    and f2: "\<forall>f. f \<notin> {?p2, quarantined_path dir sd name ts1, quarantined_path dir sd name ts1 @ ''.info'',
        quarantined_path dir ALERT_DIR name tsb @ ''.info''} \<longrightarrow> files w2 f = files w1 f"
    using quarantine_done [OF assms(1,3,5,7)] by metis
  have same: "ts1 = ts" using ts1(1) ts(1) assms(8) by (simp add: GetTimestampString_def)
  have apart: "fdir \<noteq> dir @ backslash # sd" "fdir \<noteq> dir @ backslash # ALERT_DIR"
      "fdir2 \<noteq> dir @ backslash # sd" "fdir2 \<noteq> dir @ backslash # ALERT_DIR"
    using assms(2,3) by (simp_all add: quarantine_paths_def)
  have "files w1 ?p2 = files w ?p2"
    using f1 [rule_format, of ?p2] assms(4) quarantined_path_outside [OF apart(3) n n ts(2)]
      quarantined_path_outside(2) [OF apart(4) n n ts(3)] by simp
  moreover have "files w2 ?p = files w1 ?p"
    using f2 [rule_format, of ?p] assms(4) quarantined_path_outside [OF apart(1) n n ts(2)]
      quarantined_path_outside(2) [OF apart(2) n n ts1(2)] by (simp add: same)
  ultimately show ?thesis using ts(1) q1 q2 by (simp add: same)
qed

section \<open>Witnesses\<close>

text \<open>
  A disk that holds the files of a path each: the program is \<open>c:\\av\\a.exe\<close>, and only the description
  \<open>info\<close> can be created.
\<close>

definition sample_disk :: "string \<Rightarrow> (string \<Rightarrow> string option) win_quarantine_os" where
  "sample_disk info = \<lparr>wq_module_file = Some ([CHR ''c''] @ backslash # ''a.exe''),
     wq_system_time = (\<lambda>_. (2016, 2, 3, 4, 5, 6)), wq_exists = (\<lambda>_ _. True), wq_mkdir = (\<lambda>_ w. (True, w)),
     wq_move = (\<lambda>p q w. if w p = None then (False, w) else (True, w(p := None, q := w p))),
     wq_create = (\<lambda>p w. if p = info then (Some 0, w(p := Some [])) else (None, w)),
     wq_write = (\<lambda>h c w. (True, w(info := Some c))), wq_close = (\<lambda>_ w. w),
     wq_copy = (\<lambda>p q w. if w q = None then (True, w(q := w p)) else (False, w)),
     wq_to_json = (\<lambda>_. Some ''{}''), wq_notify = Some\<rparr>"

definition sample_stamp :: string where "sample_stamp = ''20160203040506''"

lemma sample_stamp_is: "GetTimestampString (sample_disk info) w = Some sample_stamp"
  by (simp add: GetTimestampString_def sample_disk_def zero_padded_def sample_stamp_def decimal.simps digit_char_def char_of_def bit_0)

lemma sample_disk_laws: "win_quarantine_laws (sample_disk info) (\<lambda>w. w) (\<lambda>_. info)"
  unfolding win_quarantine_laws_def sample_stamp_is
  by (auto simp: sample_disk_def split: if_splits)

lemma sample_disk_paths:
  "quarantine_paths (sample_disk info) ''c'' ''q'' ''d'' ''x''" "quarantine_paths (sample_disk info) ''c'' ''q'' ''e'' ''x''"
  by (simp_all add: quarantine_paths_def sample_disk_def WIN_MAX_PATH_def ALERT_DIR_def backslash_def)

definition sample_info_path :: string where
  "sample_info_path = quarantined_path ''c'' ''q'' ''x'' sample_stamp @ ''.info''"

definition sample_qu :: quarantine_data where "sample_qu = \<lparr>qu_quarantine_dir = Some ''q'', qu_enable = 1\<rparr>"

definition sample_detected :: a6o_report where
  "sample_detected = (a6o_report_init (Some (''d'' @ backslash # ''x'')))\<lparr>rep_status := A6O_FILE_MALWARE\<rparr>"

definition two_viruses :: "string \<Rightarrow> string option" where
  "two_viruses = Map.empty(''d'' @ backslash # ''x'' \<mapsto> ''one'', ''e'' @ backslash # ''x'' \<mapsto> ''two'')"

text \<open>Quarantining on the disk succeeds for a file that is there.\<close>

lemma sample_quarantine:
  assumes "w (fdir @ backslash # ''x'') \<noteq> None" "quarantine_paths (sample_disk sample_info_path) ''c'' ''q'' fdir ''x''"
  shows "\<exists>w'. win_quarantine_do (sample_disk sample_info_path) sample_qu (Some (fdir @ backslash # ''x'')) report w = Some (0, w')"
proof -
  let ?os = "sample_disk sample_info_path" and ?p = "fdir @ backslash # ''x''"
  let ?q = "quarantined_path ''c'' ''q'' ''x'' sample_stamp"
  have exe: "wq_module_file ?os = Some (''c'' @ backslash # ''a.exe'')" "backslash \<notin> set ''a.exe''"
    by (simp_all add: sample_disk_def backslash_def)
  have n: "length ?p \<le> WIN_MAX_PATH" "backslash \<notin> set ''x''"
    using assms(2) by (simp_all add: quarantine_paths_def)
  have b: "BuildLocationFilePath ?os (Some ?p) (Some ''q'') w = Some (Some ?q)" for w
    unfolding quarantined_path_def by (intro build_path [OF exe _ n sample_stamp_is]) (simp add: WIN_MAX_PATH_def)
  have a: "BuildLocationFilePath ?os (Some ?p) (Some ALERT_DIR) w = Some (Some (quarantined_path ''c'' ALERT_DIR ''x'' sample_stamp))" for w
    unfolding quarantined_path_def
    by (intro build_path [OF exe _ n sample_stamp_is]) (simp add: WIN_MAX_PATH_def ALERT_DIR_def)
  have wi: "with_info ?q = Some sample_info_path"
      "with_info (quarantined_path ''c'' ALERT_DIR ''x'' sample_stamp) = Some (quarantined_path ''c'' ALERT_DIR ''x'' sample_stamp @ ''.info'')"
    unfolding sample_info_path_def
    by (intro with_info_path, simp add: quarantined_path_def sample_stamp_def WIN_MAX_PATH_def ALERT_DIR_def)+
  have f: "GetFilenameFromPath (Some ?q) \<noteq> None"
    using strrchr_last [of backslash "''x_'' @ sample_stamp" "''c'' @ backslash # ''q''"]
    by (simp add: GetFilenameFromPath_def quarantined_path_def sample_stamp_def backslash_def)
  have d: "CreateAvDirectory ?os (Some ''q'') w = Some (1, w)"
    using location_path [OF exe(2), of "''q''" "''c''"] unfolding CreateAvDirectory_def option.case exe(1)
    by (simp add: sample_disk_def WIN_MAX_PATH_def)
  obtain w2 where m: "wq_move ?os ?p ?q w = (True, w2)"
    using assms(1) by (auto simp: sample_disk_def)
  have r: "\<exists>w3. WriteQuarantineInfoFile ?os ?p ?q report w2 = Some (0, w3)"
    unfolding WriteQuarantineInfoFile_def wi a sample_stamp_is bind.simps
    using f by (auto simp: info_fields_def sample_disk_def)
  have v: "wq_notify ?os = Some" by (simp add: sample_disk_def)
  show ?thesis
    using r b d m v by (auto simp: win_quarantine_do_def sample_qu_def)
qed

theorem win_quarantine_moves_or_keeps_witness:
  "\<exists>r w'. win_quarantine_callback (sample_disk sample_info_path) sample_qu sample_detected two_viruses = Some (r, w')
    \<and> rep_action r = A6O_ACTION_QUARANTINE \<and> w' (''d'' @ backslash # ''x'') = None
    \<and> w' (quarantined_path ''c'' ''q'' ''x'' sample_stamp) = Some ''one''"
proof -
  have p: "rep_path sample_detected = Some (''d'' @ backslash # ''x'')" "rep_status sample_detected = A6O_FILE_MALWARE"
    and e: "ctrue (qu_enable sample_qu)" "qu_quarantine_dir sample_qu = Some ''q''"
    and f: "two_viruses (''d'' @ backslash # ''x'') = Some ''one''"
    by (simp_all add: sample_detected_def sample_qu_def two_viruses_def a6o_report_init_def)
  obtain w' where "win_quarantine_do (sample_disk sample_info_path) sample_qu (rep_path sample_detected) sample_detected two_viruses
      = Some (0, w')"
    using sample_quarantine [OF _ sample_disk_paths(1), of two_viruses sample_detected] f p(1) by auto
  then have c: "win_quarantine_callback (sample_disk sample_info_path) sample_qu sample_detected two_viruses
      = Some (sample_detected\<lparr>rep_action := A6O_ACTION_QUARANTINE\<rparr>, w')"
    by (simp add: malware_is_quarantined [OF e(1) p(2)]) (simp add: sample_detected_def a6o_report_init_def A6O_ACTION_NONE_def)
  have n: "sample_detected\<lparr>rep_action := A6O_ACTION_QUARANTINE\<rparr> \<noteq> sample_detected"
    by (simp add: sample_detected_def a6o_report_init_def A6O_ACTION_NONE_def A6O_ACTION_QUARANTINE_def)
  show ?thesis
    using win_quarantine_moves_or_keeps [OF sample_disk_laws [of sample_info_path] sample_disk_paths(1) e(2,1) p(2,1),
        where w = two_viruses, unfolded c Let_def option.case prod.case sample_stamp_is] n f c
    by (auto simp: sample_detected_def a6o_report_init_def A6O_ACTION_NONE_def)
qed

theorem quarantine_replaces_witness:
  "\<exists>w2. w2 (quarantined_path ''c'' ''q'' ''x'' sample_stamp) = Some ''two''
    \<and> w2 (''d'' @ backslash # ''x'') = None \<and> w2 (''e'' @ backslash # ''x'') = None"
proof -
  let ?do = "\<lambda>d. win_quarantine_do (sample_disk sample_info_path) sample_qu (Some (d @ backslash # ''x'')) sample_detected"
  have f: "two_viruses (''d'' @ backslash # ''x'') = Some ''one''" "two_viruses (''e'' @ backslash # ''x'') = Some ''two''"
    and q: "qu_quarantine_dir sample_qu = Some ''q''"
    by (simp_all add: two_viruses_def sample_qu_def)
  obtain w1 where w1: "?do ''d'' two_viruses = Some (0, w1)"
    using sample_quarantine [OF _ sample_disk_paths(1)] f(1) by auto
  note D = quarantine_done [OF sample_disk_laws sample_disk_paths(1) q w1]
  have "w1 (''e'' @ backslash # ''x'') = Some ''two''"
    by (rule D) (use f(2) in \<open>simp add: quarantined_path_def backslash_def\<close>)
  then obtain w2 where w2: "?do ''e'' w1 = Some (0, w2)"
    using sample_quarantine [OF _ sample_disk_paths(2), of w1] by auto
  have "wq_system_time (sample_disk sample_info_path) w1 = wq_system_time (sample_disk sample_info_path) two_viruses"
    by (simp add: sample_disk_def)
  from quarantine_replaces [OF sample_disk_laws sample_disk_paths(1) sample_disk_paths(2) _ q w1 w2 this] f
  show ?thesis by (auto simp: sample_stamp_is)
qed

end
