(* ===== verification/Spec2Isabelle.thy ===== *)
theory Spec2Isabelle
  imports AccessMonitor Armadito Buffer BuiltinModules Clients Conf ConfFile ConfParser ConfVal Daemon
    Event Fanotify GetOpt HashTable Inotify Interfaces Journal Jrpc JrpcExchange Json Log Marshall
    MimeType Module OnDemand OsDir OsFile Prelude Registry Rpcbe ScanConf ScanCtx ScanPool Server
    Service Signature Status StdPaths WatchQueue WinFiles WinOnAccess WinOnDemand WinQuarantine
begin

text \<open>Verification development of the Armadito antivirus daemon.\<close>

end
